(* ===== verification/Prelude.thy ===== *)
theory Prelude
  imports Main "HOL-Library.Word" "HOL-Library.Char_ord" "HOL-Library.List_Lexorder"
begin

text \<open>
  Shared vocabulary of the development: the machine integer types of
  \<^verbatim>\<open>src/src/common/Define.h\<close>, two's complement wrap-around for the 32-bit signed
  integers of the code, \<open>size_t\<close> sums, the state-and-exception computations of the
  packet code, and the theorem collections that the component proofs add to.
\<close>

unbundle bit_operations_syntax

section \<open>Theorem collections\<close>

named_theorems container_simps \<open>lookup and update laws of the standard containers\<close>
named_theorems container_ok \<open>preservation of the container invariants\<close>
named_theorems wire_simps \<open>what a buffer holds after a write\<close>

section \<open>Machine integers\<close>

type_synonym u8 = "8 word"
type_synonym u16 = "16 word"
type_synonym u32 = "32 word"
type_synonym u64 = "64 word"

text \<open>
  A 32-bit signed integer of the code is an \<open>int\<close>; every sum that the code stores in an
  \<open>int32\<close> goes through \<open>to_i32\<close>, the two's complement wrap-around.
\<close>

definition to_i32 :: "int \<Rightarrow> int" where
  "to_i32 x = (x + 2 ^ 31) mod 2 ^ 32 - 2 ^ 31"

definition is_i32 :: "int \<Rightarrow> bool" where
  "is_i32 x \<longleftrightarrow> - (2 ^ 31) \<le> x \<and> x < 2 ^ 31"

lemma to_i32_id: "is_i32 x \<Longrightarrow> to_i32 x = x"
  by (simp add: to_i32_def is_i32_def)

lemma is_i32_to_i32 [simp]: "is_i32 (to_i32 x)"
proof -
  have "0 \<le> (x + 2 ^ 31) mod 2 ^ 32" and "(x + 2 ^ 31) mod 2 ^ 32 < 2 ^ 32"
    by simp_all
  then show ?thesis
    by (simp add: to_i32_def is_i32_def)
qed

text \<open>A \<open>size_t\<close> sum wraps at 64 bits.\<close>

definition size_add :: "nat \<Rightarrow> nat \<Rightarrow> nat" where
  "size_add a b = (a + b) mod 2 ^ 64"

lemma size_add_small: "a + b < 2 ^ 64 \<Longrightarrow> size_add a b = a + b"
  by (simp add: size_add_def)

section \<open>Computations with a state and an exception\<close>

text \<open>
  A member function that may throw is a function from the object to the thrown exception or
  the result, together with the object as the call leaves it: an exception does not undo
  the assignments made before it.
\<close>

type_synonym ('s, 'e, 'a) throwing = "'s \<Rightarrow> ('e + 'a) \<times> 's"

definition ret :: "'a \<Rightarrow> ('s, 'e, 'a) throwing" where
  "ret a s = (Inr a, s)"

definition throw :: "'e \<Rightarrow> ('s, 'e, 'a) throwing" where
  "throw e s = (Inl e, s)"

definition andThen ::
  "('s, 'e, 'a) throwing \<Rightarrow> ('a \<Rightarrow> ('s, 'e, 'b) throwing) \<Rightarrow> ('s, 'e, 'b) throwing" where
  "andThen m k s = (case m s of (Inl e, s') \<Rightarrow> (Inl e, s') | (Inr a, s') \<Rightarrow> k a s')"

lemma andThen_Inr [simp]: "m s = (Inr a, s') \<Longrightarrow> andThen m k s = k a s'"
  by (simp add: andThen_def)

lemma andThen_Inl [simp]: "m s = (Inl e, s') \<Longrightarrow> andThen m k s = (Inl e, s')"
  by (simp add: andThen_def)

lemma ret_apply [simp]: "ret a s = (Inr a, s)"
  by (simp add: ret_def)

lemma throw_apply [simp]: "throw e s = (Inl e, s)"
  by (simp add: throw_def)

lemma andThen_ret [simp]: "andThen m ret = m"
  by (rule ext) (simp add: andThen_def ret_def split: prod.splits sum.splits)

lemma andThen_assoc: "andThen (andThen m k) h = andThen m (\<lambda>a. andThen (k a) h)"
  by (rule ext) (simp add: andThen_def split: prod.splits sum.splits)

section \<open>Flag words\<close>

text \<open>The test \<open>flags & fl\<close> in a condition: some bit of the fl is set.\<close>

definition has_flag :: "'a::len word \<Rightarrow> 'a word \<Rightarrow> bool" where
  "has_flag w fl \<longleftrightarrow> w AND fl \<noteq> 0"

definition set_flag :: "'a::len word \<Rightarrow> 'a word \<Rightarrow> 'a word" where
  "set_flag w fl = w OR fl"

definition clear_flag :: "'a::len word \<Rightarrow> 'a word \<Rightarrow> 'a word" where
  "clear_flag w fl = w AND NOT fl"

lemma has_flag_clear [simp]: "\<not> has_flag (clear_flag w fl) fl"
  by (simp add: has_flag_def clear_flag_def and.assoc)

lemma has_flag_set [simp]: "fl \<noteq> 0 \<Longrightarrow> has_flag (set_flag w fl) fl"
proof -
  assume "fl \<noteq> 0"
  moreover have "(w OR fl) AND fl = fl"
    by (simp add: bit_eq_iff bit_simps)
  ultimately show ?thesis by (simp add: has_flag_def set_flag_def)
qed

lemma has_flag_set_other:
  assumes "fl AND other = 0"
  shows "has_flag (set_flag w fl) other = has_flag w other"
proof -
  have "(w OR fl) AND other = (w AND other) OR (fl AND other)"
    by (simp add: bit_eq_iff bit_simps) blast
  with assms show ?thesis by (simp add: has_flag_def set_flag_def)
qed

lemma has_flag_clear_other:
  assumes "fl AND other = 0"
  shows "has_flag (clear_flag w fl) other = has_flag w other"
proof -
  have "(w AND NOT fl) AND other = w AND other"
  proof (rule bit_eqI)
    fix n assume "possible_bit TYPE('a word) n"
    have "bit (fl AND other) n = False" using assms by simp
    then show "bit ((w AND NOT fl) AND other) n = bit (w AND other) n"
      by (auto simp: bit_simps dest: bit_imp_le_length)
  qed
  then show ?thesis by (simp add: has_flag_def clear_flag_def)
qed

lemma has_flag_zero [simp]: "\<not> has_flag 0 fl"
  by (simp add: has_flag_def)

end
