(* ===== verification/StdContainers.thy ===== *)
theory StdContainers
  imports Prelude "HOL-Library.Multiset"
begin

text \<open>
  The ordered containers of the C++ standard library as the code uses them.
  A \<open>std::map\<close> is the list of its entries in iteration order, strictly ascending in the key
  (\<open>map_ok\<close>); \<open>operator[]\<close> inserts a default entry where the key is missing
  (\<open>smap_at\<close>). A \<open>std::multimap\<close> keeps equal keys in insertion order, and a
  \<open>std::set\<close> is the strictly ascending list of its elements.
\<close>

section \<open>std::map\<close>

type_synonym ('k, 'v) smap = "('k \<times> 'v) list"

definition map_ok :: "('k::linorder, 'v) smap \<Rightarrow> bool" where
  "map_ok m \<longleftrightarrow> sorted_wrt (<) (map fst m)"

definition smap_find :: "('k, 'v) smap \<Rightarrow> 'k \<Rightarrow> 'v option" where
  "smap_find m k = map_of m k"

fun smap_put :: "'k::linorder \<Rightarrow> 'v \<Rightarrow> ('k, 'v) smap \<Rightarrow> ('k, 'v) smap" where
  "smap_put k v [] = [(k, v)]"
| "smap_put k v ((a, b) # m) =
     (if k < a then (k, v) # (a, b) # m
      else if k = a then (k, v) # m
      else (a, b) # smap_put k v m)"

definition smap_erase :: "'k \<Rightarrow> ('k, 'v) smap \<Rightarrow> ('k, 'v) smap" where
  "smap_erase k m = filter (\<lambda>e. fst e \<noteq> k) m"

definition smap_keys :: "('k, 'v) smap \<Rightarrow> 'k set" where
  "smap_keys m = set (map fst m)"

text \<open>\<open>m[k]\<close>: the map as \<open>operator[]\<close> leaves it; the reference reads \<open>smap_get d m k\<close>.\<close>

definition smap_touch :: "'v \<Rightarrow> 'k::linorder \<Rightarrow> ('k, 'v) smap \<Rightarrow> ('k, 'v) smap" where
  "smap_touch d k m = (case smap_find m k of None \<Rightarrow> smap_put k d m | Some _ \<Rightarrow> m)"

definition smap_get :: "'v \<Rightarrow> ('k, 'v) smap \<Rightarrow> 'k \<Rightarrow> 'v" where
  "smap_get d m k = (case smap_find m k of None \<Rightarrow> d | Some v \<Rightarrow> v)"

text \<open>\<open>m[k].f(...)\<close>: the entry, default if missing, is changed in place.\<close>

definition smap_modify ::
  "'v \<Rightarrow> 'k::linorder \<Rightarrow> ('v \<Rightarrow> 'v) \<Rightarrow> ('k, 'v) smap \<Rightarrow> ('k, 'v) smap" where
  "smap_modify d k f m = smap_put k (f (smap_get d m k)) m"

subsection \<open>Lookup laws\<close>

lemma find_Nil [simp]: "smap_find [] k = None"
  by (simp add: smap_find_def)

lemma find_put [simp, container_simps]:
  "smap_find (smap_put k v m) j = (if j = k then Some v else smap_find m j)"
  by (induction k v m rule: smap_put.induct) (auto simp: smap_find_def)

lemma find_erase [simp, container_simps]:
  "smap_find (smap_erase k m) j = (if j = k then None else smap_find m j)"
  by (induction m) (auto simp: smap_find_def smap_erase_def)

lemma find_touch [simp, container_simps]:
  "smap_find (smap_touch d k m) j =
     (if j = k then Some (smap_get d m k) else smap_find m j)"
  by (auto simp: smap_touch_def smap_get_def split: option.splits)

lemma find_modify [simp, container_simps]:
  "smap_find (smap_modify d k f m) j =
     (if j = k then Some (f (smap_get d m k)) else smap_find m j)"
  by (simp add: smap_modify_def)

lemma get_Some [simp]: "smap_find m k = Some v \<Longrightarrow> smap_get d m k = v"
  by (simp add: smap_get_def)

lemma get_None [simp]: "smap_find m k = None \<Longrightarrow> smap_get d m k = d"
  by (simp add: smap_get_def)

lemma keys_find: "k \<in> smap_keys m \<longleftrightarrow> smap_find m k \<noteq> None"
  by (simp add: smap_keys_def smap_find_def map_of_eq_None_iff)

lemma keys_put [simp, container_simps]: "smap_keys (smap_put k v m) = insert k (smap_keys m)"
  by (auto simp: keys_find split: if_splits)

lemma keys_erase [simp, container_simps]: "smap_keys (smap_erase k m) = smap_keys m - {k}"
  by (auto simp: keys_find split: if_splits)

lemma keys_touch [simp, container_simps]: "smap_keys (smap_touch d k m) = insert k (smap_keys m)"
  by (auto simp: keys_find split: if_splits)

lemma keys_modify [simp, container_simps]:
  "smap_keys (smap_modify d k f m) = insert k (smap_keys m)"
  by (simp add: smap_modify_def)

lemma keys_Nil [simp]: "smap_keys [] = {}"
  by (simp add: smap_keys_def)

lemma keys_empty_iff: "smap_keys m = {} \<longleftrightarrow> m = []"
  by (simp add: smap_keys_def)

subsection \<open>The order is kept\<close>

lemma map_ok_Nil [simp]: "map_ok []"
  by (simp add: map_ok_def)

lemma map_ok_Cons: "map_ok ((a, b) # m) \<longleftrightarrow> (\<forall>j \<in> smap_keys m. a < j) \<and> map_ok m"
  by (simp add: map_ok_def smap_keys_def)

lemma ok_put [simp, container_ok]: "map_ok m \<Longrightarrow> map_ok (smap_put k v m)"
proof (induction k v m rule: smap_put.induct)
  case (1 k v)
  then show ?case by (simp add: map_ok_def)
next
  case (2 k v a b m)
  then show ?case
    by (auto simp: map_ok_Cons smap_keys_def)
      (metis "2.prems" fst_conv in_set_zipE keys_put insert_iff map_ok_Cons smap_keys_def
        list.set_map image_eqI not_less_iff_gr_or_eq)+
qed

lemma ok_erase [simp, container_ok]: "map_ok m \<Longrightarrow> map_ok (smap_erase k m)"
  by (simp add: map_ok_def smap_erase_def sorted_wrt_map sorted_wrt_filter)

lemma ok_touch [simp, container_ok]: "map_ok m \<Longrightarrow> map_ok (smap_touch d k m)"
  by (simp add: smap_touch_def split: option.splits)

lemma ok_modify [simp, container_ok]: "map_ok m \<Longrightarrow> map_ok (smap_modify d k f m)"
  by (simp add: smap_modify_def)

text \<open>In an ordered map the entries are exactly the lookups, and \<open>begin()\<close> is the least key.\<close>

lemma map_ok_distinct: "map_ok m \<Longrightarrow> distinct (map fst m)"
  by (simp add: map_ok_def strict_sorted_iff)

lemma in_set_find: "map_ok m \<Longrightarrow> (k, v) \<in> set m \<longleftrightarrow> smap_find m k = Some v"
  by (simp add: smap_find_def map_ok_distinct)

lemma find_in_set: "smap_find m k = Some v \<Longrightarrow> (k, v) \<in> set m"
  by (simp add: smap_find_def map_of_SomeD)

lemma begin_least:
  assumes "map_ok ((a, b) # m)" and "k \<in> smap_keys ((a, b) # m)"
  shows "a \<le> k"
  using assms by (auto simp: map_ok_Cons smap_keys_def)

lemma map_ok_ext:
  assumes "map_ok m" and "map_ok n" and "\<And>k. smap_find m k = smap_find n k"
  shows "m = n"
proof -
  have same: "set m = set n"
    using assms by (auto simp: in_set_find)
  show ?thesis
  proof (rule map_sorted_distinct_set_unique [where f = fst])
    show "inj_on fst (set m \<union> set n)"
      using same map_ok_distinct [OF assms(1)] by (simp add: distinct_map)
    show "sorted (map fst m)" "distinct (map fst m)" "sorted (map fst n)" "distinct (map fst n)"
      using assms(1,2) by (simp_all add: map_ok_def strict_sorted_iff)
    show "set m = set n" by (rule same)
  qed
qed

section \<open>std::multimap\<close>

type_synonym ('k, 'v) smultimap = "('k \<times> 'v) list"

definition mmap_ok :: "('k::linorder, 'v) smultimap \<Rightarrow> bool" where
  "mmap_ok m \<longleftrightarrow> sorted (map fst m)"

text \<open>\<open>insert\<close> places the new entry behind every entry with an equal key.\<close>

fun mmap_insert :: "'k::linorder \<Rightarrow> 'v \<Rightarrow> ('k, 'v) smultimap \<Rightarrow> ('k, 'v) smultimap" where
  "mmap_insert k v [] = [(k, v)]"
| "mmap_insert k v ((a, b) # m) = (if k < a then (k, v) # (a, b) # m else (a, b) # mmap_insert k v m)"

lemma mset_mmap_insert [simp, container_simps]:
  "mset (mmap_insert k v m) = add_mset (k, v) (mset m)"
  by (induction k v m rule: mmap_insert.induct) auto

lemma set_mmap_insert [simp, container_simps]: "set (mmap_insert k v m) = insert (k, v) (set m)"
  by (induction k v m rule: mmap_insert.induct) auto

lemma length_mmap_insert [simp]: "length (mmap_insert k v m) = Suc (length m)"
  by (induction k v m rule: mmap_insert.induct) auto

lemma mmap_insert_neq_Nil [simp]: "mmap_insert k v m \<noteq> []"
  by (cases m) (auto split: prod.splits if_splits)

lemma mmap_ok_Nil [simp]: "mmap_ok []"
  by (simp add: mmap_ok_def)

lemma mmap_ok_Cons: "mmap_ok (e # m) \<longleftrightarrow> (\<forall>x \<in> set m. fst e \<le> fst x) \<and> mmap_ok m"
  by (auto simp: mmap_ok_def)

lemma ok_mmap_insert [simp, container_ok]: "mmap_ok m \<Longrightarrow> mmap_ok (mmap_insert k v m)"
  by (induction k v m rule: mmap_insert.induct) (fastforce simp: mmap_ok_Cons)+

lemma ok_mmap_filter [simp, container_ok]: "mmap_ok m \<Longrightarrow> mmap_ok (filter P m)"
  by (induction m) (auto simp: mmap_ok_Cons)

section \<open>std::set\<close>

type_synonym 'a sset = "'a list"

definition set_ok :: "'a::linorder sset \<Rightarrow> bool" where
  "set_ok s \<longleftrightarrow> sorted_wrt (<) s"

fun sset_insert :: "'a::linorder \<Rightarrow> 'a sset \<Rightarrow> 'a sset" where
  "sset_insert x [] = [x]"
| "sset_insert x (y # s) = (if x < y then x # y # s else if x = y then y # s else y # sset_insert x s)"

definition sset_erase :: "'a \<Rightarrow> 'a sset \<Rightarrow> 'a sset" where
  "sset_erase x s = filter (\<lambda>y. y \<noteq> x) s"

lemma set_sset_insert [simp, container_simps]: "set (sset_insert x s) = insert x (set s)"
  by (induction x s rule: sset_insert.induct) auto

lemma set_sset_erase [simp, container_simps]: "set (sset_erase x s) = set s - {x}"
  by (auto simp: sset_erase_def)

lemma set_ok_Nil [simp]: "set_ok []"
  by (simp add: set_ok_def)

lemma set_ok_Cons: "set_ok (x # s) \<longleftrightarrow> (\<forall>y \<in> set s. x < y) \<and> set_ok s"
  by (simp add: set_ok_def)

lemma ok_sset_insert [simp, container_ok]: "set_ok s \<Longrightarrow> set_ok (sset_insert x s)"
  by (induction x s rule: sset_insert.induct) (fastforce simp: set_ok_Cons)+

lemma ok_sset_erase [simp, container_ok]: "set_ok s \<Longrightarrow> set_ok (sset_erase x s)"
  by (simp add: set_ok_def sset_erase_def sorted_wrt_filter)

lemma set_ok_distinct: "set_ok s \<Longrightarrow> distinct s"
  by (simp add: set_ok_def strict_sorted_iff)

lemma set_ok_ext: "set_ok s \<Longrightarrow> set_ok t \<Longrightarrow> set s = set t \<Longrightarrow> s = t"
  by (simp add: set_ok_def strict_sorted_equal)

end
