(* ===== verification/ByteBuffer.thy ===== *)
theory ByteBuffer
  imports StdContainers
begin

text \<open>
  \<^verbatim>\<open>src/src/server/shared/Packets/ByteBuffer.h\<close>: the growable byte array with a read and a
  write position that every packet is built in. A \<open>T\<close> of \<open>n\<close> bytes is a word of \<open>8 * n\<close>
  bits, stored least significant byte first (the little-endian branch of
  \<^verbatim>\<open>ByteConverter.h\<close>, where \<open>EndianConvert\<close> does nothing); a \<open>float\<close> or \<open>double\<close> is
  its IEEE bit pattern. Exceptions are values of \<open>bb_error\<close>; \<open>AssertFailed\<close> is the process
  stop of \<open>ASSERT\<close> and \<open>OutOfBounds\<close> an access outside the storage, which the code reaches
  only when a \<open>size_t\<close> sum wraps.
\<close>

section \<open>State and exceptions\<close>

record byte_buffer =
  rpos :: nat
  wpos :: nat
  storage :: "u8 list"

datatype bb_error =
    PositionException bool nat nat nat
  | SourceException nat nat nat
  | BufferException
  | AssertFailed
  | OutOfBounds

type_synonym ('z, 'a) bb = "('z byte_buffer_scheme, bb_error, 'a) throwing"

definition bb_size :: "'z byte_buffer_scheme \<Rightarrow> nat" where
  "bb_size b = length (storage b)"

definition bb_empty :: "'z byte_buffer_scheme \<Rightarrow> bool" where
  "bb_empty b = (storage b = [])"

definition bb_new :: byte_buffer where
  "bb_new = \<lparr>rpos = 0, wpos = 0, storage = []\<rparr>"

text \<open>The move constructor: the new buffer and the moved-from one, whose vector is left empty.\<close>

definition bb_move :: "byte_buffer \<Rightarrow> byte_buffer \<times> byte_buffer" where
  "bb_move b = (b, \<lparr>rpos = 0, wpos = 0, storage = []\<rparr>)"

text \<open>
  Copy assignment; move assignment leaves the source as the move constructor does (its
  positions reset, its vector empty). Assigning a buffer to itself changes nothing.
\<close>

definition bb_assign :: "byte_buffer \<Rightarrow> byte_buffer \<Rightarrow> byte_buffer" where
  "bb_assign right b = b\<lparr>rpos := rpos right, wpos := wpos right, storage := storage right\<rparr>"

definition bb_assign_move :: "byte_buffer \<Rightarrow> byte_buffer \<Rightarrow> byte_buffer \<times> byte_buffer" where
  "bb_assign_move right b =
     (b\<lparr>rpos := rpos right, wpos := wpos right, storage := storage right\<rparr>,
      right\<lparr>rpos := 0, wpos := 0, storage := []\<rparr>)"

definition bb_clear :: "'z byte_buffer_scheme \<Rightarrow> 'z byte_buffer_scheme" where
  "bb_clear b = b\<lparr>rpos := 0, wpos := 0, storage := []\<rparr>"

definition set_rpos :: "nat \<Rightarrow> 'z byte_buffer_scheme \<Rightarrow> 'z byte_buffer_scheme" where
  "set_rpos p b = b\<lparr>rpos := p\<rparr>"

definition set_wpos :: "nat \<Rightarrow> 'z byte_buffer_scheme \<Rightarrow> 'z byte_buffer_scheme" where
  "set_wpos p b = b\<lparr>wpos := p\<rparr>"

definition rfinish :: "'z byte_buffer_scheme \<Rightarrow> 'z byte_buffer_scheme" where
  "rfinish b = b\<lparr>rpos := wpos b\<rparr>"

text \<open>\<open>std::vector::resize(n, 0)\<close> and \<open>memcpy\<close> into the storage.\<close>

definition vec_resize :: "nat \<Rightarrow> u8 list \<Rightarrow> u8 list" where
  "vec_resize n xs = take n xs @ replicate (n - length xs) 0"

definition vec_copy :: "nat \<Rightarrow> u8 list \<Rightarrow> u8 list \<Rightarrow> u8 list" where
  "vec_copy p bs xs = take p xs @ bs @ drop (p + length bs) xs"

definition bb_resize :: "nat \<Rightarrow> 'z byte_buffer_scheme \<Rightarrow> 'z byte_buffer_scheme" where
  "bb_resize n b = b\<lparr>storage := vec_resize n (storage b), rpos := 0, wpos := n\<rparr>"

section \<open>Words as bytes\<close>

definition sizeof_word :: "'a::len word itself \<Rightarrow> nat" where
  "sizeof_word _ = LENGTH('a) div 8"

definition le_bytes :: "'a::len word \<Rightarrow> u8 list" where
  "le_bytes w = map (\<lambda>i. ucast (drop_bit (8 * i) w)) [0..<LENGTH('a) div 8]"

fun le_word :: "u8 list \<Rightarrow> 'a::len word" where
  "le_word [] = 0"
| "le_word (b # bs) = ucast b OR push_bit 8 (le_word bs)"

section \<open>Raw writes and reads\<close>

text \<open>\<open>append(const uint8* src, size_t cnt)\<close>; \<open>None\<close> is the null pointer.\<close>

definition append_raw :: "u8 list option \<Rightarrow> nat \<Rightarrow> ('z, unit) bb" where
  "append_raw src cnt b =
     (if cnt = 0 then (Inl (SourceException (wpos b) (bb_size b) cnt), b)
      else case src of
        None \<Rightarrow> (Inl (SourceException (wpos b) (bb_size b) cnt), b)
      | Some bs \<Rightarrow>
          if \<not> bb_size b < 10000000 then (Inl AssertFailed, b)
          else
            let st = (if bb_size b < size_add (wpos b) cnt
                      then vec_resize (size_add (wpos b) cnt) (storage b) else storage b)
            in if length st < wpos b + cnt \<or> length bs < cnt
               then (Inl OutOfBounds, b\<lparr>storage := st\<rparr>)
               else (Inr (), b\<lparr>storage := vec_copy (wpos b) (take cnt bs) st,
                               wpos := size_add (wpos b) cnt\<rparr>))"

text \<open>\<open>put(size_t pos, const uint8* src, size_t cnt)\<close> overwrites bytes already written.\<close>

definition put_raw :: "nat \<Rightarrow> u8 list option \<Rightarrow> nat \<Rightarrow> ('z, unit) bb" where
  "put_raw p src cnt b =
     (if bb_size b < size_add p cnt then (Inl (PositionException True p cnt (bb_size b)), b)
      else case src of
        None \<Rightarrow> (Inl (SourceException (wpos b) (bb_size b) cnt), b)
      | Some bs \<Rightarrow>
          if bb_size b < p + cnt \<or> length bs < cnt then (Inl OutOfBounds, b)
          else (Inr (), b\<lparr>storage := vec_copy p (take cnt bs) (storage b)\<rparr>))"

definition read_skip :: "nat \<Rightarrow> ('z, unit) bb" where
  "read_skip skip b =
     (if bb_size b < size_add (rpos b) skip
      then (Inl (PositionException False (rpos b) skip (bb_size b)), b)
      else (Inr (), b\<lparr>rpos := size_add (rpos b) skip\<rparr>))"

text \<open>\<open>T read(size_t pos) const\<close>\<close>

definition read_word_at :: "nat \<Rightarrow> 'z byte_buffer_scheme \<Rightarrow> bb_error + 'a::len word" where
  "read_word_at p b =
     (let n = sizeof_word TYPE('a word) in
      if bb_size b < size_add p n then Inl (PositionException False p n (bb_size b))
      else if bb_size b < p + n then Inl OutOfBounds
      else Inr (le_word (take n (drop p (storage b)))))"

text \<open>\<open>T read()\<close>\<close>

definition read_word :: "('z, 'a::len word) bb" where
  "read_word b =
     (case read_word_at (rpos b) b of
        Inl e \<Rightarrow> (Inl e, b)
      | Inr v \<Rightarrow> (Inr v, b\<lparr>rpos := size_add (rpos b) (sizeof_word TYPE('a word))\<rparr>))"

text \<open>\<open>read(uint8* dest, size_t len)\<close> returns the bytes copied to \<open>dest\<close>.\<close>

definition read_bytes :: "nat \<Rightarrow> ('z, u8 list) bb" where
  "read_bytes len b =
     (if bb_size b < size_add (rpos b) len
      then (Inl (PositionException False (rpos b) len (bb_size b)), b)
      else if bb_size b < rpos b + len then (Inl OutOfBounds, b)
      else (Inr (take len (drop (rpos b) (storage b))), b\<lparr>rpos := size_add (rpos b) len\<rparr>))"

definition bb_at :: "nat \<Rightarrow> 'z byte_buffer_scheme \<Rightarrow> bb_error + u8" where
  "bb_at p b =
     (if bb_size b \<le> p then Inl (PositionException False p 1 (bb_size b))
      else Inr (storage b ! p))"

definition contents :: "'z byte_buffer_scheme \<Rightarrow> bb_error + u8 list" where
  "contents b = (if storage b = [] then Inl BufferException else Inr (storage b))"

text \<open>\<open>append(const ByteBuffer&)\<close> copies the written prefix of the other buffer.\<close>

definition append_buffer :: "'y byte_buffer_scheme \<Rightarrow> ('z, unit) bb" where
  "append_buffer other b =
     (if wpos other \<noteq> 0
      then (case contents other of
              Inl e \<Rightarrow> (Inl e, b)
            | Inr bs \<Rightarrow> append_raw (Some bs) (wpos other) b)
      else (Inr (), b))"

section \<open>Typed writes\<close>

definition append_word :: "'a::len word \<Rightarrow> ('z, unit) bb" where
  "append_word w = append_raw (Some (le_bytes w)) (sizeof_word TYPE('a word))"

definition put_word :: "nat \<Rightarrow> 'a::len word \<Rightarrow> ('z, unit) bb" where
  "put_word p w = put_raw p (Some (le_bytes w)) (sizeof_word TYPE('a word))"

definition shl_u8 :: "u8 \<Rightarrow> ('z, unit) bb" where "shl_u8 v = append_word v"
definition shl_u16 :: "u16 \<Rightarrow> ('z, unit) bb" where "shl_u16 v = append_word v"
definition shl_u32 :: "u32 \<Rightarrow> ('z, unit) bb" where "shl_u32 v = append_word v"
definition shl_u64 :: "u64 \<Rightarrow> ('z, unit) bb" where "shl_u64 v = append_word v"

text \<open>The signed overloads append the two's complement pattern.\<close>

definition shl_i8 :: "int \<Rightarrow> ('z, unit) bb" where "shl_i8 v = append_word (word_of_int v :: u8)"
definition shl_i16 :: "int \<Rightarrow> ('z, unit) bb" where "shl_i16 v = append_word (word_of_int v :: u16)"
definition shl_i32 :: "int \<Rightarrow> ('z, unit) bb" where "shl_i32 v = append_word (word_of_int v :: u32)"
definition shl_i64 :: "int \<Rightarrow> ('z, unit) bb" where "shl_i64 v = append_word (word_of_int v :: u64)"

definition shl_float :: "u32 \<Rightarrow> ('z, unit) bb" where "shl_float bits = append_word bits"
definition shl_double :: "u64 \<Rightarrow> ('z, unit) bb" where "shl_double bits = append_word bits"

text \<open>
  \<open>(int)(x / 0.25f)\<close> on the bit pattern of \<open>x\<close>: the division is exact, the conversion drops
  the fraction, and is undefined for a result outside \<open>int\<close> (then \<open>None\<close>).
\<close>

definition float_quarters :: "u32 \<Rightarrow> int option" where
  "float_quarters bits =
     (let e = unat (drop_bit 23 bits AND 0xFF);
          m = uint (bits AND 0x7FFFFF) + (if e = 0 then 0 else 0x800000);
          t = (if e \<ge> 148 then m * 2 ^ (e - 148) else m div 2 ^ (148 - e));
          v = (if bit bits 31 then - t else t)
      in if e = 255 \<or> v < - (2 ^ 31) \<or> v \<ge> 2 ^ 31 then None else Some v)"

definition append_pack_xyz :: "u32 \<Rightarrow> u32 \<Rightarrow> u32 \<Rightarrow> (('z, unit) bb) option" where
  "append_pack_xyz x y z =
     (case (float_quarters x, float_quarters y, float_quarters z) of
        (Some qx, Some qy, Some qz) \<Rightarrow>
          Some (shl_u32 ((word_of_int qx AND 0x7FF) OR push_bit 11 (word_of_int qy AND 0x7FF)
                         OR push_bit 22 (word_of_int qz AND 0x3FF)))
      | _ \<Rightarrow> None)"

definition byte_of :: "char \<Rightarrow> u8" where
  "byte_of c = word_of_nat (of_char c)"

definition char_of_byte :: "u8 \<Rightarrow> char" where
  "char_of_byte w = char_of (unat w)"

definition shl_string :: "string \<Rightarrow> ('z, unit) bb" where
  "shl_string value =
     andThen (if length value \<noteq> 0
              then append_raw (Some (map byte_of value)) (length value) else ret ())
       (\<lambda>_. append_word (0 :: u8))"

definition shl_cstr :: "string option \<Rightarrow> ('z, unit) bb" where
  "shl_cstr str =
     (let s = (case str of None \<Rightarrow> [] | Some s \<Rightarrow> takeWhile (\<lambda>c. c \<noteq> CHR 0x00) s) in
      andThen (if length s \<noteq> 0 then append_raw (Some (map byte_of s)) (length s) else ret ())
        (\<lambda>_. append_word (0 :: u8)))"

section \<open>Typed reads\<close>

text \<open>\<open>read<char>() > 0\<close> compares a signed \<open>char\<close>.\<close>

definition shr_bool :: "('z, bool) bb" where
  "shr_bool = andThen read_word (\<lambda>c :: u8. ret (sint c > 0))"

definition shr_u8 :: "('z, u8) bb" where "shr_u8 = read_word"
definition shr_u16 :: "('z, u16) bb" where "shr_u16 = read_word"
definition shr_u32 :: "('z, u32) bb" where "shr_u32 = read_word"
definition shr_u64 :: "('z, u64) bb" where "shr_u64 = read_word"

definition shr_i8 :: "('z, int) bb" where
  "shr_i8 = andThen read_word (\<lambda>w :: u8. ret (sint w))"
definition shr_i16 :: "('z, int) bb" where
  "shr_i16 = andThen read_word (\<lambda>w :: u16. ret (sint w))"
definition shr_i32 :: "('z, int) bb" where
  "shr_i32 = andThen read_word (\<lambda>w :: u32. ret (sint w))"
definition shr_i64 :: "('z, int) bb" where
  "shr_i64 = andThen read_word (\<lambda>w :: u64. ret (sint w))"

text \<open>\<open>std::isfinite\<close>: the exponent field is not all ones.\<close>

definition shr_float :: "('z, u32) bb" where
  "shr_float = andThen read_word (\<lambda>w :: u32.
     if (drop_bit 23 w) AND 0xFF = 0xFF then throw BufferException else ret w)"

definition shr_double :: "('z, u64) bb" where
  "shr_double = andThen read_word (\<lambda>w :: u64.
     if (drop_bit 52 w) AND 0x7FF = 0x7FF then throw BufferException else ret w)"

section \<open>Strings\<close>

text \<open>
  \<open>operator>>(std::string&)\<close> reads up to a zero byte or to the end of the storage. The loop
  carries the characters read so far; each turn reads one byte, which bounds the number of
  turns by the bytes left.
\<close>

lemma read_word_u8_progress:
  fixes b b' :: "'z byte_buffer_scheme" and w :: u8
  assumes "read_word b = (Inr w, b')" and "rpos b < bb_size b" and "bb_size b < 2 ^ 64"
  shows "bb_size b' = bb_size b \<and> rpos b' = Suc (rpos b)"
  using assms
  by (auto simp: read_word_def read_word_at_def sizeof_word_def bb_size_def size_add_def
      split: if_splits)

function read_cstring :: "string \<Rightarrow> ('z, string) bb" where
  "read_cstring acc b =
     (if rpos b < bb_size b \<and> bb_size b < 2 ^ 64
      then (case read_word b of
              (Inl e, b') \<Rightarrow> (Inl e, b')
            | (Inr c, b') \<Rightarrow>
                if c = (0 :: u8) then (Inr acc, b') else read_cstring (acc @ [char_of_byte c]) b')
      else (Inr acc, b))"
  by pat_completeness auto
termination
  by (relation "measure (\<lambda>(acc, b). bb_size b - rpos b)")
    (auto dest!: read_word_u8_progress [OF sym])

definition shr_string :: "('z, string) bb" where
  "shr_string = read_cstring []"

definition read_skip_string :: "('z, unit) bb" where
  "read_skip_string = andThen shr_string (\<lambda>_. ret ())"

section \<open>Packed GUIDs\<close>

text \<open>
  \<open>appendPackGUID\<close>: the mask byte has bit \<open>i\<close> set when byte \<open>i\<close> of the GUID is not zero,
  and only those bytes follow. The loop shifts the GUID right until it is zero.
\<close>

function pack_guid_loop :: "u64 \<Rightarrow> nat \<Rightarrow> u8 \<Rightarrow> u8 list \<Rightarrow> u8 \<times> u8 list" where
  "pack_guid_loop guid i m out =
     (if guid \<noteq> 0
      then if guid AND 0xFF \<noteq> 0
           then pack_guid_loop (drop_bit 8 guid) (Suc i) (m OR push_bit i 1)
                  (out @ [ucast (guid AND 0xFF)])
           else pack_guid_loop (drop_bit 8 guid) (Suc i) m out
      else (m, out))"
  by pat_completeness auto
termination
proof (relation "measure (\<lambda>(guid, i, m, out). unat guid)")
  have "unat (drop_bit 8 g) < unat g" if "g \<noteq> 0" for g :: u64
    using that by (simp add: drop_bit_eq_div unat_div unat_gt_0)
  then show "((drop_bit 8 guid, Suc i, m OR push_bit i 1, out @ [ucast (guid AND 0xFF)]),
      guid, i, m, out) \<in> measure (\<lambda>(guid, i, m, out). unat guid)" if "guid \<noteq> 0"
    for guid :: u64 and i m and out :: "u8 list"
    using that by simp
  show "((drop_bit 8 guid, Suc i, m, out), guid, i, m, out)
      \<in> measure (\<lambda>(guid, i, m, out). unat guid)" if "guid \<noteq> 0"
    for guid :: u64 and i and m :: u8 and out :: "u8 list"
    using that \<open>\<And>g :: u64. g \<noteq> 0 \<Longrightarrow> unat (drop_bit 8 g) < unat g\<close> by simp
qed simp

declare pack_guid_loop.simps [simp del]

definition append_pack_guid :: "u64 \<Rightarrow> ('z, unit) bb" where
  "append_pack_guid guid =
     (case pack_guid_loop guid 0 0 [] of
        (m, out) \<Rightarrow> append_raw (Some (m # out)) (Suc (length out)))"

text \<open>\<open>readPackGUID\<close>: the \<open>for\<close> loop over the eight mask bits.\<close>

fun read_pack_loop :: "nat \<Rightarrow> nat \<Rightarrow> u8 \<Rightarrow> u64 \<Rightarrow> ('z, u64) bb" where
  "read_pack_loop 0 i m guid b = (Inr guid, b)"
| "read_pack_loop (Suc n) i m guid b =
     (if has_flag m (push_bit i 1)
      then if bb_size b < size_add (rpos b) 1
           then (Inl (PositionException False (rpos b) 1 (bb_size b)), b)
           else andThen shr_u8
                  (\<lambda>byte. read_pack_loop n (Suc i) m (guid OR push_bit (i * 8) (ucast byte))) b
      else read_pack_loop n (Suc i) m guid b)"

definition read_pack_guid :: "('z, u64) bb" where
  "read_pack_guid b =
     (if bb_size b < size_add (rpos b) 1
      then (Inl (PositionException False (rpos b) 1 (bb_size b)), b)
      else andThen shr_u8 (\<lambda>m. read_pack_loop 8 0 m 0) b)"

section \<open>Packed time\<close>

text \<open>The fields of \<open>struct tm\<close> the code uses; \<open>localtime_r\<close> and \<open>mktime\<close> are parameters.\<close>

record tm =
  tm_min :: int
  tm_hour :: int
  tm_mday :: int
  tm_mon :: int
  tm_year :: int
  tm_wday :: int

definition append_packed_time :: "('t \<Rightarrow> tm) \<Rightarrow> 't \<Rightarrow> ('z, unit) bb" where
  "append_packed_time localtime_r time =
     (let lt = localtime_r time;
          f = (\<lambda>v n. push_bit n (word_of_int v :: u32))
      in shl_u32 (f (tm_year lt - 100) 24 OR f (tm_mon lt) 20 OR f (tm_mday lt - 1) 14
                  OR f (tm_wday lt) 11 OR f (tm_hour lt) 6 OR word_of_int (tm_min lt)))"

definition read_packed_time :: "(tm \<Rightarrow> int) \<Rightarrow> ('z, u32) bb" where
  "read_packed_time mktime =
     andThen read_word (\<lambda>packed :: u32.
       ret (word_of_int (mktime
         \<lparr>tm_min = uint (packed AND 0x3F),
          tm_hour = uint (drop_bit 6 packed AND 0x1F),
          tm_mday = uint (drop_bit 14 packed AND 0x3F) + 1,
          tm_mon = uint (drop_bit 20 packed AND 0xF),
          tm_year = uint (drop_bit 24 packed AND 0x1F) + 100,
          tm_wday = 0\<rparr>)))"

section \<open>Containers\<close>

text \<open>
  The templates for \<open>std::vector\<close> and \<open>std::list\<close>: a 32-bit count, then the elements, each
  written with the element type's own operator. The read loop runs \<open>count\<close> times.
\<close>

fun shl_elements :: "('a \<Rightarrow> ('z, unit) bb) \<Rightarrow> 'a list \<Rightarrow> ('z, unit) bb" where
  "shl_elements shl [] = ret ()"
| "shl_elements shl (x # xs) = andThen (shl x) (\<lambda>_. shl_elements shl xs)"

definition shl_vector :: "('a \<Rightarrow> ('z, unit) bb) \<Rightarrow> 'a list \<Rightarrow> ('z, unit) bb" where
  "shl_vector shl v = andThen (shl_u32 (word_of_nat (length v))) (\<lambda>_. shl_elements shl v)"

definition shl_list :: "('a \<Rightarrow> ('z, unit) bb) \<Rightarrow> 'a list \<Rightarrow> ('z, unit) bb" where
  "shl_list shl v = andThen (shl_u32 (word_of_nat (length v))) (\<lambda>_. shl_elements shl v)"

fun shr_elements :: "('z, 'a) bb \<Rightarrow> nat \<Rightarrow> 'a list \<Rightarrow> ('z, 'a list) bb" where
  "shr_elements shr 0 acc = ret acc"
| "shr_elements shr (Suc n) acc = andThen shr (\<lambda>t. shr_elements shr n (acc @ [t]))"

definition shr_vector :: "('z, 'a) bb \<Rightarrow> ('z, 'a list) bb" where
  "shr_vector shr = andThen shr_u32 (\<lambda>n. shr_elements shr (unat n) [])"

definition shr_list :: "('z, 'a) bb \<Rightarrow> ('z, 'a list) bb" where
  "shr_list shr = andThen shr_u32 (\<lambda>n. shr_elements shr (unat n) [])"

definition shl_pair ::
  "('k \<Rightarrow> ('z, unit) bb) \<Rightarrow> ('v \<Rightarrow> ('z, unit) bb) \<Rightarrow> 'k \<times> 'v \<Rightarrow> ('z, unit) bb" where
  "shl_pair shk shv e = andThen (shk (fst e)) (\<lambda>_. shv (snd e))"

definition shl_map ::
  "('k \<Rightarrow> ('z, unit) bb) \<Rightarrow> ('v \<Rightarrow> ('z, unit) bb) \<Rightarrow> ('k, 'v) smap \<Rightarrow> ('z, unit) bb" where
  "shl_map shk shv m =
     andThen (shl_u32 (word_of_nat (length m))) (\<lambda>_. shl_elements (shl_pair shk shv) m)"

text \<open>\<open>std::map::insert\<close> does not replace an entry that is there.\<close>

definition smap_insert :: "'k::linorder \<Rightarrow> 'v \<Rightarrow> ('k, 'v) smap \<Rightarrow> ('k, 'v) smap" where
  "smap_insert k v m = (case smap_find m k of None \<Rightarrow> smap_put k v m | Some _ \<Rightarrow> m)"

fun shr_entries ::
  "('z, 'k::linorder) bb \<Rightarrow> ('z, 'v) bb \<Rightarrow> nat \<Rightarrow> ('k, 'v) smap \<Rightarrow> ('z, ('k, 'v) smap) bb" where
  "shr_entries shk shv 0 m = ret m"
| "shr_entries shk shv (Suc n) m =
     andThen shk (\<lambda>k. andThen shv (\<lambda>v. shr_entries shk shv n (smap_insert k v m)))"

definition shr_map :: "('z, 'k::linorder) bb \<Rightarrow> ('z, 'v) bb \<Rightarrow> ('z, ('k, 'v) smap) bb" where
  "shr_map shk shv = andThen shr_u32 (\<lambda>n. shr_entries shk shv (unat n) [])"

section \<open>The text of the exceptions\<close>

fun show_nat :: "nat \<Rightarrow> string" where
  "show_nat n = (if n < 10 then [char_of (48 + n)]
                 else show_nat (n div 10) @ [char_of (48 + n mod 10)])"

declare show_nat.simps [simp del]

text \<open>
  The constructors' parameters are \<open>(add, pos, size, valueSize)\<close> and
  \<open>(pos, size, valueSize)\<close>, in this order.
\<close>

fun what :: "bb_error \<Rightarrow> string" where
  "what (PositionException add pos sz vsz) =
     ''Attempted to '' @ (if add then ''put'' else ''get'') @ '' value with size: ''
       @ show_nat vsz @ '' in ByteBuffer (pos: '' @ show_nat pos @ '' size: ''
       @ show_nat sz @ '')''"
| "what (SourceException pos sz vsz) =
     ''Attempted to put a '' @ (if vsz > 0 then ''NULL-pointer'' else ''zero-sized value'')
       @ '' in ByteBuffer (pos: '' @ show_nat pos @ '' size: '' @ show_nat sz @ '')''"
| "what BufferException = []"
| "what AssertFailed = []"
| "what OutOfBounds = []"

end
