(* ===== verification/ByteBufferProps.thy ===== *)
theory ByteBufferProps
  imports ByteBuffer
begin

text \<open>
  What the byte buffer promises: each typed write followed by the matching read returns the
  value and leaves the read position behind it. The contract is the locale \<open>wire_type\<close>; it is
  interpreted for every operator of the buffer, and the container templates are proved
  once, inside it, for any element type.
\<close>

section \<open>Little-endian bytes\<close>

lemma length_le_bytes [simp]: "length (le_bytes (w :: 'a::len word)) = sizeof_word TYPE('a word)"
  by (simp add: le_bytes_def sizeof_word_def)

lemma bit_le_word:
  "bit (le_word bs :: 'a::len word) n \<longleftrightarrow>
     n < LENGTH('a) \<and> n div 8 < length bs \<and> bit (bs ! (n div 8)) (n mod 8)"
proof (induction bs arbitrary: n)
  case Nil
  then show ?case by simp
next
  case (Cons b bs)
  show ?case
  proof (cases "n < 8")
    case True
    then show ?thesis by (auto simp: bit_simps)
  next
    case False
    then have "n div 8 = Suc ((n - 8) div 8)" and "(n - 8) mod 8 = n mod 8"
      by (simp_all add: le_div_geq le_mod_geq)
    moreover have "\<not> bit b n"
      using False by (auto dest: bit_imp_le_length)
    ultimately show ?thesis
      using False Cons.IH [of "n - 8"] by (auto simp: bit_simps)
  qed
qed

lemma nth_le_bytes:
  "i < LENGTH('a::len) div 8 \<Longrightarrow> le_bytes (w :: 'a word) ! i = ucast (drop_bit (8 * i) w)"
  by (simp add: le_bytes_def)

lemma le_word_le_bytes [simp]:
  assumes "8 dvd LENGTH('a::len)"
  shows "le_word (le_bytes (w :: 'a word)) = w"
proof (rule bit_word_eqI)
  fix n assume n: "n < LENGTH('a)"
  have lt: "n div 8 < LENGTH('a) div 8"
    using assms n by (auto elim!: dvdE simp: less_mult_imp_div_less mult.commute)
  have m8: "n mod 8 < LENGTH(8)" by simp
  then show "bit (le_word (le_bytes w) :: 'a word) n = bit w n"
    using n lt m8
    by (simp add: bit_le_word nth_le_bytes sizeof_word_def bit_simps add.commute del: len_num0)
qed

section \<open>Appending to the end, reading from the front\<close>

definition appending :: "'z byte_buffer_scheme \<Rightarrow> bool" where
  "appending b \<longleftrightarrow> wpos b = length (storage b)"

definition bb_extend :: "u8 list \<Rightarrow> 'z byte_buffer_scheme \<Rightarrow> 'z byte_buffer_scheme" where
  "bb_extend bs b = b\<lparr>storage := storage b @ bs, wpos := wpos b + length bs\<rparr>"

definition readable :: "'z byte_buffer_scheme \<Rightarrow> u8 list \<Rightarrow> bool" where
  "readable b xs \<longleftrightarrow>
     rpos b \<le> length (storage b) \<and> length (storage b) < 2 ^ 63 \<and> drop (rpos b) (storage b) = xs"

definition advance :: "nat \<Rightarrow> 'z byte_buffer_scheme \<Rightarrow> 'z byte_buffer_scheme" where
  "advance n b = b\<lparr>rpos := rpos b + n\<rparr>"

lemma appending_bb_extend [simp, wire_simps]: "appending b \<Longrightarrow> appending (bb_extend bs b)"
  by (simp add: appending_def bb_extend_def)

lemma storage_extend [simp, wire_simps]: "storage (bb_extend bs b) = storage b @ bs"
  by (simp add: bb_extend_def)

lemma extend_extend [simp, wire_simps]: "bb_extend ds (bb_extend bs b) = bb_extend (bs @ ds) b"
  by (simp add: bb_extend_def add.assoc)

lemma extend_Nil [simp]: "bb_extend [] b = b"
  by (simp add: bb_extend_def)

lemma advance_advance [simp, wire_simps]: "advance n (advance m b) = advance (m + n) b"
  by (simp add: advance_def add.assoc)

lemma advance_0 [simp]: "advance 0 b = b"
  by (simp add: advance_def)

lemma readable_length: "readable b xs \<Longrightarrow> length (storage b) = rpos b + length xs"
  by (auto simp: readable_def)

lemma readable_advance [wire_simps]:
  assumes "readable b (xs @ ys)"
  shows "readable (advance (length xs) b) ys"
proof -
  have "drop (rpos b + length xs) (storage b) = drop (length xs) (drop (rpos b) (storage b))"
    by (simp add: add.commute)
  also have "\<dots> = ys" using assms by (simp add: readable_def)
  finally show ?thesis
    using assms readable_length [OF assms] by (simp add: readable_def advance_def)
qed

lemma readable_extend:
  assumes "rpos b = length (storage b)" and "length (storage b) + length bs < 2 ^ 63"
  shows "readable (bb_extend bs b) bs"
  using assms by (simp add: readable_def bb_extend_def)

lemma vec_copy_end: "vec_copy (length xs) bs (vec_resize (length xs + length bs) xs) = xs @ bs"
  by (simp add: vec_copy_def vec_resize_def)

lemma append_raw_end:
  assumes "appending b" and "bs \<noteq> []" and "length (storage b) + length bs \<le> 10000000"
  shows "append_raw (Some bs) (length bs) b = (Inr (), bb_extend bs b)"
proof -
  have lt: "bb_size b < 10000000" and small: "wpos b + length bs < 2 ^ 64"
    using assms by (auto simp: bb_size_def appending_def length_greater_0_conv [symmetric]
        simp del: length_greater_0_conv)
  have grow: "bb_size b < wpos b + length bs"
    using assms by (simp add: appending_def bb_size_def)
  have sum: "size_add (wpos b) (length bs) = wpos b + length bs"
    by (rule size_add_small [OF small])
  have copied: "vec_copy (wpos b) bs (vec_resize (wpos b + length bs) (storage b)) = storage b @ bs"
    using vec_copy_end [of "storage b" bs] assms(1) by (simp add: appending_def)
  have long: "length (vec_resize n xs) = n" for n xs
    by (simp add: vec_resize_def)
  show ?thesis
    using assms(2) lt grow by (simp add: append_raw_def sum copied long bb_extend_def Let_def)
qed

lemma read_word_front:
  fixes w :: "'a::len word"
  assumes "readable b (le_bytes w @ rest)" and "8 dvd LENGTH('a)" and "LENGTH('a) \<le> 64"
  shows "read_word b = (Inr w, advance (sizeof_word TYPE('a word)) b)"
proof -
  let ?n = "sizeof_word TYPE('a word)"
  have len: "length (storage b) = rpos b + (?n + length rest)"
    using readable_length [OF assms(1)] by simp
  have "?n \<le> 8" using assms(3) by (simp add: sizeof_word_def)
  moreover have "length (storage b) < 2 ^ 63" using assms(1) by (simp add: readable_def)
  ultimately have "size_add (rpos b) ?n = rpos b + ?n"
    using len by (intro size_add_small) simp
  moreover have "drop (rpos b) (storage b) = le_bytes w @ rest"
    using assms(1) by (simp add: readable_def)
  ultimately show ?thesis
    using len assms(2) by (simp add: read_word_def read_word_at_def bb_size_def advance_def Let_def)
qed

lemma append_word_end:
  fixes w :: "'a::len word"
  assumes "appending b" and "8 dvd LENGTH('a)"
    and "length (storage b) + sizeof_word TYPE('a word) \<le> 10000000"
  shows "append_word w b = (Inr (), bb_extend (le_bytes w) b)"
proof -
  have "0 < LENGTH('a)" by simp
  then have "8 \<le> LENGTH('a)" using assms(2) by (metis dvd_imp_le)
  then have "le_bytes w \<noteq> []" by (simp add: le_bytes_def div_greater_zero_iff)
  then show ?thesis
    using append_raw_end [OF assms(1), of "le_bytes w"] assms(3) by (simp add: append_word_def)
qed

section \<open>The contract of a type on the wire\<close>

locale wire_type =
  fixes shl :: "'a \<Rightarrow> ('z, unit) bb"
    and shr :: "('z, 'a) bb"
    and bytes :: "'a \<Rightarrow> u8 list"
    and valid :: "'a \<Rightarrow> bool"
  assumes writes: "valid x \<Longrightarrow> appending b \<Longrightarrow>
      length (storage b) + length (bytes x) \<le> 10000000 \<Longrightarrow> shl x b = (Inr (), bb_extend (bytes x) b)"
    and reads: "valid x \<Longrightarrow> readable b (bytes x @ rest) \<Longrightarrow>
      shr b = (Inr x, advance (length (bytes x)) b)"
begin

lemma write_read:
  assumes "valid x" and "appending b" and "rpos b = length (storage b)"
    and "length (storage b) + length (bytes x) \<le> 10000000"
  shows "\<exists>b'. shl x b = (Inr (), b') \<and> shr b' = (Inr x, b'\<lparr>rpos := length (storage b')\<rparr>)"
proof -
  have "readable (bb_extend (bytes x) b) (bytes x @ [])"
    using readable_extend [of b "bytes x"] assms(3,4) by simp
  from reads [OF assms(1) this] show ?thesis
    using writes [OF assms(1,2,4)] assms(3) by (simp add: advance_def bb_extend_def)
qed

lemma elements_write:
  assumes "list_all valid xs" and "appending b"
    and "length (storage b) + length (concat (map bytes xs)) \<le> 10000000"
  shows "shl_elements shl xs b = (Inr (), bb_extend (concat (map bytes xs)) b)"
  using assms
proof (induction xs arbitrary: b)
  case Nil
  then show ?case by simp
next
  case (Cons x xs)
  then have "shl x b = (Inr (), bb_extend (bytes x) b)" by (simp add: writes)
  then show ?case using Cons by simp
qed

lemma elements_read:
  assumes "list_all valid xs" and "readable b (concat (map bytes xs) @ rest)"
  shows "shr_elements shr (length xs) acc b =
      (Inr (acc @ xs), advance (length (concat (map bytes xs))) b)"
  using assms
proof (induction xs arbitrary: b acc)
  case Nil
  then show ?case by simp
next
  case (Cons x xs)
  then have front: "readable b (bytes x @ (concat (map bytes xs) @ rest))" by simp
  from Cons.prems have "shr b = (Inr x, advance (length (bytes x)) b)"
    by (intro reads [OF _ front]) simp
  with Cons.IH [OF _ readable_advance [OF front]] Cons.prems show ?case by simp
qed

definition vector_bytes :: "'a list \<Rightarrow> u8 list" where
  "vector_bytes xs = le_bytes (word_of_nat (length xs) :: u32) @ concat (map bytes xs)"

lemma vector_write:
  assumes "list_all valid xs" and "appending b"
    and "length (storage b) + length (vector_bytes xs) \<le> 10000000"
  shows "shl_vector shl xs b = (Inr (), bb_extend (vector_bytes xs) b)"
  using assms append_word_end [of b "word_of_nat (length xs) :: u32"]
    elements_write [of xs "bb_extend (le_bytes (word_of_nat (length xs) :: u32)) b"]
  by (simp add: shl_vector_def shl_u32_def vector_bytes_def sizeof_word_def)

lemma vector_read:
  assumes "list_all valid xs" and "length xs < 2 ^ 32" and "readable b (vector_bytes xs @ rest)"
  shows "shr_vector shr b = (Inr xs, advance (length (vector_bytes xs)) b)"
proof -
  let ?n = "word_of_nat (length xs) :: u32"
  have front: "readable b (le_bytes ?n @ (concat (map bytes xs) @ rest))"
    using assms(3) by (simp add: vector_bytes_def)
  have "shr_u32 b = (Inr ?n, advance 4 b)"
    using read_word_front [OF front] by (simp add: shr_u32_def sizeof_word_def)
  moreover have "unat ?n = length xs"
    using assms(2) by (simp add: unat_of_nat take_bit_nat_eq_self)
  ultimately show ?thesis
    using elements_read [OF assms(1) readable_advance [OF front]]
    by (simp add: shr_vector_def vector_bytes_def sizeof_word_def)
qed

lemma vector_round_trip:
  assumes "list_all valid xs" and "length (vector_bytes xs) \<le> 10000000" and "length xs < 2 ^ 32"
    and "rpos b = 0" and "wpos b = 0" and "storage b = []"
  shows "\<exists>b'. shl_vector shl xs b = (Inr (), b') \<and> fst (shr_vector shr b') = Inr xs"
proof -
  have "appending b" using assms by (simp add: appending_def)
  from vector_write [OF assms(1) this] assms
  have w: "shl_vector shl xs b = (Inr (), bb_extend (vector_bytes xs) b)" by simp
  have "readable (bb_extend (vector_bytes xs) b) (vector_bytes xs @ [])"
    using readable_extend [of b "vector_bytes xs"] assms by simp
  from vector_read [OF assms(1,3) this] w show ?thesis by simp
qed

end

locale wire_pair =
  k: wire_type shk rdk kbytes kvalid + v: wire_type shv rdv vbytes vvalid
  for shk :: "'k::linorder \<Rightarrow> ('z, unit) bb" and rdk and kbytes and kvalid
    and shv :: "'v \<Rightarrow> ('z, unit) bb" and rdv and vbytes and vvalid
begin

definition pair_bytes :: "'k \<times> 'v \<Rightarrow> u8 list" where
  "pair_bytes e = kbytes (fst e) @ vbytes (snd e)"

definition pair_valid :: "'k \<times> 'v \<Rightarrow> bool" where
  "pair_valid e \<longleftrightarrow> kvalid (fst e) \<and> vvalid (snd e)"

lemma pair_write:
  assumes "pair_valid e" and "appending b"
    and "length (storage b) + length (pair_bytes e) \<le> 10000000"
  shows "shl_pair shk shv e b = (Inr (), bb_extend (pair_bytes e) b)"
  using assms k.writes [of "fst e" b] v.writes [of "snd e" "bb_extend (kbytes (fst e)) b"]
  by (simp add: shl_pair_def pair_bytes_def pair_valid_def)

lemma entries_read:
  assumes "list_all pair_valid es" and "readable b (concat (map pair_bytes es) @ rest)"
  shows "shr_entries rdk rdv (length es) m b =
      (Inr (fold (\<lambda>(x, y). smap_insert x y) es m), advance (length (concat (map pair_bytes es))) b)"
  using assms
proof (induction es arbitrary: b m)
  case Nil
  then show ?case by simp
next
  case (Cons e es)
  let ?tail = "concat (map pair_bytes es) @ rest"
  have kf: "readable b (kbytes (fst e) @ (vbytes (snd e) @ ?tail))"
    using Cons.prems by (simp add: pair_bytes_def [of e])
  note vf = readable_advance [OF kf]
  have "rdk b = (Inr (fst e), advance (length (kbytes (fst e))) b)"
    using Cons.prems by (intro k.reads [OF _ kf]) (simp add: pair_valid_def)
  moreover have "rdv (advance (length (kbytes (fst e))) b) =
      (Inr (snd e), advance (length (pair_bytes e)) b)"
    using Cons.prems v.reads [OF _ vf] by (simp add: pair_valid_def pair_bytes_def [of e])
  moreover have "readable (advance (length (pair_bytes e)) b) ?tail"
    using readable_advance [OF vf] by (simp add: pair_bytes_def [of e])
  ultimately show ?case
    using Cons.IH [of "advance (length (pair_bytes e)) b"] Cons.prems
    by (simp add: split_beta)
qed

lemma pairs_write:
  assumes "list_all pair_valid es" and "appending b"
    and "length (storage b) + length (concat (map pair_bytes es)) \<le> 10000000"
  shows "shl_elements (shl_pair shk shv) es b = (Inr (), bb_extend (concat (map pair_bytes es)) b)"
  using assms
proof (induction es arbitrary: b)
  case Nil
  then show ?case by simp
next
  case (Cons e es)
  then have "shl_pair shk shv e b = (Inr (), bb_extend (pair_bytes e) b)"
    by (simp add: pair_write)
  then show ?case using Cons by simp
qed

lemma map_write:
  assumes "list_all pair_valid m" and "appending b"
    and "length (storage b) + 4 + length (concat (map pair_bytes m)) \<le> 10000000"
  shows "shl_map shk shv m b =
      (Inr (), bb_extend (le_bytes (word_of_nat (length m) :: u32) @ concat (map pair_bytes m)) b)"
  using assms append_word_end [of b "word_of_nat (length m) :: u32"]
    pairs_write [of m "bb_extend (le_bytes (word_of_nat (length m) :: u32)) b"]
  by (simp add: shl_map_def shl_u32_def sizeof_word_def)

lemma map_read:
  assumes "list_all pair_valid m" and "length m < 2 ^ 32"
    and "readable b (le_bytes (word_of_nat (length m) :: u32) @ concat (map pair_bytes m) @ rest)"
  shows "fst (shr_map rdk rdv b) = Inr (fold (\<lambda>(x, y). smap_insert x y) m [])"
proof -
  let ?n = "word_of_nat (length m) :: u32"
  have "shr_u32 b = (Inr ?n, advance 4 b)"
    using read_word_front [OF assms(3)] by (simp add: shr_u32_def sizeof_word_def)
  moreover have "unat ?n = length m"
    using assms(2) by (simp add: unat_of_nat take_bit_nat_eq_self)
  ultimately show ?thesis
    using entries_read [OF assms(1) readable_advance [OF assms(3)], of "[]"]
    by (simp add: shr_map_def sizeof_word_def)
qed

end

text \<open>Reading the entries of an ordered map back by insertion rebuilds the map.\<close>

lemma find_smap_insert [simp]:
  "smap_find (smap_insert k v m) j =
     (if j = k \<and> smap_find m k = None then Some v else smap_find m j)"
  by (auto simp: smap_insert_def split: option.splits)

lemma ok_smap_insert [simp]: "map_ok m \<Longrightarrow> map_ok (smap_insert k v m)"
  by (simp add: smap_insert_def split: option.splits)

lemma find_insert_all:
  "smap_find (fold (\<lambda>(x, y). smap_insert x y) es m) k =
     (case smap_find m k of Some v \<Rightarrow> Some v | None \<Rightarrow> smap_find es k)"
proof (induction es arbitrary: m)
  case Nil
  then show ?case by (simp split: option.splits)
next
  case (Cons e es)
  then show ?case
    by (cases e) (auto simp: smap_find_def [of "_ # _"] smap_find_def [of es] split: option.splits)
qed

lemma ok_insert_all: "map_ok m \<Longrightarrow> map_ok (fold (\<lambda>(x, y). smap_insert x y) es m)"
  by (induction es arbitrary: m) auto

lemma insert_all_id: "map_ok m \<Longrightarrow> fold (\<lambda>(x, y). smap_insert x y) m [] = m"
  by (rule map_ok_ext) (simp_all add: ok_insert_all find_insert_all)

section \<open>The operators keep the contract\<close>

lemma word_wire:
  assumes "8 dvd LENGTH('a::len)" and "LENGTH('a) \<le> 64"
  shows "wire_type (append_word :: 'a word \<Rightarrow> ('z, unit) bb) read_word le_bytes (\<lambda>_. True)"
  using assms by unfold_locales (simp_all add: append_word_end read_word_front)

interpretation w8: wire_type shl_u8 shr_u8 le_bytes "\<lambda>_. True"
  unfolding shl_u8_def [abs_def] shr_u8_def by (rule word_wire) simp_all

interpretation w16: wire_type shl_u16 shr_u16 le_bytes "\<lambda>_. True"
  unfolding shl_u16_def [abs_def] shr_u16_def by (rule word_wire) simp_all

interpretation w32: wire_type shl_u32 shr_u32 le_bytes "\<lambda>_. True"
  unfolding shl_u32_def [abs_def] shr_u32_def by (rule word_wire) simp_all

interpretation w64: wire_type shl_u64 shr_u64 le_bytes "\<lambda>_. True"
  unfolding shl_u64_def [abs_def] shr_u64_def by (rule word_wire) simp_all

lemma sint_of_int_small:
  "- (2 ^ (LENGTH('a::len) - 1)) \<le> v \<Longrightarrow> v < 2 ^ (LENGTH('a) - 1) \<Longrightarrow>
     sint (word_of_int v :: 'a word) = v"
  by (simp add: sint_sbintrunc' signed_take_bit_int_eq_self)

interpretation i32: wire_type shl_i32 shr_i32 "\<lambda>v. le_bytes (word_of_int v :: u32)" is_i32
proof
  fix x :: int and b :: "'z byte_buffer_scheme" and rest
  assume x: "is_i32 x"
  show "shl_i32 x b = (Inr (), bb_extend (le_bytes (word_of_int x :: u32)) b)"
    if "appending b" "length (storage b) + length (le_bytes (word_of_int x :: u32)) \<le> 10000000"
    using that by (simp add: shl_i32_def append_word_end)
  assume "readable b (le_bytes (word_of_int x :: u32) @ rest)"
  then have "read_word b = (Inr (word_of_int x :: u32), advance 4 b)"
    by (simp add: read_word_front sizeof_word_def)
  with x show "shr_i32 b = (Inr x, advance (length (le_bytes (word_of_int x :: u32))) b)"
    by (simp add: shr_i32_def sint_of_int_small is_i32_def sizeof_word_def)
qed

subsection \<open>Strings\<close>

definition string_bytes :: "string \<Rightarrow> u8 list" where
  "string_bytes s = map byte_of s @ [0]"

lemma length_string_bytes [simp]: "length (string_bytes s) = Suc (length s)"
  by (simp add: string_bytes_def)

definition no_nul :: "string \<Rightarrow> bool" where
  "no_nul s \<longleftrightarrow> CHR 0x00 \<notin> set s"

lemma char_of_byte_of [simp]: "char_of_byte (byte_of c) = c"
  by (simp add: char_of_byte_def byte_of_def unat_of_nat take_bit_nat_eq_self)

lemma byte_of_eq_0: "byte_of c = 0 \<longleftrightarrow> c = CHR 0x00"
proof -
  have "byte_of (CHR 0x00) = 0" by (simp add: byte_of_def)
  then show ?thesis by (metis char_of_byte_of)
qed

lemma le_bytes_u8: "le_bytes (w :: u8) = [w]"
  by (simp add: le_bytes_def)

declare read_cstring.simps [simp del]

lemma read_cstring_front:
  assumes "no_nul s" and "readable b (string_bytes s @ rest)"
  shows "read_cstring acc b = (Inr (acc @ s), advance (length (string_bytes s)) b)"
  using assms
proof (induction s arbitrary: acc b)
  case Nil
  then have front: "readable b (le_bytes (0 :: u8) @ rest)"
    by (simp add: string_bytes_def le_bytes_u8)
  have "rpos b < bb_size b" "bb_size b < 2 ^ 64"
    using readable_length [OF front] front by (simp_all add: bb_size_def readable_def sizeof_word_def)
  then show ?case
    using read_word_front [OF front]
    by (simp add: read_cstring.simps [of acc b] string_bytes_def sizeof_word_def)
next
  case (Cons c s)
  then have front: "readable b (le_bytes (byte_of c) @ (string_bytes s @ rest))"
    by (simp add: string_bytes_def le_bytes_u8)
  have "rpos b < bb_size b" "bb_size b < 2 ^ 64"
    using readable_length [OF front] front by (simp_all add: bb_size_def readable_def sizeof_word_def)
  moreover have "byte_of c \<noteq> 0"
    using Cons.prems(1) by (auto simp: no_nul_def byte_of_eq_0)
  moreover have "read_word b = (Inr (byte_of c), advance 1 b)"
    using read_word_front [OF front] by (simp add: sizeof_word_def)
  moreover have "readable (advance 1 b) (string_bytes s @ rest)"
    using readable_advance [OF front] by (simp add: sizeof_word_def)
  ultimately show ?case
    using Cons.IH [of "advance 1 b" "acc @ [c]"] Cons.prems(1)
    by (simp add: read_cstring.simps [of acc b] string_bytes_def no_nul_def)
qed

lemma shl_string_end:
  assumes "appending b" and "length (storage b) + length (string_bytes s) \<le> 10000000"
  shows "shl_string s b = (Inr (), bb_extend (string_bytes s) b)"
proof -
  have "(if length s \<noteq> 0 then append_raw (Some (map byte_of s)) (length s) else ret ()) b =
      (Inr (), bb_extend (map byte_of s) b)"
    using append_raw_end [OF assms(1), of "map byte_of s"] assms(2) by (simp add: string_bytes_def)
  moreover have "append_word (0 :: u8) (bb_extend (map byte_of s) b) =
      (Inr (), bb_extend (string_bytes s) b)"
    using append_word_end [of "bb_extend (map byte_of s) b" "0 :: u8"] assms
    by (simp add: string_bytes_def le_bytes_u8 sizeof_word_def)
  ultimately show ?thesis by (simp add: shl_string_def)
qed

interpretation str: wire_type shl_string shr_string string_bytes no_nul
  by unfold_locales (simp_all add: shl_string_end shr_string_def read_cstring_front)

subsection \<open>Packed GUIDs\<close>

definition guid_byte :: "u64 \<Rightarrow> nat \<Rightarrow> u8" where
  "guid_byte g k = ucast (drop_bit (8 * k) g)"

definition guid_bytes :: "u64 \<Rightarrow> nat \<Rightarrow> u8 list" where
  "guid_bytes g i = map (guid_byte g) (filter (\<lambda>k. guid_byte g k \<noteq> 0) [i..<8])"

definition guid_mask :: "u64 \<Rightarrow> nat \<Rightarrow> u8" where
  "guid_mask g i = foldr (\<lambda>k m. if guid_byte g k \<noteq> 0 then push_bit k 1 OR m else m) [i..<8] 0"

definition pack_bytes :: "u64 \<Rightarrow> u8 list" where
  "pack_bytes g = guid_mask g 0 # guid_bytes g 0"

lemma guid_bytes_step: "i < 8 \<Longrightarrow> guid_bytes g i =
    (if guid_byte g i \<noteq> 0 then guid_byte g i # guid_bytes g (Suc i) else guid_bytes g (Suc i))"
  by (simp add: guid_bytes_def upt_conv_Cons)

lemma guid_mask_step: "i < 8 \<Longrightarrow> guid_mask g i =
    (if guid_byte g i \<noteq> 0 then push_bit i 1 OR guid_mask g (Suc i) else guid_mask g (Suc i))"
  by (simp add: guid_mask_def upt_conv_Cons)

lemma bit_guid_mask: "bit (guid_mask g i) k \<longleftrightarrow> i \<le> k \<and> k < 8 \<and> guid_byte g k \<noteq> 0"
proof (induction "8 - i" arbitrary: i)
  case 0
  then show ?case by (simp add: guid_mask_def)
next
  case (Suc n)
  then have "i < 8" by simp
  moreover have "bit (guid_mask g (Suc i)) k \<longleftrightarrow> Suc i \<le> k \<and> k < 8 \<and> guid_byte g k \<noteq> 0"
    using Suc(2) by (intro Suc(1)) simp
  ultimately show ?case
    by (cases "k = i") (auto simp: guid_mask_step [of i] bit_simps)
qed

lemma low_byte: "w AND 0xFF = take_bit 8 (w :: u64)"
  by (simp add: take_bit_eq_mask mask_eq_exp_minus_1)

lemma guid_byte_low:
  "ucast (drop_bit (8 * i) g AND 0xFF) = guid_byte g i"
  "drop_bit (8 * i) g AND 0xFF \<noteq> 0 \<longleftrightarrow> guid_byte g i \<noteq> 0"
proof -
  show eq: "ucast (drop_bit (8 * i) g AND 0xFF) = guid_byte g i"
    by (rule bit_word_eqI) (simp add: guid_byte_def low_byte bit_simps)
  have "(drop_bit (8 * i) g AND 0xFF :: u64) = ucast (guid_byte g i)"
    by (rule bit_word_eqI) (auto simp: guid_byte_def low_byte bit_simps)
  then show "drop_bit (8 * i) g AND 0xFF \<noteq> 0 \<longleftrightarrow> guid_byte g i \<noteq> 0"
    by (metis eq unsigned_0)
qed

lemma pack_loop_eq:
  "i \<le> 8 \<Longrightarrow> pack_guid_loop (drop_bit (8 * i) g) i m out =
     (m OR guid_mask g i, out @ guid_bytes g i)"
proof (induction "8 - i" arbitrary: i m out)
  case 0
  then have "drop_bit (8 * i) g = 0"
    by (intro bit_word_eqI) (auto simp: bit_simps dest: bit_imp_le_length)
  with 0 show ?case by (simp add: pack_guid_loop.simps guid_mask_def guid_bytes_def)
next
  case (Suc n)
  then have i: "i < 8" by simp
  have IH: "pack_guid_loop (drop_bit (8 + 8 * i) g) (Suc i) m out =
      (m OR guid_mask g (Suc i), out @ guid_bytes g (Suc i))" for m out
    using Suc(1) [of "Suc i" m out] Suc(2) i by simp
  show ?case
  proof (cases "drop_bit (8 * i) g = 0")
    case True
    have "guid_byte g k = 0" if "i \<le> k" for k
    proof -
      have "drop_bit (8 * k) g = drop_bit (8 * (k - i)) (drop_bit (8 * i) g)"
        using that by (simp flip: distrib_left)
      with True show ?thesis by (simp add: guid_byte_def)
    qed
    then have "guid_bytes g i = []" and "guid_mask g i = 0"
      by (auto simp: guid_bytes_def bit_guid_mask intro!: bit_word_eqI)
    with True show ?thesis by (simp add: pack_guid_loop.simps)
  next
    case False
    then show ?thesis
      using i IH guid_byte_low [of i g]
      by (simp add: pack_guid_loop.simps [of "drop_bit (8 * i) g"] guid_mask_step [of i]
          guid_bytes_step [of i] or.assoc)
  qed
qed

lemma has_flag_bit: "i < LENGTH('a::len) \<Longrightarrow> has_flag (m :: 'a word) (push_bit i 1) \<longleftrightarrow> bit m i"
  by (auto simp: has_flag_def bit_eq_iff [of _ 0] bit_simps)

lemma take_bit_guid_step:
  "take_bit (8 * i) g OR push_bit (i * 8) (ucast (guid_byte g i)) = take_bit (8 + 8 * i) (g :: u64)"
  by (rule bit_word_eqI) (auto simp: guid_byte_def bit_simps mult.commute)

lemma read_pack_loop_front:
  fixes b :: "'z byte_buffer_scheme"
  assumes "i \<le> 8" and "readable b (guid_bytes g i @ rest)"
  shows "read_pack_loop (8 - i) i (guid_mask g 0) (take_bit (8 * i) g) b =
      (Inr g, advance (length (guid_bytes g i)) b)"
  using assms
proof (induction "8 - i" arbitrary: i b)
  case 0
  then show ?case by (simp add: guid_bytes_def take_bit_word_eq_self)
next
  case (Suc n)
  then have i: "i < 8" and n: "8 - i = Suc n" "n = 8 - Suc i" by simp_all
  have flag: "has_flag (guid_mask g 0) (push_bit i 1) \<longleftrightarrow> guid_byte g i \<noteq> 0"
    using i by (simp add: has_flag_bit bit_guid_mask del: push_bit_of_1)
  have IH: "read_pack_loop n (Suc i) (guid_mask g 0) (take_bit (8 + 8 * i) g) c =
      (Inr g, advance (length (guid_bytes g (Suc i))) c)"
    if "readable c (guid_bytes g (Suc i) @ rest)" for c :: "'z byte_buffer_scheme"
    using Suc(1) [of "Suc i" c] i n(2) that by simp
  show ?case
  proof (cases "guid_byte g i = 0")
    case True
    then have "take_bit (8 + 8 * i) g = take_bit (8 * i) g"
      using take_bit_guid_step [of i g] by simp
    then show ?thesis
      using IH [of b] Suc.prems(2) True flag i by (simp add: n(1) guid_bytes_step)
  next
    case False
    then have front: "readable b (le_bytes (guid_byte g i) @ (guid_bytes g (Suc i) @ rest))"
      using Suc.prems(2) i by (simp add: guid_bytes_step le_bytes_u8)
    have "shr_u8 b = (Inr (guid_byte g i), advance 1 b)"
      using read_word_front [OF front] by (simp add: shr_u8_def sizeof_word_def)
    moreover have "\<not> bb_size b < size_add (rpos b) 1"
      using readable_length [OF front] front
      by (simp add: bb_size_def size_add_small readable_def sizeof_word_def)
    moreover have "readable (advance 1 b) (guid_bytes g (Suc i) @ rest)"
      using readable_advance [OF front] by (simp add: sizeof_word_def)
    ultimately show ?thesis
      using False flag i IH [of "advance 1 b"]
      by (simp add: n(1) take_bit_guid_step guid_bytes_step [of i])
  qed
qed

lemma append_pack_guid_end:
  assumes "appending b" and "length (storage b) + length (pack_bytes g) \<le> 10000000"
  shows "append_pack_guid g b = (Inr (), bb_extend (pack_bytes g) b)"
proof -
  have "pack_guid_loop g 0 0 [] = (guid_mask g 0, guid_bytes g 0)"
    using pack_loop_eq [of 0 g 0 "[]"] by simp
  then show ?thesis
    using append_raw_end [OF assms(1), of "pack_bytes g"] assms(2)
    by (simp add: append_pack_guid_def pack_bytes_def)
qed

lemma read_pack_guid_front:
  assumes "readable b (pack_bytes g @ rest)"
  shows "read_pack_guid b = (Inr g, advance (length (pack_bytes g)) b)"
proof -
  have front: "readable b (le_bytes (guid_mask g 0) @ (guid_bytes g 0 @ rest))"
    using assms by (simp add: pack_bytes_def le_bytes_u8)
  have "shr_u8 b = (Inr (guid_mask g 0), advance 1 b)"
    using read_word_front [OF front] by (simp add: shr_u8_def sizeof_word_def)
  moreover have "\<not> bb_size b < size_add (rpos b) 1"
    using readable_length [OF front] front
    by (simp add: bb_size_def size_add_small readable_def sizeof_word_def)
  moreover have "readable (advance 1 b) (guid_bytes g 0 @ rest)"
    using readable_advance [OF front] by (simp add: sizeof_word_def)
  ultimately show ?thesis
    using read_pack_loop_front [of 0 "advance 1 b" g rest]
    by (simp add: read_pack_guid_def pack_bytes_def)
qed

interpretation pg: wire_type append_pack_guid read_pack_guid pack_bytes "\<lambda>_. True"
  by unfold_locales (simp_all add: append_pack_guid_end read_pack_guid_front)

interpretation u32_str: wire_pair shl_u32 shr_u32 le_bytes "\<lambda>_. True"
  shl_string shr_string string_bytes no_nul
  by unfold_locales

section \<open>Properties\<close>

text \<open>C14: \<^bold>\<open>Packed GUIDs round-trip.\<close> Whatever a buffer holds, appending a GUID in packed form at
  its end and reading a packed GUID from there gives the same 64-bit GUID back and leaves the
  read position at the end; the packed form takes one mask byte plus one byte for each
  non-zero byte of the GUID.\<close>

theorem pack_guid_round_trip:
  assumes "wpos b = length (storage b)" and "rpos b = length (storage b)"
    and "length (storage b) + 9 \<le> 10000000"
  shows "\<exists>b'. append_pack_guid g b = (Inr (), b') \<and>
    read_pack_guid b' = (Inr g, b'\<lparr>rpos := length (storage b')\<rparr>) \<and>
    length (storage b') = length (storage b) + Suc (length (filter (\<lambda>k. guid_byte g k \<noteq> 0) [0..<8]))"
proof -
  have "length (filter (\<lambda>k. guid_byte g k \<noteq> 0) [0..<8]) \<le> 8"
    by (metis length_filter_le length_upt diff_zero)
  then have fits: "length (storage b) + length (pack_bytes g) \<le> 10000000"
    using assms(3) by (simp add: pack_bytes_def guid_bytes_def)
  obtain b' where b': "append_pack_guid g b = (Inr (), b')"
      "read_pack_guid b' = (Inr g, b'\<lparr>rpos := length (storage b')\<rparr>)"
    using pg.write_read [where x = g and b = b] assms fits by (auto simp: appending_def)
  moreover have "b' = bb_extend (pack_bytes g) b"
    using append_pack_guid_end [of b g] b'(1) assms(1) fits by (simp add: appending_def)
  ultimately show ?thesis by (simp add: pack_bytes_def guid_bytes_def)
qed

theorem pack_guid_round_trip_witness:
  "\<exists>b'. append_pack_guid 0xF130000A00000001 bb_new = (Inr (), b') \<and>
    fst (read_pack_guid b') = Inr 0xF130000A00000001"
  using pack_guid_round_trip [of bb_new "0xF130000A00000001"] by (auto simp: bb_new_def)

text \<open>\<^bold>\<open>A vector of strings round-trips.\<close> Writing a list of strings without zero bytes into an
  empty buffer with the vector template and reading a vector of strings back gives the same
  list, provided the count fits its 32-bit field and the packet stays under the size at
  which the buffer stops the process.\<close>

theorem string_vector_round_trip:
  assumes "list_all no_nul xs"
    and "4 + sum_list (map (\<lambda>s. Suc (length s)) xs) \<le> 10000000"
  shows "\<exists>b'. shl_vector shl_string xs bb_new = (Inr (), b') \<and>
    fst (shr_vector shr_string b') = Inr xs"
proof -
  have size: "length (str.vector_bytes xs) = 4 + sum_list (map (\<lambda>s. Suc (length s)) xs)" for xs
    by (induction xs) (simp_all add: str.vector_bytes_def sizeof_word_def)
  have "length xs \<le> sum_list (map (\<lambda>s. Suc (length s)) xs)" by (induction xs) auto
  then have "length xs < 2 ^ 32" using assms(2) by simp
  then show ?thesis
    using str.vector_round_trip [of xs bb_new] assms size [of xs] by (simp add: bb_new_def)
qed

theorem string_vector_round_trip_witness:
  "\<exists>b'. shl_vector shl_string [''General'', ''Trade''] bb_new = (Inr (), b') \<and>
    fst (shr_vector shr_string b') = Inr [''General'', ''Trade'']"
  by (rule string_vector_round_trip) (simp_all add: no_nul_def)

text \<open>\<^bold>\<open>A map from numbers to strings round-trips.\<close> The map templates write the entries in
  key order and read them back by insertion; for an ordered map of 32-bit keys and strings
  the result is the map that was written.\<close>

theorem string_map_round_trip:
  assumes "map_ok m" and "list_all (\<lambda>e. no_nul (snd e)) m"
    and "4 + sum_list (map (\<lambda>e. 5 + length (snd e)) m) \<le> 10000000"
  shows "\<exists>b'. shl_map shl_u32 shl_string m bb_new = (Inr (), b') \<and>
    fst (shr_map shr_u32 shr_string b') = Inr m"
proof -
  let ?bytes = "le_bytes (word_of_nat (length m) :: u32) @ concat (map u32_str.pair_bytes m)"
  have size: "length (concat (map u32_str.pair_bytes m)) = sum_list (map (\<lambda>e. 5 + length (snd e)) m)"
    for m
    by (induction m) (simp_all add: u32_str.pair_bytes_def sizeof_word_def)
  have "length m \<le> sum_list (map (\<lambda>e. 5 + length (snd e)) m)" by (induction m) auto
  then have count: "length m < 2 ^ 32" using assms(3) by simp
  have valid: "list_all u32_str.pair_valid m"
    using assms(2) by (induction m) (auto simp: u32_str.pair_valid_def)
  have "shl_map shl_u32 shl_string m bb_new = (Inr (), bb_extend ?bytes bb_new)"
    using u32_str.map_write [OF valid, of bb_new] assms(3) size [of m]
    by (simp add: appending_def bb_new_def)
  moreover have "readable (bb_extend ?bytes bb_new)
      (le_bytes (word_of_nat (length m) :: u32) @ concat (map u32_str.pair_bytes m) @ [])"
    using readable_extend [of bb_new ?bytes] assms(3) size [of m]
    by (simp add: bb_new_def sizeof_word_def)
  from u32_str.map_read [OF valid count this]
  have "fst (shr_map shr_u32 shr_string (bb_extend ?bytes bb_new)) = Inr m"
    using assms(1) by (simp add: insert_all_id)
  ultimately show ?thesis by blast
qed

theorem string_map_round_trip_witness:
  "\<exists>b'. shl_map shl_u32 shl_string [(1, ''General''), (2, ''Trade'')] bb_new = (Inr (), b') \<and>
    fst (shr_map shr_u32 shr_string b') = Inr [(1, ''General''), (2, ''Trade'')]"
  by (rule string_map_round_trip) (simp_all add: no_nul_def map_ok_def)

text \<open>\<^bold>\<open>Reads are memory safe.\<close> While the read position is below \<open>2^63\<close> (it is set to a
  larger value by no packet code), no typed read touches a byte outside the storage; a read
  that does not fit throws the position exception and leaves the buffer as it was, and a
  read that fits moves the read position by the size of the type and changes nothing else.\<close>

theorem read_word_safe:
  fixes b :: "'z byte_buffer_scheme"
  assumes "rpos b < 2 ^ 63" and "LENGTH('a::len) \<le> 64"
  shows "(read_word b :: (bb_error + 'a word) \<times> 'z byte_buffer_scheme) =
    (if rpos b + LENGTH('a) div 8 \<le> bb_size b
     then (Inr (le_word (take (LENGTH('a) div 8) (drop (rpos b) (storage b)))),
           b\<lparr>rpos := rpos b + LENGTH('a) div 8\<rparr>)
     else (Inl (PositionException False (rpos b) (LENGTH('a) div 8) (bb_size b)), b))"
proof -
  have "size_add (rpos b) (LENGTH('a) div 8) = rpos b + LENGTH('a) div 8"
    using assms by (intro size_add_small) simp
  then show ?thesis
    by (simp add: read_word_def read_word_at_def sizeof_word_def Let_def)
qed

theorem read_word_safe_witness:
  "(read_word (bb_new\<lparr>storage := [1, 2, 3]\<rparr>) :: (bb_error + u32) \<times> byte_buffer) =
     (Inl (PositionException False 0 4 3), bb_new\<lparr>storage := [1, 2, 3]\<rparr>)"
  using read_word_safe [where 'a = 32, of "bb_new\<lparr>storage := [1, 2, 3]\<rparr>"]
  by (simp add: bb_new_def bb_size_def)

text \<open>\<^bold>\<open>A huge skip moves the read position backwards.\<close> \<open>read_skip\<close> compares a wrapped
  \<open>size_t\<close> sum: for a read position inside the storage and \<open>0 < n \<le> rpos\<close>, skipping
  \<open>2^64 - n\<close> bytes is accepted and moves the read position back by \<open>n\<close> instead of throwing.\<close>

theorem read_skip_wraps:
  assumes "0 < n" and "n \<le> rpos b" and "rpos b \<le> bb_size b" and "rpos b < 2 ^ 64"
  shows "read_skip (2 ^ 64 - n) b = (Inr (), b\<lparr>rpos := rpos b - n\<rparr>)"
proof -
  have "rpos b + (2 ^ 64 - n) = (rpos b - n) + 2 ^ 64" using assms by simp
  then have "size_add (rpos b) (2 ^ 64 - n) = rpos b - n"
    using assms unfolding size_add_def by (metis less_imp_diff_less mod_add_self2 mod_less)
  then show ?thesis using assms by (simp add: read_skip_def)
qed

theorem read_skip_wraps_witness:
  "read_skip (2 ^ 64 - 2) (bb_new\<lparr>storage := [1, 2, 3], rpos := 3\<rparr>) =
     (Inr (), bb_new\<lparr>storage := [1, 2, 3], rpos := 1\<rparr>)"
  using read_skip_wraps [of 2 "bb_new\<lparr>storage := [1, 2, 3], rpos := 3\<rparr>"]
  by (simp add: bb_new_def bb_size_def)

text \<open>\<^bold>\<open>The position exception reports the two sizes swapped.\<close> Its constructor takes the
  container size before the value size, and every throw site passes them the other way
  round: the message for a failed read of an \<open>n\<close>-byte value names \<open>n\<close> as the size of the
  buffer and the size of the buffer as that of the value.\<close>

theorem position_message_swapped:
  fixes b :: "'z byte_buffer_scheme"
  assumes "rpos b < 2 ^ 63" and "LENGTH('a::len) \<le> 64"
    and "(read_word b :: (bb_error + 'a word) \<times> 'z byte_buffer_scheme) = (Inl e, b')"
  shows "what e = ''Attempted to get value with size: '' @ show_nat (bb_size b) @
    '' in ByteBuffer (pos: '' @ show_nat (rpos b) @ '' size: '' @ show_nat (LENGTH('a) div 8) @ '')''"
proof -
  have "size_add (rpos b) (LENGTH('a) div 8) = rpos b + LENGTH('a) div 8"
    using assms by (intro size_add_small) simp
  then have "e = PositionException False (rpos b) (LENGTH('a) div 8) (bb_size b)"
    using assms(3) by (auto simp: read_word_def read_word_at_def sizeof_word_def Let_def split: if_splits)
  then show ?thesis by simp
qed

theorem position_message_swapped_witness:
  "what (case fst (read_word (bb_new\<lparr>storage := [1, 2, 3]\<rparr>)) of Inl e \<Rightarrow> e | Inr (_ :: u32) \<Rightarrow> BufferException) =
     ''Attempted to get value with size: 3 in ByteBuffer (pos: 0 size: 4)''"
proof -
  have r: "(read_word (bb_new\<lparr>storage := [1, 2, 3]\<rparr>) :: (bb_error + u32) \<times> byte_buffer) =
     (Inl (PositionException False 0 4 3), bb_new\<lparr>storage := [1, 2, 3]\<rparr>)"
    by (simp add: bb_new_def bb_size_def read_word_def read_word_at_def sizeof_word_def size_add_def)
  have "show_nat 3 = ''3''" "show_nat 0 = ''0''" "show_nat 4 = ''4''" by code_simp+
  with position_message_swapped [OF _ _ r] show ?thesis
    unfolding r by (simp add: bb_new_def bb_size_def)
qed

end
