(* ===== verification/ObjectGuid.thy ===== *)
theory ObjectGuid
  imports ByteBufferProps
begin

text \<open>
  \<^verbatim>\<open>src/src/server/game/Entities/Object/ObjectGuid.h\<close> and \<^verbatim>\<open>ObjectGuid.cpp\<close>: the 64-bit
  object identity. Bits 48-63 hold the kind of object, and for kinds with an entry bits
  24-47 hold the template entry and bits 0-23 the counter; the other kinds use bits 0-31
  for the counter. An \<open>ObjectGuid\<close> is its only field, a 64-bit word, and a \<open>HighGuid\<close> its
  numeric value, because \<open>GetHigh\<close> casts any 16 bits to the enum.
\<close>

section \<open>Kinds of objects\<close>

type_synonym guid = u64
type_synonym high_guid = u16

definition HighGuid_Item :: high_guid where "HighGuid_Item = 0x4000"
definition HighGuid_Container :: high_guid where "HighGuid_Container = 0x4000"
definition HighGuid_Player :: high_guid where "HighGuid_Player = 0x0000"
definition HighGuid_GameObject :: high_guid where "HighGuid_GameObject = 0xF110"
definition HighGuid_Transport :: high_guid where "HighGuid_Transport = 0xF120"
definition HighGuid_Unit :: high_guid where "HighGuid_Unit = 0xF130"
definition HighGuid_Pet :: high_guid where "HighGuid_Pet = 0xF140"
definition HighGuid_Vehicle :: high_guid where "HighGuid_Vehicle = 0xF150"
definition HighGuid_DynamicObject :: high_guid where "HighGuid_DynamicObject = 0xF100"
definition HighGuid_Corpse :: high_guid where "HighGuid_Corpse = 0xF101"
definition HighGuid_Mo_Transport :: high_guid where "HighGuid_Mo_Transport = 0x1FC0"
definition HighGuid_Instance :: high_guid where "HighGuid_Instance = 0x1F40"
definition HighGuid_Group :: high_guid where "HighGuid_Group = 0x1F50"

lemmas high_guid_defs =
  HighGuid_Item_def HighGuid_Container_def HighGuid_Player_def HighGuid_GameObject_def
  HighGuid_Transport_def HighGuid_Unit_def HighGuid_Pet_def HighGuid_Vehicle_def
  HighGuid_DynamicObject_def HighGuid_Corpse_def HighGuid_Mo_Transport_def
  HighGuid_Instance_def HighGuid_Group_def

datatype type_id =
    TYPEID_OBJECT
  | TYPEID_ITEM
  | TYPEID_CONTAINER
  | TYPEID_UNIT
  | TYPEID_PLAYER
  | TYPEID_GAMEOBJECT
  | TYPEID_DYNAMICOBJECT
  | TYPEID_CORPSE

section \<open>Construction and access\<close>

definition guid_Empty :: guid where
  "guid_Empty = 0"

definition mk_guid_entry :: "high_guid \<Rightarrow> u32 \<Rightarrow> u32 \<Rightarrow> guid" where
  "mk_guid_entry hi entry counter =
     (if counter \<noteq> 0
      then ucast counter OR push_bit 24 (ucast entry) OR push_bit 48 (ucast hi) else 0)"

definition mk_guid :: "high_guid \<Rightarrow> u32 \<Rightarrow> guid" where
  "mk_guid hi counter = (if counter \<noteq> 0 then ucast counter OR push_bit 48 (ucast hi) else 0)"

definition guid_Global :: "high_guid \<Rightarrow> u32 \<Rightarrow> guid" where
  "guid_Global type counter = mk_guid type counter"

definition guid_MapSpecific :: "high_guid \<Rightarrow> u32 \<Rightarrow> u32 \<Rightarrow> guid" where
  "guid_MapSpecific type entry counter = mk_guid_entry type entry counter"

definition high_has_entry :: "high_guid \<Rightarrow> bool" where
  "high_has_entry high =
     (if high \<in> {HighGuid_Item, HighGuid_Player, HighGuid_DynamicObject, HighGuid_Corpse,
                 HighGuid_Mo_Transport, HighGuid_Instance, HighGuid_Group}
      then False else True)"

definition GetHigh :: "guid \<Rightarrow> high_guid" where
  "GetHigh g = ucast (drop_bit 48 g AND 0x0000FFFF)"

definition HasEntry :: "guid \<Rightarrow> bool" where
  "HasEntry g = high_has_entry (GetHigh g)"

definition GetEntry :: "guid \<Rightarrow> u32" where
  "GetEntry g = (if HasEntry g then ucast (drop_bit 24 g AND 0x0000000000FFFFFF) else 0)"

definition GetCounter :: "guid \<Rightarrow> u32" where
  "GetCounter g =
     (if HasEntry g then ucast (g AND 0x0000000000FFFFFF) else ucast (g AND 0x00000000FFFFFFFF))"

definition GetMaxCounter :: "high_guid \<Rightarrow> u32" where
  "GetMaxCounter high = (if high_has_entry high then 0x00FFFFFF else 0xFFFFFFFF)"

section \<open>Classification\<close>

definition guid_IsEmpty :: "guid \<Rightarrow> bool" where "guid_IsEmpty g = (g = 0)"
definition IsCreature :: "guid \<Rightarrow> bool" where "IsCreature g = (GetHigh g = HighGuid_Unit)"
definition IsPet :: "guid \<Rightarrow> bool" where "IsPet g = (GetHigh g = HighGuid_Pet)"
definition IsVehicle :: "guid \<Rightarrow> bool" where "IsVehicle g = (GetHigh g = HighGuid_Vehicle)"
definition IsCreatureOrPet :: "guid \<Rightarrow> bool" where
  "IsCreatureOrPet g = (IsCreature g \<or> IsPet g)"
definition IsCreatureOrVehicle :: "guid \<Rightarrow> bool" where
  "IsCreatureOrVehicle g = (IsCreature g \<or> IsVehicle g)"
definition IsAnyTypeCreature :: "guid \<Rightarrow> bool" where
  "IsAnyTypeCreature g = (IsCreature g \<or> IsPet g \<or> IsVehicle g)"
definition IsPlayer :: "guid \<Rightarrow> bool" where
  "IsPlayer g = (\<not> guid_IsEmpty g \<and> GetHigh g = HighGuid_Player)"
definition IsUnit :: "guid \<Rightarrow> bool" where "IsUnit g = (IsAnyTypeCreature g \<or> IsPlayer g)"
definition IsItem :: "guid \<Rightarrow> bool" where "IsItem g = (GetHigh g = HighGuid_Item)"
definition IsGameObject :: "guid \<Rightarrow> bool" where "IsGameObject g = (GetHigh g = HighGuid_GameObject)"
definition IsDynamicObject :: "guid \<Rightarrow> bool" where
  "IsDynamicObject g = (GetHigh g = HighGuid_DynamicObject)"
definition IsCorpse :: "guid \<Rightarrow> bool" where "IsCorpse g = (GetHigh g = HighGuid_Corpse)"
definition IsTransport :: "guid \<Rightarrow> bool" where "IsTransport g = (GetHigh g = HighGuid_Transport)"
definition IsMOTransport :: "guid \<Rightarrow> bool" where "IsMOTransport g = (GetHigh g = HighGuid_Mo_Transport)"
definition IsAnyTypeGameObject :: "guid \<Rightarrow> bool" where
  "IsAnyTypeGameObject g = (IsGameObject g \<or> IsTransport g \<or> IsMOTransport g)"
definition IsInstance :: "guid \<Rightarrow> bool" where "IsInstance g = (GetHigh g = HighGuid_Instance)"
definition IsGroup :: "guid \<Rightarrow> bool" where "IsGroup g = (GetHigh g = HighGuid_Group)"

definition high_GetTypeId :: "high_guid \<Rightarrow> type_id" where
  "high_GetTypeId high =
     (if high = HighGuid_Item then TYPEID_ITEM
      else if high = HighGuid_Unit then TYPEID_UNIT
      else if high = HighGuid_Pet then TYPEID_UNIT
      else if high = HighGuid_Player then TYPEID_PLAYER
      else if high = HighGuid_GameObject then TYPEID_GAMEOBJECT
      else if high = HighGuid_DynamicObject then TYPEID_DYNAMICOBJECT
      else if high = HighGuid_Corpse then TYPEID_CORPSE
      else if high = HighGuid_Mo_Transport then TYPEID_GAMEOBJECT
      else if high = HighGuid_Transport then TYPEID_GAMEOBJECT
      else if high = HighGuid_Vehicle then TYPEID_UNIT
      else TYPEID_OBJECT)"

definition GetTypeId :: "guid \<Rightarrow> type_id" where
  "GetTypeId g = high_GetTypeId (GetHigh g)"

definition high_GetTypeName :: "high_guid \<Rightarrow> string" where
  "high_GetTypeName high =
     (if high = HighGuid_Item then ''Item''
      else if high = HighGuid_Player then ''Player''
      else if high = HighGuid_GameObject then ''Gameobject''
      else if high = HighGuid_Transport then ''Transport''
      else if high = HighGuid_Unit then ''Creature''
      else if high = HighGuid_Pet then ''Pet''
      else if high = HighGuid_Vehicle then ''Vehicle''
      else if high = HighGuid_DynamicObject then ''DynObject''
      else if high = HighGuid_Corpse then ''Corpse''
      else if high = HighGuid_Mo_Transport then ''MoTransport''
      else if high = HighGuid_Instance then ''InstanceID''
      else if high = HighGuid_Group then ''Group''
      else ''<unknown>'')"

definition GetTypeName :: "guid \<Rightarrow> string" where
  "GetTypeName g = (if \<not> guid_IsEmpty g then high_GetTypeName (GetHigh g) else ''None'')"

text \<open>\<open>ToString\<close>: 16 hexadecimal digits, the type, the entry (if any) and the counter.\<close>

definition hex_digit :: "nat \<Rightarrow> char" where
  "hex_digit n = (if n < 10 then char_of (48 + n) else char_of (87 + n))"

definition show_hex16 :: "u64 \<Rightarrow> string" where
  "show_hex16 g = map (\<lambda>i. hex_digit (unat (drop_bit (4 * (15 - i)) g AND 0xF))) [0..<16]"

definition guid_ToString :: "guid \<Rightarrow> string" where
  "guid_ToString g =
     ''GUID Full: 0x'' @ show_hex16 g @ '' Type: '' @ GetTypeName g
       @ (if HasEntry g
          then (if IsPet g then '' Pet number: '' else '' Entry: '') @ show_nat (unat (GetEntry g)) @ '' ''
          else [])
       @ '' Low: '' @ show_nat (unat (GetCounter g))"

section \<open>On the wire\<close>

definition shl_guid :: "guid \<Rightarrow> ('z, unit) bb" where
  "shl_guid g = shl_u64 g"

definition shr_guid :: "('z, guid) bb" where
  "shr_guid = read_word"

text \<open>
  A \<open>PackedGuid\<close> is a byte buffer of its own. \<open>Set\<close> moves the write position back to the start
  before it packs the new GUID; the storage is not cut.
\<close>

definition packed_guid :: "guid \<Rightarrow> byte_buffer" where
  "packed_guid g = snd (append_pack_guid g bb_new)"

definition packed_guid_Set :: "guid \<Rightarrow> byte_buffer \<Rightarrow> byte_buffer" where
  "packed_guid_Set g p = snd (append_pack_guid g (set_wpos 0 p))"

definition packed_guid_size :: "byte_buffer \<Rightarrow> nat" where
  "packed_guid_size p = bb_size p"

definition shl_packed_guid :: "byte_buffer \<Rightarrow> ('z, unit) bb" where
  "shl_packed_guid p = append_buffer p"

section \<open>Generators\<close>

text \<open>
  \<open>ObjectGuidGenerator::Generate\<close>. \<open>stopped\<close> records the call of \<open>World::StopNow\<close>, after
  which the function goes on; \<open>trigger\<close> the calls of \<open>CheckGuidTrigger\<close>, newest first.
\<close>

record guid_generator =
  nextGuid :: u32
  stopped :: bool
  trigger :: "u32 list"

definition new_generator :: "u32 \<Rightarrow> guid_generator" where
  "new_generator start = \<lparr>nextGuid = start, stopped = False, trigger = []\<rparr>"

definition generator_Set :: "u32 \<Rightarrow> guid_generator \<Rightarrow> guid_generator" where
  "generator_Set val gen = gen\<lparr>nextGuid := val\<rparr>"

definition Generate :: "high_guid \<Rightarrow> guid_generator \<Rightarrow> u32 \<times> guid_generator" where
  "Generate high gen =
     (let g1 = (if nextGuid gen \<ge> GetMaxCounter high - 1 then gen\<lparr>stopped := True\<rparr> else gen);
          g2 = (if high = HighGuid_Unit \<or> high = HighGuid_GameObject
                then g1\<lparr>trigger := nextGuid g1 # trigger g1\<rparr> else g1)
      in (nextGuid g2, g2\<lparr>nextGuid := nextGuid g2 + 1\<rparr>))"

fun generate_n :: "high_guid \<Rightarrow> nat \<Rightarrow> guid_generator \<Rightarrow> u32 list \<times> guid_generator" where
  "generate_n high 0 gen = ([], gen)"
| "generate_n high (Suc n) gen =
     (case Generate high gen of (i, gen') \<Rightarrow>
        case generate_n high n gen' of (is, gen'') \<Rightarrow> (i # is, gen''))"

text \<open>
  \<open>CheckGuidTrigger\<close>: which alarm of the world a counter raises, given the alarms that are up
  and the two configured levels.
\<close>

datatype guid_alarm = NoAlarm | GuidAlert | GuidWarning

definition CheckGuidTrigger :: "bool \<Rightarrow> bool \<Rightarrow> u32 \<Rightarrow> u32 \<Rightarrow> u32 \<Rightarrow> guid_alarm" where
  "CheckGuidTrigger isGuidAlert isGuidWarning alertLevel warnLevel guidlow =
     (if \<not> isGuidAlert \<and> guidlow > alertLevel then GuidAlert
      else if \<not> isGuidWarning \<and> guidlow > warnLevel then GuidWarning
      else NoAlarm)"

section \<open>Properties\<close>

lemma mask_words:
  "(x :: u64) AND 0x0000FFFF = take_bit 16 x"
  "x AND 0x0000000000FFFFFF = take_bit 24 x"
  "x AND 0x00000000FFFFFFFF = take_bit 32 x"
  by (simp_all add: take_bit_eq_mask mask_eq_exp_minus_1)

lemma bit_small: "unat (x :: 'a::len word) < 2 ^ n \<Longrightarrow> n \<le> k \<Longrightarrow> \<not> bit x k"
proof -
  assume small: "unat x < 2 ^ n" and "n \<le> k"
  then have "\<not> bit (unat x) k"
    by (metis bit_take_bit_iff leD take_bit_nat_eq_self)
  then show ?thesis by (simp add: bit_unsigned_iff)
qed

lemma mk_guid_entry_parts:
  assumes "counter \<noteq> 0" and "unat counter < 2 ^ 24" and "unat entry < 2 ^ 24"
  shows "GetHigh (mk_guid_entry hi entry counter) = hi"
    and "ucast (drop_bit 24 (mk_guid_entry hi entry counter) AND 0x0000000000FFFFFF) = entry"
    and "ucast (mk_guid_entry hi entry counter AND 0x0000000000FFFFFF) = counter"
proof -
  have c: "\<not> bit counter k" if "24 \<le> k" for k using bit_small [OF assms(2) that] .
  have e: "\<not> bit entry k" if "24 \<le> k" for k using bit_small [OF assms(3) that] .
  show "GetHigh (mk_guid_entry hi entry counter) = hi"
    using assms(1) c e
    by (intro bit_word_eqI) (auto simp: mk_guid_entry_def GetHigh_def mask_words bit_simps)
  show "ucast (drop_bit 24 (mk_guid_entry hi entry counter) AND 0x0000000000FFFFFF) = entry"
    using assms(1) c e
    by (intro bit_word_eqI) (auto simp: mk_guid_entry_def mask_words bit_simps not_less)
  show "ucast (mk_guid_entry hi entry counter AND 0x0000000000FFFFFF) = counter"
    using assms(1) c e
    by (intro bit_word_eqI) (auto simp: mk_guid_entry_def mask_words bit_simps not_less)
qed

lemma mk_guid_parts:
  assumes "counter \<noteq> 0"
  shows "GetHigh (mk_guid hi counter) = hi"
    and "ucast (mk_guid hi counter AND 0x00000000FFFFFFFF) = counter"
proof -
  have c: "\<not> bit counter (48 + k)" for k
    using bit_imp_le_length [of counter "48 + k"] by auto
  show "GetHigh (mk_guid hi counter) = hi"
    using assms c by (intro bit_word_eqI) (auto simp: mk_guid_def GetHigh_def mask_words bit_simps)
  show "ucast (mk_guid hi counter AND 0x00000000FFFFFFFF) = counter"
    using assms by (intro bit_word_eqI) (auto simp: mk_guid_def mask_words bit_simps)
qed

text \<open>\<^bold>\<open>A GUID gives back what it was made of.\<close> For a kind with an entry, a non-zero counter
  and entry below \<open>2^24\<close>, the three fields read back exactly; for the other kinds the kind and
  any non-zero 32-bit counter read back, and the entry is 0.\<close>

theorem guid_fields_round_trip:
  assumes "counter \<noteq> 0"
    and "high_has_entry hi \<Longrightarrow> unat entry < 2 ^ 24 \<and> unat counter < 2 ^ 24"
  shows "let g = (if high_has_entry hi then mk_guid_entry hi entry counter else mk_guid hi counter)
    in GetHigh g = hi \<and> GetCounter g = counter \<and>
       GetEntry g = (if high_has_entry hi then entry else 0)"
  using assms mk_guid_entry_parts [of counter entry hi] mk_guid_parts [of counter hi]
  by (auto simp: Let_def GetEntry_def GetCounter_def HasEntry_def)

theorem guid_fields_round_trip_witness:
  "GetEntry (mk_guid_entry HighGuid_Unit 448 77) = 448 \<and>
   GetCounter (mk_guid_entry HighGuid_Unit 448 77) = 77 \<and>
   GetCounter (mk_guid HighGuid_Player 77) = 77"
  using guid_fields_round_trip [of 77 HighGuid_Unit 448]
    guid_fields_round_trip [of 77 HighGuid_Player]
  by (simp add: high_has_entry_def high_guid_defs Let_def)

text \<open>\<^bold>\<open>Two objects with an entry never share a GUID.\<close> Within the 24-bit limits of the entry
  and the counter, equal GUIDs come from the same kind, entry and counter.\<close>

theorem guid_entry_injective:
  assumes "mk_guid_entry h1 e1 c1 = mk_guid_entry h2 e2 c2"
    and "c1 \<noteq> 0" and "c2 \<noteq> 0"
    and "unat c1 < 2 ^ 24" and "unat c2 < 2 ^ 24" and "unat e1 < 2 ^ 24" and "unat e2 < 2 ^ 24"
  shows "h1 = h2 \<and> e1 = e2 \<and> c1 = c2"
  using assms mk_guid_entry_parts [of c1 e1 h1] mk_guid_entry_parts [of c2 e2 h2] by metis

theorem guid_entry_injective_witness:
  "\<not> (mk_guid_entry HighGuid_Unit 448 77 = mk_guid_entry HighGuid_Pet 448 77)"
  using guid_entry_injective [of HighGuid_Unit 448 77 HighGuid_Pet 448 77]
  by (auto simp: high_guid_defs)

lemma generate_fresh:
  "Generate high gen = (i, gen') \<Longrightarrow> i = nextGuid gen \<and> nextGuid gen' = nextGuid gen + 1 \<and>
     (stopped gen' \<longleftrightarrow> stopped gen \<or> nextGuid gen \<ge> GetMaxCounter high - 1)"
  by (auto simp: Generate_def Let_def split: if_splits)

lemma max_counter_bound: "GetMaxCounter high - 1 < GetMaxCounter high"
  by (simp add: GetMaxCounter_def)

lemma generate_n_values:
  assumes "generate_n high n gen = (is, gen')" and "\<not> stopped gen'"
  shows "is = map (\<lambda>k. nextGuid gen + word_of_nat k) [0..<n] \<and>
    (n = 0 \<or> unat (nextGuid gen) + n \<le> unat (GetMaxCounter high) - 1)"
  using assms
proof (induction n arbitrary: gen gen' "is")
  case 0
  then show ?case by simp
next
  case (Suc n)
  obtain i g1 where g1: "Generate high gen = (i, g1)" by (meson prod.exhaust)
  obtain js g2 where g2: "generate_n high n g1 = (js, g2)" by (meson prod.exhaust)
  with Suc.prems g1 have eq: "is = i # js" "gen' = g2" by auto
  note fresh = generate_fresh [OF g1]
  have IH: "js = map (\<lambda>k. nextGuid g1 + word_of_nat k) [0..<n]"
      "n = 0 \<or> unat (nextGuid g1) + n \<le> unat (GetMaxCounter high) - 1"
    using Suc.IH [OF g2] Suc.prems(2) eq by auto
  have "stopped g1 \<Longrightarrow> stopped g2" using g2
  proof (induction n arbitrary: g1 js)
    case 0 then show ?case by simp
  next
    case (Suc n)
    then show ?case by (fastforce split: prod.splits dest: generate_fresh)
  qed
  then have below: "nextGuid gen < GetMaxCounter high - 1"
    using fresh Suc.prems(2) eq by (auto simp: not_le)
  then have "unat (nextGuid gen + 1) = Suc (unat (nextGuid gen))"
  proof -
    have "unat (GetMaxCounter high - 1) < 2 ^ 32"
      using unsigned_less [of "GetMaxCounter high - 1"] by simp
    with below have "Suc (unat (nextGuid gen)) < 2 ^ 32" by (simp add: word_less_nat_alt)
    then show ?thesis by (simp add: unat_word_ariths)
  qed
  moreover have "unat (nextGuid gen) < unat (GetMaxCounter high) - 1"
    using below by (simp add: GetMaxCounter_def word_less_nat_alt split: if_splits)
  ultimately have "unat (nextGuid gen) + Suc n \<le> unat (GetMaxCounter high) - 1"
    using IH(2) fresh by auto
  moreover have "is = map (\<lambda>k. nextGuid gen + word_of_nat k) [0..<Suc n]"
    using eq IH(1) fresh by (simp add: upt_conv_Cons map_Suc_upt [symmetric] del: upt_Suc)
  ultimately show ?case by simp
qed

text \<open>\<^bold>\<open>A generator never repeats a counter while the server runs.\<close> Any number of calls of
  \<open>Generate\<close> that did not stop the world returned pairwise different counters, none above the
  largest counter of the kind, so the GUIDs made of them are different.\<close>

theorem generator_distinct:
  assumes "generate_n high n gen = (is, gen')" and "\<not> stopped gen'"
  shows "distinct is \<and> length is = n \<and> (\<forall>i \<in> set is. i < GetMaxCounter high)"
proof -
  from generate_n_values [OF assms]
  have is_eq: "is = map (\<lambda>k. nextGuid gen + word_of_nat k) [0..<n]"
    and bound: "n = 0 \<or> unat (nextGuid gen) + n \<le> unat (GetMaxCounter high) - 1" by auto
  have val: "unat (nextGuid gen + word_of_nat k) = unat (nextGuid gen) + k" if "k < n" for k
  proof -
    have "unat (GetMaxCounter high) < 2 ^ 32" using unsigned_less [of "GetMaxCounter high"] by simp
    then have "unat (nextGuid gen) + k < 2 ^ 32" using bound that by auto
    then show ?thesis by (simp add: unat_word_ariths unat_of_nat take_bit_nat_eq_self)
  qed
  have "inj_on (\<lambda>k. nextGuid gen + word_of_nat k) (set [0..<n])"
    by (rule inj_onI) (metis val atLeastLessThan_iff set_upt add_left_cancel)
  moreover have "\<forall>i \<in> set is. i < GetMaxCounter high"
    using bound by (auto simp: is_eq word_less_nat_alt val)
  ultimately show ?thesis by (simp add: is_eq distinct_map)
qed

theorem generator_distinct_witness:
  "distinct (fst (generate_n HighGuid_Player 3 (new_generator 5))) \<and>
   fst (generate_n HighGuid_Player 3 (new_generator 5)) = [5, 6, 7]"
proof -
  have g: "generate_n HighGuid_Player 3 (new_generator 5) =
      ([5, 6, 7], \<lparr>nextGuid = 8, stopped = False, trigger = []\<rparr>)"
    by (simp add: numeral_3_eq_3 Generate_def new_generator_def GetMaxCounter_def
        high_has_entry_def high_guid_defs Let_def)
  from generator_distinct [OF g] g show ?thesis by simp
qed

end
