(* ===== verification/WorldPacket.thy ===== *)
theory WorldPacket
  imports ObjectGuid
begin

text \<open>
  \<^verbatim>\<open>src/src/server/game/Server/Packets/WorldPacket.h\<close>: a byte buffer with an opcode. The stream
  style \<open>data << v\<close> of the handlers is \<open>put_\<dots> v data\<close>, the packet as the write leaves it;
  the only way such a write fails is the buffer's 10 MB assertion, which stops the process.
\<close>

record world_packet = byte_buffer +
  m_opcode :: u16

definition NULL_OPCODE :: u16 where "NULL_OPCODE = 0"

definition wp_empty :: world_packet where
  "wp_empty = \<lparr>rpos = 0, wpos = 0, storage = [], m_opcode = NULL_OPCODE\<rparr>"

definition wp_new :: "u16 \<Rightarrow> world_packet" where
  "wp_new opcode = \<lparr>rpos = 0, wpos = 0, storage = [], m_opcode = opcode\<rparr>"

definition wp_Initialize :: "u16 \<Rightarrow> world_packet \<Rightarrow> world_packet" where
  "wp_Initialize opcode data = (bb_clear data)\<lparr>m_opcode := opcode\<rparr>"

definition SetOpcode :: "u16 \<Rightarrow> world_packet \<Rightarrow> world_packet" where
  "SetOpcode opcode data = data\<lparr>m_opcode := opcode\<rparr>"

text \<open>Copy and move assignment; a moved-from packet keeps its opcode.\<close>

definition wp_assign :: "world_packet \<Rightarrow> world_packet \<Rightarrow> world_packet" where
  "wp_assign right data =
     data\<lparr>m_opcode := m_opcode right, rpos := rpos right, wpos := wpos right, storage := storage right\<rparr>"

definition wp_move :: "world_packet \<Rightarrow> world_packet \<times> world_packet" where
  "wp_move data = (data, bb_clear data)"

definition put_u8 :: "u8 \<Rightarrow> world_packet \<Rightarrow> world_packet" where
  "put_u8 v data = snd (shl_u8 v data)"

definition put_u32 :: "u32 \<Rightarrow> world_packet \<Rightarrow> world_packet" where
  "put_u32 v data = snd (shl_u32 v data)"

definition put_u64 :: "u64 \<Rightarrow> world_packet \<Rightarrow> world_packet" where
  "put_u64 v data = snd (shl_u64 v data)"

definition put_string :: "string \<Rightarrow> world_packet \<Rightarrow> world_packet" where
  "put_string s data = snd (shl_string s data)"

text \<open>\<open>data.put<uint32>(pos, v)\<close> overwrites a placeholder.\<close>

definition overwrite_u32 :: "nat \<Rightarrow> u32 \<Rightarrow> world_packet \<Rightarrow> world_packet" where
  "overwrite_u32 p v data = snd (put_word p v data)"

section \<open>What a packet holds\<close>

text \<open>
  \<open>packet_is op n bs data\<close>: the packet has the opcode and exactly these bytes, all appended,
  none read. \<open>room\<close> bounds the bytes so that the assertion is not reached.
\<close>

definition packet_is :: "u16 \<Rightarrow> u8 list \<Rightarrow> world_packet \<Rightarrow> bool" where
  "packet_is opcode bs data \<longleftrightarrow>
     m_opcode data = opcode \<and> storage data = bs \<and> wpos data = length bs \<and> rpos data = 0"

definition room :: "u8 list \<Rightarrow> bool" where
  "room bs \<longleftrightarrow> length bs \<le> 10000000"

lemma packet_is_Initialize [simp]: "packet_is opcode [] (wp_Initialize opcode data)"
  by (simp add: packet_is_def wp_Initialize_def bb_clear_def)

lemma packet_is_new [simp]: "packet_is opcode [] (wp_new opcode)"
  by (simp add: packet_is_def wp_new_def)

lemma packet_is_extend:
  "packet_is opcode bs data \<Longrightarrow> packet_is opcode (bs @ cs) (bb_extend cs data)"
  by (simp add: packet_is_def bb_extend_def)

lemma packet_is_appending: "packet_is opcode bs data \<Longrightarrow> appending data \<and> storage data = bs"
  by (simp add: packet_is_def appending_def)

lemma packet_put:
  assumes "packet_is opcode bs data"
  shows "room (bs @ [v]) \<Longrightarrow> packet_is opcode (bs @ [v]) (put_u8 v data)"
    and "room (bs @ le_bytes w) \<Longrightarrow> packet_is opcode (bs @ le_bytes w) (put_u32 w data)"
    and "room (bs @ le_bytes x) \<Longrightarrow> packet_is opcode (bs @ le_bytes x) (put_u64 x data)"
    and "room (bs @ string_bytes s) \<Longrightarrow> packet_is opcode (bs @ string_bytes s) (put_string s data)"
proof -
  note app = packet_is_appending [OF assms]
  show "packet_is opcode (bs @ [v]) (put_u8 v data)" if "room (bs @ [v])"
    using w8.writes [where x = v and b = data] that app packet_is_extend [OF assms]
    by (simp add: put_u8_def room_def le_bytes_u8)
  show "packet_is opcode (bs @ le_bytes w) (put_u32 w data)" if "room (bs @ le_bytes w)"
    using w32.writes [where x = w and b = data] that app packet_is_extend [OF assms]
    by (simp add: put_u32_def room_def)
  show "packet_is opcode (bs @ le_bytes x) (put_u64 x data)" if "room (bs @ le_bytes x)"
    using w64.writes [where x = x and b = data] that app packet_is_extend [OF assms]
    by (simp add: put_u64_def room_def)
  show "packet_is opcode (bs @ string_bytes s) (put_string s data)" if "room (bs @ string_bytes s)"
    using shl_string_end [of data s] that app packet_is_extend [OF assms]
    by (simp add: put_string_def room_def)
qed

text \<open>The client's read of a packet that holds these bytes starts at the front.\<close>

lemma packet_readable:
  "packet_is opcode bs data \<Longrightarrow> room bs \<Longrightarrow> readable data bs"
  by (simp add: packet_is_def readable_def room_def)

lemma packet_overwrite:
  assumes "packet_is opcode (pre @ old @ post) data" and "length old = 4"
    and "room (pre @ old @ post)"
  shows "packet_is opcode (pre @ le_bytes v @ post) (overwrite_u32 (length pre) v data)"
proof -
  have len: "sizeof_word TYPE(32 word) = 4" by (simp add: sizeof_word_def)
  have st: "storage data = pre @ old @ post" using assms(1) by (simp add: packet_is_def)
  have "size_add (length pre) 4 = length pre + 4"
    using assms(3) by (intro size_add_small) (simp add: room_def)
  then have "put_word (length pre) v data =
      (Inr (), data\<lparr>storage := pre @ le_bytes v @ post\<rparr>)"
    using st assms(2) by (simp add: put_word_def put_raw_def bb_size_def len vec_copy_def)
  then show ?thesis using assms(1,2) by (simp add: overwrite_u32_def packet_is_def len)
qed

end
