(* ===== verification/Channel.thy ===== *)
theory Channel
  imports WorldPacket
begin

text \<open>
  \<^verbatim>\<open>src/src/server/game/Chat/Channels/Channel.h\<close> and \<^verbatim>\<open>Channel.cpp\<close>: one chat channel,
  its members with their flags, its bans, its owner, and the packets it sends.
  An operation maps the channel before the call to the channel after it; what it does outside
  the channel (packets sent, the players' channel lists) is appended to the field
  \<open>sent\<close> in the order of the calls. What the rest of the server answers during the call
  is the record \<open>server\<close>.
\<close>

section \<open>The rest of the server, as a channel sees it\<close>

record player_view =
  v_guid :: guid
  v_name :: string
  v_security :: nat
  v_team :: u32
  v_guild :: u32
  v_in_group :: bool
  v_lfg_empty :: bool
  v_ignores :: "u32 list"

record server =
  FindPlayer :: "guid \<Rightarrow> player_view option"
  FindConnectedPlayer :: "guid \<Rightarrow> player_view option"
  FindConnectedPlayerByName :: "string \<Rightarrow> player_view option"
  GetCharacterAccountIdByGuid :: "guid \<Rightarrow> u32"
  GetCharacterNameByGuid :: "guid \<Rightarrow> string option"
  GetGameTime :: u64
  CONFIG_RESTRICTED_LFG_CHANNEL :: bool
  CONFIG_SILENTLY_GM_JOIN_TO_CHANNEL :: bool
  CONFIG_ALLOW_TWO_SIDE_INTERACTION_CHANNEL :: bool
  GetChannelEntryFor :: "u32 \<Rightarrow> (u32 \<times> u32) option"
  channel_ban_rows :: "string \<Rightarrow> u64 \<Rightarrow> (u32 \<times> u32) list"

definition SEC_PLAYER :: nat where "SEC_PLAYER = 0"
definition SEC_GAMEMASTER1 :: nat where "SEC_GAMEMASTER1 = 1"
definition SEC_GAMEMASTER2 :: nat where "SEC_GAMEMASTER2 = 2"

definition HasIgnore :: "player_view \<Rightarrow> u32 \<Rightarrow> bool" where
  "HasIgnore plr low = (low \<in> set (v_ignores plr))"

datatype effect =
    SendDirectMessage guid world_packet
  | JoinedChannel guid string
  | LeftChannel guid string

section \<open>State\<close>

definition SMSG_CHANNEL_NOTIFY :: u16 where "SMSG_CHANNEL_NOTIFY = 0x099"
definition SMSG_CHANNEL_LIST :: u16 where "SMSG_CHANNEL_LIST = 0x09B"
definition SMSG_CHANNEL_MEMBER_COUNT :: u16 where "SMSG_CHANNEL_MEMBER_COUNT = 0x3D4"
definition SMSG_USERLIST_ADD :: u16 where "SMSG_USERLIST_ADD = 0x3EF"
definition SMSG_USERLIST_REMOVE :: u16 where "SMSG_USERLIST_REMOVE = 0x3F0"
definition SMSG_USERLIST_UPDATE :: u16 where "SMSG_USERLIST_UPDATE = 0x3F1"

text \<open>\<open>ChatNotify\<close>: the notice types; \<open>notify_code\<close> is the byte on the wire.\<close>

datatype chat_notify =
    CHAT_JOINED_NOTICE | CHAT_LEFT_NOTICE | CHAT_YOU_JOINED_NOTICE | CHAT_YOU_LEFT_NOTICE
  | CHAT_WRONG_PASSWORD_NOTICE | CHAT_NOT_MEMBER_NOTICE | CHAT_NOT_MODERATOR_NOTICE
  | CHAT_PASSWORD_CHANGED_NOTICE | CHAT_OWNER_CHANGED_NOTICE | CHAT_PLAYER_NOT_FOUND_NOTICE
  | CHAT_NOT_OWNER_NOTICE | CHAT_CHANNEL_OWNER_NOTICE | CHAT_MODE_CHANGE_NOTICE
  | CHAT_ANNOUNCEMENTS_ON_NOTICE | CHAT_ANNOUNCEMENTS_OFF_NOTICE | CHAT_MODERATION_ON_NOTICE
  | CHAT_MODERATION_OFF_NOTICE | CHAT_MUTED_NOTICE | CHAT_PLAYER_KICKED_NOTICE
  | CHAT_BANNED_NOTICE | CHAT_PLAYER_BANNED_NOTICE | CHAT_PLAYER_UNBANNED_NOTICE
  | CHAT_PLAYER_NOT_BANNED_NOTICE | CHAT_PLAYER_ALREADY_MEMBER_NOTICE | CHAT_INVITE_NOTICE
  | CHAT_INVITE_WRONG_FACTION_NOTICE | CHAT_WRONG_FACTION_NOTICE | CHAT_INVALID_NAME_NOTICE
  | CHAT_NOT_MODERATED_NOTICE | CHAT_PLAYER_INVITED_NOTICE | CHAT_PLAYER_INVITE_BANNED_NOTICE
  | CHAT_THROTTLED_NOTICE | CHAT_NOT_IN_AREA_NOTICE | CHAT_NOT_IN_LFG_NOTICE
  | CHAT_VOICE_ON_NOTICE | CHAT_VOICE_OFF_NOTICE

fun notify_code :: "chat_notify \<Rightarrow> u8" where
  "notify_code CHAT_JOINED_NOTICE = 0x00"
| "notify_code CHAT_LEFT_NOTICE = 0x01"
| "notify_code CHAT_YOU_JOINED_NOTICE = 0x02"
| "notify_code CHAT_YOU_LEFT_NOTICE = 0x03"
| "notify_code CHAT_WRONG_PASSWORD_NOTICE = 0x04"
| "notify_code CHAT_NOT_MEMBER_NOTICE = 0x05"
| "notify_code CHAT_NOT_MODERATOR_NOTICE = 0x06"
| "notify_code CHAT_PASSWORD_CHANGED_NOTICE = 0x07"
| "notify_code CHAT_OWNER_CHANGED_NOTICE = 0x08"
| "notify_code CHAT_PLAYER_NOT_FOUND_NOTICE = 0x09"
| "notify_code CHAT_NOT_OWNER_NOTICE = 0x0A"
| "notify_code CHAT_CHANNEL_OWNER_NOTICE = 0x0B"
| "notify_code CHAT_MODE_CHANGE_NOTICE = 0x0C"
| "notify_code CHAT_ANNOUNCEMENTS_ON_NOTICE = 0x0D"
| "notify_code CHAT_ANNOUNCEMENTS_OFF_NOTICE = 0x0E"
| "notify_code CHAT_MODERATION_ON_NOTICE = 0x0F"
| "notify_code CHAT_MODERATION_OFF_NOTICE = 0x10"
| "notify_code CHAT_MUTED_NOTICE = 0x11"
| "notify_code CHAT_PLAYER_KICKED_NOTICE = 0x12"
| "notify_code CHAT_BANNED_NOTICE = 0x13"
| "notify_code CHAT_PLAYER_BANNED_NOTICE = 0x14"
| "notify_code CHAT_PLAYER_UNBANNED_NOTICE = 0x15"
| "notify_code CHAT_PLAYER_NOT_BANNED_NOTICE = 0x16"
| "notify_code CHAT_PLAYER_ALREADY_MEMBER_NOTICE = 0x17"
| "notify_code CHAT_INVITE_NOTICE = 0x18"
| "notify_code CHAT_INVITE_WRONG_FACTION_NOTICE = 0x19"
| "notify_code CHAT_WRONG_FACTION_NOTICE = 0x1A"
| "notify_code CHAT_INVALID_NAME_NOTICE = 0x1B"
| "notify_code CHAT_NOT_MODERATED_NOTICE = 0x1C"
| "notify_code CHAT_PLAYER_INVITED_NOTICE = 0x1D"
| "notify_code CHAT_PLAYER_INVITE_BANNED_NOTICE = 0x1E"
| "notify_code CHAT_THROTTLED_NOTICE = 0x1F"
| "notify_code CHAT_NOT_IN_AREA_NOTICE = 0x20"
| "notify_code CHAT_NOT_IN_LFG_NOTICE = 0x21"
| "notify_code CHAT_VOICE_ON_NOTICE = 0x22"
| "notify_code CHAT_VOICE_OFF_NOTICE = 0x23"

definition CHANNEL_FLAG_CUSTOM :: u8 where "CHANNEL_FLAG_CUSTOM = 0x01"
definition CHANNEL_FLAG_TRADE :: u8 where "CHANNEL_FLAG_TRADE = 0x04"
definition CHANNEL_FLAG_NOT_LFG :: u8 where "CHANNEL_FLAG_NOT_LFG = 0x08"
definition CHANNEL_FLAG_GENERAL :: u8 where "CHANNEL_FLAG_GENERAL = 0x10"
definition CHANNEL_FLAG_CITY :: u8 where "CHANNEL_FLAG_CITY = 0x20"
definition CHANNEL_FLAG_LFG :: u8 where "CHANNEL_FLAG_LFG = 0x40"

definition CHANNEL_DBC_FLAG_TRADE :: u32 where "CHANNEL_DBC_FLAG_TRADE = 0x00008"
definition CHANNEL_DBC_FLAG_CITY_ONLY2 :: u32 where "CHANNEL_DBC_FLAG_CITY_ONLY2 = 0x00020"
definition CHANNEL_DBC_FLAG_LFG :: u32 where "CHANNEL_DBC_FLAG_LFG = 0x40000"

definition MEMBER_FLAG_OWNER :: u8 where "MEMBER_FLAG_OWNER = 0x01"
definition MEMBER_FLAG_MODERATOR :: u8 where "MEMBER_FLAG_MODERATOR = 0x02"
definition MEMBER_FLAG_MUTED :: u8 where "MEMBER_FLAG_MUTED = 0x08"

record player_info =
  pi_player :: guid
  pi_flags :: u8
  pi_invisible :: bool

text \<open>The entry that \<open>players[p]\<close> value-initialises where \<open>p\<close> is missing.\<close>

definition pi0 :: player_info where
  "pi0 = \<lparr>pi_player = guid_Empty, pi_flags = 0, pi_invisible = False\<rparr>"

definition pi_IsOwner :: "player_info \<Rightarrow> bool" where
  "pi_IsOwner i = has_flag (pi_flags i) MEMBER_FLAG_OWNER"

definition pi_SetOwner :: "bool \<Rightarrow> player_info \<Rightarrow> player_info" where
  "pi_SetOwner state i =
     (if state then i\<lparr>pi_flags := set_flag (pi_flags i) MEMBER_FLAG_OWNER\<rparr>
      else i\<lparr>pi_flags := clear_flag (pi_flags i) MEMBER_FLAG_OWNER\<rparr>)"

definition pi_IsModerator :: "player_info \<Rightarrow> bool" where
  "pi_IsModerator i = has_flag (pi_flags i) MEMBER_FLAG_MODERATOR"

definition pi_SetModerator :: "bool \<Rightarrow> player_info \<Rightarrow> player_info" where
  "pi_SetModerator state i =
     (if state then i\<lparr>pi_flags := set_flag (pi_flags i) MEMBER_FLAG_MODERATOR\<rparr>
      else i\<lparr>pi_flags := clear_flag (pi_flags i) MEMBER_FLAG_MODERATOR\<rparr>)"

definition pi_IsMuted :: "player_info \<Rightarrow> bool" where
  "pi_IsMuted i = has_flag (pi_flags i) MEMBER_FLAG_MUTED"

definition pi_SetMuted :: "bool \<Rightarrow> player_info \<Rightarrow> player_info" where
  "pi_SetMuted state i =
     (if state then i\<lparr>pi_flags := set_flag (pi_flags i) MEMBER_FLAG_MUTED\<rparr>
      else i\<lparr>pi_flags := clear_flag (pi_flags i) MEMBER_FLAG_MUTED\<rparr>)"

record channel =
  players :: "(guid, player_info) smap"
  banned :: "u64 sset"
  gmbanned :: "(u64, u64) smap"
  m_announce :: bool
  m_moderate :: bool
  m_name :: string
  m_password :: string
  m_flags :: u8
  m_channelId :: u32
  m_ownerGUID :: guid
  sent :: "effect list"

definition IsOn :: "guid \<Rightarrow> channel \<Rightarrow> bool" where
  "IsOn who ch = (smap_find (players ch) who \<noteq> None)"

definition IsBanned :: "guid \<Rightarrow> channel \<Rightarrow> bool" where
  "IsBanned g ch = (g \<in> set (banned ch))"

definition IsConstant :: "channel \<Rightarrow> bool" where
  "IsConstant ch = (m_channelId ch \<noteq> 0)"

definition ch_IsEmpty :: "channel \<Rightarrow> bool" where
  "ch_IsEmpty ch = (players ch = [])"

definition IsLFG :: "channel \<Rightarrow> bool" where
  "IsLFG ch = has_flag (m_flags ch) CHANNEL_FLAG_LFG"

definition GetPlayerFlags :: "guid \<Rightarrow> channel \<Rightarrow> u8" where
  "GetPlayerFlags p ch =
     (case smap_find (players ch) p of None \<Rightarrow> 0 | Some i \<Rightarrow> pi_flags i)"

definition IsFirst :: "channel \<Rightarrow> bool" where
  "IsFirst ch = (\<not> length (players ch) > 1)"

text \<open>\<open>players[p]\<close> as a read, and the map it leaves behind.\<close>

definition at_player :: "guid \<Rightarrow> channel \<Rightarrow> player_info" where
  "at_player p ch = smap_get pi0 (players ch) p"

definition touch_player :: "guid \<Rightarrow> channel \<Rightarrow> channel" where
  "touch_player p ch = ch\<lparr>players := smap_touch pi0 p (players ch)\<rparr>"

definition modify_player :: "guid \<Rightarrow> (player_info \<Rightarrow> player_info) \<Rightarrow> channel \<Rightarrow> channel" where
  "modify_player p f ch = ch\<lparr>players := smap_modify pi0 p f (players ch)\<rparr>"

definition GetNumPlayers :: "channel \<Rightarrow> u32" where
  "GetNumPlayers ch = word_of_nat (length (filter (\<lambda>e. \<not> pi_invisible (snd e)) (players ch)))"

section \<open>Packets\<close>

text \<open>
  Each \<open>Make\<dots>\<close> function fills the packet \<open>data\<close> it is given: \<open>MakeNotifyPacket\<close>
  starts it over with the notice type and the channel name, then the fields of the notice
  follow.
\<close>

definition MakeNotifyPacket :: "channel \<Rightarrow> chat_notify \<Rightarrow> world_packet \<Rightarrow> world_packet" where
  "MakeNotifyPacket ch n data =
     put_string (m_name ch) (put_u8 (notify_code n) (wp_Initialize SMSG_CHANNEL_NOTIFY data))"

definition MakeWrongPassword :: "channel \<Rightarrow> world_packet \<Rightarrow> world_packet" where
  "MakeWrongPassword ch data = MakeNotifyPacket ch CHAT_WRONG_PASSWORD_NOTICE data"

definition MakeNotMember :: "channel \<Rightarrow> world_packet \<Rightarrow> world_packet" where
  "MakeNotMember ch data = MakeNotifyPacket ch CHAT_NOT_MEMBER_NOTICE data"

definition MakeNotModerator :: "channel \<Rightarrow> world_packet \<Rightarrow> world_packet" where
  "MakeNotModerator ch data = MakeNotifyPacket ch CHAT_NOT_MODERATOR_NOTICE data"

definition MakeNotOwner :: "channel \<Rightarrow> world_packet \<Rightarrow> world_packet" where
  "MakeNotOwner ch data = MakeNotifyPacket ch CHAT_NOT_OWNER_NOTICE data"

definition MakeMuted :: "channel \<Rightarrow> world_packet \<Rightarrow> world_packet" where
  "MakeMuted ch data = MakeNotifyPacket ch CHAT_MUTED_NOTICE data"

definition MakeBanned :: "channel \<Rightarrow> world_packet \<Rightarrow> world_packet" where
  "MakeBanned ch data = MakeNotifyPacket ch CHAT_BANNED_NOTICE data"

definition MakeInviteWrongFaction :: "channel \<Rightarrow> world_packet \<Rightarrow> world_packet" where
  "MakeInviteWrongFaction ch data = MakeNotifyPacket ch CHAT_INVITE_WRONG_FACTION_NOTICE data"

definition MakeWrongFaction :: "channel \<Rightarrow> world_packet \<Rightarrow> world_packet" where
  "MakeWrongFaction ch data = MakeNotifyPacket ch CHAT_WRONG_FACTION_NOTICE data"

definition MakeInvalidName :: "channel \<Rightarrow> world_packet \<Rightarrow> world_packet" where
  "MakeInvalidName ch data = MakeNotifyPacket ch CHAT_INVALID_NAME_NOTICE data"

definition MakeNotModerated :: "channel \<Rightarrow> world_packet \<Rightarrow> world_packet" where
  "MakeNotModerated ch data = MakeNotifyPacket ch CHAT_NOT_MODERATED_NOTICE data"

definition MakeThrottled :: "channel \<Rightarrow> world_packet \<Rightarrow> world_packet" where
  "MakeThrottled ch data = MakeNotifyPacket ch CHAT_THROTTLED_NOTICE data"

definition MakeNotInArea :: "channel \<Rightarrow> world_packet \<Rightarrow> world_packet" where
  "MakeNotInArea ch data = MakeNotifyPacket ch CHAT_NOT_IN_AREA_NOTICE data"

definition MakeNotInLfg :: "channel \<Rightarrow> world_packet \<Rightarrow> world_packet" where
  "MakeNotInLfg ch data = MakeNotifyPacket ch CHAT_NOT_IN_LFG_NOTICE data"

definition MakeJoined :: "channel \<Rightarrow> guid \<Rightarrow> world_packet \<Rightarrow> world_packet" where
  "MakeJoined ch g data = put_u64 g (MakeNotifyPacket ch CHAT_JOINED_NOTICE data)"

definition MakeLeft :: "channel \<Rightarrow> guid \<Rightarrow> world_packet \<Rightarrow> world_packet" where
  "MakeLeft ch g data = put_u64 g (MakeNotifyPacket ch CHAT_LEFT_NOTICE data)"

definition MakePasswordChanged :: "channel \<Rightarrow> guid \<Rightarrow> world_packet \<Rightarrow> world_packet" where
  "MakePasswordChanged ch g data = put_u64 g (MakeNotifyPacket ch CHAT_PASSWORD_CHANGED_NOTICE data)"

definition MakeOwnerChanged :: "channel \<Rightarrow> guid \<Rightarrow> world_packet \<Rightarrow> world_packet" where
  "MakeOwnerChanged ch g data = put_u64 g (MakeNotifyPacket ch CHAT_OWNER_CHANGED_NOTICE data)"

definition MakeAnnouncementsOn :: "channel \<Rightarrow> guid \<Rightarrow> world_packet \<Rightarrow> world_packet" where
  "MakeAnnouncementsOn ch g data = put_u64 g (MakeNotifyPacket ch CHAT_ANNOUNCEMENTS_ON_NOTICE data)"

definition MakeAnnouncementsOff :: "channel \<Rightarrow> guid \<Rightarrow> world_packet \<Rightarrow> world_packet" where
  "MakeAnnouncementsOff ch g data = put_u64 g (MakeNotifyPacket ch CHAT_ANNOUNCEMENTS_OFF_NOTICE data)"

definition MakeModerationOn :: "channel \<Rightarrow> guid \<Rightarrow> world_packet \<Rightarrow> world_packet" where
  "MakeModerationOn ch g data = put_u64 g (MakeNotifyPacket ch CHAT_MODERATION_ON_NOTICE data)"

definition MakeModerationOff :: "channel \<Rightarrow> guid \<Rightarrow> world_packet \<Rightarrow> world_packet" where
  "MakeModerationOff ch g data = put_u64 g (MakeNotifyPacket ch CHAT_MODERATION_OFF_NOTICE data)"

definition MakePlayerNotBanned :: "channel \<Rightarrow> guid \<Rightarrow> world_packet \<Rightarrow> world_packet" where
  "MakePlayerNotBanned ch g data = put_u64 g (MakeNotifyPacket ch CHAT_PLAYER_NOT_BANNED_NOTICE data)"

definition MakePlayerAlreadyMember :: "channel \<Rightarrow> guid \<Rightarrow> world_packet \<Rightarrow> world_packet" where
  "MakePlayerAlreadyMember ch g data = put_u64 g (MakeNotifyPacket ch CHAT_PLAYER_ALREADY_MEMBER_NOTICE data)"

definition MakeInvite :: "channel \<Rightarrow> guid \<Rightarrow> world_packet \<Rightarrow> world_packet" where
  "MakeInvite ch g data = put_u64 g (MakeNotifyPacket ch CHAT_INVITE_NOTICE data)"

definition MakePlayerInviteBanned :: "channel \<Rightarrow> guid \<Rightarrow> world_packet \<Rightarrow> world_packet" where
  "MakePlayerInviteBanned ch g data = put_u64 g (MakeNotifyPacket ch CHAT_PLAYER_INVITE_BANNED_NOTICE data)"

definition MakeVoiceOn :: "channel \<Rightarrow> guid \<Rightarrow> world_packet \<Rightarrow> world_packet" where
  "MakeVoiceOn ch g data = put_u64 g (MakeNotifyPacket ch CHAT_VOICE_ON_NOTICE data)"

definition MakeVoiceOff :: "channel \<Rightarrow> guid \<Rightarrow> world_packet \<Rightarrow> world_packet" where
  "MakeVoiceOff ch g data = put_u64 g (MakeNotifyPacket ch CHAT_VOICE_OFF_NOTICE data)"

definition MakePlayerKicked :: "channel \<Rightarrow> u64 \<Rightarrow> u64 \<Rightarrow> world_packet \<Rightarrow> world_packet" where
  "MakePlayerKicked ch bad good data = put_u64 good (put_u64 bad (MakeNotifyPacket ch CHAT_PLAYER_KICKED_NOTICE data))"

definition MakePlayerBanned :: "channel \<Rightarrow> u64 \<Rightarrow> u64 \<Rightarrow> world_packet \<Rightarrow> world_packet" where
  "MakePlayerBanned ch bad good data = put_u64 good (put_u64 bad (MakeNotifyPacket ch CHAT_PLAYER_BANNED_NOTICE data))"

definition MakePlayerUnbanned :: "channel \<Rightarrow> u64 \<Rightarrow> u64 \<Rightarrow> world_packet \<Rightarrow> world_packet" where
  "MakePlayerUnbanned ch bad good data = put_u64 good (put_u64 bad (MakeNotifyPacket ch CHAT_PLAYER_UNBANNED_NOTICE data))"

definition MakePlayerNotFound :: "channel \<Rightarrow> string \<Rightarrow> world_packet \<Rightarrow> world_packet" where
  "MakePlayerNotFound ch name data = put_string name (MakeNotifyPacket ch CHAT_PLAYER_NOT_FOUND_NOTICE data)"

definition MakePlayerInvited :: "channel \<Rightarrow> string \<Rightarrow> world_packet \<Rightarrow> world_packet" where
  "MakePlayerInvited ch name data = put_string name (MakeNotifyPacket ch CHAT_PLAYER_INVITED_NOTICE data)"

definition MakeYouJoined :: "channel \<Rightarrow> world_packet \<Rightarrow> world_packet" where
  "MakeYouJoined ch data =
     put_u32 0 (put_u32 (m_channelId ch) (put_u8 (m_flags ch)
       (MakeNotifyPacket ch CHAT_YOU_JOINED_NOTICE data)))"

definition MakeYouLeft :: "channel \<Rightarrow> world_packet \<Rightarrow> world_packet" where
  "MakeYouLeft ch data =
     put_u8 0 (put_u32 (m_channelId ch) (MakeNotifyPacket ch CHAT_YOU_LEFT_NOTICE data))"

definition MakeChannelOwner :: "server \<Rightarrow> channel \<Rightarrow> world_packet \<Rightarrow> world_packet" where
  "MakeChannelOwner srv ch data =
     (let name = (case GetCharacterNameByGuid srv (m_ownerGUID ch) of
                    None \<Rightarrow> ''PLAYER_NOT_FOUND''
                  | Some n \<Rightarrow> if n = [] then ''PLAYER_NOT_FOUND'' else n)
      in put_string (if IsConstant ch \<or> m_ownerGUID ch = 0 then ''Nobody'' else name)
           (MakeNotifyPacket ch CHAT_CHANNEL_OWNER_NOTICE data))"

definition MakeModeChange :: "channel \<Rightarrow> guid \<Rightarrow> u8 \<Rightarrow> world_packet \<Rightarrow> world_packet" where
  "MakeModeChange ch g oldflags data =
     put_u8 (GetPlayerFlags g ch) (put_u8 oldflags (put_u64 g
       (MakeNotifyPacket ch CHAT_MODE_CHANGE_NOTICE data)))"

section \<open>Sending\<close>

definition emit :: "effect \<Rightarrow> channel \<Rightarrow> channel" where
  "emit e ch = ch\<lparr>sent := sent ch @ [e]\<rparr>"

definition SendToOne :: "server \<Rightarrow> world_packet \<Rightarrow> guid \<Rightarrow> channel \<Rightarrow> channel" where
  "SendToOne srv data who ch =
     (case FindPlayer srv who of
        None \<Rightarrow> ch
      | Some plr \<Rightarrow> emit (SendDirectMessage (v_guid plr) data) ch)"

text \<open>\<open>SendToAll(data, p)\<close>: members who ignore \<open>p\<close> are left out, unless \<open>p\<close> is empty.\<close>

definition SendToAll :: "server \<Rightarrow> world_packet \<Rightarrow> guid \<Rightarrow> channel \<Rightarrow> channel" where
  "SendToAll srv data p ch =
     fold (\<lambda>e c. case FindPlayer srv (fst e) of
              None \<Rightarrow> c
            | Some plr \<Rightarrow>
                if p = 0 \<or> \<not> HasIgnore plr (GetCounter p)
                then emit (SendDirectMessage (v_guid plr) data) c else c)
       (players ch) ch"

definition SendToAllButOne :: "server \<Rightarrow> world_packet \<Rightarrow> guid \<Rightarrow> channel \<Rightarrow> channel" where
  "SendToAllButOne srv data who ch =
     fold (\<lambda>e c. if fst e \<noteq> who
              then (case FindPlayer srv (fst e) of
                      None \<Rightarrow> c
                    | Some plr \<Rightarrow> emit (SendDirectMessage (v_guid plr) data) c)
              else c)
       (players ch) ch"

definition JoinNotify :: "server \<Rightarrow> guid \<Rightarrow> channel \<Rightarrow> channel" where
  "JoinNotify srv g ch =
     (let data = wp_Initialize (if IsConstant ch then SMSG_USERLIST_ADD else SMSG_USERLIST_UPDATE) wp_empty;
          data = put_u64 g data;
          data = put_u8 (GetPlayerFlags g ch) data;
          data = put_u8 (m_flags ch) data;
          data = put_u32 (GetNumPlayers ch) data;
          data = put_string (m_name ch) data
      in SendToAll srv data guid_Empty ch)"

definition LeaveNotify :: "server \<Rightarrow> guid \<Rightarrow> channel \<Rightarrow> channel" where
  "LeaveNotify srv g ch =
     (let data = wp_new SMSG_USERLIST_REMOVE;
          data = put_u64 g data;
          data = put_u8 (m_flags ch) data;
          data = put_u32 (GetNumPlayers ch) data;
          data = put_string (m_name ch) data
      in SendToAll srv data guid_Empty ch)"

section \<open>Construction and game master bans\<close>

definition new_Channel :: "server \<Rightarrow> string \<Rightarrow> u32 \<Rightarrow> channel" where
  "new_Channel srv name channel_id =
     (let c0 = \<lparr>players = [], banned = [], gmbanned = [], m_announce = True, m_moderate = False,
                m_name = name, m_password = [], m_flags = 0, m_channelId = channel_id,
                m_ownerGUID = guid_Empty, sent = []\<rparr>
      in case GetChannelEntryFor srv channel_id of
           Some (cid, fl) \<Rightarrow>
             let f = set_flag 0 CHANNEL_FLAG_GENERAL;
                 f = (if has_flag fl CHANNEL_DBC_FLAG_TRADE then set_flag f CHANNEL_FLAG_TRADE else f);
                 f = (if has_flag fl CHANNEL_DBC_FLAG_CITY_ONLY2 then set_flag f CHANNEL_FLAG_CITY else f);
                 f = (if has_flag fl CHANNEL_DBC_FLAG_LFG then set_flag f CHANNEL_FLAG_LFG
                      else set_flag f CHANNEL_FLAG_NOT_LFG)
             in c0\<lparr>m_channelId := cid, m_announce := False, m_flags := f\<rparr>
         | None \<Rightarrow>
             c0\<lparr>m_flags := set_flag 0 CHANNEL_FLAG_CUSTOM,
                gmbanned := fold (\<lambda>(a, x) m. smap_put (ucast a) (ucast x) m)
                  (channel_ban_rows srv name (GetGameTime srv)) [],
                m_announce := (if name = ''2v2'' \<or> name = ''3v3'' \<or> name = ''5v5'' \<or> name = ''pvp''
                               then False else True)\<rparr>)"

definition IsBannedByGM :: "server \<Rightarrow> guid \<Rightarrow> channel \<Rightarrow> bool" where
  "IsBannedByGM srv g ch =
     (let accountId = (ucast (GetCharacterAccountIdByGuid srv g) :: u64) in
      if accountId = 0 then False
      else case smap_find (gmbanned ch) accountId of
             Some expire \<Rightarrow> expire > GetGameTime srv
           | None \<Rightarrow> False)"

definition AddNewGMBan :: "u64 \<Rightarrow> u64 \<Rightarrow> channel \<Rightarrow> channel" where
  "AddNewGMBan accountid expire ch = ch\<lparr>gmbanned := smap_put accountid expire (gmbanned ch)\<rparr>"

definition InsertInGMBannedList :: "u64 \<Rightarrow> u64 \<Rightarrow> channel \<Rightarrow> channel" where
  "InsertInGMBannedList g expire ch = ch\<lparr>gmbanned := smap_put g expire (gmbanned ch)\<rparr>"

definition SetPassword :: "string \<Rightarrow> channel \<Rightarrow> channel" where
  "SetPassword npassword ch = ch\<lparr>m_password := npassword\<rparr>"

definition SetAnnounce :: "bool \<Rightarrow> channel \<Rightarrow> channel" where
  "SetAnnounce nannounce ch = ch\<lparr>m_announce := nannounce\<rparr>"

definition RemoveGMBan :: "server \<Rightarrow> u64 \<Rightarrow> channel \<Rightarrow> channel" where
  "RemoveGMBan srv accountid ch =
     ch\<lparr>gmbanned := smap_put accountid (GetGameTime srv) (gmbanned ch)\<rparr>"

section \<open>Owner, moderators, mutes\<close>

text \<open>\<open>SetOwner(ObjectGuid, bool)\<close>\<close>

definition SetOwner :: "server \<Rightarrow> guid \<Rightarrow> bool \<Rightarrow> channel \<Rightarrow> channel" where
  "SetOwner srv g exclaim ch =
     (let c1 = (if m_ownerGUID ch \<noteq> 0
                then (case smap_find (players ch) (m_ownerGUID ch) of
                        Some _ \<Rightarrow> modify_player (m_ownerGUID ch) (pi_SetOwner False) ch
                      | None \<Rightarrow> ch)
                else ch);
          c2 = c1\<lparr>m_ownerGUID := g\<rparr>
      in if m_ownerGUID c2 \<noteq> 0
         then
           let oldFlag = GetPlayerFlags (m_ownerGUID c2) c2;
               c3 = modify_player (m_ownerGUID c2) (pi_SetOwner True) c2;
               c4 = SendToAll srv (MakeModeChange c3 (m_ownerGUID c3) oldFlag wp_empty) guid_Empty c3
           in if exclaim
              then SendToAll srv (MakeOwnerChanged c4 (m_ownerGUID c4) wp_empty) guid_Empty c4
              else c4
         else c2)"

definition SetModerator :: "server \<Rightarrow> guid \<Rightarrow> bool \<Rightarrow> channel \<Rightarrow> channel" where
  "SetModerator srv p on ch =
     (let c1 = touch_player p ch in
      if pi_IsModerator (at_player p ch) \<noteq> on
      then
        let oldFlag = GetPlayerFlags p c1;
            c2 = modify_player p (pi_SetModerator on) c1
        in SendToAll srv (MakeModeChange c2 p oldFlag wp_empty) guid_Empty c2
      else c1)"

definition SetMute :: "server \<Rightarrow> guid \<Rightarrow> bool \<Rightarrow> channel \<Rightarrow> channel" where
  "SetMute srv p on ch =
     (if m_name ch = ''world'' then ch
      else
        let c1 = touch_player p ch in
        if pi_IsMuted (at_player p ch) \<noteq> on
        then
          let oldFlag = GetPlayerFlags p c1;
              c2 = modify_player p (pi_SetMuted on) c1
          in SendToAll srv (MakeModeChange c2 p oldFlag wp_empty) guid_Empty c2
        else c1)"

section \<open>Client operations\<close>

text \<open>The member, moderator and owner checks read the caller's security level this way.\<close>

definition security_of :: "player_view option \<Rightarrow> nat" where
  "security_of plr = (case plr of None \<Rightarrow> 0 | Some v \<Rightarrow> v_security v)"

definition c_str :: "string \<Rightarrow> string" where
  "c_str s = takeWhile (\<lambda>c. c \<noteq> CHR 0x00) s"

definition Join :: "server \<Rightarrow> guid \<Rightarrow> string \<Rightarrow> channel \<Rightarrow> channel" where
  "Join srv p pass ch =
     (if IsOn p ch
      then (if \<not> IsConstant ch then SendToOne srv (MakePlayerAlreadyMember ch p wp_empty) p ch else ch)
      else if IsBanned p ch then SendToOne srv (MakeBanned ch wp_empty) p ch
      else if IsBannedByGM srv p ch then SendToOne srv (MakeBanned ch wp_empty) p ch
      else if length (m_password ch) > 0 \<and> c_str pass \<noteq> c_str (m_password ch)
      then SendToOne srv (MakeWrongPassword ch wp_empty) p ch
      else
        let plr = FindPlayer srv p;
            in_lfg_reject = (case plr of None \<Rightarrow> False | Some v \<Rightarrow>
              has_flag (m_flags ch) CHANNEL_FLAG_LFG \<and> CONFIG_RESTRICTED_LFG_CHANNEL srv \<and>
              v_security v = SEC_PLAYER \<and> (v_in_group v \<or> v_lfg_empty v));
            guild_reject = (case plr of None \<Rightarrow> False | Some v \<Rightarrow>
              v_guild v \<noteq> 0 \<and> m_flags ch = 0x38)
        in if in_lfg_reject then SendToOne srv (MakeNotInLfg ch wp_empty) p ch
           else if guild_reject then ch
           else
             let c1 = (case plr of None \<Rightarrow> ch | Some v \<Rightarrow> emit (JoinedChannel (v_guid v) (m_name ch)) ch);
                 quiet = (case plr of None \<Rightarrow> False | Some v \<Rightarrow>
                   \<not> v_security v < SEC_GAMEMASTER1 \<and> CONFIG_SILENTLY_GM_JOIN_TO_CHANNEL srv);
                 c2 = (if m_announce c1 \<and> \<not> quiet \<and> m_name c1 \<noteq> ''world'' \<and> m_name c1 \<noteq> ''pvp''
                       then SendToAll srv (MakeJoined c1 p wp_empty) guid_Empty c1 else c1);
                 pinfo = \<lparr>pi_player = p, pi_flags = 0,
                          pi_invisible = (case plr of None \<Rightarrow> False | Some v \<Rightarrow> v_security v > SEC_PLAYER)
                                         \<and> CONFIG_SILENTLY_GM_JOIN_TO_CHANNEL srv\<rparr>;
                 c3 = c2\<lparr>players := smap_put p pinfo (players c2)\<rparr>;
                 c4 = SendToOne srv (MakeYouJoined c3 wp_empty) p c3;
                 c5 = JoinNotify srv p c4
             in if \<not> IsConstant c5 \<and> m_ownerGUID c5 = 0
                then modify_player p (pi_SetModerator True)
                       (SetOwner srv p (length (players c5) > 1) c5)
                else c5)"

definition Leave :: "server \<Rightarrow> guid \<Rightarrow> bool \<Rightarrow> channel \<Rightarrow> channel" where
  "Leave srv p send ch =
     (if \<not> IsOn p ch
      then (if send then SendToOne srv (MakeNotMember ch wp_empty) p ch else ch)
      else
        let plr = FindPlayer srv p;
            c1 = (if send
                  then (let c = SendToOne srv (MakeYouLeft ch wp_empty) p ch in
                        case plr of None \<Rightarrow> c | Some v \<Rightarrow> emit (LeftChannel (v_guid v) (m_name c)) c)
                  else ch);
            changeowner = pi_IsOwner (at_player p c1);
            c2 = c1\<lparr>players := smap_erase p (players c1)\<rparr>;
            loud = (case plr of None \<Rightarrow> True | Some v \<Rightarrow>
              v_security v = SEC_PLAYER \<or> \<not> CONFIG_SILENTLY_GM_JOIN_TO_CHANNEL srv);
            c3 = (if m_announce c2 \<and> loud \<and> m_name c2 \<noteq> ''world'' \<and> m_name c2 \<noteq> ''pvp''
                  then SendToAll srv (MakeLeft c2 p wp_empty) guid_Empty c2 else c2);
            c4 = LeaveNotify srv p c3
        in if changeowner
           then SetOwner srv (case players c4 of [] \<Rightarrow> guid_Empty | e # _ \<Rightarrow> pi_player (snd e)) True c4
           else c4)"

definition KickOrBan :: "server \<Rightarrow> guid \<Rightarrow> string \<Rightarrow> bool \<Rightarrow> channel \<Rightarrow> channel" where
  "KickOrBan srv good badname ban ch =
     (let sec = security_of (FindConnectedPlayer srv good) in
      if m_name ch = ''world'' \<and> sec < SEC_GAMEMASTER1 then ch
      else if \<not> IsOn good ch \<and> sec < SEC_GAMEMASTER1
      then SendToOne srv (MakeNotMember ch wp_empty) good ch
      else
        let c1 = touch_player good ch in
        if \<not> pi_IsModerator (at_player good ch) \<and> sec < SEC_GAMEMASTER1
        then SendToOne srv (MakeNotModerator c1 wp_empty) good c1
        else
          case FindConnectedPlayerByName srv badname of
            None \<Rightarrow> SendToOne srv (MakePlayerNotFound c1 badname wp_empty) good c1
          | Some bad \<Rightarrow>
              if \<not> IsOn (v_guid bad) c1
              then SendToOne srv (MakePlayerNotFound c1 badname wp_empty) good c1
              else if sec < SEC_GAMEMASTER1 \<and> v_guid bad = m_ownerGUID c1 \<and> good \<noteq> m_ownerGUID c1
              then SendToOne srv (MakeNotOwner c1 wp_empty) good c1
              else
                let changeowner = (m_ownerGUID c1 = v_guid bad);
                    (c2, data) =
                      (if ban \<and> \<not> IsBanned (v_guid bad) c1
                       then (c1\<lparr>banned := sset_insert (v_guid bad) (banned c1)\<rparr>,
                             MakePlayerBanned c1 (v_guid bad) good wp_empty)
                       else (c1, MakePlayerKicked c1 (v_guid bad) good wp_empty));
                    c3 = (if m_name c2 \<noteq> ''world'' then SendToAll srv data guid_Empty c2 else c2);
                    c4 = c3\<lparr>players := smap_erase (v_guid bad) (players c3)\<rparr>;
                    c5 = emit (LeftChannel (v_guid bad) (m_name c4)) c4
                in if changeowner
                   then SetOwner srv (if players c5 \<noteq> [] then good else guid_Empty) True c5
                   else c5)"

definition Kick :: "server \<Rightarrow> guid \<Rightarrow> string \<Rightarrow> channel \<Rightarrow> channel" where
  "Kick srv good badname ch = KickOrBan srv good badname False ch"

definition Ban :: "server \<Rightarrow> guid \<Rightarrow> string \<Rightarrow> channel \<Rightarrow> channel" where
  "Ban srv good badname ch = KickOrBan srv good badname True ch"

definition UnBan :: "server \<Rightarrow> guid \<Rightarrow> string \<Rightarrow> channel \<Rightarrow> channel" where
  "UnBan srv good badname ch =
     (let sec = security_of (FindPlayer srv good) in
      if \<not> IsOn good ch then SendToOne srv (MakeNotMember ch wp_empty) good ch
      else if \<not> pi_IsModerator (at_player good ch) \<and> sec < SEC_GAMEMASTER2
      then SendToOne srv (MakeNotModerator ch wp_empty) good ch
      else
        case FindConnectedPlayerByName srv badname of
          None \<Rightarrow> SendToOne srv (MakePlayerNotFound ch badname wp_empty) good ch
        | Some bad \<Rightarrow>
            if \<not> IsBanned (v_guid bad) ch
            then SendToOne srv (MakePlayerNotFound ch badname wp_empty) good ch
            else
              let c1 = ch\<lparr>banned := sset_erase (v_guid bad) (banned ch)\<rparr>
              in SendToAll srv (MakePlayerUnbanned c1 (v_guid bad) good wp_empty) guid_Empty c1)"

definition Password :: "server \<Rightarrow> guid \<Rightarrow> string \<Rightarrow> channel \<Rightarrow> channel" where
  "Password srv p pass ch =
     (let sec = security_of (FindPlayer srv p) in
      if m_name ch = ''world'' \<and> sec < SEC_GAMEMASTER2 then ch
      else if \<not> IsOn p ch then SendToOne srv (MakeNotMember ch wp_empty) p ch
      else if \<not> pi_IsModerator (at_player p ch) \<and> sec < SEC_GAMEMASTER2
      then SendToOne srv (MakeNotModerator ch wp_empty) p ch
      else
        let c1 = ch\<lparr>m_password := c_str pass\<rparr>
        in SendToAll srv (MakePasswordChanged c1 p wp_empty) guid_Empty c1)"

text \<open>
  \<open>SetMode(p, p2n, mod, set)\<close>. The copy \<open>PlayerInfo inf = players[newp->GetGUID()]\<close> is made
  before the check that the named player is on the channel.
\<close>

definition SetMode :: "server \<Rightarrow> guid \<Rightarrow> string \<Rightarrow> bool \<Rightarrow> bool \<Rightarrow> channel \<Rightarrow> channel" where
  "SetMode srv p p2n asMod on ch =
     (let plr = FindPlayer srv p; sec = security_of plr in
      if \<not> IsOn p ch then SendToOne srv (MakeNotMember ch wp_empty) p ch
      else if \<not> pi_IsModerator (at_player p ch) \<and> sec < SEC_GAMEMASTER2
      then SendToOne srv (MakeNotModerator ch wp_empty) p ch
      else
        case FindConnectedPlayerByName srv p2n of
          None \<Rightarrow> SendToOne srv (MakePlayerNotFound ch p2n wp_empty) p ch
        | Some newp \<Rightarrow>
            let c1 = touch_player (v_guid newp) ch in
            if p = m_ownerGUID c1 \<and> v_guid newp = m_ownerGUID c1 \<and> asMod then c1
            else if \<not> IsOn (v_guid newp) c1
            then SendToOne srv (MakePlayerNotFound c1 p2n wp_empty) p c1
            else if (case plr of None \<Rightarrow> False | Some v \<Rightarrow>
                       (v_security v < SEC_GAMEMASTER2 \<or> v_security newp < SEC_GAMEMASTER2) \<and>
                       v_team v \<noteq> v_team newp \<and> \<not> CONFIG_ALLOW_TWO_SIDE_INTERACTION_CHANNEL srv)
            then SendToOne srv (MakePlayerNotFound c1 p2n wp_empty) p c1
            else if m_ownerGUID c1 = v_guid newp \<and> m_ownerGUID c1 \<noteq> p
            then SendToOne srv (MakeNotOwner c1 wp_empty) p c1
            else if asMod then SetModerator srv (v_guid newp) on c1
            else SetMute srv (v_guid newp) on c1)"

text \<open>\<open>SetOwner(ObjectGuid, const char*)\<close>: a client hands the channel over.\<close>

definition SetOwnerByName :: "server \<Rightarrow> guid \<Rightarrow> string \<Rightarrow> channel \<Rightarrow> channel" where
  "SetOwnerByName srv p newname ch =
     (let plr = FindPlayer srv p; sec = security_of plr in
      if \<not> IsOn p ch then SendToOne srv (MakeNotMember ch wp_empty) p ch
      else if sec < SEC_GAMEMASTER2 \<and> p \<noteq> m_ownerGUID ch
      then SendToOne srv (MakeNotOwner ch wp_empty) p ch
      else
        case FindConnectedPlayerByName srv newname of
          None \<Rightarrow> SendToOne srv (MakePlayerNotFound ch newname wp_empty) p ch
        | Some newp \<Rightarrow>
            if \<not> IsOn (v_guid newp) ch
            then SendToOne srv (MakePlayerNotFound ch newname wp_empty) p ch
            else if (case plr of None \<Rightarrow> False | Some v \<Rightarrow>
                       v_team newp \<noteq> v_team v \<and> \<not> CONFIG_ALLOW_TWO_SIDE_INTERACTION_CHANNEL srv)
            then SendToOne srv (MakePlayerNotFound ch newname wp_empty) p ch
            else SetOwner srv (v_guid newp) True
                   (modify_player (v_guid newp) (pi_SetModerator True) ch))"

definition ch_SetModerator :: "server \<Rightarrow> guid \<Rightarrow> string \<Rightarrow> channel \<Rightarrow> channel" where
  "ch_SetModerator srv p newname = SetMode srv p newname True True"
definition ch_UnsetModerator :: "server \<Rightarrow> guid \<Rightarrow> string \<Rightarrow> channel \<Rightarrow> channel" where
  "ch_UnsetModerator srv p newname = SetMode srv p newname True False"
definition ch_SetMute :: "server \<Rightarrow> guid \<Rightarrow> string \<Rightarrow> channel \<Rightarrow> channel" where
  "ch_SetMute srv p newname = SetMode srv p newname False True"
definition ch_UnsetMute :: "server \<Rightarrow> guid \<Rightarrow> string \<Rightarrow> channel \<Rightarrow> channel" where
  "ch_UnsetMute srv p newname = SetMode srv p newname False False"

definition SendWhoOwner :: "server \<Rightarrow> guid \<Rightarrow> channel \<Rightarrow> channel" where
  "SendWhoOwner srv p ch =
     (if \<not> IsOn p ch then SendToOne srv (MakeNotMember ch wp_empty) p ch
      else SendToOne srv (MakeChannelOwner srv ch wp_empty) p ch)"

text \<open>\<open>List\<close>: the count is a placeholder until the visible members have been written.\<close>

definition ch_List :: "server \<Rightarrow> guid \<Rightarrow> channel \<Rightarrow> channel" where
  "ch_List srv p ch =
     (if \<not> IsOn p ch then SendToOne srv (MakeNotMember ch wp_empty) p ch
      else
        let data = wp_new SMSG_CHANNEL_LIST;
            data = put_u8 1 data;
            data = put_string (m_name ch) data;
            data = put_u8 (m_flags ch) data;
            pos = wpos data;
            data = put_u32 0 data;
            (data, count) = fold (\<lambda>e (d, n).
               if \<not> pi_invisible (snd e)
               then (put_u8 (pi_flags (snd e)) (put_u64 (fst e) d), n + 1) else (d, n))
               (players ch) (data, 0 :: u32);
            data = overwrite_u32 pos count data
        in SendToOne srv data p ch)"

definition Announce :: "server \<Rightarrow> guid \<Rightarrow> channel \<Rightarrow> channel" where
  "Announce srv p ch =
     (let sec = security_of (FindPlayer srv p) in
      if \<not> IsOn p ch then SendToOne srv (MakeNotMember ch wp_empty) p ch
      else if \<not> pi_IsModerator (at_player p ch) \<and> sec < SEC_GAMEMASTER2
      then SendToOne srv (MakeNotModerator ch wp_empty) p ch
      else
        let c1 = ch\<lparr>m_announce := \<not> m_announce ch\<rparr>
        in SendToAll srv (if m_announce c1 then MakeAnnouncementsOn c1 p wp_empty
                          else MakeAnnouncementsOff c1 p wp_empty) guid_Empty c1)"

definition Moderate :: "server \<Rightarrow> guid \<Rightarrow> channel \<Rightarrow> channel" where
  "Moderate srv p ch =
     (let sec = security_of (FindPlayer srv p) in
      if \<not> IsOn p ch then SendToOne srv (MakeNotMember ch wp_empty) p ch
      else if \<not> pi_IsModerator (at_player p ch) \<and> sec < SEC_GAMEMASTER2
      then SendToOne srv (MakeNotModerator ch wp_empty) p ch
      else
        let c1 = ch\<lparr>m_moderate := \<not> m_moderate ch\<rparr>
        in SendToAll srv (if m_moderate c1 then MakeModerationOn c1 p wp_empty
                          else MakeModerationOff c1 p wp_empty) guid_Empty c1)"

text \<open>\<open>Say\<close>: a null message returns at once; the language is only reassigned.\<close>

definition Say :: "server \<Rightarrow> guid \<Rightarrow> string option \<Rightarrow> u32 \<Rightarrow> channel \<Rightarrow> channel" where
  "Say srv p msg lang ch =
     (if msg = None then ch
      else
        let lang = (if CONFIG_ALLOW_TWO_SIDE_INTERACTION_CHANNEL srv then 0 else lang);
            sec = security_of (FindPlayer srv p)
        in if \<not> IsOn p ch then SendToOne srv (MakeNotMember ch wp_empty) p ch
           else if pi_IsMuted (at_player p ch) then SendToOne srv (MakeMuted ch wp_empty) p ch
           else if m_moderate ch \<and> \<not> pi_IsModerator (at_player p ch) \<and> sec < SEC_GAMEMASTER2
           then SendToOne srv (MakeNotModerator ch wp_empty) p ch
           else ch)"

definition Invite :: "server \<Rightarrow> guid \<Rightarrow> string \<Rightarrow> channel \<Rightarrow> channel" where
  "Invite srv p newname ch =
     (if \<not> IsOn p ch then SendToOne srv (MakeNotMember ch wp_empty) p ch
      else
        case FindConnectedPlayerByName srv newname of
          None \<Rightarrow> SendToOne srv (MakePlayerNotFound ch newname wp_empty) p ch
        | Some newp \<Rightarrow>
            (case FindPlayer srv p of
               None \<Rightarrow> ch
             | Some plr \<Rightarrow>
                 if v_team newp \<noteq> v_team plr \<and> \<not> CONFIG_ALLOW_TWO_SIDE_INTERACTION_CHANNEL srv
                 then SendToOne srv (MakeInviteWrongFaction ch wp_empty) p ch
                 else if IsOn (v_guid newp) ch
                 then SendToOne srv (MakePlayerAlreadyMember ch (v_guid newp) wp_empty) p ch
                 else
                   let c1 = (if \<not> HasIgnore newp (GetCounter p)
                             then SendToOne srv (MakeInvite ch p wp_empty) (v_guid newp) ch else ch)
                   in SendToOne srv (MakePlayerInvited c1 (v_name newp) wp_empty) p c1))"

text \<open>\<open>Voice\<close> and \<open>DeVoice\<close> have empty bodies.\<close>

definition Voice :: "guid \<Rightarrow> guid \<Rightarrow> channel \<Rightarrow> channel" where
  "Voice g1 g2 ch = ch"

definition DeVoice :: "guid \<Rightarrow> guid \<Rightarrow> channel \<Rightarrow> channel" where
  "DeVoice g1 g2 ch = ch"

end
