(* ===== verification/ChannelMgr.thy ===== *)
theory ChannelMgr
  imports Channel
begin

text \<open>
  \<^verbatim>\<open>src/src/server/game/Chat/Channels/ChannelMgr.h\<close> and
  \<^verbatim>\<open>src/src/server/game/Handlers/ChannelHandler.cpp\<close>: the two channel tables of the factions,
  and the session handlers that parse a client packet, find the channel and call it. A
  table maps names to channels; the pointer a lookup returns is the entry itself, so a
  call on it changes the entry. What the calls send is collected in \<open>outbox\<close>.
\<close>

section \<open>The channel tables\<close>

record channel_mgr =
  channels :: "(string, channel) smap"

record chat_world =
  allianceChannelMgr :: channel_mgr
  hordeChannelMgr :: channel_mgr
  outbox :: "effect list"

datatype faction_mgr = AllianceMgr | HordeMgr

definition ALLIANCE :: u32 where "ALLIANCE = 469"
definition HORDE :: u32 where "HORDE = 67"

definition channelMgr :: "server \<Rightarrow> u32 \<Rightarrow> faction_mgr option" where
  "channelMgr srv team =
     (if CONFIG_ALLOW_TWO_SIDE_INTERACTION_CHANNEL srv then Some AllianceMgr
      else if team = ALLIANCE then Some AllianceMgr
      else if team = HORDE then Some HordeMgr
      else None)"

definition get_mgr :: "faction_mgr \<Rightarrow> chat_world \<Rightarrow> channel_mgr" where
  "get_mgr m w = (case m of AllianceMgr \<Rightarrow> allianceChannelMgr w | HordeMgr \<Rightarrow> hordeChannelMgr w)"

definition set_mgr :: "faction_mgr \<Rightarrow> channel_mgr \<Rightarrow> chat_world \<Rightarrow> chat_world" where
  "set_mgr m c w =
     (case m of AllianceMgr \<Rightarrow> w\<lparr>allianceChannelMgr := c\<rparr> | HordeMgr \<Rightarrow> w\<lparr>hordeChannelMgr := c\<rparr>)"

definition GetJoinChannel :: "server \<Rightarrow> string \<Rightarrow> u32 \<Rightarrow> channel_mgr \<Rightarrow> channel_mgr" where
  "GetJoinChannel srv name channel_id mgr =
     (if smap_find (channels mgr) name = None
      then mgr\<lparr>channels := smap_put name (new_Channel srv name channel_id) (channels mgr)\<rparr>
      else mgr)"

definition FindChannel :: "string \<Rightarrow> channel_mgr \<Rightarrow> channel option" where
  "FindChannel name mgr = smap_find (channels mgr) name"

definition MakeNotOnPacket :: "string \<Rightarrow> world_packet \<Rightarrow> world_packet" where
  "MakeNotOnPacket name data = put_string name (put_u8 0x05 (wp_Initialize SMSG_CHANNEL_NOTIFY data))"

text \<open>\<open>GetChannel(name, p)\<close>: a miss is reported to the player.\<close>

definition GetChannel :: "string \<Rightarrow> player_view \<Rightarrow> channel_mgr \<Rightarrow> channel option \<times> effect list" where
  "GetChannel name p mgr =
     (case smap_find (channels mgr) name of
        None \<Rightarrow> (None, [SendDirectMessage (v_guid p) (MakeNotOnPacket name wp_empty)])
      | Some ch \<Rightarrow> (Some ch, []))"

text \<open>\<open>LeftChannel\<close>: an empty custom channel is deleted.\<close>

definition mgr_LeftChannel :: "string \<Rightarrow> channel_mgr \<Rightarrow> channel_mgr" where
  "mgr_LeftChannel name mgr =
     (case smap_find (channels mgr) name of
        None \<Rightarrow> mgr
      | Some channel \<Rightarrow>
          if ch_IsEmpty channel \<and> \<not> IsConstant channel
          then mgr\<lparr>channels := smap_erase name (channels mgr)\<rparr> else mgr)"

section \<open>Calling a channel through its table\<close>

definition call_channel ::
  "faction_mgr \<Rightarrow> string \<Rightarrow> (channel \<Rightarrow> channel) \<Rightarrow> channel \<Rightarrow> chat_world \<Rightarrow> chat_world" where
  "call_channel m name call ch w =
     (let ch' = call (ch\<lparr>sent := []\<rparr>) in
      (set_mgr m ((get_mgr m w)\<lparr>channels :=
         smap_put name (ch'\<lparr>sent := []\<rparr>) (channels (get_mgr m w))\<rparr>) w)
        \<lparr>outbox := outbox w @ sent ch'\<rparr>)"

text \<open>
  A session handler's surroundings: the server, \<open>normalizePlayerName\<close> (a UTF-8 routine of a
  vendored library, \<open>None\<close> where it fails), and the session's player.
\<close>

record chat_env =
  env_server :: server
  env_normalize :: "string \<Rightarrow> string option"

record session =
  s_player :: player_view
  s_IsGameMaster :: bool

definition with_channel ::
  "chat_env \<Rightarrow> session \<Rightarrow> string \<Rightarrow> (channel \<Rightarrow> channel) \<Rightarrow> chat_world \<Rightarrow> chat_world" where
  "with_channel env ses name call w =
     (case channelMgr (env_server env) (v_team (s_player ses)) of
        None \<Rightarrow> w
      | Some m \<Rightarrow>
          (case GetChannel name (s_player ses) (get_mgr m w) of
             (None, es) \<Rightarrow> w\<lparr>outbox := outbox w @ es\<rparr>
           | (Some ch, es) \<Rightarrow> call_channel m name call ch (w\<lparr>outbox := outbox w @ es\<rparr>)))"

section \<open>Session handlers\<close>

text \<open>
  \<open>iswdigit\<close> of a byte of the name: an ASCII digit. A handler returns the exception that a
  short packet raises, or the world after the call.
\<close>

definition iswdigit :: "char \<Rightarrow> bool" where
  "iswdigit c = (48 \<le> (of_char c :: nat) \<and> (of_char c :: nat) \<le> 57)"

definition HandleJoinChannel ::
  "chat_env \<Rightarrow> session \<Rightarrow> world_packet \<Rightarrow> chat_world \<Rightarrow> bb_error + chat_world" where
  "HandleJoinChannel env ses recvPacket w =
     (case andThen shr_u32 (\<lambda>channel_id. andThen shr_u8 (\<lambda>unknown1. andThen shr_u8 (\<lambda>hasVoice.
              andThen shr_string (\<lambda>channelname. ret (channel_id, channelname))))) recvPacket of
        (Inl e, _) \<Rightarrow> Inl e
      | (Inr (channel_id, channelname), rest) \<Rightarrow>
          if channelname = [] \<or> iswdigit (hd channelname)
          then Inr (w\<lparr>outbox := outbox w @ [SendDirectMessage (v_guid (s_player ses))
                 (put_string channelname (put_u8 (notify_code CHAT_INVALID_NAME_NOTICE)
                    (wp_new SMSG_CHANNEL_NOTIFY)))]\<rparr>)
          else if c_str channelname = ''gmworlda'' \<and> \<not> s_IsGameMaster ses then Inr w
          else if c_str channelname = ''gmworldh'' \<and> \<not> s_IsGameMaster ses then Inr w
          else
            case fst (shr_string rest) of
              Inl e \<Rightarrow> Inl e
            | Inr pass \<Rightarrow>
                Inr (case channelMgr (env_server env) (v_team (s_player ses)) of
                       None \<Rightarrow> w
                     | Some m \<Rightarrow>
                         let w' = set_mgr m (GetJoinChannel (env_server env) channelname channel_id
                                               (get_mgr m w)) w
                         in case FindChannel channelname (get_mgr m w') of
                              None \<Rightarrow> w'
                            | Some chn \<Rightarrow>
                                call_channel m channelname
                                  (Join (env_server env) (v_guid (s_player ses)) pass) chn w'))"

definition HandleLeaveChannel ::
  "chat_env \<Rightarrow> session \<Rightarrow> world_packet \<Rightarrow> chat_world \<Rightarrow> bb_error + chat_world" where
  "HandleLeaveChannel env ses recvPacket w =
     (case fst (andThen shr_u32 (\<lambda>zoneChannelID. shr_string) recvPacket) of
        Inl e \<Rightarrow> Inl e
      | Inr channelname \<Rightarrow>
          if channelname = [] then Inr w
          else
            Inr (case channelMgr (env_server env) (v_team (s_player ses)) of
                   None \<Rightarrow> w
                 | Some m \<Rightarrow>
                     let w' = with_channel env ses channelname
                                (Leave (env_server env) (v_guid (s_player ses)) True) w
                     in set_mgr m (mgr_LeftChannel channelname (get_mgr m w')) w'))"

definition HandleChannelPassword ::
  "chat_env \<Rightarrow> session \<Rightarrow> world_packet \<Rightarrow> chat_world \<Rightarrow> bb_error + chat_world" where
  "HandleChannelPassword env ses recvPacket w =
     (case fst (andThen shr_string (\<lambda>channelname. andThen shr_string (\<lambda>pass.
              ret (channelname, pass))) recvPacket) of
        Inl e \<Rightarrow> Inl e
      | Inr (channelname, pass) \<Rightarrow>
          Inr (with_channel env ses channelname
            (\<lambda>ch. Password (env_server env) (v_guid (s_player ses)) pass ch) w))"

definition HandleChannelList :: "chat_env \<Rightarrow> session \<Rightarrow> world_packet \<Rightarrow> chat_world \<Rightarrow> bb_error + chat_world" where
  "HandleChannelList env ses recvPacket w =
     (case fst (shr_string recvPacket) of
        Inl e \<Rightarrow> Inl e
      | Inr channelname \<Rightarrow>
          Inr (with_channel env ses channelname
            (\<lambda>ch. ch_List (env_server env) (v_guid (s_player ses)) ch) w))"

definition HandleChannelSetOwner :: "chat_env \<Rightarrow> session \<Rightarrow> world_packet \<Rightarrow> chat_world \<Rightarrow> bb_error + chat_world" where
  "HandleChannelSetOwner env ses recvPacket w =
     (case fst (andThen shr_string (\<lambda>channelname. andThen shr_string (\<lambda>newp.
              ret (channelname, newp))) recvPacket) of
        Inl e \<Rightarrow> Inl e
      | Inr (channelname, newp) \<Rightarrow>
          (case env_normalize env newp of
             None \<Rightarrow> Inr w
           | Some newp \<Rightarrow>
               Inr (with_channel env ses channelname
                 (\<lambda>ch. SetOwnerByName (env_server env) (v_guid (s_player ses)) newp ch) w)))"

definition HandleChannelOwner :: "chat_env \<Rightarrow> session \<Rightarrow> world_packet \<Rightarrow> chat_world \<Rightarrow> bb_error + chat_world" where
  "HandleChannelOwner env ses recvPacket w =
     (case fst (shr_string recvPacket) of
        Inl e \<Rightarrow> Inl e
      | Inr channelname \<Rightarrow>
          Inr (with_channel env ses channelname
            (\<lambda>ch. SendWhoOwner (env_server env) (v_guid (s_player ses)) ch) w))"

definition HandleChannelModerator :: "chat_env \<Rightarrow> session \<Rightarrow> world_packet \<Rightarrow> chat_world \<Rightarrow> bb_error + chat_world" where
  "HandleChannelModerator env ses recvPacket w =
     (case fst (andThen shr_string (\<lambda>channelname. andThen shr_string (\<lambda>otp.
              ret (channelname, otp))) recvPacket) of
        Inl e \<Rightarrow> Inl e
      | Inr (channelname, otp) \<Rightarrow>
          (case env_normalize env otp of
             None \<Rightarrow> Inr w
           | Some otp \<Rightarrow>
               Inr (with_channel env ses channelname
                 (\<lambda>ch. ch_SetModerator (env_server env) (v_guid (s_player ses)) otp ch) w)))"

definition HandleChannelUnmoderator :: "chat_env \<Rightarrow> session \<Rightarrow> world_packet \<Rightarrow> chat_world \<Rightarrow> bb_error + chat_world" where
  "HandleChannelUnmoderator env ses recvPacket w =
     (case fst (andThen shr_string (\<lambda>channelname. andThen shr_string (\<lambda>otp.
              ret (channelname, otp))) recvPacket) of
        Inl e \<Rightarrow> Inl e
      | Inr (channelname, otp) \<Rightarrow>
          (case env_normalize env otp of
             None \<Rightarrow> Inr w
           | Some otp \<Rightarrow>
               Inr (with_channel env ses channelname
                 (\<lambda>ch. ch_UnsetModerator (env_server env) (v_guid (s_player ses)) otp ch) w)))"

definition HandleChannelMute :: "chat_env \<Rightarrow> session \<Rightarrow> world_packet \<Rightarrow> chat_world \<Rightarrow> bb_error + chat_world" where
  "HandleChannelMute env ses recvPacket w =
     (case fst (andThen shr_string (\<lambda>channelname. andThen shr_string (\<lambda>otp.
              ret (channelname, otp))) recvPacket) of
        Inl e \<Rightarrow> Inl e
      | Inr (channelname, otp) \<Rightarrow>
          (case env_normalize env otp of
             None \<Rightarrow> Inr w
           | Some otp \<Rightarrow>
               Inr (with_channel env ses channelname
                 (\<lambda>ch. ch_SetMute (env_server env) (v_guid (s_player ses)) otp ch) w)))"

definition HandleChannelUnmute :: "chat_env \<Rightarrow> session \<Rightarrow> world_packet \<Rightarrow> chat_world \<Rightarrow> bb_error + chat_world" where
  "HandleChannelUnmute env ses recvPacket w =
     (case fst (andThen shr_string (\<lambda>channelname. andThen shr_string (\<lambda>otp.
              ret (channelname, otp))) recvPacket) of
        Inl e \<Rightarrow> Inl e
      | Inr (channelname, otp) \<Rightarrow>
          (case env_normalize env otp of
             None \<Rightarrow> Inr w
           | Some otp \<Rightarrow>
               Inr (with_channel env ses channelname
                 (\<lambda>ch. ch_UnsetMute (env_server env) (v_guid (s_player ses)) otp ch) w)))"

definition HandleChannelInvite :: "chat_env \<Rightarrow> session \<Rightarrow> world_packet \<Rightarrow> chat_world \<Rightarrow> bb_error + chat_world" where
  "HandleChannelInvite env ses recvPacket w =
     (case fst (andThen shr_string (\<lambda>channelname. andThen shr_string (\<lambda>otp.
              ret (channelname, otp))) recvPacket) of
        Inl e \<Rightarrow> Inl e
      | Inr (channelname, otp) \<Rightarrow>
          (case env_normalize env otp of
             None \<Rightarrow> Inr w
           | Some otp \<Rightarrow>
               Inr (with_channel env ses channelname
                 (\<lambda>ch. Invite (env_server env) (v_guid (s_player ses)) otp ch) w)))"

definition HandleChannelKick :: "chat_env \<Rightarrow> session \<Rightarrow> world_packet \<Rightarrow> chat_world \<Rightarrow> bb_error + chat_world" where
  "HandleChannelKick env ses recvPacket w =
     (case fst (andThen shr_string (\<lambda>channelname. andThen shr_string (\<lambda>otp.
              ret (channelname, otp))) recvPacket) of
        Inl e \<Rightarrow> Inl e
      | Inr (channelname, otp) \<Rightarrow>
          (case env_normalize env otp of
             None \<Rightarrow> Inr w
           | Some otp \<Rightarrow>
               Inr (with_channel env ses channelname
                 (\<lambda>ch. Kick (env_server env) (v_guid (s_player ses)) otp ch) w)))"

definition HandleChannelBan :: "chat_env \<Rightarrow> session \<Rightarrow> world_packet \<Rightarrow> chat_world \<Rightarrow> bb_error + chat_world" where
  "HandleChannelBan env ses recvPacket w =
     (case fst (andThen shr_string (\<lambda>channelname. andThen shr_string (\<lambda>otp.
              ret (channelname, otp))) recvPacket) of
        Inl e \<Rightarrow> Inl e
      | Inr (channelname, otp) \<Rightarrow>
          (case env_normalize env otp of
             None \<Rightarrow> Inr w
           | Some otp \<Rightarrow>
               Inr (with_channel env ses channelname
                 (\<lambda>ch. Ban (env_server env) (v_guid (s_player ses)) otp ch) w)))"

definition HandleChannelUnban :: "chat_env \<Rightarrow> session \<Rightarrow> world_packet \<Rightarrow> chat_world \<Rightarrow> bb_error + chat_world" where
  "HandleChannelUnban env ses recvPacket w =
     (case fst (andThen shr_string (\<lambda>channelname. andThen shr_string (\<lambda>otp.
              ret (channelname, otp))) recvPacket) of
        Inl e \<Rightarrow> Inl e
      | Inr (channelname, otp) \<Rightarrow>
          (case env_normalize env otp of
             None \<Rightarrow> Inr w
           | Some otp \<Rightarrow>
               Inr (with_channel env ses channelname
                 (\<lambda>ch. UnBan (env_server env) (v_guid (s_player ses)) otp ch) w)))"

definition HandleChannelAnnouncements :: "chat_env \<Rightarrow> session \<Rightarrow> world_packet \<Rightarrow> chat_world \<Rightarrow> bb_error + chat_world" where
  "HandleChannelAnnouncements env ses recvPacket w =
     (case fst (shr_string recvPacket) of
        Inl e \<Rightarrow> Inl e
      | Inr channelname \<Rightarrow>
          Inr (with_channel env ses channelname
            (\<lambda>ch. Announce (env_server env) (v_guid (s_player ses)) ch) w))"

definition HandleChannelModerate :: "chat_env \<Rightarrow> session \<Rightarrow> world_packet \<Rightarrow> chat_world \<Rightarrow> bb_error + chat_world" where
  "HandleChannelModerate env ses recvPacket w =
     (case fst (shr_string recvPacket) of
        Inl e \<Rightarrow> Inl e
      | Inr channelname \<Rightarrow>
          Inr (with_channel env ses channelname
            (\<lambda>ch. Moderate (env_server env) (v_guid (s_player ses)) ch) w))"

definition HandleChannelDisplayListQuery :: "chat_env \<Rightarrow> session \<Rightarrow> world_packet \<Rightarrow> chat_world \<Rightarrow> bb_error + chat_world" where
  "HandleChannelDisplayListQuery env ses recvPacket w =
     (case fst (shr_string recvPacket) of
        Inl e \<Rightarrow> Inl e
      | Inr channelname \<Rightarrow>
          Inr (with_channel env ses channelname
            (\<lambda>ch. ch_List (env_server env) (v_guid (s_player ses)) ch) w))"

definition HandleGetChannelMemberCount ::
  "chat_env \<Rightarrow> session \<Rightarrow> world_packet \<Rightarrow> chat_world \<Rightarrow> bb_error + chat_world" where
  "HandleGetChannelMemberCount env ses recvPacket w =
     (case fst (shr_string recvPacket) of
        Inl e \<Rightarrow> Inl e
      | Inr channelname \<Rightarrow>
          Inr (with_channel env ses channelname
            (\<lambda>ch. emit (SendDirectMessage (v_guid (s_player ses))
               (put_u32 (GetNumPlayers ch) (put_u8 (m_flags ch) (put_string (m_name ch)
                  (wp_new SMSG_CHANNEL_MEMBER_COUNT))))) ch) w))"

definition HandleSetChannelWatch ::
  "chat_env \<Rightarrow> session \<Rightarrow> world_packet \<Rightarrow> chat_world \<Rightarrow> bb_error + chat_world" where
  "HandleSetChannelWatch env ses recvPacket w =
     (case fst (shr_string recvPacket) of Inl e \<Rightarrow> Inl e | Inr channelname \<Rightarrow> Inr w)"

end
