(* ===== verification/Machine.thy ===== *)
theory Machine
  imports Main
begin

text \<open>
  The contracts the components share. A component is a state with operations; a call
  sequence is a list of operation values run from a state. \<open>stateful\<close> is the contract
  "every operation keeps the invariant", \<open>simulated\<close> the contract "every operation does
  on the detailed state what the specification does on the abstract one". What follows for
  whole call sequences is proved here once; each component interprets the contract on its
  own operations.
\<close>

primrec run :: "('s \<Rightarrow> 'op \<Rightarrow> 's) \<Rightarrow> 's \<Rightarrow> 'op list \<Rightarrow> 's" where
  "run f s [] = s"
| "run f s (c # cs) = run f (f s c) cs"

lemma run_append: "run f s (cs @ ds) = run f (run f s cs) ds"
  by (induction cs arbitrary: s) auto

locale stateful =
  fixes exec :: "'s \<Rightarrow> 'op \<Rightarrow> 's"
    and allowed :: "'op \<Rightarrow> bool"
    and inv :: "'s \<Rightarrow> bool"
  assumes keeps: "inv s \<Longrightarrow> allowed c \<Longrightarrow> inv (exec s c)"
begin

lemma run_keeps: "inv s \<Longrightarrow> list_all allowed cs \<Longrightarrow> inv (run exec s cs)"
proof (induction cs arbitrary: s)
  case Nil
  then show ?case by simp
next
  case (Cons c cs)
  then have "inv (exec s c)" by (simp add: keeps)
  with Cons show ?case by simp
qed

lemma every_prefix: "inv s \<Longrightarrow> list_all allowed (cs @ ds) \<Longrightarrow> inv (run exec s cs)"
  by (rule run_keeps) simp_all

end

locale simulated = stateful exec allowed inv
  for exec :: "'s \<Rightarrow> 'op \<Rightarrow> 's" and allowed :: "'op \<Rightarrow> bool" and inv :: "'s \<Rightarrow> bool" +
  fixes view :: "'s \<Rightarrow> 'a"
    and spec :: "'a \<Rightarrow> 'op \<Rightarrow> 'a"
  assumes step_sim: "inv s \<Longrightarrow> allowed c \<Longrightarrow> view (exec s c) = spec (view s) c"
begin

lemma run_sim: "inv s \<Longrightarrow> list_all allowed cs \<Longrightarrow> view (run exec s cs) = run spec (view s) cs"
proof (induction cs arbitrary: s)
  case Nil
  then show ?case by simp
next
  case (Cons c cs)
  then have "view (run exec (exec s c) cs) = run spec (view (exec s c)) cs"
    by (simp add: keeps)
  with Cons.prems show ?case by (simp add: step_sim)
qed

end

end
