(* ===== verification/ChannelProps.thy ===== *)
theory ChannelProps
  imports Channel Machine
begin

text \<open>
  What holds of a channel: who owns it over every sequence of calls, who is admitted, who may
  change it, what a ban does, and what the member list packet says. The section on missing
  entries states what the two uses of \<open>players[...]\<close> on a guid that is not on the channel do.
\<close>

section \<open>Sending only appends to what was sent\<close>

definition broadcast :: "server \<Rightarrow> world_packet \<Rightarrow> guid \<Rightarrow> (guid, player_info) smap \<Rightarrow> effect list" where
  "broadcast srv data p m =
     concat (map (\<lambda>e. case FindPlayer srv (fst e) of
         None \<Rightarrow> []
       | Some plr \<Rightarrow> if p = 0 \<or> \<not> HasIgnore plr (GetCounter p)
                     then [SendDirectMessage (v_guid plr) data] else []) m)"

lemma emit_fields [simp]:
  "players (emit e ch) = players ch" "banned (emit e ch) = banned ch"
  "gmbanned (emit e ch) = gmbanned ch" "m_announce (emit e ch) = m_announce ch"
  "m_moderate (emit e ch) = m_moderate ch" "m_name (emit e ch) = m_name ch"
  "m_password (emit e ch) = m_password ch" "m_flags (emit e ch) = m_flags ch"
  "m_channelId (emit e ch) = m_channelId ch" "m_ownerGUID (emit e ch) = m_ownerGUID ch"
  "sent (emit e ch) = sent ch @ [e]"
  by (simp_all add: emit_def)

lemma SendToAll_fold:
  "fold (\<lambda>e c. case FindPlayer srv (fst e) of
              None \<Rightarrow> c
            | Some plr \<Rightarrow>
                if p = 0 \<or> \<not> HasIgnore plr (GetCounter p)
                then emit (SendDirectMessage (v_guid plr) data) c else c) m ch
   = ch\<lparr>sent := sent ch @ broadcast srv data p m\<rparr>"
  by (induction m arbitrary: ch) (auto simp: broadcast_def emit_def split: option.split)

lemma SendToAll_sent: "SendToAll srv data p ch = ch\<lparr>sent := sent ch @ broadcast srv data p (players ch)\<rparr>"
  by (simp add: SendToAll_def SendToAll_fold)

lemma SendToAll_fields [simp]:
  "players (SendToAll srv data p ch) = players ch" "banned (SendToAll srv data p ch) = banned ch"
  "gmbanned (SendToAll srv data p ch) = gmbanned ch"
  "m_announce (SendToAll srv data p ch) = m_announce ch"
  "m_moderate (SendToAll srv data p ch) = m_moderate ch"
  "m_name (SendToAll srv data p ch) = m_name ch"
  "m_password (SendToAll srv data p ch) = m_password ch"
  "m_flags (SendToAll srv data p ch) = m_flags ch"
  "m_channelId (SendToAll srv data p ch) = m_channelId ch"
  "m_ownerGUID (SendToAll srv data p ch) = m_ownerGUID ch"
  by (simp_all add: SendToAll_sent)

lemma SendToOne_fields [simp]:
  "players (SendToOne srv data p ch) = players ch" "banned (SendToOne srv data p ch) = banned ch"
  "gmbanned (SendToOne srv data p ch) = gmbanned ch"
  "m_announce (SendToOne srv data p ch) = m_announce ch"
  "m_moderate (SendToOne srv data p ch) = m_moderate ch"
  "m_name (SendToOne srv data p ch) = m_name ch"
  "m_password (SendToOne srv data p ch) = m_password ch"
  "m_flags (SendToOne srv data p ch) = m_flags ch"
  "m_channelId (SendToOne srv data p ch) = m_channelId ch"
  "m_ownerGUID (SendToOne srv data p ch) = m_ownerGUID ch"
  by (simp_all add: SendToOne_def split: option.split)

lemma notify_fields [simp]:
  "players (JoinNotify srv p ch) = players ch" "players (LeaveNotify srv p ch) = players ch"
  "banned (JoinNotify srv p ch) = banned ch" "banned (LeaveNotify srv p ch) = banned ch"
  "gmbanned (JoinNotify srv p ch) = gmbanned ch" "gmbanned (LeaveNotify srv p ch) = gmbanned ch"
  "m_ownerGUID (JoinNotify srv p ch) = m_ownerGUID ch"
  "m_ownerGUID (LeaveNotify srv p ch) = m_ownerGUID ch"
  "m_channelId (JoinNotify srv p ch) = m_channelId ch"
  "m_channelId (LeaveNotify srv p ch) = m_channelId ch"
  by (simp_all add: JoinNotify_def LeaveNotify_def Let_def)

text \<open>\<open>quiet\<close>: a call that changed nothing but what was sent.\<close>

definition same_state :: "channel \<Rightarrow> channel \<Rightarrow> bool" where
  "same_state ch ch' \<longleftrightarrow> ch'\<lparr>sent := []\<rparr> = ch\<lparr>sent := []\<rparr>"

lemma same_state_refl [simp]: "same_state ch ch"
  by (simp add: same_state_def)

lemma same_state_emit [simp]: "same_state ch (emit e ch)"
  by (simp add: same_state_def emit_def)

lemma same_state_SendToOne [simp]: "same_state ch (SendToOne srv data p ch)"
  by (simp add: SendToOne_def split: option.split)

section \<open>The entries of the member map\<close>

lemma touch_player_fields [simp]:
  "banned (touch_player p ch) = banned ch" "gmbanned (touch_player p ch) = gmbanned ch"
  "m_name (touch_player p ch) = m_name ch" "m_ownerGUID (touch_player p ch) = m_ownerGUID ch"
  "m_channelId (touch_player p ch) = m_channelId ch"
  "players (touch_player p ch) = smap_touch pi0 p (players ch)"
  by (simp_all add: touch_player_def)

lemma modify_player_fields [simp]:
  "banned (modify_player p f ch) = banned ch" "gmbanned (modify_player p f ch) = gmbanned ch"
  "m_name (modify_player p f ch) = m_name ch" "m_ownerGUID (modify_player p f ch) = m_ownerGUID ch"
  "m_channelId (modify_player p f ch) = m_channelId ch"
  "players (modify_player p f ch) = smap_modify pi0 p f (players ch)"
  by (simp_all add: modify_player_def)

lemma touch_player_on: "IsOn p ch \<Longrightarrow> touch_player p ch = ch"
  by (auto simp: touch_player_def smap_touch_def IsOn_def)

lemma member_flag_bits [simp]:
  "MEMBER_FLAG_OWNER \<noteq> 0" "MEMBER_FLAG_MODERATOR \<noteq> 0" "MEMBER_FLAG_MUTED \<noteq> 0"
  "MEMBER_FLAG_MODERATOR AND MEMBER_FLAG_OWNER = 0" "MEMBER_FLAG_MUTED AND MEMBER_FLAG_OWNER = 0"
  "MEMBER_FLAG_OWNER AND MEMBER_FLAG_MODERATOR = 0"
  by (simp_all add: MEMBER_FLAG_OWNER_def MEMBER_FLAG_MODERATOR_def MEMBER_FLAG_MUTED_def)

lemma pi_owner_simps [simp]:
  "\<not> pi_IsOwner pi0" "pi_IsOwner (pi_SetOwner s i) = s"
  "pi_IsOwner (pi_SetModerator s i) = pi_IsOwner i" "pi_IsOwner (pi_SetMuted s i) = pi_IsOwner i"
  by (simp_all add: pi_IsOwner_def pi0_def pi_SetOwner_def pi_SetModerator_def pi_SetMuted_def
      has_flag_set_other has_flag_clear_other)

lemma pi_moderator_simps [simp]:
  "\<not> pi_IsModerator pi0" "pi_IsModerator (pi_SetModerator s i) = s"
  "pi_IsModerator (pi_SetOwner s i) = pi_IsModerator i"
  by (simp_all add: pi_IsModerator_def pi0_def pi_SetModerator_def pi_SetOwner_def
      has_flag_set_other has_flag_clear_other)

lemma pi_player_simps [simp]:
  "pi_player (pi_SetOwner s i) = pi_player i" "pi_player (pi_SetModerator s i) = pi_player i"
  "pi_player (pi_SetMuted s i) = pi_player i" "pi_player pi0 = 0"
  by (simp_all add: pi_SetOwner_def pi_SetModerator_def pi_SetMuted_def pi0_def guid_Empty_def)

definition members :: "channel \<Rightarrow> guid set" where
  "members ch = smap_keys (players ch)"

lemma IsOn_members: "IsOn p ch \<longleftrightarrow> p \<in> members ch"
  by (simp add: IsOn_def members_def keys_find)

section \<open>Every operation keeps the channel consistent\<close>

text \<open>\<open>owner_at m k\<close>: the entry of \<open>k\<close> carries the owner flag.\<close>

definition owner_at :: "(guid, player_info) smap \<Rightarrow> guid \<Rightarrow> bool" where
  "owner_at m k = pi_IsOwner (smap_get pi0 m k)"

lemma get_simps [simp]:
  "smap_get d (smap_put k v m) j = (if j = k then v else smap_get d m j)"
  "smap_get d (smap_erase k m) j = (if j = k then d else smap_get d m j)"
  "smap_get d (smap_touch d k m) j = smap_get d m j"
  "smap_get d (smap_modify d k f m) j = (if j = k then f (smap_get d m k) else smap_get d m j)"
  "smap_get d [] j = d"
  by (auto simp: smap_get_def split: option.split)

lemma owner_at_simps [simp]:
  "owner_at (smap_put k i m) j = (if j = k then pi_IsOwner i else owner_at m j)"
  "owner_at (smap_erase k m) j = (j \<noteq> k \<and> owner_at m j)"
  "owner_at (smap_touch pi0 k m) j = owner_at m j"
  "owner_at (smap_modify pi0 k f m) j =
     (if j = k then pi_IsOwner (f (smap_get pi0 m k)) else owner_at m j)"
  "\<not> owner_at [] j"
  by (simp_all add: owner_at_def)

lemma owner_at_on: "owner_at m k \<Longrightarrow> k \<in> smap_keys m"
  by (auto simp: owner_at_def keys_find smap_get_def split: option.splits)

definition flags_ok :: "channel \<Rightarrow> bool" where
  "flags_ok ch \<longleftrightarrow>
     map_ok (players ch) \<and> set_ok (banned ch) \<and>
     (\<forall>k. owner_at (players ch) k \<longrightarrow> k = m_ownerGUID ch \<and> k \<noteq> 0)"

definition owner_ok :: "channel \<Rightarrow> bool" where
  "owner_ok ch \<longleftrightarrow>
     map_ok (players ch) \<and> set_ok (banned ch) \<and>
     (\<forall>k. owner_at (players ch) k \<longleftrightarrow> k = m_ownerGUID ch \<and> k \<noteq> 0)"

lemma owner_ok_flags: "owner_ok ch \<Longrightarrow> flags_ok ch"
  by (simp add: owner_ok_def flags_ok_def)

lemma owner_ok_on: "owner_ok ch \<Longrightarrow> m_ownerGUID ch \<noteq> 0 \<Longrightarrow> IsOn (m_ownerGUID ch) ch"
  by (simp add: owner_ok_def IsOn_members members_def owner_at_on)

lemma IsOwner_iff: "owner_ok ch \<Longrightarrow> pi_IsOwner (at_player p ch) \<longleftrightarrow> p = m_ownerGUID ch \<and> p \<noteq> 0"
  by (simp add: owner_ok_def at_player_def flip: owner_at_def)

lemma flags_ok_cong:
  "players c = players ch \<Longrightarrow> banned c = banned ch \<Longrightarrow> m_ownerGUID c = m_ownerGUID ch \<Longrightarrow>
   flags_ok c = flags_ok ch"
  by (simp add: flags_ok_def)

lemma owner_ok_cong:
  "players c = players ch \<Longrightarrow> banned c = banned ch \<Longrightarrow> m_ownerGUID c = m_ownerGUID ch \<Longrightarrow>
   owner_ok c = owner_ok ch"
  by (simp add: owner_ok_def flags_ok_def)

lemma owner_ok_sends [simp]:
  "owner_ok (SendToOne srv data p ch) = owner_ok ch"
  "owner_ok (SendToAll srv data p ch) = owner_ok ch"
  "owner_ok (JoinNotify srv p ch) = owner_ok ch"
  "owner_ok (LeaveNotify srv p ch) = owner_ok ch"
  "owner_ok (emit e ch) = owner_ok ch"
  by (rule owner_ok_cong; simp)+

lemma SetOwner_fields [simp]:
  "banned (SetOwner srv g ex ch) = banned ch"
  "gmbanned (SetOwner srv g ex ch) = gmbanned ch"
  "m_ownerGUID (SetOwner srv g ex ch) = g"
  "m_channelId (SetOwner srv g ex ch) = m_channelId ch"
  "m_name (SetOwner srv g ex ch) = m_name ch"
  by (simp_all add: SetOwner_def Let_def modify_player_def split: option.split)

lemma members_SetOwner:
  "members (SetOwner srv g ex ch) = (if g \<noteq> 0 then insert g (members ch) else members ch)"
  by (auto simp: SetOwner_def Let_def modify_player_def members_def keys_find split: option.splits)

lemma SetOwner_players:
  "players (SetOwner srv g ex ch) =
     (let m = (if m_ownerGUID ch \<noteq> 0 \<and> smap_find (players ch) (m_ownerGUID ch) \<noteq> None
               then smap_modify pi0 (m_ownerGUID ch) (pi_SetOwner False) (players ch)
               else players ch)
      in if g \<noteq> 0 then smap_modify pi0 g (pi_SetOwner True) m else m)"
  by (auto simp: SetOwner_def Let_def modify_player_def split: option.split)

lemma SetOwner_ok:
  assumes "flags_ok ch"
  shows "owner_ok (SetOwner srv g ex ch)"
proof -
  define m where "m = (if m_ownerGUID ch \<noteq> 0 \<and> smap_find (players ch) (m_ownerGUID ch) \<noteq> None
               then smap_modify pi0 (m_ownerGUID ch) (pi_SetOwner False) (players ch)
               else players ch)"
  have absent: "smap_find (players ch) k = None \<Longrightarrow> \<not> owner_at (players ch) k" for k
    by (simp add: owner_at_def)
  have "\<not> owner_at m k" for k
    using assms absent [of k] by (auto simp: m_def flags_ok_def)
  moreover have "map_ok m"
    using assms by (simp add: m_def flags_ok_def)
  moreover have "players (SetOwner srv g ex ch) =
      (if g \<noteq> 0 then smap_modify pi0 g (pi_SetOwner True) m else m)"
    by (simp only: SetOwner_players m_def Let_def)
  ultimately show ?thesis
    using assms by (auto simp: owner_ok_def flags_ok_def)
qed

lemma modify_keeps_owner_ok:
  assumes "owner_ok ch" and "\<And>i. pi_IsOwner (f i) = pi_IsOwner i"
  shows "owner_ok (modify_player p f ch)"
  using assms by (simp add: owner_ok_def flip: owner_at_def)

lemma touch_keeps_owner_ok: "owner_ok ch \<Longrightarrow> owner_ok (touch_player p ch)"
  by (simp add: owner_ok_def)

lemma erase_flags_ok: "owner_ok ch \<Longrightarrow> flags_ok (ch\<lparr>players := smap_erase p (players ch)\<rparr>)"
  by (simp add: owner_ok_def flags_ok_def)

lemma erase_owner_ok:
  "owner_ok ch \<Longrightarrow> p \<noteq> m_ownerGUID ch \<or> p = 0 \<Longrightarrow>
   owner_ok (ch\<lparr>players := smap_erase p (players ch)\<rparr>)"
  by (auto simp: owner_ok_def)

lemma put_owner_ok:
  "owner_ok ch \<Longrightarrow> \<not> IsOn p ch \<Longrightarrow> \<not> pi_IsOwner i \<Longrightarrow>
   owner_ok (ch\<lparr>players := smap_put p i (players ch)\<rparr>)"
  using owner_at_on [of "players ch" p]
  by (auto simp: owner_ok_def IsOn_members members_def)

lemma banned_owner_ok:
  "owner_ok ch \<Longrightarrow> owner_ok (ch\<lparr>banned := sset_insert g (banned ch)\<rparr>)"
  "owner_ok ch \<Longrightarrow> owner_ok (ch\<lparr>banned := sset_erase g (banned ch)\<rparr>)"
  by (simp_all add: owner_ok_def)

lemma other_fields_owner_ok [simp]:
  "owner_ok (ch\<lparr>m_password := x\<rparr>) = owner_ok ch"
  "owner_ok (ch\<lparr>m_announce := b\<rparr>) = owner_ok ch"
  "owner_ok (ch\<lparr>m_moderate := b\<rparr>) = owner_ok ch"
  "owner_ok (ch\<lparr>gmbanned := m\<rparr>) = owner_ok ch"
  "owner_ok (ch\<lparr>sent := es\<rparr>) = owner_ok ch"
  by (rule owner_ok_cong; simp)+

subsection \<open>Joining\<close>

text \<open>What \<open>Join\<close> asks for, in the order of its early returns.\<close>

definition admitted :: "server \<Rightarrow> guid \<Rightarrow> string \<Rightarrow> channel \<Rightarrow> bool" where
  "admitted srv p pass ch \<longleftrightarrow>
     \<not> IsOn p ch \<and> \<not> IsBanned p ch \<and> \<not> IsBannedByGM srv p ch \<and>
     (m_password ch = [] \<or> c_str pass = c_str (m_password ch)) \<and>
     (case FindPlayer srv p of None \<Rightarrow> True | Some v \<Rightarrow>
        \<not> (IsLFG ch \<and> CONFIG_RESTRICTED_LFG_CHANNEL srv \<and> v_security v = SEC_PLAYER \<and>
           (v_in_group v \<or> v_lfg_empty v)) \<and>
        \<not> (v_guild v \<noteq> 0 \<and> m_flags ch = 0x38))"

definition joining :: "server \<Rightarrow> guid \<Rightarrow> player_info" where
  "joining srv p = \<lparr>pi_player = p, pi_flags = 0,
     pi_invisible = (case FindPlayer srv p of None \<Rightarrow> False | Some v \<Rightarrow> v_security v > SEC_PLAYER)
                    \<and> CONFIG_SILENTLY_GM_JOIN_TO_CHANNEL srv\<rparr>"

definition first_owner :: "server \<Rightarrow> guid \<Rightarrow> channel \<Rightarrow> channel" where
  "first_owner srv p c =
     (if \<not> IsConstant c \<and> m_ownerGUID c = 0
      then modify_player p (pi_SetModerator True) (SetOwner srv p (length (players c) > 1) c)
      else c)"

lemma Join_refused: "\<not> admitted srv p pass ch \<Longrightarrow> same_state ch (Join srv p pass ch)"
  by (cases "FindPlayer srv p")
    (auto simp: admitted_def Join_def Let_def IsLFG_def)

lemma Join_admitted:
  assumes "admitted srv p pass ch"
  obtains c where "Join srv p pass ch = first_owner srv p c"
    and "players c = smap_put p (joining srv p) (players ch)"
    and "banned c = banned ch" and "gmbanned c = gmbanned ch"
    and "m_ownerGUID c = m_ownerGUID ch" and "m_channelId c = m_channelId ch"
proof -
  define c1 where "c1 = (case FindPlayer srv p of None \<Rightarrow> ch
    | Some v \<Rightarrow> emit (JoinedChannel (v_guid v) (m_name ch)) ch)"
  define quiet where "quiet = (case FindPlayer srv p of None \<Rightarrow> False | Some v \<Rightarrow>
    \<not> v_security v < SEC_GAMEMASTER1 \<and> CONFIG_SILENTLY_GM_JOIN_TO_CHANNEL srv)"
  define c2 where "c2 = (if m_announce c1 \<and> \<not> quiet \<and> m_name c1 \<noteq> ''world'' \<and> m_name c1 \<noteq> ''pvp''
    then SendToAll srv (MakeJoined c1 p wp_empty) guid_Empty c1 else c1)"
  define c3 where "c3 = c2\<lparr>players := smap_put p (joining srv p) (players c2)\<rparr>"
  define c4 where "c4 = JoinNotify srv p (SendToOne srv (MakeYouJoined c3 wp_empty) p c3)"
  have guards: "IsOn p ch = False" "IsBanned p ch = False" "IsBannedByGM srv p ch = False"
    "(length (m_password ch) > 0 \<and> c_str pass \<noteq> c_str (m_password ch)) = False"
    "(case FindPlayer srv p of None \<Rightarrow> False | Some v \<Rightarrow>
        has_flag (m_flags ch) CHANNEL_FLAG_LFG \<and> CONFIG_RESTRICTED_LFG_CHANNEL srv \<and>
        v_security v = SEC_PLAYER \<and> (v_in_group v \<or> v_lfg_empty v)) = False"
    "(case FindPlayer srv p of None \<Rightarrow> False | Some v \<Rightarrow> v_guild v \<noteq> 0 \<and> m_flags ch = 0x38) = False"
    using assms by (auto simp: admitted_def IsLFG_def split: option.splits)
  have "Join srv p pass ch = first_owner srv p c4"
    by (simp only: Join_def Let_def guards if_False first_owner_def joining_def
        c4_def c3_def c2_def c1_def quiet_def)
  moreover have "players c1 = players ch" "banned c1 = banned ch" "gmbanned c1 = gmbanned ch"
    "m_ownerGUID c1 = m_ownerGUID ch" "m_channelId c1 = m_channelId ch"
    by (simp_all add: c1_def split: option.split)
  then have "players c4 = smap_put p (joining srv p) (players ch)" "banned c4 = banned ch"
    "gmbanned c4 = gmbanned ch" "m_ownerGUID c4 = m_ownerGUID ch" "m_channelId c4 = m_channelId ch"
    by (simp_all add: c4_def c3_def c2_def)
  ultimately show ?thesis by (rule that)
qed

lemma first_owner_keeps: "owner_ok c \<Longrightarrow> owner_ok (first_owner srv p c)"
  by (simp add: first_owner_def modify_keeps_owner_ok SetOwner_ok owner_ok_flags)

lemma Join_keeps:
  assumes "owner_ok ch"
  shows "owner_ok (Join srv p pass ch)"
proof (cases "admitted srv p pass ch")
  case True
  then obtain c where c: "Join srv p pass ch = first_owner srv p c"
    "players c = smap_put p (joining srv p) (players ch)" "banned c = banned ch"
    "m_ownerGUID c = m_ownerGUID ch" by (rule Join_admitted)
  have "owner_ok (ch\<lparr>players := smap_put p (joining srv p) (players ch)\<rparr>)"
    using assms True by (simp add: put_owner_ok admitted_def joining_def pi_IsOwner_def)
  then have "owner_ok c" using c by (subst owner_ok_cong [of c]) simp_all
  then show ?thesis by (simp add: c(1) first_owner_keeps)
next
  case False
  then have "(Join srv p pass ch)\<lparr>sent := []\<rparr> = ch\<lparr>sent := []\<rparr>"
    using Join_refused [of srv p pass ch] by (simp add: same_state_def)
  then show ?thesis using assms other_fields_owner_ok(5) by metis
qed

lemma members_Join:
  "members (Join srv p pass ch) =
     (if admitted srv p pass ch then insert p (members ch) else members ch)"
proof (cases "admitted srv p pass ch")
  case True
  then obtain c where "Join srv p pass ch = first_owner srv p c"
    "players c = smap_put p (joining srv p) (players ch)" by (rule Join_admitted)
  then show ?thesis
    using True members_SetOwner [of srv p _ c]
    by (auto simp: first_owner_def members_def)
next
  case False
  then have "players (Join srv p pass ch) = players ch"
    using Join_refused [of srv p pass ch] by (metis same_state_def channel.select_convs(1)
        channel.surjective channel.update_convs(11))
  then show ?thesis using False by (simp add: members_def)
qed

subsection \<open>Leaving\<close>

lemma Leave_on:
  assumes "IsOn p ch"
  obtains c where
    "Leave srv p send ch =
       (if pi_IsOwner (at_player p ch)
        then SetOwner srv (case players c of [] \<Rightarrow> guid_Empty | e # _ \<Rightarrow> pi_player (snd e)) True c
        else c)"
    and "players c = smap_erase p (players ch)"
    and "banned c = banned ch" and "gmbanned c = gmbanned ch"
    and "m_ownerGUID c = m_ownerGUID ch" and "m_channelId c = m_channelId ch"
proof -
  define plr where "plr = FindPlayer srv p"
  define c1 where "c1 = (if send
                  then (let c = SendToOne srv (MakeYouLeft ch wp_empty) p ch in
                        case plr of None \<Rightarrow> c | Some v \<Rightarrow> emit (LeftChannel (v_guid v) (m_name c)) c)
                  else ch)"
  define c2 where "c2 = c1\<lparr>players := smap_erase p (players c1)\<rparr>"
  define loud where "loud = (case plr of None \<Rightarrow> True | Some v \<Rightarrow>
              v_security v = SEC_PLAYER \<or> \<not> CONFIG_SILENTLY_GM_JOIN_TO_CHANNEL srv)"
  define c3 where "c3 = (if m_announce c2 \<and> loud \<and> m_name c2 \<noteq> ''world'' \<and> m_name c2 \<noteq> ''pvp''
                  then SendToAll srv (MakeLeft c2 p wp_empty) guid_Empty c2 else c2)"
  define c4 where "c4 = LeaveNotify srv p c3"
  have pl: "players c1 = players ch" "banned c1 = banned ch" "gmbanned c1 = gmbanned ch"
    "m_ownerGUID c1 = m_ownerGUID ch" "m_channelId c1 = m_channelId ch"
    by (simp_all add: c1_def Let_def split: option.split)
  then have at: "at_player p c1 = at_player p ch" by (simp add: at_player_def)
  have "Leave srv p send ch =
       (if pi_IsOwner (at_player p c1)
        then SetOwner srv (case players c4 of [] \<Rightarrow> guid_Empty | e # _ \<Rightarrow> pi_player (snd e)) True c4
        else c4)"
    by (simp only: Leave_def assms not_True_eq_False if_False Let_def
        c4_def c3_def c2_def c1_def loud_def plr_def)
  moreover have "players c4 = smap_erase p (players ch)" "banned c4 = banned ch"
    "gmbanned c4 = gmbanned ch" "m_ownerGUID c4 = m_ownerGUID ch" "m_channelId c4 = m_channelId ch"
    using pl by (simp_all add: c4_def c3_def c2_def)
  ultimately show ?thesis using that at by simp
qed

lemma Leave_off: "\<not> IsOn p ch \<Longrightarrow> same_state ch (Leave srv p send ch)"
  by (simp add: Leave_def)

lemma same_state_owner_ok: "same_state ch c \<Longrightarrow> owner_ok ch \<Longrightarrow> owner_ok c"
  using other_fields_owner_ok(5) by (metis same_state_def)

lemma same_state_members: "same_state ch c \<Longrightarrow> members c = members ch"
  by (cases c, cases ch) (simp add: same_state_def members_def)

lemma Leave_keeps:
  assumes "owner_ok ch"
  shows "owner_ok (Leave srv p send ch)"
proof (cases "IsOn p ch")
  case True
  then obtain c where c: "Leave srv p send ch =
       (if pi_IsOwner (at_player p ch)
        then SetOwner srv (case players c of [] \<Rightarrow> guid_Empty | e # _ \<Rightarrow> pi_player (snd e)) True c
        else c)" "players c = smap_erase p (players ch)" "banned c = banned ch"
    "m_ownerGUID c = m_ownerGUID ch" by (rule Leave_on)
  have "flags_ok c"
    using erase_flags_ok [OF assms, of p] c by (subst flags_ok_cong [of c]) simp_all
  moreover have "owner_ok c" if "\<not> pi_IsOwner (at_player p ch)"
    using erase_owner_ok [OF assms, of p] that c IsOwner_iff [OF assms, of p]
    by (subst owner_ok_cong [of c]) auto
  ultimately show ?thesis by (simp add: c(1) SetOwner_ok)
qed (simp add: same_state_owner_ok [OF Leave_off assms])

subsection \<open>Kicking and banning\<close>

text \<open>
  \<open>kick_refused\<close>: an early return of \<open>KickOrBan\<close>. The player named stays, and the only
  change a refused call can make is the entry that \<open>players[good]\<close> adds.
\<close>

definition kick_refused :: "server \<Rightarrow> guid \<Rightarrow> string \<Rightarrow> channel \<Rightarrow> bool" where
  "kick_refused srv good badname ch \<longleftrightarrow>
     (let sec = security_of (FindConnectedPlayer srv good) in
      (sec < SEC_GAMEMASTER1 \<and>
         (m_name ch = ''world'' \<or> \<not> IsOn good ch \<or> \<not> pi_IsModerator (at_player good ch))) \<or>
      (case FindConnectedPlayerByName srv badname of
         None \<Rightarrow> True
       | Some bad \<Rightarrow> \<not> IsOn (v_guid bad) (touch_player good ch) \<or>
           (sec < SEC_GAMEMASTER1 \<and> v_guid bad = m_ownerGUID ch \<and> good \<noteq> m_ownerGUID ch)))"

lemma KickOrBan_refused:
  "kick_refused srv good badname ch \<Longrightarrow>
   same_state ch (KickOrBan srv good badname ban ch) \<or>
   same_state (touch_player good ch) (KickOrBan srv good badname ban ch)"
  by (cases "FindConnectedPlayerByName srv badname")
    (auto simp: kick_refused_def KickOrBan_def Let_def)

lemma KickOrBan_done:
  assumes "\<not> kick_refused srv good badname ch"
    and bad: "FindConnectedPlayerByName srv badname = Some bad"
  obtains c where
    "KickOrBan srv good badname ban ch =
       (if m_ownerGUID ch = v_guid bad
        then SetOwner srv (if players c \<noteq> [] then good else guid_Empty) True c else c)"
    and "players c = smap_erase (v_guid bad) (players (touch_player good ch))"
    and "banned c = (if ban \<and> \<not> IsBanned (v_guid bad) ch
                     then sset_insert (v_guid bad) (banned ch) else banned ch)"
    and "gmbanned c = gmbanned ch" and "m_ownerGUID c = m_ownerGUID ch"
proof -
  define sec where "sec = security_of (FindConnectedPlayer srv good)"
  define c1 where "c1 = touch_player good ch"
  define step where "step = (if ban \<and> \<not> IsBanned (v_guid bad) c1
                       then (c1\<lparr>banned := sset_insert (v_guid bad) (banned c1)\<rparr>,
                             MakePlayerBanned c1 (v_guid bad) good wp_empty)
                       else (c1, MakePlayerKicked c1 (v_guid bad) good wp_empty))"
  obtain c2 data where step: "step = (c2, data)" by fastforce
  define c3 where "c3 = (if m_name c2 \<noteq> ''world'' then SendToAll srv data guid_Empty c2 else c2)"
  define c4 where "c4 = c3\<lparr>players := smap_erase (v_guid bad) (players c3)\<rparr>"
  define c5 where "c5 = emit (LeftChannel (v_guid bad) (m_name c4)) c4"
  have guards: "(m_name ch = ''world'' \<and> sec < SEC_GAMEMASTER1) = False"
    "(\<not> IsOn good ch \<and> sec < SEC_GAMEMASTER1) = False"
    "(\<not> pi_IsModerator (at_player good ch) \<and> sec < SEC_GAMEMASTER1) = False"
    "(\<not> IsOn (v_guid bad) c1) = False"
    "(sec < SEC_GAMEMASTER1 \<and> v_guid bad = m_ownerGUID c1 \<and> good \<noteq> m_ownerGUID c1) = False"
    using assms by (auto simp: kick_refused_def sec_def c1_def Let_def)
  have "KickOrBan srv good badname ban ch =
       (if m_ownerGUID c1 = v_guid bad
        then SetOwner srv (if players c5 \<noteq> [] then good else guid_Empty) True c5 else c5)"
    unfolding KickOrBan_def Let_def
    unfolding sec_def [symmetric] c1_def [symmetric] guards if_False bad option.case
    unfolding step_def [symmetric]
    unfolding step prod.case
    unfolding c3_def [symmetric] c4_def [symmetric] c5_def [symmetric] ..
  moreover have "players c2 = players c1" "gmbanned c2 = gmbanned ch" "m_ownerGUID c2 = m_ownerGUID ch"
    "banned c2 = (if ban \<and> \<not> IsBanned (v_guid bad) ch
                     then sset_insert (v_guid bad) (banned ch) else banned ch)"
    using step by (auto simp: step_def c1_def IsBanned_def split: if_splits)
  then have "players c5 = smap_erase (v_guid bad) (players (touch_player good ch))"
    "banned c5 = (if ban \<and> \<not> IsBanned (v_guid bad) ch
                     then sset_insert (v_guid bad) (banned ch) else banned ch)"
    "gmbanned c5 = gmbanned ch" "m_ownerGUID c5 = m_ownerGUID ch"
    by (simp_all add: c5_def c4_def c3_def c1_def)
  moreover have "m_ownerGUID c1 = m_ownerGUID ch" by (simp add: c1_def)
  ultimately show ?thesis using that by simp
qed

lemma kick_done_named:
  "\<not> kick_refused srv good badname ch \<Longrightarrow> \<exists>bad. FindConnectedPlayerByName srv badname = Some bad"
  by (auto simp: kick_refused_def Let_def split: option.splits)

lemma KickOrBan_keeps:
  assumes "owner_ok ch"
  shows "owner_ok (KickOrBan srv good badname ban ch)"
proof (cases "kick_refused srv good badname ch")
  case True
  then show ?thesis
    using KickOrBan_refused [OF True, of ban] assms touch_keeps_owner_ok [OF assms, of good]
    by (auto intro: same_state_owner_ok)
next
  case False
  then obtain bad where bad: "FindConnectedPlayerByName srv badname = Some bad"
    using kick_done_named by blast
  obtain c where c: "KickOrBan srv good badname ban ch =
       (if m_ownerGUID ch = v_guid bad
        then SetOwner srv (if players c \<noteq> [] then good else guid_Empty) True c else c)"
    "players c = smap_erase (v_guid bad) (players (touch_player good ch))"
    "banned c = (if ban \<and> \<not> IsBanned (v_guid bad) ch
                 then sset_insert (v_guid bad) (banned ch) else banned ch)"
    "m_ownerGUID c = m_ownerGUID ch"
    by (rule KickOrBan_done [OF False bad])
  have touched: "owner_ok (touch_player good ch)" by (rule touch_keeps_owner_ok [OF assms])
  have "flags_ok c"
    using erase_flags_ok [OF touched, of "v_guid bad"] c by (simp add: flags_ok_def)
  moreover have "owner_ok c" if "m_ownerGUID ch \<noteq> v_guid bad"
    using erase_owner_ok [OF touched, of "v_guid bad"] that c by (simp add: owner_ok_def)
  ultimately show ?thesis by (simp add: c(1) SetOwner_ok)
qed

subsection \<open>The other calls\<close>

lemma UnBan_keeps: "owner_ok ch \<Longrightarrow> owner_ok (UnBan srv good badname ch)"
  by (simp add: UnBan_def Let_def banned_owner_ok split: option.split)

lemma Password_keeps: "owner_ok ch \<Longrightarrow> owner_ok (Password srv p pass ch)"
  by (simp add: Password_def Let_def)

lemma SetModerator_keeps: "owner_ok ch \<Longrightarrow> owner_ok (SetModerator srv p on ch)"
  by (simp add: SetModerator_def Let_def modify_keeps_owner_ok touch_keeps_owner_ok)

lemma SetMute_keeps: "owner_ok ch \<Longrightarrow> owner_ok (SetMute srv p on ch)"
  by (simp add: SetMute_def Let_def modify_keeps_owner_ok touch_keeps_owner_ok)

lemma SetMode_keeps: "owner_ok ch \<Longrightarrow> owner_ok (SetMode srv p p2n asMod on ch)"
  by (simp add: SetMode_def Let_def SetModerator_keeps SetMute_keeps touch_keeps_owner_ok
      split: option.split)

lemma SetOwnerByName_keeps: "owner_ok ch \<Longrightarrow> owner_ok (SetOwnerByName srv p newname ch)"
  by (simp add: SetOwnerByName_def Let_def SetOwner_ok owner_ok_flags modify_keeps_owner_ok
      split: option.split)

lemma Announce_keeps: "owner_ok ch \<Longrightarrow> owner_ok (Announce srv p ch)"
  by (simp add: Announce_def Let_def)

lemma Moderate_keeps: "owner_ok ch \<Longrightarrow> owner_ok (Moderate srv p ch)"
  by (simp add: Moderate_def Let_def)

lemma quiet_calls:
  "same_state ch (SendWhoOwner srv p ch)" "same_state ch (ch_List srv p ch)"
  "same_state ch (Say srv p msg lang ch)"
  by (simp_all add: SendWhoOwner_def ch_List_def Say_def Let_def split: prod.split)

lemma same_state_trans: "same_state a b \<Longrightarrow> same_state b c \<Longrightarrow> same_state a c"
  by (simp add: same_state_def)

lemma Invite_quiet: "same_state ch (Invite srv p newname ch)"
  by (simp add: Invite_def Let_def same_state_trans [OF _ same_state_SendToOne] split: option.split)

section \<open>Sequences of calls\<close>

text \<open>Each call comes with what the rest of the server answers while it runs.\<close>

datatype channel_call =
    CallJoin server guid string
  | CallLeave server guid bool
  | CallKickOrBan server guid string bool
  | CallUnBan server guid string
  | CallPassword server guid string
  | CallSetMode server guid string bool bool
  | CallSetOwner server guid string
  | CallSendWhoOwner server guid
  | CallList server guid
  | CallAnnounce server guid
  | CallModerate server guid
  | CallSay server guid "string option" u32
  | CallInvite server guid string
  | CallAddNewGMBan u64 u64
  | CallRemoveGMBan server u64
  | CallInsertGMBan u64 u64
  | CallSetPassword string
  | CallSetAnnounce bool
  | CallVoice guid guid
  | CallDeVoice guid guid

fun channel_exec :: "channel \<Rightarrow> channel_call \<Rightarrow> channel" where
  "channel_exec ch (CallJoin srv p pass) = Join srv p pass ch"
| "channel_exec ch (CallLeave srv p send) = Leave srv p send ch"
| "channel_exec ch (CallKickOrBan srv p n ban) = KickOrBan srv p n ban ch"
| "channel_exec ch (CallUnBan srv p n) = UnBan srv p n ch"
| "channel_exec ch (CallPassword srv p pass) = Password srv p pass ch"
| "channel_exec ch (CallSetMode srv p n asMod on) = SetMode srv p n asMod on ch"
| "channel_exec ch (CallSetOwner srv p n) = SetOwnerByName srv p n ch"
| "channel_exec ch (CallSendWhoOwner srv p) = SendWhoOwner srv p ch"
| "channel_exec ch (CallList srv p) = ch_List srv p ch"
| "channel_exec ch (CallAnnounce srv p) = Announce srv p ch"
| "channel_exec ch (CallModerate srv p) = Moderate srv p ch"
| "channel_exec ch (CallSay srv p msg lang) = Say srv p msg lang ch"
| "channel_exec ch (CallInvite srv p n) = Invite srv p n ch"
| "channel_exec ch (CallAddNewGMBan a x) = AddNewGMBan a x ch"
| "channel_exec ch (CallRemoveGMBan srv a) = RemoveGMBan srv a ch"
| "channel_exec ch (CallInsertGMBan a x) = InsertInGMBannedList a x ch"
| "channel_exec ch (CallSetPassword s) = SetPassword s ch"
| "channel_exec ch (CallSetAnnounce on) = SetAnnounce on ch"
| "channel_exec ch (CallVoice g1 g2) = Voice g1 g2 ch"
| "channel_exec ch (CallDeVoice g1 g2) = DeVoice g1 g2 ch"

text \<open>The calls the server makes on its own, without a check of the caller.\<close>

lemmas server_calls = AddNewGMBan_def RemoveGMBan_def InsertInGMBannedList_def SetPassword_def
  SetAnnounce_def Voice_def DeVoice_def

lemma channel_exec_keeps: "owner_ok ch \<Longrightarrow> owner_ok (channel_exec ch c)"
  by (cases c)
    (simp_all add: Join_keeps Leave_keeps KickOrBan_keeps UnBan_keeps Password_keeps SetMode_keeps
      SetOwnerByName_keeps Announce_keeps Moderate_keeps server_calls
      same_state_owner_ok [OF quiet_calls(1)] same_state_owner_ok [OF quiet_calls(2)]
      same_state_owner_ok [OF quiet_calls(3)] same_state_owner_ok [OF Invite_quiet])

interpretation chat: stateful channel_exec "\<lambda>_. True" owner_ok
  by unfold_locales (rule channel_exec_keeps)

lemma new_Channel_ok: "owner_ok (new_Channel srv name channel_id)"
  by (simp add: new_Channel_def owner_ok_def Let_def guid_Empty_def split: option.split)

text \<open>C1: \<^bold>\<open>A channel has at most one owner, and the owner is on the channel.\<close> Whatever sequence
  of calls a new channel receives, whatever the rest of the server answers meanwhile, a member
  carries the owner flag exactly if it is the recorded owner, the recorded owner (if any) is a
  member, and the members and bans are in ascending order without duplicates.\<close>

theorem channel_owner_unique:
  "let ch = run channel_exec (new_Channel srv name channel_id) calls
   in map_ok (players ch) \<and> set_ok (banned ch) \<and>
      (m_ownerGUID ch = 0 \<or> IsOn (m_ownerGUID ch) ch) \<and>
      (\<forall>p. pi_IsOwner (at_player p ch) \<longleftrightarrow> p = m_ownerGUID ch \<and> p \<noteq> 0)"
proof -
  have "owner_ok (run channel_exec (new_Channel srv name channel_id) calls)"
    by (rule chat.run_keeps [OF new_Channel_ok]) (simp add: list.pred_True)
  then show ?thesis
    using owner_ok_on by (auto simp: Let_def IsOwner_iff owner_ok_def)
qed

section \<open>Who may change a channel\<close>

definition may_moderate :: "server \<Rightarrow> guid \<Rightarrow> channel \<Rightarrow> bool" where
  "may_moderate srv p ch \<longleftrightarrow>
     IsOn p ch \<and> (pi_IsModerator (at_player p ch) \<or> security_of (FindPlayer srv p) \<ge> SEC_GAMEMASTER2)"

fun authorised :: "channel_call \<Rightarrow> channel \<Rightarrow> bool" where
  "authorised (CallJoin srv p pass) ch = admitted srv p pass ch"
| "authorised (CallLeave srv p send) ch = IsOn p ch"
| "authorised (CallKickOrBan srv p n ban) ch =
     (security_of (FindConnectedPlayer srv p) \<ge> SEC_GAMEMASTER1 \<or>
      (IsOn p ch \<and> pi_IsModerator (at_player p ch)))"
| "authorised (CallUnBan srv p n) ch = may_moderate srv p ch"
| "authorised (CallPassword srv p pass) ch = may_moderate srv p ch"
| "authorised (CallSetMode srv p n asMod on) ch = may_moderate srv p ch"
| "authorised (CallSetOwner srv p n) ch =
     (IsOn p ch \<and> (p = m_ownerGUID ch \<or> security_of (FindPlayer srv p) \<ge> SEC_GAMEMASTER2))"
| "authorised (CallAnnounce srv p) ch = may_moderate srv p ch"
| "authorised (CallModerate srv p) ch = may_moderate srv p ch"
| "authorised (CallAddNewGMBan a x) ch = True"
| "authorised (CallRemoveGMBan srv a) ch = True"
| "authorised (CallInsertGMBan a x) ch = True"
| "authorised (CallSetPassword s) ch = True"
| "authorised (CallSetAnnounce on) ch = True"
| "authorised (CallVoice g1 g2) ch = False"
| "authorised (CallDeVoice g1 g2) ch = False"
| "authorised (CallSendWhoOwner srv p) ch = False"
| "authorised (CallList srv p) ch = False"
| "authorised (CallSay srv p msg lang) ch = False"
| "authorised (CallInvite srv p n) ch = False"

lemma unauthorised_call_same:
  assumes "\<not> authorised c ch"
  shows "same_state ch (channel_exec ch c)"
proof (cases c)
  case (CallKickOrBan srv good n ban)
  with assms show ?thesis
    by (cases "IsOn good ch") (simp_all add: KickOrBan_def Let_def touch_player_on)
qed (use assms in \<open>auto simp: Join_refused Leave_off UnBan_def Password_def SetMode_def
  SetOwnerByName_def Announce_def Moderate_def may_moderate_def Voice_def DeVoice_def Let_def
  quiet_calls Invite_quiet
  not_le\<close>)

text \<open>C10: \<^bold>\<open>Only the entitled change a channel.\<close> A call changes nothing of the channel (members,
  flags, bans, owner, password, modes) unless its caller is entitled to it: a join must be
  admitted, a leave must come from a member, moderator calls need a member who is a moderator
  or a game master, handing over needs the owner or a game master; asking for the owner or the
  list, talking, inviting and the voice calls never change it. A refused call at most sends packets.\<close>

theorem unauthorised_calls_change_nothing:
  assumes "\<not> authorised c ch"
  shows "same_state ch (channel_exec ch c)"
  using assms by (rule unauthorised_call_same)

text \<open>A server with two players, 7 and 9, of the same faction, neither a game master.\<close>

definition demo_player :: "guid \<Rightarrow> string \<Rightarrow> player_view" where
  "demo_player g n = \<lparr>v_guid = g, v_name = n, v_security = 0, v_team = 469, v_guild = 0,
     v_in_group = False, v_lfg_empty = True, v_ignores = []\<rparr>"

definition demo_server :: server where
  "demo_server = \<lparr>
     FindPlayer = (\<lambda>g. if g = 7 then Some (demo_player 7 ''Ann'')
                       else if g = 9 then Some (demo_player 9 ''Bob'') else None),
     FindConnectedPlayer = (\<lambda>g. if g = 7 then Some (demo_player 7 ''Ann'')
                       else if g = 9 then Some (demo_player 9 ''Bob'') else None),
     FindConnectedPlayerByName = (\<lambda>n. if n = ''Ann'' then Some (demo_player 7 ''Ann'')
                       else if n = ''Bob'' then Some (demo_player 9 ''Bob'') else None),
     GetCharacterAccountIdByGuid = (\<lambda>g. 0),
     GetCharacterNameByGuid = (\<lambda>g. None),
     GetGameTime = 100,
     CONFIG_RESTRICTED_LFG_CHANNEL = False,
     CONFIG_SILENTLY_GM_JOIN_TO_CHANNEL = False,
     CONFIG_ALLOW_TWO_SIDE_INTERACTION_CHANNEL = False,
     GetChannelEntryFor = (\<lambda>c. None),
     channel_ban_rows = (\<lambda>n t. [])\<rparr>"

text \<open>A custom channel owned and moderated by 7, with the members given.\<close>

definition demo_channel :: "(guid, player_info) smap \<Rightarrow> channel" where
  "demo_channel m = \<lparr>players = (7, \<lparr>pi_player = 7, pi_flags = 3, pi_invisible = False\<rparr>) # m,
     banned = [], gmbanned = [], m_announce = True, m_moderate = False, m_name = ''x'',
     m_password = [], m_flags = 1, m_channelId = 0, m_ownerGUID = 7, sent = []\<rparr>"

definition demo_bob :: "guid \<times> player_info" where
  "demo_bob = (9, \<lparr>pi_player = 9, pi_flags = 0, pi_invisible = False\<rparr>)"

lemmas demo_simps = demo_player_def demo_server_def demo_channel_def demo_bob_def smap_find_def
  smap_get_def IsOn_def at_player_def security_of_def SEC_GAMEMASTER1_def SEC_GAMEMASTER2_def
  pi_IsModerator_def pi_IsOwner_def has_flag_def MEMBER_FLAG_MODERATOR_def MEMBER_FLAG_OWNER_def

theorem unauthorised_calls_change_nothing_witness:
  "same_state (demo_channel [demo_bob])
     (channel_exec (demo_channel [demo_bob]) (CallKickOrBan demo_server 9 ''Ann'' True))"
  by (rule unauthorised_calls_change_nothing) (simp add: demo_simps)

section \<open>What a ban, a leave and a mode change do\<close>

fun keeps_bans :: "channel_call \<Rightarrow> bool" where
  "keeps_bans (CallUnBan srv p n) = False"
| "keeps_bans _ = True"

lemma same_state_banned: "same_state ch c \<Longrightarrow> banned c = banned ch"
  by (cases c, cases ch) (simp add: same_state_def)

lemma IsBanned_SendToAll [simp]: "IsBanned g (SendToAll srv data p ch) = IsBanned g ch"
  by (simp add: IsBanned_def)

lemma banned_Join [simp]: "banned (Join srv p pass ch) = banned ch"
proof (cases "admitted srv p pass ch")
  case True
  then obtain c where "Join srv p pass ch = first_owner srv p c" "banned c = banned ch"
    by (rule Join_admitted)
  then show ?thesis by (simp add: first_owner_def)
qed (simp add: same_state_banned [OF Join_refused])

lemma banned_Leave [simp]: "banned (Leave srv p send ch) = banned ch"
proof (cases "IsOn p ch")
  case True
  obtain c where "Leave srv p send ch =
       (if pi_IsOwner (at_player p ch)
        then SetOwner srv (case players c of [] \<Rightarrow> guid_Empty | e # _ \<Rightarrow> pi_player (snd e)) True c
        else c)" "banned c = banned ch" by (rule Leave_on [OF True])
  then show ?thesis by simp
qed (simp add: same_state_banned [OF Leave_off])

lemma KickOrBan_bans: "IsBanned g ch \<Longrightarrow> IsBanned g (KickOrBan srv good n ban ch)"
proof (cases "kick_refused srv good n ch")
  case True
  assume "IsBanned g ch"
  with KickOrBan_refused [OF True, of ban] show ?thesis
    by (auto simp: IsBanned_def dest: same_state_banned)
next
  case False
  assume banned: "IsBanned g ch"
  obtain bad where "FindConnectedPlayerByName srv n = Some bad"
    using kick_done_named [OF False] by blast
  then obtain c where "KickOrBan srv good n ban ch =
       (if m_ownerGUID ch = v_guid bad
        then SetOwner srv (if players c \<noteq> [] then good else guid_Empty) True c else c)"
    "banned c = (if ban \<and> \<not> IsBanned (v_guid bad) ch
                 then sset_insert (v_guid bad) (banned ch) else banned ch)"
    by (rule KickOrBan_done [OF False])
  with banned show ?thesis by (simp add: IsBanned_def)
qed

lemma other_bans [simp]:
  "banned (Password srv p pass ch) = banned ch" "banned (Announce srv p ch) = banned ch"
  "banned (SetMode srv p n asMod on ch) = banned ch" "banned (Moderate srv p ch) = banned ch"
  "banned (SetOwnerByName srv p n ch) = banned ch"
  "banned (AddNewGMBan a x ch) = banned ch" "banned (RemoveGMBan srv a ch) = banned ch"
  "banned (InsertInGMBannedList a x ch) = banned ch" "banned (SetPassword s ch) = banned ch"
  "banned (SetAnnounce on ch) = banned ch" "Voice g1 g2 ch = ch" "DeVoice g1 g2 ch = ch"
  by (simp_all add: Password_def Announce_def SetMode_def Moderate_def SetOwnerByName_def
      server_calls SetModerator_def SetMute_def Let_def split: option.split)

interpretation bans: stateful channel_exec keeps_bans "IsBanned g" for g
proof
  fix ch c assume "IsBanned g ch" and "keeps_bans c"
  then show "IsBanned g (channel_exec ch c)"
    by (cases c) (simp_all add: KickOrBan_bans, simp_all add: IsBanned_def
        same_state_banned [OF quiet_calls(1)] same_state_banned [OF quiet_calls(2)]
        same_state_banned [OF quiet_calls(3)] same_state_banned [OF Invite_quiet])
qed

text \<open>\<^bold>\<open>A banned player is off the channel and cannot join again.\<close> When a ban is not refused
  and names somebody other than the caller, the named player is off the channel and banned
  after it, and after any further calls without an unban a join by that player changes nothing,
  whatever the password and the rest of the server.\<close>

theorem ban_keeps_out:
  assumes "\<not> kick_refused srv good badname ch"
    and "FindConnectedPlayerByName srv badname = Some bad" and "v_guid bad \<noteq> good"
    and "list_all keeps_bans calls"
  shows "let ch1 = KickOrBan srv good badname True ch; ch2 = run channel_exec ch1 calls
         in \<not> IsOn (v_guid bad) ch1 \<and> IsBanned (v_guid bad) ch2 \<and>
            same_state ch2 (Join srv2 (v_guid bad) pass ch2)"
proof -
  let ?ch1 = "KickOrBan srv good badname True ch"
  obtain c where c: "?ch1 =
       (if m_ownerGUID ch = v_guid bad
        then SetOwner srv (if players c \<noteq> [] then good else guid_Empty) True c else c)"
    "players c = smap_erase (v_guid bad) (players (touch_player good ch))"
    "banned c = (if True \<and> \<not> IsBanned (v_guid bad) ch
                 then sset_insert (v_guid bad) (banned ch) else banned ch)"
    by (rule KickOrBan_done [OF assms(1,2)])
  have "\<not> IsOn (v_guid bad) ?ch1"
    using c assms(3)
    by (simp add: IsOn_members members_SetOwner guid_Empty_def) (simp add: members_def)
  moreover have "IsBanned (v_guid bad) ?ch1" using c by (simp add: IsBanned_def)
  then have "IsBanned (v_guid bad) (run channel_exec ?ch1 calls)"
    by (rule bans.run_keeps [OF _ assms(4)])
  ultimately show ?thesis by (simp add: Let_def Join_refused admitted_def)
qed

theorem ban_keeps_out_witness:
  "let ch1 = KickOrBan demo_server 7 ''Bob'' True (demo_channel [demo_bob]);
       ch2 = run channel_exec ch1 [CallAnnounce demo_server 7]
   in \<not> IsOn (v_guid (demo_player 9 ''Bob'')) ch1 \<and> IsBanned (v_guid (demo_player 9 ''Bob'')) ch2 \<and>
      same_state ch2 (Join demo_server (v_guid (demo_player 9 ''Bob'')) ''secret'' ch2)"
  by (rule ban_keeps_out)
    (simp_all add: kick_refused_def touch_player_def smap_touch_def demo_simps)

text \<open>\<^bold>\<open>A member leaves and the owner is succeeded by the first member left.\<close> On a consistent
  channel whose entries name their own player, \<open>Leave\<close> takes exactly the caller off; if the
  caller was the owner, the member with the least guid left becomes the owner, or nobody if
  none is left, and otherwise the owner stays.\<close>

theorem leave_hands_over:
  assumes "owner_ok ch" and "IsOn p ch" and "p \<noteq> 0"
    and "list_all (\<lambda>e. pi_player (snd e) = fst e) (players ch)"
  shows "let ch' = Leave srv p send ch; rest = members ch - {p}
         in members ch' = rest \<and>
            m_ownerGUID ch' = (if p \<noteq> m_ownerGUID ch then m_ownerGUID ch
                               else if rest = {} then 0 else Min rest)"
proof -
  obtain c where c: "Leave srv p send ch =
       (if pi_IsOwner (at_player p ch)
        then SetOwner srv (case players c of [] \<Rightarrow> guid_Empty | e # _ \<Rightarrow> pi_player (snd e)) True c
        else c)" "players c = smap_erase p (players ch)" "m_ownerGUID c = m_ownerGUID ch"
    by (rule Leave_on [OF assms(2)])
  have keys: "members c = members ch - {p}" using c(2) by (simp add: members_def)
  show ?thesis
  proof (cases "p = m_ownerGUID ch")
    case False
    then show ?thesis using c keys IsOwner_iff [OF assms(1), of p] by (simp add: Let_def)
  next
    case True
    then have owner: "pi_IsOwner (at_player p ch)" using IsOwner_iff [OF assms(1), of p] assms(3) by simp
    show ?thesis
    proof (cases "players c")
      case Nil
      then have "members ch - {p} = {}" using keys by (simp add: members_def)
      then show ?thesis using c(1) owner Nil keys True
        by (simp add: Let_def members_SetOwner guid_Empty_def)
    next
      case (Cons e m)
      obtain k i where e: "e = (k, i)" by fastforce
      have "e \<in> set (players ch)" using Cons c(2) by (auto simp: smap_erase_def filter_eq_Cons_iff)
      then have k: "pi_player i = k" using assms(4) e by (auto simp: list_all_iff)
      have ok: "map_ok ((k, i) # m)" using assms(1) c(2) Cons e by (metis ok_erase owner_ok_def)
      have "members c = smap_keys ((k, i) # m)" using Cons e by (simp add: members_def)
      then have min: "Min (members c) = k" and k_in: "k \<in> members c"
        using begin_least [OF ok] by (auto simp: smap_keys_def intro!: Min_eqI)
      then show ?thesis using c(1) owner Cons e k keys True k_in min
        by (auto simp: Let_def members_SetOwner)
    qed
  qed
qed

text \<open>Concrete: 7 owns the channel and leaves; 9 takes over.\<close>

theorem leave_hands_over_witness:
  "let ch' = Leave demo_server 7 True (demo_channel [demo_bob]);
       rest = members (demo_channel [demo_bob]) - {7}
   in members ch' = rest \<and>
      m_ownerGUID ch' = (if 7 \<noteq> m_ownerGUID (demo_channel [demo_bob])
                         then m_ownerGUID (demo_channel [demo_bob])
                         else if rest = {} then 0 else Min rest)"
proof (rule leave_hands_over)
  show "owner_ok (demo_channel [demo_bob])"
    by (auto simp: owner_ok_def owner_at_def map_ok_def pi0_def demo_simps split: option.splits if_splits)
qed (simp_all add: demo_simps)

section \<open>Entries that a lookup adds\<close>

lemma members_SetMode_target:
  "members (SetModerator srv p on ch) = insert p (members ch)"
  "IsOn p ch \<Longrightarrow> members (SetMute srv p on ch) = members ch"
  by (auto simp: members_def SetModerator_def SetMute_def Let_def IsOn_members)

text \<open>\<^bold>\<open>A mode change puts whoever it names on the channel.\<close> When the caller may moderate and
  the name belongs to a connected player, the members after \<open>SetMode\<close> are the members before
  and the player named, on the channel or not: the copy \<open>players[newp->GetGUID()]\<close> adds the
  entry before \<open>IsOn\<close> is asked. In every other case the members stay the same.\<close>

theorem set_mode_adds_named:
  "members (SetMode srv p p2n asMod on ch) =
     (case FindConnectedPlayerByName srv p2n of
        None \<Rightarrow> members ch
      | Some newp \<Rightarrow> if may_moderate srv p ch then insert (v_guid newp) (members ch) else members ch)"
proof -
  have "members (SetMode srv p p2n asMod on ch) = insert (v_guid newp) (members ch)"
    if "may_moderate srv p ch" and "FindConnectedPlayerByName srv p2n = Some newp" for newp
  proof -
    have "members (touch_player (v_guid newp) ch) = insert (v_guid newp) (members ch)"
      by (simp add: members_def)
    moreover have "IsOn (v_guid newp) (touch_player (v_guid newp) ch)"
      by (simp add: IsOn_members members_def)
    moreover have "members (SendToOne srv data g c) = members c" for data g c
      by (simp add: members_def)
    ultimately show ?thesis
      using that by (auto simp: SetMode_def may_moderate_def Let_def members_SetMode_target)
  qed
  moreover have "members (SetMode srv p p2n asMod on ch) = members ch"
    if "\<not> may_moderate srv p ch \<or> FindConnectedPlayerByName srv p2n = None"
  proof (cases "may_moderate srv p ch")
    case True
    with that show ?thesis by (simp add: SetMode_def Let_def members_def)
  next
    case False
    then show ?thesis
      using unauthorised_call_same [of "CallSetMode srv p p2n asMod on" ch]
      by (simp add: same_state_members)
  qed
  ultimately show ?thesis by (auto split: option.split)
qed

text \<open>\<^bold>\<open>An owner who kicks or bans himself stays, as owner.\<close> \<open>KickOrBan\<close> of the caller's own
  name by an owner who is not alone takes the entry off and tells the client so
  (\<open>LeftChannel\<close>), and then makes the caller owner again, which adds the entry back with only
  the owner flag.\<close>

theorem self_kick_stays:
  assumes "pi_IsModerator (at_player good ch)" and "IsOn good ch" and "m_name ch \<noteq> ''world''"
    and "good = m_ownerGUID ch" and "good \<noteq> 0"
    and "FindConnectedPlayerByName srv n = Some bad" and "v_guid bad = good"
    and "members ch \<noteq> {good}"
  shows "let ch' = KickOrBan srv good n ban ch
         in IsOn good ch' \<and> m_ownerGUID ch' = good \<and> \<not> pi_IsModerator (at_player good ch')"
proof -
  have "\<not> kick_refused srv good n ch"
    using assms by (simp add: kick_refused_def Let_def touch_player_on)
  then obtain c where c: "KickOrBan srv good n ban ch =
       (if m_ownerGUID ch = v_guid bad
        then SetOwner srv (if players c \<noteq> [] then good else guid_Empty) True c else c)"
    "players c = smap_erase (v_guid bad) (players (touch_player good ch))"
    "m_ownerGUID c = m_ownerGUID ch" by (rule KickOrBan_done [OF _ assms(6)])
  have pl: "players c = smap_erase good (players ch)"
    using c(2) by (simp only: touch_player_on [OF assms(2)] assms(7))
  have "smap_keys (players c) \<noteq> {}"
    using assms(2,8) by (auto simp: pl IsOn_members members_def)
  then have rest: "players c \<noteq> []" by (simp add: keys_empty_iff)
  have kicked: "KickOrBan srv good n ban ch = SetOwner srv good True c"
    using c(1) rest assms by simp
  have "smap_find (players c) (m_ownerGUID c) = None"
    using c(3) pl assms(4) by simp
  then show ?thesis
    using assms(5) by (simp add: kicked Let_def IsOn_members members_SetOwner at_player_def
        SetOwner_players pl)
qed

theorem self_kick_stays_witness:
  "let ch' = KickOrBan demo_server 7 ''Ann'' False (demo_channel [demo_bob])
   in IsOn 7 ch' \<and> m_ownerGUID ch' = 7 \<and> \<not> pi_IsModerator (at_player 7 ch')"
  by (rule self_kick_stays [where bad = "demo_player 7 ''Ann''"]) (simp_all add: demo_simps members_def smap_keys_def)

section \<open>The member list packet\<close>

definition entry_bytes :: "guid \<times> player_info \<Rightarrow> u8 list" where
  "entry_bytes e = le_bytes (fst e) @ [pi_flags (snd e)]"

definition visible :: "(guid, player_info) smap \<Rightarrow> (guid, player_info) smap" where
  "visible m = filter (\<lambda>e. \<not> pi_invisible (snd e)) m"

definition list_header :: "channel \<Rightarrow> u8 list" where
  "list_header ch = [1] @ string_bytes (m_name ch) @ [m_flags ch]"

definition list_bytes :: "channel \<Rightarrow> u8 list" where
  "list_bytes ch = list_header ch @ le_bytes (GetNumPlayers ch) @
     concat (map entry_bytes (visible (players ch)))"

lemma room_prefix: "room (bs @ cs) \<Longrightarrow> room bs"
  by (simp add: room_def)

lemma list_entries:
  assumes "packet_is opcode bs d" and "room (bs @ concat (map entry_bytes (visible m)))"
    and "fold (\<lambda>e (d, n). if \<not> pi_invisible (snd e)
                 then (put_u8 (pi_flags (snd e)) (put_u64 (fst e) d), n + 1) else (d, n))
            m (d, n :: u32) = (d', n')"
  shows "packet_is opcode (bs @ concat (map entry_bytes (visible m))) d' \<and>
         n' = n + word_of_nat (length (visible m))"
  using assms
proof (induction m arbitrary: bs d n)
  case Nil
  then show ?case by (simp add: visible_def)
next
  case (Cons e m)
  show ?case
  proof (cases "pi_invisible (snd e)")
    case True
    with Cons show ?thesis by (simp add: visible_def)
  next
    case False
    then have vis: "visible (e # m) = e # visible m" by (simp add: visible_def)
    let ?bs = "bs @ le_bytes (fst e)"
    have room: "room ?bs" "room (?bs @ [pi_flags (snd e)])"
      using Cons.prems(2) by (simp_all add: vis entry_bytes_def room_def)
    have "packet_is opcode ?bs (put_u64 (fst e) d)"
      by (rule packet_put(3) [OF Cons.prems(1) room(1)])
    then have "packet_is opcode (?bs @ [pi_flags (snd e)])
        (put_u8 (pi_flags (snd e)) (put_u64 (fst e) d))"
      by (rule packet_put(1) [OF _ room(2)])
    from Cons.IH [OF this, where n = "n + 1"] Cons.prems(2,3) False show ?thesis
      by (simp add: vis entry_bytes_def add.assoc)
  qed
qed

text \<open>\<^bold>\<open>The list packet says who is visibly on the channel.\<close> A member who asks for the list is
  sent one packet whose bytes are the channel type 1, the channel name, the channel flags, the
  number of visible members and then guid and flags of each visible member in order; the
  placeholder written for the count is overwritten by the count of the entries that follow.
  (The packet must fit the buffer's size limit.)\<close>

theorem list_packet:
  assumes "IsOn p ch" and "FindPlayer srv p = Some plr" and "room (list_bytes ch)"
  shows "\<exists>d. packet_is SMSG_CHANNEL_LIST (list_bytes ch) d \<and>
             ch_List srv p ch = emit (SendDirectMessage (v_guid plr) d) ch"
proof -
  define d1 where "d1 = put_u8 1 (wp_new SMSG_CHANNEL_LIST)"
  define d2 where "d2 = put_string (m_name ch) d1"
  define d3 where "d3 = put_u8 (m_flags ch) d2"
  define d4 where "d4 = put_u32 0 d3"
  obtain d5 n where d5: "fold (\<lambda>e (d, n). if \<not> pi_invisible (snd e)
                 then (put_u8 (pi_flags (snd e)) (put_u64 (fst e) d), n + 1) else (d, n))
            (players ch) (d4, 0 :: u32) = (d5, n)" by fastforce
  let ?h = "list_header ch" and ?z = "le_bytes (0 :: u32)"
  let ?entries = "concat (map entry_bytes (visible (players ch)))"
  have room: "room (?h @ ?z @ ?entries)" using assms(3) by (simp add: list_bytes_def room_def)
  have "packet_is SMSG_CHANNEL_LIST [1] d1"
    using packet_put(1) [of SMSG_CHANNEL_LIST "[]"] by (simp add: d1_def room_def)
  then have "packet_is SMSG_CHANNEL_LIST ([1] @ string_bytes (m_name ch)) d2"
    unfolding d2_def using room by (intro packet_put(4)) (simp_all add: room_def list_header_def)
  then have "packet_is SMSG_CHANNEL_LIST (([1] @ string_bytes (m_name ch)) @ [m_flags ch]) d3"
    unfolding d3_def using room by (intro packet_put(1)) (simp_all add: room_def list_header_def)
  then have d3: "packet_is SMSG_CHANNEL_LIST ?h d3" by (simp add: list_header_def)
  then have "packet_is SMSG_CHANNEL_LIST (?h @ ?z) d4"
    unfolding d4_def using room by (intro packet_put(2)) (simp_all add: room_def)
  from list_entries [OF this _ d5] room
  have "packet_is SMSG_CHANNEL_LIST (?h @ ?z @ ?entries) d5" and n: "n = GetNumPlayers ch"
    by (simp_all add: visible_def GetNumPlayers_def)
  then have "packet_is SMSG_CHANNEL_LIST (?h @ le_bytes n @ ?entries) (overwrite_u32 (length ?h) n d5)"
    using room by (intro packet_overwrite) (simp_all add: sizeof_word_def)
  moreover have "wpos d3 = length ?h" using d3 by (simp add: packet_is_def)
  then have "ch_List srv p ch =
      emit (SendDirectMessage (v_guid plr) (overwrite_u32 (length ?h) n d5)) ch"
    using assms(1,2) d5
    by (simp add: ch_List_def SendToOne_def Let_def flip: d1_def d2_def d3_def d4_def)
  ultimately show ?thesis by (auto simp: list_bytes_def n)
qed

theorem list_packet_witness:
  "\<exists>d. packet_is SMSG_CHANNEL_LIST (list_bytes (demo_channel [demo_bob])) d \<and>
       ch_List demo_server 9 (demo_channel [demo_bob]) =
         emit (SendDirectMessage (v_guid (demo_player 9 ''Bob'')) d) (demo_channel [demo_bob])"
  by (rule list_packet)
    (simp_all add: room_def list_bytes_def list_header_def visible_def entry_bytes_def
      sizeof_word_def demo_simps)

end
