(* ===== verification/ChannelMgrProps.thy ===== *)
theory ChannelMgrProps
  imports ChannelMgr ChannelProps
begin

text \<open>
  The channel tables under client packets: every packet touches at most one channel of the
  sender's faction, every channel in the tables stays consistent, and leaving through the
  table deletes an empty custom channel.
\<close>

section \<open>Packets\<close>

datatype chat_opcode =
    CMSG_JOIN_CHANNEL | CMSG_LEAVE_CHANNEL | CMSG_CHANNEL_LIST | CMSG_CHANNEL_PASSWORD
  | CMSG_CHANNEL_SET_OWNER | CMSG_CHANNEL_OWNER | CMSG_CHANNEL_MODERATOR
  | CMSG_CHANNEL_UNMODERATOR | CMSG_CHANNEL_MUTE | CMSG_CHANNEL_UNMUTE | CMSG_CHANNEL_INVITE
  | CMSG_CHANNEL_KICK | CMSG_CHANNEL_BAN | CMSG_CHANNEL_UNBAN | CMSG_CHANNEL_ANNOUNCEMENTS
  | CMSG_CHANNEL_MODERATE | CMSG_CHANNEL_DISPLAY_LIST | CMSG_GET_CHANNEL_MEMBER_COUNT
  | CMSG_SET_CHANNEL_WATCH

fun handle ::
  "chat_opcode \<Rightarrow> chat_env \<Rightarrow> session \<Rightarrow> world_packet \<Rightarrow> chat_world \<Rightarrow> bb_error + chat_world" where
  "handle CMSG_JOIN_CHANNEL = HandleJoinChannel"
| "handle CMSG_LEAVE_CHANNEL = HandleLeaveChannel"
| "handle CMSG_CHANNEL_LIST = HandleChannelList"
| "handle CMSG_CHANNEL_PASSWORD = HandleChannelPassword"
| "handle CMSG_CHANNEL_SET_OWNER = HandleChannelSetOwner"
| "handle CMSG_CHANNEL_OWNER = HandleChannelOwner"
| "handle CMSG_CHANNEL_MODERATOR = HandleChannelModerator"
| "handle CMSG_CHANNEL_UNMODERATOR = HandleChannelUnmoderator"
| "handle CMSG_CHANNEL_MUTE = HandleChannelMute"
| "handle CMSG_CHANNEL_UNMUTE = HandleChannelUnmute"
| "handle CMSG_CHANNEL_INVITE = HandleChannelInvite"
| "handle CMSG_CHANNEL_KICK = HandleChannelKick"
| "handle CMSG_CHANNEL_BAN = HandleChannelBan"
| "handle CMSG_CHANNEL_UNBAN = HandleChannelUnban"
| "handle CMSG_CHANNEL_ANNOUNCEMENTS = HandleChannelAnnouncements"
| "handle CMSG_CHANNEL_MODERATE = HandleChannelModerate"
| "handle CMSG_CHANNEL_DISPLAY_LIST = HandleChannelDisplayListQuery"
| "handle CMSG_GET_CHANNEL_MEMBER_COUNT = HandleGetChannelMemberCount"
| "handle CMSG_SET_CHANNEL_WATCH = HandleSetChannelWatch"

text \<open>A packet with its session; the session drops a packet whose handler throws.\<close>

datatype chat_packet = ChatPacket chat_env session chat_opcode world_packet

fun chat_exec :: "chat_world \<Rightarrow> chat_packet \<Rightarrow> chat_world" where
  "chat_exec w (ChatPacket env ses op data) =
     (case handle op env ses data w of Inl e \<Rightarrow> w | Inr w' \<Rightarrow> w')"

section \<open>What a packet can touch\<close>

text \<open>
  \<open>touches M name w w'\<close>: from \<open>w\<close> to \<open>w'\<close> only the entry \<open>name\<close> of the table \<open>M\<close>
  may have changed, and a channel found there is a consistent one if all were before.
\<close>

definition same_but :: "faction_mgr option \<Rightarrow> string \<Rightarrow> chat_world \<Rightarrow> chat_world \<Rightarrow> bool" where
  "same_but M name w w' \<longleftrightarrow>
     (\<forall>m n. (M \<noteq> Some m \<or> n \<noteq> name) \<longrightarrow>
        FindChannel n (get_mgr m w') = FindChannel n (get_mgr m w))"

definition world_ok :: "chat_world \<Rightarrow> bool" where
  "world_ok w \<longleftrightarrow>
     (\<forall>m. map_ok (channels (get_mgr m w))) \<and>
     (\<forall>m n ch. FindChannel n (get_mgr m w) = Some ch \<longrightarrow> owner_ok ch)"

lemma get_set_mgr [simp]: "get_mgr m (set_mgr m' c w) = (if m = m' then c else get_mgr m w)"
  by (cases m; cases m') (simp_all add: get_mgr_def set_mgr_def)

lemma get_mgr_outbox [simp]: "get_mgr m (w\<lparr>outbox := es\<rparr>) = get_mgr m w"
  by (simp add: get_mgr_def split: faction_mgr.split)

lemma same_but_refl [simp]: "same_but M name w w"
  by (simp add: same_but_def)

lemma same_but_outbox [simp]: "same_but M name w (w'\<lparr>outbox := es\<rparr>) = same_but M name w w'"
  by (simp add: same_but_def)

lemma same_but_trans: "same_but M name w w1 \<Longrightarrow> same_but M name w1 w2 \<Longrightarrow> same_but M name w w2"
  by (simp add: same_but_def)

lemma world_ok_outbox [simp]: "world_ok (w\<lparr>outbox := es\<rparr>) = world_ok w"
  by (simp add: world_ok_def)

lemma get_mgr_call:
  "get_mgr m' (call_channel m name call ch w) =
     (if m' = m then (get_mgr m w)\<lparr>channels :=
        smap_put name ((call (ch\<lparr>sent := []\<rparr>))\<lparr>sent := []\<rparr>) (channels (get_mgr m w))\<rparr>
      else get_mgr m' w)"
  by (simp add: call_channel_def Let_def)

lemma call_same_but: "same_but (Some m) name w (call_channel m name call ch w)"
  by (simp add: same_but_def get_mgr_call FindChannel_def)

lemma call_world_ok:
  assumes "world_ok w" and "\<And>c. owner_ok c \<Longrightarrow> owner_ok (call c)" and "owner_ok ch"
  shows "world_ok (call_channel m name call ch w)"
  using assms by (auto simp: world_ok_def get_mgr_call FindChannel_def)

lemma with_same_but:
  "same_but (channelMgr (env_server env) (v_team (s_player ses))) name w
     (with_channel env ses name call w)"
proof (cases "channelMgr (env_server env) (v_team (s_player ses))")
  case (Some m)
  have "same_but (Some m) name w (call_channel m name call ch (w\<lparr>outbox := es\<rparr>))" for ch es
    by (rule same_but_trans [OF _ call_same_but]) simp
  with Some show ?thesis by (simp add: with_channel_def split: prod.split option.split)
qed (simp add: with_channel_def)

lemma with_world_ok:
  assumes "world_ok w" and "\<And>c. owner_ok c \<Longrightarrow> owner_ok (call c)"
  shows "world_ok (with_channel env ses name call w)"
proof (cases "channelMgr (env_server env) (v_team (s_player ses))")
  case (Some m)
  have "owner_ok ch" if "GetChannel name (s_player ses) (get_mgr m w) = (Some ch, es)" for ch es
    using assms(1) that
    by (auto simp: world_ok_def GetChannel_def FindChannel_def split: option.splits)
  then show ?thesis
    using Some assms by (auto simp: with_channel_def call_world_ok split: prod.split option.split)
qed (simp add: with_channel_def assms)

lemma left_same_but: "same_but (Some m) name w (set_mgr m (mgr_LeftChannel name (get_mgr m w)) w)"
  by (auto simp: same_but_def mgr_LeftChannel_def FindChannel_def split: option.split)

lemma left_world_ok:
  "world_ok w \<Longrightarrow> world_ok (set_mgr m (mgr_LeftChannel name (get_mgr m w)) w)"
  by (auto simp: world_ok_def mgr_LeftChannel_def FindChannel_def split: option.splits if_splits)

lemma created_same_but:
  "same_but (Some m) name w (set_mgr m (GetJoinChannel srv name channel_id (get_mgr m w)) w)"
  by (auto simp: same_but_def GetJoinChannel_def FindChannel_def)

lemma created_world_ok:
  "world_ok w \<Longrightarrow> world_ok (set_mgr m (GetJoinChannel srv name channel_id (get_mgr m w)) w)"
  by (auto simp: world_ok_def GetJoinChannel_def FindChannel_def new_Channel_ok split: if_splits)

section \<open>The handlers\<close>

text \<open>The part of the two handlers that runs once the packet is parsed and accepted.\<close>

definition join_world ::
  "chat_env \<Rightarrow> session \<Rightarrow> string \<Rightarrow> u32 \<Rightarrow> string \<Rightarrow> chat_world \<Rightarrow> chat_world" where
  "join_world env ses channelname channel_id pass w =
     (case channelMgr (env_server env) (v_team (s_player ses)) of
        None \<Rightarrow> w
      | Some m \<Rightarrow>
          let w' = set_mgr m (GetJoinChannel (env_server env) channelname channel_id
                                (get_mgr m w)) w
          in case FindChannel channelname (get_mgr m w') of
               None \<Rightarrow> w'
             | Some chn \<Rightarrow>
                 call_channel m channelname
                   (Join (env_server env) (v_guid (s_player ses)) pass) chn w')"

definition leave_world :: "chat_env \<Rightarrow> session \<Rightarrow> string \<Rightarrow> chat_world \<Rightarrow> chat_world" where
  "leave_world env ses channelname w =
     (case channelMgr (env_server env) (v_team (s_player ses)) of
        None \<Rightarrow> w
      | Some m \<Rightarrow>
          let w' = with_channel env ses channelname
                     (Leave (env_server env) (v_guid (s_player ses)) True) w
          in set_mgr m (mgr_LeftChannel channelname (get_mgr m w')) w')"

lemma HandleJoin_cases:
  assumes "HandleJoinChannel env ses data w = Inr w'"
  shows "w' = w \<or> (\<exists>es. w' = w\<lparr>outbox := es\<rparr>) \<or>
         (\<exists>name cid pass. w' = join_world env ses name cid pass w)"
  using assms unfolding HandleJoinChannel_def join_world_def [symmetric]
  by (auto split: prod.splits sum.splits if_splits)

lemma HandleLeave_cases:
  assumes "HandleLeaveChannel env ses data w = Inr w'"
  shows "w' = w \<or> (\<exists>name. w' = leave_world env ses name w)"
  using assms unfolding HandleLeaveChannel_def leave_world_def [symmetric]
  by (auto split: prod.splits sum.splits if_splits)

abbreviation sender_mgr :: "chat_env \<Rightarrow> session \<Rightarrow> faction_mgr option" where
  "sender_mgr env ses \<equiv> channelMgr (env_server env) (v_team (s_player ses))"

lemma join_world_local: "same_but (sender_mgr env ses) name w (join_world env ses name cid pass w)"
  using same_but_trans [OF created_same_but call_same_but]
  by (auto simp: join_world_def Let_def created_same_but split: option.split)

lemma world_ok_found: "world_ok w \<Longrightarrow> FindChannel n (get_mgr m w) = Some ch \<Longrightarrow> owner_ok ch"
  by (simp add: world_ok_def)

lemma join_world_ok:
  assumes "world_ok w"
  shows "world_ok (join_world env ses name cid pass w)"
proof (cases "sender_mgr env ses")
  case (Some m)
  define w1 where "w1 = set_mgr m (GetJoinChannel (env_server env) name cid (get_mgr m w)) w"
  have "world_ok w1" using assms by (simp add: w1_def created_world_ok)
  then have "world_ok (case FindChannel name (get_mgr m w1) of None \<Rightarrow> w1
      | Some chn \<Rightarrow> call_channel m name (Join (env_server env) (v_guid (s_player ses)) pass) chn w1)"
    by (auto simp: call_world_ok Join_keeps world_ok_found split: option.split)
  then show ?thesis by (simp only: join_world_def Some option.case Let_def w1_def)
qed (simp add: join_world_def assms)

lemma leave_world_local: "same_but (sender_mgr env ses) name w (leave_world env ses name w)"
proof (cases "sender_mgr env ses")
  case (Some m)
  have "same_but (Some m) name w (with_channel env ses name
          (Leave (env_server env) (v_guid (s_player ses)) True) w)"
    using with_same_but [of env ses] by (simp add: Some)
  then show ?thesis
    using same_but_trans [OF _ left_same_but] by (simp add: leave_world_def Some Let_def)
qed (simp add: leave_world_def)

lemma leave_world_ok: "world_ok w \<Longrightarrow> world_ok (leave_world env ses name w)"
  using left_world_ok [OF with_world_ok [OF _ Leave_keeps]]
  by (simp add: leave_world_def Let_def split: option.split)

text \<open>Every other handler is a call on one channel.\<close>

definition one_call :: "chat_env \<Rightarrow> session \<Rightarrow> chat_world \<Rightarrow> chat_world \<Rightarrow> bool" where
  "one_call env ses w w' \<longleftrightarrow>
     w' = w \<or> (\<exists>name f. (\<forall>c. owner_ok c \<longrightarrow> owner_ok (f c)) \<and> w' = with_channel env ses name f w)"

lemma one_callI: "(\<And>c. owner_ok c \<Longrightarrow> owner_ok (f c)) \<Longrightarrow> one_call env ses w (with_channel env ses name f w)"
  by (auto simp: one_call_def)

lemma one_call_refl [simp]: "one_call env ses w w"
  by (simp add: one_call_def)

lemmas channel_call_keeps =
  KickOrBan_keeps UnBan_keeps Password_keeps SetMode_keeps SetOwnerByName_keeps
  Announce_keeps Moderate_keeps
  same_state_owner_ok [OF quiet_calls(1)] same_state_owner_ok [OF quiet_calls(2)]
  same_state_owner_ok [OF Invite_quiet]

lemma handler_one_call:
  assumes "handle op env ses data w = Inr w'"
    and "op \<noteq> CMSG_JOIN_CHANNEL" and "op \<noteq> CMSG_LEAVE_CHANNEL"
  shows "one_call env ses w w'"
  using assms
  by (cases op)
    (auto simp: HandleChannelPassword_def HandleChannelList_def HandleChannelSetOwner_def
      HandleChannelOwner_def HandleChannelModerator_def HandleChannelUnmoderator_def
      HandleChannelMute_def HandleChannelUnmute_def HandleChannelInvite_def
      HandleChannelKick_def HandleChannelBan_def HandleChannelUnban_def
      HandleChannelAnnouncements_def HandleChannelModerate_def
      HandleChannelDisplayListQuery_def HandleGetChannelMemberCount_def
      HandleSetChannelWatch_def ch_SetModerator_def ch_UnsetModerator_def ch_SetMute_def
      ch_UnsetMute_def Kick_def Ban_def
      split: sum.splits prod.splits option.splits intro!: one_callI channel_call_keeps)

lemma one_call_local: "one_call env ses w w' \<Longrightarrow> \<exists>name. same_but (sender_mgr env ses) name w w'"
  using with_same_but by (fastforce simp: one_call_def)

lemma one_call_ok: "one_call env ses w w' \<Longrightarrow> world_ok w \<Longrightarrow> world_ok w'"
  by (auto simp: one_call_def with_world_ok)

lemma handler_local:
  assumes "handle op env ses data w = Inr w'"
  shows "\<exists>name. same_but (sender_mgr env ses) name w w'"
proof -
  consider "op = CMSG_JOIN_CHANNEL" | "op = CMSG_LEAVE_CHANNEL" | "one_call env ses w w'"
    using handler_one_call [OF assms] by blast
  then show ?thesis
  proof cases
    case 1
    with assms have "HandleJoinChannel env ses data w = Inr w'" by simp
    from HandleJoin_cases [OF this] show ?thesis using join_world_local by fastforce
  next
    case 2
    with assms have "HandleLeaveChannel env ses data w = Inr w'" by simp
    from HandleLeave_cases [OF this] show ?thesis using leave_world_local by fastforce
  qed (rule one_call_local)
qed

lemma handler_ok:
  assumes "handle op env ses data w = Inr w'" and "world_ok w"
  shows "world_ok w'"
proof -
  consider "op = CMSG_JOIN_CHANNEL" | "op = CMSG_LEAVE_CHANNEL" | "one_call env ses w w'"
    using handler_one_call [OF assms(1)] by blast
  then show ?thesis
  proof cases
    case 1
    with assms have "HandleJoinChannel env ses data w = Inr w'" by simp
    from HandleJoin_cases [OF this] show ?thesis using join_world_ok assms(2) by fastforce
  next
    case 2
    with assms have "HandleLeaveChannel env ses data w = Inr w'" by simp
    from HandleLeave_cases [OF this] show ?thesis using leave_world_ok assms(2) by fastforce
  qed (simp add: one_call_ok assms(2))
qed

interpretation chat_table: stateful chat_exec "\<lambda>_. True" world_ok
proof
  fix w c assume "world_ok w"
  then show "world_ok (chat_exec w c)"
    by (cases c) (auto dest: handler_ok split: sum.split)
qed

section \<open>Properties\<close>

text \<open>C39: \<^bold>\<open>A packet changes at most one channel, in the sender's own table.\<close> Whatever a client
  sends, the handler leaves the other faction's table and every other name of the sender's
  table as they are: no channel appears, disappears or changes there.\<close>

theorem packet_changes_one_channel:
  assumes "handle op env ses data w = Inr w'"
  shows "\<exists>name. same_but (channelMgr (env_server env) (v_team (s_player ses))) name w w'"
  by (rule handler_local [OF assms])

definition demo_env :: chat_env where
  "demo_env = \<lparr>env_server = demo_server, env_normalize = Some\<rparr>"

definition demo_session :: session where
  "demo_session = \<lparr>s_player = demo_player 7 ''Ann'', s_IsGameMaster = False\<rparr>"

definition demo_world :: chat_world where
  "demo_world = \<lparr>allianceChannelMgr = \<lparr>channels = [(''x'', demo_channel [])]\<rparr>,
     hordeChannelMgr = \<lparr>channels = []\<rparr>, outbox = []\<rparr>"

text \<open>The packet \<open>CMSG_LEAVE_CHANNEL\<close> for the channel x.\<close>

definition demo_leave :: world_packet where
  "demo_leave = put_string ''x'' (put_u32 0 (wp_new 0x098))"

lemma demo_leave_parsed: "fst (andThen shr_u32 (\<lambda>zoneChannelID. shr_string) demo_leave) = Inr ''x''"
proof -
  have "packet_is 0x098 ([] @ le_bytes (0 :: u32)) (put_u32 0 (wp_new 0x098))"
    by (rule packet_put(2)) (simp_all add: room_def sizeof_word_def)
  then have "packet_is 0x098 (([] @ le_bytes (0 :: u32)) @ string_bytes ''x'') demo_leave"
    unfolding demo_leave_def by (rule packet_put(4)) (simp add: room_def sizeof_word_def)
  then have r: "readable demo_leave (le_bytes (0 :: u32) @ string_bytes ''x'' @ [])"
    using packet_readable by (simp add: room_def sizeof_word_def)
  have "no_nul ''x''" by (simp add: no_nul_def)
  then show ?thesis
    using w32.reads [OF _ r] str.reads [OF _ readable_advance [OF r]] by simp
qed

lemma demo_leave_handled:
  "handle CMSG_LEAVE_CHANNEL demo_env demo_session demo_leave demo_world =
     Inr (leave_world demo_env demo_session ''x'' demo_world)"
  by (simp add: HandleLeaveChannel_def demo_leave_parsed leave_world_def)

theorem packet_changes_one_channel_witness:
  "\<exists>name. same_but (channelMgr (env_server demo_env) (v_team (s_player demo_session))) name
     demo_world (leave_world demo_env demo_session ''x'' demo_world)"
  by (rule packet_changes_one_channel [OF demo_leave_handled])

text \<open>C40: \<^bold>\<open>Every channel in the tables is consistent after any packets.\<close> From empty tables,
  after any sequence of client packets, each with any session and any state of the rest of the
  server, each table is ordered by name without duplicates and each channel in it has at most
  one owner flag, on the recorded owner.\<close>

theorem tables_stay_consistent:
  "world_ok (run chat_exec
     \<lparr>allianceChannelMgr = \<lparr>channels = []\<rparr>, hordeChannelMgr = \<lparr>channels = []\<rparr>, outbox = []\<rparr> packets)"
proof (rule chat_table.run_keeps)
  show "world_ok \<lparr>allianceChannelMgr = \<lparr>channels = []\<rparr>, hordeChannelMgr = \<lparr>channels = []\<rparr>, outbox = []\<rparr>"
    by (simp add: world_ok_def get_mgr_def FindChannel_def split: faction_mgr.split)
qed (simp add: list.pred_True)

text \<open>\<^bold>\<open>The last member's leave deletes a custom channel.\<close> When the only member of a custom
  channel sends a leave packet for it, the channel is no longer in the table.\<close>

theorem last_leave_deletes:
  assumes "HandleLeaveChannel env ses data w = Inr w'"
    and "fst (andThen shr_u32 (\<lambda>zoneChannelID. shr_string) data) = Inr name" and "name \<noteq> []"
    and "channelMgr (env_server env) (v_team (s_player ses)) = Some m"
    and "FindChannel name (get_mgr m w) = Some ch" and "\<not> IsConstant ch"
    and "members ch = {v_guid (s_player ses)}"
  shows "FindChannel name (get_mgr m w') = None"
proof -
  let ?p = "v_guid (s_player ses)"
  define left where "left = Leave (env_server env) ?p True (ch\<lparr>sent := []\<rparr>)"
  have w': "w' = leave_world env ses name w"
    using assms(1-3) by (simp add: HandleLeaveChannel_def leave_world_def)
  have on: "IsOn ?p (ch\<lparr>sent := []\<rparr>)"
    using assms(7) by (simp add: IsOn_members members_def)
  obtain c where c: "left = (if pi_IsOwner (at_player ?p (ch\<lparr>sent := []\<rparr>))
        then SetOwner (env_server env)
          (case players c of [] \<Rightarrow> guid_Empty | e # _ \<Rightarrow> pi_player (snd e)) True c else c)"
    "players c = smap_erase ?p (players (ch\<lparr>sent := []\<rparr>))"
    "m_channelId c = m_channelId (ch\<lparr>sent := []\<rparr>)"
    unfolding left_def by (rule Leave_on [OF on])
  have "members c = {}" using assms(7) c(2) by (simp add: members_def)
  then have none: "players c = []" by (simp add: members_def keys_empty_iff)
  then have "members left = {}" using c(1) \<open>members c = {}\<close> by (simp add: members_SetOwner guid_Empty_def)
  then have "ch_IsEmpty (left\<lparr>sent := []\<rparr>)" by (simp add: ch_IsEmpty_def members_def keys_empty_iff)
  moreover have "\<not> IsConstant (left\<lparr>sent := []\<rparr>)"
    using assms(6) c(1,3) by (simp add: IsConstant_def)
  moreover have "FindChannel name (get_mgr m (with_channel env ses name
      (Leave (env_server env) ?p True) w)) = Some (left\<lparr>sent := []\<rparr>)"
    using assms(4,5)
    by (simp add: with_channel_def GetChannel_def FindChannel_def get_mgr_call left_def)
  ultimately show ?thesis
    by (simp add: w' leave_world_def assms(4) Let_def mgr_LeftChannel_def FindChannel_def)
qed

theorem last_leave_deletes_witness:
  "FindChannel ''x'' (get_mgr AllianceMgr (leave_world demo_env demo_session ''x'' demo_world)) = None"
proof (rule last_leave_deletes [where ch = "demo_channel []"])
  show "HandleLeaveChannel demo_env demo_session demo_leave demo_world =
      Inr (leave_world demo_env demo_session ''x'' demo_world)"
    using demo_leave_handled by simp
qed (simp_all add: demo_leave_parsed demo_env_def demo_session_def demo_world_def channelMgr_def
    ALLIANCE_def FindChannel_def get_mgr_def IsConstant_def members_def smap_keys_def demo_simps)

end
