(* ===== verification/Reputation.thy ===== *)
theory Reputation
  imports WorldPacket
begin

text \<open>
  \<^verbatim>\<open>src/src/server/game/Reputation/ReputationMgr.h\<close> and \<^verbatim>\<open>ReputationMgr.cpp\<close>: a player's
  standing with the factions. The faction table of the client data, the player's race and
  class, the script hook and the reputation rate (a product of floats) are the record
  \<open>rep_env\<close>. What an operation sends, and the notices to the player object, are appended to
  \<open>rep_sent\<close>. The spill-over to other factions is commented out in the code.
\<close>

section \<open>Ranks\<close>

datatype reputation_rank =
  REP_HATED | REP_HOSTILE | REP_UNFRIENDLY | REP_NEUTRAL | REP_FRIENDLY | REP_HONORED
| REP_REVERED | REP_EXALTED

fun rank_index :: "reputation_rank \<Rightarrow> nat" where
  "rank_index REP_HATED = 0"
| "rank_index REP_HOSTILE = 1"
| "rank_index REP_UNFRIENDLY = 2"
| "rank_index REP_NEUTRAL = 3"
| "rank_index REP_FRIENDLY = 4"
| "rank_index REP_HONORED = 5"
| "rank_index REP_REVERED = 6"
| "rank_index REP_EXALTED = 7"

lemma rank_index_inj [simp]: "rank_index a = rank_index b \<longleftrightarrow> a = b"
  by (cases a; cases b) simp_all

text \<open>The enumeration compares as its values do.\<close>

instantiation reputation_rank :: linorder
begin

definition less_eq_reputation_rank :: "reputation_rank \<Rightarrow> reputation_rank \<Rightarrow> bool" where
  "less_eq_reputation_rank a b \<longleftrightarrow> rank_index a \<le> rank_index b"

definition less_reputation_rank :: "reputation_rank \<Rightarrow> reputation_rank \<Rightarrow> bool" where
  "less_reputation_rank a b \<longleftrightarrow> rank_index a < rank_index b"

instance
  by standard (auto simp: less_eq_reputation_rank_def less_reputation_rank_def)

end

definition all_ranks :: "reputation_rank list" where
  "all_ranks = [REP_HATED, REP_HOSTILE, REP_UNFRIENDLY, REP_NEUTRAL, REP_FRIENDLY, REP_HONORED,
     REP_REVERED, REP_EXALTED]"

definition MIN_REPUTATION_RANK :: reputation_rank where "MIN_REPUTATION_RANK = REP_HATED"
definition MAX_REPUTATION_RANK :: nat where "MAX_REPUTATION_RANK = 8"

definition PointsInRank :: "int list" where
  "PointsInRank = [36000, 3000, 3000, 3000, 6000, 12000, 21000, 1000]"

definition Reputation_Cap :: int where "Reputation_Cap = 42999"
definition Reputation_Bottom :: int where "Reputation_Bottom = -42000"

text \<open>The loop of \<open>ReputationToRank\<close>: \<open>n\<close> ranks are left, the next is \<open>n - 1\<close>.\<close>

fun rank_loop :: "nat \<Rightarrow> int \<Rightarrow> int \<Rightarrow> reputation_rank" where
  "rank_loop 0 limit standing = MIN_REPUTATION_RANK"
| "rank_loop (Suc i) limit standing =
     (let limit = limit - PointsInRank ! i
      in if standing \<ge> limit then all_ranks ! i else rank_loop i limit standing)"

definition ReputationToRank :: "int \<Rightarrow> reputation_rank" where
  "ReputationToRank standing = rank_loop MAX_REPUTATION_RANK (Reputation_Cap + 1) standing"

section \<open>State\<close>

record faction_entry =
  fe_ID :: u32
  reputationListID :: int
  BaseRepRaceMask :: "u32 list"
  BaseRepClassMask :: "u32 list"
  BaseRepValue :: "int list"
  ReputationFlags :: "u32 list"

definition CanHaveReputation :: "faction_entry \<Rightarrow> bool" where
  "CanHaveReputation fe = (reputationListID fe \<ge> 0)"

record faction_state =
  fs_ID :: u32
  ReputationListID :: u32
  Standing :: int
  Flags :: u8
  needSend :: bool
  needSave :: bool
  needDelete :: bool

definition fs0 :: faction_state where
  "fs0 = \<lparr>fs_ID = 0, ReputationListID = 0, Standing = 0, Flags = 0, needSend = False,
     needSave = False, needDelete = False\<rparr>"

definition FACTION_FLAG_VISIBLE :: u8 where "FACTION_FLAG_VISIBLE = 0x01"
definition FACTION_FLAG_AT_WAR :: u8 where "FACTION_FLAG_AT_WAR = 0x02"
definition FACTION_FLAG_HIDDEN :: u8 where "FACTION_FLAG_HIDDEN = 0x04"
definition FACTION_FLAG_INVISIBLE_FORCED :: u8 where "FACTION_FLAG_INVISIBLE_FORCED = 0x08"
definition FACTION_FLAG_PEACE_FORCED :: u8 where "FACTION_FLAG_PEACE_FORCED = 0x10"
definition FACTION_FLAG_INACTIVE :: u8 where "FACTION_FLAG_INACTIVE = 0x20"
definition FACTION_FLAG_RIVAL :: u8 where "FACTION_FLAG_RIVAL = 0x40"

definition SMSG_INITIALIZE_FACTIONS :: u16 where "SMSG_INITIALIZE_FACTIONS = 0x122"
definition SMSG_SET_FACTION_VISIBLE :: u16 where "SMSG_SET_FACTION_VISIBLE = 0x123"
definition SMSG_SET_FACTION_STANDING :: u16 where "SMSG_SET_FACTION_STANDING = 0x124"
definition SMSG_SET_FORCED_REACTIONS :: u16 where "SMSG_SET_FORCED_REACTIONS = 0x2A5"

datatype rep_effect = RepPacket world_packet | ReputationChanged u32

record reputation_mgr =
  factions :: "(u32, faction_state) smap"
  forcedReactions :: "(u32, reputation_rank) smap"
  visibleFactionCount :: u8
  honoredFactionCount :: u8
  reveredFactionCount :: u8
  exaltedFactionCount :: u8
  sendFactionIncreased :: bool
  rep_sent :: "rep_effect list"

record rep_env =
  NumRows :: nat
  LookupEntry :: "u32 \<Rightarrow> faction_entry option"
  RaceMask :: u32
  ClassMask :: u32
  gain_rate :: "int \<Rightarrow> int"
  OnReputationChange :: "u32 \<Rightarrow> int \<Rightarrow> bool \<Rightarrow> int"
  PlayerLoading :: bool
  player_guid :: u32

definition new_reputation_mgr :: reputation_mgr where
  "new_reputation_mgr = \<lparr>factions = [], forcedReactions = [], visibleFactionCount = 0,
     honoredFactionCount = 0, reveredFactionCount = 0, exaltedFactionCount = 0,
     sendFactionIncreased = False, rep_sent = []\<rparr>"

definition rep_emit :: "rep_effect \<Rightarrow> reputation_mgr \<Rightarrow> reputation_mgr" where
  "rep_emit e r = r\<lparr>rep_sent := rep_sent r @ [e]\<rparr>"

text \<open>A pointer to an entry of \<open>_factions\<close> is its key; writing through it changes the entry.\<close>

definition set_state :: "u32 \<Rightarrow> (faction_state \<Rightarrow> faction_state) \<Rightarrow> reputation_mgr \<Rightarrow> reputation_mgr" where
  "set_state k f r = (case smap_find (factions r) k of
       None \<Rightarrow> r
     | Some s \<Rightarrow> r\<lparr>factions := smap_put k (f s) (factions r)\<rparr>)"

section \<open>Reading\<close>

definition GetStateById :: "u32 \<Rightarrow> reputation_mgr \<Rightarrow> faction_state option" where
  "GetStateById k r = smap_find (factions r) k"

definition GetState :: "faction_entry \<Rightarrow> reputation_mgr \<Rightarrow> faction_state option" where
  "GetState fe r =
     (if CanHaveReputation fe then GetStateById (word_of_int (reputationListID fe)) r else None)"

definition IsAtWarEntry :: "faction_entry option \<Rightarrow> reputation_mgr \<Rightarrow> bool" where
  "IsAtWarEntry fe r = (case fe of None \<Rightarrow> False | Some fe \<Rightarrow>
     (case GetState fe r of None \<Rightarrow> False | Some s \<Rightarrow> has_flag (Flags s) FACTION_FLAG_AT_WAR))"

definition IsAtWar :: "rep_env \<Rightarrow> u32 \<Rightarrow> reputation_mgr \<Rightarrow> bool" where
  "IsAtWar env faction_id r = (case LookupEntry env faction_id of
     None \<Rightarrow> False | Some fe \<Rightarrow> IsAtWarEntry (Some fe) r)"

text \<open>The slot of the base reputation arrays that fits the player's race and class.\<close>

definition slot_fits :: "rep_env \<Rightarrow> faction_entry \<Rightarrow> nat \<Rightarrow> bool" where
  "slot_fits env fe i =
     ((BaseRepRaceMask fe ! i AND RaceMask env \<noteq> 0 \<or>
       (BaseRepRaceMask fe ! i = 0 \<and> BaseRepClassMask fe ! i \<noteq> 0)) \<and>
      (BaseRepClassMask fe ! i AND ClassMask env \<noteq> 0 \<or> BaseRepClassMask fe ! i = 0))"

definition GetBaseReputation :: "rep_env \<Rightarrow> faction_entry \<Rightarrow> int" where
  "GetBaseReputation env fe =
     (case find (slot_fits env fe) [0, 1, 2, 3] of None \<Rightarrow> 0 | Some i \<Rightarrow> BaseRepValue fe ! i)"

definition GetDefaultStateFlags :: "rep_env \<Rightarrow> faction_entry \<Rightarrow> u32" where
  "GetDefaultStateFlags env fe =
     (case find (slot_fits env fe) [0, 1, 2, 3] of None \<Rightarrow> 0 | Some i \<Rightarrow> ReputationFlags fe ! i)"

definition GetReputationOf :: "rep_env \<Rightarrow> faction_entry \<Rightarrow> reputation_mgr \<Rightarrow> int" where
  "GetReputationOf env fe r = (case GetState fe r of
     None \<Rightarrow> 0 | Some s \<Rightarrow> to_i32 (GetBaseReputation env fe + Standing s))"

definition GetReputation :: "rep_env \<Rightarrow> u32 \<Rightarrow> reputation_mgr \<Rightarrow> int" where
  "GetReputation env faction_id r = (case LookupEntry env faction_id of
     None \<Rightarrow> 0 | Some fe \<Rightarrow> GetReputationOf env fe r)"

definition GetRank :: "rep_env \<Rightarrow> faction_entry \<Rightarrow> reputation_mgr \<Rightarrow> reputation_rank" where
  "GetRank env fe r = ReputationToRank (GetReputationOf env fe r)"

definition GetBaseRank :: "rep_env \<Rightarrow> faction_entry \<Rightarrow> reputation_rank" where
  "GetBaseRank env fe = ReputationToRank (GetBaseReputation env fe)"

definition GetForcedRankIfAny :: "u32 \<Rightarrow> reputation_mgr \<Rightarrow> reputation_rank option" where
  "GetForcedRankIfAny template_faction r = smap_find (forcedReactions r) template_faction"

definition ApplyForceReaction :: "u32 \<Rightarrow> reputation_rank \<Rightarrow> bool \<Rightarrow> reputation_mgr \<Rightarrow> reputation_mgr" where
  "ApplyForceReaction faction_id rank apply_it r =
     (if apply_it then r\<lparr>forcedReactions := smap_put faction_id rank (forcedReactions r)\<rparr>
      else r\<lparr>forcedReactions := smap_erase faction_id (forcedReactions r)\<rparr>)"

section \<open>Sending\<close>

definition SendForceReactions :: "reputation_mgr \<Rightarrow> reputation_mgr" where
  "SendForceReactions r =
     (let data = wp_Initialize SMSG_SET_FORCED_REACTIONS wp_empty;
          data = put_u32 (word_of_nat (length (forcedReactions r))) data;
          data = fold (\<lambda>e d. put_u32 (word_of_nat (rank_index (snd e))) (put_u32 (fst e) d))
                   (forcedReactions r) data
      in rep_emit (RepPacket data) r)"

definition SendState :: "faction_state option \<Rightarrow> reputation_mgr \<Rightarrow> reputation_mgr" where
  "SendState faction r =
     (let count = (case faction of None \<Rightarrow> 0 | Some _ \<Rightarrow> 1) :: u32;
          data = wp_new SMSG_SET_FACTION_STANDING;
          data = put_u32 0 data;
          r = r\<lparr>sendFactionIncreased := False\<rparr>;
          p_count = wpos data;
          data = put_u32 count data;
          data = (case faction of None \<Rightarrow> data | Some f \<Rightarrow>
                    put_u32 (word_of_int (Standing f)) (put_u32 (ReputationListID f) data));
          (data, count) = fold (\<lambda>e (d, n).
             if needSend (snd e) \<and>
                (case faction of None \<Rightarrow> True
                 | Some f \<Rightarrow> ReputationListID (snd e) \<noteq> ReputationListID f)
             then (put_u32 (word_of_int (Standing (snd e))) (put_u32 (ReputationListID (snd e)) d), n + 1)
             else (d, n)) (factions r) (data, count);
          r = r\<lparr>factions := map (\<lambda>(k, s). (k, if needSend s then s\<lparr>needSend := False\<rparr> else s))
                              (factions r)\<rparr>;
          data = overwrite_u32 p_count count data
      in rep_emit (RepPacket data) r)"

text \<open>
  \<open>for (; a != k; ++a)\<close> on 32-bit unsigned integers runs \<open>unat (k - a)\<close> times and leaves \<open>a\<close>
  equal to \<open>k\<close>; where \<open>a\<close> is already past \<open>k\<close> it wraps around.
\<close>

definition put_absent :: "world_packet \<Rightarrow> world_packet" where
  "put_absent d = put_u32 0 (put_u8 0 d)"

definition fill_to :: "u32 \<Rightarrow> u32 \<Rightarrow> world_packet \<Rightarrow> world_packet" where
  "fill_to a k d = (put_absent ^^ unat (k - a)) d"

definition SendInitialReputations :: "reputation_mgr \<Rightarrow> reputation_mgr" where
  "SendInitialReputations r =
     (let count = 128 :: u32;
          data = wp_new SMSG_INITIALIZE_FACTIONS;
          data = put_u32 count data;
          (data, a) = fold (\<lambda>e (d, a).
             let d = fill_to a (fst e) d
             in (put_u32 (word_of_int (Standing (snd e))) (put_u8 (Flags (snd e)) d), fst e + 1))
             (factions r) (data, 0 :: u32);
          r = r\<lparr>factions := map (\<lambda>(k, s). (k, s\<lparr>needSend := False\<rparr>)) (factions r)\<rparr>;
          data = fill_to a count data
      in rep_emit (RepPacket data) r)"

definition SendVisible :: "rep_env \<Rightarrow> faction_state \<Rightarrow> reputation_mgr \<Rightarrow> reputation_mgr" where
  "SendVisible env faction r =
     (if PlayerLoading env then r
      else rep_emit (RepPacket (put_u32 (ReputationListID faction) (wp_new SMSG_SET_FACTION_VISIBLE))) r)"

section \<open>Flags and counters\<close>

definition UpdateRankCounters ::
  "reputation_rank \<Rightarrow> reputation_rank \<Rightarrow> reputation_mgr \<Rightarrow> reputation_mgr" where
  "UpdateRankCounters old_rank new_rank r0 =
     (let r = r0;
          r = (if old_rank \<ge> REP_EXALTED then r\<lparr>exaltedFactionCount := exaltedFactionCount r - 1\<rparr> else r);
          r = (if old_rank \<ge> REP_REVERED then r\<lparr>reveredFactionCount := reveredFactionCount r - 1\<rparr> else r);
          r = (if old_rank \<ge> REP_HONORED then r\<lparr>honoredFactionCount := honoredFactionCount r - 1\<rparr> else r);
          r = (if new_rank \<ge> REP_EXALTED then r\<lparr>exaltedFactionCount := exaltedFactionCount r + 1\<rparr> else r);
          r = (if new_rank \<ge> REP_REVERED then r\<lparr>reveredFactionCount := reveredFactionCount r + 1\<rparr> else r)
      in (if new_rank \<ge> REP_HONORED then r\<lparr>honoredFactionCount := honoredFactionCount r + 1\<rparr> else r))"

text \<open>\<open>SetVisible(FactionState*)\<close>, the state given by its key.\<close>

definition SetVisibleState :: "rep_env \<Rightarrow> u32 \<Rightarrow> reputation_mgr \<Rightarrow> reputation_mgr" where
  "SetVisibleState env k r =
     (case smap_find (factions r) k of
        None \<Rightarrow> r
      | Some s \<Rightarrow>
          if has_flag (Flags s) (FACTION_FLAG_INVISIBLE_FORCED OR FACTION_FLAG_HIDDEN) then r
          else if has_flag (Flags s) FACTION_FLAG_VISIBLE then r
          else
            let s' = s\<lparr>Flags := set_flag (Flags s) FACTION_FLAG_VISIBLE, needSend := True,
                       needSave := True\<rparr>;
                r = set_state k (\<lambda>_. s') r;
                r = r\<lparr>visibleFactionCount := visibleFactionCount r + 1\<rparr>
            in SendVisible env s' r)"

definition SetVisibleEntry :: "rep_env \<Rightarrow> faction_entry \<Rightarrow> reputation_mgr \<Rightarrow> reputation_mgr" where
  "SetVisibleEntry env fe r =
     (if reputationListID fe < 0 then r
      else SetVisibleState env (word_of_int (reputationListID fe)) r)"

text \<open>\<open>SetVisible(FactionTemplateEntry const*)\<close>, the template given by its field \<open>faction\<close>.\<close>

definition SetVisibleTemplate :: "rep_env \<Rightarrow> u32 \<Rightarrow> reputation_mgr \<Rightarrow> reputation_mgr" where
  "SetVisibleTemplate env faction r =
     (if faction = 0 then r
      else case LookupEntry env faction of
             None \<Rightarrow> r
           | Some fe \<Rightarrow>
               if \<not> (BaseRepRaceMask fe ! 1 AND RaceMask env \<noteq> 0 \<and>
                     BaseRepValue fe ! 1 = Reputation_Bottom)
               then SetVisibleEntry env fe r else r)"

text \<open>\<open>SetAtWar(FactionState*, bool)\<close> and \<open>SetInactive(FactionState*, bool)\<close> write only the state.\<close>

definition SetAtWarState :: "bool \<Rightarrow> faction_state \<Rightarrow> faction_state" where
  "SetAtWarState atWar s =
     (if atWar \<and> has_flag (Flags s) FACTION_FLAG_PEACE_FORCED \<and> \<not> has_flag (Flags s) FACTION_FLAG_RIVAL
      then s
      else if has_flag (Flags s) FACTION_FLAG_AT_WAR = atWar then s
      else (if atWar then s\<lparr>Flags := set_flag (Flags s) FACTION_FLAG_AT_WAR\<rparr>
            else s\<lparr>Flags := clear_flag (Flags s) FACTION_FLAG_AT_WAR\<rparr>)
             \<lparr>needSend := True, needSave := True\<rparr>)"

definition SetAtWar :: "u32 \<Rightarrow> bool \<Rightarrow> reputation_mgr \<Rightarrow> reputation_mgr" where
  "SetAtWar repListID on r =
     (case smap_find (factions r) repListID of
        None \<Rightarrow> r
      | Some s \<Rightarrow>
          if has_flag (Flags s) (FACTION_FLAG_INVISIBLE_FORCED OR FACTION_FLAG_HIDDEN) then r
          else set_state repListID (SetAtWarState on) r)"

definition SetInactiveState :: "bool \<Rightarrow> faction_state \<Rightarrow> faction_state" where
  "SetInactiveState inactive s =
     (if inactive \<and> (has_flag (Flags s) (FACTION_FLAG_INVISIBLE_FORCED OR FACTION_FLAG_HIDDEN) \<or>
                     \<not> has_flag (Flags s) FACTION_FLAG_VISIBLE)
      then s
      else if has_flag (Flags s) FACTION_FLAG_INACTIVE = inactive then s
      else (if inactive then s\<lparr>Flags := set_flag (Flags s) FACTION_FLAG_INACTIVE\<rparr>
            else s\<lparr>Flags := clear_flag (Flags s) FACTION_FLAG_INACTIVE\<rparr>)
             \<lparr>needSend := True, needSave := True\<rparr>)"

definition SetInactive :: "u32 \<Rightarrow> bool \<Rightarrow> reputation_mgr \<Rightarrow> reputation_mgr" where
  "SetInactive repListID on r = set_state repListID (SetInactiveState on) r"

section \<open>Changing a standing\<close>

definition rep_clamp :: "int \<Rightarrow> int" where
  "rep_clamp standing =
     (if standing > Reputation_Cap then Reputation_Cap
      else if standing < Reputation_Bottom then Reputation_Bottom else standing)"

definition SetOneFactionReputation ::
  "rep_env \<Rightarrow> faction_entry \<Rightarrow> int \<Rightarrow> bool \<Rightarrow> reputation_mgr \<Rightarrow> bool \<times> reputation_mgr" where
  "SetOneFactionReputation env fe standing incremental r =
     (let k = word_of_int (reputationListID fe) in
      case smap_find (factions r) k of
        None \<Rightarrow> (False, r)
      | Some s \<Rightarrow>
          let BaseRep = GetBaseReputation env fe;
              standing = (if incremental
                          then to_i32 (gain_rate env standing + to_i32 (Standing s + BaseRep))
                          else standing);
              standing = rep_clamp standing;
              old_rank = ReputationToRank (to_i32 (Standing s + BaseRep));
              new_rank = ReputationToRank standing;
              r = set_state k (\<lambda>s. s\<lparr>Standing := to_i32 (standing - BaseRep), needSend := True,
                                      needSave := True\<rparr>) r;
              r = SetVisibleState env k r;
              r = (if new_rank \<le> REP_HOSTILE then set_state k (SetAtWarState True) r else r);
              r = (if new_rank > old_rank then r\<lparr>sendFactionIncreased := True\<rparr> else r);
              r = UpdateRankCounters old_rank new_rank r
          in (True, rep_emit (ReputationChanged (fe_ID fe)) r))"

definition SetReputationFull ::
  "rep_env \<Rightarrow> faction_entry \<Rightarrow> int \<Rightarrow> bool \<Rightarrow> bool \<Rightarrow> reputation_mgr \<Rightarrow> bool \<times> reputation_mgr" where
  "SetReputationFull env fe standing incremental spillOverOnly r =
     (let standing = OnReputationChange env (fe_ID fe) standing incremental;
          k = word_of_int (reputationListID fe) in
      case smap_find (factions r) k of
        None \<Rightarrow> (False, r)
      | Some _ \<Rightarrow>
          let (res, r) = (if \<not> spillOverOnly then SetOneFactionReputation env fe standing incremental r
                          else (False, r))
          in (res, SendState (smap_find (factions r) k) r))"

definition SetReputation :: "rep_env \<Rightarrow> faction_entry \<Rightarrow> int \<Rightarrow> reputation_mgr \<Rightarrow> bool \<times> reputation_mgr" where
  "SetReputation env fe standing r = SetReputationFull env fe standing False False r"

definition ModifyReputation ::
  "rep_env \<Rightarrow> faction_entry \<Rightarrow> int \<Rightarrow> bool \<Rightarrow> reputation_mgr \<Rightarrow> bool \<times> reputation_mgr" where
  "ModifyReputation env fe standing spillOverOnly r =
     SetReputationFull env fe standing True spillOverOnly r"

text \<open>\<open>DropFactionReputation\<close> looks its argument up in \<open>_factions\<close>, whose keys are list ids.\<close>

definition DropFactionReputation :: "u32 \<Rightarrow> reputation_mgr \<Rightarrow> reputation_mgr" where
  "DropFactionReputation faction_id r =
     set_state faction_id (\<lambda>s. s\<lparr>needDelete := True, Standing := 0\<rparr>) r"

definition SwapFactionReputation :: "rep_env \<Rightarrow> u32 \<Rightarrow> u32 \<Rightarrow> reputation_mgr \<Rightarrow> reputation_mgr" where
  "SwapFactionReputation env from_id to_id r =
     (case (LookupEntry env from_id, LookupEntry env to_id) of
        (Some fromEntry, Some toEntry) \<Rightarrow>
          let fromRep = (word_of_int (GetReputationOf env fromEntry r) :: u32);
              toRep = (word_of_int (GetReputationOf env toEntry r) :: u32);
              r = snd (SetReputation env fromEntry (sint toRep) r)
          in snd (SetReputation env toEntry (sint fromRep) r)
      | _ \<Rightarrow> r)"

section \<open>Initial state, loading and saving\<close>

definition init_faction :: "rep_env \<Rightarrow> faction_entry \<Rightarrow> reputation_mgr \<Rightarrow> reputation_mgr" where
  "init_faction env fe r =
     (let newFaction = \<lparr>fs_ID = fe_ID fe, ReputationListID = word_of_int (reputationListID fe),
            Standing = 0, Flags = ucast (GetDefaultStateFlags env fe), needSend = True,
            needSave = True, needDelete = False\<rparr>;
          r = (if has_flag (Flags newFaction) FACTION_FLAG_VISIBLE
               then r\<lparr>visibleFactionCount := visibleFactionCount r + 1\<rparr> else r);
          r = UpdateRankCounters REP_HOSTILE (GetBaseRank env fe) r
      in r\<lparr>factions := smap_put (ReputationListID newFaction) newFaction (factions r)\<rparr>)"

definition rep_Initialize :: "rep_env \<Rightarrow> reputation_mgr \<Rightarrow> reputation_mgr" where
  "rep_Initialize env r =
     fold (\<lambda>i r. case LookupEntry env (word_of_nat i) of
              None \<Rightarrow> r
            | Some fe \<Rightarrow> if reputationListID fe \<ge> 0 then init_faction env fe r else r)
       [1..<NumRows env]
       (r\<lparr>factions := [], visibleFactionCount := 0, honoredFactionCount := 0,
          reveredFactionCount := 0, exaltedFactionCount := 0, sendFactionIncreased := False\<rparr>)"

text \<open>One row of \<open>character_reputation\<close>: faction, standing, flags.\<close>

definition load_row :: "rep_env \<Rightarrow> u16 \<times> int \<times> u16 \<Rightarrow> reputation_mgr \<Rightarrow> reputation_mgr" where
  "load_row env row r =
     (case row of (f0, f1, f2) \<Rightarrow>
      case LookupEntry env (ucast f0) of
        None \<Rightarrow> r
      | Some fe \<Rightarrow>
          if \<not> reputationListID fe \<ge> 0 then r
          else
            let k = word_of_int (reputationListID fe);
                r = r\<lparr>factions := smap_modify fs0 k (\<lambda>s. s\<lparr>Standing := f1\<rparr>) (factions r)\<rparr>;
                BaseRep = GetBaseReputation env fe;
                old_rank = ReputationToRank BaseRep;
                new_rank = ReputationToRank (to_i32 (BaseRep + f1));
                r = UpdateRankCounters old_rank new_rank r;
                dbFactionFlags = (ucast f2 :: u32);
                r = (if has_flag dbFactionFlags (ucast FACTION_FLAG_VISIBLE)
                     then SetVisibleState env k r else r);
                r = (if has_flag dbFactionFlags (ucast FACTION_FLAG_INACTIVE)
                     then set_state k (SetInactiveState True) r else r);
                r = (if has_flag dbFactionFlags (ucast FACTION_FLAG_AT_WAR)
                     then set_state k (SetAtWarState True) r
                     else set_state k (\<lambda>s. if has_flag (Flags s) FACTION_FLAG_VISIBLE
                                             then SetAtWarState False s else s) r);
                r = (if GetRank env fe r \<le> REP_HOSTILE then set_state k (SetAtWarState True) r else r)
            in set_state k (\<lambda>s. if (ucast (Flags s) :: u32) = dbFactionFlags
                                 then s\<lparr>needSend := False, needSave := False\<rparr> else s) r)"

definition rep_LoadFromDB :: "rep_env \<Rightarrow> (u16 \<times> int \<times> u16) list option \<Rightarrow> reputation_mgr \<Rightarrow> reputation_mgr" where
  "rep_LoadFromDB env result r =
     (let r = rep_Initialize env r in
      case result of None \<Rightarrow> r | Some rows \<Rightarrow> fold (load_row env) rows r)"

datatype rep_statement =
    CHAR_DEL_CHAR_REPUTATION_BY_FACTION u32 u16
  | CHAR_INS_CHAR_REPUTATION_BY_FACTION u32 u16 int u16

definition save_state :: "u32 \<Rightarrow> faction_state \<Rightarrow> rep_statement list \<times> faction_state" where
  "save_state guid s =
     (if needDelete s
      then ([CHAR_DEL_CHAR_REPUTATION_BY_FACTION guid (ucast (fs_ID s))], s\<lparr>needDelete := False\<rparr>)
      else if needSave s
      then ([CHAR_DEL_CHAR_REPUTATION_BY_FACTION guid (ucast (fs_ID s)),
             CHAR_INS_CHAR_REPUTATION_BY_FACTION guid (ucast (fs_ID s)) (Standing s) (ucast (Flags s))],
            s\<lparr>needSave := False\<rparr>)
      else ([], s))"

definition rep_SaveToDB :: "rep_env \<Rightarrow> reputation_mgr \<Rightarrow> rep_statement list \<times> reputation_mgr" where
  "rep_SaveToDB env r =
     (concat (map (\<lambda>(k, s). fst (save_state (player_guid env) s)) (factions r)),
      r\<lparr>factions := map (\<lambda>(k, s). (k, snd (save_state (player_guid env) s))) (factions r)\<rparr>)"

end
