(* ===== verification/ReputationProps.thy ===== *)
theory ReputationProps
  imports Reputation ByteBufferProps Machine
begin

text \<open>
  What holds of the reputation manager: the rank boundaries, the range of a standing, the rank
  and visibility counters over every sequence of operations, the initial packet, what is saved,
  and swapping and dropping a faction.
\<close>

section \<open>Ranks\<close>

definition rank_of :: "int \<Rightarrow> reputation_rank" where
  "rank_of s =
     (if s < -6000 then REP_HATED else if s < -3000 then REP_HOSTILE
      else if s < 0 then REP_UNFRIENDLY else if s < 3000 then REP_NEUTRAL
      else if s < 9000 then REP_FRIENDLY else if s < 21000 then REP_HONORED
      else if s < 42000 then REP_REVERED else REP_EXALTED)"

lemma ReputationToRank_rank_of: "ReputationToRank s = rank_of s"
  by (simp add: ReputationToRank_def MAX_REPUTATION_RANK_def Reputation_Cap_def Let_def
      eval_nat_numeral PointsInRank_def all_ranks_def MIN_REPUTATION_RANK_def rank_of_def)

lemma rank_of_mono: "s \<le> t \<Longrightarrow> rank_of s \<le> rank_of t"
  by (simp add: rank_of_def less_eq_reputation_rank_def)

text \<open>\<^bold>\<open>The rank loop computes the rank table.\<close> For every standing, subtracting the points
  of the ranks from the cap downwards finds the rank whose interval holds the standing:
  hated below -6000, hostile below -3000, unfriendly below 0, neutral below 3000, friendly
  below 9000, honored below 21000, revered below 42000, exalted above.\<close>

theorem rank_boundaries:
  "ReputationToRank s =
     (if s < -6000 then REP_HATED else if s < -3000 then REP_HOSTILE
      else if s < 0 then REP_UNFRIENDLY else if s < 3000 then REP_NEUTRAL
      else if s < 9000 then REP_FRIENDLY else if s < 21000 then REP_HONORED
      else if s < 42000 then REP_REVERED else REP_EXALTED)"
  by (simp add: ReputationToRank_rank_of rank_of_def)

section \<open>Flags\<close>

lemma faction_flag_bits [simp]:
  "FACTION_FLAG_VISIBLE \<noteq> 0" "FACTION_FLAG_AT_WAR \<noteq> 0" "FACTION_FLAG_INACTIVE \<noteq> 0"
  "FACTION_FLAG_AT_WAR AND FACTION_FLAG_VISIBLE = 0"
  "FACTION_FLAG_INACTIVE AND FACTION_FLAG_VISIBLE = 0"
  by (simp_all add: FACTION_FLAG_VISIBLE_def FACTION_FLAG_AT_WAR_def FACTION_FLAG_INACTIVE_def)

definition shown :: "faction_state \<Rightarrow> bool" where
  "shown s = has_flag (Flags s) FACTION_FLAG_VISIBLE"

lemma state_writes [simp]:
  "Standing (SetAtWarState b s) = Standing s" "Standing (SetInactiveState b s) = Standing s"
  "shown (SetAtWarState b s) = shown s" "shown (SetInactiveState b s) = shown s"
  by (simp_all add: SetAtWarState_def SetInactiveState_def shown_def has_flag_set_other
      has_flag_clear_other)

section \<open>Writing one state\<close>

lemma find_set_state [simp]:
  "smap_find (factions (set_state k f r)) j =
     (if j = k then map_option f (smap_find (factions r) k) else smap_find (factions r) j)"
  by (simp add: set_state_def split: option.split)

lemma set_state_fields [simp]:
  "visibleFactionCount (set_state k f r) = visibleFactionCount r"
  "honoredFactionCount (set_state k f r) = honoredFactionCount r"
  "reveredFactionCount (set_state k f r) = reveredFactionCount r"
  "exaltedFactionCount (set_state k f r) = exaltedFactionCount r"
  by (simp_all add: set_state_def split: option.split)

lemma rep_emit_fields [simp]:
  "factions (rep_emit e r) = factions r" "visibleFactionCount (rep_emit e r) = visibleFactionCount r"
  "honoredFactionCount (rep_emit e r) = honoredFactionCount r"
  "reveredFactionCount (rep_emit e r) = reveredFactionCount r"
  "exaltedFactionCount (rep_emit e r) = exaltedFactionCount r"
  by (simp_all add: rep_emit_def)

lemma ranks_factions [simp]:
  "factions (UpdateRankCounters a b r) = factions r"
  "visibleFactionCount (UpdateRankCounters a b r) = visibleFactionCount r"
  by (simp_all add: UpdateRankCounters_def Let_def)

lemma visible_find:
  "smap_find (factions (SetVisibleState env k r)) j =
     (if j = k then map_option (\<lambda>s. if has_flag (Flags s) (FACTION_FLAG_INVISIBLE_FORCED OR FACTION_FLAG_HIDDEN)
          \<or> shown s then s
        else s\<lparr>Flags := set_flag (Flags s) FACTION_FLAG_VISIBLE, needSend := True, needSave := True\<rparr>)
        (smap_find (factions r) k)
      else smap_find (factions r) j)"
  by (auto simp: SetVisibleState_def SendVisible_def shown_def Let_def split: option.split)

lemma visible_standing:
  "map_option Standing (smap_find (factions (SetVisibleState env k r)) j) =
   map_option Standing (smap_find (factions r) j)"
  by (cases "smap_find (factions r) k") (auto simp: visible_find)

section \<open>Setting a standing\<close>

definition new_standing :: "rep_env \<Rightarrow> faction_entry \<Rightarrow> int \<Rightarrow> bool \<Rightarrow> reputation_mgr \<Rightarrow> int" where
  "new_standing env fe standing incremental r =
     rep_clamp (if incremental then gain_rate env standing + GetReputationOf env fe r else standing)"

text \<open>The sums of the call do not leave the 32-bit range.\<close>

definition no_overflow :: "rep_env \<Rightarrow> faction_entry \<Rightarrow> int \<Rightarrow> bool \<Rightarrow> reputation_mgr \<Rightarrow> bool" where
  "no_overflow env fe standing incremental r \<longleftrightarrow>
     (incremental \<longrightarrow> is_i32 (gain_rate env standing + GetReputationOf env fe r)) \<and>
     - 1000000 \<le> GetBaseReputation env fe \<and> GetBaseReputation env fe \<le> 1000000"

lemma clamp_range: "Reputation_Bottom \<le> rep_clamp x \<and> rep_clamp x \<le> Reputation_Cap"
  by (simp add: rep_clamp_def Reputation_Bottom_def Reputation_Cap_def)

lemma SetOne_find:
  assumes "smap_find (factions r) (word_of_int (reputationListID fe)) = Some s"
    and "CanHaveReputation fe" and "no_overflow env fe standing incremental r"
  shows "map_option Standing (smap_find
            (factions (snd (SetOneFactionReputation env fe standing incremental r))) j) =
     (if j = word_of_int (reputationListID fe)
      then Some (new_standing env fe standing incremental r - GetBaseReputation env fe)
      else map_option Standing (smap_find (factions r) j))"
proof -
  define k where "k = (word_of_int (reputationListID fe) :: u32)"
  define n where "n = new_standing env fe standing incremental r"
  have cur: "GetReputationOf env fe r = to_i32 (Standing s + GetBaseReputation env fe)"
    using assms(1,2) by (simp add: GetReputationOf_def GetState_def GetStateById_def add.commute)
  have "rep_clamp (if incremental then to_i32 (gain_rate env standing + GetReputationOf env fe r)
                   else standing) = n"
    using assms(3) by (simp add: n_def new_standing_def no_overflow_def to_i32_id)
  moreover have "to_i32 (n - GetBaseReputation env fe) = n - GetBaseReputation env fe"
    using assms(3) clamp_range [of "if incremental then gain_rate env standing + GetReputationOf env fe r
      else standing"]
    by (intro to_i32_id) (simp add: n_def new_standing_def no_overflow_def is_i32_def
      Reputation_Bottom_def Reputation_Cap_def)
  ultimately show ?thesis
    using assms(1) visible_standing [of env k "set_state k (\<lambda>s. s\<lparr>Standing := n - GetBaseReputation env fe,
          needSend := True, needSave := True\<rparr>) r" j]
    by (auto simp: SetOneFactionReputation_def Let_def cur [symmetric] k_def [symmetric]
        n_def [symmetric] option.map_comp comp_def)
qed

text \<open>\<^bold>\<open>A reputation change sets the clamped sum and nothing else.\<close> For a faction of the list
  and sums that fit 32 bits, the call succeeds, the faction's reputation becomes the given
  standing (or the rated gain added to the current reputation), clamped to [-42000, 42999],
  and the standing of every other faction stays.\<close>

theorem set_reputation_clamps:
  assumes "smap_find (factions r) (word_of_int (reputationListID fe)) = Some s"
    and "CanHaveReputation fe" and "no_overflow env fe standing incremental r"
  shows "case SetOneFactionReputation env fe standing incremental r of (ok, r') \<Rightarrow>
     ok \<and>
     GetReputationOf env fe r' =
       rep_clamp (if incremental then gain_rate env standing + GetReputationOf env fe r else standing) \<and>
     Reputation_Bottom \<le> GetReputationOf env fe r' \<and> GetReputationOf env fe r' \<le> Reputation_Cap \<and>
     (\<forall>j. j = word_of_int (reputationListID fe) \<or>
          map_option Standing (smap_find (factions r') j) = map_option Standing (smap_find (factions r) j))"
proof -
  obtain ok r' where r': "SetOneFactionReputation env fe standing incremental r = (ok, r')"
    by fastforce
  have ok using r' assms(1) by (auto simp: SetOneFactionReputation_def Let_def)
  have find: "map_option Standing (smap_find (factions r') j) =
     (if j = word_of_int (reputationListID fe)
      then Some (new_standing env fe standing incremental r - GetBaseReputation env fe)
      else map_option Standing (smap_find (factions r) j))" for j
    using SetOne_find [OF assms, of j] r' by simp
  obtain s' where s': "smap_find (factions r') (word_of_int (reputationListID fe)) = Some s'"
    "Standing s' = new_standing env fe standing incremental r - GetBaseReputation env fe"
    using find [of "word_of_int (reputationListID fe)"] by auto
  let ?x = "if incremental then gain_rate env standing + GetReputationOf env fe r else standing"
  have "is_i32 (rep_clamp ?x)"
    using clamp_range [of ?x] by (simp add: is_i32_def Reputation_Bottom_def Reputation_Cap_def)
  then have "GetReputationOf env fe r' = rep_clamp ?x"
    using s' assms(2)
    by (simp add: GetReputationOf_def GetState_def GetStateById_def new_standing_def to_i32_id)
  then show ?thesis using \<open>ok\<close> find clamp_range [of ?x] by (simp add: r')
qed

text \<open>A faction with base reputation 3000 for everybody, as entry 19 of the list.\<close>

definition demo_faction :: faction_entry where
  "demo_faction = \<lparr>fe_ID = 72, reputationListID = 19, BaseRepRaceMask = [0x7FF, 0, 0, 0],
     BaseRepClassMask = [0, 0, 0, 0], BaseRepValue = [3000, 0, 0, 0],
     ReputationFlags = [1, 0, 0, 0]\<rparr>"

definition demo_faction2 :: faction_entry where
  "demo_faction2 = \<lparr>fe_ID = 19, reputationListID = 20, BaseRepRaceMask = [0x7FF, 0, 0, 0],
     BaseRepClassMask = [0, 0, 0, 0], BaseRepValue = [0, 0, 0, 0],
     ReputationFlags = [0, 0, 0, 0]\<rparr>"

definition demo_rep_env :: rep_env where
  "demo_rep_env = \<lparr>NumRows = 100,
     LookupEntry = (\<lambda>i. if i = 72 then Some demo_faction else if i = 19 then Some demo_faction2 else None),
     RaceMask = 1, ClassMask = 1, gain_rate = (\<lambda>x. x), OnReputationChange = (\<lambda>i s b. s),
     PlayerLoading = False, player_guid = 7\<rparr>"

definition demo_rep :: reputation_mgr where
  "demo_rep = new_reputation_mgr\<lparr>factions :=
     [(19, fs0\<lparr>fs_ID := 72, ReputationListID := 19, Flags := 1\<rparr>),
      (20, fs0\<lparr>fs_ID := 19, ReputationListID := 20, Standing := 500\<rparr>)],
     visibleFactionCount := 1\<rparr>"

lemmas demo_rep_simps = demo_faction_def demo_faction2_def demo_rep_env_def demo_rep_def
  new_reputation_mgr_def fs0_def smap_find_def CanHaveReputation_def GetReputationOf_def
  GetState_def GetStateById_def GetBaseReputation_def slot_fits_def no_overflow_def to_i32_def
  is_i32_def

theorem set_reputation_clamps_witness:
  "case SetOneFactionReputation demo_rep_env demo_faction 50000 True demo_rep of (ok, r') \<Rightarrow>
     ok \<and>
     GetReputationOf demo_rep_env demo_faction r' =
       rep_clamp (if True then gain_rate demo_rep_env 50000 + GetReputationOf demo_rep_env demo_faction demo_rep
                  else 50000) \<and>
     Reputation_Bottom \<le> GetReputationOf demo_rep_env demo_faction r' \<and>
     GetReputationOf demo_rep_env demo_faction r' \<le> Reputation_Cap \<and>
     (\<forall>j. j = word_of_int (reputationListID demo_faction) \<or>
          map_option Standing (smap_find (factions r') j) =
          map_option Standing (smap_find (factions demo_rep) j))"
  by (rule set_reputation_clamps) (simp_all add: demo_rep_simps)

section \<open>Counting entries\<close>

definition counts :: "('k \<Rightarrow> 'v \<Rightarrow> bool) \<Rightarrow> ('k, 'v) smap \<Rightarrow> nat" where
  "counts P m = length (filter (\<lambda>e. P (fst e) (snd e)) m)"

lemma counts_Nil [simp]: "counts P [] = 0"
  by (simp add: counts_def)

lemma counts_put_new:
  "smap_find m k = None \<Longrightarrow> counts P (smap_put k v m) = counts P m + (if P k v then 1 else 0)"
  by (induction k v m rule: smap_put.induct) (auto simp: counts_def smap_find_def split: if_splits)

lemma counts_put_old:
  assumes "map_ok m" and "smap_find m k = Some v"
  shows "counts P (smap_put k v' m) + (if P k v then 1 else 0) =
         counts P m + (if P k v' then 1 else 0)"
  using assms
proof (induction k v' m rule: smap_put.induct)
  case (2 k v' a b m)
  have absent: "smap_find m k = None" if "k < a \<or> k = a"
    using "2.prems"(1) that keys_find [of k m] by (auto simp: map_ok_Cons)
  show ?case
  proof (cases "k < a")
    case True
    then have "smap_find ((a, b) # m) k = None" using absent by (simp add: smap_find_def)
    with "2.prems"(2) show ?thesis by simp
  next
    case False
    then show ?thesis
    proof (cases "k = a")
      case True
      with "2.prems"(2) show ?thesis by (simp add: counts_def smap_find_def)
    next
      case neq: False
      then have "counts P (smap_put k v' m) + (if P k v then 1 else 0) =
          counts P m + (if P k v' then 1 else 0)"
        using "2.IH" False "2.prems" by (simp add: map_ok_Cons smap_find_def)
      then show ?thesis using False neq by (simp add: counts_def)
    qed
  qed
qed (simp add: smap_find_def)

lemma counts_put_same:
  assumes "map_ok m" and "smap_find m k = Some v" and "P k v' = P k v"
  shows "counts P (smap_put k v' m) = counts P m"
  using counts_put_old [OF assms(1,2), of P v'] assms(3) by simp

section \<open>The counters are exact\<close>

text \<open>
  \<open>base k\<close> is the base reputation of the faction in list entry \<open>k\<close>. \<open>ranked base a b r\<close>: each
  rank counter is the number of factions of at least that rank (modulo 256), once a change from
  rank \<open>a\<close> to rank \<open>b\<close> is counted.
\<close>

definition at_least :: "(u32 \<Rightarrow> int) \<Rightarrow> reputation_rank \<Rightarrow> u32 \<Rightarrow> faction_state \<Rightarrow> bool" where
  "at_least base R k s \<longleftrightarrow> R \<le> ReputationToRank (to_i32 (Standing s + base k))"

definition counted :: "(u32 \<Rightarrow> int) \<Rightarrow> reputation_rank \<Rightarrow> reputation_mgr \<Rightarrow> u8" where
  "counted base R r = word_of_nat (counts (at_least base R) (factions r))"

definition one_if :: "bool \<Rightarrow> u8" where
  "one_if b = (if b then 1 else 0)"

definition ranked ::
  "(u32 \<Rightarrow> int) \<Rightarrow> reputation_rank \<Rightarrow> reputation_rank \<Rightarrow> reputation_mgr \<Rightarrow> bool" where
  "ranked base a b r \<longleftrightarrow>
     counted base REP_HONORED r = honoredFactionCount r - one_if (REP_HONORED \<le> a) + one_if (REP_HONORED \<le> b) \<and>
     counted base REP_REVERED r = reveredFactionCount r - one_if (REP_REVERED \<le> a) + one_if (REP_REVERED \<le> b) \<and>
     counted base REP_EXALTED r = exaltedFactionCount r - one_if (REP_EXALTED \<le> a) + one_if (REP_EXALTED \<le> b)"

definition rep_mid ::
  "(u32 \<Rightarrow> int) \<Rightarrow> reputation_rank \<Rightarrow> reputation_rank \<Rightarrow> reputation_mgr \<Rightarrow> bool" where
  "rep_mid base a b r \<longleftrightarrow>
     map_ok (factions r) \<and>
     visibleFactionCount r = word_of_nat (counts (\<lambda>k. shown) (factions r)) \<and>
     ranked base a b r"

definition rep_ok :: "(u32 \<Rightarrow> int) \<Rightarrow> reputation_mgr \<Rightarrow> bool" where
  "rep_ok base r \<longleftrightarrow> rep_mid base REP_HATED REP_HATED r"

lemma ranked_update: "ranked base a b r \<Longrightarrow> ranked base REP_HATED REP_HATED (UpdateRankCounters a b r)"
  by (auto simp: ranked_def UpdateRankCounters_def Let_def one_if_def counted_def
      less_eq_reputation_rank_def)

lemma counts_put_word:
  assumes "map_ok m" and "smap_find m k = Some v"
  shows "(word_of_nat (counts P (smap_put k v' m)) :: u8) =
         word_of_nat (counts P m) - one_if (P k v) + one_if (P k v')"
proof -
  have "(word_of_nat (counts P (smap_put k v' m) + (if P k v then 1 else 0)) :: u8) =
        word_of_nat (counts P m + (if P k v' then 1 else 0))"
    by (simp only: counts_put_old [OF assms])
  then show ?thesis by (simp add: one_if_def split: if_splits) (simp_all add: algebra_simps)
qed

lemma set_state_Some:
  "smap_find (factions r) k = Some s \<Longrightarrow> set_state k f r = r\<lparr>factions := smap_put k (f s) (factions r)\<rparr>"
  by (simp add: set_state_def)

lemma set_state_None: "smap_find (factions r) k = None \<Longrightarrow> set_state k f r = r"
  by (simp add: set_state_def)

lemma rep_mid_cong:
  assumes "factions c = factions r" and "visibleFactionCount c = visibleFactionCount r"
    and "honoredFactionCount c = honoredFactionCount r"
    and "reveredFactionCount c = reveredFactionCount r"
    and "exaltedFactionCount c = exaltedFactionCount r"
  shows "rep_mid base a b c = rep_mid base a b r"
  using assms by (simp add: rep_mid_def ranked_def counted_def)

lemma rep_mid_emit [simp]: "rep_mid base a b (rep_emit e r) = rep_mid base a b r"
  by (rule rep_mid_cong) simp_all

lemma rep_mid_increased [simp]:
  "rep_mid base a b (r\<lparr>sendFactionIncreased := x\<rparr>) = rep_mid base a b r"
  by (rule rep_mid_cong) simp_all

lemma set_state_keeps:
  assumes "rep_mid base a b r" and "\<And>s. Standing (f s) = Standing s" and "\<And>s. shown (f s) = shown s"
  shows "rep_mid base a b (set_state k f r)"
proof (cases "smap_find (factions r) k")
  case (Some s)
  have "counts P (smap_put k (f s) (factions r)) = counts P (factions r)"
    if "P k (f s) = P k s" for P
    using assms(1) that by (intro counts_put_same [OF _ Some]) (simp_all add: rep_mid_def)
  then show ?thesis
    using assms by (simp add: set_state_Some [OF Some] rep_mid_def ranked_def counted_def at_least_def)
qed (simp add: set_state_None assms)

lemma SetVisible_keeps:
  assumes "rep_mid base a b r"
  shows "rep_mid base a b (SetVisibleState env k r)"
proof (cases "smap_find (factions r) k")
  case None
  then show ?thesis using assms by (simp add: SetVisibleState_def)
next
  case (Some s)
  define s' where "s' = s\<lparr>Flags := set_flag (Flags s) FACTION_FLAG_VISIBLE, needSend := True,
                         needSave := True\<rparr>"
  have ok: "map_ok (factions r)" using assms by (simp add: rep_mid_def)
  have levels: "counts (at_least base R) (smap_put k s' (factions r)) =
      counts (at_least base R) (factions r)" for R
    using ok Some by (rule counts_put_same) (simp add: at_least_def s'_def)
  have "shown s'" by (simp add: shown_def s'_def)
  then have "rep_mid base a b (r\<lparr>factions := smap_put k s' (factions r),
                            visibleFactionCount := visibleFactionCount r + 1\<rparr>)"
    if "\<not> shown s"
    using that assms ok counts_put_word [OF ok Some, of "\<lambda>k. shown" s']
    by (simp add: rep_mid_def ranked_def counted_def levels) (simp add: one_if_def)
  then show ?thesis
    using assms
    by (simp add: SetVisibleState_def Some Let_def SendVisible_def set_state_Some [OF Some] shown_def
        flip: s'_def)
qed

lemma SetStanding_ranked:
  assumes "rep_mid base c c r" and "smap_find (factions r) k = Some s"
    and "shown (f s) = shown s"
  shows "rep_mid base (ReputationToRank (to_i32 (Standing s + base k)))
           (ReputationToRank (to_i32 (Standing (f s) + base k))) (set_state k f r)"
proof -
  have ok: "map_ok (factions r)" using assms(1) by (simp add: rep_mid_def)
  have "counts (\<lambda>k. shown) (smap_put k (f s) (factions r)) = counts (\<lambda>k. shown) (factions r)"
    by (rule counts_put_same [OF ok assms(2)]) (simp add: assms(3))
  then show ?thesis
    using assms(1) ok
    by (simp add: set_state_Some [OF assms(2)] rep_mid_def ranked_def counted_def
        counts_put_word [OF ok assms(2)]) (simp add: at_least_def)
qed

lemma rep_mid_ranks: "rep_mid base a b r \<Longrightarrow> rep_ok base (UpdateRankCounters a b r)"
  by (simp add: rep_ok_def rep_mid_def ranked_update)

text \<open>The entries of the faction table agree on the base reputation of their list entry.\<close>

definition base_of :: "rep_env \<Rightarrow> (u32 \<Rightarrow> int) \<Rightarrow> faction_entry \<Rightarrow> bool" where
  "base_of env base fe \<longleftrightarrow>
     base (word_of_int (reputationListID fe)) = GetBaseReputation env fe \<and>
     - 1000000 \<le> GetBaseReputation env fe \<and> GetBaseReputation env fe \<le> 1000000"

lemma SetOne_keeps:
  assumes "rep_ok base r" and "base_of env base fe"
  shows "rep_ok base (snd (SetOneFactionReputation env fe standing incremental r))"
proof (cases "smap_find (factions r) (word_of_int (reputationListID fe))")
  case None
  then show ?thesis using assms(1) by (simp add: SetOneFactionReputation_def Let_def)
next
  case (Some s)
  define k where "k = (word_of_int (reputationListID fe) :: u32)"
  have base: "GetBaseReputation env fe = base k" using assms(2) by (simp add: base_of_def k_def)
  define n where "n = rep_clamp (if incremental
     then to_i32 (gain_rate env standing + to_i32 (Standing s + base k)) else standing)"
  define m where "m = to_i32 (n - base k)"
  have range: "Reputation_Bottom \<le> n" "n \<le> Reputation_Cap"
    using clamp_range by (simp_all add: n_def)
  have "to_i32 (m + base k) = n"
    using range assms(2) base
    by (simp add: m_def to_i32_id is_i32_def base_of_def Reputation_Bottom_def Reputation_Cap_def)
  then have "rep_mid base (ReputationToRank (to_i32 (Standing s + base k))) (ReputationToRank n)
      (set_state k (\<lambda>s. s\<lparr>Standing := m, needSend := True, needSave := True\<rparr>) r)" (is "rep_mid base ?old ?new ?r1")
    using SetStanding_ranked [of base REP_HATED r k s
        "\<lambda>s. s\<lparr>Standing := m, needSend := True, needSave := True\<rparr>"] assms(1) Some
    by (simp add: rep_ok_def k_def shown_def)
  then have "rep_mid base ?old ?new (SetVisibleState env k ?r1)" (is "rep_mid _ _ _ ?r2")
    by (rule SetVisible_keeps)
  then have r3: "rep_mid base ?old ?new (if ?new \<le> REP_HOSTILE then set_state k (SetAtWarState True) ?r2 else ?r2)"
    (is "rep_mid _ _ _ ?r3") by (simp add: set_state_keeps)
  have "rep_mid base ?old ?new (if ?new > ?old then ?r3\<lparr>sendFactionIncreased := True\<rparr> else ?r3)"
    (is "rep_mid _ _ _ ?r4") using r3 by (simp only: rep_mid_increased if_cancel split: if_split) simp
  then have "rep_ok base (UpdateRankCounters ?old ?new ?r4)" by (rule rep_mid_ranks)
  moreover have "snd (SetOneFactionReputation env fe standing incremental r) =
      rep_emit (ReputationChanged (fe_ID fe)) (UpdateRankCounters ?old ?new ?r4)"
    by (simp only: SetOneFactionReputation_def Let_def k_def [symmetric] Some [folded k_def]
        option.case base n_def [symmetric] m_def [symmetric] snd_conv)
  ultimately show ?thesis by (simp add: rep_ok_def)
qed

subsection \<open>Writing every state\<close>

lemma map_values_ok: "map_ok (map (\<lambda>(k, s). (k, g s)) m) = map_ok m"
  by (simp add: map_ok_def comp_def case_prod_unfold)

lemma find_map_values: "smap_find (map (\<lambda>(k, s). (k, g s)) m) k = map_option g (smap_find m k)"
  by (induction m) (auto simp: smap_find_def)

lemma counts_map_values:
  "(\<And>k s. P k (g s) = P k s) \<Longrightarrow> counts P (map (\<lambda>(k, s). (k, g s)) m) = counts P m"
  by (induction m) (auto simp: counts_def)

lemma write_all_keeps:
  assumes "rep_ok base r" and "factions c = map (\<lambda>(k, s). (k, g s)) (factions r)"
    and "\<And>s. Standing (g s) = Standing s" and "\<And>s. Flags (g s) = Flags s"
    and "visibleFactionCount c = visibleFactionCount r"
    and "honoredFactionCount c = honoredFactionCount r"
    and "reveredFactionCount c = reveredFactionCount r"
    and "exaltedFactionCount c = exaltedFactionCount r"
  shows "rep_ok base c"
  using assms
  by (simp add: rep_ok_def rep_mid_def ranked_def counted_def map_values_ok counts_map_values
      shown_def at_least_def)

lemma SendState_keeps: "rep_ok base r \<Longrightarrow> rep_ok base (SendState f r)"
  by (erule write_all_keeps [where g = "\<lambda>s. if needSend s then s\<lparr>needSend := False\<rparr> else s"])
    (simp_all add: SendState_def Let_def split: prod.split)

lemma SendInitial_keeps: "rep_ok base r \<Longrightarrow> rep_ok base (SendInitialReputations r)"
  by (erule write_all_keeps [where g = "\<lambda>s. s\<lparr>needSend := False\<rparr>"])
    (simp_all add: SendInitialReputations_def Let_def split: prod.split)

lemma Save_keeps: "rep_ok base r \<Longrightarrow> rep_ok base (snd (rep_SaveToDB env r))"
  by (erule write_all_keeps [where g = "\<lambda>s. snd (save_state (player_guid env) s)"])
    (simp_all add: rep_SaveToDB_def save_state_def)

lemma SetReputation_keeps:
  assumes "rep_ok base r" and "base_of env base fe"
  shows "rep_ok base (snd (SetReputationFull env fe standing incremental only r))"
  using SetOne_keeps [OF assms] assms(1)
  by (auto simp: SetReputationFull_def Let_def SendState_keeps split: option.split prod.split)
    (metis SendState_keeps snd_conv)+

subsection \<open>The initial state and the saved rows\<close>

text \<open>
  What the client data promises: row 0 is no faction, a row found is within the table, two
  rows with a list entry have different ones, and \<open>base\<close> gives their base reputations.
\<close>

definition table_ok :: "rep_env \<Rightarrow> (u32 \<Rightarrow> int) \<Rightarrow> bool" where
  "table_ok env base \<longleftrightarrow>
     (\<forall>i fe. LookupEntry env i = Some fe \<longrightarrow> 0 < unat i \<and> unat i < NumRows env) \<and>
     NumRows env < 2 ^ 32 \<and>
     (\<forall>i fe. LookupEntry env i = Some fe \<longrightarrow> CanHaveReputation fe \<longrightarrow> base_of env base fe) \<and>
     (\<forall>i j fi fj. LookupEntry env i = Some fi \<longrightarrow> LookupEntry env j = Some fj \<longrightarrow>
        CanHaveReputation fi \<longrightarrow> CanHaveReputation fj \<longrightarrow>
        (word_of_int (reputationListID fi) :: u32) = word_of_int (reputationListID fj) \<longrightarrow> i = j)"

lemma init_keeps:
  assumes "rep_ok base r" and "base_of env base fe"
    and "smap_find (factions r) (word_of_int (reputationListID fe)) = None"
  shows "rep_ok base (init_faction env fe r)"
proof -
  have "to_i32 (GetBaseReputation env fe) = GetBaseReputation env fe"
    using assms(2) by (simp add: base_of_def is_i32_def to_i32_id)
  then show ?thesis
    using assms
    by (auto simp: init_faction_def Let_def rep_ok_def rep_mid_def ranked_def counted_def
        counts_put_new at_least_def shown_def base_of_def GetBaseRank_def UpdateRankCounters_def
        one_if_def less_eq_reputation_rank_def)
qed

definition listed :: "rep_env \<Rightarrow> nat \<Rightarrow> u32 \<Rightarrow> bool" where
  "listed env n k \<longleftrightarrow>
     (\<exists>i fe. 0 < i \<and> i < n \<and> LookupEntry env (word_of_nat i) = Some fe \<and> CanHaveReputation fe \<and>
             k = word_of_int (reputationListID fe))"

definition fresh :: "rep_env \<Rightarrow> (u32 \<Rightarrow> int) \<Rightarrow> nat \<Rightarrow> reputation_mgr \<Rightarrow> bool" where
  "fresh env base n r \<longleftrightarrow>
     rep_ok base r \<and> (\<forall>k. smap_find (factions r) k \<noteq> None \<longleftrightarrow> listed env n k) \<and>
     (\<forall>k s. smap_find (factions r) k = Some s \<longrightarrow> Standing s = 0)"

definition init_row :: "rep_env \<Rightarrow> nat \<Rightarrow> reputation_mgr \<Rightarrow> reputation_mgr" where
  "init_row env i r = (case LookupEntry env (word_of_nat i) of
       None \<Rightarrow> r | Some fe \<Rightarrow> if reputationListID fe \<ge> 0 then init_faction env fe r else r)"

lemma listed_Suc:
  "0 < n \<Longrightarrow> listed env (Suc n) k \<longleftrightarrow> listed env n k \<or>
     (case LookupEntry env (word_of_nat n) of None \<Rightarrow> False
      | Some fe \<Rightarrow> CanHaveReputation fe \<and> k = word_of_int (reputationListID fe))"
  by (auto simp: listed_def less_Suc_eq split: option.split)

lemma init_factions:
  "factions (init_faction env fe r) =
     smap_put (word_of_int (reputationListID fe))
       \<lparr>fs_ID = fe_ID fe, ReputationListID = word_of_int (reputationListID fe),
        Standing = 0, Flags = ucast (GetDefaultStateFlags env fe), needSend = True,
        needSave = True, needDelete = False\<rparr> (factions r)"
  by (simp add: init_faction_def Let_def)

lemma init_row_fresh:
  assumes "fresh env base n r" and "table_ok env base" and "0 < n" and "n < NumRows env"
  shows "fresh env base (Suc n) (init_row env n r)"
proof (cases "LookupEntry env (word_of_nat n)")
  case None
  then show ?thesis using assms(1) by (simp add: init_row_def fresh_def listed_Suc assms(3))
next
  case (Some fe)
  show ?thesis
  proof (cases "CanHaveReputation fe")
    case False
    then have "\<not> reputationListID fe \<ge> 0" by (simp add: CanHaveReputation_def)
    then show ?thesis using assms(1) Some False
      by (simp add: init_row_def fresh_def listed_Suc assms(3))
  next
    case True
    then have pos: "reputationListID fe \<ge> 0" by (simp add: CanHaveReputation_def)
    have "\<not> listed env n (word_of_int (reputationListID fe))"
    proof
      assume "listed env n (word_of_int (reputationListID fe))"
      then obtain i fi where i: "i < n" "LookupEntry env (word_of_nat i) = Some fi"
        "CanHaveReputation fi" "(word_of_int (reputationListID fe) :: u32) = word_of_int (reputationListID fi)"
        by (auto simp: listed_def)
      with Some True assms(2) have "(word_of_nat i :: u32) = word_of_nat n"
        unfolding table_ok_def by metis
      then have "unat (word_of_nat i :: u32) = unat (word_of_nat n :: u32)" by simp
      moreover have "n < 2 ^ 32" using assms(2,4) by (simp add: table_ok_def)
      ultimately have "i = n" using i(1) by (simp add: unat_of_nat)
      with i(1) show False by simp
    qed
    then have new: "smap_find (factions r) (word_of_int (reputationListID fe)) = None"
      using assms(1) by (auto simp: fresh_def)
    have "base_of env base fe" using assms(2) Some True by (auto simp: table_ok_def)
    then have "rep_ok base (init_faction env fe r)"
      using assms(1) new by (simp add: init_keeps fresh_def)
    then show ?thesis
      using assms(1) Some True pos
      by (simp add: init_row_def fresh_def listed_Suc assms(3) init_factions)
  qed
qed

lemma Initialize_fresh:
  assumes "table_ok env base"
  shows "fresh env base (NumRows env) (rep_Initialize env r)"
proof -
  define r0 where "r0 = r\<lparr>factions := [], visibleFactionCount := 0, honoredFactionCount := 0,
          reveredFactionCount := 0, exaltedFactionCount := 0, sendFactionIncreased := False\<rparr>"
  have start: "fresh env base n r0" if "n \<le> 1" for n
    using that by (auto simp: fresh_def r0_def rep_ok_def rep_mid_def ranked_def counted_def
        one_if_def less_eq_reputation_rank_def listed_def)
  have "fresh env base n (fold (init_row env) [1..<n] r0)" if "n \<le> NumRows env" for n
    using that
  proof (induction n)
    case 0
    show ?case using start [of 0] by simp
  next
    case (Suc n)
    show ?case
    proof (cases "n = 0")
      case True
      then show ?thesis using start [of 1] by simp
    next
      case False
      then have "[1..<Suc n] = [1..<n] @ [n]" by simp
      moreover have "fresh env base (Suc n) (init_row env n (fold (init_row env) [1..<n] r0))"
        using Suc False assms by (intro init_row_fresh) simp_all
      ultimately show ?thesis by simp
    qed
  qed
  from this [of "NumRows env"] show ?thesis
    unfolding rep_Initialize_def r0_def [symmetric] init_row_def [abs_def] by simp
qed

text \<open>The rows still to be loaded meet entries whose standing is still zero.\<close>

definition row_key :: "rep_env \<Rightarrow> u16 \<Rightarrow> u32 option" where
  "row_key env f0 = (case LookupEntry env (ucast f0) of None \<Rightarrow> None
     | Some fe \<Rightarrow> if CanHaveReputation fe then Some (word_of_int (reputationListID fe)) else None)"

definition loadable :: "rep_env \<Rightarrow> (u32 \<Rightarrow> int) \<Rightarrow> u16 list \<Rightarrow> reputation_mgr \<Rightarrow> bool" where
  "loadable env base ids r \<longleftrightarrow>
     rep_ok base r \<and>
     (\<forall>f0 \<in> set ids. \<forall>k. row_key env f0 = Some k \<longrightarrow>
        (\<exists>s. smap_find (factions r) k = Some s \<and> Standing s = 0))"

lemma ucast_16_32_inj: "(ucast (a :: u16) :: u32) = ucast b \<Longrightarrow> a = b"
  by transfer (simp add: take_bit_eq_mod)

lemma row_key_inj:
  assumes "table_ok env base" and "row_key env a = Some k" and "row_key env b = Some k"
  shows "a = b"
proof -
  obtain fa fb where "LookupEntry env (ucast a) = Some fa" "LookupEntry env (ucast b) = Some fb"
    "CanHaveReputation fa" "CanHaveReputation fb"
    "(word_of_int (reputationListID fa) :: u32) = word_of_int (reputationListID fb)"
    using assms(2,3) by (auto simp: row_key_def split: option.splits if_splits)
  with assms(1) have "(ucast a :: u32) = ucast b" unfolding table_ok_def by metis
  then show ?thesis by (rule ucast_16_32_inj)
qed

text \<open>The flag part of \<open>load_row\<close> writes the entry of \<open>k\<close> and keeps the invariant.\<close>

definition load_flags :: "rep_env \<Rightarrow> faction_entry \<Rightarrow> u32 \<Rightarrow> u32 \<Rightarrow> reputation_mgr \<Rightarrow> reputation_mgr" where
  "load_flags env fe k dbFactionFlags r =
     (let r = (if has_flag dbFactionFlags (ucast FACTION_FLAG_VISIBLE)
               then SetVisibleState env k r else r);
          r = (if has_flag dbFactionFlags (ucast FACTION_FLAG_INACTIVE)
               then set_state k (SetInactiveState True) r else r);
          r = (if has_flag dbFactionFlags (ucast FACTION_FLAG_AT_WAR)
               then set_state k (SetAtWarState True) r
               else set_state k (\<lambda>s. if has_flag (Flags s) FACTION_FLAG_VISIBLE
                                       then SetAtWarState False s else s) r);
          r = (if GetRank env fe r \<le> REP_HOSTILE then set_state k (SetAtWarState True) r else r)
      in set_state k (\<lambda>s. if (ucast (Flags s) :: u32) = dbFactionFlags
                           then s\<lparr>needSend := False, needSave := False\<rparr> else s) r)"

lemma rep_mid_if: "rep_mid base a b x \<Longrightarrow> rep_mid base a b y \<Longrightarrow> rep_mid base a b (if c then x else y)"
  by simp

lemma shown_needs [simp]: "shown (s\<lparr>needSend := a, needSave := b\<rparr>) = shown s"
  by (simp add: shown_def)

lemma load_flags_keeps: "rep_ok base r \<Longrightarrow> rep_ok base (load_flags env fe k db r)"
  unfolding load_flags_def Let_def rep_ok_def
  by (intro rep_mid_if set_state_keeps SetVisible_keeps) simp_all

lemma visible_other: "j \<noteq> k \<Longrightarrow> smap_find (factions (SetVisibleState env k r)) j = smap_find (factions r) j"
  by (simp add: visible_find)

lemma load_flags_other:
  "j \<noteq> k \<Longrightarrow> smap_find (factions (load_flags env fe k db r)) j = smap_find (factions r) j"
  by (simp add: load_flags_def Let_def visible_other)

lemma load_row_flags:
  assumes "LookupEntry env (ucast f0) = Some fe" and "CanHaveReputation fe"
    and "smap_find (factions r) (word_of_int (reputationListID fe)) = Some s"
  shows "load_row env (f0, f1, f2) r =
     load_flags env fe (word_of_int (reputationListID fe)) (ucast f2)
       (UpdateRankCounters (ReputationToRank (GetBaseReputation env fe))
          (ReputationToRank (to_i32 (GetBaseReputation env fe + f1)))
          (set_state (word_of_int (reputationListID fe)) (\<lambda>s. s\<lparr>Standing := f1\<rparr>) r))"
proof -
  have pos: "(\<not> reputationListID fe \<ge> 0) = False" using assms(2) by (simp add: CanHaveReputation_def)
  have put: "r\<lparr>factions := smap_modify fs0 (word_of_int (reputationListID fe))
                 (\<lambda>s. s\<lparr>Standing := f1\<rparr>) (factions r)\<rparr> =
      set_state (word_of_int (reputationListID fe)) (\<lambda>s. s\<lparr>Standing := f1\<rparr>) r"
    using assms(3) by (simp add: set_state_Some smap_modify_def)
  show ?thesis
    by (simp only: load_row_def prod.case assms(1) option.case pos if_False Let_def put load_flags_def)
qed

lemma load_row_keeps:
  assumes "loadable env base (f0 # ids) r" and "table_ok env base" and "f0 \<notin> set ids"
  shows "loadable env base ids (load_row env (f0, f1, f2) r)"
proof (cases "row_key env f0")
  case None
  then have "load_row env (f0, f1, f2) r = r"
    by (auto simp: load_row_def row_key_def CanHaveReputation_def split: option.splits if_splits)
  with assms(1) show ?thesis by (simp add: loadable_def)
next
  case (Some k)
  then obtain fe where fe: "LookupEntry env (ucast f0) = Some fe" "CanHaveReputation fe"
    "k = word_of_int (reputationListID fe)"
    by (auto simp: row_key_def split: option.splits if_splits)
  from assms(1) Some obtain s where s: "smap_find (factions r) k = Some s" "Standing s = 0"
    by (auto simp: loadable_def)
  have base: "base_of env base fe" using assms(2) fe by (auto simp: table_ok_def)
  define r1 where "r1 = set_state k (\<lambda>s. s\<lparr>Standing := f1\<rparr>) r"
  define r2 where "r2 = UpdateRankCounters (ReputationToRank (GetBaseReputation env fe))
          (ReputationToRank (to_i32 (GetBaseReputation env fe + f1))) r1"
  have load: "load_row env (f0, f1, f2) r = load_flags env fe k (ucast f2) r2"
    using load_row_flags [OF fe(1,2)] s(1) fe(3) by (simp add: r2_def r1_def)
  have "to_i32 (GetBaseReputation env fe) = GetBaseReputation env fe"
    using base by (simp add: base_of_def is_i32_def to_i32_id)
  then have "rep_mid base (ReputationToRank (GetBaseReputation env fe))
          (ReputationToRank (to_i32 (GetBaseReputation env fe + f1))) r1"
    using SetStanding_ranked [of base REP_HATED r k s "\<lambda>s. s\<lparr>Standing := f1\<rparr>"] assms(1) s base fe(3)
    by (simp add: r1_def loadable_def rep_ok_def shown_def base_of_def add.commute)
  then have "rep_ok base r2" unfolding r2_def by (rule rep_mid_ranks)
  then have ok: "rep_ok base (load_flags env fe k (ucast f2) r2)" by (rule load_flags_keeps)
  have other: "smap_find (factions (load_flags env fe k (ucast f2) r2)) j = smap_find (factions r) j"
    if "j \<noteq> k" for j
    using that by (simp add: load_flags_other r2_def r1_def)
  have keep: "\<exists>s. smap_find (factions (load_flags env fe k (ucast f2) r2)) j = Some s \<and> Standing s = 0"
    if "g \<in> set ids" and "row_key env g = Some j" for g j
  proof -
    have "j \<noteq> k" using row_key_inj [OF assms(2) Some, of g] that assms(3) by auto
    then show ?thesis using assms(1) that by (simp add: other loadable_def)
  qed
  show ?thesis unfolding load loadable_def using ok keep by blast
qed

lemma load_rows_keep:
  assumes "loadable env base (map fst rows) r" and "table_ok env base" and "distinct (map fst rows)"
  shows "rep_ok base (fold (load_row env) rows r)"
  using assms
proof (induction rows arbitrary: r)
  case Nil
  then show ?case by (simp add: loadable_def)
next
  case (Cons row rows)
  obtain f0 f1 f2 where row: "row = (f0, f1, f2)" by (cases row)
  have "loadable env base (map fst rows) (load_row env row r)"
    using load_row_keeps [of env base f0 "map fst rows"] Cons.prems by (auto simp: row)
  with Cons show ?case by simp
qed

lemma fresh_loadable:
  assumes "fresh env base (NumRows env) r" and "table_ok env base"
  shows "loadable env base ids r"
proof -
  have "\<exists>s. smap_find (factions r) k = Some s \<and> Standing s = 0" if key: "row_key env f0 = Some k" for f0 k
  proof -
    obtain fe where fe: "LookupEntry env (ucast f0) = Some fe" "CanHaveReputation fe"
      "k = word_of_int (reputationListID fe)"
      using key by (auto simp: row_key_def split: option.splits if_splits)
    then have "0 < unat (ucast f0 :: u32)" "unat (ucast f0 :: u32) < NumRows env"
      using assms(2) unfolding table_ok_def by metis+
    then have "listed env (NumRows env) k"
      unfolding listed_def using fe by (intro exI [of _ "unat (ucast f0 :: u32)"] exI [of _ fe]) simp
    then show ?thesis using assms(1) unfolding fresh_def by (metis option.exhaust)
  qed
  then show ?thesis using assms(1) by (auto simp: loadable_def fresh_def)
qed

lemma LoadFromDB_ok:
  assumes "table_ok env base" and "distinct (map fst rows)"
  shows "rep_ok base (rep_LoadFromDB env (Some rows) r)"
  using load_rows_keep [OF fresh_loadable [OF Initialize_fresh [OF assms(1)] assms(1)] assms]
  by (simp add: rep_LoadFromDB_def Let_def)

subsection \<open>Sequences of operations\<close>

datatype rep_call =
    RepLoad "(u16 \<times> int \<times> u16) list"
  | RepSet faction_entry int bool bool
  | RepSetVisible faction_entry
  | RepSetVisibleTemplate u32
  | RepSetAtWar u32 bool
  | RepSetInactive u32 bool
  | RepForce u32 reputation_rank bool
  | RepSwap u32 u32
  | RepSendInitial
  | RepSendForce
  | RepSave

fun rep_exec :: "rep_env \<Rightarrow> reputation_mgr \<Rightarrow> rep_call \<Rightarrow> reputation_mgr" where
  "rep_exec env r (RepLoad rows) = rep_LoadFromDB env (Some rows) r"
| "rep_exec env r (RepSet fe standing incremental only) =
     snd (SetReputationFull env fe standing incremental only r)"
| "rep_exec env r (RepSetVisible fe) = SetVisibleEntry env fe r"
| "rep_exec env r (RepSetVisibleTemplate f) = SetVisibleTemplate env f r"
| "rep_exec env r (RepSetAtWar k on) = SetAtWar k on r"
| "rep_exec env r (RepSetInactive k on) = SetInactive k on r"
| "rep_exec env r (RepForce f rank b) = ApplyForceReaction f rank b r"
| "rep_exec env r (RepSwap a b) = SwapFactionReputation env a b r"
| "rep_exec env r RepSendInitial = SendInitialReputations r"
| "rep_exec env r RepSendForce = SendForceReactions r"
| "rep_exec env r RepSave = snd (rep_SaveToDB env r)"

text \<open>
  Calls the client data allows: saved rows name distinct factions (the table's primary key),
  and a faction whose standing is set or swapped is one of the table with a list entry.
\<close>

definition in_table :: "rep_env \<Rightarrow> faction_entry \<Rightarrow> bool" where
  "in_table env fe \<longleftrightarrow> LookupEntry env (fe_ID fe) = Some fe \<and> CanHaveReputation fe"

fun rep_allowed :: "rep_env \<Rightarrow> rep_call \<Rightarrow> bool" where
  "rep_allowed env (RepLoad rows) = distinct (map fst rows)"
| "rep_allowed env (RepSet fe standing incremental only) = in_table env fe"
| "rep_allowed env (RepSwap a b) =
     (\<forall>i \<in> {a, b}. case LookupEntry env i of None \<Rightarrow> True | Some fe \<Rightarrow> in_table env fe)"
| "rep_allowed env _ = True"

lemma SetVisibleState_ok: "rep_ok base r \<Longrightarrow> rep_ok base (SetVisibleState env k r)"
  by (simp add: rep_ok_def SetVisible_keeps)

lemma table_base: "table_ok env base \<Longrightarrow> in_table env fe \<Longrightarrow> base_of env base fe"
  by (auto simp: table_ok_def in_table_def)

lemma Swap_keeps:
  assumes "rep_ok base r" and "table_ok env base" and "rep_allowed env (RepSwap a b)"
  shows "rep_ok base (SwapFactionReputation env a b r)"
  using assms
  by (auto simp: SwapFactionReputation_def SetReputation_def Let_def
      intro!: SetReputation_keeps table_base [of env base] split: option.splits)

lemma rep_exec_keeps:
  assumes "table_ok env base" and "rep_ok base r" and "rep_allowed env c"
  shows "rep_ok base (rep_exec env r c)"
proof (cases c)
  case (RepSet fe standing incremental only)
  with assms show ?thesis by (simp add: SetReputation_keeps table_base)
next
  case (RepSetInactive k on)
  with assms show ?thesis by (simp add: SetInactive_def rep_ok_def set_state_keeps)
next
  case (RepSetAtWar k on)
  with assms show ?thesis
    by (simp add: SetAtWar_def rep_ok_def set_state_keeps split: option.split)
next
  case (RepForce f rank b)
  have "rep_mid base c d (r\<lparr>forcedReactions := x\<rparr>) = rep_mid base c d r" for c d x
    by (rule rep_mid_cong) simp_all
  with RepForce assms show ?thesis by (simp add: ApplyForceReaction_def rep_ok_def)
next
  case (RepLoad rows)
  with assms show ?thesis by (simp add: LoadFromDB_ok)
next
  case (RepSwap a b)
  with assms Swap_keeps [OF assms(2,1), of a b] show ?thesis by simp
next
  case RepSendForce
  with assms show ?thesis by (simp add: SendForceReactions_def rep_ok_def Let_def)
qed (use assms in \<open>auto simp: SetVisibleEntry_def SetVisibleTemplate_def SetVisibleState_ok
  SendInitial_keeps Save_keeps split: option.split\<close>)

interpretation rep: stateful "rep_exec env" "rep_allowed env" "\<lambda>r. table_ok env base \<longrightarrow> rep_ok base r"
  for env base
  by unfold_locales (simp add: rep_exec_keeps)

text \<open>C12: \<^bold>\<open>The counters are exact.\<close> After the reputations are loaded from distinct saved rows
  and after any later operations but a drop, the visible counter is the number of factions
  with the visible flag and each rank counter is the number of factions at that rank or
  above, modulo 256; the factions are in ascending order of their list entries.\<close>

theorem counters_exact:
  assumes "table_ok env base" and "distinct (map fst rows)" and "list_all (rep_allowed env) calls"
  shows "let r = run (rep_exec env) (rep_LoadFromDB env (Some rows) r0) calls;
             at = (\<lambda>R. word_of_nat (length (filter (\<lambda>(k, s). R \<le> ReputationToRank (to_i32 (Standing s + base k)))
                                              (factions r))) :: u8)
         in map_ok (factions r) \<and>
            visibleFactionCount r = word_of_nat (length (filter (\<lambda>(k, s).
               has_flag (Flags s) FACTION_FLAG_VISIBLE) (factions r))) \<and>
            honoredFactionCount r = at REP_HONORED \<and>
            reveredFactionCount r = at REP_REVERED \<and>
            exaltedFactionCount r = at REP_EXALTED"
proof -
  have "rep_ok base (run (rep_exec env) (rep_LoadFromDB env (Some rows) r0) calls)"
    using rep.run_keeps [of env base, OF _ assms(3)] LoadFromDB_ok [OF assms(1,2)] assms(1) by blast
  then show ?thesis
    by (simp add: Let_def rep_ok_def rep_mid_def ranked_def counted_def counts_def at_least_def
        shown_def one_if_def case_prod_unfold less_eq_reputation_rank_def)
qed

text \<open>Concrete: faction 72 is loaded as exalted (39999 above its base 3000) and then lowered to 100.\<close>

definition demo_base :: "u32 \<Rightarrow> int" where
  "demo_base k = (if k = 19 then 3000 else 0)"

lemma demo_table_ok: "table_ok demo_rep_env demo_base"
  by (auto simp: table_ok_def demo_rep_env_def demo_faction_def demo_faction2_def base_of_def
      demo_base_def GetBaseReputation_def slot_fits_def CanHaveReputation_def split: if_splits)

theorem counters_exact_witness:
  "let r = run (rep_exec demo_rep_env) (rep_LoadFromDB demo_rep_env (Some [(72, 39999, 1)]) new_reputation_mgr)
             [RepSet demo_faction 100 False False, RepSave];
       at = (\<lambda>R. word_of_nat (length (filter (\<lambda>(k, s). R \<le> ReputationToRank (to_i32 (Standing s + demo_base k)))
                                        (factions r))) :: u8)
   in map_ok (factions r) \<and>
      visibleFactionCount r = word_of_nat (length (filter (\<lambda>(k, s).
         has_flag (Flags s) FACTION_FLAG_VISIBLE) (factions r))) \<and>
      honoredFactionCount r = at REP_HONORED \<and>
      reveredFactionCount r = at REP_REVERED \<and>
      exaltedFactionCount r = at REP_EXALTED"
  by (rule counters_exact [OF demo_table_ok])
    (simp_all add: in_table_def demo_rep_env_def demo_faction_def CanHaveReputation_def)

section \<open>Dropping and swapping\<close>

text \<open>\<^bold>\<open>Dropping a faction by its id does not touch that faction.\<close> \<open>DropFactionReputation\<close>
  takes a faction id but looks it up among the list ids: unless the two numbers agree, the
  state of the faction named stays as it was, while the state filed under that number (of
  another faction) loses its standing and is marked for deletion.\<close>

theorem drop_hits_list_id:
  assumes "(word_of_int (reputationListID fe) :: u32) \<noteq> fe_ID fe"
    and "smap_find (factions r) (fe_ID fe) = Some other"
  shows "GetState fe (DropFactionReputation (fe_ID fe) r) = GetState fe r \<and>
         smap_find (factions (DropFactionReputation (fe_ID fe) r)) (fe_ID fe) =
           Some (other\<lparr>needDelete := True, Standing := 0\<rparr>)"
  using assms by (simp add: DropFactionReputation_def GetState_def GetStateById_def)

theorem drop_hits_list_id_witness:
  "GetState demo_faction2 (DropFactionReputation (fe_ID demo_faction2) demo_rep) =
     GetState demo_faction2 demo_rep \<and>
   smap_find (factions (DropFactionReputation (fe_ID demo_faction2) demo_rep)) (fe_ID demo_faction2) =
     Some ((fs0\<lparr>fs_ID := 72, ReputationListID := 19, Flags := 1\<rparr>)\<lparr>needDelete := True, Standing := 0\<rparr>)"
  by (rule drop_hits_list_id) (simp_all add: demo_faction2_def demo_rep_def smap_find_def)

lemma SendState_standing:
  "map_option Standing (smap_find (factions (SendState f r)) j) =
   map_option Standing (smap_find (factions r) j)"
  by (cases "smap_find (factions r) j")
    (simp_all add: SendState_def Let_def find_map_values split: prod.split)

lemma reputation_standing:
  "map_option Standing (GetState fe r) = Some x \<Longrightarrow>
   GetReputationOf env fe r = to_i32 (GetBaseReputation env fe + x)"
  by (auto simp: GetReputationOf_def)

lemma SetReputation_standing:
  assumes "smap_find (factions r) (word_of_int (reputationListID fe)) = Some s"
    and "CanHaveReputation fe" and "base_of env base fe"
    and "OnReputationChange env (fe_ID fe) v False = v"
    and "Reputation_Bottom \<le> v" and "v \<le> Reputation_Cap"
  shows "map_option Standing (smap_find (factions (snd (SetReputation env fe v r))) j) =
     (if j = word_of_int (reputationListID fe) then Some (v - GetBaseReputation env fe)
      else map_option Standing (smap_find (factions r) j))"
proof -
  have "no_overflow env fe v False r" using assms(3) by (simp add: no_overflow_def base_of_def)
  moreover have "new_standing env fe v False r = v"
    using assms(5,6) by (simp add: new_standing_def rep_clamp_def)
  moreover define r1 where "r1 = snd (SetOneFactionReputation env fe v False r)"
  have "snd (SetReputation env fe v r) =
      SendState (smap_find (factions r1) (word_of_int (reputationListID fe))) r1"
    using assms(1,4)
    by (simp add: SetReputation_def SetReputationFull_def r1_def split: prod.split)
  ultimately show ?thesis
    using SetOne_find [OF assms(1,2), where env = env and standing = v and incremental = False and j = j]
    by (simp only: SendState_standing r1_def)
qed

lemma sint_i32: "is_i32 v \<Longrightarrow> sint (word_of_int v :: u32) = v"
  by (rule sint_of_int_small) (simp_all add: is_i32_def)

definition in_caps :: "int \<Rightarrow> bool" where
  "in_caps v \<longleftrightarrow> Reputation_Bottom \<le> v \<and> v \<le> Reputation_Cap"

text \<open>\<^bold>\<open>A swap exchanges two reputations.\<close> For two factions of the list with different list
  entries whose reputations are within the caps, and scripts that leave the standing alone,
  each has the other's reputation after the swap (base reputations may differ).\<close>

theorem swap_exchanges:
  assumes "LookupEntry env a = Some fa" and "LookupEntry env b = Some fb"
    and "GetState fa r = Some sa" and "GetState fb r = Some sb"
    and "(word_of_int (reputationListID fa) :: u32) \<noteq> word_of_int (reputationListID fb)"
    and "base_of env base fa" and "base_of env base fb"
    and "\<And>i v. OnReputationChange env i v False = v"
    and "in_caps (GetReputationOf env fa r)" and "in_caps (GetReputationOf env fb r)"
  shows "GetReputationOf env fa (SwapFactionReputation env a b r) = GetReputationOf env fb r \<and>
         GetReputationOf env fb (SwapFactionReputation env a b r) = GetReputationOf env fa r"
proof -
  let ?ka = "word_of_int (reputationListID fa) :: u32" and ?kb = "word_of_int (reputationListID fb) :: u32"
  let ?va = "GetReputationOf env fa r" and ?vb = "GetReputationOf env fb r"
  have can: "CanHaveReputation fa" "CanHaveReputation fb"
    using assms(3,4) by (auto simp: GetState_def split: if_splits)
  have find: "smap_find (factions r) ?ka = Some sa" "smap_find (factions r) ?kb = Some sb"
    using assms(3,4) can by (simp_all add: GetState_def GetStateById_def)
  have range: "is_i32 ?va" "is_i32 ?vb"
    using assms(9,10)
    by (simp_all add: in_caps_def is_i32_def Reputation_Bottom_def Reputation_Cap_def)
  define r1 where "r1 = snd (SetReputation env fa ?vb r)"
  define r2 where "r2 = snd (SetReputation env fb ?va r1)"
  have swap: "SwapFactionReputation env a b r = r2"
    using assms(1,2) range
    by (simp add: SwapFactionReputation_def Let_def sint_i32 r1_def r2_def)
  have one: "map_option Standing (smap_find (factions r1) j) =
      (if j = ?ka then Some (?vb - GetBaseReputation env fa) else map_option Standing (smap_find (factions r) j))" for j
    unfolding r1_def using assms(8,10)
    by (intro SetReputation_standing [OF find(1) can(1) assms(6)]) (simp_all add: in_caps_def)
  obtain sb' where sb': "smap_find (factions r1) ?kb = Some sb'"
    using one [of ?kb] assms(5) find(2) by auto
  have two: "map_option Standing (smap_find (factions r2) j) =
      (if j = ?kb then Some (?va - GetBaseReputation env fb) else map_option Standing (smap_find (factions r1) j))" for j
    unfolding r2_def using assms(8,9)
    by (intro SetReputation_standing [OF sb' can(2) assms(7)]) (simp_all add: in_caps_def)
  have "map_option Standing (GetState fa r2) = Some (?vb - GetBaseReputation env fa)"
    using two [of ?ka] one [of ?ka] assms(5) can by (simp add: GetState_def GetStateById_def)
  moreover have "map_option Standing (GetState fb r2) = Some (?va - GetBaseReputation env fb)"
    using two [of ?kb] can by (simp add: GetState_def GetStateById_def)
  ultimately show ?thesis
    using range by (simp add: swap reputation_standing to_i32_id)
qed

theorem swap_exchanges_witness:
  "GetReputationOf demo_rep_env demo_faction (SwapFactionReputation demo_rep_env 72 19 demo_rep) =
     GetReputationOf demo_rep_env demo_faction2 demo_rep \<and>
   GetReputationOf demo_rep_env demo_faction2 (SwapFactionReputation demo_rep_env 72 19 demo_rep) =
     GetReputationOf demo_rep_env demo_faction demo_rep"
  by (rule swap_exchanges [where base = demo_base])
    (simp_all add: demo_rep_simps base_of_def demo_base_def in_caps_def Reputation_Bottom_def
      Reputation_Cap_def)

section \<open>The initial packet\<close>

definition state_bytes :: "faction_state option \<Rightarrow> u8 list" where
  "state_bytes s = (case s of None \<Rightarrow> 0 # le_bytes (0 :: u32)
     | Some s \<Rightarrow> Flags s # le_bytes (word_of_int (Standing s) :: u32))"

definition slot_bytes :: "(u32, faction_state) smap \<Rightarrow> nat \<Rightarrow> u8 list" where
  "slot_bytes m i = state_bytes (smap_find m (word_of_nat i))"

lemma put_state_bytes:
  assumes "packet_is opcode bs d" and "length bs \<le> 1000"
  shows "packet_is opcode (bs @ f # le_bytes (v :: u32)) (put_u32 v (put_u8 f d))"
proof -
  have "packet_is opcode (bs @ [f]) (put_u8 f d)"
    using assms(2) by (intro packet_put(1) [OF assms(1)]) (simp add: room_def)
  then have "packet_is opcode ((bs @ [f]) @ le_bytes v) (put_u32 v (put_u8 f d))"
    using assms(2) by (intro packet_put(2)) (simp_all add: room_def sizeof_word_def)
  then show ?thesis by simp
qed

lemma put_absents:
  assumes "packet_is opcode bs d" and "length bs + 5 * n \<le> 1000"
  shows "packet_is opcode (bs @ concat (replicate n (state_bytes None))) ((put_absent ^^ n) d)"
  using assms
proof (induction n arbitrary: bs d)
  case 0
  then show ?case by simp
next
  case (Suc n)
  have "packet_is opcode (bs @ state_bytes None) (put_absent d)"
    using put_state_bytes [OF Suc.prems(1)] Suc.prems(2)
    by (simp add: put_absent_def state_bytes_def)
  from Suc.IH [OF this] Suc.prems(2)
  have "packet_is opcode ((bs @ state_bytes None) @ concat (replicate n (state_bytes None)))
      ((put_absent ^^ n) (put_absent d))"
    by (simp add: state_bytes_def sizeof_word_def)
  then show ?case by (simp add: funpow_swap1)
qed

lemma fill_to_bytes:
  assumes "packet_is opcode bs d" and "unat a \<le> unat k" and "unat k \<le> 128"
    and "length bs = 4 + 5 * unat a"
  shows "packet_is opcode (bs @ concat (map (\<lambda>i. state_bytes None) [unat a..<unat k])) (fill_to a k d)"
proof -
  have "unat (k - a) = unat k - unat a" using assms(2) by (simp add: unat_sub word_le_nat_alt)
  moreover have "concat (map (\<lambda>i. state_bytes None) [unat a..<unat k]) =
      concat (replicate (unat k - unat a) (state_bytes None))"
    by (simp add: map_replicate_const)
  ultimately show ?thesis
    using put_absents [OF assms(1), of "unat k - unat a"] assms(2,3,4) by (simp add: fill_to_def)
qed

lemma slot_below:
  assumes "map_ok m" and "\<And>k. k \<in> smap_keys m \<Longrightarrow> unat k \<ge> b" and "i < b" and "i < 2 ^ 32"
  shows "slot_bytes m i = state_bytes None"
proof -
  have "unat (word_of_nat i :: u32) = i" using assms(4) by (simp add: unat_of_nat)
  then have "word_of_nat i \<notin> smap_keys m" using assms(2) [of "word_of_nat i"] assms(3) by auto
  then have "smap_find m (word_of_nat i) = None" by (simp add: keys_find)
  then show ?thesis by (simp only: slot_bytes_def)
qed

lemma length_state_bytes [simp]: "length (state_bytes s) = 5"
  by (simp add: state_bytes_def sizeof_word_def split: option.split)

abbreviation initial_step ::
  "u32 \<times> faction_state \<Rightarrow> world_packet \<times> u32 \<Rightarrow> world_packet \<times> u32" where
  "initial_step e p \<equiv> (case p of (d, a) \<Rightarrow>
     let d = fill_to a (fst e) d
     in (put_u32 (word_of_int (Standing (snd e))) (put_u8 (Flags (snd e)) d), fst e + 1))"

lemma initial_entries:
  assumes "map_ok m" and "\<And>k. k \<in> smap_keys m \<Longrightarrow> unat a \<le> unat k \<and> unat k < 128"
    and "packet_is opcode bs d" and "length bs = 4 + 5 * unat a" and "unat a \<le> 128"
    and "fold initial_step m (d, a) = (d', a')"
  shows "packet_is opcode (bs @ concat (map (slot_bytes m) [unat a..<128])) (fill_to a' 128 d')"
  using assms
proof (induction m arbitrary: a bs d)
  case Nil
  have "map (slot_bytes []) [unat a..<128] = map (\<lambda>i. state_bytes None) [unat a..<128]"
    by (simp add: slot_bytes_def)
  moreover have "d' = d" "a' = a" using Nil(6) by simp_all
  moreover have "packet_is opcode (bs @ concat (map (\<lambda>i. state_bytes None) [unat a..<128]))
      (fill_to a 128 d)"
    using fill_to_bytes [OF Nil(3), of a 128] Nil(4,5) by simp
  ultimately show ?case by (simp only:)
next
  case (Cons e m)
  obtain k s where e: "e = (k, s)" by fastforce
  have k: "unat a \<le> unat k" "unat k < 128"
    using Cons.prems(2) [of k] by (simp_all add: e smap_keys_def)
  have later: "unat j > unat k" "unat j < 128" if "j \<in> smap_keys m" for j
    using that Cons.prems(1,2) by (auto simp: e map_ok_Cons word_less_nat_alt smap_keys_def)
  have k1: "unat (k + 1) = Suc (unat k)" using k(2) by (simp add: unat_word_ariths)
  let ?b1 = "bs @ concat (map (\<lambda>i. state_bytes None) [unat a..<unat k])"
  have len1: "length ?b1 = 4 + 5 * unat k"
    using Cons.prems(4) k by (simp add: length_concat comp_def sum_list_triv)
  have d1: "packet_is opcode ?b1 (fill_to a k d)"
    using k by (intro fill_to_bytes [OF Cons.prems(3)]) (simp_all add: Cons.prems(4))
  then have d2: "packet_is opcode (?b1 @ state_bytes (Some s))
      (put_u32 (word_of_int (Standing s)) (put_u8 (Flags s) (fill_to a k d)))"
    using put_state_bytes [OF d1] len1 k by (simp add: state_bytes_def)
  have sent: "packet_is opcode ((?b1 @ state_bytes (Some s)) @ concat (map (slot_bytes m) [unat (k + 1)..<128]))
      (fill_to a' 128 d')"
    using Cons.prems(1,6) later len1 k
    by (intro Cons.IH [OF _ _ d2]) (auto simp: e map_ok_Cons k1 Let_def Suc_le_eq)
  have below: "map (slot_bytes (e # m)) [unat a..<unat k] = map (\<lambda>i. state_bytes None) [unat a..<unat k]"
  proof (rule map_cong [OF refl])
    fix i assume "i \<in> set [unat a..<unat k]"
    then show "slot_bytes (e # m) i = state_bytes None"
      using k later by (intro slot_below [OF Cons.prems(1), where b = "unat k"])
        (auto simp: e smap_keys_def intro: less_imp_le)
  qed
  have above: "map (slot_bytes (e # m)) [Suc (unat k)..<128] = map (slot_bytes m) [Suc (unat k)..<128]"
  proof (rule map_cong [OF refl])
    fix i assume i: "i \<in> set [Suc (unat k)..<128]"
    then have "unat (word_of_nat i :: u32) = i" by (simp add: unat_of_nat)
    then have "word_of_nat i \<noteq> k" using i by auto
    then show "slot_bytes (e # m) i = slot_bytes m i" by (simp add: slot_bytes_def e smap_find_def)
  qed
  have here: "slot_bytes (e # m) (unat k) = state_bytes (Some s)"
    by (simp add: slot_bytes_def e smap_find_def)
  have upto: "[unat a..<128] = [unat a..<unat k] @ unat k # [Suc (unat k)..<128]"
    using k by (metis upt_add_eq_append upt_conv_Cons le_add_diff_inverse less_imp_le)
  have "bs @ concat (map (slot_bytes (e # m)) [unat a..<128]) =
      (?b1 @ state_bytes (Some s)) @ concat (map (slot_bytes m) [unat (k + 1)..<128])"
    by (simp only: upto map_append list.map below above here concat_append concat.simps k1 append_assoc)
  with sent show ?case by simp
qed

text \<open>\<^bold>\<open>The initial packet has one slot per list entry.\<close> When all list ids are below 128,
  \<open>SendInitialReputations\<close> sends one packet: the count 128 and then 128 slots, slot \<open>i\<close> holding
  flags and standing of the faction with list id \<open>i\<close>, or zeros if the player has none.
  (With a list id of 128 or more the last fill loop would run on past 128.)\<close>

theorem initial_packet:
  assumes "map_ok (factions r)" and "\<forall>k \<in> smap_keys (factions r). unat k < 128"
  shows "\<exists>d. packet_is SMSG_INITIALIZE_FACTIONS
               (le_bytes (128 :: u32) @ concat (map (slot_bytes (factions r)) [0..<128])) d \<and>
             rep_sent (SendInitialReputations r) = rep_sent r @ [RepPacket d]"
proof -
  define d0 where "d0 = put_u32 128 (wp_new SMSG_INITIALIZE_FACTIONS)"
  obtain d' a' where loop: "fold initial_step (factions r) (d0, 0) = (d', a')" by fastforce
  have "packet_is SMSG_INITIALIZE_FACTIONS ([] @ le_bytes (128 :: u32)) d0"
    unfolding d0_def by (rule packet_put(2)) (simp_all add: room_def sizeof_word_def)
  then have "packet_is SMSG_INITIALIZE_FACTIONS
      (le_bytes (128 :: u32) @ concat (map (slot_bytes (factions r)) [unat (0 :: u32)..<128]))
      (fill_to a' 128 d')"
    using assms loop by (intro initial_entries) (auto simp: sizeof_word_def)
  moreover have "rep_sent (SendInitialReputations r) = rep_sent r @ [RepPacket (fill_to a' 128 d')]"
    using loop by (simp add: SendInitialReputations_def rep_emit_def flip: d0_def)
  ultimately show ?thesis by auto
qed

theorem initial_packet_witness:
  "\<exists>d. packet_is SMSG_INITIALIZE_FACTIONS
         (le_bytes (128 :: u32) @ concat (map (slot_bytes (factions demo_rep)) [0..<128])) d \<and>
       rep_sent (SendInitialReputations demo_rep) = rep_sent demo_rep @ [RepPacket d]"
  by (rule initial_packet) (simp_all add: demo_rep_def map_ok_def smap_keys_def)

section \<open>Saving\<close>

text \<open>The table \<open>character_reputation\<close>, keyed by player and faction.\<close>

type_synonym rep_table = "u32 \<times> u16 \<Rightarrow> (int \<times> u16) option"

fun apply_statement :: "rep_statement \<Rightarrow> rep_table \<Rightarrow> rep_table" where
  "apply_statement (CHAR_DEL_CHAR_REPUTATION_BY_FACTION g f) t = t((g, f) := None)"
| "apply_statement (CHAR_INS_CHAR_REPUTATION_BY_FACTION g f s fl) t = t((g, f) := Some (s, fl))"

definition saved_row :: "faction_state \<Rightarrow> (int \<times> u16) option \<Rightarrow> (int \<times> u16) option" where
  "saved_row s old = (if needDelete s then None
     else if needSave s then Some (Standing s, ucast (Flags s)) else old)"

lemma save_one:
  "fold apply_statement (fst (save_state g s)) t =
     (if needDelete s \<or> needSave s then t((g, ucast (fs_ID s)) := saved_row s (t (g, ucast (fs_ID s))))
      else t)"
  by (simp add: save_state_def saved_row_def fun_eq_iff)

lemma save_all:
  assumes "distinct (map (\<lambda>e. ucast (fs_ID (snd e)) :: u16) m)" and "(k, s) \<in> set m"
  shows "fold apply_statement (concat (map (\<lambda>(k, s). fst (save_state g s)) m)) t (g, ucast (fs_ID s)) =
         saved_row s (t (g, ucast (fs_ID s)))"
proof -
  have keep: "fold apply_statement (concat (map (\<lambda>(k, s). fst (save_state g s)) m)) t (g, f) = t (g, f)"
    if "f \<notin> (\<lambda>e. ucast (fs_ID (snd e))) ` set m" for f m t
    using that by (induction m arbitrary: t) (auto simp: save_one fold_append)
  show ?thesis
    using assms
  proof (induction m arbitrary: t)
    case (Cons e m)
    show ?case
    proof (cases "e = (k, s)")
      case True
      then have "ucast (fs_ID s) \<notin> (\<lambda>e. ucast (fs_ID (snd e)) :: u16) ` set m" using Cons.prems(1) by auto
      then show ?thesis using True by (simp add: fold_append keep save_one) (simp add: saved_row_def)
    next
      case False
      then have "(k, s) \<in> set m" "ucast (fs_ID (snd e)) \<noteq> (ucast (fs_ID s) :: u16)"
        using Cons.prems by (auto simp: image_iff)
      then show ?thesis using Cons by (cases e) (simp add: fold_append save_one)
    qed
  qed simp
qed

text \<open>\<^bold>\<open>Saving writes exactly what changed.\<close> When the factions have different 16-bit ids,
  the statements of \<open>SaveToDB\<close>, run in order, leave in each faction's row of the player its
  standing and flags if it was marked for saving, no row if it was marked for deletion, and
  the old row otherwise; after it no faction is marked for deletion, and none that was not
  marked for deletion is marked for saving.\<close>

theorem save_writes_changes:
  assumes "distinct (map (\<lambda>e. ucast (fs_ID (snd e)) :: u16) (factions r))"
    and "(k, s) \<in> set (factions r)"
  shows "case rep_SaveToDB env r of (statements, r') \<Rightarrow>
     fold apply_statement statements t (player_guid env, ucast (fs_ID s)) =
       (if needDelete s then None
        else if needSave s then Some (Standing s, ucast (Flags s))
        else t (player_guid env, ucast (fs_ID s))) \<and>
     (k, s\<lparr>needDelete := False, needSave := needDelete s \<and> needSave s\<rparr>) \<in> set (factions r')"
proof -
  have "snd (save_state (player_guid env) s) =
      s\<lparr>needDelete := False, needSave := needDelete s \<and> needSave s\<rparr>"
    by (cases s) (simp add: save_state_def)
  then have "(k, s\<lparr>needDelete := False, needSave := needDelete s \<and> needSave s\<rparr>) \<in>
      (\<lambda>(k, s). (k, snd (save_state (player_guid env) s))) ` set (factions r)"
    using assms(2) by (force simp: image_iff)
  then show ?thesis
    using save_all [OF assms] by (simp add: rep_SaveToDB_def saved_row_def)
qed

theorem save_writes_changes_witness:
  "case rep_SaveToDB demo_rep_env (demo_rep\<lparr>factions := [(19, fs0\<lparr>Standing := 5, needSave := True\<rparr>)]\<rparr>)
   of (statements, r') \<Rightarrow>
     fold apply_statement statements Map.empty (player_guid demo_rep_env, ucast (fs_ID (fs0\<lparr>Standing := 5, needSave := True\<rparr>))) =
       (if needDelete (fs0\<lparr>Standing := 5, needSave := True\<rparr>) then None
        else if needSave (fs0\<lparr>Standing := 5, needSave := True\<rparr>)
        then Some (Standing (fs0\<lparr>Standing := 5, needSave := True\<rparr>), ucast (Flags (fs0\<lparr>Standing := 5, needSave := True\<rparr>)))
        else Map.empty (player_guid demo_rep_env, ucast (fs_ID (fs0\<lparr>Standing := 5, needSave := True\<rparr>)))) \<and>
     (19, (fs0\<lparr>Standing := 5, needSave := True\<rparr>)\<lparr>needDelete := False,
        needSave := needDelete (fs0\<lparr>Standing := 5, needSave := True\<rparr>) \<and>
                    needSave (fs0\<lparr>Standing := 5, needSave := True\<rparr>)\<rparr>) \<in> set (factions r')"
  by (rule save_writes_changes) simp_all

end
