(* ===== verification/RBAC.thy ===== *)
theory RBAC
  imports StdContainers ByteBuffer
begin

text \<open>
  Role based access control: \<^verbatim>\<open>src/src/server/game/Accounts/RBAC.h\<close>, \<^verbatim>\<open>RBAC.cpp\<close> and the
  permission tables of \<^verbatim>\<open>AccountMgr.cpp\<close>. An account has granted and denied permissions; both
  are expanded along the links between permissions, and the account has what is granted and
  not denied. What the account's rows in the login database are is an argument of the loading
  functions; the statements executed are collected in \<open>executed\<close>.
\<close>

section \<open>Permissions\<close>

datatype RBACCommandResult =
    RBAC_OK | RBAC_CANT_ADD_ALREADY_ADDED | RBAC_CANT_REVOKE_NOT_IN_LIST | RBAC_IN_GRANTED_LIST
  | RBAC_IN_DENIED_LIST | RBAC_ID_DOES_NOT_EXISTS

type_synonym permission_set = "u32 sset"

record rbac_permission =
  rp_id :: u32
  rp_name :: string
  rp_perms :: permission_set

definition new_RBACPermission :: "u32 \<Rightarrow> string \<Rightarrow> rbac_permission" where
  "new_RBACPermission i name = \<lparr>rp_id = i, rp_name = name, rp_perms = []\<rparr>"

definition AddLinkedPermission :: "u32 \<Rightarrow> rbac_permission \<Rightarrow> rbac_permission" where
  "AddLinkedPermission i p = p\<lparr>rp_perms := sset_insert i (rp_perms p)\<rparr>"

definition RemoveLinkedPermission :: "u32 \<Rightarrow> rbac_permission \<Rightarrow> rbac_permission" where
  "RemoveLinkedPermission i p = p\<lparr>rp_perms := sset_erase i (rp_perms p)\<rparr>"

definition GetDebugPermissionString :: "permission_set \<Rightarrow> string" where
  "GetDebugPermissionString perms =
     (case perms of
        [] \<Rightarrow> []
      | p # ps \<Rightarrow> show_nat (unat p) @ concat (map (\<lambda>q. '', '' @ show_nat (unat q)) ps))"

text \<open>The tables of \<open>AccountMgr\<close>; a null pointer in \<open>_permissions\<close> is \<open>None\<close>.\<close>

record account_mgr =
  am_permissions :: "(u32, rbac_permission option) smap"
  am_defaultPermissions :: "(u8, permission_set) smap"

definition ClearRBAC :: "account_mgr \<Rightarrow> account_mgr" where
  "ClearRBAC m = m\<lparr>am_permissions := [], am_defaultPermissions := []\<rparr>"

definition GetRBACPermission :: "account_mgr \<Rightarrow> u32 \<Rightarrow> rbac_permission option" where
  "GetRBACPermission m permissionId =
     (case smap_find (am_permissions m) permissionId of None \<Rightarrow> None | Some p \<Rightarrow> p)"

text \<open>The lookup with \<open>[]\<close> leaves an empty entry for an unknown security level.\<close>

definition GetRBACDefaultPermissions :: "u8 \<Rightarrow> account_mgr \<Rightarrow> permission_set \<times> account_mgr" where
  "GetRBACDefaultPermissions secLevel m =
     (smap_get [] (am_defaultPermissions m) secLevel,
      m\<lparr>am_defaultPermissions := smap_touch [] secLevel (am_defaultPermissions m)\<rparr>)"

text \<open>
  \<open>LoadRBAC\<close>: the three queries are \<open>None\<close> where they have no rows. A link row whose
  permission is unknown dereferences a null pointer, which is \<open>None\<close> here. The loop over the
  links keeps the id of the permission it points to and whether the pointer is set.
\<close>

fun load_links :: "(u32 \<times> u32) list \<Rightarrow> u32 \<Rightarrow> bool \<Rightarrow> account_mgr \<Rightarrow> account_mgr option" where
  "load_links [] permissionId valid m = Some m"
| "load_links ((newId, linked) # rows) permissionId valid m =
     (let (permissionId, valid, m) =
        (if permissionId \<noteq> newId
         then (newId, smap_get None (am_permissions m) newId \<noteq> None,
               m\<lparr>am_permissions := smap_touch None newId (am_permissions m)\<rparr>)
         else (permissionId, valid, m))
      in if linked = permissionId then load_links rows permissionId valid m
         else if \<not> valid then None
         else load_links rows permissionId valid
                (m\<lparr>am_permissions := smap_modify None permissionId
                     (map_option (AddLinkedPermission linked)) (am_permissions m)\<rparr>))"

fun load_defaults :: "(u32 \<times> u32) list \<Rightarrow> u8 \<Rightarrow> bool \<Rightarrow> account_mgr \<Rightarrow> account_mgr" where
  "load_defaults [] secId valid m = m"
| "load_defaults ((newId, permissionId) # rows) secId valid m =
     (let secId = (if (ucast secId :: u32) \<noteq> newId \<or> \<not> valid then ucast newId else secId)
      in load_defaults rows secId True
           (m\<lparr>am_defaultPermissions := smap_modify [] secId (sset_insert permissionId)
                (am_defaultPermissions m)\<rparr>))"

definition LoadRBAC ::
  "(u32 \<times> string) list option \<Rightarrow> (u32 \<times> u32) list option \<Rightarrow> (u32 \<times> u32) list option \<Rightarrow>
   account_mgr \<Rightarrow> account_mgr option" where
  "LoadRBAC permission_rows link_rows default_rows m =
     (let m = ClearRBAC m in
      case permission_rows of
        None \<Rightarrow> Some m
      | Some rows \<Rightarrow>
          let m = m\<lparr>am_permissions := fold (\<lambda>(i, name) ps.
                 smap_put i (Some (new_RBACPermission i name)) ps) rows (am_permissions m)\<rparr>
          in case link_rows of
               None \<Rightarrow> Some m
             | Some rows \<Rightarrow>
                 (case load_links rows 0 False m of
                    None \<Rightarrow> None
                  | Some m \<Rightarrow>
                      (case default_rows of
                         None \<Rightarrow> Some m
                       | Some rows \<Rightarrow> Some (load_defaults rows 0 False m))))"

section \<open>An account's data\<close>

datatype login_statement =
    LOGIN_INS_RBAC_ACCOUNT_PERMISSION u32 u32 bool int
  | LOGIN_DEL_RBAC_ACCOUNT_PERMISSION u32 u32 int
  | LOGIN_DEL_ACCOUNT_ACCESS u32
  | LOGIN_DEL_ACCOUNT_ACCESS_BY_REALM u32 int
  | LOGIN_INS_ACCOUNT_ACCESS u32 u8 int

record rbac_data =
  rd_id :: u32
  rd_name :: string
  rd_realmId :: int
  rd_secLevel :: u8
  rd_grantedPerms :: permission_set
  rd_deniedPerms :: permission_set
  rd_globalPerms :: permission_set
  executed :: "login_statement list"

definition new_RBACData :: "u32 \<Rightarrow> string \<Rightarrow> int \<Rightarrow> u8 \<Rightarrow> rbac_data" where
  "new_RBACData i name realmId secLevel =
     \<lparr>rd_id = i, rd_name = name, rd_realmId = realmId, rd_secLevel = secLevel,
      rd_grantedPerms = [], rd_deniedPerms = [], rd_globalPerms = [], executed = []\<rparr>"

definition HasPermission :: "u32 \<Rightarrow> rbac_data \<Rightarrow> bool" where
  "HasPermission p d = (p \<in> set (rd_globalPerms d))"

definition HasGrantedPermission :: "u32 \<Rightarrow> rbac_data \<Rightarrow> bool" where
  "HasGrantedPermission p d = (p \<in> set (rd_grantedPerms d))"

definition HasDeniedPermission :: "u32 \<Rightarrow> rbac_data \<Rightarrow> bool" where
  "HasDeniedPermission p d = (p \<in> set (rd_deniedPerms d))"

definition AddGrantedPermission :: "u32 \<Rightarrow> rbac_data \<Rightarrow> rbac_data" where
  "AddGrantedPermission p d = d\<lparr>rd_grantedPerms := sset_insert p (rd_grantedPerms d)\<rparr>"

definition RemoveGrantedPermission :: "u32 \<Rightarrow> rbac_data \<Rightarrow> rbac_data" where
  "RemoveGrantedPermission p d = d\<lparr>rd_grantedPerms := sset_erase p (rd_grantedPerms d)\<rparr>"

definition AddDeniedPermission :: "u32 \<Rightarrow> rbac_data \<Rightarrow> rbac_data" where
  "AddDeniedPermission p d = d\<lparr>rd_deniedPerms := sset_insert p (rd_deniedPerms d)\<rparr>"

definition RemoveDeniedPermission :: "u32 \<Rightarrow> rbac_data \<Rightarrow> rbac_data" where
  "RemoveDeniedPermission p d = d\<lparr>rd_deniedPerms := sset_erase p (rd_deniedPerms d)\<rparr>"

definition AddPermissions :: "permission_set \<Rightarrow> permission_set \<Rightarrow> permission_set" where
  "AddPermissions permsFrom permsTo = fold sset_insert permsFrom permsTo"

definition RemovePermissions :: "permission_set \<Rightarrow> permission_set \<Rightarrow> permission_set" where
  "RemovePermissions permsFrom permsToRemove = fold sset_erase permsToRemove permsFrom"

section \<open>Expanding the links\<close>

text \<open>
  The loop of \<open>ExpandPermissions\<close>: \<open>todo\<close> is \<open>toCheck\<close>, \<open>acc\<close> the expanded set. It ends
  because a turn expands a known permission for the first time, or takes one off \<open>todo\<close>
  without adding an expanded or unknown one.
\<close>

definition known :: "account_mgr \<Rightarrow> u32 set" where
  "known m = {p. GetRBACPermission m p \<noteq> None}"

function expand_loop :: "account_mgr \<Rightarrow> permission_set \<Rightarrow> permission_set \<Rightarrow> permission_set" where
  "expand_loop m [] acc = acc"
| "expand_loop m (permissionId # toCheck) acc =
     (case GetRBACPermission m permissionId of
        None \<Rightarrow> expand_loop m toCheck acc
      | Some permission \<Rightarrow>
          let acc = sset_insert permissionId acc
          in expand_loop m
               (fold (\<lambda>q todo. if q \<notin> set acc then sset_insert q todo else todo)
                  (rp_perms permission) toCheck) acc)"
  by pat_completeness auto

lemma set_fold_links:
  "set (fold (\<lambda>q todo. if q \<notin> A then sset_insert q todo else todo) qs todo) =
     set todo \<union> (set qs - A)"
  by (induction qs arbitrary: todo) auto

lemma filter_fold_links:
  "filter (\<lambda>q. q \<in> A) (fold (\<lambda>q todo. if q \<notin> A then sset_insert q todo else todo) qs todo) =
     filter (\<lambda>q. q \<in> A) todo"
proof -
  have "filter (\<lambda>q. q \<in> A) (sset_insert q todo) = filter (\<lambda>q. q \<in> A) todo" if "q \<notin> A" for q todo
    using that by (induction q todo rule: sset_insert.induct) auto
  then show ?thesis by (induction qs arbitrary: todo) auto
qed

termination expand_loop
proof (relation "measures [\<lambda>(m, todo, acc). card (known m - set acc),
    \<lambda>(m, todo, acc). length (filter (\<lambda>q. q \<in> set acc) todo), \<lambda>(m, todo, acc). length todo]")
  fix m permissionId toCheck acc permission x
  assume known: "GetRBACPermission m permissionId = Some permission"
    and x: "x = sset_insert permissionId acc"
  show "((m, fold (\<lambda>q todo. if q \<notin> set x then sset_insert q todo else todo) (rp_perms permission)
           toCheck, x), (m, permissionId # toCheck, acc))
        \<in> measures [\<lambda>(m, todo, acc). card (known m - set acc),
            \<lambda>(m, todo, acc). length (filter (\<lambda>q. q \<in> set acc) todo), \<lambda>(m, todo, acc). length todo]"
  proof (cases "permissionId \<in> set acc")
    case True
    then have same: "set x = set acc" by (auto simp: x)
    then have "filter (\<lambda>q. q \<in> set acc) (fold (\<lambda>q todo. if q \<notin> set acc then sset_insert q todo else todo)
        (rp_perms permission) toCheck) = filter (\<lambda>q. q \<in> set acc) toCheck"
      by (simp only: filter_fold_links)
    then show ?thesis using True same by simp
  next
    case False
    have "known m - set x = (known m - set acc) - {permissionId}" by (auto simp: x)
    moreover have "permissionId \<in> known m - set acc" using False known by (simp add: known_def)
    ultimately have "card (known m - set x) < card (known m - set acc)"
      by (simp only:) (rule card_Diff1_less, simp)
    then show ?thesis by simp
  qed
qed auto

definition ExpandPermissions :: "account_mgr \<Rightarrow> permission_set \<Rightarrow> permission_set" where
  "ExpandPermissions m permissions = expand_loop m permissions []"

definition CalculateNewPermissions :: "account_mgr \<Rightarrow> rbac_data \<Rightarrow> rbac_data" where
  "CalculateNewPermissions m d =
     (let global = ExpandPermissions m (rd_grantedPerms d);
          revoked = ExpandPermissions m (rd_deniedPerms d)
      in d\<lparr>rd_globalPerms := RemovePermissions global revoked\<rparr>)"

section \<open>Granting, denying, revoking\<close>

definition rd_execute :: "login_statement \<Rightarrow> rbac_data \<Rightarrow> rbac_data" where
  "rd_execute stmt d = d\<lparr>executed := executed d @ [stmt]\<rparr>"

definition SavePermission :: "u32 \<Rightarrow> bool \<Rightarrow> int \<Rightarrow> rbac_data \<Rightarrow> rbac_data" where
  "SavePermission permission granted realmId d =
     rd_execute (LOGIN_INS_RBAC_ACCOUNT_PERMISSION (rd_id d) permission granted realmId) d"

definition GrantPermission ::
  "account_mgr \<Rightarrow> u32 \<Rightarrow> int \<Rightarrow> rbac_data \<Rightarrow> RBACCommandResult \<times> rbac_data" where
  "GrantPermission m permissionId realmId d =
     (if GetRBACPermission m permissionId = None then (RBAC_ID_DOES_NOT_EXISTS, d)
      else if HasDeniedPermission permissionId d then (RBAC_IN_DENIED_LIST, d)
      else if HasGrantedPermission permissionId d then (RBAC_CANT_ADD_ALREADY_ADDED, d)
      else
        let d = AddGrantedPermission permissionId d
        in (RBAC_OK,
            if realmId \<noteq> 0 then CalculateNewPermissions m (SavePermission permissionId True realmId d)
            else d))"

definition DenyPermission ::
  "account_mgr \<Rightarrow> u32 \<Rightarrow> int \<Rightarrow> rbac_data \<Rightarrow> RBACCommandResult \<times> rbac_data" where
  "DenyPermission m permissionId realmId d =
     (if GetRBACPermission m permissionId = None then (RBAC_ID_DOES_NOT_EXISTS, d)
      else if HasGrantedPermission permissionId d then (RBAC_IN_GRANTED_LIST, d)
      else if HasDeniedPermission permissionId d then (RBAC_CANT_ADD_ALREADY_ADDED, d)
      else
        let d = AddDeniedPermission permissionId d
        in (RBAC_OK,
            if realmId \<noteq> 0 then CalculateNewPermissions m (SavePermission permissionId False realmId d)
            else d))"

definition RevokePermission ::
  "account_mgr \<Rightarrow> u32 \<Rightarrow> int \<Rightarrow> rbac_data \<Rightarrow> RBACCommandResult \<times> rbac_data" where
  "RevokePermission m permissionId realmId d =
     (if \<not> HasGrantedPermission permissionId d \<and> \<not> HasDeniedPermission permissionId d
      then (RBAC_CANT_REVOKE_NOT_IN_LIST, d)
      else
        let d = RemoveDeniedPermission permissionId (RemoveGrantedPermission permissionId d)
        in (RBAC_OK,
            if realmId \<noteq> 0
            then CalculateNewPermissions m
                   (rd_execute (LOGIN_DEL_RBAC_ACCOUNT_PERMISSION (rd_id d) permissionId realmId) d)
            else d))"

section \<open>Loading an account\<close>

definition ClearData :: "rbac_data \<Rightarrow> rbac_data" where
  "ClearData d = d\<lparr>rd_grantedPerms := [], rd_deniedPerms := [], rd_globalPerms := []\<rparr>"

text \<open>\<open>LoadFromDBCallback\<close>: the rows are (permission, granted); \<open>None\<close> is an empty result.\<close>

definition load_permission_row :: "account_mgr \<Rightarrow> u32 \<times> bool \<Rightarrow> rbac_data \<Rightarrow> rbac_data" where
  "load_permission_row m row d =
     (if snd row then snd (GrantPermission m (fst row) 0 d) else snd (DenyPermission m (fst row) 0 d))"

definition LoadFromDBCallback ::
  "(u32 \<times> bool) list option \<Rightarrow> account_mgr \<Rightarrow> rbac_data \<Rightarrow> rbac_data \<times> account_mgr" where
  "LoadFromDBCallback result m d =
     (let d = (case result of None \<Rightarrow> d | Some rows \<Rightarrow> fold (load_permission_row m) rows d);
          (permissions, m) = GetRBACDefaultPermissions (rd_secLevel d) m;
          d = fold (\<lambda>p d. snd (GrantPermission m p 0 d)) permissions d
      in (CalculateNewPermissions m d, m))"

text \<open>\<open>query i realm\<close> is the answer of \<open>LOGIN_SEL_RBAC_ACCOUNT_PERMISSIONS\<close>.\<close>

type_synonym login_db = "u32 \<Rightarrow> int \<Rightarrow> (u32 \<times> bool) list option"

definition rd_LoadFromDB :: "login_db \<Rightarrow> account_mgr \<Rightarrow> rbac_data \<Rightarrow> rbac_data \<times> account_mgr" where
  "rd_LoadFromDB query m d =
     (let d = ClearData d in LoadFromDBCallback (query (rd_id d) (rd_realmId d)) m d)"

text \<open>\<open>LoadFromDBAsync\<close> clears now and answers the question that the callback gets later.\<close>

definition rd_LoadFromDBAsync :: "rbac_data \<Rightarrow> (u32 \<times> int) \<times> rbac_data" where
  "rd_LoadFromDBAsync d = (let d = ClearData d in ((rd_id d, rd_realmId d), d))"

definition SetSecurityLevel :: "login_db \<Rightarrow> u8 \<Rightarrow> account_mgr \<Rightarrow> rbac_data \<Rightarrow> rbac_data \<times> account_mgr" where
  "SetSecurityLevel query level m d = rd_LoadFromDB query m (d\<lparr>rd_secLevel := level\<rparr>)"

definition AccountHasPermission ::
  "login_db \<Rightarrow> (u32 \<Rightarrow> u8) \<Rightarrow> u32 \<Rightarrow> u32 \<Rightarrow> int \<Rightarrow> account_mgr \<Rightarrow> bool" where
  "AccountHasPermission query GetSecurity accountId permissionId realmId m =
     (if accountId = 0 then False
      else HasPermission permissionId
             (fst (rd_LoadFromDB query m (new_RBACData accountId [] realmId (GetSecurity accountId)))))"

text \<open>\<open>UpdateAccountAccess\<close>; the session's data is \<open>None\<close> where the pointer is null.\<close>

definition UpdateAccountAccess ::
  "login_db \<Rightarrow> rbac_data option \<Rightarrow> u32 \<Rightarrow> u8 \<Rightarrow> int \<Rightarrow> account_mgr \<Rightarrow>
   rbac_data option \<times> account_mgr \<times> login_statement list" where
  "UpdateAccountAccess query rbac accountId securityLevel realmId m =
     (let (rbac, m) = (case rbac of
            None \<Rightarrow> (None, m)
          | Some d \<Rightarrow>
              if securityLevel = rd_secLevel d
              then (let (d', m') = SetSecurityLevel query securityLevel m d in (Some d', m'))
              else (Some d, m));
          del = (if realmId = -1 then LOGIN_DEL_ACCOUNT_ACCESS accountId
                 else LOGIN_DEL_ACCOUNT_ACCESS_BY_REALM accountId realmId);
          ins = (if securityLevel \<noteq> 0 then [LOGIN_INS_ACCOUNT_ACCESS accountId securityLevel realmId]
                 else [])
      in (rbac, m, del # ins))"

end
