(* ===== verification/RBACProps.thy ===== *)
theory RBACProps
  imports RBAC Machine
begin

text \<open>
  The permissions an account has are the links' closure of what is granted, less the closure of
  what is denied, over every sequence of changes; what loading decides between the rows and the
  defaults; that a revoke undoes a grant; and what \<open>UpdateAccountAccess\<close> leaves unchanged.
\<close>

section \<open>Expansion is reachability along the links\<close>

definition links :: "account_mgr \<Rightarrow> (u32 \<times> u32) set" where
  "links m = {(p, q). \<exists>perm. GetRBACPermission m p = Some perm \<and> q \<in> set (rp_perms perm) \<and> q \<in> known m}"

definition reach :: "account_mgr \<Rightarrow> u32 set \<Rightarrow> u32 set" where
  "reach m P = (links m)\<^sup>* `` (P \<inter> known m)"

lemma reach_empty [simp]: "reach m {} = {}"
  by (simp add: reach_def)

lemma reach_start: "p \<in> P \<Longrightarrow> p \<in> known m \<Longrightarrow> p \<in> reach m P"
  by (auto simp: reach_def)

lemma reach_step: "p \<in> reach m P \<Longrightarrow> (p, q) \<in> links m \<Longrightarrow> q \<in> reach m P"
  by (auto simp: reach_def intro: rtrancl_into_rtrancl)

lemma reach_least:
  assumes "P \<inter> known m \<subseteq> S" and "\<And>p q. p \<in> S \<Longrightarrow> (p, q) \<in> links m \<Longrightarrow> q \<in> S"
  shows "reach m P \<subseteq> S"
proof
  fix x assume "x \<in> reach m P"
  then obtain p where "p \<in> P \<inter> known m" "(p, x) \<in> (links m)\<^sup>*" by (auto simp: reach_def)
  from this(2) show "x \<in> S"
    by (induction rule: rtrancl_induct) (use \<open>p \<in> P \<inter> known m\<close> assms in auto)
qed

lemma expand_loop_reach:
  assumes "\<And>p q. p \<in> set acc \<Longrightarrow> (p, q) \<in> links m \<Longrightarrow> q \<in> set acc \<union> set todo"
  shows "set (expand_loop m todo acc) = set acc \<union> reach m (set todo)"
  using assms
proof (induction m todo acc rule: expand_loop.induct)
  case (1 m acc)
  then show ?case by simp
next
  case (2 m p todo acc)
  show ?case
  proof (cases "GetRBACPermission m p")
    case None
    then have "p \<notin> known m" by (simp add: known_def)
    then have "reach m (insert p (set todo)) = reach m (set todo)"
      and "\<And>a b. a \<in> set acc \<Longrightarrow> (a, b) \<in> links m \<Longrightarrow> b \<in> set acc \<union> set todo"
      using "2.prems" by (auto simp: reach_def links_def)
    with "2.IH"(1) [OF None] None show ?thesis by simp
  next
    case (Some perm)
    define acc' where "acc' = sset_insert p acc"
    define todo' where "todo' = fold (\<lambda>q todo. if q \<notin> set acc' then sset_insert q todo else todo)
      (rp_perms perm) todo"
    have sets: "set acc' = insert p (set acc)" by (simp add: acc'_def)
    have todo: "set todo' = set todo \<union> (set (rp_perms perm) - set acc')"
      by (simp only: todo'_def set_fold_links)
    note sets = sets todo
    have p: "p \<in> known m" using Some by (simp add: known_def)
    have closed: "b \<in> set acc' \<union> set todo'" if "a \<in> set acc'" "(a, b) \<in> links m" for a b
      using that "2.prems" [of a b] Some by (auto simp: sets links_def)
    then have IH: "set (expand_loop m todo' acc') = set acc' \<union> reach m (set todo')"
      using "2.IH"(2) [OF Some refl] by (simp add: acc'_def todo'_def)
    have "set acc' \<union> reach m (set todo') = set acc \<union> reach m (set (p # todo))" (is "?S = ?T")
    proof
      have "reach m (set (p # todo)) \<subseteq> ?S"
      proof (rule reach_least)
        show "set (p # todo) \<inter> known m \<subseteq> ?S" by (auto simp: sets intro: reach_start)
        fix a b assume "a \<in> ?S" and ab: "(a, b) \<in> links m"
        moreover have "b \<in> known m" using ab by (auto simp: links_def)
        ultimately show "b \<in> ?S" using closed [of a b] by (auto intro: reach_start reach_step)
      qed
      then show "?T \<subseteq> ?S" by (auto simp: sets)
      have "reach m (set todo') \<subseteq> reach m (set (p # todo))"
      proof (rule reach_least)
        show "set todo' \<inter> known m \<subseteq> reach m (set (p # todo))"
        proof
          fix q assume q: "q \<in> set todo' \<inter> known m"
          show "q \<in> reach m (set (p # todo))"
          proof (cases "q \<in> set todo")
            case True
            with q show ?thesis by (auto intro: reach_start)
          next
            case False
            with q have "(p, q) \<in> links m" using Some by (auto simp: sets links_def)
            with p show ?thesis by (auto intro: reach_start reach_step)
          qed
        qed
      qed (rule reach_step)
      then show "?S \<subseteq> ?T" using p by (auto simp: sets intro: reach_start)
    qed
    then show ?thesis using IH Some by (simp add: acc'_def todo'_def Let_def)
  qed
qed

lemma set_Expand: "set (ExpandPermissions m ps) = reach m (set ps)"
  using expand_loop_reach [of "[]" m ps] by (simp add: ExpandPermissions_def)

lemma expand_loop_ok: "set_ok acc \<Longrightarrow> set_ok (expand_loop m todo acc)"
  by (induction m todo acc rule: expand_loop.induct) (auto simp: Let_def split: option.split)

text \<open>C38: \<^bold>\<open>Expansion computes exactly the linked permissions.\<close> The work list loop ends and gives
  the permissions reachable from the given known ones along the links between known
  permissions, cycles included: nothing is missed, nothing is added.\<close>

theorem expand_is_reachability:
  "set (ExpandPermissions m ps) =
     {q. \<exists>p. p \<in> set ps \<and> GetRBACPermission m p \<noteq> None \<and> (p, q) \<in> (links m)\<^sup>*}"
  by (auto simp: set_Expand reach_def known_def)

section \<open>The account's permissions\<close>

lemma set_Remove: "set (RemovePermissions A B) = set A - set B"
  unfolding RemovePermissions_def by (induction B arbitrary: A) auto

lemma set_ok_Remove: "set_ok A \<Longrightarrow> set_ok (RemovePermissions A B)"
  unfolding RemovePermissions_def by (induction B arbitrary: A) auto

lemma Calculate_fields [simp]:
  "rd_grantedPerms (CalculateNewPermissions m d) = rd_grantedPerms d"
  "rd_deniedPerms (CalculateNewPermissions m d) = rd_deniedPerms d"
  "set (rd_globalPerms (CalculateNewPermissions m d)) =
     reach m (set (rd_grantedPerms d)) - reach m (set (rd_deniedPerms d))"
  by (simp_all add: CalculateNewPermissions_def Let_def set_Remove set_Expand)

lemma execute_fields [simp]:
  "rd_grantedPerms (rd_execute s d) = rd_grantedPerms d" "rd_deniedPerms (rd_execute s d) = rd_deniedPerms d"
  "rd_grantedPerms (SavePermission p b r d) = rd_grantedPerms d"
  "rd_deniedPerms (SavePermission p b r d) = rd_deniedPerms d"
  by (simp_all add: rd_execute_def SavePermission_def)

definition lists_ok :: "account_mgr \<Rightarrow> rbac_data \<Rightarrow> bool" where
  "lists_ok m d \<longleftrightarrow> set_ok (rd_grantedPerms d) \<and> set_ok (rd_deniedPerms d) \<and>
     set (rd_grantedPerms d) \<inter> set (rd_deniedPerms d) = {} \<and>
     set (rd_grantedPerms d) \<union> set (rd_deniedPerms d) \<subseteq> known m"

definition rbac_ok :: "account_mgr \<Rightarrow> rbac_data \<Rightarrow> bool" where
  "rbac_ok m d \<longleftrightarrow> lists_ok m d \<and>
     set (rd_globalPerms d) = reach m (set (rd_grantedPerms d)) - reach m (set (rd_deniedPerms d))"

lemma Grant_lists: "lists_ok m d \<Longrightarrow> lists_ok m (snd (GrantPermission m p r d))"
  by (auto simp: GrantPermission_def lists_ok_def Let_def AddGrantedPermission_def
      HasDeniedPermission_def known_def)

lemma Deny_lists: "lists_ok m d \<Longrightarrow> lists_ok m (snd (DenyPermission m p r d))"
  by (auto simp: DenyPermission_def lists_ok_def Let_def AddDeniedPermission_def
      HasGrantedPermission_def known_def)

lemma Revoke_lists: "lists_ok m d \<Longrightarrow> lists_ok m (snd (RevokePermission m p r d))"
  by (auto simp: RevokePermission_def lists_ok_def Let_def RemoveDeniedPermission_def
      RemoveGrantedPermission_def)

datatype rbac_call = CallGrant u32 int | CallDeny u32 int | CallRevoke u32 int

fun rbac_exec :: "account_mgr \<Rightarrow> rbac_data \<Rightarrow> rbac_call \<Rightarrow> rbac_data" where
  "rbac_exec m d (CallGrant p r) = snd (GrantPermission m p r d)"
| "rbac_exec m d (CallDeny p r) = snd (DenyPermission m p r d)"
| "rbac_exec m d (CallRevoke p r) = snd (RevokePermission m p r d)"

text \<open>With realm 0 the call neither saves nor recalculates: the code uses it while loading.\<close>

fun on_realm :: "rbac_call \<Rightarrow> bool" where
  "on_realm (CallGrant p r) = (r \<noteq> 0)"
| "on_realm (CallDeny p r) = (r \<noteq> 0)"
| "on_realm (CallRevoke p r) = (r \<noteq> 0)"

lemma rbac_exec_keeps:
  assumes "rbac_ok m d" and "on_realm c"
  shows "rbac_ok m (rbac_exec m d c)"
proof -
  have "lists_ok m (rbac_exec m d c)"
    using assms(1) by (cases c) (simp_all add: rbac_ok_def Grant_lists Deny_lists Revoke_lists)
  moreover have "rbac_exec m d c = d \<or> (\<exists>e. rbac_exec m d c = CalculateNewPermissions m e)"
    using assms(2)
    by (cases c) (auto simp: GrantPermission_def DenyPermission_def RevokePermission_def Let_def)
  ultimately show ?thesis using assms(1) by (auto simp: rbac_ok_def)
qed

interpretation rbac: stateful "rbac_exec m" on_realm "rbac_ok m" for m
  by unfold_locales (rule rbac_exec_keeps)

lemma load_rows_lists:
  "lists_ok m d \<Longrightarrow> lists_ok m (fold (load_permission_row m) rows d)"
  by (induction rows arbitrary: d) (auto simp: load_permission_row_def Grant_lists Deny_lists)

lemma load_default_lists:
  "lists_ok m d \<Longrightarrow> lists_ok m (fold (\<lambda>p d. snd (GrantPermission m p 0 d)) ps d)"
  by (induction ps arbitrary: d) (auto simp: Grant_lists)

lemma tables_defaults [simp]:
  "GetRBACPermission (m\<lparr>am_defaultPermissions := x\<rparr>) = GetRBACPermission m"
  by (rule ext) (simp add: GetRBACPermission_def)

lemma known_defaults [simp]: "known (m\<lparr>am_defaultPermissions := x\<rparr>) = known m"
  by (simp add: known_def)

lemma reach_defaults [simp]: "reach (m\<lparr>am_defaultPermissions := x\<rparr>) P = reach m P"
  by (simp add: reach_def links_def)

lemma lists_defaults [simp]: "lists_ok (m\<lparr>am_defaultPermissions := x\<rparr>) d = lists_ok m d"
  by (simp add: lists_ok_def)

lemma Calculate_ok: "lists_ok m d \<Longrightarrow> rbac_ok m (CalculateNewPermissions m d)"
  by (simp add: rbac_ok_def) (simp add: lists_ok_def)

lemma Load_ok: "rbac_ok m (fst (rd_LoadFromDB query m d))"
proof -
  define d1 where "d1 = (case query (rd_id (ClearData d)) (rd_realmId (ClearData d)) of
    None \<Rightarrow> ClearData d | Some rows \<Rightarrow> fold (load_permission_row m) rows (ClearData d))"
  define m' where "m' = snd (GetRBACDefaultPermissions (rd_secLevel d1) m)"
  define d2 where "d2 = fold (\<lambda>p d. snd (GrantPermission m' p 0 d))
    (fst (GetRBACDefaultPermissions (rd_secLevel d1) m)) d1"
  have "lists_ok m (ClearData d)" by (simp add: ClearData_def lists_ok_def)
  then have "lists_ok m d1" by (simp add: d1_def load_rows_lists split: option.split)
  then have "lists_ok m' d1" by (simp add: m'_def GetRBACDefaultPermissions_def)
  then have "lists_ok m' d2" unfolding d2_def by (rule load_default_lists)
  then have "rbac_ok m' (CalculateNewPermissions m' d2)" by (rule Calculate_ok)
  moreover have "fst (rd_LoadFromDB query m d) = CalculateNewPermissions m' d2"
    unfolding rd_LoadFromDB_def LoadFromDBCallback_def Let_def d2_def m'_def d1_def
    by (simp add: case_prod_unfold)
  ultimately show ?thesis by (simp add: rbac_ok_def m'_def GetRBACDefaultPermissions_def)
qed

text \<open>C11: \<^bold>\<open>An account has what is granted and not denied.\<close> After loading and after any sequence
  of grants, denials and revocations on a realm, no permission is both granted and denied, and
  the account has exactly the permissions reachable from its granted ones that are not
  reachable from its denied ones.\<close>

theorem permissions_are_granted_minus_denied:
  assumes "list_all on_realm calls"
  shows "let d = run (rbac_exec m) (fst (rd_LoadFromDB query m d0)) calls
         in set (rd_grantedPerms d) \<inter> set (rd_deniedPerms d) = {} \<and>
            (\<forall>p. HasPermission p d \<longleftrightarrow>
                 p \<in> reach m (set (rd_grantedPerms d)) \<and> p \<notin> reach m (set (rd_deniedPerms d)))"
proof -
  have "rbac_ok m (run (rbac_exec m) (fst (rd_LoadFromDB query m d0)) calls)"
    by (rule rbac.run_keeps [OF Load_ok assms])
  then show ?thesis by (simp add: Let_def rbac_ok_def lists_ok_def HasPermission_def)
qed

theorem permissions_are_granted_minus_denied_witness:
  "let d = run (rbac_exec (\<lparr>am_permissions = [(5, Some (new_RBACPermission 5 ''a''))], am_defaultPermissions = []\<rparr>))
             (fst (rd_LoadFromDB (\<lambda>i r. None)
                (\<lparr>am_permissions = [(5, Some (new_RBACPermission 5 ''a''))], am_defaultPermissions = []\<rparr>)
                (new_RBACData 1 ''x'' 1 0))) [CallGrant 5 1]
   in set (rd_grantedPerms d) \<inter> set (rd_deniedPerms d) = {} \<and>
      (\<forall>p. HasPermission p d \<longleftrightarrow>
           p \<in> reach (\<lparr>am_permissions = [(5, Some (new_RBACPermission 5 ''a''))], am_defaultPermissions = []\<rparr>)
                 (set (rd_grantedPerms d)) \<and>
           p \<notin> reach (\<lparr>am_permissions = [(5, Some (new_RBACPermission 5 ''a''))], am_defaultPermissions = []\<rparr>)
                 (set (rd_deniedPerms d)))"
  by (rule permissions_are_granted_minus_denied) simp

section \<open>Loading\<close>

lemma load_row_lists:
  "HasGrantedPermission p (load_permission_row m (q, b) d) \<longleftrightarrow>
     HasGrantedPermission p d \<or> (p = q \<and> b \<and> q \<in> known m \<and> \<not> HasDeniedPermission q d)"
  "HasDeniedPermission p (load_permission_row m (q, b) d) \<longleftrightarrow>
     HasDeniedPermission p d \<or> (p = q \<and> \<not> b \<and> q \<in> known m \<and> \<not> HasGrantedPermission q d)"
  by (auto simp: load_permission_row_def GrantPermission_def DenyPermission_def Let_def known_def
      AddGrantedPermission_def AddDeniedPermission_def HasGrantedPermission_def
      HasDeniedPermission_def)

lemma load_rows_first:
  "(HasGrantedPermission p (fold (load_permission_row m) rows d) \<longleftrightarrow>
     HasGrantedPermission p d \<or>
     (p \<in> known m \<and> \<not> HasDeniedPermission p d \<and> map_of rows p = Some True)) \<and>
   (HasDeniedPermission p (fold (load_permission_row m) rows d) \<longleftrightarrow>
     HasDeniedPermission p d \<or>
     (p \<in> known m \<and> \<not> HasGrantedPermission p d \<and> map_of rows p = Some False))"
proof (induction rows arbitrary: d)
  case (Cons row rows)
  obtain q b where row: "row = (q, b)" by fastforce
  show ?case by (cases b) (auto simp: Cons.IH row load_row_lists)
qed simp

lemma load_defaults_lists:
  "(HasGrantedPermission p (fold (\<lambda>p d. snd (GrantPermission m p 0 d)) ps d) \<longleftrightarrow>
     HasGrantedPermission p d \<or> (p \<in> known m \<and> \<not> HasDeniedPermission p d \<and> p \<in> set ps)) \<and>
   (HasDeniedPermission p (fold (\<lambda>p d. snd (GrantPermission m p 0 d)) ps d) \<longleftrightarrow>
     HasDeniedPermission p d)"
proof (induction ps arbitrary: d)
  case (Cons q ps)
  show ?case
    using load_row_lists [of p m q True d] by (auto simp: Cons.IH load_permission_row_def)
qed simp

lemma load_secLevel: "rd_secLevel (fold (load_permission_row m) rows d) = rd_secLevel d"
proof (induction rows arbitrary: d)
  case (Cons row rows)
  have "rd_secLevel (load_permission_row m row d) = rd_secLevel d"
    by (simp add: load_permission_row_def GrantPermission_def DenyPermission_def Let_def
        AddGrantedPermission_def AddDeniedPermission_def)
  then show ?case by (simp add: Cons.IH)
qed simp

text \<open>\<^bold>\<open>The first row of a permission decides, the defaults fill the rest.\<close> After loading, a
  permission is granted exactly if it is known and its first row grants it or it has no row
  and is a default of the account's security level; it is denied exactly if it is known and
  its first row denies it. A denied permission is not granted by a default.\<close>

theorem load_decides:
  assumes "query (rd_id d) (rd_realmId d) = Some rows"
  shows "let d' = fst (rd_LoadFromDB query m d) in
     (HasGrantedPermission p d' \<longleftrightarrow>
        GetRBACPermission m p \<noteq> None \<and>
        (case map_of rows p of
           Some granted \<Rightarrow> granted
         | None \<Rightarrow> p \<in> set (fst (GetRBACDefaultPermissions (rd_secLevel d) m)))) \<and>
     (HasDeniedPermission p d' \<longleftrightarrow> GetRBACPermission m p \<noteq> None \<and> map_of rows p = Some False)"
proof -
  define d1 where "d1 = fold (load_permission_row m) rows (ClearData d)"
  define defaults where "defaults = fst (GetRBACDefaultPermissions (rd_secLevel d) m)"
  define m' where "m' = snd (GetRBACDefaultPermissions (rd_secLevel d) m)"
  define d2 where "d2 = fold (\<lambda>p d. snd (GrantPermission m' p 0 d)) defaults d1"
  have sec: "rd_secLevel d1 = rd_secLevel d" by (simp add: d1_def load_secLevel ClearData_def)
  have ids: "rd_id (ClearData d) = rd_id d" "rd_realmId (ClearData d) = rd_realmId d"
    by (simp_all add: ClearData_def)
  have loaded: "fst (rd_LoadFromDB query m d) = CalculateNewPermissions m' d2"
    using assms sec
    by (simp add: rd_LoadFromDB_def LoadFromDBCallback_def Let_def case_prod_unfold ids
        m'_def d2_def defaults_def flip: d1_def)
  have known: "known m' = known m" by (simp add: m'_def GetRBACDefaultPermissions_def)
  have one: "HasGrantedPermission p d1 \<longleftrightarrow> p \<in> known m \<and> map_of rows p = Some True"
    "HasDeniedPermission p d1 \<longleftrightarrow> p \<in> known m \<and> map_of rows p = Some False"
    using load_rows_first [of p m rows "ClearData d"]
    by (simp_all add: d1_def ClearData_def HasGrantedPermission_def HasDeniedPermission_def)
  have two: "HasGrantedPermission p d2 \<longleftrightarrow>
      HasGrantedPermission p d1 \<or> (p \<in> known m \<and> \<not> HasDeniedPermission p d1 \<and> p \<in> set defaults)"
    "HasDeniedPermission p d2 \<longleftrightarrow> HasDeniedPermission p d1"
    using load_defaults_lists [of p m' defaults d1] by (simp_all add: d2_def known)
  have "HasGrantedPermission p (CalculateNewPermissions m' d2) = HasGrantedPermission p d2"
    "HasDeniedPermission p (CalculateNewPermissions m' d2) = HasDeniedPermission p d2"
    by (simp_all add: HasGrantedPermission_def HasDeniedPermission_def)
  then show ?thesis
    by (cases "map_of rows p") (auto simp: Let_def loaded two one known_def defaults_def)
qed

text \<open>Permission 5 is a default, but its first row denies it.\<close>

definition demo_tables :: account_mgr where
  "demo_tables = \<lparr>am_permissions = [(5, Some (new_RBACPermission 5 ''a''))],
     am_defaultPermissions = [(0, [5])]\<rparr>"

theorem load_decides_witness:
  "let d' = fst (rd_LoadFromDB (\<lambda>i r. Some [(5, False), (5, True)]) demo_tables (new_RBACData 1 ''x'' 1 0)) in
     (HasGrantedPermission 5 d' \<longleftrightarrow>
        GetRBACPermission demo_tables 5 \<noteq> None \<and>
        (case map_of [(5 :: u32, False), (5, True)] 5 of
           Some granted \<Rightarrow> granted
         | None \<Rightarrow> 5 \<in> set (fst (GetRBACDefaultPermissions (rd_secLevel (new_RBACData 1 ''x'' 1 0)) demo_tables)))) \<and>
     (HasDeniedPermission 5 d' \<longleftrightarrow>
        GetRBACPermission demo_tables 5 \<noteq> None \<and> map_of [(5 :: u32, False), (5, True)] 5 = Some False)"
  by (rule load_decides) simp

section \<open>Grant and revoke\<close>

lemma set_ok_insert_erase:
  assumes "set_ok s" and "p \<notin> set s"
  shows "sset_erase p (sset_insert p s) = s"
  using assms by (intro set_ok_ext) auto

text \<open>\<^bold>\<open>Revoking a permission just granted restores the account.\<close> If a grant on a realm is
  answered with OK, revoking the same permission is answered with OK and leaves the granted
  list, the denied list and the account's permissions as they were before the grant.\<close>

theorem revoke_undoes_grant:
  assumes "rbac_ok m d" and "GrantPermission m p realm d = (RBAC_OK, d1)" and "realm \<noteq> 0"
  shows "case RevokePermission m p realm d1 of (res, d2) \<Rightarrow>
     res = RBAC_OK \<and> rd_grantedPerms d2 = rd_grantedPerms d \<and> rd_deniedPerms d2 = rd_deniedPerms d \<and>
     set (rd_globalPerms d2) = set (rd_globalPerms d)"
proof -
  have new: "\<not> HasGrantedPermission p d" "\<not> HasDeniedPermission p d"
    and d1: "d1 = CalculateNewPermissions m (SavePermission p True realm (AddGrantedPermission p d))"
    using assms(2,3) by (auto simp: GrantPermission_def Let_def split: if_splits)
  have granted: "rd_grantedPerms d1 = sset_insert p (rd_grantedPerms d)"
    and denied: "rd_deniedPerms d1 = rd_deniedPerms d"
    by (simp_all add: d1 AddGrantedPermission_def)
  define d2 where "d2 = CalculateNewPermissions m (rd_execute (LOGIN_DEL_RBAC_ACCOUNT_PERMISSION
    (rd_id (RemoveDeniedPermission p (RemoveGrantedPermission p d1))) p realm)
      (RemoveDeniedPermission p (RemoveGrantedPermission p d1)))"
  have revoke: "RevokePermission m p realm d1 = (RBAC_OK, d2)"
    using granted assms(3) by (simp add: RevokePermission_def HasGrantedPermission_def Let_def d2_def)
  have "rd_grantedPerms d2 = rd_grantedPerms d"
    using assms(1) new(1) granted
    by (simp add: d2_def RemoveDeniedPermission_def RemoveGrantedPermission_def
        set_ok_insert_erase rbac_ok_def lists_ok_def HasGrantedPermission_def)
  moreover have "rd_deniedPerms d2 = rd_deniedPerms d"
    using new(2) denied
    by (auto simp: d2_def RemoveDeniedPermission_def RemoveGrantedPermission_def sset_erase_def
        HasDeniedPermission_def filter_id_conv)
  moreover have "set (rd_globalPerms d2) = reach m (set (rd_grantedPerms d2)) - reach m (set (rd_deniedPerms d2))"
    by (simp add: d2_def)
  ultimately show ?thesis using assms(1) by (simp add: revoke rbac_ok_def)
qed

theorem revoke_undoes_grant_witness:
  "case RevokePermission demo_tables 5 1 (snd (GrantPermission demo_tables 5 1 (new_RBACData 1 ''x'' 1 0)))
   of (res, d2) \<Rightarrow>
     res = RBAC_OK \<and> rd_grantedPerms d2 = rd_grantedPerms (new_RBACData 1 ''x'' 1 0) \<and>
     rd_deniedPerms d2 = rd_deniedPerms (new_RBACData 1 ''x'' 1 0) \<and>
     set (rd_globalPerms d2) = set (rd_globalPerms (new_RBACData 1 ''x'' 1 0))"
  by (rule revoke_undoes_grant)
    (simp_all add: rbac_ok_def lists_ok_def new_RBACData_def GrantPermission_def Let_def demo_tables_def
      GetRBACPermission_def smap_find_def HasDeniedPermission_def HasGrantedPermission_def)

section \<open>Changing the security level\<close>

lemma Load_secLevel: "rd_secLevel (fst (rd_LoadFromDB query m d)) = rd_secLevel d"
proof -
  have grants: "rd_secLevel (fold (\<lambda>p d. snd (GrantPermission m' p 0 d)) ps d) = rd_secLevel d" for m' ps d
    by (induction ps arbitrary: d) (auto simp: GrantPermission_def Let_def AddGrantedPermission_def)
  show ?thesis
    by (auto simp: rd_LoadFromDB_def LoadFromDBCallback_def Let_def case_prod_unfold
        CalculateNewPermissions_def grants load_secLevel ClearData_def split: option.split)
qed

text \<open>\<^bold>\<open>Updating an account's access never changes a session's security level.\<close>
  \<open>UpdateAccountAccess\<close> sets the level of the session's data only if it already has it (the
  comparison is \<open>==\<close>): whatever new level is given, the data in memory keeps its level, and
  if the level differs it is not even reloaded; only the database rows change.\<close>

theorem update_access_keeps_level:
  "case UpdateAccountAccess query (Some d) accountId level realm m of (rbac, m', stmts) \<Rightarrow>
     (case rbac of None \<Rightarrow> False
      | Some d' \<Rightarrow> rd_secLevel d' = rd_secLevel d \<and> (level = rd_secLevel d \<or> d' = d)) \<and>
     length stmts = (if level \<noteq> 0 then 2 else 1)"
proof (cases "level = rd_secLevel d")
  case True
  then have "d\<lparr>rd_secLevel := level\<rparr> = d" by simp
  with True show ?thesis
    using Load_secLevel [of query m d]
    by (simp add: UpdateAccountAccess_def SetSecurityLevel_def Let_def case_prod_unfold)
qed (simp add: UpdateAccountAccess_def Let_def)

end
