(* ===== verification/EventMap.thy ===== *)
theory EventMap
  imports StdContainers
begin

text \<open>
  \<^verbatim>\<open>src/src/common/Utilities/EventMap.h\<close> and \<^verbatim>\<open>EventMap.cpp\<close>: the timers of the creature
  scripts. Times are 32-bit milliseconds and wrap; an event is a word \<open>0xPPGGEEEE\<close> of phase
  bits, group bits and id. A duration argument is its number of milliseconds, and
  \<open>urand\<close> (the random generator) is an argument of the calls that use it.
\<close>

section \<open>State\<close>

type_synonym event_store = "(u32, u32) smultimap"

record event_map =
  em_time :: u32
  em_phase :: u8
  em_store :: event_store
  em_lastEvent :: u32

definition new_EventMap :: event_map where
  "new_EventMap = \<lparr>em_time = 0, em_phase = 0, em_store = [], em_lastEvent = 0\<rparr>"

definition em_Reset :: "event_map \<Rightarrow> event_map" where
  "em_Reset m = m\<lparr>em_store := [], em_time := 0, em_phase := 0\<rparr>"

definition em_Update :: "u32 \<Rightarrow> event_map \<Rightarrow> event_map" where
  "em_Update t m = m\<lparr>em_time := em_time m + t\<rparr>"

definition GetTimer :: "event_map \<Rightarrow> u32" where
  "GetTimer m = em_time m"

definition GetPhaseMask :: "event_map \<Rightarrow> u8" where
  "GetPhaseMask m = em_phase m"

definition em_Empty :: "event_map \<Rightarrow> bool" where
  "em_Empty m = (em_store m = [])"

text \<open>The bit of a phase between 1 and 8.\<close>

definition phase_bit :: "u8 \<Rightarrow> u8" where
  "phase_bit phase = push_bit (unat phase - 1) 1"

definition SetPhase :: "u8 \<Rightarrow> event_map \<Rightarrow> event_map" where
  "SetPhase phase m =
     (if phase = 0 then m\<lparr>em_phase := 0\<rparr>
      else if phase \<le> 8 then m\<lparr>em_phase := phase_bit phase\<rparr>
      else m)"

definition AddPhase :: "u8 \<Rightarrow> event_map \<Rightarrow> event_map" where
  "AddPhase phase m =
     (if phase \<noteq> 0 \<and> phase \<le> 8 then m\<lparr>em_phase := em_phase m OR phase_bit phase\<rparr> else m)"

definition RemovePhase :: "u8 \<Rightarrow> event_map \<Rightarrow> event_map" where
  "RemovePhase phase m =
     (if phase \<noteq> 0 \<and> phase \<le> 8 then m\<lparr>em_phase := em_phase m AND NOT (phase_bit phase)\<rparr> else m)"

definition IsInPhase :: "u8 \<Rightarrow> event_map \<Rightarrow> bool" where
  "IsInPhase phase m = (phase \<le> 8 \<and> (phase = 0 \<or> em_phase m AND phase_bit phase \<noteq> 0))"

section \<open>Scheduling\<close>

definition group_bit :: "u32 \<Rightarrow> u32" where
  "group_bit grp = push_bit (unat grp + 15) 1"

definition event_phase_bit :: "u8 \<Rightarrow> u32" where
  "event_phase_bit phase = push_bit (unat phase + 23) 1"

definition event_id :: "u32 \<Rightarrow> u32" where
  "event_id ev = ev AND 0x0000FFFF"

definition ScheduleEvent :: "u32 \<Rightarrow> u32 \<Rightarrow> u32 \<Rightarrow> u8 \<Rightarrow> event_map \<Rightarrow> event_map" where
  "ScheduleEvent eventId t grp phase m =
     (let eventId = (if grp \<noteq> 0 \<and> grp \<le> 8 then eventId OR group_bit grp else eventId);
          eventId = (if phase \<noteq> 0 \<and> phase \<le> 8 then eventId OR event_phase_bit phase else eventId)
      in m\<lparr>em_store := mmap_insert (em_time m + t) eventId (em_store m)\<rparr>)"

text \<open>The overload with a range takes a 32-bit phase and passes it on as 8 bits.\<close>

definition ScheduleEventRange ::
  "(u32 \<Rightarrow> u32 \<Rightarrow> u32) \<Rightarrow> u32 \<Rightarrow> int \<Rightarrow> int \<Rightarrow> u32 \<Rightarrow> u32 \<Rightarrow> event_map \<Rightarrow> event_map" where
  "ScheduleEventRange urand eventId minTime maxTime grp phase m =
     ScheduleEvent eventId (urand (word_of_int minTime) (word_of_int maxTime)) grp (ucast phase) m"

definition CancelEvent :: "u32 \<Rightarrow> event_map \<Rightarrow> event_map" where
  "CancelEvent eventId m =
     (if em_Empty m then m
      else m\<lparr>em_store := filter (\<lambda>e. \<not> eventId = event_id (snd e)) (em_store m)\<rparr>)"

definition CancelEventGroup :: "u32 \<Rightarrow> event_map \<Rightarrow> event_map" where
  "CancelEventGroup grp m =
     (if grp = 0 \<or> grp > 8 \<or> em_Empty m then m
      else m\<lparr>em_store := filter (\<lambda>e. \<not> has_flag (snd e) (group_bit grp)) (em_store m)\<rparr>)"

definition RescheduleEvent :: "u32 \<Rightarrow> u32 \<Rightarrow> u32 \<Rightarrow> u8 \<Rightarrow> event_map \<Rightarrow> event_map" where
  "RescheduleEvent eventId t grp phase m = ScheduleEvent eventId t grp phase (CancelEvent eventId m)"

definition RescheduleEventRange ::
  "(u32 \<Rightarrow> u32 \<Rightarrow> u32) \<Rightarrow> u32 \<Rightarrow> int \<Rightarrow> int \<Rightarrow> u32 \<Rightarrow> u32 \<Rightarrow> event_map \<Rightarrow> event_map" where
  "RescheduleEventRange urand eventId minTime maxTime grp phase m =
     RescheduleEvent eventId (urand (word_of_int minTime) (word_of_int maxTime)) grp (ucast phase) m"

definition Repeat :: "u32 \<Rightarrow> event_map \<Rightarrow> event_map" where
  "Repeat t m = m\<lparr>em_store := mmap_insert (em_time m + t) (em_lastEvent m) (em_store m)\<rparr>"

definition RepeatRange :: "(u32 \<Rightarrow> u32 \<Rightarrow> u32) \<Rightarrow> u32 \<Rightarrow> u32 \<Rightarrow> event_map \<Rightarrow> event_map" where
  "RepeatRange urand minTime maxTime m = Repeat (urand minTime maxTime) m"

section \<open>Executing\<close>

text \<open>An event with phase bits, none of them active, is out of phase while a phase is set.\<close>

definition out_of_phase :: "u8 \<Rightarrow> u32 \<Rightarrow> bool" where
  "out_of_phase phase ev =
     (phase \<noteq> 0 \<and> ev AND 0xFF000000 \<noteq> 0 \<and> drop_bit 24 ev AND ucast phase = 0)"

text \<open>The loop of \<open>ExecuteEvent\<close>: the id returned and the event executed, if one is.\<close>

fun execute_loop :: "u32 \<Rightarrow> u8 \<Rightarrow> event_store \<Rightarrow> (u32 \<times> u32 option) \<times> event_store" where
  "execute_loop t phase [] = ((0, None), [])"
| "execute_loop t phase ((when, ev) # store) =
     (if when > t then ((0, None), (when, ev) # store)
      else if out_of_phase phase ev then execute_loop t phase store
      else ((event_id ev, Some ev), store))"

definition ExecuteEvent :: "event_map \<Rightarrow> u32 \<times> event_map" where
  "ExecuteEvent m =
     (case execute_loop (em_time m) (em_phase m) (em_store m) of
        ((eventId, None), store) \<Rightarrow> (eventId, m\<lparr>em_store := store\<rparr>)
      | ((eventId, Some ev), store) \<Rightarrow> (eventId, m\<lparr>em_lastEvent := ev, em_store := store\<rparr>))"

section \<open>Delaying\<close>

definition DelayAll :: "u32 \<Rightarrow> event_map \<Rightarrow> event_map" where
  "DelayAll delay m = m\<lparr>em_time := (if delay < em_time m then em_time m - delay else 0)\<rparr>"

text \<open>
  \<open>DelayEvents(delay, group)\<close>: the group's events move to a second multimap with their new
  times and are then inserted again, in its order.
\<close>

definition DelayEvents :: "u32 \<Rightarrow> u32 \<Rightarrow> event_map \<Rightarrow> event_map" where
  "DelayEvents delay grp m =
     (if grp = 0 \<or> grp > 8 \<or> em_Empty m then m
      else
        let (delayed, kept) = fold (\<lambda>(when, ev) (delayed, kept).
               if has_flag ev (group_bit grp)
               then (mmap_insert (when + delay) ev delayed, kept)
               else (delayed, kept @ [(when, ev)])) (em_store m) ([], [])
        in m\<lparr>em_store := fold (\<lambda>(when, ev) store. mmap_insert when ev store) delayed kept\<rparr>)"

text \<open>
  The loop of \<open>SetMinimalDelay\<close> over the entries after the iterator: an event that is moved is
  inserted ahead, at the time \<open>delay\<close>, and met again there.
\<close>

function minimal_loop :: "u32 \<Rightarrow> u32 \<Rightarrow> event_store \<Rightarrow> event_store" where
  "minimal_loop eventId delay [] = []"
| "minimal_loop eventId delay ((when, ev) # rest) =
     (if eventId = event_id ev \<and> when < delay
      then minimal_loop eventId delay (mmap_insert delay ev rest)
      else (when, ev) # minimal_loop eventId delay rest)"
  by pat_completeness auto

termination minimal_loop
proof (relation "measures [\<lambda>(i, d, m). length (filter (\<lambda>e. fst e < d) m), \<lambda>(i, d, m). length m]")
  fix eventId delay "when" ev :: u32 and rest
  assume "eventId = event_id ev \<and> when < delay"
  moreover have "length (filter (\<lambda>e. fst e < delay) (mmap_insert delay ev rest)) =
      length (filter (\<lambda>e. fst e < delay) rest)"
    by (induction delay ev rest rule: mmap_insert.induct) auto
  ultimately show "((eventId, delay, mmap_insert delay ev rest), (eventId, delay, (when, ev) # rest))
      \<in> measures [\<lambda>(i, d, m). length (filter (\<lambda>e. fst e < d) m), \<lambda>(i, d, m). length m]"
    by simp
qed auto

definition SetMinimalDelay :: "u32 \<Rightarrow> u32 \<Rightarrow> event_map \<Rightarrow> event_map" where
  "SetMinimalDelay eventId delay m =
     (if em_Empty m then m else m\<lparr>em_store := minimal_loop eventId delay (em_store m)\<rparr>)"

section \<open>Asking\<close>

definition GetNextEventTimeOf :: "u32 \<Rightarrow> event_map \<Rightarrow> u32" where
  "GetNextEventTimeOf eventId m =
     (if em_Empty m then 0
      else case find (\<lambda>e. eventId = event_id (snd e)) (em_store m) of
             None \<Rightarrow> 0 | Some e \<Rightarrow> fst e)"

definition GetNextEventTime :: "event_map \<Rightarrow> u32" where
  "GetNextEventTime m = (case em_store m of [] \<Rightarrow> 0 | e # _ \<Rightarrow> fst e)"

definition GetTimeUntilEvent :: "u32 \<Rightarrow> event_map \<Rightarrow> u32" where
  "GetTimeUntilEvent eventId m =
     (case find (\<lambda>e. eventId = event_id (snd e)) (em_store m) of
        None \<Rightarrow> 0xFFFFFFFF | Some e \<Rightarrow> fst e - em_time m)"

end
