(* ===== verification/EventMapProps.thy ===== *)
theory EventMapProps
  imports EventMap Machine
begin

text \<open>
  What the event map executes and when: the order of the store over every sequence of calls,
  the event an execution picks, that a scheduled event fires, and what the two delaying calls
  do to the times.
\<close>

section \<open>The store stays in order\<close>

lemma ok_inserts: "mmap_ok m \<Longrightarrow> mmap_ok (fold (\<lambda>(k, v). mmap_insert k v) es m)"
  by (induction es arbitrary: m) (auto split: prod.split)

lemma mset_inserts: "mset (fold (\<lambda>(k, v). mmap_insert k v) es m) = mset es + mset m"
  by (induction es arbitrary: m) (auto split: prod.split)

lemma mmap_ok_filter_Cons: "mmap_ok (e # m) \<Longrightarrow> mmap_ok m"
  by (simp add: mmap_ok_Cons)

lemma set_minimal:
  "set (minimal_loop eventId delay m) =
     (\<lambda>(t, v). if eventId = event_id v \<and> t < delay then (delay, v) else (t, v)) ` set m"
  by (induction eventId delay m rule: minimal_loop.induct) auto

lemma mset_minimal:
  "mset (minimal_loop eventId delay m) =
     image_mset (\<lambda>(t, v). if eventId = event_id v \<and> t < delay then (delay, v) else (t, v)) (mset m)"
  by (induction eventId delay m rule: minimal_loop.induct) auto

lemma minimal_ok: "mmap_ok m \<Longrightarrow> mmap_ok (minimal_loop eventId delay m)"
proof (induction eventId delay m rule: minimal_loop.induct)
  case (2 eventId delay "when" ev rest)
  show ?case
  proof (cases "eventId = event_id ev \<and> when < delay")
    case True
    with 2 show ?thesis by (simp add: mmap_ok_Cons)
  next
    case False
    with 2 show ?thesis by (force simp: mmap_ok_Cons set_minimal)
  qed
qed simp

definition delay_split ::
  "u32 \<Rightarrow> u32 \<Rightarrow> event_store \<Rightarrow> event_store \<times> event_store \<Rightarrow> event_store \<times> event_store" where
  "delay_split delay grp m =
     fold (\<lambda>(when, ev) (delayed, kept).
        if has_flag ev (group_bit grp)
        then (mmap_insert (when + delay) ev delayed, kept)
        else (delayed, kept @ [(when, ev)])) m"

lemma delay_split_simps [simp]:
  "delay_split delay grp [] p = p"
  "delay_split delay grp ((t, v) # m) (d, k) =
     (if has_flag v (group_bit grp) then delay_split delay grp m (mmap_insert (t + delay) v d, k)
      else delay_split delay grp m (d, k @ [(t, v)]))"
  by (simp_all add: delay_split_def)

lemma delay_split_eq:
  "delay_split delay grp m (d, k) = (d', k') \<Longrightarrow>
     mset d' = mset d + image_mset (\<lambda>(t, v). (t + delay, v)) (filter_mset (\<lambda>e. has_flag (snd e) (group_bit grp)) (mset m)) \<and>
     k' = k @ filter (\<lambda>e. \<not> has_flag (snd e) (group_bit grp)) m"
proof (induction m arbitrary: d k)
  case (Cons e m)
  obtain t v where e: "e = (t, v)" by fastforce
  show ?case
  proof (cases "has_flag v (group_bit grp)")
    case True
    then have "delay_split delay grp m (mmap_insert (t + delay) v d, k) = (d', k')"
      using Cons.prems by (simp add: e)
    from Cons.IH [OF this] show ?thesis using True by (simp add: e)
  next
    case False
    then have "delay_split delay grp m (d, k @ [(t, v)]) = (d', k')" using Cons.prems by (simp add: e)
    from Cons.IH [OF this] show ?thesis using False by (simp add: e)
  qed
qed simp

lemma DelayEvents_store:
  assumes "grp \<noteq> 0" and "grp \<le> 8"
  obtains delayed where
    "em_store (DelayEvents delay grp m) = fold (\<lambda>(k, v). mmap_insert k v) delayed
        (filter (\<lambda>e. \<not> has_flag (snd e) (group_bit grp)) (em_store m))"
    and "mset delayed = image_mset (\<lambda>(t, v). (t + delay, v))
        (filter_mset (\<lambda>e. has_flag (snd e) (group_bit grp)) (mset (em_store m)))"
proof (cases "em_store m = []")
  case True
  then show ?thesis using assms that [of "[]"] by (simp add: DelayEvents_def em_Empty_def)
next
  case False
  obtain delayed kept where split: "delay_split delay grp (em_store m) ([], []) = (delayed, kept)"
    by fastforce
  moreover have "\<not> 8 < grp" using assms(2) by simp
  ultimately have "em_store (DelayEvents delay grp m) = fold (\<lambda>(k, v). mmap_insert k v) delayed kept"
    using assms(1) False by (simp add: DelayEvents_def em_Empty_def flip: delay_split_def)
  then show ?thesis using that [of delayed] delay_split_eq [OF split] by simp
qed

datatype event_call =
    CallReset | CallUpdate u32 | CallSetPhase u8 | CallAddPhase u8 | CallRemovePhase u8
  | CallSchedule u32 u32 u32 u8 | CallReschedule u32 u32 u32 u8 | CallRepeat u32 | CallExecute
  | CallDelayAll u32 | CallDelayEvents u32 u32 | CallSetMinimalDelay u32 u32
  | CallCancel u32 | CallCancelGroup u32

fun em_exec :: "event_map \<Rightarrow> event_call \<Rightarrow> event_map" where
  "em_exec m CallReset = em_Reset m"
| "em_exec m (CallUpdate t) = em_Update t m"
| "em_exec m (CallSetPhase p) = SetPhase p m"
| "em_exec m (CallAddPhase p) = AddPhase p m"
| "em_exec m (CallRemovePhase p) = RemovePhase p m"
| "em_exec m (CallSchedule i t g p) = ScheduleEvent i t g p m"
| "em_exec m (CallReschedule i t g p) = RescheduleEvent i t g p m"
| "em_exec m (CallRepeat t) = Repeat t m"
| "em_exec m CallExecute = snd (ExecuteEvent m)"
| "em_exec m (CallDelayAll d) = DelayAll d m"
| "em_exec m (CallDelayEvents d g) = DelayEvents d g m"
| "em_exec m (CallSetMinimalDelay i d) = SetMinimalDelay i d m"
| "em_exec m (CallCancel i) = CancelEvent i m"
| "em_exec m (CallCancelGroup g) = CancelEventGroup g m"

definition store_ok :: "event_map \<Rightarrow> bool" where
  "store_ok m \<longleftrightarrow> mmap_ok (em_store m)"

lemma execute_loop_split:
  "execute_loop t phase store = ((i, e), rest) \<Longrightarrow>
     \<exists>dropped. list_all (\<lambda>e. fst e \<le> t \<and> out_of_phase phase (snd e)) dropped \<and>
       (case e of
          None \<Rightarrow> i = 0 \<and> store = dropped @ rest \<and> (rest = [] \<or> fst (hd rest) > t)
        | Some ev \<Rightarrow> i = event_id ev \<and> \<not> out_of_phase phase ev \<and>
            (\<exists>when. when \<le> t \<and> store = dropped @ (when, ev) # rest))"
proof (induction t phase store rule: execute_loop.induct)
  case (1 t phase)
  then show ?case by auto
next
  case (2 t phase "when" ev store)
  show ?case
  proof (cases "when > t")
    case True
    with 2 show ?thesis by auto
  next
    case due: False
    show ?thesis
    proof (cases "out_of_phase phase ev")
      case True
      then have "execute_loop t phase store = ((i, e), rest)" using 2 due by simp
      from "2.IH" [OF due True this] obtain dropped where
        d: "list_all (\<lambda>e. fst e \<le> t \<and> out_of_phase phase (snd e)) dropped"
        "case e of None \<Rightarrow> i = 0 \<and> store = dropped @ rest \<and> (rest = [] \<or> fst (hd rest) > t)
         | Some ev \<Rightarrow> i = event_id ev \<and> \<not> out_of_phase phase ev \<and>
            (\<exists>when. when \<le> t \<and> store = dropped @ (when, ev) # rest)" by blast
      then show ?thesis using due True
        by (intro exI [of _ "(when, ev) # dropped"]) (auto split: option.splits)
    next
      case False
      with 2 due show ?thesis by (intro exI [of _ "[]"]) auto
    qed
  qed
qed

lemma mmap_ok_append: "mmap_ok (xs @ ys) \<Longrightarrow> mmap_ok ys"
  by (induction xs) (auto simp: mmap_ok_Cons)

lemma Execute_keeps: "store_ok m \<Longrightarrow> store_ok (snd (ExecuteEvent m))"
proof -
  assume ok: "store_ok m"
  obtain i e rest where loop: "execute_loop (em_time m) (em_phase m) (em_store m) = ((i, e), rest)"
    by (metis prod.exhaust)
  then have store: "em_store (snd (ExecuteEvent m)) = rest"
    by (simp add: ExecuteEvent_def split: option.split)
  from execute_loop_split [OF loop] obtain pre where "em_store m = pre @ rest \<or>
      (\<exists>x. em_store m = pre @ x # rest)" by (cases e) auto
  then have "mmap_ok rest"
    using ok mmap_ok_append by (fastforce simp: store_ok_def dest: mmap_ok_filter_Cons)
  then show ?thesis by (simp add: store_ok_def store)
qed

lemma DelayEvents_keeps: "store_ok m \<Longrightarrow> store_ok (DelayEvents delay grp m)"
proof (cases "grp = 0 \<or> grp > 8")
  case True
  then show "store_ok m \<Longrightarrow> ?thesis" by (auto simp: DelayEvents_def)
next
  case False
  then have "grp \<noteq> 0" "grp \<le> 8" by auto
  then obtain delayed where "em_store (DelayEvents delay grp m) = fold (\<lambda>(k, v). mmap_insert k v) delayed
        (filter (\<lambda>e. \<not> has_flag (snd e) (group_bit grp)) (em_store m))"
    using DelayEvents_store by metis
  then show "store_ok m \<Longrightarrow> ?thesis" by (simp add: store_ok_def ok_inserts)
qed

interpretation events: stateful em_exec "\<lambda>_. True" store_ok
proof
  fix m c assume "store_ok m"
  then show "store_ok (em_exec m c)"
    by (cases c) (simp_all add: Execute_keeps DelayEvents_keeps,
      simp_all add: store_ok_def em_Reset_def em_Update_def SetPhase_def AddPhase_def
        RemovePhase_def ScheduleEvent_def RescheduleEvent_def CancelEvent_def Repeat_def
        DelayAll_def SetMinimalDelay_def minimal_ok CancelEventGroup_def Let_def)
qed

text \<open>C37: \<^bold>\<open>An executed event is due, in phase and the first such.\<close> After any sequence of calls,
  if \<open>ExecuteEvent\<close> returns an id, it is the id of an event whose time has come and which is not
  out of phase; what it took out of the store before it are events at or before that time, all
  out of phase; every event left is at that time or later.\<close>

theorem executed_event_is_first_due:
  assumes "ExecuteEvent (run em_exec new_EventMap calls) = (eventId, m')" and "eventId \<noteq> 0"
  shows "let m = run em_exec new_EventMap calls in
     \<exists>dropped t. em_store m = dropped @ (t, em_lastEvent m') # em_store m' \<and>
       list_all (\<lambda>e. fst e \<le> t \<and> out_of_phase (em_phase m) (snd e)) dropped \<and>
       t \<le> em_time m \<and> \<not> out_of_phase (em_phase m) (em_lastEvent m') \<and>
       eventId = event_id (em_lastEvent m') \<and>
       list_all (\<lambda>e. t \<le> fst e) (em_store m')"
proof -
  define m where "m = run em_exec new_EventMap calls"
  have "store_ok new_EventMap" by (simp add: store_ok_def new_EventMap_def)
  then have "store_ok m" unfolding m_def by (rule events.run_keeps) (simp add: list.pred_True)
  then have ok: "mmap_ok (em_store m)" by (simp add: store_ok_def)
  obtain i e rest where loop: "execute_loop (em_time m) (em_phase m) (em_store m) = ((i, e), rest)"
    by (metis prod.exhaust)
  obtain dropped where d: "list_all (\<lambda>e. fst e \<le> em_time m \<and> out_of_phase (em_phase m) (snd e)) dropped"
    "case e of None \<Rightarrow> i = 0 \<and> em_store m = dropped @ rest \<and> (rest = [] \<or> fst (hd rest) > em_time m)
     | Some ev \<Rightarrow> i = event_id ev \<and> \<not> out_of_phase (em_phase m) ev \<and>
         (\<exists>when. when \<le> em_time m \<and> em_store m = dropped @ (when, ev) # rest)"
    using execute_loop_split [OF loop] by blast
  have "ExecuteEvent m = (eventId, m')" using assms(1) by (simp add: m_def)
  with loop assms(2) d(2) obtain ev where ev: "e = Some ev" "i = eventId" "em_lastEvent m' = ev"
    "em_store m' = rest" by (cases e) (auto simp: ExecuteEvent_def)
  with d(2) obtain t where t: "t \<le> em_time m" "em_store m = dropped @ (t, ev) # rest"
    "eventId = event_id ev" "\<not> out_of_phase (em_phase m) ev" by auto
  have "\<forall>x \<in> set dropped. fst x \<le> t" and "\<forall>x \<in> set rest. t \<le> fst x"
    using ok by (auto simp: t(2) mmap_ok_def sorted_append)
  then have "list_all (\<lambda>e. fst e \<le> t \<and> out_of_phase (em_phase m) (snd e)) dropped"
    and "list_all (\<lambda>e. t \<le> fst e) (em_store m')"
    using d(1) ev by (simp_all add: list_all_iff)
  then show ?thesis using t ev by (auto simp: Let_def simp flip: m_def)
qed

theorem executed_event_is_first_due_witness:
  "let m = run em_exec new_EventMap [CallSchedule 3 50 0 2, CallSchedule 4 60 0 0, CallSetPhase 1, CallUpdate 100] in
     \<exists>dropped t. em_store m = dropped @ (t, em_lastEvent (snd (ExecuteEvent m))) # em_store (snd (ExecuteEvent m)) \<and>
       list_all (\<lambda>e. fst e \<le> t \<and> out_of_phase (em_phase m) (snd e)) dropped \<and>
       t \<le> em_time m \<and> \<not> out_of_phase (em_phase m) (em_lastEvent (snd (ExecuteEvent m))) \<and>
       4 = event_id (em_lastEvent (snd (ExecuteEvent m))) \<and>
       list_all (\<lambda>e. t \<le> fst e) (em_store (snd (ExecuteEvent m)))"
  unfolding Let_def
  by (rule executed_event_is_first_due [unfolded Let_def])
    (simp_all add: new_EventMap_def ScheduleEvent_def SetPhase_def em_Update_def ExecuteEvent_def
      event_phase_bit_def phase_bit_def out_of_phase_def event_id_def)

section \<open>A scheduled event fires\<close>

lemma bit_group: "bit (group_bit grp) k \<longleftrightarrow> k = unat grp + 15 \<and> k < 32"
  by (simp add: group_bit_def bit_simps) auto

lemma bit_event_phase: "bit (event_phase_bit phase) k \<longleftrightarrow> k = unat phase + 23 \<and> k < 32"
  by (simp add: event_phase_bit_def bit_simps) auto

lemma low_mask: "(0xFFFF :: u32) = mask 16" "(0xFF000000 :: u32) = push_bit 24 (mask 8)"
  by (simp_all add: mask_eq_exp_minus_1 push_bit_eq_mult)

lemma take_bit_16_small: "(v :: u32) < 0x10000 \<Longrightarrow> take_bit 16 v = v"
  by (simp add: take_bit_eq_mod mod_word_less)

lemma event_id_small: "v < 0x10000 \<Longrightarrow> event_id v = v"
proof -
  assume "v < 0x10000"
  then have "take_bit 16 v = v" by (rule take_bit_16_small)
  then show ?thesis by (simp add: event_id_def low_mask take_bit_eq_mask)
qed

lemma event_id_or: "event_id (v OR w) = event_id v OR event_id w"
  by (simp add: event_id_def bit.conj_disj_distrib2)

lemma event_id_group: "grp \<noteq> 0 \<Longrightarrow> event_id (group_bit grp) = 0"
  by (rule bit_eqI) (auto simp: event_id_def low_mask bit_simps bit_group unat_eq_0)

lemma event_id_phase: "event_id (event_phase_bit phase) = 0"
  by (rule bit_eqI) (auto simp: event_id_def low_mask bit_simps bit_event_phase)

text \<open>The word that \<open>ScheduleEvent\<close> stores.\<close>

definition event_word :: "u32 \<Rightarrow> u32 \<Rightarrow> u8 \<Rightarrow> u32" where
  "event_word i grp phase =
     (let i = (if grp \<noteq> 0 \<and> grp \<le> 8 then i OR group_bit grp else i)
      in if phase \<noteq> 0 \<and> phase \<le> 8 then i OR event_phase_bit phase else i)"

lemma event_word_id: "i < 0x10000 \<Longrightarrow> event_id (event_word i grp phase) = i"
  by (simp add: event_word_def Let_def event_id_or event_id_group event_id_phase event_id_small)

lemma small_bit: "i < 0x10000 \<Longrightarrow> bit (i :: u32) k \<Longrightarrow> k < 16"
proof (rule ccontr)
  assume "i < 0x10000" "bit i k" "\<not> k < 16"
  then have "take_bit 16 i = i" by (simp add: take_bit_16_small)
  with \<open>bit i k\<close> \<open>\<not> k < 16\<close> show False by (metis bit_take_bit_iff)
qed

text \<open>The top byte of the word is the phase bit.\<close>

lemma event_word_top:
  assumes "i < 0x10000"
  shows "drop_bit 24 (event_word i grp phase) =
           (if phase \<noteq> 0 \<and> phase \<le> 8 then ucast (phase_bit phase) else 0)"
proof (rule bit_eqI)
  fix n assume "possible_bit TYPE(32 word) n"
  then have n: "n < 32" by simp
  have g: "\<not> bit (group_bit grp) (24 + n)" if "grp \<le> 8"
    using that by (auto simp: bit_group word_le_nat_alt)
  have i: "\<not> bit i (24 + n)" using small_bit [OF assms, of "24 + n"] by auto
  have p: "bit (event_phase_bit phase) (24 + n) \<longleftrightarrow> bit (ucast (phase_bit phase) :: u32) n"
    if "phase \<noteq> 0" "phase \<le> 8"
  proof -
    have "0 < unat phase" "unat phase \<le> 8"
      using that by (simp_all add: unat_gt_0 word_le_nat_alt)
    then show ?thesis using n by (auto simp: bit_event_phase phase_bit_def bit_simps)
  qed
  show "bit (drop_bit 24 (event_word i grp phase)) n \<longleftrightarrow>
      bit (if phase \<noteq> 0 \<and> phase \<le> 8 then ucast (phase_bit phase) else 0 :: u32) n"
    using g i p by (auto simp: event_word_def Let_def bit_drop_bit_eq bit_or_iff)
qed

lemma and_top: "(v AND 0xFF000000 :: u32) = push_bit 24 (drop_bit 24 v)"
  by (rule bit_eqI) (auto simp: low_mask bit_simps)

lemma ScheduleEvent_word:
  "ScheduleEvent i t grp phase m =
     m\<lparr>em_store := mmap_insert (em_time m + t) (event_word i grp phase) (em_store m)\<rparr>"
  by (simp add: ScheduleEvent_def event_word_def Let_def)

lemma event_word_in_phase:
  assumes "i < 0x10000" and "phase = 0 \<or> phase > 8 \<or> em_phase m = 0 \<or> IsInPhase phase m"
  shows "\<not> out_of_phase (em_phase m) (event_word i grp phase)"
proof -
  have ucast_and: "(ucast a AND ucast b :: u32) = ucast (a AND b)" for a b :: u8
    by (rule bit_eqI) (auto simp: bit_simps)
  have ucast_0: "(ucast a :: u32) = 0 \<longleftrightarrow> a = 0" for a :: u8
    by transfer (simp add: take_bit_eq_mod)
  show ?thesis
    using assms(2)
    by (auto simp: out_of_phase_def and_top event_word_top [OF assms(1)] ucast_and ucast_0
        IsInPhase_def and.commute split: if_splits)
qed

text \<open>\<^bold>\<open>A scheduled event fires when its time has come.\<close> An event with a non-zero 16-bit id,
  scheduled on an empty map with any group and with a phase that is active (or no phase), is
  returned by the first execution once the timer has advanced by its time, its group and phase
  bits not disturbing its id; and executed before that, nothing is returned. The timer must
  not wrap meanwhile.\<close>

theorem scheduled_event_fires:
  assumes "em_store m = []" and "i < 0x10000"
    and "phase = 0 \<or> phase > 8 \<or> em_phase m = 0 \<or> IsInPhase phase m"
    and "unat (em_time m) + unat t < 2 ^ 32" and "unat (em_time m) + unat elapsed < 2 ^ 32"
  shows "fst (ExecuteEvent (em_Update elapsed (ScheduleEvent i t grp phase m))) =
           (if t \<le> elapsed then i else 0)"
proof -
  have "em_time m + t \<le> em_time m + elapsed \<longleftrightarrow> t \<le> elapsed"
    using assms(4,5) by (simp add: word_le_nat_alt unat_word_ariths)
  moreover have "\<not> out_of_phase (em_phase m) (event_word i grp phase)"
    using assms(2,3) by (rule event_word_in_phase)
  ultimately show ?thesis
    using event_word_id [OF assms(2)] assms(1)
    by (auto simp: ScheduleEvent_word em_Update_def ExecuteEvent_def simp flip: not_le)
qed

theorem scheduled_event_fires_witness:
  "fst (ExecuteEvent (em_Update 500 (ScheduleEvent 7 500 3 2 (SetPhase 2 new_EventMap)))) =
     (if (500 :: u32) \<le> 500 then 7 else 0)"
  by (rule scheduled_event_fires)
    (simp_all add: SetPhase_def new_EventMap_def IsInPhase_def phase_bit_def)

section \<open>Delays\<close>

text \<open>\<^bold>\<open>Delaying a group moves its events and no others.\<close> For a group from 1 to 8 the events
  after \<open>DelayEvents\<close> are the events before it, those of the group with the delay added to
  their time (modulo 2^32), each as often as before.\<close>

theorem delay_group_exact:
  assumes "grp \<noteq> 0" and "grp \<le> 8"
  shows "mset (em_store (DelayEvents delay grp m)) =
     image_mset (\<lambda>(t, v). if has_flag v (group_bit grp) then (t + delay, v) else (t, v))
       (mset (em_store m))"
proof -
  obtain delayed where d: "em_store (DelayEvents delay grp m) =
      fold (\<lambda>(k, v). mmap_insert k v) delayed
        (filter (\<lambda>e. \<not> has_flag (snd e) (group_bit grp)) (em_store m))"
    "mset delayed = image_mset (\<lambda>(t, v). (t + delay, v))
        (filter_mset (\<lambda>e. has_flag (snd e) (group_bit grp)) (mset (em_store m)))"
    by (rule DelayEvents_store [OF assms])
  have "image_mset (\<lambda>(t, v). (t + delay, v)) (filter_mset (\<lambda>e. has_flag (snd e) F) M) +
        filter_mset (\<lambda>e. \<not> has_flag (snd e) F) M =
        image_mset (\<lambda>(t, v). if has_flag v F then (t + delay, v) else (t, v)) M" for F :: u32 and M
    by (induction M) auto
  then show ?thesis by (simp add: d mset_inserts)
qed

theorem delay_group_exact_witness:
  "mset (em_store (DelayEvents 30 2 (ScheduleEvent 5 10 2 0 (ScheduleEvent 4 10 0 0 new_EventMap)))) =
     image_mset (\<lambda>(t, v). if has_flag v (group_bit 2) then (t + 30, v) else (t, v))
       (mset (em_store (ScheduleEvent 5 10 2 0 (ScheduleEvent 4 10 0 0 new_EventMap))))"
  by (rule delay_group_exact) simp_all

text \<open>\<^bold>\<open>SetMinimalDelay raises absolute times.\<close> The loop, which inserts while it iterates,
  gives every event with the id a time of at least \<open>delay\<close> and changes no other, each as often
  as before. The times it compares are points of the timer, not delays from now: on a map
  whose timer has already reached \<open>delay\<close>, with no overdue event, it changes nothing, although
  the events with the id may be nearer than \<open>delay\<close> milliseconds.\<close>

theorem minimal_delay_is_absolute:
  "mset (em_store (SetMinimalDelay i delay m)) =
     image_mset (\<lambda>(t, v). (if i = event_id v then max t delay else t, v)) (mset (em_store m)) \<and>
   (\<exists>m2. em_time m2 = 1000 \<and> GetTimeUntilEvent 3 m2 = 10 \<and>
         GetTimeUntilEvent 3 (SetMinimalDelay 3 500 m2) = 10)"
proof
  have "image_mset (\<lambda>(t, v). if i = event_id v \<and> t < delay then (delay, v) else (t, v)) (mset (em_store m)) =
      image_mset (\<lambda>(t, v). (if i = event_id v then max t delay else t, v)) (mset (em_store m))"
    by (rule image_mset_cong) (auto simp: max_def)
  then show "mset (em_store (SetMinimalDelay i delay m)) =
     image_mset (\<lambda>(t, v). (if i = event_id v then max t delay else t, v)) (mset (em_store m))"
    by (simp add: SetMinimalDelay_def em_Empty_def mset_minimal)
  define m2 where "m2 = new_EventMap\<lparr>em_time := 1000, em_store := [(1010, 3)]\<rparr>"
  have "em_time m2 = 1000" "GetTimeUntilEvent 3 m2 = 10"
    "GetTimeUntilEvent 3 (SetMinimalDelay 3 500 m2) = 10"
    by (simp_all add: m2_def GetTimeUntilEvent_def SetMinimalDelay_def em_Empty_def event_id_def)
  then show "\<exists>m2. em_time m2 = 1000 \<and> GetTimeUntilEvent 3 m2 = 10 \<and>
         GetTimeUntilEvent 3 (SetMinimalDelay 3 500 m2) = 10" by blast
qed

end
