(* ===== verification/MessageBuffer.thy ===== *)
theory MessageBuffer
  imports ByteBuffer Machine
begin

text \<open>
  \<^verbatim>\<open>src/src/server/shared/Networking/MessageBuffer.h\<close>: the byte buffer between a socket and its
  session, and its refinement to a bounded queue. \<open>size_t\<close> arithmetic wraps at 64 bits;
  a \<open>memcpy\<close> past the end of the vector is undefined behaviour in the code and \<open>None\<close> here.
\<close>

section \<open>The buffer\<close>

record message_buffer =
  mb_wpos :: nat
  mb_rpos :: nat
  mb_storage :: "u8 list"

definition size_sub :: "nat \<Rightarrow> nat \<Rightarrow> nat" where
  "size_sub a b = (a + 2 ^ 64 - b) mod 2 ^ 64"

definition new_MessageBuffer :: "nat \<Rightarrow> message_buffer" where
  "new_MessageBuffer initialSize = \<lparr>mb_wpos = 0, mb_rpos = 0, mb_storage = vec_resize initialSize []\<rparr>"

definition default_MessageBuffer :: message_buffer where
  "default_MessageBuffer = new_MessageBuffer 4096"

definition mb_Reset :: "message_buffer \<Rightarrow> message_buffer" where
  "mb_Reset b = b\<lparr>mb_wpos := 0, mb_rpos := 0\<rparr>"

definition mb_Resize :: "nat \<Rightarrow> message_buffer \<Rightarrow> message_buffer" where
  "mb_Resize bytes b = b\<lparr>mb_storage := vec_resize bytes (mb_storage b)\<rparr>"

definition ReadCompleted :: "nat \<Rightarrow> message_buffer \<Rightarrow> message_buffer" where
  "ReadCompleted bytes b = b\<lparr>mb_rpos := size_add (mb_rpos b) bytes\<rparr>"

definition WriteCompleted :: "nat \<Rightarrow> message_buffer \<Rightarrow> message_buffer" where
  "WriteCompleted bytes b = b\<lparr>mb_wpos := size_add (mb_wpos b) bytes\<rparr>"

definition GetActiveSize :: "message_buffer \<Rightarrow> nat" where
  "GetActiveSize b = size_sub (mb_wpos b) (mb_rpos b)"

definition GetRemainingSpace :: "message_buffer \<Rightarrow> nat" where
  "GetRemainingSpace b = size_sub (length (mb_storage b)) (mb_wpos b)"

definition GetBufferSize :: "message_buffer \<Rightarrow> nat" where
  "GetBufferSize b = length (mb_storage b)"

text \<open>\<open>Normalize\<close> moves the unread bytes to the front.\<close>

definition Normalize :: "message_buffer \<Rightarrow> message_buffer" where
  "Normalize b =
     (if mb_rpos b \<noteq> 0
      then (let b' = (if mb_rpos b \<noteq> mb_wpos b
                      then b\<lparr>mb_storage := vec_copy 0
                             (take (GetActiveSize b) (drop (mb_rpos b) (mb_storage b))) (mb_storage b)\<rparr>
                      else b)
            in b'\<lparr>mb_wpos := size_sub (mb_wpos b') (mb_rpos b'), mb_rpos := 0\<rparr>)
      else b)"

definition EnsureFreeSpace :: "message_buffer \<Rightarrow> message_buffer" where
  "EnsureFreeSpace b =
     (if GetRemainingSpace b = 0
      then mb_Resize (length (mb_storage b) * 3 mod 2 ^ 64 div 2) b else b)"

definition mb_Write :: "u8 list \<Rightarrow> message_buffer \<Rightarrow> message_buffer option" where
  "mb_Write data b =
     (if data \<noteq> []
      then if mb_wpos b + length data > length (mb_storage b) then None
           else Some (WriteCompleted (length data)
                  (b\<lparr>mb_storage := vec_copy (mb_wpos b) data (mb_storage b)\<rparr>))
      else Some b)"

text \<open>Moving out: the new buffer takes positions and bytes, the old one is left empty.\<close>

definition mb_Move :: "message_buffer \<Rightarrow> u8 list \<times> message_buffer" where
  "mb_Move b = (mb_storage b, b\<lparr>mb_wpos := 0, mb_rpos := 0, mb_storage := []\<rparr>)"

definition mb_assign_move :: "message_buffer \<Rightarrow> message_buffer \<times> message_buffer" where
  "mb_assign_move right =
     (let w = mb_wpos right; r = mb_rpos right; (st, right') = mb_Move right
      in (\<lparr>mb_wpos = w, mb_rpos = r, mb_storage = st\<rparr>, right'))"

definition mb_assign :: "message_buffer \<Rightarrow> message_buffer \<Rightarrow> message_buffer" where
  "mb_assign right b =
     b\<lparr>mb_wpos := mb_wpos right, mb_rpos := mb_rpos right, mb_storage := mb_storage right\<rparr>"

text \<open>\<open>MessageBuffer(MessageBuffer&&)\<close> copies the positions before \<open>Move\<close> clears them.\<close>

definition mb_move_new :: "message_buffer \<Rightarrow> message_buffer \<times> message_buffer" where
  "mb_move_new right =
     (let (st, right') = mb_Move right
      in (\<lparr>mb_wpos = mb_wpos right, mb_rpos = mb_rpos right, mb_storage = st\<rparr>, right'))"

text \<open>
  \<open>ByteBuffer(MessageBuffer&&)\<close> takes the whole vector, with both positions at the start, so
  that a following write overwrites the received bytes.
\<close>

definition bb_from_message :: "message_buffer \<Rightarrow> byte_buffer \<times> message_buffer" where
  "bb_from_message buffer =
     (let (st, buffer') = mb_Move buffer in (\<lparr>rpos = 0, wpos = 0, storage = st\<rparr>, buffer'))"

section \<open>The bounded queue it implements\<close>

text \<open>What was read and not yet discarded, the unread bytes, the capacity.\<close>

record byte_queue =
  bq_read :: nat
  bq_pending :: "u8 list"
  bq_capacity :: nat

definition pending :: "message_buffer \<Rightarrow> u8 list" where
  "pending b = take (mb_wpos b - mb_rpos b) (drop (mb_rpos b) (mb_storage b))"

definition queue_view :: "message_buffer \<Rightarrow> byte_queue" where
  "queue_view b = \<lparr>bq_read = mb_rpos b, bq_pending = pending b, bq_capacity = length (mb_storage b)\<rparr>"

definition mb_ok :: "message_buffer \<Rightarrow> bool" where
  "mb_ok b \<longleftrightarrow> mb_rpos b \<le> mb_wpos b \<and> mb_wpos b \<le> length (mb_storage b) \<and>
     length (mb_storage b) < 2 ^ 62"

text \<open>
  A client keeps to the preconditions: it writes what fits (\<open>GetRemainingSpace\<close>), marks as read
  what is there (\<open>GetActiveSize\<close>), and grows the buffer only while it is below 2^61 bytes.
\<close>

datatype mb_call = MbWrite "u8 list" | MbRead nat | MbNormalize | MbEnsure | MbReset

fun mb_exec :: "message_buffer \<Rightarrow> mb_call \<Rightarrow> message_buffer" where
  "mb_exec b (MbWrite data) =
     (if length data \<le> GetRemainingSpace b
      then (case mb_Write data b of None \<Rightarrow> b | Some b' \<Rightarrow> b') else b)"
| "mb_exec b (MbRead n) = (if n \<le> GetActiveSize b then ReadCompleted n b else b)"
| "mb_exec b MbNormalize = Normalize b"
| "mb_exec b MbEnsure = (if GetBufferSize b < 2 ^ 61 then EnsureFreeSpace b else b)"
| "mb_exec b MbReset = mb_Reset b"

fun queue_exec :: "byte_queue \<Rightarrow> mb_call \<Rightarrow> byte_queue" where
  "queue_exec q (MbWrite data) =
     (if bq_read q + length (bq_pending q) + length data \<le> bq_capacity q
      then q\<lparr>bq_pending := bq_pending q @ data\<rparr> else q)"
| "queue_exec q (MbRead n) =
     (if n \<le> length (bq_pending q)
      then q\<lparr>bq_read := bq_read q + n, bq_pending := drop n (bq_pending q)\<rparr> else q)"
| "queue_exec q MbNormalize = q\<lparr>bq_read := 0\<rparr>"
| "queue_exec q MbEnsure =
     (if bq_read q + length (bq_pending q) = bq_capacity q \<and> bq_capacity q < 2 ^ 61
      then q\<lparr>bq_capacity := bq_capacity q * 3 div 2\<rparr> else q)"
| "queue_exec q MbReset = q\<lparr>bq_read := 0, bq_pending := []\<rparr>"

section \<open>The simulation\<close>

lemma size_sub_le: "b \<le> a \<Longrightarrow> a < 2 ^ 64 \<Longrightarrow> size_sub a b = a - b"
  unfolding size_sub_def
  by (simp only: diff_add_assoc2 mod_add_self2) (simp only: mod_less less_imp_diff_less)

lemma size_sub_self [simp]: "size_sub a a = 0"
  by (simp add: size_sub_def)

lemma take_drop_write:
  assumes "r \<le> w" and "w \<le> length xs"
  shows "take (w + length d - r) (drop r (take w xs @ d @ ys)) = take (w - r) (drop r xs) @ d"
proof -
  have "drop r (take w xs @ d @ ys) = take (w - r) (drop r xs) @ d @ ys"
    using assms by (simp add: drop_take)
  moreover have "w + length d - r = length (take (w - r) (drop r xs)) + length d"
    using assms by simp
  ultimately show ?thesis by simp
qed

lemma mb_ok_sizes:
  assumes "mb_ok b"
  shows "GetActiveSize b = mb_wpos b - mb_rpos b"
    and "GetRemainingSpace b = length (mb_storage b) - mb_wpos b"
    and "length (pending b) = mb_wpos b - mb_rpos b"
  using assms by (auto simp: mb_ok_def GetActiveSize_def GetRemainingSpace_def size_sub_le
      pending_def min_def)

lemma length_vec_resize [simp]: "length (vec_resize n xs) = n"
  by (simp add: vec_resize_def)

lemma take_drop_resize:
  "r \<le> w \<Longrightarrow> w \<le> length xs \<Longrightarrow> w \<le> n \<Longrightarrow>
   take (w - r) (drop r (vec_resize n xs)) = take (w - r) (drop r xs)"
  by (rule nth_equalityI) (auto simp: vec_resize_def nth_append)

lemma write_sim:
  assumes "mb_ok b" and "length data \<le> length (mb_storage b) - mb_wpos b"
  shows "\<exists>b'. mb_Write data b = Some b' \<and> mb_ok b' \<and> mb_rpos b' = mb_rpos b \<and>
    pending b' = pending b @ data \<and> length (mb_storage b') = length (mb_storage b)"
proof (cases "data = []")
  case True
  then show ?thesis using assms(1) by (simp add: mb_Write_def)
next
  case False
  define b' where "b' = WriteCompleted (length data)
                  (b\<lparr>mb_storage := vec_copy (mb_wpos b) data (mb_storage b)\<rparr>)"
  have fits: "mb_wpos b + length data \<le> length (mb_storage b)"
    using assms by (auto simp: mb_ok_def)
  have "size_add (mb_wpos b) (length data) = mb_wpos b + length data"
    using assms(1) fits by (intro size_add_small) (simp add: mb_ok_def)
  then have w: "mb_wpos b' = mb_wpos b + length data" "mb_rpos b' = mb_rpos b"
    and st: "mb_storage b' = take (mb_wpos b) (mb_storage b) @ data @
      drop (mb_wpos b + length data) (mb_storage b)"
    by (simp_all add: b'_def WriteCompleted_def vec_copy_def)
  have "pending b' = pending b @ data"
    using assms(1) unfolding pending_def w st by (intro take_drop_write) (simp_all add: mb_ok_def)
  moreover have "mb_ok b'" and "length (mb_storage b') = length (mb_storage b)"
    using assms(1) fits by (simp_all add: mb_ok_def w st)
  ultimately show ?thesis using False fits w by (simp add: mb_Write_def flip: b'_def)
qed

lemma normalize_sim:
  assumes "mb_ok b"
  shows "mb_ok (Normalize b)" and "queue_view (Normalize b) = (queue_view b)\<lparr>bq_read := 0\<rparr>"
proof -
  have len: "size_sub (mb_wpos b) (mb_rpos b) = mb_wpos b - mb_rpos b"
    using assms by (simp add: mb_ok_def size_sub_le)
  have st: "vec_copy 0 (take n (drop r xs)) xs = take n (drop r xs) @ drop n xs"
    if "n + r \<le> length xs" for n r and xs :: "u8 list"
    using that by (simp add: vec_copy_def min_absorb2)
  show "mb_ok (Normalize b)" "queue_view (Normalize b) = (queue_view b)\<lparr>bq_read := 0\<rparr>"
    using assms
    by (auto simp: Normalize_def Let_def GetActiveSize_def len st mb_ok_def queue_view_def pending_def)
qed

interpretation mb: simulated mb_exec "\<lambda>_. True" mb_ok queue_view queue_exec
proof
  fix b c assume ok: "mb_ok b"
  have "mb_ok (mb_exec b c) \<and> queue_view (mb_exec b c) = queue_exec (queue_view b) c"
  proof (cases c)
    case (MbWrite data)
    then show ?thesis
      using ok write_sim [OF ok, of data] by (auto simp: mb_ok_sizes queue_view_def mb_ok_def)
  next
    case (MbRead n)
    have "size_add (mb_rpos b) n = mb_rpos b + n" if "n \<le> mb_wpos b - mb_rpos b"
      using ok that by (intro size_add_small) (auto simp: mb_ok_def)
    then show ?thesis
      using ok MbRead
      by (auto simp: mb_ok_sizes queue_view_def ReadCompleted_def mb_ok_def pending_def drop_take
          add.commute)
  next
    case MbNormalize
    then show ?thesis using normalize_sim [OF ok] by simp
  next
    case MbReset
    then show ?thesis using ok by (simp add: mb_Reset_def mb_ok_def queue_view_def pending_def)
  next
    case MbEnsure
    have small: "length (mb_storage b) * 3 mod 2 ^ 64 = length (mb_storage b) * 3"
      if "length (mb_storage b) < 2 ^ 61"
      using that by simp
    show ?thesis
    proof (cases "mb_wpos b = length (mb_storage b) \<and> length (mb_storage b) < 2 ^ 61")
      case True
      then show ?thesis
        using ok small MbEnsure
        by (auto simp: EnsureFreeSpace_def mb_ok_sizes mb_Resize_def mb_ok_def queue_view_def
            GetBufferSize_def pending_def take_drop_resize)
    next
      case False
      then show ?thesis
        using ok MbEnsure
        by (auto simp: EnsureFreeSpace_def mb_ok_sizes queue_view_def GetBufferSize_def) (auto simp: mb_ok_def)
    qed
  qed
  then show "mb_ok (mb_exec b c)" and "queue_view (mb_exec b c) = queue_exec (queue_view b) c"
    by simp_all
qed

text \<open>C13: \<^bold>\<open>The message buffer is a bounded queue.\<close> Over every sequence of writes that fit, reads
  of what is there, normalisations, growths and resets, a new buffer behaves as the queue:
  the unread bytes are those written and not read, in order, normalising drops only what was
  read, growing keeps them, and the positions stay within the vector.\<close>

theorem message_buffer_is_queue:
  assumes "n < 2 ^ 61"
  shows "let b = run mb_exec (new_MessageBuffer n) calls in
     mb_rpos b \<le> mb_wpos b \<and> mb_wpos b \<le> length (mb_storage b) \<and>
     queue_view b = run queue_exec \<lparr>bq_read = 0, bq_pending = [], bq_capacity = n\<rparr> calls"
proof -
  have start: "mb_ok (new_MessageBuffer n)"
    using assms by (simp add: mb_ok_def new_MessageBuffer_def)
  have "queue_view (new_MessageBuffer n) = \<lparr>bq_read = 0, bq_pending = [], bq_capacity = n\<rparr>"
    by (simp add: queue_view_def new_MessageBuffer_def pending_def)
  moreover have "mb_ok (run mb_exec (new_MessageBuffer n) calls)"
    by (rule mb.run_keeps [OF start]) (simp add: list.pred_True)
  moreover have "queue_view (run mb_exec (new_MessageBuffer n) calls) =
      run queue_exec (queue_view (new_MessageBuffer n)) calls"
    by (rule mb.run_sim [OF start]) (simp add: list.pred_True)
  ultimately show ?thesis by (simp add: Let_def mb_ok_def)
qed

theorem message_buffer_is_queue_witness:
  "let b = run mb_exec (new_MessageBuffer 4) [MbWrite [1, 2, 3], MbRead 2, MbNormalize, MbWrite [4]] in
     mb_rpos b \<le> mb_wpos b \<and> mb_wpos b \<le> length (mb_storage b) \<and>
     queue_view b = run queue_exec \<lparr>bq_read = 0, bq_pending = [], bq_capacity = 4\<rparr>
       [MbWrite [1, 2, 3], MbRead 2, MbNormalize, MbWrite [4]]"
  by (rule message_buffer_is_queue) simp

text \<open>\<^bold>\<open>A buffer of at least two bytes always gets free space.\<close> After normalising and
  \<open>EnsureFreeSpace\<close> a consistent buffer of at least two (and fewer than 2^61) bytes has room
  for another byte and its unread bytes are the same; a full buffer of one byte never grows,
  since 1 * 3 / 2 is 1.\<close>

theorem free_space_ensured:
  assumes "mb_ok b" and "2 \<le> length (mb_storage b)" and "length (mb_storage b) < 2 ^ 61"
  shows "let b' = EnsureFreeSpace (Normalize b) in
     0 < GetRemainingSpace b' \<and> pending b' = pending b \<and>
     GetRemainingSpace (EnsureFreeSpace \<lparr>mb_wpos = 1, mb_rpos = 0, mb_storage = [x]\<rparr>) = 0"
proof -
  let ?n = "Normalize b"
  have ok: "mb_ok ?n" and view: "queue_view ?n = (queue_view b)\<lparr>bq_read := 0\<rparr>"
    using normalize_sim [OF assms(1)] by simp_all
  have size: "length (mb_storage ?n) = length (mb_storage b)" and same: "pending ?n = pending b"
    using view by (simp_all add: queue_view_def)
  have ok': "mb_ok (mb_exec ?n MbEnsure)" by (rule mb.keeps [OF ok]) simp
  have view': "queue_view (mb_exec ?n MbEnsure) = queue_exec (queue_view ?n) MbEnsure"
    by (rule mb.step_sim [OF ok]) simp
  have ensure: "mb_exec ?n MbEnsure = EnsureFreeSpace ?n"
    using assms(3) size by (simp add: GetBufferSize_def)
  have wpos: "mb_wpos (EnsureFreeSpace ?n) = mb_wpos ?n" by (simp add: EnsureFreeSpace_def mb_Resize_def)
  have "0 < GetRemainingSpace (EnsureFreeSpace ?n)"
  proof (cases "mb_wpos ?n = length (mb_storage ?n)")
    case True
    then have "length (mb_storage (EnsureFreeSpace ?n)) = length (mb_storage ?n) * 3 div 2"
      using ok assms(3) size by (simp add: EnsureFreeSpace_def mb_ok_sizes mb_Resize_def)
    then show ?thesis
      using True assms(2) size ok' wpos by (simp add: mb_ok_sizes [OF ok' [unfolded ensure]])
  next
    case False
    then show ?thesis using ok by (auto simp: EnsureFreeSpace_def mb_ok_sizes mb_ok_def)
  qed
  moreover have "pending (EnsureFreeSpace ?n) = pending b"
    using view' [unfolded ensure] same by (auto simp: queue_view_def split: if_splits)
  moreover have "GetRemainingSpace (EnsureFreeSpace \<lparr>mb_wpos = 1, mb_rpos = 0, mb_storage = [x]\<rparr>) = 0"
    by (simp add: EnsureFreeSpace_def GetRemainingSpace_def size_sub_def mb_Resize_def vec_resize_def)
  ultimately show ?thesis by (simp add: Let_def)
qed

theorem free_space_ensured_witness:
  "let b' = EnsureFreeSpace (Normalize \<lparr>mb_wpos = 2, mb_rpos = 0, mb_storage = [8, 9]\<rparr>) in
     0 < GetRemainingSpace b' \<and> pending b' = pending \<lparr>mb_wpos = 2, mb_rpos = 0, mb_storage = [8, 9]\<rparr> \<and>
     GetRemainingSpace (EnsureFreeSpace \<lparr>mb_wpos = 1, mb_rpos = 0, mb_storage = [7]\<rparr>) = 0"
  by (rule free_space_ensured) (simp_all add: mb_ok_def)

end
