(* ===== verification/Social.thy ===== *)
theory Social
  imports WorldPacket
begin

text \<open>
  \<^verbatim>\<open>src/src/server/game/Entities/Player/SocialMgr.h\<close>, \<^verbatim>\<open>SocialMgr.cpp\<close> and
  \<^verbatim>\<open>src/src/server/game/Handlers/SocialHandler.cpp\<close>: friend and ignore lists, their packets,
  the statements that keep \<open>character_social\<close> up to date, and the client's handlers. An
  operation of a list returns the statements it executes with the list after it. A player's
  \<open>m_social\<close> points to the manager's entry for his GUID from login to logout; a handler that
  runs without the entry would follow a dangling pointer (\<open>OutOfBounds\<close>). \<open>SEC_PLAYER\<close> is 0
  and \<open>SEC_GAMEMASTER1\<close> is 1.
\<close>

section \<open>The rest of the server\<close>

record social_player =
  sp_guid :: guid
  sp_name :: string
  sp_team :: u32
  sp_security :: nat
  sp_afk :: bool
  sp_dnd :: bool
  sp_zone :: u32
  sp_level :: u32
  sp_class :: u32
  sp_in_world :: bool

record social_env =
  se_FindConnectedPlayer :: "guid \<Rightarrow> social_player option"
  se_FindPlayer :: "guid \<Rightarrow> social_player option"
  IsVisibleGloballyFor :: "social_player \<Rightarrow> social_player \<Rightarrow> bool"
  CONFIG_ALLOW_TWO_SIDE_WHO_LIST :: bool
  CONFIG_GM_LEVEL_IN_WHO_LIST :: nat
  CONFIG_ALLOW_GM_FRIEND :: bool
  CONFIG_ALLOW_TWO_SIDE_ADD_FRIEND :: bool
  utf8truncate :: "string \<Rightarrow> nat \<Rightarrow> string"
  EscapeString :: "string \<Rightarrow> string"
  normalizePlayerName :: "string \<Rightarrow> string option"
  GetCharacterGuidByName :: "string \<Rightarrow> u32"
  GetCharacterCacheByGuid :: "u32 \<Rightarrow> (u8 \<times> u32) option"
  TeamForRace :: "u8 \<Rightarrow> u32"
  GetAccountSecurity :: "u32 \<Rightarrow> nat"

section \<open>State\<close>

definition SMSG_CONTACT_LIST :: u16 where "SMSG_CONTACT_LIST = 0x067"
definition SMSG_FRIEND_STATUS :: u16 where "SMSG_FRIEND_STATUS = 0x068"

datatype friend_status =
    FRIEND_STATUS_OFFLINE | FRIEND_STATUS_ONLINE | FRIEND_STATUS_AFK | FRIEND_STATUS_UNK3
  | FRIEND_STATUS_DND

fun status_code :: "friend_status \<Rightarrow> u8" where
  "status_code FRIEND_STATUS_OFFLINE = 0"
| "status_code FRIEND_STATUS_ONLINE = 1"
| "status_code FRIEND_STATUS_AFK = 2"
| "status_code FRIEND_STATUS_UNK3 = 3"
| "status_code FRIEND_STATUS_DND = 4"

definition SOCIAL_FLAG_FRIEND :: u32 where "SOCIAL_FLAG_FRIEND = 0x01"
definition SOCIAL_FLAG_IGNORED :: u32 where "SOCIAL_FLAG_IGNORED = 0x02"

definition SOCIALMGR_FRIEND_LIMIT :: nat where "SOCIALMGR_FRIEND_LIMIT = 50"
definition SOCIALMGR_IGNORE_LIMIT :: nat where "SOCIALMGR_IGNORE_LIMIT = 25"

datatype friends_result =
    FRIEND_DB_ERROR | FRIEND_LIST_FULL | FRIEND_ONLINE | FRIEND_OFFLINE | FRIEND_NOT_FOUND
  | FRIEND_REMOVED | FRIEND_ADDED_ONLINE | FRIEND_ADDED_OFFLINE | FRIEND_ALREADY | FRIEND_SELF
  | FRIEND_ENEMY | FRIEND_IGNORE_FULL | FRIEND_IGNORE_SELF | FRIEND_IGNORE_NOT_FOUND
  | FRIEND_IGNORE_ALREADY | FRIEND_IGNORE_ADDED | FRIEND_IGNORE_REMOVED
  | FRIEND_IGNORE_AMBIGUOUS | FRIEND_MUTE_FULL | FRIEND_MUTE_SELF | FRIEND_MUTE_NOT_FOUND
  | FRIEND_MUTE_ALREADY | FRIEND_MUTE_ADDED | FRIEND_MUTE_REMOVED | FRIEND_MUTE_AMBIGUOUS
  | FRIEND_UNK7 | FRIEND_UNKNOWN

fun result_code :: "friends_result \<Rightarrow> u8" where
  "result_code FRIEND_DB_ERROR = 0x00"
| "result_code FRIEND_LIST_FULL = 0x01"
| "result_code FRIEND_ONLINE = 0x02"
| "result_code FRIEND_OFFLINE = 0x03"
| "result_code FRIEND_NOT_FOUND = 0x04"
| "result_code FRIEND_REMOVED = 0x05"
| "result_code FRIEND_ADDED_ONLINE = 0x06"
| "result_code FRIEND_ADDED_OFFLINE = 0x07"
| "result_code FRIEND_ALREADY = 0x08"
| "result_code FRIEND_SELF = 0x09"
| "result_code FRIEND_ENEMY = 0x0A"
| "result_code FRIEND_IGNORE_FULL = 0x0B"
| "result_code FRIEND_IGNORE_SELF = 0x0C"
| "result_code FRIEND_IGNORE_NOT_FOUND = 0x0D"
| "result_code FRIEND_IGNORE_ALREADY = 0x0E"
| "result_code FRIEND_IGNORE_ADDED = 0x0F"
| "result_code FRIEND_IGNORE_REMOVED = 0x10"
| "result_code FRIEND_IGNORE_AMBIGUOUS = 0x11"
| "result_code FRIEND_MUTE_FULL = 0x12"
| "result_code FRIEND_MUTE_SELF = 0x13"
| "result_code FRIEND_MUTE_NOT_FOUND = 0x14"
| "result_code FRIEND_MUTE_ALREADY = 0x15"
| "result_code FRIEND_MUTE_ADDED = 0x16"
| "result_code FRIEND_MUTE_REMOVED = 0x17"
| "result_code FRIEND_MUTE_AMBIGUOUS = 0x18"
| "result_code FRIEND_UNK7 = 0x19"
| "result_code FRIEND_UNKNOWN = 0x1A"

record friend_info =
  Status :: friend_status
  fi_Flags :: u32
  Area :: u32
  Level :: u32
  Class :: u32
  Note :: string

definition new_FriendInfo :: friend_info where
  "new_FriendInfo = \<lparr>Status = FRIEND_STATUS_OFFLINE, fi_Flags = 0, Area = 0, Level = 0, Class = 0,
     Note = []\<rparr>"

definition mk_FriendInfo :: "u32 \<Rightarrow> string \<Rightarrow> friend_info" where
  "mk_FriendInfo flags note = \<lparr>Status = FRIEND_STATUS_OFFLINE, fi_Flags = flags, Area = 0,
     Level = 0, Class = 0, Note = note\<rparr>"

record player_social =
  m_playerSocialMap :: "(u32, friend_info) smap"
  m_playerGUID :: u32

definition new_PlayerSocial :: player_social where
  "new_PlayerSocial = \<lparr>m_playerSocialMap = [], m_playerGUID = 0\<rparr>"

definition SetPlayerGUID :: "u32 \<Rightarrow> player_social \<Rightarrow> player_social" where
  "SetPlayerGUID g ps = ps\<lparr>m_playerGUID := g\<rparr>"

text \<open>The statements on \<open>character_social\<close>; the note is the text put into the statement.\<close>

datatype social_statement =
    OrFlags u32 u32 u32
  | InsertSocial u32 u32 u32
  | DeleteSocial u32 u32
  | AndNotFlags u32 u32 u32
  | UpdateNote string u32 u32

section \<open>One player's list\<close>

definition GetNumberOfSocialsWithFlag :: "u32 \<Rightarrow> player_social \<Rightarrow> u32" where
  "GetNumberOfSocialsWithFlag fl ps =
     word_of_nat (length (filter (\<lambda>e. has_flag (fi_Flags (snd e)) fl) (m_playerSocialMap ps)))"

definition AddToSocialList ::
  "u32 \<Rightarrow> bool \<Rightarrow> player_social \<Rightarrow> bool \<times> social_statement list \<times> player_social" where
  "AddToSocialList friend_guid ign ps =
     (if ign \<and> GetNumberOfSocialsWithFlag SOCIAL_FLAG_IGNORED ps \<ge> word_of_nat SOCIALMGR_IGNORE_LIMIT
      then (False, [], ps)
      else if \<not> ign \<and> GetNumberOfSocialsWithFlag SOCIAL_FLAG_FRIEND ps \<ge> word_of_nat SOCIALMGR_FRIEND_LIMIT
      then (False, [], ps)
      else
        let fl = (if ign then SOCIAL_FLAG_IGNORED else SOCIAL_FLAG_FRIEND) in
        case smap_find (m_playerSocialMap ps) friend_guid of
          Some i \<Rightarrow>
            (True, [OrFlags fl (m_playerGUID ps) friend_guid],
             ps\<lparr>m_playerSocialMap := smap_put friend_guid (i\<lparr>fi_Flags := fi_Flags i OR fl\<rparr>)
                  (m_playerSocialMap ps)\<rparr>)
        | None \<Rightarrow>
            (True, [InsertSocial (m_playerGUID ps) friend_guid fl],
             ps\<lparr>m_playerSocialMap := smap_put friend_guid
                  (new_FriendInfo\<lparr>fi_Flags := fi_Flags new_FriendInfo OR fl\<rparr>)
                  (m_playerSocialMap ps)\<rparr>))"

definition RemoveFromSocialList ::
  "u32 \<Rightarrow> bool \<Rightarrow> player_social \<Rightarrow> social_statement list \<times> player_social" where
  "RemoveFromSocialList friend_guid ign ps =
     (case smap_find (m_playerSocialMap ps) friend_guid of
        None \<Rightarrow> ([], ps)
      | Some i \<Rightarrow>
          let fl = (if ign then SOCIAL_FLAG_IGNORED else SOCIAL_FLAG_FRIEND);
              i' = i\<lparr>fi_Flags := fi_Flags i AND NOT fl\<rparr>
          in if fi_Flags i' = 0
             then ([DeleteSocial (m_playerGUID ps) friend_guid],
                   ps\<lparr>m_playerSocialMap := smap_erase friend_guid (m_playerSocialMap ps)\<rparr>)
             else ([AndNotFlags fl (m_playerGUID ps) friend_guid],
                   ps\<lparr>m_playerSocialMap := smap_put friend_guid i' (m_playerSocialMap ps)\<rparr>))"

text \<open>\<open>SetFriendNote\<close>: the note kept in memory is the escaped text of the statement.\<close>

definition SetFriendNote ::
  "social_env \<Rightarrow> u32 \<Rightarrow> string \<Rightarrow> player_social \<Rightarrow> social_statement list \<times> player_social" where
  "SetFriendNote env friend_guid note ps =
     (case smap_find (m_playerSocialMap ps) friend_guid of
        None \<Rightarrow> ([], ps)
      | Some i \<Rightarrow>
          let note = EscapeString env (utf8truncate env note 48)
          in ([UpdateNote note (m_playerGUID ps) friend_guid],
              ps\<lparr>m_playerSocialMap := smap_put friend_guid (i\<lparr>Note := note\<rparr>) (m_playerSocialMap ps)\<rparr>))"

definition HasFriend :: "u32 \<Rightarrow> player_social \<Rightarrow> bool" where
  "HasFriend g ps =
     (case smap_find (m_playerSocialMap ps) g of
        Some i \<Rightarrow> has_flag (fi_Flags i) SOCIAL_FLAG_FRIEND | None \<Rightarrow> False)"

definition ps_HasIgnore :: "u32 \<Rightarrow> player_social \<Rightarrow> bool" where
  "ps_HasIgnore g ps =
     (case smap_find (m_playerSocialMap ps) g of
        Some i \<Rightarrow> has_flag (fi_Flags i) SOCIAL_FLAG_IGNORED | None \<Rightarrow> False)"

text \<open>\<open>GetFriendInfo(player, friendGUID, friendInfo)\<close>; \<open>social\<close> is the player's own list.\<close>

definition GetFriendInfo ::
  "social_env \<Rightarrow> social_player option \<Rightarrow> player_social \<Rightarrow> u32 \<Rightarrow> friend_info \<Rightarrow> friend_info" where
  "GetFriendInfo env player social friendGUID info =
     (case player of
        None \<Rightarrow> info
      | Some plr \<Rightarrow>
          let info = info\<lparr>Status := FRIEND_STATUS_OFFLINE, Area := 0, Level := 0, Class := 0\<rparr> in
          case se_FindConnectedPlayer env (mk_guid HighGuid_Player friendGUID) of
            None \<Rightarrow> info
          | Some pFriend \<Rightarrow>
              let info = (case smap_find (m_playerSocialMap social) friendGUID of
                            Some own \<Rightarrow> info\<lparr>Note := Note own\<rparr> | None \<Rightarrow> info)
              in if sp_name pFriend \<noteq> [] \<and>
                    (sp_security plr > 0 \<or>
                     ((sp_team pFriend = sp_team plr \<or> CONFIG_ALLOW_TWO_SIDE_WHO_LIST env) \<and>
                      sp_security pFriend \<le> CONFIG_GM_LEVEL_IN_WHO_LIST env)) \<and>
                    IsVisibleGloballyFor env pFriend plr
                 then info\<lparr>Status := (if sp_dnd pFriend then FRIEND_STATUS_DND
                                      else if sp_afk pFriend then FRIEND_STATUS_AFK
                                      else FRIEND_STATUS_ONLINE),
                           Area := sp_zone pFriend, Level := sp_level pFriend,
                           Class := sp_class pFriend\<rparr>
                 else info)"

text \<open>
  \<open>SendSocialList\<close> refreshes every entry (in place) while it writes the packet. It returns the
  packet sent to the player, if he is connected, and the list after it.
\<close>

definition put_contact :: "u32 \<times> friend_info \<Rightarrow> world_packet \<Rightarrow> world_packet" where
  "put_contact e d =
     (let i = snd e;
          d = put_u64 (ucast (fst e)) d;
          d = put_u32 (fi_Flags i) d;
          d = put_string (Note i) d
      in if has_flag (fi_Flags i) SOCIAL_FLAG_FRIEND
         then let d = put_u8 (status_code (Status i)) d
              in if Status i \<noteq> FRIEND_STATUS_OFFLINE
                 then put_u32 (Class i) (put_u32 (Level i) (put_u32 (Area i) d)) else d
         else d)"

definition SendSocialList ::
  "social_env \<Rightarrow> player_social \<Rightarrow> (guid \<times> world_packet) list \<times> player_social" where
  "SendSocialList env ps =
     (case se_FindConnectedPlayer env (mk_guid HighGuid_Player (m_playerGUID ps)) of
        None \<Rightarrow> ([], ps)
      | Some plr \<Rightarrow>
          let size = (word_of_nat (length (m_playerSocialMap ps)) :: u32);
              data = put_u32 size (put_u32 7 (wp_new SMSG_CONTACT_LIST));
              ps' = ps\<lparr>m_playerSocialMap := map (\<lambda>e. (fst e, GetFriendInfo env (Some plr) ps (fst e) (snd e)))
                        (m_playerSocialMap ps)\<rparr>;
              data = fold put_contact (m_playerSocialMap ps') data
          in ([(sp_guid plr, data)], ps'))"

section \<open>The manager\<close>

record social_world =
  m_socialMap :: "(u32, player_social) smap"
  social_sql :: "social_statement list"
  social_out :: "(guid \<times> world_packet) list"

definition social_send :: "guid \<Rightarrow> world_packet \<Rightarrow> social_world \<Rightarrow> social_world" where
  "social_send g d w = w\<lparr>social_out := social_out w @ [(g, d)]\<rparr>"

definition RemovePlayerSocial :: "u32 \<Rightarrow> social_world \<Rightarrow> social_world" where
  "RemovePlayerSocial g w = w\<lparr>m_socialMap := smap_erase g (m_socialMap w)\<rparr>"

definition GetDefault :: "u32 \<Rightarrow> social_world \<Rightarrow> social_world" where
  "GetDefault g w = w\<lparr>m_socialMap := smap_modify new_PlayerSocial g (SetPlayerGUID g) (m_socialMap w)\<rparr>"

text \<open>The rows (friend, flags, note); the loop ends at the limit of both lists together.\<close>

fun load_social_rows :: "(u32 \<times> u8 \<times> string) list \<Rightarrow> player_social \<Rightarrow> player_social" where
  "load_social_rows [] ps = ps"
| "load_social_rows ((friend_guid, flags, note) # rows) ps =
     (let ps = ps\<lparr>m_playerSocialMap :=
                 smap_put friend_guid (mk_FriendInfo (ucast flags) note) (m_playerSocialMap ps)\<rparr>
      in if length (m_playerSocialMap ps) \<ge> SOCIALMGR_FRIEND_LIMIT + SOCIALMGR_IGNORE_LIMIT
         then ps else load_social_rows rows ps)"

definition social_LoadFromDB ::
  "(u32 \<times> u8 \<times> string) list option \<Rightarrow> u32 \<Rightarrow> social_world \<Rightarrow> social_world" where
  "social_LoadFromDB result g w =
     (let w = GetDefault g w in
      case result of
        None \<Rightarrow> w
      | Some rows \<Rightarrow>
          w\<lparr>m_socialMap := smap_modify new_PlayerSocial g (load_social_rows rows) (m_socialMap w)\<rparr>)"

definition MakeFriendStatusPacket :: "friends_result \<Rightarrow> u32 \<Rightarrow> world_packet \<Rightarrow> world_packet" where
  "MakeFriendStatusPacket result g data =
     put_u64 (ucast g) (put_u8 (result_code result) (wp_Initialize SMSG_FRIEND_STATUS data))"

text \<open>Every player who lists \<open>player\<close> as a friend, is in the world and may see him.\<close>

definition BroadcastToFriendListers ::
  "social_env \<Rightarrow> social_player option \<Rightarrow> world_packet \<Rightarrow> social_world \<Rightarrow> social_world" where
  "BroadcastToFriendListers env player packet w =
     (case player of
        None \<Rightarrow> w
      | Some plr \<Rightarrow>
          fold (\<lambda>(g, ps) w.
            case smap_find (m_playerSocialMap ps) (GetCounter (sp_guid plr)) of
              None \<Rightarrow> w
            | Some i \<Rightarrow>
                if has_flag (fi_Flags i) SOCIAL_FLAG_FRIEND
                then case se_FindPlayer env (mk_guid HighGuid_Player g) of
                       None \<Rightarrow> w
                     | Some pFriend \<Rightarrow>
                         if sp_in_world pFriend \<and>
                            (sp_security pFriend > 0 \<or>
                             (sp_team pFriend = sp_team plr \<or>
                              (CONFIG_ALLOW_TWO_SIDE_WHO_LIST env \<and>
                               sp_security plr \<le> CONFIG_GM_LEVEL_IN_WHO_LIST env))) \<and>
                            IsVisibleGloballyFor env plr pFriend
                         then social_send (sp_guid pFriend) packet w else w
                else w)
            (m_socialMap w) w)"

definition SendFriendStatus ::
  "social_env \<Rightarrow> social_player \<Rightarrow> player_social \<Rightarrow> friends_result \<Rightarrow> u32 \<Rightarrow> bool \<Rightarrow>
   social_world \<Rightarrow> social_world" where
  "SendFriendStatus env player social result friend_guid broadcast w =
     (let data = MakeFriendStatusPacket result friend_guid wp_empty;
          fi = GetFriendInfo env (Some player) social friend_guid new_FriendInfo;
          data = (if result = FRIEND_ADDED_OFFLINE \<or> result = FRIEND_ADDED_ONLINE
                  then put_string (Note fi) data else data);
          data = (if result = FRIEND_ADDED_ONLINE \<or> result = FRIEND_ONLINE
                  then put_u32 (Class fi) (put_u32 (Level fi) (put_u32 (Area fi)
                         (put_u8 (status_code (Status fi)) data)))
                  else data)
      in if broadcast then BroadcastToFriendListers env (Some player) data w
         else social_send (sp_guid player) data w)"

section \<open>Client handlers\<close>

text \<open>\<open>_player->GetSocial()\<close>, and a call on it with its statements executed.\<close>

definition social_of :: "social_player \<Rightarrow> social_world \<Rightarrow> bb_error + player_social" where
  "social_of plr w =
     (case smap_find (m_socialMap w) (GetCounter (sp_guid plr)) of
        None \<Rightarrow> Inl OutOfBounds | Some ps \<Rightarrow> Inr ps)"

definition social_store ::
  "social_player \<Rightarrow> social_statement list \<times> player_social \<Rightarrow> social_world \<Rightarrow> social_world" where
  "social_store plr res w =
     w\<lparr>m_socialMap := smap_put (GetCounter (sp_guid plr)) (snd res) (m_socialMap w),
       social_sql := social_sql w @ fst res\<rparr>"

definition HandleContactListOpcode ::
  "social_env \<Rightarrow> social_player \<Rightarrow> world_packet \<Rightarrow> social_world \<Rightarrow> bb_error + social_world" where
  "HandleContactListOpcode env plr recvData w =
     (case fst (shr_u32 recvData) of
        Inl e \<Rightarrow> Inl e
      | Inr unk \<Rightarrow>
          (case social_of plr w of
             Inl e \<Rightarrow> Inl e
           | Inr ps \<Rightarrow>
               let (out, ps') = SendSocialList env ps
               in Inr ((social_store plr ([], ps') w)\<lparr>social_out := social_out w @ out\<rparr>)))"

text \<open>
  Adding a friend: the result, and the list with its statements. The note is set whenever the
  name belongs to a character that may be a friend, also where adding was refused.
\<close>

definition add_friend ::
  "social_env \<Rightarrow> social_player \<Rightarrow> u32 \<Rightarrow> string \<Rightarrow> player_social \<Rightarrow>
   friends_result \<times> social_statement list \<times> player_social" where
  "add_friend env plr friendGuid friendNote ps =
     (if friendGuid = 0 then (FRIEND_NOT_FOUND, [], ps)
      else case GetCharacterCacheByGuid env friendGuid of
        None \<Rightarrow> (FRIEND_NOT_FOUND, [], ps)
      | Some (race, friendAccountId) \<Rightarrow>
          let team = TeamForRace env race in
          if sp_security plr \<ge> 1 \<or> CONFIG_ALLOW_GM_FRIEND env \<or>
             GetAccountSecurity env friendAccountId < 1
          then
            let (res, stmts, ps1) =
              (if (ucast friendGuid :: u64) = sp_guid plr then (FRIEND_SELF, [], ps)
               else if sp_team plr \<noteq> team \<and> \<not> CONFIG_ALLOW_TWO_SIDE_ADD_FRIEND env \<and>
                       sp_security plr < 1
               then (FRIEND_ENEMY, [], ps)
               else if HasFriend friendGuid ps then (FRIEND_ALREADY, [], ps)
               else
                 let res = (case se_FindPlayer env (mk_guid HighGuid_Player friendGuid) of
                              None \<Rightarrow> FRIEND_ADDED_OFFLINE
                            | Some pFriend \<Rightarrow>
                                if sp_in_world pFriend \<and> IsVisibleGloballyFor env pFriend plr
                                then FRIEND_ADDED_ONLINE else FRIEND_ADDED_OFFLINE);
                     (ok, stmts, ps') = AddToSocialList friendGuid False ps
                 in (if ok then res else FRIEND_LIST_FULL, stmts, ps'));
                (stmts2, ps2) = SetFriendNote env friendGuid friendNote ps1
            in (res, stmts @ stmts2, ps2)
          else (FRIEND_NOT_FOUND, [], ps))"

definition HandleAddFriendOpcode ::
  "social_env \<Rightarrow> social_player \<Rightarrow> world_packet \<Rightarrow> social_world \<Rightarrow> bb_error + social_world" where
  "HandleAddFriendOpcode env plr recvData w =
     (case fst (andThen shr_string (\<lambda>n. andThen shr_string (\<lambda>note. ret (n, note))) recvData) of
        Inl e \<Rightarrow> Inl e
      | Inr (friendName, friendNote) \<Rightarrow>
          (case normalizePlayerName env friendName of
             None \<Rightarrow> Inr w
           | Some friendName \<Rightarrow>
               (case social_of plr w of
                  Inl e \<Rightarrow> Inl e
                | Inr ps \<Rightarrow>
                    let friendGuid = GetCharacterGuidByName env friendName;
                        (res, stmts, ps') = add_friend env plr friendGuid friendNote ps
                    in Inr (SendFriendStatus env plr ps' res friendGuid False
                              (social_store plr (stmts, ps') w)))))"

definition remove_social ::
  "bool \<Rightarrow> friends_result \<Rightarrow> social_env \<Rightarrow> social_player \<Rightarrow> world_packet \<Rightarrow> social_world \<Rightarrow>
   bb_error + social_world" where
  "remove_social ign res env plr recvData w =
     (case fst (shr_guid recvData) of
        Inl e \<Rightarrow> Inl e
      | Inr g \<Rightarrow>
          (case social_of plr w of
             Inl e \<Rightarrow> Inl e
           | Inr ps \<Rightarrow>
               let (stmts, ps') = RemoveFromSocialList (GetCounter g) ign ps
               in Inr (SendFriendStatus env plr ps' res (GetCounter g) False
                         (social_store plr (stmts, ps') w))))"

definition HandleDelFriendOpcode ::
  "social_env \<Rightarrow> social_player \<Rightarrow> world_packet \<Rightarrow> social_world \<Rightarrow> bb_error + social_world" where
  "HandleDelFriendOpcode = remove_social False FRIEND_REMOVED"

definition HandleDelIgnoreOpcode ::
  "social_env \<Rightarrow> social_player \<Rightarrow> world_packet \<Rightarrow> social_world \<Rightarrow> bb_error + social_world" where
  "HandleDelIgnoreOpcode = remove_social True FRIEND_IGNORE_REMOVED"

definition add_ignore ::
  "social_player \<Rightarrow> u32 \<Rightarrow> player_social \<Rightarrow> friends_result \<times> social_statement list \<times> player_social" where
  "add_ignore plr ignoreGuid ps =
     (if ignoreGuid = 0 then (FRIEND_IGNORE_NOT_FOUND, [], ps)
      else if (ucast ignoreGuid :: u64) = sp_guid plr then (FRIEND_IGNORE_SELF, [], ps)
      else if ps_HasIgnore ignoreGuid ps then (FRIEND_IGNORE_ALREADY, [], ps)
      else let (ok, stmts, ps') = AddToSocialList ignoreGuid True ps
           in (if ok then FRIEND_IGNORE_ADDED else FRIEND_IGNORE_FULL, stmts, ps'))"

definition HandleAddIgnoreOpcode ::
  "social_env \<Rightarrow> social_player \<Rightarrow> world_packet \<Rightarrow> social_world \<Rightarrow> bb_error + social_world" where
  "HandleAddIgnoreOpcode env plr recvData w =
     (case fst (shr_string recvData) of
        Inl e \<Rightarrow> Inl e
      | Inr ignoreName \<Rightarrow>
          (case normalizePlayerName env ignoreName of
             None \<Rightarrow> Inr w
           | Some ignoreName \<Rightarrow>
               (case social_of plr w of
                  Inl e \<Rightarrow> Inl e
                | Inr ps \<Rightarrow>
                    let ignoreGuid = GetCharacterGuidByName env ignoreName;
                        (res, stmts, ps') = add_ignore plr ignoreGuid ps
                    in Inr (SendFriendStatus env plr ps' res ignoreGuid False
                              (social_store plr (stmts, ps') w)))))"

definition HandleSetContactNotesOpcode ::
  "social_env \<Rightarrow> social_player \<Rightarrow> world_packet \<Rightarrow> social_world \<Rightarrow> bb_error + social_world" where
  "HandleSetContactNotesOpcode env plr recvData w =
     (case fst (andThen shr_guid (\<lambda>g. andThen shr_string (\<lambda>note. ret (g, note))) recvData) of
        Inl e \<Rightarrow> Inl e
      | Inr (g, note) \<Rightarrow>
          (case social_of plr w of
             Inl e \<Rightarrow> Inl e
           | Inr ps \<Rightarrow> Inr (social_store plr (SetFriendNote env (ucast g) note ps) w)))"

end
