(* ===== verification/SocialProps.thy ===== *)
theory SocialProps
  imports Social Machine
begin

text \<open>
  What holds of the social lists: a list implements two bounded sets of friends and ignored
  players, its statements keep the player's rows of \<open>character_social\<close> equal to it, and what
  the packet for a friend who is not connected holds.
\<close>

section \<open>The rows of the table\<close>

text \<open>The flags of the row of (player, friend); notes are not followed.\<close>

type_synonym social_table = "u32 \<times> u32 \<Rightarrow> u32 option"

fun apply_social :: "social_statement \<Rightarrow> social_table \<Rightarrow> social_table" where
  "apply_social (OrFlags fl g f) t = t((g, f) := map_option (\<lambda>x. x OR fl) (t (g, f)))"
| "apply_social (InsertSocial g f fl) t = (if t (g, f) = None then t((g, f) := Some fl) else t)"
| "apply_social (DeleteSocial g f) t = t((g, f) := None)"
| "apply_social (AndNotFlags fl g f) t = t((g, f) := map_option (\<lambda>x. x AND NOT fl) (t (g, f)))"
| "apply_social (UpdateNote note g f) t = t"

section \<open>Calls, and the two sets they work on\<close>

datatype social_call =
    CallAddSocial u32 bool
  | CallRemoveSocial u32 bool
  | CallSetNote social_env u32 string
  | CallSendSocial social_env

fun social_exec :: "player_social \<times> social_table \<Rightarrow> social_call \<Rightarrow> player_social \<times> social_table" where
  "social_exec (ps, t) (CallAddSocial f ign) =
     (case AddToSocialList f ign ps of (ok, stmts, ps') \<Rightarrow> (ps', fold apply_social stmts t))"
| "social_exec (ps, t) (CallRemoveSocial f ign) =
     (case RemoveFromSocialList f ign ps of (stmts, ps') \<Rightarrow> (ps', fold apply_social stmts t))"
| "social_exec (ps, t) (CallSetNote env f note) =
     (case SetFriendNote env f note ps of (stmts, ps') \<Rightarrow> (ps', fold apply_social stmts t))"
| "social_exec (ps, t) (CallSendSocial env) = (snd (SendSocialList env ps), t)"

fun lists_spec :: "u32 set \<times> u32 set \<Rightarrow> social_call \<Rightarrow> u32 set \<times> u32 set" where
  "lists_spec (F, I) (CallAddSocial f ign) =
     (if ign then (F, if card I < SOCIALMGR_IGNORE_LIMIT then insert f I else I)
      else (if card F < SOCIALMGR_FRIEND_LIMIT then insert f F else F, I))"
| "lists_spec (F, I) (CallRemoveSocial f ign) = (if ign then (F, I - {f}) else (F - {f}, I))"
| "lists_spec (F, I) (CallSetNote env f note) = (F, I)"
| "lists_spec (F, I) (CallSendSocial env) = (F, I)"

section \<open>Flags of an entry\<close>

definition flags_of :: "player_social \<Rightarrow> u32 \<Rightarrow> u32" where
  "flags_of ps f = (case smap_find (m_playerSocialMap ps) f of None \<Rightarrow> 0 | Some i \<Rightarrow> fi_Flags i)"

definition listed_as :: "u32 \<Rightarrow> player_social \<Rightarrow> u32 set" where
  "listed_as fl ps = {f. has_flag (flags_of ps f) fl}"

lemma listed_as_simps:
  "{f. HasFriend f ps} = listed_as SOCIAL_FLAG_FRIEND ps"
  "{f. ps_HasIgnore f ps} = listed_as SOCIAL_FLAG_IGNORED ps"
  by (auto simp: HasFriend_def ps_HasIgnore_def listed_as_def flags_of_def split: option.splits)

definition row_of :: "player_social \<Rightarrow> u32 \<Rightarrow> u32 option" where
  "row_of ps f = map_option fi_Flags (smap_find (m_playerSocialMap ps) f)"

text \<open>
  The invariant: the map is ordered, its flags say friend, ignored or both, the rows are those
  of the map, and the limits hold.
\<close>

definition social_ok :: "u32 \<Rightarrow> player_social \<times> social_table \<Rightarrow> bool" where
  "social_ok g st \<longleftrightarrow> (case st of (ps, t) \<Rightarrow>
     m_playerGUID ps = g \<and> map_ok (m_playerSocialMap ps) \<and>
     (\<forall>f. row_of ps f \<in> {None, Some 1, Some 2, Some 3}) \<and>
     t = (\<lambda>(g', f). if g' = g then row_of ps f else None) \<and>
     card (listed_as SOCIAL_FLAG_FRIEND ps) \<le> SOCIALMGR_FRIEND_LIMIT \<and>
     card (listed_as SOCIAL_FLAG_IGNORED ps) \<le> SOCIALMGR_IGNORE_LIMIT)"

definition lists_of :: "player_social \<times> social_table \<Rightarrow> u32 set \<times> u32 set" where
  "lists_of st = (listed_as SOCIAL_FLAG_FRIEND (fst st), listed_as SOCIAL_FLAG_IGNORED (fst st))"

lemma flags_row: "flags_of ps f = (case row_of ps f of None \<Rightarrow> 0 | Some x \<Rightarrow> x)"
  by (simp add: flags_of_def row_of_def split: option.split)

lemma number_is_card:
  assumes "map_ok (m_playerSocialMap ps)"
  shows "length (filter (\<lambda>e. has_flag (fi_Flags (snd e)) fl) (m_playerSocialMap ps)) =
         card (listed_as fl ps)"
proof -
  let ?es = "filter (\<lambda>e. has_flag (fi_Flags (snd e)) fl) (m_playerSocialMap ps)"
  have "distinct (map fst ?es)"
    using map_ok_distinct [OF assms] by (simp add: distinct_map_filter)
  then have "length ?es = card (fst ` set ?es)"
    using distinct_card [of "map fst ?es"] by simp
  moreover have "f \<in> fst ` set ?es \<longleftrightarrow>
      (\<exists>i. smap_find (m_playerSocialMap ps) f = Some i \<and> has_flag (fi_Flags i) fl)" for f
    by (auto simp: image_iff Bex_def in_set_find [OF assms])
  then have "fst ` set ?es = {f. \<exists>i. smap_find (m_playerSocialMap ps) f = Some i \<and> has_flag (fi_Flags i) fl}"
    by blast
  moreover have "listed_as fl ps = \<dots>"
    by (auto simp: listed_as_def flags_of_def split: option.split)
  ultimately show ?thesis by simp
qed

lemma limit_reached:
  assumes "map_ok (m_playerSocialMap ps)" and "card (listed_as fl ps) \<le> n" and "n < 2 ^ 32"
  shows "(GetNumberOfSocialsWithFlag fl ps \<ge> word_of_nat n) = (\<not> card (listed_as fl ps) < n)"
proof -
  have "unat (word_of_nat k :: u32) = k" if "k \<le> n" for k
    using that assms(3) by (simp add: unat_of_nat take_bit_nat_eq_self)
  then show ?thesis
    using assms(2) by (auto simp: GetNumberOfSocialsWithFlag_def number_is_card [OF assms(1)]
      word_le_nat_alt)
qed

section \<open>One operation\<close>

lemma listed_as_row: "listed_as fl ps = {f. has_flag (case row_of ps f of None \<Rightarrow> 0 | Some x \<Rightarrow> x) fl}"
  by (simp add: listed_as_def flags_row)

lemma flag_values [simp]:
  "has_flag (1 :: u32) SOCIAL_FLAG_FRIEND" "\<not> has_flag (1 :: u32) SOCIAL_FLAG_IGNORED"
  "\<not> has_flag (2 :: u32) SOCIAL_FLAG_FRIEND" "has_flag (2 :: u32) SOCIAL_FLAG_IGNORED"
  "has_flag (3 :: u32) SOCIAL_FLAG_FRIEND" "has_flag (3 :: u32) SOCIAL_FLAG_IGNORED"
  by (simp_all add: has_flag_def SOCIAL_FLAG_FRIEND_def SOCIAL_FLAG_IGNORED_def)

definition social_flag :: "bool \<Rightarrow> u32" where
  "social_flag ign = (if ign then SOCIAL_FLAG_IGNORED else SOCIAL_FLAG_FRIEND)"

lemma add_row:
  assumes "AddToSocialList f ign ps = (True, stmts, ps')"
  shows "row_of ps' = (row_of ps)(f := Some (flags_of ps f OR social_flag ign))"
    and "m_playerGUID ps' = m_playerGUID ps"
    and "map_ok (m_playerSocialMap ps) \<Longrightarrow> map_ok (m_playerSocialMap ps')"
    and "t (m_playerGUID ps, f) = row_of ps f \<Longrightarrow>
         fold apply_social stmts t = t((m_playerGUID ps, f) := row_of ps' f)"
  using assms
  by (auto simp: AddToSocialList_def Let_def row_of_def flags_of_def social_flag_def fun_eq_iff
      new_FriendInfo_def split: if_splits option.splits)

lemma remove_row:
  assumes "RemoveFromSocialList f ign ps = (stmts, ps')"
  shows "row_of ps' = (row_of ps)(f := (let x = flags_of ps f AND NOT (social_flag ign)
                                        in if x = 0 then None else Some x))"
    and "m_playerGUID ps' = m_playerGUID ps"
    and "map_ok (m_playerSocialMap ps) \<Longrightarrow> map_ok (m_playerSocialMap ps')"
    and "t (m_playerGUID ps, f) = row_of ps f \<Longrightarrow>
         fold apply_social stmts t = t((m_playerGUID ps, f) := row_of ps' f)"
  using assms
  by (auto simp: RemoveFromSocialList_def Let_def row_of_def flags_of_def social_flag_def
      fun_eq_iff split: if_splits option.splits)

lemma note_row:
  assumes "SetFriendNote env f note ps = (stmts, ps')"
  shows "row_of ps' = row_of ps" and "m_playerGUID ps' = m_playerGUID ps"
    and "map_ok (m_playerSocialMap ps) \<Longrightarrow> map_ok (m_playerSocialMap ps')"
    and "fold apply_social stmts t = t"
  using assms
  by (auto simp: SetFriendNote_def Let_def row_of_def fun_eq_iff split: option.splits)

lemma send_row:
  "row_of (snd (SendSocialList env ps)) = row_of ps"
  "m_playerGUID (snd (SendSocialList env ps)) = m_playerGUID ps"
  "map_ok (m_playerSocialMap ps) \<Longrightarrow> map_ok (m_playerSocialMap (snd (SendSocialList env ps)))"
proof -
  have flags: "fi_Flags (GetFriendInfo env plr s f i) = fi_Flags i" for plr s f i
    by (simp add: GetFriendInfo_def Let_def split: option.split)
  have keep: "map_option fi_Flags
        (map_of (map (\<lambda>e. (fst e, GetFriendInfo env plr s (fst e) (snd e))) m) f) =
      map_option fi_Flags (map_of m f)" for plr s m f
    by (induction m) (auto simp: flags)
  show "row_of (snd (SendSocialList env ps)) = row_of ps"
    by (auto simp: SendSocialList_def Let_def row_of_def smap_find_def fun_eq_iff keep
        split: option.split)
  show "m_playerGUID (snd (SendSocialList env ps)) = m_playerGUID ps"
    by (simp add: SendSocialList_def Let_def split: option.split)
  show "map_ok (m_playerSocialMap (snd (SendSocialList env ps)))" if "map_ok (m_playerSocialMap ps)"
    using that by (simp add: SendSocialList_def Let_def map_ok_def comp_def split: option.split)
qed

text \<open>The flag arithmetic on the four values an entry can have.\<close>

lemma listed_add:
  assumes "row_of ps' = (row_of ps)(f := Some (flags_of ps f OR social_flag ign))"
    and "row_of ps f \<in> {None, Some 1, Some 2, Some 3}"
  shows "listed_as SOCIAL_FLAG_FRIEND ps' =
      (if ign then listed_as SOCIAL_FLAG_FRIEND ps else insert f (listed_as SOCIAL_FLAG_FRIEND ps))"
    and "listed_as SOCIAL_FLAG_IGNORED ps' =
      (if ign then insert f (listed_as SOCIAL_FLAG_IGNORED ps) else listed_as SOCIAL_FLAG_IGNORED ps)"
    and "row_of ps' f \<in> {None, Some 1, Some 2, Some 3}"
  using assms
  by (auto simp: listed_as_row flags_row social_flag_def has_flag_def SOCIAL_FLAG_FRIEND_def
      SOCIAL_FLAG_IGNORED_def)

lemma listed_remove:
  assumes "row_of ps' = (row_of ps)(f := (let x = flags_of ps f AND NOT (social_flag ign)
                                          in if x = 0 then None else Some x))"
    and "row_of ps f \<in> {None, Some 1, Some 2, Some 3}"
  shows "listed_as SOCIAL_FLAG_FRIEND ps' =
      (if ign then listed_as SOCIAL_FLAG_FRIEND ps else listed_as SOCIAL_FLAG_FRIEND ps - {f})"
    and "listed_as SOCIAL_FLAG_IGNORED ps' =
      (if ign then listed_as SOCIAL_FLAG_IGNORED ps - {f} else listed_as SOCIAL_FLAG_IGNORED ps)"
    and "row_of ps' f \<in> {None, Some 1, Some 2, Some 3}"
  using assms
  by (auto simp: listed_as_row flags_row social_flag_def has_flag_def SOCIAL_FLAG_FRIEND_def
      SOCIAL_FLAG_IGNORED_def Let_def)

lemma add_decides:
  assumes "social_ok g (ps, t)"
  obtains stmts ps' where
    "(if ign then card (listed_as SOCIAL_FLAG_IGNORED ps) < SOCIALMGR_IGNORE_LIMIT
      else card (listed_as SOCIAL_FLAG_FRIEND ps) < SOCIALMGR_FRIEND_LIMIT)"
    "AddToSocialList f ign ps = (True, stmts, ps')"
  | "\<not> (if ign then card (listed_as SOCIAL_FLAG_IGNORED ps) < SOCIALMGR_IGNORE_LIMIT
         else card (listed_as SOCIAL_FLAG_FRIEND ps) < SOCIALMGR_FRIEND_LIMIT)"
    "AddToSocialList f ign ps = (False, [], ps)"
proof -
  have lim: "(GetNumberOfSocialsWithFlag SOCIAL_FLAG_IGNORED ps \<ge> word_of_nat SOCIALMGR_IGNORE_LIMIT) =
       (\<not> card (listed_as SOCIAL_FLAG_IGNORED ps) < SOCIALMGR_IGNORE_LIMIT)"
    "(GetNumberOfSocialsWithFlag SOCIAL_FLAG_FRIEND ps \<ge> word_of_nat SOCIALMGR_FRIEND_LIMIT) =
       (\<not> card (listed_as SOCIAL_FLAG_FRIEND ps) < SOCIALMGR_FRIEND_LIMIT)"
    using assms by (intro limit_reached;
      simp add: social_ok_def SOCIALMGR_IGNORE_LIMIT_def SOCIALMGR_FRIEND_LIMIT_def)+
  show ?thesis
  proof (cases "if ign then card (listed_as SOCIAL_FLAG_IGNORED ps) < SOCIALMGR_IGNORE_LIMIT
      else card (listed_as SOCIAL_FLAG_FRIEND ps) < SOCIALMGR_FRIEND_LIMIT")
    case True
    then have "\<exists>stmts ps'. AddToSocialList f ign ps = (True, stmts, ps')"
      by (cases "smap_find (m_playerSocialMap ps) f")
        (simp_all add: AddToSocialList_def lim Let_def split: if_splits)
    then show ?thesis using that(1) True by blast
  next
    case False
    then have "AddToSocialList f ign ps = (False, [], ps)"
      by (simp add: AddToSocialList_def lim split: if_splits)
    then show ?thesis using that(2) False by blast
  qed
qed

text \<open>An operation that rewrites the row of one friend and its statement keep the rows equal.\<close>

lemma rows_step:
  assumes "social_ok g (ps, t)" and "row_of ps' = (row_of ps)(f := row_of ps' f)"
    and "m_playerGUID ps' = m_playerGUID ps" and "map_ok (m_playerSocialMap ps')"
    and "t' = t((m_playerGUID ps, f) := row_of ps' f)"
    and "row_of ps' f \<in> {None, Some 1, Some 2, Some 3}"
    and "card (listed_as SOCIAL_FLAG_FRIEND ps') \<le> SOCIALMGR_FRIEND_LIMIT"
    and "card (listed_as SOCIAL_FLAG_IGNORED ps') \<le> SOCIALMGR_IGNORE_LIMIT"
  shows "social_ok g (ps', t')"
proof -
  have row: "row_of ps' x = (if x = f then row_of ps' f else row_of ps x)" for x
    using fun_cong [OF assms(2), of x] by (simp split: if_splits)
  have "t' (g', x) = (if g' = g then row_of ps' x else None)" for g' x
    using assms(1,5) row [of x] by (cases "x = f") (simp_all add: social_ok_def)
  then have "t' = (\<lambda>(g', f). if g' = g then row_of ps' f else None)" by (simp add: fun_eq_iff)
  moreover have "row_of ps' x \<in> {None, Some 1, Some 2, Some 3}" for x
    using assms(1,6) row [of x] by (auto simp: social_ok_def)
  ultimately show ?thesis using assms by (simp add: social_ok_def)
qed

text \<open>An operation that leaves every row alone keeps the invariant and the two sets.\<close>

lemma rows_same:
  assumes "social_ok g (ps, t)" and "row_of ps' = row_of ps"
    and "m_playerGUID ps' = m_playerGUID ps" and "map_ok (m_playerSocialMap ps')"
  shows "social_ok g (ps', t) \<and> lists_of (ps', t) = lists_of (ps, t)"
proof -
  have "listed_as fl ps' = listed_as fl ps" for fl using assms(2) by (simp add: listed_as_row)
  moreover have "(\<lambda>(g', f). if g' = g then row_of ps' f else None) =
      (\<lambda>(g', f). if g' = g then row_of ps f else None)" using assms(2) by (simp only:)
  ultimately show ?thesis using assms by (simp add: social_ok_def lists_of_def)
qed

lemma social_step_ok:
  assumes "social_ok g st"
  shows "social_ok g (social_exec st c) \<and> lists_of (social_exec st c) = lists_spec (lists_of st) c"
proof -
  obtain ps t where st: "st = (ps, t)" by fastforce
  note ok = assms [unfolded st]
  have t_row: "t (m_playerGUID ps, f) = row_of ps f" and r: "row_of ps f \<in> {None, Some 1, Some 2, Some 3}" for f
    using ok by (simp_all add: social_ok_def)
  show ?thesis
  proof (cases c)
    case (CallAddSocial f ign)
    show ?thesis
    proof (rule add_decides [OF ok, of ign f])
      fix stmts ps'
      assume room: "if ign then card (listed_as SOCIAL_FLAG_IGNORED ps) < SOCIALMGR_IGNORE_LIMIT
          else card (listed_as SOCIAL_FLAG_FRIEND ps) < SOCIALMGR_FRIEND_LIMIT"
        and add: "AddToSocialList f ign ps = (True, stmts, ps')"
      note sets = listed_add [OF add_row(1) [OF add] r]
      have "social_ok g (ps', fold apply_social stmts t)"
      proof (rule rows_step [OF ok _ _ _ _ sets(3)])
        show "row_of ps' = (row_of ps)(f := row_of ps' f)" by (simp add: add_row(1) [OF add])
        show "card (listed_as SOCIAL_FLAG_FRIEND ps') \<le> SOCIALMGR_FRIEND_LIMIT"
          "card (listed_as SOCIAL_FLAG_IGNORED ps') \<le> SOCIALMGR_IGNORE_LIMIT"
          using ok room by (auto simp: sets social_ok_def card_insert_if)
      qed (use ok in \<open>simp_all add: add_row(2-4) [OF add] t_row social_ok_def\<close>)
      then show ?thesis
        using room add sets by (simp add: st CallAddSocial lists_of_def)
    next
      assume "\<not> (if ign then card (listed_as SOCIAL_FLAG_IGNORED ps) < SOCIALMGR_IGNORE_LIMIT
          else card (listed_as SOCIAL_FLAG_FRIEND ps) < SOCIALMGR_FRIEND_LIMIT)"
        and "AddToSocialList f ign ps = (False, [], ps)"
      then show ?thesis
        using ok by (simp add: st CallAddSocial lists_of_def split: if_splits)
    qed
  next
    case (CallRemoveSocial f ign)
    obtain stmts ps' where rem: "RemoveFromSocialList f ign ps = (stmts, ps')" by fastforce
    note sets = listed_remove [OF remove_row(1) [OF rem] r]
    have "social_ok g (ps', fold apply_social stmts t)"
    proof (rule rows_step [OF ok _ _ _ _ sets(3)])
      show "row_of ps' = (row_of ps)(f := row_of ps' f)" by (simp add: remove_row(1) [OF rem])
      show "card (listed_as SOCIAL_FLAG_FRIEND ps') \<le> SOCIALMGR_FRIEND_LIMIT"
        "card (listed_as SOCIAL_FLAG_IGNORED ps') \<le> SOCIALMGR_IGNORE_LIMIT"
        using ok by (auto simp: sets social_ok_def card_Diff_singleton_if)
    qed (use ok in \<open>simp_all add: remove_row(2-4) [OF rem] t_row social_ok_def\<close>)
    then show ?thesis using rem sets by (simp add: st CallRemoveSocial lists_of_def)
  next
    case (CallSetNote env f msg)
    obtain stmts ps' where set: "SetFriendNote env f msg ps = (stmts, ps')" by fastforce
    then show ?thesis
      using rows_same [OF ok note_row(1,2) [OF set]] note_row(3,4) [OF set] ok
      by (simp add: st CallSetNote social_ok_def) (simp add: lists_of_def)
  next
    case (CallSendSocial env)
    then show ?thesis
      using rows_same [OF ok send_row(1,2)] send_row(3) ok
      by (simp add: st social_ok_def) (simp add: lists_of_def)
  qed
qed

interpretation social: simulated social_exec "\<lambda>_. True" "social_ok g" lists_of lists_spec for g
  by unfold_locales (simp_all add: social_step_ok)

definition fresh_social :: "u32 \<Rightarrow> player_social \<times> social_table" where
  "fresh_social g = (SetPlayerGUID g new_PlayerSocial, \<lambda>_. None)"

lemma fresh_social_ok: "social_ok g (fresh_social g)" "lists_of (fresh_social g) = ({}, {})"
  by (auto simp: fresh_social_def social_ok_def lists_of_def SetPlayerGUID_def new_PlayerSocial_def
      row_of_def listed_as_row fun_eq_iff)

text \<open>C15: \<^bold>\<open>A social list is two bounded sets, and the database follows it.\<close> After any sequence of
  additions, removals, note changes and transmissions of a new player's list, the friends and
  the ignored are the two sets that the calls describe (an addition counts only while the list
  is below its limit), at most 50 and at most 25, and the executed statements have left exactly
  one row per listed player, of this player only, with the flags friend, ignored or both.\<close>

theorem social_list_is_two_sets:
  "case run social_exec (fresh_social g) calls of (ps, t) \<Rightarrow>
   case run lists_spec ({}, {}) calls of (F, I) \<Rightarrow>
     {f. HasFriend f ps} = F \<and> {f. ps_HasIgnore f ps} = I \<and> card F \<le> 50 \<and> card I \<le> 25 \<and>
     t = (\<lambda>(g', f). if g' = g \<and> f \<in> F \<union> I
                   then Some ((if f \<in> F then 1 else 0) OR (if f \<in> I then 2 else 0)) else None)"
proof -
  obtain ps t where st: "run social_exec (fresh_social g) calls = (ps, t)" by fastforce
  have ok: "social_ok g (ps, t)"
    using social.run_keeps [OF fresh_social_ok(1), of calls g] by (simp add: st list.pred_True)
  have lists: "run lists_spec ({}, {}) calls =
      (listed_as SOCIAL_FLAG_FRIEND ps, listed_as SOCIAL_FLAG_IGNORED ps)"
    using social.run_sim [OF fresh_social_ok(1), of calls g]
    by (simp add: st list.pred_True fresh_social_ok(2)) (simp add: lists_of_def)
  have row: "row_of ps f = (if f \<in> listed_as SOCIAL_FLAG_FRIEND ps \<union> listed_as SOCIAL_FLAG_IGNORED ps
      then Some ((if f \<in> listed_as SOCIAL_FLAG_FRIEND ps then 1 else 0)
                 OR (if f \<in> listed_as SOCIAL_FLAG_IGNORED ps then 2 else 0)) else None)" for f
  proof -
    have "row_of ps f \<in> {None, Some 1, Some 2, Some 3}" using ok by (simp add: social_ok_def)
    then show ?thesis by (auto simp: listed_as_row)
  qed
  have "t = (\<lambda>(g', f). if g' = g then row_of ps f else None)"
    using ok by (simp add: social_ok_def)
  then show ?thesis
    using ok by (simp add: st lists listed_as_simps social_ok_def SOCIALMGR_FRIEND_LIMIT_def
      SOCIALMGR_IGNORE_LIMIT_def fun_eq_iff row)
qed

section \<open>The packet about a friend\<close>

text \<open>\<^bold>\<open>The note of a friend added while offline is lost.\<close> The packet that answers the adding
  of a friend who is not connected ends with the note of a fresh entry, the empty string,
  whatever the player's list says: \<open>GetFriendInfo\<close> returns before it copies the note.\<close>

theorem offline_friend_note_lost:
  assumes "se_FindConnectedPlayer env (mk_guid HighGuid_Player g) = None"
  shows "\<exists>d. packet_is SMSG_FRIEND_STATUS ([7] @ le_bytes (ucast g :: u64) @ [0]) d \<and>
     social_out (SendFriendStatus env plr ps FRIEND_ADDED_OFFLINE g False w) =
       social_out w @ [(sp_guid plr, d)]"
proof -
  define d where "d = put_string [] (MakeFriendStatusPacket FRIEND_ADDED_OFFLINE g wp_empty)"
  have "packet_is SMSG_FRIEND_STATUS ([] @ [7]) (put_u8 7 (wp_Initialize SMSG_FRIEND_STATUS wp_empty))"
    by (rule packet_put(1)) (simp_all add: room_def)
  then have "packet_is SMSG_FRIEND_STATUS (([] @ [7]) @ le_bytes (ucast g :: u64))
      (MakeFriendStatusPacket FRIEND_ADDED_OFFLINE g wp_empty)"
    unfolding MakeFriendStatusPacket_def result_code.simps
    by (rule packet_put(3)) (simp add: room_def sizeof_word_def)
  then have "packet_is SMSG_FRIEND_STATUS ((([] @ [7]) @ le_bytes (ucast g :: u64)) @ string_bytes []) d"
    unfolding d_def by (rule packet_put(4)) (simp add: room_def sizeof_word_def string_bytes_def)
  moreover have "social_out (SendFriendStatus env plr ps FRIEND_ADDED_OFFLINE g False w) =
      social_out w @ [(sp_guid plr, d)]"
    using assms by (simp add: SendFriendStatus_def GetFriendInfo_def new_FriendInfo_def Let_def
        social_send_def d_def)
  ultimately show ?thesis by (auto simp: string_bytes_def)
qed

definition demo_social_player :: social_player where
  "demo_social_player = \<lparr>sp_guid = 7, sp_name = ''Ann'', sp_team = 469, sp_security = 0,
     sp_afk = False, sp_dnd = False, sp_zone = 1, sp_level = 70, sp_class = 1, sp_in_world = True\<rparr>"

definition demo_social_env :: social_env where
  "demo_social_env = \<lparr>
     se_FindConnectedPlayer = (\<lambda>g. if g = 7 then Some demo_social_player else None),
     se_FindPlayer = (\<lambda>g. if g = 7 then Some demo_social_player else None),
     IsVisibleGloballyFor = (\<lambda>a b. True), CONFIG_ALLOW_TWO_SIDE_WHO_LIST = False,
     CONFIG_GM_LEVEL_IN_WHO_LIST = 0, CONFIG_ALLOW_GM_FRIEND = False,
     CONFIG_ALLOW_TWO_SIDE_ADD_FRIEND = False, utf8truncate = (\<lambda>s n. take n s),
     EscapeString = (\<lambda>s. s), normalizePlayerName = Some, GetCharacterGuidByName = (\<lambda>n. 9),
     GetCharacterCacheByGuid = (\<lambda>g. Some (1, 1)), TeamForRace = (\<lambda>r. 469),
     GetAccountSecurity = (\<lambda>a. 0)\<rparr>"

theorem offline_friend_note_lost_witness:
  "\<exists>d. packet_is SMSG_FRIEND_STATUS ([7] @ le_bytes (ucast (9 :: u32) :: u64) @ [0]) d \<and>
     social_out (SendFriendStatus demo_social_env demo_social_player new_PlayerSocial
                   FRIEND_ADDED_OFFLINE 9 False \<lparr>m_socialMap = [], social_sql = [], social_out = []\<rparr>) =
       social_out \<lparr>m_socialMap = [], social_sql = [], social_out = []\<rparr> @
         [(sp_guid demo_social_player, d)]"
  by (rule offline_friend_note_lost)
    (simp add: demo_social_env_def mk_guid_def HighGuid_Player_def)

end
