(* ===== verification/EventProcessor.thy ===== *)
theory EventProcessor
  imports StdContainers
begin

text \<open>
  \<^verbatim>\<open>src/src/common/Utilities/EventProcessor.h\<close> and \<^verbatim>\<open>EventProcessor.cpp\<close>: the queue of timed
  events of an object. An event is a heap object behind a pointer: here a number, with its
  fields in \<open>heap\<close>. The virtual functions of the events are the record \<open>event_class\<close>; a
  callback may use the processor it is called from, so it maps processors to processors.
  Deletions and aborts are recorded in \<open>ep_log\<close>, and a failed \<open>ASSERT\<close> in \<open>ep_failed\<close>
  (the process stops there; the model goes on and the flag stays set).
\<close>

section \<open>State\<close>

datatype abort_state = STATE_RUNNING | STATE_ABORT_SCHEDULED | STATE_ABORTED

record basic_event =
  m_abortState :: abort_state
  m_addTime :: u64
  m_execTime :: u64

definition new_BasicEvent :: basic_event where
  "new_BasicEvent = \<lparr>m_abortState = STATE_RUNNING, m_addTime = 0, m_execTime = 0\<rparr>"

datatype ep_action =
    ExecuteCalled nat u64 u32
  | AbortCalled nat u64
  | Deleted nat

record event_processor =
  m_time :: u64
  m_events :: "(u64, nat) smultimap"
  m_aborting :: bool
  heap :: "nat \<Rightarrow> basic_event"
  ep_log :: "ep_action list"
  ep_failed :: bool

record event_class =
  Execute :: "nat \<Rightarrow> u64 \<Rightarrow> u32 \<Rightarrow> event_processor \<Rightarrow> bool \<times> event_processor"
  IsDeletable :: "nat \<Rightarrow> event_processor \<Rightarrow> bool"
  Abort :: "nat \<Rightarrow> u64 \<Rightarrow> event_processor \<Rightarrow> event_processor"

definition new_EventProcessor :: event_processor where
  "new_EventProcessor = \<lparr>m_time = 0, m_events = [], m_aborting = False, heap = (\<lambda>_. new_BasicEvent),
     ep_log = [], ep_failed = False\<rparr>"

definition ep_record :: "ep_action \<Rightarrow> event_processor \<Rightarrow> event_processor" where
  "ep_record a p = p\<lparr>ep_log := ep_log p @ [a]\<rparr>"

definition with_event :: "nat \<Rightarrow> (basic_event \<Rightarrow> basic_event) \<Rightarrow> event_processor \<Rightarrow> event_processor" where
  "with_event ev f p = p\<lparr>heap := (heap p)(ev := f (heap p ev))\<rparr>"

definition IsRunning :: "nat \<Rightarrow> event_processor \<Rightarrow> bool" where
  "IsRunning ev p = (m_abortState (heap p ev) = STATE_RUNNING)"

definition IsAbortScheduled :: "nat \<Rightarrow> event_processor \<Rightarrow> bool" where
  "IsAbortScheduled ev p = (m_abortState (heap p ev) = STATE_ABORT_SCHEDULED)"

definition IsAborted :: "nat \<Rightarrow> event_processor \<Rightarrow> bool" where
  "IsAborted ev p = (m_abortState (heap p ev) = STATE_ABORTED)"

definition ScheduleAbort :: "nat \<Rightarrow> event_processor \<Rightarrow> event_processor" where
  "ScheduleAbort ev p =
     with_event ev (\<lambda>e. e\<lparr>m_abortState := STATE_ABORT_SCHEDULED\<rparr>)
       (if IsRunning ev p then p else p\<lparr>ep_failed := True\<rparr>)"

definition SetAborted :: "nat \<Rightarrow> event_processor \<Rightarrow> event_processor" where
  "SetAborted ev p =
     with_event ev (\<lambda>e. e\<lparr>m_abortState := STATE_ABORTED\<rparr>)
       (if \<not> IsAborted ev p then p else p\<lparr>ep_failed := True\<rparr>)"

section \<open>Queueing\<close>

definition AddEvent :: "nat \<Rightarrow> u64 \<Rightarrow> bool \<Rightarrow> event_processor \<Rightarrow> event_processor" where
  "AddEvent ev e_time set_addtime p =
     (let p = (if set_addtime then with_event ev (\<lambda>e. e\<lparr>m_addTime := m_time p\<rparr>) p else p);
          p = with_event ev (\<lambda>e. e\<lparr>m_execTime := e_time\<rparr>) p
      in p\<lparr>m_events := mmap_insert e_time ev (m_events p)\<rparr>)"

definition CalculateTime :: "u64 \<Rightarrow> event_processor \<Rightarrow> u64" where
  "CalculateTime t_offset p = m_time p + t_offset"

text \<open>The remainder by 0 is undefined in the code.\<close>

definition CalculateQueueTime :: "u64 \<Rightarrow> event_processor \<Rightarrow> u64 option" where
  "CalculateQueueTime delay p =
     (if delay = 0 then None else Some (CalculateTime (delay - (m_time p mod delay)) p))"

definition AddEventAtOffset :: "nat \<Rightarrow> u64 \<Rightarrow> event_processor \<Rightarrow> event_processor" where
  "AddEventAtOffset ev offset p = AddEvent ev (CalculateTime offset p) True p"

text \<open>The overload with two offsets draws between the first and the first.\<close>

definition AddEventAtOffsetRange ::
  "(u32 \<Rightarrow> u32 \<Rightarrow> u32) \<Rightarrow> nat \<Rightarrow> u64 \<Rightarrow> u64 \<Rightarrow> event_processor \<Rightarrow> event_processor" where
  "AddEventAtOffsetRange urand ev offset offset2 p =
     AddEvent ev (CalculateTime (ucast (urand (ucast offset) (ucast offset))) p) True p"

text \<open>The loop leaves at the first entry of the event.\<close>

fun erase_first :: "nat \<Rightarrow> (u64, nat) smultimap \<Rightarrow> (u64, nat) smultimap" where
  "erase_first ev [] = []"
| "erase_first ev ((t, e) # es) = (if e = ev then es else (t, e) # erase_first ev es)"

definition ModifyEventTime :: "nat \<Rightarrow> u64 \<Rightarrow> event_processor \<Rightarrow> event_processor" where
  "ModifyEventTime ev newTime p =
     (if ev \<in> snd ` set (m_events p)
      then (with_event ev (\<lambda>e. e\<lparr>m_execTime := newTime\<rparr>) p)
             \<lparr>m_events := mmap_insert newTime ev (erase_first ev (m_events p))\<rparr>
      else p)"

section \<open>The update\<close>

text \<open>One turn of the loop, the entry of the event being out of the queue already.\<close>

definition ep_turn :: "event_class \<Rightarrow> u32 \<Rightarrow> nat \<Rightarrow> event_processor \<Rightarrow> event_processor" where
  "ep_turn cl p_time ev p =
     (if IsRunning ev p
      then (case Execute cl ev (m_time p) p_time (ep_record (ExecuteCalled ev (m_time p) p_time) p) of
              (done, p) \<Rightarrow> if done then ep_record (Deleted ev) p else p)
      else
        let p = (if IsAbortScheduled ev p
                 then SetAborted ev (Abort cl ev (m_time p) (ep_record (AbortCalled ev (m_time p)) p))
                 else p)
        in if IsDeletable cl ev p then ep_record (Deleted ev) p
           else AddEvent ev (CalculateTime 1 p) False p)"

text \<open>The loop returns only if no callback keeps queueing due events: \<open>None\<close> is no return.\<close>

partial_function (option) ep_loop ::
  "event_class \<Rightarrow> u32 \<Rightarrow> event_processor \<Rightarrow> event_processor option" where
  "ep_loop cl p_time p =
     (case m_events p of
        [] \<Rightarrow> Some p
      | e # es \<Rightarrow>
          if fst e \<le> m_time p
          then ep_loop cl p_time (ep_turn cl p_time (snd e) (p\<lparr>m_events := es\<rparr>))
          else Some p)"

definition ep_Update :: "event_class \<Rightarrow> u32 \<Rightarrow> event_processor \<Rightarrow> event_processor option" where
  "ep_Update cl p_time p = ep_loop cl p_time (p\<lparr>m_time := m_time p + ucast p_time\<rparr>)"

section \<open>Killing all events\<close>

text \<open>
  The iterator is the entry it stands on; the entry behind it is looked up in the queue as it
  is when the iterator moves. (An event is queued at most once, so entries are distinct.)
\<close>

definition entry_after :: "u64 \<times> nat \<Rightarrow> (u64, nat) smultimap \<Rightarrow> (u64 \<times> nat) option" where
  "entry_after e es =
     (case dropWhile (\<lambda>x. x \<noteq> e) es of [] \<Rightarrow> None | _ # rest \<Rightarrow>
        (case rest of [] \<Rightarrow> None | x # _ \<Rightarrow> Some x))"

definition kill_turn ::
  "event_class \<Rightarrow> bool \<Rightarrow> u64 \<times> nat \<Rightarrow> event_processor \<Rightarrow> (u64 \<times> nat) option \<times> event_processor" where
  "kill_turn cl force e p =
     (let ev = snd e;
          p = (if \<not> IsAborted ev p
               then let p = SetAborted ev p
                    in Abort cl ev (m_time p) (ep_record (AbortCalled ev (m_time p)) p)
               else p)
      in if \<not> force \<and> \<not> IsDeletable cl ev p then (entry_after e (m_events p), p)
         else
           let p = ep_record (Deleted ev) p;
               nxt = entry_after e (m_events p)
           in if force then (nxt, p) else (nxt, p\<lparr>m_events := remove1 e (m_events p)\<rparr>))"

partial_function (option) kill_loop ::
  "event_class \<Rightarrow> bool \<Rightarrow> (u64 \<times> nat) option \<Rightarrow> event_processor \<Rightarrow> event_processor option" where
  "kill_loop cl force itr p =
     (case itr of
        None \<Rightarrow> Some p
      | Some e \<Rightarrow> (case kill_turn cl force e p of (nxt, p) \<Rightarrow> kill_loop cl force nxt p))"

definition KillAllEvents :: "event_class \<Rightarrow> bool \<Rightarrow> event_processor \<Rightarrow> event_processor option" where
  "KillAllEvents cl force p =
     (let p = p\<lparr>m_aborting := True\<rparr> in
      map_option (\<lambda>p. if force then p\<lparr>m_events := []\<rparr> else p)
        (kill_loop cl force (case m_events p of [] \<Rightarrow> None | e # _ \<Rightarrow> Some e) p))"

text \<open>The destructor.\<close>

definition destroy_EventProcessor :: "event_class \<Rightarrow> event_processor \<Rightarrow> event_processor option" where
  "destroy_EventProcessor cl p = KillAllEvents cl True p"

end
