(* ===== verification/EventProcessorProps.thy ===== *)
theory EventProcessorProps
  imports EventProcessor
begin

text \<open>
  What holds of the event processor: an update returns unless a callback keeps queueing due
  events, and killing all events aborts and deletes exactly the events that were queued.
\<close>

section \<open>Updates return\<close>

text \<open>The entries whose time has come.\<close>

definition due :: "event_processor \<Rightarrow> nat" where
  "due p = length (filter (\<lambda>e. fst e \<le> m_time p) (m_events p))"

text \<open>Callbacks that leave the clock alone and do not add to the due entries.\<close>

definition calm :: "event_class \<Rightarrow> bool" where
  "calm cl \<longleftrightarrow>
     (\<forall>ev t pt p. m_time (snd (Execute cl ev t pt p)) = m_time p \<and>
                  due (snd (Execute cl ev t pt p)) \<le> due p) \<and>
     (\<forall>ev t p. m_time (Abort cl ev t p) = m_time p \<and> due (Abort cl ev t p) \<le> due p)"

lemma due_unchanged [simp]:
  "due (ep_record a p) = due p" "due (with_event ev f p) = due p" "due (SetAborted ev p) = due p"
  by (simp_all add: due_def ep_record_def with_event_def SetAborted_def)

lemma time_unchanged [simp]:
  "m_time (ep_record a p) = m_time p" "m_time (with_event ev f p) = m_time p"
  "m_time (SetAborted ev p) = m_time p" "m_time (AddEvent ev t b p) = m_time p"
  by (simp_all add: ep_record_def with_event_def SetAborted_def AddEvent_def Let_def)

lemma filter_mmap_insert: "\<not> P (t, ev) \<Longrightarrow> length (filter P (mmap_insert t ev es)) = length (filter P es)"
  by (induction t ev es rule: mmap_insert.induct) auto

lemma due_AddEvent_later:
  assumes "m_time p < t"
  shows "due (AddEvent ev t b p) = due p"
  using assms by (simp add: due_def AddEvent_def with_event_def Let_def filter_mmap_insert)

lemma calm_execute:
  assumes "calm cl" and "Execute cl ev t pt p = (done, q)"
  shows "m_time q = m_time p" and "due q \<le> due p"
  using assms unfolding calm_def by (metis snd_conv)+

lemma calm_abort:
  assumes "calm cl"
  shows "m_time (Abort cl ev t p) = m_time p" and "due (Abort cl ev t p) \<le> due p"
  using assms by (simp_all add: calm_def)

lemma later_tick:
  assumes "(t::u64) + 1 \<noteq> 0"
  shows "t < t + 1"
  using assms unatSuc [of t] by (simp add: word_less_nat_alt add.commute)

lemma turn_calm:
  assumes "calm cl" and "m_time p + 1 \<noteq> 0"
  shows "m_time (ep_turn cl pt ev p) = m_time p \<and> due (ep_turn cl pt ev p) \<le> due p"
proof (cases "IsRunning ev p")
  case True
  obtain d q where "Execute cl ev (m_time p) pt (ep_record (ExecuteCalled ev (m_time p) pt) p) = (d, q)"
    by fastforce
  with True calm_execute [OF assms(1) this] show ?thesis by (simp add: ep_turn_def)
next
  case False
  define q where "q = (if IsAbortScheduled ev p
    then SetAborted ev (Abort cl ev (m_time p) (ep_record (AbortCalled ev (m_time p)) p)) else p)"
  have q: "m_time q = m_time p" "due q \<le> due p"
    using calm_abort [OF assms(1), of ev _ "ep_record (AbortCalled ev (m_time p)) p"] by (simp_all add: q_def)
  have "ep_turn cl pt ev p = (if IsDeletable cl ev q then ep_record (Deleted ev) q
          else AddEvent ev (CalculateTime 1 q) False q)"
    using False by (simp add: ep_turn_def q_def Let_def)
  with q later_tick [OF assms(2)] show ?thesis
    by (simp add: CalculateTime_def due_AddEvent_later)
qed

lemma loop_returns:
  assumes "calm cl" and "m_time p + 1 \<noteq> 0"
  shows "\<exists>p'. ep_loop cl pt p = Some p' \<and> m_time p' = m_time p \<and>
     (case m_events p' of [] \<Rightarrow> True | e # es \<Rightarrow> m_time p' < fst e)"
  using assms(2)
proof (induction "due p" arbitrary: p rule: less_induct)
  case less
  show ?case
  proof (cases "m_events p")
    case Nil
    then show ?thesis by (simp add: ep_loop.simps)
  next
    case (Cons e es)
    show ?thesis
    proof (cases "fst e \<le> m_time p")
      case True
      let ?q = "ep_turn cl pt (snd e) (p\<lparr>m_events := es\<rparr>)"
      have turn: "m_time ?q = m_time p" "due ?q \<le> due (p\<lparr>m_events := es\<rparr>)"
        using turn_calm [OF assms(1), of "p\<lparr>m_events := es\<rparr>" pt "snd e"] less.prems by simp_all
      moreover have "due (p\<lparr>m_events := es\<rparr>) < due p"
        using Cons True by (simp add: due_def)
      ultimately obtain p' where "ep_loop cl pt ?q = Some p'" "m_time p' = m_time p"
        "case m_events p' of [] \<Rightarrow> True | e # es \<Rightarrow> m_time p' < fst e"
        using less.hyps [of ?q] less.prems by auto
      then show ?thesis using Cons True by (simp add: ep_loop.simps [of cl pt p])
    next
      case False
      then show ?thesis using Cons by (simp add: ep_loop.simps)
    qed
  qed
qed

text \<open>C17: \<^bold>\<open>An update returns when the callbacks are calm.\<close> If no callback turns the clock or adds to
  the entries that are due, and the clock is not at its last value, \<open>Update\<close> returns, has
  advanced the clock by the given time and has left no due entry at the front of the queue.
  An event that may not be deleted and is put back for the next tick does not keep the loop
  running.\<close>

theorem update_returns:
  assumes "calm cl" and "m_time p + ucast p_time + 1 \<noteq> 0"
  shows "\<exists>p'. ep_Update cl p_time p = Some p' \<and> m_time p' = m_time p + ucast p_time \<and>
     (case m_events p' of [] \<Rightarrow> True | e # es \<Rightarrow> m_time p' < fst e)"
  using loop_returns [OF assms(1), of "p\<lparr>m_time := m_time p + ucast p_time\<rparr>" p_time] assms(2)
  by (simp add: ep_Update_def)

text \<open>
  A class whose even members are done at once, and whose odd members run until they are aborted;
  multiples of three may not be deleted.
\<close>

definition demo_class :: event_class where
  "demo_class = \<lparr>
     Execute = (\<lambda>ev t pt p. (even ev, p)),
     IsDeletable = (\<lambda>ev p. ev mod 3 \<noteq> 0),
     Abort = (\<lambda>ev t p. p)\<rparr>"

definition demo_queue :: event_processor where
  "demo_queue = AddEvent 4 10 True (ScheduleAbort 3 (AddEvent 3 5 True (AddEvent 2 10 True new_EventProcessor)))"

theorem update_returns_witness:
  "\<exists>p'. ep_Update demo_class 10 demo_queue = Some p' \<and> m_time p' = 10 \<and>
     (case m_events p' of [] \<Rightarrow> True | e # es \<Rightarrow> m_time p' < fst e)"
proof -
  have "m_time demo_queue = 0"
    by (simp add: demo_queue_def ScheduleAbort_def new_EventProcessor_def)
  moreover have "calm demo_class"
    by (simp add: calm_def demo_class_def)
  ultimately show ?thesis
    using update_returns [of demo_class demo_queue 10] by simp
qed

section \<open>Killing\<close>

text \<open>Abort callbacks that only act outside the processor.\<close>

definition quiet :: "event_class \<Rightarrow> (nat \<Rightarrow> bool) \<Rightarrow> bool" where
  "quiet cl del \<longleftrightarrow> (\<forall>ev t p. Abort cl ev t p = p) \<and> (\<forall>ev p. IsDeletable cl ev p = del ev)"

definition head_of :: "'a list \<Rightarrow> 'a option" where
  "head_of xs = (case xs of [] \<Rightarrow> None | x # _ \<Rightarrow> Some x)"

lemma head_of_simps [simp]: "head_of [] = None" "head_of (x # xs) = Some x"
  by (simp_all add: head_of_def)

text \<open>What is done to one queued event.\<close>

definition killing :: "bool \<Rightarrow> (nat \<Rightarrow> bool) \<Rightarrow> event_processor \<Rightarrow> u64 \<times> nat \<Rightarrow> ep_action list" where
  "killing force del p e =
     (if IsAborted (snd e) p then [] else [AbortCalled (snd e) (m_time p)]) @
     (if force \<or> del (snd e) then [Deleted (snd e)] else [])"

lemma entry_after_middle:
  assumes "e \<notin> set pre"
  shows "entry_after e (pre @ e # suf) = head_of suf"
  using assms by (induction pre) (auto simp: entry_after_def head_of_def)

lemma remove1_middle: "e \<notin> set pre \<Longrightarrow> remove1 e (pre @ e # suf) = pre @ suf"
  by (simp add: remove1_append)

definition keeps :: "bool \<Rightarrow> (nat \<Rightarrow> bool) \<Rightarrow> u64 \<times> nat \<Rightarrow> bool" where
  "keeps force del e \<longleftrightarrow> force \<or> \<not> del (snd e)"

lemma kill_turn_quiet:
  assumes "quiet cl del" and "m_events p = pre @ e # suf" and "e \<notin> set pre"
  shows "\<exists>q. kill_turn cl force e p = (head_of suf, q) \<and>
     m_events q = (if keeps force del e then pre @ e # suf else pre @ suf) \<and>
     ep_log q = ep_log p @ killing force del p e \<and> m_time q = m_time p \<and>
     (\<forall>ev. IsAborted ev q \<longleftrightarrow> IsAborted ev p \<or> ev = snd e)"
  using assms
  by (auto simp: kill_turn_def quiet_def keeps_def killing_def Let_def entry_after_middle remove1_middle
      ep_record_def SetAborted_def with_event_def IsAborted_def)

lemma killing_cong:
  assumes "m_time q = m_time p" and "IsAborted (snd e) q = IsAborted (snd e) p"
  shows "killing force del q e = killing force del p e"
  using assms by (simp add: killing_def)

lemma kill_loop_quiet:
  assumes "quiet cl del"
  shows "m_events p = pre @ suf \<Longrightarrow> distinct (map snd (pre @ suf)) \<Longrightarrow>
    \<exists>q. kill_loop cl force (head_of suf) p = Some q \<and>
      m_events q = pre @ filter (keeps force del) suf \<and>
      ep_log q = ep_log p @ concat (map (killing force del p) suf) \<and>
      (\<forall>ev. IsAborted ev q \<longleftrightarrow> IsAborted ev p \<or> ev \<in> snd ` set suf)"
proof (induction suf arbitrary: pre p)
  case Nil
  then show ?case by (simp add: kill_loop.simps)
next
  case (Cons e suf)
  have "e \<notin> set pre" using Cons.prems(2) by auto
  then obtain q where q: "kill_turn cl force e p = (head_of suf, q)"
    "m_events q = (if keeps force del e then pre @ e # suf else pre @ suf)"
    "ep_log q = ep_log p @ killing force del p e" "m_time q = m_time p"
    "\<forall>ev. IsAborted ev q \<longleftrightarrow> IsAborted ev p \<or> ev = snd e"
    using kill_turn_quiet [OF assms Cons.prems(1)] by metis
  let ?pre = "if keeps force del e then pre @ [e] else pre"
  have "m_events q = ?pre @ suf" "distinct (map snd (?pre @ suf))"
    using q(2) Cons.prems(2) by auto
  from Cons.IH [OF this] obtain r where r: "kill_loop cl force (head_of suf) q = Some r"
    "m_events r = ?pre @ filter (keeps force del) suf"
    "ep_log r = ep_log q @ concat (map (killing force del q) suf)"
    "\<forall>ev. IsAborted ev r \<longleftrightarrow> IsAborted ev q \<or> ev \<in> snd ` set suf"
    by blast
  have "IsAborted (snd x) q = IsAborted (snd x) p" if "x \<in> set suf" for x
    using q(5) Cons.prems(2) that by (auto simp: image_iff)
  then have "map (killing force del q) suf = map (killing force del p) suf"
    using q(4) by (intro map_cong refl killing_cong)
  with q r show ?case
    by (auto simp: kill_loop.simps [of cl force "Some e"])
qed

text \<open>C16: \<^bold>\<open>Killing all events is exact.\<close> When every event is queued once, its \<open>Abort\<close> does not
  touch the processor (one that adds events is outside: \<open>AddEvent\<close> does not look at \<open>m_aborting\<close>)
  and it is deletable always or never, \<open>KillAllEvents\<close> returns; it has aborted every queued event that was not
  aborted yet, at the current time, and deleted it at once if forced or deletable, in the order
  of the queue; afterwards all of them are aborted, and the queue holds the events that
  could not be deleted, none when forced.\<close>

theorem kill_all_exact:
  assumes "quiet cl del" and "distinct (map snd (m_events p))"
  shows "\<exists>q. KillAllEvents cl force p = Some q \<and>
     m_events q = (if force then [] else filter (\<lambda>e. \<not> del (snd e)) (m_events p)) \<and>
     ep_log q = ep_log p @ concat (map (\<lambda>e.
        (if IsAborted (snd e) p then [] else [AbortCalled (snd e) (m_time p)]) @
        (if force \<or> del (snd e) then [Deleted (snd e)] else [])) (m_events p)) \<and>
     (\<forall>ev. IsAborted ev q \<longleftrightarrow> IsAborted ev p \<or> ev \<in> snd ` set (m_events p))"
proof -
  let ?p = "p\<lparr>m_aborting := True\<rparr>"
  have same: "killing force del ?p = killing force del p"
    by (simp add: killing_def IsAborted_def fun_eq_iff)
  obtain q where "kill_loop cl force (head_of (m_events p)) ?p = Some q"
      "m_events q = filter (keeps force del) (m_events p)"
      "ep_log q = ep_log p @ concat (map (killing force del p) (m_events p))"
      "\<forall>ev. IsAborted ev q \<longleftrightarrow> IsAborted ev p \<or> ev \<in> snd ` set (m_events p)"
    using kill_loop_quiet [OF assms(1), of ?p "[]" "m_events p" force] assms(2) same
    by (auto simp: IsAborted_def)
  then show ?thesis
    by (simp add: KillAllEvents_def head_of_def killing_def [abs_def] keeps_def [abs_def]
        IsAborted_def Let_def)
qed

theorem kill_all_exact_witness:
  "\<exists>q. KillAllEvents demo_class False demo_queue = Some q \<and> m_events q = [(5, 3)] \<and>
     ep_log q = [AbortCalled 3 0, AbortCalled 2 0, Deleted 2, AbortCalled 4 0, Deleted 4]"
proof -
  have "quiet demo_class (\<lambda>ev. ev mod 3 \<noteq> 0)" by (simp add: quiet_def demo_class_def)
  moreover have "m_events demo_queue = [(5, 3), (10, 2), (10, 4)]" "m_time demo_queue = 0"
      "ep_log demo_queue = []" "\<not> IsAborted 3 demo_queue" "\<not> IsAborted 2 demo_queue" "\<not> IsAborted 4 demo_queue"
    by (simp_all add: demo_queue_def AddEvent_def ScheduleAbort_def with_event_def new_EventProcessor_def
        new_BasicEvent_def IsRunning_def IsAborted_def Let_def)
  ultimately show ?thesis
    using kill_all_exact [of demo_class "\<lambda>ev. ev mod 3 \<noteq> 0" demo_queue False] by auto
qed

end
