(* ===== verification/Combat.thy ===== *)
theory Combat
  imports ObjectGuid "HOL-Library.Monad_Syntax"
begin

text \<open>
  \<^verbatim>\<open>src/src/server/game/Combat/CombatManager.h\<close> and \<^verbatim>\<open>CombatManager.cpp\<close>: the combat references
  between units. A reference is a heap object that the managers of its two units point to:
  here a number with its fields in \<open>refs\<close>. A unit is its guid.

  Combat is where the artificial intelligence of a creature takes over in the middle of an
  operation. The functions it is called through are the hooks of \<open>combat_env\<close>: they map the
  world they are called in to the world they leave. An operation is \<open>None\<close> where the code does
  not come back in a defined state: a reference is used after its deletion, an iterator after its
  invalidation, an \<open>ASSERT\<close> stops the process, a loop does not end, or a hook does not return.

  The references of a manager are \<open>unordered_map\<close>s; the model iterates over them in the order of
  the keys.
\<close>

section \<open>References\<close>

record combat_reference =
  ref_first :: guid
  ref_second :: guid
  isPvP :: bool
  combatTimer :: u32
  suppressFirst :: bool
  suppressSecond :: bool

definition PVP_COMBAT_TIMEOUT :: u32 where "PVP_COMBAT_TIMEOUT = 5250"

text \<open>The last three fields are those of the derived \<open>PvPCombatReference\<close>.\<close>

definition new_CombatReference :: "guid \<Rightarrow> guid \<Rightarrow> combat_reference" where
  "new_CombatReference a b = \<lparr>ref_first = a, ref_second = b, isPvP = False, combatTimer = 0,
     suppressFirst = False, suppressSecond = False\<rparr>"

definition new_PvPCombatReference :: "guid \<Rightarrow> guid \<Rightarrow> combat_reference" where
  "new_PvPCombatReference a b = \<lparr>ref_first = a, ref_second = b, isPvP = True,
     combatTimer = PVP_COMBAT_TIMEOUT, suppressFirst = False, suppressSecond = False\<rparr>"

definition GetOther :: "guid \<Rightarrow> combat_reference \<Rightarrow> guid" where
  "GetOther me c = (if ref_first c = me then ref_second c else ref_first c)"

definition IsSuppressedFor :: "guid \<Rightarrow> combat_reference \<Rightarrow> bool" where
  "IsSuppressedFor who c = (if who = ref_first c then suppressFirst c else suppressSecond c)"

definition Suppress :: "guid \<Rightarrow> combat_reference \<Rightarrow> combat_reference" where
  "Suppress who c = (if who = ref_first c then c\<lparr>suppressFirst := True\<rparr> else c\<lparr>suppressSecond := True\<rparr>)"

definition pvp_Update :: "u32 \<Rightarrow> combat_reference \<Rightarrow> bool \<times> combat_reference" where
  "pvp_Update tdiff c =
     (if combatTimer c \<le> tdiff then (False, c)
      else (True, c\<lparr>combatTimer := combatTimer c - tdiff\<rparr>))"

section \<open>The world of the managers\<close>

record combat_manager =
  pveRefs :: "(guid, nat) smap"
  pvpRefs :: "(guid, nat) smap"

definition new_CombatManager :: combat_manager where
  "new_CombatManager = \<lparr>pveRefs = [], pvpRefs = []\<rparr>"

text \<open>
  What the managers ask of a unit; \<open>owner_player_gm\<close> is whether the player who is, owns or
  charms the unit is a game master, \<open>None\<close> without such a player.
\<close>

record unit_view =
  IsInWorld :: bool
  IsAlive :: bool
  GetMap :: nat
  in_evade :: bool
  in_flight :: bool
  owner_player_gm :: "bool option"
  IsControlledByPlayer :: bool
  IsImmuneToPC :: bool
  IsImmuneToNPC :: bool
  player_controlled_flag :: bool
  in_combat_flag :: bool
  has_AI :: bool
  IsAIEnabled :: bool
  is_creature :: bool
  CanHaveThreatList :: bool
  CharmerOrOwner :: "guid option"

datatype threat_call = ClearThreat guid guid | RemoveMeFromThreatLists guid | ClearAllThreat guid

record combat_world =
  units :: "guid \<Rightarrow> unit_view"
  managers :: "guid \<Rightarrow> combat_manager"
  refs :: "nat \<Rightarrow> combat_reference option"
  next_ref :: nat
  threat_log :: "threat_call list"

type_synonym hook = "combat_world \<Rightarrow> combat_world option"

record combat_env =
  InSamePhase :: "guid \<Rightarrow> guid \<Rightarrow> combat_world \<Rightarrow> bool"
  IsFriendlyTo :: "guid \<Rightarrow> guid \<Rightarrow> combat_world \<Rightarrow> bool"
  AtEnterCombat :: "guid \<Rightarrow> hook"
  AtExitCombat :: "guid \<Rightarrow> hook"
  UpdatePetCombatState :: "guid \<Rightarrow> hook"
  JustExitedCombat :: "guid \<Rightarrow> hook"
  JustEnteredCombat :: "guid \<Rightarrow> guid \<Rightarrow> hook"
  JustEngagedWith :: "guid \<Rightarrow> guid \<Rightarrow> hook"

text \<open>The map of one kind of a manager.\<close>

definition refs_of :: "bool \<Rightarrow> combat_manager \<Rightarrow> (guid, nat) smap" where
  "refs_of pvp m = (if pvp then pvpRefs m else pveRefs m)"

definition with_refs ::
  "bool \<Rightarrow> ((guid, nat) smap \<Rightarrow> (guid, nat) smap) \<Rightarrow> combat_manager \<Rightarrow> combat_manager" where
  "with_refs pvp f m = (if pvp then m\<lparr>pvpRefs := f (pvpRefs m)\<rparr> else m\<lparr>pveRefs := f (pveRefs m)\<rparr>)"

definition with_manager ::
  "guid \<Rightarrow> (combat_manager \<Rightarrow> combat_manager) \<Rightarrow> combat_world \<Rightarrow> combat_world" where
  "with_manager o' f w = w\<lparr>managers := (managers w)(o' := f (managers w o'))\<rparr>"

definition set_ref :: "nat \<Rightarrow> combat_reference \<Rightarrow> combat_world \<Rightarrow> combat_world" where
  "set_ref r c w = w\<lparr>refs := (refs w)(r \<mapsto> c)\<rparr>"

definition set_in_combat :: "guid \<Rightarrow> bool \<Rightarrow> combat_world \<Rightarrow> combat_world" where
  "set_in_combat u b w = w\<lparr>units := (units w)(u := (units w u)\<lparr>in_combat_flag := b\<rparr>)\<rparr>"

definition threat_calls :: "threat_call list \<Rightarrow> combat_world \<Rightarrow> combat_world" where
  "threat_calls cs w = w\<lparr>threat_log := threat_log w @ cs\<rparr>"

section \<open>Questions\<close>

definition CanBeginCombat :: "combat_env \<Rightarrow> guid \<Rightarrow> guid \<Rightarrow> combat_world \<Rightarrow> bool" where
  "CanBeginCombat env a b w =
     (let ua = units w a; ub = units w b in
      if a = b then False
      else if \<not> IsInWorld ua \<or> \<not> IsInWorld ub then False
      else if \<not> IsAlive ua \<or> \<not> IsAlive ub then False
      else if GetMap ua \<noteq> GetMap ub then False
      else if \<not> InSamePhase env a b w then False
      else if in_evade ua \<or> in_evade ub then False
      else if in_flight ua \<or> in_flight ub then False
      else if IsFriendlyTo env a b w \<or> IsFriendlyTo env b a w then False
      else if owner_player_gm ua = Some True \<or> owner_player_gm ub = Some True then False
      else True)"

text \<open>A reference that is gone counts for nothing here; no manager holds one (\<open>CombatProps\<close>).\<close>

definition HasPvPCombat :: "guid \<Rightarrow> combat_world \<Rightarrow> bool" where
  "HasPvPCombat owner w =
     list_ex (\<lambda>(g, r). case refs w r of None \<Rightarrow> False | Some c \<Rightarrow> \<not> IsSuppressedFor owner c)
       (pvpRefs (managers w owner))"

definition HasPvECombat :: "guid \<Rightarrow> combat_world \<Rightarrow> bool" where
  "HasPvECombat owner w = (pveRefs (managers w owner) \<noteq> [])"

definition HasCombat :: "guid \<Rightarrow> combat_world \<Rightarrow> bool" where
  "HasCombat owner w = (HasPvECombat owner w \<or> HasPvPCombat owner w)"

fun first_unsuppressed :: "guid \<Rightarrow> (guid, nat) smap \<Rightarrow> combat_world \<Rightarrow> guid option" where
  "first_unsuppressed owner [] w = None"
| "first_unsuppressed owner ((g, r) # m) w =
     (case refs w r of
        None \<Rightarrow> first_unsuppressed owner m w
      | Some c \<Rightarrow> if \<not> IsSuppressedFor owner c then Some (GetOther owner c)
                  else first_unsuppressed owner m w)"

definition GetAnyTarget :: "guid \<Rightarrow> combat_world \<Rightarrow> guid option" where
  "GetAnyTarget owner w =
     (case pveRefs (managers w owner) of
        (g, r) # _ \<Rightarrow> map_option (GetOther owner) (refs w r)
      | [] \<Rightarrow> first_unsuppressed owner (pvpRefs (managers w owner)) w)"

definition IsInCombatWith :: "guid \<Rightarrow> guid \<Rightarrow> combat_world \<Rightarrow> bool" where
  "IsInCombatWith owner g w =
     (smap_find (pveRefs (managers w owner)) g \<noteq> None \<or>
      smap_find (pvpRefs (managers w owner)) g \<noteq> None)"

section \<open>Filing\<close>

definition PutReference :: "guid \<Rightarrow> guid \<Rightarrow> nat \<Rightarrow> combat_world \<Rightarrow> combat_world option" where
  "PutReference owner g r w = do {
     c \<leftarrow> refs w r;
     (if smap_find (refs_of (isPvP c) (managers w owner)) g \<noteq> None then None
      else Some (with_manager owner (with_refs (isPvP c) (smap_put g r)) w))
   }"

definition PurgeReference :: "guid \<Rightarrow> guid \<Rightarrow> bool \<Rightarrow> combat_world \<Rightarrow> combat_world" where
  "PurgeReference owner g pvp w = with_manager owner (with_refs pvp (smap_erase g)) w"

definition UpdateOwnerCombatState ::
  "combat_env \<Rightarrow> guid \<Rightarrow> combat_world \<Rightarrow> (bool \<times> combat_world) option" where
  "UpdateOwnerCombatState env owner w =
     (let combatState = HasCombat owner w in
      if combatState = in_combat_flag (units w owner) then Some (False, w)
      else do {
        w \<leftarrow> (if combatState then AtEnterCombat env owner (set_in_combat owner True w)
              else AtExitCombat env owner (set_in_combat owner False w));
        w \<leftarrow> (case CharmerOrOwner (units w owner) of
                None \<Rightarrow> Some w
              | Some master \<Rightarrow> UpdatePetCombatState env master w);
        Some (True, w)
      })"

definition NotifyAICombat :: "combat_env \<Rightarrow> guid \<Rightarrow> guid \<Rightarrow> hook" where
  "NotifyAICombat env me other w =
     (if \<not> IsAIEnabled (units w me) then Some w
      else do {
        w \<leftarrow> JustEnteredCombat env me other w;
        (if is_creature (units w me) \<and> \<not> CanHaveThreatList (units w me)
         then JustEngagedWith env me other w else Some w)
      })"

text \<open>\<open>if (UnitAI* ai = u->GetAI()) ai->JustExitedCombat()\<close>.\<close>

definition notify_exit :: "combat_env \<Rightarrow> bool \<Rightarrow> guid \<Rightarrow> hook" where
  "notify_exit env need u w =
     (if need \<and> has_AI (units w u) then JustExitedCombat env u w else Some w)"

section \<open>Beginning, refreshing, suppressing and ending\<close>

definition delete_ref :: "nat \<Rightarrow> combat_world \<Rightarrow> combat_world option" where
  "delete_ref r w = do { _ \<leftarrow> refs w r; Some (w\<lparr>refs := (refs w)(r := None)\<rparr>) }"

text \<open>The two managers forget a reference and tell the units.\<close>

definition end_between :: "combat_env \<Rightarrow> guid \<Rightarrow> guid \<Rightarrow> bool \<Rightarrow> hook" where
  "end_between env a b pvp w = do {
     (needFirstAI, w) \<leftarrow> UpdateOwnerCombatState env a
        (PurgeReference b a pvp (PurgeReference a b pvp
          (threat_calls [ClearThreat a b, ClearThreat b a] w)));
     (needSecondAI, w) \<leftarrow> UpdateOwnerCombatState env b w;
     w \<leftarrow> notify_exit env needFirstAI a w;
     notify_exit env needSecondAI b w
   }"

definition EndCombat :: "combat_env \<Rightarrow> nat \<Rightarrow> hook" where
  "EndCombat env r w = do {
     c \<leftarrow> refs w r;
     w \<leftarrow> end_between env (ref_first c) (ref_second c) (isPvP c) w;
     delete_ref r w
   }"

text \<open>Every access to a field finds the reference alive.\<close>

definition unsuppress ::
  "combat_env \<Rightarrow> (combat_reference \<Rightarrow> bool) \<Rightarrow> (combat_reference \<Rightarrow> combat_reference) \<Rightarrow>
   (combat_reference \<Rightarrow> guid) \<Rightarrow> nat \<Rightarrow> combat_world \<Rightarrow> (bool \<times> combat_world) option" where
  "unsuppress env suppressed clear who r w = do {
     c \<leftarrow> refs w r;
     (if suppressed c then UpdateOwnerCombatState env (who c) (set_ref r (clear c) w)
      else Some (False, w))
   }"

definition notify_if :: "combat_env \<Rightarrow> bool \<Rightarrow> (combat_reference \<Rightarrow> guid) \<Rightarrow>
   (combat_reference \<Rightarrow> guid) \<Rightarrow> nat \<Rightarrow> hook" where
  "notify_if env need me other r w =
     (if need then do { c \<leftarrow> refs w r; NotifyAICombat env (me c) (other c) w } else Some w)"

definition Refresh :: "combat_env \<Rightarrow> nat \<Rightarrow> hook" where
  "Refresh env r w = do {
     c \<leftarrow> refs w r;
     (needFirstAI, w) \<leftarrow> unsuppress env suppressFirst (suppressFirst_update (\<lambda>_. False)) ref_first r
        (set_ref r (c\<lparr>combatTimer := PVP_COMBAT_TIMEOUT\<rparr>) w);
     (needSecondAI, w) \<leftarrow> unsuppress env suppressSecond (suppressSecond_update (\<lambda>_. False)) ref_second r w;
     w \<leftarrow> notify_if env needFirstAI ref_first ref_second r w;
     notify_if env needSecondAI ref_second ref_first r w
   }"

definition SuppressFor :: "combat_env \<Rightarrow> guid \<Rightarrow> nat \<Rightarrow> hook" where
  "SuppressFor env who r w = do {
     c \<leftarrow> refs w r;
     (need, w) \<leftarrow> UpdateOwnerCombatState env who (set_ref r (Suppress who c) w);
     notify_exit env need who w
   }"

text \<open>The new reference, filed on both sides.\<close>

definition begin_ref :: "guid \<Rightarrow> guid \<Rightarrow> combat_world \<Rightarrow> combat_world option" where
  "begin_ref owner who w =
     (let r = next_ref w;
          c = (if IsControlledByPlayer (units w owner) \<and> IsControlledByPlayer (units w who)
               then new_PvPCombatReference owner who else new_CombatReference owner who);
          w = (set_ref r c w)\<lparr>next_ref := Suc r\<rparr>
      in do { w \<leftarrow> PutReference owner who r w; PutReference who owner r w })"

definition SetInCombatWith ::
  "combat_env \<Rightarrow> guid \<Rightarrow> guid \<Rightarrow> combat_world \<Rightarrow> (bool \<times> combat_world) option" where
  "SetInCombatWith env owner who w =
     (case smap_find (pvpRefs (managers w owner)) who of
        Some r \<Rightarrow> do { w \<leftarrow> Refresh env r w; Some (True, w) }
      | None \<Rightarrow>
          if smap_find (pveRefs (managers w owner)) who \<noteq> None then Some (True, w)
          else if \<not> CanBeginCombat env owner who w then Some (False, w)
          else do {
            w \<leftarrow> begin_ref owner who w;
            (needSelfAI, w) \<leftarrow> UpdateOwnerCombatState env owner w;
            (needOtherAI, w) \<leftarrow> UpdateOwnerCombatState env who w;
            w \<leftarrow> (if needSelfAI then NotifyAICombat env owner who w else Some w);
            w \<leftarrow> (if needOtherAI then NotifyAICombat env who owner w else Some w);
            Some (IsInCombatWith owner who w, w)
          })"

fun suppress_all :: "guid \<Rightarrow> (guid, nat) smap \<Rightarrow> hook" where
  "suppress_all owner [] w = Some w"
| "suppress_all owner ((g, r) # m) w = do {
     c \<leftarrow> refs w r;
     suppress_all owner m (set_ref r (Suppress owner c) w)
   }"

definition SuppressPvPCombat :: "combat_env \<Rightarrow> guid \<Rightarrow> hook" where
  "SuppressPvPCombat env owner w = do {
     w \<leftarrow> suppress_all owner (pvpRefs (managers w owner)) w;
     (need, w) \<leftarrow> UpdateOwnerCombatState env owner w;
     notify_exit env need owner w
   }"

section \<open>Loops over the references\<close>

text \<open>
  An iterator is the key it stands on, \<open>None\<close> at the end. It stays valid while its entry is in
  the map and nothing is inserted (an insertion may rehash the map).
\<close>

definition key_after :: "guid \<Rightarrow> (guid, nat) smap \<Rightarrow> guid option" where
  "key_after g m =
     (case dropWhile (\<lambda>e. fst e \<noteq> g) m of
        _ # e # _ \<Rightarrow> Some (fst e)
      | _ \<Rightarrow> None)"

definition first_key :: "(guid, nat) smap \<Rightarrow> guid option" where
  "first_key m = (case m of [] \<Rightarrow> None | e # _ \<Rightarrow> Some (fst e))"

definition iterator_valid :: "guid option \<Rightarrow> (guid, nat) smap \<Rightarrow> (guid, nat) smap \<Rightarrow> bool" where
  "iterator_valid itr before now =
     (list_all (\<lambda>e. smap_find before (fst e) \<noteq> None) now \<and>
      (case itr of None \<Rightarrow> True | Some g \<Rightarrow> smap_find now g \<noteq> None))"

partial_function (option) iterate ::
  "(guid \<Rightarrow> combat_world \<Rightarrow> (guid option \<times> combat_world) option) \<Rightarrow> guid option \<Rightarrow> hook" where
  "iterate turn itr w =
     (case itr of
        None \<Rightarrow> Some w
      | Some g \<Rightarrow> Option.bind (turn g w) (\<lambda>(nxt, w). iterate turn nxt w))"

text \<open>
  One iteration of a loop that ends the combat of the entry: the entry is erased, the iterator
  moves on, and the reference ends the combat on the other side.
\<close>

definition erase_and_end ::
  "combat_env \<Rightarrow> guid \<Rightarrow> bool \<Rightarrow> guid \<Rightarrow> nat \<Rightarrow> combat_world \<Rightarrow> (guid option \<times> combat_world) option" where
  "erase_and_end env owner pvp g r w =
     (let nxt = key_after g (refs_of pvp (managers w owner));
          w1 = PurgeReference owner g pvp w
      in do {
        w2 \<leftarrow> EndCombat env r w1;
        (if iterator_valid nxt (refs_of pvp (managers w1 owner)) (refs_of pvp (managers w2 owner))
         then Some (nxt, w2) else None)
      })"

definition update_turn ::
  "combat_env \<Rightarrow> guid \<Rightarrow> u32 \<Rightarrow> guid \<Rightarrow> combat_world \<Rightarrow> (guid option \<times> combat_world) option" where
  "update_turn env owner tdiff g w = do {
     r \<leftarrow> smap_find (pvpRefs (managers w owner)) g;
     c \<leftarrow> refs w r;
     (if ref_first c = owner
      then (case pvp_Update tdiff c of
              (True, c') \<Rightarrow> Some (key_after g (pvpRefs (managers w owner)), set_ref r c' w)
            | (False, _) \<Rightarrow> erase_and_end env owner True g r w)
      else Some (key_after g (pvpRefs (managers w owner)), w))
   }"

definition cm_Update :: "combat_env \<Rightarrow> guid \<Rightarrow> u32 \<Rightarrow> hook" where
  "cm_Update env owner tdiff w =
     iterate (update_turn env owner tdiff) (first_key (pvpRefs (managers w owner))) w"

text \<open>\<open>near a b w\<close> stands for \<open>a->IsWithinDistInMap(b, range)\<close>.\<close>

definition range_turn ::
  "combat_env \<Rightarrow> (guid \<Rightarrow> guid \<Rightarrow> combat_world \<Rightarrow> bool) \<Rightarrow> guid \<Rightarrow> bool \<Rightarrow> guid \<Rightarrow> combat_world \<Rightarrow>
   (guid option \<times> combat_world) option" where
  "range_turn env near owner pvp g w = do {
     r \<leftarrow> smap_find (refs_of pvp (managers w owner)) g;
     c \<leftarrow> refs w r;
     (if \<not> near (ref_first c) (ref_second c) w then erase_and_end env owner pvp g r w
      else Some (key_after g (refs_of pvp (managers w owner)), w))
   }"

definition EndCombatBeyondRange ::
  "combat_env \<Rightarrow> (guid \<Rightarrow> guid \<Rightarrow> combat_world \<Rightarrow> bool) \<Rightarrow> guid \<Rightarrow> bool \<Rightarrow> hook" where
  "EndCombatBeyondRange env near owner includingPvP w = do {
     w \<leftarrow> iterate (range_turn env near owner False) (first_key (pveRefs (managers w owner))) w;
     (if \<not> includingPvP then Some w
      else iterate (range_turn env near owner True) (first_key (pvpRefs (managers w owner))) w)
   }"

definition inherit_turn ::
  "combat_env \<Rightarrow> guid \<Rightarrow> guid \<Rightarrow> bool \<Rightarrow> guid \<Rightarrow> combat_world \<Rightarrow> (guid option \<times> combat_world) option" where
  "inherit_turn env owner who pvp g w = do {
     r \<leftarrow> smap_find (refs_of pvp (managers w who)) g;
     (if IsInCombatWith owner g w then Some (key_after g (refs_of pvp (managers w who)), w)
      else do {
        c \<leftarrow> refs w r;
        (let target = GetOther who c in
         if IsImmuneToPC (units w owner) \<and> player_controlled_flag (units w target) \<or>
            IsImmuneToNPC (units w owner) \<and> \<not> player_controlled_flag (units w target)
         then Some (key_after g (refs_of pvp (managers w who)), w)
         else do {
           (_, w2) \<leftarrow> SetInCombatWith env owner target w;
           (if iterator_valid (Some g) (refs_of pvp (managers w who)) (refs_of pvp (managers w2 who))
            then Some (key_after g (refs_of pvp (managers w2 who)), w2) else None)
         })
      })
   }"

definition InheritCombatStatesFrom :: "combat_env \<Rightarrow> guid \<Rightarrow> guid \<Rightarrow> hook" where
  "InheritCombatStatesFrom env owner who w = do {
     w \<leftarrow> iterate (inherit_turn env owner who False) (first_key (pveRefs (managers w who))) w;
     iterate (inherit_turn env owner who True) (first_key (pvpRefs (managers w who))) w
   }"

partial_function (option) end_all_loop ::
  "combat_env \<Rightarrow> guid \<Rightarrow> bool \<Rightarrow> combat_world \<Rightarrow> combat_world option" where
  "end_all_loop env owner pvp w =
     (case refs_of pvp (managers w owner) of
        [] \<Rightarrow> Some w
      | e # _ \<Rightarrow> Option.bind (EndCombat env (snd e) w) (end_all_loop env owner pvp))"

definition EndAllPvECombat :: "combat_env \<Rightarrow> guid \<Rightarrow> hook" where
  "EndAllPvECombat env owner w =
     end_all_loop env owner False (threat_calls [RemoveMeFromThreatLists owner, ClearAllThreat owner] w)"

definition EndAllPvPCombat :: "combat_env \<Rightarrow> guid \<Rightarrow> hook" where
  "EndAllPvPCombat env owner w = end_all_loop env owner True w"

definition EndAllCombat :: "combat_env \<Rightarrow> guid \<Rightarrow> hook" where
  "EndAllCombat env owner w = do { w \<leftarrow> EndAllPvECombat env owner w; EndAllPvPCombat env owner w }"

definition destroy_CombatManager :: "guid \<Rightarrow> hook" where
  "destroy_CombatManager owner w =
     (if pveRefs (managers w owner) = [] \<and> pvpRefs (managers w owner) = [] then Some w else None)"

end
