(* ===== verification/CombatProps.thy ===== *)
theory CombatProps
  imports Combat Machine
begin

text \<open>
  What the documentation of the combat system promises: references are filed on both sides and
  join two distinct units, and a unit is in combat exactly when it has a reference that is not
  suppressed. It holds whatever the hooks do, as long as they too keep it; with hooks that only
  watch, every operation returns.
\<close>

section \<open>Consistency\<close>

definition filed :: "combat_world \<Rightarrow> bool \<Rightarrow> guid \<Rightarrow> guid \<Rightarrow> nat option" where
  "filed w pvp a b = smap_find (refs_of pvp (managers w a)) b"

definition joins :: "combat_reference \<Rightarrow> guid \<Rightarrow> guid \<Rightarrow> bool" where
  "joins c a b \<longleftrightarrow> a \<noteq> b \<and> (ref_first c = a \<and> ref_second c = b \<or> ref_first c = b \<and> ref_second c = a)"

text \<open>
  \<open>P\<close> is the set of references that an operation in progress has taken out of the managers and
  not deleted yet.
\<close>

definition consistent :: "nat set \<Rightarrow> combat_world \<Rightarrow> bool" where
  "consistent P w \<longleftrightarrow>
     (\<forall>a pvp. map_ok (refs_of pvp (managers w a))) \<and>
     (\<forall>pvp a b r. filed w pvp a b = Some r \<longrightarrow>
        r \<notin> P \<and> (\<exists>c. refs w r = Some c \<and> isPvP c = pvp \<and> joins c a b)) \<and>
     (\<forall>r c a b. refs w r = Some c \<longrightarrow> r \<notin> P \<longrightarrow>
        ref_first c \<noteq> ref_second c \<and> (joins c a b \<longrightarrow> filed w (isPvP c) a b = Some r)) \<and>
     (\<forall>a b. filed w True a b = None \<or> filed w False a b = None) \<and>
     (\<forall>r. r \<in> P \<or> refs w r \<noteq> None \<longrightarrow> r < next_ref w)"

definition flag_ok :: "combat_world \<Rightarrow> guid \<Rightarrow> bool" where
  "flag_ok w a \<longleftrightarrow> in_combat_flag (units w a) = HasCombat a w"

definition good :: "nat set \<Rightarrow> guid set \<Rightarrow> combat_world \<Rightarrow> bool" where
  "good P A w \<longleftrightarrow> consistent P w \<and> (\<forall>a \<in> A. flag_ok w a)"

definition keeps :: "hook \<Rightarrow> bool" where
  "keeps h \<longleftrightarrow> (\<forall>P A w w'. good P A w \<longrightarrow> h w = Some w' \<longrightarrow> good P A w')"

definition hooks_keep :: "combat_env \<Rightarrow> bool" where
  "hooks_keep env \<longleftrightarrow>
     (\<forall>u. keeps (AtEnterCombat env u) \<and> keeps (AtExitCombat env u) \<and>
          keeps (UpdatePetCombatState env u) \<and> keeps (JustExitedCombat env u) \<and>
          (\<forall>v. keeps (JustEnteredCombat env u v) \<and> keeps (JustEngagedWith env u v)))"

lemma keepsD: "keeps h \<Longrightarrow> good P A w \<Longrightarrow> h w = Some w' \<Longrightarrow> good P A w'"
  by (simp add: keeps_def)

lemma hooks_keepD:
  assumes "hooks_keep env"
  shows "keeps (AtEnterCombat env u)" "keeps (AtExitCombat env u)" "keeps (UpdatePetCombatState env u)"
    "keeps (JustExitedCombat env u)" "keeps (JustEnteredCombat env u v)" "keeps (JustEngagedWith env u v)"
  using assms by (simp_all add: hooks_keep_def)

lemma bind_SomeE:
  assumes "Option.bind m f = Some y"
  obtains x where "m = Some x" and "f x = Some y"
  using assms by (cases m) auto

section \<open>What the small steps change\<close>

lemma refs_of_with_refs [simp]:
  "refs_of q (with_refs p f m) = (if q = p then f (refs_of q m) else refs_of q m)"
  by (simp add: refs_of_def with_refs_def)

lemma managers_with_manager [simp]:
  "managers (with_manager x f w) a = (if a = x then f (managers w a) else managers w a)"
  by (simp add: with_manager_def)

lemma with_manager_rest [simp]:
  "refs (with_manager x f w) = refs w" "units (with_manager x f w) = units w"
  "next_ref (with_manager x f w) = next_ref w"
  by (simp_all add: with_manager_def)

lemma set_in_combat_rest [simp]:
  "refs (set_in_combat u b w) = refs w" "managers (set_in_combat u b w) = managers w"
  "next_ref (set_in_combat u b w) = next_ref w"
  "filed (set_in_combat u b w) = filed w"
  by (simp_all add: set_in_combat_def filed_def fun_eq_iff)

lemma in_combat_flag_set [simp]:
  "in_combat_flag (units (set_in_combat u b w) a) = (if a = u then b else in_combat_flag (units w a))"
  by (simp add: set_in_combat_def)

lemma threat_calls_rest [simp]:
  "refs (threat_calls cs w) = refs w" "managers (threat_calls cs w) = managers w"
  "next_ref (threat_calls cs w) = next_ref w" "units (threat_calls cs w) = units w"
  "filed (threat_calls cs w) = filed w"
  by (simp_all add: threat_calls_def filed_def fun_eq_iff)

lemma set_ref_rest [simp]:
  "refs (set_ref r c w) = (refs w)(r \<mapsto> c)" "managers (set_ref r c w) = managers w"
  "next_ref (set_ref r c w) = next_ref w" "units (set_ref r c w) = units w"
  "filed (set_ref r c w) = filed w"
  by (simp_all add: set_ref_def filed_def fun_eq_iff)

lemma purge_rest [simp]:
  "refs (PurgeReference x g p w) = refs w" "units (PurgeReference x g p w) = units w"
  "next_ref (PurgeReference x g p w) = next_ref w"
  by (simp_all add: PurgeReference_def)

lemma filed_purge [simp]:
  "filed (PurgeReference x g p w) q a b = (if q = p \<and> a = x \<and> b = g then None else filed w q a b)"
  by (simp add: filed_def PurgeReference_def)

lemma ok_purge [simp]:
  "map_ok (refs_of q (managers w a)) \<Longrightarrow> map_ok (refs_of q (managers (PurgeReference x g p w) a))"
  by (auto simp: PurgeReference_def)

lemma HasCombat_cong:
  assumes "managers w a = managers w' a" and "refs w = refs w'"
  shows "HasCombat a w = HasCombat a w'"
  using assms by (simp add: HasCombat_def HasPvECombat_def HasPvPCombat_def)

lemma flag_set_in_combat:
  "flag_ok (set_in_combat u b w) a = (if a = u then b = HasCombat u w else flag_ok w a)"
  by (auto simp: flag_ok_def HasCombat_def HasPvECombat_def HasPvPCombat_def)

lemma good_threat_calls [simp]: "good P A (threat_calls cs w) = good P A w"
  by (simp add: good_def consistent_def flag_ok_def HasCombat_def HasPvECombat_def HasPvPCombat_def)

lemma consistent_filedD:
  assumes "consistent P w" and "filed w pvp a b = Some r"
  shows "r \<notin> P" and "\<exists>c. refs w r = Some c \<and> isPvP c = pvp \<and> joins c a b"
  using assms unfolding consistent_def by blast+

lemma consistent_joinsD:
  assumes "consistent P w" and "filed w pvp a b = Some r" and "refs w r = Some c"
  shows "isPvP c = pvp" and "joins c a b"
  using consistent_filedD(2) [OF assms(1,2)] assms(3) by auto

lemma consistent_okD: "consistent P w \<Longrightarrow> map_ok (refs_of pvp (managers w a))"
  by (simp add: consistent_def)

lemma joins_ends: "ref_first c \<noteq> ref_second c \<Longrightarrow> joins c (ref_first c) (ref_second c)"
  and joins_sym: "joins c a b \<longleftrightarrow> joins c b a"
  by (auto simp: joins_def)

lemma consistent_refD:
  assumes "consistent P w" and "refs w r = Some c" and "r \<notin> P"
  shows "ref_first c \<noteq> ref_second c" and "joins c a b \<Longrightarrow> filed w (isPvP c) a b = Some r"
  using assms unfolding consistent_def by blast+

lemma consistentI:
  assumes "\<And>a pvp. map_ok (refs_of pvp (managers w a))"
    and "\<And>pvp a b r. filed w pvp a b = Some r \<Longrightarrow> r \<notin> P \<and> (\<exists>c. refs w r = Some c \<and> isPvP c = pvp \<and> joins c a b)"
    and "\<And>r c. refs w r = Some c \<Longrightarrow> r \<notin> P \<Longrightarrow> ref_first c \<noteq> ref_second c"
    and "\<And>r c a b. refs w r = Some c \<Longrightarrow> r \<notin> P \<Longrightarrow> joins c a b \<Longrightarrow> filed w (isPvP c) a b = Some r"
    and "\<And>a b. filed w True a b = None \<or> filed w False a b = None"
    and "\<And>r. r \<in> P \<Longrightarrow> r < next_ref w" and "\<And>r c. refs w r = Some c \<Longrightarrow> r < next_ref w"
  shows "consistent P w"
  using assms unfolding consistent_def by blast

lemma consistent_freshD:
  assumes "consistent P w"
  shows "r \<in> P \<Longrightarrow> r < next_ref w" and "refs w r = Some c \<Longrightarrow> r < next_ref w"
    and "filed w True a b = None \<or> filed w False a b = None"
  using assms unfolding consistent_def by (blast, blast, simp)

lemma filed_sym:
  assumes "consistent P w"
  shows "filed w pvp a b = filed w pvp b a"
proof -
  have "filed w pvp d c = Some r" if "filed w pvp c d = Some r" for c d r
    using consistent_filedD [OF assms that] consistent_refD(2) [OF assms, of r _ d c] joins_sym by blast
  then show ?thesis by (metis option.exhaust)
qed

text \<open>Having combat in terms of what is filed.\<close>

lemma HasCombat_filed:
  assumes "map_ok (refs_of True (managers w a))"
  shows "HasCombat a w \<longleftrightarrow> (\<exists>b r. filed w False a b = Some r) \<or>
     (\<exists>b r c. filed w True a b = Some r \<and> refs w r = Some c \<and> \<not> IsSuppressedFor a c)"
proof -
  have "HasPvECombat a w \<longleftrightarrow> (\<exists>b r. filed w False a b = Some r)"
    by (auto simp: HasPvECombat_def filed_def refs_of_def keys_empty_iff [symmetric] keys_find set_eq_iff)
  moreover have "HasPvPCombat a w \<longleftrightarrow>
      (\<exists>b r c. filed w True a b = Some r \<and> refs w r = Some c \<and> \<not> IsSuppressedFor a c)"
    using assms
    by (fastforce simp: HasPvPCombat_def filed_def refs_of_def list_ex_iff in_set_find
        split: option.splits)
  ultimately show ?thesis by (simp add: HasCombat_def)
qed

lemma flag_filed:
  assumes "consistent P w"
  shows "flag_ok w a \<longleftrightarrow> in_combat_flag (units w a) =
     ((\<exists>b r. filed w False a b = Some r) \<or>
      (\<exists>b r c. filed w True a b = Some r \<and> refs w r = Some c \<and> \<not> IsSuppressedFor a c))"
  using HasCombat_filed [OF consistent_okD [OF assms]] by (simp add: flag_ok_def)

section \<open>Every operation keeps consistency\<close>

lemma good_set_ref:
  assumes "good P A w" and "refs w r = Some c"
    and "ref_first c' = ref_first c" "ref_second c' = ref_second c" "isPvP c' = isPvP c"
    and "\<And>a. a \<in> A \<Longrightarrow> a = ref_first c \<or> a = ref_second c \<Longrightarrow> IsSuppressedFor a c' = IsSuppressedFor a c"
  shows "good P A (set_ref r c' w)"
proof -
  have cons: "consistent P w" using assms(1) by (simp add: good_def)
  have joins: "joins c' = joins c" using assms(3,4) by (simp add: joins_def fun_eq_iff)
  let ?v = "set_ref r c' w"
  have old: "\<exists>d. refs w s = Some d \<and> ref_first e = ref_first d \<and> ref_second e = ref_second d \<and>
      isPvP e = isPvP d \<and> joins e = joins d" if "refs ?v s = Some e" for s e
    using that assms(2-5) joins by (cases "s = r") auto
  have "consistent P ?v"
  proof (rule consistentI)
    show "map_ok (refs_of pvp (managers ?v a))" for a pvp
      using consistent_okD [OF cons] by simp
    show "s \<notin> P \<and> (\<exists>d. refs ?v s = Some d \<and> isPvP d = pvp \<and> joins d a b)"
      if "filed ?v pvp a b = Some s" for pvp a b s
      using consistent_filedD [OF cons, of pvp a b s] that assms(2,5) by (auto simp: joins)
    show "ref_first e \<noteq> ref_second e" if "refs ?v s = Some e" "s \<notin> P" for s e
      using old [OF that(1)] consistent_refD(1) [OF cons _ that(2)] by auto
    show "filed ?v (isPvP e) a b = Some s" if "refs ?v s = Some e" "s \<notin> P" "joins e a b" for s e a b
    proof -
      note e = that
      obtain d where d: "refs w s = Some d" "isPvP e = isPvP d" "joins e = joins d"
        using old [OF e(1)] by auto
      show ?thesis using consistent_refD(2) [OF cons d(1) e(2), of a b] d e(3) by simp
    qed
    show "filed ?v True a b = None \<or> filed ?v False a b = None" for a b
      using consistent_freshD(3) [OF cons, of a b] by simp
    show "s < next_ref ?v" if "s \<in> P" for s
      using consistent_freshD(1) [OF cons that] by simp
    show "s < next_ref ?v" if "refs ?v s = Some e" for s e
      using old [OF that] consistent_freshD(2) [OF cons] by auto
  qed
  moreover have "flag_ok ?v a" if "a \<in> A" for a
  proof -
    have same: "IsSuppressedFor a c' = IsSuppressedFor a c" if "filed w True a b = Some r" for b
      using consistent_filedD(2) [OF cons that] assms(2) assms(6) [OF \<open>a \<in> A\<close>] by (auto simp: joins_def)
    have "(\<exists>b s d. filed ?v True a b = Some s \<and> refs ?v s = Some d \<and> \<not> IsSuppressedFor a d) \<longleftrightarrow>
          (\<exists>b s d. filed w True a b = Some s \<and> refs w s = Some d \<and> \<not> IsSuppressedFor a d)"
    proof -
      have "(filed ?v True a b = Some s \<and> (\<exists>d. refs ?v s = Some d \<and> \<not> IsSuppressedFor a d)) \<longleftrightarrow>
          (filed w True a b = Some s \<and> (\<exists>d. refs w s = Some d \<and> \<not> IsSuppressedFor a d))" for b s
        using same [of b] assms(2) by auto
      then show ?thesis by blast
    qed
    moreover have "flag_ok w a" using assms(1) that by (simp add: good_def)
    ultimately show ?thesis
      unfolding flag_filed [OF cons] flag_filed [OF \<open>consistent P ?v\<close>] by simp
  qed
  ultimately show ?thesis by (simp add: good_def)
qed

lemma UpdateOwner_good:
  assumes "hooks_keep env" and "good P A w" and "UpdateOwnerCombatState env x w = Some (b, w')"
  shows "good P (insert x A) w'"
proof (cases "HasCombat x w = in_combat_flag (units w x)")
  case True
  then show ?thesis using assms(2,3) by (simp add: UpdateOwnerCombatState_def good_def flag_ok_def)
next
  case False
  let ?v = "set_in_combat x (HasCombat x w) w"
  have "consistent P ?v" using assms(2) by (simp add: good_def consistent_def)
  then have g: "good P (insert x A) ?v" using assms(2) by (auto simp: good_def flag_set_in_combat)
  have "good P (insert x A) v" if "(if HasCombat x w then AtEnterCombat env x (set_in_combat x True w)
      else AtExitCombat env x (set_in_combat x False w)) = Some v" for v
    using that g keepsD [OF hooks_keepD(1) [OF assms(1)] g] keepsD [OF hooks_keepD(2) [OF assms(1)] g]
    by (cases "HasCombat x w") simp_all
  moreover have "good P (insert x A) v'" if "UpdatePetCombatState env m v = Some v'" "good P (insert x A) v" for m v v'
    using that keepsD [OF hooks_keepD(3) [OF assms(1)]] by blast
  moreover have "Option.bind (if HasCombat x w then AtEnterCombat env x (set_in_combat x True w)
      else AtExitCombat env x (set_in_combat x False w))
      (\<lambda>v. Option.bind (case CharmerOrOwner (units v x) of None \<Rightarrow> Some v | Some m \<Rightarrow> UpdatePetCombatState env m v)
        (\<lambda>w. Some (True, w))) = Some (b, w')"
    using False assms(3) by (simp add: UpdateOwnerCombatState_def Let_def)
  then obtain v where
      "(if HasCombat x w then AtEnterCombat env x (set_in_combat x True w)
      else AtExitCombat env x (set_in_combat x False w)) = Some v"
      "(case CharmerOrOwner (units v x) of None \<Rightarrow> Some v | Some m \<Rightarrow> UpdatePetCombatState env m v) = Some w'"
    by (elim bind_SomeE) simp
  ultimately show ?thesis by (cases "CharmerOrOwner (units v x)") auto
qed

lemma notify_good:
  assumes "hooks_keep env"
  shows "keeps (NotifyAICombat env u v)" and "keeps (notify_exit env need u)"
    and "keeps (notify_if env need me other r)"
proof -
  note k = keepsD [OF hooks_keepD(5) [OF assms]] keepsD [OF hooks_keepD(6) [OF assms]]
    keepsD [OF hooks_keepD(4) [OF assms]]
  have n: "good P A w'" if "NotifyAICombat env u v w = Some w'" "good P A w" for u v P A w w'
  proof (cases "IsAIEnabled (units w u)")
    case True
    with that(1) obtain x where x: "JustEnteredCombat env u v w = Some x"
      "(if is_creature (units x u) \<and> \<not> CanHaveThreatList (units x u)
         then JustEngagedWith env u v x else Some x) = Some w'"
      unfolding NotifyAICombat_def by (auto elim: bind_SomeE)
    then show ?thesis using k(1) [OF that(2) x(1)] k(2) by (auto split: if_splits)
  qed (use that in \<open>simp add: NotifyAICombat_def\<close>)
  then show "keeps (NotifyAICombat env u v)" by (simp add: keeps_def)
  show "keeps (notify_exit env need u)"
    unfolding keeps_def notify_exit_def using k(3) by (simp split: if_split)
  show "keeps (notify_if env need me other r)"
    unfolding keeps_def notify_if_def using n by (auto elim!: bind_SomeE split: if_splits)
qed

lemma good_mono: "good P A w \<Longrightarrow> B \<subseteq> A \<Longrightarrow> good P B w"
  by (auto simp: good_def)

lemma purge_good:
  assumes "good P A w" and "refs w r = Some c" and "r \<notin> P" and "joins c a b"
  shows "good (insert r P) (A - {a, b}) (PurgeReference b a (isPvP c) (PurgeReference a b (isPvP c) w))"
    (is "good _ _ ?v")
proof -
  have cons: "consistent P w" using assms(1) by (simp add: good_def)
  note filed_r = consistent_refD(2) [OF cons assms(2,3)]
  have filed_v: "filed ?v q x y = (if q = isPvP c \<and> joins c x y then None else filed w q x y)" for q x y
    using assms(4) by (auto simp: joins_def)
  have "consistent (insert r P) ?v"
  proof (rule consistentI)
    show "map_ok (refs_of pvp (managers ?v x))" for x pvp
      using consistent_okD [OF cons] by simp
    show "s \<notin> insert r P \<and> (\<exists>d. refs ?v s = Some d \<and> isPvP d = q \<and> joins d x y)"
      if "filed ?v q x y = Some s" for q x y s
    proof -
      have w: "filed w q x y = Some s" "\<not> (q = isPvP c \<and> joins c x y)"
        using that unfolding filed_v by (auto split: if_splits)
      show ?thesis using consistent_filedD [OF cons w(1)] w(2) assms(2) by auto
    qed
    show "ref_first e \<noteq> ref_second e" if "refs ?v s = Some e" "s \<notin> insert r P" for s e
      using consistent_refD(1) [OF cons, of s e] that by simp
    show "filed ?v (isPvP e) x y = Some s"
      if "refs ?v s = Some e" "s \<notin> insert r P" "joins e x y" for s e x y
    proof -
      have "filed w (isPvP e) x y = Some s"
        using consistent_refD(2) [OF cons, of s e x y] that by simp
      then show ?thesis using filed_r [of x y] that(2)
        unfolding filed_v by (cases "isPvP e = isPvP c \<and> joins c x y") auto
    qed
    show "filed ?v True x y = None \<or> filed ?v False x y = None" for x y
      using consistent_freshD(3) [OF cons, of x y] unfolding filed_v by auto
    show "s < next_ref ?v" if "s \<in> insert r P" for s
      using consistent_freshD(1,2) [OF cons, of s] that assms(2) by auto
    show "s < next_ref ?v" if "refs ?v s = Some e" for s e
      using consistent_freshD(2) [OF cons] that by simp
  qed
  moreover have "flag_ok ?v x" if "x \<in> A - {a, b}" for x
    using that assms(1) HasCombat_cong [of ?v x w] by (simp add: good_def flag_ok_def PurgeReference_def)
  ultimately show ?thesis by (simp add: good_def)
qed

lemma end_between_good:
  assumes "hooks_keep env"
    and "good Q A (PurgeReference b a pvp (PurgeReference a b pvp (threat_calls [ClearThreat a b, ClearThreat b a] w)))"
    and "end_between env a b pvp w = Some w'"
  shows "good Q (insert a (insert b A)) w'"
proof -
  from assms(3) obtain n1 w1 n2 w2 w3 where steps:
    "UpdateOwnerCombatState env a (PurgeReference b a pvp (PurgeReference a b pvp
        (threat_calls [ClearThreat a b, ClearThreat b a] w))) = Some (n1, w1)"
    "UpdateOwnerCombatState env b w1 = Some (n2, w2)"
    "notify_exit env n1 a w2 = Some w3" "notify_exit env n2 b w3 = Some w'"
    unfolding end_between_def by (auto elim!: bind_SomeE)
  have "good Q (insert a A) w1" by (rule UpdateOwner_good [OF assms(1,2) steps(1)])
  then have "good Q (insert b (insert a A)) w2" by (rule UpdateOwner_good [OF assms(1) _ steps(2)])
  then have "good Q (insert b (insert a A)) w3" by (rule keepsD [OF notify_good(2) [OF assms(1)] _ steps(3)])
  then have "good Q (insert b (insert a A)) w'" by (rule keepsD [OF notify_good(2) [OF assms(1)] _ steps(4)])
  then show ?thesis by (simp add: insert_commute)
qed

lemma delete_good:
  assumes "good (insert r P) A w" and "r \<notin> P" and "delete_ref r w = Some w'"
  shows "good P A w'"
proof -
  have cons: "consistent (insert r P) w" using assms(1) by (simp add: good_def)
  have w': "w' = w\<lparr>refs := (refs w)(r := None)\<rparr>"
    using assms(3) by (auto simp: delete_ref_def elim: bind_SomeE)
  have filed: "filed w' = filed w" by (simp add: w' filed_def fun_eq_iff)
  have keep: "refs w' s = refs w s" if "filed w q x y = Some s" for q x y s
    using consistent_filedD(1) [OF cons that] by (auto simp: w')
  have cons': "consistent P w'"
  proof (rule consistentI)
    show "s \<notin> P \<and> (\<exists>d. refs w' s = Some d \<and> isPvP d = q \<and> joins d x y)"
      if "filed w' q x y = Some s" for q x y s
      using consistent_filedD [OF cons, of q x y s] keep [of q x y s] that by (simp add: filed)
    show "filed w' (isPvP e) x y = Some s" if "refs w' s = Some e" "s \<notin> P" "joins e x y" for s e x y
      using consistent_refD(2) [OF cons, of s e x y] that unfolding filed by (simp add: w' split: if_splits)
    show "filed w' True x y = None \<or> filed w' False x y = None" for x y
      unfolding filed by (rule consistent_freshD(3) [OF cons])
  qed (use consistent_okD [OF cons] consistent_refD(1) [OF cons] consistent_freshD(1,2) [OF cons]
       in \<open>auto simp: w' split: if_splits\<close>)
  moreover have "flag_ok w' x" if "x \<in> A" for x
  proof -
    have "flag_ok w x" using assms(1) that by (simp add: good_def)
    moreover have "units w' = units w" by (simp add: w')
    ultimately show ?thesis
      unfolding flag_filed [OF cons] flag_filed [OF cons'] filed using keep by metis
  qed
  ultimately show ?thesis by (simp add: good_def)
qed

lemma EndCombat_good:
  assumes "hooks_keep env" and "good P A w" and "r \<notin> P" and "EndCombat env r w = Some w'"
  shows "good P A w'" and "\<And>c. refs w r = Some c \<Longrightarrow> good P (insert (ref_first c) (insert (ref_second c) A)) w'"
proof -
  from assms(4) obtain c w1 where c: "refs w r = Some c"
      "end_between env (ref_first c) (ref_second c) (isPvP c) w = Some w1" "delete_ref r w1 = Some w'"
    unfolding EndCombat_def by (auto elim!: bind_SomeE)
  have "ref_first c \<noteq> ref_second c"
    using consistent_refD(1) [OF _ c(1) assms(3)] assms(2) by (simp add: good_def)
  then have "good (insert r P) (A - {ref_first c, ref_second c})
     (PurgeReference (ref_second c) (ref_first c) (isPvP c) (PurgeReference (ref_first c) (ref_second c) (isPvP c)
       (threat_calls [ClearThreat (ref_first c) (ref_second c), ClearThreat (ref_second c) (ref_first c)] w)))"
    using purge_good [of P A "threat_calls _ w" r c "ref_first c" "ref_second c"] assms(2,3) c(1)
    by (simp add: joins_ends)
  from end_between_good [OF assms(1) this c(2)]
  have "good (insert r P) (insert (ref_first c) (insert (ref_second c) A)) w1" by (rule good_mono) auto
  then have all: "good P (insert (ref_first c) (insert (ref_second c) A)) w'"
    by (rule delete_good [OF _ assms(3) c(3)])
  then show "good P A w'" by (rule good_mono) auto
  show "\<And>c. refs w r = Some c \<Longrightarrow> good P (insert (ref_first c) (insert (ref_second c) A)) w'"
    using all c(1) by simp
qed

lemma unsuppress_good:
  assumes "hooks_keep env" and "good P A w" and "unsuppress env was clear who r w = Some (n, w')"
    and "\<And>c. ref_first (clear c) = ref_first c \<and> ref_second (clear c) = ref_second c \<and> isPvP (clear c) = isPvP c"
    and "\<And>c a. a = ref_first c \<or> a = ref_second c \<Longrightarrow> a \<noteq> who c \<Longrightarrow>
           IsSuppressedFor a (clear c) = IsSuppressedFor a c"
  shows "good P A w'"
proof -
  obtain c where c: "refs w r = Some c"
      "(if was c then UpdateOwnerCombatState env (who c) (set_ref r (clear c) w)
        else Some (False, w)) = Some (n, w')"
    using assms(3) unfolding unsuppress_def by (auto elim: bind_SomeE)
  show ?thesis
  proof (cases "was c")
    case True
    have "good P (A - {who c}) w" by (rule good_mono [OF assms(2)]) auto
    then have "good P (A - {who c}) (set_ref r (clear c) w)"
      by (rule good_set_ref [OF _ c(1)]) (use assms(4,5) in auto)
    moreover have "UpdateOwnerCombatState env (who c) (set_ref r (clear c) w) = Some (n, w')"
      using c(2) True by simp
    ultimately have "good P (insert (who c) (A - {who c})) w'" by (rule UpdateOwner_good [OF assms(1)])
    then show ?thesis by (rule good_mono) auto
  qed (use assms(2) c(2) in simp)
qed

lemma Refresh_good:
  assumes "hooks_keep env" and "good P A w" and "Refresh env r w = Some w'"
  shows "good P A w'"
proof -
  from assms(3) obtain c n1 w1 n2 w2 w3 where steps: "refs w r = Some c"
    "unsuppress env suppressFirst (suppressFirst_update (\<lambda>_. False)) ref_first r
        (set_ref r (c\<lparr>combatTimer := PVP_COMBAT_TIMEOUT\<rparr>) w) = Some (n1, w1)"
    "unsuppress env suppressSecond (suppressSecond_update (\<lambda>_. False)) ref_second r w1 = Some (n2, w2)"
    "notify_if env n1 ref_first ref_second r w2 = Some w3" "notify_if env n2 ref_second ref_first r w3 = Some w'"
    unfolding Refresh_def by (auto elim!: bind_SomeE)
  have "good P A (set_ref r (c\<lparr>combatTimer := PVP_COMBAT_TIMEOUT\<rparr>) w)"
    by (rule good_set_ref [OF assms(2) steps(1)]) (simp_all add: IsSuppressedFor_def)
  then have "good P A w1"
    by (rule unsuppress_good [OF assms(1) _ steps(2)]) (auto simp: IsSuppressedFor_def)
  then have "good P A w2"
    by (rule unsuppress_good [OF assms(1) _ steps(3)]) (auto simp: IsSuppressedFor_def)
  then have "good P A w3" by (rule keepsD [OF notify_good(3) [OF assms(1)] _ steps(4)])
  then show ?thesis by (rule keepsD [OF notify_good(3) [OF assms(1)] _ steps(5)])
qed

lemma Suppress_ends [simp]:
  "ref_first (Suppress x c) = ref_first c" "ref_second (Suppress x c) = ref_second c"
  "isPvP (Suppress x c) = isPvP c"
  by (simp_all add: Suppress_def)

lemma Suppress_other: "a = ref_first c \<or> a = ref_second c \<Longrightarrow> a \<noteq> x \<Longrightarrow> x = ref_first c \<or> x = ref_second c \<Longrightarrow>
    IsSuppressedFor a (Suppress x c) = IsSuppressedFor a c"
  by (auto simp: IsSuppressedFor_def Suppress_def)

lemma suppress_good:
  assumes "good P A w" and "refs w r = Some c" and "x = ref_first c \<or> x = ref_second c"
  shows "good P (A - {x}) (set_ref r (Suppress x c) w)"
proof (rule good_set_ref [OF good_mono [OF assms(1)] assms(2)])
  show "IsSuppressedFor a (Suppress x c) = IsSuppressedFor a c"
    if "a \<in> A - {x}" "a = ref_first c \<or> a = ref_second c" for a
    using Suppress_other [OF that(2) _ assms(3)] that(1) by auto
qed auto

lemma owner_state_good:
  assumes "hooks_keep env" and "good P (A - {x}) w" and "UpdateOwnerCombatState env x w = Some (n, w1)"
    and "notify_exit env n x w1 = Some w'"
  shows "good P A w'"
proof -
  have "good P (insert x (A - {x})) w1" by (rule UpdateOwner_good [OF assms(1-3)])
  then have "good P A w1" by (rule good_mono) auto
  then show ?thesis by (rule keepsD [OF notify_good(2) [OF assms(1)] _ assms(4)])
qed

lemma SuppressFor_good:
  assumes "hooks_keep env" and "good P A w" and "SuppressFor env x r w = Some w'"
    and "\<And>c. refs w r = Some c \<Longrightarrow> x = ref_first c \<or> x = ref_second c"
  shows "good P A w'"
proof -
  from assms(3) obtain c n w1 where steps: "refs w r = Some c"
    "UpdateOwnerCombatState env x (set_ref r (Suppress x c) w) = Some (n, w1)"
    "notify_exit env n x w1 = Some w'"
    unfolding SuppressFor_def by (auto elim!: bind_SomeE)
  show ?thesis
    by (rule owner_state_good [OF assms(1) suppress_good [OF assms(2) steps(1) assms(4) [OF steps(1)]] steps(2,3)])
qed

lemma begin_good:
  assumes "good P A w" and "begin_ref x y w = Some w'" and "x \<noteq> y"
    and "\<not> IsInCombatWith x y w"
  shows "good P (A - {x, y}) w'" and "filed w' True x y \<noteq> None \<or> filed w' False x y \<noteq> None"
proof -
  have cons: "consistent P w" using assms(1) by (simp add: good_def)
  define c where "c = (if IsControlledByPlayer (units w x) \<and> IsControlledByPlayer (units w y)
               then new_PvPCombatReference x y else new_CombatReference x y)"
  define p where "p = isPvP c"
  let ?r = "next_ref w"
  have ends: "ref_first c = x" "ref_second c = y"
    by (simp_all add: c_def new_PvPCombatReference_def new_CombatReference_def)
  have w': "w' = with_manager y (with_refs p (smap_put x ?r)) (with_manager x (with_refs p (smap_put y ?r))
      ((set_ref ?r c w)\<lparr>next_ref := Suc ?r\<rparr>))"
    using assms(2) by (auto simp: begin_ref_def Let_def PutReference_def c_def [symmetric] p_def split: if_splits)
  have [simp]: "refs w' = (refs w)(?r \<mapsto> c)" "next_ref w' = Suc ?r" "units w' = units w"
    by (simp_all add: w')
  have filed': "filed w' q a b = (if q = p \<and> joins c a b then Some ?r else filed w q a b)" for q a b
    using assms(3) by (auto simp: w' filed_def joins_def ends)
  have none: "filed w q a b = None" if "joins c a b" for q a b
  proof (rule ccontr)
    assume "filed w q a b \<noteq> None"
    then obtain s where s: "filed w q a b = Some s" by auto
    from consistent_filedD [OF cons s] obtain d where d: "s \<notin> P" "refs w s = Some d" "isPvP d = q" "joins d a b" by auto
    have "joins d x y" using d(4) that by (auto simp: joins_def ends)
    then have "filed w q x y = Some s" using consistent_refD(2) [OF cons d(2,1)] d(3) by blast
    then show False using assms(4) by (cases q) (auto simp: IsInCombatWith_def filed_def refs_of_def)
  qed
  have new: "refs w ?r = None" "?r \<notin> P" using consistent_freshD(1,2) [OF cons, of ?r] by (auto intro: ccontr)
  have cons': "consistent P w'"
  proof (rule consistentI)
    show "map_ok (refs_of q (managers w' a))" for a q
      using consistent_okD [OF cons] by (auto simp: w')
    show "s \<notin> P \<and> (\<exists>d. refs w' s = Some d \<and> isPvP d = q \<and> joins d a b)"
      if "filed w' q a b = Some s" for q a b s
    proof (cases "q = p \<and> joins c a b")
      case True
      then show ?thesis using that new by (auto simp: filed' p_def)
    next
      case False
      then have "filed w q a b = Some s" using that by (auto simp: filed')
      then show ?thesis using consistent_filedD [OF cons, of q a b s] new by auto
    qed
    show "ref_first e \<noteq> ref_second e" if "refs w' s = Some e" "s \<notin> P" for s e
      using consistent_refD(1) [OF cons, of s e] that assms(3) ends by (auto split: if_splits)
    show "filed w' (isPvP e) a b = Some s" if "refs w' s = Some e" "s \<notin> P" "joins e a b" for s e a b
    proof (cases "s = ?r")
      case True
      then show ?thesis using that by (simp add: filed' p_def)
    next
      case False
      then have "filed w (isPvP e) a b = Some s"
        using consistent_refD(2) [OF cons, of s e a b] that by simp
      then show ?thesis using none [of a b] by (auto simp: filed')
    qed
    show "filed w' True a b = None \<or> filed w' False a b = None" for a b
      using consistent_freshD(3) [OF cons, of a b] none [of a b] by (cases p) (auto simp: filed')
    show "s < next_ref w'" if "s \<in> P" for s
      using consistent_freshD(1) [OF cons that] by simp
    show "s < next_ref w'" if "refs w' s = Some e" for s e
      using consistent_freshD(2) [OF cons, of s] that by (auto split: if_splits intro: less_SucI)
  qed
  have "flag_ok w' a" if "a \<in> A - {x, y}" for a
  proof -
    have "filed w' q a b = filed w q a b" for q b using that by (auto simp: filed' joins_def ends)
    moreover have "refs w' s = refs w s" if "filed w q a b = Some s" for q b s
      using consistent_filedD(2) [OF cons that] new(1) by auto
    moreover have "flag_ok w a" using assms(1) that by (simp add: good_def)
    ultimately show ?thesis unfolding flag_filed [OF cons] flag_filed [OF cons'] by (simp del: \<open>refs w' = _\<close>) metis
  qed
  with cons' show "good P (A - {x, y}) w'" by (simp add: good_def)
  show "filed w' True x y \<noteq> None \<or> filed w' False x y \<noteq> None"
    using assms(3) by (cases p) (auto simp: filed' joins_def ends)
qed

lemma SetInCombatWith_good:
  assumes "hooks_keep env" and "good P A w" and "SetInCombatWith env x y w = Some (b, w')"
  shows "good P A w'"
proof (cases "IsInCombatWith x y w")
  case True
  then show ?thesis using assms(2,3) Refresh_good [OF assms(1,2)]
    by (auto simp: SetInCombatWith_def IsInCombatWith_def elim!: bind_SomeE split: option.splits if_splits)
next
  case False
  then have none: "smap_find (pvpRefs (managers w x)) y = None" "smap_find (pveRefs (managers w x)) y = None"
    by (auto simp: IsInCombatWith_def)
  show ?thesis
  proof (cases "CanBeginCombat env x y w")
    case False
    then show ?thesis using none assms(2,3) by (simp add: SetInCombatWith_def)
  next
    case True
    then have ne: "x \<noteq> y" by (auto simp: CanBeginCombat_def Let_def)
    from True none assms(3) obtain w1 n1 w2 n2 w3 w4 where steps:
      "begin_ref x y w = Some w1" "UpdateOwnerCombatState env x w1 = Some (n1, w2)"
      "UpdateOwnerCombatState env y w2 = Some (n2, w3)"
      "(if n1 then NotifyAICombat env x y w3 else Some w3) = Some w4"
      "(if n2 then NotifyAICombat env y x w4 else Some w4) = Some w'"
      unfolding SetInCombatWith_def by (auto elim!: bind_SomeE simp del: if_split)
    have "good P (A - {x, y}) w1" by (rule begin_good(1) [OF assms(2) steps(1) ne False])
    then have "good P (insert x (A - {x, y})) w2" by (rule UpdateOwner_good [OF assms(1) _ steps(2)])
    then have "good P (insert y (insert x (A - {x, y}))) w3" by (rule UpdateOwner_good [OF assms(1) _ steps(3)])
    then have "good P A w3" by (rule good_mono) auto
    then have "good P A w4" using steps(4) keepsD [OF notify_good(1) [OF assms(1)]] by (auto split: if_splits)
    then show ?thesis using steps(5) keepsD [OF notify_good(1) [OF assms(1)]] by (auto split: if_splits)
  qed
qed

lemma suppress_all_good:
  assumes "good P (A - {x}) w" and "suppress_all x m w = Some w'"
    and "\<And>g r c. (g, r) \<in> set m \<Longrightarrow> refs w r = Some c \<Longrightarrow> x = ref_first c \<or> x = ref_second c"
  shows "good P (A - {x}) w'"
  using assms
proof (induction x m w rule: suppress_all.induct)
  case (2 x g r m w)
  from "2.prems"(2) obtain c where c: "refs w r = Some c" "suppress_all x m (set_ref r (Suppress x c) w) = Some w'"
    by (auto elim: bind_SomeE)
  have x: "x = ref_first c \<or> x = ref_second c" using "2.prems"(3) c(1) by auto
  have g: "good P (A - {x}) (set_ref r (Suppress x c) w)"
    using suppress_good [OF "2.prems"(1) c(1) x] by simp
  show ?case
  proof (rule "2.IH" [OF c(1) g c(2)])
    fix g' r' c' assume "(g', r') \<in> set m" "refs (set_ref r (Suppress x c) w) r' = Some c'"
    then show "x = ref_first c' \<or> x = ref_second c'"
      using "2.prems"(3) [of g' r'] x by (auto split: if_splits)
  qed
qed simp

lemma SuppressPvPCombat_good:
  assumes "hooks_keep env" and "good P A w" and "SuppressPvPCombat env x w = Some w'"
  shows "good P A w'"
proof -
  from assms(3) obtain w1 n w2 where steps: "suppress_all x (pvpRefs (managers w x)) w = Some w1"
    "UpdateOwnerCombatState env x w1 = Some (n, w2)" "notify_exit env n x w2 = Some w'"
    unfolding SuppressPvPCombat_def by (auto elim!: bind_SomeE)
  have cons: "consistent P w" using assms(2) by (simp add: good_def)
  have "x = ref_first c \<or> x = ref_second c"
    if "(g, r) \<in> set (pvpRefs (managers w x))" "refs w r = Some c" for g r c
  proof -
    have "filed w True x g = Some r"
      using that(1) consistent_okD [OF cons, of True x] by (simp add: filed_def refs_of_def in_set_find)
    from consistent_filedD(2) [OF cons this] that(2) show ?thesis by (auto simp: joins_def)
  qed
  with suppress_all_good [OF good_mono [OF assms(2)] steps(1)] have "good P (A - {x}) w1" by blast
  then show ?thesis by (rule owner_state_good [OF assms(1) _ steps(2,3)])
qed

lemma erase_erase [simp]: "smap_erase k (smap_erase k m) = smap_erase k m"
  by (simp add: smap_erase_def)

lemma erase_commute: "smap_erase k (smap_erase j m) = smap_erase j (smap_erase k m)"
  by (simp add: smap_erase_def conj_commute)

lemma with_refs_twice: "with_refs p f (with_refs p g m) = with_refs p (\<lambda>x. f (g x)) m"
  by (simp add: with_refs_def)

lemma purge_twice [simp]: "PurgeReference x g p (PurgeReference x g p w) = PurgeReference x g p w"
  by (simp add: PurgeReference_def with_manager_def with_refs_twice)

lemma purge_commute:
  "PurgeReference x g p (PurgeReference y h q w) = PurgeReference y h q (PurgeReference x g p w)"
proof -
  have "with_refs p (smap_erase g) (with_refs q (smap_erase h) m) =
        with_refs q (smap_erase h) (with_refs p (smap_erase g) m)" for m
    by (cases p; cases q) (simp_all add: with_refs_def erase_commute)
  then show ?thesis
    by (cases "x = y") (simp_all add: PurgeReference_def with_manager_def fun_upd_twist)
qed

lemma threat_purge: "threat_calls cs (PurgeReference x g p w) = PurgeReference x g p (threat_calls cs w)"
  by (simp add: PurgeReference_def threat_calls_def with_manager_def)

text \<open>Erasing one side first makes no difference to ending the combat.\<close>

lemma EndCombat_erased:
  assumes "refs w r = Some c" and "joins c x g"
  shows "EndCombat env r (PurgeReference x g (isPvP c) w) = EndCombat env r w"
proof -
  let ?a = "ref_first c" and ?b = "ref_second c"
  have "PurgeReference ?b ?a (isPvP c) (PurgeReference ?a ?b (isPvP c) (threat_calls cs (PurgeReference x g (isPvP c) w))) =
        PurgeReference ?b ?a (isPvP c) (PurgeReference ?a ?b (isPvP c) (threat_calls cs w))" for cs
    using assms(2) purge_commute [of ?a ?b "isPvP c" ?b ?a "isPvP c"]
    by (auto simp: joins_def threat_purge)
  then show ?thesis using assms(1) by (simp add: EndCombat_def end_between_def)
qed

lemma erase_and_end_good:
  assumes "hooks_keep env" and "good P A w" and "filed w pvp x g = Some r"
    and "erase_and_end env x pvp g r w = Some (nxt, w')"
  shows "good P A w'"
proof -
  have cons: "consistent P w" using assms(2) by (simp add: good_def)
  from consistent_filedD [OF cons assms(3)] obtain c where c: "r \<notin> P" "refs w r = Some c" "isPvP c = pvp" "joins c x g"
    by auto
  have "EndCombat env r (PurgeReference x g pvp w) = Some w'"
    using assms(4) by (auto simp: erase_and_end_def Let_def elim!: bind_SomeE split: if_splits)
  then have "EndCombat env r w = Some w'" using EndCombat_erased [OF c(2,4), of env] c(3) by simp
  then show ?thesis by (rule EndCombat_good(1) [OF assms(1,2) c(1)])
qed

lemmas iterate_induct = iterate.raw_induct [rotated, consumes 1, case_names step]

lemma iterate_good:
  assumes "iterate turn itr w = Some w'"
    and "\<And>g w nxt w'. good P A w \<Longrightarrow> turn g w = Some (nxt, w') \<Longrightarrow> good P A w'"
    and "good P A w"
  shows "good P A w'"
  using assms
proof (induction rule: iterate_induct)
  case (step it turn itr w w')
  note IH = step(1) and body = step(2) and keep = step(3) and good = step(4)
  show ?case
  proof (cases itr)
    case (Some g)
    with body obtain nxt v where v: "turn g w = Some (nxt, v)" "it turn nxt v = Some w'"
      by (auto elim: bind_SomeE)
    show ?thesis by (rule IH [OF v(2) keep keep [OF good v(1)]])
  qed (use body good in simp)
qed

lemma update_turn_good:
  assumes "hooks_keep env" and "good P A w" and "update_turn env x tdiff g w = Some (nxt, w')"
  shows "good P A w'"
proof -
  from assms(3) obtain r c where rc: "filed w True x g = Some r" "refs w r = Some c"
    unfolding update_turn_def filed_def refs_of_def by (auto elim!: bind_SomeE)
  then have find: "smap_find (pvpRefs (managers w x)) g = Some r" by (simp add: filed_def refs_of_def)
  consider "ref_first c \<noteq> x" | "ref_first c = x" "combatTimer c \<le> tdiff" | "ref_first c = x" "\<not> combatTimer c \<le> tdiff"
    by blast
  then show ?thesis
  proof cases
    case 1
    then show ?thesis using assms(2,3) rc(2) find by (simp add: update_turn_def)
  next
    case 2
    then show ?thesis using assms(3) rc(2) find erase_and_end_good [OF assms(1,2) rc(1)]
      by (simp add: update_turn_def pvp_Update_def)
  next
    case 3
    then have "w' = set_ref r (c\<lparr>combatTimer := combatTimer c - tdiff\<rparr>) w"
      using assms(3) rc(2) find by (simp add: update_turn_def pvp_Update_def)
    then show ?thesis using good_set_ref [OF assms(2) rc(2)] by (simp add: IsSuppressedFor_def)
  qed
qed

lemma range_turn_good:
  assumes "hooks_keep env" and "good P A w" and "range_turn env near x pvp g w = Some (nxt, w')"
  shows "good P A w'"
proof -
  from assms(3) obtain r c where rc: "filed w pvp x g = Some r" "refs w r = Some c"
      "(if \<not> near (ref_first c) (ref_second c) w then erase_and_end env x pvp g r w
      else Some (key_after g (refs_of pvp (managers w x)), w)) = Some (nxt, w')"
    unfolding range_turn_def filed_def by (auto elim!: bind_SomeE simp del: if_split)
  then show ?thesis using erase_and_end_good [OF assms(1,2) rc(1)] assms(2) by (auto split: if_splits)
qed

lemma inherit_turn_good:
  assumes "hooks_keep env" and "good P A w" and "inherit_turn env x y pvp g w = Some (nxt, w')"
  shows "good P A w'"
proof -
  have "w' = w \<or> (\<exists>t b. SetInCombatWith env x t w = Some (b, w'))"
    using assms(3) unfolding inherit_turn_def Let_def
    by (auto elim!: bind_SomeE split: if_splits)
  then show ?thesis using SetInCombatWith_good [OF assms(1,2)] assms(2) by blast
qed

lemma loops_good:
  assumes "hooks_keep env" and "good P A w"
  shows "cm_Update env x tdiff w = Some w' \<Longrightarrow> good P A w'"
    and "EndCombatBeyondRange env near x inc w = Some w' \<Longrightarrow> good P A w'"
    and "InheritCombatStatesFrom env x y w = Some w' \<Longrightarrow> good P A w'"
proof -
  show "good P A w'" if "cm_Update env x tdiff w = Some w'"
    using iterate_good [OF that [unfolded cm_Update_def] update_turn_good [OF assms(1)] assms(2)] .
  show "good P A w'" if run: "EndCombatBeyondRange env near x inc w = Some w'"
  proof -
    from run obtain v where v: "iterate (range_turn env near x False) (first_key (pveRefs (managers w x))) w = Some v"
      "(if \<not> inc then Some v else iterate (range_turn env near x True) (first_key (pvpRefs (managers v x))) v) = Some w'"
      unfolding EndCombatBeyondRange_def by (auto elim: bind_SomeE simp del: if_split)
    have "good P A v" by (rule iterate_good [OF v(1) range_turn_good [OF assms(1)] assms(2)])
    then show ?thesis using v(2) iterate_good [OF _ range_turn_good [OF assms(1)]] by (auto split: if_splits)
  qed
  show "good P A w'" if run: "InheritCombatStatesFrom env x y w = Some w'"
  proof -
    from run obtain v where v: "iterate (inherit_turn env x y False) (first_key (pveRefs (managers w y))) w = Some v"
      "iterate (inherit_turn env x y True) (first_key (pvpRefs (managers v y))) v = Some w'"
      unfolding InheritCombatStatesFrom_def by (auto elim: bind_SomeE)
    have "good P A v" by (rule iterate_good [OF v(1) inherit_turn_good [OF assms(1)] assms(2)])
    show ?thesis by (rule iterate_good [OF v(2) inherit_turn_good [OF assms(1)] \<open>good P A v\<close>])
  qed
qed

lemmas end_all_induct = end_all_loop.raw_induct [rotated, consumes 1, case_names step]

lemma end_all_loop_good:
  assumes "end_all_loop env x pvp w = Some w'" and "hooks_keep env" and "good P A w"
  shows "good P A w' \<and> refs_of pvp (managers w' x) = []"
  using assms
proof (induction rule: end_all_induct)
  case (step it env x pvp w w')
  note IH = step(1) and body = step(2) and hooks = step(3) and good = step(4)
  show ?case
  proof (cases "refs_of pvp (managers w x)")
    case Nil
    then show ?thesis using body good by simp
  next
    case (Cons e m)
    with body obtain v where v: "EndCombat env (snd e) w = Some v" "it env x pvp v = Some w'"
      by (auto elim: bind_SomeE)
    have cons: "consistent P w" using good by (simp add: good_def)
    have "filed w pvp x (fst e) = Some (snd e)"
      using in_set_find [OF consistent_okD [OF cons, of pvp x]] Cons by (simp add: filed_def smap_find_def)
    then have "snd e \<notin> P" by (rule consistent_filedD(1) [OF cons])
    then have "good P A v" by (rule EndCombat_good(1) [OF hooks good _ v(1)])
    then show ?thesis by (rule IH [OF v(2) hooks])
  qed
qed

section \<open>Call sequences\<close>

text \<open>
  What the rest of the server does: it ends a combat and suppresses a reference through the
  reference it finds in a manager.
\<close>

datatype combat_op =
    CallSetInCombatWith guid guid
  | CallEndCombat bool guid guid
  | CallSuppressFor guid guid
  | CallSuppressPvP guid
  | CallUpdate guid u32
  | CallInherit guid guid
  | CallBeyondRange "guid \<Rightarrow> guid \<Rightarrow> combat_world \<Rightarrow> bool" guid bool
  | CallEndAllPvE guid
  | CallEndAllPvP guid

fun combat_call :: "combat_env \<Rightarrow> combat_op \<Rightarrow> hook" where
  "combat_call env (CallSetInCombatWith x y) w = map_option snd (SetInCombatWith env x y w)"
| "combat_call env (CallEndCombat pvp x y) w =
     (case filed w pvp x y of None \<Rightarrow> Some w | Some r \<Rightarrow> EndCombat env r w)"
| "combat_call env (CallSuppressFor x y) w =
     (case filed w True x y of None \<Rightarrow> Some w | Some r \<Rightarrow> SuppressFor env x r w)"
| "combat_call env (CallSuppressPvP x) w = SuppressPvPCombat env x w"
| "combat_call env (CallUpdate x tdiff) w = cm_Update env x tdiff w"
| "combat_call env (CallInherit x y) w = InheritCombatStatesFrom env x y w"
| "combat_call env (CallBeyondRange near x inc) w = EndCombatBeyondRange env near x inc w"
| "combat_call env (CallEndAllPvE x) w = EndAllPvECombat env x w"
| "combat_call env (CallEndAllPvP x) w = EndAllPvPCombat env x w"

definition combat_exec :: "combat_env \<Rightarrow> combat_world option \<Rightarrow> combat_op \<Rightarrow> combat_world option" where
  "combat_exec env s c = Option.bind s (combat_call env c)"

lemma combat_exec_Some [simp]: "combat_exec env (Some w) c = combat_call env c w"
  by (simp add: combat_exec_def)

lemma combat_call_good:
  assumes "hooks_keep env"
  shows "keeps (combat_call env c)"
  unfolding keeps_def
proof (intro allI impI)
  fix P A w w' assume g: "good P A w" and run: "combat_call env c w = Some w'"
  have cons: "consistent P w" using g by (simp add: good_def)
  show "good P A w'"
  proof (cases c)
    case (CallSetInCombatWith x y)
    then show ?thesis using run SetInCombatWith_good [OF assms g] by auto
  next
    case (CallEndCombat pvp x y)
    then show ?thesis using run g EndCombat_good(1) [OF assms g consistent_filedD(1) [OF cons]]
      by (auto split: option.splits)
  next
    case (CallSuppressFor x y)
    show ?thesis
    proof (cases "filed w True x y")
      case (Some r)
      have ends: "x = ref_first d \<or> x = ref_second d" if "refs w r = Some d" for d
        using consistent_filedD(2) [OF cons Some] that by (auto simp: joins_def)
      have "SuppressFor env x r w = Some w'" using run CallSuppressFor Some by simp
      then show ?thesis by (rule SuppressFor_good [OF assms g _ ends])
    qed (use run CallSuppressFor g in simp)
  next
    case (CallSuppressPvP x)
    then show ?thesis using run SuppressPvPCombat_good [OF assms g] by simp
  next
    case (CallEndAllPvE x)
    then show ?thesis using run end_all_loop_good [OF _ assms] g by (simp add: EndAllPvECombat_def)
  next
    case (CallEndAllPvP x)
    then show ?thesis using run end_all_loop_good [OF _ assms] g by (simp add: EndAllPvPCombat_def)
  qed (use run loops_good [OF assms g] in simp_all)
qed

text \<open>The managers' contract: whatever the calls, what is returned is consistent.\<close>

definition combat_inv :: "combat_env \<Rightarrow> combat_world option \<Rightarrow> bool" where
  "combat_inv env s \<longleftrightarrow> hooks_keep env \<and> (\<forall>w. s = Some w \<longrightarrow> good {} UNIV w)"

interpretation combat: stateful "combat_exec env" "\<lambda>c. True" "combat_inv env"
  by unfold_locales
    (auto simp: combat_inv_def combat_exec_def elim!: bind_SomeE
      intro: keepsD [OF combat_call_good])

definition fresh_combat :: "(guid \<Rightarrow> unit_view) \<Rightarrow> combat_world" where
  "fresh_combat us = \<lparr>units = (\<lambda>a. (us a)\<lparr>in_combat_flag := False\<rparr>), managers = (\<lambda>_. new_CombatManager),
     refs = (\<lambda>_. None), next_ref = 0, threat_log = []\<rparr>"

lemma fresh_good: "good P' A (fresh_combat us)" if "P' = {}"
  using that
  by (auto simp: good_def consistent_def flag_ok_def HasCombat_def HasPvECombat_def HasPvPCombat_def
      fresh_combat_def new_CombatManager_def filed_def refs_of_def)

text \<open>C2: \<^bold>\<open>References are filed on both sides, and a unit is in combat exactly when it has one
  that is not suppressed.\<close> From a world without combat, whatever calls the managers receive and
  whatever the hooks do in the middle of them (provided they keep the same promise themselves, as
  calls of the managers do): every reference in a manager joins its owner with the unit it is
  filed under, two distinct units, and is filed in the other manager too; two units have one
  reference at most; no live reference is lost; and the in-combat flag of a unit is set exactly
  when it has a PvE reference or a PvP reference that is not suppressed for it.\<close>

theorem combat_references_symmetric:
  assumes "hooks_keep env" and "run (combat_exec env) (Some (fresh_combat us)) calls = Some w"
  shows "(\<forall>pvp a b r. filed w pvp a b = Some r \<longrightarrow>
            a \<noteq> b \<and> filed w pvp b a = Some r \<and> filed w (\<not> pvp) a b = None \<and>
            (\<exists>c. refs w r = Some c \<and> isPvP c = pvp \<and> {ref_first c, ref_second c} = {a, b})) \<and>
         (\<forall>r c. refs w r = Some c \<longrightarrow> filed w (isPvP c) (ref_first c) (ref_second c) = Some r) \<and>
         (\<forall>a. in_combat_flag (units w a) \<longleftrightarrow>
            (\<exists>b r. filed w False a b = Some r) \<or>
            (\<exists>b r c. filed w True a b = Some r \<and> refs w r = Some c \<and> \<not> IsSuppressedFor a c))"
proof -
  have "combat_inv env (Some (fresh_combat us))" using assms(1) fresh_good by (simp add: combat_inv_def)
  from combat.run_keeps [OF this, of calls] assms(2) have g: "good {} UNIV w"
    by (simp add: combat_inv_def list_all_iff)
  then have cons: "consistent {} w" by (simp add: good_def)
  have both: "a \<noteq> b \<and> filed w pvp b a = Some r \<and> filed w (\<not> pvp) a b = None \<and>
      (\<exists>c. refs w r = Some c \<and> isPvP c = pvp \<and> {ref_first c, ref_second c} = {a, b})"
    if f: "filed w pvp a b = Some r" for pvp a b r
  proof -
    obtain c where c: "refs w r = Some c" "isPvP c = pvp" "joins c a b"
      using consistent_filedD(2) [OF cons f] by auto
    have "filed w pvp b a = Some r" using filed_sym [OF cons, of pvp a b] f by simp
    moreover have "filed w (\<not> pvp) a b = None"
      using consistent_freshD(3) [OF cons, of a b] f by (cases pvp) auto
    ultimately show ?thesis using c by (auto simp: joins_def)
  qed
  have live: "filed w (isPvP c) (ref_first c) (ref_second c) = Some r" if "refs w r = Some c" for r c
    using consistent_refD [OF cons that] joins_ends by simp
  have "flag_ok w a" for a using g by (simp add: good_def)
  then show ?thesis using both live unfolding flag_filed [OF cons] by blast
qed

text \<open>Hooks that do nothing, and units that may fight each other.\<close>

definition still_env :: combat_env where
  "still_env = \<lparr>InSamePhase = (\<lambda>_ _ _. True), IsFriendlyTo = (\<lambda>_ _ _. False),
     AtEnterCombat = (\<lambda>_. Some), AtExitCombat = (\<lambda>_. Some), UpdatePetCombatState = (\<lambda>_. Some),
     JustExitedCombat = (\<lambda>_. Some), JustEnteredCombat = (\<lambda>_ _. Some), JustEngagedWith = (\<lambda>_ _. Some)\<rparr>"

definition demo_unit :: unit_view where
  "demo_unit = \<lparr>IsInWorld = True, IsAlive = True, GetMap = 530, in_evade = False, in_flight = False,
     owner_player_gm = None, IsControlledByPlayer = True, IsImmuneToPC = False, IsImmuneToNPC = False,
     player_controlled_flag = True, in_combat_flag = False, has_AI = True, IsAIEnabled = True,
     is_creature = False, CanHaveThreatList = False, CharmerOrOwner = None\<rparr>"

lemma still_keeps: "hooks_keep still_env"
  by (simp add: hooks_keep_def keeps_def still_env_def)

definition demo_fight :: "combat_world option" where
  "demo_fight = run (combat_exec still_env) (Some (fresh_combat (\<lambda>_. demo_unit))) [CallSetInCombatWith 1 2]"

lemma demo_fight_runs:
  "\<exists>w. demo_fight = Some w \<and> filed w True 1 2 = Some 0 \<and> refs w 0 = Some (new_PvPCombatReference 1 2)"
  by (simp add: demo_fight_def combat_exec_def SetInCombatWith_def fresh_combat_def new_CombatManager_def
      CanBeginCombat_def Let_def demo_unit_def still_env_def begin_ref_def new_PvPCombatReference_def
      PutReference_def set_ref_def with_manager_def with_refs_def refs_of_def UpdateOwnerCombatState_def
      HasCombat_def HasPvECombat_def HasPvPCombat_def IsSuppressedFor_def set_in_combat_def
      NotifyAICombat_def filed_def smap_find_def)

theorem combat_references_symmetric_witness:
  "\<exists>w. demo_fight = Some w \<and> filed w True 2 1 = Some 0 \<and> filed w False 1 2 = None"
proof -
  obtain w where w: "demo_fight = Some w" "filed w True 1 2 = Some 0" using demo_fight_runs by blast
  then show ?thesis
    using combat_references_symmetric [OF still_keeps w(1) [unfolded demo_fight_def]] by (metis (full_types))
qed

end
