(* ===== verification/CombatRuns.thy ===== *)
theory CombatRuns
  imports CombatProps
begin

text \<open>
  The combat system with hooks that only watch: no operation runs into an undefined state or an
  assertion, every loop ends, and what each operation does can be said exactly.
\<close>

section \<open>Hooks that only watch\<close>

text \<open>They may call the threat system, and nothing else of the world.\<close>

definition watching :: "hook \<Rightarrow> bool" where
  "watching h \<longleftrightarrow> (\<forall>w. \<exists>l. h w = Some (w\<lparr>threat_log := l\<rparr>))"

definition hooks_watch :: "combat_env \<Rightarrow> bool" where
  "hooks_watch env \<longleftrightarrow>
     (\<forall>u. watching (AtEnterCombat env u) \<and> watching (AtExitCombat env u) \<and>
          watching (UpdatePetCombatState env u) \<and> watching (JustExitedCombat env u) \<and>
          (\<forall>v. watching (JustEnteredCombat env u v) \<and> watching (JustEngagedWith env u v)))"

definition alike :: "combat_world \<Rightarrow> combat_world \<Rightarrow> bool" where
  "alike w w' \<longleftrightarrow> (\<exists>l. w' = w\<lparr>threat_log := l\<rparr>)"

lemma alike_refl [simp]: "alike w w"
  unfolding alike_def by (intro exI [of _ "threat_log w"]) simp

lemma alike_trans: "alike u v \<Longrightarrow> alike v w \<Longrightarrow> alike u w"
  unfolding alike_def by fastforce

lemma alike_threat [simp]: "alike w (threat_calls cs w)"
  by (auto simp: alike_def threat_calls_def)

lemma alike_parts:
  assumes "alike w w'"
  shows "units w' = units w" "managers w' = managers w" "refs w' = refs w" "next_ref w' = next_ref w"
    "filed w' = filed w" "HasCombat x w' = HasCombat x w" "IsInCombatWith x y w' = IsInCombatWith x y w"
  using assms by (auto simp: alike_def filed_def fun_eq_iff HasCombat_def HasPvECombat_def
      HasPvPCombat_def IsInCombatWith_def)

lemma watching_run: "watching h \<Longrightarrow> \<exists>w'. h w = Some w' \<and> alike w w'"
  unfolding watching_def alike_def by blast

lemma hooks_watchD:
  assumes "hooks_watch env"
  shows "watching (AtEnterCombat env u)" "watching (AtExitCombat env u)"
    "watching (UpdatePetCombatState env u)" "watching (JustExitedCombat env u)"
    "watching (JustEnteredCombat env u v)" "watching (JustEngagedWith env u v)"
  using assms by (simp_all add: hooks_watch_def)

lemma watching_keeps: "watching h \<Longrightarrow> keeps h"
proof -
  have "good P A (w\<lparr>threat_log := l\<rparr>) = good P A w" for P A w l
    by (simp add: good_def consistent_def flag_ok_def HasCombat_def HasPvECombat_def HasPvPCombat_def filed_def)
  then show "watching h \<Longrightarrow> keeps h" unfolding watching_def keeps_def by (metis option.inject)
qed

lemma watch_keep: "hooks_watch env \<Longrightarrow> hooks_keep env"
  by (simp add: hooks_watch_def hooks_keep_def watching_keeps)

section \<open>The steps\<close>

lemma set_in_combat_same: "in_combat_flag (units w x) = b \<Longrightarrow> set_in_combat x b w = w"
proof -
  assume "in_combat_flag (units w x) = b"
  then have "(units w x)\<lparr>in_combat_flag := b\<rparr> = units w x" by (cases "units w x") simp
  then show ?thesis by (simp add: set_in_combat_def)
qed

lemma UpdateOwner_watch:
  assumes "hooks_watch env"
  shows "\<exists>n w'. UpdateOwnerCombatState env x w = Some (n, w') \<and>
      alike (set_in_combat x (HasCombat x w) w) w'"
proof (cases "HasCombat x w = in_combat_flag (units w x)")
  case True
  then show ?thesis by (intro exI [of _ False]) (auto simp: UpdateOwnerCombatState_def set_in_combat_same)
next
  case False
  obtain v where v: "(if HasCombat x w then AtEnterCombat env x (set_in_combat x True w)
      else AtExitCombat env x (set_in_combat x False w)) = Some v" "alike (set_in_combat x (HasCombat x w) w) v"
    using watching_run [OF hooks_watchD(1) [OF assms]] watching_run [OF hooks_watchD(2) [OF assms]]
    by (cases "HasCombat x w") fastforce+
  obtain v' where v': "(case CharmerOrOwner (units v x) of None \<Rightarrow> Some v | Some m \<Rightarrow> UpdatePetCombatState env m v) = Some v'"
      "alike v v'"
    using watching_run [OF hooks_watchD(3) [OF assms]]
    by (cases "CharmerOrOwner (units v x)") fastforce+
  have "UpdateOwnerCombatState env x w = Some (True, v')"
    using False v(1) v'(1) unfolding UpdateOwnerCombatState_def Let_def by simp
  then show ?thesis using alike_trans [OF v(2) v'(2)] by blast
qed

lemma Notify_watch:
  assumes "hooks_watch env"
  shows "\<exists>w'. NotifyAICombat env u v w = Some w' \<and> alike w w'"
proof (cases "IsAIEnabled (units w u)")
  case True
  obtain w1 where w1: "JustEnteredCombat env u v w = Some w1" "alike w w1"
    using watching_run [OF hooks_watchD(5) [OF assms]] by blast
  obtain w2 where "(if is_creature (units w1 u) \<and> \<not> CanHaveThreatList (units w1 u)
         then JustEngagedWith env u v w1 else Some w1) = Some w2" "alike w1 w2"
    using watching_run [OF hooks_watchD(6) [OF assms]] alike_refl by (metis (full_types))
  then show ?thesis using True w1 alike_trans by (auto simp: NotifyAICombat_def)
qed (simp add: NotifyAICombat_def)

lemma notify_exit_watch:
  assumes "hooks_watch env"
  shows "\<exists>w'. notify_exit env need u w = Some w' \<and> alike w w'"
  using watching_run [OF hooks_watchD(4) [OF assms]] by (simp add: notify_exit_def)

lemma end_between_watch:
  assumes "hooks_watch env"
  shows "\<exists>w'. end_between env a b pvp w = Some w' \<and> next_ref w' = next_ref w \<and>
     refs w' = refs w \<and> managers w' = managers (PurgeReference b a pvp (PurgeReference a b pvp w)) \<and>
     (\<forall>x. \<exists>f. units w' x = (units w x)\<lparr>in_combat_flag := f\<rparr>)"
proof -
  let ?v = "PurgeReference b a pvp (PurgeReference a b pvp
                (threat_calls [ClearThreat a b, ClearThreat b a] w))"
  obtain n1 w1 where 1: "UpdateOwnerCombatState env a ?v = Some (n1, w1)"
      "alike (set_in_combat a (HasCombat a ?v) ?v) w1"
    using UpdateOwner_watch [OF assms] by blast
  obtain n2 w2 where 2: "UpdateOwnerCombatState env b w1 = Some (n2, w2)"
      "alike (set_in_combat b (HasCombat b w1) w1) w2"
    using UpdateOwner_watch [OF assms] by blast
  obtain w3 where 3: "notify_exit env n1 a w2 = Some w3" "alike w2 w3"
    using notify_exit_watch [OF assms] by blast
  obtain w4 where 4: "notify_exit env n2 b w3 = Some w4" "alike w3 w4"
    using notify_exit_watch [OF assms] by blast
  have run: "end_between env a b pvp w = Some w4"
    using 1(1) 2(1) 3(1) 4(1) by (simp add: end_between_def)
  note parts = alike_parts [OF 4(2)] alike_parts [OF 3(2)] alike_parts [OF 2(2)] alike_parts [OF 1(2)]
  have "managers ?v = managers (PurgeReference b a pvp (PurgeReference a b pvp w))"
    by (simp add: PurgeReference_def with_manager_def)
  moreover have "\<exists>f. units w4 x = (units w x)\<lparr>in_combat_flag := f\<rparr>" for x
  proof -
    have same: "\<exists>f. u = u\<lparr>in_combat_flag := f\<rparr>" for u :: unit_view
      by (intro exI [of _ "in_combat_flag u"]) simp
    show ?thesis using same by (auto simp: parts set_in_combat_def)
  qed
  ultimately show ?thesis using run by (simp add: parts)
qed

text \<open>Ending a combat.\<close>

definition same_units :: "combat_world \<Rightarrow> combat_world \<Rightarrow> bool" where
  "same_units w w' \<longleftrightarrow> (\<forall>x. \<exists>f. units w' x = (units w x)\<lparr>in_combat_flag := f\<rparr>)"

lemma same_units_trans: "same_units u v \<Longrightarrow> same_units v w \<Longrightarrow> same_units u w"
  unfolding same_units_def by (metis unit_view.update_convs(11) unit_view.surjective)

lemma EndCombat_watch:
  assumes "hooks_watch env" and "good {} UNIV w" and "refs w r = Some c"
  shows "\<exists>w'. EndCombat env r w = Some w' \<and> good {} UNIV w' \<and> refs w' = (refs w)(r := None) \<and>
     (\<forall>q a b. filed w' q a b = (if filed w q a b = Some r then None else filed w q a b)) \<and>
     managers w' = managers (PurgeReference (ref_second c) (ref_first c) (isPvP c)
                   (PurgeReference (ref_first c) (ref_second c) (isPvP c) w)) \<and>
     next_ref w' = next_ref w \<and> same_units w w'"
proof -
  obtain v where v: "end_between env (ref_first c) (ref_second c) (isPvP c) w = Some v" "next_ref v = next_ref w"
     "refs v = refs w" "managers v = managers (PurgeReference (ref_second c) (ref_first c) (isPvP c)
                   (PurgeReference (ref_first c) (ref_second c) (isPvP c) w))"
     "\<forall>x. \<exists>f. units v x = (units w x)\<lparr>in_combat_flag := f\<rparr>"
    using end_between_watch [OF assms(1)] by meson
  let ?w = "v\<lparr>refs := (refs v)(r := None)\<rparr>"
  have run: "EndCombat env r w = Some ?w" using assms(3) v(1,3) by (simp add: EndCombat_def delete_ref_def)
  have cons: "consistent {} w" using assms(2) by (simp add: good_def)
  have iff: "filed w q a b = Some r \<longleftrightarrow> q = isPvP c \<and> joins c a b" for q a b
    using consistent_filedD [OF cons, of q a b r] consistent_refD(2) [OF cons assms(3), of a b] assms(3) by auto
  have "filed ?w q a b = (if filed w q a b = Some r then None else filed w q a b)" for q a b
  proof -
    have "filed ?w q a b = filed (PurgeReference (ref_second c) (ref_first c) (isPvP c)
                   (PurgeReference (ref_first c) (ref_second c) (isPvP c) w)) q a b"
      by (simp add: filed_def v(4))
    then show ?thesis
      using consistent_refD(1) [OF cons assms(3)] unfolding iff by (auto simp: joins_def)
  qed
  moreover have "good {} UNIV ?w"
    by (rule EndCombat_good(1) [OF watch_keep [OF assms(1)] assms(2) _ run]) simp
  ultimately show ?thesis using run v by (simp add: same_units_def)
qed

section \<open>Loops that end some of the combats\<close>

text \<open>A turn that ends the combat of an entry on a condition and otherwise rewrites the reference.\<close>

definition choose_turn ::
  "combat_env \<Rightarrow> guid \<Rightarrow> bool \<Rightarrow> (combat_reference \<Rightarrow> bool) \<Rightarrow> (combat_reference \<Rightarrow> combat_reference) \<Rightarrow>
   guid \<Rightarrow> combat_world \<Rightarrow> (guid option \<times> combat_world) option" where
  "choose_turn env x pvp ends upd g w = do {
     r \<leftarrow> smap_find (refs_of pvp (managers w x)) g;
     c \<leftarrow> refs w r;
     (if ends c then erase_and_end env x pvp g r w
      else Some (key_after g (refs_of pvp (managers w x)), set_ref r (upd c) w))
   }"

lemma key_after_middle:
  assumes "map_ok (pre @ (g, r) # suf)"
  shows "key_after g (pre @ (g, r) # suf) = first_key suf"
proof -
  have "g \<notin> fst ` set pre" using map_ok_distinct [OF assms] by auto
  then have "dropWhile (\<lambda>e. fst e \<noteq> g) (pre @ (g, r) # suf) = (g, r) # suf"
    by (induction pre) auto
  then show ?thesis by (simp add: key_after_def first_key_def split: list.split)
qed

lemma erase_middle:
  assumes "map_ok (pre @ (g, r) # suf)"
  shows "smap_erase g (pre @ (g, r) # suf) = pre @ suf"
proof -
  have "g \<notin> fst ` set pre" "g \<notin> fst ` set suf" using map_ok_distinct [OF assms] by auto
  then have "filter (\<lambda>e. fst e \<noteq> g) pre = pre" "filter (\<lambda>e. fst e \<noteq> g) suf = suf"
    by (auto intro!: filter_True)
  then show ?thesis by (simp add: smap_erase_def)
qed

definition gone :: "combat_world \<Rightarrow> (combat_reference \<Rightarrow> bool) \<Rightarrow> nat set \<Rightarrow> nat \<Rightarrow> bool" where
  "gone w ends R r \<longleftrightarrow> r \<in> R \<and> (\<exists>c. refs w r = Some c \<and> ends c)"

definition swept ::
  "combat_world \<Rightarrow> (combat_reference \<Rightarrow> bool) \<Rightarrow> (combat_reference \<Rightarrow> combat_reference) \<Rightarrow> nat set \<Rightarrow> combat_world \<Rightarrow> bool" where
  "swept w ends upd R w' \<longleftrightarrow>
     good {} UNIV w' \<and> same_units w w' \<and>
     (\<forall>q a b. filed w' q a b =
        (case filed w q a b of None \<Rightarrow> None | Some r \<Rightarrow> if gone w ends R r then None else Some r)) \<and>
     (\<forall>r. refs w' r = (if gone w ends R r then None
                       else if r \<in> R then map_option upd (refs w r) else refs w r))"

lemma sweptD:
  assumes "swept w ends upd R w'"
  shows "good {} UNIV w'" and "same_units w w'"
    and "filed w' q a b = (case filed w q a b of None \<Rightarrow> None | Some r \<Rightarrow> if gone w ends R r then None else Some r)"
    and "refs w' r = (if gone w ends R r then None else if r \<in> R then map_option upd (refs w r) else refs w r)"
  using assms by (simp_all add: swept_def)

lemma IsInCombatWith_filed: "IsInCombatWith x y w \<longleftrightarrow> filed w False x y \<noteq> None \<or> filed w True x y \<noteq> None"
  by (simp add: IsInCombatWith_def filed_def refs_of_def)

lemma swept_apart: "swept w ends upd R w' \<Longrightarrow> \<not> IsInCombatWith x y w \<Longrightarrow> \<not> IsInCombatWith x y w'"
  by (simp add: IsInCombatWith_filed sweptD(3))

lemma erase_and_end_watch:
  assumes "hooks_watch env" and "good {} UNIV w" and "refs_of pvp (managers w x) = pre @ (g, r) # suf"
    and "refs w r = Some c"
  shows "\<exists>w'. erase_and_end env x pvp g r w = Some (first_key suf, w') \<and> good {} UNIV w' \<and>
     refs w' = (refs w)(r := None) \<and> same_units w w' \<and> refs_of pvp (managers w' x) = pre @ suf \<and>
     (\<forall>q a b. filed w' q a b = (if filed w q a b = Some r then None else filed w q a b))"
proof -
  have cons: "consistent {} w" using assms(2) by (simp add: good_def)
  have ok: "map_ok (pre @ (g, r) # suf)" using consistent_okD [OF cons, of pvp x] assms(3) by simp
  have "filed w pvp x g = Some r" using in_set_find [OF ok, of g r] assms(3) by (simp add: filed_def)
  note c = consistent_joinsD [OF cons this assms(4)]
  let ?v = "PurgeReference x g pvp w"
  obtain w' where w': "EndCombat env r w = Some w'" "good {} UNIV w'" "refs w' = (refs w)(r := None)"
     "\<forall>q a b. filed w' q a b = (if filed w q a b = Some r then None else filed w q a b)"
     "managers w' = managers (PurgeReference (ref_second c) (ref_first c) (isPvP c)
                   (PurgeReference (ref_first c) (ref_second c) (isPvP c) w))" "same_units w w'"
    using EndCombat_watch [OF assms(1,2,4)] by meson
  have left: "refs_of pvp (managers ?v x) = pre @ suf"
    using erase_middle [OF ok] assms(3) by (simp add: PurgeReference_def)
  have "refs_of pvp (managers w' x) = pre @ suf"
    using c erase_middle [OF ok] assms(3) unfolding w'(5) by (auto simp: PurgeReference_def joins_def)
  moreover have "iterator_valid (first_key suf) (pre @ suf) (pre @ suf)"
    by (cases suf) (force simp: iterator_valid_def list_all_iff first_key_def smap_find_def map_of_eq_None_iff)+
  moreover have "EndCombat env r ?v = Some w'"
    using EndCombat_erased [OF assms(4) c(2), of env] c(1) w'(1) by simp
  ultimately have "erase_and_end env x pvp g r w = Some (first_key suf, w')"
    using left key_after_middle [OF ok] assms(3) by (simp add: erase_and_end_def Let_def)
  then show ?thesis using w' \<open>refs_of pvp (managers w' x) = pre @ suf\<close> by blast
qed

lemma set_ref_same: "refs w r = Some c \<Longrightarrow> set_ref r c w = w"
proof -
  assume "refs w r = Some c"
  then have "(refs w)(r \<mapsto> c) = refs w" by auto
  then show ?thesis by (simp add: set_ref_def)
qed

definition mild :: "(combat_reference \<Rightarrow> combat_reference) \<Rightarrow> bool" where
  "mild upd \<longleftrightarrow> (\<forall>c. ref_first (upd c) = ref_first c \<and> ref_second (upd c) = ref_second c \<and>
     isPvP (upd c) = isPvP c \<and> (\<forall>a. IsSuppressedFor a (upd c) = IsSuppressedFor a c))"

lemma same_units_refl [simp]: "same_units w w"
  unfolding same_units_def by (metis unit_view.surjective unit_view.update_convs(11))

lemma choose_loop:
  assumes "hooks_watch env" and "mild upd"
  shows "good {} UNIV w \<Longrightarrow> refs_of pvp (managers w x) = pre @ suf \<Longrightarrow>
    \<exists>w'. iterate (choose_turn env x pvp ends upd) (first_key suf) w = Some w' \<and>
      swept w ends upd (snd ` set suf) w'"
proof (induction suf arbitrary: pre w)
  case Nil
  then show ?case
    by (auto simp: iterate.simps first_key_def swept_def gone_def split: option.split)
next
  case (Cons e suf)
  obtain g r where e: "e = (g, r)" by (cases e)
  have m: "refs_of pvp (managers w x) = pre @ (g, r) # suf" using Cons.prems(2) e by simp
  have cons: "consistent {} w" using Cons.prems(1) by (simp add: good_def)
  have ok: "map_ok (pre @ (g, r) # suf)" using consistent_okD [OF cons, of pvp x] m by simp
  have find: "smap_find (refs_of pvp (managers w x)) g' = Some s" if "(g', s) \<in> set (pre @ (g, r) # suf)" for g' s
    using in_set_find [OF ok] that m by simp
  then have fr: "filed w pvp x g = Some r" by (simp add: filed_def)
  obtain c where c: "refs w r = Some c" using consistent_filedD(2) [OF cons fr] by blast
  have fresh: "r \<notin> snd ` set suf"
  proof
    assume "r \<in> snd ` set suf"
    then obtain g' where g': "(g', r) \<in> set suf" by auto
    then have "filed w pvp x g' = Some r" using find by (simp add: filed_def)
    from consistent_joinsD(2) [OF cons this c] consistent_joinsD(2) [OF cons fr c] have "g' = g"
      by (auto simp: joins_def)
    then show False using g' map_ok_distinct [OF ok] by (force simp: image_iff)
  qed
  have turn: "choose_turn env x pvp ends upd g w = (if ends c then erase_and_end env x pvp g r w
      else Some (first_key suf, set_ref r (upd c) w))"
    using find [of g r] c key_after_middle [OF ok] m by (simp add: choose_turn_def)
  have step: "iterate (choose_turn env x pvp ends upd) (first_key (e # suf)) w =
      Option.bind (choose_turn env x pvp ends upd g w) (\<lambda>(nxt, v). iterate (choose_turn env x pvp ends upd) nxt v)"
    by (simp add: iterate.simps [of _ "Some g"] first_key_def e)
  show ?case
  proof (cases "ends c")
    case True
    obtain v where v: "erase_and_end env x pvp g r w = Some (first_key suf, v)" "good {} UNIV v"
        "refs v = (refs w)(r := None)" "same_units w v" "refs_of pvp (managers v x) = pre @ suf"
        "\<forall>q a b. filed v q a b = (if filed w q a b = Some r then None else filed w q a b)"
      using erase_and_end_watch [OF assms(1) Cons.prems(1) m c] by blast
    obtain w' where w': "iterate (choose_turn env x pvp ends upd) (first_key suf) v = Some w'"
        "swept v ends upd (snd ` set suf) w'"
      using Cons.IH [OF v(2,5)] by blast
    have "swept w ends upd (snd ` set (e # suf)) w'"
      using w'(2) v(3,6) same_units_trans [OF v(4)] True c fresh
      by (auto simp: swept_def gone_def e split: option.split if_splits)
    then show ?thesis using step turn True v(1) w'(1) by auto
  next
    case False
    let ?v = "set_ref r (upd c) w"
    have "good {} UNIV ?v"
      using good_set_ref [OF Cons.prems(1) c, of "upd c"] assms(2) by (simp add: mild_def)
    then obtain w' where w': "iterate (choose_turn env x pvp ends upd) (first_key suf) ?v = Some w'"
        "swept ?v ends upd (snd ` set suf) w'"
      using Cons.IH [of ?v "pre @ [(g, r)]"] m by auto
    have "same_units w ?v" by (simp add: same_units_def) (metis same_units_def same_units_refl)
    then have "swept w ends upd (snd ` set (e # suf)) w'"
      using w'(2) same_units_trans [of w ?v w'] False c fresh
      by (auto simp: swept_def gone_def e split: option.split if_splits)
    then show ?thesis using step turn False w'(1) by auto
  qed
qed

section \<open>Time-outs\<close>

definition timed_out :: "guid \<Rightarrow> u32 \<Rightarrow> combat_reference \<Rightarrow> bool" where
  "timed_out x tdiff c \<longleftrightarrow> ref_first c = x \<and> combatTimer c \<le> tdiff"

definition tick :: "guid \<Rightarrow> u32 \<Rightarrow> combat_reference \<Rightarrow> combat_reference" where
  "tick x tdiff c = (if ref_first c = x then c\<lparr>combatTimer := combatTimer c - tdiff\<rparr> else c)"

lemma update_choose: "update_turn env x tdiff = choose_turn env x True (timed_out x tdiff) (tick x tdiff)"
  unfolding fun_eq_iff update_turn_def choose_turn_def refs_of_def timed_out_def tick_def pvp_Update_def
  by (auto simp: set_ref_same split: option.split intro!: bind_option_cong)

lemma tick_mild: "mild (tick x tdiff)"
  by (simp add: mild_def tick_def IsSuppressedFor_def)

lemma range_choose:
  "range_turn env (\<lambda>a b _. d a b) x pvp = choose_turn env x pvp (\<lambda>c. \<not> d (ref_first c) (ref_second c)) id"
  unfolding fun_eq_iff range_turn_def choose_turn_def
  by (auto simp: set_ref_same split: option.split intro!: bind_option_cong)

text \<open>The references in a map of a manager.\<close>

lemma refs_in_map:
  assumes "consistent {} w" and "refs w r = Some c"
  shows "r \<in> snd ` set (refs_of pvp (managers w x)) \<longleftrightarrow> isPvP c = pvp \<and> (ref_first c = x \<or> ref_second c = x)"
proof
  assume "r \<in> snd ` set (refs_of pvp (managers w x))"
  then obtain g where "(g, r) \<in> set (refs_of pvp (managers w x))" by auto
  then have "filed w pvp x g = Some r"
    using in_set_find [OF consistent_okD [OF assms(1)]] by (simp add: filed_def)
  from consistent_joinsD [OF assms(1) this assms(2)]
  show "isPvP c = pvp \<and> (ref_first c = x \<or> ref_second c = x)" by (auto simp: joins_def)
next
  assume a: "isPvP c = pvp \<and> (ref_first c = x \<or> ref_second c = x)"
  define g where "g = GetOther x c"
  have "joins c x g" using a consistent_refD(1) [OF assms] by (auto simp: joins_def g_def GetOther_def)
  then have "filed w pvp x g = Some r" using consistent_refD(2) [OF assms] a by auto
  then have "(g, r) \<in> set (refs_of pvp (managers w x))"
    using in_set_find [OF consistent_okD [OF assms(1)]] by (simp add: filed_def)
  then show "r \<in> snd ` set (refs_of pvp (managers w x))" by force
qed

lemma Update_swept:
  assumes "hooks_watch env" and "good {} UNIV w"
  shows "\<exists>w'. cm_Update env x tdiff w = Some w' \<and>
     swept w (timed_out x tdiff) (tick x tdiff) (snd ` set (refs_of True (managers w x))) w'"
  using choose_loop [OF assms(1) tick_mild assms(2), of True x "[]" "pvpRefs (managers w x)" "timed_out x tdiff" x tdiff]
  by (simp add: cm_Update_def update_choose refs_of_def)

lemma Update_entry:
  assumes "hooks_watch env" and "good {} UNIV w" and "filed w True x y = Some r" and "refs w r = Some c"
    and "ref_first c = x"
  shows "\<exists>w'. cm_Update env x tdiff w = Some w' \<and> good {} UNIV w' \<and>
     (if combatTimer c \<le> tdiff then \<not> IsInCombatWith x y w'
      else filed w' True x y = Some r \<and> refs w' r = Some (c\<lparr>combatTimer := combatTimer c - tdiff\<rparr>))"
proof -
  obtain w' where w': "cm_Update env x tdiff w = Some w'"
     "swept w (timed_out x tdiff) (tick x tdiff) (snd ` set (refs_of True (managers w x))) w'"
    using Update_swept [OF assms(1,2)] by blast
  have cons: "consistent {} w" using assms(2) by (simp add: good_def)
  have "r \<in> snd ` set (refs_of True (managers w x))"
    using refs_in_map [OF cons assms(4)] consistent_joinsD [OF cons assms(3,4)] by (auto simp: joins_def)
  moreover have "filed w False x y = None" using consistent_freshD(3) [OF cons, of x y] assms(3) by simp
  ultimately have "if combatTimer c \<le> tdiff then \<not> IsInCombatWith x y w'
      else filed w' True x y = Some r \<and> refs w' r = Some (c\<lparr>combatTimer := combatTimer c - tdiff\<rparr>)"
    using assms(3-5)
    by (simp add: sweptD(3,4) [OF w'(2)] gone_def timed_out_def tick_def IsInCombatWith_filed)
  then show ?thesis using w'(1) sweptD(1) [OF w'(2)] by blast
qed

text \<open>C35: \<^bold>\<open>PvP combat times out exactly when its timer has run down.\<close> With hooks that only watch
  (a hook that refreshes or ends the reference between updates is outside), a PvP reference that is
  not refreshed is ended by the updates of its first unit as soon as their times add up to the timer
  of the reference (5250 ms when new or refreshed), and not before; the updates return.\<close>

theorem pvp_combat_times_out:
  assumes "hooks_watch env" and "good {} UNIV w" and "filed w True x y = Some r"
    and "refs w r = Some c" and "ref_first c = x" and "combatTimer c \<noteq> 0"
  shows "\<exists>w'. run (combat_exec env) (Some w) (map (CallUpdate x) ticks) = Some w' \<and>
     IsInCombatWith x y w' = (sum_list (map unat ticks) < unat (combatTimer c))"
  using assms(2-6)
proof (induction ticks arbitrary: w c)
  case Nil
  then show ?case by (simp add: IsInCombatWith_filed unat_gt_0)
next
  case (Cons t ticks)
  obtain v where v: "cm_Update env x t w = Some v" "good {} UNIV v"
     "if combatTimer c \<le> t then \<not> IsInCombatWith x y v
      else filed v True x y = Some r \<and> refs v r = Some (c\<lparr>combatTimer := combatTimer c - t\<rparr>)"
    using Update_entry [OF assms(1) Cons.prems(1-4)] by blast
  show ?case
  proof (cases "combatTimer c \<le> t")
    case True
    have stays: "\<exists>w'. run (combat_exec env) (Some u) (map (CallUpdate x) ts) = Some w' \<and> \<not> IsInCombatWith x y w'"
      if "good {} UNIV u" "\<not> IsInCombatWith x y u" for u ts
      using that
    proof (induction ts arbitrary: u)
      case (Cons t' ts)
      obtain u' where u': "cm_Update env x t' u = Some u'"
          "swept u (timed_out x t') (tick x t') (snd ` set (refs_of True (managers u x))) u'"
        using Update_swept [OF assms(1) Cons.prems(1)] by blast
      then show ?case using Cons.IH [OF sweptD(1) [OF u'(2)] swept_apart [OF u'(2) Cons.prems(2)]]
        by simp
    qed simp
    have "\<not> sum_list (map unat (t # ticks)) < unat (combatTimer c)"
      using True by (simp add: word_le_nat_alt)
    then show ?thesis using stays [OF v(2)] v(1,3) True by simp
  next
    case False
    let ?c = "c\<lparr>combatTimer := combatTimer c - t\<rparr>"
    have "unat (combatTimer c - t) = unat (combatTimer c) - unat t"
      using False by (simp add: unat_sub)
    then show ?thesis
      using Cons.IH [OF v(2), of ?c] v(1,3) False Cons.prems(4)
      by (auto simp: word_le_nat_alt less_diff_conv algebra_simps)
  qed
qed

lemma still_watches: "hooks_watch still_env"
proof -
  have "watching Some" unfolding watching_def by (metis combat_world.surjective combat_world.update_convs(5))
  then show ?thesis by (simp add: hooks_watch_def still_env_def)
qed

lemma demo_fight_good:
  assumes "demo_fight = Some w"
  shows "good {} UNIV w"
proof -
  have "combat_inv still_env (Some (fresh_combat (\<lambda>_. demo_unit)))"
    using fresh_good still_keeps by (simp add: combat_inv_def)
  from combat.run_keeps [OF this, of "[CallSetInCombatWith 1 2]"] assms
  show ?thesis by (simp add: combat_inv_def demo_fight_def)
qed

theorem pvp_combat_times_out_witness:
  "\<exists>w w1 w2. demo_fight = Some w \<and>
     run (combat_exec still_env) (Some w) (map (CallUpdate 1) [3000, 2249]) = Some w1 \<and> IsInCombatWith 1 2 w1 \<and>
     run (combat_exec still_env) (Some w) (map (CallUpdate 1) [3000, 2250]) = Some w2 \<and> \<not> IsInCombatWith 1 2 w2"
proof -
  obtain w where w: "demo_fight = Some w" "filed w True 1 2 = Some 0" "refs w 0 = Some (new_PvPCombatReference 1 2)"
    using demo_fight_runs by blast
  have c: "ref_first (new_PvPCombatReference 1 2) = 1" "combatTimer (new_PvPCombatReference 1 2) = 5250"
    by (simp_all add: new_PvPCombatReference_def PVP_COMBAT_TIMEOUT_def)
  note out = pvp_combat_times_out [OF still_watches demo_fight_good [OF w(1)] w(2,3) c(1)]
  have sums: "sum_list (map unat [3000, 2249::u32]) = 5249" "sum_list (map unat [3000, 2250::u32]) = 5250"
    "unat (5250::u32) = 5250" by simp_all
  have "combatTimer (new_PvPCombatReference 1 2) \<noteq> 0" by (simp add: c(2))
  then show ?thesis using out [of "[3000, 2249]"] out [of "[3000, 2250]"] w(1) unfolding c(2) sums by fastforce
qed

section \<open>Ending all combat\<close>

lemma end_all_watch:
  assumes "hooks_watch env"
  shows "good {} UNIV w \<Longrightarrow> \<exists>w'. end_all_loop env x pvp w = Some w' \<and> good {} UNIV w' \<and> same_units w w' \<and>
     (\<forall>q a b. filed w' q a b = (if q = pvp \<and> (a = x \<or> b = x) then None else filed w q a b)) \<and>
     (\<forall>r. refs w' r = (case refs w r of None \<Rightarrow> None
        | Some c \<Rightarrow> if isPvP c = pvp \<and> (ref_first c = x \<or> ref_second c = x) then None else Some c))"
proof (induction "length (refs_of pvp (managers w x))" arbitrary: w rule: less_induct)
  case less
  have cons: "consistent {} w" using less.prems by (simp add: good_def)
  show ?case
  proof (cases "refs_of pvp (managers w x)")
    case Nil
    then have "filed w pvp x b = None" for b by (simp add: filed_def)
    moreover from this have "filed w pvp b x = None" for b
      using filed_sym [OF cons, of pvp b x] by simp
    moreover have "\<not> (isPvP c = pvp \<and> (ref_first c = x \<or> ref_second c = x))" if "refs w r = Some c" for r c
      using refs_in_map [OF cons that, of pvp x] Nil by simp
    ultimately show ?thesis using Nil less.prems
      by (auto simp: end_all_loop.simps split: option.split)
  next
    case (Cons e m)
    obtain g r where e: "e = (g, r)" by (cases e)
    have m: "refs_of pvp (managers w x) = (g, r) # m" using Cons e by simp
    have fr: "filed w pvp x g = Some r" by (simp add: filed_def m smap_find_def)
    then obtain c where c: "refs w r = Some c" using consistent_filedD(2) [OF cons] by blast
    have jc: "isPvP c = pvp" "joins c x g" using consistent_joinsD [OF cons fr c] .
    obtain v where v: "EndCombat env r w = Some v" "good {} UNIV v" "refs v = (refs w)(r := None)"
       "\<forall>q a b. filed v q a b = (if filed w q a b = Some r then None else filed w q a b)"
       "managers v = managers (PurgeReference (ref_second c) (ref_first c) (isPvP c)
                   (PurgeReference (ref_first c) (ref_second c) (isPvP c) w))" "same_units w v"
      using EndCombat_watch [OF assms less.prems c] by meson
    have "refs_of pvp (managers v x) = smap_erase g ((g, r) # m)"
      using jc m unfolding v(5) by (auto simp: PurgeReference_def joins_def)
    then have "length (refs_of pvp (managers v x)) < length (refs_of pvp (managers w x))"
      using m by (simp add: smap_erase_def le_imp_less_Suc)
    from less.hyps [OF this v(2)] obtain w' where w': "end_all_loop env x pvp v = Some w'" "good {} UNIV w'" "same_units v w'"
     "\<forall>q a b. filed w' q a b = (if q = pvp \<and> (a = x \<or> b = x) then None else filed v q a b)"
     "\<forall>r. refs w' r = (case refs v r of None \<Rightarrow> None
        | Some c \<Rightarrow> if isPvP c = pvp \<and> (ref_first c = x \<or> ref_second c = x) then None else Some c)"
      by blast
    have "end_all_loop env x pvp w = Some w'" using m v(1) w'(1) by (simp add: end_all_loop.simps)
    moreover have "filed w' q a b = (if q = pvp \<and> (a = x \<or> b = x) then None else filed w q a b)" for q a b
    proof (cases "filed w q a b = Some r")
      case True
      then show ?thesis using w'(4) v(4) consistent_joinsD [OF cons True c] jc by (auto simp: joins_def)
    qed (use w'(4) v(4) in \<open>cases "q = pvp"; simp\<close>)
    moreover have "refs w' s = (case refs w s of None \<Rightarrow> None
        | Some c \<Rightarrow> if isPvP c = pvp \<and> (ref_first c = x \<or> ref_second c = x) then None else Some c)" for s
    proof (cases "s = r")
      case True
      then show ?thesis using w'(5) v(3) c jc by (auto simp: joins_def)
    qed (use w'(5) v(3) in simp)
    ultimately show ?thesis using w'(2) same_units_trans [OF v(6) w'(3)] by blast
  qed
qed

text \<open>C36: \<^bold>\<open>Ending all combat ends exactly the combats of the unit.\<close> With hooks that only watch,
  \<open>EndAllCombat\<close> returns; the unit has no reference left and is not in combat, nobody else
  has one to it, every other reference is as before, and the units differ at most in their
  in-combat flags, which are right.\<close>

theorem end_all_combat_exact:
  assumes "hooks_watch env" and "good {} UNIV w"
  shows "\<exists>w'. EndAllCombat env x w = Some w' \<and>
     pveRefs (managers w' x) = [] \<and> pvpRefs (managers w' x) = [] \<and> \<not> in_combat_flag (units w' x) \<and>
     (\<forall>q a b. filed w' q a b = (if a = x \<or> b = x then None else filed w q a b)) \<and>
     (\<forall>r. refs w' r = (case refs w r of None \<Rightarrow> None
        | Some c \<Rightarrow> if ref_first c = x \<or> ref_second c = x then None else Some c)) \<and>
     (\<forall>a. \<exists>f. units w' a = (units w a)\<lparr>in_combat_flag := f\<rparr>) \<and>
     (\<forall>a. in_combat_flag (units w' a) = HasCombat a w')"
proof -
  let ?w = "threat_calls [RemoveMeFromThreatLists x, ClearAllThreat x] w"
  have "good {} UNIV ?w" using assms(2) by simp
  then obtain v where v: "end_all_loop env x False ?w = Some v" "good {} UNIV v" "same_units ?w v"
     "\<forall>q a b. filed v q a b = (if q = False \<and> (a = x \<or> b = x) then None else filed ?w q a b)"
     "\<forall>r. refs v r = (case refs ?w r of None \<Rightarrow> None
        | Some c \<Rightarrow> if isPvP c = False \<and> (ref_first c = x \<or> ref_second c = x) then None else Some c)"
    using end_all_watch [OF assms(1)] by blast
  obtain w' where w': "end_all_loop env x True v = Some w'" "good {} UNIV w'" "same_units v w'"
     "\<forall>q a b. filed w' q a b = (if q = True \<and> (a = x \<or> b = x) then None else filed v q a b)"
     "\<forall>r. refs w' r = (case refs v r of None \<Rightarrow> None
        | Some c \<Rightarrow> if isPvP c = True \<and> (ref_first c = x \<or> ref_second c = x) then None else Some c)"
    using end_all_watch [OF assms(1) v(2)] by blast
  have filed': "filed w' q a b = (if a = x \<or> b = x then None else filed w q a b)" for q a b
    using w'(4) v(4) by (cases q) auto
  have refs': "refs w' r = (case refs w r of None \<Rightarrow> None
        | Some c \<Rightarrow> if ref_first c = x \<or> ref_second c = x then None else Some c)" for r
    using w'(5) v(5) by (auto split: option.split)
  have empty: "refs_of q (managers w' x) = []" for q
    using filed' [of q x] by (simp add: filed_def keys_empty_iff [symmetric] keys_find set_eq_iff)
  have flags: "in_combat_flag (units w' a) = HasCombat a w'" for a
    using w'(2) by (simp add: good_def flag_ok_def)
  have "\<not> in_combat_flag (units w' x)"
    using empty [of True] empty [of False] by (simp add: flags HasCombat_def HasPvECombat_def HasPvPCombat_def refs_of_def)
  moreover have "\<exists>f. units w' a = (units w a)\<lparr>in_combat_flag := f\<rparr>" for a
    using same_units_trans [OF v(3) w'(3)] by (simp add: same_units_def)
  ultimately show ?thesis
    using v(1) w'(1) filed' refs' flags empty [of True] empty [of False]
    by (simp add: EndAllCombat_def EndAllPvECombat_def EndAllPvPCombat_def refs_of_def)
qed

theorem end_all_combat_exact_witness:
  "\<exists>w w'. demo_fight = Some w \<and> in_combat_flag (units w 1) \<and> EndAllCombat still_env 2 w = Some w' \<and>
     \<not> in_combat_flag (units w' 2) \<and> filed w' True 1 2 = None"
proof -
  obtain w where w: "demo_fight = Some w" "filed w True 1 2 = Some 0" "refs w 0 = Some (new_PvPCombatReference 1 2)"
    using demo_fight_runs by blast
  have g: "good {} UNIV w" by (rule demo_fight_good [OF w(1)])
  have "\<not> IsSuppressedFor 1 (new_PvPCombatReference 1 2)"
    by (simp add: new_PvPCombatReference_def IsSuppressedFor_def)
  then have "HasCombat 1 w"
    using HasCombat_filed [OF consistent_okD, of "{}" w 1] g w(2,3) unfolding good_def by blast
  then have "in_combat_flag (units w 1)" using g by (simp add: good_def flag_ok_def)
  then show ?thesis using end_all_combat_exact [OF still_watches g, of 2] w(1) by auto
qed

section \<open>Entering combat\<close>

lemma UpdateOwner_parts:
  assumes "hooks_watch env"
  shows "\<exists>n w'. UpdateOwnerCombatState env x w = Some (n, w') \<and> managers w' = managers w \<and> refs w' = refs w"
proof -
  obtain n w' where "UpdateOwnerCombatState env x w = Some (n, w')" "alike (set_in_combat x (HasCombat x w) w) w'"
    using UpdateOwner_watch [OF assms] by blast
  then show ?thesis by (auto simp: alike_parts)
qed

lemma unsuppress_watch:
  assumes "hooks_watch env" and "refs w r = Some c"
  shows "\<exists>n w'. unsuppress env was clear who r w = Some (n, w') \<and> managers w' = managers w \<and>
     refs w' = (if was c then (refs w)(r \<mapsto> clear c) else refs w)"
  using UpdateOwner_parts [OF assms(1), of "who c" "set_ref r (clear c) w"] assms(2)
  by (auto simp: unsuppress_def)

lemma notify_if_watch:
  assumes "hooks_watch env" and "refs w r = Some c"
  shows "\<exists>w'. notify_if env need me other r w = Some w' \<and> alike w w'"
  using Notify_watch [OF assms(1)] assms(2) by (simp add: notify_if_def)

lemma Refresh_watch:
  assumes "hooks_watch env" and "refs w r = Some c"
  shows "\<exists>w'. Refresh env r w = Some w' \<and> managers w' = managers w \<and>
     refs w' = (refs w)(r \<mapsto> c\<lparr>combatTimer := PVP_COMBAT_TIMEOUT, suppressFirst := False, suppressSecond := False\<rparr>)"
proof -
  define c0 where "c0 = c\<lparr>combatTimer := PVP_COMBAT_TIMEOUT\<rparr>"
  define c1 where "c1 = c0\<lparr>suppressFirst := False\<rparr>"
  define c2 where "c2 = c1\<lparr>suppressSecond := False\<rparr>"
  obtain n1 w1 where 1: "unsuppress env suppressFirst (suppressFirst_update (\<lambda>_. False)) ref_first r (set_ref r c0 w) = Some (n1, w1)"
     "managers w1 = managers w" "refs w1 = (if suppressFirst c0 then (refs w)(r \<mapsto> c1) else (refs w)(r \<mapsto> c0))"
    using unsuppress_watch [OF assms(1), of "set_ref r c0 w" r c0 suppressFirst "suppressFirst_update (\<lambda>_. False)" ref_first]
    by (auto simp: c1_def)
  have r1: "refs w1 = (refs w)(r \<mapsto> c1)" unfolding 1(3) by (cases c0) (auto simp: c1_def)
  obtain n2 w2 where 2: "unsuppress env suppressSecond (suppressSecond_update (\<lambda>_. False)) ref_second r w1 = Some (n2, w2)"
     "managers w2 = managers w" "refs w2 = (if suppressSecond c1 then (refs w)(r \<mapsto> c2) else (refs w)(r \<mapsto> c1))"
    using unsuppress_watch [OF assms(1), of w1 r c1 suppressSecond "suppressSecond_update (\<lambda>_. False)" ref_second] 1(2) r1
    by (auto simp: c2_def)
  have r2: "refs w2 = (refs w)(r \<mapsto> c2)" unfolding 2(3) by (cases c1) (auto simp: c2_def)
  obtain w3 where 3: "notify_if env n1 ref_first ref_second r w2 = Some w3" "alike w2 w3"
    using notify_if_watch [OF assms(1), of w2 r c2 n1 ref_first ref_second] r2 by auto
  obtain w4 where 4: "notify_if env n2 ref_second ref_first r w3 = Some w4" "alike w3 w4"
    using notify_if_watch [OF assms(1), of w3 r c2 n2 ref_second ref_first] r2 by (auto simp: alike_parts [OF 3(2)])
  have "Refresh env r w = Some w4"
    using assms(2) 1(1) 2(1) 3(1) 4(1) by (simp add: Refresh_def c0_def)
  then show ?thesis using 2(2) r2
    by (simp add: alike_parts [OF 4(2)] alike_parts [OF 3(2)] c0_def c1_def c2_def)
qed

lemma begin_watch:
  assumes "good {} UNIV w" and "\<not> IsInCombatWith x y w" and "x \<noteq> y"
  shows "\<exists>w'. begin_ref x y w = Some w'"
proof -
  have "filed w q x y = None" "filed w q y x = None" for q
    using assms(2) filed_sym [of "{}" w q x y] assms(1) by (cases q; auto simp: IsInCombatWith_filed good_def)+
  then show ?thesis using assms(3) by (auto simp: begin_ref_def Let_def PutReference_def filed_def)
qed

lemma begin_filed:
  assumes "begin_ref x y w = Some w1" and "x \<noteq> y"
  shows "\<exists>c. filed w1 (isPvP c) x y = Some (next_ref w) \<and> refs w1 (next_ref w) = Some c \<and>
     (\<forall>a. \<not> IsSuppressedFor a c)"
proof -
  define c where "c = (if IsControlledByPlayer (units w x) \<and> IsControlledByPlayer (units w y)
               then new_PvPCombatReference x y else new_CombatReference x y)"
  have "w1 = with_manager y (with_refs (isPvP c) (smap_put x (next_ref w)))
     (with_manager x (with_refs (isPvP c) (smap_put y (next_ref w)))
      ((set_ref (next_ref w) c w)\<lparr>next_ref := Suc (next_ref w)\<rparr>))"
    using assms(1) by (auto simp: begin_ref_def Let_def PutReference_def c_def [symmetric] split: if_splits)
  then have "filed w1 (isPvP c) x y = Some (next_ref w) \<and> refs w1 (next_ref w) = Some c"
    using assms(2) by (simp add: filed_def)
  moreover have "\<forall>a. \<not> IsSuppressedFor a c"
    by (simp add: c_def IsSuppressedFor_def new_PvPCombatReference_def new_CombatReference_def)
  ultimately show ?thesis by blast
qed

lemma HasCombat_with:
  assumes "consistent {} w" and "filed w q x y = Some r" and "refs w r = Some c" and "\<not> IsSuppressedFor x c"
  shows "HasCombat x w"
  using assms(2-4) unfolding HasCombat_filed [OF consistent_okD [OF assms(1)]]
  by (cases q) (simp_all, blast+)

lemma filed_flags:
  assumes "good {} UNIV v" and "filed v q x y = Some r" and "refs v r = Some c" and "\<And>a. \<not> IsSuppressedFor a c"
  shows "in_combat_flag (units v x) \<and> in_combat_flag (units v y) \<and> IsInCombatWith x y v \<and> IsInCombatWith y x v"
proof -
  have cv: "consistent {} v" using assms(1) by (simp add: good_def)
  have "filed v q y x = Some r" using filed_sym [OF cv, of q x y] assms(2) by simp
  then show ?thesis
    using HasCombat_with [OF cv _ assms(3,4)] assms(1,2)
    by (cases q) (auto simp: good_def flag_ok_def IsInCombatWith_filed)
qed

text \<open>The two paths of \<open>SetInCombatWith\<close> that change something: refreshing and beginning.\<close>

lemma refresh_answers:
  assumes "hooks_watch env" and "good {} UNIV w" and pvp: "filed w True x y = Some r"
  shows "\<exists>w'. SetInCombatWith env x y w = Some (True, w') \<and> IsInCombatWith x y w \<and>
     in_combat_flag (units w' x) \<and> in_combat_flag (units w' y) \<and> IsInCombatWith x y w' \<and> IsInCombatWith y x w'"
proof -
  have cons: "consistent {} w" using assms(2) by (simp add: good_def)
  obtain c where c: "refs w r = Some c" using consistent_filedD(2) [OF cons] pvp by blast
  obtain w' where w': "Refresh env r w = Some w'" "managers w' = managers w"
    "refs w' = (refs w)(r \<mapsto> c\<lparr>combatTimer := PVP_COMBAT_TIMEOUT, suppressFirst := False, suppressSecond := False\<rparr>)"
    using Refresh_watch [OF assms(1) c] by blast
  have "good {} UNIV w'" by (rule Refresh_good [OF watch_keep [OF assms(1)] assms(2) w'(1)])
  moreover have "filed w' True x y = Some r" using pvp w'(2) by (simp add: filed_def)
  ultimately have "in_combat_flag (units w' x) \<and> in_combat_flag (units w' y) \<and> IsInCombatWith x y w' \<and> IsInCombatWith y x w'"
    by (rule filed_flags) (auto simp: w'(3) IsSuppressedFor_def)
  moreover have "SetInCombatWith env x y w = Some (True, w')" "IsInCombatWith x y w"
    using pvp w'(1) by (simp_all add: SetInCombatWith_def filed_def refs_of_def IsInCombatWith_def)
  ultimately show ?thesis by blast
qed

lemma begin_answers:
  assumes "hooks_watch env" and "good {} UNIV w" and new: "\<not> IsInCombatWith x y w" "CanBeginCombat env x y w"
  shows "\<exists>w'. SetInCombatWith env x y w = Some (True, w') \<and>
     in_combat_flag (units w' x) \<and> in_combat_flag (units w' y) \<and> IsInCombatWith x y w' \<and> IsInCombatWith y x w'"
proof -
  have ne: "x \<noteq> y" using new(2) by (auto simp: CanBeginCombat_def Let_def)
  obtain w1 where w1: "begin_ref x y w = Some w1" using begin_watch [OF assms(2) new(1) ne] by blast
  obtain n2 w2 where w2: "UpdateOwnerCombatState env x w1 = Some (n2, w2)" "managers w2 = managers w1" "refs w2 = refs w1"
    using UpdateOwner_parts [OF assms(1)] by blast
  obtain n3 w3 where w3: "UpdateOwnerCombatState env y w2 = Some (n3, w3)" "managers w3 = managers w2" "refs w3 = refs w2"
    using UpdateOwner_parts [OF assms(1)] by blast
  obtain w4 where w4: "(if n2 then NotifyAICombat env x y w3 else Some w3) = Some w4" "alike w3 w4"
    using Notify_watch [OF assms(1)] alike_refl by (metis (full_types))
  obtain w5 where w5: "(if n3 then NotifyAICombat env y x w4 else Some w4) = Some w5" "alike w4 w5"
    using Notify_watch [OF assms(1)] alike_refl by (metis (full_types))
  have run: "SetInCombatWith env x y w = Some (IsInCombatWith x y w5, w5)"
    using new w1 w2(1) w3(1) w4(1) w5(1) by (simp add: SetInCombatWith_def IsInCombatWith_def)
  have good: "good {} UNIV w5" by (rule SetInCombatWith_good [OF watch_keep [OF assms(1)] assms(2) run])
  have same: "managers w5 = managers w1" "refs w5 = refs w1"
    using w2(2,3) w3(2,3) by (simp_all add: alike_parts [OF w5(2)] alike_parts [OF w4(2)])
  obtain q c where qc: "filed w1 q x y = Some (next_ref w)" "refs w1 (next_ref w) = Some c" "\<And>a. \<not> IsSuppressedFor a c"
    using begin_filed [OF w1 ne] by blast
  have "filed w5 q x y = Some (next_ref w)" "refs w5 (next_ref w) = Some c" using qc same by (simp_all add: filed_def)
  from filed_flags [OF good this qc(3)] show ?thesis using run new by auto
qed

text \<open>C34: \<^bold>\<open>The answer of \<open>SetInCombatWith\<close> is the new combat state.\<close> With hooks that only watch,
  it returns; the answer is true exactly when the units were in combat with each other or may
  begin combat, it is what \<open>IsInCombatWith\<close> answers afterwards on either side, and if it is
  true both units are flagged in combat, also where a suppressed reference is refreshed.\<close>

theorem set_in_combat_answers:
  assumes "hooks_watch env" and "good {} UNIV w"
  shows "\<exists>b w'. SetInCombatWith env x y w = Some (b, w') \<and>
     b = (IsInCombatWith x y w \<or> CanBeginCombat env x y w) \<and>
     IsInCombatWith x y w' = b \<and> IsInCombatWith y x w' = b \<and>
     (b \<longrightarrow> in_combat_flag (units w' x) \<and> in_combat_flag (units w' y))"
proof -
  have cons: "consistent {} w" using assms(2) by (simp add: good_def)
  have unsup: "filed w False x y = Some r \<Longrightarrow> HasCombat x w \<and> HasCombat y w \<and> IsInCombatWith y x w" for r
    using filed_sym [OF cons, of False x y]
      HasCombat_filed [OF consistent_okD [OF cons, of True x]] HasCombat_filed [OF consistent_okD [OF cons, of True y]]
    by (auto simp: IsInCombatWith_filed)
  consider (pvp) r where "filed w True x y = Some r" | (pve) r where "filed w True x y = None" "filed w False x y = Some r"
    | (no) "\<not> IsInCombatWith x y w" "\<not> CanBeginCombat env x y w" | (new) "\<not> IsInCombatWith x y w" "CanBeginCombat env x y w"
    unfolding IsInCombatWith_filed by (metis option.exhaust)
  then show ?thesis
  proof cases
    case pvp
    from refresh_answers [OF assms this] show ?thesis by blast
  next
    case pve
    then have "SetInCombatWith env x y w = Some (True, w)" "IsInCombatWith x y w"
      by (simp_all add: SetInCombatWith_def filed_def refs_of_def IsInCombatWith_def)
    moreover have "in_combat_flag (units w x) \<and> in_combat_flag (units w y) \<and> IsInCombatWith y x w"
      using unsup [OF pve(2)] assms(2) by (simp add: good_def flag_ok_def)
    ultimately show ?thesis by blast
  next
    case no
    then have "\<not> IsInCombatWith y x w" using filed_sym [OF cons] by (simp add: IsInCombatWith_filed)
    moreover have "SetInCombatWith env x y w = Some (False, w)"
      using no by (simp add: SetInCombatWith_def IsInCombatWith_def)
    ultimately show ?thesis using no by blast
  next
    case new
    from begin_answers [OF assms this] new show ?thesis by blast
  qed
qed

theorem set_in_combat_answers_witness:
  "\<exists>w w'. demo_fight = Some w \<and> SetInCombatWith still_env 2 1 w = Some (True, w') \<and>
     IsInCombatWith 1 2 w' \<and> in_combat_flag (units w' 1)"
proof -
  obtain w where w: "demo_fight = Some w" "filed w True 1 2 = Some 0" using demo_fight_runs by blast
  have g: "good {} UNIV w" by (rule demo_fight_good [OF w(1)])
  then have "consistent {} w" by (simp add: good_def)
  from filed_sym [OF this, of True 2 1] w(2) have "IsInCombatWith 2 1 w" by (simp add: IsInCombatWith_filed)
  then show ?thesis using set_in_combat_answers [OF still_watches g, of 2 1] w(1) by auto
qed

end
