(* ===== verification/Motion.thy ===== *)
theory Motion
  imports StdContainers "HOL-Library.Monad_Syntax"
begin

text \<open>
  \<^verbatim>\<open>src/src/server/game/Movement/MotionMaster.h\<close> and \<^verbatim>\<open>MotionMaster.cpp\<close>: which movement
  generator of a unit is in charge. Generators are heap objects, here numbers with their fields
  in \<open>gens\<close>; 0 is the idle generator, the one static object. Their virtual functions are the
  record \<open>gen_class\<close>: they map the motion master they are called from to the one they leave, so a
  generator may call back. An operation is \<open>None\<close> where the code does not come back in a defined
  state: a failed \<open>ASSERT\<close>, a null pointer, the first element of an empty container, a callback
  that does not return.

  The \<open>Move\<close> functions build a generator and call \<open>Add\<close> (\<open>mm_Add\<close>); what they compute is
  geometry and is not modelled, apart from \<open>MoveIdle\<close>.
\<close>

section \<open>Generators and state\<close>

definition MOTIONMASTER_FLAG_UPDATE :: u8 where "MOTIONMASTER_FLAG_UPDATE = 1"
definition MOTIONMASTER_FLAG_STATIC_INITIALIZATION_PENDING :: u8 where
  "MOTIONMASTER_FLAG_STATIC_INITIALIZATION_PENDING = 2"

definition MOVEMENTGENERATOR_FLAG_INITIALIZATION_PENDING :: u16 where
  "MOVEMENTGENERATOR_FLAG_INITIALIZATION_PENDING = 1"
definition MOVEMENTGENERATOR_FLAG_DEACTIVATED :: u16 where
  "MOVEMENTGENERATOR_FLAG_DEACTIVATED = 0x40"

definition MAX_DB_MOTION_TYPE :: u8 where "MAX_DB_MOTION_TYPE = 3"
definition MAX_MOTION_TYPE :: u8 where "MAX_MOTION_TYPE = 19"

definition MOTION_SLOT_DEFAULT :: u8 where "MOTION_SLOT_DEFAULT = 0"
definition MOTION_SLOT_ACTIVE :: u8 where "MOTION_SLOT_ACTIVE = 1"
definition MAX_MOTION_SLOT :: u8 where "MAX_MOTION_SLOT = 2"

lemmas slot_defs = MOTION_SLOT_DEFAULT_def MOTION_SLOT_ACTIVE_def MAX_MOTION_SLOT_def

definition IsInvalidMovementGeneratorType :: "u8 \<Rightarrow> bool" where
  "IsInvalidMovementGeneratorType t = (t = MAX_DB_MOTION_TYPE \<or> t \<ge> MAX_MOTION_TYPE)"

definition IsInvalidMovementSlot :: "u8 \<Rightarrow> bool" where
  "IsInvalidMovementSlot slot = (slot \<ge> MAX_MOTION_SLOT)"

record movement_generator =
  Mode :: u8
  Priority :: u8
  gen_Flags :: u16
  BaseUnitState :: u32
  gen_type :: u8

datatype motion_call =
    CalledInitialize nat
  | CalledFinalize nat bool bool
  | CalledReset nat
  | CalledDeactivate nat
  | CalledUpdate nat u32
  | CalledSpeedChanged nat
  | DeletedGenerator nat

text \<open>A delayed action is a closure over the arguments of the call it repeats.\<close>

datatype motion_action =
    DELAYED_CLEAR
  | DELAYED_CLEAR_SLOT u8
  | DELAYED_CLEAR_MODE u8
  | DELAYED_CLEAR_PRIORITY u8
  | DELAYED_ADD nat u8
  | DELAYED_REMOVE nat u8
  | DELAYED_REMOVE_TYPE u8 u8
  | DELAYED_INITIALIZE

record motion_master =
  gens :: "nat \<Rightarrow> movement_generator"
  defaultGenerator :: "nat option"
  generators :: "nat list"
  baseUnitStatesMap :: "(u32 \<times> nat) list"
  delayedActions :: "motion_action list"
  mm_flags :: u8
  unitState :: u32
  motion_log :: "motion_call list"

type_synonym mhook = "motion_master \<Rightarrow> motion_master option"

record gen_class =
  gen_Initialize :: "nat \<Rightarrow> mhook"
  gen_Finalize :: "nat \<Rightarrow> bool \<Rightarrow> bool \<Rightarrow> mhook"
  gen_Reset :: "nat \<Rightarrow> mhook"
  gen_Deactivate :: "nat \<Rightarrow> mhook"
  gen_Update :: "nat \<Rightarrow> u32 \<Rightarrow> motion_master \<Rightarrow> (bool \<times> motion_master) option"
  SelectMovementGenerator :: "motion_master \<Rightarrow> nat"

definition new_MotionMaster :: "(nat \<Rightarrow> movement_generator) \<Rightarrow> motion_master" where
  "new_MotionMaster gs = \<lparr>gens = gs, defaultGenerator = None, generators = [], baseUnitStatesMap = [],
     delayedActions = [], mm_flags = 0, unitState = 0, motion_log = []\<rparr>"

definition motion_record :: "motion_call \<Rightarrow> motion_master \<Rightarrow> motion_master" where
  "motion_record c m = m\<lparr>motion_log := motion_log m @ [c]\<rparr>"

text \<open>The virtual calls.\<close>

definition call_Initialize :: "gen_class \<Rightarrow> nat \<Rightarrow> mhook" where
  "call_Initialize cl g m = gen_Initialize cl g (motion_record (CalledInitialize g) m)"
definition call_Finalize :: "gen_class \<Rightarrow> nat \<Rightarrow> bool \<Rightarrow> bool \<Rightarrow> mhook" where
  "call_Finalize cl g active inform m = gen_Finalize cl g active inform (motion_record (CalledFinalize g active inform) m)"
definition call_Reset :: "gen_class \<Rightarrow> nat \<Rightarrow> mhook" where
  "call_Reset cl g m = gen_Reset cl g (motion_record (CalledReset g) m)"
definition call_Deactivate :: "gen_class \<Rightarrow> nat \<Rightarrow> mhook" where
  "call_Deactivate cl g m = gen_Deactivate cl g (motion_record (CalledDeactivate g) m)"
definition call_Update :: "gen_class \<Rightarrow> nat \<Rightarrow> u32 \<Rightarrow> motion_master \<Rightarrow> (bool \<times> motion_master) option" where
  "call_Update cl g diff m = gen_Update cl g diff (motion_record (CalledUpdate g diff) m)"

definition idle_generator :: nat where "idle_generator = 0"

definition IsStatic :: "nat \<Rightarrow> bool" where
  "IsStatic g = (g = idle_generator)"

definition delete_generator :: "nat \<Rightarrow> motion_master \<Rightarrow> motion_master" where
  "delete_generator g m = (if \<not> IsStatic g then motion_record (DeletedGenerator g) m else m)"

definition mm_AddFlag :: "u8 \<Rightarrow> motion_master \<Rightarrow> motion_master" where
  "mm_AddFlag flag m = m\<lparr>mm_flags := mm_flags m OR flag\<rparr>"
definition mm_HasFlag :: "u8 \<Rightarrow> motion_master \<Rightarrow> bool" where
  "mm_HasFlag flag m = has_flag (mm_flags m) flag"
definition mm_RemoveFlag :: "u8 \<Rightarrow> motion_master \<Rightarrow> motion_master" where
  "mm_RemoveFlag flag m = m\<lparr>mm_flags := mm_flags m AND NOT flag\<rparr>"

definition updating :: "motion_master \<Rightarrow> bool" where
  "updating m = mm_HasFlag MOTIONMASTER_FLAG_UPDATE m"

definition delay_action :: "motion_action \<Rightarrow> mhook" where
  "delay_action a m = Some (m\<lparr>delayedActions := delayedActions m @ [a]\<rparr>)"

section \<open>The container\<close>

text \<open>
  A \<open>std::multiset\<close> of generators ordered by the comparator, the list of its elements in
  iteration order. Insertion is behind equivalent elements, \<open>erase\<close> of a key erases all
  equivalent elements, \<open>find\<close> finds the first.
\<close>

definition gen_before :: "movement_generator \<Rightarrow> movement_generator \<Rightarrow> bool" where
  "gen_before a b =
     (if Mode a > Mode b then True
      else if Mode a = Mode b then Priority a > Priority b
      else False)"

definition gen_equiv :: "movement_generator \<Rightarrow> movement_generator \<Rightarrow> bool" where
  "gen_equiv a b = (\<not> gen_before a b \<and> \<not> gen_before b a)"

fun ms_emplace :: "(nat \<Rightarrow> movement_generator) \<Rightarrow> nat \<Rightarrow> nat list \<Rightarrow> nat list" where
  "ms_emplace gs g [] = [g]"
| "ms_emplace gs g (x # xs) = (if gen_before (gs g) (gs x) then g # x # xs else x # ms_emplace gs g xs)"

definition ms_erase :: "(nat \<Rightarrow> movement_generator) \<Rightarrow> nat \<Rightarrow> nat list \<Rightarrow> nat list" where
  "ms_erase gs g xs = filter (\<lambda>x. \<not> gen_equiv (gs g) (gs x)) xs"

definition ms_find :: "(nat \<Rightarrow> movement_generator) \<Rightarrow> nat \<Rightarrow> nat list \<Rightarrow> nat option" where
  "ms_find gs g xs = find (\<lambda>x. gen_equiv (gs g) (gs x)) xs"

definition erase_key :: "nat \<Rightarrow> motion_master \<Rightarrow> motion_master" where
  "erase_key g m = m\<lparr>generators := ms_erase (gens m) g (generators m)\<rparr>"

section \<open>Questions\<close>

definition mm_Empty :: "motion_master \<Rightarrow> bool" where
  "mm_Empty m = (defaultGenerator m = None \<and> generators m = [])"

text \<open>\<open>?:\<close> binds weaker than \<open>+\<close>.\<close>

definition mm_Size :: "motion_master \<Rightarrow> u32" where
  "mm_Size m = (if defaultGenerator m \<noteq> None then 1 else 0 + of_nat (length (generators m)))"

definition GetCurrentSlot :: "motion_master \<Rightarrow> u8" where
  "GetCurrentSlot m =
     (if generators m \<noteq> [] then MOTION_SLOT_ACTIVE
      else if defaultGenerator m \<noteq> None then MOTION_SLOT_DEFAULT
      else MAX_MOTION_SLOT)"

definition GetCurrentMovementGenerator :: "motion_master \<Rightarrow> nat option" where
  "GetCurrentMovementGenerator m =
     (case generators m of g # _ \<Rightarrow> Some g | [] \<Rightarrow> defaultGenerator m)"

definition GetCurrentMovementGeneratorType :: "motion_master \<Rightarrow> u8" where
  "GetCurrentMovementGeneratorType m =
     (if mm_Empty m then MAX_MOTION_TYPE
      else case GetCurrentMovementGenerator m of
             None \<Rightarrow> MAX_MOTION_TYPE
           | Some g \<Rightarrow> gen_type (gens m g))"

definition GetCurrentMovementGeneratorAt :: "u8 \<Rightarrow> motion_master \<Rightarrow> nat option" where
  "GetCurrentMovementGeneratorAt slot m =
     (if mm_Empty m \<or> IsInvalidMovementSlot slot then None
      else if slot = MOTION_SLOT_ACTIVE \<and> generators m \<noteq> [] then Some (hd (generators m))
      else if slot = MOTION_SLOT_DEFAULT then defaultGenerator m
      else None)"

definition GetCurrentMovementGeneratorTypeAt :: "u8 \<Rightarrow> motion_master \<Rightarrow> u8" where
  "GetCurrentMovementGeneratorTypeAt slot m =
     (case GetCurrentMovementGeneratorAt slot m of
        None \<Rightarrow> MAX_MOTION_TYPE | Some g \<Rightarrow> gen_type (gens m g))"

definition GetMovementGenerator :: "(movement_generator \<Rightarrow> bool) \<Rightarrow> u8 \<Rightarrow> motion_master \<Rightarrow> nat option" where
  "GetMovementGenerator P slot m =
     (if mm_Empty m \<or> IsInvalidMovementSlot slot then None
      else if slot = MOTION_SLOT_DEFAULT
      then (case defaultGenerator m of
              None \<Rightarrow> None | Some g \<Rightarrow> if P (gens m g) then Some g else None)
      else find (\<lambda>g. P (gens m g)) (generators m))"

definition HasMovementGenerator :: "(movement_generator \<Rightarrow> bool) \<Rightarrow> u8 \<Rightarrow> motion_master \<Rightarrow> bool" where
  "HasMovementGenerator P slot m = (GetMovementGenerator P slot m \<noteq> None)"

section \<open>Base unit states\<close>

definition AddBaseUnitState :: "nat \<Rightarrow> motion_master \<Rightarrow> motion_master" where
  "AddBaseUnitState g m =
     (let st = BaseUnitState (gens m g) in
      if st = 0 then m
      else m\<lparr>baseUnitStatesMap := baseUnitStatesMap m @ [(st, g)], unitState := unitState m OR st\<rparr>)"

definition ClearBaseUnitState :: "nat \<Rightarrow> motion_master \<Rightarrow> motion_master" where
  "ClearBaseUnitState g m =
     (let st = BaseUnitState (gens m g) in
      if st = 0 then m
      else
        let rest = filter (\<lambda>e. e \<noteq> (st, g)) (baseUnitStatesMap m);
            m = m\<lparr>baseUnitStatesMap := rest\<rparr>
        in if st \<notin> fst ` set rest then m\<lparr>unitState := unitState m AND NOT st\<rparr> else m)"

definition ClearBaseUnitStates :: "motion_master \<Rightarrow> motion_master" where
  "ClearBaseUnitStates m =
     (let st = foldl (\<lambda>s e. s OR fst e) 0 (baseUnitStatesMap m)
      in m\<lparr>unitState := unitState m AND NOT st, baseUnitStatesMap := []\<rparr>)"

section \<open>Changing the slots\<close>

definition Delete :: "gen_class \<Rightarrow> nat \<Rightarrow> bool \<Rightarrow> bool \<Rightarrow> mhook" where
  "Delete cl g active inform m = do {
     m \<leftarrow> call_Finalize cl g active inform m;
     Some (delete_generator g (ClearBaseUnitState g m))
   }"

text \<open>Assigning the smart pointer deletes the generator it held.\<close>

definition set_default :: "nat \<Rightarrow> motion_master \<Rightarrow> motion_master" where
  "set_default g m =
     (case defaultGenerator m of None \<Rightarrow> m | Some old \<Rightarrow> delete_generator old m)\<lparr>defaultGenerator := Some g\<rparr>"

definition DeleteDefault :: "gen_class \<Rightarrow> bool \<Rightarrow> bool \<Rightarrow> mhook" where
  "DeleteDefault cl active inform m = do {
     g \<leftarrow> defaultGenerator m;
     m \<leftarrow> call_Finalize cl g active inform m;
     Some (mm_AddFlag MOTIONMASTER_FLAG_STATIC_INITIALIZATION_PENDING (set_default idle_generator m))
   }"

definition Pop :: "gen_class \<Rightarrow> bool \<Rightarrow> bool \<Rightarrow> mhook" where
  "Pop cl active inform m =
     (case generators m of
        [] \<Rightarrow> None
      | g # _ \<Rightarrow> Delete cl g active inform (erase_key g m))"

partial_function (option) pop_all :: "gen_class \<Rightarrow> motion_master \<Rightarrow> motion_master option" where
  "pop_all cl m = (if generators m = [] then Some m else Option.bind (Pop cl False False m) (pop_all cl))"

definition DirectClear :: "gen_class \<Rightarrow> mhook" where
  "DirectClear cl m = do {
     m \<leftarrow> (if generators m \<noteq> [] then Pop cl True False m else Some m);
     m \<leftarrow> pop_all cl m;
     Some (ClearBaseUnitStates m)
   }"

definition DirectClearDefault :: "gen_class \<Rightarrow> mhook" where
  "DirectClearDefault cl m =
     (if defaultGenerator m \<noteq> None then DeleteDefault cl (generators m = []) False m else Some m)"

text \<open>
  The iterator is the element it stands on. Erasing leaves it on the next element, which must
  still be there after the callback.
\<close>

definition elem_after :: "nat \<Rightarrow> nat list \<Rightarrow> nat option" where
  "elem_after g xs = (case dropWhile (\<lambda>x. x \<noteq> g) xs of _ # x # _ \<Rightarrow> Some x | _ \<Rightarrow> None)"

partial_function (option) clear_loop ::
  "gen_class \<Rightarrow> (movement_generator \<Rightarrow> bool) \<Rightarrow> nat option \<Rightarrow> nat option \<Rightarrow> motion_master \<Rightarrow> motion_master option" where
  "clear_loop cl P cur itr m =
     (case itr of
        None \<Rightarrow> Some m
      | Some g \<Rightarrow>
          if g \<notin> set (generators m) then None
          else if P (gens m g)
          then Option.bind
                 (Delete cl g (Some g = cur) False (m\<lparr>generators := remove1 g (generators m)\<rparr>))
                 (clear_loop cl P cur (elem_after g (generators m)))
          else clear_loop cl P cur (elem_after g (generators m)) m)"

definition DirectClearIf :: "gen_class \<Rightarrow> (movement_generator \<Rightarrow> bool) \<Rightarrow> mhook" where
  "DirectClearIf cl P m =
     (case generators m of
        [] \<Rightarrow> Some m
      | g # _ \<Rightarrow> clear_loop cl P (GetCurrentMovementGenerator m) (Some g) m)"

text \<open>What \<open>DirectAdd\<close> does to the generators in place.\<close>

definition make_room :: "gen_class \<Rightarrow> nat \<Rightarrow> mhook" where
  "make_room cl g m =
     (case generators m of
        [] \<Rightarrow> do { d \<leftarrow> defaultGenerator m; call_Deactivate cl d m }
      | cur # _ \<Rightarrow>
          if Priority (gens m g) \<ge> Priority (gens m cur)
          then (if Priority (gens m g) = Priority (gens m cur)
                then Delete cl cur True False (erase_key cur m)
                else call_Deactivate cl cur m)
          else (case find (\<lambda>x. Priority (gens m x) = Priority (gens m g)) (generators m) of
                  None \<Rightarrow> Some m
                | Some x \<Rightarrow> Delete cl x False False (erase_key x m)))"

definition emplace_generator :: "nat \<Rightarrow> motion_master \<Rightarrow> motion_master" where
  "emplace_generator g m = m\<lparr>generators := ms_emplace (gens m) g (generators m)\<rparr>"

definition DirectAdd :: "gen_class \<Rightarrow> nat \<Rightarrow> u8 \<Rightarrow> mhook" where
  "DirectAdd cl g slot m =
     (if slot = MOTION_SLOT_DEFAULT
      then do {
        m \<leftarrow> (case defaultGenerator m of
                None \<Rightarrow> Some m
              | Some d \<Rightarrow> call_Finalize cl d (generators m = []) False m);
        let m = set_default g m;
        Some (if IsStatic g then mm_AddFlag MOTIONMASTER_FLAG_STATIC_INITIALIZATION_PENDING m else m)
      }
      else if slot = MOTION_SLOT_ACTIVE
      then do {
        m \<leftarrow> make_room cl g m;
        Some (AddBaseUnitState g (emplace_generator g m))
      }
      else Some m)"

section \<open>The operations\<close>

definition mm_Add :: "gen_class \<Rightarrow> nat \<Rightarrow> u8 \<Rightarrow> mhook" where
  "mm_Add cl g slot m =
     (if IsInvalidMovementSlot slot then Some (motion_record (DeletedGenerator g) m)
      else if updating m then delay_action (DELAYED_ADD g slot) m
      else DirectAdd cl g slot m)"

definition MoveIdle :: "gen_class \<Rightarrow> mhook" where
  "MoveIdle cl = mm_Add cl idle_generator MOTION_SLOT_DEFAULT"

definition InitializeDefault :: "gen_class \<Rightarrow> mhook" where
  "InitializeDefault cl m = mm_Add cl (SelectMovementGenerator cl m) MOTION_SLOT_DEFAULT m"

definition DirectInitialize :: "gen_class \<Rightarrow> mhook" where
  "DirectInitialize cl m = do {
     m \<leftarrow> DirectClearDefault cl m;
     m \<leftarrow> DirectClear cl m;
     InitializeDefault cl m
   }"

definition mm_Initialize :: "gen_class \<Rightarrow> mhook" where
  "mm_Initialize cl m =
     (if updating m then delay_action DELAYED_INITIALIZE m else DirectInitialize cl m)"

text \<open>Taking an element that was found out of the container.\<close>

definition remove_found :: "gen_class \<Rightarrow> nat option \<Rightarrow> mhook" where
  "remove_found cl found m =
     (case found of
        None \<Rightarrow> Some m
      | Some x \<Rightarrow> Delete cl x (GetCurrentMovementGenerator m = Some x) False (erase_key x m))"

definition mm_Remove :: "gen_class \<Rightarrow> nat \<Rightarrow> u8 \<Rightarrow> mhook" where
  "mm_Remove cl g slot m =
     (if IsInvalidMovementSlot slot then Some m
      else if updating m then delay_action (DELAYED_REMOVE g slot) m
      else if mm_Empty m then Some m
      else if slot = MOTION_SLOT_DEFAULT
      then (if defaultGenerator m = Some g then DirectClearDefault cl m else Some m)
      else remove_found cl (ms_find (gens m) g (generators m)) m)"

definition mm_RemoveType :: "gen_class \<Rightarrow> u8 \<Rightarrow> u8 \<Rightarrow> mhook" where
  "mm_RemoveType cl t slot m =
     (if IsInvalidMovementGeneratorType t \<or> IsInvalidMovementSlot slot then Some m
      else if updating m then delay_action (DELAYED_REMOVE_TYPE t slot) m
      else if mm_Empty m then Some m
      else if slot = MOTION_SLOT_DEFAULT
      then (case defaultGenerator m of
              None \<Rightarrow> Some m
            | Some d \<Rightarrow> if gen_type (gens m d) = t then DirectClearDefault cl m else Some m)
      else remove_found cl (find (\<lambda>x. gen_type (gens m x) = t) (generators m)) m)"

definition mm_Clear :: "gen_class \<Rightarrow> mhook" where
  "mm_Clear cl m =
     (if updating m then delay_action DELAYED_CLEAR m
      else if \<not> mm_Empty m then DirectClear cl m
      else Some m)"

definition mm_ClearSlot :: "gen_class \<Rightarrow> u8 \<Rightarrow> mhook" where
  "mm_ClearSlot cl slot m =
     (if IsInvalidMovementSlot slot then Some m
      else if updating m then delay_action (DELAYED_CLEAR_SLOT slot) m
      else if mm_Empty m then Some m
      else if slot = MOTION_SLOT_DEFAULT then DirectClearDefault cl m
      else DirectClear cl m)"

definition mm_ClearMode :: "gen_class \<Rightarrow> u8 \<Rightarrow> mhook" where
  "mm_ClearMode cl mode m =
     (if updating m then delay_action (DELAYED_CLEAR_MODE mode) m
      else if mm_Empty m then Some m
      else DirectClearIf cl (\<lambda>a. Mode a = mode) m)"

definition mm_ClearPriority :: "gen_class \<Rightarrow> u8 \<Rightarrow> mhook" where
  "mm_ClearPriority cl priority m =
     (if updating m then delay_action (DELAYED_CLEAR_PRIORITY priority) m
      else if mm_Empty m then Some m
      else DirectClearIf cl (\<lambda>a. Priority a = priority) m)"

definition PropagateSpeedChange :: "motion_master \<Rightarrow> motion_master" where
  "PropagateSpeedChange m =
     (if mm_Empty m then m
      else case GetCurrentMovementGenerator m of
             None \<Rightarrow> m | Some g \<Rightarrow> motion_record (CalledSpeedChanged g) m)"

definition ReinitializeMovement :: "gen_class \<Rightarrow> mhook" where
  "ReinitializeMovement cl m =
     (if mm_Empty m then Some m
      else case GetCurrentMovementGenerator m of
             None \<Rightarrow> Some m | Some g \<Rightarrow> call_Reset cl g m)"

text \<open>The destructor takes the generators out one by one and drops the delayed actions.\<close>

definition destroy_MotionMaster :: "motion_master \<Rightarrow> motion_master" where
  "destroy_MotionMaster m =
     (case defaultGenerator m of None \<Rightarrow> (\<lambda>m. m) | Some d \<Rightarrow> delete_generator d)
       ((fold delete_generator (generators m) (m\<lparr>delayedActions := []\<rparr>))\<lparr>generators := []\<rparr>)"

section \<open>The update\<close>

fun resolve_action :: "gen_class \<Rightarrow> motion_action \<Rightarrow> mhook" where
  "resolve_action cl DELAYED_CLEAR m = mm_Clear cl m"
| "resolve_action cl (DELAYED_CLEAR_SLOT slot) m = mm_ClearSlot cl slot m"
| "resolve_action cl (DELAYED_CLEAR_MODE mode) m = mm_ClearMode cl mode m"
| "resolve_action cl (DELAYED_CLEAR_PRIORITY priority) m = mm_ClearPriority cl priority m"
| "resolve_action cl (DELAYED_ADD g slot) m = mm_Add cl g slot m"
| "resolve_action cl (DELAYED_REMOVE g slot) m = mm_Remove cl g slot m"
| "resolve_action cl (DELAYED_REMOVE_TYPE t slot) m = mm_RemoveType cl t slot m"
| "resolve_action cl DELAYED_INITIALIZE m = mm_Initialize cl m"

partial_function (option) resolve_loop :: "gen_class \<Rightarrow> motion_master \<Rightarrow> motion_master option" where
  "resolve_loop cl m =
     (case delayedActions m of
        [] \<Rightarrow> Some m
      | a # _ \<Rightarrow> Option.bind (resolve_action cl a m)
                   (\<lambda>m. resolve_loop cl (m\<lparr>delayedActions := tl (delayedActions m)\<rparr>)))"

text \<open>Up to the call of the generator's update.\<close>

definition prepare_top :: "gen_class \<Rightarrow> nat \<Rightarrow> mhook" where
  "prepare_top cl cur m = do {
     m \<leftarrow> (if mm_HasFlag MOTIONMASTER_FLAG_STATIC_INITIALIZATION_PENDING m \<and> IsStatic cur
           then call_Initialize cl cur (mm_RemoveFlag MOTIONMASTER_FLAG_STATIC_INITIALIZATION_PENDING m)
           else Some m);
     m \<leftarrow> (if has_flag (gen_Flags (gens m cur)) MOVEMENTGENERATOR_FLAG_INITIALIZATION_PENDING
           then call_Initialize cl cur m else Some m);
     m \<leftarrow> (if has_flag (gen_Flags (gens m cur)) MOVEMENTGENERATOR_FLAG_DEACTIVATED
           then call_Reset cl cur m else Some m);
     (if has_flag (gen_Flags (gens m cur))
           (MOVEMENTGENERATOR_FLAG_INITIALIZATION_PENDING OR MOVEMENTGENERATOR_FLAG_DEACTIVATED)
      then None else Some m)
   }"

definition update_top :: "gen_class \<Rightarrow> u32 \<Rightarrow> mhook" where
  "update_top cl diff m = do {
     cur \<leftarrow> GetCurrentMovementGenerator m;
     m \<leftarrow> prepare_top cl cur m;
     (going, m) \<leftarrow> call_Update cl cur diff m;
     (if going then Some m
      else if GetCurrentMovementGenerator m \<noteq> Some cur then None
      else if GetCurrentSlot m = MOTION_SLOT_ACTIVE then Pop cl True True m
      else MoveIdle cl m)
   }"

definition mm_Update :: "gen_class \<Rightarrow> u32 \<Rightarrow> mhook" where
  "mm_Update cl diff m =
     (if mm_Empty m then None
      else do {
        m \<leftarrow> update_top cl diff (mm_AddFlag MOTIONMASTER_FLAG_UPDATE m);
        resolve_loop cl (mm_RemoveFlag MOTIONMASTER_FLAG_UPDATE m)
      })"

end
