(* ===== verification/MotionProps.thy ===== *)
theory MotionProps
  imports Motion Machine
begin

text \<open>
  What holds of the motion master. With generators of one mode (the only ones the code makes)
  and callbacks that leave the slots alone, the container is a map from priorities to generators
  and the unit's states follow it; while an update runs, no call touches the slots.
\<close>

section \<open>Generators of one mode\<close>

text \<open>The fields of the generators that are fixed once they are added.\<close>

record gen_kind =
  prio :: "nat \<Rightarrow> u8"
  state_of :: "nat \<Rightarrow> u32"
  type_of :: "nat \<Rightarrow> u8"

definition kinds :: "gen_kind \<Rightarrow> (nat \<Rightarrow> movement_generator) \<Rightarrow> bool" where
  "kinds k gs \<longleftrightarrow> (\<forall>g. Mode (gs g) = 0 \<and> Priority (gs g) = prio k g \<and>
     BaseUnitState (gs g) = state_of k g \<and> gen_type (gs g) = type_of k g)"

text \<open>Two base states are the same or have no bit in common.\<close>

definition disjoint_states :: "gen_kind \<Rightarrow> bool" where
  "disjoint_states k \<longleftrightarrow> (\<forall>g h. state_of k g = state_of k h \<or> state_of k g AND state_of k h = 0)"

text \<open>
  Callbacks that change no more than flags of generators and may call the motion master while
  it is updating, which queues the call.
\<close>

definition watched :: "motion_master \<Rightarrow> motion_master \<Rightarrow> bool" where
  "watched m m' \<longleftrightarrow> (\<exists>gs l as. m' = m\<lparr>gens := gs, motion_log := l, delayedActions := delayedActions m @ as\<rparr> \<and>
     (\<forall>k. kinds k (gens m) \<longrightarrow> kinds k gs) \<and> (updating m \<or> as = []))"

definition calm :: "mhook \<Rightarrow> bool" where
  "calm h \<longleftrightarrow> (\<forall>m. \<exists>m'. h m = Some m' \<and> watched m m')"

definition calm_class :: "gen_class \<Rightarrow> bool" where
  "calm_class cl \<longleftrightarrow>
     (\<forall>g. calm (gen_Deactivate cl g) \<and> (\<forall>a i. calm (gen_Finalize cl g a i)))"

lemma kinds_simps:
  assumes "kinds k gs"
  shows "Mode (gs g) = 0" "Priority (gs g) = prio k g" "BaseUnitState (gs g) = state_of k g"
    "gen_type (gs g) = type_of k g"
  using assms by (simp_all add: kinds_def)

definition descending :: "gen_kind \<Rightarrow> nat list \<Rightarrow> bool" where
  "descending k xs \<longleftrightarrow> sorted_wrt (\<lambda>a b. prio k b < prio k a) xs"

definition base_ok :: "gen_kind \<Rightarrow> motion_master \<Rightarrow> bool" where
  "base_ok k m \<longleftrightarrow> set (baseUnitStatesMap m) = {(state_of k g, g) |g. g \<in> set (generators m) \<and> state_of k g \<noteq> 0}"

definition states_ok :: "gen_kind \<Rightarrow> motion_master \<Rightarrow> bool" where
  "states_ok k m \<longleftrightarrow> (\<forall>g. unitState m AND state_of k g =
     (if state_of k g \<in> state_of k ` set (generators m) then state_of k g else 0))"

definition motion_ok :: "gen_kind \<Rightarrow> motion_master \<Rightarrow> bool" where
  "motion_ok k m \<longleftrightarrow> kinds k (gens m) \<and> descending k (generators m) \<and> base_ok k m \<and> states_ok k m"

lemma descending_Cons [simp]:
  "descending k (x # xs) \<longleftrightarrow> (\<forall>y \<in> set xs. prio k y < prio k x) \<and> descending k xs"
  by (simp add: descending_def)

lemma descending_Nil [simp]: "descending k []"
  by (simp add: descending_def)

lemma descending_filter: "descending k xs \<Longrightarrow> descending k (filter P xs)"
  by (simp add: descending_def sorted_wrt_filter)

lemma descending_inj:
  assumes "descending k xs" and "a \<in> set xs" and "b \<in> set xs" and "prio k a = prio k b"
  shows "a = b"
proof -
  have "a = b \<or> prio k a < prio k b \<or> prio k b < prio k a" using assms(1-3) by (induction xs) auto
  then show ?thesis using assms(4) by simp
qed

lemma descending_distinct: "descending k xs \<Longrightarrow> distinct xs"
  by (induction xs) auto

lemma before_prio:
  assumes "kinds k gs"
  shows "gen_before (gs a) (gs b) \<longleftrightarrow> prio k b < prio k a" "gen_equiv (gs a) (gs b) \<longleftrightarrow> prio k a = prio k b"
  using assms by (auto simp: gen_equiv_def gen_before_def kinds_simps)

lemma erase_prio:
  assumes "kinds k gs"
  shows "ms_erase gs g xs = filter (\<lambda>x. prio k x \<noteq> prio k g) xs"
  by (auto simp: ms_erase_def before_prio(2) [OF assms] intro!: filter_cong)

lemma set_emplace [simp]: "set (ms_emplace gs g xs) = insert g (set xs)"
  by (induction gs g xs rule: ms_emplace.induct) auto

lemma descending_emplace:
  assumes "kinds k gs" and "descending k xs" and "\<forall>x \<in> set xs. prio k x \<noteq> prio k g"
  shows "descending k (ms_emplace gs g xs)"
  using assms(2,3)
proof (induction xs)
  case (Cons x xs)
  then show ?case by (auto simp: before_prio(1) [OF assms(1)] not_less intro: order.strict_trans)
qed simp

section \<open>The map of priorities\<close>

definition at_prio :: "gen_kind \<Rightarrow> nat list \<Rightarrow> u8 \<Rightarrow> nat option" where
  "at_prio k xs p = find (\<lambda>g. prio k g = p) xs"

lemma at_prio_simps [simp]:
  "at_prio k [] = (\<lambda>p. None)"
  "at_prio k (x # xs) p = (if prio k x = p then Some x else at_prio k xs p)"
  by (auto simp: at_prio_def)

lemma at_prio_Some:
  assumes "descending k xs"
  shows "at_prio k xs p = Some g \<longleftrightarrow> g \<in> set xs \<and> prio k g = p"
  using assms by (induction xs) auto

lemma at_prio_ext:
  assumes "descending k xs" and "descending k ys"
  shows "at_prio k xs = at_prio k ys \<longleftrightarrow> set xs = set ys"
proof
  assume eq: "at_prio k xs = at_prio k ys"
  have "g \<in> set xs \<longleftrightarrow> g \<in> set ys" for g
    using at_prio_Some [OF assms(1), of "prio k g" g] at_prio_Some [OF assms(2), of "prio k g" g] eq by simp
  then show "set xs = set ys" by blast
next
  assume eq: "set xs = set ys"
  have "at_prio k xs p = at_prio k ys p" for p
  proof (cases "at_prio k xs p")
    case None
    then have "g \<notin> set ys \<or> prio k g \<noteq> p" for g using at_prio_Some [OF assms(1), of p g] eq by auto
    then have "at_prio k ys p \<noteq> Some g" for g using at_prio_Some [OF assms(2), of p g] by auto
    then show ?thesis using None by (cases "at_prio k ys p") auto
  next
    case (Some g)
    then show ?thesis using at_prio_Some [OF assms(1)] at_prio_Some [OF assms(2), of p g] eq by simp
  qed
  then show "at_prio k xs = at_prio k ys" by blast
qed

text \<open>What a list with these elements is at each priority.\<close>

lemma at_prio_updated:
  assumes "descending k xs" and "descending k ys"
  shows "set ys = insert g {x \<in> set xs. prio k x \<noteq> prio k g} \<Longrightarrow> at_prio k ys = (at_prio k xs)(prio k g \<mapsto> g)"
    and "set ys = {x \<in> set xs. prio k x \<noteq> p} \<Longrightarrow> at_prio k ys = (at_prio k xs)(p := None)"
proof -
  have eqI: "M = N" if "\<And>p g. M p = Some g \<longleftrightarrow> N p = Some g" for M N :: "u8 \<Rightarrow> nat option"
  proof
    fix p
    show "M p = N p" using that [of p] by (metis not_Some_eq)
  qed
  show "at_prio k ys = (at_prio k xs)(prio k g \<mapsto> g)" if "set ys = insert g {x \<in> set xs. prio k x \<noteq> prio k g}"
    by (rule eqI) (use that in \<open>auto simp: at_prio_Some [OF assms(1)] at_prio_Some [OF assms(2)] split: if_splits\<close>)
  show "at_prio k ys = (at_prio k xs)(p := None)" if "set ys = {x \<in> set xs. prio k x \<noteq> p}"
    by (rule eqI) (use that in \<open>auto simp: at_prio_Some [OF assms(1)] at_prio_Some [OF assms(2)] split: if_splits\<close>)
qed

section \<open>Taking out and putting in\<close>

text \<open>What operations may do besides what they are for.\<close>

definition same_slots :: "motion_master \<Rightarrow> motion_master \<Rightarrow> bool" where
  "same_slots m m' \<longleftrightarrow> defaultGenerator m' = defaultGenerator m \<and> mm_flags m' = mm_flags m \<and>
     (\<forall>k. kinds k (gens m) \<longrightarrow> kinds k (gens m')) \<and>
     (\<exists>as. delayedActions m' = delayedActions m @ as \<and> (updating m \<or> as = []))"

lemma same_slots_refl [simp]: "same_slots m m"
  by (simp add: same_slots_def)

lemma same_slots_trans: "same_slots a b \<Longrightarrow> same_slots b c \<Longrightarrow> same_slots a c"
  by (fastforce simp: same_slots_def updating_def mm_HasFlag_def)

lemma same_slots_unqueued:
  "defaultGenerator m' = defaultGenerator m \<Longrightarrow> mm_flags m' = mm_flags m \<Longrightarrow>
   (\<And>k. kinds k (gens m) \<Longrightarrow> kinds k (gens m')) \<Longrightarrow> delayedActions m' = delayedActions m \<Longrightarrow> same_slots m m'"
  by (simp add: same_slots_def)

lemma motion_ok_cong:
  assumes "motion_ok k m" and "kinds k (gens m')" and "generators m' = generators m"
    and "baseUnitStatesMap m' = baseUnitStatesMap m" and "unitState m' = unitState m"
  shows "motion_ok k m'"
  using assms by (simp add: motion_ok_def base_ok_def states_ok_def)

lemma states_remove:
  assumes "disjoint_states k" and "states_ok k m" and "g \<in> set (generators m)"
    and "set xs = set (generators m) - {g}"
  shows "states_ok k (m\<lparr>generators := xs,
     unitState := (if state_of k g \<in> state_of k ` set xs then unitState m
                   else unitState m AND NOT (state_of k g))\<rparr>)"
  unfolding states_ok_def
proof
  fix h
  let ?st = "state_of k"
  have old: "unitState m AND ?st h = (if ?st h \<in> ?st ` set (generators m) then ?st h else 0)"
    using assms(2) by (simp add: states_ok_def)
  have img: "?st ` set (generators m) = insert (?st g) (?st ` set xs)" using assms(3,4) by auto
  consider "?st h = ?st g" | "?st h \<noteq> ?st g" "?st g AND ?st h = 0"
    using assms(1) unfolding disjoint_states_def by metis
  then show "unitState (m\<lparr>generators := xs, unitState := (if ?st g \<in> ?st ` set xs then unitState m
                   else unitState m AND NOT (?st g))\<rparr>) AND ?st h =
     (if ?st h \<in> ?st ` set (generators (m\<lparr>generators := xs, unitState := (if ?st g \<in> ?st ` set xs then unitState m
                   else unitState m AND NOT (?st g))\<rparr>)) then ?st h else 0)"
  proof cases
    case 1
    have "(unitState m AND NOT (?st g)) AND ?st g = 0"
      by (rule bit_word_eqI) (auto simp: bit_and_iff bit_not_iff)
    then show ?thesis using 1 old img by simp
  next
    case 2
    have "NOT (?st g) AND ?st h = ?st h"
    proof (rule bit_word_eqI)
      fix n assume "n < LENGTH(32)"
      have "\<not> bit (?st g AND ?st h) n" using 2(2) by simp
      then show "bit (NOT (?st g) AND ?st h) n = bit (?st h) n"
        using \<open>n < LENGTH(32)\<close> by (auto simp: bit_and_iff bit_not_iff)
    qed
    then show ?thesis using 2(1) old img by (simp add: and.assoc)
  qed
qed

lemma Delete_ok:
  assumes "calm_class cl" and "disjoint_states k" and "motion_ok k m" and "g \<in> set (generators m)"
    and "set xs = set (generators m) - {g}" and "descending k xs"
  shows "\<exists>m'. Delete cl g a i (m\<lparr>generators := xs\<rparr>) = Some m' \<and> motion_ok k m' \<and>
     generators m' = xs \<and> same_slots m m'"
proof -
  let ?m = "motion_record (CalledFinalize g a i) (m\<lparr>generators := xs\<rparr>)"
  have "calm (gen_Finalize cl g a i)" using assms(1) by (simp add: calm_class_def)
  then obtain v where v: "gen_Finalize cl g a i ?m = Some v" "watched ?m v" unfolding calm_def by blast
  have same: "gens ?m = gens m" "delayedActions ?m = delayedActions m" "updating ?m = updating m"
    by (simp_all add: motion_record_def updating_def mm_HasFlag_def)
  obtain gs l as where w: "v = ?m\<lparr>gens := gs, motion_log := l, delayedActions := delayedActions m @ as\<rparr>"
      "\<And>k. kinds k (gens m) \<Longrightarrow> kinds k gs" "updating m \<or> as = []"
    using v(2) unfolding watched_def same by blast
  note f = v(1) [unfolded w(1)] w(2,3)
  have k: "kinds k gs" using f(2) assms(3) by (simp add: motion_ok_def motion_record_def)
  have [simp]: "BaseUnitState (gs g) = state_of k g" by (rule kinds_simps(3) [OF k])
  let ?r = "delete_generator g (ClearBaseUnitState g (?m\<lparr>gens := gs, motion_log := l,
      delayedActions := delayedActions m @ as\<rparr>))"
  have run: "Delete cl g a i (m\<lparr>generators := xs\<rparr>) = Some ?r"
    using f(1) by (simp add: Delete_def call_Finalize_def)
  have base: "set (baseUnitStatesMap m) = {(state_of k g, g) |g. g \<in> set (generators m) \<and> state_of k g \<noteq> 0}"
    using assms(3) by (simp add: motion_ok_def base_ok_def)
  let ?rest = "filter (\<lambda>e. e \<noteq> (state_of k g, g)) (baseUnitStatesMap m)"
  have rest: "set ?rest = {(state_of k h, h) |h. h \<in> set xs \<and> state_of k h \<noteq> 0}"
    using base assms(5) by auto
  then have img: "state_of k g \<noteq> 0 \<Longrightarrow> state_of k g \<in> fst ` set ?rest \<longleftrightarrow> state_of k g \<in> state_of k ` set xs"
    by (force simp: image_iff)
  have r: "generators ?r = xs" "gens ?r = gs" "defaultGenerator ?r = defaultGenerator m"
      "delayedActions ?r = delayedActions m @ as" "mm_flags ?r = mm_flags m"
      "baseUnitStatesMap ?r = (if state_of k g = 0 then baseUnitStatesMap m else ?rest)"
      "unitState ?r = (if state_of k g \<in> state_of k ` set xs then unitState m else unitState m AND NOT (state_of k g))"
    using img by (auto simp: delete_generator_def ClearBaseUnitState_def motion_record_def Let_def)
  have "state_of k g = 0 \<Longrightarrow> ?rest = baseUnitStatesMap m" using base by (auto intro!: filter_True)
  then have "baseUnitStatesMap ?r = ?rest" unfolding r(6) by (cases "state_of k g = 0") simp_all
  then have "base_ok k ?r" using rest unfolding base_ok_def r(1) by simp
  moreover have "states_ok k ?r"
    using states_remove [OF assms(2) _ assms(4,5)] assms(3) r(1,7) by (simp add: motion_ok_def states_ok_def)
  moreover have "kinds k (gens ?r)" "descending k (generators ?r)" using k assms(6) r by simp_all
  moreover have "same_slots m ?r"
    using f(2,3) r by (simp add: same_slots_def)
  ultimately show ?thesis using run r(1) by (auto simp: motion_ok_def)
qed

lemma erase_key_set:
  assumes "motion_ok k m" and "g \<in> set (generators m)"
  shows "set (generators (erase_key g m)) = set (generators m) - {g}"
    and "descending k (generators (erase_key g m))" and "erase_key g m = m\<lparr>generators := remove1 g (generators m)\<rparr>"
proof -
  have k: "kinds k (gens m)" and d: "descending k (generators m)" using assms(1) by (simp_all add: motion_ok_def)
  have e: "generators (erase_key g m) = filter (\<lambda>x. prio k x \<noteq> prio k g) (generators m)"
    by (simp add: erase_key_def erase_prio [OF k])
  have eq: "filter (\<lambda>x. prio k x \<noteq> prio k g) (generators m) = filter (\<lambda>x. x \<noteq> g) (generators m)"
    using descending_inj [OF d _ assms(2)] by (intro filter_cong) auto
  show "set (generators (erase_key g m)) = set (generators m) - {g}" unfolding e eq by auto
  show "descending k (generators (erase_key g m))" unfolding e by (rule descending_filter [OF d])
  show "erase_key g m = m\<lparr>generators := remove1 g (generators m)\<rparr>"
  proof -
    have "filter (\<lambda>x. x \<noteq> g) ys = removeAll g ys" for ys by (induction ys) auto
    then show ?thesis
      unfolding erase_key_def erase_prio [OF k] eq
      using distinct_remove1_removeAll [OF descending_distinct [OF d]] by simp
  qed
qed

lemma take_out:
  assumes "calm_class cl" and "disjoint_states k" and "motion_ok k m" and "g \<in> set (generators m)"
  shows "\<exists>m'. Delete cl g a i (erase_key g m) = Some m' \<and> motion_ok k m' \<and>
     set (generators m') = set (generators m) - {g} \<and> same_slots m m'"
    and "\<exists>m'. Delete cl g a i (m\<lparr>generators := remove1 g (generators m)\<rparr>) = Some m' \<and> motion_ok k m' \<and>
     generators m' = remove1 g (generators m) \<and> same_slots m m'"
proof -
  note e = erase_key_set [OF assms(3,4)]
  have "erase_key g m = m\<lparr>generators := generators (erase_key g m)\<rparr>" by (simp add: erase_key_def)
  then show "\<exists>m'. Delete cl g a i (erase_key g m) = Some m' \<and> motion_ok k m' \<and>
     set (generators m') = set (generators m) - {g} \<and> same_slots m m'"
    using Delete_ok [OF assms e(1,2), of a i] e(1) by metis
  show "\<exists>m'. Delete cl g a i (m\<lparr>generators := remove1 g (generators m)\<rparr>) = Some m' \<and> motion_ok k m' \<and>
     generators m' = remove1 g (generators m) \<and> same_slots m m'"
    using Delete_ok [OF assms, of "remove1 g (generators m)" a i] e by simp
qed

lemma watched_ok:
  assumes "watched m m'" and "motion_ok k m"
  shows "motion_ok k m'" and "generators m' = generators m" and "same_slots m m'"
proof -
  obtain gs l as where m': "m' = m\<lparr>gens := gs, motion_log := l, delayedActions := delayedActions m @ as\<rparr>"
      "\<And>k. kinds k (gens m) \<Longrightarrow> kinds k gs" "updating m \<or> as = []"
    using assms(1) unfolding watched_def by blast
  show "motion_ok k m'" by (rule motion_ok_cong [OF assms(2)]) (use assms(2) m' in \<open>simp_all add: motion_ok_def\<close>)
  show "generators m' = generators m" "same_slots m m'" using m' by (simp_all add: same_slots_def)
qed

lemma record_ok [simp]:
  "motion_ok k (motion_record c m) = motion_ok k m" "generators (motion_record c m) = generators m"
  "same_slots m (motion_record c m)" "defaultGenerator (motion_record c m) = defaultGenerator m"
  by (simp_all add: motion_record_def motion_ok_def base_ok_def states_ok_def same_slots_def)

lemma calm_call:
  assumes "calm h" and "motion_ok k m"
  shows "\<exists>m'. h (motion_record c m) = Some m' \<and> motion_ok k m' \<and> generators m' = generators m \<and> same_slots m m'"
proof -
  obtain m' where h: "h (motion_record c m) = Some m'" "watched (motion_record c m) m'"
    using assms(1) unfolding calm_def by blast
  have "motion_ok k (motion_record c m)" using assms(2) by simp
  note w = watched_ok [OF h(2) this]
  show ?thesis using h(1) w(1,2) same_slots_trans [OF record_ok(3) w(3)] by simp
qed

text \<open>Making room takes out the generator of the same priority, if there is one.\<close>

lemma make_room_ok:
  assumes "calm_class cl" and "disjoint_states k" and "motion_ok k m" and "defaultGenerator m \<noteq> None"
  shows "\<exists>m'. make_room cl g m = Some m' \<and> motion_ok k m' \<and>
     set (generators m') = {x \<in> set (generators m). prio k x \<noteq> prio k g} \<and> same_slots m m'"
proof -
  have k: "kinds k (gens m)" and d: "descending k (generators m)" using assms(3) by (simp_all add: motion_ok_def)
  note ks = kinds_simps [OF k]
  have deact: "calm (gen_Deactivate cl x)" for x using assms(1) by (simp add: calm_class_def)
  have out: "{x \<in> set (generators m). prio k x \<noteq> prio k g} = set (generators m) - {y}"
    if "y \<in> set (generators m)" "prio k y = prio k g" for y
  proof -
    have "prio k x = prio k g \<longleftrightarrow> x = y" if "x \<in> set (generators m)" for x
      using descending_inj [OF d that \<open>y \<in> set (generators m)\<close>] \<open>prio k y = prio k g\<close> by metis
    then show ?thesis by blast
  qed
  show ?thesis
  proof (cases "generators m")
    case Nil
    then show ?thesis using assms(4) calm_call [OF deact assms(3)]
      by (auto simp: make_room_def call_Deactivate_def)
  next
    case (Cons t xs)
    have t: "t \<in> set (generators m)" using Cons by simp
    consider "prio k g = prio k t" | "prio k t < prio k g" | "prio k g < prio k t" by fastforce
    then show ?thesis
    proof cases
      case 1
      then show ?thesis using take_out(1) [OF assms(1-3) t, of True False] out [OF t] Cons
        by (simp add: make_room_def ks)
    next
      case 2
      then have "{x \<in> set (generators m). prio k x \<noteq> prio k g} = set (generators m)" using d Cons by auto
      then show ?thesis using 2 calm_call [OF deact assms(3), of t "CalledDeactivate t"] Cons
        by (auto simp: make_room_def ks call_Deactivate_def)
    next
      case 3
      show ?thesis
      proof (cases "find (\<lambda>x. prio k x = prio k g) (generators m)")
        case None
        then have "{x \<in> set (generators m). prio k x \<noteq> prio k g} = set (generators m)"
          by (auto simp: find_None_iff)
        then show ?thesis using 3 None assms(3) Cons by (simp add: make_room_def ks del: find.simps) force
      next
        case (Some y)
        then have y: "y \<in> set (generators m)" "prio k y = prio k g" by (auto simp: find_Some_iff)
        show ?thesis using take_out(1) [OF assms(1-3) y(1), of False False] out [OF y] 3 Some Cons
          by (simp add: make_room_def ks del: find.simps) force
      qed
    qed
  qed
qed

lemma put_in:
  assumes "disjoint_states k" and "motion_ok k m" and "\<forall>x \<in> set (generators m). prio k x \<noteq> prio k g"
  shows "motion_ok k (AddBaseUnitState g (emplace_generator g m))"
    and "set (generators (AddBaseUnitState g (emplace_generator g m))) = insert g (set (generators m))"
    and "same_slots m (AddBaseUnitState g (emplace_generator g m))"
proof -
  let ?r = "AddBaseUnitState g (emplace_generator g m)" and ?st = "state_of k"
  have k: "kinds k (gens m)" and d: "descending k (generators m)" using assms(2) by (simp_all add: motion_ok_def)
  have r: "gens ?r = gens m" "generators ?r = ms_emplace (gens m) g (generators m)"
      "unitState ?r = unitState m OR ?st g"
      "baseUnitStatesMap ?r = (if ?st g = 0 then baseUnitStatesMap m else baseUnitStatesMap m @ [(?st g, g)])"
      "defaultGenerator ?r = defaultGenerator m" "delayedActions ?r = delayedActions m" "mm_flags ?r = mm_flags m"
    by (simp_all add: AddBaseUnitState_def emplace_generator_def Let_def kinds_simps [OF k])
  show set: "set (generators ?r) = insert g (set (generators m))" by (simp add: r)
  show "same_slots m ?r" by (rule same_slots_unqueued) (simp_all add: r)
  have "base_ok k ?r"
    using assms(2) unfolding motion_ok_def base_ok_def set r(4) by auto
  moreover have "states_ok k ?r"
    unfolding states_ok_def set r(3)
  proof
    fix h
    have old: "unitState m AND ?st h = (if ?st h \<in> ?st ` set (generators m) then ?st h else 0)"
      using assms(2) by (simp add: motion_ok_def states_ok_def)
    consider "?st h = ?st g" | "?st h \<noteq> ?st g" "?st g AND ?st h = 0"
      using assms(1) unfolding disjoint_states_def by metis
    then show "(unitState m OR ?st g) AND ?st h = (if ?st h \<in> ?st ` insert g (set (generators m)) then ?st h else 0)"
      using old by cases (auto simp: bit.conj_disj_distrib2 split: if_splits)
  qed
  moreover have "descending k (generators ?r)" unfolding r(2) by (rule descending_emplace [OF k d assms(3)])
  ultimately show "motion_ok k ?r" using k by (simp add: motion_ok_def r(1))
qed

section \<open>Every operation on the map\<close>

text \<open>A motion master that is initialised and not updating.\<close>

definition motion_ready :: "gen_kind \<Rightarrow> motion_master \<Rightarrow> bool" where
  "motion_ready k m \<longleftrightarrow> motion_ok k m \<and> \<not> updating m \<and> defaultGenerator m \<noteq> None"

definition slots_of :: "gen_kind \<Rightarrow> motion_master \<Rightarrow> nat \<times> (u8 \<Rightarrow> nat option)" where
  "slots_of k m = (the (defaultGenerator m), at_prio k (generators m))"

lemma ready_same:
  assumes "motion_ready k m" and "motion_ok k m'" and "same_slots m m'"
  shows "motion_ready k m'" and "defaultGenerator m' = defaultGenerator m"
  using assms by (simp_all add: motion_ready_def same_slots_def updating_def mm_HasFlag_def)

text \<open>What holds of the outcome of an operation.\<close>

definition becomes :: "gen_kind \<Rightarrow> motion_master \<Rightarrow> motion_master option \<Rightarrow> nat \<times> (u8 \<Rightarrow> nat option) \<Rightarrow> bool" where
  "becomes k m r v \<longleftrightarrow> (\<exists>m'. r = Some m' \<and> motion_ready k m' \<and> slots_of k m' = v \<and> delayedActions m' = delayedActions m)"

lemma becomes_self: "motion_ready k m \<Longrightarrow> slots_of k m = v \<Longrightarrow> becomes k m (Some m) v"
  by (simp add: becomes_def)

lemma becomes_same:
  assumes "motion_ready k m" and "motion_ok k m'" and "same_slots m m'" and "at_prio k (generators m') = M"
  shows "becomes k m (Some m') (the (defaultGenerator m), M)"
  using ready_same [OF assms(1-3)] assms(1,3,4) by (simp add: becomes_def slots_of_def same_slots_def motion_ready_def)

lemma add_active:
  assumes "calm_class cl" and "disjoint_states k" and "motion_ready k m"
  shows "becomes k m (DirectAdd cl g MOTION_SLOT_ACTIVE m)
     (the (defaultGenerator m), (at_prio k (generators m))(prio k g \<mapsto> g))"
proof -
  have ok: "motion_ok k m" and d: "defaultGenerator m \<noteq> None" using assms(3) by (simp_all add: motion_ready_def)
  obtain m1 where m1: "make_room cl g m = Some m1" "motion_ok k m1"
      "set (generators m1) = {x \<in> set (generators m). prio k x \<noteq> prio k g}" "same_slots m m1"
    using make_room_ok [OF assms(1,2) ok d] by blast
  have "\<forall>x \<in> set (generators m1). prio k x \<noteq> prio k g" using m1(3) by simp
  note p = put_in [OF assms(2) m1(2) this]
  have desc: "descending k (generators m)" "descending k (generators (AddBaseUnitState g (emplace_generator g m1)))"
    using ok p(1) by (simp_all add: motion_ok_def)
  have run: "DirectAdd cl g MOTION_SLOT_ACTIVE m = Some (AddBaseUnitState g (emplace_generator g m1))"
    using m1(1) by (simp add: DirectAdd_def slot_defs)
  show ?thesis unfolding run
    by (rule becomes_same [OF assms(3) p(1) same_slots_trans [OF m1(4) p(3)] at_prio_updated(1) [OF desc]])
      (use p(2) m1(3) in simp)
qed

lemma found_removed:
  assumes "calm_class cl" and "disjoint_states k" and "motion_ready k m"
    and "found \<in> Some ` set (generators m) \<or> found = None"
  shows "becomes k m (remove_found cl found m) (the (defaultGenerator m),
     case found of None \<Rightarrow> at_prio k (generators m) | Some x \<Rightarrow> (at_prio k (generators m))(prio k x := None))"
proof (cases found)
  case None
  then show ?thesis using assms(3) by (simp add: remove_found_def becomes_def slots_of_def)
next
  case (Some x)
  have ok: "motion_ok k m" using assms(3) by (simp add: motion_ready_def)
  have x: "x \<in> set (generators m)" using assms(4) Some by auto
  obtain m' where m': "Delete cl x (GetCurrentMovementGenerator m = Some x) False (erase_key x m) = Some m'"
      "motion_ok k m'" "set (generators m') = set (generators m) - {x}" "same_slots m m'"
    using take_out(1) [OF assms(1,2) ok x] by blast
  have d: "descending k (generators m)" "descending k (generators m')" using ok m'(2) by (simp_all add: motion_ok_def)
  have "{y \<in> set (generators m). prio k y \<noteq> prio k x} = set (generators m) - {x}"
  proof -
    have "prio k y = prio k x \<longleftrightarrow> y = x" if "y \<in> set (generators m)" for y
      using descending_inj [OF d(1) that x] by metis
    then show ?thesis by blast
  qed
  then have "at_prio k (generators m') = (at_prio k (generators m))(prio k x := None)"
    using at_prio_updated(2) [OF d, of "prio k x"] m'(3) by simp
  from becomes_same [OF assms(3) m'(2,4) this] show ?thesis
    using Some m'(1) by (simp add: remove_found_def)
qed

lemma default_replaced:
  assumes "calm_class cl" and "motion_ready k m"
  shows "becomes k m (DirectClearDefault cl m) (idle_generator, at_prio k (generators m))"
    and "becomes k m (DirectAdd cl g MOTION_SLOT_DEFAULT m) (g, at_prio k (generators m))"
proof -
  obtain d where d: "defaultGenerator m = Some d" using assms(2) by (auto simp: motion_ready_def)
  have ok: "motion_ok k m" using assms(2) by (simp add: motion_ready_def)
  let ?e = "generators m = []"
  have "calm (gen_Finalize cl d ?e False)" using assms(1) by (simp add: calm_class_def)
  from calm_call [OF this ok, of "CalledFinalize d ?e False"] obtain m1 where m1:
      "call_Finalize cl d ?e False m = Some m1" "motion_ok k m1" "generators m1 = generators m" "same_slots m m1"
    by (auto simp: call_Finalize_def)
  have upd: "motion_ready k (mm_AddFlag MOTIONMASTER_FLAG_STATIC_INITIALIZATION_PENDING (set_default h m1))"
    "motion_ready k (set_default h m1)" "generators (set_default h m1) = generators m"
    "defaultGenerator (set_default h m1) = Some h" "delayedActions (set_default h m1) = delayedActions m" for h
  proof -
    have d1: "defaultGenerator m1 = Some d" and flags: "mm_flags m1 = mm_flags m" "delayedActions m1 = delayedActions m"
      using m1(4) d assms(2) by (simp_all add: same_slots_def motion_ready_def)
    have parts: "gens (set_default h m1) = gens m1" "generators (set_default h m1) = generators m1"
      "baseUnitStatesMap (set_default h m1) = baseUnitStatesMap m1" "unitState (set_default h m1) = unitState m1"
      "mm_flags (set_default h m1) = mm_flags m" "defaultGenerator (set_default h m1) = Some h"
      "delayedActions (set_default h m1) = delayedActions m"
      using flags by (simp_all add: set_default_def d1 delete_generator_def motion_record_def)
    have "motion_ok k (set_default h m1)"
      by (rule motion_ok_cong [OF m1(2)]) (use m1(2) parts in \<open>simp_all add: motion_ok_def\<close>)
    then show "motion_ready k (set_default h m1)" "generators (set_default h m1) = generators m"
      "defaultGenerator (set_default h m1) = Some h" "delayedActions (set_default h m1) = delayedActions m"
      using assms(2) parts m1(3) by (simp_all add: motion_ready_def updating_def mm_HasFlag_def)
    then show "motion_ready k (mm_AddFlag MOTIONMASTER_FLAG_STATIC_INITIALIZATION_PENDING (set_default h m1))"
      using motion_ok_cong [of k "set_default h m1" "mm_AddFlag MOTIONMASTER_FLAG_STATIC_INITIALIZATION_PENDING (set_default h m1)"]
      by (simp add: motion_ready_def mm_AddFlag_def updating_def mm_HasFlag_def has_flag_def motion_ok_def
          MOTIONMASTER_FLAG_UPDATE_def MOTIONMASTER_FLAG_STATIC_INITIALIZATION_PENDING_def bit.conj_disj_distrib2)
  qed
  have sl: "slots_of k (mm_AddFlag MOTIONMASTER_FLAG_STATIC_INITIALIZATION_PENDING (set_default h m1)) = (h, at_prio k (generators m))"
    "slots_of k (set_default h m1) = (h, at_prio k (generators m))" for h
    using upd(3,4) by (simp_all add: slots_of_def mm_AddFlag_def)
  show "becomes k m (DirectClearDefault cl m) (idle_generator, at_prio k (generators m))"
    using d m1(1) upd(1,5) sl(1) by (simp add: DirectClearDefault_def DeleteDefault_def becomes_def mm_AddFlag_def)
  show "becomes k m (DirectAdd cl g MOTION_SLOT_DEFAULT m) (g, at_prio k (generators m))"
    using d m1(1) upd(1,2,5) sl by (auto simp: DirectAdd_def becomes_def Let_def mm_AddFlag_def)
qed

lemma Pop_ok:
  assumes "calm_class cl" and "disjoint_states k" and "motion_ok k m" and "generators m \<noteq> []"
  shows "\<exists>m'. Pop cl a i m = Some m' \<and> motion_ok k m' \<and> card (set (generators m')) < card (set (generators m)) \<and>
     same_slots m m'"
proof -
  obtain g xs where g: "generators m = g # xs" using assms(4) by (cases "generators m") auto
  then have "g \<in> set (generators m)" by simp
  from take_out(1) [OF assms(1-3) this, of a i] card_Diff1_less [OF _ this] g show ?thesis
    by (auto simp: Pop_def)
qed

lemma pop_all_ok:
  assumes "calm_class cl" and "disjoint_states k"
  shows "motion_ok k m \<Longrightarrow> \<exists>m'. pop_all cl m = Some m' \<and> motion_ok k m' \<and> generators m' = [] \<and> same_slots m m'"
proof (induction "card (set (generators m))" arbitrary: m rule: less_induct)
  case less
  show ?case
  proof (cases "generators m = []")
    case True
    then show ?thesis using less.prems by (simp add: pop_all.simps)
  next
    case False
    obtain v where v: "Pop cl False False m = Some v" "motion_ok k v"
        "card (set (generators v)) < card (set (generators m))" "same_slots m v"
      using Pop_ok [OF assms less.prems False] by blast
    from less.hyps [OF v(3,2)] same_slots_trans [OF v(4)] v(1) False show ?thesis
      by (auto simp: pop_all.simps [of cl m])
  qed
qed

lemma cleared:
  assumes "calm_class cl" and "disjoint_states k" and "motion_ready k m"
  shows "becomes k m (DirectClear cl m) (the (defaultGenerator m), \<lambda>p. None)"
proof -
  have ok: "motion_ok k m" using assms(3) by (simp add: motion_ready_def)
  obtain m1 where m1: "(if generators m \<noteq> [] then Pop cl True False m else Some m) = Some m1" "motion_ok k m1" "same_slots m m1"
    using Pop_ok [OF assms(1,2) ok] ok by (cases "generators m = []") fastforce+
  obtain m2 where m2: "pop_all cl m1 = Some m2" "motion_ok k m2" "generators m2 = []" "same_slots m1 m2"
    using pop_all_ok [OF assms(1,2) m1(2)] by blast
  have "baseUnitStatesMap m2 = []" using m2(2,3) by (auto simp: motion_ok_def base_ok_def)
  then have "ClearBaseUnitStates m2 = m2" by (simp add: ClearBaseUnitStates_def)
  then have run: "DirectClear cl m = Some m2" using m1(1) m2(1) by (simp add: DirectClear_def)
  show ?thesis unfolding run
    by (rule becomes_same [OF assms(3) m2(2) same_slots_trans [OF m1(3) m2(4)]]) (simp add: m2(3))
qed

lemma elem_after_middle: "distinct (pre @ g # suf) \<Longrightarrow> elem_after g (pre @ g # suf) = (case suf of [] \<Rightarrow> None | x # _ \<Rightarrow> Some x)"
proof -
  assume "distinct (pre @ g # suf)"
  then have "dropWhile (\<lambda>x. x \<noteq> g) (pre @ g # suf) = g # suf" by (induction pre) auto
  then show ?thesis by (simp add: elem_after_def split: list.split)
qed

lemma clear_loop_ok:
  assumes "calm_class cl" and "disjoint_states k" and "\<forall>gs g. kinds k gs \<longrightarrow> P (gs g) = Q g"
  shows "motion_ok k m \<Longrightarrow> generators m = pre @ suf \<Longrightarrow>
    \<exists>m'. clear_loop cl P cur (case suf of [] \<Rightarrow> None | x # _ \<Rightarrow> Some x) m = Some m' \<and> motion_ok k m' \<and>
      generators m' = pre @ filter (\<lambda>g. \<not> Q g) suf \<and> same_slots m m'"
proof (induction suf arbitrary: pre m)
  case Nil
  then show ?case by (simp add: clear_loop.simps)
next
  case (Cons g suf)
  have k: "kinds k (gens m)" and "descending k (pre @ g # suf)"
    using Cons.prems by (simp_all add: motion_ok_def)
  note dist = descending_distinct [OF this(2)]
  note nxt = elem_after_middle [OF dist]
  have g: "g \<in> set (generators m)" using Cons.prems(2) by simp
  show ?case
  proof (cases "Q g")
    case True
    obtain v where v: "Delete cl g (Some g = cur) False (m\<lparr>generators := remove1 g (generators m)\<rparr>) = Some v"
        "motion_ok k v" "generators v = remove1 g (generators m)" "same_slots m v"
      using take_out(2) [OF assms(1,2) Cons.prems(1) g] by blast
    have "generators v = pre @ suf" using v(3) Cons.prems(2) dist by (simp add: remove1_append)
    from Cons.IH [OF v(2) this] obtain w where w: "clear_loop cl P cur (case suf of [] \<Rightarrow> None | x # _ \<Rightarrow> Some x) v = Some w"
        "motion_ok k w" "generators w = pre @ filter (\<lambda>g. \<not> Q g) suf" "same_slots v w"
      by blast
    have "clear_loop cl P cur (Some g) m = Some w"
      using g v(1) w(1) nxt Cons.prems(2) True assms(3) k
      by (simp add: clear_loop.simps [of cl P cur "Some g"])
    then show ?thesis using w True same_slots_trans [OF v(4) w(4)] by simp
  next
    case False
    from Cons.IH [OF Cons.prems(1), of "pre @ [g]"] Cons.prems(2)
    obtain w where w: "clear_loop cl P cur (case suf of [] \<Rightarrow> None | x # _ \<Rightarrow> Some x) m = Some w"
        "motion_ok k w" "generators w = pre @ g # filter (\<lambda>g. \<not> Q g) suf" "same_slots m w"
      by auto
    have "clear_loop cl P cur (Some g) m = Some w"
      using g w(1) nxt Cons.prems(2) False assms(3) k
      by (simp add: clear_loop.simps [of cl P cur "Some g"])
    then show ?thesis using w False by simp
  qed
qed

lemma cleared_if:
  assumes "calm_class cl" and "disjoint_states k" and "motion_ready k m"
    and "\<forall>gs g. kinds k gs \<longrightarrow> P (gs g) = Q g"
  shows "becomes k m (DirectClearIf cl P m)
     (the (defaultGenerator m), at_prio k (filter (\<lambda>g. \<not> Q g) (generators m)))"
proof (cases "generators m")
  case Nil
  then show ?thesis using assms(3) by (simp add: DirectClearIf_def becomes_def slots_of_def)
next
  case (Cons g xs)
  have ok: "motion_ok k m" using assms(3) by (simp add: motion_ready_def)
  from clear_loop_ok [OF assms(1,2,4) ok, of "[]" "g # xs" "GetCurrentMovementGenerator m"]
  obtain m' where m': "clear_loop cl P (GetCurrentMovementGenerator m) (Some g) m = Some m'" "motion_ok k m'"
      "generators m' = filter (\<lambda>g. \<not> Q g) (generators m)" "same_slots m m'"
    using Cons by auto
  have run: "DirectClearIf cl P m = Some m'" using m'(1) Cons by (simp add: DirectClearIf_def)
  show ?thesis unfolding run by (rule becomes_same [OF assms(3) m'(2,4)]) (simp add: m'(3))
qed

section \<open>The specification\<close>

text \<open>
  A default generator and at most one generator at each priority. Removing by pointer takes
  out whatever stands at the priority of the generator named.
\<close>

definition holders :: "gen_kind \<Rightarrow> u8 \<Rightarrow> (u8 \<Rightarrow> nat option) \<Rightarrow> u8 set" where
  "holders k t M = {p. \<exists>g. M p = Some g \<and> type_of k g = t}"

fun motion_spec :: "gen_kind \<Rightarrow> nat \<Rightarrow> nat \<times> (u8 \<Rightarrow> nat option) \<Rightarrow> motion_action \<Rightarrow> nat \<times> (u8 \<Rightarrow> nat option)" where
  "motion_spec k sel (d, M) DELAYED_CLEAR = (d, \<lambda>p. None)"
| "motion_spec k sel (d, M) (DELAYED_CLEAR_SLOT slot) =
     (if slot = 0 then (idle_generator, M) else if slot = 1 then (d, \<lambda>p. None) else (d, M))"
| "motion_spec k sel (d, M) (DELAYED_CLEAR_MODE mode) = (d, if mode = 0 then \<lambda>p. None else M)"
| "motion_spec k sel (d, M) (DELAYED_CLEAR_PRIORITY p) = (d, M(p := None))"
| "motion_spec k sel (d, M) (DELAYED_ADD g slot) =
     (if slot = 0 then (g, M) else if slot = 1 then (d, M(prio k g \<mapsto> g)) else (d, M))"
| "motion_spec k sel (d, M) (DELAYED_REMOVE g slot) =
     (if slot = 0 then (if d = g then idle_generator else d, M)
      else if slot = 1 then (d, M(prio k g := None)) else (d, M))"
| "motion_spec k sel (d, M) (DELAYED_REMOVE_TYPE t slot) =
     (if IsInvalidMovementGeneratorType t then (d, M)
      else if slot = 0 then (if type_of k d = t then idle_generator else d, M)
      else if slot = 1 then (d, if holders k t M = {} then M else M(Max (holders k t M) := None))
      else (d, M))"
| "motion_spec k sel (d, M) DELAYED_INITIALIZE = (sel, \<lambda>p. None)"

lemma holders_at:
  assumes "descending k xs"
  shows "holders k t (at_prio k xs) = prio k ` {x \<in> set xs. type_of k x = t}"
  using at_prio_Some [OF assms] by (auto simp: holders_def)

lemma find_first_type:
  assumes "descending k xs" and "find (\<lambda>x. type_of k x = t) xs = Some x"
  shows "x \<in> set xs" and "Max (holders k t (at_prio k xs)) = prio k x" and "holders k t (at_prio k xs) \<noteq> {}"
proof -
  have x: "x \<in> set xs \<and> type_of k x = t \<and> (\<forall>y \<in> set xs. type_of k y = t \<longrightarrow> prio k y \<le> prio k x)"
    using assms by (induction xs) (auto split: if_splits intro: order.strict_implies_order)
  then show "x \<in> set xs" by simp
  show "Max (holders k t (at_prio k xs)) = prio k x"
    unfolding holders_at [OF assms(1)] using x by (intro Max_eqI) auto
  show "holders k t (at_prio k xs) \<noteq> {}" unfolding holders_at [OF assms(1)] using x by auto
qed

lemma invalid_slot [simp]: "IsInvalidMovementSlot slot \<longleftrightarrow> slot \<noteq> 0 \<and> slot \<noteq> 1"
proof -
  have "(2::u8) \<le> slot \<longleftrightarrow> \<not> slot < 2" by auto
  moreover have "slot < 2 \<longleftrightarrow> slot = 0 \<or> slot = 1"
    by (simp add: word_less_nat_alt word_unat_eq_iff) arith
  ultimately show ?thesis by (simp add: IsInvalidMovementSlot_def slot_defs)
qed

lemma resolve_becomes:
  assumes "calm_class cl" and "disjoint_states k" and "motion_ready k m"
    and "\<And>m. SelectMovementGenerator cl m = sel"
  shows "becomes k m (resolve_action cl c m) (motion_spec k sel (slots_of k m) c)"
proof -
  have nu: "\<not> updating m" and ok: "motion_ok k m" using assms(3) by (simp_all add: motion_ready_def)
  have ks: "kinds k (gens m)" and desc: "descending k (generators m)" using ok by (simp_all add: motion_ok_def)
  obtain d where d: "defaultGenerator m = Some d" using assms(3) by (auto simp: motion_ready_def)
  have ne: "\<not> mm_Empty m" by (simp add: mm_Empty_def d)
  have sl: "slots_of k m = (d, at_prio k (generators m))" by (simp add: slots_of_def d)
  note self = becomes_self [OF assms(3) sl]
  note clear = cleared [OF assms(1-3), unfolded d option.sel]
  note dflt = default_replaced [OF assms(1,3)]
  show ?thesis
  proof (cases c)
    case DELAYED_CLEAR
    then show ?thesis using clear nu ne by (simp add: mm_Clear_def sl)
  next
    case (DELAYED_CLEAR_SLOT slot)
    consider "slot = 0" | "slot = 1" | "slot \<noteq> 0" "slot \<noteq> 1" by blast
    then show ?thesis
      by cases (use DELAYED_CLEAR_SLOT clear dflt(1) self nu ne in \<open>simp_all add: mm_ClearSlot_def sl slot_defs\<close>)
  next
    case (DELAYED_CLEAR_MODE mode)
    have "becomes k m (DirectClearIf cl (\<lambda>a. Mode a = mode) m) (d, at_prio k (filter (\<lambda>g. \<not> mode = 0) (generators m)))"
      using cleared_if [OF assms(1-3), of "\<lambda>a. Mode a = mode" "\<lambda>g. mode = 0"] by (simp add: d kinds_def)
    then show ?thesis using DELAYED_CLEAR_MODE nu ne by (cases "mode = 0") (simp_all add: mm_ClearMode_def sl)
  next
    case (DELAYED_CLEAR_PRIORITY p)
    have "becomes k m (DirectClearIf cl (\<lambda>a. Priority a = p) m) (d, at_prio k (filter (\<lambda>g. \<not> prio k g = p) (generators m)))"
      using cleared_if [OF assms(1-3), of "\<lambda>a. Priority a = p" "\<lambda>g. prio k g = p"] by (simp add: d kinds_def)
    moreover have "at_prio k (filter (\<lambda>g. \<not> prio k g = p) (generators m)) = (at_prio k (generators m))(p := None)"
      by (rule at_prio_updated(2) [OF desc descending_filter [OF desc]]) auto
    ultimately show ?thesis using DELAYED_CLEAR_PRIORITY nu ne by (simp add: mm_ClearPriority_def sl)
  next
    case (DELAYED_ADD g slot)
    have rec: "becomes k m (Some (motion_record (DeletedGenerator g) m)) (d, at_prio k (generators m))"
      using becomes_same [OF assms(3) motion_ok_cong [OF ok], of "motion_record (DeletedGenerator g) m"] ks d
      by (simp add: motion_record_def same_slots_def)
    consider "slot = 0" | "slot = 1" | "slot \<noteq> 0" "slot \<noteq> 1" by blast
    then show ?thesis
      by cases (use DELAYED_ADD add_active [OF assms(1-3), of g] dflt(2) [of g] rec nu d in
          \<open>simp_all add: mm_Add_def sl slot_defs\<close>)
  next
    case (DELAYED_REMOVE g slot)
    have find: "ms_find (gens m) g (generators m) = at_prio k (generators m) (prio k g)"
      by (simp add: ms_find_def at_prio_def before_prio(2) [OF ks] eq_commute)
    have "at_prio k (generators m) (prio k g) = Some x \<Longrightarrow> x \<in> set (generators m) \<and> prio k x = prio k g" for x
      using at_prio_Some [OF desc] by simp
    then have rem: "becomes k m (remove_found cl (at_prio k (generators m) (prio k g)) m)
        (d, (at_prio k (generators m))(prio k g := None))"
      using found_removed [OF assms(1-3), of "at_prio k (generators m) (prio k g)"] d
      by (cases "at_prio k (generators m) (prio k g)") (auto simp: fun_upd_idem)
    consider "slot = 0" | "slot = 1" | "slot \<noteq> 0" "slot \<noteq> 1" by blast
    then show ?thesis
      by cases (use DELAYED_REMOVE dflt(1) rem self nu ne d find in \<open>simp_all add: mm_Remove_def sl slot_defs\<close>)
  next
    case (DELAYED_REMOVE_TYPE t slot)
    let ?f = "find (\<lambda>x. type_of k x = t) (generators m)"
    have find: "find (\<lambda>x. gen_type (gens m x) = t) (generators m) = ?f" by (simp add: kinds_simps [OF ks])
    have "becomes k m (remove_found cl ?f m) (d, if holders k t (at_prio k (generators m)) = {} then at_prio k (generators m)
        else (at_prio k (generators m))(Max (holders k t (at_prio k (generators m))) := None))"
    proof (cases ?f)
      case None
      then have "holders k t (at_prio k (generators m)) = {}"
        unfolding holders_at [OF desc] by (auto simp: find_None_iff)
      then show ?thesis using found_removed [OF assms(1-3), of None] None d by simp
    next
      case (Some x)
      note x = find_first_type [OF desc Some]
      show ?thesis using found_removed [OF assms(1-3), of "Some x"] Some x d by simp
    qed
    note rem = this
    consider "slot = 0" | "slot = 1" | "slot \<noteq> 0" "slot \<noteq> 1" by blast
    then show ?thesis
      by cases (use DELAYED_REMOVE_TYPE dflt(1) rem self nu ne d find in
          \<open>simp_all add: mm_RemoveType_def sl slot_defs kinds_simps [OF ks]\<close>)
  next
    case DELAYED_INITIALIZE
    obtain m1 where m1: "DirectClearDefault cl m = Some m1" "motion_ready k m1" "delayedActions m1 = delayedActions m" using dflt(1) by (auto simp: becomes_def)
    obtain m2 where m2: "DirectClear cl m1 = Some m2" "motion_ready k m2" "slots_of k m2 = (the (defaultGenerator m1), \<lambda>p. None)"
        "delayedActions m2 = delayedActions m"
      using cleared [OF assms(1,2) m1(2)] m1(3) by (auto simp: becomes_def)
    have "becomes k m (DirectAdd cl sel MOTION_SLOT_DEFAULT m2) (sel, \<lambda>p. None)"
      using default_replaced(2) [OF assms(1) m2(2), of sel] m2(3,4) by (simp add: slots_of_def becomes_def)
    then show ?thesis
      using DELAYED_INITIALIZE nu m1(1) m2(1,2) assms(4)
      by (simp add: mm_Initialize_def DirectInitialize_def InitializeDefault_def mm_Add_def sl slot_defs motion_ready_def)
  qed
qed

section \<open>Call sequences\<close>

definition motion_exec :: "gen_class \<Rightarrow> motion_master option \<Rightarrow> motion_action \<Rightarrow> motion_master option" where
  "motion_exec cl s c = Option.bind s (resolve_action cl c)"

definition well_made :: "gen_class \<Rightarrow> gen_kind \<Rightarrow> nat \<Rightarrow> bool" where
  "well_made cl k sel \<longleftrightarrow> calm_class cl \<and> disjoint_states k \<and> (\<forall>m. SelectMovementGenerator cl m = sel)"

definition motion_inv :: "gen_class \<Rightarrow> gen_kind \<Rightarrow> nat \<Rightarrow> motion_master option \<Rightarrow> bool" where
  "motion_inv cl k sel s \<longleftrightarrow> well_made cl k sel \<and> (\<exists>m. s = Some m \<and> motion_ready k m)"

lemma exec_becomes:
  assumes "motion_inv cl k sel s"
  shows "motion_inv cl k sel (motion_exec cl s c)"
    and "slots_of k (the (motion_exec cl s c)) = motion_spec k sel (slots_of k (the s)) c"
proof -
  obtain m where m: "s = Some m" "motion_ready k m" and w: "well_made cl k sel"
    using assms by (auto simp: motion_inv_def)
  have "becomes k m (resolve_action cl c m) (motion_spec k sel (slots_of k m) c)"
    by (rule resolve_becomes) (use w m(2) in \<open>simp_all add: well_made_def\<close>)
  then show "motion_inv cl k sel (motion_exec cl s c)"
    and "slots_of k (the (motion_exec cl s c)) = motion_spec k sel (slots_of k (the s)) c"
    using m(1) w by (auto simp: motion_inv_def motion_exec_def becomes_def)
qed

text \<open>The motion master implements the map of priorities.\<close>

interpretation motion: simulated "motion_exec cl" "\<lambda>c. True" "motion_inv cl k sel" "\<lambda>s. slots_of k (the s)"
    "motion_spec k sel"
  by unfold_locales (auto intro: exec_becomes)

lemma initialised:
  assumes "well_made cl k sel" and "kinds k gs"
  shows "\<exists>m. motion_exec cl (Some (new_MotionMaster gs)) DELAYED_INITIALIZE = Some m \<and> motion_ready k m \<and>
     slots_of k m = (sel, \<lambda>p. None) \<and> delayedActions m = []"
proof -
  have sel: "SelectMovementGenerator cl m = sel" for m using assms(1) by (simp add: well_made_def)
  show ?thesis
    using assms(2)
    by (simp add: motion_exec_def mm_Initialize_def new_MotionMaster_def updating_def mm_HasFlag_def DirectInitialize_def
        DirectClearDefault_def DirectClear_def pop_all.simps ClearBaseUnitStates_def InitializeDefault_def sel mm_Add_def
        DirectAdd_def slot_defs set_default_def Let_def mm_AddFlag_def motion_ready_def motion_ok_def base_ok_def states_ok_def
        slots_of_def has_flag_def MOTIONMASTER_FLAG_UPDATE_def MOTIONMASTER_FLAG_STATIC_INITIALIZATION_PENDING_def)
qed

lemma run_ready:
  assumes "well_made cl k sel" and "motion_ready k m"
  shows "\<exists>m'. run (motion_exec cl) (Some m) calls = Some m' \<and> motion_ready k m' \<and>
     slots_of k m' = run (motion_spec k sel) (slots_of k m) calls"
proof -
  have inv: "motion_inv cl k sel (Some m)" using assms by (simp add: motion_inv_def)
  then have "motion_inv cl k sel (run (motion_exec cl) (Some m) calls)"
    by (rule motion.run_keeps) (simp add: list_all_iff)
  moreover have "slots_of k (the (run (motion_exec cl) (Some m) calls)) = run (motion_spec k sel) (slots_of k m) calls"
    using motion.run_sim [OF inv, of calls] by (simp add: list_all_iff)
  ultimately show ?thesis by (auto simp: motion_inv_def)
qed

lemma run_initialised:
  assumes "well_made cl k sel" and "kinds k gs"
  shows "\<exists>m'. run (motion_exec cl) (Some (new_MotionMaster gs)) (DELAYED_INITIALIZE # calls) = Some m' \<and>
     motion_ready k m' \<and> slots_of k m' = run (motion_spec k sel) (sel, \<lambda>p. None) calls"
  using initialised [OF assms] run_ready [OF assms(1)] by fastforce

lemma current_at:
  assumes "descending k (g # xs)"
  shows "Max {p. at_prio k (g # xs) p \<noteq> None} = prio k g"
proof (rule Max_eqI)
  show "p \<le> prio k g" if "p \<in> {p. at_prio k (g # xs) p \<noteq> None}" for p
    using that at_prio_Some [OF assms, of p] assms by (auto simp del: at_prio_simps intro: order.strict_implies_order)
qed simp_all

text \<open>C18: \<^bold>\<open>A motion master is a map from priorities to generators, and the highest is in charge.\<close>
  Given generators of the default mode whose base states are equal or disjoint, a fixed choice of
  the default generator, and \<open>Finalize\<close> and \<open>Deactivate\<close> that leave the slots alone outside an
  update (the \<open>Finalize\<close> of timed fleeing, which may attack and so add a generator, is outside):
  from its initialisation on every sequence of calls returns and does to the slots what the
  specification does to
  a default generator and a map from priorities to generators: adding replaces the generator
  of the same priority, removing and clearing take out what they name. The current generator
  is the one of the highest priority, the default generator if there is none.\<close>

theorem motion_slots_refine:
  assumes "well_made cl k sel" and "kinds k gs"
  shows "\<exists>m. run (motion_exec cl) (Some (new_MotionMaster gs)) (DELAYED_INITIALIZE # calls) = Some m \<and>
     (case run (motion_spec k sel) (sel, \<lambda>p. None) calls of (d, M) \<Rightarrow>
        defaultGenerator m = Some d \<and> at_prio k (generators m) = M \<and>
        GetCurrentMovementGenerator m = (if \<forall>p. M p = None then Some d else M (Max {p. M p \<noteq> None})))"
proof -
  obtain m where m: "run (motion_exec cl) (Some (new_MotionMaster gs)) (DELAYED_INITIALIZE # calls) = Some m"
      "motion_ready k m" "slots_of k m = run (motion_spec k sel) (sel, \<lambda>p. None) calls"
    using run_initialised [OF assms] by blast
  have d: "descending k (generators m)" using m(2) by (simp add: motion_ready_def motion_ok_def)
  have "GetCurrentMovementGenerator m = (if \<forall>p. at_prio k (generators m) p = None then defaultGenerator m
      else at_prio k (generators m) (Max {p. at_prio k (generators m) p \<noteq> None}))"
  proof (cases "generators m")
    case Nil
    then show ?thesis by (simp add: GetCurrentMovementGenerator_def)
  next
    case (Cons g xs)
    have "Max {p. at_prio k (generators m) p \<noteq> None} = prio k g" using current_at d Cons by simp
    then show ?thesis using Cons by (auto simp: GetCurrentMovementGenerator_def)
  qed
  then show ?thesis using m by (auto simp: slots_of_def motion_ready_def split: prod.splits)
qed

text \<open>\<^bold>\<open>The unit's states follow the generators.\<close> When base states are equal or have no bit in
  common, after any calls a generator's base state is set in the unit exactly if some generator
  with that base state is among the active ones: two generators of the same state share it,
  and the last one to go clears it.\<close>

theorem motion_unit_states:
  assumes "well_made cl k sel" and "kinds k gs"
  shows "\<exists>m. run (motion_exec cl) (Some (new_MotionMaster gs)) (DELAYED_INITIALIZE # calls) = Some m \<and>
     (\<forall>g. unitState m AND state_of k g =
        (if \<exists>h \<in> set (generators m). state_of k h = state_of k g then state_of k g else 0))"
proof -
  obtain m where m: "run (motion_exec cl) (Some (new_MotionMaster gs)) (DELAYED_INITIALIZE # calls) = Some m"
      "motion_ready k m"
    using run_initialised [OF assms] by blast
  then have "states_ok k m" by (simp add: motion_ready_def motion_ok_def)
  then show ?thesis using m(1) unfolding states_ok_def by (auto simp: image_iff)
qed

text \<open>\<^bold>\<open>Removing a replaced generator removes its replacement.\<close> \<open>Remove\<close> looks a generator up by
  mode and priority, so once a second generator has taken the place of the first, a call that
  names the first takes the second out.\<close>

theorem remove_hits_replacement:
  assumes "well_made cl k sel" and "kinds k gs" and "prio k g = prio k h"
  shows "\<exists>m. run (motion_exec cl) (Some (new_MotionMaster gs))
       [DELAYED_INITIALIZE, DELAYED_ADD g MOTION_SLOT_ACTIVE, DELAYED_ADD h MOTION_SLOT_ACTIVE,
        DELAYED_REMOVE g MOTION_SLOT_ACTIVE] = Some m \<and> generators m = []"
proof -
  obtain m where m: "run (motion_exec cl) (Some (new_MotionMaster gs)) (DELAYED_INITIALIZE #
       [DELAYED_ADD g MOTION_SLOT_ACTIVE, DELAYED_ADD h MOTION_SLOT_ACTIVE, DELAYED_REMOVE g MOTION_SLOT_ACTIVE]) = Some m"
      "slots_of k m = run (motion_spec k sel) (sel, \<lambda>p. None)
       [DELAYED_ADD g MOTION_SLOT_ACTIVE, DELAYED_ADD h MOTION_SLOT_ACTIVE, DELAYED_REMOVE g MOTION_SLOT_ACTIVE]"
    using run_initialised [OF assms(1,2)] by blast
  then have "at_prio k (generators m) = (\<lambda>p. None)" using assms(3) by (auto simp: slots_of_def slot_defs)
  then have "at_prio k (generators m) p = None" for p by simp
  from this [of "prio k (hd (generators m))"] have "generators m = []" by (cases "generators m") simp_all
  then show ?thesis using m(1) by blast
qed

section \<open>A chase, a follow and a charge\<close>

definition demo_kind :: gen_kind where
  "demo_kind = \<lparr>prio = (\<lambda>g. if g = 3 then 2 else 1),
     state_of = (\<lambda>g. if g = 1 then 0x20 else if g = 2 then 0x200 else if g = 3 then 0x20000 else 0),
     type_of = (\<lambda>g. if g = 1 then 5 else if g = 2 then 14 else if g = 3 then 8 else 0)\<rparr>"

definition demo_gens :: "nat \<Rightarrow> movement_generator" where
  "demo_gens g = \<lparr>Mode = 0, Priority = prio demo_kind g, gen_Flags = 0, BaseUnitState = state_of demo_kind g,
     gen_type = type_of demo_kind g\<rparr>"

definition silent_class :: gen_class where
  "silent_class = \<lparr>gen_Initialize = (\<lambda>_. Some), gen_Finalize = (\<lambda>_ _ _. Some), gen_Reset = (\<lambda>_. Some),
     gen_Deactivate = (\<lambda>_. Some), gen_Update = (\<lambda>_ _ m. Some (True, m)), SelectMovementGenerator = (\<lambda>_. 0)\<rparr>"

lemma watched_refl: "watched m m"
  unfolding watched_def by (intro exI [of _ "gens m"] exI [of _ "motion_log m"] exI [of _ "[]"]) simp

lemma silent_well_made: "well_made silent_class demo_kind 0"
proof -
  have "calm Some" by (simp add: calm_def watched_refl)
  moreover have "disjoint_states demo_kind" by (simp add: disjoint_states_def demo_kind_def)
  ultimately show ?thesis by (simp add: well_made_def calm_class_def silent_class_def)
qed

lemma demo_kinds: "kinds demo_kind demo_gens"
  by (simp add: kinds_def demo_gens_def)

lemma demo_spec:
  "run (motion_spec demo_kind 0) (0, \<lambda>p. None) [DELAYED_ADD 1 1, DELAYED_ADD 3 1] = (0, [1 \<mapsto> 1, 2 \<mapsto> 3])"
  by (simp add: demo_kind_def)

lemma demo_slots:
  assumes "slots = [1 \<mapsto> 1, 2 \<mapsto> (3 :: nat)]"
  shows "slots \<noteq> (\<lambda>p. None)" and "{p. slots p \<noteq> None} = {1, 2 :: u8}" and "Max {p. slots p \<noteq> None} = 2"
    and "slots 2 = Some 3"
proof -
  have some: "slots 2 = Some 3" using assms by simp
  then show "slots 2 = Some 3" .
  show "slots \<noteq> (\<lambda>p. None)" using some by auto
  show dom: "{p. slots p \<noteq> None} = {1, 2}" using assms by (auto split: if_splits)
  show "Max {p. slots p \<noteq> None} = 2" unfolding dom by simp
qed

theorem motion_slots_refine_witness:
  "\<exists>m. run (motion_exec silent_class) (Some (new_MotionMaster demo_gens))
      [DELAYED_INITIALIZE, DELAYED_ADD 1 1, DELAYED_ADD 3 1] = Some m \<and> GetCurrentMovementGenerator m = Some 3"
proof -
  obtain slots :: "u8 \<rightharpoonup> nat" where slots: "slots = [1 \<mapsto> 1, 2 \<mapsto> 3]" by blast
  note demo = demo_slots [OF slots]
  have "\<not> (\<forall>p. slots p = None)" using demo(1) by blast
  then have top: "(if \<forall>p. slots p = None then Some 0 else slots (Max {p. slots p \<noteq> None})) = Some 3"
    by (simp only: demo(3,4) if_False)
  have spec: "run (motion_spec demo_kind 0) (0, \<lambda>p. None) [DELAYED_ADD 1 1, DELAYED_ADD 3 1] = (0, slots)"
    unfolding slots by (rule demo_spec)
  show ?thesis
    using motion_slots_refine [OF silent_well_made demo_kinds, of "[DELAYED_ADD 1 1, DELAYED_ADD 3 1]"]
    unfolding spec prod.case top by blast
qed

theorem motion_unit_states_witness:
  "\<exists>m. run (motion_exec silent_class) (Some (new_MotionMaster demo_gens)) [DELAYED_INITIALIZE, DELAYED_ADD 1 1, DELAYED_ADD 3 1] = Some m \<and>
     (unitState m AND 0x20000 = 0x20000 \<longleftrightarrow> 3 \<in> set (generators m))"
proof -
  have state: "state_of demo_kind h = 0x20000 \<longleftrightarrow> h = 3" for h
    by (simp add: demo_kind_def)
  then have at3: "state_of demo_kind 3 = 0x20000" by simp
  obtain m where m: "run (motion_exec silent_class) (Some (new_MotionMaster demo_gens))
      [DELAYED_INITIALIZE, DELAYED_ADD 1 1, DELAYED_ADD 3 1] = Some m"
    and all: "\<forall>g. unitState m AND state_of demo_kind g =
      (if \<exists>h\<in>set (generators m). state_of demo_kind h = state_of demo_kind g then state_of demo_kind g else 0)"
    using motion_unit_states [OF silent_well_made demo_kinds, of "[DELAYED_ADD 1 1, DELAYED_ADD 3 1]"] by blast
  have "unitState m AND 0x20000 = (if 3 \<in> set (generators m) then 0x20000 else 0)"
    using all [THEN spec, of 3] unfolding at3 state by simp
  then show ?thesis using m by (intro exI [of _ m]) (simp del: run.simps)
qed

theorem remove_hits_replacement_witness:
  "\<exists>m. run (motion_exec silent_class) (Some (new_MotionMaster demo_gens))
       [DELAYED_INITIALIZE, DELAYED_ADD 1 MOTION_SLOT_ACTIVE, DELAYED_ADD 2 MOTION_SLOT_ACTIVE,
        DELAYED_REMOVE 1 MOTION_SLOT_ACTIVE] = Some m \<and> generators m = []"
  by (rule remove_hits_replacement [OF silent_well_made demo_kinds]) (simp add: demo_kind_def)

end
