(* ===== verification/MotionUpdate.thy ===== *)
theory MotionUpdate
  imports MotionProps
begin

text \<open>
  \<open>MotionMaster::Update\<close>. Every call that arrives while it runs is queued (\<open>queued\<close>), so a
  generator whose functions only call back is \<open>watched\<close>; the assertions of the update hold
  (\<open>update_top_ok\<close>) and the queue is worked off in the order the calls came (\<open>resolve_loop_ok\<close>).
\<close>

section \<open>Calls during an update\<close>

definition valid_call :: "motion_action \<Rightarrow> bool" where
  "valid_call a = (case a of
       DELAYED_CLEAR_SLOT slot \<Rightarrow> \<not> IsInvalidMovementSlot slot
     | DELAYED_ADD g slot \<Rightarrow> \<not> IsInvalidMovementSlot slot
     | DELAYED_REMOVE g slot \<Rightarrow> \<not> IsInvalidMovementSlot slot
     | DELAYED_REMOVE_TYPE t slot \<Rightarrow> \<not> IsInvalidMovementGeneratorType t \<and> \<not> IsInvalidMovementSlot slot
     | _ \<Rightarrow> True)"

lemma queued:
  assumes "updating m"
  shows "valid_call a \<Longrightarrow> resolve_action cl a m = Some (m\<lparr>delayedActions := delayedActions m @ [a]\<rparr>)"
    and "\<not> valid_call a \<Longrightarrow> \<exists>l. resolve_action cl a m = Some (m\<lparr>motion_log := l\<rparr>)"
proof -
  have self: "\<exists>l. m = m\<lparr>motion_log := l\<rparr>" by (rule exI [of _ "motion_log m"]) simp
  show "valid_call a \<Longrightarrow> resolve_action cl a m = Some (m\<lparr>delayedActions := delayedActions m @ [a]\<rparr>)"
    using assms by (cases a) (auto simp: valid_call_def mm_Clear_def mm_ClearSlot_def mm_ClearMode_def mm_ClearPriority_def
        mm_Add_def mm_Remove_def mm_RemoveType_def mm_Initialize_def delay_action_def)
  show "\<not> valid_call a \<Longrightarrow> \<exists>l. resolve_action cl a m = Some (m\<lparr>motion_log := l\<rparr>)"
    by (cases a) (auto intro: self simp: valid_call_def mm_ClearSlot_def mm_Add_def mm_Remove_def mm_RemoveType_def
        motion_record_def)
qed

lemma call_watched:
  assumes "updating m"
  shows "\<exists>m'. resolve_action cl a m = Some m' \<and> watched m m' \<and> updating m'"
proof (cases "valid_call a")
  case True
  have "watched m (m\<lparr>delayedActions := delayedActions m @ [a]\<rparr>)"
    unfolding watched_def using assms by (intro exI [of _ "gens m"] exI [of _ "motion_log m"] exI [of _ "[a]"]) simp
  then show ?thesis using queued(1) [OF assms True] assms by (simp add: updating_def mm_HasFlag_def)
next
  case False
  obtain l where l: "resolve_action cl a m = Some (m\<lparr>motion_log := l\<rparr>)" using queued(2) [OF assms False] by blast
  have "watched m (m\<lparr>motion_log := l\<rparr>)"
    unfolding watched_def by (intro exI [of _ "gens m"] exI [of _ l] exI [of _ "[]"]) simp
  then show ?thesis using l assms by (simp add: updating_def mm_HasFlag_def)
qed

section \<open>Working off the queue\<close>

lemma resolve_loop_ok:
  assumes "well_made cl k sel"
  shows "motion_ready k m \<Longrightarrow> \<exists>m'. resolve_loop cl m = Some m' \<and> motion_ready k m' \<and> delayedActions m' = [] \<and>
     slots_of k m' = run (motion_spec k sel) (slots_of k m) (delayedActions m)"
proof (induction "delayedActions m" arbitrary: m)
  case Nil
  then show ?case by (simp add: resolve_loop.simps [of cl m])
next
  case (Cons a as)
  have "becomes k m (resolve_action cl a m) (motion_spec k sel (slots_of k m) a)"
    using resolve_becomes [OF _ _ Cons.prems] assms by (simp add: well_made_def)
  then obtain m1 where m1: "resolve_action cl a m = Some m1" "motion_ready k m1"
      "slots_of k m1 = motion_spec k sel (slots_of k m) a" "delayedActions m1 = a # as"
    using Cons.hyps(2) by (auto simp: becomes_def)
  let ?m2 = "m1\<lparr>delayedActions := as\<rparr>"
  have "motion_ready k ?m2" using m1(2) motion_ok_cong [of k m1 ?m2]
    by (simp add: motion_ready_def updating_def mm_HasFlag_def motion_ok_def)
  from Cons.hyps(1) [OF _ this] obtain m' where m': "resolve_loop cl ?m2 = Some m'" "motion_ready k m'"
      "delayedActions m' = []" "slots_of k m' = run (motion_spec k sel) (slots_of k ?m2) as"
    by auto
  have "resolve_loop cl m = resolve_loop cl ?m2"
    using m1(1,4) Cons.hyps(2) [symmetric] by (simp add: resolve_loop.simps [of cl m])
  moreover have "slots_of k ?m2 = motion_spec k sel (slots_of k m) a" using m1(3) by (simp add: slots_of_def)
  ultimately show ?case using m' Cons.hyps(2) [symmetric] by simp
qed

section \<open>The generator in charge\<close>

definition settled :: "motion_master \<Rightarrow> nat \<Rightarrow> bool" where
  "settled m g \<longleftrightarrow> \<not> has_flag (gen_Flags (gens m g))
     (MOVEMENTGENERATOR_FLAG_INITIALIZATION_PENDING OR MOVEMENTGENERATOR_FLAG_DEACTIVATED)"

text \<open>
  What the update relies on of the functions it calls, as the generators of the repository keep
  it. They may call back and change flags of any generator. \<open>Initialize\<close> takes the pending
  flag away (it may leave the generator deactivated, as distraction does); \<open>Reset\<close> takes
  the deactivation away and sets no pending flag (it may leave one, as waypoints and flights do).
  The idle generator is made without these flags and its functions set none.
\<close>

definition calls_back :: "mhook \<Rightarrow> bool" where
  "calls_back h \<longleftrightarrow> (\<forall>m. updating m \<longrightarrow> (\<exists>m'. h m = Some m' \<and> watched m m'))"

abbreviation (input) init_pending :: "motion_master \<Rightarrow> nat \<Rightarrow> bool" where
  "init_pending m g \<equiv> has_flag (gen_Flags (gens m g)) MOVEMENTGENERATOR_FLAG_INITIALIZATION_PENDING"

abbreviation (input) deactivated :: "motion_master \<Rightarrow> nat \<Rightarrow> bool" where
  "deactivated m g \<equiv> has_flag (gen_Flags (gens m g)) MOVEMENTGENERATOR_FLAG_DEACTIVATED"

definition stays_settled :: "mhook \<Rightarrow> bool" where
  "stays_settled h \<longleftrightarrow> (\<forall>m m'. h m = Some m' \<and> settled m idle_generator \<longrightarrow> settled m' idle_generator)"

definition initializes :: "nat \<Rightarrow> mhook \<Rightarrow> bool" where
  "initializes g h \<longleftrightarrow> calls_back h \<and>
     (if g = idle_generator then stays_settled h else \<forall>m m'. h m = Some m' \<longrightarrow> \<not> init_pending m' g)"

definition resets :: "nat \<Rightarrow> mhook \<Rightarrow> bool" where
  "resets g h \<longleftrightarrow> calls_back h \<and>
     (if g = idle_generator then stays_settled h
      else \<forall>m m'. h m = Some m' \<longrightarrow> \<not> deactivated m' g \<and> (init_pending m' g \<longrightarrow> init_pending m g))"

definition settling_class :: "gen_class \<Rightarrow> bool" where
  "settling_class cl \<longleftrightarrow>
     (\<forall>g. initializes g (gen_Initialize cl g) \<and> resets g (gen_Reset cl g) \<and>
          (\<forall>diff. calls_back (\<lambda>m. map_option snd (gen_Update cl g diff m))))"

lemma has_flag_or: "has_flag (a :: 'a::len word) (b OR c) \<longleftrightarrow> has_flag a b \<or> has_flag a c"
  by (auto simp: has_flag_def bit.conj_disj_distrib bit_eq_iff [of _ 0] bit_simps)

lemma has_flag_gone: "\<not> has_flag (a AND NOT b) (b :: 'a::len word)"
  by (auto simp: has_flag_def bit_eq_iff [of _ 0] bit_simps)

lemma has_flag_kept:
  assumes "b AND c = 0"
  shows "has_flag (a AND NOT b) (c :: 'a::len word) = has_flag a c"
proof -
  have "(a AND NOT b) AND c = a AND c"
    by (rule bit_eqI) (use assms in \<open>auto simp: bit_simps bit_eq_iff [of _ 0]\<close>)
  then show ?thesis by (simp add: has_flag_def)
qed

lemma settled_flags:
  "settled m g \<longleftrightarrow> \<not> has_flag (gen_Flags (gens m g)) MOVEMENTGENERATOR_FLAG_INITIALIZATION_PENDING \<and>
     \<not> has_flag (gen_Flags (gens m g)) MOVEMENTGENERATOR_FLAG_DEACTIVATED"
  by (simp add: settled_def has_flag_or)

text \<open>A step of the update: the slots stay and so does the update.\<close>

definition passes :: "gen_kind \<Rightarrow> motion_master \<Rightarrow> motion_master \<Rightarrow> bool" where
  "passes k m m' \<longleftrightarrow> motion_ok k m' \<and> generators m' = generators m \<and> defaultGenerator m' = defaultGenerator m \<and>
     updating m'"

lemma passes_trans: "passes k a b \<Longrightarrow> passes k b c \<Longrightarrow> passes k a c"
  by (simp add: passes_def)

lemma passes_refl: "motion_ok k m \<Longrightarrow> updating m \<Longrightarrow> passes k m m"
  by (simp add: passes_def)

lemma calls_back_passes:
  assumes "calls_back h" and "motion_ok k m" and "updating m"
  shows "\<exists>m'. h (motion_record c m) = Some m' \<and> passes k m m'"
proof -
  have "updating (motion_record c m)" using assms(3) by (simp add: updating_def mm_HasFlag_def motion_record_def)
  then obtain m' where h: "h (motion_record c m) = Some m'" "watched (motion_record c m) m'"
    using assms(1) unfolding calls_back_def by blast
  have "motion_ok k (motion_record c m)" using assms(2) by simp
  note w = watched_ok [OF h(2) this]
  show ?thesis using h(1) w assms(3)
    by (auto simp: passes_def same_slots_def updating_def mm_HasFlag_def motion_record_def)
qed

lemma distinct_flags: "MOTIONMASTER_FLAG_STATIC_INITIALIZATION_PENDING AND MOTIONMASTER_FLAG_UPDATE = 0"
  by (simp add: MOTIONMASTER_FLAG_UPDATE_def MOTIONMASTER_FLAG_STATIC_INITIALIZATION_PENDING_def)

lemma update_flags:
  "updating (mm_AddFlag MOTIONMASTER_FLAG_UPDATE m)"
  "\<not> updating (mm_RemoveFlag MOTIONMASTER_FLAG_UPDATE m)"
  "updating (mm_RemoveFlag MOTIONMASTER_FLAG_STATIC_INITIALIZATION_PENDING m) = updating m"
proof -
  show "updating (mm_AddFlag MOTIONMASTER_FLAG_UPDATE m)"
    by (simp add: updating_def mm_AddFlag_def mm_HasFlag_def has_flag_def MOTIONMASTER_FLAG_UPDATE_def bit.conj_disj_distrib2)
  show "\<not> updating (mm_RemoveFlag MOTIONMASTER_FLAG_UPDATE m)"
    by (simp add: updating_def mm_RemoveFlag_def mm_HasFlag_def has_flag_gone)
  show "updating (mm_RemoveFlag MOTIONMASTER_FLAG_STATIC_INITIALIZATION_PENDING m) = updating m"
    by (simp add: updating_def mm_RemoveFlag_def mm_HasFlag_def has_flag_kept [OF distinct_flags])
qed

lemma flag_ok [simp]:
  "motion_ok k (mm_AddFlag f m) = motion_ok k m" "motion_ok k (mm_RemoveFlag f m) = motion_ok k m"
  "slots_of k (mm_AddFlag f m) = slots_of k m" "slots_of k (mm_RemoveFlag f m) = slots_of k m"
  "generators (mm_AddFlag f m) = generators m" "generators (mm_RemoveFlag f m) = generators m"
  "defaultGenerator (mm_AddFlag f m) = defaultGenerator m" "defaultGenerator (mm_RemoveFlag f m) = defaultGenerator m"
  "delayedActions (mm_RemoveFlag f m) = delayedActions m" "settled (mm_AddFlag f m) g = settled m g"
  by (simp_all add: motion_ok_def base_ok_def states_ok_def mm_AddFlag_def mm_RemoveFlag_def slots_of_def settled_def)

lemma record_flags [simp]: "gens (motion_record c m) = gens m" "settled (motion_record c m) g = settled m g"
  by (simp_all add: settled_def motion_record_def)

lemma prepare_idle_ok:
  assumes "settling_class cl" and "motion_ok k m" and "updating m" and "settled m idle_generator"
  shows "\<exists>m'. prepare_top cl idle_generator m = Some m' \<and> passes k m m'"
proof (cases "mm_HasFlag MOTIONMASTER_FLAG_STATIC_INITIALIZATION_PENDING m")
  case True
  let ?m = "mm_RemoveFlag MOTIONMASTER_FLAG_STATIC_INITIALIZATION_PENDING m"
  have start: "calls_back (gen_Initialize cl idle_generator)" "stays_settled (gen_Initialize cl idle_generator)"
    using assms(1) by (auto simp: settling_class_def initializes_def)
  have pass: "passes k m ?m" using assms(2,3) update_flags(3) by (simp add: passes_def)
  obtain m1 where m1: "gen_Initialize cl idle_generator (motion_record (CalledInitialize idle_generator) ?m) = Some m1"
      "passes k ?m m1"
    using calls_back_passes [OF start(1), of k ?m] pass unfolding passes_def by blast
  have "settled (motion_record (CalledInitialize idle_generator) ?m) idle_generator"
    using assms(4) by (simp add: settled_def mm_RemoveFlag_def motion_record_def)
  then have "settled m1 idle_generator" using m1(1) start(2) unfolding stays_settled_def by blast
  then have "prepare_top cl idle_generator m = Some m1"
    using True m1(1) by (simp add: prepare_top_def call_Initialize_def IsStatic_def settled_def has_flag_or)
  then show ?thesis using passes_trans [OF pass m1(2)] by blast
next
  case False
  then have "prepare_top cl idle_generator m = Some m"
    using assms(4) by (simp add: prepare_top_def settled_def has_flag_or)
  then show ?thesis using passes_refl [OF assms(2,3)] by blast
qed

lemma prepare_top_ok:
  assumes "settling_class cl" and "motion_ok k m" and "updating m" and "settled m idle_generator"
  shows "\<exists>m'. prepare_top cl cur m = Some m' \<and> passes k m m'"
proof (cases "cur = idle_generator")
  case True
  then show ?thesis using prepare_idle_ok [OF assms] by simp
next
  case False
  have start: "calls_back (gen_Initialize cl cur)" "\<And>m m'. gen_Initialize cl cur m = Some m' \<Longrightarrow> \<not> init_pending m' cur"
    and again: "calls_back (gen_Reset cl cur)"
      "\<And>m m'. gen_Reset cl cur m = Some m' \<Longrightarrow> \<not> deactivated m' cur \<and> (init_pending m' cur \<longrightarrow> init_pending m cur)"
    using assms(1) False by (auto simp: settling_class_def initializes_def resets_def)
  obtain m1 where m1: "(if init_pending m cur then call_Initialize cl cur m else Some m) = Some m1"
      "passes k m m1" "\<not> init_pending m1 cur"
    using calls_back_passes [OF start(1) assms(2,3), of "CalledInitialize cur"] start(2) passes_refl [OF assms(2,3)]
    by (cases "init_pending m cur") (auto simp: call_Initialize_def)
  have ok1: "motion_ok k m1" "updating m1" using m1(2) by (simp_all add: passes_def)
  obtain m2 where m2: "(if deactivated m1 cur then call_Reset cl cur m1 else Some m1) = Some m2"
      "passes k m1 m2" "\<not> init_pending m2 cur" "\<not> deactivated m2 cur"
  proof (cases "deactivated m1 cur")
    case True
    obtain m2 where "gen_Reset cl cur (motion_record (CalledReset cur) m1) = Some m2" "passes k m1 m2"
      using calls_back_passes [OF again(1) ok1] by blast
    then show ?thesis using that [of m2] again(2) [of _ m2] m1(3) True by (fastforce simp: call_Reset_def)
  next
    case False
    then show ?thesis using that [of m1] m1(3) passes_refl [OF ok1] by simp
  qed
  have "prepare_top cl cur m = Some m2"
    using False m1(1) m2(1,3,4) by (simp add: prepare_top_def IsStatic_def settled_flags [unfolded settled_def])
  then show ?thesis using passes_trans [OF m1(2) m2(2)] by blast
qed

text \<open>What the update of the generator in charge leaves.\<close>

definition updated_slots :: "gen_kind \<Rightarrow> motion_master \<Rightarrow> motion_master \<Rightarrow> bool" where
  "updated_slots k m m' \<longleftrightarrow> slots_of k m' = slots_of k m \<or>
     generators m \<noteq> [] \<and>
     slots_of k m' = (the (defaultGenerator m), (at_prio k (generators m))(prio k (hd (generators m)) := None))"

lemma Pop_top:
  assumes "calm_class cl" and "disjoint_states k" and "motion_ok k m" and "generators m = g # xs"
  shows "\<exists>m'. Pop cl a i m = Some m' \<and> motion_ok k m' \<and> same_slots m m' \<and>
     at_prio k (generators m') = (at_prio k (generators m))(prio k g := None)"
proof -
  have g: "g \<in> set (generators m)" using assms(4) by simp
  obtain m' where m': "Delete cl g a i (erase_key g m) = Some m'" "motion_ok k m'"
      "set (generators m') = set (generators m) - {g}" "same_slots m m'"
    using take_out(1) [OF assms(1-3) g] by blast
  have d: "descending k (generators m)" "descending k (generators m')" using assms(3) m'(2) by (simp_all add: motion_ok_def)
  have "set (generators m') = {x \<in> set (generators m). prio k x \<noteq> prio k g}"
    using m'(3) descending_inj [OF d(1) _ g] by auto
  then have "at_prio k (generators m') = (at_prio k (generators m))(prio k g := None)"
    by (rule at_prio_updated(2) [OF d])
  then show ?thesis using m' assms(4) by (simp add: Pop_def)
qed

lemma idle_queued:
  assumes "motion_ok k m" and "updating m"
  shows "\<exists>m'. MoveIdle cl m = Some m' \<and> passes k m m'"
proof -
  have "MoveIdle cl m = resolve_action cl (DELAYED_ADD idle_generator MOTION_SLOT_DEFAULT) m" by (simp add: MoveIdle_def)
  moreover obtain m' where "resolve_action cl (DELAYED_ADD idle_generator MOTION_SLOT_DEFAULT) m = Some m'"
      "watched m m'" "updating m'"
    using call_watched [OF assms(2)] by blast
  ultimately show ?thesis using watched_ok [OF _ assms(1)] by (auto simp: passes_def same_slots_def)
qed

lemma update_top_ok:
  assumes "calm_class cl" and "settling_class cl" and "disjoint_states k" and "motion_ok k m" and "updating m"
    and "settled m idle_generator" and "defaultGenerator m \<noteq> None"
  shows "\<exists>m'. update_top cl diff m = Some m' \<and> motion_ok k m' \<and> defaultGenerator m' \<noteq> None \<and> updated_slots k m m'"
proof -
  obtain cur where cur: "GetCurrentMovementGenerator m = Some cur"
    using assms(7) by (cases "generators m") (auto simp: GetCurrentMovementGenerator_def)
  obtain m1 where m1: "prepare_top cl cur m = Some m1" "passes k m m1"
    using prepare_top_ok [OF assms(2,4-6)] by blast
  have "calls_back (\<lambda>m. map_option snd (gen_Update cl cur diff m))" using assms(2) by (simp add: settling_class_def)
  moreover have "motion_ok k m1" "updating m1" using m1(2) by (simp_all add: passes_def)
  ultimately obtain m2 where "map_option snd (gen_Update cl cur diff (motion_record (CalledUpdate cur diff) m1)) = Some m2"
      and pass: "passes k m1 m2"
    using calls_back_passes by blast
  then obtain going where m2: "call_Update cl cur diff m1 = Some (going, m2)" by (auto simp: call_Update_def)
  have p: "passes k m m2" by (rule passes_trans [OF m1(2) pass])
  then have ok: "motion_ok k m2" "updating m2" and same: "generators m2 = generators m"
    "defaultGenerator m2 = defaultGenerator m" by (simp_all add: passes_def)
  have cur2: "GetCurrentMovementGenerator m2 = Some cur" using cur same by (simp add: GetCurrentMovementGenerator_def split: list.splits)
  have kept: ?thesis if "update_top cl diff m = Some m'" "passes k m2 m'" for m'
    using that passes_trans [OF p that(2)] assms(7) by (auto simp: passes_def updated_slots_def slots_of_def)
  show ?thesis
  proof (cases going)
    case True
    then show ?thesis using kept [of m2] cur m1(1) m2 ok passes_refl by (simp add: update_top_def)
  next
    case False
    show ?thesis
    proof (cases "generators m")
      case Nil
      obtain m' where "MoveIdle cl m2 = Some m'" "passes k m2 m'" using idle_queued [OF ok] by blast
      then show ?thesis using kept [of m'] False Nil cur cur2 m1(1) m2 same
        by (simp add: update_top_def GetCurrentSlot_def slot_defs)
    next
      case (Cons g xs)
      obtain m' where "Pop cl True True m2 = Some m'" "motion_ok k m'" "same_slots m2 m'"
          "at_prio k (generators m') = (at_prio k (generators m))(prio k g := None)"
        using Pop_top [OF assms(1,3) ok(1), of g xs] Cons same by auto
      then show ?thesis using False Cons cur cur2 m1(1) m2 same assms(7)
        by (auto simp: update_top_def GetCurrentSlot_def slot_defs same_slots_def updated_slots_def slots_of_def)
    qed
  qed
qed

text \<open>C19: \<^bold>\<open>An update runs one generator, then the calls made meanwhile, in order.\<close> Given
  generators of the default mode whose base states are equal or disjoint, a fixed choice of the
  default, \<open>Finalize\<close> and \<open>Deactivate\<close> that leave the slots alone outside an update
  (\<open>well_made\<close>), an \<open>Initialize\<close> that takes the pending flag away, a \<open>Reset\<close> that takes the
  deactivation away and sets no pending flag, and an idle generator without either flag whose own
  functions set none (\<open>settling_class\<close>); otherwise all of them may call the motion master at will
  in the middle of the update. Then \<open>Update\<close> comes back with its assertions holding. The generator
  in charge has kept its place or was popped; every call made meanwhile took effect afterwards, one
  after another, and none is left over.\<close>

theorem motion_update_defers:
  assumes "well_made cl k sel" and "settling_class cl" and "motion_ready k m" and "settled m idle_generator"
  shows "\<exists>m1 m'. update_top cl diff (mm_AddFlag MOTIONMASTER_FLAG_UPDATE m) = Some m1 \<and> updated_slots k m m1 \<and>
     mm_Update cl diff m = Some m' \<and> motion_ready k m' \<and> delayedActions m' = [] \<and>
     slots_of k m' = run (motion_spec k sel) (slots_of k m1) (delayedActions m1)"
proof -
  let ?m = "mm_AddFlag MOTIONMASTER_FLAG_UPDATE m"
  have d: "defaultGenerator m \<noteq> None" and "motion_ok k ?m" using assms(3) by (simp_all add: motion_ready_def)
  then obtain m1 where m1: "update_top cl diff ?m = Some m1" "motion_ok k m1" "defaultGenerator m1 \<noteq> None"
      "updated_slots k ?m m1"
    using update_top_ok [of cl k ?m diff] assms(1,2,4) update_flags(1) by (auto simp: well_made_def)
  have "motion_ready k (mm_RemoveFlag MOTIONMASTER_FLAG_UPDATE m1)"
    using m1(2,3) update_flags(2) by (simp add: motion_ready_def)
  from resolve_loop_ok [OF assms(1) this] obtain m' where
      "resolve_loop cl (mm_RemoveFlag MOTIONMASTER_FLAG_UPDATE m1) = Some m'" "motion_ready k m'" "delayedActions m' = []"
      "slots_of k m' = run (motion_spec k sel) (slots_of k m1) (delayedActions m1)"
    by auto
  moreover have "updated_slots k m m1" using m1(4) by (simp add: updated_slots_def)
  ultimately show ?thesis using m1(1) d by (simp add: mm_Update_def mm_Empty_def)
qed

section \<open>A chase that asks for a charge and ends\<close>

text \<open>Its \<open>Initialize\<close> and \<open>Reset\<close> take away one flag each, as those of waypoints do.\<close>

definition drop_flag :: "u16 \<Rightarrow> nat \<Rightarrow> mhook" where
  "drop_flag f g m = Some (m\<lparr>gens := (gens m)(g := gens m g\<lparr>gen_Flags := gen_Flags (gens m g) AND NOT f\<rparr>)\<rparr>)"

definition asking_class :: gen_class where
  "asking_class = silent_class\<lparr>gen_Update := \<lambda>_ _ m. map_option (Pair False) (resolve_action silent_class (DELAYED_ADD 3 1) m),
     gen_Initialize := drop_flag MOVEMENTGENERATOR_FLAG_INITIALIZATION_PENDING,
     gen_Reset := drop_flag MOVEMENTGENERATOR_FLAG_DEACTIVATED\<rparr>"

definition chasing :: motion_master where
  "chasing = (new_MotionMaster demo_gens)\<lparr>defaultGenerator := Some 0, generators := [1],
     baseUnitStatesMap := [(0x20, 1)], unitState := 0x20\<rparr>"

lemma has_flag_less: "has_flag (a AND NOT b) (c :: 'a::len word) \<Longrightarrow> has_flag a c"
  by (auto simp: has_flag_def bit_eq_iff [of _ 0] bit_simps)

lemma drop_flag_calls: "calls_back (drop_flag f g)" "stays_settled (drop_flag f g)"
proof -
  have "watched m (m\<lparr>gens := (gens m)(g := gens m g\<lparr>gen_Flags := x\<rparr>)\<rparr>)" for m x
    unfolding watched_def
    by (intro exI [of _ "(gens m)(g := gens m g\<lparr>gen_Flags := x\<rparr>)"] exI [of _ "motion_log m"] exI [of _ "[]"])
      (auto simp: kinds_def)
  then show "calls_back (drop_flag f g)" by (simp add: calls_back_def drop_flag_def)
  show "stays_settled (drop_flag f g)"
    by (auto simp: stays_settled_def drop_flag_def settled_def dest: has_flag_less)
qed

lemma asking_ok: "well_made asking_class demo_kind 0" "settling_class asking_class"
proof -
  show "well_made asking_class demo_kind 0"
    using silent_well_made by (simp add: well_made_def calm_class_def asking_class_def silent_class_def)
  have "initializes g (gen_Initialize asking_class g)" "resets g (gen_Reset asking_class g)" for g
    using drop_flag_calls
    by (auto simp: asking_class_def initializes_def resets_def drop_flag_def has_flag_gone dest: has_flag_less)
  moreover have "calls_back (\<lambda>m. map_option snd (map_option (Pair False) (resolve_action silent_class (DELAYED_ADD 3 1) m)))"
    using call_watched unfolding calls_back_def by (fastforce simp del: resolve_action.simps)
  then have "calls_back (\<lambda>m. map_option snd (gen_Update asking_class g diff m))" for g diff by (simp add: asking_class_def)
  ultimately show "settling_class asking_class" by (simp add: settling_class_def)
qed

lemma chasing_ready: "motion_ready demo_kind chasing" "settled chasing idle_generator"
proof -
  have "states_ok demo_kind chasing"
    by (simp add: states_ok_def chasing_def new_MotionMaster_def demo_kind_def)
  then show "motion_ready demo_kind chasing"
    using demo_kinds by (auto simp: motion_ready_def motion_ok_def base_ok_def chasing_def new_MotionMaster_def
        updating_def mm_HasFlag_def has_flag_def demo_kind_def)
  show "settled chasing idle_generator"
    by (simp add: settled_def chasing_def new_MotionMaster_def demo_gens_def has_flag_def)
qed

lemma asked:
  "\<exists>m1. update_top asking_class 100 (mm_AddFlag MOTIONMASTER_FLAG_UPDATE chasing) = Some m1 \<and>
     slots_of demo_kind m1 = (0, \<lambda>p. None) \<and> delayedActions m1 = [DELAYED_ADD 3 1]"
  by (simp add: update_top_def GetCurrentMovementGenerator_def mm_AddFlag_def chasing_def new_MotionMaster_def prepare_top_def
      mm_HasFlag_def has_flag_def MOTIONMASTER_FLAG_UPDATE_def MOTIONMASTER_FLAG_STATIC_INITIALIZATION_PENDING_def
      demo_gens_def call_Update_def motion_record_def asking_class_def silent_class_def mm_Add_def updating_def
      delay_action_def GetCurrentSlot_def slot_defs Pop_def erase_key_def ms_erase_def gen_equiv_def gen_before_def
      Delete_def call_Finalize_def delete_generator_def IsStatic_def idle_generator_def ClearBaseUnitState_def
      demo_kind_def slots_of_def Let_def)

theorem motion_update_defers_witness:
  "\<exists>m'. mm_Update asking_class 100 chasing = Some m' \<and> delayedActions m' = [] \<and> slots_of demo_kind m' = (0, [2 \<mapsto> 3])"
proof -
  obtain m1 where m1: "update_top asking_class 100 (mm_AddFlag MOTIONMASTER_FLAG_UPDATE chasing) = Some m1"
      "slots_of demo_kind m1 = (0, \<lambda>p. None)" "delayedActions m1 = [DELAYED_ADD 3 1]"
    using asked by blast
  have "run (motion_spec demo_kind 0) (0, \<lambda>p. None) [DELAYED_ADD 3 1] = (0, [2 \<mapsto> 3])" by (simp add: demo_kind_def)
  then show ?thesis
    using motion_update_defers [OF asking_ok chasing_ready, of 100] m1 by auto
qed

end
