(* ===== verification/GroupRolls.thy ===== *)
theory GroupRolls
  imports WorldPacket "HOL-Library.Monad_Syntax"
begin

text \<open>
  The loot rolls of \<^verbatim>\<open>src/src/server/game/Groups/Group.cpp\<close>: opening rolls for the items of a
  loot, counting votes, and giving the item to the winner. A roll points to its loot, which may
  be gone (\<open>roll_loot = None\<close>); loots are objects on a heap. Players are their GUIDs; what the
  code asks of them is the record \<open>loot_env\<close>. What it does besides changing rolls and loots is
  the list \<open>loot_fx\<close>. \<open>None\<close> is an access outside a vector or through a null pointer.
\<close>

section \<open>Rolls, loots and the server\<close>

datatype roll_vote = PASS | NEED | GREED | NOT_EMITED_YET | NOT_VALID

fun vote_code :: "roll_vote \<Rightarrow> u8" where
  "vote_code PASS = 0"
| "vote_code NEED = 1"
| "vote_code GREED = 2"
| "vote_code NOT_EMITED_YET = 3"
| "vote_code NOT_VALID = 4"

definition ROLL_PASS :: u8 where "ROLL_PASS = 0"
definition ROLL_NEED :: u8 where "ROLL_NEED = 1"
definition ROLL_GREED :: u8 where "ROLL_GREED = 2"
definition MAX_ROLL_TYPE :: u8 where "MAX_ROLL_TYPE = 3"

lemmas roll_type_defs = ROLL_PASS_def ROLL_NEED_def ROLL_GREED_def MAX_ROLL_TYPE_def

record loot_item =
  li_itemid :: u32
  li_randomSuffix :: u32
  li_randomPropertyId :: u32
  li_rollWinnerGUID :: guid
  li_count :: u8
  is_looted :: bool
  is_blocked :: bool
  li_freeforall :: bool
  is_underthreshold :: bool
  follow_loot_rules :: bool

record loot =
  loot_items :: "loot_item list"
  quest_items :: "loot_item list"
  unlootedCount :: u8

record roll =
  itemGUID :: guid
  roll_itemid :: u32
  itemRandomPropId :: u32
  itemRandomSuffix :: u32
  playerVote :: "(guid, roll_vote) smap"
  totalPlayersRolling :: u8
  totalNeed :: u8
  totalGreed :: u8
  totalPass :: u8
  itemSlot :: u8
  roll_loot :: "nat option"

definition new_Roll :: "guid \<Rightarrow> loot_item \<Rightarrow> roll" where
  "new_Roll g li = \<lparr>itemGUID = g, roll_itemid = li_itemid li, itemRandomPropId = li_randomPropertyId li,
     itemRandomSuffix = li_randomSuffix li, playerVote = [], totalPlayersRolling = 0, totalNeed = 0, totalGreed = 0,
     totalPass = 0, itemSlot = 0, roll_loot = None\<rparr>"

definition roll_isValid :: "roll \<Rightarrow> bool" where
  "roll_isValid r = (roll_loot r \<noteq> None)"

datatype loot_effect =
    LootPacket guid world_packet
  | StoreNewItem guid u32 u8 u32
  | SendEquipError guid u8 u32
  | NotifyItemRemoved nat u8
  | GroupLootTimer u32

text \<open>\<open>CanStoreNewItem\<close> depends on what the player has been given before.\<close>

record loot_env =
  le_connected :: "guid \<Rightarrow> bool"
  le_in_world :: "guid \<Rightarrow> bool"
  le_session :: "guid \<Rightarrow> bool"
  le_FindMap :: "guid \<Rightarrow> nat"
  le_CanStoreNewItem :: "loot_effect list \<Rightarrow> guid \<Rightarrow> u32 \<Rightarrow> u8 \<Rightarrow> u8"
  le_urand :: "nat \<Rightarrow> u32 \<Rightarrow> u32 \<Rightarrow> u32"
  le_quality :: "u32 \<Rightarrow> u32 option"
  IsAtGroupRewardDistance :: "guid \<Rightarrow> bool"
  AllowedForPlayer :: "guid \<Rightarrow> loot_item \<Rightarrow> bool"
  le_CanUseItem :: "guid \<Rightarrow> u32 \<Rightarrow> bool"
  GetPassOnGroupLoot :: "guid \<Rightarrow> bool"

definition le_FindPlayer :: "loot_env \<Rightarrow> guid \<Rightarrow> bool" where
  "le_FindPlayer env g = (le_connected env g \<and> le_in_world env g)"

record roll_state =
  RollId :: "roll list"
  loots :: "nat \<Rightarrow> loot option"
  rs_draws :: nat
  rs_items :: guid_generator
  loot_fx :: "loot_effect list"

definition loot_effect :: "loot_effect \<Rightarrow> roll_state \<Rightarrow> roll_state" where
  "loot_effect e s = s\<lparr>loot_fx := loot_fx s @ [e]\<rparr>"

definition rs_urand :: "loot_env \<Rightarrow> u32 \<Rightarrow> u32 \<Rightarrow> roll_state \<Rightarrow> u32 \<times> roll_state" where
  "rs_urand env a b s = (le_urand env (rs_draws s) a b, s\<lparr>rs_draws := Suc (rs_draws s)\<rparr>)"

section \<open>Packets\<close>

definition SMSG_LOOT_ALL_PASSED :: u16 where "SMSG_LOOT_ALL_PASSED = 0x29E"
definition SMSG_LOOT_ROLL_WON :: u16 where "SMSG_LOOT_ROLL_WON = 0x29F"
definition SMSG_LOOT_START_ROLL :: u16 where "SMSG_LOOT_START_ROLL = 0x2A1"
definition SMSG_LOOT_ROLL :: u16 where "SMSG_LOOT_ROLL = 0x2A2"
definition SMSG_LOOT_MASTER_LIST :: u16 where "SMSG_LOOT_MASTER_LIST = 0x2A4"

text \<open>To every connected voter whose vote is as the packet wants.\<close>

definition send_to_voters :: "loot_env \<Rightarrow> (roll_vote \<Rightarrow> bool) \<Rightarrow> world_packet \<Rightarrow> roll \<Rightarrow> roll_state \<Rightarrow> roll_state" where
  "send_to_voters env P data r s =
     fold (\<lambda>(g, v) s. if le_connected env g \<and> le_session env g \<and> P v then loot_effect (LootPacket g data) s else s)
       (playerVote r) s"

definition start_roll_packet :: "u32 \<Rightarrow> roll \<Rightarrow> world_packet" where
  "start_roll_packet CountDown r =
     put_u32 CountDown (put_u32 (itemRandomPropId r) (put_u32 (itemRandomSuffix r) (put_u32 (roll_itemid r)
       (put_u32 (ucast (itemSlot r)) (put_u64 (itemGUID r) (wp_new SMSG_LOOT_START_ROLL))))))"

definition SendLootStartRoll :: "loot_env \<Rightarrow> u32 \<Rightarrow> roll \<Rightarrow> roll_state \<Rightarrow> roll_state" where
  "SendLootStartRoll env CountDown r s =
     send_to_voters env (\<lambda>v. v = NOT_EMITED_YET) (start_roll_packet CountDown r) r s"

definition SendLootStartRollToPlayer :: "loot_env \<Rightarrow> u32 \<Rightarrow> guid \<Rightarrow> roll \<Rightarrow> roll_state \<Rightarrow> roll_state" where
  "SendLootStartRollToPlayer env countDown p r s =
     (if \<not> le_session env p then s else loot_effect (LootPacket p (start_roll_packet countDown r)) s)"

definition SendLootRoll :: "loot_env \<Rightarrow> guid \<Rightarrow> guid \<Rightarrow> u8 \<Rightarrow> u8 \<Rightarrow> roll \<Rightarrow> roll_state \<Rightarrow> roll_state" where
  "SendLootRoll env sourceGuid targetGuid rollNumber rollType r s =
     send_to_voters env (\<lambda>v. v \<noteq> NOT_VALID)
       (put_u8 0 (put_u8 rollType (put_u8 rollNumber (put_u32 (itemRandomPropId r) (put_u32 (itemRandomSuffix r)
          (put_u32 (roll_itemid r) (put_u64 targetGuid (put_u32 (ucast (itemSlot r)) (put_u64 sourceGuid
            (wp_new SMSG_LOOT_ROLL)))))))))) r s"

definition roll_won_packet :: "guid \<Rightarrow> guid \<Rightarrow> u8 \<Rightarrow> u8 \<Rightarrow> roll \<Rightarrow> world_packet" where
  "roll_won_packet sourceGuid targetGuid rollNumber rollType r =
     put_u8 rollType (put_u8 rollNumber (put_u64 targetGuid (put_u32 (itemRandomPropId r) (put_u32 (itemRandomSuffix r)
       (put_u32 (roll_itemid r) (put_u32 (ucast (itemSlot r)) (put_u64 sourceGuid (wp_new SMSG_LOOT_ROLL_WON))))))))"

definition SendLootRollWon :: "loot_env \<Rightarrow> guid \<Rightarrow> guid \<Rightarrow> u8 \<Rightarrow> u8 \<Rightarrow> roll \<Rightarrow> roll_state \<Rightarrow> roll_state" where
  "SendLootRollWon env sourceGuid targetGuid rollNumber rollType r s =
     send_to_voters env (\<lambda>v. v \<noteq> NOT_VALID) (roll_won_packet sourceGuid targetGuid rollNumber rollType r) r s"

definition SendLootAllPassed :: "loot_env \<Rightarrow> roll \<Rightarrow> roll_state \<Rightarrow> roll_state" where
  "SendLootAllPassed env r s =
     send_to_voters env (\<lambda>v. v \<noteq> NOT_VALID)
       (put_u32 (itemRandomSuffix r) (put_u32 (itemRandomPropId r) (put_u32 (roll_itemid r)
          (put_u32 (ucast (itemSlot r)) (put_u64 (itemGUID r) (wp_new SMSG_LOOT_ALL_PASSED)))))) r s"

section \<open>The loot of a roll\<close>

text \<open>The item of a slot: slots behind the items are those of the quest items.\<close>

definition item_in_slot :: "nat \<Rightarrow> loot \<Rightarrow> loot_item option" where
  "item_in_slot slot l =
     (if slot \<ge> length (loot_items l)
      then (if slot - length (loot_items l) < length (quest_items l)
            then Some (quest_items l ! (slot - length (loot_items l))) else None)
      else Some (loot_items l ! slot))"

definition put_item_in_slot :: "nat \<Rightarrow> loot_item \<Rightarrow> loot \<Rightarrow> loot" where
  "put_item_in_slot slot li l =
     (if slot \<ge> length (loot_items l)
      then l\<lparr>quest_items := (quest_items l)[slot - length (loot_items l) := li]\<rparr>
      else l\<lparr>loot_items := (loot_items l)[slot := li]\<rparr>)"

definition change_item :: "roll \<Rightarrow> (loot_item \<Rightarrow> loot_item) \<Rightarrow> roll_state \<Rightarrow> roll_state option" where
  "change_item r f s = do {
     a \<leftarrow> roll_loot r;
     l \<leftarrow> loots s a;
     li \<leftarrow> item_in_slot (unat (itemSlot r)) l;
     Some (s\<lparr>loots := (loots s)(a \<mapsto> put_item_in_slot (unat (itemSlot r)) (f li) l)\<rparr>)
   }"

definition item_of_roll :: "roll \<Rightarrow> roll_state \<Rightarrow> loot_item option" where
  "item_of_roll r s = do { a \<leftarrow> roll_loot r; l \<leftarrow> loots s a; item_in_slot (unat (itemSlot r)) l }"

definition one_item_less :: "roll \<Rightarrow> roll_state \<Rightarrow> roll_state option" where
  "one_item_less r s = do {
     a \<leftarrow> roll_loot r;
     l \<leftarrow> loots s a;
     Some (s\<lparr>loots := (loots s)(a \<mapsto> l\<lparr>unlootedCount := unlootedCount l - 1\<rparr>)\<rparr>)
   }"

text \<open>The winner's item: stored if there is place, otherwise his to take out of the loot.\<close>

definition EQUIP_ERR_OK :: u8 where "EQUIP_ERR_OK = 0"

definition give_item :: "loot_env \<Rightarrow> u32 \<Rightarrow> roll \<Rightarrow> guid \<Rightarrow> roll_state \<Rightarrow> roll_state option" where
  "give_item env errorItem r player s = do {
     item \<leftarrow> item_of_roll r s;
     let msg = le_CanStoreNewItem env (loot_fx s) player (roll_itemid r) (li_count item);
     (if msg = EQUIP_ERR_OK
      then do {
        s \<leftarrow> change_item r (is_looted_update (\<lambda>_. True)) s;
        a \<leftarrow> roll_loot r;
        s \<leftarrow> one_item_less r (loot_effect (NotifyItemRemoved a (itemSlot r)) s);
        Some (loot_effect (StoreNewItem player (roll_itemid r) (li_count item) (li_randomPropertyId item)) s)
      }
      else do {
        s \<leftarrow> change_item r (\<lambda>li. li\<lparr>is_blocked := False, li_rollWinnerGUID := player\<rparr>) s;
        Some (loot_effect (SendEquipError player msg errorItem) s)
      })
   }"

section \<open>The end of a roll\<close>

text \<open>
  One pass over the votes for the voters of one kind: those who are not in the world, or not on
  the map of the loot, are taken off the total, the others draw. The first of the highest wins.
\<close>

definition may_roll :: "loot_env \<Rightarrow> nat option \<Rightarrow> guid \<Rightarrow> bool" where
  "may_roll env allowedMap g =
     (le_FindPlayer env g \<and> \<not> (allowedMap \<noteq> None \<and> Some (le_FindMap env g) \<noteq> allowedMap))"

fun roll_off :: "loot_env \<Rightarrow> nat option \<Rightarrow> roll_vote \<Rightarrow> roll \<Rightarrow> (guid \<times> roll_vote) list \<Rightarrow>
    guid \<times> u8 \<Rightarrow> u8 \<Rightarrow> roll_state \<Rightarrow> (guid \<times> u8) \<times> u8 \<times> roll_state" where
  "roll_off env m wanted r [] best left s = (best, left, s)"
| "roll_off env m wanted r ((g, v) # votes) (maxguid, maxresul) left s =
     (if v \<noteq> wanted then roll_off env m wanted r votes (maxguid, maxresul) left s
      else if \<not> may_roll env m g then roll_off env m wanted r votes (maxguid, maxresul) (left - 1) s
      else case rs_urand env 1 100 s of
        (n, s) \<Rightarrow>
          let randomN = ucast n;
              s = SendLootRoll env 0 g randomN (vote_code wanted) r s
          in roll_off env m wanted r votes (if maxresul < randomN then (g, randomN) else (maxguid, maxresul)) left s)"

definition need_phase :: "loot_env \<Rightarrow> nat option \<Rightarrow> roll \<Rightarrow> roll_state \<Rightarrow> (roll \<times> roll_state) option" where
  "need_phase env m r s =
     (if totalNeed r > 0 \<and> playerVote r \<noteq> []
      then case roll_off env m NEED r (playerVote r) (fst (hd (playerVote r)), 0) (totalNeed r) s of
        ((maxguid, maxresul), left, s) \<Rightarrow>
          let r = r\<lparr>totalNeed := left\<rparr> in
          if maxguid \<noteq> 0
          then let s = SendLootRollWon env 0 maxguid maxresul ROLL_NEED r s
               in if le_FindPlayer env maxguid \<and> le_session env maxguid
                  then map_option (Pair r) (give_item env 0 r maxguid s)
                  else Some (r, s)
          else Some (r\<lparr>totalNeed := 0\<rparr>, s)
      else Some (r, s))"

definition greed_phase :: "loot_env \<Rightarrow> nat option \<Rightarrow> roll \<Rightarrow> roll_state \<Rightarrow> (roll \<times> roll_state) option" where
  "greed_phase env m r s =
     (if totalNeed r = 0 \<and> totalGreed r > 0 \<and> playerVote r \<noteq> []
      then case roll_off env m GREED r (playerVote r) (0, 0) (totalGreed r) s of
        ((maxguid, maxresul), left, s) \<Rightarrow>
          let r = r\<lparr>totalGreed := left\<rparr> in
          if maxguid \<noteq> 0
          then let s = SendLootRollWon env 0 maxguid maxresul (vote_code GREED) r s
               in if le_connected env maxguid \<and> le_session env maxguid
                  then map_option (Pair r) (give_item env (roll_itemid r) r maxguid s)
                  else Some (r, s)
          else Some (r\<lparr>totalGreed := 0\<rparr>, s)
      else Some (r, s))"

definition erase_roll :: "nat \<Rightarrow> roll_state \<Rightarrow> roll_state" where
  "erase_roll i s = s\<lparr>RollId := take i (RollId s) @ drop (Suc i) (RollId s)\<rparr>"

definition CountTheRoll :: "loot_env \<Rightarrow> nat \<Rightarrow> nat option \<Rightarrow> roll_state \<Rightarrow> roll_state option" where
  "CountTheRoll env rollI allowedMap s =
     (if rollI \<ge> length (RollId s) then None
      else
        let r = RollId s ! rollI in
        if \<not> roll_isValid r then Some (erase_roll rollI s)
        else do {
          (r, s) \<leftarrow> need_phase env allowedMap r s;
          (r, s) \<leftarrow> greed_phase env allowedMap r s;
          s \<leftarrow> (if totalNeed r = 0 \<and> totalGreed r = 0
                then change_item r (is_blocked_update (\<lambda>_. False)) (SendLootAllPassed env r s)
                else Some s);
          Some (erase_roll rollI s)
        })"

section \<open>Votes\<close>

fun find_index :: "('a \<Rightarrow> bool) \<Rightarrow> 'a list \<Rightarrow> nat option" where
  "find_index P [] = None"
| "find_index P (x # xs) = (if P x then Some 0 else map_option Suc (find_index P xs))"

definition GetRoll :: "guid \<Rightarrow> roll_state \<Rightarrow> nat option" where
  "GetRoll g s = find_index (\<lambda>r. itemGUID r = g \<and> roll_isValid r) (RollId s)"

definition isRollLootActive :: "roll_state \<Rightarrow> bool" where
  "isRollLootActive s = (RollId s \<noteq> [])"

definition cast_vote :: "loot_env \<Rightarrow> guid \<Rightarrow> u8 \<Rightarrow> roll \<Rightarrow> roll_state \<Rightarrow> roll \<times> roll_state" where
  "cast_vote env playerGUID choice r s =
     (if choice = ROLL_PASS
      then (r\<lparr>totalPass := totalPass r + 1, playerVote := smap_put playerGUID PASS (playerVote r)\<rparr>,
            SendLootRoll env 0 playerGUID 128 128 r s)
      else if choice = ROLL_NEED
      then (r\<lparr>totalNeed := totalNeed r + 1, playerVote := smap_put playerGUID NEED (playerVote r)\<rparr>,
            SendLootRoll env 0 playerGUID 0 0 r s)
      else if choice = ROLL_GREED
      then (r\<lparr>totalGreed := totalGreed r + 1, playerVote := smap_put playerGUID GREED (playerVote r)\<rparr>,
            SendLootRoll env 0 playerGUID 128 2 r s)
      else (r, s))"

text \<open>The sum of the three counters is an \<open>int\<close>.\<close>

definition votes_cast :: "roll \<Rightarrow> nat" where
  "votes_cast r = unat (totalPass r) + unat (totalNeed r) + unat (totalGreed r)"

definition CountRollVote :: "loot_env \<Rightarrow> guid \<Rightarrow> guid \<Rightarrow> u8 \<Rightarrow> roll_state \<Rightarrow> roll_state option" where
  "CountRollVote env playerGUID Guid choice s =
     (case GetRoll Guid s of
        None \<Rightarrow> Some s
      | Some i \<Rightarrow>
          let r = RollId s ! i in
          if smap_find (playerVote r) playerGUID = None then Some s
          else do {
            a \<leftarrow> roll_loot r;
            l \<leftarrow> loots s a;
            (if loot_items l = [] then Some s
             else case cast_vote env playerGUID choice r s of
               (r, s) \<Rightarrow>
                 let s = s\<lparr>RollId := (RollId s)[i := r]\<rparr>
                 in if votes_cast r \<ge> unat (totalPlayersRolling r) then CountTheRoll env i None s else Some s)
          })"

lemma find_index_Some: "find_index P xs = Some i \<Longrightarrow> i < length xs \<and> P (xs ! i)"
  by (induction xs arbitrary: i) (auto split: if_splits)

lemma loot_effect_rolls [simp]: "RollId (loot_effect e s) = RollId s"
  by (simp add: loot_effect_def)

lemma send_rolls [simp]: "RollId (send_to_voters env P d r s) = RollId s"
proof -
  have "RollId (fold (\<lambda>(g, v) s. if le_connected env g \<and> le_session env g \<and> P v then loot_effect (LootPacket g d) s else s)
      xs s) = RollId s" for xs
    by (induction xs arbitrary: s) auto
  then show ?thesis by (simp add: send_to_voters_def)
qed

lemma change_item_rolls: "change_item r f s = Some s' \<Longrightarrow> RollId s' = RollId s"
  by (auto simp: change_item_def bind_eq_Some_conv)

lemma give_item_rolls: "give_item env e r g s = Some s' \<Longrightarrow> RollId s' = RollId s"
  by (auto simp: give_item_def one_item_less_def bind_eq_Some_conv Let_def dest!: change_item_rolls split: if_splits)

lemma roll_off_rolls: "roll_off env m v r votes best left s = (best', left', s') \<Longrightarrow> RollId s' = RollId s"
  by (induction env m v r votes best left s rule: roll_off.induct)
    (auto simp: rs_urand_def SendLootRoll_def Let_def split: if_splits)

lemma phase_rolls:
  shows "need_phase env m r s = Some (r', s') \<Longrightarrow> RollId s' = RollId s"
    and "greed_phase env m r s = Some (r', s') \<Longrightarrow> RollId s' = RollId s"
  by (auto simp: need_phase_def greed_phase_def SendLootRollWon_def Let_def
      dest!: give_item_rolls roll_off_rolls split: if_splits prod.splits)

lemma CountTheRoll_rolls:
  assumes "CountTheRoll env i m s = Some s'"
  shows "RollId s' = take i (RollId s) @ drop (Suc i) (RollId s)" and "i < length (RollId s)"
  using assms
  by (auto simp: CountTheRoll_def erase_roll_def bind_eq_Some_conv Let_def SendLootAllPassed_def
      dest!: phase_rolls change_item_rolls split: if_splits)

text \<open>\<open>EndRoll\<close> starts again from the front after each roll of the loot.\<close>

function EndRoll :: "loot_env \<Rightarrow> nat \<Rightarrow> nat option \<Rightarrow> roll_state \<Rightarrow> roll_state option" where
  "EndRoll env pLoot allowedMap s =
     (case find_index (\<lambda>r. roll_loot r = Some pLoot) (RollId s) of
        None \<Rightarrow> Some s
      | Some i \<Rightarrow>
          (case CountTheRoll env i allowedMap s of
             None \<Rightarrow> None
           | Some s' \<Rightarrow> EndRoll env pLoot allowedMap s'))"
  by pat_completeness auto
termination
  by (relation "measure (\<lambda>(_, _, _, s). length (RollId s))") (auto simp: CountTheRoll_rolls(1) dest: CountTheRoll_rolls(2))

text \<open>\<open>Loot::clear\<close>: its rolls lose it (\<open>clearReferences\<close>).\<close>

definition loot_clear :: "nat \<Rightarrow> roll_state \<Rightarrow> roll_state" where
  "loot_clear a s =
     s\<lparr>RollId := map (\<lambda>r. if roll_loot r = Some a then r\<lparr>roll_loot := None\<rparr> else r) (RollId s),
       loots := (loots s)(a := map_option (\<lambda>l. l\<lparr>loot_items := [], quest_items := [], unlootedCount := 0\<rparr>) (loots s a))\<rparr>"

section \<open>Opening rolls\<close>

text \<open>
  \<open>GroupLoot\<close> and \<open>NeedBeforeGreed\<close> go over the items and then the quest items, with one slot
  counter; they differ in who may roll, in an unknown item, and in the packets at the start.
  \<open>members\<close> are the players linked to the group, in the order of its references.
\<close>

definition enter_voter :: "loot_env \<Rightarrow> bool \<Rightarrow> guid \<Rightarrow> roll \<Rightarrow> roll" where
  "enter_voter env autopass g r =
     (let r = r\<lparr>totalPlayersRolling := totalPlayersRolling r + 1\<rparr> in
      if autopass \<and> GetPassOnGroupLoot env g
      then r\<lparr>playerVote := smap_put g PASS (playerVote r), totalPass := totalPass r + 1\<rparr>
      else r\<lparr>playerVote := smap_put g NOT_EMITED_YET (playerVote r)\<rparr>)"

definition enter_voters :: "loot_env \<Rightarrow> bool \<Rightarrow> (guid \<Rightarrow> bool) \<Rightarrow> guid list \<Rightarrow> roll \<Rightarrow> roll" where
  "enter_voters env autopass may members r =
     fold (\<lambda>g r. if le_session env g \<and> may g then enter_voter env autopass g r else r) members r"

definition new_item_guid :: "roll_state \<Rightarrow> guid \<times> roll_state" where
  "new_item_guid s =
     (case Generate HighGuid_Item (rs_items s) of
        (i, gen) \<Rightarrow> (mk_guid HighGuid_Item i, s\<lparr>rs_items := gen\<rparr>))"

definition announce_passes :: "loot_env \<Rightarrow> roll \<Rightarrow> roll_state \<Rightarrow> roll_state" where
  "announce_passes env r s =
     (if totalPass r \<noteq> 0
      then fold (\<lambda>(g, v) s. if le_connected env g \<and> le_session env g \<and> v = PASS
                             then SendLootRoll env (itemGUID r) g 128 ROLL_PASS r s else s) (playerVote r) s
      else s)"

definition announce_each :: "loot_env \<Rightarrow> roll \<Rightarrow> roll_state \<Rightarrow> roll_state" where
  "announce_each env r s =
     fold (\<lambda>(g, v) s. if le_connected env g \<and> le_session env g
                       then (if v = PASS then SendLootRoll env (itemGUID r) g 128 ROLL_PASS r s
                             else SendLootStartRollToPlayer env 60000 g r s)
                       else s) (playerVote r) s"

definition block_item :: "nat \<Rightarrow> nat \<Rightarrow> roll_state \<Rightarrow> roll_state option" where
  "block_item a slot s = do {
     l \<leftarrow> loots s a;
     li \<leftarrow> item_in_slot slot l;
     Some (s\<lparr>loots := (loots s)(a \<mapsto> put_item_in_slot slot (li\<lparr>is_blocked := True\<rparr>) l)\<rparr>)
   }"

text \<open>The roll for the item in \<open>slot\<close>, if anybody may roll.\<close>

definition open_roll :: "(roll \<Rightarrow> roll_state \<Rightarrow> roll_state) \<Rightarrow> nat \<Rightarrow> nat \<Rightarrow> roll \<Rightarrow> roll_state \<Rightarrow> roll_state option" where
  "open_roll announce a slot r s =
     (if totalPlayersRolling r > 0
      then do {
        let r = r\<lparr>roll_loot := Some a, itemSlot := word_of_nat slot\<rparr>;
        s \<leftarrow> block_item a (unat (itemSlot r)) s;
        let s = announce r s;
        Some (loot_effect (GroupLootTimer 60000) (s\<lparr>RollId := RollId s @ [r]\<rparr>))
      }
      else Some s)"

definition mark_underthreshold :: "nat \<Rightarrow> nat \<Rightarrow> roll_state \<Rightarrow> roll_state option" where
  "mark_underthreshold a slot s = do {
     l \<leftarrow> loots s a;
     li \<leftarrow> item_in_slot slot l;
     Some (s\<lparr>loots := (loots s)(a \<mapsto> put_item_in_slot slot (li\<lparr>is_underthreshold := True\<rparr>) l)\<rparr>)
   }"

definition group_loot_item ::
  "loot_env \<Rightarrow> u32 \<Rightarrow> guid list \<Rightarrow> nat \<Rightarrow> bool \<Rightarrow> nat \<Rightarrow> loot_item \<Rightarrow> roll_state \<Rightarrow> roll_state option" where
  "group_loot_item env threshold members a quest slot li s =
     (if (if quest then \<not> follow_loot_rules li else li_freeforall li) then Some s
      else case le_quality env (li_itemid li) of
        None \<Rightarrow> Some s
      | Some q \<Rightarrow>
          if quest \<or> q \<ge> threshold
          then case new_item_guid s of
            (g, s) \<Rightarrow>
              open_roll (\<lambda>r s. SendLootStartRoll env 60000 r (if quest then s else announce_passes env r s)) a slot
                (enter_voters env (\<not> quest) (\<lambda>p. IsAtGroupRewardDistance env p \<and> AllowedForPlayer env p li) members
                  (new_Roll g li)) s
          else mark_underthreshold a slot s)"

definition need_before_greed_item ::
  "loot_env \<Rightarrow> u32 \<Rightarrow> guid list \<Rightarrow> nat \<Rightarrow> bool \<Rightarrow> nat \<Rightarrow> loot_item \<Rightarrow> roll_state \<Rightarrow> roll_state option" where
  "need_before_greed_item env threshold members a quest slot li s =
     (if (if quest then \<not> follow_loot_rules li else li_freeforall li) then Some s
      else if \<not> quest \<and> le_quality env (li_itemid li) = None then None
      else if quest \<or> the (le_quality env (li_itemid li)) \<ge> threshold
      then case new_item_guid s of
        (g, s) \<Rightarrow>
          open_roll (announce_each env) a slot
            (enter_voters env (\<not> quest)
              (\<lambda>p. (quest \<or> le_CanUseItem env p (li_itemid li)) \<and> AllowedForPlayer env p li \<and> IsAtGroupRewardDistance env p)
              members (new_Roll g li)) s
      else mark_underthreshold a slot s)"

text \<open>Both loops run over the items as they were: what they change of an item is not read again.\<close>

fun loot_items_loop :: "(nat \<Rightarrow> loot_item \<Rightarrow> roll_state \<Rightarrow> roll_state option) \<Rightarrow> nat \<Rightarrow> loot_item list \<Rightarrow>
    roll_state \<Rightarrow> roll_state option" where
  "loot_items_loop f slot [] s = Some s"
| "loot_items_loop f slot (li # lis) s = Option.bind (f slot li s) (loot_items_loop f (Suc slot) lis)"

definition over_loot ::
  "(bool \<Rightarrow> nat \<Rightarrow> loot_item \<Rightarrow> roll_state \<Rightarrow> roll_state option) \<Rightarrow> nat \<Rightarrow> roll_state \<Rightarrow> roll_state option" where
  "over_loot f a s = do {
     l \<leftarrow> loots s a;
     s \<leftarrow> loot_items_loop (f False) 0 (loot_items l) s;
     loot_items_loop (f True) (length (loot_items l)) (quest_items l) s
   }"

definition GroupLoot :: "loot_env \<Rightarrow> u32 \<Rightarrow> guid list \<Rightarrow> nat \<Rightarrow> roll_state \<Rightarrow> roll_state option" where
  "GroupLoot env threshold members a = over_loot (group_loot_item env threshold members a) a"

definition NeedBeforeGreed :: "loot_env \<Rightarrow> u32 \<Rightarrow> guid list \<Rightarrow> nat \<Rightarrow> roll_state \<Rightarrow> roll_state option" where
  "NeedBeforeGreed env threshold members a = over_loot (need_before_greed_item env threshold members a) a"

definition overwrite_u8 :: "nat \<Rightarrow> u8 \<Rightarrow> world_packet \<Rightarrow> world_packet" where
  "overwrite_u8 p v data = snd (put_word p v data)"

definition master_blocks :: "loot \<Rightarrow> loot" where
  "master_blocks l =
     l\<lparr>loot_items := map (\<lambda>li. if li_freeforall li then li else li\<lparr>is_blocked := \<not> is_underthreshold li\<rparr>) (loot_items l),
       quest_items := map (\<lambda>li. if \<not> follow_loot_rules li then li else li\<lparr>is_blocked := \<not> is_underthreshold li\<rparr>) (quest_items l)\<rparr>"

definition MasterLoot :: "loot_env \<Rightarrow> nat \<Rightarrow> guid list \<Rightarrow> nat \<Rightarrow> roll_state \<Rightarrow> roll_state option" where
  "MasterLoot env members_count members a s = do {
     l \<leftarrow> loots s a;
     let s = s\<lparr>loots := (loots s)(a \<mapsto> master_blocks l)\<rparr>;
     let near = filter (\<lambda>g. le_in_world env g \<and> IsAtGroupRewardDistance env g) members;
     let data = fold put_u64 near (put_u8 (word_of_nat members_count) (wp_new SMSG_LOOT_MASTER_LIST));
     let data = overwrite_u8 0 (word_of_nat (length near)) data;
     Some (fold (\<lambda>g. loot_effect (LootPacket g data)) (filter (IsAtGroupRewardDistance env) members) s)
   }"

section \<open>Leaving a roll\<close>

text \<open>
  The part of \<open>Group::RemoveMember\<close> about rolls. The vote is erased before \<open>CountRollVote\<close> is
  called; a roll that the call erased would leave the loop with an invalid iterator.
\<close>

definition withdraw :: "guid \<Rightarrow> roll_vote \<Rightarrow> roll \<Rightarrow> roll" where
  "withdraw g v r =
     (let r = (if v = GREED then r\<lparr>totalGreed := totalGreed r - 1\<rparr>
               else if v = NEED then r\<lparr>totalNeed := totalNeed r - 1\<rparr>
               else if v = PASS then r\<lparr>totalPass := totalPass r - 1\<rparr>
               else r);
          r = (if v \<noteq> NOT_VALID then r\<lparr>totalPlayersRolling := totalPlayersRolling r - 1\<rparr> else r)
      in r\<lparr>playerVote := smap_erase g (playerVote r)\<rparr>)"

function leave_rolls_from :: "loot_env \<Rightarrow> guid \<Rightarrow> nat \<Rightarrow> roll_state \<Rightarrow> roll_state option" where
  "leave_rolls_from env g i s =
     (if i \<ge> length (RollId s) then Some s
      else
        let r = RollId s ! i in
        case smap_find (playerVote r) g of
          None \<Rightarrow> leave_rolls_from env g (Suc i) s
        | Some v \<Rightarrow>
            (case CountRollVote env g (itemGUID r) MAX_ROLL_TYPE (s\<lparr>RollId := (RollId s)[i := withdraw g v r]\<rparr>) of
               None \<Rightarrow> None
             | Some s' \<Rightarrow> if length (RollId s') \<noteq> length (RollId s) then None else leave_rolls_from env g (Suc i) s'))"
  by pat_completeness auto
termination by (relation "measure (\<lambda>(_, _, i, s). length (RollId s) - i)") auto

definition leave_rolls :: "loot_env \<Rightarrow> guid \<Rightarrow> roll_state \<Rightarrow> roll_state option" where
  "leave_rolls env g = leave_rolls_from env g 0"

end
