(* ===== verification/GroupRollsProps.thy ===== *)
theory GroupRollsProps
  imports GroupRolls
begin

text \<open>
  What holds of loot rolls: who wins and gets the item, when a vote ends a roll, what a leaving
  player does to the counters, and two defects: an item given twice, and votes counted twice.
\<close>

section \<open>What a packet leaves alone\<close>

definition stores :: "roll_state \<Rightarrow> loot_effect list" where
  "stores s = filter (\<lambda>e. case e of StoreNewItem _ _ _ _ \<Rightarrow> True | _ \<Rightarrow> False) (loot_fx s)"

text \<open>States that differ in packets, draws and rolls.\<close>

definition same_loot :: "roll_state \<Rightarrow> roll_state \<Rightarrow> bool" where
  "same_loot s s' \<longleftrightarrow> loots s' = loots s \<and> stores s' = stores s"

lemma same_loot_refl [simp]: "same_loot s s"
  by (simp add: same_loot_def)

lemma same_loot_trans: "same_loot a b \<Longrightarrow> same_loot b c \<Longrightarrow> same_loot a c"
  by (simp add: same_loot_def)

lemma send_parts [simp]:
  "loots (send_to_voters env P d r s) = loots s" "rs_draws (send_to_voters env P d r s) = rs_draws s"
  "stores (send_to_voters env P d r s) = stores s"
proof -
  let ?f = "\<lambda>(g, v) s. if le_connected env g \<and> le_session env g \<and> P v then loot_effect (LootPacket g d) s else s"
  have "loots (fold ?f xs s) = loots s \<and> rs_draws (fold ?f xs s) = rs_draws s \<and> stores (fold ?f xs s) = stores s" for xs
    by (induction xs arbitrary: s) (auto simp: loot_effect_def stores_def)
  then show "loots (send_to_voters env P d r s) = loots s" "rs_draws (send_to_voters env P d r s) = rs_draws s"
    "stores (send_to_voters env P d r s) = stores s" by (simp_all add: send_to_voters_def)
qed

lemma sends_same [simp]:
  "loots (SendLootRoll env a b n t r s) = loots s" "stores (SendLootRoll env a b n t r s) = stores s"
  "rs_draws (SendLootRoll env a b n t r s) = rs_draws s" "RollId (SendLootRoll env a b n t r s) = RollId s"
  "loots (SendLootRollWon env a b n t r s) = loots s" "stores (SendLootRollWon env a b n t r s) = stores s"
  "loots (SendLootAllPassed env r s) = loots s" "stores (SendLootAllPassed env r s) = stores s"
  by (simp_all add: SendLootRoll_def SendLootRollWon_def SendLootAllPassed_def)

lemma stores_parts [simp]:
  "stores (s\<lparr>rs_draws := k\<rparr>) = stores s" "stores (s\<lparr>loots := ls\<rparr>) = stores s" "stores (s\<lparr>RollId := rs\<rparr>) = stores s"
  by (simp_all add: stores_def)

section \<open>The draw\<close>

text \<open>The voters of one kind who draw, in the order of their GUIDs, and the best draw among them.\<close>

definition contenders :: "loot_env \<Rightarrow> nat option \<Rightarrow> roll_vote \<Rightarrow> (guid \<times> roll_vote) list \<Rightarrow> guid list" where
  "contenders env m v votes = map fst (filter (\<lambda>e. snd e = v \<and> may_roll env m (fst e)) votes)"

definition absentees :: "loot_env \<Rightarrow> nat option \<Rightarrow> roll_vote \<Rightarrow> (guid \<times> roll_vote) list \<Rightarrow> nat" where
  "absentees env m v votes = length (filter (\<lambda>e. snd e = v \<and> \<not> may_roll env m (fst e)) votes)"

definition drawn :: "loot_env \<Rightarrow> roll_state \<Rightarrow> nat \<Rightarrow> u8" where
  "drawn env s k = ucast (le_urand env (rs_draws s + k) 1 100)"

definition best_draw :: "(nat \<Rightarrow> u8) \<Rightarrow> nat \<Rightarrow> nat \<Rightarrow> bool" where
  "best_draw d n j \<longleftrightarrow> j < n \<and> (\<forall>k < n. d k \<le> d j) \<and> (\<forall>k < j. d k < d j)"

lemma roll_off_left:
  "roll_off env m v r votes best left s = (best', left', s') \<Longrightarrow>
   left' = left - word_of_nat (absentees env m v votes) \<and> same_loot s s'"
  by (induction env m v r votes best left s rule: roll_off.induct)
    (auto simp: absentees_def rs_urand_def Let_def algebra_simps same_loot_def split: if_splits)

fun best_of :: "(nat \<Rightarrow> u8) \<Rightarrow> guid \<times> u8 \<Rightarrow> guid list \<Rightarrow> guid \<times> u8" where
  "best_of d best [] = best"
| "best_of d best (c # cs) = best_of (\<lambda>k. d (Suc k)) (if snd best < d 0 then (c, d 0) else best) cs"

lemma roll_off_best:
  "roll_off env m v r votes best left s = (best', left', s') \<Longrightarrow>
   best' = best_of (drawn env s) best (contenders env m v votes)"
  by (induction env m v r votes best left s rule: roll_off.induct)
    (auto simp: contenders_def rs_urand_def Let_def drawn_def [abs_def] split: if_splits)

text \<open>The best draw so far is kept or beaten.\<close>

lemma best_of_beaten:
  "if \<exists>k < length cs. n0 < d k
   then \<exists>j. best_draw d (length cs) j \<and> best_of d (g0, n0) cs = (cs ! j, d j)
   else best_of d (g0, n0) cs = (g0, n0)"
proof (induction cs arbitrary: d g0 n0)
  case (Cons c cs)
  let ?d = "\<lambda>k. d (Suc k)" and ?b = "if n0 < d 0 then (c, d 0) else (g0, n0)"
  obtain g1 n1 where b: "?b = (g1, n1)" by fastforce
  have step: "best_of d (g0, n0) (c # cs) = best_of ?d (g1, n1) cs" by (simp add: b)
  note IH = Cons.IH [of n1 ?d g1]
  show ?case
  proof (cases "\<exists>k < length cs. n1 < ?d k")
    case True
    then obtain k where k: "k < length cs" "n1 < ?d k" by blast
    obtain j where j: "best_draw ?d (length cs) j" "best_of ?d (g1, n1) cs = (cs ! j, ?d j)" using IH True by auto
    have "n1 < ?d j" using k j(1) unfolding best_draw_def by (meson order_less_le_trans)
    then have beats: "n0 < ?d j" "d 0 < ?d j" using b by (auto split: if_splits)
    have "best_draw d (length (c # cs)) (Suc j)"
      unfolding best_draw_def
    proof (intro conjI allI impI)
      show "Suc j < length (c # cs)" using j(1) by (simp add: best_draw_def)
      show "d i \<le> d (Suc j)" if "i < length (c # cs)" for i
        using that j(1) beats(2) by (cases i) (auto simp: best_draw_def)
      show "d i < d (Suc j)" if "i < Suc j" for i
        using that j(1) beats(2) by (cases i) (auto simp: best_draw_def)
    qed
    moreover have "\<exists>k < length (c # cs). n0 < d k" using j(1) beats(1) by (intro exI [of _ "Suc j"]) (simp add: best_draw_def)
    ultimately show ?thesis using step j(2) by (auto intro: exI [of _ "Suc j"])
  next
    case False
    then have out: "best_of d (g0, n0) (c # cs) = (g1, n1)" using IH step by simp
    show ?thesis
    proof (cases "n0 < d 0")
      case True
      then have "n1 = d 0" "g1 = c" using b by auto
      then have "best_draw d (length (c # cs)) 0"
        unfolding best_draw_def using False by (auto simp: not_less less_Suc_eq_0_disj) (meson not_le)
      then show ?thesis using True out \<open>n1 = d 0\<close> \<open>g1 = c\<close> by auto
    next
      case no: False
      then have "(g1, n1) = (g0, n0)" using b by simp
      moreover have "\<not> (\<exists>k < length (c # cs). n0 < d k)"
        using no False calculation by (auto simp: less_Suc_eq_0_disj) (metis gr0I)
      ultimately show ?thesis using out by auto
    qed
  qed
qed simp

section \<open>The winner\<close>

lemma item_in_put:
  "item_in_slot slot l = Some li \<Longrightarrow> item_in_slot slot (put_item_in_slot slot x l) = Some x"
  by (auto simp: item_in_slot_def put_item_in_slot_def split: if_splits)

text \<open>The item is given to a player: into his bags, or, if they are full, for him alone to loot.\<close>

definition given :: "loot_env \<Rightarrow> roll \<Rightarrow> guid \<Rightarrow> loot_item \<Rightarrow> roll_state \<Rightarrow> roll_state \<Rightarrow> bool" where
  "given env r g li s s' \<longleftrightarrow>
     (\<exists>fx. le_CanStoreNewItem env fx g (roll_itemid r) (li_count li) = EQUIP_ERR_OK) \<and>
     stores s' = stores s @ [StoreNewItem g (roll_itemid r) (li_count li) (li_randomPropertyId li)] \<and>
     item_of_roll r s' = Some (li\<lparr>is_looted := True\<rparr>) \<or>
     (\<exists>fx. le_CanStoreNewItem env fx g (roll_itemid r) (li_count li) \<noteq> EQUIP_ERR_OK) \<and>
     (stores s' = stores s \<and> item_of_roll r s' = Some (li\<lparr>is_blocked := False, li_rollWinnerGUID := g\<rparr>))"

lemma give_item_given:
  assumes "item_of_roll r s = Some li"
  shows "\<exists>s'. give_item env e r g s = Some s' \<and> given env r g li s s'"
proof -
  obtain a l where a: "roll_loot r = Some a" "loots s a = Some l" "item_in_slot (unat (itemSlot r)) l = Some li"
    using assms by (auto simp: item_of_roll_def bind_eq_Some_conv)
  have len: "item_in_slot n (x\<lparr>unlootedCount := u\<rparr>) = item_in_slot n x" for n x u by (simp add: item_in_slot_def)
  show ?thesis
  proof (cases "le_CanStoreNewItem env (loot_fx s) g (roll_itemid r) (li_count li) = EQUIP_ERR_OK")
    case True
    then show ?thesis using a item_in_put [OF a(3)]
      by (simp add: give_item_def item_of_roll_def change_item_def one_item_less_def loot_effect_def given_def stores_def len)
        blast
  next
    case False
    then show ?thesis using a item_in_put [OF a(3)]
      by (simp add: give_item_def item_of_roll_def change_item_def loot_effect_def given_def stores_def) blast
  qed
qed

lemma item_of_roll_cong:
  "loots s' = loots s \<Longrightarrow> roll_loot r' = roll_loot r \<Longrightarrow> itemSlot r' = itemSlot r \<Longrightarrow>
   item_of_roll r' s' = item_of_roll r s"
  by (simp add: item_of_roll_def)

definition votes_of :: "roll_vote \<Rightarrow> roll \<Rightarrow> nat" where
  "votes_of v r = length (filter (\<lambda>e. snd e = v) (playerVote r))"

text \<open>The counters of a roll are those of its votes, and none of them wraps.\<close>

definition counts_ok :: "roll \<Rightarrow> bool" where
  "counts_ok r \<longleftrightarrow> length (playerVote r) < 256 \<and> unat (totalPlayersRolling r) = length (playerVote r) \<and>
     unat (totalPass r) = votes_of PASS r \<and> unat (totalNeed r) = votes_of NEED r \<and>
     unat (totalGreed r) = votes_of GREED r \<and> votes_of NOT_VALID r = 0 \<and> map_ok (playerVote r)"

lemma votes_split: "votes_of v r = length (contenders env m v (playerVote r)) + absentees env m v (playerVote r)"
proof -
  have "length (filter (\<lambda>e. snd e = v) xs) =
      length (filter (\<lambda>e. snd e = v \<and> may_roll env m (fst e)) xs) + length (filter (\<lambda>e. snd e = v \<and> \<not> may_roll env m (fst e)) xs)"
    for xs by (induction xs) auto
  then show ?thesis by (simp add: votes_of_def contenders_def absentees_def)
qed

lemma left_over:
  assumes "length (playerVote r) < 256" and "unat tot = votes_of v r"
  shows "unat (tot - word_of_nat (absentees env m v (playerVote r)) :: u8) = length (contenders env m v (playerVote r))"
proof -
  have "absentees env m v (playerVote r) < 256"
    using assms(1) votes_split [of v r env m] length_filter_le [of "\<lambda>e. snd e = v" "playerVote r"]
    by (simp add: counts_ok_def votes_of_def)
  then have "unat (word_of_nat (absentees env m v (playerVote r)) :: u8) = absentees env m v (playerVote r)"
    by (simp add: unat_of_nat)
  moreover have "absentees env m v (playerVote r) \<le> unat tot" using assms(2) votes_split [of v r env m] by simp
  ultimately show ?thesis using assms(2) votes_split [of v r env m]
    by (simp add: unat_sub word_le_nat_alt)
qed

text \<open>The draw of one kind of votes, when somebody may draw.\<close>

lemma drawn_winner:
  assumes "cs = contenders env m v (playerVote r)" and "cs \<noteq> []" and "\<forall>k < length cs. 0 < drawn env s k"
  shows "\<exists>j s1. roll_off env m v r (playerVote r) (g0, 0) tot s =
      ((cs ! j, drawn env s j), tot - word_of_nat (absentees env m v (playerVote r)), s1) \<and>
    best_draw (drawn env s) (length cs) j \<and> same_loot s s1 \<and> RollId s1 = RollId s"
proof -
  obtain best left s1 where off: "roll_off env m v r (playerVote r) (g0, 0) tot s = (best, left, s1)"
    by (metis prod_cases3)
  have "\<exists>k < length cs. 0 < drawn env s k" using assms(2,3) by (cases cs) auto
  then obtain j where "best_draw (drawn env s) (length cs) j" "best = (cs ! j, drawn env s j)"
    using best_of_beaten [of cs 0 "drawn env s" g0] roll_off_best [OF off] assms(1) by auto
  then show ?thesis using off roll_off_left [OF off] roll_off_rolls [OF off] by auto
qed

lemma given_parts [simp]:
  "given env (r\<lparr>totalNeed := x\<rparr>) = given env r" "given env (r\<lparr>totalGreed := x\<rparr>) = given env r"
  "item_of_roll (r\<lparr>totalNeed := x\<rparr>) = item_of_roll r" "item_of_roll (r\<lparr>totalGreed := x\<rparr>) = item_of_roll r"
  by (simp_all add: given_def [abs_def] item_of_roll_def [abs_def])

lemma given_from: "given env r g li s1 s' \<Longrightarrow> stores s1 = stores s \<Longrightarrow> given env r g li s s'"
  by (simp add: given_def)

text \<open>A roll whose loot still has the item, open to voters with a GUID and a session.\<close>

definition roll_ok :: "loot_env \<Rightarrow> roll \<Rightarrow> loot_item \<Rightarrow> roll_state \<Rightarrow> bool" where
  "roll_ok env r li s \<longleftrightarrow> length (playerVote r) < 256 \<and> item_of_roll r s = Some li \<and>
     (\<forall>g \<in> fst ` set (playerVote r). g \<noteq> 0 \<and> le_session env g)"

lemma contender_fits:
  assumes "roll_ok env r li s" and "g \<in> set (contenders env m v (playerVote r))"
  shows "g \<noteq> 0" and "le_session env g" and "le_FindPlayer env g" and "le_connected env g"
  using assms by (auto simp: contenders_def roll_ok_def may_roll_def le_FindPlayer_def)

lemma award_ok:
  assumes "roll_ok env r li s" and "loots s1 = loots s" and "stores s1 = stores s"
  shows "\<exists>s'. give_item env e r g s1 = Some s' \<and> given env r g li s s'"
proof -
  have "item_of_roll r s1 = Some li" using assms(1,2) by (simp add: roll_ok_def item_of_roll_def)
  then show ?thesis using give_item_given [of r s1 li env _ g] given_from assms(3) by blast
qed

lemma give_item_cong [simp]:
  "give_item env e (r\<lparr>totalNeed := x\<rparr>) = give_item env e r" "give_item env e (r\<lparr>totalGreed := x\<rparr>) = give_item env e r"
  by (simp_all add: give_item_def [abs_def] change_item_def [abs_def] one_item_less_def [abs_def] Let_def cong: if_cong)

lemma change_item_cong [simp]:
  "change_item (r\<lparr>totalNeed := x\<rparr>) = change_item r" "change_item (r\<lparr>totalGreed := x\<rparr>) = change_item r"
  by (simp_all add: change_item_def [abs_def])

lemma need_won:
  assumes "roll_ok env r li s" and "cs = contenders env m NEED (playerVote r)" and "cs \<noteq> []"
    and "\<forall>k < length cs. 0 < drawn env s k" and need: "unat (totalNeed r) = votes_of NEED r"
  shows "\<exists>j r' s'. need_phase env m r s = Some (r', s') \<and> best_draw (drawn env s) (length cs) j \<and>
     given env r (cs ! j) li s s' \<and> totalNeed r' \<noteq> 0 \<and> RollId s' = RollId s"
proof -
  have c: "length (playerVote r) < 256" using assms(1) by (simp add: roll_ok_def)
  have "votes_of NEED r > 0" using votes_split [of NEED r env m] assms(2,3) by simp
  then have pos: "totalNeed r > 0" "playerVote r \<noteq> []" using need by (auto simp: word_gt_0 votes_of_def)
  obtain j s1 where j: "roll_off env m NEED r (playerVote r) (fst (hd (playerVote r)), 0) (totalNeed r) s =
      ((cs ! j, drawn env s j), totalNeed r - word_of_nat (absentees env m NEED (playerVote r)), s1)"
      "best_draw (drawn env s) (length cs) j" "same_loot s s1" "RollId s1 = RollId s"
    using drawn_winner [OF assms(2-4)] by blast
  let ?r = "r\<lparr>totalNeed := totalNeed r - word_of_nat (absentees env m NEED (playerVote r))\<rparr>"
  let ?s2 = "SendLootRollWon env 0 (cs ! j) (drawn env s j) ROLL_NEED ?r s1"
  have "cs ! j \<in> set cs" using j(2) by (simp add: best_draw_def)
  note fits = contender_fits [OF assms(1) this [unfolded assms(2)]]
  obtain s' where s': "give_item env 0 r (cs ! j) ?s2 = Some s'" "given env r (cs ! j) li s s'"
    using award_ok [OF assms(1), of ?s2 0] j(3) by (auto simp: same_loot_def)
  have "need_phase env m r s = Some (?r, s')"
    using pos j(1) fits s'(1) assms(2) by (simp add: need_phase_def Let_def)
  moreover have "RollId s' = RollId s" using give_item_rolls [OF s'(1)] j(4) by (simp add: SendLootRollWon_def)
  moreover have "totalNeed ?r \<noteq> 0" using left_over [OF c need, of env m] assms(2,3) by auto
  ultimately show ?thesis using j(2) s'(2) by blast
qed

lemma greed_won:
  assumes "roll_ok env r li s" and "cs = contenders env m GREED (playerVote r)" and "cs \<noteq> []"
    and "\<forall>k < length cs. 0 < drawn env s k" and "totalNeed r = 0"
    and greed: "unat (totalGreed r) = votes_of GREED r"
  shows "\<exists>j r' s'. greed_phase env m r s = Some (r', s') \<and> best_draw (drawn env s) (length cs) j \<and>
     given env r (cs ! j) li s s' \<and> totalGreed r' \<noteq> 0 \<and> RollId s' = RollId s"
proof -
  have c: "length (playerVote r) < 256" using assms(1) by (simp add: roll_ok_def)
  have "votes_of GREED r > 0" using votes_split [of GREED r env m] assms(2,3) by simp
  then have pos: "totalGreed r > 0" "playerVote r \<noteq> []" using greed by (auto simp: word_gt_0 votes_of_def)
  obtain j s1 where j: "roll_off env m GREED r (playerVote r) (0, 0) (totalGreed r) s =
      ((cs ! j, drawn env s j), totalGreed r - word_of_nat (absentees env m GREED (playerVote r)), s1)"
      "best_draw (drawn env s) (length cs) j" "same_loot s s1" "RollId s1 = RollId s"
    using drawn_winner [OF assms(2-4)] by blast
  let ?r = "r\<lparr>totalGreed := totalGreed r - word_of_nat (absentees env m GREED (playerVote r))\<rparr>"
  let ?s2 = "SendLootRollWon env 0 (cs ! j) (drawn env s j) (vote_code GREED) ?r s1"
  have "cs ! j \<in> set cs" using j(2) by (simp add: best_draw_def)
  note fits = contender_fits [OF assms(1) this [unfolded assms(2)]]
  obtain s' where s': "give_item env (roll_itemid r) r (cs ! j) ?s2 = Some s'" "given env r (cs ! j) li s s'"
    using award_ok [OF assms(1), of ?s2 "roll_itemid r"] j(3) by (auto simp: same_loot_def)
  have "greed_phase env m r s = Some (?r, s')"
    using pos j(1) fits s'(1) assms(2,5) by (simp add: greed_phase_def Let_def)
  moreover have "RollId s' = RollId s" using give_item_rolls [OF s'(1)] j(4) by (simp add: SendLootRollWon_def)
  moreover have "totalGreed ?r \<noteq> 0" using left_over [OF c greed, of env m] assms(2,3) by auto
  ultimately show ?thesis using j(2) s'(2) by blast
qed

lemma erase_roll_parts [simp]:
  "stores (erase_roll i s) = stores s" "item_of_roll r (erase_roll i s) = item_of_roll r s"
  "given env r g li s (erase_roll i s') = given env r g li s s'"
  by (simp_all add: erase_roll_def item_of_roll_def given_def)

text \<open>C20: \<^bold>\<open>The highest draw wins the item.\<close> When somebody present needs the item, or nobody voted
  need and somebody present is greedy, the roll ends, and the item goes to the one with the
  highest draw among them, the first of several, and to nobody else.\<close>

theorem roll_goes_to_highest:
  assumes "i < length (RollId s)" and "r = RollId s ! i" and "roll_ok env r li s" and "counts_ok r"
    and "cs = contenders env m v (playerVote r)" and "cs \<noteq> []" and "\<forall>k < length cs. 0 < drawn env s k"
    and "v = NEED \<or> v = GREED \<and> votes_of NEED r = 0"
  shows "\<exists>j s'. CountTheRoll env i m s = Some s' \<and> best_draw (drawn env s) (length cs) j \<and>
     given env r (cs ! j) li s s' \<and> RollId s' = take i (RollId s) @ drop (Suc i) (RollId s)"
proof -
  have valid: "roll_isValid r" using assms(3) by (auto simp: roll_ok_def item_of_roll_def roll_isValid_def bind_eq_Some_conv)
  have count: "CountTheRoll env i m s = Option.bind (need_phase env m r s) (\<lambda>(r, s).
      Option.bind (greed_phase env m r s) (\<lambda>(r, s).
      Option.bind (if totalNeed r = 0 \<and> totalGreed r = 0
         then change_item r (is_blocked_update (\<lambda>_. False)) (SendLootAllPassed env r s) else Some s)
      (\<lambda>s. Some (erase_roll i s))))"
    using assms(1,2) valid by (simp add: CountTheRoll_def)
  have erased: "RollId (erase_roll i x) = take i (RollId s) @ drop (Suc i) (RollId s)" if "RollId x = RollId s" for x
    using that by (simp add: erase_roll_def)
  consider (need) "v = NEED" | (greed) "v = GREED" "votes_of NEED r = 0" using assms(8) by auto
  then show ?thesis
  proof cases
    case need
    obtain j r' s' where n: "need_phase env m r s = Some (r', s')" "best_draw (drawn env s) (length cs) j"
        "given env r (cs ! j) li s s'" "totalNeed r' \<noteq> 0" "RollId s' = RollId s"
      using need_won [OF assms(3) assms(5) [unfolded need] assms(6,7)] assms(4) unfolding counts_ok_def by blast
    have "CountTheRoll env i m s = Some (erase_roll i s')"
      unfolding count using n(1,4) by (simp add: greed_phase_def)
    then show ?thesis using n(2,3) erased [OF n(5)] by fastforce
  next
    case greed
    have zero: "totalNeed r = 0" using greed(2) assms(4) by (simp add: counts_ok_def unat_eq_zero)
    obtain j r' s' where g: "greed_phase env m r s = Some (r', s')" "best_draw (drawn env s) (length cs) j"
        "given env r (cs ! j) li s s'" "totalGreed r' \<noteq> 0" "RollId s' = RollId s"
      using greed_won [OF assms(3) assms(5) [unfolded greed] assms(6,7) zero] assms(4) unfolding counts_ok_def by blast
    have "CountTheRoll env i m s = Some (erase_roll i s')"
      unfolding count using g(1,4) zero by (simp add: need_phase_def)
    then show ?thesis using g(2,3) erased [OF g(5)] by fastforce
  qed
qed

section \<open>An item given twice\<close>

lemma roll_off_draws:
  "roll_off env m v r votes best left s = (best', left', s') \<Longrightarrow>
   rs_draws s' = rs_draws s + length (contenders env m v votes)"
  by (induction env m v r votes best left s rule: roll_off.induct)
    (auto simp: contenders_def rs_urand_def Let_def split: if_splits)

text \<open>With room in the bags, giving an item adds one \<open>StoreNewItem\<close> and no draw.\<close>

lemma give_item_stores:
  assumes "item_of_roll r s = Some li" and "\<forall>fx. le_CanStoreNewItem env fx g (roll_itemid r) (li_count li) = EQUIP_ERR_OK"
  shows "\<exists>s'. give_item env e r g s = Some s' \<and>
     stores s' = stores s @ [StoreNewItem g (roll_itemid r) (li_count li) (li_randomPropertyId li)] \<and>
     item_of_roll r s' = Some (li\<lparr>is_looted := True\<rparr>) \<and> rs_draws s' = rs_draws s"
proof -
  obtain a l where a: "roll_loot r = Some a" "loots s a = Some l" "item_in_slot (unat (itemSlot r)) l = Some li"
    using assms(1) by (auto simp: item_of_roll_def bind_eq_Some_conv)
  have len: "item_in_slot n (x\<lparr>unlootedCount := u\<rparr>) = item_in_slot n x" for n x u by (simp add: item_in_slot_def)
  show ?thesis using a assms(2) item_in_put [OF a(3)]
    by (simp add: give_item_def item_of_roll_def change_item_def one_item_less_def loot_effect_def stores_def len)
qed

text \<open>C23: \<^bold>\<open>When every player who voted need is gone, the item is given twice.\<close> The first voter,
  whatever he voted, counts as the winner of the need roll: if he is in the world he gets the item.
  Then the greed roll takes place, and if somebody present is greedy its winner gets the item too.
  (Everybody has room in his bags.)\<close>

theorem absent_needers_double_the_item:
  assumes "i < length (RollId s)" and "r = RollId s ! i" and "roll_ok env r li s" and "counts_ok r"
    and "votes_of NEED r > 0" and "contenders env m NEED (playerVote r) = []"
    and "f = fst (hd (playerVote r))" and "le_FindPlayer env f"
    and "cs = contenders env m GREED (playerVote r)" and "cs \<noteq> []" and "\<forall>k < length cs. 0 < drawn env s k"
    and "\<forall>fx g. le_CanStoreNewItem env fx g (roll_itemid r) (li_count li) = EQUIP_ERR_OK"
  shows "\<exists>j s'. CountTheRoll env i m s = Some s' \<and> j < length cs \<and>
     stores s' = stores s @ map (\<lambda>g. StoreNewItem g (roll_itemid r) (li_count li) (li_randomPropertyId li)) [f, cs ! j]"
proof -
  have c: "length (playerVote r) < 256" and li: "item_of_roll r s = Some li" using assms(3) by (simp_all add: roll_ok_def)
  have need: "unat (totalNeed r) = votes_of NEED r" and greed: "unat (totalGreed r) = votes_of GREED r"
    using assms(4) by (simp_all add: counts_ok_def)
  have valid: "roll_isValid r" using li by (auto simp: item_of_roll_def roll_isValid_def bind_eq_Some_conv)
  have pos: "totalNeed r > 0" "playerVote r \<noteq> []" using need assms(5) by (auto simp: word_gt_0 votes_of_def)
  have f: "f \<noteq> 0" "le_session env f" using assms(3,7) pos(2) by (auto simp: roll_ok_def)
  obtain best left s1 where off: "roll_off env m NEED r (playerVote r) (f, 0) (totalNeed r) s = (best, left, s1)"
    by (metis prod_cases3)
  have best: "best = (f, 0)" using roll_off_best [OF off] assms(6) by simp
  have left: "left = 0" using roll_off_left [OF off] left_over [OF c need, of env m] assms(6) by (simp add: unat_eq_zero)
  have s1: "loots s1 = loots s" "stores s1 = stores s" "rs_draws s1 = rs_draws s"
    using roll_off_left [OF off] roll_off_draws [OF off] assms(6) by (simp_all add: same_loot_def)
  let ?r = "r\<lparr>totalNeed := 0\<rparr>"
  let ?s2 = "SendLootRollWon env 0 f 0 ROLL_NEED ?r s1"
  obtain s3 where s3: "give_item env 0 r f ?s2 = Some s3"
      "stores s3 = stores s @ [StoreNewItem f (roll_itemid r) (li_count li) (li_randomPropertyId li)]"
      "item_of_roll r s3 = Some (li\<lparr>is_looted := True\<rparr>)" "rs_draws s3 = rs_draws s"
    using give_item_stores [of r ?s2 li env f 0] li s1 assms(12)
    by (auto simp: item_of_roll_def SendLootRollWon_def)
  have need_ph: "need_phase env m r s = Some (?r, s3)"
    using pos off best left f assms(7,8) s3(1) by (simp add: need_phase_def Let_def)
  have "drawn env s3 = drawn env s" using s3(4) by (simp add: drawn_def [abs_def])
  moreover have "roll_ok env ?r (li\<lparr>is_looted := True\<rparr>) s3" using assms(3) s3(3) by (simp add: roll_ok_def)
  ultimately obtain j r' s4 where g: "greed_phase env m ?r s3 = Some (r', s4)" "best_draw (drawn env s) (length cs) j"
      "given env ?r (cs ! j) (li\<lparr>is_looted := True\<rparr>) s3 s4" "totalGreed r' \<noteq> 0"
    using greed_won [of env ?r "li\<lparr>is_looted := True\<rparr>" s3 cs m] assms(9-11) greed by (auto simp: votes_of_def)
  have "CountTheRoll env i m s = Some (erase_roll i s4)"
    using assms(1,2) valid need_ph g(1,4) by (simp add: CountTheRoll_def)
  moreover have "stores s4 = stores s @ map (\<lambda>g. StoreNewItem g (roll_itemid r) (li_count li) (li_randomPropertyId li)) [f, cs ! j]"
    using g(3) assms(12) s3(2) by (auto simp: given_def)
  ultimately show ?thesis using g(2) by (auto simp: best_draw_def)
qed

section \<open>Counting votes\<close>

text \<open>The end of a valid roll always comes, whatever the votes.\<close>

lemma phases_return:
  assumes "item_of_roll r s = Some li"
  shows "\<exists>r' s' li'. need_phase env m r s = Some (r', s') \<and> item_of_roll r' s' = Some li'"
    and "\<exists>r' s' li'. greed_phase env m r s = Some (r', s') \<and> item_of_roll r' s' = Some li'"
proof -
  have give: "\<exists>s' li'. give_item env e r g s1 = Some s' \<and> item_of_roll r s' = Some li'" if "loots s1 = loots s" for e g s1
    using give_item_given [of r s1 li env _ g] that assms by (auto simp: given_def item_of_roll_def)
  have same: "item_of_roll r s1 = Some li" if "loots s1 = loots s" for s1
    using that assms by (simp add: item_of_roll_def)
  obtain g n left s1 where n: "roll_off env m NEED r (playerVote r) (fst (hd (playerVote r)), 0) (totalNeed r) s = ((g, n), left, s1)"
    by (metis surj_pair)
  obtain s2 li2 where n2: "give_item env 0 r g (SendLootRollWon env 0 g n ROLL_NEED (r\<lparr>totalNeed := left\<rparr>) s1) = Some s2"
      "item_of_roll r s2 = Some li2"
    using give [of "SendLootRollWon env 0 g n ROLL_NEED (r\<lparr>totalNeed := left\<rparr>) s1" 0 g] roll_off_left [OF n]
    by (auto simp: same_loot_def)
  show "\<exists>r' s' li'. need_phase env m r s = Some (r', s') \<and> item_of_roll r' s' = Some li'"
  proof -
    let ?s2 = "SendLootRollWon env 0 g n ROLL_NEED (r\<lparr>totalNeed := left\<rparr>) s1"
    have "need_phase env m r s \<in> {Some (r, s), Some (r\<lparr>totalNeed := left\<rparr>, s2), Some (r\<lparr>totalNeed := left\<rparr>, ?s2),
        Some (r\<lparr>totalNeed := 0\<rparr>, s1)}"
      by (simp add: need_phase_def Let_def n n2(1))
    moreover have "item_of_roll r s1 = Some li" "item_of_roll r ?s2 = Some li"
      using same roll_off_left [OF n] by (simp_all add: same_loot_def)
    ultimately show ?thesis using assms n2(2) by fastforce
  qed
  obtain g n left s1 where g: "roll_off env m GREED r (playerVote r) (0, 0) (totalGreed r) s = ((g, n), left, s1)"
    by (metis surj_pair)
  obtain s2 li2 where g2: "give_item env (roll_itemid r) r g (SendLootRollWon env 0 g n (vote_code GREED) (r\<lparr>totalGreed := left\<rparr>) s1) = Some s2"
      "item_of_roll r s2 = Some li2"
    using give [of "SendLootRollWon env 0 g n (vote_code GREED) (r\<lparr>totalGreed := left\<rparr>) s1" "roll_itemid r" g] roll_off_left [OF g]
    by (auto simp: same_loot_def)
  show "\<exists>r' s' li'. greed_phase env m r s = Some (r', s') \<and> item_of_roll r' s' = Some li'"
  proof -
    let ?s2 = "SendLootRollWon env 0 g n (vote_code GREED) (r\<lparr>totalGreed := left\<rparr>) s1"
    have "greed_phase env m r s \<in> {Some (r, s), Some (r\<lparr>totalGreed := left\<rparr>, s2), Some (r\<lparr>totalGreed := left\<rparr>, ?s2),
        Some (r\<lparr>totalGreed := 0\<rparr>, s1)}"
      by (simp add: greed_phase_def Let_def g g2(1) del: vote_code.simps)
    moreover have "item_of_roll r s1 = Some li" "item_of_roll r ?s2 = Some li"
      using same roll_off_left [OF g] by (simp_all add: same_loot_def)
    ultimately show ?thesis using assms g2(2) by fastforce
  qed
qed

lemma CountTheRoll_returns:
  assumes "i < length (RollId s)" and "item_of_roll (RollId s ! i) s = Some li"
  shows "\<exists>s'. CountTheRoll env i m s = Some s' \<and> RollId s' = take i (RollId s) @ drop (Suc i) (RollId s)"
proof -
  have valid: "roll_isValid (RollId s ! i)" using assms(2) by (auto simp: item_of_roll_def roll_isValid_def bind_eq_Some_conv)
  obtain r1 s1 li1 where n: "need_phase env m (RollId s ! i) s = Some (r1, s1)" "item_of_roll r1 s1 = Some li1"
    using phases_return(1) [OF assms(2)] by blast
  obtain r2 s2 li2 where g: "greed_phase env m r1 s1 = Some (r2, s2)" "item_of_roll r2 s2 = Some li2"
    using phases_return(2) [OF n(2)] by blast
  have "\<exists>s3. change_item r2 (is_blocked_update (\<lambda>_. False)) (SendLootAllPassed env r2 s2) = Some s3"
    using g(2) by (auto simp: change_item_def item_of_roll_def bind_eq_Some_conv)
  then have "\<exists>s'. CountTheRoll env i m s = Some s'"
    using assms(1) valid n(1) g(1) by (auto simp: CountTheRoll_def)
  then show ?thesis using CountTheRoll_rolls(1) by blast
qed

text \<open>Changing one vote moves one from one count to the other.\<close>

lemma count_put:
  "map_ok m \<Longrightarrow> smap_find m k = Some old \<Longrightarrow>
   length (filter (\<lambda>e. snd e = v) (smap_put k new m)) + of_bool (old = v) =
     length (filter (\<lambda>e. snd e = v) m) + of_bool (new = v) \<and> length (smap_put k new m) = length m"
proof (induction m)
  case (Cons e m)
  obtain a b where e: "e = (a, b)" by fastforce
  have "\<not> k < a" if "k \<noteq> a"
    using Cons.prems that by (auto simp: e map_ok_Cons smap_find_def smap_keys_def dest!: map_of_SomeD)
  then show ?case using Cons by (auto simp: e map_ok_Cons smap_find_def)
qed simp

definition voted :: "guid \<Rightarrow> roll_vote \<Rightarrow> roll \<Rightarrow> roll" where
  "voted p v r = r\<lparr>playerVote := smap_put p v (playerVote r),
     totalPass := totalPass r + of_bool (v = PASS), totalNeed := totalNeed r + of_bool (v = NEED),
     totalGreed := totalGreed r + of_bool (v = GREED)\<rparr>"

definition choice_vote :: "u8 \<Rightarrow> roll_vote" where
  "choice_vote c = (if c = 0 then PASS else if c = 1 then NEED else GREED)"

lemma choice_vote_cases: "choice_vote c \<in> {PASS, NEED, GREED}"
  by (simp add: choice_vote_def)

lemma cast_voted:
  assumes "choice < MAX_ROLL_TYPE"
  shows "\<exists>s'. cast_vote env p choice r s = (voted p (choice_vote choice) r, s') \<and> loots s' = loots s \<and> RollId s' = RollId s"
proof -
  have "unat choice < 3" using assms by (simp add: MAX_ROLL_TYPE_def word_less_nat_alt)
  then have "unat choice = 0 \<or> unat choice = 1 \<or> unat choice = 2" by arith
  then consider "choice = 0" | "choice = 1" | "choice = 2" by (auto simp: word_unat_eq_iff)
  then show ?thesis by cases (simp_all add: cast_vote_def voted_def roll_type_defs choice_vote_def)
qed

text \<open>The first vote of a player keeps the counters right.\<close>

lemma voted_counts:
  assumes "counts_ok r" and "smap_find (playerVote r) p = Some NOT_EMITED_YET" and "v \<in> {PASS, NEED, GREED}"
  shows "counts_ok (voted p v r)" and "votes_of NOT_EMITED_YET (voted p v r) + 1 = votes_of NOT_EMITED_YET r"
proof -
  have m: "map_ok (playerVote r)" using assms(1) by (simp add: counts_ok_def)
  have one: "votes_of w (voted p v r) + of_bool (NOT_EMITED_YET = w) = votes_of w r + of_bool (v = w)" for w
    using count_put [OF m assms(2), of w v] by (simp add: votes_of_def voted_def)
  show "votes_of NOT_EMITED_YET (voted p v r) + 1 = votes_of NOT_EMITED_YET r" using one [of NOT_EMITED_YET] assms(3) by auto
  have len: "length (playerVote (voted p v r)) = length (playerVote r)"
    using count_put [OF m assms(2), of v v] by (simp add: voted_def)
  have bound: "votes_of w r < length (playerVote r)" if "w \<noteq> NOT_EMITED_YET" for w
  proof -
    have "(p, NOT_EMITED_YET) \<in> set (playerVote r)" using assms(2) by (rule find_in_set)
    then have "length (filter (\<lambda>e. snd e = w) (playerVote r)) < length (playerVote r)"
      using that by (intro length_filter_less) auto
    then show ?thesis by (simp add: votes_of_def)
  qed
  have "unat (x + 1 :: u8) = unat x + 1" if "unat x < 255" for x
    using that by (simp add: unat_word_ariths)
  then have "unat (x + of_bool b :: u8) = unat x + of_bool b" if "unat x < 255" for x b
    using that by (cases b) auto
  note add = this
  have small: "unat (totalPass r) < 255" "unat (totalNeed r) < 255" "unat (totalGreed r) < 255"
    using assms(1) bound [of PASS] bound [of NEED] bound [of GREED] by (auto simp: counts_ok_def)
  have fields: "totalPass (voted p v r) = totalPass r + of_bool (v = PASS)" "totalNeed (voted p v r) = totalNeed r + of_bool (v = NEED)"
    "totalGreed (voted p v r) = totalGreed r + of_bool (v = GREED)" "totalPlayersRolling (voted p v r) = totalPlayersRolling r"
    "map_ok (playerVote (voted p v r))" using m by (simp_all add: voted_def)
  have totals: "unat (totalPass r + of_bool (v = PASS)) = votes_of PASS (voted p v r)"
    "unat (totalNeed r + of_bool (v = NEED)) = votes_of NEED (voted p v r)"
    "unat (totalGreed r + of_bool (v = GREED)) = votes_of GREED (voted p v r)"
    using add [OF small(1), of "v = PASS"] add [OF small(2), of "v = NEED"] add [OF small(3), of "v = GREED"]
      one [of PASS] one [of NEED] one [of GREED] assms(1) by (simp_all add: counts_ok_def)
  have "votes_of NOT_VALID (voted p v r) = 0" using one [of NOT_VALID] assms(1,3) by (auto simp: counts_ok_def)
  then show "counts_ok (voted p v r)"
    using assms(1) len totals fields by (simp add: counts_ok_def)
qed

lemma counts_sum:
  assumes "counts_ok r"
  shows "votes_cast r + votes_of NOT_EMITED_YET r = unat (totalPlayersRolling r)"
proof -
  have "length xs = length (filter (\<lambda>e. snd e = PASS) xs) + length (filter (\<lambda>e. snd e = NEED) xs) +
      length (filter (\<lambda>e. snd e = GREED) xs) + length (filter (\<lambda>e. snd e = NOT_EMITED_YET) xs) +
      length (filter (\<lambda>e. snd e = NOT_VALID) xs)" for xs :: "(guid \<times> roll_vote) list"
  proof (induction xs)
    case (Cons e xs)
    then show ?case by (cases "snd e") auto
  qed simp
  from this [of "playerVote r"] show ?thesis using assms by (simp add: counts_ok_def votes_cast_def votes_of_def)
qed

lemma vote_runs:
  assumes "GetRoll g s = Some i" and "r = RollId s ! i" and "counts_ok r" and "item_of_roll r s = Some li"
    and "roll_loot r = Some a" and "loots s a = Some l" and "loot_items l \<noteq> []"
    and "smap_find (playerVote r) p = Some NOT_EMITED_YET" and "choice < MAX_ROLL_TYPE"
  shows "\<exists>s'. CountRollVote env p g choice s = Some s' \<and>
     (if votes_of NOT_EMITED_YET r = 1 then RollId s' = take i (RollId s) @ drop (Suc i) (RollId s)
      else RollId s' = (RollId s)[i := voted p (choice_vote choice) r] \<and> counts_ok (voted p (choice_vote choice) r))"
proof -
  let ?v = "voted p (choice_vote choice) r"
  have i: "i < length (RollId s)" using assms(1) find_index_Some unfolding GetRoll_def by blast
  obtain s1 where s1: "cast_vote env p choice r s = (?v, s1)" "loots s1 = loots s" "RollId s1 = RollId s"
    using cast_voted [OF assms(9)] by blast
  note ok = voted_counts [OF assms(3,8) choice_vote_cases [of choice]]
  let ?s2 = "s1\<lparr>RollId := (RollId s)[i := ?v]\<rparr>"
  have "unat (totalPlayersRolling ?v) = unat (totalPlayersRolling r)" by (simp add: voted_def)
  then have over: "votes_cast ?v \<ge> unat (totalPlayersRolling ?v) \<longleftrightarrow> votes_of NOT_EMITED_YET r = 1"
    using counts_sum [OF ok(1)] ok(2) by linarith
  have vote: "CountRollVote env p g choice s =
      (if votes_cast ?v \<ge> unat (totalPlayersRolling ?v) then CountTheRoll env i None ?s2 else Some ?s2)"
    using assms(1,2,5-8) s1 by (simp add: CountRollVote_def Let_def)
  have "item_of_roll (RollId ?s2 ! i) ?s2 = Some li"
    using i assms(4) s1(2) by (simp add: item_of_roll_def voted_def)
  from CountTheRoll_returns [OF _ this, of env None] obtain s3 where
      "CountTheRoll env i None ?s2 = Some s3" "RollId s3 = take i (RollId ?s2) @ drop (Suc i) (RollId ?s2)"
    using i by auto
  then show ?thesis using vote over ok(1) by auto
qed


text \<open>C24: \<^bold>\<open>A player may vote for another.\<close> A vote is counted although the player has voted, so his
  second vote ends a roll in which one other player has yet to choose.\<close>

theorem second_vote_ends_roll:
  assumes "GetRoll g s = Some i" and "r = RollId s ! i" and "counts_ok r" and "item_of_roll r s = Some li"
    and "roll_loot r = Some a" and "loots s a = Some l" and "loot_items l \<noteq> []"
    and "smap_find (playerVote r) p = Some PASS" and "votes_of NOT_EMITED_YET r = 1"
  shows "\<exists>s'. CountRollVote env p g ROLL_PASS s = Some s' \<and> RollId s' = take i (RollId s) @ drop (Suc i) (RollId s)"
proof -
  let ?v = "voted p PASS r"
  have i: "i < length (RollId s)" using assms(1) find_index_Some unfolding GetRoll_def by blast
  obtain s1 where s1: "cast_vote env p ROLL_PASS r s = (?v, s1)" "loots s1 = loots s" "RollId s1 = RollId s"
    using cast_voted [of ROLL_PASS env p r s] by (auto simp: choice_vote_def roll_type_defs)
  let ?s2 = "s1\<lparr>RollId := (RollId s)[i := ?v]\<rparr>"
  have "unat (totalPass r) < 255" using counts_sum [OF assms(3)] assms(3,9) by (simp add: votes_cast_def counts_ok_def)
  then have "votes_cast ?v = votes_cast r + 1" by (simp add: votes_cast_def voted_def unat_word_ariths)
  then have over: "votes_cast ?v \<ge> unat (totalPlayersRolling ?v)"
    using counts_sum [OF assms(3)] assms(9) by (simp add: voted_def)
  have vote: "CountRollVote env p g ROLL_PASS s = CountTheRoll env i None ?s2"
    using assms(1,2,5-8) s1 over by (simp add: CountRollVote_def Let_def)
  have "item_of_roll (RollId ?s2 ! i) ?s2 = Some li"
    using i assms(4) s1(2) by (simp add: item_of_roll_def voted_def)
  from CountTheRoll_returns [OF _ this, of env None] obtain s3 where
      "CountTheRoll env i None ?s2 = Some s3" "RollId s3 = take i (RollId ?s2) @ drop (Suc i) (RollId ?s2)"
    using i by auto
  then show ?thesis using vote by auto
qed

section \<open>Leaving\<close>

definition left_roll :: "guid \<Rightarrow> roll \<Rightarrow> roll" where
  "left_roll g r = (case smap_find (playerVote r) g of None \<Rightarrow> r | Some v \<Rightarrow> withdraw g v r)"

lemma count_erase:
  "map_ok m \<Longrightarrow> smap_find m g = Some v \<Longrightarrow>
   length (filter (\<lambda>e. snd e = w) (smap_erase g m)) + of_bool (v = w) = length (filter (\<lambda>e. snd e = w) m) \<and>
   length (smap_erase g m) + 1 = length m"
proof (induction m)
  case (Cons e m)
  obtain a b where e: "e = (a, b)" by fastforce
  have "smap_erase g m = m" if "a = g"
    using Cons.prems that by (auto simp: e map_ok_Cons smap_erase_def filter_id_conv smap_keys_def)
  then show ?case using Cons by (auto simp: e map_ok_Cons smap_find_def smap_erase_def)
qed simp

lemma left_counts:
  assumes "counts_ok r"
  shows "counts_ok (left_roll g r)" and "smap_find (playerVote (left_roll g r)) g = None"
    and "itemGUID (left_roll g r) = itemGUID r" and "roll_isValid (left_roll g r) = roll_isValid r"
proof -
  have m: "map_ok (playerVote r)" using assms by (simp add: counts_ok_def)
  show "smap_find (playerVote (left_roll g r)) g = None"
    by (cases "smap_find (playerVote r) g") (simp_all add: left_roll_def withdraw_def Let_def)
  show "itemGUID (left_roll g r) = itemGUID r" "roll_isValid (left_roll g r) = roll_isValid r"
    by (simp_all add: left_roll_def withdraw_def Let_def roll_isValid_def split: option.split)
  show "counts_ok (left_roll g r)"
  proof (cases "smap_find (playerVote r) g")
    case None
    then show ?thesis using assms by (simp add: left_roll_def)
  next
    case (Some v)
    have pv: "playerVote (withdraw g v r) = smap_erase g (playerVote r)" by (simp add: withdraw_def Let_def)
    define c where "c w = length (filter (\<lambda>e. snd e = w) (smap_erase g (playerVote r)))" for w
    have one: "votes_of w r = c w + of_bool (v = w)" "length (playerVote r) = length (smap_erase g (playerVote r)) + 1" for w
      using count_erase [OF m Some, of w] by (simp_all add: votes_of_def c_def)
    have dec: "unat (x - 1 :: u8) = n" if "unat x = n + 1" for x n
      using that by (subst unat_minus_one) auto
    have valid: "v \<noteq> NOT_VALID" using one(1) [of NOT_VALID] assms by (auto simp: counts_ok_def)
    have mo: "map_ok (smap_erase g (playerVote r))" using m by simp
    have counts: "votes_of w (withdraw g v r) = c w" for w by (simp add: votes_of_def pv c_def)
    have "unat (totalPlayersRolling r) = length (smap_erase g (playerVote r)) + 1"
      "unat (totalPass r) = c PASS + of_bool (v = PASS)" "unat (totalNeed r) = c NEED + of_bool (v = NEED)"
      "unat (totalGreed r) = c GREED + of_bool (v = GREED)" "c NOT_VALID = 0" "length (smap_erase g (playerVote r)) < 256"
      using assms one by (auto simp: counts_ok_def)
    then have "counts_ok (withdraw g v r)"
      unfolding counts_ok_def counts pv using valid mo dec by (cases v) (simp_all add: withdraw_def Let_def)
    then show ?thesis using Some by (simp add: left_roll_def)
  qed
qed

lemma find_index_None: "find_index P xs = None \<longleftrightarrow> (\<forall>x \<in> set xs. \<not> P x)"
  by (induction xs) auto

lemma map_update_same: "i < length xs \<Longrightarrow> f y = f (xs ! i) \<Longrightarrow> map f (xs[i := y]) = map f xs"
  by (metis list_update_id map_update)

lemma leave_step:
  assumes "i < length (RollId s)" and "smap_find (playerVote (RollId s ! i)) g = Some v"
    and "distinct (map itemGUID (RollId s))"
  shows "CountRollVote env g (itemGUID (RollId s ! i)) c (s\<lparr>RollId := (RollId s)[i := withdraw g v (RollId s ! i)]\<rparr>) =
     Some (s\<lparr>RollId := (RollId s)[i := left_roll g (RollId s ! i)]\<rparr>)"
proof -
  let ?r = "RollId s ! i" and ?rs = "(RollId s)[i := withdraw g v (RollId s ! i)]"
  have w: "withdraw g v ?r = left_roll g ?r" using assms(2) by (simp add: left_roll_def)
  have gone: "smap_find (playerVote (withdraw g v ?r)) g = None" by (simp add: withdraw_def Let_def)
  have guids: "itemGUID (withdraw g v ?r) = itemGUID ?r" by (simp add: withdraw_def Let_def)
  have same: "map itemGUID ?rs = map itemGUID (RollId s)" by (rule map_update_same [OF assms(1) guids])
  show ?thesis
  proof (cases "GetRoll (itemGUID ?r) (s\<lparr>RollId := ?rs\<rparr>)")
    case None
    then show ?thesis by (simp add: CountRollVote_def w)
  next
    case (Some j)
    then have j: "j < length ?rs" "itemGUID (?rs ! j) = itemGUID ?r" using find_index_Some unfolding GetRoll_def by force+
    have "map itemGUID (RollId s) ! j = map itemGUID (RollId s) ! i"
      using j assms(1) same by (metis length_list_update nth_map)
    then have "j = i" using assms(1,3) j(1) by (simp add: nth_eq_iff_index_eq del: nth_map)
    then show ?thesis using Some assms(1) gone by (simp add: CountRollVote_def w Let_def)
  qed
qed

lemma leave_from:
  "distinct (map itemGUID (RollId s)) \<Longrightarrow> i \<le> length (RollId s) \<Longrightarrow>
   leave_rolls_from env g i s = Some (s\<lparr>RollId := take i (RollId s) @ map (left_roll g) (drop i (RollId s))\<rparr>)"
proof (induction "length (RollId s) - i" arbitrary: i s)
  case 0
  then show ?case by simp
next
  case (Suc n)
  let ?r = "RollId s ! i" and ?s' = "s\<lparr>RollId := (RollId s)[i := left_roll g (RollId s ! i)]\<rparr>"
  have i: "i < length (RollId s)" using Suc.hyps(2) by simp
  have guids: "itemGUID (left_roll g r) = itemGUID r" for r
    by (simp add: left_roll_def withdraw_def Let_def split: option.split)
  have d: "distinct (map itemGUID (RollId ?s'))" using Suc.prems(1) i map_update_same [OF i, of itemGUID "left_roll g ?r"] guids by simp
  have IH: "leave_rolls_from env g (Suc i) ?s' =
      Some (?s'\<lparr>RollId := take (Suc i) (RollId ?s') @ map (left_roll g) (drop (Suc i) (RollId ?s'))\<rparr>)"
    using Suc.hyps(1) [of ?s' "Suc i"] Suc.hyps(2) d i by simp
  have "leave_rolls_from env g i s = leave_rolls_from env g (Suc i) ?s'"
  proof (cases "smap_find (playerVote ?r) g")
    case None
    then have "?s' = s" using i by (simp add: left_roll_def)
    then show ?thesis using None i by simp
  next
    case (Some v)
    then show ?thesis using i leave_step [OF i Some Suc.prems(1)] by (simp add: Let_def)
  qed
  also note IH
  also have "take (Suc i) (RollId ?s') @ map (left_roll g) (drop (Suc i) (RollId ?s')) =
      take i (RollId s) @ map (left_roll g) (drop i (RollId s))"
    using i by (simp add: take_Suc_conv_app_nth Cons_nth_drop_Suc [symmetric])
  finally show ?case by simp
qed

text \<open>C21: \<^bold>\<open>Leaving a group takes a player out of every roll and ends none.\<close> His vote and his place
  are taken off, the counters stay exact, and a roll that waited for him alone stays open.\<close>

theorem leaving_ends_no_roll:
  assumes "distinct (map itemGUID (RollId s))" and "\<forall>r \<in> set (RollId s). counts_ok r"
  shows "\<exists>s'. leave_rolls env g s = Some s' \<and> length (RollId s') = length (RollId s) \<and>
     (\<forall>r \<in> set (RollId s'). counts_ok r \<and> smap_find (playerVote r) g = None)"
  using assms leave_from [OF assms(1), of 0 env g] left_counts by (auto simp: leave_rolls_def simp del: leave_rolls_from.simps)

section \<open>A roll of three\<close>

definition sword :: loot_item where
  "sword = \<lparr>li_itemid = 1000, li_randomSuffix = 0, li_randomPropertyId = 0, li_rollWinnerGUID = 0, li_count = 1,
     is_looted = False, is_blocked = True, li_freeforall = False, is_underthreshold = False, follow_loot_rules = True\<rparr>"

text \<open>Players 1, 2 and 3; \<open>away\<close> is not in the world. Draws are 50, 60 and so on.\<close>

definition three_env :: "guid \<Rightarrow> loot_env" where
  "three_env away = \<lparr>le_connected = (\<lambda>_. True), le_in_world = (\<lambda>g. g \<noteq> away), le_session = (\<lambda>_. True), le_FindMap = (\<lambda>_. 0),
     le_CanStoreNewItem = (\<lambda>_ _ _ _. 0), le_urand = (\<lambda>k _ _. 50 + 10 * word_of_nat k), le_quality = (\<lambda>_. Some 2),
     IsAtGroupRewardDistance = (\<lambda>_. True), AllowedForPlayer = (\<lambda>_ _. True), le_CanUseItem = (\<lambda>_ _. True),
     GetPassOnGroupLoot = (\<lambda>_. False)\<rparr>"

definition three_roll :: "roll_vote \<Rightarrow> roll_vote \<Rightarrow> roll_vote \<Rightarrow> roll" where
  "three_roll u v w = (new_Roll 900 sword)\<lparr>playerVote := [(1, u), (2, v), (3, w)], totalPlayersRolling := 3,
     totalPass := of_bool (u = PASS) + of_bool (v = PASS) + of_bool (w = PASS),
     totalNeed := of_bool (u = NEED) + of_bool (v = NEED) + of_bool (w = NEED),
     totalGreed := of_bool (u = GREED) + of_bool (v = GREED) + of_bool (w = GREED), roll_loot := Some 0\<rparr>"

definition three_state :: "roll \<Rightarrow> roll_state" where
  "three_state r = \<lparr>RollId = [r], loots = [0 \<mapsto> \<lparr>loot_items = [sword], quest_items = [], unlootedCount = 1\<rparr>],
     rs_draws = 0, rs_items = new_generator 1, loot_fx = []\<rparr>"

lemma three_counts: "u \<noteq> NOT_VALID \<Longrightarrow> v \<noteq> NOT_VALID \<Longrightarrow> w \<noteq> NOT_VALID \<Longrightarrow> counts_ok (three_roll u v w)"
  by (cases u; cases v; cases w) (simp_all add: counts_ok_def three_roll_def votes_of_def map_ok_def new_Roll_def)

lemma three_item: "item_of_roll (three_roll u v w) (three_state r) = Some sword"
  by (simp add: item_of_roll_def three_roll_def three_state_def new_Roll_def item_in_slot_def)

lemma three_ok: "roll_ok (three_env away) (three_roll u v w) sword (three_state r)"
  by (auto simp: roll_ok_def three_item) (simp_all add: three_roll_def new_Roll_def three_env_def)

lemma three_get: "GetRoll 900 (three_state (three_roll u v w)) = Some 0"
  by (simp add: GetRoll_def three_state_def three_roll_def new_Roll_def roll_isValid_def)

lemmas three_defs = three_roll_def three_state_def new_Roll_def three_env_def contenders_def may_roll_def le_FindPlayer_def
  votes_of_def drawn_def

lemma three_roll_at: "0 < length (RollId (three_state r))" "r = RollId (three_state r) ! 0"
  by (simp_all add: three_state_def)

lemma three_counted:
  "counts_ok (three_roll NEED PASS NEED)" "counts_ok (three_roll PASS NEED GREED)"
  "counts_ok (three_roll PASS NEED NOT_EMITED_YET)"
  by (rule three_counts; simp)+

theorem roll_goes_to_highest_witness:
  "\<exists>j s'. CountTheRoll (three_env 0) 0 None (three_state (three_roll NEED PASS NEED)) = Some s' \<and> j < 2 \<and>
     given (three_env 0) (three_roll NEED PASS NEED) ([1, 3] ! j) sword (three_state (three_roll NEED PASS NEED)) s'"
proof -
  have cs: "[1, 3] = contenders (three_env 0) None NEED (playerVote (three_roll NEED PASS NEED))" "[1, 3 :: guid] \<noteq> []"
    by (simp_all add: three_defs)
  have "0 < drawn (three_env 0) (three_state (three_roll NEED PASS NEED)) k" if "k = 0 \<or> k = 1" for k
    using that by (auto simp: three_defs)
  then have d: "\<forall>k < length [1, 3 :: guid]. 0 < drawn (three_env 0) (three_state (three_roll NEED PASS NEED)) k"
    by (simp add: less_Suc_eq numeral_2_eq_2)
  show ?thesis
    using roll_goes_to_highest [OF three_roll_at three_ok three_counted(1) cs d disjI1 [OF refl]]
    unfolding best_draw_def by (auto simp: numeral_2_eq_2)
qed

theorem absent_needers_double_the_item_witness:
  "\<exists>s'. CountTheRoll (three_env 2) 0 None (three_state (three_roll PASS NEED GREED)) = Some s' \<and>
     stores s' = [StoreNewItem 1 1000 1 0, StoreNewItem 3 1000 1 0]"
proof -
  let ?r = "three_roll PASS NEED GREED"
  have cs: "[3] = contenders (three_env 2) None GREED (playerVote ?r)" "[3 :: guid] \<noteq> []" by (simp_all add: three_defs)
  have n: "votes_of NEED ?r > 0" "contenders (three_env 2) None NEED (playerVote ?r) = []" "1 = fst (hd (playerVote ?r))"
    "le_FindPlayer (three_env 2) 1" by (simp_all add: three_defs)
  have d: "\<forall>k < length [3 :: guid]. 0 < drawn (three_env 2) (three_state ?r) k" by (simp add: three_defs)
  have room: "\<forall>fx g. le_CanStoreNewItem (three_env 2) fx g (roll_itemid ?r) (li_count sword) = EQUIP_ERR_OK"
    by (simp add: three_env_def EQUIP_ERR_OK_def)
  have "stores (three_state ?r) = []" "roll_itemid ?r = 1000" "li_count sword = 1" "li_randomPropertyId sword = 0"
    by (simp_all add: stores_def three_state_def three_roll_def new_Roll_def sword_def)
  then show ?thesis
    using absent_needers_double_the_item [OF three_roll_at three_ok three_counted(2) n cs d room] by auto
qed

lemma three_open:
  "roll_loot (three_roll u v w) = Some 0" "votes_of NOT_EMITED_YET (three_roll PASS NEED NOT_EMITED_YET) = 1"
  "loots (three_state r) 0 = Some \<lparr>loot_items = [sword], quest_items = [], unlootedCount = 1\<rparr>"
  "loot_items \<lparr>loot_items = [sword], quest_items = [], unlootedCount = 1\<rparr> \<noteq> []"
  "smap_find (playerVote (three_roll u v w)) 3 = Some w" "smap_find (playerVote (three_roll u v w)) 1 = Some u"
  by (simp_all add: three_roll_def three_state_def new_Roll_def votes_of_def smap_find_def)


theorem second_vote_ends_roll_witness:
  "\<exists>s'. CountRollVote (three_env 0) 1 900 ROLL_PASS (three_state (three_roll PASS NEED NOT_EMITED_YET)) = Some s' \<and> RollId s' = []"
  using second_vote_ends_roll [OF three_get three_roll_at(2) three_counted(3) three_item three_open(1,3,4,6,2), of "three_env 0"]
  by (auto simp: three_state_def)

theorem leaving_ends_no_roll_witness:
  "\<exists>s'. leave_rolls (three_env 0) 3 (three_state (three_roll PASS NEED NOT_EMITED_YET)) = Some s' \<and> length (RollId s') = 1"
proof -
  let ?s = "three_state (three_roll PASS NEED NOT_EMITED_YET)"
  have "distinct (map itemGUID (RollId ?s))" "\<forall>r \<in> set (RollId ?s). counts_ok r" "length (RollId ?s) = 1"
    using three_counts [of PASS NEED NOT_EMITED_YET] by (simp_all add: three_state_def)
  then show ?thesis using leaving_ends_no_roll [of ?s "three_env 0" 3] by auto
qed

end
