(* ===== verification/Group.thy ===== *)
theory Group
  imports GroupRolls
begin

text \<open>
  The groups of \<^verbatim>\<open>src/src/server/game/Groups/Group.h\<close>, \<^verbatim>\<open>Group.cpp\<close>: the world of groups and
  players, the references between them, members, invitations, packets. Groups and players are
  objects on two heaps; a player is filed under his GUID, and so is a pointer to him. An access
  to an object that is gone, and a failed assertion, is \<open>None\<close>. What the code does to the rest
  of the server is the list \<open>gw_fx\<close>; what it asks of it is the record \<open>group_env\<close>.
\<close>

section \<open>Constants\<close>

definition MAXGROUPSIZE :: nat where "MAXGROUPSIZE = 5"
definition MAXRAIDSIZE :: nat where "MAXRAIDSIZE = 40"
definition MAX_RAID_SUBGROUPS :: nat where "MAX_RAID_SUBGROUPS = 8"
definition TARGETICONCOUNT :: nat where "TARGETICONCOUNT = 8"

definition GROUPTYPE_NORMAL :: u8 where "GROUPTYPE_NORMAL = 0"
definition GROUPTYPE_RAID :: u8 where "GROUPTYPE_RAID = 1"

definition MEMBER_STATUS_OFFLINE :: u8 where "MEMBER_STATUS_OFFLINE = 0"
definition MEMBER_STATUS_ONLINE :: u8 where "MEMBER_STATUS_ONLINE = 1"
definition MEMBER_STATUS_PVP :: u8 where "MEMBER_STATUS_PVP = 2"

definition MEMBER_FLAG_ASSISTANT :: u8 where "MEMBER_FLAG_ASSISTANT = 1"
definition MEMBER_FLAG_MAINTANK :: u8 where "MEMBER_FLAG_MAINTANK = 2"
definition MEMBER_FLAG_MAINASSIST :: u8 where "MEMBER_FLAG_MAINASSIST = 4"

definition FREE_FOR_ALL :: u32 where "FREE_FOR_ALL = 0"
definition MASTER_LOOT :: u32 where "MASTER_LOOT = 2"
definition GROUP_LOOT :: u32 where "GROUP_LOOT = 3"
definition ITEM_QUALITY_UNCOMMON :: u32 where "ITEM_QUALITY_UNCOMMON = 2"
definition LEVELREQUIREMENT_HEROIC :: nat where "LEVELREQUIREMENT_HEROIC = 70"

lemmas group_sizes = MAXGROUPSIZE_def MAXRAIDSIZE_def MAX_RAID_SUBGROUPS_def TARGETICONCOUNT_def

definition SMSG_GROUP_INVITE :: u16 where "SMSG_GROUP_INVITE = 0x06F"
definition SMSG_GROUP_DECLINE :: u16 where "SMSG_GROUP_DECLINE = 0x074"
definition SMSG_GROUP_UNINVITE :: u16 where "SMSG_GROUP_UNINVITE = 0x077"
definition SMSG_GROUP_SET_LEADER :: u16 where "SMSG_GROUP_SET_LEADER = 0x079"
definition SMSG_GROUP_DESTROYED :: u16 where "SMSG_GROUP_DESTROYED = 0x07C"
definition SMSG_GROUP_LIST :: u16 where "SMSG_GROUP_LIST = 0x07D"
definition MSG_RAID_TARGET_UPDATE :: u16 where "MSG_RAID_TARGET_UPDATE = 0x321"
definition MSG_RAID_READY_CHECK_CONFIRM :: u16 where "MSG_RAID_READY_CHECK_CONFIRM = 0x3AE"
definition SMSG_LOOT_LIST :: u16 where "SMSG_LOOT_LIST = 0x3F8"

section \<open>Groups and players\<close>

record member_slot =
  ms_guid :: guid
  ms_name :: string
  ms_group :: u8
  ms_flags :: u8
  ms_roles :: u8

text \<open>
  A player is linked to a group by one of two references, the one of the group he is in and the
  one of his own group while he is in the raid of a battleground.
\<close>

datatype group_ref = GroupRef guid | OriginalRef guid

fun GetSource :: "group_ref \<Rightarrow> guid" where
  "GetSource (GroupRef p) = p"
| "GetSource (OriginalRef p) = p"

record group =
  m_guid :: guid
  m_dbStoreId :: u32
  m_memberSlots :: "member_slot list"
  m_memberMgr :: "group_ref list"
  m_invitees :: "guid list"
  m_leaderGuid :: guid
  m_leaderName :: string
  m_groupType :: u8
  m_dungeonDifficulty :: u8
  m_raidDifficulty :: u8
  m_bgGroup :: "nat option"
  m_targetIcons :: "guid list"
  m_lootMethod :: u32
  m_lootThreshold :: u32
  m_looterGuid :: guid
  m_masterLooterGuid :: guid
  m_RollId :: "roll list"
  m_subGroupsCounts :: "u8 list option"
  m_leaderLogoutTime :: int

definition new_Group :: group where
  "new_Group = \<lparr>m_guid = 0, m_dbStoreId = 0, m_memberSlots = [], m_memberMgr = [], m_invitees = [], m_leaderGuid = 0,
     m_leaderName = [], m_groupType = 0, m_dungeonDifficulty = 0, m_raidDifficulty = 0, m_bgGroup = None,
     m_targetIcons = replicate TARGETICONCOUNT 0, m_lootMethod = 0, m_lootThreshold = ITEM_QUALITY_UNCOMMON, m_looterGuid = 0,
     m_masterLooterGuid = 0, m_RollId = [], m_subGroupsCounts = None, m_leaderLogoutTime = 0\<rparr>"

text \<open>
  The parts of a player that belong to groups. Every player has a session. \<open>gp_connected\<close>: the
  object accessor knows him; \<open>gp_logout\<close>: his session is logging him out.
\<close>

record gplayer =
  gp_name :: string
  gp_connected :: bool
  gp_in_world :: bool
  gp_logout :: bool
  gp_bot :: bool
  gp_m_group :: "nat option"
  gp_subGroup :: u8
  gp_m_originalGroup :: "nat option"
  gp_originalSubGroup :: u8
  gp_invite :: "nat option"
  gp_leader_flag :: bool

section \<open>The world\<close>

datatype group_stmt =
    InsertGroup u32 u32 u32 u32 u32 "guid list" u8 u8 u8 u32
  | InsertGroupMember u32 u32 u8 u8 u8
  | DeleteGroupMember u32
  | UpdateGroupType u8 u32
  | UpdateGroupLeader u32 u32
  | UpdateMemberSubgroup u8 u32
  | UpdateMemberFlag u8 u32
  | UpdateGroupDifficulty u8 u32
  | DeleteGroup u32
  | DeleteGroupMembers u32

datatype group_effect =
    GroupPacket guid world_packet
  | GroupSql group_stmt
  | GroupLootFx loot_effect
  | UpdateForQuestWorldObjects guid
  | RemoveAllGroupBuffsFromCaster guid guid
  | ForceValuesUpdate guid
  | SetInstanceValid guid bool
  | SetPlayerDifficulty guid u8
  | ResetPlayerInstances guid
  | GroupUpdateFull guid
  | PartyMemberStats guid guid
  | ExchangeMemberFields guid guid
  | ConvertLeaderInstances guid nat bool
  | RemovePermanentBinds nat
  | ResetGroupInstances nat
  | RemoveInstanceBinds nat
  | ClearBgRaid nat nat
  | StopNow

record group_env =
  ge_loot :: loot_env
  ge_GameTime :: int
  ge_reconnect_period :: int
  ge_allow_gm_group :: bool
  ge_two_side :: bool
  ge_IsGameMaster :: "guid \<Rightarrow> bool"
  ge_Team :: "guid \<Rightarrow> u32"
  ge_InstanceId :: "guid \<Rightarrow> u32"
  ge_MapId :: "guid \<Rightarrow> u32"
  ge_Difficulty :: "guid \<Rightarrow> u8"
  ge_Level :: "guid \<Rightarrow> nat"
  ge_HasIgnore :: "guid \<Rightarrow> u32 \<Rightarrow> bool"
  ge_InBattleground :: "guid \<Rightarrow> bool"
  ge_OutOfRange :: "guid \<Rightarrow> guid \<Rightarrow> bool"
  ge_HaveAtClient :: "guid \<Rightarrow> guid \<Rightarrow> bool"
  ge_InDungeon :: "guid \<Rightarrow> bool"
  ge_PermBound :: "guid \<Rightarrow> bool"
  ge_CheckInstanceValidity :: "guid \<Rightarrow> bool"
  ge_normalizePlayerName :: "string \<Rightarrow> string option"
  ge_PlayerByName :: "string \<Rightarrow> guid option"
  ge_CharacterGuidByName :: "string \<Rightarrow> guid"
  ge_CharacterNameByGuid :: "guid \<Rightarrow> string option"

record group_world =
  groups :: "nat \<Rightarrow> group option"
  gw_fresh :: nat
  players :: "guid \<Rightarrow> gplayer option"
  NextGroupId :: u32
  NextGroupDbStoreId :: u32
  GroupStore :: "(u32, nat) smap"
  GroupDbStore :: "nat option list"
  gw_loots :: "nat \<Rightarrow> loot option"
  gw_draws :: nat
  gw_items :: guid_generator
  gw_fx :: "group_effect list"

definition gw_effect :: "group_effect \<Rightarrow> group_world \<Rightarrow> group_world" where
  "gw_effect e w = w\<lparr>gw_fx := gw_fx w @ [e]\<rparr>"

abbreviation gw_send :: "guid \<Rightarrow> world_packet \<Rightarrow> group_world \<Rightarrow> group_world" where
  "gw_send p data \<equiv> gw_effect (GroupPacket p data)"

definition Execute :: "group_stmt \<Rightarrow> group_world \<Rightarrow> group_world" where
  "Execute stmt = gw_effect (GroupSql stmt)"

definition CommitTransaction :: "group_stmt list \<Rightarrow> group_world \<Rightarrow> group_world" where
  "CommitTransaction stmts w = w\<lparr>gw_fx := gw_fx w @ map GroupSql stmts\<rparr>"

text \<open>Assignments to the fields of an object.\<close>

definition on_group :: "nat \<Rightarrow> (group \<Rightarrow> group) \<Rightarrow> group_world \<Rightarrow> group_world option" where
  "on_group a f w = do { g \<leftarrow> groups w a; Some (w\<lparr>groups := (groups w)(a \<mapsto> f g)\<rparr>) }"

definition on_player :: "guid \<Rightarrow> (gplayer \<Rightarrow> gplayer) \<Rightarrow> group_world \<Rightarrow> group_world option" where
  "on_player p f w = do { pl \<leftarrow> players w p; Some (w\<lparr>players := (players w)(p \<mapsto> f pl)\<rparr>) }"

text \<open>\<open>FindConnectedPlayer\<close>, \<open>FindPlayer\<close>.\<close>

definition gw_connected :: "group_world \<Rightarrow> guid \<Rightarrow> bool" where
  "gw_connected w p = (case players w p of Some pl \<Rightarrow> gp_connected pl | None \<Rightarrow> False)"

definition gw_FindPlayer :: "group_world \<Rightarrow> guid \<Rightarrow> bool" where
  "gw_FindPlayer w p = (case players w p of Some pl \<Rightarrow> gp_connected pl \<and> gp_in_world pl | None \<Rightarrow> False)"

text \<open>A loop over a container whose body may fail.\<close>

fun each :: "('a \<Rightarrow> 's \<Rightarrow> 's option) \<Rightarrow> 'a list \<Rightarrow> 's \<Rightarrow> 's option" where
  "each f [] s = Some s"
| "each f (x # xs) s = Option.bind (f x s) (each f xs)"

section \<open>References\<close>

text \<open>
  \<open>link\<close> and \<open>unlink\<close> of \<open>m_group\<close> and \<open>m_originalGroup\<close>. A new reference is the first of its
  group; the subgroup stays in an unlinked reference.
\<close>

definition drop_ref :: "group_ref \<Rightarrow> nat option \<Rightarrow> group_world \<Rightarrow> group_world" where
  "drop_ref r target w =
     (case target of
        None \<Rightarrow> w
      | Some a \<Rightarrow> (case groups w a of
                    None \<Rightarrow> w
                  | Some g \<Rightarrow> w\<lparr>groups := (groups w)(a \<mapsto> g\<lparr>m_memberMgr := filter (\<lambda>x. x \<noteq> r) (m_memberMgr g)\<rparr>)\<rparr>))"

definition LinkMember :: "group_ref \<Rightarrow> nat \<Rightarrow> group_world \<Rightarrow> group_world option" where
  "LinkMember r a = on_group a (\<lambda>g. g\<lparr>m_memberMgr := r # m_memberMgr g\<rparr>)"

definition unlink_group :: "guid \<Rightarrow> group_world \<Rightarrow> group_world option" where
  "unlink_group p w = do {
     pl \<leftarrow> players w p;
     on_player p (gp_m_group_update (\<lambda>_. None)) (drop_ref (GroupRef p) (gp_m_group pl) w)
   }"

definition unlink_original :: "guid \<Rightarrow> group_world \<Rightarrow> group_world option" where
  "unlink_original p w = do {
     pl \<leftarrow> players w p;
     on_player p (gp_m_originalGroup_update (\<lambda>_. None)) (drop_ref (OriginalRef p) (gp_m_originalGroup pl) w)
   }"

definition link_group :: "nat \<Rightarrow> guid \<Rightarrow> group_world \<Rightarrow> group_world option" where
  "link_group a p w = do {
     w \<leftarrow> unlink_group p w;
     w \<leftarrow> on_player p (gp_m_group_update (\<lambda>_. Some a)) w;
     LinkMember (GroupRef p) a w
   }"

definition link_original :: "nat \<Rightarrow> guid \<Rightarrow> group_world \<Rightarrow> group_world option" where
  "link_original a p w = do {
     w \<leftarrow> unlink_original p w;
     w \<leftarrow> on_player p (gp_m_originalGroup_update (\<lambda>_. Some a)) w;
     LinkMember (OriginalRef p) a w
   }"

text \<open>The subgroup is passed as an \<open>int8\<close>, which must not be negative.\<close>

definition Player_SetGroup :: "nat option \<Rightarrow> u8 \<Rightarrow> guid \<Rightarrow> group_world \<Rightarrow> group_world option" where
  "Player_SetGroup target subgroup p w =
     (case target of
        None \<Rightarrow> unlink_group p w
      | Some a \<Rightarrow>
          if unat subgroup \<ge> 128 then None
          else do { w \<leftarrow> link_group a p w; on_player p (gp_subGroup_update (\<lambda>_. subgroup)) w })"

definition SetOriginalGroup :: "nat option \<Rightarrow> u8 \<Rightarrow> guid \<Rightarrow> group_world \<Rightarrow> group_world option" where
  "SetOriginalGroup target subgroup p w =
     (case target of
        None \<Rightarrow> unlink_original p w
      | Some a \<Rightarrow>
          if unat subgroup \<ge> 128 then None
          else do { w \<leftarrow> link_original a p w; on_player p (gp_originalSubGroup_update (\<lambda>_. subgroup)) w })"

definition SetBattlegroundRaid :: "nat \<Rightarrow> u8 \<Rightarrow> guid \<Rightarrow> group_world \<Rightarrow> group_world option" where
  "SetBattlegroundRaid a subgroup p w = do {
     pl \<leftarrow> players w p;
     w \<leftarrow> SetOriginalGroup (gp_m_group pl) (gp_subGroup pl) p w;
     w \<leftarrow> link_group a p w;
     on_player p (gp_subGroup_update (\<lambda>_. subgroup)) w
   }"

definition RemoveFromBattlegroundRaid :: "guid \<Rightarrow> group_world \<Rightarrow> group_world option" where
  "RemoveFromBattlegroundRaid p w = do {
     w \<leftarrow> unlink_group p w;
     pl \<leftarrow> players w p;
     w \<leftarrow> (case gp_m_originalGroup pl of
             None \<Rightarrow> Some w
           | Some a \<Rightarrow> do {
               w \<leftarrow> link_group a p w;
               on_player p (gp_subGroup_update (\<lambda>_. gp_originalSubGroup pl)) w
             });
     SetOriginalGroup None 0 p w
   }"

text \<open>The first reference of the player is cut.\<close>

definition DelinkMember :: "nat \<Rightarrow> guid \<Rightarrow> group_world \<Rightarrow> group_world option" where
  "DelinkMember a p w = do {
     g \<leftarrow> groups w a;
     (case filter (\<lambda>r. GetSource r = p) (m_memberMgr g) of
        [] \<Rightarrow> Some w
      | GroupRef q # _ \<Rightarrow> unlink_group q w
      | OriginalRef q # _ \<Rightarrow> unlink_original q w)
   }"

text \<open>\<open>~Group\<close>: the references to it are invalidated with its reference manager.\<close>

definition invalidate :: "group_ref \<Rightarrow> group_world \<Rightarrow> group_world option" where
  "invalidate r w =
     (case r of GroupRef p \<Rightarrow> on_player p (gp_m_group_update (\<lambda>_. None)) w
              | OriginalRef p \<Rightarrow> on_player p (gp_m_originalGroup_update (\<lambda>_. None)) w)"

definition delete_group :: "nat \<Rightarrow> group_world \<Rightarrow> group_world option" where
  "delete_group a w = do {
     g \<leftarrow> groups w a;
     let w = (case m_bgGroup g of Some bg \<Rightarrow> gw_effect (ClearBgRaid bg a) w | None \<Rightarrow> w);
     let w = gw_effect (RemoveInstanceBinds a) w;
     w \<leftarrow> each invalidate (m_memberMgr g) w;
     Some (w\<lparr>groups := (groups w)(a := None)\<rparr>)
   }"

definition alloc_group :: "group_world \<Rightarrow> nat \<times> group_world" where
  "alloc_group w = (gw_fresh w, w\<lparr>groups := (groups w)(gw_fresh w \<mapsto> new_Group), gw_fresh := Suc (gw_fresh w)\<rparr>)"

section \<open>Questions to a group\<close>

definition isRaidGroup :: "group \<Rightarrow> bool" where
  "isRaidGroup g = has_flag (m_groupType g) GROUPTYPE_RAID"

definition isBGGroup :: "group \<Rightarrow> bool" where
  "isBGGroup g = (m_bgGroup g \<noteq> None)"

definition GetMembersCount :: "group \<Rightarrow> nat" where
  "GetMembersCount g = length (m_memberSlots g)"

definition IsCreated :: "group \<Rightarrow> bool" where
  "IsCreated g = (GetMembersCount g > 0)"

definition IsFull :: "group \<Rightarrow> bool" where
  "IsFull g = (if isRaidGroup g then length (m_memberSlots g) \<ge> MAXRAIDSIZE else length (m_memberSlots g) \<ge> MAXGROUPSIZE)"

definition getMemberSlot :: "guid \<Rightarrow> group \<Rightarrow> member_slot option" where
  "getMemberSlot p g = find (\<lambda>m. ms_guid m = p) (m_memberSlots g)"

definition IsMember :: "guid \<Rightarrow> group \<Rightarrow> bool" where
  "IsMember p g = (getMemberSlot p g \<noteq> None)"

definition IsLeader :: "guid \<Rightarrow> group \<Rightarrow> bool" where
  "IsLeader p g = (m_leaderGuid g = p)"

definition GetMemberGUID :: "string \<Rightarrow> group \<Rightarrow> guid" where
  "GetMemberGUID name g = (case find (\<lambda>m. ms_name m = name) (m_memberSlots g) of Some m \<Rightarrow> ms_guid m | None \<Rightarrow> 0)"

definition GetMemberFlags :: "guid \<Rightarrow> group \<Rightarrow> u8" where
  "GetMemberFlags p g = (case getMemberSlot p g of Some m \<Rightarrow> ms_flags m | None \<Rightarrow> 0)"

definition IsAssistant :: "guid \<Rightarrow> group \<Rightarrow> bool" where
  "IsAssistant p g = (GetMemberFlags p g AND MEMBER_FLAG_ASSISTANT = MEMBER_FLAG_ASSISTANT)"

definition SameSubGroup :: "guid \<Rightarrow> guid \<Rightarrow> group \<Rightarrow> bool" where
  "SameSubGroup p q g =
     (case (getMemberSlot p g, getMemberSlot q g) of
        (Some m, Some n) \<Rightarrow> ms_group m = ms_group n
      | _ \<Rightarrow> False)"

definition HasFreeSlotSubGroup :: "u8 \<Rightarrow> group \<Rightarrow> bool option" where
  "HasFreeSlotSubGroup subgroup g =
     (case m_subGroupsCounts g of
        None \<Rightarrow> Some False
      | Some cs \<Rightarrow> if unat subgroup < length cs then Some (unat (cs ! unat subgroup) < MAXGROUPSIZE) else None)"

definition GetMemberGroup :: "guid \<Rightarrow> group \<Rightarrow> u8" where
  "GetMemberGroup p g = (case getMemberSlot p g of Some m \<Rightarrow> ms_group m | None \<Rightarrow> word_of_nat (MAX_RAID_SUBGROUPS + 1))"

definition GetLooterGuid :: "group \<Rightarrow> guid" where
  "GetLooterGuid g = (if m_lootMethod g = FREE_FOR_ALL then 0 else m_looterGuid g)"

definition GetTargetIcon :: "u8 \<Rightarrow> group \<Rightarrow> guid" where
  "GetTargetIcon i g = (if unat i \<ge> TARGETICONCOUNT then 0 else m_targetIcons g ! unat i)"

definition GetGroupDifficulty :: "bool \<Rightarrow> group \<Rightarrow> u8" where
  "GetGroupDifficulty isRaid g = (if isRaid then m_raidDifficulty g else m_dungeonDifficulty g)"

text \<open>
  The order of a set of pointers is that of the addresses: a search may look at any invited
  player, so all must exist.
\<close>

definition GetInvited :: "guid \<Rightarrow> group \<Rightarrow> group_world \<Rightarrow> guid option option" where
  "GetInvited p g w = (if \<forall>q \<in> set (m_invitees g). players w q \<noteq> None then Some (find (\<lambda>q. q = p) (m_invitees g)) else None)"

definition GetInvitedByName :: "string \<Rightarrow> group \<Rightarrow> group_world \<Rightarrow> guid option option" where
  "GetInvitedByName name g w =
     (if \<forall>q \<in> set (m_invitees g). players w q \<noteq> None
      then Some (find (\<lambda>q. map_option gp_name (players w q) = Some name) (m_invitees g)) else None)"

section \<open>Counters of the subgroups\<close>

text \<open>The counters are eight bytes; an index behind them is outside the array.\<close>

definition count_up :: "u8 \<Rightarrow> u8 list \<Rightarrow> u8 list option" where
  "count_up i cs = (if unat i < length cs then Some (cs[unat i := cs ! unat i + 1]) else None)"

definition count_down :: "u8 \<Rightarrow> u8 list \<Rightarrow> u8 list option" where
  "count_down i cs = (if unat i < length cs then Some (cs[unat i := cs ! unat i - 1]) else None)"

definition SubGroupCounterIncrease :: "u8 \<Rightarrow> group \<Rightarrow> group option" where
  "SubGroupCounterIncrease subgroup g =
     (case m_subGroupsCounts g of
        None \<Rightarrow> Some g
      | Some cs \<Rightarrow> map_option (\<lambda>cs. g\<lparr>m_subGroupsCounts := Some cs\<rparr>) (count_up subgroup cs))"

definition SubGroupCounterDecrease :: "u8 \<Rightarrow> group \<Rightarrow> group option" where
  "SubGroupCounterDecrease subgroup g =
     (case m_subGroupsCounts g of
        None \<Rightarrow> Some g
      | Some cs \<Rightarrow> map_option (\<lambda>cs. g\<lparr>m_subGroupsCounts := Some cs\<rparr>) (count_down subgroup cs))"

definition initRaidSubGroupsCounter :: "group \<Rightarrow> group option" where
  "initRaidSubGroupsCounter g =
     map_option (\<lambda>cs. g\<lparr>m_subGroupsCounts := Some cs\<rparr>)
       (each (\<lambda>m. count_up (ms_group m)) (m_memberSlots g) (replicate MAX_RAID_SUBGROUPS 0))"

text \<open>An assignment through the iterator of a member's slot, which is the first of his GUID.\<close>

fun on_slot :: "guid \<Rightarrow> (member_slot \<Rightarrow> member_slot) \<Rightarrow> member_slot list \<Rightarrow> member_slot list" where
  "on_slot p f [] = []"
| "on_slot p f (m # ms) = (if ms_guid m = p then f m # ms else m # on_slot p f ms)"

fun erase_slot :: "guid \<Rightarrow> member_slot list \<Rightarrow> member_slot list" where
  "erase_slot p [] = []"
| "erase_slot p (m # ms) = (if ms_guid m = p then ms else m # erase_slot p ms)"

definition ToggleGroupMemberFlag :: "guid \<Rightarrow> u8 \<Rightarrow> bool \<Rightarrow> group \<Rightarrow> group" where
  "ToggleGroupMemberFlag p fl apply g =
     g\<lparr>m_memberSlots := on_slot p (ms_flags_update (\<lambda>w. if apply then set_flag w fl else clear_flag w fl)) (m_memberSlots g)\<rparr>"

definition RemoveUniqueGroupMemberFlag :: "u8 \<Rightarrow> group \<Rightarrow> group" where
  "RemoveUniqueGroupMemberFlag fl g =
     g\<lparr>m_memberSlots := map (\<lambda>m. if has_flag (ms_flags m) fl then ms_flags_update (\<lambda>w. clear_flag w fl) m else m) (m_memberSlots g)\<rparr>"

end
