(* ===== verification/GroupMembers.thy ===== *)
theory GroupMembers
  imports Group
begin

text \<open>
  Packets, members and leader of a group, and the manager of groups
  (\<^verbatim>\<open>src/src/server/game/Groups/Group.cpp\<close>, \<^verbatim>\<open>GroupMgr.cpp\<close>). An operation of a group takes its
  address \<open>a\<close>. Instance bindings and the update of a member's fields are recorded in \<open>gw_fx\<close>.
\<close>

section \<open>Packets to the group\<close>

definition ref_subgroup :: "group_world \<Rightarrow> group_ref \<Rightarrow> u8 option" where
  "ref_subgroup w r =
     (case r of GroupRef p \<Rightarrow> map_option gp_subGroup (players w p) | OriginalRef p \<Rightarrow> map_option gp_originalSubGroup (players w p))"

definition BroadcastPacket ::
  "world_packet \<Rightarrow> bool \<Rightarrow> u8 option \<Rightarrow> guid \<Rightarrow> nat \<Rightarrow> group_world \<Rightarrow> group_world option" where
  "BroadcastPacket data ignorePlayersInBGRaid only ignored a w = do {
     g \<leftarrow> groups w a;
     Some (fold (\<lambda>r w. if ignored \<noteq> 0 \<and> GetSource r = ignored
                         \<or> ignorePlayersInBGRaid \<and> Option.bind (players w (GetSource r)) gp_m_group \<noteq> Some a
                         \<or> only \<noteq> None \<and> ref_subgroup w r \<noteq> only
                       then w else gw_send (GetSource r) data w) (m_memberMgr g) w)
   }"

definition BroadcastReadyCheck :: "world_packet \<Rightarrow> nat \<Rightarrow> group_world \<Rightarrow> group_world option" where
  "BroadcastReadyCheck data a w = do {
     g \<leftarrow> groups w a;
     Some (fold (\<lambda>r w. if IsLeader (GetSource r) g \<or> IsAssistant (GetSource r) g then gw_send (GetSource r) data w else w)
             (m_memberMgr g) w)
   }"

definition OfflineReadyCheck :: "nat \<Rightarrow> group_world \<Rightarrow> group_world option" where
  "OfflineReadyCheck a w = do {
     g \<leftarrow> groups w a;
     each (\<lambda>m w. if gw_FindPlayer w (ms_guid m) then Some w
                   else BroadcastReadyCheck (put_u8 0 (put_u64 (ms_guid m) (wp_new MSG_RAID_READY_CHECK_CONFIRM))) a w)
       (m_memberSlots g) w
   }"

definition online_state :: "group \<Rightarrow> group_world \<Rightarrow> guid \<Rightarrow> u8" where
  "online_state g w p =
     (if gw_connected w p \<and> map_option gp_logout (players w p) = Some False then MEMBER_STATUS_ONLINE else MEMBER_STATUS_OFFLINE)
     OR (if isBGGroup g then MEMBER_STATUS_PVP else 0)"

definition put_member :: "group \<Rightarrow> group_world \<Rightarrow> member_slot \<Rightarrow> world_packet \<Rightarrow> world_packet" where
  "put_member g w m data =
     put_u8 (ms_flags m) (put_u8 (ms_group m) (put_u8 (online_state g w (ms_guid m))
       (put_u64 (ms_guid m) (put_string (ms_name m) data))))"

definition group_list_packet :: "group \<Rightarrow> group_world \<Rightarrow> member_slot \<Rightarrow> world_packet" where
  "group_list_packet g w slot =
     (let data = put_u8 (ms_flags slot) (put_u8 (ms_group slot) (put_u8 (if isBGGroup g then 1 else 0)
                   (put_u8 (m_groupType g) (wp_new SMSG_GROUP_LIST))));
          data = put_u32 (word_of_nat (GetMembersCount g) - 1) (put_u64 0x50000000FFFFFFFE data);
          data = fold (\<lambda>m data. if ms_guid slot = ms_guid m then data else put_member g w m data) (m_memberSlots g) data;
          data = put_u64 (m_leaderGuid g) data
      in if word_of_nat (GetMembersCount g) - 1 \<noteq> (0 :: u32)
         then put_u8 (m_dungeonDifficulty g) (put_u8 (ucast (m_lootThreshold g))
                (put_u64 (if m_lootMethod g = MASTER_LOOT then m_masterLooterGuid g else 0) (put_u8 (ucast (m_lootMethod g)) data)))
         else data)"

definition SendUpdateToPlayer :: "nat \<Rightarrow> guid \<Rightarrow> group_world \<Rightarrow> group_world option" where
  "SendUpdateToPlayer a p w = do {
     g \<leftarrow> groups w a;
     Some (if gw_FindPlayer w p \<and> Option.bind (players w p) gp_m_group = Some a
           then (case getMemberSlot p g of None \<Rightarrow> w | Some slot \<Rightarrow> gw_send p (group_list_packet g w slot) w)
           else w)
   }"

definition SendUpdate :: "nat \<Rightarrow> group_world \<Rightarrow> group_world option" where
  "SendUpdate a w = do { g \<leftarrow> groups w a; each (\<lambda>m. SendUpdateToPlayer a (ms_guid m)) (m_memberSlots g) w }"

definition BroadcastGroupUpdate :: "nat \<Rightarrow> group_world \<Rightarrow> group_world option" where
  "BroadcastGroupUpdate a w = do {
     g \<leftarrow> groups w a;
     Some (fold (\<lambda>m w. if gw_FindPlayer w (ms_guid m) then gw_effect (ForceValuesUpdate (ms_guid m)) w else w) (m_memberSlots g) w)
   }"

definition UpdatePlayerOutOfRange :: "group_env \<Rightarrow> nat \<Rightarrow> guid \<Rightarrow> group_world \<Rightarrow> group_world option" where
  "UpdatePlayerOutOfRange env a p w = do {
     g \<leftarrow> groups w a;
     pl \<leftarrow> players w p;
     Some (if gp_in_world pl
           then fold (\<lambda>r w. if GetSource r \<noteq> p \<and> ge_OutOfRange env (GetSource r) p
                             then gw_effect (PartyMemberStats (GetSource r) p) w else w) (m_memberMgr g) w
           else w)
   }"

definition put_packed :: "guid \<Rightarrow> world_packet \<Rightarrow> world_packet" where
  "put_packed g data = snd (shl_packed_guid (packed_guid g) data)"

definition SendLooter :: "guid \<Rightarrow> bool \<Rightarrow> guid option \<Rightarrow> nat \<Rightarrow> group_world \<Rightarrow> group_world option" where
  "SendLooter creature overThreshold groupLooter a w = do {
     g \<leftarrow> groups w a;
     let data = put_u64 creature (wp_new SMSG_LOOT_LIST);
     let data = (if m_lootMethod g = MASTER_LOOT \<and> overThreshold then put_packed (m_masterLooterGuid g) data else put_u8 0 data);
     let data = (case groupLooter of Some p \<Rightarrow> put_packed p data | None \<Rightarrow> put_u8 0 data);
     BroadcastPacket data False None 0 a w
   }"

section \<open>Target icons\<close>

definition set_icon :: "u8 \<Rightarrow> guid \<Rightarrow> nat \<Rightarrow> group_world \<Rightarrow> group_world option" where
  "set_icon i target a w = do {
     w \<leftarrow> on_group a (\<lambda>g. g\<lparr>m_targetIcons := (m_targetIcons g)[unat i := target]\<rparr>) w;
     BroadcastPacket (put_u64 target (put_u8 i (put_u8 0 (wp_new MSG_RAID_TARGET_UPDATE)))) True None 0 a w
   }"

definition SetTargetIcon :: "u8 \<Rightarrow> guid \<Rightarrow> nat \<Rightarrow> group_world \<Rightarrow> group_world option" where
  "SetTargetIcon i target a w =
     (if unat i \<ge> TARGETICONCOUNT then Some w
      else do {
        w \<leftarrow> (if target \<noteq> 0
              then each (\<lambda>k w. do {
                     g \<leftarrow> groups w a;
                     if m_targetIcons g ! k = target then set_icon (word_of_nat k) 0 a w else Some w
                   }) [0..<TARGETICONCOUNT] w
              else Some w);
        set_icon i target a w
      })"

definition SendTargetIconList :: "nat \<Rightarrow> guid \<Rightarrow> group_world \<Rightarrow> group_world option" where
  "SendTargetIconList a p w = do {
     g \<leftarrow> groups w a;
     Some (gw_send p
       (fold (\<lambda>i data. if m_targetIcons g ! i = 0 then data else put_u64 (m_targetIcons g ! i) (put_u8 (word_of_nat i) data))
          [0..<TARGETICONCOUNT] (put_u8 1 (wp_new MSG_RAID_TARGET_UPDATE))) w)
   }"

section \<open>Invitations\<close>

definition SetGroupInvite :: "nat option \<Rightarrow> guid \<Rightarrow> group_world \<Rightarrow> group_world option" where
  "SetGroupInvite target p = on_player p (gp_invite_update (\<lambda>_. target))"

definition RemoveInvite :: "guid \<Rightarrow> nat \<Rightarrow> group_world \<Rightarrow> group_world option" where
  "RemoveInvite p a w = do {
     w \<leftarrow> on_group a (\<lambda>g. g\<lparr>m_invitees := removeAll p (m_invitees g)\<rparr>) w;
     SetGroupInvite None p w
   }"

definition RemoveAllInvites :: "nat \<Rightarrow> group_world \<Rightarrow> group_world option" where
  "RemoveAllInvites a w = do {
     g \<leftarrow> groups w a;
     w \<leftarrow> each (SetGroupInvite None) (m_invitees g) w;
     on_group a (\<lambda>g. g\<lparr>m_invitees := []\<rparr>) w
   }"

text \<open>The group the player is in, or his own while he is in the raid of a battleground.\<close>

definition own_group :: "guid \<Rightarrow> group_world \<Rightarrow> nat option option" where
  "own_group p w = do {
     pl \<leftarrow> players w p;
     (case gp_m_group pl of
        None \<Rightarrow> Some None
      | Some b \<Rightarrow> do { g \<leftarrow> groups w b; Some (if isBGGroup g then gp_m_originalGroup pl else Some b) })
   }"

definition AddInvite :: "guid \<Rightarrow> nat \<Rightarrow> group_world \<Rightarrow> (bool \<times> group_world) option" where
  "AddInvite p a w = do {
     pl \<leftarrow> players w p;
     if gp_invite pl \<noteq> None then Some (False, w)
     else do {
       own \<leftarrow> own_group p w;
       if own \<noteq> None then Some (False, w)
       else do {
         w \<leftarrow> RemoveInvite p a w;
         w \<leftarrow> on_group a (\<lambda>g. g\<lparr>m_invitees := p # m_invitees g\<rparr>) w;
         w \<leftarrow> SetGroupInvite (Some a) p w;
         Some (True, w)
       }
     }
   }"

definition AddLeaderInvite :: "guid \<Rightarrow> nat \<Rightarrow> group_world \<Rightarrow> (bool \<times> group_world) option" where
  "AddLeaderInvite p a w = do {
     (ok, w) \<leftarrow> AddInvite p a w;
     if \<not> ok then Some (False, w)
     else do {
       pl \<leftarrow> players w p;
       w \<leftarrow> on_group a (\<lambda>g. g\<lparr>m_leaderGuid := p, m_leaderName := gp_name pl\<rparr>) w;
       Some (True, w)
     }
   }"

section \<open>The group manager\<close>

definition GenerateGroupId :: "group_world \<Rightarrow> u32 \<times> group_world" where
  "GenerateGroupId w =
     (let w = (if NextGroupId w \<ge> 0xFFFFFFFE then gw_effect StopNow w else w)
      in (NextGroupId w, w\<lparr>NextGroupId := NextGroupId w + 1\<rparr>))"

function find_store_id :: "nat option list \<Rightarrow> nat \<Rightarrow> nat option" where
  "find_store_id db i =
     (if i \<ge> 0xFFFFFFFF then None
      else if i < length db \<and> db ! i = None \<or> i \<ge> length db then Some i
      else find_store_id db (Suc i))"
  by pat_completeness auto
termination by (relation "measure (\<lambda>(_, i). 0xFFFFFFFF - i)") auto

declare find_store_id.simps [simp del]

definition GenerateNewGroupDbStoreId :: "group_world \<Rightarrow> u32 \<times> group_world" where
  "GenerateNewGroupDbStoreId w =
     (let newStorageId = NextGroupDbStoreId w;
          w = w\<lparr>NextGroupDbStoreId := newStorageId + 1\<rparr>;
          w = (case find_store_id (GroupDbStore w) (unat (NextGroupDbStoreId w)) of
                 Some i \<Rightarrow> w\<lparr>NextGroupDbStoreId := word_of_nat i\<rparr> | None \<Rightarrow> w);
          w = (if newStorageId = NextGroupDbStoreId w then gw_effect StopNow w else w)
      in (newStorageId, w))"

definition RegisterGroupDbStoreId :: "u32 \<Rightarrow> nat \<Rightarrow> group_world \<Rightarrow> group_world" where
  "RegisterGroupDbStoreId storageId a w =
     (let db = (if unat storageId \<ge> length (GroupDbStore w)
                then GroupDbStore w @ replicate (unat storageId + 1 - length (GroupDbStore w)) None
                else GroupDbStore w)
      in w\<lparr>GroupDbStore := db[unat storageId := Some a]\<rparr>)"

definition FreeGroupDbStoreId :: "u32 \<Rightarrow> group_world \<Rightarrow> group_world option" where
  "FreeGroupDbStoreId storageId w =
     (let w = (if storageId < NextGroupDbStoreId w then w\<lparr>NextGroupDbStoreId := storageId\<rparr> else w)
      in if unat storageId < length (GroupDbStore w) then Some (w\<lparr>GroupDbStore := (GroupDbStore w)[unat storageId := None]\<rparr>)
         else None)"

definition GetGroupByDbStoreId :: "u32 \<Rightarrow> group_world \<Rightarrow> nat option" where
  "GetGroupByDbStoreId storageId w =
     (if unat storageId < length (GroupDbStore w) then GroupDbStore w ! unat storageId else None)"

definition GetGroupByGUID :: "u32 \<Rightarrow> group_world \<Rightarrow> nat option" where
  "GetGroupByGUID groupId w = smap_find (GroupStore w) groupId"

definition AddGroup :: "nat \<Rightarrow> group_world \<Rightarrow> group_world option" where
  "AddGroup a w = do { g \<leftarrow> groups w a; Some (w\<lparr>GroupStore := smap_put (GetCounter (m_guid g)) a (GroupStore w)\<rparr>) }"

definition RemoveGroup :: "nat \<Rightarrow> group_world \<Rightarrow> group_world option" where
  "RemoveGroup a w = do { g \<leftarrow> groups w a; Some (w\<lparr>GroupStore := smap_erase (GetCounter (m_guid g)) (GroupStore w)\<rparr>) }"

section \<open>Members\<close>

text \<open>The first subgroup with a free place; 0 without counters.\<close>

definition first_free_subgroup :: "group \<Rightarrow> u8 option" where
  "first_free_subgroup g =
     (case m_subGroupsCounts g of
        None \<Rightarrow> Some 0
      | Some cs \<Rightarrow> map_option word_of_nat (find (\<lambda>i. unat (cs ! i) < MAXGROUPSIZE) [0..<MAX_RAID_SUBGROUPS]))"

definition change_group :: "nat \<Rightarrow> (group \<Rightarrow> group option) \<Rightarrow> group_world \<Rightarrow> group_world option" where
  "change_group a f w = do { g \<leftarrow> groups w a; g \<leftarrow> f g; Some (w\<lparr>groups := (groups w)(a \<mapsto> g)\<rparr>) }"

text \<open>Where \<open>AddMember\<close> links the player.\<close>

definition link_member :: "nat \<Rightarrow> u8 \<Rightarrow> guid \<Rightarrow> group_world \<Rightarrow> group_world option" where
  "link_member a subGroup p w = do {
     g \<leftarrow> groups w a;
     pl \<leftarrow> players w p;
     if gp_m_group pl \<noteq> None
     then (if isBGGroup g then SetBattlegroundRaid a subGroup p w else SetOriginalGroup (Some a) subGroup p w)
     else Player_SetGroup (Some a) subGroup p w
   }"

definition exchange_fields :: "group_env \<Rightarrow> guid \<Rightarrow> group_ref list \<Rightarrow> group_world \<Rightarrow> group_world" where
  "exchange_fields env p refs w =
     fold (\<lambda>r w. if GetSource r = p then w else gw_effect (ExchangeMemberFields p (GetSource r)) w) refs w"

text \<open>What \<open>AddMember\<close> does once the member is entered and linked.\<close>

definition greet_member :: "group_env \<Rightarrow> nat \<Rightarrow> guid \<Rightarrow> group_world \<Rightarrow> group_world option" where
  "greet_member env a p w = do {
     w \<leftarrow> SendUpdate a w;
     g \<leftarrow> groups w a;
     let w = (if \<not> IsLeader p g \<and> \<not> isBGGroup g
              then let w = gw_effect (ResetPlayerInstances p) w in
                   if ge_Level env p \<ge> LEVELREQUIREMENT_HEROIC \<and> ge_Difficulty env p \<noteq> GetGroupDifficulty False g
                   then gw_effect (SetPlayerDifficulty p (GetGroupDifficulty False g)) w else w
              else w);
     w \<leftarrow> UpdatePlayerOutOfRange env a p (gw_effect (GroupUpdateFull p) w);
     let w = (if isRaidGroup g then gw_effect (UpdateForQuestWorldObjects p) w else w);
     Some (exchange_fields env p (m_memberMgr g) w)
   }"

definition AddMember ::
  "group_env \<Rightarrow> nat \<Rightarrow> guid \<Rightarrow> group_stmt list \<Rightarrow> group_world \<Rightarrow> (bool \<times> group_stmt list \<times> group_world) option" where
  "AddMember env a p stmts w = do {
     g \<leftarrow> groups w a;
     (case first_free_subgroup g of
        None \<Rightarrow> Some (False, stmts, w)
      | Some subGroup \<Rightarrow> do {
          pl \<leftarrow> players w p;
          w \<leftarrow> change_group a (\<lambda>g. SubGroupCounterIncrease subGroup (g\<lparr>m_memberSlots := m_memberSlots g @
                 [\<lparr>ms_guid = p, ms_name = gp_name pl, ms_group = subGroup, ms_flags = 0, ms_roles = 0\<rparr>]\<rparr>)) w;
          w \<leftarrow> SetGroupInvite None p w;
          w \<leftarrow> link_member a subGroup p w;
          let w = gw_effect (SetInstanceValid p (ge_CheckInstanceValidity env p)) w;
          w \<leftarrow> on_group a (\<lambda>g. if isRaidGroup g then g else g\<lparr>m_targetIcons := replicate TARGETICONCOUNT 0\<rparr>) w;
          let stmts = (if \<not> isBGGroup g \<and> \<not> gp_bot pl
                       then stmts @ [InsertGroupMember (m_dbStoreId g) (GetCounter p) 0 subGroup 0] else stmts);
          w \<leftarrow> greet_member env a p w;
          Some (True, stmts, w)
        })
   }"

definition SetLeaderFlag :: "bool \<Rightarrow> guid \<Rightarrow> group_world \<Rightarrow> group_world option" where
  "SetLeaderFlag v p = on_player p (gp_leader_flag_update (\<lambda>_. v))"

definition insert_group_stmt :: "group \<Rightarrow> group_stmt" where
  "insert_group_stmt g =
     InsertGroup (m_dbStoreId g) (GetCounter (m_leaderGuid g)) (ucast (ucast (m_lootMethod g) :: u8)) (GetCounter (m_looterGuid g))
       (ucast (ucast (m_lootThreshold g) :: u8)) (m_targetIcons g) (m_groupType g) (m_dungeonDifficulty g) (m_raidDifficulty g)
       (GetCounter (m_masterLooterGuid g))"

text \<open>What \<open>Create\<close> sets before it adds the leader.\<close>

definition found_group :: "group_env \<Rightarrow> nat \<Rightarrow> guid \<Rightarrow> group_world \<Rightarrow> group_world option" where
  "found_group env a leader w = do {
     pl \<leftarrow> players w leader;
     let (lowguid, w) = GenerateGroupId w;
     w \<leftarrow> SetLeaderFlag True leader w;
     w \<leftarrow> change_group a (\<lambda>g.
       let g = g\<lparr>m_guid := mk_guid HighGuid_Group lowguid, m_leaderGuid := leader, m_leaderName := gp_name pl,
                 m_groupType := (if isBGGroup g then GROUPTYPE_RAID else GROUPTYPE_NORMAL)\<rparr> in do {
         g \<leftarrow> (if m_groupType g = GROUPTYPE_RAID then initRaidSubGroupsCounter g else Some g);
         Some (g\<lparr>m_lootMethod := GROUP_LOOT, m_lootThreshold := ITEM_QUALITY_UNCOMMON, m_looterGuid := leader,
                 m_masterLooterGuid := 0, m_dungeonDifficulty := 0, m_raidDifficulty := 0\<rparr>)
       }) w;
     g \<leftarrow> groups w a;
     if isBGGroup g then Some w
     else do {
       let (storageId, w) = GenerateNewGroupDbStoreId w;
       w \<leftarrow> on_group a (\<lambda>g. g\<lparr>m_dungeonDifficulty := ge_Difficulty env leader, m_dbStoreId := storageId\<rparr>) w;
       Some (RegisterGroupDbStoreId storageId a w)
     }
   }"

text \<open>A leader who cannot be added is a failed assertion, except in a battleground.\<close>

definition Group_Create ::
  "group_env \<Rightarrow> nat \<Rightarrow> guid \<Rightarrow> group_stmt list \<Rightarrow> group_world \<Rightarrow> (bool \<times> group_stmt list \<times> group_world) option" where
  "Group_Create env a leader stmts w = do {
     pl \<leftarrow> players w leader;
     w \<leftarrow> found_group env a leader w;
     g \<leftarrow> groups w a;
     let stmts = (if isBGGroup g \<or> gp_bot pl then stmts else stmts @ [insert_group_stmt g]);
     let w = (if isBGGroup g then w else gw_effect (ConvertLeaderInstances leader a False) w);
     (ok, stmts, w) \<leftarrow> AddMember env a leader stmts w;
     if ok \<or> isBGGroup g then Some (ok, stmts, w) else None
   }"

section \<open>The leader\<close>

definition ChangeLeader :: "group_env \<Rightarrow> nat \<Rightarrow> guid \<Rightarrow> group_world \<Rightarrow> group_world option" where
  "ChangeLeader env a p w = do {
     g \<leftarrow> groups w a;
     (case getMemberSlot p g of
        None \<Rightarrow> Some w
      | Some slot \<Rightarrow>
          if \<not> gw_connected w p then Some w
          else do {
            newLeader \<leftarrow> players w p;
            let w = (if isBGGroup g then w
                     else Execute (UpdateGroupLeader (GetCounter p) (m_dbStoreId g))
                            (gw_effect (ConvertLeaderInstances p a True) (gw_effect (RemovePermanentBinds a) w)));
            w \<leftarrow> (if gw_connected w (m_leaderGuid g) then SetLeaderFlag False (m_leaderGuid g) w else Some w);
            w \<leftarrow> SetLeaderFlag True p w;
            w \<leftarrow> on_group a (\<lambda>g. ToggleGroupMemberFlag p MEMBER_FLAG_ASSISTANT False
                   (g\<lparr>m_leaderGuid := p, m_leaderName := gp_name newLeader\<rparr>)) w;
            w \<leftarrow> BroadcastPacket (put_string (ms_name slot) (wp_new SMSG_GROUP_SET_LEADER)) True None 0 a w;
            SendUpdate a w
          })
   }"

definition ChangeLeaderToFirstOnlineMember :: "group_env \<Rightarrow> nat \<Rightarrow> group_world \<Rightarrow> (bool \<times> group_world) option" where
  "ChangeLeaderToFirstOnlineMember env a w = do {
     g \<leftarrow> groups w a;
     (case find (\<lambda>r. map_option gp_in_world (players w (GetSource r)) = Some True \<and> GetSource r \<noteq> m_leaderGuid g) (m_memberMgr g) of
        None \<Rightarrow> Some (False, w)
      | Some r \<Rightarrow> map_option (Pair True) (ChangeLeader env a (GetSource r) w))
   }"

definition CheckLeader :: "group_env \<Rightarrow> nat \<Rightarrow> guid \<Rightarrow> bool \<Rightarrow> group_world \<Rightarrow> group_world option" where
  "CheckLeader env a p isLogout w = do {
     g \<leftarrow> groups w a;
     if IsLeader p g
     then on_group a (\<lambda>g. g\<lparr>m_leaderLogoutTime := (if isLogout then ge_GameTime env else 0)\<rparr>) w
     else if \<not> isLogout \<and> m_leaderLogoutTime g = 0
     then (if m_leaderGuid g \<notin> GetSource ` set (m_memberMgr g)
              \<or> map_option gp_in_world (players w (m_leaderGuid g)) \<noteq> Some True
           then on_group a (\<lambda>g. g\<lparr>m_leaderLogoutTime := ge_GameTime env\<rparr>) w else Some w)
     else Some w
   }"

definition Group_Update :: "group_env \<Rightarrow> nat \<Rightarrow> group_world \<Rightarrow> group_world option" where
  "Group_Update env a w = do {
     g \<leftarrow> groups w a;
     if m_leaderLogoutTime g \<noteq> 0 \<and> ge_GameTime env > m_leaderLogoutTime g + ge_reconnect_period env
     then do {
       (_, w) \<leftarrow> ChangeLeaderToFirstOnlineMember env a w;
       on_group a (\<lambda>g. g\<lparr>m_leaderLogoutTime := 0\<rparr>) w
     }
     else Some w
   }"

definition GroupMgr_Update :: "group_env \<Rightarrow> group_world \<Rightarrow> group_world option" where
  "GroupMgr_Update env w = each (\<lambda>(_, a). Group_Update env a) (GroupStore w) w"

end
