(* ===== verification/GroupLeave.thy ===== *)
theory GroupLeave
  imports GroupMembers
begin

text \<open>
  Leaving and disbanding, the raid, the round robin and loading
  (\<^verbatim>\<open>src/src/server/game/Groups/Group.cpp\<close>, \<^verbatim>\<open>GroupMgr.cpp\<close>), and what a player does to his
  group when he logs in and out (\<^verbatim>\<open>game/Entities/Player/Player.cpp\<close>, \<^verbatim>\<open>game/Server/WorldSession.cpp\<close>).
\<close>

section \<open>Loot rolls of a group\<close>

text \<open>
  A loot operation of \<open>GroupRolls\<close> on the rolls of the group and the loots of the world. What the
  players have been given before is in \<open>gw_fx\<close>.
\<close>

definition loot_env_of :: "group_env \<Rightarrow> group_world \<Rightarrow> loot_env" where
  "loot_env_of env w = (ge_loot env)\<lparr>le_connected := gw_connected w,
     le_in_world := (\<lambda>p. map_option gp_in_world (players w p) = Some True), le_session := (\<lambda>_. True)\<rparr>"

definition loot_history :: "group_world \<Rightarrow> loot_effect list" where
  "loot_history w = List.map_filter (\<lambda>e. case e of GroupLootFx x \<Rightarrow> Some x | _ \<Rightarrow> None) (gw_fx w)"

definition with_rolls :: "nat \<Rightarrow> (roll_state \<Rightarrow> roll_state option) \<Rightarrow> group_world \<Rightarrow> group_world option" where
  "with_rolls a f w = do {
     g \<leftarrow> groups w a;
     s \<leftarrow> f \<lparr>RollId = m_RollId g, loots = gw_loots w, rs_draws = gw_draws w, rs_items = gw_items w, loot_fx = loot_history w\<rparr>;
     Some (w\<lparr>groups := (groups w)(a \<mapsto> g\<lparr>m_RollId := RollId s\<rparr>), gw_loots := loots s, gw_draws := rs_draws s, gw_items := rs_items s,
             gw_fx := gw_fx w @ map GroupLootFx (drop (length (loot_history w)) (loot_fx s))\<rparr>)
   }"

section \<open>Disbanding\<close>

definition remove_buffs :: "guid \<Rightarrow> group_ref list \<Rightarrow> group_world \<Rightarrow> group_world" where
  "remove_buffs p refs w =
     fold (\<lambda>r w. if GetSource r = p then w
                  else gw_effect (RemoveAllGroupBuffsFromCaster p (GetSource r))
                         (gw_effect (RemoveAllGroupBuffsFromCaster (GetSource r) p) w)) refs w"

definition homebindIfInstance :: "group_env \<Rightarrow> group \<Rightarrow> guid \<Rightarrow> group_world \<Rightarrow> group_world" where
  "homebindIfInstance env g p w =
     (if \<not> ge_IsGameMaster env p \<and> ge_InDungeon env p \<and> m_leaderGuid g \<noteq> p \<and> \<not> ge_PermBound env p
      then gw_effect (SetInstanceValid p False) w else w)"

definition gone_packet :: "group \<Rightarrow> world_packet" where
  "gone_packet g = put_u64 0 (put_u64 0 (put_u64 (m_guid g) (wp_new SMSG_GROUP_LIST)))"

text \<open>The reference a player has to the group is cut.\<close>

definition leave_ref :: "nat \<Rightarrow> guid \<Rightarrow> group_world \<Rightarrow> group_world option" where
  "leave_ref a p w = do {
     g \<leftarrow> groups w a;
     pl \<leftarrow> players w p;
     if isBGGroup g then RemoveFromBattlegroundRaid p w
     else if gp_m_originalGroup pl = Some a then SetOriginalGroup None 0 p w
     else Player_SetGroup None 0 p w
   }"

definition disband_member :: "group_env \<Rightarrow> bool \<Rightarrow> nat \<Rightarrow> member_slot \<Rightarrow> group_world \<Rightarrow> group_world option" where
  "disband_member env hideDestroy a m w =
     (if \<not> gw_connected w (ms_guid m) then Some w
      else do {
        let p = ms_guid m;
        g \<leftarrow> groups w a;
        w \<leftarrow> leave_ref a p (remove_buffs p (m_memberMgr g) w);
        g \<leftarrow> groups w a;
        let w = (if isRaidGroup g then gw_effect (UpdateForQuestWorldObjects p) w else w);
        let w = (if hideDestroy then w else gw_send p (wp_new SMSG_GROUP_DESTROYED) w);
        pl \<leftarrow> players w p;
        w \<leftarrow> (case gp_m_group pl of Some b \<Rightarrow> SendUpdate b w | None \<Rightarrow> Some (gw_send p (gone_packet g) w));
        SetLeaderFlag False p (homebindIfInstance env g p w)
      })"

definition Disband :: "group_env \<Rightarrow> bool \<Rightarrow> nat \<Rightarrow> group_world \<Rightarrow> group_world option" where
  "Disband env hideDestroy a w = do {
     g \<leftarrow> groups w a;
     w \<leftarrow> each (disband_member env hideDestroy a) (m_memberSlots g) w;
     w \<leftarrow> on_group a (\<lambda>g. g\<lparr>m_RollId := [], m_memberSlots := []\<rparr>) w;
     w \<leftarrow> RemoveAllInvites a w;
     w \<leftarrow> (if isBGGroup g then Some w
           else FreeGroupDbStoreId (m_dbStoreId g)
                  (gw_effect (ResetGroupInstances a)
                    (CommitTransaction [DeleteGroup (m_dbStoreId g), DeleteGroupMembers (m_dbStoreId g)] w)));
     w \<leftarrow> RemoveGroup a w;
     delete_group a w
   }"

section \<open>Leaving\<close>

definition part_member :: "group_env \<Rightarrow> nat \<Rightarrow> guid \<Rightarrow> bool \<Rightarrow> group_world \<Rightarrow> group_world option" where
  "part_member env a p kicked w = do {
     w \<leftarrow> leave_ref a p w;
     g \<leftarrow> groups w a;
     let w = (if isBGGroup g then w else gw_effect (UpdateForQuestWorldObjects p) w);
     let w = (if kicked then gw_send p (wp_new SMSG_GROUP_UNINVITE) w else w);
     Some (homebindIfInstance env g p (gw_send p (gone_packet g) w))
   }"

definition erase_member :: "nat \<Rightarrow> guid \<Rightarrow> group_world \<Rightarrow> group_world option" where
  "erase_member a p =
     change_group a (\<lambda>g. case getMemberSlot p g of
       None \<Rightarrow> Some g
     | Some m \<Rightarrow> map_option (\<lambda>g. g\<lparr>m_memberSlots := erase_slot p (m_memberSlots g)\<rparr>) (SubGroupCounterDecrease (ms_group m) g))"

definition next_leader :: "group_env \<Rightarrow> nat \<Rightarrow> guid \<Rightarrow> group_world \<Rightarrow> group_world option" where
  "next_leader env a p w = do {
     g \<leftarrow> groups w a;
     if m_leaderGuid g \<noteq> p then Some w
     else (case find (\<lambda>m. gw_connected w (ms_guid m)) (m_memberSlots g) of
             None \<Rightarrow> Some w
           | Some m \<Rightarrow> ChangeLeader env a (ms_guid m) w)
   }"

text \<open>The member out of the references, the rolls, the slots and the counters.\<close>

definition take_out :: "group_env \<Rightarrow> nat \<Rightarrow> guid \<Rightarrow> bool \<Rightarrow> group_world \<Rightarrow> group_world option" where
  "take_out env a p kicked w = do {
     g \<leftarrow> groups w a;
     w \<leftarrow> (if gw_connected w p then part_member env a p kicked w else Some w);
     w \<leftarrow> (if isBGGroup g then Some w else DelinkMember a p (Execute (DeleteGroupMember (GetCounter p)) w));
     w \<leftarrow> with_rolls a (leave_rolls (loot_env_of env w) p) w;
     erase_member a p w
   }"

definition RemoveMember :: "group_env \<Rightarrow> nat \<Rightarrow> guid \<Rightarrow> bool \<Rightarrow> group_world \<Rightarrow> (bool \<times> group_world) option" where
  "RemoveMember env a p kicked w = do {
     w \<leftarrow> BroadcastGroupUpdate a w;
     g \<leftarrow> groups w a;
     let w = (if gw_connected w p then remove_buffs p (m_memberMgr g) w else w);
     if GetMembersCount g > (if isBGGroup g then 1 else 2)
     then do {
       w \<leftarrow> take_out env a p kicked w;
       w \<leftarrow> next_leader env a p w;
       w \<leftarrow> SendUpdate a w;
       g \<leftarrow> groups w a;
       w \<leftarrow> (if length (m_memberMgr g) < (if isBGGroup g then 1 else 2) then Disband env False a w else Some w);
       Some (True, w)
     }
     else map_option (Pair False) (Disband env False a w)
   }"

text \<open>\<open>Player::UninviteFromGroup\<close>, \<open>Player::RemoveFromGroup\<close>.\<close>

definition UninviteFromGroup :: "group_env \<Rightarrow> guid \<Rightarrow> group_world \<Rightarrow> group_world option" where
  "UninviteFromGroup env p w = do {
     pl \<leftarrow> players w p;
     (case gp_invite pl of
        None \<Rightarrow> Some w
      | Some a \<Rightarrow> do {
          w \<leftarrow> RemoveInvite p a w;
          g \<leftarrow> groups w a;
          if IsCreated g then (if GetMembersCount g \<le> 1 then Disband env True a w else Some w)
          else if length (m_invitees g) \<le> 1 then do { w \<leftarrow> RemoveAllInvites a w; delete_group a w }
          else Some w
        })
   }"

definition RemoveFromGroup :: "group_env \<Rightarrow> nat option \<Rightarrow> guid \<Rightarrow> bool \<Rightarrow> group_world \<Rightarrow> group_world option" where
  "RemoveFromGroup env target p kicked w =
     (case target of None \<Rightarrow> Some w | Some a \<Rightarrow> map_option snd (RemoveMember env a p kicked w))"

section \<open>The raid\<close>

definition ConvertToRaid :: "nat \<Rightarrow> group_world \<Rightarrow> group_world option" where
  "ConvertToRaid a w = do {
     w \<leftarrow> change_group a (\<lambda>g. initRaidSubGroupsCounter (g\<lparr>m_groupType := set_flag (m_groupType g) GROUPTYPE_RAID\<rparr>)) w;
     g \<leftarrow> groups w a;
     let w = (if isBGGroup g then w else Execute (UpdateGroupType (m_groupType g) (m_dbStoreId g)) w);
     w \<leftarrow> SendUpdate a w;
     Some (fold (\<lambda>m w. if gw_FindPlayer w (ms_guid m) then gw_effect (UpdateForQuestWorldObjects (ms_guid m)) w else w)
             (m_memberSlots g) w)
   }"

definition setMembersGroup :: "nat \<Rightarrow> guid \<Rightarrow> u8 \<Rightarrow> group_world \<Rightarrow> (bool \<times> group_world) option" where
  "setMembersGroup a p subgroup w = do {
     g \<leftarrow> groups w a;
     if getMemberSlot p g = None then Some (False, w)
     else do {
       w \<leftarrow> change_group a (\<lambda>g. SubGroupCounterIncrease subgroup
              (g\<lparr>m_memberSlots := on_slot p (ms_group_update (\<lambda>_. subgroup)) (m_memberSlots g)\<rparr>)) w;
       Some (True, if isBGGroup g then w else Execute (UpdateMemberSubgroup subgroup (GetCounter p)) w)
     }
   }"

definition ChangeMembersGroup :: "nat \<Rightarrow> guid \<Rightarrow> u8 \<Rightarrow> group_world \<Rightarrow> group_world option" where
  "ChangeMembersGroup a p subgroup w = do {
     g \<leftarrow> groups w a;
     if \<not> isRaidGroup g \<or> getMemberSlot p g = None then Some w
     else
       let prevSubGroup = GetMemberGroup p g in
       if prevSubGroup = subgroup then Some w
       else do {
         w \<leftarrow> on_group a (\<lambda>g. g\<lparr>m_memberSlots := on_slot p (ms_group_update (\<lambda>_. subgroup)) (m_memberSlots g)\<rparr>) w;
         w \<leftarrow> change_group a (SubGroupCounterIncrease subgroup) w;
         w \<leftarrow> change_group a (SubGroupCounterDecrease prevSubGroup) w;
         let w = (if isBGGroup g then w else Execute (UpdateMemberSubgroup subgroup (GetCounter p)) w);
         w \<leftarrow> (if gw_connected w p
               then (if Option.bind (players w p) gp_m_group = Some a
                     then on_player p (gp_subGroup_update (\<lambda>_. subgroup)) w
                     else on_player p (gp_originalSubGroup_update (\<lambda>_. subgroup)) w)
               else Some w);
         SendUpdate a w
       }
   }"

definition SetGroupMemberFlag :: "nat \<Rightarrow> guid \<Rightarrow> bool \<Rightarrow> u8 \<Rightarrow> group_world \<Rightarrow> group_world option" where
  "SetGroupMemberFlag a p apply fl w = do {
     g \<leftarrow> groups w a;
     if \<not> isRaidGroup g \<or> getMemberSlot p g = None
        \<or> fl \<notin> {MEMBER_FLAG_MAINASSIST, MEMBER_FLAG_MAINTANK, MEMBER_FLAG_ASSISTANT} then Some w
     else do {
       w \<leftarrow> on_group a (\<lambda>g. ToggleGroupMemberFlag p fl apply
              (if fl = MEMBER_FLAG_ASSISTANT then g else RemoveUniqueGroupMemberFlag fl g)) w;
       g \<leftarrow> groups w a;
       SendUpdate a (Execute (UpdateMemberFlag (GetMemberFlags p g) (GetCounter p)) w)
     }
   }"

definition MAX_DIFFICULTY :: nat where "MAX_DIFFICULTY = 2"

definition SetGroupDifficulty :: "nat \<Rightarrow> u8 \<Rightarrow> group_world \<Rightarrow> group_world option" where
  "SetGroupDifficulty a difficulty w =
     (if unat difficulty \<ge> MAX_DIFFICULTY then None
      else do {
        w \<leftarrow> on_group a (\<lambda>g. g\<lparr>m_dungeonDifficulty := difficulty\<rparr>) w;
        g \<leftarrow> groups w a;
        let w = (if isBGGroup g then w else Execute (UpdateGroupDifficulty difficulty (m_dbStoreId g)) w);
        Some (fold (\<lambda>r. gw_effect (SetPlayerDifficulty (GetSource r) difficulty)) (m_memberMgr g) w)
      })"

section \<open>The round robin\<close>

definition near_loot :: "group_env \<Rightarrow> group_world \<Rightarrow> guid \<Rightarrow> bool" where
  "near_loot env w p = (gw_FindPlayer w p \<and> IsAtGroupRewardDistance (ge_loot env) p)"

text \<open>The members after the looter of the last round and then those up to him, in this order.\<close>

definition looter_order :: "guid \<Rightarrow> group \<Rightarrow> guid list" where
  "looter_order old g =
     (let ps = map ms_guid (m_memberSlots g) in
      case find_index (\<lambda>p. p = old) ps of
        None \<Rightarrow> ps
      | Some i \<Rightarrow> drop (Suc i) ps @ take (Suc i) ps)"

definition UpdateLooterGuid :: "group_env \<Rightarrow> nat \<Rightarrow> bool \<Rightarrow> group_world \<Rightarrow> group_world option" where
  "UpdateLooterGuid env a ifneed w = do {
     g \<leftarrow> groups w a;
     if m_lootMethod g = FREE_FOR_ALL then Some w
     else
       let old = GetLooterGuid g in
       if ifneed \<and> IsMember old g \<and> near_loot env w old then Some w
       else
         (case find (near_loot env w) (looter_order old g) of
            Some p \<Rightarrow>
              if old = p then Some w
              else do { w \<leftarrow> on_group a (\<lambda>g. g\<lparr>m_looterGuid := p\<rparr>) w; SendUpdate a w }
          | None \<Rightarrow> do { w \<leftarrow> on_group a (\<lambda>g. g\<lparr>m_looterGuid := 0\<rparr>) w; SendUpdate a w })
   }"

section \<open>Loading\<close>

record group_row =
  row_leaderGuid :: u32
  row_icons :: "guid list"
  row_groupType :: u8
  row_difficulty :: u8
  row_masterLooterGuid :: u32
  row_lootMethod :: u8
  row_looterGuid :: u32
  row_lootThreshold :: u8
  row_guid :: u32

definition LoadGroupFromDB :: "group_env \<Rightarrow> group_row \<Rightarrow> nat \<Rightarrow> group_world \<Rightarrow> group_world option" where
  "LoadGroupFromDB env r a w = do {
     g \<leftarrow> groups w a;
     if isBGGroup g then Some w
     else
       let (lowguid, w) = GenerateGroupId w;
           leader = mk_guid HighGuid_Player (row_leaderGuid r);
           g = g\<lparr>m_dbStoreId := row_guid r, m_guid := mk_guid HighGuid_Group lowguid, m_leaderGuid := leader,
                 m_leaderLogoutTime := ge_GameTime env\<rparr> in
       (case ge_CharacterNameByGuid env leader of
          None \<Rightarrow> Some (w\<lparr>groups := (groups w)(a \<mapsto> g)\<rparr>)
        | Some name \<Rightarrow> do {
            let g = g\<lparr>m_leaderName := name, m_targetIcons := row_icons r, m_groupType := row_groupType r\<rparr>;
            g \<leftarrow> (if isRaidGroup g then initRaidSubGroupsCounter g else Some g);
            let g = g\<lparr>m_dungeonDifficulty := (if unat (row_difficulty r) \<ge> MAX_DIFFICULTY then 0 else row_difficulty r),
                      m_masterLooterGuid := mk_guid HighGuid_Player (row_masterLooterGuid r)\<rparr>;
            Some (w\<lparr>groups := (groups w)(a \<mapsto> g)\<rparr>)
          })
   }"

definition LoadMemberFromDB :: "group_env \<Rightarrow> u32 \<Rightarrow> u8 \<Rightarrow> u8 \<Rightarrow> u8 \<Rightarrow> nat \<Rightarrow> group_world \<Rightarrow> group_world option" where
  "LoadMemberFromDB env guidLow memberFlags subgroup roles a w =
     (let p = mk_guid HighGuid_Player guidLow in
      case ge_CharacterNameByGuid env p of
        None \<Rightarrow> Some (Execute (DeleteGroupMember guidLow) w)
      | Some name \<Rightarrow>
          change_group a (\<lambda>g. SubGroupCounterIncrease subgroup (g\<lparr>m_memberSlots := m_memberSlots g @
            [\<lparr>ms_guid = p, ms_name = name, ms_group = subgroup, ms_flags = memberFlags, ms_roles = roles\<rparr>]\<rparr>)) w)"

definition load_group :: "group_env \<Rightarrow> group_row \<Rightarrow> group_world \<Rightarrow> group_world option" where
  "load_group env r w = do {
     let (a, w) = alloc_group w;
     w \<leftarrow> LoadGroupFromDB env r a w;
     w \<leftarrow> AddGroup a w;
     g \<leftarrow> groups w a;
     let w = RegisterGroupDbStoreId (m_dbStoreId g) a w;
     Some (if m_dbStoreId g = NextGroupDbStoreId w then w\<lparr>NextGroupDbStoreId := NextGroupDbStoreId w + 1\<rparr> else w)
   }"

definition load_member :: "group_env \<Rightarrow> u32 \<times> u32 \<times> u8 \<times> u8 \<times> u8 \<Rightarrow> group_world \<Rightarrow> group_world option" where
  "load_member env row w =
     (case row of (storageId, member, fl, subgroup, roles) \<Rightarrow>
        (case GetGroupByDbStoreId storageId w of
           None \<Rightarrow> Some w
         | Some a \<Rightarrow> LoadMemberFromDB env member fl subgroup roles a w))"

text \<open>The rows as the database gives them, after the consistency statements.\<close>

definition LoadGroups :: "group_env \<Rightarrow> group_row list \<Rightarrow> (u32 \<times> u32 \<times> u8 \<times> u8 \<times> u8) list \<Rightarrow> group_world \<Rightarrow> group_world option" where
  "LoadGroups env rows members w = (if rows = [] then Some w
     else do { w \<leftarrow> each (load_group env) rows w; each (load_member env) members w })"

section \<open>Logging in and out\<close>

definition Player_LoadGroup :: "group_env \<Rightarrow> u32 option \<Rightarrow> guid \<Rightarrow> group_world \<Rightarrow> group_world option" where
  "Player_LoadGroup env row p w = do {
     w \<leftarrow> (case Option.bind row (\<lambda>storageId. GetGroupByDbStoreId storageId w) of
             None \<Rightarrow> Some w
           | Some a \<Rightarrow> do {
               g \<leftarrow> groups w a;
               w \<leftarrow> Player_SetGroup (Some a) (GetMemberGroup p g) p w;
               Some (if ge_Level env p \<ge> LEVELREQUIREMENT_HEROIC
                     then gw_effect (SetPlayerDifficulty p (GetGroupDifficulty False g)) w else w)
             });
     pl \<leftarrow> players w p;
     lead \<leftarrow> (case gp_m_group pl of None \<Rightarrow> Some False | Some a \<Rightarrow> map_option (IsLeader p) (groups w a));
     if lead then Some w else SetLeaderFlag False p w
   }"

text \<open>The announcement after the player was added to the map.\<close>

definition announce_login :: "group_env \<Rightarrow> guid \<Rightarrow> group_world \<Rightarrow> group_world option" where
  "announce_login env p w = do {
     pl \<leftarrow> players w p;
     (case gp_m_group pl of
        None \<Rightarrow> Some w
      | Some a \<Rightarrow> do { w \<leftarrow> CheckLeader env a p False w; SendUpdate a w })
   }"

text \<open>
  From \<open>WorldSession::LogoutPlayer\<close>: the invitation, the map, the accessor, the group; then the
  player is deleted, which cuts his references.
\<close>

definition logout_group :: "group_env \<Rightarrow> guid \<Rightarrow> group_world \<Rightarrow> group_world option" where
  "logout_group env p w = do {
     w \<leftarrow> UninviteFromGroup env p w;
     w \<leftarrow> on_player p (\<lambda>pl. pl\<lparr>gp_in_world := False, gp_connected := False\<rparr>) w;
     pl \<leftarrow> players w p;
     (case gp_m_group pl of
        None \<Rightarrow> Some w
      | Some a \<Rightarrow> do { w \<leftarrow> CheckLeader env a p True w; SendUpdate a w })
   }"

definition delete_player :: "guid \<Rightarrow> group_world \<Rightarrow> group_world option" where
  "delete_player p w = do {
     w \<leftarrow> unlink_group p w;
     w \<leftarrow> unlink_original p w;
     Some (w\<lparr>players := (players w)(p := None)\<rparr>)
   }"

text \<open>A character enters the world with the row of \<open>group_member\<close>, and leaves it.\<close>

definition new_player :: "string \<Rightarrow> bool \<Rightarrow> gplayer" where
  "new_player name is_bot = \<lparr>gp_name = name, gp_connected = False, gp_in_world = False, gp_logout = False, gp_bot = is_bot, gp_m_group = None,
     gp_subGroup = 0, gp_m_originalGroup = None, gp_originalSubGroup = 0, gp_invite = None, gp_leader_flag = False\<rparr>"

definition login_player :: "group_env \<Rightarrow> gplayer \<Rightarrow> u32 option \<Rightarrow> guid \<Rightarrow> group_world \<Rightarrow> group_world option" where
  "login_player env pl row p w = do {
     w \<leftarrow> Player_LoadGroup env row p (w\<lparr>players := (players w)(p \<mapsto> pl)\<rparr>);
     w \<leftarrow> on_player p (\<lambda>pl. pl\<lparr>gp_in_world := True, gp_connected := True\<rparr>) w;
     announce_login env p w
   }"

definition logout_player :: "group_env \<Rightarrow> guid \<Rightarrow> group_world \<Rightarrow> group_world option" where
  "logout_player env p w = do {
     w \<leftarrow> on_player p (gp_logout_update (\<lambda>_. True)) w;
     w \<leftarrow> logout_group env p w;
     delete_player p w
   }"

end
