(* ===== verification/GroupHandler.thy ===== *)
theory GroupHandler
  imports GroupLeave
begin

text \<open>
  The client packets of groups (\<^verbatim>\<open>src/src/server/game/Handlers/GroupHandler.cpp\<close>). \<open>me\<close> is the
  player of the session. A packet that is too short is the exception \<open>Inl\<close>; nothing has been
  done then. Names are normalised and looked up by the environment.
\<close>

definition PARTY_OP_INVITE :: u32 where "PARTY_OP_INVITE = 0"
definition PARTY_OP_LEAVE :: u32 where "PARTY_OP_LEAVE = 2"
definition PARTY_OP_SWAP :: u32 where "PARTY_OP_SWAP = 4"

definition PARTY_RESULT_OK :: u32 where "PARTY_RESULT_OK = 0"
definition PARTY_RESULT_CANT_FIND_TARGET :: u32 where "PARTY_RESULT_CANT_FIND_TARGET = 1"
definition PARTY_RESULT_NOT_IN_YOUR_PARTY :: u32 where "PARTY_RESULT_NOT_IN_YOUR_PARTY = 2"
definition PARTY_RESULT_NOT_IN_YOUR_INSTANCE :: u32 where "PARTY_RESULT_NOT_IN_YOUR_INSTANCE = 3"
definition PARTY_RESULT_PARTY_FULL :: u32 where "PARTY_RESULT_PARTY_FULL = 4"
definition PARTY_RESULT_ALREADY_IN_GROUP :: u32 where "PARTY_RESULT_ALREADY_IN_GROUP = 5"
definition PARTY_RESULT_YOU_NOT_IN_GROUP :: u32 where "PARTY_RESULT_YOU_NOT_IN_GROUP = 6"
definition PARTY_RESULT_YOU_NOT_LEADER :: u32 where "PARTY_RESULT_YOU_NOT_LEADER = 7"
definition PARTY_RESULT_TARGET_UNFRIENDLY :: u32 where "PARTY_RESULT_TARGET_UNFRIENDLY = 8"
definition PARTY_RESULT_TARGET_IGNORE_YOU :: u32 where "PARTY_RESULT_TARGET_IGNORE_YOU = 9"
definition PARTY_RESULT_INVITE_RESTRICTED :: u32 where "PARTY_RESULT_INVITE_RESTRICTED = 13"

definition GROUP_ASSIGN_MAINTANK :: u8 where "GROUP_ASSIGN_MAINTANK = 0"
definition GROUP_ASSIGN_MAINASSIST :: u8 where "GROUP_ASSIGN_MAINASSIST = 1"

definition SMSG_PARTY_COMMAND_RESULT :: u16 where "SMSG_PARTY_COMMAND_RESULT = 0x07F"
definition MSG_MINIMAP_PING :: u16 where "MSG_MINIMAP_PING = 0x1D5"
definition MSG_RANDOM_ROLL :: u16 where "MSG_RANDOM_ROLL = 0x1FB"
definition MSG_RAID_READY_CHECK :: u16 where "MSG_RAID_READY_CHECK = 0x322"

definition SendPartyResult :: "guid \<Rightarrow> u32 \<Rightarrow> string \<Rightarrow> u32 \<Rightarrow> group_world \<Rightarrow> group_world" where
  "SendPartyResult me op member res =
     gw_send me (put_u32 res (put_string member (put_u32 op (wp_new SMSG_PARTY_COMMAND_RESULT))))"

type_synonym handled = "(bb_error + group_world) option"

definition reading ::
  "(\<lparr>m_opcode :: u16\<rparr>, 'a) bb \<Rightarrow> world_packet \<Rightarrow> ('a \<Rightarrow> group_world option) \<Rightarrow> handled" where
  "reading rd recvData k = (case fst (rd recvData) of Inl e \<Rightarrow> Some (Inl e) | Inr x \<Rightarrow> map_option Inr (k x))"

text \<open>A handler that does nothing for a player without a group.\<close>

definition in_group :: "guid \<Rightarrow> group_world \<Rightarrow> (nat \<Rightarrow> group \<Rightarrow> handled) \<Rightarrow> handled" where
  "in_group me w k = do {
     pl \<leftarrow> players w me;
     (case gp_m_group pl of None \<Rightarrow> Some (Inr w) | Some a \<Rightarrow> do { g \<leftarrow> groups w a; k a g })
   }"

definition FindConnectedPlayerByName :: "group_env \<Rightarrow> string \<Rightarrow> group_world \<Rightarrow> guid option" where
  "FindConnectedPlayerByName env name w =
     (case ge_PlayerByName env name of Some p \<Rightarrow> if gw_connected w p then Some p else None | None \<Rightarrow> None)"

section \<open>Inviting\<close>

text \<open>Why \<open>q\<close> may not be invited, as far as groups do not matter.\<close>

definition invite_refused :: "group_env \<Rightarrow> guid \<Rightarrow> guid \<Rightarrow> u32 option" where
  "invite_refused env me q =
     (if q = me then Some PARTY_RESULT_CANT_FIND_TARGET
      else if \<not> ge_allow_gm_group env \<and> \<not> ge_IsGameMaster env me \<and> ge_IsGameMaster env q then Some PARTY_RESULT_CANT_FIND_TARGET
      else if \<not> ge_IsGameMaster env me \<and> \<not> ge_two_side env \<and> ge_Team env me \<noteq> ge_Team env q then Some PARTY_RESULT_TARGET_UNFRIENDLY
      else if ge_InstanceId env me \<noteq> 0 \<and> ge_InstanceId env q \<noteq> 0 \<and> ge_InstanceId env me \<noteq> ge_InstanceId env q
              \<and> ge_MapId env me = ge_MapId env q then Some PARTY_RESULT_NOT_IN_YOUR_INSTANCE
      else if ge_InstanceId env q \<noteq> 0 \<and> ge_Difficulty env q \<noteq> ge_Difficulty env me then Some PARTY_RESULT_ALREADY_IN_GROUP
      else if ge_HasIgnore env q (GetCounter me) then Some PARTY_RESULT_TARGET_IGNORE_YOU
      else None)"

text \<open>A new group with its future leader and the invited player.\<close>

definition start_group :: "guid \<Rightarrow> guid \<Rightarrow> group_world \<Rightarrow> (bool \<times> group_world) option" where
  "start_group me q w = do {
     let (a, w) = alloc_group w;
     (ok, w) \<leftarrow> AddLeaderInvite me a w;
     if \<not> ok then map_option (Pair False) (delete_group a w)
     else do {
       (ok, w) \<leftarrow> AddInvite q a w;
       if \<not> ok then do { w \<leftarrow> RemoveAllInvites a w; map_option (Pair False) (delete_group a w) }
       else Some (True, w)
     }
   }"

definition send_invite :: "guid \<Rightarrow> guid \<Rightarrow> string \<Rightarrow> bool \<times> group_world \<Rightarrow> group_world option" where
  "send_invite me q membername r =
     (case r of (ok, w) \<Rightarrow>
        if \<not> ok then Some w
        else do {
          pl \<leftarrow> players w me;
          Some (SendPartyResult me PARTY_OP_INVITE membername PARTY_RESULT_OK
                  (gw_send q (put_string (gp_name pl) (wp_new SMSG_GROUP_INVITE)) w))
        })"

definition invite_player :: "group_env \<Rightarrow> guid \<Rightarrow> guid \<Rightarrow> string \<Rightarrow> group_world \<Rightarrow> group_world option" where
  "invite_player env me q membername w =
     (case invite_refused env me q of
        Some res \<Rightarrow> Some (SendPartyResult me PARTY_OP_INVITE membername res w)
      | None \<Rightarrow> do {
          own \<leftarrow> own_group me w;
          own2 \<leftarrow> own_group q w;
          pl2 \<leftarrow> players w q;
          if own2 \<noteq> None \<or> gp_invite pl2 \<noteq> None
          then Some (SendPartyResult me PARTY_OP_INVITE membername PARTY_RESULT_ALREADY_IN_GROUP w)
          else
            (case own of
               None \<Rightarrow> Option.bind (start_group me q w) (send_invite me q membername)
             | Some a \<Rightarrow> do {
                 g \<leftarrow> groups w a;
                 if \<not> IsLeader me g \<and> \<not> IsAssistant me g
                 then Some (SendPartyResult me PARTY_OP_INVITE [] PARTY_RESULT_YOU_NOT_LEADER w)
                 else if IsFull g then Some (SendPartyResult me PARTY_OP_INVITE [] PARTY_RESULT_PARTY_FULL w)
                 else Option.bind (AddInvite q a w) (send_invite me q membername)
               })
        })"

definition HandleGroupInviteOpcode :: "group_env \<Rightarrow> guid \<Rightarrow> world_packet \<Rightarrow> group_world \<Rightarrow> handled" where
  "HandleGroupInviteOpcode env me recvData w =
     reading shr_string recvData (\<lambda>membername.
       case ge_normalizePlayerName env membername of
         None \<Rightarrow> Some (SendPartyResult me PARTY_OP_INVITE membername PARTY_RESULT_CANT_FIND_TARGET w)
       | Some membername \<Rightarrow>
           (case FindConnectedPlayerByName env membername w of
              None \<Rightarrow> Some (SendPartyResult me PARTY_OP_INVITE membername PARTY_RESULT_CANT_FIND_TARGET w)
            | Some q \<Rightarrow> invite_player env me q membername w))"

text \<open>The group comes into being with its first accepted invitation.\<close>

definition create_invited :: "group_env \<Rightarrow> nat \<Rightarrow> guid \<Rightarrow> group_world \<Rightarrow> (group_stmt list \<times> group_world) option" where
  "create_invited env a leader w = do {
     w \<leftarrow> RemoveInvite leader a w;
     (_, stmts, w) \<leftarrow> Group_Create env a leader [] w;
     w \<leftarrow> AddGroup a w;
     Some (stmts, w)
   }"

definition join_group :: "group_env \<Rightarrow> nat \<Rightarrow> guid \<Rightarrow> group_stmt list \<times> group_world \<Rightarrow> group_world option" where
  "join_group env a me r = (case r of (stmts, w) \<Rightarrow> do {
     (ok, stmts, w) \<leftarrow> AddMember env a me stmts w;
     if \<not> ok then Some w else BroadcastGroupUpdate a (CommitTransaction stmts w)
   })"

definition HandleGroupAcceptOpcode :: "group_env \<Rightarrow> guid \<Rightarrow> group_world \<Rightarrow> group_world option" where
  "HandleGroupAcceptOpcode env me w = do {
     pl \<leftarrow> players w me;
     (case gp_invite pl of
        None \<Rightarrow> Some w
      | Some a \<Rightarrow> do {
          g \<leftarrow> groups w a;
          if IsLeader me g then Some w
          else do {
            w \<leftarrow> RemoveInvite me a w;
            g \<leftarrow> groups w a;
            if IsFull g then Some (SendPartyResult me PARTY_OP_INVITE [] PARTY_RESULT_PARTY_FULL w)
            else if IsCreated g then join_group env a me ([], w)
            else if \<not> gw_FindPlayer w (m_leaderGuid g) then RemoveAllInvites a w
            else Option.bind (create_invited env a (m_leaderGuid g) w) (join_group env a me)
          }
        })
   }"

definition HandleGroupDeclineOpcode :: "guid \<Rightarrow> group_world \<Rightarrow> group_world option" where
  "HandleGroupDeclineOpcode me w = do {
     pl \<leftarrow> players w me;
     (case gp_invite pl of
        None \<Rightarrow> Some w
      | Some a \<Rightarrow> do {
          g \<leftarrow> groups w a;
          if \<not> gw_connected w (m_leaderGuid g) then Some w
          else do {
            w \<leftarrow> (if IsCreated g then Some w else do { w \<leftarrow> RemoveAllInvites a w; delete_group a w });
            w \<leftarrow> SetGroupInvite None me w;
            Some (gw_send (m_leaderGuid g) (put_string (gp_name pl) (wp_new SMSG_GROUP_DECLINE)) w)
          }
        })
   }"

section \<open>Removing\<close>

definition CanUninviteFromGroup :: "group_env \<Rightarrow> guid \<Rightarrow> group_world \<Rightarrow> u32 option" where
  "CanUninviteFromGroup env me w = do {
     pl \<leftarrow> players w me;
     (case gp_m_group pl of
        None \<Rightarrow> Some PARTY_RESULT_YOU_NOT_IN_GROUP
      | Some a \<Rightarrow> do {
          g \<leftarrow> groups w a;
          Some (if \<not> IsLeader me g \<and> \<not> IsAssistant me g then PARTY_RESULT_YOU_NOT_LEADER
                else if ge_InBattleground env me then PARTY_RESULT_INVITE_RESTRICTED else PARTY_RESULT_OK)
        })
   }"

definition HandleGroupUninviteGuidOpcode :: "group_env \<Rightarrow> guid \<Rightarrow> world_packet \<Rightarrow> group_world \<Rightarrow> handled" where
  "HandleGroupUninviteGuidOpcode env me recvData w =
     reading shr_guid recvData (\<lambda>p.
       if p = me then Some w
       else do {
         res \<leftarrow> CanUninviteFromGroup env me w;
         if res \<noteq> PARTY_RESULT_OK then Some (SendPartyResult me PARTY_OP_LEAVE [] res w)
         else do {
           pl \<leftarrow> players w me;
           (case gp_m_group pl of
              None \<Rightarrow> Some w
            | Some a \<Rightarrow> do {
                g \<leftarrow> groups w a;
                if IsMember p g then RemoveFromGroup env (Some a) p True w
                else do {
                  inv \<leftarrow> GetInvited p g w;
                  (case inv of Some q \<Rightarrow> UninviteFromGroup env q w
                   | None \<Rightarrow> Some (SendPartyResult me PARTY_OP_LEAVE [] PARTY_RESULT_NOT_IN_YOUR_PARTY w))
                }
              })
         }
       })"

definition HandleGroupUninviteOpcode :: "group_env \<Rightarrow> guid \<Rightarrow> world_packet \<Rightarrow> group_world \<Rightarrow> handled" where
  "HandleGroupUninviteOpcode env me recvData w =
     reading shr_string recvData (\<lambda>name.
       case ge_normalizePlayerName env name of
         None \<Rightarrow> Some w
       | Some name \<Rightarrow> do {
           pl \<leftarrow> players w me;
           if gp_name pl = name then Some w
           else do {
             res \<leftarrow> CanUninviteFromGroup env me w;
             if res \<noteq> PARTY_RESULT_OK then Some (SendPartyResult me PARTY_OP_LEAVE [] res w)
             else
               (case gp_m_group pl of
                  None \<Rightarrow> Some w
                | Some a \<Rightarrow> do {
                    g \<leftarrow> groups w a;
                    let p = GetMemberGUID name g;
                    if p = m_leaderGuid g then Some w
                    else if p \<noteq> 0 then RemoveFromGroup env (Some a) p True w
                    else do {
                      inv \<leftarrow> GetInvitedByName name g w;
                      (case inv of Some q \<Rightarrow> UninviteFromGroup env q w
                       | None \<Rightarrow> Some (SendPartyResult me PARTY_OP_LEAVE name PARTY_RESULT_NOT_IN_YOUR_PARTY w))
                    }
                  })
           }
         })"

definition HandleGroupSetLeaderOpcode :: "group_env \<Rightarrow> guid \<Rightarrow> world_packet \<Rightarrow> group_world \<Rightarrow> handled" where
  "HandleGroupSetLeaderOpcode env me recvData w =
     in_group me w (\<lambda>a g.
       reading shr_guid recvData (\<lambda>p.
         if \<not> gw_connected w p \<or> \<not> IsLeader me g \<or> Option.bind (players w p) gp_m_group \<noteq> Some a then Some w
         else ChangeLeader env a p w))"

definition HandleGroupDisbandOpcode :: "group_env \<Rightarrow> guid \<Rightarrow> group_world \<Rightarrow> group_world option" where
  "HandleGroupDisbandOpcode env me w = do {
     pl \<leftarrow> players w me;
     if gp_m_group pl = None then Some w
     else if ge_InBattleground env me then Some (SendPartyResult me PARTY_OP_INVITE [] PARTY_RESULT_OK w)
     else RemoveFromGroup env (gp_m_group pl) me False (SendPartyResult me PARTY_OP_LEAVE (gp_name pl) PARTY_RESULT_OK w)
   }"

section \<open>Loot, dice and icons\<close>

definition HandleLootMethodOpcode :: "guid \<Rightarrow> world_packet \<Rightarrow> group_world \<Rightarrow> handled" where
  "HandleLootMethodOpcode me recvData w =
     in_group me w (\<lambda>a g.
       reading (andThen shr_u32 (\<lambda>m. andThen shr_guid (\<lambda>l. andThen shr_u32 (\<lambda>t. ret (m, l, t))))) recvData (\<lambda>(m, l, t).
         if \<not> IsLeader me g then Some w
         else do {
           w \<leftarrow> on_group a (\<lambda>g. g\<lparr>m_lootMethod := m, m_masterLooterGuid := l, m_lootThreshold := t\<rparr>) w;
           SendUpdate a w
         }))"

definition HandleLootRoll :: "group_env \<Rightarrow> guid \<Rightarrow> world_packet \<Rightarrow> group_world \<Rightarrow> handled" where
  "HandleLootRoll env me recvData w =
     in_group me w (\<lambda>a g.
       reading (andThen shr_guid (\<lambda>i. andThen shr_u32 (\<lambda>_. andThen shr_u8 (\<lambda>t. ret (i, t))))) recvData (\<lambda>(i, t).
         if t \<ge> MAX_ROLL_TYPE then Some w
         else with_rolls a (CountRollVote (loot_env_of env w) me i t) w))"

definition HandleMinimapPingOpcode :: "guid \<Rightarrow> world_packet \<Rightarrow> group_world \<Rightarrow> handled" where
  "HandleMinimapPingOpcode me recvData w =
     in_group me w (\<lambda>a g.
       reading (andThen shr_float (\<lambda>x. andThen shr_float (\<lambda>y. ret (x, y)))) recvData (\<lambda>(x, y).
         BroadcastPacket (put_u32 y (put_u32 x (put_u64 me (wp_new MSG_MINIMAP_PING)))) True None me a w))"

definition HandleRandomRollOpcode :: "group_env \<Rightarrow> guid \<Rightarrow> world_packet \<Rightarrow> group_world \<Rightarrow> handled" where
  "HandleRandomRollOpcode env me recvData w =
     reading (andThen shr_u32 (\<lambda>a. andThen shr_u32 (\<lambda>b. ret (a, b)))) recvData (\<lambda>(minimum, maximum).
       if minimum > maximum \<or> maximum > 10000 then Some w
       else do {
         let roll = le_urand (ge_loot env) (gw_draws w) minimum maximum;
         let w = w\<lparr>gw_draws := Suc (gw_draws w)\<rparr>;
         let data = put_u64 me (put_u32 roll (put_u32 maximum (put_u32 minimum (wp_new MSG_RANDOM_ROLL))));
         pl \<leftarrow> players w me;
         (case gp_m_group pl of None \<Rightarrow> Some (gw_send me data w) | Some a \<Rightarrow> BroadcastPacket data False None 0 a w)
       })"

definition HandleRaidTargetUpdateOpcode :: "guid \<Rightarrow> world_packet \<Rightarrow> group_world \<Rightarrow> handled" where
  "HandleRaidTargetUpdateOpcode me recvData w =
     in_group me w (\<lambda>a g.
       case shr_u8 recvData of
         (Inl e, _) \<Rightarrow> Some (Inl e)
       | (Inr icon, recvData) \<Rightarrow>
           if icon = 0xFF then map_option Inr (SendTargetIconList a me w)
           else if icon \<ge> 8 \<or> \<not> IsLeader me g \<and> \<not> IsAssistant me g then Some (Inr w)
           else reading shr_guid recvData (\<lambda>p. SetTargetIcon icon p a w))"

section \<open>The raid\<close>

definition HandleGroupRaidConvertOpcode :: "group_env \<Rightarrow> guid \<Rightarrow> group_world \<Rightarrow> handled" where
  "HandleGroupRaidConvertOpcode env me w =
     in_group me w (\<lambda>a g.
       if ge_InBattleground env me \<or> \<not> IsLeader me g \<or> GetMembersCount g < 2 then Some (Inr w)
       else map_option Inr (ConvertToRaid a (SendPartyResult me PARTY_OP_INVITE [] PARTY_RESULT_OK w)))"

definition guid_by_name :: "group_env \<Rightarrow> string \<Rightarrow> group_world \<Rightarrow> guid" where
  "guid_by_name env name w =
     (case FindConnectedPlayerByName env name w of Some p \<Rightarrow> p | None \<Rightarrow> ge_CharacterGuidByName env name)"

definition HandleGroupChangeSubGroupOpcode :: "group_env \<Rightarrow> guid \<Rightarrow> world_packet \<Rightarrow> group_world \<Rightarrow> handled" where
  "HandleGroupChangeSubGroupOpcode env me recvData w =
     in_group me w (\<lambda>a g.
       reading (andThen shr_string (\<lambda>n. andThen shr_u8 (\<lambda>i. ret (n, i)))) recvData (\<lambda>(name, groupNr).
         case ge_normalizePlayerName env name of
           None \<Rightarrow> Some w
         | Some name \<Rightarrow>
             if unat groupNr \<ge> MAX_RAID_SUBGROUPS \<or> \<not> IsLeader me g \<and> \<not> IsAssistant me g then Some w
             else do {
               free \<leftarrow> HasFreeSlotSubGroup groupNr g;
               if \<not> free \<or> guid_by_name env name w = 0 then Some w
               else ChangeMembersGroup a (guid_by_name env name w) groupNr w
             }))"

definition HandleGroupSwapSubGroupOpcode :: "group_env \<Rightarrow> guid \<Rightarrow> world_packet \<Rightarrow> group_world \<Rightarrow> handled" where
  "HandleGroupSwapSubGroupOpcode env me recvData w =
     reading (andThen shr_string (\<lambda>m. andThen shr_string (\<lambda>n. ret (m, n)))) recvData (\<lambda>(name1, name2).
       case (ge_normalizePlayerName env name1, ge_normalizePlayerName env name2) of
         (None, _) \<Rightarrow> Some (SendPartyResult me PARTY_OP_SWAP name1 PARTY_RESULT_CANT_FIND_TARGET w)
       | (Some name1, None) \<Rightarrow> Some (SendPartyResult me PARTY_OP_SWAP name1 PARTY_RESULT_CANT_FIND_TARGET w)
       | (Some name1, Some name2) \<Rightarrow> do {
           pl \<leftarrow> players w me;
           (case gp_m_group pl of
              None \<Rightarrow> Some w
            | Some a \<Rightarrow> do {
                g \<leftarrow> groups w a;
                let p1 = guid_by_name env name1 w;
                let p2 = guid_by_name env name2 w;
                let none = word_of_nat (MAX_RAID_SUBGROUPS + 1);
                if \<not> isRaidGroup g \<or> \<not> IsLeader me g \<and> \<not> IsAssistant me g then Some w
                else if p1 = 0 \<or> p2 = 0 then Some (SendPartyResult me PARTY_OP_SWAP name1 PARTY_RESULT_CANT_FIND_TARGET w)
                else if GetMemberGroup p1 g = none \<or> GetMemberGroup p2 g = none \<or> GetMemberGroup p1 g = GetMemberGroup p2 g
                then Some w
                else do {
                  w \<leftarrow> ChangeMembersGroup a p1 (GetMemberGroup p2 g) w;
                  ChangeMembersGroup a p2 (GetMemberGroup p1 g) w
                }
              })
         })"

definition HandleGroupAssistantLeaderOpcode :: "guid \<Rightarrow> world_packet \<Rightarrow> group_world \<Rightarrow> handled" where
  "HandleGroupAssistantLeaderOpcode me recvData w =
     in_group me w (\<lambda>a g.
       if \<not> IsLeader me g then Some (Inr w)
       else reading (andThen shr_guid (\<lambda>p. andThen shr_bool (\<lambda>v. ret (p, v)))) recvData (\<lambda>(p, v).
              SetGroupMemberFlag a p v MEMBER_FLAG_ASSISTANT w))"

definition assign_unique :: "nat \<Rightarrow> guid \<Rightarrow> bool \<Rightarrow> u8 \<Rightarrow> group_world \<Rightarrow> group_world option" where
  "assign_unique a p v fl w = do {
     w \<leftarrow> on_group a (RemoveUniqueGroupMemberFlag fl) w;
     SetGroupMemberFlag a p v fl w
   }"

definition HandlePartyAssignmentOpcode :: "guid \<Rightarrow> world_packet \<Rightarrow> group_world \<Rightarrow> handled" where
  "HandlePartyAssignmentOpcode me recvData w =
     in_group me w (\<lambda>a g.
       if \<not> IsLeader me g then Some (Inr w)
       else reading (andThen shr_u8 (\<lambda>x. andThen shr_bool (\<lambda>v. andThen shr_guid (\<lambda>p. ret (x, v, p))))) recvData (\<lambda>(x, v, p). do {
              w \<leftarrow> (if x = GROUP_ASSIGN_MAINASSIST then assign_unique a p v MEMBER_FLAG_MAINASSIST w
                    else if x = GROUP_ASSIGN_MAINTANK then assign_unique a p v MEMBER_FLAG_MAINTANK w
                    else Some w);
              SendUpdate a w
            }))"

definition HandleRaidReadyCheckOpcode :: "guid \<Rightarrow> world_packet \<Rightarrow> group_world \<Rightarrow> handled" where
  "HandleRaidReadyCheckOpcode me recvData w =
     in_group me w (\<lambda>a g.
       if bb_empty recvData
       then (if \<not> IsLeader me g \<and> \<not> IsAssistant me g then Some (Inr w)
             else map_option Inr (do {
               w \<leftarrow> BroadcastPacket (put_u64 me (wp_new MSG_RAID_READY_CHECK)) False None 0 a w;
               OfflineReadyCheck a w
             }))
       else reading shr_u8 recvData (\<lambda>state.
              BroadcastReadyCheck (put_u8 state (put_u64 me (wp_new MSG_RAID_READY_CHECK_CONFIRM))) a w))"

end
