(* ===== verification/GroupOk.thy ===== *)
theory GroupOk
  imports GroupHandler GroupRollsProps
begin

text \<open>
  What always holds of groups and players, and the operations that only send. The invariant is
  for a server without battleground raids: every group has no battleground and every player one
  reference.
\<close>

section \<open>The invariant\<close>

definition members :: "group \<Rightarrow> guid set" where
  "members g = ms_guid ` set (m_memberSlots g)"

lemma members_upd [simp]:
  "members (g\<lparr>m_invitees := x\<rparr>) = members g" "members (g\<lparr>m_memberMgr := r\<rparr>) = members g"
  "members (g\<lparr>m_subGroupsCounts := c\<rparr>) = members g"
  by (simp_all add: members_def)

definition in_sub :: "nat \<Rightarrow> member_slot list \<Rightarrow> nat" where
  "in_sub i ms = length (filter (\<lambda>m. unat (ms_group m) = i) ms)"

text \<open>The counters of a raid are the numbers of members; another group has none.\<close>

definition counts_exact :: "group \<Rightarrow> bool" where
  "counts_exact g =
     (case m_subGroupsCounts g of
        None \<Rightarrow> \<not> isRaidGroup g \<and> (\<forall>m \<in> set (m_memberSlots g). ms_group m = 0)
      | Some cs \<Rightarrow> isRaidGroup g \<and> length cs = MAX_RAID_SUBGROUPS \<and> (\<forall>m \<in> set (m_memberSlots g). unat (ms_group m) < MAX_RAID_SUBGROUPS) \<and>
                   (\<forall>i < MAX_RAID_SUBGROUPS. unat (cs ! i) = in_sub i (m_memberSlots g)))"

definition sizes_ok :: "group \<Rightarrow> bool" where
  "sizes_ok g =
     (length (m_memberSlots g) \<noteq> 1 \<and>
      (if isRaidGroup g then \<forall>i < MAX_RAID_SUBGROUPS. in_sub i (m_memberSlots g) \<le> MAXGROUPSIZE
       else length (m_memberSlots g) \<le> MAXGROUPSIZE))"

definition rolls_ok :: "roll list \<Rightarrow> bool" where
  "rolls_ok rs = (distinct (map itemGUID rs) \<and> (\<forall>r \<in> set rs. counts_ok r))"

definition group_ok :: "group \<Rightarrow> bool" where
  "group_ok g =
     (m_bgGroup g = None \<and> distinct (map ms_guid (m_memberSlots g)) \<and> distinct (m_memberMgr g) \<and> distinct (m_invitees g) \<and>
      counts_exact g \<and> length (m_targetIcons g) = TARGETICONCOUNT \<and> rolls_ok (m_RollId g) \<and>
      (m_memberSlots g \<noteq> [] \<longrightarrow> m_leaderGuid g \<in> members g))"

text \<open>References lead to players linked to the group, invitations to players invited by it.\<close>

abbreviation group_of :: "group_world \<Rightarrow> guid \<Rightarrow> nat option" where
  "group_of w p \<equiv> Option.bind (players w p) gp_m_group"

abbreviation invite_of :: "group_world \<Rightarrow> guid \<Rightarrow> nat option" where
  "invite_of w p \<equiv> Option.bind (players w p) gp_invite"

definition refs_ok :: "group_world \<Rightarrow> nat \<Rightarrow> group \<Rightarrow> bool" where
  "refs_ok w a g = (\<forall>r \<in> set (m_memberMgr g). \<exists>p. r = GroupRef p \<and> group_of w p = Some a)"

definition invitees_ok :: "group_world \<Rightarrow> nat \<Rightarrow> group \<Rightarrow> bool" where
  "invitees_ok w a g = (\<forall>p \<in> set (m_invitees g). invite_of w p = Some a)"

definition player_ok :: "group_world \<Rightarrow> guid \<Rightarrow> gplayer \<Rightarrow> bool" where
  "player_ok w p pl =
     (gp_m_originalGroup pl = None \<and>
      (case gp_m_group pl of
         None \<Rightarrow> \<forall>a g. groups w a = Some g \<longrightarrow> p \<notin> members g
       | Some a \<Rightarrow> gp_invite pl = None \<and>
           (\<exists>g. groups w a = Some g \<and> GroupRef p \<in> set (m_memberMgr g) \<and>
                (\<exists>m \<in> set (m_memberSlots g). ms_guid m = p \<and> ms_group m = gp_subGroup pl))) \<and>
      (\<forall>a. gp_invite pl = Some a \<longrightarrow> (\<exists>g. groups w a = Some g \<and> p \<in> set (m_invitees g))))"

text \<open>
  Created groups are filed under their number in both tables of the manager, and nothing else is;
  the next numbers are free.
\<close>

definition ids_of :: "group \<Rightarrow> bool \<times> u32 \<times> u32" where
  "ids_of g = (m_memberSlots g \<noteq> [], GetCounter (m_guid g), m_dbStoreId g)"

definition ids_ok :: "group_world \<Rightarrow> bool" where
  "ids_ok w =
     (map_ok (GroupStore w) \<and>
      (\<forall>a c k s. map_option ids_of (groups w a) = Some (c, k, s) \<longrightarrow> a < gw_fresh w \<and>
         (c \<longrightarrow> smap_find (GroupStore w) k = Some a \<and> GetGroupByDbStoreId s w = Some a)) \<and>
      (\<forall>k a. smap_find (GroupStore w) k = Some a \<longrightarrow> k < NextGroupId w \<and> (\<exists>s. map_option ids_of (groups w a) = Some (True, k, s))) \<and>
      (\<forall>s a. GetGroupByDbStoreId s w = Some a \<longrightarrow> (\<exists>k. map_option ids_of (groups w a) = Some (True, k, s))) \<and>
      GetGroupByDbStoreId (NextGroupDbStoreId w) w = None)"

definition links_ok :: "group_world \<Rightarrow> bool" where
  "links_ok w =
     ((\<forall>a g. groups w a = Some g \<longrightarrow> group_ok g \<and> refs_ok w a g \<and> invitees_ok w a g) \<and>
      (\<forall>p pl. players w p = Some pl \<longrightarrow> player_ok w p pl \<and> gp_connected pl) \<and>
      (\<forall>a b g h. groups w a = Some g \<and> groups w b = Some h \<and> members g \<inter> members h \<noteq> {} \<longrightarrow> a = b))"

text \<open>A group that is not created yet waits for one answer, and its founder is invited to it.\<close>

definition founder_ok :: "group \<Rightarrow> bool" where
  "founder_ok g =
     (m_memberSlots g = [] \<longrightarrow> m_subGroupsCounts g = None \<and>
        (m_invitees g \<noteq> [] \<longrightarrow> length (m_invitees g) = 2 \<and> m_leaderGuid g \<in> set (m_invitees g)))"

definition gw_ok :: "group_world \<Rightarrow> bool" where
  "gw_ok w = (links_ok w \<and> ids_ok w \<and> (\<forall>a g. groups w a = Some g \<longrightarrow> sizes_ok g \<and> founder_ok g))"

section \<open>Operations that only send\<close>

definition add_fx :: "group_effect list \<Rightarrow> group_world \<Rightarrow> group_world" where
  "add_fx fx w = w\<lparr>gw_fx := gw_fx w @ fx\<rparr>"

lemma add_fx_simps [simp]:
  "groups (add_fx fx w) = groups w" "players (add_fx fx w) = players w" "gw_fresh (add_fx fx w) = gw_fresh w"
  "NextGroupId (add_fx fx w) = NextGroupId w" "NextGroupDbStoreId (add_fx fx w) = NextGroupDbStoreId w"
  "GroupStore (add_fx fx w) = GroupStore w" "GroupDbStore (add_fx fx w) = GroupDbStore w"
  "gw_connected (add_fx fx w) = gw_connected w" "gw_FindPlayer (add_fx fx w) = gw_FindPlayer w"
  "add_fx fx' (add_fx fx w) = add_fx (fx @ fx') w" "add_fx [] w = w"
  "(add_fx fx w)\<lparr>groups := G\<rparr> = add_fx fx (w\<lparr>groups := G\<rparr>)" "(add_fx fx w)\<lparr>players := P\<rparr> = add_fx fx (w\<lparr>players := P\<rparr>)"
  "(add_fx fx w)\<lparr>GroupStore := S\<rparr> = add_fx fx (w\<lparr>GroupStore := S\<rparr>)"
  "(add_fx fx w)\<lparr>GroupDbStore := D\<rparr> = add_fx fx (w\<lparr>GroupDbStore := D\<rparr>)"
  "(add_fx fx w)\<lparr>NextGroupId := i\<rparr> = add_fx fx (w\<lparr>NextGroupId := i\<rparr>)"
  "(add_fx fx w)\<lparr>NextGroupDbStoreId := i\<rparr> = add_fx fx (w\<lparr>NextGroupDbStoreId := i\<rparr>)"
  by (simp_all add: add_fx_def gw_connected_def [abs_def] gw_FindPlayer_def [abs_def])

lemma effect_fx: "gw_effect e w = add_fx [e] w" "Execute st w = add_fx [GroupSql st] w"
  "CommitTransaction sts w = add_fx (map GroupSql sts) w"
  by (simp_all add: gw_effect_def Execute_def CommitTransaction_def add_fx_def)

lemma fold_fx:
  assumes "\<And>x w. \<exists>fx. f x w = add_fx fx w"
  shows "\<exists>fx. fold f xs w = add_fx fx w"
proof (induction xs arbitrary: w)
  case Nil
  show ?case by (rule exI [of _ "[]"]) simp
next
  case (Cons x xs)
  obtain fx where "f x w = add_fx fx w" using assms by blast
  with Cons [of "add_fx fx w"] show ?case by auto
qed

lemma if_fx:
  assumes "\<exists>fx. w1 = add_fx fx w" and "\<exists>fx. w2 = add_fx fx w"
  shows "\<exists>fx. (if b then w1 else w2) = add_fx fx w"
  using assms by auto

lemma fx_id: "\<exists>fx. w = add_fx fx w"
  by (rule exI [of _ "[]"]) simp

lemma fx_effect: "\<exists>fx. gw_effect e w = add_fx fx w"
  by (auto simp: effect_fx)

lemma each_fx:
  assumes "\<And>x fx. x \<in> set xs \<Longrightarrow> \<exists>fx'. f x (add_fx fx w) = Some (add_fx (fx @ fx') w)"
  shows "\<exists>fx. each f xs w = Some (add_fx fx w)"
proof -
  have "\<exists>fx'. each f xs (add_fx fx w) = Some (add_fx (fx @ fx') w)" for fx
    using assms
  proof (induction xs arbitrary: fx)
    case Nil
    show ?case by (rule exI [of _ "[]"]) simp
  next
    case (Cons x xs)
    obtain fx1 where 1: "f x (add_fx fx w) = Some (add_fx (fx @ fx1) w)" using Cons.prems [of x fx] by auto
    then show ?case using Cons.IH [of "fx @ fx1"] Cons.prems by auto
  qed
  from this [of "[]"] show ?thesis by simp
qed

lemma BroadcastPacket_fx:
  "groups w a = Some g \<Longrightarrow> \<exists>fx. BroadcastPacket data ign only skip a w = Some (add_fx fx w)"
proof -
  assume g: "groups w a = Some g"
  have "\<exists>fx. fold (\<lambda>r w. if skip \<noteq> 0 \<and> GetSource r = skip
          \<or> ign \<and> Option.bind (players w (GetSource r)) gp_m_group \<noteq> Some a
          \<or> only \<noteq> None \<and> ref_subgroup w r \<noteq> only
        then w else gw_send (GetSource r) data w) (m_memberMgr g) w = add_fx fx w"
    by (intro fold_fx if_fx fx_id fx_effect)
  then show ?thesis using g by (auto simp: BroadcastPacket_def)
qed

lemma BroadcastReadyCheck_fx: "groups w a = Some g \<Longrightarrow> \<exists>fx. BroadcastReadyCheck data a w = Some (add_fx fx w)"
proof -
  assume g: "groups w a = Some g"
  have "\<exists>fx. fold (\<lambda>r w. if IsLeader (GetSource r) g \<or> IsAssistant (GetSource r) g then gw_send (GetSource r) data w else w)
      (m_memberMgr g) w = add_fx fx w"
    by (intro fold_fx if_fx fx_id fx_effect)
  then show ?thesis using g by (auto simp: BroadcastReadyCheck_def)
qed

lemma SendUpdateToPlayer_fx: "groups w a = Some g \<Longrightarrow> \<exists>fx. SendUpdateToPlayer a p w = Some (add_fx fx w)"
  by (cases "getMemberSlot p g")
    (auto simp: SendUpdateToPlayer_def intro: fx_id fx_effect)

lemma each_send_fx:
  assumes "groups w a = Some g" and "\<And>x w. groups w a = Some g \<Longrightarrow> \<exists>fx. f x w = Some (add_fx fx w)"
  shows "\<exists>fx. each f xs w = Some (add_fx fx w)"
proof (rule each_fx)
  fix x fx
  show "\<exists>fx'. f x (add_fx fx w) = Some (add_fx (fx @ fx') w)" using assms(2) [of "add_fx fx w" x] assms(1) by simp
qed

lemma SendUpdate_fx: "groups w a = Some g \<Longrightarrow> \<exists>fx. SendUpdate a w = Some (add_fx fx w)"
  using each_send_fx [of w a g "\<lambda>m. SendUpdateToPlayer a (ms_guid m)"] SendUpdateToPlayer_fx
  by (simp add: SendUpdate_def)

lemma OfflineReadyCheck_fx: "groups w a = Some g \<Longrightarrow> \<exists>fx. OfflineReadyCheck a w = Some (add_fx fx w)"
proof -
  assume g: "groups w a = Some g"
  have step: "\<exists>fx. (if gw_FindPlayer w (ms_guid m) then Some w
      else BroadcastReadyCheck (put_u8 0 (put_u64 (ms_guid m) (wp_new MSG_RAID_READY_CHECK_CONFIRM))) a w) = Some (add_fx fx w)"
    if "groups w a = Some g" for m w
    using that BroadcastReadyCheck_fx by (auto intro: fx_id)
  show ?thesis using each_send_fx [OF g step] g by (simp add: OfflineReadyCheck_def)
qed

lemma BroadcastGroupUpdate_fx: "groups w a = Some g \<Longrightarrow> \<exists>fx. BroadcastGroupUpdate a w = Some (add_fx fx w)"
proof -
  assume g: "groups w a = Some g"
  have "\<exists>fx. fold (\<lambda>m w. if gw_FindPlayer w (ms_guid m) then gw_effect (ForceValuesUpdate (ms_guid m)) w else w) (m_memberSlots g) w
      = add_fx fx w"
    by (intro fold_fx if_fx fx_id fx_effect)
  then show ?thesis using g by (auto simp: BroadcastGroupUpdate_def)
qed

lemma UpdatePlayerOutOfRange_fx:
  "groups w a = Some g \<Longrightarrow> players w p = Some pl \<Longrightarrow> \<exists>fx. UpdatePlayerOutOfRange env a p w = Some (add_fx fx w)"
proof -
  assume g: "groups w a = Some g" "players w p = Some pl"
  have "\<exists>fx. (if gp_in_world pl then fold (\<lambda>r w. if GetSource r \<noteq> p \<and> ge_OutOfRange env (GetSource r) p
      then gw_effect (PartyMemberStats (GetSource r) p) w else w) (m_memberMgr g) w else w) = add_fx fx w"
    by (intro fold_fx if_fx fx_id fx_effect)
  then show ?thesis using g by (auto simp: UpdatePlayerOutOfRange_def)
qed

lemma exchange_fields_fx: "\<exists>fx. exchange_fields env p refs w = add_fx fx w"
  unfolding exchange_fields_def by (intro fold_fx if_fx fx_id fx_effect)

lemma remove_buffs_fx: "\<exists>fx. remove_buffs p refs w = add_fx fx w"
  unfolding remove_buffs_def by (intro fold_fx if_fx fx_id) (auto simp: effect_fx)

lemma homebind_fx: "\<exists>fx. homebindIfInstance env g p w = add_fx fx w"
  unfolding homebindIfInstance_def by (intro if_fx fx_id fx_effect)

lemma greet_member_fx:
  "groups w a = Some g \<Longrightarrow> players w p = Some pl \<Longrightarrow> \<exists>fx. greet_member env a p w = Some (add_fx fx w)"
proof -
  assume g: "groups w a = Some g" "players w p = Some pl"
  obtain f1 where 1: "SendUpdate a w = Some (add_fx f1 w)" using SendUpdate_fx g(1) by blast
  define w2 where "w2 = (if \<not> IsLeader p g \<and> \<not> isBGGroup g
              then let w = gw_effect (ResetPlayerInstances p) (add_fx f1 w) in
                   if ge_Level env p \<ge> LEVELREQUIREMENT_HEROIC \<and> ge_Difficulty env p \<noteq> GetGroupDifficulty False g
                   then gw_effect (SetPlayerDifficulty p (GetGroupDifficulty False g)) w else w
              else add_fx f1 w)"
  have "\<exists>fx. w2 = add_fx fx w"
    unfolding w2_def Let_def effect_fx add_fx_simps by (rule if_fx) (rule if_fx, blast+)
  then obtain f2 where 2: "gw_effect (GroupUpdateFull p) w2 = add_fx f2 w" by (auto simp: effect_fx)
  obtain f3 where 3: "UpdatePlayerOutOfRange env a p (add_fx f2 w) = Some (add_fx f3 w)"
    using UpdatePlayerOutOfRange_fx [of "add_fx f2 w" a g p pl env] g by auto
  have "\<exists>fx. (if isRaidGroup g then gw_effect (UpdateForQuestWorldObjects p) (add_fx f3 w) else add_fx f3 w) = add_fx fx w"
    unfolding effect_fx add_fx_simps by (rule if_fx) blast+
  then obtain f4 where 4: "(if isRaidGroup g then gw_effect (UpdateForQuestWorldObjects p) (add_fx f3 w) else add_fx f3 w) = add_fx f4 w"
    by blast
  obtain f5 where 5: "exchange_fields env p (m_memberMgr g) (add_fx f4 w) = add_fx f5 w"
    using exchange_fields_fx [of env p "m_memberMgr g" "add_fx f4 w"] by auto
  show ?thesis using 1 2 3 4 5 g by (simp add: greet_member_def w2_def [symmetric]) blast
qed

text \<open>The invariant does not look at the effects.\<close>

lemma GetGroupByDbStoreId_fx [simp]: "GetGroupByDbStoreId k (add_fx fx w) = GetGroupByDbStoreId k w"
  by (simp add: GetGroupByDbStoreId_def)

lemma parts_fx [simp]:
  "refs_ok (add_fx fx w) = refs_ok w" "invitees_ok (add_fx fx w) = invitees_ok w" "player_ok (add_fx fx w) = player_ok w"
  "ids_ok (add_fx fx w) = ids_ok w"
  by (simp_all add: refs_ok_def [abs_def] invitees_ok_def [abs_def] player_ok_def [abs_def] ids_ok_def [abs_def]
      cong: option.case_cong)

lemma links_ok_fx [simp]: "links_ok (add_fx fx w) = links_ok w"
  by (simp add: links_ok_def)

lemma gw_ok_fx [simp]: "gw_ok (add_fx fx w) = gw_ok w"
  by (simp add: gw_ok_def)

end
