(* ===== verification/GroupKeeps.thy ===== *)
theory GroupKeeps
  imports GroupOk
begin

text \<open>What keeps the invariant: assignments to groups and players as the operations make them.\<close>

lemma bind_if [simp]: "Option.bind (if b then x else y) f = (if b then Option.bind x f else Option.bind y f)"
  by simp

lemma bind_map [simp]: "Option.bind (map_option f x) h = Option.bind x (\<lambda>y. h (f y))"
  by (cases x) auto

lemma links_okD:
  assumes "links_ok w"
  shows "groups w a = Some g \<Longrightarrow> group_ok g" "groups w a = Some g \<Longrightarrow> refs_ok w a g"
    "groups w a = Some g \<Longrightarrow> invitees_ok w a g"
    "players w p = Some pl \<Longrightarrow> player_ok w p pl" "players w p = Some pl \<Longrightarrow> gp_connected pl"
    "groups w a = Some g \<Longrightarrow> groups w b = Some h \<Longrightarrow> q \<in> members g \<Longrightarrow> q \<in> members h \<Longrightarrow> a = b"
  using assms unfolding links_ok_def by blast+

lemma links_okI:
  assumes "\<And>a g. groups w a = Some g \<Longrightarrow> group_ok g \<and> refs_ok w a g \<and> invitees_ok w a g"
    and "\<And>p pl. players w p = Some pl \<Longrightarrow> player_ok w p pl \<and> gp_connected pl"
    and "\<And>a b g h q. groups w a = Some g \<Longrightarrow> groups w b = Some h \<Longrightarrow> q \<in> members g \<Longrightarrow> q \<in> members h \<Longrightarrow> a = b"
  shows "links_ok w"
  unfolding links_ok_def using assms by blast

lemma member_linked:
  assumes ok: "links_ok w" and g: "groups w a = Some g" and q: "q \<in> members g" and ql: "players w q = Some ql"
  shows "gp_m_group ql = Some a"
proof -
  have "gp_m_group ql \<noteq> None" using links_okD(4) [OF ok ql] g q by (cases "gp_m_group ql") (auto simp: player_ok_def)
  then obtain b k m where b: "gp_m_group ql = Some b" "groups w b = Some k" "m \<in> set (m_memberSlots k)" "ms_guid m = q"
    using links_okD(4) [OF ok ql] by (auto simp: player_ok_def)
  then have "q \<in> members k" by (auto simp: members_def)
  then show ?thesis using links_okD(6) [OF ok b(2) g] q b(1) by blast
qed

lemma linked_group:
  assumes ok: "links_ok w" and pl: "players w p = Some pl" and a: "gp_m_group pl = Some a"
  obtains g m where "groups w a = Some g" "p \<in> members g" "m_memberSlots g \<noteq> []" "GroupRef p \<in> set (m_memberMgr g)"
    "gp_invite pl = None" "m \<in> set (m_memberSlots g)" "ms_guid m = p" "ms_group m = gp_subGroup pl"
proof -
  obtain g m where g: "groups w a = Some g" "GroupRef p \<in> set (m_memberMgr g)" "gp_invite pl = None"
      "m \<in> set (m_memberSlots g)" "ms_guid m = p" "ms_group m = gp_subGroup pl"
    using links_okD(4) [OF ok pl] a by (auto simp: player_ok_def)
  have "p \<in> members g" using g(4,5) by (auto simp: members_def)
  moreover have "m_memberSlots g \<noteq> []" using g(4) by auto
  ultimately show ?thesis using that g by blast
qed

lemma refs_ok_cong:
  assumes "\<And>q. group_of w' q = group_of w q" and "m_memberMgr h = m_memberMgr g"
  shows "refs_ok w' a h = refs_ok w a g"
  using assms by (simp add: refs_ok_def)

lemma isRaid_upd [simp]:
  "isRaidGroup (g\<lparr>m_invitees := x\<rparr>) = isRaidGroup g" "isRaidGroup (g\<lparr>m_memberMgr := r\<rparr>) = isRaidGroup g"
  "isRaidGroup (g\<lparr>m_memberSlots := s\<rparr>) = isRaidGroup g" "isRaidGroup (g\<lparr>m_subGroupsCounts := c\<rparr>) = isRaidGroup g"
  "isRaidGroup (g\<lparr>m_leaderGuid := l\<rparr>) = isRaidGroup g" "isRaidGroup (g\<lparr>m_leaderName := n\<rparr>) = isRaidGroup g"
  "isRaidGroup (g\<lparr>m_targetIcons := i\<rparr>) = isRaidGroup g" "isRaidGroup (g\<lparr>m_RollId := rs\<rparr>) = isRaidGroup g"
  "isRaidGroup (g\<lparr>m_dbStoreId := k\<rparr>) = isRaidGroup g" "isRaidGroup (g\<lparr>m_dungeonDifficulty := d\<rparr>) = isRaidGroup g"
  by (simp_all add: isRaidGroup_def)

lemma counts_exact_upd [simp]:
  "counts_exact (g\<lparr>m_invitees := x\<rparr>) = counts_exact g" "counts_exact (g\<lparr>m_memberMgr := r\<rparr>) = counts_exact g"
  "counts_exact (g\<lparr>m_targetIcons := i\<rparr>) = counts_exact g" "counts_exact (g\<lparr>m_leaderGuid := l\<rparr>) = counts_exact g"
  by (simp_all add: counts_exact_def cong: option.case_cong)

text \<open>An assignment to fields of a group the links do not depend on.\<close>

definition same_links :: "group \<Rightarrow> group \<Rightarrow> bool" where
  "same_links g h =
     (map (\<lambda>m. (ms_guid m, ms_group m)) (m_memberSlots h) = map (\<lambda>m. (ms_guid m, ms_group m)) (m_memberSlots g) \<and>
      m_memberMgr h = m_memberMgr g \<and> m_invitees h = m_invitees g \<and> m_guid h = m_guid g \<and> m_dbStoreId h = m_dbStoreId g)"

lemma same_links_slots:
  assumes "same_links g h"
  shows "members h = members g" "(m_memberSlots h = []) = (m_memberSlots g = [])" "length (m_memberSlots h) = length (m_memberSlots g)"
    "map ms_guid (m_memberSlots h) = map ms_guid (m_memberSlots g)"
    "in_sub i (m_memberSlots h) = in_sub i (m_memberSlots g)"
    "(\<exists>m \<in> set (m_memberSlots h). ms_guid m = p \<and> ms_group m = s) = (\<exists>m \<in> set (m_memberSlots g). ms_guid m = p \<and> ms_group m = s)"
    "(\<forall>m \<in> set (m_memberSlots h). P (ms_group m)) = (\<forall>m \<in> set (m_memberSlots g). P (ms_group m))"
proof -
  let ?f = "\<lambda>m. (ms_guid m, ms_group m)"
  have eq: "map ?f (m_memberSlots h) = map ?f (m_memberSlots g)" using assms by (simp add: same_links_def)
  have "map fst (map ?f (m_memberSlots h)) = map fst (map ?f (m_memberSlots g))" using eq by (rule arg_cong)
  then show guids: "map ms_guid (m_memberSlots h) = map ms_guid (m_memberSlots g)" by (simp add: comp_def)
  then show "members h = members g" unfolding members_def by (metis list.set_map)
  show len: "length (m_memberSlots h) = length (m_memberSlots g)" using arg_cong [OF eq, of length] by simp
  then show "(m_memberSlots h = []) = (m_memberSlots g = [])" by (metis length_0_conv)
  have c: "in_sub i ms = length (filter (\<lambda>x. unat (snd x) = i) (map ?f ms))" for ms
    by (simp add: in_sub_def filter_map comp_def)
  show "in_sub i (m_memberSlots h) = in_sub i (m_memberSlots g)" unfolding c eq by (rule refl)
  have sets: "?f ` set (m_memberSlots h) = ?f ` set (m_memberSlots g)" using arg_cong [OF eq, of set] by simp
  have ex: "(\<exists>m \<in> set ms. ms_guid m = p \<and> ms_group m = s) = ((p, s) \<in> ?f ` set ms)" for ms
    by (auto simp: image_iff)
  show "(\<exists>m \<in> set (m_memberSlots h). ms_guid m = p \<and> ms_group m = s) = (\<exists>m \<in> set (m_memberSlots g). ms_guid m = p \<and> ms_group m = s)"
    unfolding ex sets by (rule refl)
  have all: "(\<forall>m \<in> set ms. P (ms_group m)) = (\<forall>x \<in> ?f ` set ms. P (snd x))" for ms by simp
  show "(\<forall>m \<in> set (m_memberSlots h). P (ms_group m)) = (\<forall>m \<in> set (m_memberSlots g). P (ms_group m))"
    unfolding all sets by (rule refl)
qed

lemma ids_cong:
  assumes "ids_ok w" and "\<And>b. map_option ids_of (groups w' b) = map_option ids_of (groups w b)"
    and "GroupStore w' = GroupStore w" "GroupDbStore w' = GroupDbStore w" "NextGroupId w' = NextGroupId w"
    "NextGroupDbStoreId w' = NextGroupDbStoreId w" "gw_fresh w' = gw_fresh w"
  shows "ids_ok w'"
proof -
  have "GetGroupByDbStoreId k w' = GetGroupByDbStoreId k w" for k using assms(4) by (simp add: GetGroupByDbStoreId_def)
  then show ?thesis using assms unfolding ids_ok_def by simp
qed

lemma keeps_cosmetic:
  assumes ok: "links_ok w" and g: "groups w a = Some g" and same: "same_links g h" and h: "group_ok h"
  shows "links_ok (w\<lparr>groups := (groups w)(a \<mapsto> h)\<rparr>)" and "ids_ok w \<Longrightarrow> ids_ok (w\<lparr>groups := (groups w)(a \<mapsto> h)\<rparr>)"
proof -
  note s = same_links_slots [OF same]
  have l: "m_memberMgr h = m_memberMgr g" "m_invitees h = m_invitees g" "m_guid h = m_guid g" "m_dbStoreId h = m_dbStoreId g"
    using same by (simp_all add: same_links_def)
  let ?w = "w\<lparr>groups := (groups w)(a \<mapsto> h)\<rparr>"
  have players: "player_ok ?w p pl" if "player_ok w p pl" for p pl
    using that g s l unfolding player_ok_def by (auto split: option.splits)
  show "links_ok ?w"
  proof (rule links_okI)
    fix b k
    assume "groups ?w b = Some k"
    then show "group_ok k \<and> refs_ok ?w b k \<and> invitees_ok ?w b k"
      using links_okD(1-3) [OF ok] h g l by (auto simp: refs_ok_def invitees_ok_def split: if_splits)
  next
    fix p pl
    assume "players ?w p = Some pl"
    then show "player_ok ?w p pl \<and> gp_connected pl" using links_okD(4,5) [OF ok, of p pl] players by simp
  next
    fix b c k m q
    assume "groups ?w b = Some k" "groups ?w c = Some m" "q \<in> members k" "q \<in> members m"
    then show "b = c" using links_okD(6) [OF ok] g s(1) by (auto split: if_splits)
  qed
  show "ids_ok ?w" if "ids_ok w" by (rule ids_cong [OF that]) (simp_all add: g s(2) l ids_of_def)
qed

lemma counts_exact_same:
  assumes "same_links g h" and "isRaidGroup h = isRaidGroup g" and "m_subGroupsCounts h = m_subGroupsCounts g"
  shows "counts_exact h = counts_exact g"
  using same_links_slots(5) [OF assms(1)] same_links_slots(7) [OF assms(1), of "\<lambda>i. i = 0"]
    same_links_slots(7) [OF assms(1), of "\<lambda>i. unat i < MAX_RAID_SUBGROUPS"] assms(2,3)
  by (simp add: counts_exact_def split: option.splits)

lemma sizes_ok_same:
  assumes "same_links g h" and "isRaidGroup h = isRaidGroup g"
  shows "sizes_ok h = sizes_ok g"
  using same_links_slots(3,5) [OF assms(1)] assms(2) by (simp add: sizes_ok_def)

lemma group_ok_same:
  assumes "group_ok g" and "same_links g h" and "isRaidGroup h = isRaidGroup g" and "m_subGroupsCounts h = m_subGroupsCounts g"
    and "m_bgGroup h = m_bgGroup g" and "length (m_targetIcons h) = TARGETICONCOUNT" and "rolls_ok (m_RollId h)"
    and "m_memberSlots g \<noteq> [] \<Longrightarrow> m_leaderGuid h \<in> members g"
  shows "group_ok h"
  using assms(1,5-8) counts_exact_same [OF assms(2-4)] same_links_slots(1,2,4) [OF assms(2)] assms(2)
  by (simp add: group_ok_def same_links_def)

section \<open>Invitations\<close>

lemma keeps_invite:
  assumes ok: "links_ok w" and g: "groups w a = Some g" and pl: "players w p = Some pl"
    and none: "gp_invite pl = None" "gp_m_group pl = None"
  shows "links_ok (w\<lparr>groups := (groups w)(a \<mapsto> g\<lparr>m_invitees := p # m_invitees g\<rparr>), players := (players w)(p \<mapsto> pl\<lparr>gp_invite := Some a\<rparr>)\<rparr>)"
    (is "links_ok ?w")
proof (rule links_okI)
  have new: "p \<notin> set (m_invitees h)" if "groups w b = Some h" for b h
    using links_okD(3) [OF ok that] pl none by (auto simp: invitees_ok_def)
  have linked: "group_of ?w q = group_of w q" for q using pl by simp
  fix b k
  assume k: "groups ?w b = Some k"
  then obtain k0 where k0: "groups w b = Some k0" "m_memberMgr k = m_memberMgr k0" "b \<noteq> a \<Longrightarrow> k = k0"
    using g by (auto split: if_splits)
  have "refs_ok ?w b k" using refs_ok_cong [OF linked k0(2)] links_okD(2) [OF ok k0(1)] by simp
  moreover have "group_ok k" using k links_okD(1) [OF ok k0(1)] g k0 new [OF g]
    by (cases "b = a") (auto simp: group_ok_def)
  moreover have "invitees_ok ?w b k" using k links_okD(3) [OF ok k0(1)] k0 g new
    by (cases "b = a") (auto simp: invitees_ok_def)
  ultimately show "group_ok k \<and> refs_ok ?w b k \<and> invitees_ok ?w b k" by blast
next
  fix q ql
  assume "players ?w q = Some ql"
  then show "player_ok ?w q ql \<and> gp_connected ql"
    using links_okD(4,5) [OF ok, of q] links_okD(4,5) [OF ok pl] none g
    by (auto simp: player_ok_def split: if_splits option.splits)
next
  fix b c k m q
  assume "groups ?w b = Some k" "groups ?w c = Some m" "q \<in> members k" "q \<in> members m"
  then show "b = c" using links_okD(6) [OF ok] g by (auto split: if_splits)
qed

text \<open>Invitations of one group are withdrawn.\<close>

definition uninvited :: "guid set \<Rightarrow> nat \<Rightarrow> group \<Rightarrow> group_world \<Rightarrow> group_world" where
  "uninvited S a g w =
     w\<lparr>groups := (groups w)(a \<mapsto> g\<lparr>m_invitees := filter (\<lambda>q. q \<notin> S) (m_invitees g)\<rparr>),
       players := (\<lambda>q. if q \<in> S then map_option (gp_invite_update (\<lambda>_. None)) (players w q) else players w q)\<rparr>"

lemma keeps_uninvited:
  assumes ok: "links_ok w" and g: "groups w a = Some g" and S: "S \<subseteq> set (m_invitees g)"
  shows "links_ok (uninvited S a g w)" (is "links_ok ?w")
proof (rule links_okI)
  have inv: "invite_of w q = Some a" if "q \<in> S" for q
    using links_okD(3) [OF ok g] S that by (auto simp: invitees_ok_def)
  have linked: "group_of ?w q = group_of w q" for q by (simp add: uninvited_def)
  fix b k
  assume k: "groups ?w b = Some k"
  then obtain k0 where k0: "groups w b = Some k0" "m_memberMgr k = m_memberMgr k0" "b \<noteq> a \<Longrightarrow> k = k0"
    using g by (auto simp: uninvited_def split: if_splits)
  have "refs_ok ?w b k" using refs_ok_cong [OF linked k0(2)] links_okD(2) [OF ok k0(1)] by simp
  moreover have "group_ok k" using k links_okD(1) [OF ok k0(1)] g k0
    by (cases "b = a") (auto simp: group_ok_def uninvited_def)
  moreover have "invitees_ok ?w b k"
  proof (cases "b = a")
    case True
    then show ?thesis using k links_okD(3) [OF ok g] by (auto simp: invitees_ok_def uninvited_def)
  next
    case False
    then have "q \<notin> S" if "q \<in> set (m_invitees k)" for q
      using links_okD(3) [OF ok k0(1)] that inv k0(3) by (auto simp: invitees_ok_def)
    then show ?thesis using links_okD(3) [OF ok k0(1)] k0(3) [OF False] by (auto simp: invitees_ok_def uninvited_def)
  qed
  ultimately show "group_ok k \<and> refs_ok ?w b k \<and> invitees_ok ?w b k" by blast
next
  fix q ql
  assume "players ?w q = Some ql"
  then show "player_ok ?w q ql \<and> gp_connected ql"
    using links_okD(4,5) [OF ok, of q] g
    by (auto simp: uninvited_def player_ok_def split: if_splits option.splits)
next
  fix b c k m q
  assume "groups ?w b = Some k" "groups ?w c = Some m" "q \<in> members k" "q \<in> members m"
  then show "b = c" using links_okD(6) [OF ok] g by (auto simp: uninvited_def split: if_splits)
qed

section \<open>Members\<close>

lemma keeps_join:
  assumes ok: "links_ok w" and g: "groups w a = Some g" and pl: "players w p = Some pl"
    and none: "gp_invite pl = None" "gp_m_group pl = None"
    and h: "m_memberSlots h = m_memberSlots g @ [m]" "ms_guid m = p" "m_memberMgr h = GroupRef p # m_memberMgr g"
      "m_invitees h = m_invitees g" "group_ok h"
    and pl': "gp_m_group pl' = Some a" "gp_subGroup pl' = ms_group m" "gp_invite pl' = None" "gp_m_originalGroup pl' = None"
      "gp_connected pl'"
  shows "links_ok (w\<lparr>groups := (groups w)(a \<mapsto> h), players := (players w)(p \<mapsto> pl')\<rparr>)" (is "links_ok ?w")
proof (rule links_okI)
  have not_in: "p \<notin> members k" if "groups w b = Some k" for b k
    using links_okD(4) [OF ok pl] none(2) that by (simp add: player_ok_def)
  have mem: "members h = insert p (members g)" using h(1,2) by (auto simp: members_def)
  have other: "GroupRef p \<notin> set (m_memberMgr k)" if "groups w b = Some k" for b k
    using links_okD(2) [OF ok that] pl none(2) by (auto simp: refs_ok_def)
  have noinv: "p \<notin> set (m_invitees k)" if "groups w b = Some k" for b k
    using links_okD(3) [OF ok that] pl none(1) by (auto simp: invitees_ok_def)
  { fix b k
    assume k: "groups ?w b = Some k"
    show "group_ok k \<and> refs_ok ?w b k \<and> invitees_ok ?w b k"
    proof (cases "b = a")
      case True
      then have "refs_ok ?w b k" "invitees_ok ?w b k"
        using k h links_okD(2,3) [OF ok g] pl'(1) other [OF g] noinv [OF g] by (auto simp: refs_ok_def invitees_ok_def)
      then show ?thesis using k h(5) True by auto
    next
      case False
      then have b: "groups w b = Some k" using k by simp
      show ?thesis using links_okD(1-3) [OF ok b] other [OF b] noinv [OF b] by (auto simp: refs_ok_def invitees_ok_def)
    qed
  next
    fix q ql
    assume q: "players ?w q = Some ql"
    show "player_ok ?w q ql \<and> gp_connected ql"
    proof (cases "q = p")
      case True
      then show ?thesis using q pl' h by (auto simp: player_ok_def)
    next
      case False
      then have "players w q = Some ql" using q by simp
      then show ?thesis using links_okD(4,5) [OF ok, of q ql] g h mem False
        by (auto simp: player_ok_def split: option.splits)
    qed
  next
    fix b c k n q
    assume "groups ?w b = Some k" "groups ?w c = Some n" "q \<in> members k" "q \<in> members n"
    then show "b = c" using links_okD(6) [OF ok] g mem not_in by (auto split: if_splits)
  }
qed

text \<open>Members of a group leave it: their slots go, and the references of those who are online.\<close>

definition unlinked :: "guid set \<Rightarrow> (gplayer \<Rightarrow> gplayer) \<Rightarrow> group_world \<Rightarrow> guid \<Rightarrow> gplayer option" where
  "unlinked S f w q = (if q \<in> S then map_option f (players w q) else players w q)"

lemma keeps_leave:
  assumes ok: "links_ok w" and g: "groups w a = Some g" and S: "S \<subseteq> members g"
    and h: "m_memberSlots h = filter (\<lambda>m. ms_guid m \<notin> S) (m_memberSlots g)"
      "m_memberMgr h = filter (\<lambda>r. GetSource r \<notin> S) (m_memberMgr g)" "m_invitees h = m_invitees g" "group_ok h"
    and f: "\<And>pl. gp_m_group (f pl) = None" "\<And>pl. gp_invite (f pl) = gp_invite pl"
      "\<And>pl. gp_m_originalGroup (f pl) = gp_m_originalGroup pl" "\<And>pl. gp_connected (f pl) = gp_connected pl"
  shows "links_ok (w\<lparr>groups := (groups w)(a \<mapsto> h), players := unlinked S f w\<rparr>)" (is "links_ok ?w")
proof (rule links_okI)
  have mem: "members h = members g - S" using h(1) by (auto simp: members_def)
  have apart: "S \<inter> members k = {}" if "groups w b = Some k" "b \<noteq> a" for b k
    using links_okD(6) [OF ok g that(1)] S that(2) by blast
  have linked: "group_of w q = Some a" if "q \<in> S" "players w q \<noteq> None" for q
    using member_linked [OF ok g, of q] S that by auto
  have inv: "invite_of ?w q = invite_of w q" for q using f(2) by (simp add: unlinked_def)
  { fix b k
    assume k: "groups ?w b = Some k"
    show "group_ok k \<and> refs_ok ?w b k \<and> invitees_ok ?w b k"
    proof (cases "b = a")
      case True
      have stay: "group_of ?w q = group_of w q" if "q \<notin> S" for q using that by (simp add: unlinked_def)
      have "\<exists>p. r = GroupRef p \<and> group_of ?w p = Some a" if "r \<in> set (m_memberMgr h)" for r
      proof -
        have r: "r \<in> set (m_memberMgr g)" "GetSource r \<notin> S" using that h(2) by auto
        then obtain p where "r = GroupRef p" "group_of w p = Some a" using links_okD(2) [OF ok g] by (auto simp: refs_ok_def)
        then show ?thesis using stay [of p] r(2) by auto
      qed
      moreover have "invitees_ok ?w b k" using k h(3) True links_okD(3) [OF ok g] inv by (simp add: invitees_ok_def)
      ultimately show ?thesis using k h(4) True by (auto simp: refs_ok_def)
    next
      case False
      then have b: "groups w b = Some k" using k by simp
      have "q \<notin> S" if "group_of w q = Some b" for q using linked [of q] that False by (auto simp: bind_eq_Some_conv)
      then have "group_of ?w q = Some b" if "group_of w q = Some b" for q using that by (simp add: unlinked_def)
      then have "refs_ok ?w b k" using links_okD(2) [OF ok b] unfolding refs_ok_def by blast
      then show ?thesis using links_okD(1,3) [OF ok b] inv by (auto simp: invitees_ok_def)
    qed
  next
    fix q ql
    assume q: "players ?w q = Some ql"
    show "player_ok ?w q ql \<and> gp_connected ql"
    proof (cases "q \<in> S")
      case True
      then obtain q0 where q0: "players w q = Some q0" "ql = f q0" using q by (auto simp: unlinked_def)
      have "q \<notin> members k" if "groups ?w b = Some k" for b k
        using that mem True apart g by (cases "b = a") auto
      then show ?thesis using links_okD(4,5) [OF ok q0(1)] q0(2) f g h(3) by (auto simp: player_ok_def)
    next
      case False
      then have "players w q = Some ql" using q by (simp add: unlinked_def)
      then show ?thesis using links_okD(4,5) [OF ok, of q ql] g h mem False
        by (auto simp: player_ok_def split: option.splits)
    qed
  next
    fix b c k n q
    assume "groups ?w b = Some k" "groups ?w c = Some n" "q \<in> members k" "q \<in> members n"
    then show "b = c" using links_okD(6) [OF ok] g mem by (auto split: if_splits)
  }
qed

text \<open>Groups come and go without members and invitations.\<close>

lemma keeps_alloc:
  assumes ok: "links_ok w" and a: "groups w a = None"
  shows "links_ok (w\<lparr>groups := (groups w)(a \<mapsto> new_Group)\<rparr>)" (is "links_ok ?w")
proof (rule links_okI)
  have new: "group_ok new_Group" "members new_Group = {}" "m_memberMgr new_Group = []" "m_invitees new_Group = []"
    by (simp_all add: group_ok_def new_Group_def counts_exact_def isRaidGroup_def rolls_ok_def members_def TARGETICONCOUNT_def)
  { fix b k
    assume "groups ?w b = Some k"
    then show "group_ok k \<and> refs_ok ?w b k \<and> invitees_ok ?w b k"
      using links_okD(1-3) [OF ok, of b k] new by (auto simp: refs_ok_def invitees_ok_def split: if_splits)
  next
    fix q ql
    assume "players ?w q = Some ql"
    then show "player_ok ?w q ql \<and> gp_connected ql"
      using links_okD(4,5) [OF ok, of q ql] new a by (auto simp: player_ok_def split: option.splits)
  next
    fix b c k n q
    assume "groups ?w b = Some k" "groups ?w c = Some n" "q \<in> members k" "q \<in> members n"
    then show "b = c" using links_okD(6) [OF ok] new by (auto split: if_splits)
  }
qed

lemma keeps_delete:
  assumes ok: "links_ok w" and g: "groups w a = Some g" and empty: "m_memberMgr g = []" "m_invitees g = []"
  shows "links_ok (w\<lparr>groups := (groups w)(a := None)\<rparr>)" (is "links_ok ?w")
proof (rule links_okI)
  fix b k
  assume "groups ?w b = Some k"
  then show "group_ok k \<and> refs_ok ?w b k \<and> invitees_ok ?w b k"
    using links_okD(1-3) [OF ok, of b k] by (auto simp: refs_ok_def invitees_ok_def split: if_splits)
next
  fix q ql
  assume q: "players ?w q = Some ql"
  then have "gp_m_group ql \<noteq> Some a" "gp_invite ql \<noteq> Some a"
    using links_okD(4) [OF ok, of q ql] g empty by (auto simp: player_ok_def)
  then show "player_ok ?w q ql \<and> gp_connected ql"
    using links_okD(4,5) [OF ok, of q ql] q by (auto simp: player_ok_def split: option.splits)
next
  fix b c k n q
  assume "groups ?w b = Some k" "groups ?w c = Some n" "q \<in> members k" "q \<in> members n"
  then show "b = c" using links_okD(6) [OF ok] by (auto split: if_splits)
qed

end
