(* ===== verification/GroupRuns.thy ===== *)
theory GroupRuns
  imports GroupKeeps
begin

text \<open>The operations return in a consistent world, and leave one.\<close>

section \<open>Assignments\<close>

lemma on_group_Some: "groups w a = Some g \<Longrightarrow> on_group a f w = Some (w\<lparr>groups := (groups w)(a \<mapsto> f g)\<rparr>)"
  by (simp add: on_group_def)

lemma on_player_Some: "players w p = Some pl \<Longrightarrow> on_player p f w = Some (w\<lparr>players := (players w)(p \<mapsto> f pl)\<rparr>)"
  by (simp add: on_player_def)

lemma groups_id [simp]: "groups w a = Some g \<Longrightarrow> w\<lparr>groups := (groups w)(a \<mapsto> g)\<rparr> = w"
  by (simp add: map_upd_triv)

lemma players_id [simp]: "players w p = Some pl \<Longrightarrow> w\<lparr>players := (players w)(p \<mapsto> pl)\<rparr> = w"
  by (simp add: map_upd_triv)

lemma groups_players [simp]: "w\<lparr>players := P, groups := G\<rparr> = w\<lparr>groups := G, players := P\<rparr>"
  by simp

lemma connected_iff:
  assumes "links_ok w"
  shows "gw_connected w p = (players w p \<noteq> None)"
  using links_okD(5) [OF assms] by (auto simp: gw_connected_def split: option.splits)

lemma leave_flag:
  assumes ok: "links_ok w" and pl: "players w p = Some pl"
  shows "links_ok (w\<lparr>players := (players w)(p \<mapsto> pl\<lparr>gp_leader_flag := v\<rparr>)\<rparr>)" (is "links_ok ?w")
proof (rule links_okI)
  have same: "group_of ?w q = group_of w q" "invite_of ?w q = invite_of w q" for q using pl by simp_all
  fix b k
  assume "groups ?w b = Some k"
  then show "group_ok k \<and> refs_ok ?w b k \<and> invitees_ok ?w b k"
    using links_okD(1-3) [OF ok, of b k] same by (simp add: refs_ok_def invitees_ok_def)
next
  fix q ql
  assume "players ?w q = Some ql"
  then show "player_ok ?w q ql \<and> gp_connected ql"
    using links_okD(4,5) [OF ok, of q] links_okD(4,5) [OF ok pl]
    by (auto simp: player_ok_def split: if_splits option.splits)
next
  fix b c k n q
  assume "groups ?w b = Some k" "groups ?w c = Some n" "q \<in> members k" "q \<in> members n"
  then show "b = c" using links_okD(6) [OF ok] by auto
qed

lemma GetGroupByDbStoreId_upd [simp]:
  "GetGroupByDbStoreId k (w\<lparr>groups := G\<rparr>) = GetGroupByDbStoreId k w" "GetGroupByDbStoreId k (w\<lparr>players := P\<rparr>) = GetGroupByDbStoreId k w"
  "GetGroupByDbStoreId k (w\<lparr>GroupStore := S\<rparr>) = GetGroupByDbStoreId k w" "GetGroupByDbStoreId k (w\<lparr>NextGroupId := i\<rparr>) = GetGroupByDbStoreId k w"
  "GetGroupByDbStoreId k (w\<lparr>NextGroupDbStoreId := j\<rparr>) = GetGroupByDbStoreId k w" "GetGroupByDbStoreId k (w\<lparr>gw_fresh := n\<rparr>) = GetGroupByDbStoreId k w"
  by (simp_all add: GetGroupByDbStoreId_def)

lemma ids_okD:
  assumes "ids_ok w"
  shows "map_ok (GroupStore w)" "map_option ids_of (groups w a) = Some x \<Longrightarrow> a < gw_fresh w"
    "map_option ids_of (groups w a) = Some (True, k, s) \<Longrightarrow> smap_find (GroupStore w) k = Some a"
    "map_option ids_of (groups w a) = Some (True, k, s) \<Longrightarrow> GetGroupByDbStoreId s w = Some a"
    "smap_find (GroupStore w) k = Some a \<Longrightarrow> k < NextGroupId w"
    "smap_find (GroupStore w) k = Some a \<Longrightarrow> \<exists>s. map_option ids_of (groups w a) = Some (True, k, s)"
    "GetGroupByDbStoreId s w = Some a \<Longrightarrow> \<exists>k. map_option ids_of (groups w a) = Some (True, k, s)"
    "GetGroupByDbStoreId (NextGroupDbStoreId w) w = None"
  using assms unfolding ids_ok_def by (cases x; blast)+

lemma ids_okI:
  assumes "map_ok (GroupStore w)" "\<And>a x. map_option ids_of (groups w a) = Some x \<Longrightarrow> a < gw_fresh w"
    "\<And>a k s. map_option ids_of (groups w a) = Some (True, k, s) \<Longrightarrow>
       smap_find (GroupStore w) k = Some a \<and> GetGroupByDbStoreId s w = Some a"
    "\<And>k a. smap_find (GroupStore w) k = Some a \<Longrightarrow> k < NextGroupId w \<and> (\<exists>s. map_option ids_of (groups w a) = Some (True, k, s))"
    "\<And>s a. GetGroupByDbStoreId s w = Some a \<Longrightarrow> \<exists>k. map_option ids_of (groups w a) = Some (True, k, s)"
    "GetGroupByDbStoreId (NextGroupDbStoreId w) w = None"
  shows "ids_ok w"
proof -
  have "smap_find (GroupStore w) k = Some a \<and> GetGroupByDbStoreId s w = Some a"
    if "map_option ids_of (groups w a) = Some (c, k, s)" "c" for a c k s
    using assms(3) [of a k s] that by simp
  then show ?thesis unfolding ids_ok_def using assms(1,2,4-6) by blast
qed

lemma ids_players [simp]: "ids_ok (w\<lparr>players := P\<rparr>) = ids_ok w"
  by (simp add: ids_ok_def GetGroupByDbStoreId_def)

lemma ids_upd:
  assumes "ids_ok w" and "groups w a = Some g" and "ids_of h = ids_of g"
  shows "ids_ok (w\<lparr>groups := (groups w)(a \<mapsto> h)\<rparr>)"
  by (rule ids_cong [OF assms(1)]) (simp_all add: assms)

lemma SetLeaderFlag_runs:
  assumes "links_ok w" and "players w p = Some pl"
  shows "\<exists>w'. SetLeaderFlag v p w = Some w' \<and> links_ok w' \<and> groups w' = groups w \<and> (ids_ok w \<longrightarrow> ids_ok w') \<and>
     (\<forall>q. players w' q = None \<longleftrightarrow> players w q = None) \<and> (\<forall>q. group_of w' q = group_of w q) \<and> (\<forall>q. invite_of w' q = invite_of w q)"
  using leave_flag [OF assms] assms(2) by (auto simp: SetLeaderFlag_def on_player_Some)

section \<open>Invitations\<close>

lemma RemoveInvite_runs:
  assumes ok: "links_ok w" and g: "groups w a = Some g" and p: "invite_of w p = Some a"
  shows "RemoveInvite p a w = Some (uninvited {p} a g w)"
proof -
  obtain pl where pl: "players w p = Some pl" using p by (auto simp: bind_eq_Some_conv)
  have ps: "(\<lambda>q. if q \<in> {p} then map_option (gp_invite_update (\<lambda>_. None)) (players w q) else players w q)
      = (players w)(p \<mapsto> pl\<lparr>gp_invite := None\<rparr>)"
    by (rule ext) (simp add: pl)
  have gs: "filter (\<lambda>q. q \<notin> {p}) xs = removeAll p xs" for xs by (induction xs) auto
  show ?thesis unfolding uninvited_def ps gs using g pl
    by (simp add: RemoveInvite_def SetGroupInvite_def on_group_Some on_player_Some)
qed

lemma RemoveInvite_none:
  assumes ok: "links_ok w" and g: "groups w a = Some g" and pl: "players w p = Some pl" and none: "gp_invite pl = None"
  shows "RemoveInvite p a w = Some w"
proof -
  have "p \<notin> set (m_invitees g)" using links_okD(3) [OF ok g] pl none by (auto simp: invitees_ok_def)
  moreover have "pl\<lparr>gp_invite := None\<rparr> = pl" using none by simp
  ultimately show ?thesis using g pl
    by (simp add: RemoveInvite_def SetGroupInvite_def on_group_Some on_player_Some)
qed

lemma RemoveAllInvites_raw:
  assumes g: "groups w a = Some g" and ps: "\<forall>p \<in> set (m_invitees g). players w p \<noteq> None" "distinct (m_invitees g)"
  shows "RemoveAllInvites a w = Some (uninvited (set (m_invitees g)) a g w)"
proof -
  have step: "each (SetGroupInvite None) ps (w\<lparr>players := P\<rparr>) =
      Some (w\<lparr>players := (\<lambda>q. if q \<in> set ps then map_option (gp_invite_update (\<lambda>_. None)) (P q) else P q)\<rparr>)"
    if "\<forall>p \<in> set ps. P p \<noteq> None" "distinct ps" for ps P
    using that
  proof (induction ps arbitrary: P)
    case Nil
    then show ?case by simp
  next
    case (Cons p ps)
    then obtain pl where pl: "P p = Some pl" by auto
    let ?P = "P(p \<mapsto> pl\<lparr>gp_invite := None\<rparr>)"
    have eq: "(\<lambda>q. if q \<in> set ps then map_option (gp_invite_update (\<lambda>_. None)) (?P q) else ?P q)
       = (\<lambda>q. if q \<in> set (p # ps) then map_option (gp_invite_update (\<lambda>_. None)) (P q) else P q)"
      using Cons.prems pl by (auto simp: fun_eq_iff)
    have "\<forall>q \<in> set ps. ?P q \<noteq> None" "distinct ps" using Cons.prems by auto
    note IH = Cons.IH [OF this, unfolded eq]
    have "SetGroupInvite None p (w\<lparr>players := P\<rparr>) = Some (w\<lparr>players := ?P\<rparr>)"
      using pl by (simp add: SetGroupInvite_def on_player_Some)
    then show ?case using IH by (simp only: each.simps Option.bind.bind_lunit option.simps)
  qed
  from step [OF ps] show ?thesis using g by (simp add: RemoveAllInvites_def on_group_Some uninvited_def)
qed

lemma RemoveAllInvites_runs:
  assumes ok: "links_ok w" and g: "groups w a = Some g"
  shows "RemoveAllInvites a w = Some (uninvited (set (m_invitees g)) a g w)"
  by (rule RemoveAllInvites_raw [OF g])
    (use links_okD(1,3) [OF ok g] in \<open>auto simp: invitees_ok_def group_ok_def bind_eq_Some_conv\<close>)

lemma uninvited_simps [simp]:
  "groups (uninvited S a g w) b = (if b = a then Some (g\<lparr>m_invitees := filter (\<lambda>q. q \<notin> S) (m_invitees g)\<rparr>) else groups w b)"
  "players (uninvited S a g w) q = (if q \<in> S then map_option (gp_invite_update (\<lambda>_. None)) (players w q) else players w q)"
  by (simp_all add: uninvited_def)

lemma uninvited_ids: "groups w a = Some g \<Longrightarrow> ids_ok w \<Longrightarrow> ids_ok (uninvited S a g w)"
  unfolding uninvited_def by (drule (1) ids_upd [where h = "g\<lparr>m_invitees := filter (\<lambda>q. q \<notin> S) (m_invitees g)\<rparr>"])
    (simp_all add: ids_of_def)

lemma own_group_runs:
  assumes ok: "links_ok w" and pl: "players w p = Some pl"
  shows "own_group p w = Some (gp_m_group pl)"
proof (cases "gp_m_group pl")
  case None
  then show ?thesis using pl by (simp add: own_group_def)
next
  case (Some a)
  then obtain g where "groups w a = Some g" using links_okD(4) [OF ok pl] by (auto simp: player_ok_def)
  then show ?thesis using pl Some links_okD(1) [OF ok] by (auto simp: own_group_def isBGGroup_def group_ok_def)
qed

definition invited :: "guid \<Rightarrow> nat \<Rightarrow> group \<Rightarrow> gplayer \<Rightarrow> group_world \<Rightarrow> group_world" where
  "invited p a g pl w = w\<lparr>groups := (groups w)(a \<mapsto> g\<lparr>m_invitees := p # m_invitees g\<rparr>), players := (players w)(p \<mapsto> pl\<lparr>gp_invite := Some a\<rparr>)\<rparr>"

lemma AddInvite_runs:
  assumes ok: "links_ok w" and g: "groups w a = Some g" and pl: "players w p = Some pl"
  shows "AddInvite p a w =
     Some (if gp_invite pl = None \<and> gp_m_group pl = None then (True, invited p a g pl w) else (False, w))"
  using own_group_runs [OF ok pl] RemoveInvite_none [OF ok g pl] g pl
  by (cases "gp_invite pl") (auto simp: AddInvite_def on_group_Some SetGroupInvite_def on_player_Some invited_def)

lemma invited_ok:
  assumes "links_ok w" and "groups w a = Some g" and "players w p = Some pl" and "gp_invite pl = None" and "gp_m_group pl = None"
  shows "links_ok (invited p a g pl w)" and "ids_ok w \<Longrightarrow> ids_ok (invited p a g pl w)"
  using keeps_invite [OF assms] ids_upd [OF _ assms(2), of "g\<lparr>m_invitees := p # m_invitees g\<rparr>"]
  by (simp_all add: invited_def ids_of_def)

lemma delete_unused:
  assumes ok: "links_ok w" and g: "groups w a = Some g" and empty: "m_memberSlots g = []" "m_invitees g = []" "m_memberMgr g = []"
  shows "\<exists>fx. delete_group a w = Some (add_fx fx (w\<lparr>groups := (groups w)(a := None)\<rparr>))" and "links_ok (w\<lparr>groups := (groups w)(a := None)\<rparr>)"
    and "ids_ok w \<Longrightarrow> ids_ok (w\<lparr>groups := (groups w)(a := None)\<rparr>)"
proof -
  have bg: "m_bgGroup g = None" using links_okD(1) [OF ok g] by (simp add: group_ok_def)
  then show "\<exists>fx. delete_group a w = Some (add_fx fx (w\<lparr>groups := (groups w)(a := None)\<rparr>))"
    using g empty(3) by (auto simp: delete_group_def effect_fx)
  show "links_ok (w\<lparr>groups := (groups w)(a := None)\<rparr>)" by (rule keeps_delete [OF ok g empty(3,2)])
  have fst: "fst (ids_of g) = False" using empty(1) by (simp add: ids_of_def)
  show "ids_ok (w\<lparr>groups := (groups w)(a := None)\<rparr>)" if ids: "ids_ok w"
  proof (rule ids_okI)
    have other: "b \<noteq> a" if "map_option ids_of (groups w b) = Some (True, k, s)" for b k s
      using that g fst by auto
    fix k b
    assume "smap_find (GroupStore (w\<lparr>groups := (groups w)(a := None)\<rparr>)) k = Some b"
    then show "k < NextGroupId (w\<lparr>groups := (groups w)(a := None)\<rparr>) \<and>
        (\<exists>s. map_option ids_of (groups (w\<lparr>groups := (groups w)(a := None)\<rparr>) b) = Some (True, k, s))"
      using ids_okD(5) [OF ids, of k b] ids_okD(6) [OF ids, of k b] other [of b k] by auto
  next
    fix s b
    assume "GetGroupByDbStoreId s (w\<lparr>groups := (groups w)(a := None)\<rparr>) = Some b"
    then show "\<exists>k. map_option ids_of (groups (w\<lparr>groups := (groups w)(a := None)\<rparr>) b) = Some (True, k, s)"
      using ids_okD(7) [OF ids] g fst by fastforce
  qed (use ids_okD [OF ids] in \<open>auto split: if_splits\<close>)
qed

lemma gw_okD:
  assumes "gw_ok w"
  shows "links_ok w" "ids_ok w" "groups w a = Some g \<Longrightarrow> sizes_ok g" "groups w a = Some g \<Longrightarrow> founder_ok g"
  using assms by (auto simp: gw_ok_def)

lemma gw_ok_upd:
  assumes "gw_ok w" and "links_ok w'" and "ids_ok w'"
    and "\<And>b h. groups w' b = Some h \<Longrightarrow> groups w b = Some h \<or> sizes_ok h \<and> founder_ok h"
  shows "gw_ok w'"
  using assms unfolding gw_ok_def by blast

lemma links_fresh [simp]: "links_ok (w\<lparr>gw_fresh := n\<rparr>) = links_ok w"
  by (simp add: links_ok_def refs_ok_def [abs_def] invitees_ok_def [abs_def] player_ok_def [abs_def] cong: option.case_cong)

lemma fresh_free: "ids_ok w \<Longrightarrow> groups w (gw_fresh w) = None"
  using ids_okD(2) [of w "gw_fresh w"] by (cases "groups w (gw_fresh w)") auto

lemma alloc_ok:
  assumes links: "links_ok w" and ids: "ids_ok w"
  shows "\<exists>w1. alloc_group w = (gw_fresh w, w1) \<and> links_ok w1 \<and> ids_ok w1 \<and> groups w1 = (groups w)(gw_fresh w \<mapsto> new_Group) \<and>
     players w1 = players w"
proof -
  let ?a = "gw_fresh w"
  let ?w = "w\<lparr>groups := (groups w)(?a \<mapsto> new_Group), gw_fresh := Suc ?a\<rparr>"
  have none: "groups w ?a = None" by (rule fresh_free [OF ids])
  have new: "fst (ids_of new_Group) = False" by (simp add: ids_of_def new_Group_def)
  have "links_ok ?w" using keeps_alloc [OF links none] by simp
  moreover have "ids_ok ?w"
  proof (rule ids_okI)
    fix b k s
    assume "map_option ids_of (groups ?w b) = Some (True, k, s)"
    then have "map_option ids_of (groups w b) = Some (True, k, s)" using new by (cases "b = ?a") auto
    then show "smap_find (GroupStore ?w) k = Some b \<and> GetGroupByDbStoreId s ?w = Some b"
      using ids_okD(3,4) [OF ids] by simp
  next
    fix k b
    assume "smap_find (GroupStore ?w) k = Some b"
    then show "k < NextGroupId ?w \<and> (\<exists>s. map_option ids_of (groups ?w b) = Some (True, k, s))"
      using ids_okD(5) [OF ids, of k b] ids_okD(6) [OF ids, of k b] none by auto
  next
    fix s b
    assume "GetGroupByDbStoreId s ?w = Some b"
    then show "\<exists>k. map_option ids_of (groups ?w b) = Some (True, k, s)" using ids_okD(7) [OF ids, of s b] none by auto
  qed (use ids_okD(1,2,8) [OF ids] in \<open>fastforce split: if_splits\<close>)+
  ultimately show ?thesis by (simp add: alloc_group_def)
qed

lemma new_Group_fields [simp]:
  "m_memberSlots new_Group = []" "m_memberMgr new_Group = []" "m_invitees new_Group = []"
  by (simp_all add: new_Group_def)

lemma start_group_keeps:
  assumes ok: "gw_ok w" and me: "players w me = Some pl" "gp_m_group pl = None"
    and q: "players w q = Some ql" "gp_m_group ql = None" "gp_invite ql = None" "q \<noteq> me"
  shows "\<exists>r w'. start_group me q w = Some (r, w') \<and> gw_ok w' \<and> players w' me \<noteq> None"
proof -
  note links = gw_okD(1) [OF ok] and ids = gw_okD(2) [OF ok]
  let ?a = "gw_fresh w"
  have none: "groups w ?a = None" by (rule fresh_free [OF ids])
  obtain w1 where w1: "alloc_group w = (?a, w1)" "links_ok w1" "ids_ok w1" "groups w1 = (groups w)(?a \<mapsto> new_Group)"
      "players w1 = players w"
    using alloc_ok [OF links ids] by blast
  have g1: "groups w1 ?a = Some new_Group" and pl1: "players w1 me = Some pl" using w1(4,5) me(1) by auto
  show ?thesis
  proof (cases "gp_invite pl")
    case (Some b)
    obtain fx where d: "delete_group ?a w1 = Some (add_fx fx (w1\<lparr>groups := (groups w1)(?a := None)\<rparr>))"
      using delete_unused(1) [OF w1(2) g1] by auto
    have "links_ok (w1\<lparr>groups := (groups w1)(?a := None)\<rparr>)" "ids_ok (w1\<lparr>groups := (groups w1)(?a := None)\<rparr>)"
      using delete_unused(2,3) [OF w1(2) g1] w1(3) by auto
    then have "gw_ok (w1\<lparr>groups := (groups w1)(?a := None)\<rparr>)"
      by (rule gw_ok_upd [OF ok]) (use w1(4) in \<open>auto split: if_splits\<close>)
    then show ?thesis using Some w1(1) AddInvite_runs [OF w1(2) g1 pl1] d pl1 by (auto simp: start_group_def AddLeaderInvite_def)
  next
    case None
    let ?w2 = "invited me ?a new_Group pl w1"
    have i2: "links_ok ?w2" "ids_ok ?w2" using invited_ok [OF w1(2) g1 pl1 None me(2)] w1(3) by auto
    let ?g2 = "new_Group\<lparr>m_invitees := [me]\<rparr>" and ?h = "new_Group\<lparr>m_invitees := [me], m_leaderGuid := me, m_leaderName := gp_name pl\<rparr>"
    have g2: "groups ?w2 ?a = Some ?g2" by (simp add: invited_def)
    let ?w3 = "?w2\<lparr>groups := (groups ?w2)(?a \<mapsto> ?h)\<rparr>"
    have same: "same_links ?g2 ?h" by (simp add: same_links_def)
    have h: "group_ok ?h"
      by (rule group_ok_same [OF links_okD(1) [OF i2(1) g2] same])
        (simp_all add: isRaidGroup_def new_Group_def TARGETICONCOUNT_def rolls_ok_def)
    note c3 = keeps_cosmetic [OF i2(1) g2 same h]
    have lead: "AddLeaderInvite me ?a w1 = Some (True, ?w3)"
      using AddInvite_runs [OF w1(2) g1 pl1] None me(2) g2 by (simp add: AddLeaderInvite_def on_group_Some invited_def)
    have g3: "groups ?w3 ?a = Some ?h" by simp
    have q3: "players ?w3 q = Some ql" using q(1,4) w1(5) by (simp add: invited_def)
    let ?w4 = "invited q ?a ?h ql ?w3"
    have i4: "links_ok ?w4" "ids_ok ?w4" using invited_ok [OF c3(1) g3 q3 q(3,2)] c3(2) [OF i2(2)] by auto
    have "AddInvite q ?a ?w3 = Some (True, ?w4)" using AddInvite_runs [OF c3(1) g3 q3] q(2,3) by simp
    then have run: "start_group me q w = Some (True, ?w4)" using w1(1) lead by (simp add: start_group_def)
    have "gw_ok ?w4"
    proof (rule gw_ok_upd [OF ok i4])
      fix b k
      assume "groups ?w4 b = Some k"
      moreover have "sizes_ok (?h\<lparr>m_invitees := [q, me]\<rparr>)" "founder_ok (?h\<lparr>m_invitees := [q, me]\<rparr>)"
        by (simp_all add: sizes_ok_def founder_ok_def isRaidGroup_def new_Group_def in_sub_def)
      ultimately show "groups w b = Some k \<or> sizes_ok k \<and> founder_ok k"
        by (auto simp: invited_def w1(4) split: if_splits)
    qed
    moreover have "players ?w4 me \<noteq> None" by (simp add: invited_def)
    ultimately show ?thesis using run by blast
  qed
qed

lemma send_invite_keeps:
  "gw_ok w \<Longrightarrow> players w me \<noteq> None \<Longrightarrow> \<exists>w'. send_invite me q n (r, w) = Some w' \<and> gw_ok w'"
  by (auto simp: send_invite_def SendPartyResult_def effect_fx)

lemma invite_player_keeps:
  assumes ok: "gw_ok w" and me: "players w me = Some pl" and q: "players w q = Some ql"
  shows "\<exists>w'. invite_player env me q n w = Some w' \<and> gw_ok w'"
proof -
  note links = gw_okD(1) [OF ok]
  have own: "own_group me w = Some (gp_m_group pl)" "own_group q w = Some (gp_m_group ql)"
    using own_group_runs [OF links] me q by auto
  have send: "\<exists>w'. Some (SendPartyResult me x y z w) = Some w' \<and> gw_ok w'" for x y z
    using ok by (simp add: SendPartyResult_def effect_fx)
  show ?thesis
  proof (cases "invite_refused env me q \<noteq> None \<or> gp_m_group ql \<noteq> None \<or> gp_invite ql \<noteq> None")
    case True
    then show ?thesis using send own q by (cases "invite_refused env me q") (auto simp: invite_player_def)
  next
    case False
    then have free: "invite_refused env me q = None" "gp_m_group ql = None" "gp_invite ql = None" by auto
    then have neq: "q \<noteq> me" by (auto simp: invite_refused_def split: if_splits)
    show ?thesis
    proof (cases "gp_m_group pl")
      case None
      obtain r w1 where w1: "start_group me q w = Some (r, w1)" "gw_ok w1" "players w1 me \<noteq> None"
        using start_group_keeps [OF ok me None q free(2,3) neq] by blast
      then show ?thesis using send_invite_keeps [OF w1(2,3), of q n r] own q free None by (simp add: invite_player_def)
    next
      case (Some a)
      then obtain g where g: "groups w a = Some g" "m_memberSlots g \<noteq> []" by (rule linked_group [OF links me])
      let ?w = "invited q a g ql w"
      have "links_ok ?w" "ids_ok ?w" using invited_ok [OF links g(1) q free(3,2)] gw_okD(2) [OF ok] by auto
      then have "gw_ok ?w"
      proof (rule gw_ok_upd [OF ok])
        fix b k
        assume "groups ?w b = Some k"
        then show "groups w b = Some k \<or> sizes_ok k \<and> founder_ok k"
          using gw_okD(3) [OF ok g(1)] g(2) by (auto simp: invited_def sizes_ok_def founder_ok_def split: if_splits)
      qed
      moreover have "players ?w me \<noteq> None" using me by (simp add: invited_def)
      ultimately show ?thesis
        using send send_invite_keeps [of ?w me q n True] AddInvite_runs [OF links g(1) q] own q free Some g(1)
        by (auto simp: invite_player_def)
    qed
  qed
qed

end
