(* ===== verification/GroupJoins.thy ===== *)
theory GroupJoins
  imports GroupRuns
begin

text \<open>Withdrawing an invitation, declining one, and joining.\<close>

section \<open>Withdrawing\<close>

lemma length_filter_one: "distinct xs \<Longrightarrow> p \<in> set xs \<Longrightarrow> length (filter (\<lambda>q. q \<noteq> p) xs) = length xs - 1"
proof (induction xs)
  case Nil
  then show ?case by simp
next
  case (Cons x xs)
  show ?case
  proof (cases "x = p")
    case True
    then have "filter (\<lambda>q. q \<noteq> p) xs = xs" using Cons.prems by (auto simp: filter_id_conv)
    then show ?thesis using True by simp
  next
    case False
    then have "p \<in> set xs" using Cons.prems by simp
    then show ?thesis using Cons False by (cases xs) auto
  qed
qed

lemma uninvite_created:
  assumes ok: "gw_ok w" and g: "groups w a = Some g" and created: "m_memberSlots g \<noteq> []" and S: "S \<subseteq> set (m_invitees g)"
  shows "gw_ok (uninvited S a g w)"
proof (rule gw_ok_upd [OF ok])
  show "links_ok (uninvited S a g w)" by (rule keeps_uninvited [OF gw_okD(1) [OF ok] g S])
  show "ids_ok (uninvited S a g w)" by (rule uninvited_ids [OF g gw_okD(2) [OF ok]])
  fix b h
  assume "groups (uninvited S a g w) b = Some h"
  then show "groups w b = Some h \<or> sizes_ok h \<and> founder_ok h"
    using gw_okD(3) [OF ok g] created by (auto simp: sizes_ok_def founder_ok_def split: if_splits)
qed

lemma unused_refs:
  assumes links: "links_ok w" and g: "groups w a = Some g" and new: "m_memberSlots g = []"
  shows "m_memberMgr g = []"
proof (rule ccontr)
  assume "m_memberMgr g \<noteq> []"
  then obtain r where r: "r \<in> set (m_memberMgr g)" by (cases "m_memberMgr g") auto
  then obtain p pl where p: "players w p = Some pl" "gp_m_group pl = Some a"
    using links_okD(2) [OF links g] by (auto simp: refs_ok_def bind_eq_Some_conv)
  then obtain h where "groups w a = Some h" "m_memberSlots h \<noteq> []" by (rule linked_group [OF links])
  then show False using g new by simp
qed

lemma abandon_keeps:
  assumes ok: "gw_ok w" and links: "links_ok w1" and ids: "ids_ok w1" and g: "groups w1 a = Some g" and new: "m_memberSlots g = []"
    and others: "\<And>b h. b \<noteq> a \<Longrightarrow> groups w1 b = Some h \<Longrightarrow> groups w b = Some h"
  shows "\<exists>w'. Option.bind (RemoveAllInvites a w1) (delete_group a) = Some w' \<and> gw_ok w' \<and> (\<forall>q. players w' q = None \<longleftrightarrow> players w1 q = None) \<and>
     groups w' a = None \<and> (\<forall>q. invite_of w' q = (if invite_of w1 q = Some a then None else invite_of w1 q))"
proof -
  let ?w = "uninvited (set (m_invitees g)) a g w1" and ?g = "g\<lparr>m_invitees := filter (\<lambda>q. q \<notin> set (m_invitees g)) (m_invitees g)\<rparr>"
  have l: "links_ok ?w" "ids_ok ?w" using keeps_uninvited [OF links g] uninvited_ids [OF g ids] by auto
  have g2: "groups ?w a = Some ?g" by simp
  have refs: "m_memberMgr g = []" by (rule unused_refs [OF links g new])
  have e: "m_memberSlots ?g = []" "m_invitees ?g = []" "m_memberMgr ?g = []" using new refs by auto
  obtain fx where d: "delete_group a ?w = Some (add_fx fx (?w\<lparr>groups := (groups ?w)(a := None)\<rparr>))"
    using delete_unused(1) [OF l(1) g2 e] by blast
  have "gw_ok (?w\<lparr>groups := (groups ?w)(a := None)\<rparr>)"
    by (rule gw_ok_upd [OF ok delete_unused(2) [OF l(1) g2 e] delete_unused(3) [OF l(1) g2 e l(2)]])
      (use others in \<open>auto split: if_splits\<close>)
  moreover have "invite_of ?w q = (if invite_of w1 q = Some a then None else invite_of w1 q)" for q
  proof (cases "invite_of w1 q = Some a")
    case True
    then obtain ql where ql: "players w1 q = Some ql" "gp_invite ql = Some a" by (auto simp: bind_eq_Some_conv)
    then have "q \<in> set (m_invitees g)" using links_okD(4) [OF links ql(1)] g by (auto simp: player_ok_def)
    then show ?thesis using ql by simp
  next
    case False
    then have "q \<notin> set (m_invitees g)" using links_okD(3) [OF links g] by (auto simp: invitees_ok_def)
    then show ?thesis using False by simp
  qed
  ultimately show ?thesis using RemoveAllInvites_runs [OF links g] d by auto
qed

lemma UninviteFromGroup_keeps:
  assumes ok: "gw_ok w" and pl: "players w p = Some pl"
  shows "\<exists>w'. UninviteFromGroup env p w = Some w' \<and> gw_ok w' \<and> (\<forall>q. players w' q = None \<longleftrightarrow> players w q = None) \<and>
     invite_of w' p = None \<and> (gp_invite pl = None \<longrightarrow> w' = w)"
proof (cases "gp_invite pl")
  case None
  then show ?thesis using ok pl by (auto simp: UninviteFromGroup_def)
next
  case (Some a)
  note links = gw_okD(1) [OF ok] and ids = gw_okD(2) [OF ok]
  obtain g where g: "groups w a = Some g" "p \<in> set (m_invitees g)" using links_okD(4) [OF links pl] Some by (auto simp: player_ok_def)
  have rm: "RemoveInvite p a w = Some (uninvited {p} a g w)" using RemoveInvite_runs [OF links g(1)] pl Some by simp
  let ?w = "uninvited {p} a g w" and ?g = "g\<lparr>m_invitees := filter (\<lambda>q. q \<notin> {p}) (m_invitees g)\<rparr>"
  have inv: "invite_of ?w p = None" using pl by simp
  show ?thesis
  proof (cases "m_memberSlots g = []")
    case False
    then have "GetMembersCount g > 1" using gw_okD(3) [OF ok g(1)] by (cases "m_memberSlots g") (auto simp: GetMembersCount_def sizes_ok_def)
    then have "UninviteFromGroup env p w = Some ?w"
      using pl Some rm False by (simp add: UninviteFromGroup_def IsCreated_def GetMembersCount_def)
    then show ?thesis using uninvite_created [OF ok g(1) False, of "{p}"] g(2) inv Some by auto
  next
    case True
    have "length (m_invitees g) = 2" using gw_okD(4) [OF ok g(1)] True g(2) by (auto simp: founder_ok_def)
    then have one: "length (m_invitees ?g) = 1"
      using length_filter_one [of "m_invitees g" p] links_okD(1) [OF links g(1)] g(2) by (simp add: group_ok_def)
    have l: "links_ok ?w" "ids_ok ?w" using keeps_uninvited [OF links g(1)] uninvited_ids [OF g(1) ids] g(2) by auto
    have ga: "groups ?w a = Some ?g" by simp
    obtain w' where w': "Option.bind (RemoveAllInvites a ?w) (delete_group a) = Some w'" "gw_ok w'"
        "\<forall>q. players w' q = None \<longleftrightarrow> players ?w q = None" "groups w' a = None"
        "\<forall>q. invite_of w' q = (if invite_of ?w q = Some a then None else invite_of ?w q)"
      using abandon_keeps [OF ok l ga] True by auto
    have "UninviteFromGroup env p w = Some w'"
      using pl Some rm True one w'(1) by (simp add: UninviteFromGroup_def IsCreated_def GetMembersCount_def)
    then show ?thesis using w' inv Some by auto
  qed
qed

text \<open>Declining, when the group is not created yet.\<close>

lemma decline_keeps:
  assumes ok: "gw_ok w" and pl: "players w me = Some pl"
    and guard: "\<And>a g. gp_invite pl = Some a \<Longrightarrow> groups w a = Some g \<Longrightarrow> IsCreated g \<Longrightarrow> \<not> gw_connected w (m_leaderGuid g)"
  shows "\<exists>w'. HandleGroupDeclineOpcode me w = Some w' \<and> gw_ok w'"
proof (cases "gp_invite pl")
  case None
  then show ?thesis using ok pl by (auto simp: HandleGroupDeclineOpcode_def)
next
  case (Some a)
  note links = gw_okD(1) [OF ok] and ids = gw_okD(2) [OF ok]
  obtain g where g: "groups w a = Some g" using links_okD(4) [OF links pl] Some by (auto simp: player_ok_def)
  show ?thesis
  proof (cases "gw_connected w (m_leaderGuid g)")
    case False
    then show ?thesis using ok pl Some g by (simp add: HandleGroupDeclineOpcode_def)
  next
    case True
    then have new: "m_memberSlots g = []" using guard [OF Some g] by (auto simp: IsCreated_def GetMembersCount_def)
    obtain w1 where w1: "Option.bind (RemoveAllInvites a w) (delete_group a) = Some w1" "gw_ok w1"
        "\<forall>q. players w1 q = None \<longleftrightarrow> players w q = None"
        "\<forall>q. invite_of w1 q = (if invite_of w q = Some a then None else invite_of w q)"
      using abandon_keeps [OF ok links ids g new] by auto
    then obtain pl1 where pl1: "players w1 me = Some pl1" using pl by fastforce
    have "invite_of w1 me = None" using w1(4) pl Some by simp
    then have "pl1\<lparr>gp_invite := None\<rparr> = pl1" using pl1 by simp
    then have "SetGroupInvite None me w1 = Some w1" using pl1 by (simp add: SetGroupInvite_def on_player_Some)
    moreover obtain w2 where "RemoveAllInvites a w = Some w2" "delete_group a w2 = Some w1"
      using w1(1) by (auto simp: bind_eq_Some_conv)
    ultimately show ?thesis using pl Some g True new w1(2)
      by (simp add: HandleGroupDeclineOpcode_def IsCreated_def GetMembersCount_def effect_fx)
  qed
qed

section \<open>Joining\<close>

lemma in_sub_append [simp]: "in_sub i (ms @ [m]) = in_sub i ms + (if unat (ms_group m) = i then 1 else 0)"
  by (simp add: in_sub_def)

lemma first_free_place:
  assumes counts: "counts_exact g" and free: "first_free_subgroup g = Some i"
  shows "case m_subGroupsCounts g of None \<Rightarrow> i = 0 \<and> \<not> isRaidGroup g
     | Some cs \<Rightarrow> isRaidGroup g \<and> unat i < length cs \<and> length cs = MAX_RAID_SUBGROUPS \<and> in_sub (unat i) (m_memberSlots g) < MAXGROUPSIZE"
    and "unat i < MAX_RAID_SUBGROUPS"
proof -
  have "(case m_subGroupsCounts g of None \<Rightarrow> i = 0 \<and> \<not> isRaidGroup g
     | Some cs \<Rightarrow> isRaidGroup g \<and> unat i < length cs \<and> length cs = MAX_RAID_SUBGROUPS \<and> in_sub (unat i) (m_memberSlots g) < MAXGROUPSIZE)
     \<and> unat i < MAX_RAID_SUBGROUPS"
  proof (cases "m_subGroupsCounts g")
    case None
    then show ?thesis using assms by (simp add: first_free_subgroup_def counts_exact_def MAX_RAID_SUBGROUPS_def)
  next
    case (Some cs)
    then obtain k where k: "find (\<lambda>i. unat (cs ! i) < MAXGROUPSIZE) [0..<MAX_RAID_SUBGROUPS] = Some k" "i = word_of_nat k"
      using free by (auto simp: first_free_subgroup_def)
    then have k8: "k < MAX_RAID_SUBGROUPS" "unat (cs ! k) < MAXGROUPSIZE" by (auto simp: find_Some_iff)
    then have "k < 8" by (simp add: MAX_RAID_SUBGROUPS_def)
    then have "unat i = k" using k(2) by (simp add: unat_of_nat)
    then show ?thesis using k8 Some counts by (simp add: counts_exact_def)
  qed
  then show "case m_subGroupsCounts g of None \<Rightarrow> i = 0 \<and> \<not> isRaidGroup g
     | Some cs \<Rightarrow> isRaidGroup g \<and> unat i < length cs \<and> length cs = MAX_RAID_SUBGROUPS \<and> in_sub (unat i) (m_memberSlots g) < MAXGROUPSIZE"
    and "unat i < MAX_RAID_SUBGROUPS" by auto
qed

lemma SubGroupCounterIncrease_isRaid: "SubGroupCounterIncrease i g = Some h \<Longrightarrow>
   h = g\<lparr>m_subGroupsCounts := m_subGroupsCounts h\<rparr>"
  by (auto simp: SubGroupCounterIncrease_def split: option.splits)

text \<open>The counters after a member has been entered.\<close>

lemma counted_up:
  assumes counts: "counts_exact g" and free: "first_free_subgroup g = Some i" and m: "ms_group m = i"
  shows "\<exists>cs. SubGroupCounterIncrease i (g\<lparr>m_memberSlots := m_memberSlots g @ [m]\<rparr>) =
       Some (g\<lparr>m_memberSlots := m_memberSlots g @ [m], m_subGroupsCounts := cs\<rparr>) \<and>
     counts_exact (g\<lparr>m_memberSlots := m_memberSlots g @ [m], m_subGroupsCounts := cs\<rparr>)"
proof (cases "m_subGroupsCounts g")
  case None
  then show ?thesis using first_free_place(1) [OF counts free] counts m
    by (auto simp: SubGroupCounterIncrease_def counts_exact_def intro!: exI [of _ None])
next
  case (Some cs)
  note place = first_free_place(1) [OF counts free, unfolded Some, simplified]
  let ?cs = "cs[unat i := cs ! unat i + 1]"
  have old: "unat (cs ! j) = in_sub j (m_memberSlots g)" if "j < MAX_RAID_SUBGROUPS" for j
    using counts Some that by (simp add: counts_exact_def)
  have "unat (cs ! unat i) < 5" using place old by (simp add: MAXGROUPSIZE_def)
  then have up: "unat (cs ! unat i + 1) = Suc (unat (cs ! unat i))" by (simp add: unat_word_ariths)
  have "unat (?cs ! j) = in_sub j (m_memberSlots g @ [m])" if "j < MAX_RAID_SUBGROUPS" for j
    using old [OF that] up m place that by (auto simp: nth_list_update)
  then have "counts_exact (g\<lparr>m_memberSlots := m_memberSlots g @ [m], m_subGroupsCounts := Some ?cs\<rparr>)"
    using counts Some place m by (auto simp: counts_exact_def)
  then show ?thesis using Some place
    by (auto simp: SubGroupCounterIncrease_def count_up_def intro!: exI [of _ "Some ?cs"])
qed

lemma SetGroupInvite_same:
  assumes "players w p = Some pl" and "gp_invite pl = None"
  shows "SetGroupInvite None p w = Some w"
proof -
  have "pl\<lparr>gp_invite := None\<rparr> = pl" using assms(2) by simp
  then show ?thesis using assms(1) by (simp add: SetGroupInvite_def on_player_Some)
qed

lemma link_member_runs:
  assumes g: "groups w a = Some g" and pl: "players w p = Some pl" "gp_m_group pl = None" and i: "unat i < 128"
  shows "link_member a i p w = Some (w\<lparr>groups := (groups w)(a \<mapsto> g\<lparr>m_memberMgr := GroupRef p # m_memberMgr g\<rparr>),
     players := (players w)(p \<mapsto> pl\<lparr>gp_m_group := Some a, gp_subGroup := i\<rparr>)\<rparr>)"
  using assms
  by (simp add: link_member_def Player_SetGroup_def link_group_def unlink_group_def drop_ref_def on_player_def LinkMember_def on_group_def)

definition entered :: "group \<Rightarrow> guid \<Rightarrow> gplayer \<Rightarrow> u8 \<Rightarrow> u8 list option \<Rightarrow> group" where
  "entered g p pl i cs =
     (let h = g\<lparr>m_memberSlots := m_memberSlots g @ [\<lparr>ms_guid = p, ms_name = gp_name pl, ms_group = i, ms_flags = 0, ms_roles = 0\<rparr>],
                m_subGroupsCounts := cs, m_memberMgr := GroupRef p # m_memberMgr g\<rparr>
      in if isRaidGroup g then h else h\<lparr>m_targetIcons := replicate TARGETICONCOUNT 0\<rparr>)"

lemma AddMember_runs:
  assumes links: "links_ok w" and g: "groups w a = Some g" and pl: "players w p = Some pl" "gp_m_group pl = None" "gp_invite pl = None"
    and free: "first_free_subgroup g = Some i"
  shows "\<exists>fx stmts' cs. AddMember env a p stmts w = Some (True, stmts', add_fx fx
       (w\<lparr>groups := (groups w)(a \<mapsto> entered g p pl i cs), players := (players w)(p \<mapsto> pl\<lparr>gp_m_group := Some a, gp_subGroup := i\<rparr>)\<rparr>)) \<and>
     counts_exact (entered g p pl i cs) \<and>
     (m_bgGroup g = None \<and> \<not> gp_bot pl \<longrightarrow> stmts' = stmts @ [InsertGroupMember (m_dbStoreId g) (GetCounter p) 0 i 0])"
proof -
  let ?m = "\<lparr>ms_guid = p, ms_name = gp_name pl, ms_group = i, ms_flags = 0, ms_roles = 0\<rparr>"
  have counts: "counts_exact g" and bg: "m_bgGroup g = None" using links_okD(1) [OF links g] by (simp_all add: group_ok_def)
  obtain cs where cs: "SubGroupCounterIncrease i (g\<lparr>m_memberSlots := m_memberSlots g @ [?m]\<rparr>) =
       Some (g\<lparr>m_memberSlots := m_memberSlots g @ [?m], m_subGroupsCounts := cs\<rparr>)"
      "counts_exact (g\<lparr>m_memberSlots := m_memberSlots g @ [?m], m_subGroupsCounts := cs\<rparr>)"
    using counted_up [OF counts free, of ?m] by auto
  let ?g1 = "g\<lparr>m_memberSlots := m_memberSlots g @ [?m], m_subGroupsCounts := cs\<rparr>"
  let ?w1 = "w\<lparr>groups := (groups w)(a \<mapsto> ?g1)\<rparr>"
  have 1: "change_group a (\<lambda>g. SubGroupCounterIncrease i (g\<lparr>m_memberSlots := m_memberSlots g @ [?m]\<rparr>)) w = Some ?w1"
    using g cs(1) by (simp add: change_group_def)
  have 2: "SetGroupInvite None p ?w1 = Some ?w1" by (rule SetGroupInvite_same [OF _ pl(3)]) (simp add: pl(1))
  have i: "unat i < 128" using first_free_place(2) [OF counts free] by (simp add: MAX_RAID_SUBGROUPS_def)
  let ?g2 = "?g1\<lparr>m_memberMgr := GroupRef p # m_memberMgr g\<rparr>" and ?pl = "pl\<lparr>gp_m_group := Some a, gp_subGroup := i\<rparr>"
  let ?w2 = "w\<lparr>groups := (groups w)(a \<mapsto> ?g2), players := (players w)(p \<mapsto> ?pl)\<rparr>"
  have 3: "link_member a i p ?w1 = Some ?w2" using link_member_runs [of ?w1 a ?g1 p pl i] pl i by simp
  let ?h = "entered g p pl i cs"
  have h: "?h = (if isRaidGroup ?g2 then ?g2 else ?g2\<lparr>m_targetIcons := replicate TARGETICONCOUNT 0\<rparr>)"
    by (simp add: entered_def Let_def)
  let ?w3 = "w\<lparr>groups := (groups w)(a \<mapsto> ?h), players := (players w)(p \<mapsto> ?pl)\<rparr>"
  have 5: "on_group a (\<lambda>g. if isRaidGroup g then g else g\<lparr>m_targetIcons := replicate TARGETICONCOUNT 0\<rparr>)
      (add_fx [SetInstanceValid p (ge_CheckInstanceValidity env p)] ?w2) = Some (add_fx [SetInstanceValid p (ge_CheckInstanceValidity env p)] ?w3)"
    by (simp add: on_group_def h)
  obtain fx where 4: "greet_member env a p (add_fx [SetInstanceValid p (ge_CheckInstanceValidity env p)] ?w3) = Some (add_fx fx ?w3)"
    using greet_member_fx [of "add_fx [SetInstanceValid p (ge_CheckInstanceValidity env p)] ?w3" a ?h p ?pl env] by auto
  have "counts_exact ?h" using cs(2) unfolding h by simp
  moreover have "isBGGroup g = False" using bg by (simp add: isBGGroup_def)
  ultimately show ?thesis
    using g pl(1) free 1 2 3 4 5 by (simp add: AddMember_def effect_fx) blast
qed

lemma entered_simps [simp]:
  "m_memberSlots (entered g p pl i cs) = m_memberSlots g @ [\<lparr>ms_guid = p, ms_name = gp_name pl, ms_group = i, ms_flags = 0, ms_roles = 0\<rparr>]"
  "m_memberMgr (entered g p pl i cs) = GroupRef p # m_memberMgr g" "m_invitees (entered g p pl i cs) = m_invitees g"
  "m_leaderGuid (entered g p pl i cs) = m_leaderGuid g" "m_guid (entered g p pl i cs) = m_guid g"
  "m_dbStoreId (entered g p pl i cs) = m_dbStoreId g" "m_bgGroup (entered g p pl i cs) = m_bgGroup g"
  "m_RollId (entered g p pl i cs) = m_RollId g" "isRaidGroup (entered g p pl i cs) = isRaidGroup g"
  by (simp_all add: entered_def Let_def)

lemma entered_group_ok:
  assumes ok: "group_ok g" and new: "p \<notin> members g" "GroupRef p \<notin> set (m_memberMgr g)" and counts: "counts_exact (entered g p pl i cs)"
    and lead: "m_memberSlots g = [] \<Longrightarrow> m_leaderGuid g = p"
  shows "group_ok (entered g p pl i cs)"
proof -
  have "length (m_targetIcons (entered g p pl i cs)) = TARGETICONCOUNT" using ok by (simp add: group_ok_def entered_def Let_def)
  moreover have "m_leaderGuid g \<in> insert p (members g)" using ok lead by (auto simp: group_ok_def)
  ultimately show ?thesis using ok new counts by (auto simp: group_ok_def members_def)
qed

lemma entered_sizes:
  assumes counts: "counts_exact g" and free: "first_free_subgroup g = Some i" and room: "\<not> IsFull g"
    and old: "m_memberSlots g \<noteq> []" "sizes_ok g \<or> length (m_memberSlots g) = 1"
  shows "sizes_ok (entered g p pl i cs)"
proof (cases "isRaidGroup g")
  case True
  then have "in_sub (unat i) (m_memberSlots g) < MAXGROUPSIZE" using first_free_place(1) [OF counts free] by (auto split: option.splits)
  moreover have "\<forall>j < MAX_RAID_SUBGROUPS. in_sub j (m_memberSlots g) \<le> MAXGROUPSIZE"
  proof (cases "sizes_ok g")
    case False
    then have "in_sub j (m_memberSlots g) \<le> 1" for j using old by (metis in_sub_def length_filter_le)
    moreover have "(1 :: nat) \<le> MAXGROUPSIZE" by (simp add: MAXGROUPSIZE_def)
    ultimately show ?thesis using le_trans by blast
  qed (use True in \<open>simp add: sizes_ok_def\<close>)
  ultimately show ?thesis using True old(1) by (auto simp: sizes_ok_def)
next
  case False
  then show ?thesis using room old(1) by (auto simp: sizes_ok_def IsFull_def)
qed

lemma joined_links:
  assumes links: "links_ok w" and g: "groups w a = Some g" and pl: "players w p = Some pl" "gp_m_group pl = None" "gp_invite pl = None"
    and counts: "counts_exact (entered g p pl i cs)" and lead: "m_memberSlots g = [] \<Longrightarrow> m_leaderGuid g = p"
  shows "links_ok (w\<lparr>groups := (groups w)(a \<mapsto> entered g p pl i cs), players := (players w)(p \<mapsto> pl\<lparr>gp_m_group := Some a, gp_subGroup := i\<rparr>)\<rparr>)"
proof (rule keeps_join [OF links g pl(1,3,2), where m = "\<lparr>ms_guid = p, ms_name = gp_name pl, ms_group = i, ms_flags = 0, ms_roles = 0\<rparr>"])
  have "p \<notin> members g" using links_okD(4) [OF links pl(1)] pl(2) g by (simp add: player_ok_def)
  moreover have "GroupRef p \<notin> set (m_memberMgr g)" using links_okD(2) [OF links g] pl by (auto simp: refs_ok_def)
  ultimately show "group_ok (entered g p pl i cs)" by (rule entered_group_ok [OF links_okD(1) [OF links g] _ _ counts lead])
qed (use pl links_okD(4,5) [OF links pl(1)] in \<open>simp_all add: player_ok_def\<close>)

text \<open>A group with place takes the player who accepts.\<close>

lemma first_free_exists:
  assumes links: "links_ok w" and g: "groups w a = Some g" and room: "\<not> IsFull g"
  shows "\<exists>i. first_free_subgroup g = Some i"
proof (cases "m_subGroupsCounts g")
  case None
  then show ?thesis by (simp add: first_free_subgroup_def)
next
  case (Some cs)
  have counts: "counts_exact g" using links_okD(1) [OF links g] by (simp add: group_ok_def)
  then have raid: "isRaidGroup g" and eq: "\<forall>i < 8. unat (cs ! i) = in_sub i (m_memberSlots g)"
    and low: "\<forall>m \<in> set (m_memberSlots g). unat (ms_group m) < 8" using Some by (simp_all add: counts_exact_def MAX_RAID_SUBGROUPS_def)
  have total: "(\<Sum>i < 8. in_sub i ms) = length ms" if "\<forall>m \<in> set ms. unat (ms_group m) < 8" for ms
    using that by (induction ms) (simp_all add: in_sub_def sum.distrib if_distrib [where f = length] lessThan_Suc numeral_eq_Suc)
  have "\<exists>i < 8. unat (cs ! i) < 5"
  proof (rule ccontr)
    assume "\<not> ?thesis"
    then have "\<forall>i < 8. 5 \<le> in_sub i (m_memberSlots g)" using eq by (metis linorder_not_less)
    then have "(\<Sum>i < (8 :: nat). 5) \<le> (\<Sum>i < 8. in_sub i (m_memberSlots g))" by (intro sum_mono) simp
    then show False using total [OF low] room raid by (simp add: IsFull_def MAXRAIDSIZE_def)
  qed
  then have "find (\<lambda>i. unat (cs ! i) < MAXGROUPSIZE) [0..<MAX_RAID_SUBGROUPS] \<noteq> None"
    by (auto simp: find_None_iff MAXGROUPSIZE_def MAX_RAID_SUBGROUPS_def)
  then show ?thesis using Some by (auto simp: first_free_subgroup_def)
qed

end
