(* ===== verification/GroupCreates.thy ===== *)
theory GroupCreates
  imports GroupJoins
begin

text \<open>The numbers of the group manager, and the first accepted invitation.\<close>

section \<open>Numbers\<close>

lemma group_counter: "GetCounter (mk_guid HighGuid_Group i) = i"
proof (cases "i = 0")
  case True
  then show ?thesis by (simp add: mk_guid_def GetCounter_def HasEntry_def GetHigh_def high_has_entry_def high_guid_defs)
next
  case False
  have "\<not> HasEntry (mk_guid HighGuid_Group i)"
    using mk_guid_parts(1) [OF False, of HighGuid_Group] by (simp add: HasEntry_def high_has_entry_def high_guid_defs)
  then show ?thesis using mk_guid_parts(2) [OF False, of HighGuid_Group] by (simp add: GetCounter_def)
qed

definition ids_left :: "group_world \<Rightarrow> bool" where
  "ids_left w = (NextGroupId w < 0xFFFFFFFE \<and> unat (NextGroupDbStoreId w) < 0xFFFFFFFE \<and> length (GroupDbStore w) < 0xFFFFFFFF)"

lemma find_store_id_free:
  assumes "length db < 0xFFFFFFFF" and "i < 0xFFFFFFFF"
  shows "\<exists>j. find_store_id db i = Some j \<and> i \<le> j \<and> j < 0xFFFFFFFF \<and> (j < length db \<longrightarrow> db ! j = None)"
  using assms
proof (induction db i rule: find_store_id.induct)
  case (1 db i)
  show ?case
  proof (cases "i < length db \<and> db ! i = None \<or> i \<ge> length db")
    case True
    then show ?thesis using 1(2,3) by (auto simp: find_store_id.simps)
  next
    case False
    then have "Suc i < 0xFFFFFFFF" using 1(2,3) by simp
    then show ?thesis using 1(1) [OF _ False 1(2)] 1(3) False by (auto simp: find_store_id.simps [of db i] Suc_le_eq intro: less_imp_le)
  qed
qed

lemma GenerateNewGroupDbStoreId_runs:
  assumes "unat (NextGroupDbStoreId w) < 0xFFFFFFFE" and "length (GroupDbStore w) < 0xFFFFFFFF"
  shows "\<exists>n. GenerateNewGroupDbStoreId w = (NextGroupDbStoreId w, w\<lparr>NextGroupDbStoreId := n\<rparr>) \<and> n \<noteq> NextGroupDbStoreId w \<and>
     GetGroupByDbStoreId n w = None"
proof -
  let ?i = "NextGroupDbStoreId w"
  have up: "unat (?i + 1) = Suc (unat ?i)" using assms(1) by (simp add: unat_word_ariths)
  then obtain j where j: "find_store_id (GroupDbStore w) (unat (?i + 1)) = Some j" "Suc (unat ?i) \<le> j" "j < 0xFFFFFFFF"
      "j < length (GroupDbStore w) \<longrightarrow> GroupDbStore w ! j = None"
    using find_store_id_free [OF assms(2), of "Suc (unat ?i)"] assms(1) by auto
  have u: "unat (word_of_nat j :: u32) = j" using j(3) by (simp add: unat_of_nat)
  then have "word_of_nat j \<noteq> ?i" using j(2) by auto
  moreover have "GetGroupByDbStoreId (word_of_nat j) w = None" using j(4) u by (simp add: GetGroupByDbStoreId_def)
  ultimately show ?thesis using j(1) by (auto simp: GenerateNewGroupDbStoreId_def Let_def)
qed

lemma RegisterGroupDbStoreId_get:
  "GetGroupByDbStoreId k (RegisterGroupDbStoreId i a w) = (if k = i then Some a else GetGroupByDbStoreId k w)"
  by (auto simp: RegisterGroupDbStoreId_def GetGroupByDbStoreId_def Let_def nth_list_update nth_append word_unat_eq_iff)

lemma RegisterGroupDbStoreId_same [simp]:
  "groups (RegisterGroupDbStoreId i a w) = groups w" "players (RegisterGroupDbStoreId i a w) = players w"
  "GroupStore (RegisterGroupDbStoreId i a w) = GroupStore w" "NextGroupId (RegisterGroupDbStoreId i a w) = NextGroupId w"
  "NextGroupDbStoreId (RegisterGroupDbStoreId i a w) = NextGroupDbStoreId w" "gw_fresh (RegisterGroupDbStoreId i a w) = gw_fresh w"
  by (simp_all add: RegisterGroupDbStoreId_def Let_def)

text \<open>The links do not depend on the manager.\<close>

lemma links_cong:
  assumes "groups w' = groups w" and "players w' = players w"
  shows "links_ok w' = links_ok w"
  using assms by (simp add: links_ok_def refs_ok_def [abs_def] invitees_ok_def [abs_def] player_ok_def [abs_def] cong: option.case_cong)

section \<open>Creation\<close>

lemma keeps_unused:
  assumes ok: "links_ok w" and g: "groups w a = Some g" and empty: "m_memberSlots g = []" "m_memberMgr g = []" "m_invitees g = []"
    and h: "m_memberSlots h = []" "m_memberMgr h = []" "m_invitees h = []" "group_ok h"
  shows "links_ok (w\<lparr>groups := (groups w)(a \<mapsto> h)\<rparr>)" (is "links_ok ?w")
proof (rule links_okI)
  fix b k
  assume "groups ?w b = Some k"
  then show "group_ok k \<and> refs_ok ?w b k \<and> invitees_ok ?w b k"
    using h links_okD(1-3) [OF ok, of b k] by (cases "b = a") (auto simp: refs_ok_def invitees_ok_def)
next
  fix q ql
  assume "players ?w q = Some ql"
  then show "player_ok ?w q ql \<and> gp_connected ql"
    using links_okD(4,5) [OF ok, of q ql] g empty h by (auto simp: player_ok_def members_def split: option.splits)
next
  fix b c k m q
  assume "groups ?w b = Some k" "groups ?w c = Some m" "q \<in> members k" "q \<in> members m"
  then show "b = c" using links_okD(6) [OF ok] h by (auto simp: members_def split: if_splits)
qed

text \<open>The group as \<open>Create\<close> sets it up for its leader.\<close>

definition founded :: "group_env \<Rightarrow> guid \<Rightarrow> gplayer \<Rightarrow> group_world \<Rightarrow> group \<Rightarrow> group" where
  "founded env l pl w g = g\<lparr>m_guid := mk_guid HighGuid_Group (NextGroupId w), m_leaderGuid := l, m_leaderName := gp_name pl,
      m_groupType := GROUPTYPE_NORMAL, m_lootMethod := GROUP_LOOT, m_lootThreshold := ITEM_QUALITY_UNCOMMON, m_looterGuid := l,
      m_masterLooterGuid := 0, m_raidDifficulty := 0, m_dungeonDifficulty := ge_Difficulty env l, m_dbStoreId := NextGroupDbStoreId w\<rparr>"

lemma founded_simps [simp]:
  "m_memberSlots (founded env l pl w g) = m_memberSlots g" "m_memberMgr (founded env l pl w g) = m_memberMgr g"
  "m_invitees (founded env l pl w g) = m_invitees g" "m_leaderGuid (founded env l pl w g) = l"
  "m_guid (founded env l pl w g) = mk_guid HighGuid_Group (NextGroupId w)" "m_dbStoreId (founded env l pl w g) = NextGroupDbStoreId w"
  "m_subGroupsCounts (founded env l pl w g) = m_subGroupsCounts g" "m_bgGroup (founded env l pl w g) = m_bgGroup g"
  "m_targetIcons (founded env l pl w g) = m_targetIcons g" "m_RollId (founded env l pl w g) = m_RollId g"
  "isRaidGroup (founded env l pl w g) = False"
  by (simp_all add: founded_def isRaidGroup_def GROUPTYPE_NORMAL_def)

lemma found_group_runs:
  assumes left: "ids_left w" and g: "groups w a = Some g" "m_bgGroup g = None" and pl: "players w l = Some pl"
  shows "\<exists>w' n. found_group env a l w = Some w' \<and> groups w' = (groups w)(a \<mapsto> founded env l pl w g) \<and>
     players w' = (players w)(l \<mapsto> pl\<lparr>gp_leader_flag := True\<rparr>) \<and> GroupStore w' = GroupStore w \<and> NextGroupId w' = NextGroupId w + 1 \<and>
     gw_fresh w' = gw_fresh w \<and> NextGroupDbStoreId w' = n \<and> n \<noteq> NextGroupDbStoreId w \<and> GetGroupByDbStoreId n w = None \<and>
     (\<forall>k. GetGroupByDbStoreId k w' = (if k = NextGroupDbStoreId w then Some a else GetGroupByDbStoreId k w))"
proof -
  let ?w1 = "w\<lparr>NextGroupId := NextGroupId w + 1\<rparr>"
  have 1: "GenerateGroupId w = (NextGroupId w, ?w1)"
  proof -
    have "\<not> NextGroupId w \<ge> 0xFFFFFFFE" using left by (simp add: ids_left_def not_le)
    then show ?thesis by (simp add: GenerateGroupId_def Let_def)
  qed
  let ?w2 = "?w1\<lparr>players := (players w)(l \<mapsto> pl\<lparr>gp_leader_flag := True\<rparr>)\<rparr>"
  have 2: "SetLeaderFlag True l ?w1 = Some ?w2" using pl by (simp add: SetLeaderFlag_def on_player_def)
  let ?g3 = "g\<lparr>m_guid := mk_guid HighGuid_Group (NextGroupId w), m_leaderGuid := l, m_leaderName := gp_name pl, m_groupType := GROUPTYPE_NORMAL,
      m_lootMethod := GROUP_LOOT, m_lootThreshold := ITEM_QUALITY_UNCOMMON, m_looterGuid := l, m_masterLooterGuid := 0,
      m_dungeonDifficulty := 0, m_raidDifficulty := 0\<rparr>"
  let ?w3 = "?w2\<lparr>groups := (groups w)(a \<mapsto> ?g3)\<rparr>"
  obtain n where n: "GenerateNewGroupDbStoreId ?w3 = (NextGroupDbStoreId w, ?w3\<lparr>NextGroupDbStoreId := n\<rparr>)" "n \<noteq> NextGroupDbStoreId w"
      "GetGroupByDbStoreId n w = None"
    using GenerateNewGroupDbStoreId_runs [of ?w3] left by (auto simp: ids_left_def)
  let ?w5 = "RegisterGroupDbStoreId (NextGroupDbStoreId w) a (?w3\<lparr>NextGroupDbStoreId := n, groups := (groups w)(a \<mapsto> founded env l pl w g)\<rparr>)"
  have "found_group env a l w = Some ?w5"
    using pl g 1 2 n(1)
    by (simp add: found_group_def change_group_def on_group_def isBGGroup_def GROUPTYPE_NORMAL_def GROUPTYPE_RAID_def founded_def Let_def)
  then show ?thesis using n(2,3)
    by (intro exI [of _ ?w5] exI [of _ n]) (simp add: RegisterGroupDbStoreId_get)
qed

lemma Group_Create_runs:
  assumes links: "links_ok w" and left: "ids_left w" and g: "groups w a = Some g"
    and new: "m_memberSlots g = []" "m_memberMgr g = []" "m_subGroupsCounts g = None" "m_invitees g = []"
    and pl: "players w l = Some pl" "gp_m_group pl = None" "gp_invite pl = None"
  shows "\<exists>stmts w' cs n pl'. Group_Create env a l [] w = Some (True, stmts, w') \<and> links_ok w' \<and>
     groups w' = (groups w)(a \<mapsto> entered (founded env l pl w g) l (pl\<lparr>gp_leader_flag := True\<rparr>) 0 cs) \<and> players w' = (players w)(l \<mapsto> pl') \<and>
     GroupStore w' = GroupStore w \<and> NextGroupId w' = NextGroupId w + 1 \<and> gw_fresh w' = gw_fresh w \<and> NextGroupDbStoreId w' = n \<and>
     n \<noteq> NextGroupDbStoreId w \<and> GetGroupByDbStoreId n w = None \<and>
     (\<forall>k. GetGroupByDbStoreId k w' = (if k = NextGroupDbStoreId w then Some a else GetGroupByDbStoreId k w))"
proof -
  have ok: "group_ok g" by (rule links_okD(1) [OF links g])
  then have bg: "m_bgGroup g = None" by (simp add: group_ok_def)
  let ?g = "founded env l pl w g" and ?pl = "pl\<lparr>gp_leader_flag := True\<rparr>"
  obtain w1 n where w1: "found_group env a l w = Some w1" "groups w1 = (groups w)(a \<mapsto> ?g)" "players w1 = (players w)(l \<mapsto> ?pl)"
     "GroupStore w1 = GroupStore w" "NextGroupId w1 = NextGroupId w + 1" "gw_fresh w1 = gw_fresh w" "NextGroupDbStoreId w1 = n"
     "n \<noteq> NextGroupDbStoreId w" "GetGroupByDbStoreId n w = None"
     "\<And>k. GetGroupByDbStoreId k w1 = (if k = NextGroupDbStoreId w then Some a else GetGroupByDbStoreId k w)"
    using found_group_runs [OF left g bg pl(1)] by blast
  have h: "group_ok ?g" using ok new by (simp add: group_ok_def counts_exact_def)
  have "links_ok (w\<lparr>players := (players w)(l \<mapsto> ?pl), groups := (groups w)(a \<mapsto> ?g)\<rparr>)"
    using keeps_unused [OF leave_flag [OF links pl(1), of True] _ new(1,2,4) _ _ _ h] g new by simp
  then have l1: "links_ok w1" by (rule iffD2 [OF links_cong, rotated -1]) (simp_all add: w1)
  let ?w2 = "add_fx [ConvertLeaderInstances l a False] w1"
  have l2: "links_ok ?w2" "groups ?w2 a = Some ?g" "players ?w2 l = Some ?pl" using l1 w1(2,3) by simp_all
  have free: "first_free_subgroup ?g = Some 0" using new(3) by (simp add: first_free_subgroup_def)
  have p2: "gp_m_group ?pl = None" "gp_invite ?pl = None" using pl(2,3) by simp_all
  let ?st = "if gp_bot pl then [] else [insert_group_stmt ?g]"
  obtain fx stmts cs where add: "AddMember env a l ?st ?w2 = Some (True, stmts, add_fx fx
       (?w2\<lparr>groups := (groups ?w2)(a \<mapsto> entered ?g l ?pl 0 cs), players := (players ?w2)(l \<mapsto> ?pl\<lparr>gp_m_group := Some a, gp_subGroup := 0\<rparr>)\<rparr>))"
      "counts_exact (entered ?g l ?pl 0 cs)"
    using AddMember_runs [OF l2 p2 free, of env ?st] by blast
  have l3: "links_ok (?w2\<lparr>groups := (groups ?w2)(a \<mapsto> entered ?g l ?pl 0 cs), players := (players ?w2)(l \<mapsto> ?pl\<lparr>gp_m_group := Some a, gp_subGroup := 0\<rparr>)\<rparr>)"
    by (rule joined_links [OF l2 p2 add(2)]) simp
  have "Group_Create env a l [] w = Some (True, stmts, add_fx fx
       (?w2\<lparr>groups := (groups ?w2)(a \<mapsto> entered ?g l ?pl 0 cs), players := (players ?w2)(l \<mapsto> ?pl\<lparr>gp_m_group := Some a, gp_subGroup := 0\<rparr>)\<rparr>))"
    using pl(1) w1(1,2) add(1) bg by (cases "gp_bot pl") (simp_all add: Group_Create_def isBGGroup_def effect_fx)
  then show ?thesis using l3 w1 by (intro exI conjI) (assumption | simp)+
qed

section \<open>Accepting\<close>

lemma bg_fx: "groups w a = Some g \<Longrightarrow> \<exists>fx. BroadcastGroupUpdate a (add_fx fx0 w) = Some (add_fx fx w)"
  using BroadcastGroupUpdate_fx [of "add_fx fx0 w" a g] by auto

lemma join_runs:
  assumes links: "links_ok w" and g: "groups w a = Some g" and created: "m_memberSlots g \<noteq> []"
    and pl: "players w p = Some pl" "gp_m_group pl = None" "gp_invite pl = None"
    and room: "\<not> IsFull g" and sizes: "sizes_ok g \<or> length (m_memberSlots g) = 1"
  shows "\<exists>fx h pl'. join_group env a p (stmts, w) = Some (add_fx fx (w\<lparr>groups := (groups w)(a \<mapsto> h), players := (players w)(p \<mapsto> pl')\<rparr>)) \<and>
     links_ok (w\<lparr>groups := (groups w)(a \<mapsto> h), players := (players w)(p \<mapsto> pl')\<rparr>) \<and> ids_of h = ids_of g \<and> sizes_ok h \<and> founder_ok h \<and>
     map ms_guid (m_memberSlots h) = map ms_guid (m_memberSlots g) @ [p] \<and> m_leaderGuid h = m_leaderGuid g \<and> isRaidGroup h = isRaidGroup g"
proof -
  obtain i where i: "first_free_subgroup g = Some i" using first_free_exists [OF links g room] by blast
  obtain fx stmts' cs where add: "AddMember env a p stmts w = Some (True, stmts', add_fx fx
       (w\<lparr>groups := (groups w)(a \<mapsto> entered g p pl i cs), players := (players w)(p \<mapsto> pl\<lparr>gp_m_group := Some a, gp_subGroup := i\<rparr>)\<rparr>))"
      "counts_exact (entered g p pl i cs)"
    using AddMember_runs [OF links g pl i, of env stmts] by blast
  let ?h = "entered g p pl i cs"
  let ?w = "w\<lparr>groups := (groups w)(a \<mapsto> ?h), players := (players w)(p \<mapsto> pl\<lparr>gp_m_group := Some a, gp_subGroup := i\<rparr>)\<rparr>"
  have "links_ok ?w" by (rule joined_links [OF links g pl add(2)]) (simp add: created)
  moreover have "counts_exact g" using links_okD(1) [OF links g] by (simp add: group_ok_def)
  then have "sizes_ok ?h" by (rule entered_sizes [OF _ i room created sizes])
  moreover have "founder_ok ?h" by (simp add: founder_ok_def)
  moreover have "ids_of ?h = ids_of g" using created by (simp add: ids_of_def)
  moreover obtain fx2 where "BroadcastGroupUpdate a (CommitTransaction stmts' (add_fx fx ?w)) = Some (add_fx fx2 ?w)"
    using bg_fx [of ?w a ?h] by (auto simp: effect_fx)
  then have "join_group env a p (stmts, w) = Some (add_fx fx2 ?w)" using add(1) by (simp add: join_group_def)
  moreover have "map ms_guid (m_memberSlots ?h) = map ms_guid (m_memberSlots g) @ [p]" "m_leaderGuid ?h = m_leaderGuid g" "isRaidGroup ?h = isRaidGroup g"
    by simp_all
  ultimately show ?thesis by blast
qed

lemma AddGroup_ids:
  assumes ids: "ids_ok w" and left: "ids_left w"
    and g: "groups w a = Some g" "m_memberSlots g = []"
    and h: "groups w' = (groups w)(a \<mapsto> h)" "m_memberSlots h \<noteq> []" "GetCounter (m_guid h) = NextGroupId w" "m_dbStoreId h = NextGroupDbStoreId w"
    and w': "GroupStore w' = GroupStore w" "NextGroupId w' = NextGroupId w + 1" "gw_fresh w' = gw_fresh w"
      "NextGroupDbStoreId w' = n" "n \<noteq> NextGroupDbStoreId w" "GetGroupByDbStoreId n w = None"
      "\<And>k. GetGroupByDbStoreId k w' = (if k = NextGroupDbStoreId w then Some a else GetGroupByDbStoreId k w)"
  shows "\<exists>w2. AddGroup a w' = Some w2 \<and> ids_ok w2 \<and> groups w2 = groups w' \<and> players w2 = players w'"
proof -
  let ?w = "w'\<lparr>GroupStore := smap_put (NextGroupId w) a (GroupStore w)\<rparr>"
  have run: "AddGroup a w' = Some ?w" using h w'(1) by (simp add: AddGroup_def)
  have fst: "fst (ids_of g) = False" using g(2) by (simp add: ids_of_def)
  have ids_h: "ids_of h = (True, NextGroupId w, NextGroupDbStoreId w)" using h by (simp add: ids_of_def)
  have mok: "map_ok (GroupStore w)" by (rule ids_okD(1) [OF ids])
  have up: "k < NextGroupId w + 1" if "k \<le> NextGroupId w" for k
    using that left by (auto simp: ids_left_def word_less_nat_alt word_le_nat_alt unat_word_ariths)
  have find: "smap_find (smap_put (NextGroupId w) a (GroupStore w)) k = (if k = NextGroupId w then Some a else smap_find (GroupStore w) k)" for k
    by simp
  have old: "b \<noteq> a" if "map_option ids_of (groups w b) = Some (True, k, s)" for b k s
    using that g(1) fst by auto
  have "ids_ok ?w"
  proof (rule ids_okI)
    show "map_ok (GroupStore ?w)" using mok by simp
    fix b x
    assume "map_option ids_of (groups ?w b) = Some x"
    then show "b < gw_fresh ?w" using ids_okD(2) [OF ids, of b] g(1) h(1) w'(3) by (cases "b = a") auto
  next
    fix b k s
    assume b: "map_option ids_of (groups ?w b) = Some (True, k, s)"
    show "smap_find (GroupStore ?w) k = Some b \<and> GetGroupByDbStoreId s ?w = Some b"
    proof (cases "b = a")
      case True
      then show ?thesis using b h(1) ids_h find w'(7) by simp
    next
      case False
      then have b': "map_option ids_of (groups w b) = Some (True, k, s)" using b h(1) by simp
      note f = ids_okD(3,4) [OF ids b']
      then have "k \<noteq> NextGroupId w" "s \<noteq> NextGroupDbStoreId w" using ids_okD(5) [OF ids, of k b] ids_okD(8) [OF ids] by auto
      then show ?thesis using f find w'(7) by simp
    qed
  next
    fix k b
    assume "smap_find (GroupStore ?w) k = Some b"
    then show "k < NextGroupId ?w \<and> (\<exists>s. map_option ids_of (groups ?w b) = Some (True, k, s))"
      using find ids_okD(5,6) [OF ids, of k b] old [of b k] h(1) ids_h w'(2) up by (auto split: if_splits)
  next
    fix s b
    assume "GetGroupByDbStoreId s ?w = Some b"
    then show "\<exists>k. map_option ids_of (groups ?w b) = Some (True, k, s)"
      using w'(7) ids_okD(7) [OF ids, of s b] old [of b _ s] h(1) ids_h by (auto split: if_splits)
  next
    show "GetGroupByDbStoreId (NextGroupDbStoreId ?w) ?w = None" using w'(4-7) by simp
  qed
  then show ?thesis using run by auto
qed

end
