(* ===== verification/GroupAccepts.thy ===== *)
theory GroupAccepts
  imports GroupCreates
begin

text \<open>Accepting an invitation.\<close>

lemma uninvited_manager [simp]:
  "GroupStore (uninvited S a g w) = GroupStore w" "GroupDbStore (uninvited S a g w) = GroupDbStore w"
  "NextGroupId (uninvited S a g w) = NextGroupId w" "NextGroupDbStoreId (uninvited S a g w) = NextGroupDbStoreId w"
  "ids_left (uninvited S a g w) = ids_left w" "gw_fresh (uninvited S a g w) = gw_fresh w"
  by (simp_all add: uninvited_def ids_left_def)

lemma invited_player:
  assumes links: "links_ok w" and inv: "invite_of w p = Some a"
  obtains pl g where "players w p = Some pl" "gp_invite pl = Some a" "gp_m_group pl = None" "groups w a = Some g" "p \<in> set (m_invitees g)"
proof -
  obtain pl where pl: "players w p = Some pl" "gp_invite pl = Some a" using inv by (auto simp: bind_eq_Some_conv)
  moreover have "gp_m_group pl = None" using pl links_okD(4) [OF links pl(1)] by (cases "gp_m_group pl") (auto simp: player_ok_def)
  moreover obtain g where "groups w a = Some g" "p \<in> set (m_invitees g)" using pl links_okD(4) [OF links pl(1)] by (auto simp: player_ok_def)
  ultimately show ?thesis using that by blast
qed

text \<open>The founder and the first guest make the group.\<close>

lemma create_invited_runs:
  assumes links: "links_ok w" and ids: "ids_ok w" and left: "ids_left w" and g: "groups w a = Some g" "m_memberSlots g = []" "m_memberMgr g = []"
    "m_subGroupsCounts g = None" "m_invitees g = [l]"
  shows "\<exists>stmts w' h pl'. create_invited env a l w = Some (stmts, w') \<and> links_ok w' \<and> ids_ok w' \<and> groups w' = (groups w)(a \<mapsto> h) \<and>
     map ms_guid (m_memberSlots h) = [l] \<and> m_leaderGuid h = l \<and> \<not> isRaidGroup h \<and> players w' = (players w)(l \<mapsto> pl')"
proof -
  have "invite_of w l = Some a" using links_okD(3) [OF links g(1)] g(5) by (simp add: invitees_ok_def)
  then obtain lp where lp: "players w l = Some lp" "gp_invite lp = Some a" "gp_m_group lp = None" by (rule invited_player [OF links])
  let ?w = "uninvited {l} a g w" and ?g = "g\<lparr>m_invitees := []\<rparr>" and ?lp = "lp\<lparr>gp_invite := None\<rparr>"
  have rm: "RemoveInvite l a w = Some ?w" by (rule RemoveInvite_runs [OF links g(1)]) (simp add: lp)
  have l2: "links_ok ?w" "ids_ok ?w" using keeps_uninvited [OF links g(1)] uninvited_ids [OF g(1) ids] g(5) by auto
  have left2: "ids_left ?w" using left by simp
  have ga: "groups ?w a = Some ?g" "groups ?w = (groups w)(a \<mapsto> ?g)" using g(5) by (auto simp: uninvited_def)
  have pa: "players ?w l = Some ?lp" "players ?w = (players w)(l \<mapsto> ?lp)" using lp(1) by (auto simp: uninvited_def)
  have new: "m_memberSlots ?g = []" "m_memberMgr ?g = []" "m_subGroupsCounts ?g = None" "m_invitees ?g = []" using g by simp_all
  have p2: "gp_m_group ?lp = None" "gp_invite ?lp = None" using lp by simp_all
  obtain stmts w3 cs n pl' where c: "Group_Create env a l [] ?w = Some (True, stmts, w3)" "links_ok w3"
      "groups w3 = (groups ?w)(a \<mapsto> entered (founded env l ?lp ?w ?g) l (?lp\<lparr>gp_leader_flag := True\<rparr>) 0 cs)" "players w3 = (players ?w)(l \<mapsto> pl')"
      "GroupStore w3 = GroupStore ?w" "NextGroupId w3 = NextGroupId ?w + 1" "gw_fresh w3 = gw_fresh ?w" "NextGroupDbStoreId w3 = n"
      "n \<noteq> NextGroupDbStoreId ?w" "GetGroupByDbStoreId n ?w = None"
      "\<And>k. GetGroupByDbStoreId k w3 = (if k = NextGroupDbStoreId ?w then Some a else GetGroupByDbStoreId k ?w)"
    using Group_Create_runs [OF l2(1) left2 ga(1) new pa(1) p2, of env] by blast
  let ?h = "entered (founded env l ?lp ?w ?g) l (?lp\<lparr>gp_leader_flag := True\<rparr>) 0 cs"
  have h: "m_memberSlots ?h \<noteq> []" "GetCounter (m_guid ?h) = NextGroupId ?w" "m_dbStoreId ?h = NextGroupDbStoreId ?w"
    by (simp_all add: group_counter)
  obtain w4 where w4: "AddGroup a w3 = Some w4" "ids_ok w4" "groups w4 = groups w3" "players w4 = players w3"
    using AddGroup_ids [OF l2(2) left2 ga(1) new(1) c(3) h c(5-11)] by blast
  have "links_ok w4" using links_cong [OF w4(3,4)] c(2) by simp
  moreover have "create_invited env a l w = Some (stmts, w4)" using rm c(1) w4(1) by (simp add: create_invited_def)
  moreover have "groups w4 = (groups w)(a \<mapsto> ?h)" using w4(3) c(3) ga(2) by simp
  moreover have "players w4 = (players w)(l \<mapsto> pl')" using w4(4) c(4) pa(2) by simp
  moreover have "map ms_guid (m_memberSlots ?h) = [l]" "m_leaderGuid ?h = l" "\<not> isRaidGroup ?h" using g(2) by simp_all
  ultimately show ?thesis using w4(2)
    by (intro exI [of _ stmts] exI [of _ w4] exI [of _ ?h] exI [of _ pl'] conjI)
qed

definition filed :: "nat \<Rightarrow> guid list \<Rightarrow> guid \<Rightarrow> group_world \<Rightarrow> bool" where
  "filed a ps l w = (\<exists>g. groups w a = Some g \<and> map ms_guid (m_memberSlots g) = ps \<and> m_leaderGuid g = l)"

lemma joined_ok:
  assumes ok: "gw_ok w" and w1: "links_ok w1" "ids_ok w1" "\<And>b. b \<noteq> a \<Longrightarrow> groups w1 b = groups w b"
    and g: "groups w1 a = Some g" "m_memberSlots g \<noteq> []" and pl: "players w1 p = Some pl" "gp_m_group pl = None" "gp_invite pl = None"
    and room: "\<not> IsFull g" and sizes: "sizes_ok g \<or> length (m_memberSlots g) = 1"
  shows "\<exists>w'. join_group env a p (stmts, w1) = Some w' \<and> gw_ok w' \<and> filed a (map ms_guid (m_memberSlots g) @ [p]) (m_leaderGuid g) w'"
proof -
  obtain fx h pl' where j: "join_group env a p (stmts, w1) = Some (add_fx fx (w1\<lparr>groups := (groups w1)(a \<mapsto> h), players := (players w1)(p \<mapsto> pl')\<rparr>))"
      "links_ok (w1\<lparr>groups := (groups w1)(a \<mapsto> h), players := (players w1)(p \<mapsto> pl')\<rparr>)" "ids_of h = ids_of g" "sizes_ok h" "founder_ok h"
      "map ms_guid (m_memberSlots h) = map ms_guid (m_memberSlots g) @ [p]" "m_leaderGuid h = m_leaderGuid g"
    using join_runs [OF w1(1) g pl room sizes, of env stmts] by blast
  have "gw_ok (w1\<lparr>groups := (groups w1)(a \<mapsto> h), players := (players w1)(p \<mapsto> pl')\<rparr>)"
  proof (rule gw_ok_upd [OF ok j(2)])
    show "ids_ok (w1\<lparr>groups := (groups w1)(a \<mapsto> h), players := (players w1)(p \<mapsto> pl')\<rparr>)"
      using ids_upd [OF w1(2) g(1) j(3)] by simp
  qed (use w1(3) j(4,5) in \<open>auto split: if_splits\<close>)
  then show ?thesis using j(1,6,7) by (simp add: filed_def)
qed

text \<open>An invitation of a group that exists: who accepts it joins at the end, if there is room.\<close>

lemma accept_created:
  assumes ok: "gw_ok w" and pl: "players w me = Some pl" "gp_invite pl = Some a" and g: "groups w a = Some g" "m_memberSlots g \<noteq> []" "\<not> IsLeader me g"
  shows "\<exists>w'. HandleGroupAcceptOpcode env me w = Some w' \<and> gw_ok w' \<and>
     filed a (map ms_guid (m_memberSlots g) @ (if IsFull g then [] else [me])) (m_leaderGuid g) w'"
proof -
  note links = gw_okD(1) [OF ok] and ids = gw_okD(2) [OF ok]
  have inv: "invite_of w me = Some a" using pl by simp
  obtain ql h where "players w me = Some ql" "gp_m_group ql = None" "groups w a = Some h" "me \<in> set (m_invitees h)"
    by (rule invited_player [OF links inv])
  then have none: "gp_m_group pl = None" and me: "me \<in> set (m_invitees g)" using pl g by simp_all
  let ?w = "uninvited {me} a g w" and ?g = "g\<lparr>m_invitees := filter (\<lambda>q. q \<noteq> me) (m_invitees g)\<rparr>" and ?pl = "pl\<lparr>gp_invite := None\<rparr>"
  have rm: "RemoveInvite me a w = Some ?w" by (rule RemoveInvite_runs [OF links g(1) inv])
  have l: "links_ok ?w" "ids_ok ?w" using keeps_uninvited [OF links g(1)] uninvited_ids [OF g(1) ids] me by auto
  have ga: "groups ?w a = Some ?g" and pa: "players ?w me = Some ?pl" using pl by simp_all
  have keep: "gw_ok ?w" using uninvite_created [OF ok g(1,2), of "{me}"] me by simp
  have sz: "sizes_ok ?g" using gw_okD(3) [OF keep ga] by simp
  have full: "IsFull ?g = IsFull g" by (simp add: IsFull_def)
  show ?thesis
  proof (cases "IsFull g")
    case True
    then show ?thesis using keep rm pl g full ga
      by (simp add: HandleGroupAcceptOpcode_def SendPartyResult_def effect_fx filed_def)
  next
    case False
    have "\<exists>w'. join_group env a me ([], ?w) = Some w' \<and> gw_ok w' \<and> filed a (map ms_guid (m_memberSlots ?g) @ [me]) (m_leaderGuid ?g) w'"
      by (rule joined_ok [OF keep l refl ga _ pa]) (use g(2) False full none sz in simp_all)
    then show ?thesis using rm pl g full False
      by (simp add: HandleGroupAcceptOpcode_def IsCreated_def GetMembersCount_def)
  qed
qed

text \<open>An invitation of a group that does not exist yet: with the founder online the two make it.\<close>

lemma accept_new:
  assumes ok: "gw_ok w" and left: "ids_left w" and pl: "players w me = Some pl" "gp_invite pl = Some a"
    and g: "groups w a = Some g" "m_memberSlots g = []" "\<not> IsLeader me g"
  shows "\<exists>w'. HandleGroupAcceptOpcode env me w = Some w' \<and> gw_ok w' \<and>
     (gw_FindPlayer w (m_leaderGuid g) \<longrightarrow> filed a [m_leaderGuid g, me] (m_leaderGuid g) w') \<and>
     (\<not> gw_FindPlayer w (m_leaderGuid g) \<longrightarrow> groups w' = (groups w)(a \<mapsto> g\<lparr>m_invitees := []\<rparr>) \<and>
        GroupStore w' = GroupStore w \<and> GroupDbStore w' = GroupDbStore w \<and> group_of w' me = None \<and>
        (\<forall>p. group_of w' p = group_of w p \<and> invite_of w' p = (if p \<in> set (m_invitees g) then None else invite_of w p)))"
proof -
  note links = gw_okD(1) [OF ok] and ids = gw_okD(2) [OF ok]
  have inv: "invite_of w me = Some a" using pl by simp
  obtain ql h where "players w me = Some ql" "gp_m_group ql = None" "groups w a = Some h" "me \<in> set (m_invitees h)"
    by (rule invited_player [OF links inv])
  then have none: "gp_m_group pl = None" and me: "me \<in> set (m_invitees g)" using pl g by simp_all
  let ?w = "uninvited {me} a g w" and ?g = "g\<lparr>m_invitees := filter (\<lambda>q. q \<noteq> me) (m_invitees g)\<rparr>" and ?pl = "pl\<lparr>gp_invite := None\<rparr>"
  have rm: "RemoveInvite me a w = Some ?w" by (rule RemoveInvite_runs [OF links g(1) inv])
  have l: "links_ok ?w" "ids_ok ?w" using keeps_uninvited [OF links g(1)] uninvited_ids [OF g(1) ids] me by auto
  have ga: "groups ?w a = Some ?g" and pa: "players ?w me = Some ?pl" using pl by simp_all
  have f: "m_subGroupsCounts g = None" "length (m_invitees g) = 2" "m_leaderGuid g \<in> set (m_invitees g)" "m_leaderGuid g \<noteq> me"
    using gw_okD(4) [OF ok g(1)] me g(2,3) by (auto simp: founder_ok_def IsLeader_def)
  have "distinct (m_invitees g)" using links_okD(1) [OF links g(1)] by (simp add: group_ok_def)
  then have one: "filter (\<lambda>q. q \<noteq> me) (m_invitees g) = [m_leaderGuid g]"
    using f me by (cases "m_invitees g"; cases "tl (m_invitees g)") auto
  have refs: "m_memberMgr g = []" by (rule unused_refs [OF links g(1,2)])
  have small: "\<not> IsFull ?g" using g(2) by (simp add: IsFull_def MAXGROUPSIZE_def MAXRAIDSIZE_def)
  have find: "gw_FindPlayer ?w (m_leaderGuid g) = gw_FindPlayer w (m_leaderGuid g)" using f(4) by (simp add: gw_FindPlayer_def)
  show ?thesis
  proof (cases "gw_FindPlayer w (m_leaderGuid g)")
    case False
    let ?w2 = "uninvited (set (m_invitees ?g)) a ?g ?w"
    have "gw_ok ?w2"
    proof (rule gw_ok_upd [OF ok keeps_uninvited [OF l(1) ga] uninvited_ids [OF ga l(2)]])
      fix b h
      assume "groups ?w2 b = Some h"
      then show "groups w b = Some h \<or> sizes_ok h \<and> founder_ok h"
        using gw_okD(3) [OF ok g(1)] f(1) by (auto simp: sizes_ok_def founder_ok_def one split: if_splits)
    qed simp
    moreover have "set (m_invitees g) = insert me (set (filter (\<lambda>q. q \<noteq> me) (m_invitees g)))" using me by auto
    then have inv: "set (m_invitees g) = {m_leaderGuid g, me}" unfolding one by auto
    have "groups ?w2 = (groups w)(a \<mapsto> g\<lparr>m_invitees := []\<rparr>)" "GroupStore ?w2 = GroupStore w" "GroupDbStore ?w2 = GroupDbStore w"
      "group_of ?w2 p = group_of w p" "invite_of ?w2 p = (if p \<in> set (m_invitees g) then None else invite_of w p)" for p
      unfolding inv by (auto simp: uninvited_def one map_option_case split: option.splits)
    ultimately show ?thesis using rm pl g small False find none RemoveAllInvites_runs [OF l(1) ga]
      by (simp add: HandleGroupAcceptOpcode_def IsCreated_def GetMembersCount_def)
  next
    case True
    obtain stmts w3 h pl' where c: "create_invited env a (m_leaderGuid g) ?w = Some (stmts, w3)" "links_ok w3" "ids_ok w3"
        "groups w3 = (groups ?w)(a \<mapsto> h)" "map ms_guid (m_memberSlots h) = [m_leaderGuid g]" "m_leaderGuid h = m_leaderGuid g" "\<not> isRaidGroup h"
        "players w3 = (players ?w)(m_leaderGuid g \<mapsto> pl')"
      using create_invited_runs [OF l, of a ?g "m_leaderGuid g" env] left ga g(2) refs f(1) one by auto
    have len: "length (m_memberSlots h) = 1" using arg_cong [OF c(5), of length] by simp
    have "\<exists>w'. join_group env a me (stmts, w3) = Some w' \<and> gw_ok w' \<and> filed a (map ms_guid (m_memberSlots h) @ [me]) (m_leaderGuid h) w'"
    proof (rule joined_ok [OF ok c(2,3)])
      show "groups w3 a = Some h" "players w3 me = Some ?pl" using c(4,8) pa f(4) by simp_all
      show "m_memberSlots h \<noteq> []" "sizes_ok h \<or> length (m_memberSlots h) = 1" using len by auto
      show "\<not> IsFull h" using len c(7) by (simp add: IsFull_def MAXGROUPSIZE_def)
    qed (use c(4) none in simp_all)
    then show ?thesis using rm pl g small True find c(1,5,6)
      by (simp add: HandleGroupAcceptOpcode_def IsCreated_def GetMembersCount_def)
  qed
qed

lemma accept_keeps:
  assumes ok: "gw_ok w" and left: "ids_left w" and pl: "players w me = Some pl"
  shows "\<exists>w'. HandleGroupAcceptOpcode env me w = Some w' \<and> gw_ok w'"
proof (cases "gp_invite pl")
  case None
  then show ?thesis using ok pl by (auto simp: HandleGroupAcceptOpcode_def)
next
  case (Some a)
  obtain g where g: "groups w a = Some g" using links_okD(4) [OF gw_okD(1) [OF ok] pl] Some by (auto simp: player_ok_def)
  show ?thesis
  proof (cases "IsLeader me g")
    case True
    then show ?thesis using ok pl Some g by (simp add: HandleGroupAcceptOpcode_def)
  next
    case False
    then show ?thesis using accept_created [OF ok pl Some g _ False, of env] accept_new [OF ok left pl Some g _ False, of env] by blast
  qed
qed

end
