(* ===== verification/GroupDisbands.thy ===== *)
theory GroupDisbands
  imports GroupAccepts
begin

text \<open>Leaving a group: the references of its members, disbanding it, and the manager afterwards.\<close>

section \<open>The reference of a player\<close>

lemma effect_simps [simp]: "groups (gw_effect e w) = groups w" "players (gw_effect e w) = players w"
  by (simp_all add: gw_effect_def)

text \<open>What the operations need to know of a player who may leave group \<open>a\<close>.\<close>

definition leaver :: "nat \<Rightarrow> gplayer \<Rightarrow> bool" where
  "leaver a pl = (gp_connected pl \<and> gp_m_group pl = Some a \<and> gp_m_originalGroup pl = None)"

definition party_refs :: "group_world \<Rightarrow> group \<Rightarrow> bool" where
  "party_refs w g = (m_bgGroup g = None \<and> (\<forall>r \<in> set (m_memberMgr g). r = GroupRef (GetSource r) \<and> players w (GetSource r) \<noteq> None))"

abbreviation without_refs :: "guid set \<Rightarrow> group \<Rightarrow> group" where
  "without_refs S g \<equiv> g\<lparr>m_memberMgr := filter (\<lambda>r. GetSource r \<notin> S) (m_memberMgr g)\<rparr>"

lemma links_leaver:
  assumes "links_ok w" and "groups w a = Some g" and "q \<in> members g" and "players w q = Some ql"
  shows "leaver a ql"
  using member_linked [OF assms] links_okD(4,5) [OF assms(1,4)] by (simp add: leaver_def player_ok_def)

lemma links_refs: "links_ok w \<Longrightarrow> groups w a = Some g \<Longrightarrow> party_refs w g"
  using links_okD(1,2) [of w a g] by (fastforce simp: party_refs_def group_ok_def refs_ok_def bind_eq_Some_conv)

lemma links_source: "links_ok w \<Longrightarrow> groups w a = Some g \<Longrightarrow> r \<in> set (m_memberMgr g) \<Longrightarrow> GetSource r \<in> members g"
proof -
  assume links: "links_ok w" and g: "groups w a = Some g" and r: "r \<in> set (m_memberMgr g)"
  then obtain p pl where p: "r = GroupRef p" "players w p = Some pl" "gp_m_group pl = Some a"
    using links_okD(2) [OF links g] by (fastforce simp: refs_ok_def bind_eq_Some_conv)
  then obtain h where "groups w a = Some h" "p \<in> members h" using linked_group [OF links p(2,3)] by metis
  then show ?thesis using g p(1) by simp
qed

lemma other_refs:
  "party_refs w g \<Longrightarrow> filter (\<lambda>x. x \<noteq> GroupRef p) (m_memberMgr g) = filter (\<lambda>r. GetSource r \<notin> {p}) (m_memberMgr g)"
  by (rule filter_cong) (auto simp: party_refs_def; metis GetSource.simps(1))+

lemma leave_ref_runs:
  assumes g: "groups w a = Some g" and refs: "party_refs w g" and pl: "players w p = Some pl" "leaver a pl"
  shows "leave_ref a p w = Some (w\<lparr>groups := (groups w)(a \<mapsto> without_refs {p} g), players := (players w)(p \<mapsto> pl\<lparr>gp_m_group := None\<rparr>)\<rparr>)"
  using assms other_refs [OF refs, of p]
  by (simp add: leave_ref_def Player_SetGroup_def unlink_group_def drop_ref_def leaver_def party_refs_def on_player_def isBGGroup_def)

section \<open>Disbanding\<close>

lemma parting_fx:
  "\<exists>fx. homebindIfInstance env g p (gw_send p d (if hide then (if r then gw_effect e (add_fx f w) else add_fx f w)
      else gw_send p d' (if r then gw_effect e (add_fx f w) else add_fx f w))) = add_fx fx w"
  by (cases r; cases hide; cases "\<not> ge_IsGameMaster env p \<and> ge_InDungeon env p \<and> m_leaderGuid g \<noteq> p \<and> \<not> ge_PermBound env p")
    (auto simp: homebindIfInstance_def effect_fx)

abbreviation gone :: "gplayer \<Rightarrow> gplayer" where
  "gone pl \<equiv> pl\<lparr>gp_m_group := None, gp_leader_flag := False\<rparr>"

lemma disband_member_step:
  assumes "gw_connected w (ms_guid m)" and "groups w a = Some g" and "leave_ref a (ms_guid m) (remove_buffs (ms_guid m) (m_memberMgr g) w) = Some (add_fx f v)"
    and "groups v a = Some h" and "players v (ms_guid m) = Some pl" and "gp_m_group pl = None"
  shows "\<exists>fx. disband_member env hide a m w = SetLeaderFlag False (ms_guid m) (add_fx fx v)"
proof -
  let ?p = "ms_guid m"
  obtain fx where "homebindIfInstance env h ?p (gw_send ?p (gone_packet h)
     (if hide then (if isRaidGroup h then gw_effect (UpdateForQuestWorldObjects ?p) (add_fx f v) else add_fx f v)
      else gw_send ?p (wp_new SMSG_GROUP_DESTROYED) (if isRaidGroup h then gw_effect (UpdateForQuestWorldObjects ?p) (add_fx f v) else add_fx f v))) = add_fx fx v"
    using parting_fx by blast
  then have "disband_member env hide a m w = SetLeaderFlag False ?p (add_fx fx v)"
    using assms by (cases "isRaidGroup h"; cases hide) (simp_all add: disband_member_def Let_def)
  then show ?thesis by blast
qed

lemma disband_member_runs:
  assumes g: "groups w a = Some g" and refs: "party_refs w g" and pl: "\<And>pl. players w (ms_guid m) = Some pl \<Longrightarrow> leaver a pl"
  shows "\<exists>fx. disband_member env hide a m w = Some (add_fx fx (w\<lparr>groups := (groups w)(a \<mapsto> without_refs {ms_guid m} g),
     players := unlinked {ms_guid m} gone w\<rparr>))"
proof (cases "players w (ms_guid m)")
  case None
  then have "r \<in> set (m_memberMgr g) \<Longrightarrow> GetSource r \<noteq> ms_guid m" for r using refs by (auto simp: party_refs_def)
  then have "filter (\<lambda>r. GetSource r \<notin> {ms_guid m}) (m_memberMgr g) = m_memberMgr g" by (auto simp: filter_id_conv)
  then have "w\<lparr>groups := (groups w)(a \<mapsto> without_refs {ms_guid m} g)\<rparr> = w" using g by (simp add: map_upd_triv)
  moreover have "unlinked {ms_guid m} gone w = players w" using None by (auto simp: unlinked_def)
  moreover have "disband_member env hide a m w = Some w" using None by (simp add: disband_member_def gw_connected_def)
  ultimately show ?thesis using fx_id [of w] by simp
next
  case (Some p)
  let ?p = "ms_guid m" and ?g = "without_refs {ms_guid m} g"
  note lv = pl [OF Some]
  let ?w1 = "w\<lparr>groups := (groups w)(a \<mapsto> ?g), players := (players w)(?p \<mapsto> p\<lparr>gp_m_group := None\<rparr>)\<rparr>"
  obtain f1 where 1: "remove_buffs ?p (m_memberMgr g) w = add_fx f1 w" using remove_buffs_fx by blast
  have on: "gw_connected w ?p" using Some lv by (simp add: gw_connected_def leaver_def)
  have 2: "leave_ref a ?p (remove_buffs ?p (m_memberMgr g) w) = Some (add_fx f1 ?w1)"
    unfolding 1 using leave_ref_runs [of "add_fx f1 w" a g ?p p] g refs Some lv by (simp add: party_refs_def)
  obtain f3 where "disband_member env hide a m w = SetLeaderFlag False ?p (add_fx f3 ?w1)"
    using disband_member_step [OF on g 2, of ?g "p\<lparr>gp_m_group := None\<rparr>" env hide] by auto
  also have "\<dots> = Some (add_fx f3 (w\<lparr>groups := (groups w)(a \<mapsto> ?g), players := (players w)(?p \<mapsto> gone p)\<rparr>))"
    by (simp add: SetLeaderFlag_def on_player_def)
  also have "(players w)(?p \<mapsto> gone p) = unlinked {?p} gone w" using Some by (auto simp: unlinked_def)
  finally show ?thesis by blast
qed

lemma unlinked_fx [simp]: "unlinked S f (add_fx fx w) = unlinked S f w"
  by (simp add: unlinked_def fun_eq_iff)

lemma unlinked_twice [simp]:
  "p \<notin> S \<Longrightarrow> unlinked S f (w\<lparr>groups := G, players := unlinked {p} f w\<rparr>) = unlinked (insert p S) f w"
  by (auto simp: unlinked_def fun_eq_iff)

lemma each_disband_runs:
  assumes "groups w a = Some g" and "party_refs w g" and "distinct (map ms_guid ms)"
    and "\<forall>m \<in> set ms. \<forall>pl. players w (ms_guid m) = Some pl \<longrightarrow> leaver a pl"
  shows "\<exists>fx. each (disband_member env hide a) ms w = Some (add_fx fx (w\<lparr>groups := (groups w)(a \<mapsto> without_refs (ms_guid ` set ms) g),
     players := unlinked (ms_guid ` set ms) gone w\<rparr>))"
  using assms
proof (induction ms arbitrary: w g)
  case Nil
  have "unlinked {} gone w = players w" by (simp add: unlinked_def fun_eq_iff)
  then show ?case using Nil(1) fx_id [of w] by (simp add: map_upd_triv)
next
  case (Cons m ms)
  let ?g = "without_refs {ms_guid m} g"
  let ?w = "w\<lparr>groups := (groups w)(a \<mapsto> ?g), players := unlinked {ms_guid m} gone w\<rparr>"
  obtain f1 where 1: "disband_member env hide a m w = Some (add_fx f1 ?w)"
    using disband_member_runs [OF Cons.prems(1,2), of m env hide] Cons.prems(4) by auto
  have fresh: "ms_guid m \<notin> ms_guid ` set ms" using Cons.prems(3) by auto
  have refs: "party_refs (add_fx f1 ?w) ?g" using Cons.prems(2) by (simp add: party_refs_def unlinked_def)
  have "players (add_fx f1 ?w) (ms_guid n) = players w (ms_guid n)" if "n \<in> set ms" for n
    using fresh imageI [OF that, of ms_guid] by (auto simp: unlinked_def)
  then have lv: "\<forall>n \<in> set ms. \<forall>pl. players (add_fx f1 ?w) (ms_guid n) = Some pl \<longrightarrow> leaver a pl"
    using Cons.prems(4) by simp
  have g2: "groups (add_fx f1 ?w) a = Some ?g" and d2: "distinct (map ms_guid ms)" using Cons.prems(3) by simp_all
  obtain f2 where 2: "each (disband_member env hide a) ms (add_fx f1 ?w) = Some (add_fx f2 ((add_fx f1 ?w)\<lparr>groups := (groups (add_fx f1 ?w))(a \<mapsto> without_refs (ms_guid ` set ms) ?g),
     players := unlinked (ms_guid ` set ms) gone (add_fx f1 ?w)\<rparr>))"
    using Cons.IH [OF g2 refs d2 lv] by blast
  have eq: "filter (\<lambda>r. GetSource r \<notin> ms_guid ` set ms) (m_memberMgr ?g) = filter (\<lambda>r. GetSource r \<notin> ms_guid ` set (m # ms)) (m_memberMgr g)"
    by (auto simp: intro: filter_cong)
  have "each (disband_member env hide a) (m # ms) w = Some (add_fx (f1 @ f2) (w\<lparr>groups := (groups w)(a \<mapsto> without_refs (ms_guid ` set (m # ms)) g),
     players := unlinked (ms_guid ` set (m # ms)) gone w\<rparr>))"
    using 1 2 eq fresh by simp
  then show ?case by blast
qed

section \<open>The manager after a group has been disbanded\<close>

definition dropped :: "group \<Rightarrow> group_world \<Rightarrow> group_world \<Rightarrow> bool" where
  "dropped g w w' =
     (GroupStore w' = smap_erase (GetCounter (m_guid g)) (GroupStore w) \<and> NextGroupId w' = NextGroupId w \<and> gw_fresh w' = gw_fresh w \<and>
      NextGroupDbStoreId w' \<in> {m_dbStoreId g, NextGroupDbStoreId w} \<and>
      (\<forall>k. GetGroupByDbStoreId k w' = (if k = m_dbStoreId g then None else GetGroupByDbStoreId k w)))"

lemma dropped_ids:
  assumes ids: "ids_ok w" and g: "groups w a = Some g" "m_memberSlots g \<noteq> []" and w': "groups w' = (groups w)(a := None)" "dropped g w w'"
  shows "ids_ok w'"
proof -
  let ?k = "GetCounter (m_guid g)" and ?s = "m_dbStoreId g"
  have ga: "map_option ids_of (groups w a) = Some (True, ?k, ?s)" using g by (simp add: ids_of_def)
  note at_a = ids_okD(3,4) [OF ids ga]
  have other: "k \<noteq> ?k" "s \<noteq> ?s" if "map_option ids_of (groups w b) = Some (True, k, s)" "b \<noteq> a" for b k s
    using ids_okD(3,4) [OF ids that(1)] at_a that(2) by auto
  have d: "GroupStore w' = smap_erase ?k (GroupStore w)" "NextGroupId w' = NextGroupId w" "gw_fresh w' = gw_fresh w"
      "NextGroupDbStoreId w' \<in> {?s, NextGroupDbStoreId w}"
      "\<And>k. GetGroupByDbStoreId k w' = (if k = ?s then None else GetGroupByDbStoreId k w)"
    using w'(2) by (auto simp: dropped_def)
  show ?thesis
  proof (rule ids_okI)
    show "map_ok (GroupStore w')" using ids_okD(1) [OF ids] d(1) by simp
    show "b < gw_fresh w'" if "map_option ids_of (groups w' b) = Some x" for b x
      using ids_okD(2) [OF ids, of b x] that w'(1) d(3) by (cases "b = a") auto
    show "smap_find (GroupStore w') k = Some b \<and> GetGroupByDbStoreId s w' = Some b"
      if "map_option ids_of (groups w' b) = Some (True, k, s)" for b k s
      using that ids_okD(3,4) [OF ids, of b k s] other [of b k s] d(1,5) w'(1) by (cases "b = a") auto
    show "k < NextGroupId w' \<and> (\<exists>s. map_option ids_of (groups w' b) = Some (True, k, s))" if "smap_find (GroupStore w') k = Some b" for k b
    proof -
      have k: "k \<noteq> ?k" "smap_find (GroupStore w) k = Some b" using that d(1) by (auto split: if_splits)
      then obtain s where s: "map_option ids_of (groups w b) = Some (True, k, s)" using ids_okD(6) [OF ids] by blast
      then have "b \<noteq> a" using ga k(1) by auto
      then show ?thesis using s w'(1) d(2) ids_okD(5) [OF ids k(2)] by auto
    qed
    show "\<exists>k. map_option ids_of (groups w' b) = Some (True, k, s)" if "GetGroupByDbStoreId s w' = Some b" for s b
    proof -
      have s: "s \<noteq> ?s" "GetGroupByDbStoreId s w = Some b" using that d(5) by (auto split: if_splits)
      then obtain k where k: "map_option ids_of (groups w b) = Some (True, k, s)" using ids_okD(7) [OF ids] by blast
      then have "b \<noteq> a" using ga s(1) by auto
      then show ?thesis using k w'(1) by auto
    qed
    show "GetGroupByDbStoreId (NextGroupDbStoreId w') w' = None" using d(4,5) ids_okD(8) [OF ids] by auto
  qed
qed

lemma FreeGroupDbStoreId_runs:
  assumes "GetGroupByDbStoreId s w = Some a"
  shows "\<exists>w'. FreeGroupDbStoreId s w = Some w' \<and> groups w' = groups w \<and> players w' = players w \<and> GroupStore w' = GroupStore w \<and>
     NextGroupId w' = NextGroupId w \<and> gw_fresh w' = gw_fresh w \<and> NextGroupDbStoreId w' \<in> {s, NextGroupDbStoreId w} \<and>
     (\<forall>k. GetGroupByDbStoreId k w' = (if k = s then None else GetGroupByDbStoreId k w))"
  using assms
  by (auto simp: FreeGroupDbStoreId_def GetGroupByDbStoreId_def Let_def nth_list_update word_unat_eq_iff split: if_splits)

text \<open>
  Disbanding returns: the group is gone, and nobody is in it or invited to it. Its leader need not
  be a member any more.
\<close>

definition disbanded :: "group \<Rightarrow> group_world \<Rightarrow> guid \<Rightarrow> gplayer option" where
  "disbanded g w q =
     (if q \<in> set (m_invitees g) then map_option (gp_invite_update (\<lambda>_. None)) (unlinked (members g) gone w q) else unlinked (members g) gone w q)"

lemma Disband_result:
  assumes g: "groups w a = Some g" and refs: "party_refs w g" and lv: "\<forall>q \<in> members g. \<forall>pl. players w q = Some pl \<longrightarrow> leaver a pl"
    and src: "\<forall>r \<in> set (m_memberMgr g). GetSource r \<in> members g" and dist: "distinct (map ms_guid (m_memberSlots g))"
    and inv: "\<forall>p \<in> set (m_invitees g). players w p \<noteq> None" "distinct (m_invitees g)" and id: "GetGroupByDbStoreId (m_dbStoreId g) w = Some a"
  shows "\<exists>w'. Disband env hide a w = Some w' \<and> groups w' = (groups w)(a := None) \<and> players w' = disbanded g w \<and> dropped g w w'"
proof -
  have lv': "\<forall>m \<in> set (m_memberSlots g). \<forall>pl. players w (ms_guid m) = Some pl \<longrightarrow> leaver a pl"
    using lv by (auto simp: members_def)
  have empty: "filter (\<lambda>r. GetSource r \<notin> members g) (m_memberMgr g) = []" using src by (auto simp: filter_empty_conv)
  let ?U = "unlinked (members g) gone w"
  let ?w1 = "w\<lparr>groups := (groups w)(a \<mapsto> g\<lparr>m_memberMgr := []\<rparr>), players := ?U\<rparr>"
  obtain f1 where 1: "each (disband_member env hide a) (m_memberSlots g) w = Some (add_fx f1 ?w1)"
    using each_disband_runs [where env = env and hide = hide, OF g refs dist lv'] unfolding members_def [symmetric] empty by blast
  let ?g2 = "g\<lparr>m_memberMgr := [], m_RollId := [], m_memberSlots := []\<rparr>"
  let ?w2 = "w\<lparr>groups := (groups w)(a \<mapsto> ?g2), players := ?U\<rparr>"
  have 2: "on_group a (\<lambda>g. g\<lparr>m_RollId := [], m_memberSlots := []\<rparr>) (add_fx f1 ?w1) = Some (add_fx f1 ?w2)"
    by (simp add: on_group_def)
  have g2: "groups (add_fx f1 ?w2) a = Some ?g2" by simp
  have inv2: "\<forall>p \<in> set (m_invitees ?g2). players (add_fx f1 ?w2) p \<noteq> None" "distinct (m_invitees ?g2)"
    using inv by (auto simp: unlinked_def)
  let ?g3 = "?g2\<lparr>m_invitees := []\<rparr>"
  let ?w3 = "uninvited (set (m_invitees g)) a ?g2 (add_fx f1 ?w2)"
  have 3: "RemoveAllInvites a (add_fx f1 ?w2) = Some ?w3" using RemoveAllInvites_raw [OF g2 inv2] by simp
  have w3: "groups ?w3 = (groups w)(a \<mapsto> ?g3)" "players ?w3 = disbanded g w"
    by (auto simp: disbanded_def fun_eq_iff)
  have s3: "GetGroupByDbStoreId k ?w3 = GetGroupByDbStoreId k w" for k by (simp add: uninvited_def)
  let ?e3 = "add_fx ([GroupSql (DeleteGroup (m_dbStoreId g)), GroupSql (DeleteGroupMembers (m_dbStoreId g))] @ [ResetGroupInstances a]) ?w3"
  have id3: "GetGroupByDbStoreId (m_dbStoreId g) ?e3 = Some a" using id s3 by simp
  obtain w4 where w4: "FreeGroupDbStoreId (m_dbStoreId g) ?e3 = Some w4" "groups w4 = groups ?e3" "players w4 = players ?e3"
      "GroupStore w4 = GroupStore ?e3" "NextGroupId w4 = NextGroupId ?e3" "gw_fresh w4 = gw_fresh ?e3"
      "NextGroupDbStoreId w4 \<in> {m_dbStoreId g, NextGroupDbStoreId ?e3}"
      "\<And>k. GetGroupByDbStoreId k w4 = (if k = m_dbStoreId g then None else GetGroupByDbStoreId k ?e3)"
    using FreeGroupDbStoreId_runs [OF id3] by blast
  have g4: "groups w4 a = Some ?g3" using w4(2) w3(1) by simp
  let ?w5 = "w4\<lparr>GroupStore := smap_erase (GetCounter (m_guid g)) (GroupStore w4)\<rparr>"
  have 5: "RemoveGroup a w4 = Some ?w5" using g4 by (simp add: RemoveGroup_def)
  have bg: "m_bgGroup g = None" using refs by (simp add: party_refs_def)
  have 6: "delete_group a ?w5 = Some (add_fx [RemoveInstanceBinds a] (?w5\<lparr>groups := (groups ?w5)(a := None)\<rparr>))"
    using g4 bg by (simp add: delete_group_def effect_fx)
  let ?w6 = "add_fx [RemoveInstanceBinds a] (?w5\<lparr>groups := (groups ?w5)(a := None)\<rparr>)"
  have "Disband env hide a w = Some ?w6"
    using g bg 1 2 3 w4(1) 5 6 by (simp add: Disband_def isBGGroup_def effect_fx)
  moreover have "groups ?w6 = (groups w)(a := None)" using w4(2) w3(1) by simp
  moreover have "players ?w6 = disbanded g w" using w4(3) w3(2) by simp
  moreover have "dropped g w ?w6" using w4(4-8) s3 by (auto simp: dropped_def uninvited_def)
  ultimately show ?thesis by blast
qed

lemma Disband_links:
  assumes links: "links_ok w" and g: "groups w a = Some g"
    and w': "groups w' = (groups w)(a := None)" "players w' = disbanded g w"
  shows "links_ok w'"
proof -
  let ?h = "g\<lparr>m_memberSlots := [], m_memberMgr := [], m_RollId := [], m_subGroupsCounts := (if isRaidGroup g then Some (replicate 8 0) else None)\<rparr>"
  have h: "group_ok ?h" using links_okD(1) [OF links g]
    by (simp add: group_ok_def counts_exact_def rolls_ok_def in_sub_def MAX_RAID_SUBGROUPS_def)
  let ?w1 = "w\<lparr>groups := (groups w)(a \<mapsto> ?h), players := unlinked (members g) gone w\<rparr>"
  have l1: "links_ok ?w1"
    by (rule keeps_leave [OF links g subset_refl _ _ _ h])
      (use links_source [OF links g] in \<open>auto simp: members_def filter_empty_conv\<close>)
  have g1: "groups ?w1 a = Some ?h" by simp
  let ?w2 = "uninvited (set (m_invitees g)) a ?h ?w1"
  have l2: "links_ok ?w2" using keeps_uninvited [OF l1 g1, of "set (m_invitees g)"] by simp
  have "links_ok (?w2\<lparr>groups := (groups ?w2)(a := None)\<rparr>)"
    by (rule keeps_delete [OF l2, where g = "?h\<lparr>m_invitees := filter (\<lambda>q. q \<notin> set (m_invitees g)) (m_invitees g)\<rparr>"]) simp_all
  moreover have "groups (?w2\<lparr>groups := (groups ?w2)(a := None)\<rparr>) = groups w'" using w'(1) by (auto simp: fun_eq_iff)
  moreover have "players (?w2\<lparr>groups := (groups ?w2)(a := None)\<rparr>) = players w'" using w'(2)
    by (auto simp: fun_eq_iff disbanded_def)
  ultimately show ?thesis using links_cong [of "?w2\<lparr>groups := (groups ?w2)(a := None)\<rparr>" w'] by metis
qed

lemma Disband_runs:
  assumes links: "links_ok (w\<lparr>groups := (groups w)(a \<mapsto> g\<lparr>m_leaderGuid := l\<rparr>)\<rparr>)" and ids: "ids_ok w"
    and g: "groups w a = Some g" "m_memberSlots g \<noteq> []"
  shows "\<exists>w'. Disband env hide a w = Some w' \<and> links_ok w' \<and> ids_ok w' \<and> groups w' = (groups w)(a := None) \<and> players w' = disbanded g w"
proof -
  let ?g = "g\<lparr>m_leaderGuid := l\<rparr>" and ?w = "w\<lparr>groups := (groups w)(a \<mapsto> g\<lparr>m_leaderGuid := l\<rparr>)\<rparr>"
  have ga: "groups ?w a = Some ?g" by simp
  have mem: "members ?g = members g" by (simp add: members_def)
  have "map_option ids_of (groups w a) = Some (True, GetCounter (m_guid g), m_dbStoreId g)" using g by (simp add: ids_of_def)
  then have id: "GetGroupByDbStoreId (m_dbStoreId g) w = Some a" by (rule ids_okD(4) [OF ids])
  have refs: "party_refs w g" using links_refs [OF links ga] by (simp add: party_refs_def)
  have lv: "\<forall>q \<in> members g. \<forall>pl. players w q = Some pl \<longrightarrow> leaver a pl"
    using links_leaver [OF links ga] mem by simp
  have src: "\<forall>r \<in> set (m_memberMgr g). GetSource r \<in> members g"
    using links_source [OF links ga] mem by simp
  have gok: "distinct (map ms_guid (m_memberSlots g))" "distinct (m_invitees g)"
    using links_okD(1) [OF links ga] by (simp_all add: group_ok_def)
  have inv: "\<forall>p \<in> set (m_invitees g). players w p \<noteq> None"
    using links_okD(3) [OF links ga] by (auto simp: invitees_ok_def bind_eq_Some_conv)
  obtain w' where w': "Disband env hide a w = Some w'" "groups w' = (groups w)(a := None)" "players w' = disbanded g w" "dropped g w w'"
    using Disband_result [where env = env and hide = hide, OF g(1) refs lv src gok(1) inv gok(2) id] by blast
  have "disbanded ?g ?w = disbanded g w" by (rule ext) (simp add: disbanded_def unlinked_def mem)
  then have "links_ok w'" using Disband_links [OF links ga, of w'] w'(2,3) by simp
  then show ?thesis using w' dropped_ids [OF ids g w'(2,4)] by blast
qed

end
