(* ===== verification/GroupLeaders.thy ===== *)
theory GroupLeaders
  imports GroupDisbands
begin

text \<open>The leader changes, and a member leaves.\<close>

lemma BroadcastPacket_after: "groups w a = Some g \<Longrightarrow> \<exists>fx. BroadcastPacket d ign only skip a (add_fx fx0 w) = Some (add_fx fx w)"
  using BroadcastPacket_fx [of "add_fx fx0 w" a g d ign only skip] by (auto simp only: add_fx_simps)

lemma SendUpdate_after: "groups w a = Some g \<Longrightarrow> \<exists>fx. SendUpdate a (add_fx fx0 w) = Some (add_fx fx w)"
  using SendUpdate_fx [of "add_fx fx0 w" a g] by (auto simp only: add_fx_simps)

section \<open>A new leader\<close>

lemma on_slot_flags [simp]:
  "map (\<lambda>m. (ms_guid m, ms_group m)) (on_slot p (ms_flags_update f) ms) = map (\<lambda>m. (ms_guid m, ms_group m)) ms"
  by (induction ms) auto

lemma toggle_simps [simp]:
  "m_leaderGuid (ToggleGroupMemberFlag p fl v g) = m_leaderGuid g" "m_memberMgr (ToggleGroupMemberFlag p fl v g) = m_memberMgr g"
  "m_invitees (ToggleGroupMemberFlag p fl v g) = m_invitees g" "m_guid (ToggleGroupMemberFlag p fl v g) = m_guid g"
  "m_dbStoreId (ToggleGroupMemberFlag p fl v g) = m_dbStoreId g" "isRaidGroup (ToggleGroupMemberFlag p fl v g) = isRaidGroup g"
  "m_subGroupsCounts (ToggleGroupMemberFlag p fl v g) = m_subGroupsCounts g" "m_bgGroup (ToggleGroupMemberFlag p fl v g) = m_bgGroup g"
  "m_targetIcons (ToggleGroupMemberFlag p fl v g) = m_targetIcons g" "m_RollId (ToggleGroupMemberFlag p fl v g) = m_RollId g"
  "m_leaderLogoutTime (ToggleGroupMemberFlag p fl v g) = m_leaderLogoutTime g"
  by (simp_all add: ToggleGroupMemberFlag_def)

lemma toggle_same [simp]: "same_links g (ToggleGroupMemberFlag p fl v g)"
  by (simp add: same_links_def) (simp add: ToggleGroupMemberFlag_def)

definition led_by :: "guid \<Rightarrow> string \<Rightarrow> group \<Rightarrow> group" where
  "led_by q n g = ToggleGroupMemberFlag q MEMBER_FLAG_ASSISTANT False (g\<lparr>m_leaderGuid := q, m_leaderName := n\<rparr>)"

lemma led_by_same: "same_links g (led_by q n g)"
proof -
  have "same_links g (g\<lparr>m_leaderGuid := q, m_leaderName := n\<rparr>)" by (simp add: same_links_def)
  then show ?thesis using toggle_same [of "g\<lparr>m_leaderGuid := q, m_leaderName := n\<rparr>"] by (simp add: led_by_def same_links_def)
qed

lemma led_by_simps [simp]:
  "m_leaderGuid (led_by q n g) = q" "isRaidGroup (led_by q n g) = isRaidGroup g" "m_memberMgr (led_by q n g) = m_memberMgr g"
  "m_invitees (led_by q n g) = m_invitees g" "ids_of (led_by q n g) = ids_of g"
  "m_leaderLogoutTime (led_by q n g) = m_leaderLogoutTime g"
  using led_by_same [of g q n] same_links_slots(2) [OF led_by_same [of g q n]]
  by (simp_all add: led_by_def ids_of_def)

lemma led_by_ok:
  assumes links: "links_ok (w\<lparr>groups := (groups w)(a \<mapsto> g\<lparr>m_leaderGuid := l\<rparr>)\<rparr>)" and q: "q \<in> members g"
  shows "links_ok (w\<lparr>groups := (groups w)(a \<mapsto> led_by q n g)\<rparr>)"
proof -
  let ?g = "g\<lparr>m_leaderGuid := l\<rparr>" and ?w = "w\<lparr>groups := (groups w)(a \<mapsto> g\<lparr>m_leaderGuid := l\<rparr>)\<rparr>"
  have ga: "groups ?w a = Some ?g" by simp
  have same: "same_links ?g (led_by q n g)" using led_by_same [of g q n] by (simp add: same_links_def)
  have "group_ok (led_by q n g)"
    by (rule group_ok_same [OF links_okD(1) [OF links ga] same])
      (use links_okD(1) [OF links ga] q in \<open>simp_all add: led_by_def group_ok_def members_def\<close>)
  then have "links_ok (?w\<lparr>groups := (groups ?w)(a \<mapsto> led_by q n g)\<rparr>)" by (rule keeps_cosmetic(1) [OF links ga same])
  then show ?thesis by simp
qed

lemma ChangeLeader_runs:
  assumes links: "links_ok (w\<lparr>groups := (groups w)(a \<mapsto> g\<lparr>m_leaderGuid := l\<rparr>)\<rparr>)" and g: "groups w a = Some g"
    and q: "q \<in> members g" and conn: "gw_connected w q"
  shows "\<exists>w' n. ChangeLeader env a q w = Some w' \<and> links_ok w' \<and> groups w' = (groups w)(a \<mapsto> led_by q n g) \<and> (ids_ok w \<longrightarrow> ids_ok w') \<and>
     (\<forall>p. players w' p = None \<longleftrightarrow> players w p = None) \<and> (\<forall>p. group_of w' p = group_of w p)"
proof -
  obtain ql where ql: "players w q = Some ql" using conn by (auto simp: gw_connected_def split: option.splits)
  obtain slot where slot: "getMemberSlot q g = Some slot"
    using q by (cases "getMemberSlot q g") (auto simp: getMemberSlot_def find_None_iff members_def)
  have bg: "m_bgGroup g = None" using links_okD(1) [OF links, of a "g\<lparr>m_leaderGuid := l\<rparr>"] by (simp add: group_ok_def)
  let ?f = "[RemovePermanentBinds a, ConvertLeaderInstances q a True, GroupSql (UpdateGroupLeader (GetCounter q) (m_dbStoreId g))]"
  let ?v = "w\<lparr>groups := (groups w)(a \<mapsto> led_by q (gp_name ql) g)\<rparr>"
  have v: "links_ok ?v" by (rule led_by_ok [OF links q])
  define P where "P = (if gw_connected w (m_leaderGuid g)
      then map_option (gp_leader_flag_update (\<lambda>_. False)) (players w (m_leaderGuid g)) else players w (m_leaderGuid g))"
  define P1 where "P1 = (players w)(m_leaderGuid g := P)"
  define P2 where "P2 = (players w)(m_leaderGuid g := P, q := map_option (gp_leader_flag_update (\<lambda>_. True)) (P1 q))"
  let ?w' = "w\<lparr>groups := (groups w)(a \<mapsto> led_by q (gp_name ql) g), players := P2\<rparr>"
  have l1: "links_ok (?v\<lparr>players := P1\<rparr>)"
  proof (cases "players w (m_leaderGuid g)")
    case None
    then have "P1 = players w" by (auto simp: P1_def P_def fun_eq_iff gw_connected_def)
    then show ?thesis using v by simp
  next
    case (Some pl)
    then have "P1 = players w \<or> P1 = (players w)(m_leaderGuid g \<mapsto> pl\<lparr>gp_leader_flag := False\<rparr>)" by (auto simp: P1_def P_def fun_eq_iff)
    then show ?thesis using v leave_flag [OF v, of "m_leaderGuid g" pl False] Some by auto
  qed
  obtain ql1 where ql1: "P1 q = Some ql1" using ql conn by (cases "q = m_leaderGuid g") (auto simp: P1_def P_def)
  have P2: "P2 = P1(q \<mapsto> ql1\<lparr>gp_leader_flag := True\<rparr>)" using ql1 by (auto simp: P2_def P1_def fun_eq_iff)
  have l2: "links_ok ?w'" using leave_flag [OF l1, of q ql1 True] ql1 by (simp add: P2)
  have 1: "(if gw_connected (add_fx ?f w) (m_leaderGuid g) then SetLeaderFlag False (m_leaderGuid g) (add_fx ?f w) else Some (add_fx ?f w))
      = Some (add_fx ?f (w\<lparr>players := P1\<rparr>))"
    by (auto simp: SetLeaderFlag_def on_player_def P1_def P_def gw_connected_def fun_upd_idem split: option.splits)
  have 2: "SetLeaderFlag True q (add_fx ?f (w\<lparr>players := P1\<rparr>)) = Some (add_fx ?f (w\<lparr>players := P2\<rparr>))"
    using ql1 by (simp add: SetLeaderFlag_def on_player_def P2)
  have g': "groups ?w' a = Some (led_by q (gp_name ql) g)" by simp
  obtain f3 where 3: "BroadcastPacket (put_string (ms_name slot) (wp_new SMSG_GROUP_SET_LEADER)) True None 0 a (add_fx ?f ?w') = Some (add_fx f3 ?w')"
    using BroadcastPacket_after [OF g'] by blast
  obtain f4 where 4: "SendUpdate a (add_fx f3 ?w') = Some (add_fx f4 ?w')"
    using SendUpdate_after [OF g'] by blast
  have "ChangeLeader env a q w = do {
      w \<leftarrow> (if gw_connected (add_fx ?f w) (m_leaderGuid g) then SetLeaderFlag False (m_leaderGuid g) (add_fx ?f w) else Some (add_fx ?f w));
      w \<leftarrow> SetLeaderFlag True q w;
      w \<leftarrow> on_group a (led_by q (gp_name ql)) w;
      w \<leftarrow> BroadcastPacket (put_string (ms_name slot) (wp_new SMSG_GROUP_SET_LEADER)) True None 0 a w;
      SendUpdate a w }"
    using g slot conn ql bg by (simp add: ChangeLeader_def isBGGroup_def effect_fx Let_def led_by_def [abs_def] del: bind_if)
  also have "\<dots> = Some (add_fx f4 ?w')" unfolding 1 using g 2 3 4 by (simp add: on_group_def)
  finally have "ChangeLeader env a q w = Some (add_fx f4 ?w')" .
  moreover have "ids_ok (add_fx f4 ?w')" if "ids_ok w"
    using ids_upd [OF that g, of "led_by q (gp_name ql) g"] by simp
  moreover have "players (add_fx f4 ?w') p = None \<longleftrightarrow> players w p = None" for p using ql ql1 by (auto simp: P2 P1_def P_def)
  moreover have "group_of (add_fx f4 ?w') p = group_of w p" for p
    by (cases "players w p") (auto simp: P2_def P1_def P_def)
  ultimately show ?thesis using l2 by (intro exI conjI impI allI) (assumption | simp)+
qed

end
