(* ===== verification/GroupRemoves.thy ===== *)
theory GroupRemoves
  imports GroupLeaders
begin

text \<open>A member leaves: out of the rolls, the slots and the counters, and what this leads to.\<close>

section \<open>Out of the rolls, the slots and the counters\<close>

lemma with_rolls_leave:
  assumes "groups w a = Some g" and "rolls_ok (m_RollId g)"
  shows "with_rolls a (leave_rolls e p) w = Some (w\<lparr>groups := (groups w)(a \<mapsto> g\<lparr>m_RollId := map (left_roll p) (m_RollId g)\<rparr>)\<rparr>)"
  using assms leave_from [of "\<lparr>RollId = m_RollId g, loots = gw_loots w, rs_draws = gw_draws w, rs_items = gw_items w, loot_fx = loot_history w\<rparr>" 0 e p]
  by (simp add: with_rolls_def leave_rolls_def rolls_ok_def del: leave_rolls_from.simps)

lemma rolls_ok_left: "rolls_ok rs \<Longrightarrow> rolls_ok (map (left_roll p) rs)"
  by (simp add: rolls_ok_def left_counts comp_def) (metis (no_types, lifting) left_counts(3) map_eq_conv)

lemma filter_absent: "p \<notin> ms_guid ` set ms \<Longrightarrow> filter (\<lambda>m. ms_guid m \<noteq> p) ms = ms"
  by (induction ms) auto

lemma erase_slot_filter: "distinct (map ms_guid ms) \<Longrightarrow> erase_slot p ms = filter (\<lambda>m. ms_guid m \<notin> {p}) ms"
proof (induction ms)
  case (Cons m ms)
  then show ?case using filter_absent [of p ms] by (cases "ms_guid m = p") auto
qed simp

lemma find_distinct_member: "distinct (map ms_guid ms) \<Longrightarrow> m \<in> set ms \<Longrightarrow> ms_guid m = p \<Longrightarrow> find (\<lambda>m. ms_guid m = p) ms = Some m"
  by (induction ms) auto

lemma in_sub_erase:
  assumes "distinct (map ms_guid ms)" and "m \<in> set ms" and "ms_guid m = p"
  shows "in_sub i (filter (\<lambda>m. ms_guid m \<notin> {p}) ms) = in_sub i ms - (if unat (ms_group m) = i then 1 else 0)"
    and "unat (ms_group m) = i \<Longrightarrow> 0 < in_sub i ms"
    and "Suc (length (filter (\<lambda>m. ms_guid m \<notin> {p}) ms)) = length ms"
proof -
  obtain xs ys where ms: "ms = xs @ m # ys" using assms(2) by (auto simp: in_set_conv_decomp)
  have "filter (\<lambda>m. ms_guid m \<notin> {p}) ms = xs @ ys" using assms(1,3) ms by (auto simp: filter_absent)
  then show "in_sub i (filter (\<lambda>m. ms_guid m \<notin> {p}) ms) = in_sub i ms - (if unat (ms_group m) = i then 1 else 0)"
    "unat (ms_group m) = i \<Longrightarrow> 0 < in_sub i ms" "Suc (length (filter (\<lambda>m. ms_guid m \<notin> {p}) ms)) = length ms"
    using ms by (simp_all add: in_sub_def)
qed

lemma counted_down:
  assumes counts: "counts_exact g" and dist: "distinct (map ms_guid (m_memberSlots g))" and m: "m \<in> set (m_memberSlots g)" "ms_guid m = p"
  shows "\<exists>cs. SubGroupCounterDecrease (ms_group m) g = Some (g\<lparr>m_subGroupsCounts := cs\<rparr>) \<and>
     counts_exact (g\<lparr>m_memberSlots := filter (\<lambda>m. ms_guid m \<notin> {p}) (m_memberSlots g), m_subGroupsCounts := cs\<rparr>)"
proof (cases "m_subGroupsCounts g")
  case None
  then show ?thesis using counts by (auto simp: SubGroupCounterDecrease_def counts_exact_def intro!: exI [of _ None])
next
  case (Some cs)
  let ?i = "unat (ms_group m)" and ?cs = "cs[unat (ms_group m) := cs ! unat (ms_group m) - 1]"
  note er = in_sub_erase [OF dist m]
  have i: "?i < length cs" "length cs = 8" using counts Some m(1) by (auto simp: counts_exact_def MAX_RAID_SUBGROUPS_def)
  have old: "unat (cs ! j) = in_sub j (m_memberSlots g)" if "j < 8" for j
    using counts Some that by (simp add: counts_exact_def MAX_RAID_SUBGROUPS_def)
  have "0 < unat (cs ! ?i)" using old [of ?i] i er(2) by simp
  then have down: "unat (cs ! ?i - 1) = unat (cs ! ?i) - 1" by (intro unat_minus_one) auto
  have "unat (?cs ! j) = in_sub j (filter (\<lambda>m. ms_guid m \<notin> {p}) (m_memberSlots g))" if "j < 8" for j
    using old [OF that] down that i er(1) [of j] by (auto simp: nth_list_update)
  then have "counts_exact (g\<lparr>m_memberSlots := filter (\<lambda>m. ms_guid m \<notin> {p}) (m_memberSlots g), m_subGroupsCounts := Some ?cs\<rparr>)"
    using counts Some i by (auto simp: counts_exact_def MAX_RAID_SUBGROUPS_def)
  then show ?thesis using Some i by (auto simp: SubGroupCounterDecrease_def count_down_def intro!: exI [of _ "Some ?cs"])
qed

definition left_group :: "guid \<Rightarrow> u8 list option \<Rightarrow> group \<Rightarrow> group" where
  "left_group p cs g = (without_refs {p} g)\<lparr>m_RollId := map (left_roll p) (m_RollId g),
     m_subGroupsCounts := cs, m_memberSlots := filter (\<lambda>m. ms_guid m \<notin> {p}) (m_memberSlots g)\<rparr>"

lemma left_group_simps [simp]:
  "m_memberSlots (left_group p cs g) = filter (\<lambda>m. ms_guid m \<notin> {p}) (m_memberSlots g)" "members (left_group p cs g) = members g - {p}"
  "m_memberMgr (left_group p cs g) = filter (\<lambda>r. GetSource r \<notin> {p}) (m_memberMgr g)" "m_invitees (left_group p cs g) = m_invitees g"
  "m_leaderGuid (left_group p cs g) = m_leaderGuid g" "m_guid (left_group p cs g) = m_guid g" "m_dbStoreId (left_group p cs g) = m_dbStoreId g"
  "isRaidGroup (left_group p cs g) = isRaidGroup g" "m_bgGroup (left_group p cs g) = m_bgGroup g"
  "m_targetIcons (left_group p cs g) = m_targetIcons g" "m_RollId (left_group p cs g) = map (left_roll p) (m_RollId g)"
  by (auto simp: left_group_def members_def)

abbreviation unref :: "guid \<Rightarrow> group_world \<Rightarrow> guid \<Rightarrow> gplayer option" where
  "unref p w \<equiv> unlinked {p} (\<lambda>pl. pl\<lparr>gp_m_group := None\<rparr>) w"

lemma part_member_runs:
  assumes g: "groups w a = Some g" and refs: "party_refs w g" and pl: "players w p = Some pl" "leaver a pl"
  shows "\<exists>fx. part_member env a p kicked (add_fx fx0 w) = Some (add_fx fx (w\<lparr>groups := (groups w)(a \<mapsto> without_refs {p} g), players := unref p w\<rparr>))"
proof -
  let ?w = "w\<lparr>groups := (groups w)(a \<mapsto> without_refs {p} g), players := unref p w\<rparr>"
  have "unref p w = (players w)(p \<mapsto> pl\<lparr>gp_m_group := None\<rparr>)" using pl by (auto simp: unlinked_def)
  then have 1: "leave_ref a p (add_fx fx0 w) = Some (add_fx fx0 ?w)"
    using leave_ref_runs [of "add_fx fx0 w" a g p pl] g refs pl by (simp add: party_refs_def)
  have bg: "m_bgGroup g = None" using refs by (simp add: party_refs_def)
  show ?thesis
    by (cases kicked; cases "\<not> ge_IsGameMaster env p \<and> ge_InDungeon env p \<and> m_leaderGuid g \<noteq> p \<and> \<not> ge_PermBound env p")
      (use 1 bg in \<open>auto simp: part_member_def isBGGroup_def homebindIfInstance_def effect_fx\<close>)
qed

lemma take_out_runs:
  assumes links: "links_ok w" and g: "groups w a = Some g" and p: "p \<in> members g"
  shows "\<exists>fx cs. take_out env a p kicked (add_fx f0 w) = Some (add_fx fx (w\<lparr>groups := (groups w)(a \<mapsto> left_group p cs g), players := unref p w\<rparr>)) \<and>
     counts_exact (left_group p cs g)"
proof -
  have gok: "counts_exact g" "distinct (map ms_guid (m_memberSlots g))" "rolls_ok (m_RollId g)"
    using links_okD(1) [OF links g] by (simp_all add: group_ok_def)
  have refs: "party_refs w g" by (rule links_refs [OF links g])
  obtain m where m: "m \<in> set (m_memberSlots g)" "ms_guid m = p" using p by (auto simp: members_def)
  let ?g1 = "without_refs {p} g"
  let ?w1 = "w\<lparr>groups := (groups w)(a \<mapsto> ?g1), players := unref p w\<rparr>"
  have "\<exists>fx. (if gw_connected w p then part_member env a p kicked (add_fx f0 w) else Some (add_fx f0 w)) = Some (add_fx fx ?w1)"
  proof (cases "players w p")
    case (Some pl)
    have lv: "leaver a pl" by (rule links_leaver [OF links g p Some])
    then show ?thesis using part_member_runs [OF g refs Some lv, of env kicked f0] Some by (simp add: gw_connected_def leaver_def)
  next
    case None
    then have "filter (\<lambda>r. GetSource r \<notin> {p}) (m_memberMgr g) = m_memberMgr g" using refs by (auto simp: party_refs_def filter_id_conv)
    then have "(groups w)(a \<mapsto> ?g1) = groups w" using g by (auto simp: fun_eq_iff)
    moreover have "unref p w = players w" using None by (auto simp: unlinked_def fun_eq_iff)
    ultimately have "?w1 = w" by simp
    then show ?thesis using None by (auto simp: gw_connected_def)
  qed
  then obtain f2 where 2: "(if gw_connected w p then part_member env a p kicked (add_fx f0 w) else Some (add_fx f0 w)) = Some (add_fx f2 ?w1)" by blast
  have 3: "DelinkMember a p (add_fx fx ?w1) = Some (add_fx fx ?w1)" for fx
    by (simp add: DelinkMember_def filter_False)
  let ?g4 = "?g1\<lparr>m_RollId := map (left_roll p) (m_RollId g)\<rparr>"
  let ?w4 = "w\<lparr>groups := (groups w)(a \<mapsto> ?g4), players := unref p w\<rparr>"
  have 4: "with_rolls a (leave_rolls e p) (add_fx fx ?w1) = Some (add_fx fx ?w4)" for fx e
    using with_rolls_leave [of "add_fx fx ?w1" a ?g1 e p] gok(3) by simp
  have c4: "counts_exact ?g4" using gok(1) by (simp add: counts_exact_def cong: option.case_cong)
  obtain cs where cs: "SubGroupCounterDecrease (ms_group m) ?g4 = Some (?g4\<lparr>m_subGroupsCounts := cs\<rparr>)"
      "counts_exact (?g4\<lparr>m_memberSlots := filter (\<lambda>m. ms_guid m \<notin> {p}) (m_memberSlots g), m_subGroupsCounts := cs\<rparr>)"
    using counted_down [OF c4 _ _ m(2)] gok(2) m(1) by auto
  have slot: "getMemberSlot p ?g4 = Some m"
    using find_distinct_member [OF gok(2) m] by (simp add: getMemberSlot_def)
  have 5: "erase_member a p (add_fx fx ?w4) = Some (add_fx fx (w\<lparr>groups := (groups w)(a \<mapsto> left_group p cs g), players := unref p w\<rparr>))" for fx
    using slot cs(1) erase_slot_filter [OF gok(2), of p] by (simp add: erase_member_def change_group_def left_group_def)
  have "take_out env a p kicked (add_fx f0 w) = do {
      w \<leftarrow> (if gw_connected w p then part_member env a p kicked (add_fx f0 w) else Some (add_fx f0 w));
      w \<leftarrow> DelinkMember a p (Execute (DeleteGroupMember (GetCounter p)) w);
      w \<leftarrow> with_rolls a (leave_rolls (loot_env_of env w) p) w;
      erase_member a p w }"
    using g refs by (simp add: take_out_def isBGGroup_def party_refs_def)
  also have "\<dots> = Some (add_fx (f2 @ [GroupSql (DeleteGroupMember (GetCounter p))])
      (w\<lparr>groups := (groups w)(a \<mapsto> left_group p cs g), players := unref p w\<rparr>))"
    unfolding 2 using 3 4 5 by (simp add: effect_fx)
  finally have "\<exists>fx. take_out env a p kicked (add_fx f0 w) = Some (add_fx fx (w\<lparr>groups := (groups w)(a \<mapsto> left_group p cs g), players := unref p w\<rparr>))" by blast
  moreover have "counts_exact (left_group p cs g)" using cs(2)
    by (simp add: left_group_def counts_exact_def cong: option.case_cong)
  ultimately show ?thesis by blast
qed

section \<open>Who is left\<close>

text \<open>The references are those of the members who are online.\<close>

lemma refs_online:
  assumes links: "links_ok w" and g: "groups w a = Some g"
  shows "set (m_memberMgr g) = GroupRef ` {q \<in> members g. players w q \<noteq> None}"
proof
  show "set (m_memberMgr g) \<subseteq> GroupRef ` {q \<in> members g. players w q \<noteq> None}"
    using links_refs [OF links g] links_source [OF links g] by (fastforce simp: party_refs_def)
  show "GroupRef ` {q \<in> members g. players w q \<noteq> None} \<subseteq> set (m_memberMgr g)"
  proof
    fix r
    assume "r \<in> GroupRef ` {q \<in> members g. players w q \<noteq> None}"
    then obtain q pl where q: "r = GroupRef q" "q \<in> members g" "players w q = Some pl" by auto
    then have "gp_m_group pl = Some a" using member_linked [OF links g] by blast
    then obtain h where "groups w a = Some h" "GroupRef q \<in> set (m_memberMgr h)" using linked_group [OF links q(3)] by metis
    then show "r \<in> set (m_memberMgr g)" using g q(1) by simp
  qed
qed

definition online :: "group_world \<Rightarrow> member_slot list \<Rightarrow> guid list" where
  "online w ms = filter (\<lambda>q. players w q \<noteq> None) (map ms_guid ms)"

lemma refs_count:
  assumes links: "links_ok w" and g: "groups w a = Some g"
  shows "length (m_memberMgr g) = length (online w (m_memberSlots g))"
proof -
  have d: "distinct (m_memberMgr g)" "distinct (map ms_guid (m_memberSlots g))"
    using links_okD(1) [OF links g] by (simp_all add: group_ok_def)
  have "set (online w (m_memberSlots g)) = {q \<in> members g. players w q \<noteq> None}" by (auto simp: online_def members_def)
  moreover have "inj_on GroupRef S" for S by (auto simp: inj_on_def)
  ultimately have "card (set (m_memberMgr g)) = card (set (online w (m_memberSlots g)))"
    using refs_online [OF links g] by (simp add: card_image)
  moreover have "distinct (online w (m_memberSlots g))" unfolding online_def by (rule distinct_filter [OF d(2)])
  ultimately show ?thesis using d(1) by (metis distinct_card)
qed

text \<open>The group without the member, and a leader among the others.\<close>

lemma left_ok:
  assumes links: "links_ok w" and g: "groups w a = Some g" and p: "p \<in> members g" and counts: "counts_exact (left_group p cs g)"
    and l: "l \<in> members g - {p}"
  shows "links_ok (w\<lparr>groups := (groups w)(a \<mapsto> (left_group p cs g)\<lparr>m_leaderGuid := l\<rparr>), players := unref p w\<rparr>)"
proof (rule keeps_leave [OF links g, of "{p}"])
  have "group_ok ((left_group p cs g)\<lparr>m_leaderGuid := l\<rparr>)"
    using links_okD(1) [OF links g] counts l rolls_ok_left
    by (auto simp: group_ok_def distinct_map_filter members_def)
  then show "group_ok ((left_group p cs g)\<lparr>m_leaderGuid := l\<rparr>)" .
qed (use p in simp_all)

lemma left_sizes:
  assumes "sizes_ok g" and "length (m_memberSlots g) > 2" and "distinct (map ms_guid (m_memberSlots g))" and "p \<in> members g"
  shows "sizes_ok (left_group p cs g)"
proof -
  obtain m where m: "m \<in> set (m_memberSlots g)" "ms_guid m = p" using assms(4) by (auto simp: members_def)
  note er = in_sub_erase [OF assms(3) m]
  have "in_sub i (filter (\<lambda>m. ms_guid m \<notin> {p}) (m_memberSlots g)) \<le> in_sub i (m_memberSlots g)" for i using er(1) by simp
  then have "\<forall>i. in_sub i (m_memberSlots g) \<le> MAXGROUPSIZE \<longrightarrow> in_sub i (filter (\<lambda>m. ms_guid m \<notin> {p}) (m_memberSlots g)) \<le> MAXGROUPSIZE"
    using le_trans by blast
  then show ?thesis using assms(1,2) er(3) by (auto simp: sizes_ok_def)
qed

lemma RemoveMember_large:
  assumes "groups w a = Some g" and "m_bgGroup g = None" and "length (m_memberSlots g) > 2"
  shows "\<exists>f0. RemoveMember env a p kicked w = do {
     w \<leftarrow> take_out env a p kicked (add_fx f0 w);
     w \<leftarrow> next_leader env a p w;
     w \<leftarrow> SendUpdate a w;
     g \<leftarrow> groups w a;
     w \<leftarrow> (if length (m_memberMgr g) < (if isBGGroup g then 1 else 2) then Disband env False a w else Some w);
     Some (True, w) }"
proof -
  obtain f1 where 1: "BroadcastGroupUpdate a w = Some (add_fx f1 w)" using BroadcastGroupUpdate_fx [OF assms(1)] by blast
  obtain f2 where 2: "remove_buffs p (m_memberMgr g) (add_fx f1 w) = add_fx f2 w"
    using remove_buffs_fx [of p "m_memberMgr g" "add_fx f1 w"] by auto
  show ?thesis
    by (rule exI [of _ "if gw_connected w p then f2 else f1"])
      (use assms 1 2 in \<open>simp add: RemoveMember_def isBGGroup_def GetMembersCount_def Let_def del: bind_if\<close>)
qed

lemma same_leader: "m_leaderGuid h = l \<Longrightarrow> h\<lparr>m_leaderGuid := l\<rparr> = h"
  by auto

lemma same_groups: "groups w = G \<Longrightarrow> w\<lparr>groups := G\<rparr> = w"
  by auto

lemma find_online:
  "case find (\<lambda>m. P (ms_guid m)) ms of None \<Rightarrow> filter P (map ms_guid ms) = []
     | Some m \<Rightarrow> m \<in> set ms \<and> P (ms_guid m) \<and> filter P (map ms_guid ms) \<noteq> [] \<and> hd (filter P (map ms_guid ms)) = ms_guid m"
  by (induction ms) (auto split: option.splits)

lemma unref_simps [simp]: "(unref p w q = None) = (players w q = None)"
  by (simp add: unlinked_def)

lemma unref_connected: "gw_connected (w\<lparr>groups := G, players := unref p w\<rparr>) = gw_connected w"
  by (auto simp: gw_connected_def unlinked_def fun_eq_iff split: option.splits)

text \<open>
  A new leader is needed if the leader leaves: the first of the others who is online. Without one
  the group has no reference left.
\<close>

lemma next_leader_runs:
  assumes links: "links_ok w" and ids: "ids_ok w" and g: "groups w a = Some g" and p: "p \<in> members g" and counts: "counts_exact (left_group p cs g)"
    and size: "length (m_memberSlots g) > 2"
  defines "v \<equiv> w\<lparr>groups := (groups w)(a \<mapsto> left_group p cs g), players := unref p w\<rparr>"
  defines "rest \<equiv> online w (m_memberSlots (left_group p cs g))"
  shows "\<exists>v' h l. next_leader env a p (add_fx fx v) = Some v' \<and> groups v' = (groups w)(a \<mapsto> h) \<and> same_links (left_group p cs g) h \<and> isRaidGroup h = isRaidGroup g \<and>
     links_ok (v'\<lparr>groups := (groups w)(a \<mapsto> h\<lparr>m_leaderGuid := l\<rparr>)\<rparr>) \<and> ids_ok v' \<and>
     (rest \<noteq> [] \<longrightarrow> l = m_leaderGuid h \<and> l = (if m_leaderGuid g = p then hd rest else m_leaderGuid g)) \<and>
     (\<forall>q. players v' q = None \<longleftrightarrow> players w q = None)"
proof -
  let ?L = "left_group p cs g"
  have gok: "distinct (map ms_guid (m_memberSlots g))" "m_memberSlots g \<noteq> [] \<longrightarrow> m_leaderGuid g \<in> members g"
    using links_okD(1) [OF links g] by (simp_all add: group_ok_def)
  obtain m0 where m0: "m0 \<in> set (m_memberSlots g)" "ms_guid m0 = p" using p by (auto simp: members_def)
  have two: "length (m_memberSlots ?L) > 1" using in_sub_erase(3) [OF gok(1) m0] size by simp
  then have ne: "m_memberSlots ?L \<noteq> []" by auto
  have "m_memberSlots g \<noteq> []" using size by auto
  then have "ids_of ?L = ids_of g" using ne by (simp add: ids_of_def)
  then have idv: "ids_ok v" using ids_upd [OF ids g, of ?L] by (simp add: v_def)
  have vl: "links_ok (v\<lparr>groups := (groups w)(a \<mapsto> ?L\<lparr>m_leaderGuid := l\<rparr>)\<rparr>)" if "l \<in> members g - {p}" for l
    using left_ok [OF links g p counts that] by (simp add: v_def)
  have gv: "groups v a = Some ?L" "groups v = (groups w)(a \<mapsto> ?L)" by (simp_all add: v_def)
  have pv: "players v q = None \<longleftrightarrow> players w q = None" for q by (simp add: v_def)
  have conn: "gw_connected v q = (players w q \<noteq> None)" for q unfolding v_def unref_connected by (rule connected_iff [OF links])
  show ?thesis
  proof (cases "m_leaderGuid g = p")
    case False
    then have l: "m_leaderGuid g \<in> members g - {p}" using gok(2) p m0 by auto
    have lv: "links_ok (v\<lparr>groups := (groups w)(a \<mapsto> ?L\<lparr>m_leaderGuid := m_leaderGuid g\<rparr>)\<rparr>)" by (rule vl [OF l])
    have "next_leader env a p (add_fx fx v) = Some (add_fx fx v)" using False gv by (simp add: next_leader_def)
    then show ?thesis using False gv idv pv lv
      by (intro exI [of _ "add_fx fx v"] exI [of _ ?L] exI [of _ "m_leaderGuid g"]) (simp add: same_links_def)
  next
    case True
    have fo: "case find (\<lambda>m. gw_connected v (ms_guid m)) (m_memberSlots ?L) of None \<Rightarrow> rest = []
        | Some m \<Rightarrow> m \<in> set (m_memberSlots ?L) \<and> gw_connected v (ms_guid m) \<and> rest \<noteq> [] \<and> hd rest = ms_guid m"
      using find_online [of "gw_connected v" "m_memberSlots ?L"] unfolding rest_def online_def conn .
    show ?thesis
    proof (cases "find (\<lambda>m. gw_connected v (ms_guid m)) (m_memberSlots ?L)")
      case None
      obtain m where "m \<in> set (m_memberSlots ?L)" using ne by (metis list.set_sel(1))
      then have "ms_guid m \<in> members g - {p}" by (auto simp: members_def)
      from vl [OF this] have "links_ok (v\<lparr>groups := (groups w)(a \<mapsto> ?L\<lparr>m_leaderGuid := ms_guid m\<rparr>)\<rparr>)" .
      moreover have "next_leader env a p (add_fx fx v) = Some (add_fx fx v)" using True None gv by (simp add: next_leader_def)
      moreover have "rest = []" using fo None by simp
      ultimately show ?thesis using gv idv pv
        by (intro exI [of _ "add_fx fx v"] exI [of _ ?L] exI [of _ "ms_guid m"]) (simp add: same_links_def)
    next
      case (Some m)
      then have m: "m \<in> set (m_memberSlots ?L)" "gw_connected v (ms_guid m)" "rest \<noteq> []" "hd rest = ms_guid m" using fo by auto
      then have q: "ms_guid m \<in> members g - {p}" "ms_guid m \<in> members ?L" by (auto simp: members_def)
      have lx: "links_ok ((add_fx fx v)\<lparr>groups := (groups (add_fx fx v))(a \<mapsto> ?L\<lparr>m_leaderGuid := ms_guid m\<rparr>)\<rparr>)" using vl [OF q(1)] gv by simp
      obtain v' n where v': "ChangeLeader env a (ms_guid m) (add_fx fx v) = Some v'" "links_ok v'" "groups v' = (groups v)(a \<mapsto> led_by (ms_guid m) n ?L)"
          "ids_ok v \<longrightarrow> ids_ok v'" "\<forall>q. players v' q = None \<longleftrightarrow> players v q = None"
        using ChangeLeader_runs [OF lx _ q(2), of env] gv(1) m(2) by (simp) blast
      have "next_leader env a p (add_fx fx v) = Some v'" using True Some gv v'(1) by (simp add: next_leader_def)
      moreover have "links_ok (v'\<lparr>groups := (groups w)(a \<mapsto> (led_by (ms_guid m) n ?L)\<lparr>m_leaderGuid := ms_guid m\<rparr>)\<rparr>)"
        using v'(2,3) gv by (simp add: same_leader same_groups)
      ultimately show ?thesis using v' idv pv gv led_by_same [of ?L "ms_guid m" n] m True
        by (intro exI [of _ v'] exI [of _ "led_by (ms_guid m) n ?L"] exI [of _ "ms_guid m"]) simp
    qed
  qed
qed

section \<open>Removing a member\<close>

lemma disband_keeps:
  assumes ok: "gw_ok w" and w1: "ids_ok w1" "groups w1 a = Some g" "m_memberSlots g \<noteq> []"
    "links_ok (w1\<lparr>groups := (groups w1)(a \<mapsto> g\<lparr>m_leaderGuid := l\<rparr>)\<rparr>)" and others: "\<And>b. b \<noteq> a \<Longrightarrow> groups w1 b = groups w b"
  shows "\<exists>w'. Disband env hide a w1 = Some w' \<and> gw_ok w' \<and> groups w' = (groups w1)(a := None) \<and> (\<forall>q. players w' q = None \<longleftrightarrow> players w1 q = None)"
proof -
  obtain w' where w': "Disband env hide a w1 = Some w'" "links_ok w'" "ids_ok w'" "groups w' = (groups w1)(a := None)" "players w' = disbanded g w1"
    using Disband_runs [OF w1(4,1,2,3), of env hide] by blast
  have "gw_ok w'" by (rule gw_ok_upd [OF ok w'(2,3)]) (use w'(4) others in \<open>auto split: if_splits\<close>)
  then show ?thesis using w' by (auto simp: disbanded_def unlinked_def)
qed

text \<open>
  The group goes on if two of the others are online; if the leader left, the first of them leads.
\<close>

lemma RemoveMember_runs:
  assumes ok: "gw_ok w" and g: "groups w a = Some g" and p: "p \<in> members g"
  defines "rest \<equiv> filter (\<lambda>m. ms_guid m \<noteq> p) (m_memberSlots g)"
  shows "\<exists>r w'. RemoveMember env a p kicked w = Some (r, w') \<and> gw_ok w' \<and> (\<forall>q. players w' q = None \<longleftrightarrow> players w q = None) \<and>
     (if length rest < 2 \<or> length (online w rest) < 2 then groups w' a = None
      else \<exists>h. groups w' a = Some h \<and> map ms_guid (m_memberSlots h) = map ms_guid rest \<and> isRaidGroup h = isRaidGroup g \<and>
             m_leaderGuid h = (if m_leaderGuid g = p then hd (online w rest) else m_leaderGuid g))"
proof -
  note links = gw_okD(1) [OF ok] and ids = gw_okD(2) [OF ok]
  have gok: "m_bgGroup g = None" "distinct (map ms_guid (m_memberSlots g))" "counts_exact g"
    using links_okD(1) [OF links g] by (simp_all add: group_ok_def)
  obtain m0 where m0: "m0 \<in> set (m_memberSlots g)" "ms_guid m0 = p" using p by (auto simp: members_def)
  have len: "Suc (length rest) = length (m_memberSlots g)" using in_sub_erase(3) [OF gok(2) m0] by (simp add: rest_def)
  show ?thesis
  proof (cases "length (m_memberSlots g) > 2")
    case False
    obtain f1 where 1: "BroadcastGroupUpdate a w = Some (add_fx f1 w)" using BroadcastGroupUpdate_fx [OF g] by blast
    obtain f2 where 2: "remove_buffs p (m_memberMgr g) (add_fx f1 w) = add_fx f2 w"
      using remove_buffs_fx [of p "m_memberMgr g" "add_fx f1 w"] by auto
    let ?w = "add_fx (if gw_connected w p then f2 else f1) w"
    have lw: "links_ok (?w\<lparr>groups := (groups ?w)(a \<mapsto> g\<lparr>m_leaderGuid := m_leaderGuid g\<rparr>)\<rparr>)"
      using links g by (simp add: same_leader fun_upd_idem)
    have ne: "m_memberSlots g \<noteq> []" using m0(1) by auto
    obtain w' where w': "Disband env False a ?w = Some w'" "gw_ok w'" "groups w' = (groups ?w)(a := None)" "\<forall>q. players w' q = None \<longleftrightarrow> players ?w q = None"
      using disband_keeps [OF ok _ _ ne lw, of env False] ids g by auto
    have "RemoveMember env a p kicked w = Some (False, w')"
      using g gok(1) False 1 2 w'(1) by (cases "gw_connected w p") (simp_all add: RemoveMember_def isBGGroup_def GetMembersCount_def Let_def)
    then show ?thesis using w' len False by auto
  next
    case True
    obtain f0 where f0: "RemoveMember env a p kicked w = do {
       w \<leftarrow> take_out env a p kicked (add_fx f0 w);
       w \<leftarrow> next_leader env a p w;
       w \<leftarrow> SendUpdate a w;
       g \<leftarrow> groups w a;
       w \<leftarrow> (if length (m_memberMgr g) < (if isBGGroup g then 1 else 2) then Disband env False a w else Some w);
       Some (True, w) }"
      using RemoveMember_large [OF g gok(1) True, of env p kicked] by blast
    obtain fx cs where t: "take_out env a p kicked (add_fx f0 w) = Some (add_fx fx (w\<lparr>groups := (groups w)(a \<mapsto> left_group p cs g), players := unref p w\<rparr>))"
        "counts_exact (left_group p cs g)"
      using take_out_runs [OF links g p] by blast
    let ?L = "left_group p cs g"
    have L: "m_memberSlots ?L = rest" by (simp add: rest_def)
    obtain v' h l where n: "next_leader env a p (add_fx fx (w\<lparr>groups := (groups w)(a \<mapsto> ?L), players := unref p w\<rparr>)) = Some v'"
        "groups v' = (groups w)(a \<mapsto> h)" "same_links ?L h" "isRaidGroup h = isRaidGroup g"
        "links_ok (v'\<lparr>groups := (groups w)(a \<mapsto> h\<lparr>m_leaderGuid := l\<rparr>)\<rparr>)" "ids_ok v'"
        "online w rest \<noteq> [] \<longrightarrow> l = m_leaderGuid h \<and> l = (if m_leaderGuid g = p then hd (online w rest) else m_leaderGuid g)"
        "\<forall>q. players v' q = None \<longleftrightarrow> players w q = None"
      using next_leader_runs [OF links ids g p t(2) True, of env fx] unfolding L by blast
    have same: "map ms_guid (m_memberSlots h) = map ms_guid rest" "m_memberMgr h = m_memberMgr ?L"
      using same_links_slots(4) [OF n(3)] n(3) L by (simp_all add: same_links_def)
    have hne: "m_memberSlots h \<noteq> []" using same_links_slots(2) [OF n(3)] L len True by auto
    obtain f4 where f4: "SendUpdate a v' = Some (add_fx f4 v')" using SendUpdate_fx [of v' a h] n(2) by auto
    let ?v = "v'\<lparr>groups := (groups w)(a \<mapsto> h\<lparr>m_leaderGuid := l\<rparr>)\<rparr>"
    have gv: "groups ?v a = Some (h\<lparr>m_leaderGuid := l\<rparr>)" by simp
    have on: "online ?v ms = online w ms" for ms using n(8) by (simp add: online_def)
    have "online w (m_memberSlots h) = online w rest" unfolding online_def same(1) by (rule refl)
    then have refs: "length (m_memberMgr h) = length (online w rest)" using refs_count [OF n(5) gv] on by simp
    have bg: "m_bgGroup h = None" using links_okD(1) [OF n(5) gv] by (simp add: group_ok_def)
    show ?thesis
    proof (cases "length (online w rest) < 2")
      case small: True
      have lw: "links_ok ((add_fx f4 v')\<lparr>groups := (groups (add_fx f4 v'))(a \<mapsto> h\<lparr>m_leaderGuid := l\<rparr>)\<rparr>)" using n(2,5) by simp
      obtain w' where w': "Disband env False a (add_fx f4 v') = Some w'" "gw_ok w'" "groups w' = (groups (add_fx f4 v'))(a := None)"
          "\<forall>q. players w' q = None \<longleftrightarrow> players (add_fx f4 v') q = None"
        using disband_keeps [OF ok _ _ hne lw, of env False] n(2,6) by auto
      have "RemoveMember env a p kicked w = Some (True, w')"
        using f0 t(1) n(1,2) f4 refs small w'(1) bg by (simp add: isBGGroup_def)
      then show ?thesis using w' n(8) small by auto
    next
      case False
      have lead: "l = m_leaderGuid h" "l = (if m_leaderGuid g = p then hd (online w rest) else m_leaderGuid g)" using n(7) False by auto
      have lk: "links_ok v'" using n(5) lead(1) n(2) by (simp add: same_leader same_groups)
      have "sizes_ok h" using sizes_ok_same [OF n(3)] n(4) left_sizes [OF gw_okD(3) [OF ok g] True gok(2) p] by simp
      moreover have "founder_ok h" using hne by (simp add: founder_ok_def)
      ultimately have "gw_ok v'" by (intro gw_ok_upd [OF ok lk n(6)]) (use n(2) in \<open>auto split: if_splits\<close>)
      moreover have "RemoveMember env a p kicked w = Some (True, add_fx f4 v')"
        using f0 t(1) n(1,2) f4 refs False bg by (simp add: isBGGroup_def)
      ultimately show ?thesis using n(2,4,8) same(1) lead False len True by auto
    qed
  qed
qed

end
