(* ===== verification/GroupCalls.thy ===== *)
theory GroupCalls
  imports GroupRemoves
begin

text \<open>The calls of clients keep the invariant and return.\<close>

section \<open>Calls that set fields of a group\<close>

lemma cosmetic_keeps:
  assumes ok: "gw_ok w" and g: "groups w a = Some g" and created: "m_memberSlots g \<noteq> []" and same: "same_links g h"
    and h: "isRaidGroup h = isRaidGroup g" "m_subGroupsCounts h = m_subGroupsCounts g" "m_bgGroup h = m_bgGroup g"
      "length (m_targetIcons h) = TARGETICONCOUNT" "rolls_ok (m_RollId h)" "m_leaderGuid h = m_leaderGuid g"
  shows "gw_ok (w\<lparr>groups := (groups w)(a \<mapsto> h)\<rparr>)"
proof -
  note links = gw_okD(1) [OF ok]
  have gok: "group_ok g" by (rule links_okD(1) [OF links g])
  then have "group_ok h" by (rule group_ok_same [OF _ same h(1-5)]) (use gok h(6) in \<open>simp add: group_ok_def\<close>)
  note k = keeps_cosmetic [OF links g same this]
  have "sizes_ok h" using sizes_ok_same [OF same h(1)] gw_okD(3) [OF ok g] by simp
  moreover have "founder_ok h" using created same_links_slots(2) [OF same] by (simp add: founder_ok_def)
  ultimately show ?thesis
    by (intro gw_ok_upd [OF ok k(1) k(2) [OF gw_okD(2) [OF ok]]]) (auto split: if_splits)
qed

definition handled_ok :: "handled \<Rightarrow> bool" where
  "handled_ok r = (case r of Some (Inl e) \<Rightarrow> True | Some (Inr w) \<Rightarrow> gw_ok w | None \<Rightarrow> False)"

lemma handled_okI: "\<exists>w'. x = Some w' \<and> gw_ok w' \<Longrightarrow> handled_ok (map_option Inr x)"
  by (auto simp: handled_ok_def)

lemma handled_ok_Inr [simp]: "handled_ok (Some (Inr w)) = gw_ok w" and handled_ok_Inl [simp]: "handled_ok (Some (Inl e))"
  by (simp_all add: handled_ok_def)

lemma reading_ok: "(\<And>x. \<exists>w'. k x = Some w' \<and> gw_ok w') \<Longrightarrow> handled_ok (reading rd d k)"
  by (auto simp: reading_def handled_okI split: sum.splits)

lemma in_group_ok:
  assumes ok: "gw_ok w" and me: "players w me = Some pl"
    and k: "\<And>a g. gp_m_group pl = Some a \<Longrightarrow> groups w a = Some g \<Longrightarrow> m_memberSlots g \<noteq> [] \<Longrightarrow> handled_ok (k a g)"
  shows "handled_ok (in_group me w k)"
proof (cases "gp_m_group pl")
  case None
  then show ?thesis using ok me by (simp add: in_group_def)
next
  case (Some a)
  obtain g where "groups w a = Some g" "m_memberSlots g \<noteq> []" by (rule linked_group [OF gw_okD(1) [OF ok] me Some])
  then show ?thesis using k [OF Some] me Some by (simp add: in_group_def)
qed

lemma broadcast_keeps: "gw_ok w \<Longrightarrow> groups w a = Some g \<Longrightarrow> \<exists>w'. BroadcastPacket d ign only skip a w = Some w' \<and> gw_ok w'"
  using BroadcastPacket_fx [of w a g d ign only skip] by auto

lemma send_update_keeps: "gw_ok w \<Longrightarrow> groups w a = Some g \<Longrightarrow> \<exists>w'. SendUpdate a w = Some w' \<and> gw_ok w'"
  using SendUpdate_fx [of w a g] by auto

lemma result_keeps [simp]: "gw_ok (SendPartyResult me op n r w) = gw_ok w"
  by (simp add: SendPartyResult_def effect_fx)

lemma SetLeader_ok:
  assumes ok: "gw_ok w" and me: "players w me = Some pl"
  shows "handled_ok (HandleGroupSetLeaderOpcode env me d w)"
  unfolding HandleGroupSetLeaderOpcode_def
proof (intro in_group_ok [OF ok me] reading_ok)
  fix a g p
  assume g: "groups w a = Some g" "m_memberSlots g \<noteq> []"
  note links = gw_okD(1) [OF ok]
  show "\<exists>w'. (if \<not> gw_connected w p \<or> \<not> IsLeader me g \<or> group_of w p \<noteq> Some a then Some w else ChangeLeader env a p w) = Some w' \<and> gw_ok w'"
  proof (cases "\<not> gw_connected w p \<or> \<not> IsLeader me g \<or> group_of w p \<noteq> Some a")
    case False
    then obtain ql where ql: "players w p = Some ql" "gp_m_group ql = Some a" by (auto simp: bind_eq_Some_conv)
    then have p: "p \<in> members g" using linked_group [OF links ql] g(1) by (metis option.inject)
    have lk: "links_ok (w\<lparr>groups := (groups w)(a \<mapsto> g\<lparr>m_leaderGuid := m_leaderGuid g\<rparr>)\<rparr>)" using links g(1) by (simp add: same_leader fun_upd_idem)
    obtain w' n where w': "ChangeLeader env a p w = Some w'" "links_ok w'" "groups w' = (groups w)(a \<mapsto> led_by p n g)" "ids_ok w \<longrightarrow> ids_ok w'"
      using ChangeLeader_runs [OF lk g(1) p, of env] False by blast
    have "sizes_ok (led_by p n g)" using sizes_ok_same [OF led_by_same] gw_okD(3) [OF ok g(1)] by simp
    moreover have "founder_ok (led_by p n g)" using g(2) same_links_slots(2) [OF led_by_same] by (simp add: founder_ok_def)
    ultimately have "gw_ok w'" by (intro gw_ok_upd [OF ok w'(2)]) (use w'(3,4) gw_okD(2) [OF ok] in \<open>auto split: if_splits\<close>)
    then show ?thesis using w'(1) False by auto
  qed (use ok in auto)
qed

lemma LootMethod_ok:
  assumes ok: "gw_ok w" and me: "players w me = Some pl"
  shows "handled_ok (HandleLootMethodOpcode me d w)"
  unfolding HandleLootMethodOpcode_def
proof (intro in_group_ok [OF ok me] reading_ok)
  fix a g and x :: "32 word \<times> guid \<times> 32 word"
  assume g: "groups w a = Some g" "m_memberSlots g \<noteq> []"
  obtain m l t where x: "x = (m, l, t)" by (cases x)
  let ?h = "g\<lparr>m_lootMethod := m, m_masterLooterGuid := l, m_lootThreshold := t\<rparr>"
  have "gw_ok (w\<lparr>groups := (groups w)(a \<mapsto> ?h)\<rparr>)"
    by (rule cosmetic_keeps [OF ok g]) (use links_okD(1) [OF gw_okD(1) [OF ok] g(1)] in \<open>simp_all add: same_links_def isRaidGroup_def group_ok_def\<close>)
  then have "\<exists>w'. SendUpdate a (w\<lparr>groups := (groups w)(a \<mapsto> ?h)\<rparr>) = Some w' \<and> gw_ok w'" by (rule send_update_keeps) simp
  then show "\<exists>w'. (case x of (m, l, t) \<Rightarrow> if \<not> IsLeader me g then Some w
      else do { w \<leftarrow> on_group a (\<lambda>g. g\<lparr>m_lootMethod := m, m_masterLooterGuid := l, m_lootThreshold := t\<rparr>) w; SendUpdate a w }) = Some w' \<and> gw_ok w'"
    using ok g(1) x by (simp add: on_group_Some)
qed

lemma MinimapPing_ok: "gw_ok w \<Longrightarrow> players w me = Some pl \<Longrightarrow> handled_ok (HandleMinimapPingOpcode me d w)"
  unfolding HandleMinimapPingOpcode_def
  by (rule in_group_ok, assumption, assumption, rule reading_ok) (auto simp: split_beta intro: broadcast_keeps)

lemma gw_draws_ok [simp]: "gw_ok (w\<lparr>gw_draws := n\<rparr>) = gw_ok w"
proof -
  have "links_ok (w\<lparr>gw_draws := n\<rparr>) = links_ok w" by (rule links_cong) simp_all
  moreover have "ids_ok (w\<lparr>gw_draws := n\<rparr>) = ids_ok w" by (simp add: ids_ok_def GetGroupByDbStoreId_def)
  ultimately show ?thesis by (simp add: gw_ok_def)
qed

lemma RandomRoll_ok:
  assumes ok: "gw_ok w" and me: "players w me = Some pl"
  shows "handled_ok (HandleRandomRollOpcode env me d w)"
  unfolding HandleRandomRollOpcode_def
proof (rule reading_ok)
  fix x :: "32 word \<times> 32 word"
  have b: "\<exists>w'. BroadcastPacket p False None 0 a (w\<lparr>gw_draws := n\<rparr>) = Some w' \<and> gw_ok w'" if m: "gp_m_group pl = Some a" for a p n
  proof -
    obtain g where "groups w a = Some g" by (rule linked_group [OF gw_okD(1) [OF ok] me m])
    then show ?thesis using broadcast_keeps [of "w\<lparr>gw_draws := n\<rparr>" a g] ok by simp
  qed
  show "\<exists>w'. (case x of (minimum, maximum) \<Rightarrow>
       if minimum > maximum \<or> maximum > 10000 then Some w
       else do {
         let roll = le_urand (ge_loot env) (gw_draws w) minimum maximum;
         let w = w\<lparr>gw_draws := Suc (gw_draws w)\<rparr>;
         let data = put_u64 me (put_u32 roll (put_u32 maximum (put_u32 minimum (wp_new MSG_RANDOM_ROLL))));
         pl \<leftarrow> players w me;
         (case gp_m_group pl of None \<Rightarrow> Some (gw_send me data w) | Some a \<Rightarrow> BroadcastPacket data False None 0 a w)
       }) = Some w' \<and> gw_ok w'"
    using ok me b by (cases x; cases "gp_m_group pl") (simp_all add: Let_def effect_fx)
qed

section \<open>Votes in a loot roll\<close>

definition rolls_of :: "group \<Rightarrow> group_world \<Rightarrow> roll_state" where
  "rolls_of g w = \<lparr>RollId = m_RollId g, loots = gw_loots w, rs_draws = gw_draws w, rs_items = gw_items w, loot_fx = loot_history w\<rparr>"

text \<open>
  A vote in a roll that is open: the player has not voted in it yet (see \<open>second_vote_ends_roll\<close>)
  and the item is still in its loot. A player who is not in the roll, or a roll that is not there,
  is no matter.
\<close>

definition first_vote :: "guid \<Rightarrow> guid \<Rightarrow> roll_state \<Rightarrow> bool" where
  "first_vote p i s \<longleftrightarrow> (\<forall>r \<in> set (RollId s). itemGUID r = i \<and> roll_isValid r \<and> smap_find (playerVote r) p \<noteq> None \<longrightarrow>
     smap_find (playerVote r) p = Some NOT_EMITED_YET \<and> item_of_roll r s \<noteq> None)"

lemma rolls_ok_step:
  assumes "rolls_ok rs" and "i < length rs"
  shows "itemGUID v = itemGUID (rs ! i) \<Longrightarrow> counts_ok v \<Longrightarrow> rolls_ok (rs[i := v])"
    and "rolls_ok (take i rs @ drop (Suc i) rs)"
proof -
  show "rolls_ok (rs[i := v])" if "itemGUID v = itemGUID (rs ! i)" "counts_ok v"
  proof -
    have "map itemGUID (rs[i := v]) = map itemGUID rs"
      using that(1) assms(2) by (simp add: map_update list_update_same_conv)
    then show ?thesis using assms(1) that(2) set_update_subset_insert [of rs i v] by (auto simp: rolls_ok_def)
  qed
  have "rs = take i rs @ rs ! i # drop (Suc i) rs" using assms(2) by (rule id_take_nth_drop)
  then obtain xs ys where rs: "rs = xs @ rs ! i # ys" "take i rs = xs" "drop (Suc i) rs = ys" by metis
  have "rolls_ok (xs @ rs ! i # ys)" using assms(1) rs(1) by metis
  then show "rolls_ok (take i rs @ drop (Suc i) rs)" unfolding rs(2,3) by (auto simp: rolls_ok_def)
qed

lemma vote_keeps:
  assumes "rolls_ok (RollId s)" and "first_vote p k s" and "choice < MAX_ROLL_TYPE"
  shows "\<exists>s'. CountRollVote env p k choice s = Some s' \<and> rolls_ok (RollId s')"
proof (cases "GetRoll k s")
  case None
  then show ?thesis using assms(1) by (simp add: CountRollVote_def)
next
  case (Some i)
  define r where "r = RollId s ! i"
  have i: "i < length (RollId s)" "itemGUID r = k" "roll_isValid r"
    using find_index_Some [OF Some [unfolded GetRoll_def]] by (simp_all add: r_def)
  have r: "r \<in> set (RollId s)" "counts_ok r" using assms(1) i(1) by (auto simp: r_def rolls_ok_def)
  show ?thesis
  proof (cases "smap_find (playerVote r) p")
    case None
    then show ?thesis using assms(1) Some by (simp add: CountRollVote_def r_def)
  next
    case (Some v)
    then have v: "smap_find (playerVote r) p = Some NOT_EMITED_YET" and "item_of_roll r s \<noteq> None"
      using assms(2) i(2,3) r(1) unfolding first_vote_def by (metis option.distinct(1))+
    then obtain li a l where li: "item_of_roll r s = Some li" "roll_loot r = Some a" "loots s a = Some l"
      by (auto simp: item_of_roll_def bind_eq_Some_conv)
    show ?thesis
    proof (cases "loot_items l = []")
      case True
      then show ?thesis using assms(1) \<open>GetRoll k s = Some i\<close> v li by (simp add: CountRollVote_def r_def)
    next
      case False
      from vote_runs [OF \<open>GetRoll k s = Some i\<close> r_def r(2) li False v assms(3), of env] obtain s' where
        s': "CountRollVote env p k choice s = Some s'"
          "if votes_of NOT_EMITED_YET r = 1 then RollId s' = take i (RollId s) @ drop (Suc i) (RollId s)
           else RollId s' = (RollId s)[i := voted p (choice_vote choice) r] \<and> counts_ok (voted p (choice_vote choice) r)"
        by blast
      have "itemGUID (voted p (choice_vote choice) r) = itemGUID (RollId s ! i)" by (simp add: voted_def r_def)
      then have "rolls_ok (RollId s')" using s'(2) rolls_ok_step [OF assms(1) i(1)] by (auto split: if_splits)
      then show ?thesis using s'(1) by blast
    qed
  qed
qed

text \<open>The packet of the vote, as the handler reads it.\<close>

definition vote_packet :: "world_packet \<Rightarrow> bb_error + (guid \<times> u8)" where
  "vote_packet d = fst (andThen shr_guid (\<lambda>i. andThen shr_u32 (\<lambda>_. andThen shr_u8 (\<lambda>t. ret (i, t)))) d)"

definition vote_allowed :: "guid \<Rightarrow> world_packet \<Rightarrow> group_world \<Rightarrow> bool" where
  "vote_allowed me d w \<longleftrightarrow> (case players w me of None \<Rightarrow> False | Some pl \<Rightarrow>
     (case (Option.bind (gp_m_group pl) (groups w), vote_packet d) of
        (Some g, Inr (i, t)) \<Rightarrow> first_vote me i (rolls_of g w) | _ \<Rightarrow> True))"

lemma gw_rolls_ok [simp]: "gw_ok (w\<lparr>gw_loots := l, gw_draws := n, gw_items := x, gw_fx := fx\<rparr>) = gw_ok w"
proof -
  have "links_ok (w\<lparr>gw_loots := l, gw_draws := n, gw_items := x, gw_fx := fx\<rparr>) = links_ok w" by (rule links_cong) simp_all
  moreover have "ids_ok (w\<lparr>gw_loots := l, gw_draws := n, gw_items := x, gw_fx := fx\<rparr>) = ids_ok w"
    by (simp add: ids_ok_def GetGroupByDbStoreId_def)
  ultimately show ?thesis by (simp add: gw_ok_def)
qed

lemma LootRoll_ok:
  assumes ok: "gw_ok w" and v: "vote_allowed me d w"
  shows "handled_ok (HandleLootRoll env me d w)"
proof -
  obtain pl where me: "players w me = Some pl" using v by (auto simp: vote_allowed_def split: option.splits)
  have vote: "\<exists>w'. with_rolls a (CountRollVote e me i t) w = Some w' \<and> gw_ok w'"
    if "gp_m_group pl = Some a" "groups w a = Some g" "m_memberSlots g \<noteq> []" "vote_packet d = Inr (i, t)" "t < MAX_ROLL_TYPE" for a g i t e
  proof -
    note g = that(2,3)
    have gok: "group_ok g" by (rule links_okD(1) [OF gw_okD(1) [OF ok] g(1)])
    have "first_vote me i (rolls_of g w)" using v me that by (simp add: vote_allowed_def)
    moreover have "rolls_ok (RollId (rolls_of g w))" using gok by (simp add: group_ok_def rolls_of_def)
    moreover have "t < MAX_ROLL_TYPE" by (rule that(5))
    ultimately have "\<exists>s'. CountRollVote e me i t (rolls_of g w) = Some s' \<and> rolls_ok (RollId s')" by (intro vote_keeps)
    then obtain s' where s': "CountRollVote e me i t (rolls_of g w) = Some s'" "rolls_ok (RollId s')" by blast
    have "gw_ok (w\<lparr>groups := (groups w)(a \<mapsto> g\<lparr>m_RollId := RollId s'\<rparr>)\<rparr>)"
      by (rule cosmetic_keeps [OF ok g]) (use gok s'(2) in \<open>simp_all add: same_links_def isRaidGroup_def group_ok_def\<close>)
    then show ?thesis using g(1) s'(1) by (simp add: with_rolls_def rolls_of_def)
  qed
  show ?thesis
    unfolding HandleLootRoll_def
  proof (intro in_group_ok [OF ok me])
    fix a g assume g: "gp_m_group pl = Some a" "groups w a = Some g" "m_memberSlots g \<noteq> []"
    show "handled_ok (reading (andThen shr_guid (\<lambda>i. andThen shr_u32 (\<lambda>_. andThen shr_u8 (\<lambda>t. ret (i, t))))) d (\<lambda>(i, t).
         if t \<ge> MAX_ROLL_TYPE then Some w else with_rolls a (CountRollVote (loot_env_of env w) me i t) w))"
      using ok vote [OF g] unfolding reading_def vote_packet_def
      by (auto split: sum.split intro: handled_okI simp: not_le)
  qed
qed

end
