(* ===== verification/GroupSubgroups.thy ===== *)
theory GroupSubgroups
  imports GroupCalls
begin

text \<open>The subgroups of a raid: moving a member and swapping two.\<close>

section \<open>Moving a member to another subgroup\<close>

lemma on_slot_at: "p \<notin> ms_guid ` set xs \<Longrightarrow> ms_guid m = p \<Longrightarrow> on_slot p f (xs @ m # ys) = xs @ f m # ys"
  by (induction xs) auto

lemma slot_at:
  assumes "distinct (map ms_guid ms)" and "m \<in> set ms"
  obtains xs ys where "ms = xs @ m # ys" "ms_guid m \<notin> ms_guid ` set xs" "ms_guid m \<notin> ms_guid ` set ys"
  using assms by (auto simp: in_set_conv_decomp)

definition moved :: "guid \<Rightarrow> u8 \<Rightarrow> u8 list option \<Rightarrow> group \<Rightarrow> group" where
  "moved p i cs g = g\<lparr>m_memberSlots := on_slot p (ms_group_update (\<lambda>_. i)) (m_memberSlots g), m_subGroupsCounts := cs\<rparr>"

definition resub :: "guid \<Rightarrow> u8 \<Rightarrow> group_world \<Rightarrow> guid \<Rightarrow> gplayer option" where
  "resub p i w q = (if q = p then map_option (gp_subGroup_update (\<lambda>_. i)) (players w q) else players w q)"

lemma resub_same: "Option.bind (resub p i w q) gp_m_group = group_of w q" "Option.bind (resub p i w q) gp_invite = invite_of w q"
  by (simp_all add: resub_def)

lemma on_slot_group:
  assumes "distinct (map ms_guid ms)" and "m \<in> set ms" and "ms_guid m = p"
  shows "map ms_guid (on_slot p (ms_group_update (\<lambda>_. i)) ms) = map ms_guid ms"
    and "length (on_slot p (ms_group_update (\<lambda>_. i)) ms) = length ms"
    and "set (on_slot p (ms_group_update (\<lambda>_. i)) ms) = insert (m\<lparr>ms_group := i\<rparr>) (set ms - {m})"
    and "in_sub j (on_slot p (ms_group_update (\<lambda>_. i)) ms) =
         in_sub j ms - (if unat (ms_group m) = j then 1 else 0) + (if unat i = j then 1 else 0)"
    and "unat (ms_group m) = j \<Longrightarrow> 0 < in_sub j ms"
proof -
  obtain xs ys where ms: "ms = xs @ m # ys" "p \<notin> ms_guid ` set xs" "p \<notin> ms_guid ` set ys" using slot_at [OF assms(1,2)] assms(3) by blast
  have at: "on_slot p (ms_group_update (\<lambda>_. i)) ms = xs @ m\<lparr>ms_group := i\<rparr> # ys" unfolding ms(1) by (rule on_slot_at [OF ms(2) assms(3)])
  show "map ms_guid (on_slot p (ms_group_update (\<lambda>_. i)) ms) = map ms_guid ms" "length (on_slot p (ms_group_update (\<lambda>_. i)) ms) = length ms"
    unfolding at using ms(1) by simp_all
  show "in_sub j (on_slot p (ms_group_update (\<lambda>_. i)) ms) = in_sub j ms - (if unat (ms_group m) = j then 1 else 0) + (if unat i = j then 1 else 0)"
    "unat (ms_group m) = j \<Longrightarrow> 0 < in_sub j ms"
    unfolding at using ms(1) by (auto simp: in_sub_def)
  have "m \<notin> set xs" "m \<notin> set ys" using ms(2,3) assms(3) by auto
  then show "set (on_slot p (ms_group_update (\<lambda>_. i)) ms) = insert (m\<lparr>ms_group := i\<rparr>) (set ms - {m})"
    unfolding at using ms(1) by auto
qed

lemma moved_counts:
  assumes counts: "counts_exact g" and raid: "isRaidGroup g" and dist: "distinct (map ms_guid (m_memberSlots g))"
    and m: "m \<in> set (m_memberSlots g)" "ms_guid m = p" and i: "unat i < MAX_RAID_SUBGROUPS" "in_sub (unat i) (m_memberSlots g) < 255" "i \<noteq> ms_group m"
  shows "\<exists>cs0 c1 cs. m_subGroupsCounts g = Some cs0 \<and> count_up i cs0 = Some c1 \<and> count_down (ms_group m) c1 = Some cs \<and> counts_exact (moved p i (Some cs) g)"
proof -
  obtain cs where cs: "m_subGroupsCounts g = Some cs" using counts raid by (cases "m_subGroupsCounts g") (auto simp: counts_exact_def)
  note sl = on_slot_group [OF dist m]
  have len: "length cs = 8" and low: "unat (ms_group m) < 8" "unat i < 8" and old: "\<And>j. j < 8 \<Longrightarrow> unat (cs ! j) = in_sub j (m_memberSlots g)"
    using counts cs m(1) i(1) by (auto simp: counts_exact_def MAX_RAID_SUBGROUPS_def)
  let ?c1 = "cs[unat i := cs ! unat i + 1]"
  let ?cs = "?c1[unat (ms_group m) := ?c1 ! unat (ms_group m) - 1]"
  have ne: "unat i \<noteq> unat (ms_group m)" using i(3) by (metis word_unat_eq_iff)
  have "unat (cs ! unat i) < 255" using old [OF low(2)] i(2) by simp
  then have up: "unat (cs ! unat i + 1) = Suc (unat (cs ! unat i))" by (simp add: unat_word_ariths)
  have "0 < unat (cs ! unat (ms_group m))" using old [OF low(1)] sl(5) [of "unat (ms_group m)"] by simp
  then have down: "unat (cs ! unat (ms_group m) - 1) = unat (cs ! unat (ms_group m)) - 1" by (intro unat_minus_one) auto
  have "unat (?cs ! j) = in_sub j (on_slot p (ms_group_update (\<lambda>_. i)) (m_memberSlots g))" if "j < 8" for j
    using old [OF that] up down that len low ne sl(4) [of j i] by (auto simp: nth_list_update)
  moreover have "\<forall>n \<in> set (on_slot p (ms_group_update (\<lambda>_. i)) (m_memberSlots g)). unat (ms_group n) < 8"
    using counts cs low sl(3) [of i] by (auto simp: counts_exact_def MAX_RAID_SUBGROUPS_def)
  ultimately have "counts_exact (moved p i (Some ?cs) g)" using raid len by (simp add: counts_exact_def moved_def MAX_RAID_SUBGROUPS_def)
  then show ?thesis using cs len low by (auto simp: count_up_def count_down_def)
qed

lemma keeps_move:
  assumes ok: "links_ok w" and g: "groups w a = Some g" and raid: "isRaidGroup g"
    and m: "m \<in> set (m_memberSlots g)" "ms_guid m = p" and counts: "counts_exact (moved p i cs g)"
  shows "links_ok (w\<lparr>groups := (groups w)(a \<mapsto> moved p i cs g), players := resub p i w\<rparr>)" (is "links_ok ?w")
proof (rule links_okI)
  have gok: "group_ok g" by (rule links_okD(1) [OF ok g])
  then have dist: "distinct (map ms_guid (m_memberSlots g))" by (simp add: group_ok_def)
  note sl = on_slot_group [OF dist m]
  have mem: "members (moved p i cs g) = members g" using arg_cong [OF sl(1) [of i], of set] by (simp add: members_def moved_def)
  have hok: "group_ok (moved p i cs g)"
  proof -
    have "distinct (map ms_guid (m_memberSlots (moved p i cs g)))" using dist by (simp add: moved_def sl(1))
    moreover have "m_memberSlots g \<noteq> []" using m(1) by auto
    moreover have "m_bgGroup (moved p i cs g) = m_bgGroup g" "m_memberMgr (moved p i cs g) = m_memberMgr g" "m_invitees (moved p i cs g) = m_invitees g"
      "m_targetIcons (moved p i cs g) = m_targetIcons g" "m_RollId (moved p i cs g) = m_RollId g" "m_leaderGuid (moved p i cs g) = m_leaderGuid g"
      by (simp_all add: moved_def)
    ultimately show ?thesis using gok counts mem by (simp add: group_ok_def)
  qed
  have same: "group_of ?w q = group_of w q" "invite_of ?w q = invite_of w q" for q
    by (simp_all add: resub_same)
  { fix b k
    assume k: "groups ?w b = Some k"
    then obtain k0 where k0: "groups w b = Some k0" "m_memberMgr k = m_memberMgr k0" "m_invitees k = m_invitees k0" "b \<noteq> a \<Longrightarrow> k = k0"
      using g by (auto simp: moved_def split: if_splits)
    show "group_ok k \<and> refs_ok ?w b k \<and> invitees_ok ?w b k"
      using k hok links_okD(1-3) [OF ok k0(1)] k0 same g
      by (cases "b = a") (auto simp: refs_ok_def invitees_ok_def)
  next
    fix q ql
    assume q: "players ?w q = Some ql"
    show "player_ok ?w q ql \<and> gp_connected ql"
    proof (cases "q = p")
      case False
      then have ql: "players w q = Some ql" using q by (simp add: resub_def)
      have "(\<exists>n \<in> set (m_memberSlots (moved p i cs g)). ms_guid n = q \<and> ms_group n = s) = (\<exists>n \<in> set (m_memberSlots g). ms_guid n = q \<and> ms_group n = s)" for s
        using False m(2) sl(3) [of i] by (auto simp: moved_def)
      moreover have "m_memberMgr (moved p i cs g) = m_memberMgr g" "m_invitees (moved p i cs g) = m_invitees g" by (simp_all add: moved_def)
      ultimately show ?thesis using links_okD(4,5) [OF ok ql] g mem by (auto simp: player_ok_def split: option.splits)
    next
      case True
      then obtain q0 where q0: "players w p = Some q0" "ql = q0\<lparr>gp_subGroup := i\<rparr>" using q by (auto simp: resub_def)
      have "p \<in> members g" using m by (auto simp: members_def)
      then have la: "gp_m_group q0 = Some a" by (rule member_linked [OF ok g _ q0(1)])
      have "m\<lparr>ms_group := i\<rparr> \<in> set (m_memberSlots (moved p i cs g))" using sl(3) [of i] by (simp add: moved_def)
      then show ?thesis using links_okD(4,5) [OF ok q0(1)] q0(2) la g True m(2)
        by (auto simp: player_ok_def moved_def intro!: bexI [of _ "m\<lparr>ms_group := i\<rparr>"])
    qed
  next
    fix b c k n q
    assume "groups ?w b = Some k" "groups ?w c = Some n" "q \<in> members k" "q \<in> members n"
    then show "b = c" using links_okD(6) [OF ok] g mem by (auto split: if_splits)
  }
qed

section \<open>The calls that move\<close>

lemma resub_fx [simp]: "resub p i (add_fx fx w) = resub p i w"
  by (simp add: resub_def fun_eq_iff)

lemma getMemberSlot_in: "getMemberSlot p g = Some m \<Longrightarrow> m \<in> set (m_memberSlots g) \<and> ms_guid m = p"
  by (auto simp: getMemberSlot_def find_Some_iff)

lemma ChangeMembersGroup_runs:
  assumes links: "links_ok w" and g: "groups w a = Some g" and raid: "isRaidGroup g" and m: "getMemberSlot p g = Some m"
    and i: "unat i < MAX_RAID_SUBGROUPS" "in_sub (unat i) (m_memberSlots g) < 255" "i \<noteq> ms_group m"
  shows "\<exists>fx cs. ChangeMembersGroup a p i w = Some (add_fx fx (w\<lparr>groups := (groups w)(a \<mapsto> moved p i cs g), players := resub p i w\<rparr>)) \<and>
     links_ok (w\<lparr>groups := (groups w)(a \<mapsto> moved p i cs g), players := resub p i w\<rparr>)"
proof -
  note mm = getMemberSlot_in [OF m]
  have gok: "counts_exact g" "distinct (map ms_guid (m_memberSlots g))" "m_bgGroup g = None"
    using links_okD(1) [OF links g] by (simp_all add: group_ok_def)
  obtain cs0 c1 cs where c: "m_subGroupsCounts g = Some cs0" "count_up i cs0 = Some c1" "count_down (ms_group m) c1 = Some cs"
      "counts_exact (moved p i (Some cs) g)"
    using moved_counts [OF gok(1) raid gok(2) _ _ i] mm by blast
  let ?h = "moved p i (Some cs) g" and ?w = "w\<lparr>groups := (groups w)(a \<mapsto> moved p i (Some cs) g), players := resub p i w\<rparr>"
  have lk: "links_ok ?w" using keeps_move [OF links g raid _ _ c(4)] mm by blast
  let ?st = "[GroupSql (UpdateMemberSubgroup i (GetCounter p))]"
  let ?w1 = "add_fx ?st (w\<lparr>groups := (groups w)(a \<mapsto> ?h)\<rparr>)"
  have p: "(if gw_connected ?w1 p
      then (if Option.bind (players ?w1 p) gp_m_group = Some a then on_player p (gp_subGroup_update (\<lambda>_. i)) ?w1
            else on_player p (gp_originalSubGroup_update (\<lambda>_. i)) ?w1)
      else Some ?w1) = Some (add_fx ?st ?w)"
  proof (cases "players w p")
    case None
    then have "resub p i w = players w" by (auto simp: resub_def fun_eq_iff)
    then show ?thesis using None by (simp add: gw_connected_def)
  next
    case (Some pl)
    have "p \<in> members g" using mm by (auto simp: members_def)
    then have "gp_m_group pl = Some a" "gp_connected pl" using member_linked [OF links g _ Some] links_okD(5) [OF links Some] by auto
    moreover have "resub p i w = (players w)(p \<mapsto> pl\<lparr>gp_subGroup := i\<rparr>)" using Some by (auto simp: resub_def fun_eq_iff)
    ultimately show ?thesis using Some by (simp add: gw_connected_def on_player_def)
  qed
  have ga: "groups ?w a = Some ?h" by simp
  obtain fx where fx: "SendUpdate a (add_fx ?st ?w) = Some (add_fx fx ?w)" using SendUpdate_after [OF ga] by blast
  have "GetMemberGroup p g = ms_group m" using m by (simp add: GetMemberGroup_def)
  then have "ChangeMembersGroup a p i w = do {
      w \<leftarrow> (if gw_connected ?w1 p
        then (if Option.bind (players ?w1 p) gp_m_group = Some a then on_player p (gp_subGroup_update (\<lambda>_. i)) ?w1
              else on_player p (gp_originalSubGroup_update (\<lambda>_. i)) ?w1)
        else Some ?w1);
      SendUpdate a w }"
    using g raid m i(3) gok(3) c(1-3)
    by (simp add: ChangeMembersGroup_def on_group_def change_group_def SubGroupCounterIncrease_def SubGroupCounterDecrease_def isBGGroup_def
        effect_fx moved_def Let_def del: bind_if)
  then have "ChangeMembersGroup a p i w = Some (add_fx fx ?w)" unfolding p using fx by simp
  then show ?thesis using lk by blast
qed

lemma ChangeMembersGroup_same:
  "groups w a = Some g \<Longrightarrow> \<not> isRaidGroup g \<or> getMemberSlot p g = None \<or> GetMemberGroup p g = i \<Longrightarrow> ChangeMembersGroup a p i w = Some w"
  by (auto simp: ChangeMembersGroup_def)

lemma moved_simps [simp]:
  "isRaidGroup (moved p i cs g) = isRaidGroup g" "m_memberMgr (moved p i cs g) = m_memberMgr g" "m_guid (moved p i cs g) = m_guid g"
  "m_dbStoreId (moved p i cs g) = m_dbStoreId g"
  by (simp_all add: moved_def)

lemma moved_ids: "m_memberSlots g \<noteq> [] \<Longrightarrow> ids_of (moved p i cs g) = ids_of g"
  by (cases "m_memberSlots g") (simp_all add: ids_of_def moved_def)

lemma moved_created: "m_memberSlots g \<noteq> [] \<Longrightarrow> m_memberSlots (moved p i cs g) \<noteq> []"
  by (cases "m_memberSlots g") (simp_all add: moved_def)

text \<open>A move into a subgroup with a free place keeps the sizes.\<close>

lemma raid_small: "gw_ok w \<Longrightarrow> groups w a = Some g \<Longrightarrow> isRaidGroup g \<Longrightarrow> j < 8 \<Longrightarrow> in_sub j (m_memberSlots g) \<le> 5"
  using gw_okD(3) [of w a g] by (simp add: sizes_ok_def MAX_RAID_SUBGROUPS_def MAXGROUPSIZE_def)

lemma ChangeMembersGroup_keeps:
  assumes ok: "gw_ok w" and g: "groups w a = Some g" and i: "unat i < MAX_RAID_SUBGROUPS"
    and room: "isRaidGroup g \<Longrightarrow> in_sub (unat i) (m_memberSlots g) < MAXGROUPSIZE"
  shows "\<exists>w'. ChangeMembersGroup a p i w = Some w' \<and> gw_ok w'"
proof (cases "\<not> isRaidGroup g \<or> getMemberSlot p g = None \<or> GetMemberGroup p g = i")
  case True
  then show ?thesis using ok ChangeMembersGroup_same [OF g] by blast
next
  case False
  note links = gw_okD(1) [OF ok]
  obtain m where raid: "isRaidGroup g" and m: "getMemberSlot p g = Some m" "i \<noteq> ms_group m" using False by (auto simp: GetMemberGroup_def)
  note mm = getMemberSlot_in [OF m(1)]
  have small: "in_sub (unat i) (m_memberSlots g) < 255" using room [OF raid] by (simp add: MAXGROUPSIZE_def)
  obtain fx cs where r: "ChangeMembersGroup a p i w = Some (add_fx fx (w\<lparr>groups := (groups w)(a \<mapsto> moved p i cs g), players := resub p i w\<rparr>))"
      "links_ok (w\<lparr>groups := (groups w)(a \<mapsto> moved p i cs g), players := resub p i w\<rparr>)"
    using ChangeMembersGroup_runs [OF links g raid m(1) i small m(2)] by blast
  have ne: "m_memberSlots g \<noteq> []" using mm by auto
  have dist: "distinct (map ms_guid (m_memberSlots g))" using links_okD(1) [OF links g] by (simp add: group_ok_def)
  have sl: "in_sub j (m_memberSlots (moved p i cs g)) = in_sub j (m_memberSlots g) - (if unat (ms_group m) = j then 1 else 0) + (if unat i = j then 1 else 0)"
    "length (m_memberSlots (moved p i cs g)) = length (m_memberSlots g)" for j
    using on_slot_group(4,2) [OF dist, of m p] mm by (simp_all add: moved_def)
  have "sizes_ok (moved p i cs g)" using gw_okD(3) [OF ok g] room [OF raid] raid sl
    by (auto simp: sizes_ok_def MAXGROUPSIZE_def)
  moreover have "founder_ok (moved p i cs g)" using moved_created [OF ne] by (simp add: founder_ok_def)
  moreover have "ids_ok (w\<lparr>groups := (groups w)(a \<mapsto> moved p i cs g), players := resub p i w\<rparr>)"
    using ids_upd [OF gw_okD(2) [OF ok] g moved_ids [OF ne]] by simp
  ultimately have "gw_ok (w\<lparr>groups := (groups w)(a \<mapsto> moved p i cs g), players := resub p i w\<rparr>)"
    by (intro gw_ok_upd [OF ok r(2)]) (auto split: if_splits)
  then show ?thesis using r(1) by simp
qed

lemma ChangeSubGroup_ok:
  assumes ok: "gw_ok w" and me: "players w me = Some pl"
  shows "handled_ok (HandleGroupChangeSubGroupOpcode env me d w)"
  unfolding HandleGroupChangeSubGroupOpcode_def
proof (intro in_group_ok [OF ok me] reading_ok)
  fix a g and x :: "string \<times> 8 word"
  assume g: "groups w a = Some g" "m_memberSlots g \<noteq> []"
  obtain n i where x: "x = (n, i)" by (cases x)
  have move: "\<exists>w'. Option.bind (HasFreeSlotSubGroup i g) (\<lambda>free. if \<not> free \<or> q = 0 then Some w else ChangeMembersGroup a q i w) = Some w' \<and> gw_ok w'"
    if i: "unat i < MAX_RAID_SUBGROUPS" for q
  proof (cases "m_subGroupsCounts g")
    case None
    then show ?thesis using ok by (simp add: HasFreeSlotSubGroup_def)
  next
    case (Some cs)
    have "counts_exact g" using links_okD(1) [OF gw_okD(1) [OF ok] g(1)] by (simp add: group_ok_def)
    then have cs: "length cs = 8" "unat (cs ! unat i) = in_sub (unat i) (m_memberSlots g)"
      using Some i by (simp_all add: counts_exact_def MAX_RAID_SUBGROUPS_def)
    show ?thesis using ChangeMembersGroup_keeps [OF ok g(1) i, of q] cs Some i ok by (auto simp: HasFreeSlotSubGroup_def MAX_RAID_SUBGROUPS_def)
  qed
  show "\<exists>w'. (case x of (name, groupNr) \<Rightarrow>
      case ge_normalizePlayerName env name of
           None \<Rightarrow> Some w
         | Some name \<Rightarrow>
             if unat groupNr \<ge> MAX_RAID_SUBGROUPS \<or> \<not> IsLeader me g \<and> \<not> IsAssistant me g then Some w
             else do {
               free \<leftarrow> HasFreeSlotSubGroup groupNr g;
               if \<not> free \<or> guid_by_name env name w = 0 then Some w
               else ChangeMembersGroup a (guid_by_name env name w) groupNr w
             }) = Some w' \<and> gw_ok w'"
    using move ok x by (auto split: option.splits)
qed

section \<open>Swapping two members\<close>

lemma find_append_absent: "p \<notin> ms_guid ` set xs \<Longrightarrow> find (\<lambda>m. ms_guid m = p) (xs @ ys) = find (\<lambda>m. ms_guid m = p) ys"
  by (induction xs) auto

lemma other_slot: "q \<noteq> p \<Longrightarrow> find (\<lambda>m. ms_guid m = q) (on_slot p (ms_group_update (\<lambda>_. i)) ms) = find (\<lambda>m. ms_guid m = q) ms"
  by (induction ms) auto

lemma swap_runs:
  assumes ok: "gw_ok w" and g: "groups w a = Some g" and raid: "isRaidGroup g"
    and m1: "getMemberSlot p1 g = Some m1" and m2: "getMemberSlot p2 g = Some m2" and ne: "ms_group m1 \<noteq> ms_group m2"
  shows "\<exists>w' h. Option.bind (ChangeMembersGroup a p1 (ms_group m2) w) (ChangeMembersGroup a p2 (ms_group m1)) = Some w' \<and> gw_ok w' \<and>
     groups w' a = Some h \<and> (\<forall>j. in_sub j (m_memberSlots h) = in_sub j (m_memberSlots g)) \<and>
     GetMemberGroup p1 h = ms_group m2 \<and> GetMemberGroup p2 h = ms_group m1"
proof -
  note links = gw_okD(1) [OF ok]
  note mm1 = getMemberSlot_in [OF m1] and mm2 = getMemberSlot_in [OF m2]
  have pne: "p2 \<noteq> p1" using m1 m2 ne by auto
  have gok: "distinct (map ms_guid (m_memberSlots g))" "counts_exact g" using links_okD(1) [OF links g] by (simp_all add: group_ok_def)
  have low: "unat (ms_group m) < MAX_RAID_SUBGROUPS" if "m \<in> set (m_memberSlots g)" for m
    using gok(2) raid that by (auto simp: counts_exact_def split: option.splits)
  have small: "in_sub j (m_memberSlots g) \<le> 5" if "j < 8" for j by (rule raid_small [OF ok g raid that])
  have i2: "unat (ms_group m2) < MAX_RAID_SUBGROUPS" and i1: "unat (ms_group m1) < MAX_RAID_SUBGROUPS" using low mm1 mm2 by blast+
  have s2: "in_sub (unat (ms_group m2)) (m_memberSlots g) < 255" using small [of "unat (ms_group m2)"] i2 by (simp add: MAX_RAID_SUBGROUPS_def)
  obtain f1 c1 where r1: "ChangeMembersGroup a p1 (ms_group m2) w = Some (add_fx f1 (w\<lparr>groups := (groups w)(a \<mapsto> moved p1 (ms_group m2) c1 g), players := resub p1 (ms_group m2) w\<rparr>))"
      "links_ok (w\<lparr>groups := (groups w)(a \<mapsto> moved p1 (ms_group m2) c1 g), players := resub p1 (ms_group m2) w\<rparr>)"
    using ChangeMembersGroup_runs [OF links g raid m1 i2 s2] ne by metis
  let ?g1 = "moved p1 (ms_group m2) c1 g"
  let ?w1 = "add_fx f1 (w\<lparr>groups := (groups w)(a \<mapsto> ?g1), players := resub p1 (ms_group m2) w\<rparr>)"
  have w1: "links_ok ?w1" "groups ?w1 a = Some ?g1" "isRaidGroup ?g1" using r1(2) raid by simp_all
  have m2': "getMemberSlot p2 ?g1 = Some m2" using m2 pne by (simp add: getMemberSlot_def moved_def other_slot)
  have k1: "in_sub j (m_memberSlots ?g1) = in_sub j (m_memberSlots g) - (if unat (ms_group m1) = j then 1 else 0) + (if unat (ms_group m2) = j then 1 else 0)"
    "unat (ms_group m1) = j \<Longrightarrow> 0 < in_sub j (m_memberSlots g)" for j
    using on_slot_group(4,5) [OF gok(1), of m1 p1] mm1 by (simp_all add: moved_def)
  have s1: "in_sub (unat (ms_group m1)) (m_memberSlots ?g1) < 255"
    using k1(1) [of "unat (ms_group m1)"] small [of "unat (ms_group m1)"] i1
    by (simp add: MAX_RAID_SUBGROUPS_def del: moved_simps split: if_split_asm)
  obtain f2 c2 where r2: "ChangeMembersGroup a p2 (ms_group m1) ?w1 = Some (add_fx f2 (?w1\<lparr>groups := (groups ?w1)(a \<mapsto> moved p2 (ms_group m1) c2 ?g1), players := resub p2 (ms_group m1) ?w1\<rparr>))"
      "links_ok (?w1\<lparr>groups := (groups ?w1)(a \<mapsto> moved p2 (ms_group m1) c2 ?g1), players := resub p2 (ms_group m1) ?w1\<rparr>)"
    using ChangeMembersGroup_runs [OF w1 m2' i1 s1] ne by metis
  let ?h = "moved p2 (ms_group m1) c2 ?g1"
  let ?w2 = "?w1\<lparr>groups := (groups ?w1)(a \<mapsto> ?h), players := resub p2 (ms_group m1) ?w1\<rparr>"
  have d1: "distinct (map ms_guid (m_memberSlots ?g1))" using links_okD(1) [OF w1(1,2)] by (simp add: group_ok_def)
  note mm2' = getMemberSlot_in [OF m2']
  have k2: "in_sub j (m_memberSlots ?h) = in_sub j (m_memberSlots ?g1) - (if unat (ms_group m2) = j then 1 else 0) + (if unat (ms_group m1) = j then 1 else 0)"
    "unat (ms_group m2) = j \<Longrightarrow> 0 < in_sub j (m_memberSlots ?g1)" for j
    using on_slot_group(4,5) [OF d1, of m2 p2] mm2' by (simp_all add: moved_def)
  have tot: "in_sub j (m_memberSlots ?h) = in_sub j (m_memberSlots g)" for j
    using k1 [of j] k2 [of j] by (auto split: if_splits)
  have len: "length (m_memberSlots ?h) = length (m_memberSlots g)"
    using on_slot_group(2) [OF d1, of m2 p2] on_slot_group(2) [OF gok(1), of m1 p1] mm1 mm2' by (simp add: moved_def)
  have gne: "m_memberSlots g \<noteq> []" using mm1 by auto
  have "sizes_ok ?h" using gw_okD(3) [OF ok g] tot len by (simp add: sizes_ok_def)
  moreover have "founder_ok ?h" using moved_created [OF moved_created [OF gne]] by (simp add: founder_ok_def)
  moreover have "ids_ok ?w2"
    using ids_upd [OF gw_okD(2) [OF ok] g, of ?h] moved_ids [OF moved_created [OF gne]] moved_ids [OF gne] by simp
  ultimately have "gw_ok ?w2" by (intro gw_ok_upd [OF ok r2(2)]) (auto split: if_splits)
  moreover have "GetMemberGroup p2 ?h = ms_group m1"
  proof -
    obtain xs ys where "m_memberSlots ?g1 = xs @ m2 # ys" "p2 \<notin> ms_guid ` set xs" using slot_at [OF d1, of m2] mm2' by metis
    then show ?thesis using on_slot_at [of p2 xs m2] mm2' by (auto simp: GetMemberGroup_def getMemberSlot_def moved_def find_append_absent)
  qed
  moreover have "GetMemberGroup p1 ?h = ms_group m2"
  proof -
    obtain xs ys where "m_memberSlots g = xs @ m1 # ys" "p1 \<notin> ms_guid ` set xs" using slot_at [OF gok(1), of m1] mm1 by metis
    then show ?thesis using on_slot_at [of p1 xs m1] mm1 pne
      by (auto simp: GetMemberGroup_def getMemberSlot_def moved_def other_slot [of p1 p2] find_append_absent)
  qed
  ultimately show ?thesis using r1(1) r2(1) tot by (intro exI [of _ "add_fx f2 ?w2"] exI [of _ ?h]) simp
qed

lemma SwapSubGroup_ok:
  assumes ok: "gw_ok w" and me: "players w me = Some pl"
  shows "handled_ok (HandleGroupSwapSubGroupOpcode env me d w)"
  unfolding HandleGroupSwapSubGroupOpcode_def
proof (rule reading_ok)
  fix x :: "string \<times> string"
  have swap: "\<exists>w'. (let none = word_of_nat (MAX_RAID_SUBGROUPS + 1) in
      if GetMemberGroup p1 g = none \<or> GetMemberGroup p2 g = none \<or> GetMemberGroup p1 g = GetMemberGroup p2 g then Some w
      else Option.bind (ChangeMembersGroup a p1 (GetMemberGroup p2 g) w) (ChangeMembersGroup a p2 (GetMemberGroup p1 g))) = Some w' \<and> gw_ok w'"
    if "groups w a = Some g" "isRaidGroup g" for a g p1 p2
  proof (cases "getMemberSlot p1 g"; cases "getMemberSlot p2 g")
    fix m1 m2
    assume m: "getMemberSlot p1 g = Some m1" "getMemberSlot p2 g = Some m2"
    then show ?thesis using swap_runs [OF ok that m] ok by (cases "ms_group m1 = ms_group m2") (auto simp: GetMemberGroup_def Let_def)
  qed (use ok in \<open>auto simp: GetMemberGroup_def Let_def\<close>)
  obtain n1 n2 where x: "x = (n1, n2)" by (cases x)
  have link: "\<exists>g. groups w a = Some g" if "gp_m_group pl = Some a" for a
    using linked_group [OF gw_okD(1) [OF ok] me that] by metis
  show "\<exists>w'. (case x of (name1, name2) \<Rightarrow>
      case (ge_normalizePlayerName env name1, ge_normalizePlayerName env name2) of
         (None, _) \<Rightarrow> Some (SendPartyResult me PARTY_OP_SWAP name1 PARTY_RESULT_CANT_FIND_TARGET w)
       | (Some name1, None) \<Rightarrow> Some (SendPartyResult me PARTY_OP_SWAP name1 PARTY_RESULT_CANT_FIND_TARGET w)
       | (Some name1, Some name2) \<Rightarrow> do {
           pl \<leftarrow> players w me;
           (case gp_m_group pl of
              None \<Rightarrow> Some w
            | Some a \<Rightarrow> do {
                g \<leftarrow> groups w a;
                let p1 = guid_by_name env name1 w;
                let p2 = guid_by_name env name2 w;
                let none = word_of_nat (MAX_RAID_SUBGROUPS + 1);
                if \<not> isRaidGroup g \<or> \<not> IsLeader me g \<and> \<not> IsAssistant me g then Some w
                else if p1 = 0 \<or> p2 = 0 then Some (SendPartyResult me PARTY_OP_SWAP name1 PARTY_RESULT_CANT_FIND_TARGET w)
                else if GetMemberGroup p1 g = none \<or> GetMemberGroup p2 g = none \<or> GetMemberGroup p1 g = GetMemberGroup p2 g
                then Some w
                else do {
                  w \<leftarrow> ChangeMembersGroup a p1 (GetMemberGroup p2 g) w;
                  ChangeMembersGroup a p2 (GetMemberGroup p1 g) w
                }
              })
         }) = Some w' \<and> gw_ok w'"
    using ok me link swap by (auto simp: x Let_def split: option.splits)
qed

end
