(* ===== verification/GroupRaids.thy ===== *)
theory GroupRaids
  imports GroupSubgroups
begin

text \<open>Converting, flags, icons and the ready check.\<close>

section \<open>Converting to a raid\<close>

lemma in_sub_Cons: "in_sub i (m # ms) = (if unat (ms_group m) = i then 1 else 0) + in_sub i ms"
  by (simp add: in_sub_def)

lemma in_sub_total: "\<forall>m \<in> set ms. unat (ms_group m) < 8 \<Longrightarrow> (\<Sum>i < 8. in_sub i ms) = length ms"
  by (induction ms) (simp_all add: in_sub_def sum.distrib if_distrib [where f = length] lessThan_Suc numeral_eq_Suc)

lemma count_all:
  assumes "length cs = 8" and "\<forall>m \<in> set ms. unat (ms_group m) < 8" and "\<forall>i < 8. unat (cs ! i) + length ms < 256"
  shows "\<exists>cs'. each (\<lambda>m. count_up (ms_group m)) ms cs = Some cs' \<and> length cs' = 8 \<and> (\<forall>i < 8. unat (cs' ! i) = unat (cs ! i) + in_sub i ms)"
  using assms
proof (induction ms arbitrary: cs)
  case Nil
  then show ?case by (simp add: in_sub_def)
next
  case (Cons m ms)
  let ?i = "unat (ms_group m)" and ?cs = "cs[unat (ms_group m) := cs ! unat (ms_group m) + 1]"
  have i: "?i < 8" using Cons.prems(2) by simp
  have "unat (cs ! ?i) < 255" using Cons.prems(3) i by fastforce
  then have up: "unat (cs ! ?i + 1) = Suc (unat (cs ! ?i))" by (simp add: unat_word_ariths)
  have "\<forall>j < 8. unat (?cs ! j) + length ms < 256" using Cons.prems(1,3) up i by (auto simp: nth_list_update)
  then obtain cs' where cs': "each (\<lambda>m. count_up (ms_group m)) ms ?cs = Some cs'" "length cs' = 8" "\<forall>j < 8. unat (cs' ! j) = unat (?cs ! j) + in_sub j ms"
    using Cons.IH [of ?cs] Cons.prems(1,2) by auto
  have "\<forall>j < 8. unat (cs' ! j) = unat (cs ! j) + in_sub j (m # ms)"
    using cs'(3) up Cons.prems(1) i by (auto simp: nth_list_update in_sub_Cons)
  moreover have "count_up (ms_group m) cs = Some ?cs" using i Cons.prems(1) by (simp add: count_up_def)
  ultimately show ?case using cs'(1,2) by simp
qed

lemma small_slots:
  assumes ok: "gw_ok w" and g: "groups w a = Some g"
  shows "length (m_memberSlots g) \<le> 40" and "\<forall>m \<in> set (m_memberSlots g). unat (ms_group m) < 8"
proof -
  have c: "counts_exact g" using links_okD(1) [OF gw_okD(1) [OF ok] g] by (simp add: group_ok_def)
  then show low: "\<forall>m \<in> set (m_memberSlots g). unat (ms_group m) < 8"
    by (auto simp: counts_exact_def MAX_RAID_SUBGROUPS_def split: option.splits)
  show "length (m_memberSlots g) \<le> 40"
  proof (cases "isRaidGroup g")
    case True
    have "(\<Sum>i < 8. in_sub i (m_memberSlots g)) \<le> (\<Sum>i < (8 :: nat). 5)"
      by (rule sum_mono) (use raid_small [OF ok g True] in simp)
    then show ?thesis using in_sub_total [OF low] by simp
  next
    case False
    then show ?thesis using gw_okD(3) [OF ok g] by (simp add: sizes_ok_def MAXGROUPSIZE_def)
  qed
qed

definition raided :: "u8 list \<Rightarrow> group \<Rightarrow> group" where
  "raided cs g = g\<lparr>m_groupType := set_flag (m_groupType g) GROUPTYPE_RAID, m_subGroupsCounts := Some cs\<rparr>"

lemma ConvertToRaid_keeps:
  assumes ok: "gw_ok w" and g: "groups w a = Some g" "m_memberSlots g \<noteq> []"
  shows "\<exists>fx cs. ConvertToRaid a w = Some (add_fx fx (w\<lparr>groups := (groups w)(a \<mapsto> raided cs g)\<rparr>)) \<and> gw_ok (w\<lparr>groups := (groups w)(a \<mapsto> raided cs g)\<rparr>)"
proof -
  note links = gw_okD(1) [OF ok] and sm = small_slots [OF ok g(1)]
  have gok: "group_ok g" by (rule links_okD(1) [OF links g(1)])
  have z: "\<forall>i < 8. unat ((replicate 8 0 :: u8 list) ! i) + length (m_memberSlots g) < 256" using sm(1) by simp
  obtain cs where "each (\<lambda>m. count_up (ms_group m)) (m_memberSlots g) (replicate 8 0) = Some cs" "length cs = 8"
      "\<forall>i < 8. unat (cs ! i) = unat ((replicate 8 0 :: u8 list) ! i) + in_sub i (m_memberSlots g)"
    using count_all [OF _ sm(2) z] by auto
  then have cs: "each (\<lambda>m. count_up (ms_group m)) (m_memberSlots g) (replicate MAX_RAID_SUBGROUPS 0) = Some cs" "length cs = 8"
      "\<forall>i < 8. unat (cs ! i) = in_sub i (m_memberSlots g)" by (simp_all add: MAX_RAID_SUBGROUPS_def)
  let ?h = "raided cs g"
  have raid: "isRaidGroup ?h" by (simp add: isRaidGroup_def raided_def GROUPTYPE_RAID_def)
  have same: "same_links g ?h" by (simp add: same_links_def raided_def)
  have "counts_exact ?h" using raid cs sm(2) by (simp add: counts_exact_def raided_def MAX_RAID_SUBGROUPS_def)
  then have h: "group_ok ?h" using gok by (simp add: group_ok_def raided_def members_def)
  have small: "in_sub i (m_memberSlots g) \<le> 5" if "i < 8" for i
  proof (cases "isRaidGroup g")
    case True
    show ?thesis by (rule raid_small [OF ok g(1) True that])
  next
    case False
    then have "length (m_memberSlots g) \<le> 5" using gw_okD(3) [OF ok g(1)] by (simp add: sizes_ok_def MAXGROUPSIZE_def)
    then show ?thesis unfolding in_sub_def by (rule le_trans [OF length_filter_le])
  qed
  have "sizes_ok ?h" using gw_okD(3) [OF ok g(1)] raid small by (simp add: sizes_ok_def raided_def MAX_RAID_SUBGROUPS_def MAXGROUPSIZE_def)
  moreover have "founder_ok ?h" using g(2) by (simp add: founder_ok_def raided_def)
  ultimately have keep: "gw_ok (w\<lparr>groups := (groups w)(a \<mapsto> ?h)\<rparr>)"
    by (intro gw_ok_upd [OF ok keeps_cosmetic(1) [OF links g(1) same h] keeps_cosmetic(2) [OF links g(1) same h gw_okD(2) [OF ok]]])
      (auto split: if_splits)
  let ?w = "w\<lparr>groups := (groups w)(a \<mapsto> ?h)\<rparr>"
  have bg: "m_bgGroup g = None" using gok by (simp add: group_ok_def)
  have 1: "change_group a (\<lambda>g. initRaidSubGroupsCounter (g\<lparr>m_groupType := set_flag (m_groupType g) GROUPTYPE_RAID\<rparr>)) w = Some ?w"
    using g(1) cs(1) by (simp add: change_group_def initRaidSubGroupsCounter_def raided_def)
  let ?st = "[GroupSql (UpdateGroupType (m_groupType ?h) (m_dbStoreId ?h))]"
  have ga: "groups ?w a = Some ?h" by simp
  obtain f1 where 2: "SendUpdate a (add_fx ?st ?w) = Some (add_fx f1 ?w)" using SendUpdate_after [OF ga] by blast
  have "\<exists>fx. fold (\<lambda>m w. if gw_FindPlayer w (ms_guid m) then gw_effect (UpdateForQuestWorldObjects (ms_guid m)) w else w) (m_memberSlots ?h) (add_fx f1 ?w)
      = add_fx fx (add_fx f1 ?w)"
    by (intro fold_fx if_fx fx_id fx_effect)
  then obtain f2 where 3: "fold (\<lambda>m w. if gw_FindPlayer w (ms_guid m) then gw_effect (UpdateForQuestWorldObjects (ms_guid m)) w else w) (m_memberSlots ?h) (add_fx f1 ?w)
      = add_fx (f1 @ f2) ?w" by auto
  have "m_bgGroup ?h = None" using bg by (simp add: raided_def)
  then have "ConvertToRaid a w = Some (add_fx (f1 @ f2) ?w)" using 1 2 3 by (simp add: ConvertToRaid_def isBGGroup_def effect_fx)
  then show ?thesis using keep by blast
qed

lemma RaidConvert_ok:
  assumes ok: "gw_ok w" and me: "players w me = Some pl"
  shows "handled_ok (HandleGroupRaidConvertOpcode env me w)"
  unfolding HandleGroupRaidConvertOpcode_def
proof (intro in_group_ok [OF ok me])
  fix a g
  assume g: "groups w a = Some g" "m_memberSlots g \<noteq> []"
  have "\<exists>w'. ConvertToRaid a (SendPartyResult me PARTY_OP_INVITE [] PARTY_RESULT_OK w) = Some w' \<and> gw_ok w'"
    using ConvertToRaid_keeps [of "SendPartyResult me PARTY_OP_INVITE [] PARTY_RESULT_OK w" a g] ok g
    by (metis effect_simps(1) gw_ok_fx result_keeps SendPartyResult_def)
  from handled_okI [OF this]
  show "handled_ok (if ge_InBattleground env me \<or> \<not> IsLeader me g \<or> GetMembersCount g < 2 then Some (Inr w)
      else map_option Inr (ConvertToRaid a (SendPartyResult me PARTY_OP_INVITE [] PARTY_RESULT_OK w)))" using ok by simp
qed

section \<open>Flags\<close>

lemma unique_same [simp]: "same_links g (RemoveUniqueGroupMemberFlag fl g)"
  by (simp add: same_links_def RemoveUniqueGroupMemberFlag_def comp_def if_distrib cong: if_cong)

lemma unique_simps [simp]:
  "m_leaderGuid (RemoveUniqueGroupMemberFlag fl g) = m_leaderGuid g" "isRaidGroup (RemoveUniqueGroupMemberFlag fl g) = isRaidGroup g"
  "m_subGroupsCounts (RemoveUniqueGroupMemberFlag fl g) = m_subGroupsCounts g" "m_bgGroup (RemoveUniqueGroupMemberFlag fl g) = m_bgGroup g"
  "m_targetIcons (RemoveUniqueGroupMemberFlag fl g) = m_targetIcons g" "m_RollId (RemoveUniqueGroupMemberFlag fl g) = m_RollId g"
  by (simp_all add: RemoveUniqueGroupMemberFlag_def)

lemma same_links_trans: "same_links g h \<Longrightarrow> same_links h k \<Longrightarrow> same_links g k"
  by (simp add: same_links_def)

definition flag_only :: "group \<Rightarrow> group \<Rightarrow> bool" where
  "flag_only g h = (same_links g h \<and> isRaidGroup h = isRaidGroup g \<and> m_subGroupsCounts h = m_subGroupsCounts g \<and> m_bgGroup h = m_bgGroup g \<and>
     m_targetIcons h = m_targetIcons g \<and> m_RollId h = m_RollId g \<and> m_leaderGuid h = m_leaderGuid g)"

lemma flag_only_intros [simp]:
  "flag_only g (RemoveUniqueGroupMemberFlag fl g)" "flag_only g (ToggleGroupMemberFlag p fl v g)"
  "flag_only g (ToggleGroupMemberFlag p fl v (RemoveUniqueGroupMemberFlag fl g))"
  using same_links_trans [OF unique_same toggle_same] by (simp_all add: flag_only_def)

lemma flag_keeps: "gw_ok w \<Longrightarrow> groups w a = Some g \<Longrightarrow> m_memberSlots g \<noteq> [] \<Longrightarrow> flag_only g h \<Longrightarrow> gw_ok (w\<lparr>groups := (groups w)(a \<mapsto> h)\<rparr>)"
  by (rule cosmetic_keeps) (use links_okD(1) [OF gw_okD(1), of w a g] in \<open>auto simp: flag_only_def group_ok_def\<close>)

lemma SetGroupMemberFlag_keeps:
  assumes ok: "gw_ok w" and g: "groups w a = Some g" "m_memberSlots g \<noteq> []"
  shows "\<exists>w' h. SetGroupMemberFlag a p v fl w = Some w' \<and> gw_ok w' \<and> groups w' a = Some h"
proof (cases "\<not> isRaidGroup g \<or> getMemberSlot p g = None \<or> fl \<notin> {MEMBER_FLAG_MAINASSIST, MEMBER_FLAG_MAINTANK, MEMBER_FLAG_ASSISTANT}")
  case True
  then show ?thesis using ok g by (auto simp: SetGroupMemberFlag_def)
next
  case False
  let ?h = "ToggleGroupMemberFlag p fl v (if fl = MEMBER_FLAG_ASSISTANT then g else RemoveUniqueGroupMemberFlag fl g)"
  let ?w = "w\<lparr>groups := (groups w)(a \<mapsto> ?h)\<rparr>"
  have "flag_only g ?h" by simp
  then have keep: "gw_ok ?w" by (rule flag_keeps [OF ok g])
  have ga: "groups ?w a = Some ?h" by simp
  obtain fx where "SendUpdate a (add_fx [GroupSql (UpdateMemberFlag (GetMemberFlags p ?h) (GetCounter p))] ?w) = Some (add_fx fx ?w)"
    using SendUpdate_after [OF ga] by blast
  then have "SetGroupMemberFlag a p v fl w = Some (add_fx fx ?w)"
    using g False by (auto simp: SetGroupMemberFlag_def on_group_def effect_fx)
  then show ?thesis using keep ga by simp
qed

lemma AssistantLeader_ok:
  assumes ok: "gw_ok w" and me: "players w me = Some pl"
  shows "handled_ok (HandleGroupAssistantLeaderOpcode me d w)"
  unfolding HandleGroupAssistantLeaderOpcode_def
proof (rule in_group_ok [OF ok me])
  fix a g
  assume g: "groups w a = Some g" "m_memberSlots g \<noteq> []"
  have "handled_ok (reading rd d (\<lambda>(p, v). SetGroupMemberFlag a p v MEMBER_FLAG_ASSISTANT w))" for rd
    by (rule reading_ok) (simp only: split_beta, use SetGroupMemberFlag_keeps [OF ok g] in blast)
  then show "handled_ok (if \<not> IsLeader me g then Some (Inr w)
       else reading (andThen shr_guid (\<lambda>p. andThen shr_bool (\<lambda>v. ret (p, v)))) d (\<lambda>(p, v).
              SetGroupMemberFlag a p v MEMBER_FLAG_ASSISTANT w))"
    using ok by simp
qed

lemma assign_unique_keeps:
  assumes ok: "gw_ok w" and g: "groups w a = Some g" "m_memberSlots g \<noteq> []"
  shows "\<exists>w' h. assign_unique a p v fl w = Some w' \<and> gw_ok w' \<and> groups w' a = Some h"
proof -
  let ?h = "RemoveUniqueGroupMemberFlag fl g" and ?w = "w\<lparr>groups := (groups w)(a \<mapsto> RemoveUniqueGroupMemberFlag fl g)\<rparr>"
  have keep: "gw_ok ?w" by (rule flag_keeps [OF ok g]) simp
  have h: "m_memberSlots ?h \<noteq> []" using g(2) same_links_slots(2) [OF unique_same] by simp
  show ?thesis using SetGroupMemberFlag_keeps [OF keep _ h, of a p v fl] g(1) by (auto simp: assign_unique_def on_group_Some)
qed

lemma PartyAssignment_ok:
  assumes ok: "gw_ok w" and me: "players w me = Some pl"
  shows "handled_ok (HandlePartyAssignmentOpcode me d w)"
  unfolding HandlePartyAssignmentOpcode_def
proof (rule in_group_ok [OF ok me])
  fix a g
  assume g: "groups w a = Some g" "m_memberSlots g \<noteq> []"
  have assign: "\<exists>w'. Option.bind (if x = GROUP_ASSIGN_MAINASSIST then assign_unique a p v MEMBER_FLAG_MAINASSIST w
       else if x = GROUP_ASSIGN_MAINTANK then assign_unique a p v MEMBER_FLAG_MAINTANK w else Some w) (SendUpdate a) = Some w' \<and> gw_ok w'"
    (is "\<exists>w'. Option.bind ?A _ = Some w' \<and> _") for x v p
  proof -
    have "?A = assign_unique a p v MEMBER_FLAG_MAINASSIST w \<or> ?A = assign_unique a p v MEMBER_FLAG_MAINTANK w \<or> ?A = Some w" by simp
    then obtain w1 h where w1: "?A = Some w1" "gw_ok w1" "groups w1 a = Some h"
      using assign_unique_keeps [OF ok g, of p v MEMBER_FLAG_MAINASSIST] assign_unique_keeps [OF ok g, of p v MEMBER_FLAG_MAINTANK] ok g(1) by metis
    show ?thesis unfolding w1(1) using send_update_keeps [OF w1(2,3)] by simp
  qed
  have "handled_ok (reading rd d (\<lambda>(x, v, p). Option.bind (if x = GROUP_ASSIGN_MAINASSIST then assign_unique a p v MEMBER_FLAG_MAINASSIST w
       else if x = GROUP_ASSIGN_MAINTANK then assign_unique a p v MEMBER_FLAG_MAINTANK w else Some w) (SendUpdate a)))" for rd
    by (rule reading_ok) (unfold split_beta, rule assign)
  then show "handled_ok (if \<not> IsLeader me g then Some (Inr w)
       else reading (andThen shr_u8 (\<lambda>x. andThen shr_bool (\<lambda>v. andThen shr_guid (\<lambda>p. ret (x, v, p))))) d (\<lambda>(x, v, p). do {
              w \<leftarrow> (if x = GROUP_ASSIGN_MAINASSIST then assign_unique a p v MEMBER_FLAG_MAINASSIST w
                    else if x = GROUP_ASSIGN_MAINTANK then assign_unique a p v MEMBER_FLAG_MAINTANK w
                    else Some w);
              SendUpdate a w
            }))"
    using ok by simp
qed

section \<open>Icons\<close>

definition icons_set :: "nat \<Rightarrow> guid \<Rightarrow> guid list \<Rightarrow> guid list" where
  "icons_set i t icons = (if t = 0 then icons else map (\<lambda>x. if x = t then 0 else x) icons)[i := t]"

lemma set_icon_runs:
  assumes "groups w a = Some g"
  shows "\<exists>fx. set_icon i t a (add_fx f w) = Some (add_fx fx (w\<lparr>groups := (groups w)(a \<mapsto> g\<lparr>m_targetIcons := (m_targetIcons g)[unat i := t]\<rparr>)\<rparr>))"
proof -
  have "groups (w\<lparr>groups := (groups w)(a \<mapsto> g\<lparr>m_targetIcons := (m_targetIcons g)[unat i := t]\<rparr>)\<rparr>) a = Some (g\<lparr>m_targetIcons := (m_targetIcons g)[unat i := t]\<rparr>)" by simp
  from BroadcastPacket_after [OF this] show ?thesis using assms by (simp add: set_icon_def on_group_def)
qed

lemma upd_twice:
  "(w\<lparr>groups := G\<rparr>)\<lparr>groups := (groups (w\<lparr>groups := G\<rparr>))(a \<mapsto> x)\<rparr> = w\<lparr>groups := G(a \<mapsto> x)\<rparr>"
  "(g\<lparr>m_targetIcons := i\<rparr>)\<lparr>m_targetIcons := j\<rparr> = g\<lparr>m_targetIcons := j\<rparr>"
  by simp_all

lemma clear_icons:
  assumes "groups w a = Some g" and "length (m_targetIcons g) = 8" and "n \<le> 8"
  shows "\<exists>fx. each (\<lambda>k w. do {
       g \<leftarrow> groups w a;
       if m_targetIcons g ! k = t then set_icon (word_of_nat k) 0 a w else Some w
     }) [8 - n..<8] (add_fx f w) = Some (add_fx fx (w\<lparr>groups := (groups w)(a \<mapsto> g\<lparr>m_targetIcons :=
       take (8 - n) (m_targetIcons g) @ map (\<lambda>x. if x = t then 0 else x) (drop (8 - n) (m_targetIcons g))\<rparr>)\<rparr>))"
  using assms
proof (induction n arbitrary: w g f)
  case 0
  then show ?case by (auto simp: same_groups fun_upd_idem)
next
  case (Suc n)
  let ?k = "8 - Suc n" and ?is = "m_targetIcons g"
  have k: "?k < 8" "Suc ?k = 8 - n" using Suc.prems(3) by auto
  let ?x = "if ?is ! ?k = t then 0 else ?is ! ?k"
  let ?g = "g\<lparr>m_targetIcons := ?is[?k := ?x]\<rparr>"
  let ?w = "w\<lparr>groups := (groups w)(a \<mapsto> ?g)\<rparr>"
  have "unat (word_of_nat ?k :: u8) = ?k" using k(1) by (simp add: unat_of_nat)
  then have "\<exists>f1. (if ?is ! ?k = t then set_icon (word_of_nat ?k) 0 a (add_fx f w) else Some (add_fx f w)) = Some (add_fx f1 ?w)"
    using set_icon_runs [OF Suc.prems(1), of "word_of_nat ?k" 0 f] Suc.prems(1) by (auto simp: same_groups fun_upd_idem)
  then obtain f1 where f1: "(if ?is ! ?k = t then set_icon (word_of_nat ?k) 0 a (add_fx f w) else Some (add_fx f w)) = Some (add_fx f1 ?w)" by blast
  have split: "[?k..<8] = ?k # [8 - n..<8]" using k by (simp add: upt_conv_Cons)
  have L: "take (8 - n) (m_targetIcons ?g) @ map (\<lambda>x. if x = t then 0 else x) (drop (8 - n) (m_targetIcons ?g))
      = take ?k ?is @ map (\<lambda>x. if x = t then 0 else x) (drop ?k ?is)"
    using k Suc.prems(2) by (simp add: k(2) [symmetric] take_Suc_conv_app_nth Cons_nth_drop_Suc [symmetric])
  have step: "(\<lambda>k w. do {
       g \<leftarrow> groups w a;
       if m_targetIcons g ! k = t then set_icon (word_of_nat k) 0 a w else Some w
     }) ?k (add_fx f w) = Some (add_fx f1 ?w)"
    by (simp only: add_fx_simps Suc.prems(1) Option.bind.bind_lunit f1)
  have "groups ?w a = Some ?g" "length (m_targetIcons ?g) = 8" "n \<le> 8" using Suc.prems(2,3) by simp_all
  from Suc.IH [OF this, of f1] obtain f2 where f2: "each (\<lambda>k w. do {
       g \<leftarrow> groups w a;
       if m_targetIcons g ! k = t then set_icon (word_of_nat k) 0 a w else Some w
     }) [8 - n..<8] (add_fx f1 ?w) = Some (add_fx f2 (?w\<lparr>groups := (groups ?w)(a \<mapsto> ?g\<lparr>m_targetIcons :=
       take (8 - n) (m_targetIcons ?g) @ map (\<lambda>x. if x = t then 0 else x) (drop (8 - n) (m_targetIcons ?g))\<rparr>)\<rparr>))"
    by blast
  show ?case unfolding split each.simps step Option.bind.bind_lunit f2 L by (rule exI [of _ f2]) (simp only: upd_twice fun_upd_upd)
qed

lemma SetTargetIcon_runs:
  assumes g: "groups w a = Some g" and len: "length (m_targetIcons g) = TARGETICONCOUNT" and i: "unat i < TARGETICONCOUNT"
  shows "\<exists>fx. SetTargetIcon i t a w = Some (add_fx fx (w\<lparr>groups := (groups w)(a \<mapsto> g\<lparr>m_targetIcons := icons_set (unat i) t (m_targetIcons g)\<rparr>)\<rparr>))"
proof -
  let ?is = "if t = 0 then m_targetIcons g else map (\<lambda>x. if x = t then 0 else x) (m_targetIcons g)"
  let ?w = "w\<lparr>groups := (groups w)(a \<mapsto> g\<lparr>m_targetIcons := ?is\<rparr>)\<rparr>"
  have "\<exists>fx. (if t \<noteq> 0 then each (\<lambda>k w. do {
                     g \<leftarrow> groups w a;
                     if m_targetIcons g ! k = t then set_icon (word_of_nat k) 0 a w else Some w
                   }) [0..<TARGETICONCOUNT] w else Some w) = Some (add_fx fx ?w)"
  proof (cases "t = 0")
    case True
    then show ?thesis using g fx_id [of w] by (simp add: same_groups fun_upd_idem)
  next
    case False
    then show ?thesis using clear_icons [OF g, of 8 t "[]"] len by (simp add: TARGETICONCOUNT_def)
  qed
  then obtain f1 where 1: "(if t \<noteq> 0 then each (\<lambda>k w. do {
                     g \<leftarrow> groups w a;
                     if m_targetIcons g ! k = t then set_icon (word_of_nat k) 0 a w else Some w
                   }) [0..<TARGETICONCOUNT] w else Some w) = Some (add_fx f1 ?w)" by blast
  have "groups ?w a = Some (g\<lparr>m_targetIcons := ?is\<rparr>)" by simp
  from set_icon_runs [OF this, of i t f1] obtain f2 where
    2: "set_icon i t a (add_fx f1 ?w) = Some (add_fx f2 (w\<lparr>groups := (groups w)(a \<mapsto> g\<lparr>m_targetIcons := icons_set (unat i) t (m_targetIcons g)\<rparr>)\<rparr>))"
    by (auto simp: icons_set_def)
  show ?thesis using 2 i unfolding SetTargetIcon_def 1 by auto
qed

lemma RaidTargetUpdate_ok:
  assumes ok: "gw_ok w" and me: "players w me = Some pl"
  shows "handled_ok (HandleRaidTargetUpdateOpcode me d w)"
  unfolding HandleRaidTargetUpdateOpcode_def
proof (rule in_group_ok [OF ok me])
  fix a g
  assume g: "groups w a = Some g" "m_memberSlots g \<noteq> []"
  have len: "length (m_targetIcons g) = TARGETICONCOUNT" and rolls: "rolls_ok (m_RollId g)"
    using links_okD(1) [OF gw_okD(1) [OF ok] g(1)] by (simp_all add: group_ok_def)
  have set: "\<exists>w'. SetTargetIcon i p a w = Some w' \<and> gw_ok w'" if i: "\<not> i \<ge> (8 :: u8)" for i p
  proof -
    have "unat i < TARGETICONCOUNT" using i by (simp add: TARGETICONCOUNT_def not_le word_less_nat_alt)
    from SetTargetIcon_runs [OF g(1) len this, of p] obtain fx where
      r: "SetTargetIcon i p a w = Some (add_fx fx (w\<lparr>groups := (groups w)(a \<mapsto> g\<lparr>m_targetIcons := icons_set (unat i) p (m_targetIcons g)\<rparr>)\<rparr>))" by blast
    have "gw_ok (w\<lparr>groups := (groups w)(a \<mapsto> g\<lparr>m_targetIcons := icons_set (unat i) p (m_targetIcons g)\<rparr>)\<rparr>)"
      by (rule cosmetic_keeps [OF ok g]) (use len rolls in \<open>simp_all add: same_links_def icons_set_def\<close>)
    then show ?thesis using r by simp
  qed
  have list: "\<exists>w'. SendTargetIconList a me w = Some w' \<and> gw_ok w'" using ok g(1) by (simp add: SendTargetIconList_def effect_fx)
  show "handled_ok (case shr_u8 d of
         (Inl e, _) \<Rightarrow> Some (Inl e)
       | (Inr icon, d) \<Rightarrow>
           if icon = 0xFF then map_option Inr (SendTargetIconList a me w)
           else if icon \<ge> 8 \<or> \<not> IsLeader me g \<and> \<not> IsAssistant me g then Some (Inr w)
           else reading shr_guid d (\<lambda>p. SetTargetIcon icon p a w))"
  proof (cases "shr_u8 d")
    case (Pair r d2)
    then show ?thesis using handled_okI [OF list] ok reading_ok [of "\<lambda>p. SetTargetIcon _ p a w"] set
      by (cases r) auto
  qed
qed

lemma RaidReadyCheck_ok:
  assumes ok: "gw_ok w" and me: "players w me = Some pl"
  shows "handled_ok (HandleRaidReadyCheckOpcode me d w)"
  unfolding HandleRaidReadyCheckOpcode_def
proof (rule in_group_ok [OF ok me])
  fix a g
  assume g: "groups w a = Some g"
  have 1: "\<exists>w'. Option.bind (BroadcastPacket p False None 0 a w) (OfflineReadyCheck a) = Some w' \<and> gw_ok w'" for p
  proof -
    obtain f1 where f1: "BroadcastPacket p False None 0 a w = Some (add_fx f1 w)" using BroadcastPacket_fx [OF g] by blast
    have "groups (add_fx f1 w) a = Some g" using g by simp
    from OfflineReadyCheck_fx [OF this] show ?thesis using f1 ok by auto
  qed
  have 2: "\<exists>w'. BroadcastReadyCheck p a w = Some w' \<and> gw_ok w'" for p using BroadcastReadyCheck_fx [OF g] ok by (metis gw_ok_fx)
  show "handled_ok (if bb_empty d
       then (if \<not> IsLeader me g \<and> \<not> IsAssistant me g then Some (Inr w)
             else map_option Inr (do {
               w \<leftarrow> BroadcastPacket (put_u64 me (wp_new MSG_RAID_READY_CHECK)) False None 0 a w;
               OfflineReadyCheck a w
             }))
       else reading shr_u8 d (\<lambda>state.
              BroadcastReadyCheck (put_u8 state (put_u64 me (wp_new MSG_RAID_READY_CHECK_CONFIRM))) a w))"
    using ok handled_okI [OF 1] reading_ok [of "\<lambda>s. BroadcastReadyCheck (put_u8 s (put_u64 me (wp_new MSG_RAID_READY_CHECK_CONFIRM))) a w", OF 2]
    by simp
qed

end
