(* ===== verification/GroupInvites.thy ===== *)
theory GroupInvites
  imports GroupRaids
begin

text \<open>Invitations, removals, the timers and the round robin.\<close>

section \<open>Inviting and removing\<close>

lemma Invite_ok:
  assumes ok: "gw_ok w" and me: "players w me = Some pl"
  shows "handled_ok (HandleGroupInviteOpcode env me d w)"
  unfolding HandleGroupInviteOpcode_def
proof (rule reading_ok)
  fix n
  have "\<exists>w'. invite_player env me q m w = Some w' \<and> gw_ok w'" if "FindConnectedPlayerByName env m w = Some q" for m q
  proof -
    have "gw_connected w q" using that by (auto simp: FindConnectedPlayerByName_def split: option.splits if_splits)
    then obtain ql where "players w q = Some ql" by (auto simp: gw_connected_def split: option.splits)
    then show ?thesis by (rule invite_player_keeps [OF ok me])
  qed
  then show "\<exists>w'. (case ge_normalizePlayerName env n of
         None \<Rightarrow> Some (SendPartyResult me PARTY_OP_INVITE n PARTY_RESULT_CANT_FIND_TARGET w)
       | Some membername \<Rightarrow>
           (case FindConnectedPlayerByName env membername w of
              None \<Rightarrow> Some (SendPartyResult me PARTY_OP_INVITE membername PARTY_RESULT_CANT_FIND_TARGET w)
            | Some q \<Rightarrow> invite_player env me q membername w)) = Some w' \<and> gw_ok w'"
    using ok by (auto split: option.splits)
qed

lemma remove_keeps:
  assumes ok: "gw_ok w" and g: "groups w a = Some g" and p: "p \<in> members g"
  shows "\<exists>w'. RemoveFromGroup env (Some a) p k w = Some w' \<and> gw_ok w'"
  using RemoveMember_runs [OF ok g p, of env k] by (auto simp: RemoveFromGroup_def)

lemma invitees_exist:
  assumes "gw_ok w" and "groups w a = Some g"
  shows "\<forall>q \<in> set (m_invitees g). players w q \<noteq> None"
  using links_okD(3) [OF gw_okD(1) [OF assms(1)] assms(2)] by (auto simp: invitees_ok_def bind_eq_Some_conv)

lemma uninvite_keeps:
  assumes ok: "gw_ok w" and q: "players w q \<noteq> None"
  shows "\<exists>w'. UninviteFromGroup env q w = Some w' \<and> gw_ok w'"
  using q UninviteFromGroup_keeps [OF ok] by blast

lemma CanUninvite_runs:
  assumes ok: "gw_ok w" and me: "players w me = Some pl"
  shows "\<exists>res. CanUninviteFromGroup env me w = Some res"
proof (cases "gp_m_group pl")
  case (Some a)
  obtain g where "groups w a = Some g" by (rule linked_group [OF gw_okD(1) [OF ok] me Some])
  then show ?thesis using me Some by (simp add: CanUninviteFromGroup_def)
qed (use me in \<open>simp add: CanUninviteFromGroup_def\<close>)

lemma UninviteGuid_ok:
  assumes ok: "gw_ok w" and me: "players w me = Some pl"
  shows "handled_ok (HandleGroupUninviteGuidOpcode env me d w)"
  unfolding HandleGroupUninviteGuidOpcode_def
proof (rule reading_ok)
  fix p
  obtain res where res: "CanUninviteFromGroup env me w = Some res" using CanUninvite_runs [OF ok me] by blast
  have in_group: "\<exists>w'. (if IsMember p g then RemoveFromGroup env (Some a) p True w
      else do {
        inv \<leftarrow> GetInvited p g w;
        (case inv of Some q \<Rightarrow> UninviteFromGroup env q w
         | None \<Rightarrow> Some (SendPartyResult me PARTY_OP_LEAVE [] PARTY_RESULT_NOT_IN_YOUR_PARTY w))
      }) = Some w' \<and> gw_ok w'" if g: "groups w a = Some g" for a g
  proof (cases "IsMember p g")
    case True
    then obtain m where "getMemberSlot p g = Some m" by (auto simp: IsMember_def)
    from getMemberSlot_in [OF this] have "p \<in> members g" by (auto simp: members_def)
    then show ?thesis using remove_keeps [OF ok g] True by simp
  next
    case False
    note ex = invitees_exist [OF ok g]
    then have i: "GetInvited p g w = Some (find (\<lambda>q. q = p) (m_invitees g))" by (simp add: GetInvited_def)
    show ?thesis
    proof (cases "find (\<lambda>q. q = p) (m_invitees g)")
      case (Some q)
      then have "q \<in> set (m_invitees g)" by (auto simp: find_Some_iff)
      then have "players w q \<noteq> None" using ex by blast
      from uninvite_keeps [OF ok this] show ?thesis using False i Some by simp
    qed (use False i ok in simp)
  qed
  have link: "\<exists>g. groups w a = Some g" if "gp_m_group pl = Some a" for a
    using linked_group [OF gw_okD(1) [OF ok] me that] by metis
  show "\<exists>w'. (if p = me then Some w
       else do {
         res \<leftarrow> CanUninviteFromGroup env me w;
         if res \<noteq> PARTY_RESULT_OK then Some (SendPartyResult me PARTY_OP_LEAVE [] res w)
         else do {
           pl \<leftarrow> players w me;
           (case gp_m_group pl of
              None \<Rightarrow> Some w
            | Some a \<Rightarrow> do {
                g \<leftarrow> groups w a;
                if IsMember p g then RemoveFromGroup env (Some a) p True w
                else do {
                  inv \<leftarrow> GetInvited p g w;
                  (case inv of Some q \<Rightarrow> UninviteFromGroup env q w
                   | None \<Rightarrow> Some (SendPartyResult me PARTY_OP_LEAVE [] PARTY_RESULT_NOT_IN_YOUR_PARTY w))
                }
              })
         }
       }) = Some w' \<and> gw_ok w'"
  proof (cases "gp_m_group pl")
    case None
    then show ?thesis using res me ok by simp
  next
    case (Some a)
    then obtain g where g: "groups w a = Some g" using link by blast
    show ?thesis using in_group [OF g] res me ok Some g
      by (cases "p = me \<or> res \<noteq> PARTY_RESULT_OK") (auto simp del: bind_if)
  qed
qed

lemma Uninvite_ok:
  assumes ok: "gw_ok w" and me: "players w me = Some pl"
  shows "handled_ok (HandleGroupUninviteOpcode env me d w)"
  unfolding HandleGroupUninviteOpcode_def
proof (rule reading_ok)
  fix n
  obtain res where res: "CanUninviteFromGroup env me w = Some res" using CanUninvite_runs [OF ok me] by blast
  have in_group: "\<exists>w'. (let p = GetMemberGUID name g in
      if p = m_leaderGuid g then Some w
      else if p \<noteq> 0 then RemoveFromGroup env (Some a) p True w
      else do {
        inv \<leftarrow> GetInvitedByName name g w;
        (case inv of Some q \<Rightarrow> UninviteFromGroup env q w
         | None \<Rightarrow> Some (SendPartyResult me PARTY_OP_LEAVE name PARTY_RESULT_NOT_IN_YOUR_PARTY w))
      }) = Some w' \<and> gw_ok w'" if g: "groups w a = Some g" for a g name
  proof (cases "GetMemberGUID name g = 0")
    case False
    then obtain m where m: "find (\<lambda>m. ms_name m = name) (m_memberSlots g) = Some m" "GetMemberGUID name g = ms_guid m"
      by (auto simp: GetMemberGUID_def split: option.splits)
    then have "GetMemberGUID name g \<in> members g" by (auto simp: find_Some_iff members_def)
    then show ?thesis using remove_keeps [OF ok g, of "GetMemberGUID name g" env True] False ok
      by (cases "GetMemberGUID name g = m_leaderGuid g") (simp_all add: Let_def)
  next
    case True
    note ex = invitees_exist [OF ok g]
    then have i: "GetInvitedByName name g w = Some (find (\<lambda>q. map_option gp_name (players w q) = Some name) (m_invitees g))"
      by (simp add: GetInvitedByName_def)
    show ?thesis
    proof (cases "find (\<lambda>q. map_option gp_name (players w q) = Some name) (m_invitees g)")
      case (Some q)
      then have "q \<in> set (m_invitees g)" by (auto simp: find_Some_iff)
      then have "players w q \<noteq> None" using ex by blast
      from uninvite_keeps [OF ok this] show ?thesis using True i Some ok by simp
    qed (use True i ok in simp)
  qed
  have link: "\<exists>g. groups w a = Some g" if "gp_m_group pl = Some a" for a
    using linked_group [OF gw_okD(1) [OF ok] me that] by metis
  show "\<exists>w'. (case ge_normalizePlayerName env n of
         None \<Rightarrow> Some w
       | Some name \<Rightarrow> do {
           pl \<leftarrow> players w me;
           if gp_name pl = name then Some w
           else do {
             res \<leftarrow> CanUninviteFromGroup env me w;
             if res \<noteq> PARTY_RESULT_OK then Some (SendPartyResult me PARTY_OP_LEAVE [] res w)
             else
               (case gp_m_group pl of
                  None \<Rightarrow> Some w
                | Some a \<Rightarrow> do {
                    g \<leftarrow> groups w a;
                    let p = GetMemberGUID name g;
                    if p = m_leaderGuid g then Some w
                    else if p \<noteq> 0 then RemoveFromGroup env (Some a) p True w
                    else do {
                      inv \<leftarrow> GetInvitedByName name g w;
                      (case inv of Some q \<Rightarrow> UninviteFromGroup env q w
                       | None \<Rightarrow> Some (SendPartyResult me PARTY_OP_LEAVE name PARTY_RESULT_NOT_IN_YOUR_PARTY w))
                    }
                  })
           }
         }) = Some w' \<and> gw_ok w'"
  proof (cases "ge_normalizePlayerName env n")
    case None
    then show ?thesis using ok by simp
  next
    case name: (Some name)
    show ?thesis
    proof (cases "gp_m_group pl")
      case None
      then show ?thesis using res me ok name by simp
    next
      case (Some a)
      then obtain g where g: "groups w a = Some g" using link by blast
      show ?thesis using in_group [OF g, of name] res me ok Some g name
        by (cases "gp_name pl = name \<or> res \<noteq> PARTY_RESULT_OK") (auto simp del: bind_if)
    qed
  qed
qed

lemma Disband_ok:
  assumes ok: "gw_ok w" and me: "players w me = Some pl"
  shows "\<exists>w'. HandleGroupDisbandOpcode env me w = Some w' \<and> gw_ok w'"
proof (cases "gp_m_group pl")
  case None
  then show ?thesis using ok me by (simp add: HandleGroupDisbandOpcode_def)
next
  case (Some a)
  obtain g where g: "groups w a = Some g" "me \<in> members g" by (rule linked_group [OF gw_okD(1) [OF ok] me Some])
  let ?w = "SendPartyResult me PARTY_OP_LEAVE (gp_name pl) PARTY_RESULT_OK w"
  have "gw_ok ?w" "groups ?w a = Some g" using ok g(1) by (simp_all add: SendPartyResult_def effect_fx)
  from remove_keeps [OF this g(2)] show ?thesis using me Some ok by (simp add: HandleGroupDisbandOpcode_def)
qed

section \<open>Timers, the round robin and the difficulty\<close>

lemma set_logout_time:
  assumes "gw_ok w" and "groups w a = Some g" and "m_memberSlots g \<noteq> []"
  shows "gw_ok (w\<lparr>groups := (groups w)(a \<mapsto> g\<lparr>m_leaderLogoutTime := t\<rparr>)\<rparr>)"
  by (rule cosmetic_keeps [OF assms])
    (use links_okD(1) [OF gw_okD(1) [OF assms(1)] assms(2)] in \<open>simp_all add: same_links_def isRaidGroup_def group_ok_def\<close>)

lemma ChangeLeader_keeps:
  assumes ok: "gw_ok w" and g: "groups w a = Some g" "m_memberSlots g \<noteq> []" and p: "p \<in> members g" "gw_connected w p"
  shows "\<exists>w' n. ChangeLeader env a p w = Some w' \<and> gw_ok w' \<and> groups w' = (groups w)(a \<mapsto> led_by p n g) \<and>
     (\<forall>q. players w' q = None \<longleftrightarrow> players w q = None)"
proof -
  have lk: "links_ok (w\<lparr>groups := (groups w)(a \<mapsto> g\<lparr>m_leaderGuid := m_leaderGuid g\<rparr>)\<rparr>)"
    using gw_okD(1) [OF ok] g(1) by (simp add: same_leader fun_upd_idem)
  obtain w' n where w': "ChangeLeader env a p w = Some w'" "links_ok w'" "groups w' = (groups w)(a \<mapsto> led_by p n g)" "ids_ok w \<longrightarrow> ids_ok w'"
      "\<forall>q. players w' q = None \<longleftrightarrow> players w q = None"
    using ChangeLeader_runs [OF lk g(1) p, of env] by blast
  have "sizes_ok (led_by p n g)" using sizes_ok_same [OF led_by_same] gw_okD(3) [OF ok g(1)] by simp
  moreover have "founder_ok (led_by p n g)" using g(2) same_links_slots(2) [OF led_by_same] by (simp add: founder_ok_def)
  ultimately have "gw_ok w'" by (intro gw_ok_upd [OF ok w'(2)]) (use w'(3,4) gw_okD(2) [OF ok] in \<open>auto split: if_splits\<close>)
  then show ?thesis using w' by blast
qed

text \<open>A created group stays where it is.\<close>

definition created_at :: "nat \<Rightarrow> group_world \<Rightarrow> bool" where
  "created_at a w = (case groups w a of Some g \<Rightarrow> m_memberSlots g \<noteq> [] | None \<Rightarrow> False)"

lemma Group_Update_keeps:
  assumes ok: "gw_ok w" and c: "created_at a w"
  shows "\<exists>w'. Group_Update env a w = Some w' \<and> gw_ok w' \<and> (\<forall>b. created_at b w \<longrightarrow> created_at b w')"
proof -
  obtain g where g: "groups w a = Some g" "m_memberSlots g \<noteq> []" using c by (auto simp: created_at_def split: option.splits)
  note links = gw_okD(1) [OF ok]
  show ?thesis
  proof (cases "m_leaderLogoutTime g \<noteq> 0 \<and> ge_GameTime env > m_leaderLogoutTime g + ge_reconnect_period env")
    case False
    then show ?thesis using ok g by (auto simp: Group_Update_def)
  next
    case True
    let ?f = "find (\<lambda>r. map_option gp_in_world (players w (GetSource r)) = Some True \<and> GetSource r \<noteq> m_leaderGuid g) (m_memberMgr g)"
    have "\<exists>w1 h x. ChangeLeaderToFirstOnlineMember env a w = Some (x, w1) \<and> gw_ok w1 \<and> groups w1 = (groups w)(a \<mapsto> h) \<and> m_memberSlots h \<noteq> []"
    proof (cases ?f)
      case None
      then show ?thesis using ok g
        by (intro exI [of _ w] exI [of _ g] exI [of _ False]) (simp add: ChangeLeaderToFirstOnlineMember_def fun_upd_idem)
    next
      case (Some r)
      then have r: "r \<in> set (m_memberMgr g)" "map_option gp_in_world (players w (GetSource r)) = Some True" by (auto simp: find_Some_iff)
      then have q: "GetSource r \<in> members g" "gw_connected w (GetSource r)"
        using links_source [OF links g(1) r(1)] connected_iff [OF links] by auto
      obtain w1 n where w1: "ChangeLeader env a (GetSource r) w = Some w1" "gw_ok w1" "groups w1 = (groups w)(a \<mapsto> led_by (GetSource r) n g)"
        using ChangeLeader_keeps [OF ok g q] by blast
      have "m_memberSlots (led_by (GetSource r) n g) \<noteq> []" using g(2) same_links_slots(2) [OF led_by_same] by blast
      then show ?thesis using w1 Some g(1) by (auto simp: ChangeLeaderToFirstOnlineMember_def)
    qed
    then obtain w1 h x where w1: "ChangeLeaderToFirstOnlineMember env a w = Some (x, w1)" "gw_ok w1" "groups w1 = (groups w)(a \<mapsto> h)" "m_memberSlots h \<noteq> []"
      by blast
    have h: "groups w1 a = Some h" using w1(3) by simp
    let ?w = "w1\<lparr>groups := (groups w1)(a \<mapsto> h\<lparr>m_leaderLogoutTime := 0\<rparr>)\<rparr>"
    have "Group_Update env a w = Some ?w" using g(1) True w1(1) h by (simp add: Group_Update_def on_group_def)
    moreover have "created_at b ?w" if "created_at b w" for b using that w1(3,4) by (auto simp: created_at_def)
    ultimately show ?thesis using set_logout_time [OF w1(2) h w1(4)] by blast
  qed
qed

lemma each_keeps:
  assumes "\<forall>x \<in> set xs. \<forall>w. P w \<longrightarrow> (\<exists>w'. f x w = Some w' \<and> P w')" and "P w"
  shows "\<exists>w'. each f xs w = Some w' \<and> P w'"
  using assms
proof (induction xs arbitrary: w)
  case (Cons x xs)
  then obtain w1 where w1: "f x w = Some w1" "P w1" by (meson list.set_intros(1))
  then show ?case using Cons.IH [OF _ w1(2)] Cons.prems(1) by simp
qed simp

lemma GroupMgr_Update_keeps:
  assumes ok: "gw_ok w"
  shows "\<exists>w'. GroupMgr_Update env w = Some w' \<and> gw_ok w'"
proof -
  let ?P = "\<lambda>v. gw_ok v \<and> (\<forall>x \<in> set (GroupStore w). created_at (snd x) v)"
  have "created_at a w" if "(k, a) \<in> set (GroupStore w)" for k a
  proof -
    have "smap_find (GroupStore w) k = Some a" using that in_set_find [OF ids_okD(1) [OF gw_okD(2) [OF ok]]] by blast
    from ids_okD(6) [OF gw_okD(2) [OF ok] this] show ?thesis by (auto simp: created_at_def ids_of_def)
  qed
  then have "?P w" using ok by auto
  moreover have "\<forall>x \<in> set (GroupStore w). \<forall>v. ?P v \<longrightarrow> (\<exists>w'. (case x of (_, a) \<Rightarrow> Group_Update env a) v = Some w' \<and> ?P w')"
  proof (intro ballI allI impI)
    fix x v
    assume x: "x \<in> set (GroupStore w)" and v: "?P v"
    then have "created_at (snd x) v" by blast
    from Group_Update_keeps [OF _ this, of env] obtain w' where "Group_Update env (snd x) v = Some w'" "gw_ok w'" "\<forall>b. created_at b v \<longrightarrow> created_at b w'"
      using v by blast
    then show "\<exists>w'. (case x of (_, a) \<Rightarrow> Group_Update env a) v = Some w' \<and> ?P w'" using v by (cases x) auto
  qed
  ultimately show ?thesis using each_keeps [of "GroupStore w" ?P "\<lambda>(_, a). Group_Update env a" w] by (auto simp: GroupMgr_Update_def)
qed

lemma looter_keeps:
  assumes ok: "gw_ok w" and g: "groups w a = Some g" "m_memberSlots g \<noteq> []"
  shows "\<exists>w'. UpdateLooterGuid env a ifneed w = Some w' \<and> gw_ok w'"
proof -
  have set: "\<exists>w'. Option.bind (on_group a (\<lambda>g. g\<lparr>m_looterGuid := p\<rparr>) w) (SendUpdate a) = Some w' \<and> gw_ok w'" for p
  proof -
    let ?h = "g\<lparr>m_looterGuid := p\<rparr>"
    have "gw_ok (w\<lparr>groups := (groups w)(a \<mapsto> ?h)\<rparr>)"
      by (rule cosmetic_keeps [OF ok g]) (use links_okD(1) [OF gw_okD(1) [OF ok] g(1)] in \<open>simp_all add: same_links_def isRaidGroup_def group_ok_def\<close>)
    then have "\<exists>w'. SendUpdate a (w\<lparr>groups := (groups w)(a \<mapsto> ?h)\<rparr>) = Some w' \<and> gw_ok w'" by (rule send_update_keeps) simp
    then show ?thesis using g(1) by (simp add: on_group_Some)
  qed
  let ?old = "GetLooterGuid g"
  show ?thesis
  proof (cases "m_lootMethod g = FREE_FOR_ALL \<or> ifneed \<and> IsMember ?old g \<and> near_loot env w ?old")
    case True
    then show ?thesis using ok g(1) by (auto simp: UpdateLooterGuid_def Let_def)
  next
    case False
    then have "UpdateLooterGuid env a ifneed w = (case find (near_loot env w) (looter_order ?old g) of
        Some p \<Rightarrow> if ?old = p then Some w else Option.bind (on_group a (\<lambda>g. g\<lparr>m_looterGuid := p\<rparr>) w) (SendUpdate a)
      | None \<Rightarrow> Option.bind (on_group a (\<lambda>g. g\<lparr>m_looterGuid := 0\<rparr>) w) (SendUpdate a))"
      using g(1) by (auto simp: UpdateLooterGuid_def Let_def)
    moreover have "\<exists>w'. (if c then Some w else Option.bind (on_group a (\<lambda>g. g\<lparr>m_looterGuid := p\<rparr>) w) (SendUpdate a)) = Some w' \<and> gw_ok w'" for c p
      using set [of p] ok by (cases c) (simp_all only: if_True if_False option.inject ex_simps simp_thms)
    ultimately show ?thesis using set [of 0] by (cases "find (near_loot env w) (looter_order ?old g)") (simp_all only: option.case)
  qed
qed

lemma difficulty_keeps:
  assumes ok: "gw_ok w" and g: "groups w a = Some g" "m_memberSlots g \<noteq> []" and d: "unat d < MAX_DIFFICULTY"
  shows "\<exists>w'. SetGroupDifficulty a d w = Some w' \<and> gw_ok w'"
proof -
  let ?h = "g\<lparr>m_dungeonDifficulty := d\<rparr>" and ?w = "w\<lparr>groups := (groups w)(a \<mapsto> g\<lparr>m_dungeonDifficulty := d\<rparr>)\<rparr>"
  have bg: "m_bgGroup g = None" using links_okD(1) [OF gw_okD(1) [OF ok] g(1)] by (simp add: group_ok_def)
  have keep: "gw_ok ?w"
    by (rule cosmetic_keeps [OF ok g]) (use links_okD(1) [OF gw_okD(1) [OF ok] g(1)] in \<open>simp_all add: same_links_def isRaidGroup_def group_ok_def\<close>)
  have "\<exists>fx. fold (\<lambda>r. gw_effect (SetPlayerDifficulty (GetSource r) d)) rs v = add_fx fx v" for rs v
    by (intro fold_fx) (rule fx_effect)
  then obtain fx where "fold (\<lambda>r. gw_effect (SetPlayerDifficulty (GetSource r) d)) (m_memberMgr g) (Execute (UpdateGroupDifficulty d (m_dbStoreId g)) ?w)
      = add_fx fx (Execute (UpdateGroupDifficulty d (m_dbStoreId g)) ?w)" by blast
  then show ?thesis using g(1) d bg keep by (simp add: SetGroupDifficulty_def on_group_def isBGGroup_def effect_fx)
qed

end
