(* ===== verification/GroupLogins.thy ===== *)
theory GroupLogins
  imports GroupInvites
begin

text \<open>Logging in and out, and all sequences of calls.\<close>

section \<open>Players come and go\<close>

definition same_player :: "gplayer \<Rightarrow> gplayer \<Rightarrow> bool" where
  "same_player pl pl' = (gp_m_group pl' = gp_m_group pl \<and> gp_subGroup pl' = gp_subGroup pl \<and> gp_m_originalGroup pl' = gp_m_originalGroup pl \<and>
     gp_invite pl' = gp_invite pl \<and> gp_connected pl' = gp_connected pl)"

lemma keeps_same_player:
  assumes ok: "links_ok w" and pl: "players w p = Some pl" and same: "same_player pl pl'"
  shows "links_ok (w\<lparr>players := (players w)(p \<mapsto> pl')\<rparr>)" (is "links_ok ?w")
proof (rule links_okI)
  have refs: "group_of ?w q = group_of w q" "invite_of ?w q = invite_of w q" for q using pl same by (simp_all add: same_player_def)
  fix b k
  assume "groups ?w b = Some k"
  then show "group_ok k \<and> refs_ok ?w b k \<and> invitees_ok ?w b k"
    using links_okD(1-3) [OF ok, of b k] refs by (simp add: refs_ok_def invitees_ok_def)
next
  fix q ql
  assume "players ?w q = Some ql"
  then show "player_ok ?w q ql \<and> gp_connected ql"
    using links_okD(4,5) [OF ok, of q] links_okD(4,5) [OF ok pl] same
    by (cases "q = p") (auto simp: player_ok_def same_player_def split: option.splits)
next
  fix b c k n q
  assume "groups ?w b = Some k" "groups ?w c = Some n" "q \<in> members k" "q \<in> members n"
  then show "b = c" using links_okD(6) [OF ok] by auto
qed

abbreviation unfiled :: "guid \<Rightarrow> group \<Rightarrow> group" where
  "unfiled p g \<equiv> g\<lparr>m_memberMgr := filter (\<lambda>r. r \<noteq> GroupRef p) (m_memberMgr g)\<rparr>"

lemma keeps_gone:
  assumes ok: "links_ok w" and pl: "players w p = Some pl" "gp_invite pl = None"
    and G: "\<And>b. groups w' b = map_option (unfiled p) (groups w b)" and P: "players w' = (players w)(p := None)"
  shows "links_ok w'"
proof (rule links_okI)
  fix b k
  assume "groups w' b = Some k"
  then obtain g where g: "groups w b = Some g" "k = unfiled p g" using G by auto
  have "group_ok k" using links_okD(1) [OF ok g(1)] g(2) by (simp add: group_ok_def members_def)
  moreover have "refs_ok w' b k" using links_okD(2) [OF ok g(1)] g(2) P by (fastforce simp: refs_ok_def)
  moreover have "p \<notin> set (m_invitees g)" using links_okD(3) [OF ok g(1)] pl by (auto simp: invitees_ok_def)
  then have "invitees_ok w' b k" using links_okD(3) [OF ok g(1)] g(2) P by (auto simp: invitees_ok_def)
  ultimately show "group_ok k \<and> refs_ok w' b k \<and> invitees_ok w' b k" by blast
next
  fix q ql
  assume q: "players w' q = Some ql"
  then have ne: "q \<noteq> p" and ql: "players w q = Some ql" using P by (auto split: if_splits)
  have mem: "members (unfiled p g) = members g" for g by (simp add: members_def)
  show "player_ok w' q ql \<and> gp_connected ql" using links_okD(4,5) [OF ok ql] G ne
    by (cases "gp_m_group ql") (auto simp: player_ok_def mem)
next
  fix b c k n q
  assume "groups w' b = Some k" "groups w' c = Some n" "q \<in> members k" "q \<in> members n"
  moreover have "members (unfiled p g) = members g" for g by (simp add: members_def)
  ultimately obtain g h where "groups w b = Some g" "groups w c = Some h" "q \<in> members g" "q \<in> members h"
    using G by auto
  then show "b = c" by (rule links_okD(6) [OF ok])
qed

lemma keeps_enter:
  assumes ok: "links_ok w" and new: "players w p = None"
    and pl: "gp_invite pl = None" "gp_m_originalGroup pl = None" "gp_connected pl"
    and G: "case gp_m_group pl of
        None \<Rightarrow> groups w' = groups w \<and> (\<forall>a g. groups w a = Some g \<longrightarrow> p \<notin> members g)
      | Some a \<Rightarrow> (\<exists>g m. groups w a = Some g \<and> m \<in> set (m_memberSlots g) \<and> ms_guid m = p \<and> ms_group m = gp_subGroup pl \<and>
                   groups w' = (groups w)(a \<mapsto> g\<lparr>m_memberMgr := GroupRef p # m_memberMgr g\<rparr>))"
    and P: "players w' = (players w)(p \<mapsto> pl)"
  shows "links_ok w'"
proof (rule links_okI)
  have unref: "GroupRef p \<notin> set (m_memberMgr g)" "p \<notin> set (m_invitees g)" if "groups w b = Some g" for b g
    using links_okD(2,3) [OF ok that] new by (auto simp: refs_ok_def invitees_ok_def)
  have old: "\<exists>g. groups w b = Some g \<and> (k = g \<or> k = g\<lparr>m_memberMgr := GroupRef p # m_memberMgr g\<rparr> \<and> gp_m_group pl = Some b)"
    if "groups w' b = Some k" for b k
    using G that by (cases "gp_m_group pl") (auto split: if_splits)
  { fix b k
    assume "groups w' b = Some k"
    then obtain g where g: "groups w b = Some g" "k = g \<or> k = g\<lparr>m_memberMgr := GroupRef p # m_memberMgr g\<rparr> \<and> gp_m_group pl = Some b" using old by blast
    have k: "group_ok k" using links_okD(1) [OF ok g(1)] g(2) unref [OF g(1)] by (auto simp: group_ok_def members_def)
    have r: "r \<in> set (m_memberMgr g) \<Longrightarrow> \<exists>q. r = GroupRef q \<and> group_of w' q = Some b" for r
      using links_okD(2) [OF ok g(1)] P new by (fastforce simp: refs_ok_def)
    have "gp_m_group pl = Some b \<Longrightarrow> group_of w' p = Some b" using P by simp
    then have "refs_ok w' b k" using g(2) r unfolding refs_ok_def
      by (metis (no_types, lifting) group.select_convs(4) group.surjective group.update_convs(4) set_ConsD)
    moreover have "invitees_ok w' b k" using links_okD(3) [OF ok g(1)] g(2) P unref [OF g(1)] by (auto simp: invitees_ok_def)
    ultimately show "group_ok k \<and> refs_ok w' b k \<and> invitees_ok w' b k" using k by blast
  next
    fix q ql
    assume q: "players w' q = Some ql"
    have mem: "members k = members g" "m_invitees k = m_invitees g" "set (m_memberMgr g) \<subseteq> set (m_memberMgr k)" "m_memberSlots k = m_memberSlots g"
      if "groups w' b = Some k" "groups w b = Some g" for b k g
      using old [OF that(1)] that(2) by (auto simp: members_def)
    have kept: "\<exists>k. groups w' b = Some k" if "groups w b = Some g" for b g
      using G that by (cases "gp_m_group pl") auto
    show "player_ok w' q ql \<and> gp_connected ql"
    proof (cases "q = p")
      case True
      then have "ql = pl" using q P by simp
      then show ?thesis using pl G True by (cases "gp_m_group pl") (auto simp: player_ok_def)
    next
      case False
      then have ql: "players w q = Some ql" using q P by simp
      show ?thesis
      proof (cases "gp_m_group ql")
        case None
        then show ?thesis using links_okD(4,5) [OF ok ql] old kept mem unfolding player_ok_def
          by (simp) (metis (no_types, lifting))
      next
        case (Some a)
        then obtain g m where g: "groups w a = Some g" "GroupRef q \<in> set (m_memberMgr g)" "gp_invite ql = None"
          "m \<in> set (m_memberSlots g)" "ms_guid m = q" "ms_group m = gp_subGroup ql" using linked_group [OF ok ql] by metis
        obtain k where k: "groups w' a = Some k" using kept [OF g(1)] by blast
        show ?thesis using links_okD(4,5) [OF ok ql] Some g k mem [OF k g(1)] by (auto simp: player_ok_def)
      qed
    qed
  next
    fix b c k n q
    assume a: "groups w' b = Some k" "groups w' c = Some n" "q \<in> members k" "q \<in> members n"
    obtain g h where "groups w b = Some g" "members k = members g" "groups w c = Some h" "members n = members h"
      using old [OF a(1)] old [OF a(2)] by (auto simp: members_def)
    then show "b = c" using links_okD(6) [OF ok] a(3,4) by metis
  }
qed

lemma CheckLeader_runs:
  assumes "groups w a = Some g"
  shows "\<exists>t. CheckLeader env a p x w = Some (w\<lparr>groups := (groups w)(a \<mapsto> g\<lparr>m_leaderLogoutTime := t\<rparr>)\<rparr>)"
proof -
  have old: "w\<lparr>groups := (groups w)(a \<mapsto> g\<lparr>m_leaderLogoutTime := m_leaderLogoutTime g\<rparr>)\<rparr> = w" using assms by (simp add: fun_upd_idem)
  have "CheckLeader env a p x w = Some w \<or> (\<exists>t. CheckLeader env a p x w = Some (w\<lparr>groups := (groups w)(a \<mapsto> g\<lparr>m_leaderLogoutTime := t\<rparr>)\<rparr>))"
  proof -
    have on: "on_group a (\<lambda>g. g\<lparr>m_leaderLogoutTime := t\<rparr>) w = Some (w\<lparr>groups := (groups w)(a \<mapsto> g\<lparr>m_leaderLogoutTime := t\<rparr>)\<rparr>)" for t
      using assms by (simp add: on_group_def)
    show ?thesis unfolding CheckLeader_def assms Option.bind.bind_lunit on
      by (split if_split, split if_split, split if_split) blast
  qed
  then show ?thesis
  proof
    assume c: "CheckLeader env a p x w = Some w"
    have "CheckLeader env a p x w = Some (w\<lparr>groups := (groups w)(a \<mapsto> g\<lparr>m_leaderLogoutTime := m_leaderLogoutTime g\<rparr>)\<rparr>)" unfolding old by (rule c)
    then show ?thesis by blast
  qed
qed

lemma delete_player_runs:
  assumes "players w p = Some pl" and "gp_m_originalGroup pl = None"
  shows "gp_m_group pl = None \<Longrightarrow> delete_player p w = Some (w\<lparr>players := (players w)(p := None)\<rparr>)"
    and "gp_m_group pl = Some a \<Longrightarrow> groups w a = Some g \<Longrightarrow>
         delete_player p w = Some (w\<lparr>groups := (groups w)(a \<mapsto> unfiled p g), players := (players w)(p := None)\<rparr>)"
proof -
  assume n: "gp_m_group pl = None"
  have "unlink_group p w = Some (w\<lparr>players := (players w)(p \<mapsto> pl\<lparr>gp_m_group := None\<rparr>)\<rparr>)"
    using assms n by (simp add: unlink_group_def drop_ref_def on_player_def)
  then show "delete_player p w = Some (w\<lparr>players := (players w)(p := None)\<rparr>)"
    using assms by (simp add: delete_player_def unlink_original_def drop_ref_def on_player_def)
next
  assume a: "gp_m_group pl = Some a" "groups w a = Some g"
  have "unlink_group p w = Some (w\<lparr>groups := (groups w)(a \<mapsto> unfiled p g), players := (players w)(p \<mapsto> pl\<lparr>gp_m_group := None\<rparr>)\<rparr>)"
    using assms a by (simp add: unlink_group_def drop_ref_def on_player_def)
  then show "delete_player p w = Some (w\<lparr>groups := (groups w)(a \<mapsto> unfiled p g), players := (players w)(p := None)\<rparr>)"
    using assms by (simp add: delete_player_def unlink_original_def drop_ref_def on_player_def)
qed

lemma CheckLeader_fx:
  assumes g: "groups w a = Some g"
  shows "\<exists>fx t. Option.bind (CheckLeader env a p x w) (SendUpdate a) = Some (add_fx fx (w\<lparr>groups := (groups w)(a \<mapsto> g\<lparr>m_leaderLogoutTime := t\<rparr>)\<rparr>))"
proof -
  obtain t where t: "CheckLeader env a p x w = Some (w\<lparr>groups := (groups w)(a \<mapsto> g\<lparr>m_leaderLogoutTime := t\<rparr>)\<rparr>)"
    using CheckLeader_runs [OF g] by blast
  have "groups (w\<lparr>groups := (groups w)(a \<mapsto> g\<lparr>m_leaderLogoutTime := t\<rparr>)\<rparr>) a = Some (g\<lparr>m_leaderLogoutTime := t\<rparr>)" by simp
  from SendUpdate_fx [OF this] show ?thesis using t by auto
qed

lemma logout_keeps:
  assumes ok: "gw_ok w" and pl: "players w p = Some pl"
  shows "\<exists>w'. logout_player env p w = Some w' \<and> gw_ok w'"
proof -
  let ?w1 = "w\<lparr>players := (players w)(p \<mapsto> pl\<lparr>gp_logout := True\<rparr>)\<rparr>"
  have 1: "on_player p (gp_logout_update (\<lambda>_. True)) w = Some ?w1" using pl by (simp add: on_player_def)
  have "links_ok ?w1" by (rule keeps_same_player [OF gw_okD(1) [OF ok] pl]) (simp add: same_player_def)
  then have ok1: "gw_ok ?w1" by (rule gw_ok_upd [OF ok]) (use gw_okD(2) [OF ok] in auto)
  have p1: "players ?w1 p = Some (pl\<lparr>gp_logout := True\<rparr>)" by simp
  obtain w2 where 2: "UninviteFromGroup env p ?w1 = Some w2" "gw_ok w2" "\<forall>q. players w2 q = None \<longleftrightarrow> players ?w1 q = None" "invite_of w2 p = None"
    using UninviteFromGroup_keeps [OF ok1 p1] by blast
  have "players w2 p \<noteq> None" using 2(3) by simp
  then obtain ql where ql: "players w2 p = Some ql" "gp_invite ql = None" using 2(4) by auto
  note links = gw_okD(1) [OF 2(2)]
  have orig: "gp_m_originalGroup ql = None" using links_okD(4) [OF links ql(1)] by (simp add: player_ok_def)
  let ?ql = "ql\<lparr>gp_in_world := False, gp_connected := False\<rparr>" and ?w3 = "w2\<lparr>players := (players w2)(p \<mapsto> ql\<lparr>gp_in_world := False, gp_connected := False\<rparr>)\<rparr>"
  have 3: "on_player p (\<lambda>pl. pl\<lparr>gp_in_world := False, gp_connected := False\<rparr>) w2 = Some ?w3" using ql by (simp add: on_player_def)
  show ?thesis
  proof (cases "gp_m_group ql")
    case None
    let ?w = "w2\<lparr>players := (players w2)(p := None)\<rparr>"
    have "logout_player env p w = Some ?w"
      using 1 2(1) 3 None delete_player_runs(1) [of ?w3 p ?ql] orig by (simp add: logout_player_def logout_group_def)
    moreover have "unfiled p g = g" if "groups w2 b = Some g" for b g
    proof -
      have "GroupRef p \<notin> set (m_memberMgr g)" using links_okD(2) [OF links that] ql None by (auto simp: refs_ok_def)
      then have "filter (\<lambda>r. r \<noteq> GroupRef p) (m_memberMgr g) = m_memberMgr g" by (auto simp: filter_id_conv)
      then show ?thesis by simp
    qed
    then have "groups ?w b = map_option (unfiled p) (groups w2 b)" for b by (cases "groups w2 b") simp_all
    then have "links_ok ?w" by (rule keeps_gone [OF links ql]) simp
    then have "gw_ok ?w" by (rule gw_ok_upd [OF 2(2)]) (use gw_okD(2) [OF 2(2)] in auto)
    ultimately show ?thesis by blast
  next
    case (Some a)
    obtain g where g: "groups w2 a = Some g" "m_memberSlots g \<noteq> []" by (rule linked_group [OF links ql(1) Some])
    have g3: "groups ?w3 a = Some g" using g(1) by simp
    obtain fx t where 4: "Option.bind (CheckLeader env a p True ?w3) (SendUpdate a) = Some (add_fx fx (?w3\<lparr>groups := (groups ?w3)(a \<mapsto> g\<lparr>m_leaderLogoutTime := t\<rparr>)\<rparr>))"
      using CheckLeader_fx [OF g3] by blast
    let ?g = "g\<lparr>m_leaderLogoutTime := t\<rparr>" and ?v = "w2\<lparr>groups := (groups w2)(a \<mapsto> g\<lparr>m_leaderLogoutTime := t\<rparr>)\<rparr>"
    have v: "gw_ok ?v" by (rule set_logout_time [OF 2(2) g])
    let ?w = "add_fx fx (w2\<lparr>groups := (groups w2)(a \<mapsto> unfiled p ?g), players := (players w2)(p := None)\<rparr>)"
    let ?w4 = "add_fx fx (?w3\<lparr>groups := (groups ?w3)(a \<mapsto> ?g)\<rparr>)"
    have "delete_player p ?w4 = Some ?w" using delete_player_runs(2) [of ?w4 p ?ql a ?g] Some orig by simp
    moreover have "logout_group env p ?w1 = Some ?w4"
      using 2(1) 3 Some 4 by (simp add: logout_group_def)
    ultimately have run: "logout_player env p w = Some ?w" using 1 by (simp add: logout_player_def)
    have G: "groups ?w b = map_option (unfiled p) (groups ?v b)" for b
    proof (cases "b = a")
      case False
      have "GroupRef p \<notin> set (m_memberMgr k)" if "groups w2 b = Some k" for k
        using links_okD(2) [OF links that] ql Some False by (auto simp: refs_ok_def)
      then have "filter (\<lambda>r. r \<noteq> GroupRef p) (m_memberMgr k) = m_memberMgr k" if "groups w2 b = Some k" for k
        using that by (auto simp: filter_id_conv)
      then show ?thesis using False by (cases "groups w2 b") simp_all
    qed simp
    have "links_ok ?w" by (rule keeps_gone [OF gw_okD(1) [OF v] _ ql(2) G]) (use ql(1) in simp_all)
    moreover have "ids_ok ?w" using ids_upd [OF gw_okD(2) [OF 2(2)] g(1), of "unfiled p ?g"] by (simp add: ids_of_def)
    then have "gw_ok ?w" using \<open>links_ok ?w\<close> by (intro gw_ok_upd [OF v])
      (use gw_okD(3,4) [OF v, of a ?g] in \<open>auto simp: sizes_ok_def founder_ok_def isRaidGroup_def split: if_splits\<close>)
    ultimately show ?thesis using run by blast
  qed
qed

text \<open>The row of a character is that of the group he is a member of.\<close>

definition row_matches :: "group_world \<Rightarrow> u32 option \<Rightarrow> guid \<Rightarrow> bool" where
  "row_matches w row p =
     (case row of
        None \<Rightarrow> \<forall>a g. groups w a = Some g \<longrightarrow> p \<notin> members g
      | Some s \<Rightarrow> (case GetGroupByDbStoreId s w of
          None \<Rightarrow> False
        | Some a \<Rightarrow> (case groups w a of None \<Rightarrow> False | Some g \<Rightarrow> p \<in> members g)))"

lemma new_player_simps [simp]:
  "gp_m_group (new_player n x) = None" "gp_m_originalGroup (new_player n x) = None" "gp_invite (new_player n x) = None"
  by (simp_all add: new_player_def)

lemma SetGroup_runs:
  assumes "groups w a = Some g" and "players w p = Some pl" and "gp_m_group pl = None" and "unat i < 128"
  shows "Player_SetGroup (Some a) i p w = Some (w\<lparr>groups := (groups w)(a \<mapsto> g\<lparr>m_memberMgr := GroupRef p # m_memberMgr g\<rparr>),
     players := (players w)(p \<mapsto> pl\<lparr>gp_m_group := Some a, gp_subGroup := i\<rparr>)\<rparr>)"
  using assms
  by (simp add: Player_SetGroup_def link_group_def unlink_group_def drop_ref_def on_player_def LinkMember_def on_group_def)

lemma leader_flag_option:
  assumes "players w p = Some pl"
  shows "\<exists>v. (if b then Some w else SetLeaderFlag False p w) = Some (w\<lparr>players := (players w)(p \<mapsto> pl\<lparr>gp_leader_flag := v\<rparr>)\<rparr>)"
proof (cases b)
  case True
  have "w\<lparr>players := (players w)(p \<mapsto> pl\<lparr>gp_leader_flag := gp_leader_flag pl\<rparr>)\<rparr> = w" using assms by (simp add: fun_upd_idem)
  then show ?thesis using True by metis
qed (use assms in \<open>auto simp: SetLeaderFlag_def on_player_def\<close>)

lemma Player_LoadGroup_step:
  assumes "GetGroupByDbStoreId s w = Some a" and "groups w a = Some g" and "Player_SetGroup (Some a) (GetMemberGroup p g) p w = Some w1"
    and "players w1 p = Some ql" and "gp_m_group ql = Some a" and "groups w1 a = Some h"
    and "f = (if ge_Level env p \<ge> LEVELREQUIREMENT_HEROIC then [SetPlayerDifficulty p (GetGroupDifficulty False g)] else [])"
  shows "Player_LoadGroup env (Some s) p w = (if IsLeader p h then Some (add_fx f w1) else SetLeaderFlag False p (add_fx f w1))"
  using assms by (simp add: Player_LoadGroup_def effect_fx)

lemma login_alone:
  assumes ok: "gw_ok w" and new: "players w p = None" and row: "row_matches w None p"
  shows "\<exists>w'. login_player env (new_player n x) None p w = Some w' \<and> gw_ok w'"
proof -
  let ?ql = "(new_player n x)\<lparr>gp_leader_flag := False, gp_in_world := True, gp_connected := True\<rparr>"
  let ?w = "w\<lparr>players := (players w)(p \<mapsto> ?ql)\<rparr>"
  have "login_player env (new_player n x) None p w = Some ?w"
    by (simp add: login_player_def Player_LoadGroup_def SetLeaderFlag_def on_player_def announce_login_def)
  moreover have "links_ok ?w" by (rule keeps_enter [OF gw_okD(1) [OF ok] new, where pl = ?ql]) (use row in \<open>simp_all add: row_matches_def\<close>)
  then have "gw_ok ?w" by (rule gw_ok_upd [OF ok]) (use gw_okD(2) [OF ok] in simp_all)
  ultimately show ?thesis by blast
qed

text \<open>The run of a login into group \<open>a\<close>: the reference, the flag of the leader, the announcement.\<close>

lemma login_run:
  fixes n :: string and x :: bool
  assumes a: "GetGroupByDbStoreId s w = Some a" and g: "groups w a = Some g" and m: "getMemberSlot p g = Some m" "unat (ms_group m) < 128"
  defines "h \<equiv> g\<lparr>m_memberMgr := GroupRef p # m_memberMgr g\<rparr>" and "ql \<equiv> (new_player n x)\<lparr>gp_m_group := Some a, gp_subGroup := ms_group m\<rparr>"
  shows "\<exists>fx t v. login_player env (new_player n x) (Some s) p w = Some (add_fx fx (w\<lparr>groups := (groups w)(a \<mapsto> h\<lparr>m_leaderLogoutTime := t\<rparr>),
     players := (players w)(p \<mapsto> ql\<lparr>gp_leader_flag := v, gp_in_world := True, gp_connected := True\<rparr>)\<rparr>))"
proof -
  let ?pl = "new_player n x" and ?w0 = "w\<lparr>players := (players w)(p \<mapsto> new_player n x)\<rparr>"
  let ?w1 = "w\<lparr>groups := (groups w)(a \<mapsto> h), players := (players w)(p \<mapsto> ql)\<rparr>"
  have 1: "Player_SetGroup (Some a) (GetMemberGroup p g) p ?w0 = Some ?w1"
    using SetGroup_runs [of ?w0 a g p ?pl "ms_group m"] g m by (simp add: GetMemberGroup_def h_def ql_def)
  let ?f = "if ge_Level env p \<ge> LEVELREQUIREMENT_HEROIC then [SetPlayerDifficulty p (GetGroupDifficulty False g)] else []"
  have pl: "players ?w1 p = Some ql" "gp_m_group ql = Some a" "groups ?w1 a = Some h" by (simp_all add: ql_def)
  obtain v where v: "(if IsLeader p h then Some (add_fx ?f ?w1) else SetLeaderFlag False p (add_fx ?f ?w1)) =
      Some (add_fx ?f (?w1\<lparr>players := (players ?w1)(p \<mapsto> ql\<lparr>gp_leader_flag := v\<rparr>)\<rparr>))"
    using leader_flag_option [of "add_fx ?f ?w1" p ql "IsLeader p h"] by auto
  let ?rl = "ql\<lparr>gp_leader_flag := v, gp_in_world := True, gp_connected := True\<rparr>"
  let ?w2 = "w\<lparr>groups := (groups w)(a \<mapsto> h), players := (players w)(p \<mapsto> ?rl)\<rparr>"
  have load: "Player_LoadGroup env (Some s) p ?w0 = Some (add_fx ?f (?w1\<lparr>players := (players ?w1)(p \<mapsto> ql\<lparr>gp_leader_flag := v\<rparr>)\<rparr>))"
    unfolding v [symmetric] by (rule Player_LoadGroup_step [OF _ _ 1 pl refl]) (use a g in simp_all)
  obtain fx t where "Option.bind (CheckLeader env a p False (add_fx ?f ?w2)) (SendUpdate a) =
      Some (add_fx fx (?w2\<lparr>groups := (groups ?w2)(a \<mapsto> h\<lparr>m_leaderLogoutTime := t\<rparr>)\<rparr>))"
    using CheckLeader_fx [of "add_fx ?f ?w2" a h env p False] by auto
  then have "login_player env ?pl (Some s) p w = Some (add_fx fx (?w2\<lparr>groups := (groups ?w2)(a \<mapsto> h\<lparr>m_leaderLogoutTime := t\<rparr>)\<rparr>))"
    using load pl(2) by (simp add: login_player_def on_player_def announce_login_def)
  then show ?thesis by auto
qed

lemma login_member:
  assumes ok: "gw_ok w" and new: "players w p = None" and a: "GetGroupByDbStoreId s w = Some a" and g: "groups w a = Some g" "p \<in> members g"
  shows "\<exists>w'. login_player env (new_player n x) (Some s) p w = Some w' \<and> gw_ok w'"
proof -
  note links = gw_okD(1) [OF ok] and ids = gw_okD(2) [OF ok]
  obtain m where m: "getMemberSlot p g = Some m"
    using g(2) by (cases "getMemberSlot p g") (auto simp: getMemberSlot_def find_None_iff members_def)
  note mm = getMemberSlot_in [OF m]
  have ne: "m_memberSlots g \<noteq> []" using mm by auto
  have i: "unat (ms_group m) < 128" using small_slots(2) [OF ok g(1)] mm by fastforce
  let ?g = "g\<lparr>m_memberMgr := GroupRef p # m_memberMgr g\<rparr>" and ?ql = "(new_player n x)\<lparr>gp_m_group := Some a, gp_subGroup := ms_group m\<rparr>"
  obtain fx t v where run: "login_player env (new_player n x) (Some s) p w = Some (add_fx fx (w\<lparr>groups := (groups w)(a \<mapsto> ?g\<lparr>m_leaderLogoutTime := t\<rparr>),
      players := (players w)(p \<mapsto> ?ql\<lparr>gp_leader_flag := v, gp_in_world := True, gp_connected := True\<rparr>)\<rparr>))"
    using login_run [OF a g(1) m i] by blast
  let ?rl = "?ql\<lparr>gp_leader_flag := v, gp_in_world := True, gp_connected := True\<rparr>"
  let ?w2 = "w\<lparr>groups := (groups w)(a \<mapsto> ?g), players := (players w)(p \<mapsto> ?rl)\<rparr>"
  have "links_ok ?w2" by (rule keeps_enter [OF links new, where pl = ?rl]) (use g(1) mm in auto)
  moreover have "ids_ok ?w2" using ids_upd [OF ids g(1), of ?g] by (simp add: ids_of_def)
  ultimately have ok2: "gw_ok ?w2" by (rule gw_ok_upd [OF ok])
    (use gw_okD(3,4) [OF ok g(1)] in \<open>auto simp: sizes_ok_def founder_ok_def isRaidGroup_def split: if_splits\<close>)
  have g2: "groups ?w2 a = Some ?g" by simp
  have "gw_ok (?w2\<lparr>groups := (groups ?w2)(a \<mapsto> ?g\<lparr>m_leaderLogoutTime := t\<rparr>)\<rparr>)" by (rule set_logout_time [OF ok2 g2]) (simp add: ne)
  then show ?thesis using run by simp
qed

lemma login_keeps:
  assumes ok: "gw_ok w" and new: "players w p = None" and row: "row_matches w row p"
  shows "\<exists>w'. login_player env (new_player n x) row p w = Some w' \<and> gw_ok w'"
proof (cases row)
  case None
  then show ?thesis using login_alone [OF ok new] row by simp
next
  case (Some s)
  then obtain a g where "GetGroupByDbStoreId s w = Some a" "groups w a = Some g" "p \<in> members g"
    using row by (auto simp: row_matches_def split: option.splits)
  from login_member [OF ok new this] show ?thesis using Some by simp
qed

end
