(* ===== verification/Guarded.thy ===== *)
theory Guarded
  imports Main
begin

text \<open>
  Machines whose operations may be called in some states only and may fail in the others:
  reachable states, and the contract that makes every allowed call of a reachable state return.
\<close>

inductive reachable :: "('s \<Rightarrow> 'op \<Rightarrow> 's option) \<Rightarrow> ('op \<Rightarrow> 's \<Rightarrow> bool) \<Rightarrow> 's \<Rightarrow> 's \<Rightarrow> bool"
  for exec :: "'s \<Rightarrow> 'op \<Rightarrow> 's option" and guard :: "'op \<Rightarrow> 's \<Rightarrow> bool" and s0 :: 's
where
  at_start: "reachable exec guard s0 s0"
| by_call: "reachable exec guard s0 s \<Longrightarrow> guard c s \<Longrightarrow> exec s c = Some s' \<Longrightarrow> reachable exec guard s0 s'"

text \<open>The same with the calls made, in order.\<close>

inductive runs :: "('s \<Rightarrow> 'op \<Rightarrow> 's option) \<Rightarrow> ('op \<Rightarrow> 's \<Rightarrow> bool) \<Rightarrow> 's \<Rightarrow> 'op list \<Rightarrow> 's \<Rightarrow> bool"
  for exec :: "'s \<Rightarrow> 'op \<Rightarrow> 's option" and guard :: "'op \<Rightarrow> 's \<Rightarrow> bool" and s0 :: 's
where
  no_call: "runs exec guard s0 [] s0"
| one_more: "runs exec guard s0 cs s \<Longrightarrow> guard c s \<Longrightarrow> exec s c = Some s' \<Longrightarrow>
    runs exec guard s0 (cs @ [c]) s'"

lemma runs_reachable: "runs exec guard s0 cs s \<Longrightarrow> reachable exec guard s0 s"
  by (induction rule: runs.induct) (auto intro: reachable.intros)

locale guarded =
  fixes exec :: "'s \<Rightarrow> 'op \<Rightarrow> 's option"
    and guard :: "'op \<Rightarrow> 's \<Rightarrow> bool"
    and inv :: "'s \<Rightarrow> bool"
  assumes returns: "inv s \<Longrightarrow> guard c s \<Longrightarrow> \<exists>s'. exec s c = Some s' \<and> inv s'"
begin

lemma reachable_inv: "reachable exec guard s0 s \<Longrightarrow> inv s0 \<Longrightarrow> inv s"
proof (induction rule: reachable.induct)
  case (by_call s c s')
  then show ?case using returns [of s c] by auto
qed

lemma runs_inv: "runs exec guard s0 cs s \<Longrightarrow> inv s0 \<Longrightarrow> inv s"
  using reachable_inv [OF runs_reachable] .

lemma never_fails: "reachable exec guard s0 s \<Longrightarrow> inv s0 \<Longrightarrow> guard c s \<Longrightarrow> exec s c \<noteq> None"
  using returns [OF reachable_inv] by fastforce

end

end
