(* ===== verification/GroupReach.thy ===== *)
theory GroupReach
  imports GroupLogins Guarded
begin

text \<open>
  All calls that reach the groups of a server, from its start: the packets of clients, logins and
  logouts, the update of the manager, the round robin, the difficulty and what the loot rolls do.
\<close>

datatype group_call =
    InviteCall guid world_packet
  | AcceptCall guid
  | DeclineCall guid
  | UninviteGuidCall guid world_packet
  | UninviteCall guid world_packet
  | SetLeaderCall guid world_packet
  | LeaveCall guid
  | LootMethodCall guid world_packet
  | MinimapPingCall guid world_packet
  | RandomRollCall guid world_packet
  | RaidTargetCall guid world_packet
  | RaidConvertCall guid
  | ChangeSubGroupCall guid world_packet
  | SwapSubGroupCall guid world_packet
  | AssistantCall guid world_packet
  | AssignmentCall guid world_packet
  | ReadyCheckCall guid world_packet
  | UpdateCall
  | LooterCall nat bool
  | DifficultyCall nat u8
  | LoginCall string bool "u32 option" guid
  | LogoutCall guid
  | RollVoteCall guid world_packet
  | LootCall nat "roll list"

fun run_call :: "group_env \<Rightarrow> group_call \<Rightarrow> group_world \<Rightarrow> handled" where
  "run_call env (InviteCall me d) w = HandleGroupInviteOpcode env me d w"
| "run_call env (AcceptCall me) w = map_option Inr (HandleGroupAcceptOpcode env me w)"
| "run_call env (DeclineCall me) w = map_option Inr (HandleGroupDeclineOpcode me w)"
| "run_call env (UninviteGuidCall me d) w = HandleGroupUninviteGuidOpcode env me d w"
| "run_call env (UninviteCall me d) w = HandleGroupUninviteOpcode env me d w"
| "run_call env (SetLeaderCall me d) w = HandleGroupSetLeaderOpcode env me d w"
| "run_call env (LeaveCall me) w = map_option Inr (HandleGroupDisbandOpcode env me w)"
| "run_call env (LootMethodCall me d) w = HandleLootMethodOpcode me d w"
| "run_call env (MinimapPingCall me d) w = HandleMinimapPingOpcode me d w"
| "run_call env (RandomRollCall me d) w = HandleRandomRollOpcode env me d w"
| "run_call env (RaidTargetCall me d) w = HandleRaidTargetUpdateOpcode me d w"
| "run_call env (RaidConvertCall me) w = HandleGroupRaidConvertOpcode env me w"
| "run_call env (ChangeSubGroupCall me d) w = HandleGroupChangeSubGroupOpcode env me d w"
| "run_call env (SwapSubGroupCall me d) w = HandleGroupSwapSubGroupOpcode env me d w"
| "run_call env (AssistantCall me d) w = HandleGroupAssistantLeaderOpcode me d w"
| "run_call env (AssignmentCall me d) w = HandlePartyAssignmentOpcode me d w"
| "run_call env (ReadyCheckCall me d) w = HandleRaidReadyCheckOpcode me d w"
| "run_call env UpdateCall w = map_option Inr (GroupMgr_Update env w)"
| "run_call env (LooterCall a ifneed) w = map_option Inr (UpdateLooterGuid env a ifneed w)"
| "run_call env (DifficultyCall a d) w = map_option Inr (SetGroupDifficulty a d w)"
| "run_call env (LoginCall n x row p) w = map_option Inr (login_player env (new_player n x) row p w)"
| "run_call env (LogoutCall p) w = map_option Inr (logout_player env p w)"
| "run_call env (RollVoteCall me d) w = HandleLootRoll env me d w"
| "run_call env (LootCall a rs) w = map_option Inr (on_group a (\<lambda>g. g\<lparr>m_RollId := rs\<rparr>) w)"

text \<open>
  Who calls: a client has a player; numbers are left when a group may come into being; an
  invitation to a group that exists is not declined while its leader is online (see
  \<open>declined_invitation_dangles\<close>); a created group is asked for its looter and difficulty; the
  database agrees with the groups; a vote is the first of the player in a roll whose item is still
  there; what else the loot code does to the rolls of a group leaves their counters exact.
\<close>

fun call_allowed :: "group_call \<Rightarrow> group_world \<Rightarrow> bool" where
  "call_allowed (InviteCall me d) w = (players w me \<noteq> None)"
| "call_allowed (AcceptCall me) w = (players w me \<noteq> None \<and> ids_left w)"
| "call_allowed (DeclineCall me) w = (case players w me of None \<Rightarrow> False | Some pl \<Rightarrow>
     (case Option.bind (gp_invite pl) (groups w) of None \<Rightarrow> True | Some g \<Rightarrow> IsCreated g \<longrightarrow> \<not> gw_connected w (m_leaderGuid g)))"
| "call_allowed (UninviteGuidCall me d) w = (players w me \<noteq> None)"
| "call_allowed (UninviteCall me d) w = (players w me \<noteq> None)"
| "call_allowed (SetLeaderCall me d) w = (players w me \<noteq> None)"
| "call_allowed (LeaveCall me) w = (players w me \<noteq> None)"
| "call_allowed (LootMethodCall me d) w = (players w me \<noteq> None)"
| "call_allowed (MinimapPingCall me d) w = (players w me \<noteq> None)"
| "call_allowed (RandomRollCall me d) w = (players w me \<noteq> None)"
| "call_allowed (RaidTargetCall me d) w = (players w me \<noteq> None)"
| "call_allowed (RaidConvertCall me) w = (players w me \<noteq> None)"
| "call_allowed (ChangeSubGroupCall me d) w = (players w me \<noteq> None)"
| "call_allowed (SwapSubGroupCall me d) w = (players w me \<noteq> None)"
| "call_allowed (AssistantCall me d) w = (players w me \<noteq> None)"
| "call_allowed (AssignmentCall me d) w = (players w me \<noteq> None)"
| "call_allowed (ReadyCheckCall me d) w = (players w me \<noteq> None)"
| "call_allowed UpdateCall w = True"
| "call_allowed (LooterCall a ifneed) w = created_at a w"
| "call_allowed (DifficultyCall a d) w = (created_at a w \<and> unat d < MAX_DIFFICULTY)"
| "call_allowed (LoginCall n x row p) w = (players w p = None \<and> row_matches w row p)"
| "call_allowed (LogoutCall p) w = (players w p \<noteq> None)"
| "call_allowed (RollVoteCall me d) w = vote_allowed me d w"
| "call_allowed (LootCall a rs) w = (created_at a w \<and> rolls_ok rs)"

lemma created_atE:
  assumes "created_at a w"
  obtains g where "groups w a = Some g" "m_memberSlots g \<noteq> []"
  using assms by (auto simp: created_at_def split: option.splits)

lemma call_keeps:
  assumes ok: "gw_ok w" and c: "call_allowed c w"
  shows "handled_ok (run_call env c w)"
proof (cases c)
  case (AcceptCall me)
  then show ?thesis using accept_keeps [OF ok] c by (auto intro: handled_okI)
next
  case (DeclineCall me)
  then obtain pl where pl: "players w me = Some pl" using c by (auto split: option.splits)
  have "\<not> gw_connected w (m_leaderGuid g)" if "gp_invite pl = Some a" "groups w a = Some g" "IsCreated g" for a g
    using c DeclineCall pl that by simp
  then show ?thesis using decline_keeps [OF ok pl] DeclineCall by (auto intro: handled_okI)
next
  case (LeaveCall me)
  then show ?thesis using Disband_ok [OF ok] c by (auto intro: handled_okI)
next
  case UpdateCall
  then show ?thesis using GroupMgr_Update_keeps [OF ok] by (auto intro: handled_okI)
next
  case (LooterCall a i)
  then obtain g where "groups w a = Some g" "m_memberSlots g \<noteq> []" using c by (auto elim: created_atE)
  from looter_keeps [OF ok this] show ?thesis using LooterCall by (auto intro: handled_okI)
next
  case (DifficultyCall a d)
  then obtain g where "groups w a = Some g" "m_memberSlots g \<noteq> []" "unat d < MAX_DIFFICULTY" using c by (auto elim: created_atE)
  from difficulty_keeps [OF ok this] show ?thesis using DifficultyCall by (auto intro: handled_okI)
next
  case (LoginCall n x row p)
  then show ?thesis using login_keeps [OF ok, of p row] c by (auto intro: handled_okI)
next
  case (LogoutCall p)
  then show ?thesis using logout_keeps [OF ok] c by (auto intro: handled_okI)
next
  case (LootCall a rs)
  then obtain g where g: "groups w a = Some g" "m_memberSlots g \<noteq> []" and rs: "rolls_ok rs" using c by (auto elim: created_atE)
  have "gw_ok (w\<lparr>groups := (groups w)(a \<mapsto> g\<lparr>m_RollId := rs\<rparr>)\<rparr>)"
    by (rule cosmetic_keeps [OF ok g]) (use links_okD(1) [OF gw_okD(1) [OF ok] g(1)] rs in \<open>simp_all add: same_links_def isRaidGroup_def group_ok_def\<close>)
  then show ?thesis using LootCall g(1) by (simp add: on_group_def)
qed (use c ok in \<open>auto intro: Invite_ok UninviteGuid_ok Uninvite_ok SetLeader_ok LootMethod_ok MinimapPing_ok RandomRoll_ok
      LootRoll_ok RaidTargetUpdate_ok RaidConvert_ok ChangeSubGroup_ok SwapSubGroup_ok AssistantLeader_ok PartyAssignment_ok RaidReadyCheck_ok\<close>)

text \<open>A packet that cannot be read changes nothing.\<close>

definition group_exec :: "group_world \<Rightarrow> group_env \<times> group_call \<Rightarrow> group_world option" where
  "group_exec w c = map_option (\<lambda>r. case r of Inl e \<Rightarrow> w | Inr w' \<Rightarrow> w') (run_call (fst c) (snd c) w)"

abbreviation group_guard :: "group_env \<times> group_call \<Rightarrow> group_world \<Rightarrow> bool" where
  "group_guard c \<equiv> call_allowed (snd c)"

interpretation party: guarded group_exec group_guard gw_ok
proof
  fix w and c :: "group_env \<times> group_call"
  assume "gw_ok w" "group_guard c w"
  then show "\<exists>w'. group_exec w c = Some w' \<and> gw_ok w'"
    using call_keeps [of w "snd c" "fst c"] by (auto simp: group_exec_def handled_ok_def split: option.splits sum.splits)
qed

definition no_groups :: "guid_generator \<Rightarrow> group_world" where
  "no_groups items = \<lparr>groups = Map.empty, gw_fresh = 0, players = Map.empty, NextGroupId = 1, NextGroupDbStoreId = 1, GroupStore = [],
     GroupDbStore = [], gw_loots = Map.empty, gw_draws = 0, gw_items = items, gw_fx = []\<rparr>"

lemma no_groups_ok: "gw_ok (no_groups items)"
  by (simp add: gw_ok_def links_ok_def ids_ok_def no_groups_def GetGroupByDbStoreId_def)

end
