(* ===== verification/GroupTrio.thy ===== *)
theory GroupTrio
  imports GroupReach
begin

text \<open>
  Concrete worlds for the examples: a raid of three with one guest, a pair about to form a group and
  a full party.
\<close>

section \<open>A raid of three\<close>

definition trio_slot :: "guid \<Rightarrow> string \<Rightarrow> u8 \<Rightarrow> u8 \<Rightarrow> member_slot" where
  "trio_slot p n sub fl = \<lparr>ms_guid = p, ms_name = n, ms_group = sub, ms_flags = fl, ms_roles = 0\<rparr>"

definition trio_group :: group where
  "trio_group = new_Group\<lparr>m_guid := mk_guid HighGuid_Group 1, m_dbStoreId := 1,
     m_memberSlots := [trio_slot 1 ''Ann'' 0 0, trio_slot 2 ''Bob'' 0 1, trio_slot 3 ''Cid'' 1 0],
     m_memberMgr := [GroupRef 3, GroupRef 2, GroupRef 1], m_invitees := [4], m_leaderGuid := 1, m_leaderName := ''Ann'',
     m_groupType := GROUPTYPE_RAID, m_lootMethod := GROUP_LOOT, m_looterGuid := 1, m_subGroupsCounts := Some [2, 1, 0, 0, 0, 0, 0, 0]\<rparr>"

definition trio_player :: "string \<Rightarrow> nat option \<Rightarrow> u8 \<Rightarrow> nat option \<Rightarrow> gplayer" where
  "trio_player n grp sub iv = (new_player n False)\<lparr>gp_connected := True, gp_in_world := True, gp_m_group := grp, gp_subGroup := sub, gp_invite := iv\<rparr>"

definition trio_world :: group_world where
  "trio_world = (no_groups (new_generator 1))\<lparr>groups := [0 \<mapsto> trio_group], gw_fresh := 1,
     players := [1 \<mapsto> trio_player ''Ann'' (Some 0) 0 None, 2 \<mapsto> trio_player ''Bob'' (Some 0) 0 None,
                 3 \<mapsto> trio_player ''Cid'' (Some 0) 1 None, 4 \<mapsto> trio_player ''Dan'' None 0 (Some 0)],
     NextGroupId := 2, NextGroupDbStoreId := 2, GroupStore := [(1, 0)], GroupDbStore := [None, Some 0]\<rparr>"

definition calm_env :: group_env where
  "calm_env = \<lparr>ge_loot = three_env 0, ge_GameTime = 0, ge_reconnect_period = 180, ge_allow_gm_group = False, ge_two_side = False,
     ge_IsGameMaster = (\<lambda>_. False), ge_Team = (\<lambda>_. 0), ge_InstanceId = (\<lambda>_. 0), ge_MapId = (\<lambda>_. 0), ge_Difficulty = (\<lambda>_. 0),
     ge_Level = (\<lambda>_. 60), ge_HasIgnore = (\<lambda>_ _. False), ge_InBattleground = (\<lambda>_. False), ge_OutOfRange = (\<lambda>_ _. False),
     ge_HaveAtClient = (\<lambda>_ _. True), ge_InDungeon = (\<lambda>_. False), ge_PermBound = (\<lambda>_. False), ge_CheckInstanceValidity = (\<lambda>_. True),
     ge_normalizePlayerName = Some, ge_PlayerByName = (\<lambda>n. if n = ''Ann'' then Some 1 else None), ge_CharacterGuidByName = (\<lambda>_. 0),
     ge_CharacterNameByGuid = (\<lambda>_. None)\<rparr>"

lemma trio_fields [simp]:
  "m_memberSlots trio_group = [trio_slot 1 ''Ann'' 0 0, trio_slot 2 ''Bob'' 0 1, trio_slot 3 ''Cid'' 1 0]"
  "m_memberMgr trio_group = [GroupRef 3, GroupRef 2, GroupRef 1]" "m_invitees trio_group = [4]" "m_leaderGuid trio_group = 1"
  "m_subGroupsCounts trio_group = Some [2, 1, 0, 0, 0, 0, 0, 0]" "isRaidGroup trio_group" "m_bgGroup trio_group = None"
  "m_lootMethod trio_group = GROUP_LOOT" "m_looterGuid trio_group = 1" "m_targetIcons trio_group = replicate 8 0" "m_RollId trio_group = []"
  "members trio_group = {1, 2, 3}" "ids_of trio_group = (True, 1, 1)"
  "ms_guid (trio_slot p n s f) = p" "ms_group (trio_slot p n s f) = s" "ms_flags (trio_slot p n s f) = f" "ms_name (trio_slot p n s f) = n"
  by (simp_all add: trio_group_def new_Group_def isRaidGroup_def GROUPTYPE_RAID_def has_flag_def members_def trio_slot_def ids_of_def
      group_counter TARGETICONCOUNT_def)

lemma trio_created: "IsCreated trio_group" "GetCounter (m_guid trio_group) = 1" "m_dbStoreId trio_group = 1"
  by (simp_all add: IsCreated_def GetMembersCount_def) (simp_all add: trio_group_def group_counter)

lemma trio_world_fields [simp]:
  "groups trio_world = [0 \<mapsto> trio_group]" "gw_fresh trio_world = 1"
  "players trio_world = [1 \<mapsto> trio_player ''Ann'' (Some 0) 0 None, 2 \<mapsto> trio_player ''Bob'' (Some 0) 0 None,
                 3 \<mapsto> trio_player ''Cid'' (Some 0) 1 None, 4 \<mapsto> trio_player ''Dan'' None 0 (Some 0)]"
  by (simp_all add: trio_world_def)

lemma trio_player_fields [simp]:
  "gp_m_group (trio_player n g s i) = g" "gp_subGroup (trio_player n g s i) = s" "gp_invite (trio_player n g s i) = i"
  "gp_connected (trio_player n g s i)" "gp_in_world (trio_player n g s i)" "gp_m_originalGroup (trio_player n g s i) = None" "gp_name (trio_player n g s i) = n"
  by (simp_all add: trio_player_def new_player_def)

lemma less_eight: "(\<forall>i < (8 :: nat). P i) = (P 0 \<and> P 1 \<and> P 2 \<and> P 3 \<and> P 4 \<and> P 5 \<and> P 6 \<and> P 7)"
  by (simp add: numeral_eq_Suc All_less_Suc conj_ac)

lemma trio_group_ok: "group_ok trio_group" "sizes_ok trio_group" "founder_ok trio_group"
  by (simp_all add: group_ok_def counts_exact_def sizes_ok_def founder_ok_def rolls_ok_def group_sizes less_eight in_sub_def)

lemma trio_ok: "gw_ok trio_world"
proof -
  have "links_ok trio_world"
    using trio_group_ok(1) by (auto simp: links_ok_def refs_ok_def invitees_ok_def player_ok_def split: if_splits)
  moreover have "ids_ok trio_world"
    by (auto simp: ids_ok_def trio_world_def GetGroupByDbStoreId_def map_ok_def smap_find_def no_groups_def less_Suc_eq word_less_nat_alt
        word_unat_eq_iff nth_Cons intro!: exI [of _ "1 :: u32"] split: if_splits nat.splits)
  ultimately show ?thesis using trio_group_ok(2,3) by (simp add: gw_ok_def)
qed

section \<open>A pair and a full party\<close>

definition duo_world :: group_world where
  "duo_world = (no_groups (new_generator 1))\<lparr>groups := [0 \<mapsto> new_Group\<lparr>m_invitees := [1, 2], m_leaderGuid := 1, m_leaderName := ''Ann''\<rparr>],
     gw_fresh := 1, players := [1 \<mapsto> trio_player ''Ann'' None 0 (Some 0), 2 \<mapsto> trio_player ''Bob'' None 0 (Some 0)]\<rparr>"

lemma duo_ok: "gw_ok duo_world" "ids_left duo_world"
proof -
  have g: "group_ok (new_Group\<lparr>m_invitees := [1, 2], m_leaderGuid := 1, m_leaderName := ''Ann''\<rparr>)"
    by (simp add: group_ok_def new_Group_def counts_exact_def rolls_ok_def isRaidGroup_def has_flag_def)
  have "links_ok duo_world"
    using g by (auto simp: links_ok_def duo_world_def no_groups_def refs_ok_def invitees_ok_def player_ok_def new_Group_def members_def split: if_splits)
  moreover have "ids_ok duo_world"
    by (auto simp: ids_ok_def duo_world_def GetGroupByDbStoreId_def no_groups_def ids_of_def new_Group_def split: if_splits)
  ultimately show "gw_ok duo_world"
    by (simp add: gw_ok_def sizes_ok_def founder_ok_def duo_world_def new_Group_def in_sub_def)
  show "ids_left duo_world" by (simp add: ids_left_def duo_world_def no_groups_def)
qed

definition five_group :: group where
  "five_group = new_Group\<lparr>m_guid := mk_guid HighGuid_Group 1, m_dbStoreId := 1, m_memberSlots := map (\<lambda>p. trio_slot p [] 0 0) [1, 2, 3, 4, 5],
     m_memberMgr := map GroupRef [5, 4, 3, 2, 1], m_leaderGuid := 1\<rparr>"

definition five_world :: group_world where
  "five_world = (no_groups (new_generator 1))\<lparr>groups := [0 \<mapsto> five_group], gw_fresh := 1,
     players := (\<lambda>p. if p \<in> {1, 2, 3, 4, 5} then Some (trio_player [] (Some 0) 0 None) else if p = 6 then Some (trio_player [] None 0 None) else None)\<rparr>"

lemma five_ok: "links_ok five_world" "IsFull five_group" "\<not> isRaidGroup five_group"
proof -
  have "group_ok five_group"
    by (simp add: group_ok_def five_group_def new_Group_def counts_exact_def rolls_ok_def isRaidGroup_def has_flag_def members_def)
  moreover have "members five_group = {1, 2, 3, 4, 5}" by (simp add: members_def five_group_def)
  ultimately show "links_ok five_world"
    by (auto simp: links_ok_def five_world_def no_groups_def refs_ok_def invitees_ok_def player_ok_def five_group_def new_Group_def split: if_splits)
  show "IsFull five_group" "\<not> isRaidGroup five_group"
    by (simp_all add: IsFull_def five_group_def new_Group_def isRaidGroup_def has_flag_def group_sizes)
qed

section \<open>Packets from clients\<close>

definition client_packet :: "u8 list \<Rightarrow> world_packet" where
  "client_packet bs = (wp_new 0)\<lparr>storage := bs\<rparr>"

lemma client_packet_reads:
  "length (le_bytes g) + length bs < 2 ^ 63 \<Longrightarrow> fst (shr_guid (client_packet (le_bytes (g :: u64) @ bs))) = Inr g"
  "length (le_bytes i) + length bs < 2 ^ 63 \<Longrightarrow> fst (shr_u8 (client_packet (le_bytes (i :: u8) @ bs))) = Inr i"
  "length (string_bytes s) + length bs < 2 ^ 63 \<Longrightarrow> no_nul s \<Longrightarrow> fst (shr_string (client_packet (string_bytes s @ bs))) = Inr s"
proof -
  have r: "length xs < 2 ^ 63 \<Longrightarrow> readable (client_packet xs) xs" for xs by (simp add: readable_def client_packet_def wp_new_def)
  show "length (le_bytes g) + length bs < 2 ^ 63 \<Longrightarrow> fst (shr_guid (client_packet (le_bytes g @ bs))) = Inr g"
    by (subst shr_guid_def, subst read_word_front [of _ g bs]) (simp_all add: r)
  show "length (le_bytes i) + length bs < 2 ^ 63 \<Longrightarrow> fst (shr_u8 (client_packet (le_bytes i @ bs))) = Inr i"
    by (subst w8.reads [of _ _ bs]) (simp_all add: r)
  show "length (string_bytes s) + length bs < 2 ^ 63 \<Longrightarrow> no_nul s \<Longrightarrow> fst (shr_string (client_packet (string_bytes s @ bs))) = Inr s"
    by (subst str.reads [of s _ bs]) (simp_all add: r)
qed

section \<open>A party made by calls\<close>

text \<open>Ann and Bob log in, Ann invites Bob, and he accepts.\<close>

lemma login_fresh:
  "login_player env (new_player n False) None p w = Some (w\<lparr>players := (players w)(p \<mapsto> trio_player n None 0 None)\<rparr>)"
  by (simp add: trio_player_def login_player_def Player_LoadGroup_def SetLeaderFlag_def on_player_def announce_login_def new_player_def)

definition pair_world :: group_world where
  "pair_world = (no_groups (new_generator 1))\<lparr>players := [1 \<mapsto> trio_player ''Ann'' None 0 None, 2 \<mapsto> trio_player ''Bob'' None 0 None]\<rparr>"

definition bob_env :: group_env where
  "bob_env = calm_env\<lparr>ge_PlayerByName := (\<lambda>n. if n = ''Bob'' then Some 2 else None)\<rparr>"

definition ask_bob :: group_call where
  "ask_bob = InviteCall 1 (client_packet (string_bytes ''Bob'' @ []))"

lemma pair_reached: "reachable group_exec group_guard (no_groups (new_generator 1)) pair_world"
proof -
  let ?w = "no_groups (new_generator 1)" and ?ann = "LoginCall ''Ann'' False None 1" and ?bob = "LoginCall ''Bob'' False None 2"
  let ?v = "?w\<lparr>players := [1 \<mapsto> trio_player ''Ann'' None 0 None]\<rparr>"
  have "call_allowed ?ann ?w" "group_exec ?w (calm_env, ?ann) = Some ?v"
    by (simp_all add: row_matches_def group_exec_def login_fresh no_groups_def)
  moreover have "call_allowed ?bob ?v" "group_exec ?v (calm_env, ?bob) = Some pair_world"
    by (simp_all add: row_matches_def group_exec_def login_fresh no_groups_def pair_world_def)
  ultimately show ?thesis
    using by_call [OF by_call [OF at_start], of group_guard "(calm_env, ?ann)" ?w group_exec ?v "(calm_env, ?bob)"] by simp
qed

lemma bob_asked:
  "\<exists>w. group_exec pair_world (bob_env, ask_bob) = Some w \<and> ids_left w \<and> players w 2 = Some (trio_player ''Bob'' None 0 (Some 0)) \<and>
     gw_FindPlayer w 1 \<and> groups w 0 = Some (new_Group\<lparr>m_invitees := [2, 1], m_leaderGuid := 1, m_leaderName := ''Ann''\<rparr>)"
proof -
  have "fst (shr_string (client_packet (string_bytes ''Bob'' @ []))) = Inr ''Bob''"
    by (rule client_packet_reads) (simp_all add: no_nul_def string_bytes_def)
  then show ?thesis
    by (simp add: group_exec_def ask_bob_def HandleGroupInviteOpcode_def reading_def bob_env_def calm_env_def FindConnectedPlayerByName_def
        invite_player_def invite_refused_def pair_world_def own_group_def no_groups_def start_group_def alloc_group_def AddLeaderInvite_def
        AddInvite_def RemoveInvite_def on_group_def SetGroupInvite_def on_player_def send_invite_def trio_player_def new_player_def
        new_Group_def ids_left_def gw_FindPlayer_def gw_effect_def SendPartyResult_def gw_connected_def)
qed

lemma party_reached: "\<exists>w. reachable group_exec group_guard (no_groups (new_generator 1)) w \<and> filed 0 [1, 2] 1 w"
proof -
  let ?s = "no_groups (new_generator 1)"
  let ?g = "new_Group\<lparr>m_invitees := [2, 1], m_leaderGuid := 1, m_leaderName := ''Ann''\<rparr>"
  obtain w where w: "group_exec pair_world (bob_env, ask_bob) = Some w" "ids_left w" "players w 2 = Some (trio_player ''Bob'' None 0 (Some 0))"
      "gw_FindPlayer w 1" "groups w 0 = Some ?g"
    using bob_asked by blast
  have "call_allowed ask_bob pair_world" by (simp add: ask_bob_def pair_world_def)
  then have r: "reachable group_exec group_guard ?s w" using by_call [OF pair_reached, of "(bob_env, ask_bob)"] w(1) by simp
  have "gw_ok w" by (rule party.reachable_inv [OF r no_groups_ok])
  from accept_new [OF this w(2,3) _ w(5), of calm_env] obtain w'
    where w': "HandleGroupAcceptOpcode calm_env 2 w = Some w'" "filed 0 [1, 2] 1 w'"
    using w(4) by (auto simp: new_Group_def IsLeader_def)
  have "group_exec w (calm_env, AcceptCall 2) = Some w'" using w'(1) by (simp add: group_exec_def)
  then have "reachable group_exec group_guard ?s w'" using by_call [OF r, of "(calm_env, AcceptCall 2)"] w(2,3) by simp
  then show ?thesis using w'(2) by blast
qed

end
