(* ===== verification/GroupProps.thy ===== *)
theory GroupProps
  imports GroupTrio
begin

text \<open>
  The properties of groups: what holds in every reachable state, and membership: the first
  acceptance, succession, swaps and the missing limit of a party.
\<close>

section \<open>Every reachable state\<close>

lemma numbers_exact:
  assumes "gw_ok w"
  shows "(GetGroupByGUID k w = Some a) = (\<exists>g. groups w a = Some g \<and> IsCreated g \<and> GetCounter (m_guid g) = k) \<and>
     (GetGroupByDbStoreId s w = Some a) = (\<exists>g. groups w a = Some g \<and> IsCreated g \<and> m_dbStoreId g = s)"
proof
  note ids = gw_okD(2) [OF assms]
  have c: "(\<exists>z. groups w a = Some z \<and> ids_of z = (True, k, s)) = (\<exists>g. groups w a = Some g \<and> IsCreated g \<and> GetCounter (m_guid g) = k \<and> m_dbStoreId g = s)" for k s
    by (auto simp: ids_of_def IsCreated_def GetMembersCount_def)
  show "(GetGroupByGUID k w = Some a) = (\<exists>g. groups w a = Some g \<and> IsCreated g \<and> GetCounter (m_guid g) = k)"
    using ids_okD(3) [OF ids, of a k] ids_okD(6) [OF ids, of k a] c unfolding GetGroupByGUID_def map_option_eq_Some by blast
  show "(GetGroupByDbStoreId s w = Some a) = (\<exists>g. groups w a = Some g \<and> IsCreated g \<and> m_dbStoreId g = s)"
    using ids_okD(4) [OF ids, of a _ s] ids_okD(7) [OF ids, of s a] c unfolding map_option_eq_Some by blast
qed



text \<open>C4: \<^bold>\<open>No allowed call fails.\<close> In a reachable state every call that respects the guards
  returns: no dead group, no dead player, no failed assertion and no index behind the counters.\<close>

theorem allowed_calls_return:
  assumes "reachable group_exec group_guard (no_groups items) w" and "call_allowed c w"
  shows "\<exists>r. run_call env c w = Some r"
  using party.never_fails [OF assms(1) no_groups_ok, of "(env, c)"] assms(2) by (auto simp: group_exec_def)

theorem allowed_calls_return_witness:
  "\<exists>w r. reachable group_exec group_guard (no_groups (new_generator 1)) w \<and> run_call calm_env UpdateCall w = Some r \<and> filed 0 [1, 2] 1 w"
  using allowed_calls_return [of "new_generator 1" _ UpdateCall calm_env] party_reached by (metis call_allowed.simps(18))

text \<open>C31: \<^bold>\<open>The manager's tables lead to the groups and only to them.\<close> In every reachable state a
  group is found under a number exactly if it is a created group with that number, and under a
  storage number exactly if it is a created group with that one; so no two groups share either, and
  no number leads to a group that is gone.\<close>

theorem group_numbers_exact:
  assumes "reachable group_exec group_guard (no_groups items) w"
  shows "(GetGroupByGUID k w = Some a) = (\<exists>g. groups w a = Some g \<and> IsCreated g \<and> GetCounter (m_guid g) = k) \<and>
     (GetGroupByDbStoreId s w = Some a) = (\<exists>g. groups w a = Some g \<and> IsCreated g \<and> m_dbStoreId g = s)"
  by (rule numbers_exact [OF party.reachable_inv [OF assms no_groups_ok]])

theorem group_numbers_exact_witness:
  "\<exists>w k s. reachable group_exec group_guard (no_groups (new_generator 1)) w \<and> GetGroupByGUID k w = Some 0 \<and> GetGroupByDbStoreId s w = Some 0"
proof -
  obtain w g where w: "reachable group_exec group_guard (no_groups (new_generator 1)) w" and g: "groups w 0 = Some g" "IsCreated g"
    using party_reached by (auto simp: filed_def IsCreated_def GetMembersCount_def)
  show ?thesis using group_numbers_exact [OF w, of "GetCounter (m_guid g)" 0 "m_dbStoreId g"] w g by blast
qed

section \<open>Membership\<close>

text \<open>C28: \<^bold>\<open>The first accepted invitation makes the group.\<close> With the founder online it has the founder
  as its leader and the guest behind him. Without him nobody joins a group: the invitations are
  withdrawn, no group comes into the tables, and the group that was to be is left without invitees.\<close>

theorem accepting_makes_the_group:
  assumes "gw_ok w" and "ids_left w" and "players w me = Some pl" and "gp_invite pl = Some a" and "groups w a = Some g"
    and "\<not> IsCreated g" and "\<not> IsLeader me g"
  shows "\<exists>w'. HandleGroupAcceptOpcode env me w = Some w' \<and> gw_ok w' \<and>
     (gw_FindPlayer w (m_leaderGuid g) \<longrightarrow> filed a [m_leaderGuid g, me] (m_leaderGuid g) w') \<and>
     (\<not> gw_FindPlayer w (m_leaderGuid g) \<longrightarrow> groups w' = (groups w)(a \<mapsto> g\<lparr>m_invitees := []\<rparr>) \<and>
        GroupStore w' = GroupStore w \<and> GroupDbStore w' = GroupDbStore w \<and> group_of w' me = None \<and>
        (\<forall>p. group_of w' p = group_of w p \<and> invite_of w' p = (if p \<in> set (m_invitees g) then None else invite_of w p)))"
  using accept_new [OF assms(1-5)] assms(6,7) by (simp add: IsCreated_def GetMembersCount_def)

theorem accepting_makes_the_group_witness:
  "\<exists>w'. HandleGroupAcceptOpcode calm_env 2 duo_world = Some w' \<and> gw_ok w' \<and> filed 0 [1, 2] 1 w'"
proof -
  have "players duo_world 2 = Some (trio_player ''Bob'' None 0 (Some 0))" "gw_FindPlayer duo_world 1"
    by (simp_all add: duo_world_def gw_FindPlayer_def)
  then show ?thesis using accepting_makes_the_group [OF duo_ok, of 2 _ 0 "new_Group\<lparr>m_invitees := [1, 2], m_leaderGuid := 1, m_leaderName := ''Ann''\<rparr>" calm_env]
    by (simp add: duo_world_def new_Group_def IsCreated_def GetMembersCount_def IsLeader_def)
qed

text \<open>C8: \<^bold>\<open>Succession.\<close> Removing a member returns. If fewer than two of the others are online, or there
  are fewer than two others, the group is gone; otherwise the others stay in their order, the leader
  stays, and if he was removed the first of the others who is online leads.\<close>

theorem leader_succession:
  assumes "gw_ok w" and "groups w a = Some g" and "p \<in> members g"
  shows "\<exists>r w'. RemoveMember env a p kicked w = Some (r, w') \<and> gw_ok w' \<and>
     (let rest = filter (\<lambda>m. ms_guid m \<noteq> p) (m_memberSlots g) in
      if length rest < 2 \<or> length (online w rest) < 2 then groups w' a = None
      else filed a (map ms_guid rest) (if m_leaderGuid g = p then hd (online w rest) else m_leaderGuid g) w')"
  using RemoveMember_runs [OF assms, of env kicked] unfolding Let_def filed_def by (metis (no_types, lifting))

theorem leader_succession_witness:
  "\<exists>r w'. RemoveMember calm_env 0 1 True trio_world = Some (r, w') \<and> filed 0 [2, 3] 2 w'"
  using leader_succession [OF trio_ok, of 0 trio_group 1 calm_env True] by (auto simp: online_def Let_def)

text \<open>C30: \<^bold>\<open>A swap exchanges the subgroups of two members\<close> of a raid, even of full subgroups, and
  leaves the size of every subgroup as it was.\<close>

theorem swap_exchanges_subgroups:
  assumes "gw_ok w" and "groups w a = Some g" and "isRaidGroup g"
    and "getMemberSlot p1 g = Some m1" and "getMemberSlot p2 g = Some m2" and "ms_group m1 \<noteq> ms_group m2"
  shows "\<exists>w' h. Option.bind (ChangeMembersGroup a p1 (ms_group m2) w) (ChangeMembersGroup a p2 (ms_group m1)) = Some w' \<and> gw_ok w' \<and>
     groups w' a = Some h \<and> (\<forall>j. in_sub j (m_memberSlots h) = in_sub j (m_memberSlots g)) \<and>
     GetMemberGroup p1 h = ms_group m2 \<and> GetMemberGroup p2 h = ms_group m1"
  by (rule swap_runs [OF assms])

theorem swap_exchanges_subgroups_witness:
  "\<exists>w' h. Option.bind (ChangeMembersGroup 0 2 1 trio_world) (ChangeMembersGroup 0 3 0) = Some w' \<and> groups w' 0 = Some h \<and>
     GetMemberGroup 2 h = 1 \<and> GetMemberGroup 3 h = 0"
  using swap_exchanges_subgroups [OF trio_ok, of 0 trio_group 2 "trio_slot 2 ''Bob'' 0 1" 3 "trio_slot 3 ''Cid'' 1 0"] by (auto simp: getMemberSlot_def)

text \<open>C33: \<^bold>\<open>\<open>AddMember\<close> does not look at the size of a party.\<close> A group that is no raid takes another
  player however many members it has, full or not.\<close>

theorem full_party_takes_more:
  assumes "links_ok w" and "groups w a = Some g" and "\<not> isRaidGroup g"
    and "players w p = Some pl" and "gp_m_group pl = None" and "gp_invite pl = None"
  shows "\<exists>stmts' w' h. AddMember env a p stmts w = Some (True, stmts', w') \<and> groups w' a = Some h \<and>
     map ms_guid (m_memberSlots h) = map ms_guid (m_memberSlots g) @ [p]"
proof -
  have "counts_exact g" using links_okD(1) [OF assms(1,2)] by (simp add: group_ok_def)
  then have "first_free_subgroup g = Some 0" using assms(3) by (auto simp: counts_exact_def first_free_subgroup_def split: option.splits)
  from AddMember_runs [OF assms(1,2,4-6) this, of env stmts] show ?thesis by fastforce
qed

theorem full_party_takes_more_witness:
  "IsFull five_group \<and> (\<exists>stmts w' h. AddMember calm_env 0 6 [] five_world = Some (True, stmts, w') \<and> groups w' 0 = Some h \<and>
     map ms_guid (m_memberSlots h) = [1, 2, 3, 4, 5, 6])"
proof -
  have "groups five_world 0 = Some five_group" "players five_world 6 = Some (trio_player [] None 0 None)" by (simp_all add: five_world_def)
  from full_party_takes_more [OF five_ok(1) this(1) five_ok(3) this(2), of calm_env "[]"] five_ok(2) show ?thesis by (simp add: five_group_def)
qed

end
