(* ===== verification/GroupRights.thy ===== *)
theory GroupRights
  imports GroupTrio
begin

text \<open>Who may do what in a group, and what a declined invitation leaves behind.\<close>

section \<open>Rights\<close>

text \<open>Calls for the leader, and calls for him and his assistants.\<close>

fun leader_call :: "guid \<Rightarrow> group_call \<Rightarrow> bool" where
  "leader_call me (SetLeaderCall p d) = (p = me)"
| "leader_call me (LootMethodCall p d) = (p = me)"
| "leader_call me (RaidConvertCall p) = (p = me)"
| "leader_call me (AssistantCall p d) = (p = me)"
| "leader_call me (AssignmentCall p d) = (p = me)"
| "leader_call me _ = False"

fun officer_call :: "guid \<Rightarrow> group_call \<Rightarrow> bool" where
  "officer_call me (UninviteGuidCall p d) = (p = me)"
| "officer_call me (UninviteCall p d) = (p = me)"
| "officer_call me (RaidTargetCall p d) = (p = me)"
| "officer_call me (ChangeSubGroupCall p d) = (p = me)"
| "officer_call me (SwapSubGroupCall p d) = (p = me)"
| "officer_call me _ = False"

definition untouched :: "group_world \<Rightarrow> handled \<Rightarrow> bool" where
  "untouched w r = (\<forall>w'. r = Some (Inr w') \<longrightarrow> groups w' = groups w \<and> players w' = players w)"

lemma untouched_reading: "(\<And>x. \<exists>fx. k x = Some (add_fx fx w)) \<Longrightarrow> untouched w (reading rd d k)"
proof -
  assume k: "\<And>x. \<exists>fx. k x = Some (add_fx fx w)"
  show ?thesis
  proof (cases "fst (rd d)")
    case (Inr x)
    obtain fx where "k x = Some (add_fx fx w)" using k by blast
    then show ?thesis using Inr by (simp add: reading_def untouched_def)
  qed (simp add: reading_def untouched_def)
qed

lemma untouched_same: "untouched w (Some (Inr w))"
  by (simp add: untouched_def)

lemma untouched_fx: "\<exists>fx. Some w = Some (add_fx fx w)" "\<exists>fx. Some (SendPartyResult me op n r w) = Some (add_fx fx w)"
    "\<exists>fx. w = add_fx fx w" "\<exists>fx. SendPartyResult me op n r w = add_fx fx w"
  using fx_id [of w] by (auto simp: SendPartyResult_def effect_fx)

lemma in_group_at: "players w me = Some pl \<Longrightarrow> gp_m_group pl = Some a \<Longrightarrow> groups w a = Some g \<Longrightarrow> in_group me w k = k a g"
  by (simp add: in_group_def)

lemma leader_calls_untouched:
  assumes me: "players w me = Some pl" "gp_m_group pl = Some a" and g: "groups w a = Some g" and no: "\<not> IsLeader me g" and c: "leader_call me c"
  shows "untouched w (run_call env c w)"
proof (cases c)
  case (SetLeaderCall p d)
  then show ?thesis using c no by (auto simp: HandleGroupSetLeaderOpcode_def in_group_at [OF me g] intro!: untouched_reading untouched_fx)
next
  case (LootMethodCall p d)
  then show ?thesis using c no by (auto simp: HandleLootMethodOpcode_def in_group_at [OF me g] intro!: untouched_reading untouched_fx)
next
  case (RaidConvertCall p)
  then show ?thesis using c no by (simp add: HandleGroupRaidConvertOpcode_def in_group_at [OF me g] untouched_same)
next
  case (AssistantCall p d)
  then show ?thesis using c no by (simp add: HandleGroupAssistantLeaderOpcode_def in_group_at [OF me g] untouched_same)
next
  case (AssignmentCall p d)
  then show ?thesis using c no by (simp add: HandlePartyAssignmentOpcode_def in_group_at [OF me g] untouched_same)
qed (use c in simp_all)

lemma officer_calls_untouched:
  assumes me: "players w me = Some pl" "gp_m_group pl = Some a" and g: "groups w a = Some g"
    and no: "\<not> IsLeader me g" "\<not> IsAssistant me g" and c: "officer_call me c"
  shows "untouched w (run_call env c w)"
proof (cases c)
  case (UninviteGuidCall p d)
  have "CanUninviteFromGroup env me w = Some PARTY_RESULT_YOU_NOT_LEADER" using me g no by (simp add: CanUninviteFromGroup_def)
  then show ?thesis using UninviteGuidCall c
    by (auto simp: HandleGroupUninviteGuidOpcode_def PARTY_RESULT_YOU_NOT_LEADER_def PARTY_RESULT_OK_def intro!: untouched_reading untouched_fx)
next
  case (UninviteCall p d)
  have "CanUninviteFromGroup env me w = Some PARTY_RESULT_YOU_NOT_LEADER" using me g no by (simp add: CanUninviteFromGroup_def)
  then show ?thesis using UninviteCall c me(1)
    by (auto simp: HandleGroupUninviteOpcode_def PARTY_RESULT_YOU_NOT_LEADER_def PARTY_RESULT_OK_def intro!: untouched_reading untouched_fx split: option.splits)
next
  case (RaidTargetCall p d)
  then show ?thesis using c no g
    by (auto simp: HandleRaidTargetUpdateOpcode_def in_group_at [OF me g] SendTargetIconList_def effect_fx untouched_def split: prod.splits sum.splits)
next
  case (ChangeSubGroupCall p d)
  then show ?thesis using c no
    by (auto simp: HandleGroupChangeSubGroupOpcode_def in_group_at [OF me g] intro!: untouched_reading untouched_fx split: option.splits)
next
  case (SwapSubGroupCall p d)
  then show ?thesis using c no me g
    by (auto simp: HandleGroupSwapSubGroupOpcode_def Let_def intro!: untouched_reading untouched_fx split: option.splits)
qed (use c in simp_all)

text \<open>C9: \<^bold>\<open>Who may not, changes nothing.\<close> A member who is not the leader changes no group and no
  player by the calls for leaders, nor by kicking, marking or moving members unless he assists.\<close>

theorem outsiders_change_nothing:
  assumes "players w me = Some pl" and "gp_m_group pl = Some a" and "groups w a = Some g" and "\<not> IsLeader me g"
    and "leader_call me c \<or> officer_call me c \<and> \<not> IsAssistant me g" and "run_call env c w = Some (Inr w')"
  shows "groups w' = groups w \<and> players w' = players w"
  using leader_calls_untouched [OF assms(1-4), of c env] officer_calls_untouched [OF assms(1-4), of c env] assms(5,6)
  by (auto simp: untouched_def)

lemma RemoveMember_off:
  assumes "gw_ok w" and "groups w a = Some g" and "p \<in> members g"
  shows "\<exists>r w'. RemoveMember env a p kicked w = Some (r, w') \<and> (case groups w' a of None \<Rightarrow> True | Some h \<Rightarrow> p \<notin> members h)"
proof -
  have off: "p \<notin> members h" if "map ms_guid (m_memberSlots h) = map ms_guid (filter (\<lambda>m. ms_guid m \<noteq> p) (m_memberSlots g))" for h
    using arg_cong [OF that, of set] by (auto simp: members_def)
  obtain r w' where "RemoveMember env a p kicked w = Some (r, w')" and
      "groups w' a = None \<or> (\<exists>h. groups w' a = Some h \<and> map ms_guid (m_memberSlots h) = map ms_guid (filter (\<lambda>m. ms_guid m \<noteq> p) (m_memberSlots g)))"
    using RemoveMember_runs [OF assms, of env kicked] by (metis (no_types, lifting))
  then show ?thesis using off by (fastforce split: option.splits)
qed

text \<open>Cid marks himself with the first icon.\<close>

definition cid_marks :: group_call where
  "cid_marks = RaidTargetCall 3 (client_packet (le_bytes (0 :: u8) @ le_bytes (3 :: u64)))"

theorem outsiders_change_nothing_witness:
  "\<exists>w'. run_call calm_env cid_marks trio_world = Some (Inr w') \<and> groups w' = groups trio_world \<and> players w' = players trio_world"
proof -
  have 1: "fst (shr_u8 (client_packet (le_bytes (0 :: u8) @ le_bytes (3 :: u64)))) = Inr 0" by (rule client_packet_reads) (simp add: sizeof_word_def)
  have no: "\<not> IsLeader 3 trio_group" "\<not> IsAssistant 3 trio_group"
    by (simp_all add: IsLeader_def IsAssistant_def getMemberSlot_def MEMBER_FLAG_ASSISTANT_def GetMemberFlags_def)
  have cid: "players trio_world 3 = Some (trio_player ''Cid'' (Some 0) 1 None)" "groups trio_world 0 = Some trio_group" by simp_all
  have "officer_call 3 cid_marks" by (simp add: cid_marks_def)
  moreover have run: "run_call calm_env cid_marks trio_world = Some (Inr trio_world)"
  proof (cases "shr_u8 (client_packet (le_bytes (0 :: u8) @ le_bytes (3 :: u64)))")
    case (Pair x d)
    then have "x = Inr 0" using 1 by simp
    then show ?thesis using Pair no by (simp add: cid_marks_def HandleRaidTargetUpdateOpcode_def in_group_at [OF cid(1) _ cid(2)])
  qed
  ultimately show ?thesis using outsiders_change_nothing [OF cid(1) _ cid(2) no(1) _ run] no(2) by auto
qed

text \<open>\<^bold>\<open>An assistant can kick the leader by GUID, not by name.\<close> The packet with the leader's name
  does nothing; the packet with his GUID takes him off the group (or ends it).\<close>

theorem assistant_kicks_leader:
  assumes ok: "gw_ok w" and me: "players w me = Some pl" "gp_m_group pl = Some a" and g: "groups w a = Some g"
    and may: "IsAssistant me g" "\<not> IsLeader me g" "\<not> ge_InBattleground env me"
    and d: "fst (shr_guid d) = Inr (m_leaderGuid g)"
    and n: "fst (shr_string d') = Inr name" "ge_normalizePlayerName env name = Some name" "GetMemberGUID name g = m_leaderGuid g"
  shows "HandleGroupUninviteOpcode env me d' w = Some (Inr w) \<and>
     (\<exists>w'. HandleGroupUninviteGuidOpcode env me d w = Some (Inr w') \<and> (case groups w' a of None \<Rightarrow> True | Some h \<Rightarrow> m_leaderGuid g \<notin> members h))"
proof
  note links = gw_okD(1) [OF ok]
  have can: "CanUninviteFromGroup env me w = Some PARTY_RESULT_OK" using me g may by (simp add: CanUninviteFromGroup_def)
  show "HandleGroupUninviteOpcode env me d' w = Some (Inr w)"
    using n can me g by (auto simp: HandleGroupUninviteOpcode_def reading_def Let_def)
  have "m_memberSlots g \<noteq> []" using linked_group [OF links me] g by (metis option.inject)
  then have lead: "m_leaderGuid g \<in> members g" using links_okD(1) [OF links g] by (simp add: group_ok_def)
  obtain r w' where w': "RemoveMember env a (m_leaderGuid g) True w = Some (r, w')"
      "case groups w' a of None \<Rightarrow> True | Some h \<Rightarrow> m_leaderGuid g \<notin> members h"
    using RemoveMember_off [OF ok g lead] by blast
  have "IsMember (m_leaderGuid g) g" using lead by (auto simp: IsMember_def getMemberSlot_def find_None_iff members_def)
  moreover have "m_leaderGuid g \<noteq> me" using may(2) by (simp add: IsLeader_def)
  ultimately have "HandleGroupUninviteGuidOpcode env me d w = Some (Inr w')"
    using d can me g w'(1) by (simp add: HandleGroupUninviteGuidOpcode_def reading_def RemoveFromGroup_def)
  then show "\<exists>w'. HandleGroupUninviteGuidOpcode env me d w = Some (Inr w') \<and> (case groups w' a of None \<Rightarrow> True | Some h \<Rightarrow> m_leaderGuid g \<notin> members h)"
    using w'(2) by blast
qed

theorem assistant_kicks_leader_witness:
  "HandleGroupUninviteOpcode calm_env 2 (client_packet (string_bytes ''Ann'' @ [])) trio_world = Some (Inr trio_world) \<and>
   (\<exists>w'. HandleGroupUninviteGuidOpcode calm_env 2 (client_packet (le_bytes (1 :: u64) @ [])) trio_world = Some (Inr w') \<and>
      (case groups w' 0 of None \<Rightarrow> True | Some h \<Rightarrow> 1 \<notin> members h))"
proof -
  have d: "fst (shr_guid (client_packet (le_bytes (1 :: u64) @ []))) = Inr 1" by (rule client_packet_reads) (simp add: sizeof_word_def)
  have n: "fst (shr_string (client_packet (string_bytes ''Ann'' @ []))) = Inr ''Ann''" by (rule client_packet_reads) (simp_all add: no_nul_def string_bytes_def)
  have bob: "players trio_world 2 = Some (trio_player ''Bob'' (Some 0) 0 None)" "gp_m_group (trio_player ''Bob'' (Some 0) 0 None) = Some 0"
      "groups trio_world 0 = Some trio_group" by simp_all
  have may: "IsAssistant 2 trio_group" "\<not> IsLeader 2 trio_group"
    by (simp_all add: IsLeader_def IsAssistant_def getMemberSlot_def MEMBER_FLAG_ASSISTANT_def GetMemberFlags_def)
  have env: "\<not> ge_InBattleground calm_env 2" "ge_normalizePlayerName calm_env ''Ann'' = Some ''Ann''" by (simp_all add: calm_env_def)
  have n2: "GetMemberGUID ''Ann'' trio_group = m_leaderGuid trio_group" by (simp add: GetMemberGUID_def)
  have d2: "fst (shr_guid (client_packet (le_bytes (1 :: u64) @ []))) = Inr (m_leaderGuid trio_group)" using d by simp
  show ?thesis using assistant_kicks_leader [OF trio_ok bob may env(1) d2 n env(2) n2] unfolding trio_fields(4) by simp
qed

section \<open>An invitation declined\<close>

lemma RemoveAllInvites_dead:
  assumes "groups w a = Some g" and "p \<in> set (m_invitees g)" and "players w p = None"
  shows "RemoveAllInvites a w = None"
proof -
  have "each (SetGroupInvite None) ps v = None" if "p \<in> set ps" "players v p = None" for ps v
    using that
  proof (induction ps arbitrary: v)
    case (Cons q ps)
    show ?case
    proof (cases "q = p \<or> players v q = None")
      case False
      then obtain pl where "players v q = Some pl" by blast
      then show ?thesis using Cons False by (simp add: SetGroupInvite_def on_player_def)
    qed (use Cons.prems in \<open>auto simp: SetGroupInvite_def on_player_def\<close>)
  qed simp
  then show ?thesis using assms by (simp add: RemoveAllInvites_def)
qed

text \<open>C27: \<^bold>\<open>A declined invitation dangles.\<close> If a player declines the invitation of a group that
  exists while its leader is online, and then logs out, the next end of the group writes to the dead
  player: declining resets his own pointer but leaves him among the invited.\<close>

theorem declined_invitation_dangles:
  assumes ok: "gw_ok w" and g: "groups w a = Some g" "IsCreated g" and me: "me \<in> set (m_invitees g)" and lead: "gw_connected w (m_leaderGuid g)"
  shows "\<exists>w1 w2. HandleGroupDeclineOpcode me w = Some w1 \<and> logout_player env me w1 = Some w2 \<and> Disband env hide a w2 = None"
proof -
  note links = gw_okD(1) [OF ok]
  have "invite_of w me = Some a" using links_okD(3) [OF links g(1)] me by (simp add: invitees_ok_def)
  then obtain pl where pl: "players w me = Some pl" "gp_invite pl = Some a" "gp_m_group pl = None" by (rule invited_player [OF links])
  have orig: "gp_m_originalGroup pl = None" using links_okD(4) [OF links pl(1)] by (simp add: player_ok_def)
  let ?fx = "[GroupPacket (m_leaderGuid g) (put_string (gp_name pl) (wp_new SMSG_GROUP_DECLINE))]"
  let ?w1 = "add_fx ?fx (w\<lparr>players := (players w)(me \<mapsto> pl\<lparr>gp_invite := None\<rparr>)\<rparr>)"
  have 1: "HandleGroupDeclineOpcode me w = Some ?w1"
    using pl g lead by (simp add: HandleGroupDeclineOpcode_def SetGroupInvite_def on_player_def effect_fx)
  let ?w2 = "add_fx ?fx (w\<lparr>players := (players w)(me := None)\<rparr>)"
  have 2: "logout_player env me ?w1 = Some ?w2"
    using pl(3) orig
    by (simp add: logout_player_def logout_group_def UninviteFromGroup_def on_player_def delete_player_def unlink_group_def unlink_original_def drop_ref_def)
  have gok: "distinct (map ms_guid (m_memberSlots g))" "m_bgGroup g = None" using links_okD(1) [OF links g(1)] by (simp_all add: group_ok_def)
  have nme: "me \<notin> members g" using links_okD(4) [OF links pl(1)] pl(3) g(1) by (simp add: player_ok_def)
  have g2: "groups ?w2 a = Some g" using g(1) by simp
  have refs: "party_refs ?w2 g" using links_refs [OF links g(1)] links_source [OF links g(1)] nme by (auto simp: party_refs_def)
  have lv: "\<forall>m \<in> set (m_memberSlots g). \<forall>q. players ?w2 (ms_guid m) = Some q \<longrightarrow> leaver a q"
    using links_leaver [OF links g(1)] by (auto simp: members_def split: if_splits)
  obtain fx where d: "each (disband_member env hide a) (m_memberSlots g) ?w2 = Some (add_fx fx (?w2\<lparr>groups := (groups ?w2)(a \<mapsto> without_refs (ms_guid ` set (m_memberSlots g)) g),
      players := unlinked (ms_guid ` set (m_memberSlots g)) gone ?w2\<rparr>))"
    using each_disband_runs [OF g2 refs gok(1) lv, of env hide] by blast
  have dead: "RemoveAllInvites a (add_fx f (w\<lparr>groups := (groups w)(a \<mapsto> k), players := unlinked S gone ?w2\<rparr>)) = None"
    if "m_invitees k = m_invitees g" for k S f
    by (rule RemoveAllInvites_dead [where p = me and g = k]) (use that me in \<open>simp_all add: unlinked_def\<close>)
  have "Disband env hide a ?w2 = None" using g2 d dead by (simp add: Disband_def on_group_def)
  then show ?thesis using 1 2 by blast
qed

theorem declined_invitation_dangles_witness:
  "\<exists>w1 w2. HandleGroupDeclineOpcode 4 trio_world = Some w1 \<and> logout_player calm_env 4 w1 = Some w2 \<and> Disband calm_env False 0 w2 = None"
  using declined_invitation_dangles [OF trio_ok, of 0 trio_group 4 calm_env False]
  by (simp add: IsCreated_def GetMembersCount_def gw_connected_def)

end
