(* ===== verification/GroupTurns.thy ===== *)
theory GroupTurns
  imports GroupTrio
begin

text \<open>The round robin of a group, its target icons, and what loading restores.\<close>

section \<open>Turns\<close>

lemma find_index_at: "distinct ps \<Longrightarrow> i < length ps \<Longrightarrow> find_index (\<lambda>p. p = ps ! i) ps = Some i"
proof (induction ps arbitrary: i)
  case (Cons q ps)
  show ?case
  proof (cases i)
    case (Suc j)
    then show ?thesis using Cons by auto
  qed simp
qed simp

lemma next_in_turn:
  assumes "i < length ps"
  shows "\<exists>qs. drop (Suc i) ps @ take (Suc i) ps = ps ! (Suc i mod length ps) # qs"
proof (cases "Suc i < length ps")
  case True
  then show ?thesis by (simp add: Cons_nth_drop_Suc [symmetric])
next
  case False
  then have "Suc i = length ps" using assms by simp
  moreover have "ps = ps ! 0 # tl ps" using assms by (cases ps) auto
  ultimately show ?thesis by auto
qed

lemma looter_turn:
  assumes g: "groups w a = Some g" and ms: "distinct (map ms_guid (m_memberSlots g))" "m_lootMethod g \<noteq> FREE_FOR_ALL"
    and near: "\<forall>m \<in> set (m_memberSlots g). near_loot env w (ms_guid m)"
    and i: "i < length (m_memberSlots g)" "m_looterGuid g = ms_guid (m_memberSlots g ! i)"
  shows "\<exists>fx. UpdateLooterGuid env a False w = Some (add_fx fx (w\<lparr>groups := (groups w)(a \<mapsto>
     g\<lparr>m_looterGuid := ms_guid (m_memberSlots g ! (Suc i mod length (m_memberSlots g)))\<rparr>)\<rparr>))"
proof -
  let ?ps = "map ms_guid (m_memberSlots g)" and ?n = "length (m_memberSlots g)"
  let ?p = "ms_guid (m_memberSlots g ! (Suc i mod ?n))"
  have lt: "Suc i mod ?n < ?n" using i(1) by (intro mod_less_divisor) (rule le_less_trans [OF le0])
  obtain qs where "drop (Suc i) ?ps @ take (Suc i) ?ps = ?p # qs" using next_in_turn [of i ?ps] i(1) lt by auto
  moreover have "find_index (\<lambda>p. p = ms_guid (m_memberSlots g ! i)) ?ps = Some i" using find_index_at [OF ms(1), of i] i(1) by simp
  ultimately have order: "looter_order (m_looterGuid g) g = ?p # qs" unfolding looter_order_def i(2) by (simp only: Let_def option.case)
  have "near_loot env w ?p" using near nth_mem [OF lt] by blast
  then have 1: "find (near_loot env w) (looter_order (GetLooterGuid g) g) = Some ?p" using order ms(2) by (simp add: GetLooterGuid_def)
  obtain fx where fx: "SendUpdate a (w\<lparr>groups := (groups w)(a \<mapsto> g\<lparr>m_looterGuid := ?p\<rparr>)\<rparr>) = Some (add_fx fx (w\<lparr>groups := (groups w)(a \<mapsto> g\<lparr>m_looterGuid := ?p\<rparr>)\<rparr>))"
    using SendUpdate_fx [of "w\<lparr>groups := (groups w)(a \<mapsto> g\<lparr>m_looterGuid := ?p\<rparr>)\<rparr>" a] by auto
  show ?thesis
  proof (cases "m_looterGuid g = ?p")
    case True
    then have "w\<lparr>groups := (groups w)(a \<mapsto> g\<lparr>m_looterGuid := ?p\<rparr>)\<rparr> = w" using g by (simp add: fun_upd_idem)
    then show ?thesis using 1 g ms(2) True fx_id [of w] by (simp add: UpdateLooterGuid_def GetLooterGuid_def)
  next
    case False
    then have "UpdateLooterGuid env a False w = SendUpdate a (w\<lparr>groups := (groups w)(a \<mapsto> g\<lparr>m_looterGuid := ?p\<rparr>)\<rparr>)"
      using 1 g ms(2) by (simp add: UpdateLooterGuid_def GetLooterGuid_def on_group_def)
    then show ?thesis unfolding fx by blast
  qed
qed

definition looter_turns :: "group_env \<Rightarrow> nat \<Rightarrow> nat \<Rightarrow> group_world \<Rightarrow> group_world option" where
  "looter_turns env a k w = ((\<lambda>x. Option.bind x (UpdateLooterGuid env a False)) ^^ k) (Some w)"

text \<open>C29: \<^bold>\<open>The round robin is fair.\<close> While all members are near the loot, every turn hands the looter's
  place to the next member in the order of joining: after \<open>k\<close> turns it is \<open>k\<close> places further, around
  the end, so each of \<open>n\<close> members has it once in \<open>n\<close> turns.\<close>

theorem round_robin_fair:
  assumes "gw_ok w" and "groups w a = Some g" and "m_lootMethod g \<noteq> FREE_FOR_ALL"
    and "\<forall>m \<in> set (m_memberSlots g). near_loot env w (ms_guid m)"
    and "i < length (m_memberSlots g)" and "m_looterGuid g = ms_guid (m_memberSlots g ! i)"
  shows "\<exists>w'. looter_turns env a k w = Some w' \<and>
     groups w' a = Some (g\<lparr>m_looterGuid := ms_guid (m_memberSlots g ! ((i + k) mod length (m_memberSlots g)))\<rparr>)"
proof -
  have d: "distinct (map ms_guid (m_memberSlots g))" using links_okD(1) [OF gw_okD(1) [OF assms(1)] assms(2)] by (simp add: group_ok_def)
  have "\<exists>w'. looter_turns env a k w = Some w' \<and> players w' = players w \<and>
     groups w' a = Some (g\<lparr>m_looterGuid := ms_guid (m_memberSlots g ! ((i + k) mod length (m_memberSlots g)))\<rparr>)"
  proof (induction k)
    case 0
    then show ?case using assms(2,5,6) by (simp add: looter_turns_def)
  next
    case (Suc k)
    let ?n = "length (m_memberSlots g)"
    let ?g = "g\<lparr>m_looterGuid := ms_guid (m_memberSlots g ! ((i + k) mod ?n))\<rparr>"
    obtain v where v: "looter_turns env a k w = Some v" "players v = players w" "groups v a = Some ?g" using Suc by blast
    have lt: "(i + k) mod ?n < ?n" using assms(5) by (intro mod_less_divisor) (rule le_less_trans [OF le0])
    have "near_loot env v = near_loot env w" using v(2) by (simp add: fun_eq_iff near_loot_def gw_FindPlayer_def)
    then obtain fx where "UpdateLooterGuid env a False v = Some (add_fx fx (v\<lparr>groups := (groups v)(a \<mapsto>
         ?g\<lparr>m_looterGuid := ms_guid (m_memberSlots g ! (Suc ((i + k) mod ?n) mod ?n))\<rparr>)\<rparr>))"
      using looter_turn [OF v(3), of env "(i + k) mod ?n"] d assms(3,4) lt by auto
    then show ?case using v by (simp add: looter_turns_def mod_Suc_eq)
  qed
  then show ?thesis by blast
qed

theorem round_robin_fair_witness:
  "\<exists>w'. looter_turns calm_env 0 2 trio_world = Some w' \<and> groups w' 0 = Some (trio_group\<lparr>m_looterGuid := 3\<rparr>)"
  using round_robin_fair [OF trio_ok, of 0 trio_group calm_env 0 2]
  by (simp add: near_loot_def gw_FindPlayer_def calm_env_def three_env_def GROUP_LOOT_def FREE_FOR_ALL_def)

section \<open>Icons\<close>

definition icons_unique :: "guid list \<Rightarrow> bool" where
  "icons_unique xs = (\<forall>j < length xs. \<forall>k < length xs. xs ! j = xs ! k \<and> xs ! j \<noteq> 0 \<longrightarrow> j = k)"

lemma icons_set_unique:
  assumes "icons_unique xs" and "i < length xs"
  shows "icons_unique (icons_set i t xs)"
  using assms by (auto simp: icons_unique_def icons_set_def nth_list_update)

text \<open>C32: \<^bold>\<open>An icon marks one target and a target has one icon.\<close> Setting an icon puts it on the
  target, takes the target's other icon away, leaves all others, and never leaves two icons on one
  target.\<close>

theorem icon_marks_one:
  assumes "gw_ok w" and "groups w a = Some g" and "IsCreated g" and "i < 8" and "icons_unique (m_targetIcons g)"
  shows "\<exists>w' h. SetTargetIcon i t a w = Some w' \<and> gw_ok w' \<and> groups w' a = Some h \<and> icons_unique (m_targetIcons h) \<and> m_targetIcons h ! unat i = t \<and>
     (\<forall>j < TARGETICONCOUNT. j \<noteq> unat i \<longrightarrow> m_targetIcons h ! j = (if m_targetIcons g ! j = t then 0 else m_targetIcons g ! j))"
proof -
  note gok = links_okD(1) [OF gw_okD(1) [OF assms(1)] assms(2)]
  have len: "length (m_targetIcons g) = TARGETICONCOUNT" and ms: "m_memberSlots g \<noteq> []" using gok assms(3) by (simp_all add: group_ok_def IsCreated_def GetMembersCount_def)
  have i: "unat i < length (m_targetIcons g)" using assms(4) len by (simp add: word_less_nat_alt TARGETICONCOUNT_def)
  let ?h = "g\<lparr>m_targetIcons := icons_set (unat i) t (m_targetIcons g)\<rparr>"
  obtain fx where 1: "SetTargetIcon i t a w = Some (add_fx fx (w\<lparr>groups := (groups w)(a \<mapsto> ?h)\<rparr>))"
    using SetTargetIcon_runs [OF assms(2) len, of i t] i len by auto
  have "gw_ok (w\<lparr>groups := (groups w)(a \<mapsto> ?h)\<rparr>)"
    by (rule cosmetic_keeps [OF assms(1,2) ms]) (use gok in \<open>simp_all add: group_ok_def same_links_def icons_set_def isRaidGroup_def\<close>)
  moreover have "icons_unique (m_targetIcons ?h)" using icons_set_unique [OF assms(5) i] by simp
  moreover have "m_targetIcons ?h ! unat i = t" using i by (simp add: icons_set_def)
  moreover have "m_targetIcons ?h ! j = (if m_targetIcons g ! j = t then 0 else m_targetIcons g ! j)" if "j < TARGETICONCOUNT" "j \<noteq> unat i" for j
    using that len by (simp add: icons_set_def)
  ultimately show ?thesis unfolding 1 by (intro exI [of _ "add_fx fx (w\<lparr>groups := (groups w)(a \<mapsto> ?h)\<rparr>)"] exI [of _ ?h]) simp
qed

theorem icon_marks_one_witness:
  "\<exists>w' h. SetTargetIcon 7 4 0 trio_world = Some w' \<and> gw_ok w' \<and> groups w' 0 = Some h \<and> m_targetIcons h ! 7 = 4"
  using icon_marks_one [OF trio_ok, of 0 trio_group 7 4]
  by (auto simp: IsCreated_def GetMembersCount_def icons_unique_def)

section \<open>Loading\<close>

text \<open>\<^bold>\<open>Loading a group forgets its loot method.\<close> From the row of a group the leader, the icons, the
  type and the master looter come back; the loot method, the looter, the threshold and the raid
  difficulty keep the values of the constructor, whatever the row says.\<close>

theorem loot_method_not_restored:
  assumes "groups w a = Some g" and "m_bgGroup g = None" and "m_subGroupsCounts g = None" and "m_memberSlots g = []" and "ge_CharacterNameByGuid env (mk_guid HighGuid_Player (row_leaderGuid r)) = Some name"
  shows "\<exists>w' h. LoadGroupFromDB env r a w = Some w' \<and> groups w' a = Some h \<and>
     m_leaderGuid h = mk_guid HighGuid_Player (row_leaderGuid r) \<and> m_targetIcons h = row_icons r \<and> m_groupType h = row_groupType r \<and>
     m_masterLooterGuid h = mk_guid HighGuid_Player (row_masterLooterGuid r) \<and>
     m_lootMethod h = m_lootMethod g \<and> m_looterGuid h = m_looterGuid g \<and> m_lootThreshold h = m_lootThreshold g \<and> m_raidDifficulty h = m_raidDifficulty g"
  using assms by (auto simp: LoadGroupFromDB_def isBGGroup_def initRaidSubGroupsCounter_def GenerateGroupId_def Let_def)

theorem loot_method_not_restored_witness:
  "\<exists>w' h. LoadGroupFromDB (calm_env\<lparr>ge_CharacterNameByGuid := (\<lambda>_. Some ''Ann'')\<rparr>)
       \<lparr>row_leaderGuid = 1, row_icons = replicate 8 0, row_groupType = 0, row_difficulty = 0, row_masterLooterGuid = 1, row_lootMethod = 2,
        row_looterGuid = 1, row_lootThreshold = 4, row_guid = 1\<rparr> 0 ((no_groups (new_generator 1))\<lparr>groups := [0 \<mapsto> new_Group]\<rparr>) = Some w' \<and>
     groups w' 0 = Some h \<and> m_leaderGuid h = 1 \<and> m_lootMethod h = FREE_FOR_ALL"
  using loot_method_not_restored [of "(no_groups (new_generator 1))\<lparr>groups := [0 \<mapsto> new_Group]\<rparr>" 0 new_Group "calm_env\<lparr>ge_CharacterNameByGuid := (\<lambda>_. Some ''Ann'')\<rparr>"
      "\<lparr>row_leaderGuid = 1, row_icons = replicate 8 0, row_groupType = 0, row_difficulty = 0, row_masterLooterGuid = 1, row_lootMethod = 2,
        row_looterGuid = 1, row_lootThreshold = 4, row_guid = 1\<rparr>" "''Ann''"]
  by (auto simp: new_Group_def FREE_FOR_ALL_def mk_guid_def HighGuid_Player_def)

end
