(* ===== verification/Socket.thy ===== *)
theory Socket
  imports MessageBuffer ByteBufferProps
begin

text \<open>
  \<^verbatim>\<open>src/src/server/shared/Networking/Socket.h\<close> as it is built on Linux (without \<open>TC_SOCKET_USE_IOCP\<close>):
  the read buffer, the queue of packets to write, and the closing of a connection. The operating
  system's socket shows in what its calls return: the bytes a finished read put into the buffer and
  the results of \<open>write_some\<close> are arguments; the bytes it accepted are kept in \<open>sk_written\<close>.
  An \<open>async_read_some\<close> or a wait for writability that has not called back yet is a flag.
\<close>

record socket =
  sk_remoteAddress :: string
  sk_readBuffer :: message_buffer
  sk_writeQueue :: "message_buffer list"
  sk_closed :: bool
  sk_closing :: bool
  sk_isWritingAsync :: bool
  sk_reading :: bool
  sk_written :: "u8 list"

definition READ_BLOCK_SIZE :: nat where "READ_BLOCK_SIZE = 4096"

definition new_Socket :: "string \<Rightarrow> socket" where
  "new_Socket remote =
     \<lparr>sk_remoteAddress = remote, sk_readBuffer = mb_Resize READ_BLOCK_SIZE default_MessageBuffer,
      sk_writeQueue = [], sk_closed = False, sk_closing = False, sk_isWritingAsync = False,
      sk_reading = False, sk_written = []\<rparr>"

definition IsOpen :: "'z socket_scheme \<Rightarrow> bool" where
  "IsOpen s \<longleftrightarrow> \<not> sk_closed s \<and> \<not> sk_closing s"

definition AsyncRead :: "'z socket_scheme \<Rightarrow> 'z socket_scheme" where
  "AsyncRead s =
     (if \<not> IsOpen s then s
      else s\<lparr>sk_readBuffer := EnsureFreeSpace (Normalize (sk_readBuffer s)), sk_reading := True\<rparr>)"

definition QueuePacket :: "message_buffer \<Rightarrow> 'z socket_scheme \<Rightarrow> 'z socket_scheme" where
  "QueuePacket buffer s = s\<lparr>sk_writeQueue := sk_writeQueue s @ [buffer]\<rparr>"

text \<open>\<open>OnClose\<close> is virtual: the session's override is an argument. The base class does nothing.\<close>

definition base_OnClose :: "'z socket_scheme \<Rightarrow> 'z socket_scheme" where
  "base_OnClose s = s"

definition CloseSocket ::
  "('z socket_scheme \<Rightarrow> 'z socket_scheme) \<Rightarrow> 'z socket_scheme \<Rightarrow> 'z socket_scheme" where
  "CloseSocket OnClose s = (if sk_closed s then s else OnClose (s\<lparr>sk_closed := True\<rparr>))"

definition DelayedCloseSocket :: "'z socket_scheme \<Rightarrow> 'z socket_scheme" where
  "DelayedCloseSocket s = s\<lparr>sk_closing := True\<rparr>"

definition AsyncProcessQueue :: "'z socket_scheme \<Rightarrow> bool \<times> 'z socket_scheme" where
  "AsyncProcessQueue s =
     (if sk_isWritingAsync s then (False, s) else (False, s\<lparr>sk_isWritingAsync := True\<rparr>))"

datatype write_result = WouldBlock | WriteError | Sent nat

definition pop_queued ::
  "('z socket_scheme \<Rightarrow> 'z socket_scheme) \<Rightarrow> 'z socket_scheme \<Rightarrow> 'z socket_scheme" where
  "pop_queued OnClose s =
     (let s' = s\<lparr>sk_writeQueue := tl (sk_writeQueue s)\<rparr>
      in if sk_closing s' \<and> sk_writeQueue s' = [] then CloseSocket OnClose s' else s')"

definition HandleQueue ::
  "('z socket_scheme \<Rightarrow> 'z socket_scheme) \<Rightarrow> write_result \<Rightarrow> 'z socket_scheme
   \<Rightarrow> bool \<times> 'z socket_scheme" where
  "HandleQueue OnClose res s =
     (case sk_writeQueue s of
        [] \<Rightarrow> (False, s)
      | queuedMessage # rest \<Rightarrow>
          (let bytesToSend = GetActiveSize queuedMessage
           in case res of
                WouldBlock \<Rightarrow> AsyncProcessQueue s
              | WriteError \<Rightarrow> (False, pop_queued OnClose s)
              | Sent bytesSent \<Rightarrow>
                  (let sent = take bytesSent (drop (mb_rpos queuedMessage) (mb_storage queuedMessage));
                       s = s\<lparr>sk_written := sk_written s @ sent\<rparr>
                   in if bytesSent = 0 then (False, pop_queued OnClose s)
                      else if bytesSent < bytesToSend
                      then AsyncProcessQueue
                             (s\<lparr>sk_writeQueue := ReadCompleted bytesSent queuedMessage # rest\<rparr>)
                      else (let s' = pop_queued OnClose s in (sk_writeQueue s' \<noteq> [], s')))))"

text \<open>
  \<open>for (; HandleQueue();) ;\<close> with the results of the calls of \<open>write_some\<close> in order; every turn
  that goes on pops a packet. \<open>OnClose\<close> must not queue packets (no override does).
\<close>

fun handle_turns ::
  "('z socket_scheme \<Rightarrow> 'z socket_scheme) \<Rightarrow> nat \<Rightarrow> (nat \<Rightarrow> write_result) \<Rightarrow> nat
   \<Rightarrow> 'z socket_scheme \<Rightarrow> 'z socket_scheme" where
  "handle_turns OnClose 0 res i s = s"
| "handle_turns OnClose (Suc n) res i s =
     (case HandleQueue OnClose (res i) s of
        (again, s') \<Rightarrow> if again then handle_turns OnClose n res (Suc i) s' else s')"

definition sk_Update ::
  "('z socket_scheme \<Rightarrow> 'z socket_scheme) \<Rightarrow> (nat \<Rightarrow> write_result) \<Rightarrow> 'z socket_scheme
   \<Rightarrow> bool \<times> 'z socket_scheme" where
  "sk_Update OnClose res s =
     (if sk_closed s then (False, s)
      else if sk_isWritingAsync s \<or> (sk_writeQueue s = [] \<and> \<not> sk_closing s) then (True, s)
      else (True, handle_turns OnClose (Suc (length (sk_writeQueue s))) res 0 s))"

definition WriteHandlerWrapper ::
  "('z socket_scheme \<Rightarrow> 'z socket_scheme) \<Rightarrow> write_result \<Rightarrow> 'z socket_scheme \<Rightarrow> 'z socket_scheme" where
  "WriteHandlerWrapper OnClose res s =
     snd (HandleQueue OnClose res (s\<lparr>sk_isWritingAsync := False\<rparr>))"

text \<open>
  The end of an \<open>async_read_some\<close>: \<open>None\<close> is an error, \<open>Some bytes\<close> what was read into the free
  space of the buffer before the handler ran. The handler of the session is an argument and may
  fail.
\<close>

definition receive :: "u8 list \<Rightarrow> 'z socket_scheme \<Rightarrow> 'z socket_scheme" where
  "receive bytes s =
     (let b = sk_readBuffer s
      in s\<lparr>sk_readBuffer := WriteCompleted (length bytes)
                              (b\<lparr>mb_storage := vec_copy (mb_wpos b) bytes (mb_storage b)\<rparr>),
           sk_reading := False\<rparr>)"

definition ReadHandlerInternal ::
  "('z socket_scheme \<Rightarrow> 'z socket_scheme) \<Rightarrow> ('z socket_scheme \<Rightarrow> 'z socket_scheme option)
   \<Rightarrow> u8 list option \<Rightarrow> 'z socket_scheme \<Rightarrow> 'z socket_scheme option" where
  "ReadHandlerInternal OnClose ReadHandler result s =
     (case result of
        None \<Rightarrow> Some (CloseSocket OnClose (s\<lparr>sk_reading := False\<rparr>))
      | Some bytes \<Rightarrow> ReadHandler (receive bytes s))"

section \<open>Reading out of the buffer\<close>

text \<open>
  \<open>n\<close> bytes at \<open>off\<close> behind the read pointer; beyond the vector the access is undefined (\<open>None\<close>),
  but what lies between the received bytes and the end of the vector can be read.
\<close>

definition peek :: "nat \<Rightarrow> nat \<Rightarrow> message_buffer \<Rightarrow> u8 list option" where
  "peek off n b =
     (if mb_rpos b + off + n \<le> length (mb_storage b)
      then Some (take n (drop (mb_rpos b + off) (mb_storage b))) else None)"

section \<open>Packets as sequences of writes\<close>

text \<open>\<open>pkt << a << b\<close>: the buffer after the writes, \<open>None\<close> when one throws or stops the process.\<close>

fun stream :: "(unit, unit) bb list \<Rightarrow> byte_buffer \<Rightarrow> byte_buffer option" where
  "stream [] b = Some b"
| "stream (w # ws) b = (case w b of (Inl e, b') \<Rightarrow> None | (Inr _, b') \<Rightarrow> stream ws b')"

end
