(* ===== verification/BigNumber.thy ===== *)
theory BigNumber
  imports ByteBuffer
begin

text \<open>
  \<^verbatim>\<open>src/src/common/Cryptography/BigNumber.h\<close>, \<^verbatim>\<open>.cpp\<close>, \<^verbatim>\<open>SHA1.h\<close>, \<^verbatim>\<open>.cpp\<close> and \<^verbatim>\<open>HMACSHA1.h\<close>, \<^verbatim>\<open>.cpp\<close>:
  the wrappers of OpenSSL that the logon code computes with. OpenSSL is not part of the
  repository: its functions are the record \<open>openssl\<close>, an argument of every definition that calls
  them, and \<open>openssl_doc\<close> is what its manual pages say of them. A \<open>BIGNUM\<close> is the integer it holds.
\<close>

section \<open>OpenSSL\<close>

text \<open>\<open>BN_hex2bn ssl old s\<close> is the number left in a \<open>BIGNUM\<close> that held \<open>old\<close>.\<close>

record openssl =
  BN_set_word :: "u32 \<Rightarrow> int"
  BN_bin2bn :: "u8 list \<Rightarrow> int"
  BN_bn2bin :: "int \<Rightarrow> u8 list"
  BN_num_bytes :: "int \<Rightarrow> nat"
  BN_hex2bn :: "int \<Rightarrow> string \<Rightarrow> int"
  BN_bn2hex :: "int \<Rightarrow> string"
  BN_bn2dec :: "int \<Rightarrow> string"
  BN_lshift :: "int \<Rightarrow> nat \<Rightarrow> int"
  BN_add_word :: "int \<Rightarrow> u32 \<Rightarrow> int"
  BN_get_word :: "int \<Rightarrow> u64"
  BN_add :: "int \<Rightarrow> int \<Rightarrow> int"
  BN_sub :: "int \<Rightarrow> int \<Rightarrow> int"
  BN_mul :: "int \<Rightarrow> int \<Rightarrow> int"
  BN_div :: "int \<Rightarrow> int \<Rightarrow> int"
  BN_mod :: "int \<Rightarrow> int \<Rightarrow> int"
  BN_exp :: "int \<Rightarrow> int \<Rightarrow> int"
  BN_mod_exp :: "int \<Rightarrow> int \<Rightarrow> int \<Rightarrow> int"
  BN_is_zero :: "int \<Rightarrow> bool"
  BN_is_negative :: "int \<Rightarrow> bool"
  ssl_SHA1 :: "u8 list \<Rightarrow> u8 list"
  ssl_HMAC_SHA1 :: "u8 list \<Rightarrow> u8 list \<Rightarrow> u8 list"

definition SHA_DIGEST_LENGTH :: nat where "SHA_DIGEST_LENGTH = 20"

section \<open>BigNumber\<close>

definition SetDword :: "openssl \<Rightarrow> u32 \<Rightarrow> int" where
  "SetDword ssl val = BN_set_word ssl val"

definition SetQword :: "openssl \<Rightarrow> u64 \<Rightarrow> int" where
  "SetQword ssl val =
     BN_add_word ssl (BN_lshift ssl (BN_set_word ssl (ucast (drop_bit 32 val))) 32)
       (ucast (val AND 0xFFFFFFFF))"

definition SetBinary :: "openssl \<Rightarrow> u8 list \<Rightarrow> int" where
  "SetBinary ssl bytes = BN_bin2bn ssl (map (\<lambda>i. bytes ! (length bytes - 1 - i)) [0..<length bytes])"

text \<open>A C string ends at its first zero byte.\<close>

definition c_text :: "string \<Rightarrow> string" where
  "c_text s = takeWhile (\<lambda>c. c \<noteq> CHR 0x00) s"

definition SetHexStr :: "openssl \<Rightarrow> string \<Rightarrow> int \<Rightarrow> int" where
  "SetHexStr ssl str bn = BN_hex2bn ssl bn (c_text str)"

definition bn_plus :: "openssl \<Rightarrow> int \<Rightarrow> int \<Rightarrow> int" where "bn_plus ssl a b = BN_add ssl a b"
definition bn_minus :: "openssl \<Rightarrow> int \<Rightarrow> int \<Rightarrow> int" where "bn_minus ssl a b = BN_sub ssl a b"
definition bn_times :: "openssl \<Rightarrow> int \<Rightarrow> int \<Rightarrow> int" where "bn_times ssl a b = BN_mul ssl a b"
definition bn_over :: "openssl \<Rightarrow> int \<Rightarrow> int \<Rightarrow> int" where "bn_over ssl a b = BN_div ssl a b"
definition bn_modulo :: "openssl \<Rightarrow> int \<Rightarrow> int \<Rightarrow> int" where "bn_modulo ssl a b = BN_mod ssl a b"
definition bn_Exp :: "openssl \<Rightarrow> int \<Rightarrow> int \<Rightarrow> int" where "bn_Exp ssl a b = BN_exp ssl a b"

definition ModExp :: "openssl \<Rightarrow> int \<Rightarrow> int \<Rightarrow> int \<Rightarrow> int" where
  "ModExp ssl bn bn1 bn2 = BN_mod_exp ssl bn bn1 bn2"

definition GetNumBytes :: "openssl \<Rightarrow> int \<Rightarrow> nat" where
  "GetNumBytes ssl bn = BN_num_bytes ssl bn"

definition AsDword :: "openssl \<Rightarrow> int \<Rightarrow> u32" where
  "AsDword ssl bn = ucast (BN_get_word ssl bn)"

definition IsZero :: "openssl \<Rightarrow> int \<Rightarrow> bool" where "IsZero ssl bn = BN_is_zero ssl bn"
definition IsNegative :: "openssl \<Rightarrow> int \<Rightarrow> bool" where "IsNegative ssl bn = BN_is_negative ssl bn"

text \<open>
  The array has the longer of both lengths. OpenSSL writes the bytes of the number to its front,
  most significant first; the rest stays zero, and the whole array is reversed.
\<close>

definition AsByteArray :: "openssl \<Rightarrow> nat \<Rightarrow> bool \<Rightarrow> int \<Rightarrow> u8 list" where
  "AsByteArray ssl minSize littleEndian bn =
     (let len = (if minSize \<ge> GetNumBytes ssl bn then minSize else GetNumBytes ssl bn);
          arr = vec_copy 0 (BN_bn2bin ssl bn) (replicate len 0)
      in if littleEndian then rev arr else arr)"

definition AsHexStr :: "openssl \<Rightarrow> int \<Rightarrow> string" where "AsHexStr ssl bn = BN_bn2hex ssl bn"
definition AsDecStr :: "openssl \<Rightarrow> int \<Rightarrow> string" where "AsDecStr ssl bn = BN_bn2dec ssl bn"

section \<open>SHA1Hash\<close>

text \<open>The context of a digest is the data it was given since \<open>SHA1_Init\<close>.\<close>

record SHA1Hash =
  mC :: "u8 list"
  mDigest :: "u8 list"

definition new_SHA1Hash :: SHA1Hash where
  "new_SHA1Hash = \<lparr>mC = [], mDigest = replicate SHA_DIGEST_LENGTH 0\<rparr>"

definition UpdateData :: "u8 list \<Rightarrow> SHA1Hash \<Rightarrow> SHA1Hash" where
  "UpdateData dta sha = sha\<lparr>mC := mC sha @ dta\<rparr>"

definition UpdateString :: "string \<Rightarrow> SHA1Hash \<Rightarrow> SHA1Hash" where
  "UpdateString str = UpdateData (map byte_of str)"

definition UpdateBigNumbers :: "openssl \<Rightarrow> int list \<Rightarrow> SHA1Hash \<Rightarrow> SHA1Hash" where
  "UpdateBigNumbers ssl bns sha =
     fold (\<lambda>bn. UpdateData (take (GetNumBytes ssl bn) (AsByteArray ssl 0 True bn))) bns sha"

definition sha_Initialize :: "SHA1Hash \<Rightarrow> SHA1Hash" where
  "sha_Initialize sha = sha\<lparr>mC := []\<rparr>"

definition Finalize :: "openssl \<Rightarrow> SHA1Hash \<Rightarrow> SHA1Hash" where
  "Finalize ssl sha = sha\<lparr>mDigest := ssl_SHA1 ssl (mC sha)\<rparr>"

section \<open>HmacHash\<close>

record HmacHash =
  m_ctx :: "u8 list \<times> u8 list"
  m_digest :: "u8 list"

definition new_HmacHash :: "u8 list \<Rightarrow> HmacHash" where
  "new_HmacHash seed = \<lparr>m_ctx = (seed, []), m_digest = replicate SHA_DIGEST_LENGTH 0\<rparr>"

definition hmac_UpdateData :: "u8 list \<Rightarrow> HmacHash \<Rightarrow> HmacHash" where
  "hmac_UpdateData dta h = h\<lparr>m_ctx := (fst (m_ctx h), snd (m_ctx h) @ dta)\<rparr>"

text \<open>The failed assertion is \<open>None\<close>.\<close>

definition hmac_Finalize :: "openssl \<Rightarrow> HmacHash \<Rightarrow> HmacHash option" where
  "hmac_Finalize ssl h =
     (let d = ssl_HMAC_SHA1 ssl (fst (m_ctx h)) (snd (m_ctx h))
      in if length d = SHA_DIGEST_LENGTH then Some (h\<lparr>m_digest := d\<rparr>) else None)"

definition ComputeHash :: "openssl \<Rightarrow> int \<Rightarrow> HmacHash \<Rightarrow> HmacHash option" where
  "ComputeHash ssl bn h =
     hmac_Finalize ssl (hmac_UpdateData (take (GetNumBytes ssl bn) (AsByteArray ssl 0 True bn)) h)"

section \<open>What OpenSSL documents\<close>

primrec le_value :: "u8 list \<Rightarrow> int" where
  "le_value [] = 0"
| "le_value (b # bs) = uint b + 256 * le_value bs"

definition be_value :: "u8 list \<Rightarrow> int" where
  "be_value bs = le_value (rev bs)"

fun hex_nibble :: "char \<Rightarrow> int option" where
  "hex_nibble c =
     (let n = of_char c :: int
      in if 48 \<le> n \<and> n \<le> 57 then Some (n - 48)
         else if 65 \<le> n \<and> n \<le> 70 then Some (n - 55)
         else if 97 \<le> n \<and> n \<le> 102 then Some (n - 87) else None)"

definition hex_text :: "string \<Rightarrow> bool" where
  "hex_text s \<longleftrightarrow> s \<noteq> [] \<and> (\<forall>c \<in> set s. hex_nibble c \<noteq> None)"

definition hex_value :: "string \<Rightarrow> int" where
  "hex_value s = foldl (\<lambda>n c. 16 * n + the (hex_nibble c)) 0 s"

definition openssl_doc :: "openssl \<Rightarrow> bool" where
  "openssl_doc ssl \<longleftrightarrow>
     (\<forall>w. BN_set_word ssl w = uint w) \<and>
     (\<forall>bs. BN_bin2bn ssl bs = be_value bs) \<and>
     (\<forall>n \<ge> 0. be_value (BN_bn2bin ssl n) = n) \<and>
     (\<forall>n. BN_bn2bin ssl n \<noteq> [] \<longrightarrow> hd (BN_bn2bin ssl n) \<noteq> 0) \<and>
     (\<forall>n. BN_num_bytes ssl n = length (BN_bn2bin ssl n)) \<and>
     (\<forall>n s. hex_text s \<longrightarrow> BN_hex2bn ssl n s = hex_value s) \<and>
     (\<forall>n. BN_hex2bn ssl n [] = n) \<and>
     (\<forall>a b. BN_add ssl a b = a + b) \<and>
     (\<forall>a b. BN_mul ssl a b = a * b) \<and>
     (\<forall>a m. 0 \<le> a \<and> 0 < m \<longrightarrow> BN_mod ssl a m = a mod m) \<and>
     (\<forall>a e m. 0 \<le> a \<and> 0 \<le> e \<and> 0 < m \<longrightarrow> BN_mod_exp ssl a e m = a ^ nat e mod m) \<and>
     (\<forall>n. BN_is_zero ssl n \<longleftrightarrow> n = 0) \<and>
     (\<forall>m. length (ssl_SHA1 ssl m) = SHA_DIGEST_LENGTH) \<and>
     (\<forall>k m. length (ssl_HMAC_SHA1 ssl k m) = SHA_DIGEST_LENGTH)"

end
