(* ===== verification/RealmList.thy ===== *)
theory RealmList
  imports BigNumber StdContainers
begin

text \<open>
  \<^verbatim>\<open>src/src/server/authserver/Authentication/AuthCodes.h\<close>, \<^verbatim>\<open>.cpp\<close>, \<^verbatim>\<open>TOTP.cpp\<close>, \<^verbatim>\<open>shared/Realm/Realm.h\<close>,
  \<^verbatim>\<open>.cpp\<close> and \<^verbatim>\<open>RealmList.cpp\<close>: the accepted client builds, the time-based tokens and the realms.
  An address is its text; what Boost.Asio says of addresses is the record \<open>asio\<close>.
\<close>

section \<open>Answers and builds\<close>

definition WOW_SUCCESS :: u8 where "WOW_SUCCESS = 0x00"
definition WOW_FAIL_BANNED :: u8 where "WOW_FAIL_BANNED = 0x03"
definition WOW_FAIL_UNKNOWN_ACCOUNT :: u8 where "WOW_FAIL_UNKNOWN_ACCOUNT = 0x04"
definition WOW_FAIL_VERSION_INVALID :: u8 where "WOW_FAIL_VERSION_INVALID = 0x09"
definition WOW_FAIL_SUSPENDED :: u8 where "WOW_FAIL_SUSPENDED = 0x0C"
definition WOW_FAIL_LOCKED_ENFORCED :: u8 where "WOW_FAIL_LOCKED_ENFORCED = 0x10"
definition WOW_FAIL_UNLOCKABLE_LOCK :: u8 where "WOW_FAIL_UNLOCKABLE_LOCK = 0x19"

definition POST_BC_EXP_FLAG :: u8 where "POST_BC_EXP_FLAG = 0x2"
definition PRE_BC_EXP_FLAG :: u8 where "PRE_BC_EXP_FLAG = 0x1"
definition NO_VALID_EXP_FLAG :: u8 where "NO_VALID_EXP_FLAG = 0x0"

record realm_build_info =
  bi_Build :: int
  bi_MajorVersion :: int
  bi_MinorVersion :: int
  bi_BugfixVersion :: int
  bi_HotfixVersion :: int

definition build_info :: "int \<Rightarrow> int \<Rightarrow> int \<Rightarrow> int \<Rightarrow> char \<Rightarrow> realm_build_info" where
  "build_info b major minor fix hot =
     \<lparr>bi_Build = b, bi_MajorVersion = major, bi_MinorVersion = minor, bi_BugfixVersion = fix,
      bi_HotfixVersion = of_char hot\<rparr>"

text \<open>The tables, without the terminator of build 0 at which the loops stop.\<close>

definition PostBcAcceptedClientBuilds :: "realm_build_info list" where
  "PostBcAcceptedClientBuilds =
     [build_info 15595 4 3 4 CHR '' '', build_info 14545 4 2 2 CHR '' '',
      build_info 13623 4 0 6 CHR ''a'', build_info 13930 3 3 5 CHR ''a'',
      build_info 12340 3 3 5 CHR ''a'', build_info 11723 3 3 3 CHR ''a'',
      build_info 11403 3 3 2 CHR '' '', build_info 11159 3 3 0 CHR ''a'',
      build_info 10505 3 2 2 CHR ''a'', build_info 9947 3 1 3 CHR '' '',
      build_info 8606 2 4 3 CHR '' '']"

definition PreBcAcceptedClientBuilds :: "realm_build_info list" where
  "PreBcAcceptedClientBuilds =
     [build_info 6141 1 12 3 CHR '' '', build_info 6005 1 12 2 CHR '' '',
      build_info 5875 1 12 1 CHR '' '']"

definition IsPreBCAcceptedClientBuild :: "int \<Rightarrow> bool" where
  "IsPreBCAcceptedClientBuild b = list_ex (\<lambda>i. bi_Build i = b) PreBcAcceptedClientBuilds"

definition IsPostBCAcceptedClientBuild :: "int \<Rightarrow> bool" where
  "IsPostBCAcceptedClientBuild b = list_ex (\<lambda>i. bi_Build i = b) PostBcAcceptedClientBuilds"

definition IsAcceptedClientBuild :: "int \<Rightarrow> bool" where
  "IsAcceptedClientBuild b \<longleftrightarrow> IsPostBCAcceptedClientBuild b \<or> IsPreBCAcceptedClientBuild b"

definition GetBuildInfo :: "int \<Rightarrow> realm_build_info option" where
  "GetBuildInfo b =
     (case List.find (\<lambda>i. bi_Build i = b) PostBcAcceptedClientBuilds of
        Some i \<Rightarrow> Some i
      | None \<Rightarrow> List.find (\<lambda>i. bi_Build i = b) PreBcAcceptedClientBuilds)"

section \<open>Tokens\<close>

text \<open>
  \<open>base32_decode\<close>: five bits a digit, most significant first. The \<open>int\<close> that collects the bits is
  a 32-bit word here (the code shifts bits out of it on the left and never looks at them again).
  The result is the returned count and the bytes of the result array that were set; the
  terminating zero falls on a byte that \<open>GenerateToken\<close> has set to zero.
\<close>

definition base32_digit :: "u8 \<Rightarrow> u8 option" where
  "base32_digit c =
     (let ch = (if c = 0x30 then 0x4F else if c = 0x31 then 0x4C else if c = 0x38 then 0x42 else c)
      in if (0x41 \<le> ch \<and> ch \<le> 0x5A) \<or> (0x61 \<le> ch \<and> ch \<le> 0x7A) then Some ((ch AND 0x1F) - 1)
         else if 0x32 \<le> ch \<and> ch \<le> 0x37 then Some (ch - (0x32 - 26))
         else None)"

definition base32_skipped :: "u8 \<Rightarrow> bool" where
  "base32_skipped c \<longleftrightarrow> c = 0x20 \<or> c = 0x09 \<or> c = 0x0D \<or> c = 0x0A \<or> c = 0x2D"

fun base32_loop :: "nat \<Rightarrow> u32 \<Rightarrow> nat \<Rightarrow> u8 list \<Rightarrow> u8 list \<Rightarrow> int \<times> u8 list" where
  "base32_loop bufSize buffer bitsLeft [] res = (int (length res), res)"
| "base32_loop bufSize buffer bitsLeft (c # cs) res =
     (if \<not> length res < bufSize then (int (length res), res)
      else if base32_skipped c then base32_loop bufSize buffer bitsLeft cs res
      else case base32_digit c of
             None \<Rightarrow> (- 1, res)
           | Some d \<Rightarrow>
               (let buffer = push_bit 5 buffer OR ucast d; bitsLeft = bitsLeft + 5
                in if bitsLeft \<ge> 8
                   then base32_loop bufSize buffer (bitsLeft - 8) cs
                          (res @ [ucast (drop_bit (bitsLeft - 8) buffer)])
                   else base32_loop bufSize buffer bitsLeft cs res))"

definition base32_decode :: "string \<Rightarrow> nat \<Rightarrow> int \<times> u8 list" where
  "base32_decode encoded bufSize = base32_loop bufSize 0 0 (map byte_of (c_text encoded)) []"

text \<open>\<open>now\<close> is \<open>time(nullptr)\<close>, an \<open>unsigned long\<close> of 64 bits.\<close>

definition GenerateToken :: "openssl \<Rightarrow> u64 \<Rightarrow> string \<Rightarrow> u32" where
  "GenerateToken ssl now b32key =
     (let keySize = length (c_text b32key);
          bufsize = (keySize + 7) div 8 * 5;
          timestamp = now div 30;
          challenge = map (\<lambda>i. ucast (drop_bit (8 * (7 - i)) timestamp)) [0..<8];
          encoded = vec_copy 0 (snd (base32_decode b32key bufsize)) (replicate bufsize 0);
          hmacRes = ssl_HMAC_SHA1 ssl encoded challenge;
          offset = unat (hmacRes ! 19 AND 0xF);
          truncHash = (push_bit 24 (ucast (hmacRes ! offset)) OR push_bit 16 (ucast (hmacRes ! (offset + 1)))
                       OR push_bit 8 (ucast (hmacRes ! (offset + 2))) OR ucast (hmacRes ! (offset + 3)))
                      AND 0x7FFFFFFF
      in truncHash mod 1000000)"

section \<open>Realms\<close>

definition REALM_FLAG_VERSION_MISMATCH :: u32 where "REALM_FLAG_VERSION_MISMATCH = 0x01"
definition REALM_FLAG_SPECIFYBUILD :: u32 where "REALM_FLAG_SPECIFYBUILD = 0x04"
definition REALM_TYPE_NORMAL :: u8 where "REALM_TYPE_NORMAL = 0"
definition REALM_TYPE_PVP :: u8 where "REALM_TYPE_PVP = 1"
definition MAX_CLIENT_REALM_TYPE :: u8 where "MAX_CLIENT_REALM_TYPE = 14"
definition REALM_TYPE_FFA_PVP :: u8 where "REALM_TYPE_FFA_PVP = 16"
definition SEC_ADMINISTRATOR :: u8 where "SEC_ADMINISTRATOR = 4"

text \<open>\<open>float\<close> fields are bit patterns.\<close>

record realm =
  r_Id :: u32
  r_Build :: u32
  r_ExternalAddress :: string
  r_LocalAddress :: string
  r_LocalSubnetMask :: string
  r_Port :: u16
  r_Name :: string
  r_Type :: u8
  r_Flags :: u32
  r_Timezone :: u8
  r_AllowedSecurityLevel :: u8
  r_PopulationLevel :: u32

record asio =
  is_loopback :: "string \<Rightarrow> bool"
  is_v4 :: "string \<Rightarrow> bool"
  IsInNetwork :: "string \<Rightarrow> string \<Rightarrow> string \<Rightarrow> bool"
  endpoint_text :: "string \<Rightarrow> u16 \<Rightarrow> string"
  Resolve :: "string \<Rightarrow> string option"

definition GetAddressForClient :: "asio \<Rightarrow> string \<Rightarrow> realm \<Rightarrow> string \<times> u16" where
  "GetAddressForClient net clientAddr r =
     (let realmIp =
        (if is_loopback net clientAddr
         then if is_loopback net (r_LocalAddress r) \<or> is_loopback net (r_ExternalAddress r)
              then clientAddr else r_LocalAddress r
         else if is_v4 net clientAddr
                 \<and> IsInNetwork net (r_LocalAddress r) (r_LocalSubnetMask r) clientAddr
              then r_LocalAddress r else r_ExternalAddress r)
      in (realmIp, r_Port r))"

type_synonym realms = "(u32, realm) smap"

definition UpdateRealm ::
  "u32 \<Rightarrow> u32 \<Rightarrow> string \<Rightarrow> string \<Rightarrow> string \<Rightarrow> string \<Rightarrow> u16 \<Rightarrow> u8 \<Rightarrow> u32 \<Rightarrow> u8 \<Rightarrow> u8 \<Rightarrow> u32
   \<Rightarrow> realms \<Rightarrow> realms" where
  "UpdateRealm realm_id b nm addr localAddr localSubmask port icon flag tz allowedSecurityLevel pop rs =
     smap_put realm_id
       \<lparr>r_Id = realm_id, r_Build = b, r_ExternalAddress = addr, r_LocalAddress = localAddr,
        r_LocalSubnetMask = localSubmask, r_Port = port, r_Name = nm, r_Type = icon,
        r_Flags = flag, r_Timezone = tz, r_AllowedSecurityLevel = allowedSecurityLevel,
        r_PopulationLevel = pop\<rparr> rs"

text \<open>A row of the table, and one turn of the loop that reads it.\<close>

record realm_row =
  rr_id :: u32
  rr_name :: string
  rr_address :: string
  rr_localAddress :: string
  rr_localSubnetMask :: string
  rr_port :: u16
  rr_icon :: u8
  rr_flag :: u8
  rr_timezone :: u8
  rr_allowedSecurityLevel :: u8
  rr_population :: u32
  rr_gamebuild :: u32

definition load_realm :: "asio \<Rightarrow> realm_row \<Rightarrow> realms \<Rightarrow> realms" where
  "load_realm net row rs =
     (case Resolve net (rr_address row) of
        None \<Rightarrow> rs
      | Some externalAddress \<Rightarrow>
     (case Resolve net (rr_localAddress row) of
        None \<Rightarrow> rs
      | Some localAddress \<Rightarrow>
     (case Resolve net (rr_localSubnetMask row) of
        None \<Rightarrow> rs
      | Some localSubmask \<Rightarrow>
          (let icon = rr_icon row;
               icon = (if icon = REALM_TYPE_FFA_PVP then REALM_TYPE_PVP else icon);
               icon = (if icon \<ge> MAX_CLIENT_REALM_TYPE then REALM_TYPE_NORMAL else icon);
               lvl = rr_allowedSecurityLevel row
           in UpdateRealm (rr_id row) (rr_gamebuild row) (rr_name row) externalAddress localAddress
                localSubmask (rr_port row) icon (ucast (rr_flag row)) (rr_timezone row)
                (if lvl \<le> SEC_ADMINISTRATOR then lvl else SEC_ADMINISTRATOR) (rr_population row) rs))))"

text \<open>The map is cleared and filled again; \<open>error\<close> is the cancelled timer.\<close>

definition UpdateRealms :: "asio \<Rightarrow> bool \<Rightarrow> realm_row list \<Rightarrow> realms \<Rightarrow> realms" where
  "UpdateRealms net error result rs = (if error then rs else fold (load_realm net) result [])"

definition GetRealm :: "u32 \<Rightarrow> realms \<Rightarrow> realm option" where
  "GetRealm realm_id rs = smap_find rs realm_id"

section \<open>Locales\<close>

text \<open>\<open>localeNames\<close> and \<open>GetLocaleByName\<close> of \<^verbatim>\<open>src/src/common/Common.cpp\<close>.\<close>

definition localeNames :: "string list" where
  "localeNames = [''enUS'', ''koKR'', ''frFR'', ''deDE'', ''zhCN'', ''zhTW'', ''esES'', ''esMX'', ''ruRU'']"

definition GetLocaleByName :: "string \<Rightarrow> u32" where
  "GetLocaleByName nm =
     (case List.find (\<lambda>i. nm = localeNames ! i) [0..<9] of Some i \<Rightarrow> of_nat i | None \<Rightarrow> 0)"

end
