(* ===== verification/AuthSession.thy ===== *)
theory AuthSession
  imports Socket RealmList
begin

text \<open>
  \<^verbatim>\<open>src/src/server/authserver/Server/AuthSession.h\<close>, \<^verbatim>\<open>.cpp\<close>: a client's connection to the logon
  server, from the first byte to the realm list. An operation that reads outside the read buffer's
  vector, overruns the buffer of an outgoing packet or fails an assertion is \<open>None\<close>. Statements
  sent to the database are the list \<open>a_sql\<close>; a query that was sent is one of \<open>a_queries\<close> until its
  answer is processed. Random numbers and answers are arguments; so are, in \<open>auth_env\<close>, the
  configuration, the clock and the realm list, anew with each call.
\<close>

section \<open>The session\<close>

datatype auth_status =
    STATUS_CHALLENGE
  | STATUS_LOGON_PROOF
  | STATUS_RECONNECT_PROOF
  | STATUS_AUTHED
  | STATUS_WAITING_FOR_REALM_LIST
  | STATUS_CLOSED

record account_info =
  acc_Id :: u32
  acc_Login :: string
  acc_IsLockedToIP :: bool
  acc_LockCountry :: string
  acc_LastIP :: string
  acc_FailedLogins :: u32
  acc_IsBanned :: bool
  acc_IsPermanenetlyBanned :: bool
  acc_SecurityLevel :: u8
  acc_TokenKey :: string

datatype auth_query =
    SEL_IP_INFO string
  | SEL_LOGONCHALLENGE string
  | SEL_RECONNECTCHALLENGE string
  | SEL_REALM_CHARACTER_COUNTS u32

datatype auth_sql =
    UPD_LOGONPROOF string string u32 string string
  | INS_FALP_IP_LOGGING u32 string string
  | UPD_FAILEDLOGINS string
  | INS_ACCOUNT_AUTO_BANNED u32 u32
  | INS_IP_AUTO_BANNED string u32
  | UPD_VS string string string

record auth_session = socket +
  a_N :: int
  a_s :: int
  a_g :: int
  a_v :: int
  a_b :: int
  a_B :: int
  a_K :: int
  a_reconnectProof :: int
  a_status :: auth_status
  a_accountInfo :: account_info
  a_tokenKey :: string
  a_localizationName :: string
  a_os :: string
  a_ipCountry :: string
  a_build :: u16
  a_expversion :: u8
  a_queries :: "auth_query list"
  a_sql :: "auth_sql list"

record auth_env =
  WrongPass_MaxCount :: u32
  WrongPass_Logging :: bool
  WrongPass_BanTime :: u32
  WrongPass_BanType :: bool
  time_now :: u64
  env_asio :: asio
  env_realms :: realms

definition new_AccountInfo :: account_info where
  "new_AccountInfo =
     \<lparr>acc_Id = 0, acc_Login = [], acc_IsLockedToIP = False, acc_LockCountry = [], acc_LastIP = [],
      acc_FailedLogins = 0, acc_IsBanned = False, acc_IsPermanenetlyBanned = False,
      acc_SecurityLevel = 0, acc_TokenKey = []\<rparr>"

definition srp_modulus :: string where
  "srp_modulus = ''894B645E89E1535BBDAD5B8B290650530801B18EBFBF5E8FAB3C82872A3E9BB7''"

text \<open>A new \<open>BIGNUM\<close> is 0.\<close>

definition new_AuthSession :: "openssl \<Rightarrow> string \<Rightarrow> auth_session" where
  "new_AuthSession ssl remote =
     socket.extend (new_Socket remote)
       (auth_session.fields (SetHexStr ssl srp_modulus 0) 0 (SetDword ssl 7) 0 0 0 0 0
          STATUS_CHALLENGE new_AccountInfo [] [] [] [] 0 0 [] [])"

definition AddQuery :: "auth_query \<Rightarrow> auth_session \<Rightarrow> auth_session" where
  "AddQuery q s = s\<lparr>a_queries := a_queries s @ [q]\<rparr>"

definition auth_Execute :: "auth_sql \<Rightarrow> auth_session \<Rightarrow> auth_session" where
  "auth_Execute stmt s = s\<lparr>a_sql := a_sql s @ [stmt]\<rparr>"

definition auth_Start :: "auth_session \<Rightarrow> auth_session" where
  "auth_Start s = AddQuery (SEL_IP_INFO (sk_remoteAddress s)) s"

text \<open>\<open>Write\<close> goes into a buffer of the default size, which it does not check.\<close>

definition auth_SendPacket :: "byte_buffer \<Rightarrow> auth_session \<Rightarrow> auth_session option" where
  "auth_SendPacket packet s =
     (if \<not> IsOpen s then Some s
      else if \<not> bb_empty packet
      then (case mb_Write (take (bb_size packet) (storage packet)) default_MessageBuffer of
              None \<Rightarrow> None
            | Some buffer \<Rightarrow> Some (QueuePacket buffer s))
      else Some s)"

definition send_stream :: "(unit, unit) bb list \<Rightarrow> auth_session \<Rightarrow> auth_session option" where
  "send_stream ws s = Option.bind (stream ws bb_new) (\<lambda>pkt. auth_SendPacket pkt s)"

section \<open>Commands\<close>

datatype auth_cmd = LogonChallenge | LogonProof | ReconnectChallenge | ReconnectProof | RealmListCmd

definition AUTH_LOGON_CHALLENGE :: u8 where "AUTH_LOGON_CHALLENGE = 0x00"
definition AUTH_LOGON_PROOF :: u8 where "AUTH_LOGON_PROOF = 0x01"
definition AUTH_RECONNECT_CHALLENGE :: u8 where "AUTH_RECONNECT_CHALLENGE = 0x02"
definition AUTH_RECONNECT_PROOF :: u8 where "AUTH_RECONNECT_PROOF = 0x03"
definition REALM_LIST :: u8 where "REALM_LIST = 0x10"

text \<open>\<open>sizeof\<close> of the packed structures.\<close>

definition sizeof_LogonChallenge_C :: nat where
  "sizeof_LogonChallenge_C = 1 + 1 + 2 + 4 + 1 + 1 + 1 + 2 + 4 + 4 + 4 + 4 + 4 + 1 + 1"
definition sizeof_LogonProof_C :: nat where "sizeof_LogonProof_C = 1 + 32 + 20 + 20 + 1 + 1"
definition sizeof_ReconnectProof_C :: nat where "sizeof_ReconnectProof_C = 1 + 16 + 20 + 20 + 1"
definition AUTH_LOGON_CHALLENGE_INITIAL_SIZE :: nat where "AUTH_LOGON_CHALLENGE_INITIAL_SIZE = 4"
definition REALM_LIST_PACKET_SIZE :: nat where "REALM_LIST_PACKET_SIZE = 5"
definition MAX_ACCEPTED_CHALLENGE_SIZE :: nat where
  "MAX_ACCEPTED_CHALLENGE_SIZE = sizeof_LogonChallenge_C + 16"

definition InitHandlers :: "u8 \<Rightarrow> (auth_status \<times> nat \<times> auth_cmd) option" where
  "InitHandlers =
     (Map.empty)
       (AUTH_LOGON_CHALLENGE \<mapsto> (STATUS_CHALLENGE, AUTH_LOGON_CHALLENGE_INITIAL_SIZE, LogonChallenge),
        AUTH_LOGON_PROOF \<mapsto> (STATUS_LOGON_PROOF, sizeof_LogonProof_C, LogonProof),
        AUTH_RECONNECT_CHALLENGE \<mapsto> (STATUS_CHALLENGE, AUTH_LOGON_CHALLENGE_INITIAL_SIZE, ReconnectChallenge),
        AUTH_RECONNECT_PROOF \<mapsto> (STATUS_RECONNECT_PROOF, sizeof_ReconnectProof_C, ReconnectProof),
        REALM_LIST \<mapsto> (STATUS_AUTHED, REALM_LIST_PACKET_SIZE, RealmListCmd))"

section \<open>Challenges\<close>

record account_row =
  row_id :: u32
  row_username :: string
  row_locked :: bool
  row_lock_country :: string
  row_last_ip :: string
  row_failed_logins :: u32
  row_banned :: u64
  row_permanently_banned :: u64
  row_gmlevel :: u8

record logon_row = account_row +
  row_token_key :: string
  row_sha_pass_hash :: string
  row_v :: string
  row_s :: string

record reconnect_row = account_row +
  row_sessionKey :: string

definition LoadResult :: "'z account_row_scheme \<Rightarrow> account_info \<Rightarrow> account_info" where
  "LoadResult row info =
     info\<lparr>acc_Id := row_id row, acc_Login := row_username row,
          acc_IsLockedToIP := row_locked row, acc_LockCountry := row_lock_country row,
          acc_LastIP := row_last_ip row, acc_FailedLogins := row_failed_logins row,
          acc_IsBanned := (row_banned row \<noteq> 0),
          acc_IsPermanenetlyBanned := (row_permanently_banned row \<noteq> 0),
          acc_SecurityLevel := row_gmlevel row\<rparr>"

definition expversion_of :: "u16 \<Rightarrow> u8" where
  "expversion_of b =
     (if IsPostBCAcceptedClientBuild (uint b) then POST_BC_EXP_FLAG
      else if IsPreBCAcceptedClientBuild (uint b) then PRE_BC_EXP_FLAG else NO_VALID_EXP_FLAG)"

text \<open>
  What both challenge handlers do with the packet: the fields of \<open>sAuthLogonChallenge_C\<close> at
  their offsets. \<open>Some (False, s)\<close> closes the connection.
\<close>

definition read_challenge :: "auth_session \<Rightarrow> (string option \<times> auth_session) option" where
  "read_challenge s =
     (let b = sk_readBuffer s
      in case (peek 2 2 b, peek 33 1 b) of
           (Some csize, Some clen) \<Rightarrow>
             (let size = unat (le_word csize :: u16); I_len = unat (le_word clen :: u8)
              in if size_sub size (sizeof_LogonChallenge_C - AUTH_LOGON_CHALLENGE_INITIAL_SIZE - 1) \<noteq> I_len
                 then Some (None, s)
                 else case (peek 34 I_len b, peek 11 2 b, peek 17 4 b, peek 21 4 b) of
                        (Some I, Some cbuild, Some os, Some country) \<Rightarrow>
                          Some (Some (map char_of_byte I),
                            s\<lparr>a_build := le_word cbuild,
                              a_expversion := expversion_of (le_word cbuild),
                              a_os := rev (c_text (map char_of_byte os @ [CHR 0x00])),
                              a_localizationName := map (\<lambda>i. char_of_byte (country ! (4 - i - 1))) [0..<4]\<rparr>)
                      | _ \<Rightarrow> None)
         | _ \<Rightarrow> None)"

definition HandleLogonChallenge :: "auth_session \<Rightarrow> (bool \<times> auth_session) option" where
  "HandleLogonChallenge s =
     (case read_challenge (s\<lparr>a_status := STATUS_CLOSED\<rparr>) of
        None \<Rightarrow> None
      | Some (None, s) \<Rightarrow> Some (False, s)
      | Some (Some login, s) \<Rightarrow> Some (True, AddQuery (SEL_LOGONCHALLENGE login) s))"

definition HandleReconnectChallenge :: "auth_session \<Rightarrow> (bool \<times> auth_session) option" where
  "HandleReconnectChallenge s =
     (case read_challenge (s\<lparr>a_status := STATUS_CLOSED\<rparr>) of
        None \<Rightarrow> None
      | Some (None, s) \<Rightarrow> Some (False, s)
      | Some (Some login, s) \<Rightarrow> Some (True, AddQuery (SEL_RECONNECTCHALLENGE login) s))"

definition CheckIpCallback :: "u64 list option \<Rightarrow> auth_session \<Rightarrow> auth_session option" where
  "CheckIpCallback result s =
     (if result \<noteq> None \<and> list_ex (\<lambda>banned. banned \<noteq> 0) (the result)
      then send_stream [shl_u8 AUTH_LOGON_CHALLENGE, shl_u8 0x00, shl_u8 WOW_FAIL_BANNED] s
      else Some (AsyncRead s))"

definition SRP_6_V :: nat where "SRP_6_V = 0x20"
definition SRP_6_S :: nat where "SRP_6_S = 0x20"

text \<open>\<open>rs\<close> is the random salt; \<open>x\<close> is computed from the salt and the stored password hash.\<close>

definition SetVSFields :: "openssl \<Rightarrow> int \<Rightarrow> string \<Rightarrow> auth_session \<Rightarrow> auth_session" where
  "SetVSFields ssl rs rI s =
     (let salt = rs;
          I = SetHexStr ssl rI 0;
          md = rev (take SHA_DIGEST_LENGTH (AsByteArray ssl SHA_DIGEST_LENGTH True I));
          sha = Finalize ssl (UpdateData md
                  (UpdateData (take SRP_6_S (AsByteArray ssl SRP_6_S True salt)) new_SHA1Hash));
          x = SetBinary ssl (mDigest sha);
          v = ModExp ssl (a_g s) x (a_N s)
      in auth_Execute (UPD_VS (AsHexStr ssl v) (AsHexStr ssl salt) (acc_Login (a_accountInfo s)))
           (s\<lparr>a_s := salt, a_v := v\<rparr>))"

section \<open>Answer to a logon challenge\<close>

text \<open>The random draws of the callback: the salt (if a new one is needed), \<open>b\<close> and \<open>unk3\<close>.\<close>

record draws =
  rand_s :: int
  rand_b :: int
  rand_unk3 :: int

text \<open>The refusals before the calculation, in the order of the code.\<close>

definition logon_refusal :: "auth_session \<Rightarrow> u8 option" where
  "logon_refusal s =
     (let acc = a_accountInfo s
      in if acc_IsLockedToIP acc \<and> acc_LastIP acc \<noteq> sk_remoteAddress s
         then Some WOW_FAIL_LOCKED_ENFORCED
         else if \<not> acc_IsLockedToIP acc
              \<and> \<not> (acc_LockCountry acc = [] \<or> acc_LockCountry acc = ''00'')
              \<and> a_ipCountry s \<noteq> [] \<and> a_ipCountry s \<noteq> acc_LockCountry acc
         then Some WOW_FAIL_UNLOCKABLE_LOCK
         else if acc_IsBanned acc
         then Some (if acc_IsPermanenetlyBanned acc then WOW_FAIL_BANNED else WOW_FAIL_SUSPENDED)
         else None)"

definition append_bytes :: "u8 list \<Rightarrow> nat \<Rightarrow> (unit, unit) bb" where
  "append_bytes src cnt = append_raw (Some src) cnt"

text \<open>\<open>s\<close> and \<open>v\<close> come from the database if both have their full length there, else they are made.\<close>

definition load_verifier :: "openssl \<Rightarrow> logon_row \<Rightarrow> int \<Rightarrow> auth_session \<Rightarrow> auth_session" where
  "load_verifier ssl row rs s =
     (if length (row_v row) \<noteq> SRP_6_V * 2 \<or> length (row_s row) \<noteq> SRP_6_S * 2
      then SetVSFields ssl rs (row_sha_pass_hash row) s
      else s\<lparr>a_s := SetHexStr ssl (row_s row) (a_s s), a_v := SetHexStr ssl (row_v row) (a_v s)\<rparr>)"

text \<open>
  The fields of the answer behind the flags 0x01 and 0x02 are never written: the only flag is 4.
\<close>

definition LogonChallengeCallback ::
  "openssl \<Rightarrow> logon_row option \<Rightarrow> draws \<Rightarrow> auth_session \<Rightarrow> auth_session option" where
  "LogonChallengeCallback ssl result rnd s =
     (let hd = [shl_u8 AUTH_LOGON_CHALLENGE, shl_u8 0x00]
      in case result of
           None \<Rightarrow> send_stream (hd @ [shl_u8 WOW_FAIL_UNKNOWN_ACCOUNT]) s
         | Some row \<Rightarrow>
             (let s = s\<lparr>a_accountInfo := LoadResult row (a_accountInfo s)\<rparr>
              in case logon_refusal s of
                   Some code \<Rightarrow> send_stream (hd @ [shl_u8 code]) s
                 | None \<Rightarrow>
                     (let s = load_verifier ssl row (rand_s rnd) s;
                          b = rand_b rnd;
                          gmod = ModExp ssl (a_g s) b (a_N s);
                          B = bn_modulo ssl (bn_plus ssl (bn_times ssl (a_v s) (SetDword ssl 3)) gmod) (a_N s);
                          s = s\<lparr>a_b := b, a_B := B\<rparr>
                      in if \<not> GetNumBytes ssl gmod \<le> 32 then None
                         else
                           (let ok = IsAcceptedClientBuild (uint (a_build s));
                                s = (if ok then s\<lparr>a_status := STATUS_LOGON_PROOF\<rparr> else s);
                                s = s\<lparr>a_tokenKey := row_token_key row\<rparr>;
                                securityFlags = (if a_tokenKey s \<noteq> [] then 4 else 0)
                            in send_stream
                                 (hd @ [shl_u8 (if ok then WOW_SUCCESS else WOW_FAIL_VERSION_INVALID),
                                        append_bytes (AsByteArray ssl 32 True B) 32,
                                        shl_u8 1,
                                        append_bytes (AsByteArray ssl 1 True (a_g s)) 1,
                                        shl_u8 32,
                                        append_bytes (AsByteArray ssl 32 True (a_N s)) 32,
                                        append_bytes (AsByteArray ssl SRP_6_S True (a_s s)) SRP_6_S,
                                        append_bytes (AsByteArray ssl 16 True (rand_unk3 rnd)) 16,
                                        shl_u8 securityFlags]
                                  @ (if securityFlags AND 4 \<noteq> 0 then [shl_u8 1] else [])) s))))"

definition ReconnectChallengeCallback ::
  "openssl \<Rightarrow> reconnect_row option \<Rightarrow> int \<Rightarrow> auth_session \<Rightarrow> auth_session option" where
  "ReconnectChallengeCallback ssl result rnd s =
     (case result of
        None \<Rightarrow> send_stream [shl_u8 AUTH_RECONNECT_CHALLENGE, shl_u8 WOW_FAIL_UNKNOWN_ACCOUNT] s
      | Some row \<Rightarrow>
          send_stream
            [shl_u8 AUTH_RECONNECT_CHALLENGE, shl_u8 WOW_SUCCESS,
             append_bytes (AsByteArray ssl 16 True rnd) 16, shl_u64 0x00, shl_u64 0x00]
            (s\<lparr>a_accountInfo := LoadResult row (a_accountInfo s),
               a_K := SetHexStr ssl (row_sessionKey row) (a_K s),
               a_reconnectProof := rnd, a_status := STATUS_RECONNECT_PROOF\<rparr>))"

section \<open>Logon proof\<close>

text \<open>\<open>A\<close> and the first proof of \<open>sAuthLogonProof_C\<close>; the digest of a sequence of updates.\<close>

definition sha_of :: "openssl \<Rightarrow> (SHA1Hash \<Rightarrow> SHA1Hash) \<Rightarrow> u8 list" where
  "sha_of ssl updates = mDigest (Finalize ssl (updates new_SHA1Hash))"

text \<open>The session key: the digests of the bytes of \<open>S\<close> at even and at odd places, interleaved.\<close>

definition interleave_key :: "openssl \<Rightarrow> u8 list \<Rightarrow> u8 list" where
  "interleave_key ssl t =
     (let d0 = sha_of ssl (UpdateData (map (\<lambda>i. t ! (i * 2)) [0..<16]));
          d1 = sha_of ssl (UpdateData (map (\<lambda>i. t ! (i * 2 + 1)) [0..<16]))
      in concat (map (\<lambda>i. [d0 ! i, d1 ! i]) [0..<20]))"

definition proof_S :: "openssl \<Rightarrow> int \<Rightarrow> auth_session \<Rightarrow> int" where
  "proof_S ssl A s =
     (let u = SetBinary ssl (sha_of ssl (UpdateBigNumbers ssl [A, a_B s]))
      in ModExp ssl (bn_times ssl A (ModExp ssl (a_v s) u (a_N s))) (a_b s) (a_N s))"

definition proof_digest :: "openssl \<Rightarrow> int \<Rightarrow> auth_session \<Rightarrow> u8 list" where
  "proof_digest ssl A s =
     (let hN = sha_of ssl (UpdateBigNumbers ssl [a_N s]);
          hg = sha_of ssl (UpdateBigNumbers ssl [a_g s]);
          t3 = SetBinary ssl (map (\<lambda>i. hN ! i XOR hg ! i) [0..<20]);
          t4 = sha_of ssl (UpdateString (acc_Login (a_accountInfo s)))
      in sha_of ssl (UpdateBigNumbers ssl [a_s s, A, a_B s, a_K s] \<circ>
                     UpdateData t4 \<circ> UpdateBigNumbers ssl [t3]))"

definition proof_M :: "openssl \<Rightarrow> int \<Rightarrow> auth_session \<Rightarrow> int" where
  "proof_M ssl A s = SetBinary ssl (proof_digest ssl A s)"

text \<open>
  \<open>atoi\<close>: white space, a sign, digits. Outside the range of \<open>int\<close> the C standard leaves the
  result open; the value here is the one of the C library on Linux, \<open>strtol\<close> cut to 32 bits.
\<close>

definition isspace :: "char \<Rightarrow> bool" where
  "isspace c \<longleftrightarrow> c = CHR 0x20 \<or> (9 \<le> (of_char c :: nat) \<and> (of_char c :: nat) \<le> 13)"

definition isdigit :: "char \<Rightarrow> bool" where
  "isdigit c \<longleftrightarrow> 48 \<le> (of_char c :: nat) \<and> (of_char c :: nat) \<le> 57"

definition atoi :: "string \<Rightarrow> int" where
  "atoi str =
     (let t = dropWhile isspace str;
          neg = (t \<noteq> [] \<and> hd t = CHR ''-'');
          t = (if t \<noteq> [] \<and> (hd t = CHR ''-'' \<or> hd t = CHR ''+'') then tl t else t);
          n = foldl (\<lambda>n c. n * 10 + (of_char c - 48)) 0 (takeWhile isdigit t);
          v = (if neg then - n else n)
      in to_i32 (max (- (2 ^ 63)) (min (2 ^ 63 - 1) v)))"

text \<open>
  The token behind the structure: a length byte and as many characters, taken from the buffer
  without a look at how many bytes were received. The result tells whether the token is right.
\<close>

definition check_token :: "openssl \<Rightarrow> auth_env \<Rightarrow> auth_session \<Rightarrow> (bool \<times> auth_session) option" where
  "check_token ssl env s =
     (case peek sizeof_LogonProof_C 1 (sk_readBuffer s) of
        None \<Rightarrow> None
      | Some sz \<Rightarrow>
          (let size = unat (le_word sz :: u8)
           in case peek (sizeof_LogonProof_C + 1) size (sk_readBuffer s) of
                None \<Rightarrow> None
              | Some token \<Rightarrow>
                  (let validToken = GenerateToken ssl (time_now env) (a_tokenKey s);
                       incomingToken = word_of_int (atoi (c_text (map char_of_byte token)))
                   in Some (validToken = incomingToken,
                        s\<lparr>sk_readBuffer := ReadCompleted (1 + size) (sk_readBuffer s),
                          a_tokenKey := []\<rparr>))))"

definition unknown_account :: "(unit, unit) bb list" where
  "unknown_account =
     [shl_u8 AUTH_LOGON_PROOF, shl_u8 WOW_FAIL_UNKNOWN_ACCOUNT, shl_u8 3, shl_u8 0]"

text \<open>The reply to the right proof; the structures are packed, so their fields follow each other.\<close>

definition logon_reply :: "u8 \<Rightarrow> u8 list \<Rightarrow> (unit, unit) bb list" where
  "logon_reply expversion M2 =
     [shl_u8 AUTH_LOGON_PROOF, shl_u8 0, append_bytes M2 20]
     @ (if has_flag expversion POST_BC_EXP_FLAG
        then [shl_u32 0x00800000, shl_u32 0, shl_u16 0] else [shl_u32 0x00])"

definition accept_logon :: "openssl \<Rightarrow> int \<Rightarrow> int \<Rightarrow> auth_session \<Rightarrow> auth_session option" where
  "accept_logon ssl A M s =
     (let s = auth_Execute (UPD_LOGONPROOF (AsHexStr ssl (a_K s)) (sk_remoteAddress s)
                 (GetLocaleByName (a_localizationName s)) (a_os s) (acc_Login (a_accountInfo s))) s;
          M2 = sha_of ssl (UpdateBigNumbers ssl [A, M, a_K s])
      in map_option (\<lambda>s. s\<lparr>a_status := STATUS_AUTHED\<rparr>)
           (send_stream (logon_reply (a_expversion s) (take 20 M2)) s))"

definition wrong_password :: "auth_env \<Rightarrow> auth_session \<Rightarrow> auth_session" where
  "wrong_password env s =
     (let acc = a_accountInfo s;
          ip = sk_remoteAddress s;
          s = (if WrongPass_Logging env
               then auth_Execute (INS_FALP_IP_LOGGING (acc_Id acc) ip
                      ''Logged on failed AccountLogin due wrong password'') s else s)
      in if WrongPass_MaxCount env > 0
         then (let s = auth_Execute (UPD_FAILEDLOGINS (acc_Login acc)) s;
                   s = s\<lparr>a_accountInfo := acc\<lparr>acc_FailedLogins := acc_FailedLogins acc + 1\<rparr>\<rparr>
               in if acc_FailedLogins (a_accountInfo s) \<ge> WrongPass_MaxCount env
                  then if WrongPass_BanType env
                       then auth_Execute (INS_ACCOUNT_AUTO_BANNED (acc_Id acc) (WrongPass_BanTime env)) s
                       else auth_Execute (INS_IP_AUTO_BANNED ip (WrongPass_BanTime env)) s
                  else s)
         else s)"

definition HandleLogonProof :: "openssl \<Rightarrow> auth_env \<Rightarrow> auth_session \<Rightarrow> (bool \<times> auth_session) option" where
  "HandleLogonProof ssl env s =
     (let s = s\<lparr>a_status := STATUS_CLOSED\<rparr>; buf = sk_readBuffer s
      in if a_expversion s = NO_VALID_EXP_FLAG then Some (False, s)
         else case (peek 1 32 buf, peek 33 20 buf, peek 74 1 buf) of
           (Some A_bytes, Some M1, Some flags) \<Rightarrow>
             (let A = SetBinary ssl A_bytes
              in if IsZero ssl (bn_modulo ssl A (a_N s)) then Some (False, s)
                 else
                   (let t = take 32 (AsByteArray ssl 32 True (proof_S ssl A s));
                        s = s\<lparr>a_K := SetBinary ssl (interleave_key ssl t)\<rparr>;
                        M = proof_M ssl A s
                    in if take 20 (AsByteArray ssl SHA_DIGEST_LENGTH True M) = M1
                       then
                         (case (if has_flag (le_word flags :: u8) 0x04 \<or> a_tokenKey s \<noteq> []
                                then check_token ssl env s else Some (True, s)) of
                            None \<Rightarrow> None
                          | Some (False, s) \<Rightarrow> map_option (Pair True) (send_stream unknown_account s)
                          | Some (True, s) \<Rightarrow> map_option (Pair True) (accept_logon ssl A M s))
                       else map_option (\<lambda>s. (True, wrong_password env s)) (send_stream unknown_account s)))
         | _ \<Rightarrow> None)"

definition HandleReconnectProof :: "openssl \<Rightarrow> auth_session \<Rightarrow> (bool \<times> auth_session) option" where
  "HandleReconnectProof ssl s =
     (let s = s\<lparr>a_status := STATUS_CLOSED\<rparr>; buf = sk_readBuffer s
      in if acc_Login (a_accountInfo s) = [] \<or> GetNumBytes ssl (a_reconnectProof s) = 0
            \<or> GetNumBytes ssl (a_K s) = 0
         then Some (False, s)
         else case (peek 1 16 buf, peek 17 20 buf) of
           (Some R1, Some R2) \<Rightarrow>
             (let t1 = SetBinary ssl R1;
                  digest = sha_of ssl (UpdateBigNumbers ssl [t1, a_reconnectProof s, a_K s] \<circ>
                                       UpdateString (acc_Login (a_accountInfo s)))
              in if digest = R2
                 then map_option (\<lambda>s. (True, s\<lparr>a_status := STATUS_AUTHED\<rparr>))
                        (send_stream [shl_u8 AUTH_RECONNECT_PROOF, shl_u8 0x00, shl_u16 0x00] s)
                 else Some (False, s))
         | _ \<Rightarrow> None)"

section \<open>Realm list\<close>

definition HandleRealmList :: "auth_session \<Rightarrow> (bool \<times> auth_session) option" where
  "HandleRealmList s =
     Some (True, (AddQuery (SEL_REALM_CHARACTER_COUNTS (acc_Id (a_accountInfo s))) s)
       \<lparr>a_status := STATUS_WAITING_FOR_REALM_LIST\<rparr>)"

definition character_counts :: "(u32 \<times> u8) list option \<Rightarrow> (u32, u8) smap" where
  "character_counts result =
     (case result of None \<Rightarrow> [] | Some rows \<Rightarrow> fold (\<lambda>(realmid, numchars). smap_put realmid numchars) rows [])"

text \<open>A number of the build table in the name of a realm.\<close>

definition show_int :: "int \<Rightarrow> string" where
  "show_int n = (if n < 0 then ''-'' @ show_nat (nat (- n)) else show_nat (nat n))"

text \<open>
  One turn of the loop over the realms: whether the build suits the client, the flags, the name
  and the writes of the entry; \<open>None\<close> is a realm that is left out. (\<open>characterCounts[id]\<close>
  inserts a zero, which nothing else sees.)
\<close>

definition realm_okBuild :: "auth_session \<Rightarrow> realm \<Rightarrow> bool" where
  "realm_okBuild s realm \<longleftrightarrow>
     (has_flag (a_expversion s) POST_BC_EXP_FLAG \<and> r_Build realm = ucast (a_build s))
     \<or> (has_flag (a_expversion s) PRE_BC_EXP_FLAG \<and> \<not> IsPreBCAcceptedClientBuild (sint (r_Build realm)))"

definition realm_flag :: "auth_session \<Rightarrow> realm \<Rightarrow> u32" where
  "realm_flag s realm =
     (let flag = r_Flags realm;
          flag = (if \<not> realm_okBuild s realm then flag OR REALM_FLAG_VERSION_MISMATCH else flag)
      in if GetBuildInfo (sint (r_Build realm)) = None then flag AND NOT REALM_FLAG_SPECIFYBUILD else flag)"

definition realm_name :: "auth_session \<Rightarrow> u32 \<Rightarrow> realm_build_info \<Rightarrow> realm \<Rightarrow> string" where
  "realm_name s flag bi realm =
     (if has_flag (a_expversion s) PRE_BC_EXP_FLAG \<and> has_flag flag REALM_FLAG_SPECIFYBUILD
      then r_Name realm @ '' ('' @ show_int (bi_MajorVersion bi) @ ''.'' @ show_int (bi_MinorVersion bi)
             @ ''.'' @ show_int (bi_BugfixVersion bi) @ '')''
      else r_Name realm)"

definition entry_writes ::
  "asio \<Rightarrow> (u32, u8) smap \<Rightarrow> auth_session \<Rightarrow> u32 \<Rightarrow> realm_build_info \<Rightarrow> realm \<Rightarrow> (unit, unit) bb list" where
  "entry_writes net characterCounts s flag bi realm =
     (let post = has_flag (a_expversion s) POST_BC_EXP_FLAG;
          lock = (if r_AllowedSecurityLevel realm > acc_SecurityLevel (a_accountInfo s) then 1 else 0);
          (ip, port) = GetAddressForClient net (sk_remoteAddress s) realm
      in [shl_u8 (r_Type realm)]
         @ (if post then [shl_u8 lock] else [])
         @ [shl_u8 (ucast flag), shl_string (realm_name s flag bi realm),
            shl_string (endpoint_text net ip port), shl_float (r_PopulationLevel realm),
            shl_u8 (smap_get 0 characterCounts (r_Id realm)), shl_u8 (r_Timezone realm),
            shl_u8 (if post then ucast (r_Id realm) else 0)]
         @ (if post \<and> has_flag flag REALM_FLAG_SPECIFYBUILD
            then [shl_u8 (word_of_int (bi_MajorVersion bi)), shl_u8 (word_of_int (bi_MinorVersion bi)),
                  shl_u8 (word_of_int (bi_BugfixVersion bi)), shl_u16 (word_of_int (bi_Build bi))]
            else []))"

definition realm_entry ::
  "asio \<Rightarrow> (u32, u8) smap \<Rightarrow> auth_session \<Rightarrow> realm \<Rightarrow> (unit, unit) bb list option" where
  "realm_entry net characterCounts s realm =
     (let buildInfo = GetBuildInfo (sint (r_Build realm))
      in if \<not> realm_okBuild s realm \<and> buildInfo = None then None
         else Some (entry_writes net characterCounts s (realm_flag s realm) (the buildInfo) realm))"

definition RealmListCallback ::
  "auth_env \<Rightarrow> (u32 \<times> u8) list option \<Rightarrow> auth_session \<Rightarrow> auth_session option" where
  "RealmListCallback env result s =
     (let post = has_flag (a_expversion s) POST_BC_EXP_FLAG;
          entries = List.map_filter (realm_entry (env_asio env) (character_counts result) s)
                      (map snd (env_realms env));
          RealmListSize = length entries
      in case stream (concat entries
                      @ (if post then [shl_u8 0x10, shl_u8 0x00] else [shl_u8 0x00, shl_u8 0x02])) bb_new of
           None \<Rightarrow> None
         | Some pkt \<Rightarrow>
        (case stream ([shl_u32 0] @ (if post then [shl_u16 (of_nat RealmListSize)]
                                     else [shl_u32 (of_nat RealmListSize)])) bb_new of
           None \<Rightarrow> None
         | Some RealmListSizeBuffer \<Rightarrow>
             map_option (\<lambda>s. s\<lparr>a_status := STATUS_AUTHED\<rparr>)
               (send_stream
                 [shl_u8 REALM_LIST, shl_u16 (of_nat (bb_size pkt + bb_size RealmListSizeBuffer)),
                  append_buffer RealmListSizeBuffer, append_buffer pkt] s)))"

section \<open>The read loop\<close>

definition run_handler ::
  "openssl \<Rightarrow> auth_env \<Rightarrow> auth_cmd \<Rightarrow> auth_session \<Rightarrow> (bool \<times> auth_session) option" where
  "run_handler ssl env c s =
     (case c of
        LogonChallenge \<Rightarrow> HandleLogonChallenge s
      | LogonProof \<Rightarrow> HandleLogonProof ssl env s
      | ReconnectChallenge \<Rightarrow> HandleReconnectChallenge s
      | ReconnectProof \<Rightarrow> HandleReconnectProof ssl s
      | RealmListCmd \<Rightarrow> HandleRealmList s)"

text \<open>
  The size of the packet at the front: a challenge adds the size it states, in 16 bits. \<open>None\<close>
  is a read outside the vector, \<open>Some None\<close> a challenge that is too long.
\<close>

definition packet_size :: "u8 \<Rightarrow> nat \<Rightarrow> message_buffer \<Rightarrow> nat option option" where
  "packet_size cmd size0 b =
     (if cmd = AUTH_LOGON_CHALLENGE \<or> cmd = AUTH_RECONNECT_CHALLENGE
      then case peek 2 2 b of
             None \<Rightarrow> None
           | Some csize \<Rightarrow>
               (let size = unat ((of_nat size0 :: u16) + le_word csize)
                in if size > MAX_ACCEPTED_CHALLENGE_SIZE then Some None else Some (Some size))
      else Some (Some size0))"

definition on_buffer :: "(message_buffer \<Rightarrow> message_buffer) \<Rightarrow> auth_session \<Rightarrow> auth_session" where
  "on_buffer f s = s\<lparr>sk_readBuffer := f (sk_readBuffer s)\<rparr>"

text \<open>What a turn of the loop decides: the loop is left (closed, or to read on) or goes on.\<close>

datatype turn = Leave auth_session | ReadOn auth_session | Again auth_session

definition read_turn :: "openssl \<Rightarrow> auth_env \<Rightarrow> auth_session \<Rightarrow> turn option" where
  "read_turn ssl env s =
     (let packet = sk_readBuffer s
      in case peek 0 1 packet of
           None \<Rightarrow> None
         | Some cmd_byte \<Rightarrow>
             (let cmd = le_word cmd_byte
              in case InitHandlers cmd of
                   None \<Rightarrow> Some (ReadOn (on_buffer mb_Reset s))
                 | Some (st, size0, handler) \<Rightarrow>
                     if a_status s \<noteq> st then Some (Leave (CloseSocket base_OnClose s))
                     else if GetActiveSize packet < size0 then Some (ReadOn s)
                     else case packet_size cmd size0 packet of
                            None \<Rightarrow> None
                          | Some None \<Rightarrow> Some (Leave (CloseSocket base_OnClose s))
                          | Some (Some size1) \<Rightarrow>
                              if GetActiveSize packet < size1 then Some (ReadOn s)
                              else case run_handler ssl env handler s of
                                     None \<Rightarrow> None
                                   | Some (False, s) \<Rightarrow> Some (Leave (CloseSocket base_OnClose s))
                                   | Some (True, s) \<Rightarrow> Some (Again (on_buffer (ReadCompleted size1) s))))"

text \<open>Every handler that succeeds moves the session on, so the loop turns at most three times.\<close>

fun status_rank :: "auth_status \<Rightarrow> nat" where
  "status_rank STATUS_AUTHED = 1"
| "status_rank STATUS_WAITING_FOR_REALM_LIST = 0"
| "status_rank STATUS_CLOSED = 0"
| "status_rank _ = 2"


lemma send_status: "send_stream ws s = Some s' \<Longrightarrow> a_status s' = a_status s"
  by (auto simp: send_stream_def auth_SendPacket_def QueuePacket_def bind_eq_Some_conv
      split: if_splits option.splits)

lemma check_token_status: "check_token ssl env s = Some (r, s') \<Longrightarrow> a_status s' = a_status s"
  by (auto simp: check_token_def Let_def split: option.splits)

lemma wrong_password_status [simp]: "a_status (wrong_password env s) = a_status s"
  by (simp add: wrong_password_def auth_Execute_def Let_def)

lemma handler_status:
  assumes "run_handler ssl env c s = Some (True, s')"
  shows "case c of
      LogonChallenge \<Rightarrow> a_status s' = STATUS_CLOSED
    | ReconnectChallenge \<Rightarrow> a_status s' = STATUS_CLOSED
    | LogonProof \<Rightarrow> a_status s' = STATUS_CLOSED \<or> a_status s' = STATUS_AUTHED
    | ReconnectProof \<Rightarrow> a_status s' = STATUS_AUTHED
    | RealmListCmd \<Rightarrow> a_status s' = STATUS_WAITING_FOR_REALM_LIST"
proof (cases c)
  case LogonChallenge
  then show ?thesis
    using assms by (auto simp: run_handler_def HandleLogonChallenge_def read_challenge_def AddQuery_def
        Let_def split: option.splits if_splits)
next
  case ReconnectChallenge
  then show ?thesis
    using assms by (auto simp: run_handler_def HandleReconnectChallenge_def read_challenge_def AddQuery_def
        Let_def split: option.splits if_splits)
next
  case LogonProof
  then show ?thesis
    using assms by (auto simp: run_handler_def HandleLogonProof_def accept_logon_def auth_Execute_def
        Let_def split: option.splits if_splits bool.splits dest!: send_status check_token_status)
next
  case ReconnectProof
  then show ?thesis
    using assms by (auto simp: run_handler_def HandleReconnectProof_def Let_def
        split: option.splits if_splits)
next
  case RealmListCmd
  then show ?thesis
    using assms by (auto simp: run_handler_def HandleRealmList_def)
qed

lemma read_turn_rank:
  assumes "read_turn ssl env s = Some (Again s')"
  shows "status_rank (a_status s') < status_rank (a_status s)"
proof -
  obtain cmd st size0 c r where h: "InitHandlers cmd = Some (st, size0, c)" "a_status s = st"
      "run_handler ssl env c s = Some (True, r)" "a_status s' = a_status r"
    using assms by (auto simp: read_turn_def Let_def on_buffer_def
        split: option.splits if_splits bool.splits prod.splits)
  from handler_status [OF h(3)] h show ?thesis
    by (auto simp: InitHandlers_def split: if_splits)
qed

function ReadHandler :: "openssl \<Rightarrow> auth_env \<Rightarrow> auth_session \<Rightarrow> auth_session option" where
  "ReadHandler ssl env s =
     (if GetActiveSize (sk_readBuffer s) \<noteq> 0
      then (case read_turn ssl env s of
              None \<Rightarrow> None
            | Some (Leave s) \<Rightarrow> Some s
            | Some (ReadOn s) \<Rightarrow> Some (AsyncRead s)
            | Some (Again s) \<Rightarrow> ReadHandler ssl env s)
      else Some (AsyncRead s))"
  by pat_completeness auto
termination
  by (relation "measure (\<lambda>(ssl, env, s). status_rank (a_status s))") (simp_all add: read_turn_rank)

declare ReadHandler.simps [simp del]

section \<open>Queries and updates\<close>

text \<open>
  What a query answers (with the random draws of its callback). \<open>ProcessReadyQueries\<close> takes the
  pending callbacks out, runs those whose answer is there, in order, and puts the others back
  behind the queries made meanwhile.
\<close>

datatype auth_answer =
    IpAnswer "u64 list option"
  | LogonAnswer "logon_row option" draws
  | ReconnectAnswer "reconnect_row option" int
  | CountsAnswer "(u32 \<times> u8) list option"

fun InvokeIfReady ::
  "openssl \<Rightarrow> auth_env \<Rightarrow> auth_query \<Rightarrow> auth_answer \<Rightarrow> auth_session \<Rightarrow> auth_session option" where
  "InvokeIfReady ssl env (SEL_IP_INFO _) (IpAnswer rows) s = CheckIpCallback rows s"
| "InvokeIfReady ssl env (SEL_LOGONCHALLENGE _) (LogonAnswer row rnd) s =
     LogonChallengeCallback ssl row rnd s"
| "InvokeIfReady ssl env (SEL_RECONNECTCHALLENGE _) (ReconnectAnswer row rnd) s =
     ReconnectChallengeCallback ssl row rnd s"
| "InvokeIfReady ssl env (SEL_REALM_CHARACTER_COUNTS _) (CountsAnswer rows) s =
     RealmListCallback env rows s"
| "InvokeIfReady ssl env _ _ s = None"

fun process_callbacks ::
  "openssl \<Rightarrow> auth_env \<Rightarrow> (auth_query \<times> auth_answer option) list \<Rightarrow> auth_query list \<Rightarrow> auth_session
   \<Rightarrow> auth_session option" where
  "process_callbacks ssl env [] waiting s = Some (s\<lparr>a_queries := a_queries s @ waiting\<rparr>)"
| "process_callbacks ssl env ((q, None) # qs) waiting s =
     process_callbacks ssl env qs (waiting @ [q]) s"
| "process_callbacks ssl env ((q, Some a) # qs) waiting s =
     (case InvokeIfReady ssl env q a s of
        None \<Rightarrow> None
      | Some s' \<Rightarrow> process_callbacks ssl env qs waiting s')"

definition ProcessReadyQueries ::
  "openssl \<Rightarrow> auth_env \<Rightarrow> (nat \<Rightarrow> auth_answer option) \<Rightarrow> auth_session \<Rightarrow> auth_session option" where
  "ProcessReadyQueries ssl env answers s =
     (if a_queries s = [] then Some s
      else process_callbacks ssl env
             (zip (a_queries s) (map answers [0..<length (a_queries s)])) [] (s\<lparr>a_queries := []\<rparr>))"

definition auth_Update ::
  "openssl \<Rightarrow> auth_env \<Rightarrow> (nat \<Rightarrow> write_result) \<Rightarrow> (nat \<Rightarrow> auth_answer option) \<Rightarrow> auth_session
   \<Rightarrow> (bool \<times> auth_session) option" where
  "auth_Update ssl env res answers s =
     (case sk_Update base_OnClose res s of
        (False, s') \<Rightarrow> Some (False, s')
      | (True, s') \<Rightarrow> map_option (Pair True) (ProcessReadyQueries ssl env answers s'))"

section \<open>What can happen to a session\<close>

text \<open>
  A read finishes, the network thread updates the session, the socket becomes writable. The guard
  holds what the rest of the server and Boost.Asio keep to: a read finishes when one was started
  and puts at least one byte into the free space, and answers are of the kind of the query.
\<close>

datatype auth_event =
    Received auth_env "u8 list option"
  | Updated auth_env "nat \<Rightarrow> write_result" "nat \<Rightarrow> auth_answer option"
  | Writable write_result

fun auth_exec :: "openssl \<Rightarrow> auth_session \<Rightarrow> auth_event \<Rightarrow> auth_session option" where
  "auth_exec ssl s (Received env result) = ReadHandlerInternal base_OnClose (ReadHandler ssl env) result s"
| "auth_exec ssl s (Updated env res answers) = map_option snd (auth_Update ssl env res answers s)"
| "auth_exec ssl s (Writable res) = Some (WriteHandlerWrapper base_OnClose res s)"

fun answer_fits :: "auth_query \<Rightarrow> auth_answer \<Rightarrow> bool" where
  "answer_fits (SEL_IP_INFO _) (IpAnswer _) = True"
| "answer_fits (SEL_LOGONCHALLENGE _) (LogonAnswer _ _) = True"
| "answer_fits (SEL_RECONNECTCHALLENGE _) (ReconnectAnswer _ _) = True"
| "answer_fits (SEL_REALM_CHARACTER_COUNTS _) (CountsAnswer _) = True"
| "answer_fits _ _ = False"

text \<open>
  Random numbers are not negative. The realm list fits into the 4096 bytes of a packet's buffer:
  33 bytes an entry besides its texts are more than it takes.
\<close>

fun draws_ok :: "auth_answer \<Rightarrow> bool" where
  "draws_ok (LogonAnswer _ rnd) \<longleftrightarrow> 0 \<le> rand_s rnd \<and> 0 \<le> rand_b rnd \<and> 0 \<le> rand_unk3 rnd"
| "draws_ok (ReconnectAnswer _ rnd) \<longleftrightarrow> 0 \<le> rnd"
| "draws_ok _ \<longleftrightarrow> True"

definition entry_room :: "asio \<Rightarrow> string \<Rightarrow> realm \<Rightarrow> nat" where
  "entry_room net remote r =
     (let (ip, port) = GetAddressForClient net remote r
      in 33 + length (r_Name r) + length (endpoint_text net ip port))"

definition realms_fit :: "auth_env \<Rightarrow> string \<Rightarrow> bool" where
  "realms_fit env remote \<longleftrightarrow>
     sum_list (map (entry_room (env_asio env) remote \<circ> snd) (env_realms env)) \<le> 4000"

fun auth_guard :: "auth_event \<Rightarrow> auth_session \<Rightarrow> bool" where
  "auth_guard (Received env result) s \<longleftrightarrow>
     sk_reading s \<and> (\<forall>bytes. result = Some bytes \<longrightarrow>
        bytes \<noteq> [] \<and> length bytes \<le> GetRemainingSpace (sk_readBuffer s))"
| "auth_guard (Updated env res answers) s \<longleftrightarrow>
     realms_fit env (sk_remoteAddress s) \<and>
     (\<forall>i < length (a_queries s). \<forall>a. answers i = Some a \<longrightarrow>
        answer_fits (a_queries s ! i) a \<and> draws_ok a)"
| "auth_guard (Writable res) s \<longleftrightarrow> sk_isWritingAsync s"

end
