(* ===== verification/AuthPackets.thy ===== *)
theory AuthPackets
  imports AuthSession
begin

text \<open>
  What the logon server's packets and big numbers come to: the bytes a sequence of writes
  produces, the buffer a packet is queued in, and the byte arrays of a \<open>BigNumber\<close>.
\<close>

named_theorems appends_intro \<open>the bytes a write appends\<close>

section \<open>Writes\<close>

definition appends :: "(unit, unit) bb \<Rightarrow> u8 list \<Rightarrow> bool" where
  "appends w bs \<longleftrightarrow>
     (\<forall>b. appending b \<longrightarrow> length (storage b) + length bs \<le> 10000000 \<longrightarrow> w b = (Inr (), bb_extend bs b))"

lemma appendsI:
  "(\<And>b :: byte_buffer. appending b \<Longrightarrow> length (storage b) + length bs \<le> 10000000 \<Longrightarrow>
     w b = (Inr (), bb_extend bs b)) \<Longrightarrow> appends w bs"
  by (simp add: appends_def)

lemma appends_words [appends_intro]:
  shows "appends (shl_u8 a) [a]" and "appends (shl_u16 c) (le_bytes c)"
    and "appends (shl_u32 d) (le_bytes d)" and "appends (shl_u64 e) (le_bytes e)"
    and "appends (shl_float f) (le_bytes f)" and "appends (shl_string s) (string_bytes s)"
  by (rule appendsI; simp add: shl_u8_def shl_u16_def shl_u32_def shl_u64_def shl_float_def
      append_word_end shl_string_end sizeof_word_def le_bytes_u8)+

lemma append_raw_longer:
  "cnt \<le> length bs \<Longrightarrow> append_raw (Some bs) cnt b = append_raw (Some (take cnt bs)) cnt b"
  by (simp add: append_raw_def Let_def)

lemma appends_bytes [appends_intro]:
  assumes "0 < cnt" and "cnt \<le> length bs"
  shows "appends (append_bytes bs cnt) (take cnt bs)"
proof (rule appendsI)
  fix b :: byte_buffer
  assume b: "appending b" "length (storage b) + length (take cnt bs) \<le> 10000000"
  have "take cnt bs \<noteq> []" and len: "length (take cnt bs) = cnt" using assms by auto
  from append_raw_end [OF b(1) this(1) b(2)] len
  show "append_bytes bs cnt b = (Inr (), bb_extend (take cnt bs) b)"
    by (simp add: append_bytes_def append_raw_longer [OF assms(2)])
qed

lemma appends_buffer [appends_intro]:
  fixes other :: byte_buffer
  assumes "appending other" and "storage other \<noteq> []"
  shows "appends (append_buffer other) (storage other)"
proof (rule appendsI)
  fix b :: byte_buffer
  assume b: "appending b" "length (storage b) + length (storage other) \<le> 10000000"
  from append_raw_end [OF b(1) assms(2) b(2)] assms
  show "append_buffer other b = (Inr (), bb_extend (storage other) b)"
    by (simp add: append_buffer_def contents_def appending_def)
qed

lemma appends_buffer_bb [appends_intro]:
  "bs \<noteq> [] \<Longrightarrow> appends (append_buffer (bb_extend bs bb_new)) bs"
  using appends_buffer [of "bb_extend bs bb_new"] by (simp add: appending_def bb_extend_def bb_new_def)

lemma stream_extends:
  assumes "list_all2 appends ws bss" and "appending b"
    and "length (storage b) + length (concat bss) \<le> 10000000"
  shows "stream ws b = Some (bb_extend (concat bss) b)"
  using assms
proof (induction arbitrary: b rule: list_all2_induct)
  case Nil
  then show ?case by simp
next
  case (Cons w ws bs bss)
  then have "w b = (Inr (), bb_extend bs b)" by (simp add: appends_def)
  then show ?case using Cons by simp
qed

lemma appending_new [simp]: "appending bb_new"
  by (simp add: appending_def bb_new_def)

lemma storage_new [simp]: "storage bb_new = []"
  by (simp add: bb_new_def)

lemma stream_new:
  "list_all2 appends ws bss \<Longrightarrow> length (concat bss) \<le> 10000000 \<Longrightarrow>
   stream ws bb_new = Some (bb_extend (concat bss) bb_new)"
  by (rule stream_extends) simp_all

section \<open>Sending\<close>

text \<open>A packet in its buffer, and the session after it was sent.\<close>

definition packet_buffer :: "u8 list \<Rightarrow> message_buffer" where
  "packet_buffer bs = \<lparr>mb_wpos = length bs, mb_rpos = 0, mb_storage = bs @ replicate (4096 - length bs) 0\<rparr>"

definition sends :: "u8 list \<Rightarrow> auth_session \<Rightarrow> auth_session" where
  "sends bs s = (if IsOpen s then QueuePacket (packet_buffer bs) s else s)"

lemma write_default:
  assumes "length bs \<le> 4096" and "bs \<noteq> []"
  shows "mb_Write bs default_MessageBuffer = Some (packet_buffer bs)"
proof -
  have "size_add 0 (length bs) = length bs" using assms(1) by (simp add: size_add_def)
  then show ?thesis
    using assms
    by (simp add: mb_Write_def default_MessageBuffer_def new_MessageBuffer_def WriteCompleted_def
        vec_copy_def vec_resize_def packet_buffer_def)
qed

lemma SendPacket_sends:
  "bs \<noteq> [] \<Longrightarrow> length bs \<le> 4096 \<Longrightarrow> auth_SendPacket (bb_extend bs bb_new) s = Some (sends bs s)"
  by (simp add: auth_SendPacket_def bb_empty_def bb_size_def write_default sends_def)

lemma send_stream_sends:
  assumes "list_all2 appends ws bss" and "concat bss \<noteq> []" and "length (concat bss) \<le> 4096"
  shows "send_stream ws s = Some (sends (concat bss) s)"
  using stream_new [OF assms(1)] SendPacket_sends [OF assms(2,3)] assms(3)
  by (simp add: send_stream_def)

lemma send_stream_short:
  assumes "list_all2 appends ws bss" and "concat bss = bs" and "bs \<noteq> []" and "length bs \<le> 4096"
  shows "send_stream ws s = Some (sends bs s)"
  using send_stream_sends [OF assms(1)] assms(2-4) by simp

lemma sends_frame [simp]:
  "a_status (sends bs s) = a_status s" "a_queries (sends bs s) = a_queries s"
  "a_N (sends bs s) = a_N s" "a_g (sends bs s) = a_g s" "a_K (sends bs s) = a_K s"
  "a_s (sends bs s) = a_s s" "a_v (sends bs s) = a_v s" "a_B (sends bs s) = a_B s"
  "a_b (sends bs s) = a_b s" "a_ipCountry (sends bs s) = a_ipCountry s"
  "a_accountInfo (sends bs s) = a_accountInfo s" "a_tokenKey (sends bs s) = a_tokenKey s"
  "a_expversion (sends bs s) = a_expversion s" "a_build (sends bs s) = a_build s"
  "a_sql (sends bs s) = a_sql s" "a_reconnectProof (sends bs s) = a_reconnectProof s"
  "sk_readBuffer (sends bs s) = sk_readBuffer s" "sk_reading (sends bs s) = sk_reading s"
  "sk_closed (sends bs s) = sk_closed s" "sk_closing (sends bs s) = sk_closing s"
  "sk_remoteAddress (sends bs s) = sk_remoteAddress s"
  by (simp_all add: sends_def QueuePacket_def)

lemma sends_open [simp]: "IsOpen (sends bs s) = IsOpen s"
  by (simp add: IsOpen_def)

section \<open>Digests\<close>

lemma openssl_doc_digest:
  assumes "openssl_doc ssl"
  shows "length (sha_of ssl f) = 20"
  using assms by (simp add: openssl_doc_def sha_of_def Finalize_def SHA_DIGEST_LENGTH_def)

lemma length_AsByteArray:
  assumes "openssl_doc ssl"
  shows "length (AsByteArray ssl n le bn) = max n (length (BN_bn2bin ssl bn))"
  using assms
  by (simp add: openssl_doc_def AsByteArray_def GetNumBytes_def vec_copy_def Let_def max_def)

lemma AsByteArray_long [simp]:
  "openssl_doc ssl \<Longrightarrow> n \<le> length (AsByteArray ssl n le bn)"
  by (simp add: length_AsByteArray)

end
