(* ===== verification/AuthNumbers.thy ===== *)
theory AuthNumbers
  imports AuthPackets
begin

text \<open>
  Big numbers as byte strings: how long the bytes of a number are, and what becomes of an array
  that goes into a \<open>BigNumber\<close> and out of it again.
\<close>

section \<open>Values of byte strings\<close>

lemma le_value_nonneg [simp]: "0 \<le> le_value bs"
  by (induction bs) auto

lemma le_value_less: "le_value bs < 256 ^ length bs"
proof (induction bs)
  case Nil
  then show ?case by simp
next
  case (Cons b bs)
  have "uint b < 256" using uint_lt2p [of b] by simp
  with Cons show ?case by simp
qed

lemma le_value_append: "le_value (bs @ cs) = le_value bs + 256 ^ length bs * le_value cs"
  by (induction bs) (simp_all add: algebra_simps)

lemma le_value_zeros [simp]: "le_value (replicate n 0) = 0"
  by (induction n) auto

lemma uint_pos: "b \<noteq> 0 \<Longrightarrow> 1 \<le> uint b" for b :: u8
  using uint_ge_0 [of b] by (metis int_one_le_iff_zero_less le_less unsigned_eq_0_iff)

lemma le_value_top:
  assumes "bs \<noteq> []" and "last bs \<noteq> 0"
  shows "256 ^ (length bs - 1) \<le> le_value bs"
proof -
  have "le_value bs = le_value (butlast bs) + 256 ^ (length bs - 1) * uint (last bs)"
    using le_value_append [of "butlast bs" "[last bs]"] assms(1) by simp
  moreover have "256 ^ (length bs - 1) * 1 \<le> (256 :: int) ^ (length bs - 1) * uint (last bs)"
    using uint_pos [OF assms(2)] by (intro mult_left_mono) simp_all
  moreover have "0 \<le> le_value (butlast bs)" by simp
  ultimately show ?thesis by linarith
qed

lemma le_value_inj:
  assumes "length bs = length cs" and "le_value bs = le_value cs"
  shows "bs = cs"
  using assms
proof (induction rule: list_induct2)
  case Nil
  then show ?case by simp
next
  case (Cons b bs c cs)
  have lt: "uint b < 256" "uint c < 256" using uint_lt2p [of b] uint_lt2p [of c] by simp_all
  have "(uint b + 256 * le_value bs) mod 256 = (uint c + 256 * le_value cs) mod 256"
    using Cons.prems by simp
  then have "uint b = uint c" using lt by simp
  moreover then have "le_value bs = le_value cs" using Cons.prems by simp
  ultimately show ?case using Cons.IH by (simp add: word_uint_eq_iff)
qed

text \<open>The bytes of a number without leading zeros are determined by it.\<close>

lemma le_value_unique:
  assumes "le_value bs = le_value cs" and "bs = [] \<or> last bs \<noteq> 0" and "cs = [] \<or> last cs \<noteq> 0"
  shows "bs = cs"
proof -
  have less: "length xs \<le> length ys"
    if "le_value xs = le_value ys" "xs = [] \<or> last xs \<noteq> 0" for xs ys :: "u8 list"
  proof (rule ccontr)
    assume "\<not> length xs \<le> length ys"
    then have ne: "xs \<noteq> []" and le: "length ys \<le> length xs - 1" by auto
    have "256 ^ (length xs - 1) \<le> le_value ys" using le_value_top [OF ne] that ne by auto
    also have "\<dots> < 256 ^ length ys" by (rule le_value_less)
    finally show False using le power_increasing [OF le, of "256 :: int"] by simp
  qed
  from less [OF assms(1,2)] less [OF assms(1) [symmetric] assms(3)]
  have "length bs = length cs" by simp
  then show ?thesis using assms(1) by (rule le_value_inj)
qed

section \<open>What OpenSSL returns\<close>

definition trim :: "u8 list \<Rightarrow> u8 list" where
  "trim bs = rev (dropWhile (\<lambda>b. b = 0) (rev bs))"

lemma trim_props:
  shows "trim bs = [] \<or> last (trim bs) \<noteq> 0"
    and "bs = trim bs @ replicate (length bs - length (trim bs)) 0"
proof -
  show "trim bs = [] \<or> last (trim bs) \<noteq> 0"
    using hd_dropWhile [of "\<lambda>b. b = 0" "rev bs"] by (auto simp: trim_def last_rev)
  have "takeWhile (\<lambda>b. b = 0) (rev bs) = replicate (length (takeWhile (\<lambda>b. b = 0) (rev bs))) 0"
    by (metis (mono_tags, lifting) replicate_length_same set_takeWhileD)
  moreover have "length (takeWhile (\<lambda>b. b = 0) (rev bs)) = length bs - length (trim bs)"
    by (metis add_diff_cancel_right' length_append length_rev takeWhile_dropWhile_id trim_def)
  moreover have "bs = rev (dropWhile (\<lambda>b. b = 0) (rev bs)) @ rev (takeWhile (\<lambda>b. b = 0) (rev bs))"
    by (metis rev_append rev_rev_ident takeWhile_dropWhile_id)
  ultimately show "bs = trim bs @ replicate (length bs - length (trim bs)) 0"
    by (metis rev_replicate trim_def)
qed

lemma le_value_trim [simp]: "le_value (trim bs) = le_value bs"
proof -
  have "le_value bs = le_value (trim bs @ replicate (length bs - length (trim bs)) 0)"
    using trim_props(2) [of bs] by simp
  then show ?thesis by (simp add: le_value_append)
qed

lemma SetBinary_value: "openssl_doc ssl \<Longrightarrow> SetBinary ssl bs = le_value bs"
proof -
  assume doc: "openssl_doc ssl"
  have "map (\<lambda>i. bs ! (length bs - 1 - i)) [0..<length bs] = rev bs"
    by (rule nth_equalityI) (auto simp: rev_nth)
  then show ?thesis using doc by (simp add: SetBinary_def openssl_doc_def be_value_def)
qed

lemma bn2bin_trim:
  assumes "openssl_doc ssl"
  shows "BN_bn2bin ssl (le_value bs) = rev (trim bs)"
proof -
  let ?d = "BN_bn2bin ssl (le_value bs)"
  have "le_value (rev ?d) = le_value (trim bs)"
    using assms by (simp add: openssl_doc_def be_value_def)
  moreover have "rev ?d = [] \<or> last (rev ?d) \<noteq> 0"
    using assms by (auto simp: openssl_doc_def last_rev)
  ultimately have "rev ?d = trim bs" using trim_props(1) by (rule le_value_unique)
  then show ?thesis by (metis rev_rev_ident)
qed

lemma num_bytes_less:
  assumes "openssl_doc ssl" and "0 \<le> n" and "n < 256 ^ k"
  shows "GetNumBytes ssl n \<le> k"
proof (rule ccontr)
  assume "\<not> GetNumBytes ssl n \<le> k"
  let ?d = "rev (BN_bn2bin ssl n)"
  have len: "k < length ?d" using \<open>\<not> GetNumBytes ssl n \<le> k\<close> assms(1)
    by (simp add: GetNumBytes_def openssl_doc_def)
  then have ne: "?d \<noteq> []" by auto
  then have "last ?d \<noteq> 0" using assms(1) by (simp add: openssl_doc_def last_rev)
  from le_value_top [OF ne this] have "256 ^ (length ?d - 1) \<le> n"
    using assms(1,2) by (simp add: openssl_doc_def be_value_def)
  moreover have "(256 :: int) ^ k \<le> 256 ^ (length ?d - 1)" using len by (intro power_increasing) auto
  ultimately show False using assms(3) by linarith
qed

text \<open>
  A number that was read from bytes, written as at least \<open>n\<close> bytes: its leading zeros come back at
  the wrong end.
\<close>

lemma AsByteArray_SetBinary:
  assumes "openssl_doc ssl"
  shows "AsByteArray ssl n True (SetBinary ssl bs) = replicate (n - length (trim bs)) 0 @ trim bs"
  using assms bn2bin_trim [OF assms, of bs] SetBinary_value [OF assms, of bs]
  by (auto simp: AsByteArray_def GetNumBytes_def openssl_doc_def vec_copy_def Let_def)

lemma AsByteArray_full:
  assumes "openssl_doc ssl" and "bs \<noteq> []" and "last bs \<noteq> 0" and "n \<le> length bs"
  shows "AsByteArray ssl n True (le_value bs) = bs"
proof -
  have "dropWhile (\<lambda>b. b = 0) (rev bs) = rev bs"
    using assms(2,3) by (simp add: dropWhile_eq_self_iff hd_rev)
  then have "trim bs = bs" by (simp add: trim_def)
  then show ?thesis
    using AsByteArray_SetBinary [OF assms(1), of n bs] SetBinary_value [OF assms(1), of bs] assms(4) by simp
qed

section \<open>The constants\<close>

lemma srp_modulus_value:
  assumes "openssl_doc ssl"
  shows "SetHexStr ssl srp_modulus 0 = 0x894B645E89E1535BBDAD5B8B290650530801B18EBFBF5E8FAB3C82872A3E9BB7"
proof -
  have "hex_text srp_modulus" by code_simp
  moreover have "hex_value srp_modulus = 0x894B645E89E1535BBDAD5B8B290650530801B18EBFBF5E8FAB3C82872A3E9BB7"
    by code_simp
  moreover have "c_text srp_modulus = srp_modulus" by code_simp
  ultimately show ?thesis using assms by (simp add: SetHexStr_def openssl_doc_def)
qed

lemma SetDword_value: "openssl_doc ssl \<Longrightarrow> SetDword ssl w = uint w"
  by (simp add: SetDword_def openssl_doc_def)

end
