(* ===== verification/AuthKeeps.thy ===== *)
theory AuthKeeps
  imports AuthNumbers
begin

text \<open>
  The invariant of a logon session, and that every handler and callback returns and keeps it: no
  read leaves the vector of the read buffer, no packet overruns its buffer, no assertion fails.
\<close>

section \<open>The invariant\<close>

definition static_ok :: "openssl \<Rightarrow> auth_session \<Rightarrow> bool" where
  "static_ok ssl s \<longleftrightarrow>
     length (mb_storage (sk_readBuffer s)) = 4096 \<and> a_N s = SetHexStr ssl srp_modulus 0 \<and>
     a_g s = SetDword ssl 7 \<and> a_ipCountry s = [] \<and> \<not> sk_closing s"

text \<open>At most one query is out, and the status says which.\<close>

definition pending_ok :: "auth_session \<Rightarrow> bool" where
  "pending_ok s \<longleftrightarrow> a_queries s = [] \<or>
     (\<exists>l. a_queries s = [SEL_LOGONCHALLENGE l] \<and> a_status s = STATUS_CLOSED) \<or>
     (\<exists>l. a_queries s = [SEL_RECONNECTCHALLENGE l] \<and> a_status s = STATUS_CLOSED) \<or>
     (\<exists>i. a_queries s = [SEL_REALM_CHARACTER_COUNTS i] \<and> a_status s = STATUS_WAITING_FOR_REALM_LIST)"

definition auth_fresh :: "auth_session \<Rightarrow> bool" where
  "auth_fresh s \<longleftrightarrow> (\<exists>ip. a_queries s = [SEL_IP_INFO ip]) \<and> a_status s = STATUS_CHALLENGE \<and> \<not> sk_reading s \<and>
     mb_rpos (sk_readBuffer s) = 0 \<and> mb_wpos (sk_readBuffer s) = 0"

definition auth_ok :: "openssl \<Rightarrow> auth_session \<Rightarrow> bool" where
  "auth_ok ssl s \<longleftrightarrow> static_ok ssl s \<and>
     (auth_fresh s \<or> pending_ok s \<and>
        (sk_reading s \<longrightarrow> mb_rpos (sk_readBuffer s) = 0 \<and> mb_wpos (sk_readBuffer s) < 75))"

text \<open>Inside the read loop the read position is bounded by what the status allows to have happened.\<close>

fun rpos_bound :: "auth_status \<Rightarrow> nat" where
  "rpos_bound STATUS_AUTHED = 331"
| "rpos_bound STATUS_WAITING_FOR_REALM_LIST = 336"
| "rpos_bound STATUS_CLOSED = 336"
| "rpos_bound _ = 0"

definition loop_ok :: "openssl \<Rightarrow> auth_session \<Rightarrow> bool" where
  "loop_ok ssl s \<longleftrightarrow> static_ok ssl s \<and> pending_ok s \<and> \<not> sk_reading s \<and>
     mb_wpos (sk_readBuffer s) \<le> 4096 \<and> mb_rpos (sk_readBuffer s) \<le> rpos_bound (a_status s)"

lemmas auth_ok_defs = auth_ok_def static_ok_def pending_ok_def auth_fresh_def

lemma sends_ok [simp]:
  "static_ok ssl (sends bs s) = static_ok ssl s" "pending_ok (sends bs s) = pending_ok s"
  by (simp_all add: static_ok_def pending_ok_def)

section \<open>Reads\<close>

lemma peek_within:
  "mb_rpos b + off + n \<le> length (mb_storage b) \<Longrightarrow>
   peek off n b = Some (take n (drop (mb_rpos b + off) (mb_storage b)))"
  by (simp add: peek_def)

lemma peek_Some:
  "mb_rpos b + off + n \<le> length (mb_storage b) \<Longrightarrow> \<exists>bs. peek off n b = Some bs \<and> length bs = n"
  by (simp add: peek_def)

lemma le_word_byte [simp]: "le_word [b] = (b :: u8)"
  by simp

lemma byte_less: "unat (le_word bs :: u8) < 256"
proof -
  have "unat (le_word bs :: u8) < 2 ^ LENGTH(8)" by (rule unsigned_less)
  then show ?thesis by simp
qed

section \<open>The handlers\<close>

text \<open>
  What a handler leaves for the loop: it returns, keeps what is fixed, leaves the queries in order
  and moves the read position by at most 256 (the token).
\<close>

definition handler_done :: "openssl \<Rightarrow> auth_session \<Rightarrow> bool \<times> auth_session \<Rightarrow> bool" where
  "handler_done ssl s r \<longleftrightarrow>
     (let s' = snd r
      in static_ok ssl s' \<and> pending_ok s' \<and> \<not> sk_reading s' \<and>
         mb_wpos (sk_readBuffer s') = mb_wpos (sk_readBuffer s) \<and>
         mb_rpos (sk_readBuffer s') \<le> mb_rpos (sk_readBuffer s) + 256)"

lemma read_challenge_returns:
  assumes "mb_rpos (sk_readBuffer s) = 0" and "length (mb_storage (sk_readBuffer s)) = 4096"
  shows "\<exists>l s'. read_challenge s = Some (l, s') \<and> sk_readBuffer s' = sk_readBuffer s \<and>
    sk_reading s' = sk_reading s \<and> sk_closing s' = sk_closing s \<and>
    a_queries s' = a_queries s \<and> a_status s' = a_status s \<and> a_N s' = a_N s \<and> a_g s' = a_g s \<and>
    a_ipCountry s' = a_ipCountry s"
proof -
  let ?b = "sk_readBuffer s"
  have p: "\<exists>bs. peek off n ?b = Some bs" if "off + n \<le> 4096" for off n
    using peek_Some [of ?b off n] assms that by auto
  obtain csize clen where 1: "peek 2 2 ?b = Some csize" "peek 33 1 ?b = Some clen"
    using p [of 2 2] p [of 33 1] by auto
  have "34 + unat (le_word clen :: u8) \<le> 4096" using byte_less [of clen] by simp
  then obtain I cb os co where 2: "peek 34 (unat (le_word clen :: u8)) ?b = Some I"
      "peek 11 2 ?b = Some cb" "peek 17 4 ?b = Some os" "peek 21 4 ?b = Some co"
    using p [of 34 "unat (le_word clen :: u8)"] p [of 11 2] p [of 17 4] p [of 21 4] by auto
  show ?thesis by (simp add: read_challenge_def Let_def 1 [unfolded One_nat_def] 2)
qed

lemma challenge_handled:
  assumes "static_ok ssl s" and "\<not> sk_reading s" and "a_queries s = []"
    and "mb_rpos (sk_readBuffer s) = 0"
  shows "\<exists>r. HandleLogonChallenge s = Some r \<and> handler_done ssl s r"
    and "\<exists>r. HandleReconnectChallenge s = Some r \<and> handler_done ssl s r"
proof -
  obtain l s' where r: "read_challenge (s\<lparr>a_status := STATUS_CLOSED\<rparr>) = Some (l, s')"
    and fr: "sk_readBuffer s' = sk_readBuffer s" "sk_reading s' = sk_reading s"
      "sk_closing s' = sk_closing s" "a_queries s' = a_queries s" "a_status s' = STATUS_CLOSED"
      "a_N s' = a_N s" "a_g s' = a_g s" "a_ipCountry s' = a_ipCountry s"
    using read_challenge_returns [of "s\<lparr>a_status := STATUS_CLOSED\<rparr>"] assms(1,4)
    by (auto simp: static_ok_def)
  show "\<exists>r. HandleLogonChallenge s = Some r \<and> handler_done ssl s r"
    using assms fr by (cases l) (simp_all add: HandleLogonChallenge_def r handler_done_def static_ok_def
        pending_ok_def AddQuery_def)
  show "\<exists>r. HandleReconnectChallenge s = Some r \<and> handler_done ssl s r"
    using assms fr by (cases l) (simp_all add: HandleReconnectChallenge_def r handler_done_def static_ok_def
        pending_ok_def AddQuery_def)
qed

lemma unknown_account_sends:
  "send_stream unknown_account s = Some (sends [AUTH_LOGON_PROOF, WOW_FAIL_UNKNOWN_ACCOUNT, 3, 0] s)"
  unfolding unknown_account_def
  by (rule send_stream_short [where bss = "[[AUTH_LOGON_PROOF], [WOW_FAIL_UNKNOWN_ACCOUNT], [3], [0]]"])
    (simp_all add: appends_intro)

definition logon_reply_bytes :: "u8 \<Rightarrow> u8 list \<Rightarrow> u8 list" where
  "logon_reply_bytes e M2 = [AUTH_LOGON_PROOF, 0] @ M2 @
     (if has_flag e POST_BC_EXP_FLAG
      then le_bytes (0x00800000 :: u32) @ le_bytes (0 :: u32) @ le_bytes (0 :: u16)
      else le_bytes (0 :: u32))"

lemma logon_reply_sends:
  assumes "length M2 = 20"
  shows "send_stream (logon_reply e M2) s = Some (sends (logon_reply_bytes e M2) s)"
proof (rule send_stream_short)
  have M2: "appends (append_bytes M2 20) M2" using appends_bytes [of 20 M2] assms by simp
  let ?bss = "[[AUTH_LOGON_PROOF], [0], M2] @ (if has_flag e POST_BC_EXP_FLAG
      then [le_bytes (0x00800000 :: u32), le_bytes (0 :: u32), le_bytes (0 :: u16)] else [le_bytes (0 :: u32)])"
  show "list_all2 appends (logon_reply e M2) ?bss"
    by (simp add: logon_reply_def appends_intro M2)
  show "concat ?bss = logon_reply_bytes e M2" by (simp add: logon_reply_bytes_def)
  show "logon_reply_bytes e M2 \<noteq> []" "length (logon_reply_bytes e M2) \<le> 4096"
    by (simp_all add: logon_reply_bytes_def assms sizeof_word_def)
qed

definition logon_stmt :: "openssl \<Rightarrow> auth_session \<Rightarrow> auth_sql" where
  "logon_stmt ssl s = UPD_LOGONPROOF (AsHexStr ssl (a_K s)) (sk_remoteAddress s)
     (GetLocaleByName (a_localizationName s)) (a_os s) (acc_Login (a_accountInfo s))"

lemma accept_logon_returns:
  assumes "openssl_doc ssl"
  shows "accept_logon ssl A M s =
    Some ((sends (logon_reply_bytes (a_expversion s) (sha_of ssl (UpdateBigNumbers ssl [A, M, a_K s])))
      (auth_Execute (logon_stmt ssl s) s))\<lparr>a_status := STATUS_AUTHED\<rparr>)"
proof -
  have "length (sha_of ssl (UpdateBigNumbers ssl [A, M, a_K s])) = 20"
    by (simp add: openssl_doc_digest [OF assms])
  moreover have "a_expversion (auth_Execute stmt s) = a_expversion s" "a_K (auth_Execute stmt s) = a_K s" for stmt
    by (simp_all add: auth_Execute_def)
  ultimately show ?thesis
    unfolding accept_logon_def Let_def logon_stmt_def [symmetric] by (simp add: logon_reply_sends)
qed

lemma check_token_returns:
  assumes "mb_rpos (sk_readBuffer s) = 0" and "length (mb_storage (sk_readBuffer s)) = 4096"
  shows "\<exists>ok k. k \<le> 256 \<and> check_token ssl env s =
    Some (ok, s\<lparr>sk_readBuffer := (sk_readBuffer s)\<lparr>mb_rpos := k\<rparr>, a_tokenKey := []\<rparr>)"
proof -
  let ?b = "sk_readBuffer s"
  obtain sz where sz: "peek sizeof_LogonProof_C 1 ?b = Some sz"
    using peek_Some [of ?b sizeof_LogonProof_C 1] assms by (auto simp: sizeof_LogonProof_C_def)
  define n where "n = unat (le_word sz :: u8)"
  have n: "n < 256" by (simp add: n_def byte_less)
  then obtain tok where tok: "peek (sizeof_LogonProof_C + 1) n ?b = Some tok"
    using peek_Some [of ?b "sizeof_LogonProof_C + 1" n] assms by (auto simp: sizeof_LogonProof_C_def)
  have "size_add 0 (Suc n) = Suc n" using n by (intro size_add_small [of 0, simplified]) simp
  then have "ReadCompleted (1 + n) ?b = ?b\<lparr>mb_rpos := 1 + n\<rparr>"
    using assms(1) by (simp add: ReadCompleted_def)
  then show ?thesis
    using n sz tok by (intro exI [of _ "_ = _"] exI [of _ "1 + n"])
      (simp add: check_token_def Let_def n_def)
qed

lemma wrong_password_frame [simp]:
  "sk_readBuffer (wrong_password env s) = sk_readBuffer s"
  "sk_reading (wrong_password env s) = sk_reading s"
  "a_queries (wrong_password env s) = a_queries s"
  "a_N (wrong_password env s) = a_N s" "a_g (wrong_password env s) = a_g s"
  "a_ipCountry (wrong_password env s) = a_ipCountry s"
  "sk_closing (wrong_password env s) = sk_closing s"
  by (simp_all add: wrong_password_def auth_Execute_def Let_def)

lemma wrong_password_ok [simp]:
  "static_ok ssl (wrong_password env s) = static_ok ssl s"
  "pending_ok (wrong_password env s) = pending_ok s"
  by (simp_all add: static_ok_def pending_ok_def)

text \<open>The logon proof in steps: the session with the new key, the check, what follows the check.\<close>

definition keyed :: "openssl \<Rightarrow> int \<Rightarrow> auth_session \<Rightarrow> auth_session" where
  "keyed ssl A s =
     s\<lparr>a_status := STATUS_CLOSED,
       a_K := SetBinary ssl (interleave_key ssl (take 32 (AsByteArray ssl 32 True
         (proof_S ssl A (s\<lparr>a_status := STATUS_CLOSED\<rparr>)))))\<rparr>"

definition proof_right :: "openssl \<Rightarrow> int \<Rightarrow> u8 list \<Rightarrow> auth_session \<Rightarrow> bool" where
  "proof_right ssl A M1 s \<longleftrightarrow>
     take 20 (AsByteArray ssl SHA_DIGEST_LENGTH True (proof_M ssl A (keyed ssl A s))) = M1"

definition finish_proof :: "openssl \<Rightarrow> auth_env \<Rightarrow> int \<Rightarrow> u8 list \<Rightarrow> auth_session \<Rightarrow> (bool \<times> auth_session) option" where
  "finish_proof ssl env A fl s =
     (case (if has_flag (le_word fl :: u8) 0x04 \<or> a_tokenKey s \<noteq> []
            then check_token ssl env s else Some (True, s)) of
        None \<Rightarrow> None
      | Some (False, s') \<Rightarrow> map_option (Pair True) (send_stream unknown_account s')
      | Some (True, s') \<Rightarrow> map_option (Pair True) (accept_logon ssl A (proof_M ssl A s) s'))"

lemma HandleLogonProof_steps:
  assumes "peek 1 32 (sk_readBuffer s) = Some Ab" and "peek 33 20 (sk_readBuffer s) = Some M1"
    and "peek 74 1 (sk_readBuffer s) = Some fl" and "A = SetBinary ssl Ab"
  shows "HandleLogonProof ssl env s =
    (if a_expversion s = NO_VALID_EXP_FLAG then Some (False, s\<lparr>a_status := STATUS_CLOSED\<rparr>)
     else if IsZero ssl (bn_modulo ssl A (a_N s)) then Some (False, s\<lparr>a_status := STATUS_CLOSED\<rparr>)
     else if proof_right ssl A M1 s then finish_proof ssl env A fl (keyed ssl A s)
     else map_option (\<lambda>s. (True, wrong_password env s)) (send_stream unknown_account (keyed ssl A s)))"
  by (simp add: HandleLogonProof_def Let_def assms [unfolded One_nat_def] proof_right_def finish_proof_def
      keyed_def)

lemma accept_logon_handled:
  assumes "openssl_doc ssl" and "static_ok ssl f" and "a_queries f = []" and "\<not> sk_reading f"
    and "mb_wpos (sk_readBuffer f) = mb_wpos (sk_readBuffer s)" and "mb_rpos (sk_readBuffer f) \<le> 256"
  shows "\<exists>r. map_option (Pair True) (accept_logon ssl A M f) = Some r \<and> handler_done ssl s r"
proof -
  show ?thesis
    using assms(2-6) by (simp add: accept_logon_returns [OF assms(1)]) (simp add: handler_done_def pending_ok_def static_ok_def auth_Execute_def)
qed

lemma unknown_account_handled:
  assumes "static_ok ssl f" and "a_queries f = []" and "\<not> sk_reading f"
    and "mb_wpos (sk_readBuffer f) = mb_wpos (sk_readBuffer s)" and "mb_rpos (sk_readBuffer f) \<le> 256"
  shows "\<exists>r. map_option (Pair True) (send_stream unknown_account f) = Some r \<and> handler_done ssl s r"
    and "\<exists>r. map_option (\<lambda>s. (True, wrong_password env s)) (send_stream unknown_account f) = Some r \<and>
      handler_done ssl s r"
  using assms by (simp_all add: unknown_account_sends handler_done_def pending_ok_def static_ok_def)

lemma finish_proof_handled:
  assumes "openssl_doc ssl" and "static_ok ssl f" and "a_queries f = []" and "\<not> sk_reading f"
    and "mb_wpos (sk_readBuffer f) = mb_wpos (sk_readBuffer s)" and "mb_rpos (sk_readBuffer f) = 0"
  shows "\<exists>r. finish_proof ssl env A fl f = Some r \<and> handler_done ssl s r"
proof (cases "has_flag (le_word fl :: u8) 0x04 \<or> a_tokenKey f \<noteq> []")
  case True
  have len: "length (mb_storage (sk_readBuffer f)) = 4096" using assms(2) by (simp add: static_ok_def)
  from check_token_returns [OF assms(6) this] obtain ok k where
    k: "k \<le> 256" "check_token ssl env f =
      Some (ok, f\<lparr>sk_readBuffer := (sk_readBuffer f)\<lparr>mb_rpos := k\<rparr>, a_tokenKey := []\<rparr>)" by blast
  define f' where "f' = f\<lparr>sk_readBuffer := (sk_readBuffer f)\<lparr>mb_rpos := k\<rparr>, a_tokenKey := []\<rparr>"
  have f': "static_ok ssl f'" "a_queries f' = []" "\<not> sk_reading f'"
      "mb_wpos (sk_readBuffer f') = mb_wpos (sk_readBuffer s)" "mb_rpos (sk_readBuffer f') \<le> 256"
    using assms(2-5) k(1) by (simp_all add: f'_def static_ok_def)
  show ?thesis
    using True unknown_account_handled(1) [OF f'] accept_logon_handled [OF assms(1) f']
    by (cases ok) (simp_all add: finish_proof_def k(2) flip: f'_def)
next
  case False
  then show ?thesis
    using accept_logon_handled [OF assms(1-5)] assms(6) by (simp add: finish_proof_def)
qed

lemma logon_proof_handled:
  assumes "openssl_doc ssl" and "static_ok ssl s" and "\<not> sk_reading s" and "a_queries s = []"
    and "mb_rpos (sk_readBuffer s) = 0"
  shows "\<exists>r. HandleLogonProof ssl env s = Some r \<and> handler_done ssl s r"
proof -
  let ?b = "sk_readBuffer s"
  have len: "length (mb_storage ?b) = 4096" using assms(2) by (simp add: static_ok_def)
  obtain Ab M1 fl where pk: "peek 1 32 ?b = Some Ab" "peek 33 20 ?b = Some M1" "peek 74 1 ?b = Some fl"
    using peek_Some [of ?b 1 32] peek_Some [of ?b 33 20] peek_Some [of ?b 74 1] assms(5) len by auto
  define f where "f = keyed ssl (SetBinary ssl Ab) s"
  have f: "static_ok ssl f" "a_queries f = []" "\<not> sk_reading f" "mb_wpos (sk_readBuffer f) = mb_wpos ?b"
      "mb_rpos (sk_readBuffer f) = 0"
    using assms(2-5) by (simp_all add: f_def keyed_def static_ok_def)
  have "handler_done ssl s (False, s\<lparr>a_status := STATUS_CLOSED\<rparr>)"
    using assms(2-5) by (simp add: handler_done_def static_ok_def pending_ok_def)
  then show ?thesis
    using finish_proof_handled [OF assms(1) f, of env "SetBinary ssl Ab" fl]
      unknown_account_handled(2) [OF f(1-4), of env] f(5)
    unfolding HandleLogonProof_steps [OF pk refl] f_def [symmetric] by (auto split: if_splits)
qed

lemma reconnect_proof_handled:
  assumes "static_ok ssl s" and "\<not> sk_reading s" and "a_queries s = []"
    and "mb_rpos (sk_readBuffer s) = 0"
  shows "\<exists>r. HandleReconnectProof ssl s = Some r \<and> handler_done ssl s r"
proof -
  let ?b = "sk_readBuffer s"
  have len: "length (mb_storage ?b) = 4096" using assms(1) by (simp add: static_ok_def)
  obtain R1 R2 where pk: "peek 1 16 ?b = Some R1" "peek 17 20 ?b = Some R2"
    using peek_Some [of ?b 1 16] peek_Some [of ?b 17 20] assms(4) len by auto
  have sent: "send_stream [shl_u8 AUTH_RECONNECT_PROOF, shl_u8 0x00, shl_u16 0x00] f =
      Some (sends (concat [[AUTH_RECONNECT_PROOF], [0], le_bytes (0 :: u16)]) f)" for f
    by (rule send_stream_sends) (simp_all add: appends_intro sizeof_word_def)
  show ?thesis
    using assms
    by (auto simp: HandleReconnectProof_def Let_def pk [unfolded One_nat_def] sent handler_done_def static_ok_def pending_ok_def)
qed

lemma realm_list_handled:
  assumes "static_ok ssl s" and "\<not> sk_reading s" and "a_queries s = []"
  shows "\<exists>r. HandleRealmList s = Some r \<and> handler_done ssl s r"
  using assms by (simp add: HandleRealmList_def handler_done_def static_ok_def pending_ok_def AddQuery_def)

end
