(* ===== verification/AuthRealms.thy ===== *)
theory AuthRealms
  imports AuthNumbers
begin

text \<open>
  The realm list packet: what its entries come to, and that its sizes are right as long as it fits
  into the buffer of a packet.
\<close>

section \<open>Entries\<close>

lemma build_texts:
  assumes "GetBuildInfo b = Some bi"
  shows "length (show_int (bi_MajorVersion bi)) \<le> 2" "length (show_int (bi_MinorVersion bi)) \<le> 2"
    "length (show_int (bi_BugfixVersion bi)) \<le> 2"
proof -
  have "bi \<in> set (PostBcAcceptedClientBuilds @ PreBcAcceptedClientBuilds)"
    using assms by (auto simp: GetBuildInfo_def find_Some_iff split: option.splits)
  moreover have "list_all (\<lambda>bi. length (show_int (bi_MajorVersion bi)) \<le> 2 \<and>
      length (show_int (bi_MinorVersion bi)) \<le> 2 \<and> length (show_int (bi_BugfixVersion bi)) \<le> 2)
      (PostBcAcceptedClientBuilds @ PreBcAcceptedClientBuilds)"
    by code_simp
  ultimately show "length (show_int (bi_MajorVersion bi)) \<le> 2"
    "length (show_int (bi_MinorVersion bi)) \<le> 2" "length (show_int (bi_BugfixVersion bi)) \<le> 2"
    by (auto simp: list_all_iff)
qed

lemma realm_name_length:
  "length (realm_name s (realm_flag s r) (the (GetBuildInfo (sint (r_Build r)))) r) \<le> length (r_Name r) + 11"
proof (cases "has_flag (realm_flag s r) REALM_FLAG_SPECIFYBUILD")
  case True
  then have "GetBuildInfo (sint (r_Build r)) \<noteq> None"
    using has_flag_clear [of _ REALM_FLAG_SPECIFYBUILD]
    by (cases "GetBuildInfo (sint (r_Build r)) = None") (simp_all add: realm_flag_def Let_def clear_flag_def)
  then obtain bi where "GetBuildInfo (sint (r_Build r)) = Some bi" by auto
  then show ?thesis using build_texts [of "sint (r_Build r)" bi] by (simp add: realm_name_def)
next
  case False
  then show ?thesis by (simp add: realm_name_def)
qed

lemma entry_writes_bytes:
  assumes "length (realm_name s flag bi r) \<le> length (r_Name r) + 11"
  shows "\<exists>bss. list_all2 appends (entry_writes net cc s flag bi r) bss \<and>
    length (concat bss) \<le> entry_room net (sk_remoteAddress s) r"
proof -
  define post where "post = has_flag (a_expversion s) POST_BC_EXP_FLAG"
  obtain ip port where addr: "GetAddressForClient net (sk_remoteAddress s) r = (ip, port)"
    by (cases "GetAddressForClient net (sk_remoteAddress s) r")
  let ?lock = "if r_AllowedSecurityLevel r > acc_SecurityLevel (a_accountInfo s) then 1 else 0 :: u8"
  let ?bss = "[[r_Type r]] @ (if post then [[?lock]] else [])
      @ [[ucast flag], string_bytes (realm_name s flag bi r), string_bytes (endpoint_text net ip port),
         le_bytes (r_PopulationLevel r), [smap_get 0 cc (r_Id r)], [r_Timezone r],
         [if post then ucast (r_Id r) else 0]]
      @ (if post \<and> has_flag flag REALM_FLAG_SPECIFYBUILD
         then [[word_of_int (bi_MajorVersion bi)], [word_of_int (bi_MinorVersion bi)],
               [word_of_int (bi_BugfixVersion bi)], le_bytes (word_of_int (bi_Build bi) :: u16)] else [])"
  have "list_all2 appends (entry_writes net cc s flag bi r) ?bss"
    unfolding entry_writes_def Let_def addr post_def [symmetric]
    by (auto intro!: list_all2_appendI simp: appends_intro)
  moreover have "length (concat ?bss) \<le> entry_room net (sk_remoteAddress s) r"
    using assms by (simp add: entry_room_def addr sizeof_word_def)
  ultimately show ?thesis by blast
qed

lemma realm_entry_bytes:
  assumes "realm_entry net cc s r = Some ws"
  shows "\<exists>bss. list_all2 appends ws bss \<and> length (concat bss) \<le> entry_room net (sk_remoteAddress s) r"
  using assms entry_writes_bytes [OF realm_name_length [of s r], of net cc]
  by (auto simp: realm_entry_def Let_def split: if_splits)

lemma realm_entries_bytes:
  "\<exists>bss. list_all2 appends (concat (List.map_filter (realm_entry net cc s) rs)) bss \<and>
     length (concat bss) \<le> sum_list (map (entry_room net (sk_remoteAddress s)) rs)"
proof (induction rs)
  case Nil
  then show ?case by (simp add: map_filter_simps)
next
  case (Cons r rs)
  then obtain bss where bss: "list_all2 appends (concat (List.map_filter (realm_entry net cc s) rs)) bss"
    "length (concat bss) \<le> sum_list (map (entry_room net (sk_remoteAddress s)) rs)" by blast
  show ?case
  proof (cases "realm_entry net cc s r")
    case None
    then show ?thesis using bss by (auto simp: map_filter_simps intro!: exI [of _ bss])
  next
    case (Some ws)
    obtain es where "list_all2 appends ws es" "length (concat es) \<le> entry_room net (sk_remoteAddress s) r"
      using realm_entry_bytes [OF Some] by blast
    then show ?thesis
      using bss by (auto simp: map_filter_simps Some intro!: exI [of _ "es @ bss"] list_all2_appendI)
  qed
qed

section \<open>The packet\<close>

text \<open>
  The header states how many bytes follow it: the count of realms (after four zero bytes) and the
  entries with the two bytes that end the list.
\<close>

definition realm_list_bytes :: "bool \<Rightarrow> nat \<Rightarrow> u8 list \<Rightarrow> u8 list" where
  "realm_list_bytes post n body =
     (let counts = le_bytes (0 :: u32) @ (if post then le_bytes (of_nat n :: u16) else le_bytes (of_nat n :: u32))
      in [REALM_LIST] @ le_bytes (of_nat (length body + length counts) :: u16) @ counts @ body)"

lemma RealmListCallback_returns:
  assumes "realms_fit env (sk_remoteAddress s)"
  shows "\<exists>body. length body \<le> 4002 \<and>
    RealmListCallback env rows s =
      Some ((sends (realm_list_bytes (has_flag (a_expversion s) POST_BC_EXP_FLAG)
        (length (List.map_filter (realm_entry (env_asio env) (character_counts rows) s)
          (map snd (env_realms env)))) body) s)\<lparr>a_status := STATUS_AUTHED\<rparr>)"
proof -
  define post where "post = has_flag (a_expversion s) POST_BC_EXP_FLAG"
  define es where "es = List.map_filter (realm_entry (env_asio env) (character_counts rows) s)
    (map snd (env_realms env))"
  obtain bss where bss: "list_all2 appends (concat es) bss" "length (concat bss) \<le> 4000"
    using realm_entries_bytes [of "env_asio env" "character_counts rows" s "map snd (env_realms env)"] assms
    by (auto simp: realms_fit_def es_def)
  let ?tail = "if post then [shl_u8 0x10, shl_u8 0x00] else [shl_u8 0x00, shl_u8 0x02]"
  let ?tb = "if post then [[0x10], [0x00]] else [[0x00 :: u8], [0x02]]"
  define body where "body = concat (bss @ ?tb)"
  have body: "length body \<le> 4002" "body \<noteq> []" using bss(2) by (simp_all add: body_def)
  have "list_all2 appends (concat es @ ?tail) (bss @ ?tb)"
    using bss(1) by (intro list_all2_appendI) (simp_all add: appends_intro)
  from stream_new [OF this] body(1)
  have pkt: "stream (concat es @ ?tail) bb_new = Some (bb_extend body bb_new)" by (simp add: body_def)
  define counts where "counts = le_bytes (0 :: u32) @
    (if post then le_bytes (of_nat (length es) :: u16) else le_bytes (of_nat (length es) :: u32))"
  have c: "length counts \<le> 8" "length counts \<noteq> 0" by (auto simp: counts_def sizeof_word_def)
  have "list_all2 appends ([shl_u32 0] @ (if post then [shl_u16 (of_nat (length es))]
        else [shl_u32 (of_nat (length es))]))
      [le_bytes (0 :: u32), if post then le_bytes (of_nat (length es) :: u16) else le_bytes (of_nat (length es) :: u32)]"
    by (simp add: appends_intro)
  from stream_new [OF this] c(1)
  have cnt: "stream ([shl_u32 0] @ (if post then [shl_u16 (of_nat (length es))]
      else [shl_u32 (of_nat (length es))])) bb_new = Some (bb_extend counts bb_new)"
    by (simp add: counts_def)
  have sz: "bb_size (bb_extend bs bb_new) = length bs" for bs by (simp add: bb_size_def)
  have "send_stream [shl_u8 REALM_LIST, shl_u16 (of_nat (length body + length counts)),
      append_buffer (bb_extend counts bb_new), append_buffer (bb_extend body bb_new)] s =
    Some (sends (concat [[REALM_LIST], le_bytes (of_nat (length body + length counts) :: u16), counts, body]) s)"
    using body c by (intro send_stream_sends)  (simp_all add: appends_intro sizeof_word_def)
  moreover have "concat [[REALM_LIST], le_bytes (of_nat (length body + length counts) :: u16), counts, body] =
      realm_list_bytes post (length es) body"
    by (simp add: realm_list_bytes_def counts_def Let_def)
  ultimately show ?thesis
    using body(1) pkt cnt
    by (intro exI [of _ body]) (simp add: RealmListCallback_def Let_def sz flip: es_def post_def)
qed

end
