(* ===== verification/AuthReach.thy ===== *)
theory AuthReach
  imports AuthKeeps AuthRealms Guarded
begin

text \<open>
  The logon session as a machine: the read loop, the callbacks and the updates keep \<open>auth_ok\<close>, and
  the machine meets the contract \<open>guarded\<close>. What has to have happened before a session counts
  as logged on is proved along the way.
\<close>

section \<open>The read loop\<close>

lemma handlers_table:
  assumes "InitHandlers cmd = Some (st, size0, c)"
  shows "(c = LogonChallenge \<and> st = STATUS_CHALLENGE \<and> size0 = 4 \<and> cmd = AUTH_LOGON_CHALLENGE) \<or>
    (c = LogonProof \<and> st = STATUS_LOGON_PROOF \<and> size0 = 75 \<and> cmd = AUTH_LOGON_PROOF) \<or>
    (c = ReconnectChallenge \<and> st = STATUS_CHALLENGE \<and> size0 = 4 \<and> cmd = AUTH_RECONNECT_CHALLENGE) \<or>
    (c = ReconnectProof \<and> st = STATUS_RECONNECT_PROOF \<and> size0 = 58 \<and> cmd = AUTH_RECONNECT_PROOF) \<or>
    (c = RealmListCmd \<and> st = STATUS_AUTHED \<and> size0 = 5 \<and> cmd = REALM_LIST)"
  using assms
  by (auto simp: InitHandlers_def AUTH_LOGON_CHALLENGE_INITIAL_SIZE_def sizeof_LogonProof_C_def
      sizeof_ReconnectProof_C_def REALM_LIST_PACKET_SIZE_def split: if_splits)

lemmas cmd_codes = AUTH_LOGON_CHALLENGE_def AUTH_LOGON_PROOF_def AUTH_RECONNECT_CHALLENGE_def
  AUTH_RECONNECT_PROOF_def REALM_LIST_def

lemma pending_free:
  "pending_ok s \<Longrightarrow> a_status s \<noteq> STATUS_CLOSED \<Longrightarrow> a_status s \<noteq> STATUS_WAITING_FOR_REALM_LIST \<Longrightarrow>
   a_queries s = []"
  by (auto simp: pending_ok_def)

lemma handler_returns:
  assumes "openssl_doc ssl" and "loop_ok ssl s" and "InitHandlers cmd = Some (a_status s, size0, c)"
  shows "\<exists>r. run_handler ssl env c s = Some r \<and> handler_done ssl s r"
proof -
  note t = handlers_table [OF assms(3)]
  have free: "a_queries s = []" using t assms(2) by (intro pending_free) (auto simp: loop_ok_def)
  have r: "static_ok ssl s" "\<not> sk_reading s" using assms(2) by (simp_all add: loop_ok_def)
  have pos: "mb_rpos (sk_readBuffer s) = 0" if "c \<noteq> RealmListCmd"
    using t assms(2) that by (auto simp: loop_ok_def)
  show ?thesis
    using challenge_handled [OF r free] logon_proof_handled [OF assms(1) r free, of env]
      reconnect_proof_handled [OF r free] realm_list_handled [OF r free] pos
    by (cases c) (simp_all add: run_handler_def)
qed

text \<open>The size of a packet: at most 75 bytes, and for the challenge at most 51.\<close>

lemma packet_size_bound:
  assumes "packet_size cmd size0 b = Some (Some n)" and "InitHandlers cmd = Some (st, size0, c)"
  shows "n \<le> 75" and "n \<le> (case c of LogonProof \<Rightarrow> 75 | ReconnectProof \<Rightarrow> 58 | RealmListCmd \<Rightarrow> 5 | _ \<Rightarrow> 51)"
  using assms(1) handlers_table [OF assms(2)]
  by (auto simp: packet_size_def Let_def MAX_ACCEPTED_CHALLENGE_SIZE_def sizeof_LogonChallenge_C_def
      cmd_codes split: option.splits if_splits)

lemma packet_size_returns:
  assumes "loop_ok ssl s" and "InitHandlers cmd = Some (a_status s, size0, c)"
  shows "packet_size cmd size0 (sk_readBuffer s) \<noteq> None"
proof -
  have "\<exists>bs. peek 2 2 (sk_readBuffer s) = Some bs"
    if "cmd = AUTH_LOGON_CHALLENGE \<or> cmd = AUTH_RECONNECT_CHALLENGE"
  proof -
    have "mb_rpos (sk_readBuffer s) = 0" "length (mb_storage (sk_readBuffer s)) = 4096"
      using handlers_table [OF assms(2)] assms(1) that
      by (auto simp: loop_ok_def static_ok_def cmd_codes)
    then show ?thesis using peek_Some [of "sk_readBuffer s" 2 2] by auto
  qed
  then show ?thesis by (auto simp: packet_size_def Let_def)
qed

text \<open>A positive difference below \<open>2^63\<close> is a real one.\<close>

lemma active_small:
  assumes "mb_rpos b \<le> 4096" and "mb_wpos b \<le> 4096" and "GetActiveSize b < 75"
  shows "mb_rpos b \<le> mb_wpos b \<and> mb_wpos b - mb_rpos b < 75"
proof (rule ccontr)
  assume not: "\<not> ?thesis"
  show False
  proof (cases "mb_rpos b \<le> mb_wpos b")
    case True
    then have "GetActiveSize b = mb_wpos b - mb_rpos b"
      using assms(2) by (simp add: GetActiveSize_def size_sub_le)
    then show False using not True assms(3) by simp
  next
    case False
    then have "GetActiveSize b = mb_wpos b + 2 ^ 64 - mb_rpos b"
      using assms(1,2) by (simp add: GetActiveSize_def size_sub_def)
    then show False using assms(1,3) by simp
  qed
qed

definition turn_ok :: "openssl \<Rightarrow> turn \<Rightarrow> bool" where
  "turn_ok ssl t = (case t of
       Leave s' \<Rightarrow> static_ok ssl s' \<and> pending_ok s' \<and> \<not> sk_reading s'
     | ReadOn s' \<Rightarrow> loop_ok ssl s' \<and> mb_rpos (sk_readBuffer s') \<le> mb_wpos (sk_readBuffer s') \<and>
         mb_wpos (sk_readBuffer s') - mb_rpos (sk_readBuffer s') < 75
     | Again s' \<Rightarrow> loop_ok ssl s')"

lemma close_ok [simp]:
  "static_ok ssl (CloseSocket base_OnClose s) = static_ok ssl s"
  "pending_ok (CloseSocket base_OnClose s) = pending_ok s"
  "sk_reading (CloseSocket base_OnClose s) = sk_reading s"
  by (simp_all add: CloseSocket_def base_OnClose_def static_ok_def pending_ok_def)

lemma rpos_bound_le: "rpos_bound st \<le> 336"
  by (cases st) auto

lemma again_ok:
  assumes "loop_ok ssl s" and "InitHandlers cmd = Some (a_status s, size0, c)"
    and "run_handler ssl env c s = Some (True, s')" and "handler_done ssl s (True, s')"
    and "packet_size cmd size0 (sk_readBuffer s) = Some (Some n)"
  shows "loop_ok ssl (on_buffer (ReadCompleted n) s')"
proof -
  let ?b = "sk_readBuffer s"
  have r: "mb_rpos (sk_readBuffer s') \<le> mb_rpos ?b + 256" "mb_wpos (sk_readBuffer s') = mb_wpos ?b"
    using assms(4) by (simp_all add: handler_done_def)
  have n: "n \<le> 75" using packet_size_bound(1) [OF assms(5,2)] .
  have b: "mb_rpos ?b \<le> 331" using assms(1) handlers_table [OF assms(2)] by (auto simp: loop_ok_def)
  have sum: "size_add (mb_rpos (sk_readBuffer s')) n = mb_rpos (sk_readBuffer s') + n"
    using r n b by (intro size_add_small) simp
  have pos: "mb_rpos (sk_readBuffer s') + n \<le> rpos_bound (a_status s')"
  proof (cases "c = RealmListCmd")
    case True
    then have "sk_readBuffer s' = ?b" "a_status s' = STATUS_WAITING_FOR_REALM_LIST" "n \<le> 5"
      using assms(3) packet_size_bound(2) [OF assms(5,2)]
      by (auto simp: run_handler_def HandleRealmList_def AddQuery_def)
    then show ?thesis using b by simp
  next
    case False
    then have "mb_rpos ?b = 0" using assms(1) handlers_table [OF assms(2)] by (auto simp: loop_ok_def)
    moreover have "331 \<le> rpos_bound (a_status s')"
      using handler_status [OF assms(3)] False by (cases c) auto
    ultimately show ?thesis using r n by simp
  qed
  show ?thesis
    using assms(1,4) r pos sum
    by (simp add: loop_ok_def handler_done_def on_buffer_def ReadCompleted_def static_ok_def pending_ok_def)
qed

lemma read_turn_ok:
  assumes "openssl_doc ssl" and "loop_ok ssl s"
  shows "\<exists>t. read_turn ssl env s = Some t \<and> turn_ok ssl t"
proof -
  let ?b = "sk_readBuffer s"
  have len: "length (mb_storage ?b) = 4096" and r: "mb_rpos ?b \<le> 336" and w: "mb_wpos ?b \<le> 4096"
    using assms(2) rpos_bound_le [of "a_status s"] by (auto simp: loop_ok_def static_ok_def)
  obtain cb where cb: "peek 0 1 ?b = Some cb" using peek_Some [of ?b 0 1] len r by auto
  have static: "static_ok ssl s" "pending_ok s" "\<not> sk_reading s" using assms(2) by (simp_all add: loop_ok_def)
  have short: "turn_ok ssl (ReadOn s)" if "GetActiveSize ?b < k" "k \<le> 75" for k
    using active_small [of ?b] r w that assms(2) by (simp add: turn_ok_def)
  show ?thesis
  proof (cases "InitHandlers (le_word cb)")
    case None
    have "turn_ok ssl (ReadOn (on_buffer mb_Reset s))"
      using static by (simp add: turn_ok_def loop_ok_def on_buffer_def mb_Reset_def static_ok_def pending_ok_def)
    then show ?thesis using None by (simp add: read_turn_def cb [unfolded One_nat_def])
  next
    case (Some h)
    obtain st size0 c where h: "h = (st, size0, c)" by (cases h) auto
    show ?thesis
    proof (cases "a_status s = st \<and> \<not> GetActiveSize ?b < size0")
      case False
      then show ?thesis
        using static short [of size0] handlers_table [OF Some [unfolded h]]
        by (auto simp: read_turn_def cb [unfolded One_nat_def] Some h Let_def turn_ok_def)
    next
      case True
      have init: "InitHandlers (le_word cb) = Some (a_status s, size0, c)" using Some h True by simp
      obtain n where n: "packet_size (le_word cb) size0 ?b = Some n"
        using packet_size_returns [OF assms(2) init] by auto
      obtain ok s' where run: "run_handler ssl env c s = Some (ok, s')" "handler_done ssl s (ok, s')"
        using handler_returns [OF assms(1,2) init, of env] by (metis surj_pair)
      have left: "turn_ok ssl (Leave (CloseSocket base_OnClose s'))"
        using run(2) by (simp add: turn_ok_def handler_done_def)
      have small: "turn_ok ssl (ReadOn s)" if "n = Some m" "GetActiveSize ?b < m" for m
        using short [OF that(2)] packet_size_bound(1) [of "le_word cb" size0 ?b m] n init that by simp
      have again: "turn_ok ssl (Again (on_buffer (ReadCompleted m) s'))" if "n = Some m" "ok" for m
        using again_ok [OF assms(2) init, of env s' m] run n that by (simp add: turn_ok_def)
      have "turn_ok ssl (Leave (CloseSocket base_OnClose s))" using static by (simp add: turn_ok_def)
      then show ?thesis
        using True left small again
        by (cases n; cases ok) (simp_all add: read_turn_def cb [unfolded One_nat_def] init n run(1) Let_def)
    qed
  qed
qed

lemma size_sub_ok: "b \<le> a \<Longrightarrow> a \<le> 4096 \<Longrightarrow> size_sub a b = a - b"
  by (simp add: size_sub_le)

lemma async_read_buffer:
  assumes "mb_rpos b \<le> mb_wpos b" and "mb_wpos b - mb_rpos b < 75" and "mb_wpos b \<le> 4096"
    and "length (mb_storage b) = 4096"
  shows "mb_rpos (EnsureFreeSpace (Normalize b)) = 0"
    and "mb_wpos (EnsureFreeSpace (Normalize b)) = mb_wpos b - mb_rpos b"
    and "length (mb_storage (EnsureFreeSpace (Normalize b))) = 4096"
    and "pending (EnsureFreeSpace (Normalize b)) = pending b"
proof -
  have ok: "mb_ok b" using assms by (simp add: mb_ok_def)
  have n: "mb_ok (Normalize b)" "queue_view (Normalize b) = (queue_view b)\<lparr>bq_read := 0\<rparr>"
    using normalize_sim [OF ok] by simp_all
  then have v: "mb_rpos (Normalize b) = 0" "pending (Normalize b) = pending b"
      "length (mb_storage (Normalize b)) = 4096"
    using assms(4) by (simp_all add: queue_view_def)
  have w: "mb_wpos (Normalize b) = mb_wpos b - mb_rpos b"
    using mb_ok_sizes(3) [OF ok] mb_ok_sizes(3) [OF n(1)] v(1,2) by simp
  have "EnsureFreeSpace (Normalize b) = Normalize b"
    using mb_ok_sizes(2) [OF n(1)] v w assms(2) by (simp add: EnsureFreeSpace_def)
  then show "mb_rpos (EnsureFreeSpace (Normalize b)) = 0"
    "mb_wpos (EnsureFreeSpace (Normalize b)) = mb_wpos b - mb_rpos b"
    "length (mb_storage (EnsureFreeSpace (Normalize b))) = 4096"
    "pending (EnsureFreeSpace (Normalize b)) = pending b"
    using v w by simp_all
qed

lemma AsyncRead_ok:
  assumes "static_ok ssl s" and "pending_ok s" and "\<not> sk_reading s"
    and "mb_rpos (sk_readBuffer s) \<le> mb_wpos (sk_readBuffer s)"
    and "mb_wpos (sk_readBuffer s) - mb_rpos (sk_readBuffer s) < 75" and "mb_wpos (sk_readBuffer s) \<le> 4096"
  shows "auth_ok ssl (AsyncRead s)"
  using assms async_read_buffer [OF assms(4-6)]
  by (auto simp: auth_ok_def AsyncRead_def static_ok_def pending_ok_def)

lemma ReadHandler_returns:
  assumes "openssl_doc ssl" and "loop_ok ssl s"
  shows "\<exists>s'. ReadHandler ssl env s = Some s' \<and> auth_ok ssl s'"
  using assms
proof (induction ssl env s rule: ReadHandler.induct)
  case (1 ssl env s)
  note ok = 1(3)
  have w: "mb_wpos (sk_readBuffer s) \<le> 4096" "mb_rpos (sk_readBuffer s) \<le> 4096"
    using ok rpos_bound_le [of "a_status s"] by (simp_all add: loop_ok_def)
  show ?case
  proof (cases "GetActiveSize (sk_readBuffer s) = 0")
    case True
    have "auth_ok ssl (AsyncRead s)"
      using active_small [OF w(2,1)] True ok by (intro AsyncRead_ok) (auto simp: loop_ok_def)
    then show ?thesis using True by (simp add: ReadHandler.simps [of ssl env s])
  next
    case False
    obtain t where t: "read_turn ssl env s = Some t" "turn_ok ssl t"
      using read_turn_ok [OF 1(2,3), of env] by blast
    show ?thesis
    proof (cases t)
      case (Leave s')
      then have "auth_ok ssl s'" using t(2) by (simp add: turn_ok_def auth_ok_def)
      then show ?thesis using t(1) Leave False by (simp add: ReadHandler.simps [of ssl env s])
    next
      case (ReadOn s')
      then have "auth_ok ssl (AsyncRead s')"
        using t(2) by (intro AsyncRead_ok) (auto simp: turn_ok_def loop_ok_def)
      then show ?thesis using t(1) ReadOn False by (simp add: ReadHandler.simps [of ssl env s])
    next
      case (Again s')
      then have "\<exists>s''. ReadHandler ssl env s' = Some s'' \<and> auth_ok ssl s''"
        using 1(1) [OF False t(1) Again] 1(2) t(2) Again by (simp add: turn_ok_def)
      then show ?thesis using t(1) Again False by (simp add: ReadHandler.simps [of ssl env s])
    qed
  qed
qed

section \<open>Callbacks\<close>

text \<open>What a callback leaves when the query it answers was the only one.\<close>

definition answered :: "openssl \<Rightarrow> auth_session \<Rightarrow> auth_session \<Rightarrow> bool" where
  "answered ssl s s' \<longleftrightarrow>
     static_ok ssl s' \<and> a_queries s' = [] \<and> sk_reading s' = sk_reading s \<and>
     sk_readBuffer s' = sk_readBuffer s"

lemma answered_sends [simp]: "answered ssl s (sends bs s') = answered ssl s s'"
  by (simp add: answered_def)

lemma refusal_sends:
  "send_stream ([shl_u8 AUTH_LOGON_CHALLENGE, shl_u8 0x00] @ [shl_u8 code]) s =
     Some (sends [AUTH_LOGON_CHALLENGE, 0, code] s)"
  by (rule send_stream_short [where bss = "[[AUTH_LOGON_CHALLENGE], [0], [code]]"])
    (simp_all add: appends_intro)

lemma CheckIpCallback_ok:
  assumes "static_ok ssl s" and "a_queries s = []" and "\<not> sk_reading s"
    and "mb_rpos (sk_readBuffer s) = 0" and "mb_wpos (sk_readBuffer s) = 0"
  shows "\<exists>s'. CheckIpCallback rows s = Some s' \<and> auth_ok ssl s'"
proof -
  have "auth_ok ssl (AsyncRead s)" using assms by (intro AsyncRead_ok) (simp_all add: pending_ok_def)
  moreover have "auth_ok ssl (sends bs s)" for bs
    using assms by (simp add: auth_ok_def pending_ok_def)
  ultimately show ?thesis
    using refusal_sends [of WOW_FAIL_BANNED s] by (simp add: CheckIpCallback_def)
qed

text \<open>\<open>g ^ b mod N\<close> has at most 32 bytes, so the assertion holds.\<close>

lemma gmod_bytes:
  assumes "openssl_doc ssl" and "static_ok ssl s" and "0 \<le> b"
  shows "GetNumBytes ssl (ModExp ssl (a_g s) b (a_N s)) \<le> 32"
proof (rule num_bytes_less [OF assms(1)])
  have N: "a_N s = 0x894B645E89E1535BBDAD5B8B290650530801B18EBFBF5E8FAB3C82872A3E9BB7"
    using assms(2) srp_modulus_value [OF assms(1)] by (simp add: static_ok_def)
  have g: "a_g s = 7" using assms(2) SetDword_value [OF assms(1)] by (simp add: static_ok_def)
  have e: "ModExp ssl (a_g s) b (a_N s) = 7 ^ nat b mod a_N s"
    using assms(1,3) by (simp add: ModExp_def openssl_doc_def g N)
  show "0 \<le> ModExp ssl (a_g s) b (a_N s)" unfolding e by (simp add: N)
  have "ModExp ssl (a_g s) b (a_N s) < a_N s" unfolding e by (rule pos_mod_bound) (simp add: N)
  also have "\<dots> < 256 ^ 32" by (simp add: N)
  finally show "ModExp ssl (a_g s) b (a_N s) < 256 ^ 32" .
qed

text \<open>The answer to a logon challenge that is not refused.\<close>

definition challenge_bytes :: "openssl \<Rightarrow> u8 \<Rightarrow> int \<Rightarrow> int \<Rightarrow> int \<Rightarrow> int \<Rightarrow> int \<Rightarrow> u8 \<Rightarrow> u8 list" where
  "challenge_bytes ssl code B gg NN salt unk3 flags =
     [AUTH_LOGON_CHALLENGE, 0, code] @ take 32 (AsByteArray ssl 32 True B) @ [1]
     @ take 1 (AsByteArray ssl 1 True gg) @ [32] @ take 32 (AsByteArray ssl 32 True NN)
     @ take 32 (AsByteArray ssl 32 True salt) @ take 16 (AsByteArray ssl 16 True unk3) @ [flags]
     @ (if flags AND 4 \<noteq> 0 then [1] else [])"

lemma challenge_sends:
  assumes "openssl_doc ssl"
  shows "send_stream ([shl_u8 AUTH_LOGON_CHALLENGE, shl_u8 0x00]
      @ ([shl_u8 code, append_bytes (AsByteArray ssl 32 True B) 32, shl_u8 1,
          append_bytes (AsByteArray ssl 1 True gg) 1, shl_u8 32,
          append_bytes (AsByteArray ssl 32 True NN) 32,
          append_bytes (AsByteArray ssl SRP_6_S True salt) SRP_6_S,
          append_bytes (AsByteArray ssl 16 True unk3) 16, shl_u8 flags]
         @ (if flags AND 4 \<noteq> 0 then [shl_u8 1] else []))) s =
    Some (sends (challenge_bytes ssl code B gg NN salt unk3 flags) s)"
  by (rule send_stream_short [where bss = "[[AUTH_LOGON_CHALLENGE], [0], [code],
        take 32 (AsByteArray ssl 32 True B), [1], take 1 (AsByteArray ssl 1 True gg), [32],
        take 32 (AsByteArray ssl 32 True NN), take 32 (AsByteArray ssl 32 True salt),
        take 16 (AsByteArray ssl 16 True unk3), [flags]] @ (if flags AND 4 \<noteq> 0 then [[1]] else [])"])
    (auto simp: appends_intro assms SRP_6_S_def challenge_bytes_def)

text \<open>The session with the numbers of the exchange.\<close>

definition challenged :: "openssl \<Rightarrow> logon_row \<Rightarrow> draws \<Rightarrow> auth_session \<Rightarrow> auth_session" where
  "challenged ssl row rnd s =
     (let s = load_verifier ssl row (rand_s rnd) s;
          s = s\<lparr>a_b := rand_b rnd,
                a_B := bn_modulo ssl (bn_plus ssl (bn_times ssl (a_v s) (SetDword ssl 3))
                         (ModExp ssl (a_g s) (rand_b rnd) (a_N s))) (a_N s)\<rparr>;
          s = (if IsAcceptedClientBuild (uint (a_build s)) then s\<lparr>a_status := STATUS_LOGON_PROOF\<rparr> else s)
      in s\<lparr>a_tokenKey := row_token_key row\<rparr>)"

lemma verifier_frame [simp]:
  "a_N (load_verifier ssl row rs s) = a_N s" "a_g (load_verifier ssl row rs s) = a_g s"
  "a_build (load_verifier ssl row rs s) = a_build s"
  "a_queries (load_verifier ssl row rs s) = a_queries s"
  "a_status (load_verifier ssl row rs s) = a_status s"
  "a_ipCountry (load_verifier ssl row rs s) = a_ipCountry s"
  "a_accountInfo (load_verifier ssl row rs s) = a_accountInfo s"
  "a_expversion (load_verifier ssl row rs s) = a_expversion s"
  "sk_readBuffer (load_verifier ssl row rs s) = sk_readBuffer s"
  "sk_reading (load_verifier ssl row rs s) = sk_reading s"
  "sk_closing (load_verifier ssl row rs s) = sk_closing s"
  "sk_closed (load_verifier ssl row rs s) = sk_closed s"
  "sk_remoteAddress (load_verifier ssl row rs s) = sk_remoteAddress s"
  by (simp_all add: load_verifier_def SetVSFields_def auth_Execute_def Let_def)

lemma LogonChallengeCallback_steps:
  fixes s :: auth_session and row :: logon_row
  defines "s1 \<equiv> s\<lparr>a_accountInfo := LoadResult row (a_accountInfo s)\<rparr>"
  assumes "openssl_doc ssl" and "static_ok ssl s" and "0 \<le> rand_b rnd" and "logon_refusal s1 = None"
  shows "LogonChallengeCallback ssl (Some row) rnd s =
    (let s' = challenged ssl row rnd s1
     in Some (sends (challenge_bytes ssl
          (if IsAcceptedClientBuild (uint (a_build s)) then WOW_SUCCESS else WOW_FAIL_VERSION_INVALID)
          (a_B s') (a_g s') (a_N s') (a_s s') (rand_unk3 rnd) (if row_token_key row \<noteq> [] then 4 else 0)) s'))"
proof -
  have "static_ok ssl s1" using assms(3) by (simp add: s1_def static_ok_def)
  note g = gmod_bytes [OF assms(2) this assms(4)]
  define s2 where "s2 = load_verifier ssl row (rand_s rnd) s1"
  have s2: "a_N s2 = a_N s1" "a_g s2 = a_g s1" "a_build s2 = a_build s" "a_status s2 = a_status s1"
    by (simp_all add: s2_def) (simp add: s1_def)
  define gmod where "gmod = ModExp ssl (a_g s2) (rand_b rnd) (a_N s2)"
  have g: "GetNumBytes ssl gmod \<le> 32" using g s2 by (simp add: gmod_def)
  show ?thesis
    unfolding LogonChallengeCallback_def Let_def option.case s1_def [symmetric] assms(5)
      s2_def [symmetric] gmod_def [symmetric] challenged_def
    using g s2 by (simp add: challenge_sends [OF assms(2), simplified])
qed

lemma challenged_frame [simp]:
  "a_N (challenged ssl row rnd s) = a_N s" "a_g (challenged ssl row rnd s) = a_g s"
  "a_queries (challenged ssl row rnd s) = a_queries s"
  "a_ipCountry (challenged ssl row rnd s) = a_ipCountry s"
  "sk_readBuffer (challenged ssl row rnd s) = sk_readBuffer s"
  "sk_reading (challenged ssl row rnd s) = sk_reading s"
  "sk_closing (challenged ssl row rnd s) = sk_closing s"
  by (simp_all add: challenged_def Let_def)

lemma challenged_status:
  "a_status (challenged ssl row rnd s) =
     (if IsAcceptedClientBuild (uint (a_build s)) then STATUS_LOGON_PROOF else a_status s)"
  by (simp add: challenged_def Let_def)

lemma challenged_static [simp]: "static_ok ssl (challenged ssl row rnd s) = static_ok ssl s"
  by (simp add: static_ok_def)

lemma LogonChallengeCallback_ok:
  assumes "openssl_doc ssl" and "static_ok ssl s" and "a_queries s = []" and "0 \<le> rand_b rnd"
  shows "\<exists>s'. LogonChallengeCallback ssl row rnd s = Some s' \<and> answered ssl s s' \<and>
    a_status s' \<in> {a_status s, STATUS_LOGON_PROOF}"
proof (cases row)
  case None
  then show ?thesis
    using assms refusal_sends [of WOW_FAIL_UNKNOWN_ACCOUNT s]
    by (simp add: LogonChallengeCallback_def answered_def)
next
  case (Some r)
  let ?s = "s\<lparr>a_accountInfo := LoadResult r (a_accountInfo s)\<rparr>"
  have static: "static_ok ssl ?s" using assms(2) by (simp add: static_ok_def)
  show ?thesis
  proof (cases "logon_refusal ?s")
    case None
    from LogonChallengeCallback_steps [OF assms(1,2,4) None] static assms(3)
    show ?thesis unfolding Some Let_def by (simp add: answered_def challenged_status)
  next
    case (Some code)
    then show ?thesis
      using static assms(3) refusal_sends [of code ?s]
      by (simp add: LogonChallengeCallback_def \<open>row = _\<close> answered_def)
  qed
qed

lemma ReconnectChallengeCallback_ok:
  assumes "openssl_doc ssl" and "static_ok ssl s" and "a_queries s = []"
  shows "\<exists>s'. ReconnectChallengeCallback ssl row rnd s = Some s' \<and> answered ssl s s' \<and>
    a_status s' \<in> {a_status s, STATUS_RECONNECT_PROOF}"
proof -
  have no: "send_stream [shl_u8 AUTH_RECONNECT_CHALLENGE, shl_u8 WOW_FAIL_UNKNOWN_ACCOUNT] s =
      Some (sends [AUTH_RECONNECT_CHALLENGE, WOW_FAIL_UNKNOWN_ACCOUNT] s)"
    by (rule send_stream_short [where bss = "[[AUTH_RECONNECT_CHALLENGE], [WOW_FAIL_UNKNOWN_ACCOUNT]]"])
      (simp_all add: appends_intro)
  have yes: "send_stream [shl_u8 AUTH_RECONNECT_CHALLENGE, shl_u8 WOW_SUCCESS,
      append_bytes (AsByteArray ssl 16 True rnd) 16, shl_u64 0x00, shl_u64 0x00] f =
      Some (sends (concat [[AUTH_RECONNECT_CHALLENGE], [WOW_SUCCESS],
        take 16 (AsByteArray ssl 16 True rnd), le_bytes (0 :: u64), le_bytes (0 :: u64)]) f)" for f
    by (rule send_stream_sends) (simp_all add: appends_intro assms(1) sizeof_word_def)
  show ?thesis
    using assms(2,3) no yes
    by (cases row) (auto simp: ReconnectChallengeCallback_def answered_def static_ok_def)
qed

lemma answered_auth_ok:
  "answered ssl s s' \<Longrightarrow> sk_reading s \<longrightarrow> mb_rpos (sk_readBuffer s) = 0 \<and> mb_wpos (sk_readBuffer s) < 75 \<Longrightarrow>
   auth_ok ssl s'"
  by (simp add: answered_def auth_ok_def pending_ok_def)

section \<open>Updates\<close>

text \<open>Writing changes the queue of packets and nothing that the invariant speaks of.\<close>

definition only_written :: "auth_session \<Rightarrow> auth_session \<Rightarrow> bool" where
  "only_written s s' \<longleftrightarrow>
     (\<exists>q w f. s' = s\<lparr>sk_writeQueue := q, sk_written := w, sk_isWritingAsync := f\<rparr>)"

lemma only_written_refl [simp]: "only_written s s"
proof -
  have "s = s\<lparr>sk_writeQueue := sk_writeQueue s, sk_written := sk_written s, sk_isWritingAsync := sk_isWritingAsync s\<rparr>"
    by simp
  then show ?thesis unfolding only_written_def by blast
qed

lemma only_written_trans: "only_written s s' \<Longrightarrow> only_written s' s'' \<Longrightarrow> only_written s s''"
  by (auto simp: only_written_def) (metis)

lemma HandleQueue_only_written:
  assumes "\<not> sk_closing s"
  shows "only_written s (snd (HandleQueue base_OnClose res s))"
proof (cases "sk_writeQueue s")
  case Nil
  then show ?thesis by (simp add: HandleQueue_def)
next
  case (Cons m rest)
  have q: "only_written s (s\<lparr>sk_writeQueue := q, sk_written := w, sk_isWritingAsync := f\<rparr>)" for q w f
    unfolding only_written_def by blast
  have a: "only_written s (s\<lparr>sk_isWritingAsync := True\<rparr>)"
    using q [where q = "sk_writeQueue s" and w = "sk_written s" and f = True] by simp
  have q': "only_written s (s\<lparr>sk_written := w, sk_writeQueue := q, sk_isWritingAsync := f\<rparr>)" for q w f
    unfolding only_written_def by (intro exI [of _ q] exI [of _ w] exI [of _ f]) simp
  show ?thesis
    using assms q' a q' [where f = "sk_isWritingAsync s"]
      q [where w = "sk_written s" and f = "sk_isWritingAsync s"]
    by (cases res) (auto simp: HandleQueue_def Cons AsyncProcessQueue_def pop_queued_def Let_def)
qed

lemma only_written_frame:
  assumes "only_written s s'"
  shows "auth_ok ssl s' = auth_ok ssl s" and "sk_closing s' = sk_closing s"
    and "a_queries s' = a_queries s" and "a_status s' = a_status s" and "sk_readBuffer s' = sk_readBuffer s"
    and "sk_reading s' = sk_reading s" and "static_ok ssl s' = static_ok ssl s" and "auth_fresh s' = auth_fresh s"
    and "sk_remoteAddress s' = sk_remoteAddress s"
proof -
  obtain q w f where "s' = s\<lparr>sk_writeQueue := q, sk_written := w, sk_isWritingAsync := f\<rparr>"
    using assms unfolding only_written_def by blast
  then show "auth_ok ssl s' = auth_ok ssl s" "sk_closing s' = sk_closing s" "a_queries s' = a_queries s"
    "a_status s' = a_status s" "sk_readBuffer s' = sk_readBuffer s" "sk_reading s' = sk_reading s"
    "static_ok ssl s' = static_ok ssl s" "auth_fresh s' = auth_fresh s" "sk_remoteAddress s' = sk_remoteAddress s"
    by (simp_all add: auth_ok_defs)
qed

lemma handle_turns_only_written:
  "\<not> sk_closing s \<Longrightarrow> only_written s (handle_turns base_OnClose n res i s)"
proof (induction n arbitrary: i s)
  case 0
  then show ?case by simp
next
  case (Suc n)
  obtain again s' where h: "HandleQueue base_OnClose (res i) s = (again, s')" by fastforce
  have w: "only_written s s'" using HandleQueue_only_written [OF Suc.prems, of "res i"] h by simp
  then have "\<not> sk_closing s'" using Suc.prems only_written_frame(2) by blast
  from Suc.IH [OF this] w show ?case by (auto simp: h intro: only_written_trans)
qed

lemma sk_Update_only_written:
  assumes "\<not> sk_closing s"
  shows "only_written s (snd (sk_Update base_OnClose res s))"
  using handle_turns_only_written [OF assms] by (simp add: sk_Update_def del: handle_turns.simps)

text \<open>With one query at most, an update runs its callback or leaves it waiting.\<close>

lemma invoke_ok:
  assumes "openssl_doc ssl" and "auth_ok ssl s" and "a_queries s = [q]"
    and "answer_fits q a" and "draws_ok a" and "realms_fit env (sk_remoteAddress s)"
  shows "\<exists>s'. InvokeIfReady ssl env q a (s\<lparr>a_queries := []\<rparr>) = Some s' \<and> auth_ok ssl s'"
proof -
  let ?s = "s\<lparr>a_queries := []\<rparr>"
  have static: "static_ok ssl ?s" using assms(2) by (simp add: auth_ok_def static_ok_def)
  have ok: "\<exists>s'. r = Some s' \<and> auth_ok ssl s'"
    if "\<exists>s'. r = Some s' \<and> answered ssl ?s s' \<and> P s'" "\<not> auth_fresh s" for r P
  proof -
    from that(1) obtain s' where s': "r = Some s'" "answered ssl ?s s'" by blast
    have "auth_ok ssl s'"
      using assms(2) that(2) by (intro answered_auth_ok [OF s'(2)]) (simp add: auth_ok_def)
    then show ?thesis using s'(1) by blast
  qed
  have notfresh: "\<not> auth_fresh s" if "\<nexists>ip. q = SEL_IP_INFO ip"
    using that assms(3) by (auto simp: auth_fresh_def)
  show ?thesis
  proof (cases q)
    case (SEL_IP_INFO ip)
    then obtain rows where a: "a = IpAnswer rows" using assms(4) by (cases a) auto
    have "auth_fresh s" using assms(2,3) SEL_IP_INFO by (auto simp: auth_ok_def pending_ok_def)
    then show ?thesis
      using CheckIpCallback_ok [OF static, of rows] by (simp add: SEL_IP_INFO a auth_fresh_def)
  next
    case (SEL_LOGONCHALLENGE l)
    then obtain row rnd where a: "a = LogonAnswer row rnd" using assms(4) by (cases a) auto
    show ?thesis
      using ok [OF LogonChallengeCallback_ok [OF assms(1) static, of rnd row]] assms(5) notfresh
      by (simp add: SEL_LOGONCHALLENGE a)
  next
    case (SEL_RECONNECTCHALLENGE l)
    then obtain row rnd where a: "a = ReconnectAnswer row rnd" using assms(4) by (cases a) auto
    show ?thesis
      using ok [OF ReconnectChallengeCallback_ok [OF assms(1) static, of row rnd]] notfresh
      by (simp add: SEL_RECONNECTCHALLENGE a)
  next
    case (SEL_REALM_CHARACTER_COUNTS i)
    then obtain rows where a: "a = CountsAnswer rows" using assms(4) by (cases a) auto
    have "realms_fit env (sk_remoteAddress ?s)" using assms(6) by simp
    from RealmListCallback_returns [OF this, of rows] obtain bs where
      r: "RealmListCallback env rows ?s = Some ((sends bs ?s)\<lparr>a_status := STATUS_AUTHED\<rparr>)" by blast
    have "answered ssl ?s ((sends bs ?s)\<lparr>a_status := STATUS_AUTHED\<rparr>)"
      using static by (simp add: answered_def static_ok_def)
    then show ?thesis
      using ok [of "RealmListCallback env rows ?s" "\<lambda>_. True"] r notfresh
      by (simp add: SEL_REALM_CHARACTER_COUNTS a)
  qed
qed

lemma queries_cases: "auth_ok ssl s \<Longrightarrow> a_queries s = [] \<or> (\<exists>q. a_queries s = [q])"
  by (auto simp: auth_ok_def pending_ok_def auth_fresh_def)

lemma ProcessReadyQueries_one:
  "a_queries s = [q] \<Longrightarrow> ProcessReadyQueries ssl env answers s =
     (case answers 0 of
        None \<Rightarrow> Some s
      | Some a \<Rightarrow> InvokeIfReady ssl env q a (s\<lparr>a_queries := []\<rparr>))"
  by (auto simp: ProcessReadyQueries_def split: option.splits)

section \<open>The machine\<close>

lemma receive_loop_ok:
  assumes "auth_ok ssl s" and "sk_reading s" and "length bytes \<le> GetRemainingSpace (sk_readBuffer s)"
  shows "loop_ok ssl (receive bytes s)"
    and "pending (sk_readBuffer (receive bytes s)) = pending (sk_readBuffer s) @ bytes"
proof -
  let ?b = "sk_readBuffer s"
  have ok: "static_ok ssl s" "pending_ok s" "mb_rpos ?b = 0" "mb_wpos ?b < 75"
    using assms(1,2) by (auto simp: auth_ok_def auth_fresh_def)
  have len: "length (mb_storage ?b) = 4096" using ok(1) by (simp add: static_ok_def)
  have mb: "mb_ok ?b" using ok(3,4) len by (simp add: mb_ok_def)
  have fits: "mb_wpos ?b + length bytes \<le> 4096"
    using assms(3) mb_ok_sizes(2) [OF mb] len ok(4) by simp
  have sum: "size_add (mb_wpos ?b) (length bytes) = mb_wpos ?b + length bytes"
    using fits by (intro size_add_small) simp
  show "loop_ok ssl (receive bytes s)"
    using ok len fits sum
    by (simp add: loop_ok_def receive_def Let_def static_ok_def pending_ok_def WriteCompleted_def vec_copy_def)
  show "pending (sk_readBuffer (receive bytes s)) = pending ?b @ bytes"
    using ok(3) len fits sum
    by (simp add: receive_def Let_def pending_def WriteCompleted_def vec_copy_def)
qed

lemma auth_step:
  assumes "openssl_doc ssl" and "auth_ok ssl s" and "auth_guard e s"
  shows "\<exists>s'. auth_exec ssl s e = Some s' \<and> auth_ok ssl s'"
proof (cases e)
  case (Received env result)
  show ?thesis
  proof (cases result)
    case None
    have "static_ok ssl s" "pending_ok s" using assms(2,3) Received by (auto simp: auth_ok_def auth_fresh_def)
    then have "auth_ok ssl (CloseSocket base_OnClose (s\<lparr>sk_reading := False\<rparr>))"
      by (simp add: auth_ok_def) (simp add: static_ok_def pending_ok_def)
    then show ?thesis by (simp add: Received None ReadHandlerInternal_def)
  next
    case (Some bytes)
    then show ?thesis
      using ReadHandler_returns [OF assms(1) receive_loop_ok(1) [OF assms(2)], of bytes env] assms(3) Received
      by (simp add: ReadHandlerInternal_def)
  qed
next
  case (Updated env res answers)
  obtain go s1 where u: "sk_Update base_OnClose res s = (go, s1)" by fastforce
  have "only_written s s1"
    using sk_Update_only_written [of s res] assms(2) u by (simp add: auth_ok_def static_ok_def)
  note fr = only_written_frame [OF this]
  have ok: "auth_ok ssl s1" using fr assms(2) by simp
  have "\<exists>s'. ProcessReadyQueries ssl env answers s1 = Some s' \<and> auth_ok ssl s'"
  proof (cases "a_queries s1 = []")
    case True
    then show ?thesis using ok by (simp add: ProcessReadyQueries_def)
  next
    case False
    then obtain q where q: "a_queries s1 = [q]" using queries_cases [OF ok] by blast
    show ?thesis
    proof (cases "answers 0")
      case None
      then show ?thesis using ok by (simp add: ProcessReadyQueries_one [OF q])
    next
      case (Some a)
      have g: "answer_fits q a" "draws_ok a" "realms_fit env (sk_remoteAddress s1)"
        using assms(3) Updated Some q fr by auto
      show ?thesis
        using invoke_ok [OF assms(1) ok q g] Some by (simp add: ProcessReadyQueries_one [OF q])
    qed
  qed
  then show ?thesis using ok by (cases go) (auto simp: Updated auth_Update_def u)
next
  case (Writable res)
  let ?s = "s\<lparr>sk_isWritingAsync := False\<rparr>"
  have "\<not> sk_closing ?s" using assms(2) by (simp add: auth_ok_def static_ok_def)
  note fr = only_written_frame [OF HandleQueue_only_written [OF this, of res]]
  have "auth_ok ssl ?s" using assms(2) by (simp add: auth_ok_defs)
  then show ?thesis using fr by (simp add: Writable WriteHandlerWrapper_def)
qed

interpretation logon: guarded "auth_exec ssl" auth_guard "\<lambda>s. openssl_doc ssl \<and> auth_ok ssl s" for ssl
  by unfold_locales (use auth_step in blast)

definition auth_start :: "openssl \<Rightarrow> string \<Rightarrow> auth_session" where
  "auth_start ssl remote = auth_Start (new_AuthSession ssl remote)"

lemma start_ok: "auth_ok ssl (auth_start ssl remote)"
  by (simp add: auth_start_def auth_Start_def AddQuery_def new_AuthSession_def new_Socket_def
      auth_ok_def static_ok_def auth_fresh_def default_MessageBuffer_def new_MessageBuffer_def mb_Resize_def
      READ_BLOCK_SIZE_def auth_session.defs socket.defs)

end
