(* ===== verification/AuthSrp.thy ===== *)
theory AuthSrp
  imports AuthReach
begin

text \<open>
  The other side of the logon: what a client that knows the password computes, as the protocol SRP6
  has it, from the bytes on the wire; and that the server computes the same.
\<close>

section \<open>The client\<close>

definition srp_N :: int where
  "srp_N = 0x894B645E89E1535BBDAD5B8B290650530801B18EBFBF5E8FAB3C82872A3E9BB7"

primrec le_encode :: "nat \<Rightarrow> int \<Rightarrow> u8 list" where
  "le_encode 0 n = []"
| "le_encode (Suc k) n = word_of_int n # le_encode k (n div 256)"

text \<open>
  The client's side of one logon: \<open>A\<close>, the shared secret, the session key, the hash of the
  constants, the proof it sends and the proof it expects, all as bytes in the order of the wire.
\<close>

record srp_client =
  c_A :: "u8 list"
  c_S :: "u8 list"
  c_K :: "u8 list"
  c_t3 :: "u8 list"
  c_M1 :: "u8 list"
  c_M2 :: "u8 list"

definition evens :: "u8 list \<Rightarrow> u8 list" where "evens bs = map (\<lambda>i. bs ! (2 * i)) [0..<16]"
definition odds :: "u8 list \<Rightarrow> u8 list" where "odds bs = map (\<lambda>i. bs ! (2 * i + 1)) [0..<16]"

definition srp_client_side ::
  "(u8 list \<Rightarrow> u8 list) \<Rightarrow> u8 list \<Rightarrow> u8 list \<Rightarrow> u8 list \<Rightarrow> nat \<Rightarrow> nat \<Rightarrow> srp_client" where
  "srp_client_side H user salt B_bytes x a =
     (let A_bytes = le_encode 32 (7 ^ a mod srp_N);
          u = nat (le_value (H (A_bytes @ B_bytes)));
          S_bytes = le_encode 32 ((le_value B_bytes - 3 * (7 ^ x mod srp_N)) ^ (a + u * x) mod srp_N);
          K = concat (map2 (\<lambda>e d. [e, d]) (H (evens S_bytes)) (H (odds S_bytes)));
          t3 = map2 (XOR) (H (le_encode 32 srp_N)) (H [7]);
          M1 = H (t3 @ H user @ salt @ A_bytes @ B_bytes @ K)
      in \<lparr>c_A = A_bytes, c_S = S_bytes, c_K = K, c_t3 = t3, c_M1 = M1, c_M2 = H (A_bytes @ M1 @ K)\<rparr>)"

definition logon_packet :: "srp_client \<Rightarrow> u8 list \<Rightarrow> u8 list" where
  "logon_packet c crc = [AUTH_LOGON_PROOF] @ c_A c @ c_M1 c @ crc @ [0, 0]"

text \<open>No number of the exchange but the proof has a zero as its most significant byte.\<close>

definition full_length :: "u8 list \<Rightarrow> u8 list \<Rightarrow> srp_client \<Rightarrow> bool" where
  "full_length salt B_bytes c \<longleftrightarrow>
     last salt \<noteq> 0 \<and> last B_bytes \<noteq> 0 \<and> last (c_A c) \<noteq> 0 \<and> last (c_S c) \<noteq> 0 \<and> last (c_K c) \<noteq> 0 \<and>
     last (c_t3 c) \<noteq> 0"

section \<open>Encodings\<close>

lemma length_le_encode [simp]: "length (le_encode k n) = k"
  by (induction k arbitrary: n) auto

lemma le_value_encode: "le_value (le_encode k n) = n mod 256 ^ k"
proof (induction k arbitrary: n)
  case 0
  then show ?case by simp
next
  case (Suc k)
  have "n mod 256 + 256 * (n div 256 mod 256 ^ k) = n mod (256 * 256 ^ k)"
    using zmod_zmult2_eq [of "256 ^ k" n 256] by simp
  moreover have "uint (word_of_int n :: u8) = n mod 256" by (simp add: uint_word_of_int)
  ultimately show ?case by (simp add: Suc)
qed

lemma le_value_encode_small: "0 \<le> n \<Longrightarrow> n < 256 ^ k \<Longrightarrow> le_value (le_encode k n) = n"
  by (simp add: le_value_encode)

lemma srp_N_small: "0 < srp_N" "srp_N < 256 ^ 32"
  by (simp_all add: srp_N_def)

lemma mod_N_small: "0 \<le> n mod srp_N" "n mod srp_N < 256 ^ 32"
  using srp_N_small pos_mod_bound [OF srp_N_small(1), of n] by (simp_all del: pos_mod_bound)

lemma le_value_encode_mod [simp]: "le_value (le_encode 32 (n mod srp_N)) = n mod srp_N"
  by (rule le_value_encode_small [OF mod_N_small])

section \<open>The shared secret\<close>

lemma srp_secret:
  fixes x a b u :: nat and N :: int
  defines "v \<equiv> 7 ^ x mod N"
  shows "((7 ^ a mod N) * (v ^ u mod N)) ^ b mod N =
    (((3 * v + 7 ^ b mod N) mod N) - 3 * v) ^ (a + u * x) mod N"
proof -
  let ?P = "(7 ^ a mod N) * (v ^ u mod N)"
  let ?D = "((3 * v + 7 ^ b mod N) mod N) - 3 * v"
  have "v ^ u mod N = (7 ^ x) ^ u mod N" unfolding v_def by (rule power_mod)
  then have "?P mod N = 7 ^ a * (7 ^ x) ^ u mod N" by (simp add: mod_mult_eq)
  moreover have "(7 :: int) ^ a * (7 ^ x) ^ u = 7 ^ (a + u * x)"
    by (simp add: power_add mult.commute [of u x] power_mult)
  ultimately have P: "?P mod N = 7 ^ (a + u * x) mod N" by simp
  have D: "?D mod N = 7 ^ b mod N" by (simp add: mod_diff_left_eq mod_add_right_eq)
  have "?P ^ b mod N = (?P mod N) ^ b mod N" by (rule power_mod [symmetric])
  also have "\<dots> = (7 ^ (a + u * x)) ^ b mod N" unfolding P by (rule power_mod)
  also have "\<dots> = (7 ^ b) ^ (a + u * x) mod N" by (simp only: power_mult [symmetric] mult.commute)
  also have "\<dots> = (?D mod N) ^ (a + u * x) mod N" unfolding D by (rule power_mod [symmetric])
  also have "\<dots> = ?D ^ (a + u * x) mod N" by (rule power_mod)
  finally show ?thesis .
qed

section \<open>The server computes the same\<close>

text \<open>The numbers of the exchange in the session, and the bytes of \<open>B\<close> it sent.\<close>

definition exchange :: "auth_session \<Rightarrow> u8 list \<Rightarrow> u8 list \<Rightarrow> nat \<Rightarrow> nat \<Rightarrow> bool" where
  "exchange s salt B_bytes x b \<longleftrightarrow>
     a_N s = srp_N \<and> a_g s = 7 \<and> a_v s = 7 ^ x mod srp_N \<and> a_b s = int b \<and>
     a_B s = (3 * a_v s + 7 ^ b mod srp_N) mod srp_N \<and> a_s s = le_value salt \<and>
     B_bytes = le_encode 32 (a_B s) \<and> length salt = 32"

lemma sha_data [simp]: "sha_of ssl (UpdateData bs) = ssl_SHA1 ssl bs"
  by (simp add: sha_of_def Finalize_def UpdateData_def new_SHA1Hash_def)

lemma number_bytes:
  assumes "openssl_doc ssl" and "bs \<noteq> []" and "last bs \<noteq> 0"
  shows "take (GetNumBytes ssl (le_value bs)) (AsByteArray ssl 0 True (le_value bs)) = bs"
proof -
  have "AsByteArray ssl 0 True (le_value bs) = bs"
    using AsByteArray_full [OF assms, of 0] by simp
  moreover have "GetNumBytes ssl (le_value bs) = length (AsByteArray ssl 0 True (le_value bs))"
    using length_AsByteArray [OF assms(1), of 0 True "le_value bs"] assms(1)
    by (simp add: GetNumBytes_def openssl_doc_def)
  ultimately show ?thesis by simp
qed

lemma UpdateBigNumbers_full:
  assumes "openssl_doc ssl" and "\<forall>bs \<in> set bss. bs \<noteq> [] \<and> last bs \<noteq> 0"
  shows "UpdateBigNumbers ssl (map le_value bss) sha = UpdateData (concat bss) sha"
  using assms(2)
proof (induction bss arbitrary: sha)
  case Nil
  then show ?case by (simp add: UpdateBigNumbers_def UpdateData_def)
next
  case (Cons bs bss)
  have "UpdateBigNumbers ssl (map le_value (bs # bss)) sha =
      UpdateBigNumbers ssl (map le_value bss) (UpdateData bs sha)"
    using number_bytes [OF assms(1), of bs] Cons.prems by (simp add: UpdateBigNumbers_def)
  also have "\<dots> = UpdateData (concat bss) (UpdateData bs sha)" using Cons by simp
  finally show ?case by (simp add: UpdateData_def)
qed

lemma sha_numbers:
  assumes "openssl_doc ssl" and "\<forall>bs \<in> set bss. bs \<noteq> [] \<and> last bs \<noteq> 0"
  shows "sha_of ssl (UpdateBigNumbers ssl (map le_value bss)) = ssl_SHA1 ssl (concat bss)"
  using UpdateBigNumbers_full [OF assms] by (simp add: sha_of_def Finalize_def UpdateData_def new_SHA1Hash_def)

lemma length_SHA1 [simp]: "openssl_doc ssl \<Longrightarrow> length (ssl_SHA1 ssl m) = 20"
  by (simp add: openssl_doc_def SHA_DIGEST_LENGTH_def)

lemma map2_nth: "length xs = n \<Longrightarrow> length ys = n \<Longrightarrow> map (\<lambda>i. f (xs ! i) (ys ! i)) [0..<n] = map2 f xs ys"
  by (rule nth_equalityI) auto

lemma interleave_client:
  assumes "openssl_doc ssl"
  shows "interleave_key ssl t =
    concat (map2 (\<lambda>e d. [e, d]) (ssl_SHA1 ssl (evens t)) (ssl_SHA1 ssl (odds t)))"
  using map2_nth [of "ssl_SHA1 ssl (evens t)" 20 "ssl_SHA1 ssl (odds t)" "\<lambda>e d. [e, d]"] assms
  by (simp add: interleave_key_def evens_def odds_def mult.commute [of _ 2])

lemma concat_pairs: "length xs = length ys \<Longrightarrow> length (concat (map2 (\<lambda>e d. [e, d]) xs ys)) = 2 * length xs"
  by (induction xs ys rule: list_induct2) auto

text \<open>Both sides are set up for the same exchange, and none of these numbers is short.\<close>

definition agreed ::
  "openssl \<Rightarrow> auth_session \<Rightarrow> u8 list \<Rightarrow> u8 list \<Rightarrow> nat \<Rightarrow> nat \<Rightarrow> nat \<Rightarrow> srp_client \<Rightarrow> bool" where
  "agreed ssl s salt B_bytes x a b c \<longleftrightarrow>
     openssl_doc ssl \<and> exchange s salt B_bytes x b \<and> full_length salt B_bytes c \<and>
     c = srp_client_side (ssl_SHA1 ssl) (map byte_of (acc_Login (a_accountInfo s))) salt B_bytes x a"

lemma agreed_client:
  assumes "agreed ssl s salt B_bytes x a b c"
  shows "c_A c = le_encode 32 (7 ^ a mod srp_N)"
    and "c_S c = le_encode 32 ((le_value B_bytes - 3 * (7 ^ x mod srp_N)) ^
      (a + nat (le_value (ssl_SHA1 ssl (c_A c @ B_bytes))) * x) mod srp_N)"
    and "c_K c = concat (map2 (\<lambda>e d. [e, d]) (ssl_SHA1 ssl (evens (c_S c))) (ssl_SHA1 ssl (odds (c_S c))))"
    and "c_t3 c = map2 (XOR) (ssl_SHA1 ssl (le_encode 32 srp_N)) (ssl_SHA1 ssl [7])"
    and "c_M1 c = ssl_SHA1 ssl (c_t3 c @ ssl_SHA1 ssl (map byte_of (acc_Login (a_accountInfo s)))
      @ salt @ c_A c @ B_bytes @ c_K c)"
    and "c_M2 c = ssl_SHA1 ssl (c_A c @ c_M1 c @ c_K c)"
  using assms by (simp_all add: agreed_def srp_client_side_def Let_def)

lemma agreed_lengths:
  assumes "agreed ssl s salt B_bytes x a b c"
  shows "length (c_A c) = 32" and "length (c_S c) = 32" and "length (c_K c) = 40"
    and "length (c_t3 c) = 20" and "length (c_M1 c) = 20" and "length (c_M2 c) = 20"
    and "length salt = 32" and "length B_bytes = 32"
proof -
  have doc: "openssl_doc ssl" using assms by (simp add: agreed_def)
  show "length (c_A c) = 32" "length (c_S c) = 32"
    by (simp_all add: agreed_client(1,2) [OF assms])
  show "length (c_K c) = 40"
    using concat_pairs [of "ssl_SHA1 ssl (evens (c_S c))" "ssl_SHA1 ssl (odds (c_S c))"] doc
    by (simp add: agreed_client(3) [OF assms])
  show "length (c_t3 c) = 20" "length (c_M1 c) = 20" "length (c_M2 c) = 20"
    using doc by (simp_all add: agreed_client(4-6) [OF assms])
  show "length salt = 32" "length B_bytes = 32" using assms by (auto simp: agreed_def exchange_def)
qed

lemma agreed_full:
  assumes "agreed ssl s salt B_bytes x a b c"
  shows "\<forall>bs \<in> {salt, B_bytes, c_A c, c_S c, c_K c, c_t3 c}. bs \<noteq> [] \<and> last bs \<noteq> 0"
proof -
  have "\<forall>bs \<in> {salt, B_bytes, c_A c, c_S c, c_K c, c_t3 c}. bs \<noteq> []"
    using agreed_lengths [OF assms] by auto
  then show ?thesis using assms by (auto simp: agreed_def full_length_def)
qed

lemma agreed_numbers:
  assumes "agreed ssl s salt B_bytes x a b c"
  shows "SetBinary ssl (c_A c) = 7 ^ a mod srp_N" and "a_B s = le_value B_bytes"
    and "le_value (c_A c) = 7 ^ a mod srp_N"
proof -
  have doc: "openssl_doc ssl" and ex: "exchange s salt B_bytes x b" using assms by (simp_all add: agreed_def)
  show A: "le_value (c_A c) = 7 ^ a mod srp_N"
    by (simp add: agreed_client(1) [OF assms])
  then show "SetBinary ssl (c_A c) = 7 ^ a mod srp_N" by (simp add: SetBinary_value [OF doc])
  show "a_B s = le_value B_bytes" using ex by (simp add: exchange_def)
qed

lemma agreed_secret:
  assumes "agreed ssl s salt B_bytes x a b c"
  shows "proof_S ssl (le_value (c_A c)) (s\<lparr>a_status := st\<rparr>) = le_value (c_S c)"
proof -
  have doc: "openssl_doc ssl" and ex: "exchange s salt B_bytes x b" using assms by (simp_all add: agreed_def)
  define v where "v = (7 :: int) ^ x mod srp_N"
  define u where "u = nat (le_value (ssl_SHA1 ssl (c_A c @ B_bytes)))"
  have hash: "SetBinary ssl (sha_of ssl (UpdateBigNumbers ssl [le_value (c_A c), a_B s])) = int u"
    using sha_numbers [OF doc, of "[c_A c, B_bytes]"] agreed_full [OF assms] agreed_numbers(2) [OF assms]
    by (simp add: SetBinary_value [OF doc] u_def)
  have nonneg: "0 \<le> v" "0 < srp_N" using mod_N_small(1) srp_N_small(1) by (simp_all add: v_def)
  have inner: "ModExp ssl (a_v s) (int u) (a_N s) = v ^ u mod srp_N"
    using ex doc nonneg by (simp add: ModExp_def openssl_doc_def exchange_def v_def)
  have "proof_S ssl (le_value (c_A c)) (s\<lparr>a_status := st\<rparr>) =
      ((7 ^ a mod srp_N) * (v ^ u mod srp_N)) ^ b mod srp_N"
    using ex doc nonneg mod_N_small(1)
    by (simp add: proof_S_def hash inner) (simp add: ModExp_def openssl_doc_def exchange_def bn_times_def
        agreed_numbers(3) [OF assms])
  also have "\<dots> = (((3 * v + 7 ^ b mod srp_N) mod srp_N) - 3 * v) ^ (a + u * x) mod srp_N"
    unfolding v_def by (rule srp_secret)
  also have "\<dots> = (le_value B_bytes - 3 * v) ^ (a + u * x) mod srp_N"
    using ex agreed_numbers(2) [OF assms] by (simp add: exchange_def v_def)
  also have "\<dots> = le_value (c_S c)"
    by (simp add: agreed_client(2) [OF assms] v_def u_def)
  finally show ?thesis .
qed

lemma agreed_key:
  assumes "agreed ssl s salt B_bytes x a b c"
  shows "keyed ssl (le_value (c_A c)) s = s\<lparr>a_status := STATUS_CLOSED, a_K := le_value (c_K c)\<rparr>"
proof -
  have doc: "openssl_doc ssl" using assms by (simp add: agreed_def)
  have "take 32 (AsByteArray ssl 32 True (le_value (c_S c))) = c_S c"
    using AsByteArray_full [OF doc, of "c_S c" 32] agreed_full [OF assms] agreed_lengths [OF assms] by simp
  then show ?thesis
    by (simp add: keyed_def agreed_secret [OF assms] interleave_client [OF doc] SetBinary_value [OF doc]
        agreed_client(3) [OF assms])
qed

lemma agreed_proof:
  assumes "agreed ssl s salt B_bytes x a b c"
  shows "proof_digest ssl (le_value (c_A c)) (keyed ssl (le_value (c_A c)) s) = c_M1 c"
proof -
  have doc: "openssl_doc ssl" and ex: "exchange s salt B_bytes x b" using assms by (simp_all add: agreed_def)
  have N: "le_value (le_encode 32 srp_N) = srp_N" "le_encode 32 srp_N \<noteq> []" "last (le_encode 32 srp_N) \<noteq> 0"
    using srp_N_small by (simp add: le_value_encode_small) (code_simp, code_simp)
  have hN: "sha_of ssl (UpdateBigNumbers ssl [a_N s]) = ssl_SHA1 ssl (le_encode 32 srp_N)"
    using sha_numbers [OF doc, of "[le_encode 32 srp_N]"] N ex by (simp add: exchange_def)
  have hg: "sha_of ssl (UpdateBigNumbers ssl [a_g s]) = ssl_SHA1 ssl [7]"
    using sha_numbers [OF doc, of "[[7]]"] ex by (simp add: exchange_def)
  have t3: "map (\<lambda>i. ssl_SHA1 ssl (le_encode 32 srp_N) ! i XOR ssl_SHA1 ssl [7] ! i) [0..<20] = c_t3 c"
    using map2_nth [of "ssl_SHA1 ssl (le_encode 32 srp_N)" 20 "ssl_SHA1 ssl [7]" "(XOR)"] doc
    by (simp add: agreed_client(4) [OF assms])
  have t4: "sha_of ssl (UpdateString l) = ssl_SHA1 ssl (map byte_of l)" for l
    by (simp add: UpdateString_def)
  have f: "\<forall>bs \<in> set [c_t3 c]. bs \<noteq> [] \<and> last bs \<noteq> 0"
    "\<forall>bs \<in> set [salt, c_A c, B_bytes, c_K c]. bs \<noteq> [] \<and> last bs \<noteq> 0"
    using agreed_full [OF assms] by simp_all
  have M: "sha_of ssl (UpdateBigNumbers ssl [le_value salt, le_value (c_A c), le_value B_bytes, le_value (c_K c)]
      \<circ> UpdateData d \<circ> UpdateBigNumbers ssl [le_value (c_t3 c)]) =
      ssl_SHA1 ssl (c_t3 c @ d @ salt @ c_A c @ B_bytes @ c_K c)" for d
    using UpdateBigNumbers_full [OF doc f(1)] UpdateBigNumbers_full [OF doc f(2)]
    by (simp add: sha_of_def Finalize_def UpdateData_def new_SHA1Hash_def)
  have s: "a_s s = le_value salt" using ex by (simp add: exchange_def)
  show ?thesis
    unfolding proof_digest_def agreed_key [OF assms]
    by (simp add: hN hg t3 t4 SetBinary_value [OF doc] M s agreed_numbers(2) [OF assms]
        agreed_client(5) [OF assms])
qed

end
