(* ===== verification/AuthArrives.thy ===== *)
theory AuthArrives
  imports AuthSrp
begin

text \<open>
  What a session does with a whole packet that arrives while it waits for one: the logon challenge
  and the logon proof, and the answer of the database in between.
\<close>

section \<open>A packet that arrives whole\<close>

lemma peek_received:
  assumes "mb_rpos b = 0" and "mb_wpos b \<le> length (mb_storage b)" and "pending b = bytes"
    and "off + n \<le> length bytes"
  shows "peek off n b = Some (take n (drop off bytes))"
proof -
  have "bytes = take (mb_wpos b) (mb_storage b)" using assms(1,3) by (simp add: pending_def)
  moreover have "length bytes = mb_wpos b" using assms(1-3) by (auto simp: pending_def)
  ultimately show ?thesis using assms by (simp add: peek_def drop_take take_take min_def)
qed

text \<open>A session with an empty buffer that reads.\<close>

definition awaits :: "openssl \<Rightarrow> auth_status \<Rightarrow> auth_session \<Rightarrow> bool" where
  "awaits ssl st s \<longleftrightarrow> auth_ok ssl s \<and> sk_reading s \<and> \<not> sk_closed s \<and> a_status s = st \<and>
     mb_wpos (sk_readBuffer s) = 0"

lemma awaits_receive:
  assumes "awaits ssl st s" and "length p \<le> 4096"
  defines "r \<equiv> receive p s"
  shows "loop_ok ssl r" and "GetActiveSize (sk_readBuffer r) = length p"
    and "mb_rpos (sk_readBuffer r) = 0" and "mb_wpos (sk_readBuffer r) = length p"
    and "off + n \<le> length p \<Longrightarrow> peek off n (sk_readBuffer r) = Some (take n (drop off p))"
proof -
  let ?b = "sk_readBuffer r"
  have s: "auth_ok ssl s" "sk_reading s" "mb_wpos (sk_readBuffer s) = 0"
    "mb_rpos (sk_readBuffer s) = 0" "length (mb_storage (sk_readBuffer s)) = 4096"
    using assms(1) by (auto simp: awaits_def auth_ok_def static_ok_def auth_fresh_def)
  then have fits: "length p \<le> GetRemainingSpace (sk_readBuffer s)"
    using assms(2) by (simp add: GetRemainingSpace_def size_sub_def)
  show loop: "loop_ok ssl r" unfolding r_def by (rule receive_loop_ok(1) [OF s(1,2) fits])
  have pend: "pending ?b = p"
    using receive_loop_ok(2) [OF s(1,2) fits] s(3) by (simp add: r_def pending_def [of "sk_readBuffer s"])
  have "size_add 0 (length p) = length p" using assms(2) by (simp add: size_add_def)
  then show pos: "mb_rpos ?b = 0" "mb_wpos ?b = length p"
    using s by (simp_all add: r_def receive_def Let_def WriteCompleted_def)
  show "GetActiveSize ?b = length p" using pos assms(2) by (simp add: GetActiveSize_def size_sub_le)
  have "length (mb_storage ?b) = 4096" using loop by (simp add: loop_ok_def static_ok_def)
  then show "peek off n ?b = Some (take n (drop off p))" if "off + n \<le> length p"
    using peek_received [OF pos(1) _ pend that] pos(2) assms(2) by simp
qed

text \<open>A handler that uses up the packet: the session reads on.\<close>

lemma ReadHandler_one:
  assumes "read_turn ssl env r = Some (Again (on_buffer (ReadCompleted n) out))" and "0 < n"
    and "GetActiveSize (sk_readBuffer r) = n" and "mb_rpos (sk_readBuffer r) = 0"
    and "mb_wpos (sk_readBuffer r) = n" and "n \<le> 4096" and "sk_readBuffer out = sk_readBuffer r"
  shows "ReadHandler ssl env r = Some (AsyncRead (on_buffer (ReadCompleted n) out))"
proof -
  have "size_add 0 n = n" using assms(6) by (simp add: size_add_def)
  then have "GetActiveSize (sk_readBuffer (on_buffer (ReadCompleted n) out)) = 0"
    using assms(4,5,7) by (simp add: on_buffer_def ReadCompleted_def GetActiveSize_def)
  then show ?thesis
    using assms(1-3) by (simp add: ReadHandler.simps [of ssl env r] ReadHandler.simps [of ssl env "on_buffer _ _"])
qed

section \<open>One proof packet\<close>

definition awaits_proof :: "openssl \<Rightarrow> auth_session \<Rightarrow> bool" where
  "awaits_proof ssl s \<longleftrightarrow> awaits ssl STATUS_LOGON_PROOF s \<and> a_expversion s \<noteq> NO_VALID_EXP_FLAG \<and>
     a_tokenKey s = []"

definition proof_packet :: "u8 list \<Rightarrow> u8 list \<Rightarrow> u8 list \<Rightarrow> u8 list" where
  "proof_packet A M1 crc = [AUTH_LOGON_PROOF] @ A @ M1 @ crc @ [0, 0]"

lemma logon_packet_proof: "logon_packet c crc = proof_packet (c_A c) (c_M1 c) crc"
  by (simp add: logon_packet_def proof_packet_def)

lemma received_proof:
  assumes "awaits_proof ssl s" and "length A = 32" and "length M1 = 20" and "length crc = 20"
  defines "r \<equiv> receive (proof_packet A M1 crc) s"
  shows "GetActiveSize (sk_readBuffer r) = 75"
    and "peek 0 1 (sk_readBuffer r) = Some [AUTH_LOGON_PROOF]"
    and "peek 1 32 (sk_readBuffer r) = Some A" and "peek 33 20 (sk_readBuffer r) = Some M1"
    and "peek 74 1 (sk_readBuffer r) = Some [0]"
    and "mb_rpos (sk_readBuffer r) = 0" and "mb_wpos (sk_readBuffer r) = 75"
proof -
  let ?b = "sk_readBuffer r" and ?p = "proof_packet A M1 crc"
  have len: "length ?p = 75" using assms(2-4) by (simp add: proof_packet_def)
  have aw: "awaits ssl STATUS_LOGON_PROOF s" using assms(1) by (simp add: awaits_proof_def)
  note rc = awaits_receive [OF aw, of ?p, folded r_def, unfolded len, simplified]
  show "GetActiveSize ?b = 75" "mb_rpos ?b = 0" "mb_wpos ?b = 75" using rc(2-4) by simp_all
  show "peek 0 1 ?b = Some [AUTH_LOGON_PROOF]" using rc(5) [of 0 1] by (simp add: proof_packet_def)
  show "peek 1 32 ?b = Some A" using rc(5) [of 1 32] assms(2) by (simp add: proof_packet_def)
  show "peek 33 20 ?b = Some M1" using rc(5) [of 33 20] assms(2,3) by (simp add: proof_packet_def)
  show "peek 74 1 ?b = Some [0]" using rc(5) [of 74 1] assms(2-4) by (simp add: proof_packet_def)
qed

text \<open>
  The event it makes: the session with the new key either logs on or refuses; it reads on in
  either case.
\<close>

lemma proof_event:
  assumes "awaits_proof ssl s" and "openssl_doc ssl" and "length A = 32" and "length M1 = 20"
    and "length crc = 20" and "\<not> IsZero ssl (bn_modulo ssl (SetBinary ssl A) (a_N s))"
  defines "k \<equiv> keyed ssl (SetBinary ssl A) (receive (proof_packet A M1 crc) s)"
  shows "auth_exec ssl s (Received env (Some (proof_packet A M1 crc))) =
    Some (AsyncRead (on_buffer (ReadCompleted 75)
      (if proof_right ssl (SetBinary ssl A) M1 (receive (proof_packet A M1 crc) s)
       then (sends (logon_reply_bytes (a_expversion s) (sha_of ssl (UpdateBigNumbers ssl
               [SetBinary ssl A, proof_M ssl (SetBinary ssl A) k, a_K k])))
             (auth_Execute (logon_stmt ssl k) k))\<lparr>a_status := STATUS_AUTHED\<rparr>
       else wrong_password env (sends [AUTH_LOGON_PROOF, WOW_FAIL_UNKNOWN_ACCOUNT, 3, 0] k))))"
proof -
  define r where "r = receive (proof_packet A M1 crc) s"
  note rp = received_proof [OF assms(1,3-5), folded r_def]
  have fr: "a_status r = STATUS_LOGON_PROOF" "a_expversion r \<noteq> NO_VALID_EXP_FLAG" "a_tokenKey r = []"
    "a_N r = a_N s" "a_expversion r = a_expversion s"
    using assms(1) by (simp_all add: awaits_proof_def awaits_def r_def receive_def Let_def)
  have k: "a_tokenKey k = []" "a_expversion k = a_expversion s"
    using fr by (simp_all add: k_def keyed_def flip: r_def)
  define out where "out = (if proof_right ssl (SetBinary ssl A) M1 r
    then (sends (logon_reply_bytes (a_expversion s) (sha_of ssl (UpdateBigNumbers ssl
               [SetBinary ssl A, proof_M ssl (SetBinary ssl A) k, a_K k])))
             (auth_Execute (logon_stmt ssl k) k))\<lparr>a_status := STATUS_AUTHED\<rparr>
    else wrong_password env (sends [AUTH_LOGON_PROOF, WOW_FAIL_UNKNOWN_ACCOUNT, 3, 0] k))"
  have flag: "\<not> has_flag (le_word [0 :: u8] :: u8) 4" by (simp add: has_flag_def)
  have run: "HandleLogonProof ssl env r = Some (True, out)"
    unfolding HandleLogonProof_steps [OF rp(3-5) refl] out_def
    using fr(2) assms(6) k flag
    by (simp add: fr(4) finish_proof_def accept_logon_returns [OF assms(2)] unknown_account_sends
        flip: r_def k_def [folded r_def])
  have init: "InitHandlers AUTH_LOGON_PROOF = Some (STATUS_LOGON_PROOF, 75, LogonProof)"
    by (simp add: InitHandlers_def cmd_codes sizeof_LogonProof_C_def)
  have turn: "read_turn ssl env r = Some (Again (on_buffer (ReadCompleted 75) out))"
    using rp(1,2) fr(1) init run
    by (simp add: read_turn_def Let_def packet_size_def run_handler_def cmd_codes)
  have buf: "sk_readBuffer out = sk_readBuffer r"
    by (simp add: out_def k_def keyed_def auth_Execute_def flip: r_def)
  have "ReadHandler ssl env r = Some (AsyncRead (on_buffer (ReadCompleted 75) out))"
    by (rule ReadHandler_one [OF turn _ rp(1,6,7) _ buf]) simp_all
  then show ?thesis by (simp add: ReadHandlerInternal_def out_def flip: r_def)
qed

section \<open>One challenge packet\<close>

definition challenge_packet ::
  "u8 list \<Rightarrow> u16 \<Rightarrow> u8 list \<Rightarrow> u8 list \<Rightarrow> u8 list \<Rightarrow> u8 list \<Rightarrow> u8 list \<Rightarrow> u8 list" where
  "challenge_packet game b platform os country rest login =
     [AUTH_LOGON_CHALLENGE, 0] @ le_bytes (of_nat (30 + length login) :: u16) @ game @ le_bytes b
     @ platform @ os @ country @ rest @ [of_nat (length login)] @ login"

text \<open>The session after a challenge: the client's build, system and language, and the query.\<close>

definition with_challenge :: "u16 \<Rightarrow> u8 list \<Rightarrow> u8 list \<Rightarrow> u8 list \<Rightarrow> auth_session \<Rightarrow> auth_session" where
  "with_challenge b os country login s =
     AddQuery (SEL_LOGONCHALLENGE (map char_of_byte login))
       (s\<lparr>a_status := STATUS_CLOSED, a_build := b, a_expversion := expversion_of b,
          a_os := rev (c_text (map char_of_byte os @ [CHR 0x00])),
          a_localizationName := rev (map char_of_byte country)\<rparr>)"

lemma challenge_event:
  fixes b :: u16 and game platform os country rest login :: "u8 list"
  assumes "awaits ssl STATUS_CHALLENGE s" and "length game = 7" and "length platform = 4"
    and "length os = 4" and "length country = 4" and "length rest = 8" and "length login \<le> 17"
  defines "p \<equiv> challenge_packet game b platform os country rest login"
  shows "auth_exec ssl s (Received env (Some p)) =
    Some (AsyncRead (on_buffer (ReadCompleted (34 + length login))
      (with_challenge b os country login (receive p s))))"
proof -
  define r where "r = receive p s"
  let ?n = "34 + length login"
  have len: "length p = ?n" using assms(2-6) by (simp add: p_def challenge_packet_def sizeof_word_def)
  then have "length p \<le> 4096" using assms(7) by simp
  note rc = awaits_receive [OF assms(1) this, folded r_def, unfolded len]
  have pk: "peek 0 1 (sk_readBuffer r) = Some [AUTH_LOGON_CHALLENGE]"
    "peek 2 2 (sk_readBuffer r) = Some (le_bytes (of_nat (30 + length login) :: u16))"
    "peek 11 2 (sk_readBuffer r) = Some (le_bytes b)"
    "peek 17 4 (sk_readBuffer r) = Some os" "peek 21 4 (sk_readBuffer r) = Some country"
    "peek 33 1 (sk_readBuffer r) = Some [of_nat (length login)]"
    "peek 34 (length login) (sk_readBuffer r) = Some login"
    using rc(5) [of 0 1] rc(5) [of 2 2] rc(5) [of 11 2] rc(5) [of 17 4] rc(5) [of 21 4] rc(5) [of 33 1]
      rc(5) [of 34 "length login"] assms(2-6)
    by (simp_all add: p_def challenge_packet_def sizeof_word_def)
  have small: "unat (of_nat (30 + length login) :: u16) = 30 + length login"
    "unat (of_nat (length login) :: u8) = length login"
    using assms(7) by (simp_all add: unat_of_nat take_bit_nat_eq_self del: of_nat_add)
  have sub: "size_sub (30 + length login) 30 = length login" using assms(7) by (simp add: size_sub_le)
  have country: "map (\<lambda>i. char_of_byte (country ! (4 - i - 1))) [0..<4] = rev (map char_of_byte country)"
    using assms(5) by (intro nth_equalityI) (auto simp: rev_nth)
  let ?r = "r\<lparr>a_status := STATUS_CLOSED\<rparr>"
  have run: "HandleLogonChallenge r = Some (True, with_challenge b os country login r)"
    using pk(2-7) small sub
    by (simp add: HandleLogonChallenge_def read_challenge_def Let_def with_challenge_def country [simplified]
        sizeof_LogonChallenge_C_def AUTH_LOGON_CHALLENGE_INITIAL_SIZE_def del: of_nat_add)
  have init: "InitHandlers AUTH_LOGON_CHALLENGE = Some (STATUS_CHALLENGE, 4, LogonChallenge)"
    by (simp add: InitHandlers_def cmd_codes AUTH_LOGON_CHALLENGE_INITIAL_SIZE_def)
  have st: "a_status r = STATUS_CHALLENGE" using assms(1) by (simp add: awaits_def r_def receive_def Let_def)
  have "unat (4 + (of_nat (30 + length login) :: u16)) = ?n"
    using small(1) assms(7) by (simp add: unat_word_ariths del: of_nat_add)
  then have sz: "packet_size AUTH_LOGON_CHALLENGE 4 (sk_readBuffer r) = Some (Some ?n)"
    using pk(2) assms(7)
    by (simp add: packet_size_def MAX_ACCEPTED_CHALLENGE_SIZE_def sizeof_LogonChallenge_C_def del: of_nat_add)
  have turn: "read_turn ssl env r = Some (Again (on_buffer (ReadCompleted ?n) (with_challenge b os country login r)))"
    using pk(1) rc(2) st init run sz by (simp add: read_turn_def Let_def run_handler_def)
  have "ReadHandler ssl env r =
      Some (AsyncRead (on_buffer (ReadCompleted ?n) (with_challenge b os country login r)))"
    by (rule ReadHandler_one [OF turn _ rc(2-4)]) (use assms(7) in \<open>simp_all add: with_challenge_def AddQuery_def\<close>)
  then show ?thesis by (simp add: ReadHandlerInternal_def flip: r_def)
qed

section \<open>The answer to a challenge\<close>

lemma c_text_hex: "hex_text t \<Longrightarrow> c_text t = t"
proof -
  assume "hex_text t"
  then have "\<forall>c \<in> set t. c \<noteq> CHR 0x00" by (auto simp: hex_text_def)
  then show ?thesis by (simp add: c_text_def takeWhile_eq_all_conv)
qed

text \<open>
  With a full verifier and salt in the database the session then holds the numbers of the
  exchange, and the challenge it sends carries \<open>B\<close>, \<open>g\<close>, \<open>N\<close> and the salt.
\<close>

lemma challenge_sets_up:
  fixes row :: logon_row and rnd :: draws
  assumes "openssl_doc ssl" and "static_ok ssl s"
    and "hex_text (row_v row)" and "length (row_v row) = 64" and "hex_value (row_v row) = 7 ^ x mod srp_N"
    and "hex_text (row_s row)" and "length (row_s row) = 64" and "hex_value (row_s row) = le_value salt"
    and "length salt = 32" and "rand_b rnd = int b"
  defines "s' \<equiv> challenged ssl row rnd s"
  shows "exchange s' salt (le_encode 32 (a_B s')) x b"
proof -
  have N: "a_N s = srp_N" and g: "a_g s = 7"
    using assms(2) srp_modulus_value [OF assms(1)] SetDword_value [OF assms(1)]
    by (simp_all add: static_ok_def srp_N_def)
  have l: "load_verifier ssl row (rand_s rnd) s = s\<lparr>a_s := le_value salt, a_v := 7 ^ x mod srp_N\<rparr>"
    using assms(1,3-8) by (simp add: load_verifier_def SRP_6_V_def SRP_6_S_def SetHexStr_def c_text_hex openssl_doc_def)
  have B: "a_B s' = (3 * (7 ^ x mod srp_N) + 7 ^ b mod srp_N) mod srp_N"
    using assms(1) srp_N_small(1) mod_N_small(1)
    by (simp add: s'_def challenged_def l Let_def N g assms(10) bn_modulo_def bn_plus_def bn_times_def
        ModExp_def SetDword_value [OF assms(1)] openssl_doc_def mult.commute)
  show ?thesis
    unfolding exchange_def B
    by (simp add: s'_def challenged_def l Let_def N g assms(9,10))
qed

section \<open>The proof of a client that knows the password\<close>

lemma A_usable:
  assumes "agreed ssl s salt B_bytes x a b c"
  shows "\<not> IsZero ssl (bn_modulo ssl (SetBinary ssl (c_A c)) (a_N s))"
proof -
  have doc: "openssl_doc ssl" and N: "a_N s = srp_N" using assms by (simp_all add: agreed_def exchange_def)
  have "(256 :: int) ^ 31 \<le> 7 ^ a mod srp_N"
    using le_value_top [of "c_A c"] agreed_full [OF assms] agreed_lengths(1) [OF assms]
      agreed_numbers(3) [OF assms] by simp
  then have "7 ^ a mod srp_N \<noteq> 0" by simp
  then show ?thesis
    using doc N mod_N_small(1) srp_N_small(1)
    by (simp add: agreed_numbers(1) [OF assms] IsZero_def bn_modulo_def openssl_doc_def)
qed

lemma agreed_receive:
  assumes "agreed ssl s salt B_bytes x a b c"
  shows "agreed ssl (receive bytes s) salt B_bytes x a b c"
proof -
  have "exchange (receive bytes s) salt B_bytes x b = exchange s salt B_bytes x b"
    "a_accountInfo (receive bytes s) = a_accountInfo s"
    by (simp_all add: exchange_def receive_def Let_def)
  then show ?thesis using assms unfolding agreed_def by argo
qed

lemma agreed_accepts:
  assumes "agreed ssl s salt B_bytes x a b c" and "last (c_M1 c) \<noteq> 0"
  shows "proof_right ssl (SetBinary ssl (c_A c)) (c_M1 c) s"
proof -
  have doc: "openssl_doc ssl" using assms by (simp add: agreed_def)
  have len: "length (c_M1 c) = 20" by (rule agreed_lengths(5) [OF assms(1)])
  then have "c_M1 c \<noteq> []" by auto
  from AsByteArray_full [OF doc this assms(2), of 20] len
  have "AsByteArray ssl 20 True (le_value (c_M1 c)) = c_M1 c" by simp
  then show ?thesis
    using agreed_numbers(1,3) [OF assms(1)] agreed_proof [OF assms(1)] len
    by (simp add: proof_right_def SHA_DIGEST_LENGTH_def proof_M_def SetBinary_value [OF doc])
qed

lemma agreed_reply:
  assumes "agreed ssl s salt B_bytes x a b c" and "last (c_M1 c) \<noteq> 0"
  shows "sha_of ssl (UpdateBigNumbers ssl [le_value (c_A c), le_value (c_M1 c), le_value (c_K c)]) = c_M2 c"
proof -
  have "length (c_M1 c) = 20" by (rule agreed_lengths(5) [OF assms(1)])
  then have "\<forall>bs \<in> set [c_A c, c_M1 c, c_K c]. bs \<noteq> [] \<and> last bs \<noteq> 0"
    using agreed_full [OF assms(1)] assms(2) by auto
  then show ?thesis
    using sha_numbers [of ssl "[c_A c, c_M1 c, c_K c]"] assms(1)
    by (simp add: agreed_client(6) [OF assms(1)]) (simp add: agreed_def)
qed

lemma agreed_logs_in:
  assumes "awaits_proof ssl s" and "agreed ssl s salt B_bytes x a b c" and "length crc = 20"
    and "last (c_M1 c) \<noteq> 0"
  shows "\<exists>s'. auth_exec ssl s (Received env (Some (logon_packet c crc))) = Some s' \<and>
    a_status s' = STATUS_AUTHED \<and> a_K s' = le_value (c_K c) \<and>
    sk_writeQueue s' = sk_writeQueue s @ [packet_buffer (logon_reply_bytes (a_expversion s) (c_M2 c))] \<and>
    a_sql s' = a_sql s @ [UPD_LOGONPROOF (AsHexStr ssl (le_value (c_K c))) (sk_remoteAddress s)
      (GetLocaleByName (a_localizationName s)) (a_os s) (acc_Login (a_accountInfo s))]"
proof -
  define r where "r = receive (logon_packet c crc) s"
  note ag = agreed_receive [OF assms(2), of "logon_packet c crc", folded r_def]
  have doc: "openssl_doc ssl" using assms(2) by (simp add: agreed_def)
  have k: "keyed ssl (SetBinary ssl (c_A c)) r = r\<lparr>a_status := STATUS_CLOSED, a_K := le_value (c_K c)\<rparr>"
    using agreed_key [OF ag] agreed_numbers(1,3) [OF ag] by simp
  have M: "proof_M ssl (SetBinary ssl (c_A c)) (r\<lparr>a_status := STATUS_CLOSED, a_K := le_value (c_K c)\<rparr>) =
      le_value (c_M1 c)"
    using agreed_proof [OF ag] agreed_numbers(1,3) [OF ag]
    by (simp add: proof_M_def SetBinary_value [OF doc] flip: k)
  have reply: "sha_of ssl (UpdateBigNumbers ssl [SetBinary ssl (c_A c), le_value (c_M1 c), le_value (c_K c)]) = c_M2 c"
    using agreed_reply [OF ag assms(4)] agreed_numbers(1,3) [OF ag] by simp
  have fr: "sk_writeQueue r = sk_writeQueue s" "a_sql r = a_sql s" "sk_remoteAddress r = sk_remoteAddress s"
    "a_localizationName r = a_localizationName s" "a_os r = a_os s" "a_accountInfo r = a_accountInfo s"
    "a_expversion r = a_expversion s" "IsOpen r"
    using assms(1) by (simp_all add: r_def receive_def Let_def awaits_proof_def awaits_def auth_ok_def static_ok_def
      IsOpen_def)
  have async: "a_status (AsyncRead z) = a_status z" "a_K (AsyncRead z) = a_K z" "a_sql (AsyncRead z) = a_sql z"
    "sk_writeQueue (AsyncRead z) = sk_writeQueue z" for z :: auth_session
    by (simp_all add: AsyncRead_def)
  show ?thesis
    using proof_event [OF assms(1) doc agreed_lengths(1,5) [OF assms(2)] assms(3) A_usable [OF assms(2)], of env]
      agreed_accepts [OF ag assms(4)] fr
    by (simp add: async k M reply on_buffer_def sends_def QueuePacket_def auth_Execute_def logon_stmt_def IsOpen_def
        flip: logon_packet_proof r_def)
qed

section \<open>From the first byte to the proof\<close>

text \<open>An update while nothing is to be written runs the callback.\<close>

lemma quiet_update:
  assumes "sk_writeQueue s = []" and "\<not> sk_closed s" and "\<not> sk_closing s" and "a_queries s = [q]"
  shows "auth_exec ssl s (Updated env res (\<lambda>_. Some a)) = InvokeIfReady ssl env q a (s\<lparr>a_queries := []\<rparr>)"
  using assms(1-3)
  by (simp add: auth_Update_def sk_Update_def ProcessReadyQueries_one [OF assms(4)] option.map_comp comp_def
      option.map_ident)

definition connected :: "openssl \<Rightarrow> string \<Rightarrow> auth_session" where
  "connected ssl remote = AsyncRead ((auth_start ssl remote)\<lparr>a_queries := []\<rparr>)"

lemmas new_session_defs = auth_start_def auth_Start_def AddQuery_def new_AuthSession_def new_Socket_def
  default_MessageBuffer_def new_MessageBuffer_def mb_Resize_def READ_BLOCK_SIZE_def auth_session.defs socket.defs

lemma start_connects:
  assumes "\<not> (rows \<noteq> None \<and> list_ex (\<lambda>banned. banned \<noteq> 0) (the rows))"
  shows "auth_exec ssl (auth_start ssl remote) (Updated env res (\<lambda>_. Some (IpAnswer rows))) =
    Some (connected ssl remote)"
proof -
  have "auth_exec ssl (auth_start ssl remote) (Updated env res (\<lambda>_. Some (IpAnswer rows))) =
      InvokeIfReady ssl env (SEL_IP_INFO remote) (IpAnswer rows) ((auth_start ssl remote)\<lparr>a_queries := []\<rparr>)"
    by (rule quiet_update) (simp_all add: new_session_defs)
  then show ?thesis using assms by (auto simp: CheckIpCallback_def connected_def)
qed

lemma connected_awaits:
  shows "awaits ssl STATUS_CHALLENGE (connected ssl remote)"
    and "sk_writeQueue (connected ssl remote) = []" and "a_queries (connected ssl remote) = []"
    and "sk_remoteAddress (connected ssl remote) = remote"
proof -
  let ?s = "(auth_start ssl remote)\<lparr>a_queries := []\<rparr>"
  have "auth_ok ssl (connected ssl remote)"
    unfolding connected_def
    by (rule AsyncRead_ok) (simp_all add: static_ok_def pending_ok_def new_session_defs)
  then show "awaits ssl STATUS_CHALLENGE (connected ssl remote)"
    by (simp add: awaits_def) (simp add: connected_def AsyncRead_def IsOpen_def EnsureFreeSpace_def
        Normalize_def GetRemainingSpace_def size_sub_def new_session_defs)
  show "sk_writeQueue (connected ssl remote) = []" "a_queries (connected ssl remote) = []"
    "sk_remoteAddress (connected ssl remote) = remote"
    by (simp_all add: connected_def AsyncRead_def new_session_defs)
qed

text \<open>The session when the query for the account is out.\<close>

definition challenge_asked :: "u16 \<Rightarrow> u8 list \<Rightarrow> u8 list \<Rightarrow> u8 list \<Rightarrow> u8 list \<Rightarrow> auth_session \<Rightarrow> auth_session" where
  "challenge_asked b os country login p s =
     AsyncRead (on_buffer (ReadCompleted (34 + length login)) (with_challenge b os country login (receive p s)))"

lemma challenge_asked_frame:
  fixes b :: u16 and os country :: "u8 list"
  assumes "awaits ssl STATUS_CHALLENGE s" and "a_queries s = []" and "length p = 34 + length login"
    and "length login \<le> 17"
  defines "t \<equiv> challenge_asked b os country login p s"
  shows "a_queries t = [SEL_LOGONCHALLENGE (map char_of_byte login)]" and "a_status t = STATUS_CLOSED"
    and "sk_reading t" and "sk_closed t = sk_closed s" and "sk_closing t = sk_closing s"
    and "sk_writeQueue t = sk_writeQueue s" and "a_build t = b" and "a_expversion t = expversion_of b"
    and "sk_remoteAddress t = sk_remoteAddress s" and "mb_wpos (sk_readBuffer t) = 0"
    and "a_localizationName t = rev (map char_of_byte country)"
    and "a_os t = rev (c_text (map char_of_byte os @ [CHR 0x00]))" and "a_sql t = a_sql s"
proof -
  let ?u = "on_buffer (ReadCompleted (34 + length login)) (with_challenge b os country login (receive p s))"
  have op: "IsOpen ?u"
    using assms(1) by (simp add: IsOpen_def on_buffer_def with_challenge_def AddQuery_def receive_def Let_def
        awaits_def auth_ok_def static_ok_def)
  have "length p \<le> 4096" using assms(3,4) by simp
  note rc = awaits_receive [OF assms(1) this]
  have "size_add 0 (34 + length login) = 34 + length login" using assms(4) by (simp add: size_add_def)
  then have pos: "mb_rpos (sk_readBuffer ?u) = 34 + length login" "mb_wpos (sk_readBuffer ?u) = 34 + length login"
    "length (mb_storage (sk_readBuffer ?u)) = 4096"
    using rc assms(3) by (simp_all add: on_buffer_def with_challenge_def AddQuery_def ReadCompleted_def
        loop_ok_def static_ok_def)
  have "mb_wpos (EnsureFreeSpace (Normalize (sk_readBuffer ?u))) = 0"
    using async_read_buffer(2) [of "sk_readBuffer ?u"] pos assms(4) by simp
  then show "mb_wpos (sk_readBuffer t) = 0" using op by (simp add: t_def challenge_asked_def AsyncRead_def)
  show "a_queries t = [SEL_LOGONCHALLENGE (map char_of_byte login)]" "a_status t = STATUS_CLOSED"
    "sk_reading t" "sk_closed t = sk_closed s" "sk_closing t = sk_closing s"
    "sk_writeQueue t = sk_writeQueue s" "a_build t = b" "a_expversion t = expversion_of b"
    "sk_remoteAddress t = sk_remoteAddress s" "a_localizationName t = rev (map char_of_byte country)"
    "a_os t = rev (c_text (map char_of_byte os @ [CHR 0x00]))" "a_sql t = a_sql s"
    using op assms(2)
    by (simp_all add: t_def challenge_asked_def AsyncRead_def on_buffer_def with_challenge_def AddQuery_def
        receive_def Let_def)
qed

text \<open>The answer of the database: a row that is neither locked nor banned and asks for no token.\<close>

definition plain_row :: "logon_row \<Rightarrow> bool" where
  "plain_row row \<longleftrightarrow> \<not> row_locked row \<and> row_banned row = 0 \<and> row_token_key row = []"

definition row_holds :: "logon_row \<Rightarrow> nat \<Rightarrow> u8 list \<Rightarrow> bool" where
  "row_holds row x salt \<longleftrightarrow>
     hex_text (row_v row) \<and> length (row_v row) = 64 \<and> hex_value (row_v row) = 7 ^ x mod srp_N \<and>
     hex_text (row_s row) \<and> length (row_s row) = 64 \<and> hex_value (row_s row) = le_value salt \<and>
     length salt = 32"

lemma answer_awaits_proof:
  fixes row :: logon_row and t :: auth_session
  assumes "openssl_doc ssl" and "auth_ok ssl t" and "a_queries t = [SEL_LOGONCHALLENGE l]"
    and "sk_reading t" and "\<not> sk_closed t" and "sk_writeQueue t = []" and "mb_wpos (sk_readBuffer t) = 0"
    and "a_expversion t \<noteq> NO_VALID_EXP_FLAG" and "IsAcceptedClientBuild (uint (a_build t))"
    and "plain_row row" and "row_holds row x salt" and "rand_b rnd = int b" and "draws_ok (LogonAnswer (Some row) rnd)"
  shows "\<exists>s bs. auth_exec ssl t (Updated env res (\<lambda>_. Some (LogonAnswer (Some row) rnd))) = Some s \<and>
    awaits_proof ssl s \<and> exchange s salt (le_encode 32 (a_B s)) x b \<and>
    a_accountInfo s = LoadResult row (a_accountInfo t) \<and> sk_writeQueue s = [packet_buffer bs] \<and>
    a_expversion s = a_expversion t \<and> sk_remoteAddress s = sk_remoteAddress t \<and>
    a_sql s = a_sql t \<and> a_localizationName s = a_localizationName t \<and> a_os s = a_os t \<and>
    a_B s = (3 * (7 ^ x mod srp_N) + 7 ^ b mod srp_N) mod srp_N \<and>
    bs = challenge_bytes ssl WOW_SUCCESS (a_B s) (a_g s) (a_N s) (a_s s) (rand_unk3 rnd) 0"
proof -
  let ?t = "t\<lparr>a_queries := []\<rparr>"
  let ?u = "?t\<lparr>a_accountInfo := LoadResult row (a_accountInfo t)\<rparr>"
  let ?s = "challenged ssl row rnd ?u"
  have st: "static_ok ssl ?t" "static_ok ssl ?u" using assms(2) by (simp_all add: auth_ok_def static_ok_def)
  have rb: "0 \<le> rand_b rnd" using assms(13) by simp
  have ref: "logon_refusal (?t\<lparr>a_accountInfo := LoadResult row (a_accountInfo ?t)\<rparr>) = None"
    using assms(10) st by (simp add: logon_refusal_def LoadResult_def plain_row_def static_ok_def)
  define bs where "bs = challenge_bytes ssl WOW_SUCCESS (a_B ?s) (a_g ?s) (a_N ?s) (a_s ?s) (rand_unk3 rnd) 0"
  have cb: "LogonChallengeCallback ssl (Some row) rnd ?t = Some (sends bs ?s)"
    using LogonChallengeCallback_steps [OF assms(1) st(1) rb ref] assms(9,10)
    by (simp add: Let_def bs_def plain_row_def)
  have ex: "auth_exec ssl t (Updated env res (\<lambda>_. Some (LogonAnswer (Some row) rnd))) = Some (sends bs ?s)"
  proof -
    have "\<not> sk_closing t" using assms(2) by (simp add: auth_ok_def static_ok_def)
    from quiet_update [OF assms(6,5) this assms(3), of ssl env res] cb show ?thesis by simp
  qed
  have ans: "answered ssl ?t (sends bs ?s)"
    using LogonChallengeCallback_ok [OF assms(1) st(1) _ rb, of "Some row"] cb by auto
  have notfresh: "\<not> auth_fresh t" using assms(3) by (simp add: auth_fresh_def)
  have ok: "auth_ok ssl (sends bs ?s)"
    using assms(2) notfresh by (intro answered_auth_ok [OF ans]) (simp add: auth_ok_def)
  have numbers: "exchange ?s salt (le_encode 32 (a_B ?s)) x b"
    using assms(11) by (intro challenge_sets_up [OF assms(1) st(2) _ _ _ _ _ _ _ assms(12)]) (simp_all add: row_holds_def)
  then have B: "a_B ?s = (3 * (7 ^ x mod srp_N) + 7 ^ b mod srp_N) mod srp_N" by (simp add: exchange_def)
  have fr: "sk_closed ?s = sk_closed t" "a_expversion ?s = a_expversion t" "a_tokenKey ?s = row_token_key row"
    "sk_writeQueue ?s = sk_writeQueue t" "a_accountInfo ?s = LoadResult row (a_accountInfo t)"
    "sk_remoteAddress ?s = sk_remoteAddress t" "sk_closing ?s = sk_closing t"
    by (simp_all add: challenged_def load_verifier_def SetVSFields_def auth_Execute_def Let_def)
  have kept: "a_sql ?s = a_sql t" "a_localizationName ?s = a_localizationName t" "a_os ?s = a_os t"
    using assms(11) by (simp_all add: challenged_def load_verifier_def Let_def row_holds_def SRP_6_V_def SRP_6_S_def)
  have sent: "a_localizationName (sends bs z) = a_localizationName z" "a_os (sends bs z) = a_os z" for z
    by (simp_all add: sends_def QueuePacket_def)
  have "awaits_proof ssl (sends bs ?s)"
    using ok assms(4,5,7,8,9,10) fr
    by (simp add: awaits_proof_def awaits_def challenged_status plain_row_def)
  moreover have "exchange (sends bs ?s) salt (le_encode 32 (a_B (sends bs ?s))) x b"
    using numbers by (simp add: exchange_def)
  moreover have "sk_writeQueue (sends bs ?s) = [packet_buffer bs]"
    using fr assms(2,5,6) by (simp add: sends_def QueuePacket_def IsOpen_def auth_ok_def static_ok_def)
  ultimately show ?thesis
    using ex fr B kept sent by (intro exI [of _ "sends bs ?s"] exI [of _ bs]) (simp add: bs_def)
qed

end
