(* ===== verification/AuthProved.thy ===== *)
theory AuthProved
  imports AuthReach
begin

text \<open>
  When a session counts as logged on: which states the read loop can reach from the bytes of a
  proof, and that nothing else leads there.
\<close>

section \<open>Logged on\<close>

fun stores_key :: "auth_sql \<Rightarrow> bool" where
  "stores_key (UPD_LOGONPROOF k ip l os u) = True"
| "stores_key _ = False"

text \<open>
  The session may ask for the realm list, or has stored a session key (which the world server
  takes for a proof of identity).
\<close>

definition logged_on :: "auth_session \<Rightarrow> bool" where
  "logged_on s \<longleftrightarrow> a_status s = STATUS_AUTHED \<or> a_status s = STATUS_WAITING_FOR_REALM_LIST \<or>
     list_ex stores_key (a_sql s)"

text \<open>
  At the front of the buffer is a logon proof with the digest the session computes itself, from a
  usable \<open>A\<close>, and with the right token where one is asked for; or a reconnect proof with
  the digest over the stored session key.
\<close>

definition logon_proved :: "openssl \<Rightarrow> auth_env \<Rightarrow> auth_session \<Rightarrow> bool" where
  "logon_proved ssl env s \<longleftrightarrow> a_status s = STATUS_LOGON_PROOF \<and>
     (case (peek 0 1 (sk_readBuffer s), peek 1 32 (sk_readBuffer s), peek 33 20 (sk_readBuffer s),
            peek 74 1 (sk_readBuffer s)) of
        (Some cmd, Some Ab, Some M1, Some fl) \<Rightarrow>
          cmd = [AUTH_LOGON_PROOF] \<and>
          \<not> IsZero ssl (bn_modulo ssl (SetBinary ssl Ab) (a_N s)) \<and>
          proof_right ssl (SetBinary ssl Ab) M1 s \<and>
          (a_tokenKey s \<noteq> [] \<longrightarrow>
             map_option fst (check_token ssl env (keyed ssl (SetBinary ssl Ab) s)) = Some True)
      | _ \<Rightarrow> False)"

definition reconnect_proved :: "openssl \<Rightarrow> auth_session \<Rightarrow> bool" where
  "reconnect_proved ssl s \<longleftrightarrow> a_status s = STATUS_RECONNECT_PROOF \<and>
     acc_Login (a_accountInfo s) \<noteq> [] \<and> GetNumBytes ssl (a_K s) \<noteq> 0 \<and>
     (case (peek 0 1 (sk_readBuffer s), peek 1 16 (sk_readBuffer s), peek 17 20 (sk_readBuffer s)) of
        (Some cmd, Some R1, Some R2) \<Rightarrow>
          cmd = [AUTH_RECONNECT_PROOF] \<and>
          sha_of ssl (UpdateBigNumbers ssl [SetBinary ssl R1, a_reconnectProof s, a_K s] \<circ>
            UpdateString (acc_Login (a_accountInfo s))) = R2
      | _ \<Rightarrow> False)"

lemma logged_on_sends [simp]: "logged_on (sends bs s) = logged_on s"
  by (simp add: logged_on_def)

lemma challenge_not_logged_on:
  assumes "HandleLogonChallenge s = Some (ok, s') \<or> HandleReconnectChallenge s = Some (ok, s')"
    and "logged_on s'"
  shows "logged_on s"
  using assms
  by (auto simp: HandleLogonChallenge_def HandleReconnectChallenge_def read_challenge_def AddQuery_def
      logged_on_def Let_def split: option.splits if_splits)

lemma check_token_sql: "check_token ssl env s = Some (r, s') \<Longrightarrow> a_sql s' = a_sql s"
  by (auto simp: check_token_def Let_def split: option.splits)

lemma wrong_password_sql: "list_ex stores_key (a_sql (wrong_password env s)) = list_ex stores_key (a_sql s)"
  by (simp add: wrong_password_def auth_Execute_def Let_def)

lemma peek_one: "peek off 1 b = Some bs \<Longrightarrow> \<exists>x. bs = [x]"
  by (auto simp: peek_def length_Suc_conv take_Suc_conv_app_nth split: if_splits)

text \<open>The logon proof handler: only the right proof, with the right token, logs on.\<close>

lemma logon_proof_logs_on:
  assumes "HandleLogonProof ssl env s = Some (ok, s')" and "logged_on s'"
    and "peek 0 1 (sk_readBuffer s) = Some [AUTH_LOGON_PROOF]" and "a_status s = STATUS_LOGON_PROOF"
    and "length (mb_storage (sk_readBuffer s)) = 4096" and "mb_rpos (sk_readBuffer s) = 0"
  shows "logged_on s \<or> logon_proved ssl env s"
proof (rule disjCI)
  assume not: "\<not> logon_proved ssl env s"
  let ?b = "sk_readBuffer s"
  obtain Ab M1 fl where pk: "peek 1 32 ?b = Some Ab" "peek 33 20 ?b = Some M1" "peek 74 1 ?b = Some fl"
    using peek_Some [of ?b 1 32] peek_Some [of ?b 33 20] peek_Some [of ?b 74 1] assms(5,6) by auto
  define k where "k = keyed ssl (SetBinary ssl Ab) s"
  have k: "a_status k = STATUS_CLOSED" "a_sql k = a_sql s" "a_tokenKey k = a_tokenKey s"
    by (simp_all add: k_def keyed_def)
  have quiet: "list_ex stores_key (a_sql s)"
    if "a_status s' = STATUS_CLOSED" "list_ex stores_key (a_sql s') = list_ex stores_key (a_sql s)"
    using assms(2) that by (simp add: logged_on_def)
  have no: "a_status s' = STATUS_CLOSED \<and> list_ex stores_key (a_sql s') = list_ex stores_key (a_sql s)"
  proof (cases "a_expversion s = NO_VALID_EXP_FLAG \<or> IsZero ssl (bn_modulo ssl (SetBinary ssl Ab) (a_N s))
      \<or> \<not> proof_right ssl (SetBinary ssl Ab) M1 s")
    case True
    then show ?thesis
      using assms(1) k unfolding HandleLogonProof_steps [OF pk refl] k_def [symmetric]
      by (auto simp: unknown_account_sends wrong_password_sql split: if_splits)
  next
    case False
    then have tok: "a_tokenKey s \<noteq> []" "map_option fst (check_token ssl env k) \<noteq> Some True"
      using not assms(3,4) pk by (auto simp: logon_proved_def k_def)
    then obtain s'' where s'': "check_token ssl env k = Some (False, s'')"
      using False assms(1) k(3) unfolding HandleLogonProof_steps [OF pk refl] k_def [symmetric]
      by (cases "check_token ssl env k") (auto simp: finish_proof_def)
    then show ?thesis
      using False assms(1) tok k check_token_sql [OF s''] check_token_status [OF s'']
      unfolding HandleLogonProof_steps [OF pk refl] k_def [symmetric]
      by (auto simp: finish_proof_def unknown_account_sends)
  qed
  then show "logged_on s" using quiet by (simp add: logged_on_def)
qed

lemma reconnect_proof_logs_on:
  assumes "HandleReconnectProof ssl s = Some (ok, s')" and "logged_on s'"
    and "peek 0 1 (sk_readBuffer s) = Some [AUTH_RECONNECT_PROOF]" and "a_status s = STATUS_RECONNECT_PROOF"
  shows "logged_on s \<or> reconnect_proved ssl s"
  using assms
  by (auto simp: HandleReconnectProof_def Let_def reconnect_proved_def logged_on_def send_stream_def
      auth_SendPacket_def QueuePacket_def bind_eq_Some_conv split: option.splits if_splits)

text \<open>The session a turn of the read loop leaves.\<close>

fun turn_session :: "turn \<Rightarrow> auth_session" where
  "turn_session (Leave s) = s"
| "turn_session (ReadOn s) = s"
| "turn_session (Again s) = s"

lemma logged_on_closed [simp]: "logged_on (CloseSocket base_OnClose s) = logged_on s"
  by (simp add: CloseSocket_def base_OnClose_def logged_on_def)

lemma logged_on_buffer [simp]: "logged_on (on_buffer f s) = logged_on s"
  by (simp add: on_buffer_def logged_on_def)

lemma handler_logs_on:
  assumes "run_handler ssl env c s = Some (ok, s')" and "logged_on s'" and "loop_ok ssl s"
    and "InitHandlers cmd = Some (a_status s, size0, c)" and "peek 0 1 (sk_readBuffer s) = Some [cmd]"
  shows "logged_on s \<or> logon_proved ssl env s \<or> reconnect_proved ssl s"
proof -
  note t = handlers_table [OF assms(4)]
  have len: "length (mb_storage (sk_readBuffer s)) = 4096"
    using assms(3) by (simp add: loop_ok_def static_ok_def)
  show ?thesis
  proof (cases c)
    case LogonChallenge
    then show ?thesis
      using assms(1,2) challenge_not_logged_on [of s ok s'] by (simp add: run_handler_def)
  next
    case ReconnectChallenge
    then show ?thesis
      using assms(1,2) challenge_not_logged_on [of s ok s'] by (simp add: run_handler_def)
  next
    case LogonProof
    then have "a_status s = STATUS_LOGON_PROOF" "cmd = AUTH_LOGON_PROOF" using t by auto
    moreover from this have "mb_rpos (sk_readBuffer s) = 0" using assms(3) by (simp add: loop_ok_def)
    ultimately show ?thesis
      using logon_proof_logs_on [of ssl env s ok s'] assms(1,2,5) len LogonProof
      by (auto simp: run_handler_def)
  next
    case ReconnectProof
    then have "a_status s = STATUS_RECONNECT_PROOF" "cmd = AUTH_RECONNECT_PROOF" using t by auto
    then show ?thesis
      using reconnect_proof_logs_on [of ssl s ok s'] assms(1,2,5) ReconnectProof
      by (auto simp: run_handler_def)
  next
    case RealmListCmd
    then show ?thesis using t by (auto simp: logged_on_def)
  qed
qed

lemma read_turn_logs_on:
  assumes "read_turn ssl env s = Some t" and "logged_on (turn_session t)" and "loop_ok ssl s"
  shows "logged_on s \<or> logon_proved ssl env s \<or> reconnect_proved ssl s"
proof (rule ccontr)
  assume not: "\<not> ?thesis"
  obtain cb where cb: "peek 0 1 (sk_readBuffer s) = Some cb"
    using assms(1) by (auto simp: read_turn_def Let_def split: option.splits)
  then obtain cmd where cmd: "cb = [cmd]" using peek_one by blast
  have handler: "\<not> logged_on s'"
    if "InitHandlers cmd = Some (a_status s, size0, c)" "run_handler ssl env c s = Some (ok, s')" for size0 c ok s'
    using handler_logs_on [OF that(2) _ assms(3) that(1)] not cb cmd by blast
  show False
    using assms(1,2) not handler
    by (auto simp: read_turn_def Let_def cb [unfolded One_nat_def] cmd
        split: option.splits if_splits prod.splits bool.splits)
qed

lemma proved_rank:
  "logon_proved ssl env s \<or> reconnect_proved ssl s \<Longrightarrow> status_rank (a_status s) = 2"
  by (auto simp: logon_proved_def reconnect_proved_def)

lemma ReadHandler_logs_on:
  assumes "openssl_doc ssl" and "ReadHandler ssl env s = Some s'" and "logged_on s'" and "loop_ok ssl s"
  shows "logged_on s \<or> logon_proved ssl env s \<or> reconnect_proved ssl s"
  using assms
proof (induction ssl env s rule: ReadHandler.induct)
  case (1 ssl env s)
  have async: "logged_on (AsyncRead x) = logged_on x" for x
    by (simp add: AsyncRead_def logged_on_def)
  show ?case
  proof (cases "GetActiveSize (sk_readBuffer s) = 0")
    case True
    then show ?thesis using 1(3,4) async [of s] by (auto simp: ReadHandler.simps [of ssl env s])
  next
    case False
    obtain t where t: "read_turn ssl env s = Some t" "turn_ok ssl t"
      using read_turn_ok [OF 1(2,5), of env] by blast
    note step = read_turn_logs_on [OF t(1) _ 1(5)]
    show ?thesis
    proof (cases t)
      case (Leave x)
      then show ?thesis using 1(3,4) t(1) False step by (auto simp add: ReadHandler.simps [of ssl env s])
    next
      case (ReadOn x)
      then show ?thesis using 1(3,4) t(1) False step async [of x] by (auto simp add: ReadHandler.simps [of ssl env s])
    next
      case (Again x)
      have "ReadHandler ssl env x = Some s'"
        using 1(3) t(1) False Again by (simp add: ReadHandler.simps [of ssl env s])
      then have "logged_on x \<or> logon_proved ssl env x \<or> reconnect_proved ssl x"
        using 1(1) [OF False t(1) Again 1(2)] 1(4) t(2) Again by (simp add: turn_ok_def)
      moreover have "status_rank (a_status x) < 2"
        using read_turn_rank [of ssl env s x] t(1) Again by (cases "a_status s") auto
      ultimately have "logged_on x" using proved_rank by fastforce
      then show ?thesis using step Again by simp
    qed
  qed
qed

section \<open>Callbacks do not log on\<close>

lemma SetVSFields_sql [simp]:
  "list_ex stores_key (a_sql (SetVSFields ssl rs rI s)) = list_ex stores_key (a_sql s)"
  by (simp add: SetVSFields_def auth_Execute_def Let_def)

lemma challenged_sql [simp]:
  "list_ex stores_key (a_sql (challenged ssl row rnd s)) = list_ex stores_key (a_sql s)"
  by (simp add: challenged_def load_verifier_def Let_def)

lemma LogonChallengeCallback_logs_on:
  assumes "openssl_doc ssl" and "static_ok ssl s" and "0 \<le> rand_b rnd"
    and "LogonChallengeCallback ssl row rnd s = Some s'" and "logged_on s'"
  shows "logged_on s"
proof (cases row)
  case None
  then show ?thesis
    using assms(4,5) refusal_sends [of WOW_FAIL_UNKNOWN_ACCOUNT s]
    by (auto simp: LogonChallengeCallback_def)
next
  case (Some r)
  let ?s = "s\<lparr>a_accountInfo := LoadResult r (a_accountInfo s)\<rparr>"
  have s: "logged_on ?s = logged_on s" by (simp add: logged_on_def)
  show ?thesis
  proof (cases "logon_refusal ?s")
    case None
    have "logged_on (challenged ssl r rnd ?s)"
      using LogonChallengeCallback_steps [OF assms(1-3) None] assms(4,5) Some by (auto simp: Let_def)
    then show ?thesis by (auto simp: logged_on_def challenged_status split: if_splits)
  next
    case (Some code)
    then show ?thesis
      using assms(4,5) refusal_sends [of code ?s] s
      by (auto simp: LogonChallengeCallback_def \<open>row = _\<close>)
  qed
qed

lemma invoke_logs_on:
  assumes "openssl_doc ssl" and "auth_ok ssl s" and "a_queries s = [q]"
    and "answer_fits q a" and "draws_ok a"
    and "InvokeIfReady ssl env q a (s\<lparr>a_queries := []\<rparr>) = Some s'" and "logged_on s'"
  shows "logged_on s"
proof -
  let ?s = "s\<lparr>a_queries := []\<rparr>"
  have static: "static_ok ssl ?s" using assms(2) by (simp add: auth_ok_def static_ok_def)
  have s: "logged_on ?s = logged_on s" by (simp add: logged_on_def)
  show ?thesis
  proof (cases q)
    case (SEL_IP_INFO ip)
    then obtain rows where a: "a = IpAnswer rows" using assms(4) by (cases a) auto
    show ?thesis
      using assms(6,7) s refusal_sends [of WOW_FAIL_BANNED ?s]
      by (auto simp: SEL_IP_INFO a CheckIpCallback_def AsyncRead_def logged_on_def split: if_splits)
  next
    case (SEL_LOGONCHALLENGE l)
    then obtain row rnd where a: "a = LogonAnswer row rnd" using assms(4) by (cases a) auto
    show ?thesis
      using LogonChallengeCallback_logs_on [OF assms(1) static, of rnd row s'] assms(5-7) s
      by (simp add: SEL_LOGONCHALLENGE a)
  next
    case (SEL_RECONNECTCHALLENGE l)
    then obtain row rnd where a: "a = ReconnectAnswer row rnd" using assms(4) by (cases a) auto
    show ?thesis
      using assms(6,7)
      by (auto simp: SEL_RECONNECTCHALLENGE a ReconnectChallengeCallback_def logged_on_def
          send_stream_def auth_SendPacket_def QueuePacket_def bind_eq_Some_conv
          split: option.splits if_splits)
  next
    case (SEL_REALM_CHARACTER_COUNTS i)
    then show ?thesis using assms(2,3) by (auto simp: auth_ok_def pending_ok_def auth_fresh_def logged_on_def)
  qed
qed

lemma only_written_logged_on:
  assumes "only_written s s'"
  shows "logged_on s' = logged_on s"
proof -
  obtain q w f where "s' = s\<lparr>sk_writeQueue := q, sk_written := w, sk_isWritingAsync := f\<rparr>"
    using assms unfolding only_written_def by blast
  then show ?thesis by (simp add: logged_on_def)
qed

text \<open>One event: a session that is logged on afterwards was so before, or a proof came in.\<close>

lemma step_logs_on:
  assumes "openssl_doc ssl" and "auth_ok ssl s" and "auth_guard e s" and "auth_exec ssl s e = Some s'"
    and "logged_on s'"
  shows "logged_on s \<or> (\<exists>env bytes. e = Received env (Some bytes) \<and>
    (logon_proved ssl env (receive bytes s) \<or> reconnect_proved ssl (receive bytes s)))"
proof (cases e)
  case (Received env result)
  show ?thesis
  proof (cases result)
    case None
    then show ?thesis
      using assms(4,5) Received
      by (auto simp: ReadHandlerInternal_def CloseSocket_def base_OnClose_def logged_on_def split: if_splits)
  next
    case (Some bytes)
    have "loop_ok ssl (receive bytes s)"
      using receive_loop_ok(1) [OF assms(2)] assms(3) Received Some by simp
    moreover have "logged_on (receive bytes s) = logged_on s"
      by (simp add: receive_def Let_def logged_on_def)
    ultimately show ?thesis
      using ReadHandler_logs_on [OF assms(1), of env "receive bytes s" s'] assms(4,5) Received Some
      by (auto simp: ReadHandlerInternal_def)
  qed
next
  case (Updated env res answers)
  obtain go s1 where u: "sk_Update base_OnClose res s = (go, s1)" by fastforce
  have w: "only_written s s1"
    using sk_Update_only_written [of s res] assms(2) u by (simp add: auth_ok_def static_ok_def)
  note fr = only_written_frame [OF w]
  have ok: "auth_ok ssl s1" using fr assms(2) by simp
  show ?thesis
  proof (cases "go \<and> a_queries s1 \<noteq> [] \<and> answers 0 \<noteq> None")
    case True
    then obtain q a where q: "a_queries s1 = [q]" "answers 0 = Some a"
      using queries_cases [OF ok] by auto
    have "InvokeIfReady ssl env q a (s1\<lparr>a_queries := []\<rparr>) = Some s'"
      using assms(4) True u q by (simp add: Updated auth_Update_def ProcessReadyQueries_one [OF q(1)])
    moreover have "answer_fits q a" "draws_ok a" using assms(3) Updated q fr by auto
    ultimately have "logged_on s1" using invoke_logs_on [OF assms(1) ok q(1)] assms(5) by blast
    then show ?thesis using only_written_logged_on [OF w] by simp
  next
    case False
    then have "s' = s1"
      using assms(4) u queries_cases [OF ok]
      by (cases go) (auto simp: Updated auth_Update_def ProcessReadyQueries_one ProcessReadyQueries_def)
    then show ?thesis using assms(5) only_written_logged_on [OF w] by simp
  qed
next
  case (Writable res)
  let ?s = "s\<lparr>sk_isWritingAsync := False\<rparr>"
  have "\<not> sk_closing ?s" using assms(2) by (simp add: auth_ok_def static_ok_def)
  from only_written_logged_on [OF HandleQueue_only_written [OF this, of res]]
  show ?thesis using assms(4,5) by (auto simp: Writable WriteHandlerWrapper_def logged_on_def)
qed

lemma start_not_logged_on: "\<not> logged_on (auth_start ssl remote)"
  by (simp add: auth_start_def auth_Start_def AddQuery_def new_AuthSession_def logged_on_def
      auth_session.defs socket.defs new_Socket_def)

end
