(* ===== verification/AuthToy.thy ===== *)
theory AuthToy
  imports AuthSrp
begin

text \<open>
  An instance of the OpenSSL functions that meets \<open>openssl_doc\<close>, for a digest that is an argument,
  and a session in the middle of a logon: the examples of the logon properties.
\<close>

fun nat_be :: "nat \<Rightarrow> u8 list" where
  "nat_be n = (if n = 0 then [] else nat_be (n div 256) @ [of_nat n])"

declare nat_be.simps [simp del]

definition toy_ssl :: "(u8 list \<Rightarrow> u8 list) \<Rightarrow> openssl" where
  "toy_ssl H =
     \<lparr>BN_set_word = uint, BN_bin2bn = be_value, BN_bn2bin = \<lambda>n. nat_be (nat n),
      BN_num_bytes = \<lambda>n. length (nat_be (nat n)),
      BN_hex2bn = \<lambda>n s. if hex_text s then hex_value s else n,
      BN_bn2hex = \<lambda>n. [], BN_bn2dec = \<lambda>n. [], BN_lshift = \<lambda>n k. n * 2 ^ k,
      BN_add_word = \<lambda>n w. n + uint w, BN_get_word = word_of_int, BN_add = (+), BN_sub = (-),
      BN_mul = (*), BN_div = (div), BN_mod = (mod), BN_exp = \<lambda>n e. n ^ nat e,
      BN_mod_exp = \<lambda>n e m. n ^ nat e mod m, BN_is_zero = \<lambda>n. n = 0, BN_is_negative = \<lambda>n. n < 0,
      ssl_SHA1 = H, ssl_HMAC_SHA1 = \<lambda>k m. replicate 20 0\<rparr>"

lemma be_value_snoc: "be_value (bs @ [b]) = 256 * be_value bs + uint b"
  by (simp add: be_value_def)

lemma be_value_nat_be: "be_value (nat_be n) = int n"
proof (induction n rule: nat_be.induct)
  case (1 n)
  show ?case
  proof (cases "n = 0")
    case True
    then show ?thesis by (simp add: nat_be.simps [of 0] be_value_def)
  next
    case False
    have "uint (of_nat n :: u8) = int (n mod 256)" by (simp add: uint_nat unat_of_nat)
    moreover have "int n = 256 * int (n div 256) + int (n mod 256)"
      by (metis mult_div_mod_eq of_nat_add of_nat_mult of_nat_numeral)
    ultimately show ?thesis using 1 False by (simp add: nat_be.simps [of n] be_value_snoc)
  qed
qed

lemma hd_nat_be: "nat_be n \<noteq> [] \<Longrightarrow> hd (nat_be n) \<noteq> 0"
proof (induction n rule: nat_be.induct)
  case (1 n)
  show ?case
  proof (cases "nat_be (n div 256) = []")
    case True
    then have "n div 256 = 0" using nat_be.simps [of "n div 256"] by (auto split: if_splits)
    then have "n < 256" by simp
    then have "n \<noteq> 0 \<Longrightarrow> (of_nat n :: u8) \<noteq> 0"
      using unat_of_nat [of n, where 'a = 8] by auto
    then show ?thesis using 1(2) True by (auto simp: nat_be.simps [of n] split: if_splits)
  next
    case False
    then show ?thesis using 1 by (auto simp: nat_be.simps [of n] split: if_splits)
  qed
qed

lemma toy_doc: "(\<forall>m. length (H m) = 20) \<Longrightarrow> openssl_doc (toy_ssl H)"
  using hd_nat_be
  by (auto simp: openssl_doc_def toy_ssl_def be_value_nat_be hex_text_def SHA_DIGEST_LENGTH_def)

text \<open>A digest that only looks at the length; for the lengths listed it is 1 and ends in zeros.\<close>

definition toy_H :: "nat list \<Rightarrow> u8 list \<Rightarrow> u8 list" where
  "toy_H ns m = (if length m \<in> set ns then 1 # replicate 19 0 else 1 # replicate 18 0 @ [of_nat (length m)])"

lemma toy_H_doc: "openssl_doc (toy_ssl (toy_H ns))"
  by (rule toy_doc) (simp add: toy_H_def)

definition toy_session :: "openssl \<Rightarrow> auth_session" where
  "toy_session ssl = (new_AuthSession ssl ''127.0.0.1'')
     \<lparr>a_status := STATUS_LOGON_PROOF, sk_reading := True, a_expversion := POST_BC_EXP_FLAG,
      a_v := 7 ^ 89 mod srp_N, a_b := 1, a_B := (3 * (7 ^ 89 mod srp_N) + 7 ^ 1 mod srp_N) mod srp_N,
      a_s := le_value (replicate 32 9)\<rparr>"

lemma toy_session_ok: "auth_ok ssl (toy_session ssl)"
  by (simp add: toy_session_def new_AuthSession_def new_Socket_def auth_ok_def static_ok_def pending_ok_def
      default_MessageBuffer_def new_MessageBuffer_def mb_Resize_def READ_BLOCK_SIZE_def
      auth_session.defs socket.defs)

lemma toy_constants:
  shows "a_N (toy_session (toy_ssl H)) = srp_N" and "a_g (toy_session (toy_ssl H)) = 7"
proof -
  have "hex_text srp_modulus" "c_text srp_modulus = srp_modulus" "hex_value srp_modulus = srp_N"
    by (code_simp, code_simp, code_simp)
  then show "a_N (toy_session (toy_ssl H)) = srp_N"
    by (simp add: toy_session_def new_AuthSession_def SetHexStr_def toy_ssl_def auth_session.defs socket.defs)
  show "a_g (toy_session (toy_ssl H)) = 7"
    by (simp add: toy_session_def new_AuthSession_def SetDword_def toy_ssl_def auth_session.defs socket.defs)
qed

definition toy_B :: "u8 list" where
  "toy_B = le_encode 32 ((3 * (7 ^ 89 mod srp_N) + 7 ^ 1 mod srp_N) mod srp_N)"

definition toy_client :: "nat list \<Rightarrow> srp_client" where
  "toy_client ns = srp_client_side (toy_H ns) [] (replicate 32 9) toy_B 89 89"

text \<open>The proof is the digest of 176 bytes, \<open>u\<close> that of 64.\<close>

lemma toy_full:
  shows "full_length (replicate 32 9) toy_B (toy_client [64])"
    and "full_length (replicate 32 9) toy_B (toy_client [64, 176])"
  by (code_simp, code_simp)

lemma toy_agreed:
  assumes "full_length (replicate 32 9) toy_B (toy_client ns)"
  shows "agreed (toy_ssl (toy_H ns)) (toy_session (toy_ssl (toy_H ns))) (replicate 32 9) toy_B 89 89 1 (toy_client ns)"
proof -
  have "exchange (toy_session (toy_ssl (toy_H ns))) (replicate 32 9) toy_B 89 1"
    using toy_constants by (simp add: exchange_def) (simp add: toy_session_def toy_B_def)
  moreover have "toy_client ns = srp_client_side (ssl_SHA1 (toy_ssl (toy_H ns)))
      (map byte_of (acc_Login (a_accountInfo (toy_session (toy_ssl (toy_H ns)))))) (replicate 32 9) toy_B 89 89"
    by (simp add: toy_client_def toy_ssl_def toy_session_def new_AuthSession_def new_AccountInfo_def
        auth_session.defs socket.defs)
  ultimately show ?thesis using assms toy_H_doc unfolding agreed_def by blast
qed

text \<open>Surroundings: no bans for wrong passwords, no realms.\<close>

definition toy_asio :: asio where
  "toy_asio = \<lparr>is_loopback = \<lambda>_. True, is_v4 = \<lambda>_. True, IsInNetwork = \<lambda>_ _ _. False,
     endpoint_text = \<lambda>ip port. ip, Resolve = Some\<rparr>"

definition toy_env :: auth_env where
  "toy_env = \<lparr>WrongPass_MaxCount = 3, WrongPass_Logging = False, WrongPass_BanTime = 600,
     WrongPass_BanType = True, time_now = 0, env_asio = toy_asio, env_realms = []\<rparr>"

end
