(* ===== verification/AuthProps.thy ===== *)
theory AuthProps
  imports AuthArrives AuthProved AuthToy
begin

text \<open>
  What the logon server guarantees a client and the operator, and where it does not keep its word.
\<close>

section \<open>The right password\<close>

lemma challenge_layout:
  fixes gg NN unk3 :: int and code flags :: u8
  assumes "openssl_doc ssl" and "length B_bytes = 32" and "last B_bytes \<noteq> 0"
    and "length salt = 32" and "last salt \<noteq> 0"
  defines "hello \<equiv> challenge_bytes ssl code (le_value B_bytes) gg NN (le_value salt) unk3 flags"
  shows "take 32 (drop 3 hello) = B_bytes" and "take 32 (drop 70 hello) = salt"
proof -
  have full: "AsByteArray ssl 32 True (le_value bs) = bs" if "length bs = 32" "last bs \<noteq> 0" for bs
    using that by (intro AsByteArray_full [OF assms(1)]) auto
  have len: "length (take n (AsByteArray ssl n True m)) = n" for n m
    using AsByteArray_long [OF assms(1), of n True m] by simp
  show "take 32 (drop 3 hello) = B_bytes" "take 32 (drop 70 hello) = salt"
    using assms(2-5) len [of 1 gg] len [of 32 NN]
    by (simp_all add: hello_def challenge_bytes_def full)
qed

lemma four_calls:
  assumes "guard e1 s0" and "exec s0 e1 = Some s1" and "guard e2 s1" and "exec s1 e2 = Some s2"
    and "guard e3 s2" and "exec s2 e3 = Some s3" and "guard e4 s3" and "exec s3 e4 = Some s4"
  shows "runs exec guard s0 [e1, e2, e3, e4] s4"
proof -
  have r1: "runs exec guard s0 [e1] s1"
    using one_more [where exec = exec and guard = guard, OF no_call assms(1,2)] by simp
  have r2: "runs exec guard s0 [e1, e2] s2"
    using one_more [where exec = exec and guard = guard, OF r1 assms(3,4)] by simp
  have r3: "runs exec guard s0 [e1, e2, e3] s3"
    using one_more [where exec = exec and guard = guard, OF r2 assms(5,6)] by simp
  show ?thesis using one_more [where exec = exec and guard = guard, OF r3 assms(7,8)] by simp
qed

text \<open>A session that awaits bytes takes up to 4096 of them.\<close>

lemma awaits_guard:
  assumes "awaits ssl st s" and "0 < length p" and "length p \<le> 4096"
  shows "auth_guard (Received env (Some p)) s"
  using assms by (auto simp: awaits_def auth_ok_def static_ok_def auth_fresh_def GetRemainingSpace_def size_sub_def)

lemma password_run:
  assumes "openssl_doc ssl" and "\<not> (ips \<noteq> None \<and> list_ex (\<lambda>banned. banned \<noteq> 0) (the ips))"
    and "length game = 7" and "length platform = 4" and "length os = 4" and "length country = 4"
    and "length rest = 8" and "length login \<le> 17" and "IsAcceptedClientBuild (uint bld)"
    and "plain_row row" and "row_holds row x salt" and "rand_b rnd = int b"
    and "draws_ok (LogonAnswer (Some row) rnd)" and "length crc = 20"
    and "B_bytes = le_encode 32 ((3 * (7 ^ x mod srp_N) + 7 ^ b mod srp_N) mod srp_N)"
    and "c = srp_client_side (ssl_SHA1 ssl) (map byte_of (row_username row)) salt B_bytes x a"
    and "full_length salt B_bytes c" and "last (c_M1 c) \<noteq> 0" and "realms_fit env remote"
  shows "\<exists>s' hello. runs (auth_exec ssl) auth_guard (auth_start ssl remote)
      [Updated env res (\<lambda>_. Some (IpAnswer ips)),
       Received env (Some (challenge_packet game bld platform os country rest login)),
       Updated env res (\<lambda>_. Some (LogonAnswer (Some row) rnd)),
       Received env (Some (logon_packet c crc))] s' \<and>
    sk_writeQueue s' = [packet_buffer hello, packet_buffer (logon_reply_bytes (expversion_of bld) (c_M2 c))] \<and>
    take 32 (drop 3 hello) = B_bytes \<and> take 32 (drop 70 hello) = salt \<and>
    a_status s' = STATUS_AUTHED \<and> a_K s' = le_value (c_K c) \<and>
    a_sql s' = [UPD_LOGONPROOF (AsHexStr ssl (le_value (c_K c))) remote
      (GetLocaleByName (rev (map char_of_byte country))) (rev (c_text (map char_of_byte os @ [CHR 0x00])))
      (row_username row)]"
proof -
  let ?s1 = "connected ssl remote" and ?p = "challenge_packet game bld platform os country rest login"
  note c1 = connected_awaits [of ssl remote]
  have p: "length ?p = 34 + length login" using assms(3-7) by (simp add: challenge_packet_def sizeof_word_def)
  let ?t = "challenge_asked bld os country login ?p ?s1"
  have e2: "auth_exec ssl ?s1 (Received env (Some ?p)) = Some ?t"
    using challenge_event [OF c1(1) assms(3-8)] by (simp add: challenge_asked_def)
  note fr = challenge_asked_frame [OF c1(1,3) p assms(8), of bld os country]
  have g2: "auth_guard (Received env (Some ?p)) ?s1"
    using p assms(8) by (intro awaits_guard [OF c1(1)]) simp_all
  have ok: "auth_ok ssl ?t" using auth_step [OF assms(1) _ g2] e2 c1(1) by (auto simp: awaits_def simp del: auth_exec.simps)
  have closed: "\<not> sk_closed ?t" "sk_writeQueue ?t = []" using fr c1 by (simp_all add: awaits_def)
  have build: "a_expversion ?t \<noteq> NO_VALID_EXP_FLAG" "IsAcceptedClientBuild (uint (a_build ?t))"
    using fr assms(9) by (auto simp: expversion_of_def IsAcceptedClientBuild_def POST_BC_EXP_FLAG_def
        PRE_BC_EXP_FLAG_def NO_VALID_EXP_FLAG_def)
  obtain s hello where e3: "auth_exec ssl ?t (Updated env res (\<lambda>_. Some (LogonAnswer (Some row) rnd))) = Some s"
    and s: "awaits_proof ssl s" "exchange s salt (le_encode 32 (a_B s)) x b"
      "a_accountInfo s = LoadResult row (a_accountInfo ?t)" "sk_writeQueue s = [packet_buffer hello]"
      "a_expversion s = a_expversion ?t" "sk_remoteAddress s = sk_remoteAddress ?t" "a_sql s = a_sql ?t"
      "a_localizationName s = a_localizationName ?t" "a_os s = a_os ?t"
      "a_B s = (3 * (7 ^ x mod srp_N) + 7 ^ b mod srp_N) mod srp_N"
      "hello = challenge_bytes ssl WOW_SUCCESS (a_B s) (a_g s) (a_N s) (a_s s) (rand_unk3 rnd) 0"
    using answer_awaits_proof [OF assms(1) ok fr(1,3) closed fr(10) build assms(10-13), of env res] by blast
  have B: "B_bytes = le_encode 32 (a_B s)" using assms(15) s(10) by simp
  have ag: "agreed ssl s salt B_bytes x a b c"
    using s(2,3) assms(1,16,17) by (simp add: agreed_def B LoadResult_def)
  have val: "a_B s = le_value B_bytes" "a_s s = le_value salt"
    using agreed_numbers(2) [OF ag] ag by (simp_all add: agreed_def exchange_def)
  have layout: "take 32 (drop 3 hello) = B_bytes" "take 32 (drop 70 hello) = salt"
    using challenge_layout [OF assms(1), of B_bytes salt] agreed_lengths [OF ag] assms(17)
    by (simp_all add: s(11) val full_length_def)
  have sql: "a_sql ?s1 = []" by (simp add: connected_def AsyncRead_def new_session_defs)
  obtain s' where e4: "auth_exec ssl s (Received env (Some (logon_packet c crc))) = Some s'"
    and s': "a_status s' = STATUS_AUTHED" "a_K s' = le_value (c_K c)"
      "sk_writeQueue s' = sk_writeQueue s @ [packet_buffer (logon_reply_bytes (a_expversion s) (c_M2 c))]"
      "a_sql s' = a_sql s @ [UPD_LOGONPROOF (AsHexStr ssl (le_value (c_K c))) (sk_remoteAddress s)
        (GetLocaleByName (a_localizationName s)) (a_os s) (acc_Login (a_accountInfo s))]"
    using agreed_logs_in [OF s(1) ag assms(14,18), of env] by blast
  have g1: "auth_guard (Updated env res (\<lambda>_. Some (IpAnswer ips))) (auth_start ssl remote)"
    using assms(19) by (simp add: new_session_defs)
  have g3: "auth_guard (Updated env res (\<lambda>_. Some (LogonAnswer (Some row) rnd))) ?t"
    using assms(13,19) fr c1(4) by simp
  have "length (logon_packet c crc) = 75" using agreed_lengths [OF ag] assms(14) by (simp add: logon_packet_def)
  then have g4: "auth_guard (Received env (Some (logon_packet c crc))) s"
    using s(1) awaits_guard [of ssl STATUS_LOGON_PROOF s "logon_packet c crc" env] by (simp add: awaits_proof_def)
  have "runs (auth_exec ssl) auth_guard (auth_start ssl remote)
      [Updated env res (\<lambda>_. Some (IpAnswer ips)), Received env (Some ?p),
       Updated env res (\<lambda>_. Some (LogonAnswer (Some row) rnd)), Received env (Some (logon_packet c crc))] s'"
    by (rule four_calls [OF g1 start_connects [OF assms(2)] g2 e2 g3 e3 g4 e4])
  moreover have "a_sql s' = [UPD_LOGONPROOF (AsHexStr ssl (le_value (c_K c))) remote
      (GetLocaleByName (rev (map char_of_byte country))) (rev (c_text (map char_of_byte os @ [CHR 0x00])))
      (row_username row)]"
    using s'(4) s(3,6-9) fr sql c1(4) by (simp add: LoadResult_def)
  ultimately show ?thesis
    using s'(1-3) s(4,5) fr(8) layout by (intro exI [of _ s'] exI [of _ hello]) simp
qed

text \<open>C5: \<^bold>\<open>Who knows the password gets in, with the same key.\<close> A client connects, names its account,
  takes the salt and \<open>B\<close> from the challenge, computes its side of SRP6 and sends its proof: the server
  answers with the proof the client expects, the session is authenticated, holds the client's
  session key, and stores it once for the account. (The verifier is \<open>g ^ x mod N\<close>, and it and the
  salt are stored in full length; the address is not banned; the account is neither locked nor
  banned nor asks for a token; the build is accepted; neither the proof nor another number of the
  exchange ends in a zero byte; the realm list fits into its packet.)\<close>

theorem right_password_logs_in:
  assumes "openssl_doc ssl" and "\<not> (ips \<noteq> None \<and> list_ex (\<lambda>banned. banned \<noteq> 0) (the ips))"
    and "length game = 7" and "length platform = 4" and "length os = 4" and "length country = 4"
    and "length rest = 8" and "length login \<le> 17" and "IsAcceptedClientBuild (uint bld)"
    and "plain_row row" and "row_holds row x salt" and "rand_b rnd = int b"
    and "draws_ok (LogonAnswer (Some row) rnd)" and "length crc = 20"
    and "B_bytes = le_encode 32 ((3 * (7 ^ x mod srp_N) + 7 ^ b mod srp_N) mod srp_N)"
    and "c = srp_client_side (ssl_SHA1 ssl) (map byte_of (row_username row)) salt B_bytes x a"
    and "full_length salt B_bytes c" and "last (c_M1 c) \<noteq> 0" and "realms_fit env remote"
  shows "\<exists>s' hello. runs (auth_exec ssl) auth_guard (auth_start ssl remote)
      [Updated env res (\<lambda>_. Some (IpAnswer ips)),
       Received env (Some (challenge_packet game bld platform os country rest login)),
       Updated env res (\<lambda>_. Some (LogonAnswer (Some row) rnd)),
       Received env (Some (logon_packet c crc))] s' \<and>
    sk_writeQueue s' = [packet_buffer hello, packet_buffer (logon_reply_bytes (expversion_of bld) (c_M2 c))] \<and>
    take 32 (drop 3 hello) = B_bytes \<and> take 32 (drop 70 hello) = salt \<and>
    a_status s' = STATUS_AUTHED \<and> a_K s' = le_value (c_K c) \<and>
    a_sql s' = [UPD_LOGONPROOF (AsHexStr ssl (le_value (c_K c))) remote
      (GetLocaleByName (rev (map char_of_byte country))) (rev (c_text (map char_of_byte os @ [CHR 0x00])))
      (row_username row)]"
  by (rule password_run [OF assms])

text \<open>The example: a verifier for \<open>x = 89\<close>, a salt of nines, an empty account name.\<close>

definition toy_row :: logon_row where
  "toy_row = \<lparr>row_id = 1, row_username = '''', row_locked = False, row_lock_country = '''', row_last_ip = '''',
     row_failed_logins = 0, row_banned = 0, row_permanently_banned = 0, row_gmlevel = 0, row_token_key = '''',
     row_sha_pass_hash = '''',
     row_v = ''039DD1F19A0696BBA997A9FA8FD1398C5E98B92E39ACA36623146C2F14C6C7C7'',
     row_s = ''0909090909090909090909090909090909090909090909090909090909090909''\<rparr>"

lemma toy_row_ok: "plain_row toy_row" "row_holds toy_row 89 (replicate 32 9)"
  by (code_simp, code_simp)

lemma toy_logon:
  defines "ssl \<equiv> toy_ssl (toy_H [64])" and "rnd \<equiv> \<lparr>rand_s = 0, rand_b = int 1, rand_unk3 = 0\<rparr>"
    and "nil \<equiv> \<lambda>n. replicate n (0 :: u8)"
  shows "openssl_doc ssl" and "\<not> (None \<noteq> None \<and> list_ex (\<lambda>banned. banned \<noteq> 0) (the (None :: u64 list option)))"
    and "length (nil 7) = 7" and "length (nil 4) = 4" and "length (nil 8) = 8" and "length (nil 20) = 20"
    and "length ([] :: u8 list) \<le> 17" and "IsAcceptedClientBuild (uint (8606 :: u16))"
    and "rand_b rnd = int 1" and "draws_ok (LogonAnswer (Some toy_row) rnd)"
    and "toy_B = le_encode 32 ((3 * (7 ^ 89 mod srp_N) + 7 ^ 1 mod srp_N) mod srp_N)"
    and "toy_client [64] = srp_client_side (ssl_SHA1 ssl) (map byte_of (row_username toy_row)) (replicate 32 9) toy_B 89 89"
    and "full_length (replicate 32 9) toy_B (toy_client [64])" and "last (c_M1 (toy_client [64])) \<noteq> 0"
    and "realms_fit toy_env ''''"
proof -
  show "openssl_doc ssl" unfolding ssl_def by (rule toy_H_doc)
  show "last (c_M1 (toy_client [64])) \<noteq> 0" by code_simp
  show "full_length (replicate 32 9) toy_B (toy_client [64])" by (rule toy_full(1))
  show "IsAcceptedClientBuild (uint (8606 :: u16))" by code_simp
qed (simp_all add: nil_def rnd_def toy_B_def toy_client_def ssl_def toy_ssl_def toy_row_def realms_fit_def toy_env_def)

theorem right_password_logs_in_witness:
  "\<exists>s'. runs (auth_exec (toy_ssl (toy_H [64]))) auth_guard (auth_start (toy_ssl (toy_H [64])) '''')
      [Updated toy_env (\<lambda>_. WouldBlock) (\<lambda>_. Some (IpAnswer None)),
       Received toy_env (Some (challenge_packet (replicate 7 0) 8606 (replicate 4 0) (replicate 4 0) (replicate 4 0)
         (replicate 8 0) [])),
       Updated toy_env (\<lambda>_. WouldBlock)
         (\<lambda>_. Some (LogonAnswer (Some toy_row) \<lparr>rand_s = 0, rand_b = int 1, rand_unk3 = 0\<rparr>)),
       Received toy_env (Some (logon_packet (toy_client [64]) (replicate 20 0)))] s' \<and>
    a_status s' = STATUS_AUTHED"
  using right_password_logs_in [OF toy_logon(1-3,4,4,4,5,7,8) toy_row_ok toy_logon(9,10,6,11-15),
      of "\<lambda>_. WouldBlock"] by blast

lemma toy_awaits: "awaits_proof ssl (toy_session ssl)"
  using toy_session_ok
  by (simp add: awaits_proof_def awaits_def) (simp add: toy_session_def new_AuthSession_def new_Socket_def
      default_MessageBuffer_def new_MessageBuffer_def mb_Resize_def auth_session.defs socket.defs
      POST_BC_EXP_FLAG_def NO_VALID_EXP_FLAG_def)

section \<open>Short proofs\<close>

lemma trim_short:
  assumes "last D = 0" and "\<exists>d \<in> set D. d \<noteq> 0"
  shows "take (length D) (replicate (length D - length (trim D)) 0 @ trim D) \<noteq> D"
proof
  obtain d where d: "d \<in> set D" "d \<noteq> 0" using assms(2) by blast
  have ne: "trim D \<noteq> []" using d trim_props(2) [of D] by (metis append_Nil in_set_replicate)
  have le: "length (trim D) \<le> length D" using trim_props(2) [of D] by (metis length_append le_add1)
  assume "take (length D) (replicate (length D - length (trim D)) 0 @ trim D) = D"
  then have "replicate (length D - length (trim D)) 0 @ trim D = D" using le by simp
  then have "last (trim D) = last D" using ne by (metis last_appendR)
  then show False using trim_props(1) [of D] ne assms(1) by simp
qed

text \<open>C25: \<^bold>\<open>A right proof that ends in a zero byte is refused.\<close> The server turns its digest into a
  number and back, and a zero at the end comes back at the front. So a client that knows the
  password and sends exactly the digest the server computed is told that the account is unknown
  when the last byte is zero (unless all are), once in 256 logons, and it counts as a failed one.\<close>

theorem short_proof_refused:
  assumes "awaits_proof ssl s" and "agreed ssl s salt B_bytes x a b c" and "length crc = 20"
    and "last (c_M1 c) = 0" and "\<exists>d \<in> set (c_M1 c). d \<noteq> 0"
  shows "\<exists>s'. auth_exec ssl s (Received env (Some (logon_packet c crc))) = Some s' \<and>
    a_status s' = STATUS_CLOSED \<and>
    sk_writeQueue s' = sk_writeQueue s @ [packet_buffer [AUTH_LOGON_PROOF, WOW_FAIL_UNKNOWN_ACCOUNT, 3, 0]] \<and>
    (WrongPass_MaxCount env > 0 \<longrightarrow> UPD_FAILEDLOGINS (acc_Login (a_accountInfo s)) \<in> set (a_sql s'))"
proof -
  define r where "r = receive (logon_packet c crc) s"
  note ag = agreed_receive [OF assms(2), of "logon_packet c crc", folded r_def]
  have doc: "openssl_doc ssl" using assms(2) by (simp add: agreed_def)
  have len: "length (c_M1 c) = 20" by (rule agreed_lengths(5) [OF ag])
  have wrong: "\<not> proof_right ssl (SetBinary ssl (c_A c)) (c_M1 c) r"
    using agreed_proof [OF ag] agreed_numbers(1,3) [OF ag] trim_short [OF assms(4,5)] len
    by (simp add: proof_right_def SHA_DIGEST_LENGTH_def proof_M_def AsByteArray_SetBinary [OF doc])
  have fr: "sk_writeQueue r = sk_writeQueue s" "a_accountInfo r = a_accountInfo s" "IsOpen r"
    using assms(1) by (simp_all add: r_def receive_def Let_def awaits_proof_def awaits_def auth_ok_def static_ok_def
      IsOpen_def)
  have async: "a_status (AsyncRead z) = a_status z" "a_sql (AsyncRead z) = a_sql z"
    "sk_writeQueue (AsyncRead z) = sk_writeQueue z" for z :: auth_session
    by (simp_all add: AsyncRead_def)
  show ?thesis
    using proof_event [OF assms(1) doc agreed_lengths(1,5) [OF assms(2)] assms(3) A_usable [OF assms(2)], of env]
      wrong fr
    by (simp add: async on_buffer_def sends_def QueuePacket_def keyed_def wrong_password_def auth_Execute_def
        IsOpen_def Let_def flip: logon_packet_proof r_def)
qed

theorem short_proof_refused_witness:
  "\<exists>s'. auth_exec (toy_ssl (toy_H [64, 176])) (toy_session (toy_ssl (toy_H [64, 176])))
      (Received toy_env (Some (logon_packet (toy_client [64, 176]) (replicate 20 0)))) = Some s' \<and>
    a_status s' = STATUS_CLOSED"
proof -
  have "last (c_M1 (toy_client [64, 176])) = 0" "\<exists>d \<in> set (c_M1 (toy_client [64, 176])). d \<noteq> 0"
    by (code_simp, code_simp)
  from short_proof_refused [OF toy_awaits toy_agreed [OF toy_full(2)] _ this, of "replicate 20 0" toy_env]
  show ?thesis by auto
qed

section \<open>Every session\<close>

text \<open>C7: \<^bold>\<open>No event breaks a logon session.\<close> In every state a connection can reach, whatever bytes
  the client sends in whatever pieces, whatever the database answers and whenever the socket takes
  packets, the next event is handled to its end: the read loop terminates, no read leaves the
  vector of the read buffer, no packet overruns its buffer and the assertion on \<open>g ^ b mod N\<close> holds.
  (\<open>auth_guard\<close>: the entries of the realm list take at most 4000 bytes, which the code does not
  check, so that a longer list overruns the 4096 bytes of its packet; a read delivers bytes, at most
  as many as it was asked for; queries are answered in their kind and random numbers are not negative.)\<close>

theorem logon_events_return:
  assumes "openssl_doc ssl" and "reachable (auth_exec ssl) auth_guard (auth_start ssl remote) s"
    and "auth_guard e s"
  shows "\<exists>s'. auth_exec ssl s e = Some s' \<and> length (mb_storage (sk_readBuffer s')) = 4096 \<and>
    length (a_queries s') \<le> 1"
proof -
  have "auth_ok ssl s" using logon.reachable_inv [OF assms(2)] assms(1) start_ok by blast
  from logon.returns [of ssl s e] this assms(1,3)
  obtain s' where s': "auth_exec ssl s e = Some s'" "auth_ok ssl s'" by blast
  then show ?thesis using queries_cases [OF s'(2)] by (auto simp: auth_ok_def static_ok_def)
qed

theorem logon_events_return_witness:
  "\<exists>s'. auth_exec (toy_ssl (toy_H [])) (auth_start (toy_ssl (toy_H [])) ''127.0.0.1'')
      (Updated toy_env (\<lambda>_. WouldBlock) (\<lambda>_. Some (IpAnswer None))) = Some s' \<and>
    length (mb_storage (sk_readBuffer s')) = 4096"
proof -
  have "auth_guard (Updated toy_env (\<lambda>_. WouldBlock) (\<lambda>_. Some (IpAnswer None)))
      (auth_start (toy_ssl (toy_H [])) ''127.0.0.1'')"
    by (simp add: new_session_defs realms_fit_def toy_env_def)
  from logon_events_return [OF toy_H_doc reachable.at_start this] show ?thesis by blast
qed

text \<open>C6: \<^bold>\<open>No realm list and no stored session key without a proof.\<close> When a session has reached the
  state in which it answers requests for the realm list, or has stored a session key for the world
  server, then one of the events before was the arrival of bytes with which the buffer started
  with a logon proof whose digest is the session's own, for an \<open>A\<close> that is not 0 modulo \<open>N\<close> and with
  the right token where the account has one, or with a reconnect proof over the stored key.\<close>

theorem no_logon_without_proof:
  assumes "openssl_doc ssl" and "runs (auth_exec ssl) auth_guard (auth_start ssl remote) es s"
    and "logged_on s"
  shows "\<exists>es1 env bytes es2 s1. es = es1 @ Received env (Some bytes) # es2 \<and>
    runs (auth_exec ssl) auth_guard (auth_start ssl remote) es1 s1 \<and>
    (logon_proved ssl env (receive bytes s1) \<or> reconnect_proved ssl (receive bytes s1))"
  using assms(2,3)
proof (induction rule: runs.induct)
  case no_call
  then show ?case using start_not_logged_on by simp
next
  case (one_more cs s c s')
  have "auth_ok ssl s" using logon.runs_inv [OF one_more(1)] assms(1) start_ok by blast
  from step_logs_on [OF assms(1) this one_more(2,3,5)] show ?case
  proof
    assume "logged_on s"
    from one_more(4) [OF this] obtain es1 env bytes es2 s1 where
      "cs = es1 @ Received env (Some bytes) # es2"
      "runs (auth_exec ssl) auth_guard (auth_start ssl remote) es1 s1"
      "logon_proved ssl env (receive bytes s1) \<or> reconnect_proved ssl (receive bytes s1)" by blast
    then show ?thesis by (metis append.assoc append_Cons)
  next
    assume "\<exists>env bytes. c = Received env (Some bytes) \<and>
      (logon_proved ssl env (receive bytes s) \<or> reconnect_proved ssl (receive bytes s))"
    then show ?thesis using one_more(1) by (metis append.right_neutral)
  qed
qed

theorem no_logon_without_proof_witness:
  "\<exists>env bytes s1. logon_proved (toy_ssl (toy_H [64])) env (receive bytes s1) \<or>
    reconnect_proved (toy_ssl (toy_H [64])) (receive bytes s1)"
proof -
  obtain s' es where run: "runs (auth_exec (toy_ssl (toy_H [64]))) auth_guard
      (auth_start (toy_ssl (toy_H [64])) '''') es s'" and "a_status s' = STATUS_AUTHED"
    using password_run [OF toy_logon(1-3,4,4,4,5,7,8) toy_row_ok toy_logon(9,10,6,11-15)] by blast
  then have "logged_on s'" by (simp add: logged_on_def)
  from no_logon_without_proof [OF toy_H_doc run this] show ?thesis by blast
qed

text \<open>C26: \<^bold>\<open>The lock to a country is never enforced.\<close> No assignment in the server gives a session a
  country, so in every reachable state the answer to a logon challenge is one of the other ones: an
  account that is locked to a country and not to an address is challenged from everywhere.\<close>

theorem country_lock_ignored:
  assumes "openssl_doc ssl" and "reachable (auth_exec ssl) auth_guard (auth_start ssl remote) s"
  shows "logon_refusal (s\<lparr>a_accountInfo := acc\<rparr>) \<noteq> Some WOW_FAIL_UNLOCKABLE_LOCK \<and>
    (\<not> acc_IsLockedToIP acc \<and> \<not> acc_IsBanned acc \<longrightarrow> logon_refusal (s\<lparr>a_accountInfo := acc\<rparr>) = None)"
proof -
  have "auth_ok ssl s" using logon.reachable_inv [OF assms(2)] assms(1) start_ok by blast
  then have "a_ipCountry s = []" by (simp add: auth_ok_def static_ok_def)
  then show ?thesis
    by (simp add: logon_refusal_def Let_def WOW_FAIL_LOCKED_ENFORCED_def WOW_FAIL_UNLOCKABLE_LOCK_def
        WOW_FAIL_BANNED_def WOW_FAIL_SUSPENDED_def)
qed

theorem country_lock_ignored_witness:
  "logon_refusal ((auth_start (toy_ssl (toy_H [])) ''127.0.0.1'')
     \<lparr>a_accountInfo := new_AccountInfo\<lparr>acc_LockCountry := ''FR''\<rparr>\<rparr>) = None"
  using country_lock_ignored [where remote = "''127.0.0.1''" and acc = "new_AccountInfo\<lparr>acc_LockCountry := ''FR''\<rparr>",
      OF toy_H_doc [of "[]"] reachable.at_start]
  by (simp add: new_AccountInfo_def)

end
