(* ===== verification/Spec2Isabelle.thy ===== *)
theory Spec2Isabelle
  imports ByteBufferProps ObjectGuid WorldPacket ChannelMgrProps ReputationProps RBACProps
    EventMapProps MessageBuffer SocialProps EventProcessorProps
    CombatRuns MotionUpdate GroupRollsProps GroupProps GroupRights GroupTurns AuthProps
begin

text \<open>
  \<^bold>\<open>A verification library for the TBC game server.\<close>

  The repository is a C++ server for a 2.4.3 game client: \<^verbatim>\<open>src/src/common\<close> holds utilities,
  \<^verbatim>\<open>src/src/server/shared\<close> packets and networking, \<^verbatim>\<open>src/src/server/authserver\<close> the logon server,
  \<^verbatim>\<open>src/src/server/game\<close> the game itself. A
  client's bytes arrive in a \<open>MessageBuffer\<close>, become a \<open>WorldPacket\<close> (a \<open>ByteBuffer\<close> with an
  opcode), and a session handler reads it and calls the component it is for; components answer
  with packets. This library models that path and some fifteen components with a state of their own.

  \<^bold>\<open>Shared theories.\<close>
  \<^item> \<open>Prelude\<close>: word types, bit flags, the 64-bit sum of \<open>size_t\<close>, the exception monad
    \<open>throwing\<close> (a state is returned with every error, as the code leaves it).
  \<^item> \<open>StdContainers\<close>: \<open>std::map\<close>, \<open>std::multimap\<close> and \<open>std::set\<close> as lists in key order, with
    the laws of find, put, erase and the inserting \<open>operator[]\<close>.
  \<^item> \<open>Machine\<close>: running a list of operations, the contract \<open>stateful\<close> (every operation keeps an
    invariant) and its extension \<open>simulated\<close> (every operation refines an abstract one). Each
    component below interprets one of them on its own operations.

  \<^bold>\<open>Components.\<close>
  \<^item> \<open>ByteBuffer\<close>, \<open>ByteBufferProps\<close> (\<^verbatim>\<open>shared/Packets/ByteBuffer.h\<close>, \<^verbatim>\<open>.cpp\<close>): storage and positions,
    all typed operators, strings, packed GUIDs, container templates, exceptions. The locale
    \<open>wire_type\<close> is the contract between a writer and a reader of the same type; vectors, lists
    and (by \<open>wire_pair\<close>) maps inherit it from their elements. Properties: round trips, memory
    safety of reads, and two defects (a wrapping skip, a swapped message).
  \<^item> \<open>ObjectGuid\<close> (\<^verbatim>\<open>game/Entities/Object/ObjectGuid.h\<close>, \<^verbatim>\<open>.cpp\<close>): construction and fields of the
    64-bit GUID, predicates, names, generators. Properties: field round trip, injectivity, no
    repeated counter.
  \<^item> \<open>WorldPacket\<close> (\<^verbatim>\<open>game/Server/Packets/WorldPacket.h\<close>): packets and the writes of the handlers;
    \<open>packet_is\<close> says which bytes a packet holds.
  \<^item> \<open>Channel\<close>, \<open>ChannelProps\<close> (\<^verbatim>\<open>game/Chat/Channels/Channel.h\<close>, \<^verbatim>\<open>.cpp\<close>): one chat channel, every
    operation and every notice packet. The rest of the server is the record \<open>server\<close>, given anew
    with each call, so that properties hold whatever it answers. Properties: one owner, on the
    channel; who may change what; bans; succession; the list packet; two defects.
  \<^item> \<open>ChannelMgr\<close>, \<open>ChannelMgrProps\<close> (\<^verbatim>\<open>game/Chat/Channels/ChannelMgr.h\<close>,
    \<^verbatim>\<open>game/Handlers/ChannelHandler.cpp\<close>): the two faction tables and the nineteen client
    handlers, from the raw packet to the effects. Properties: locality of a packet, consistency
    of all channels after any packets, deletion of an empty channel.
  \<^item> \<open>Reputation\<close>, \<open>ReputationProps\<close> (\<^verbatim>\<open>game/Reputation/ReputationMgr.h\<close>, \<^verbatim>\<open>.cpp\<close>): a player's
    faction standings, ranks, flags, counters, packets, load and save. Properties: rank
    intervals, clamping, exact counters, swap, the initial packet, what saving writes, and the
    defect of dropping.
  \<^item> \<open>RBAC\<close>, \<open>RBACProps\<close> (\<^verbatim>\<open>game/Accounts/RBAC.h\<close>, \<^verbatim>\<open>.cpp\<close>, the permission half of
    \<^verbatim>\<open>AccountMgr.cpp\<close>): permission tables, an account's grants and denials. Properties: expansion
    is reachability, permissions are granted minus denied, what loading decides, revocation
    undoes a grant, and the defect of access updates.
  \<^item> \<open>EventMap\<close>, \<open>EventMapProps\<close> (\<^verbatim>\<open>common/Utilities/EventMap.h\<close>, \<^verbatim>\<open>.cpp\<close>): the timer of scripted
    events. Properties: what is executed and when, delaying a group, and the reading of
    \<open>SetMinimalDelay\<close>.
  \<^item> \<open>MessageBuffer\<close> (\<^verbatim>\<open>shared/Networking/MessageBuffer.h\<close>): the network buffer and its refinement
    to a bounded byte queue.

  \<^item> \<open>EventProcessor\<close>, \<open>EventProcessorProps\<close> (\<^verbatim>\<open>common/Utilities/EventProcessor.h\<close>, \<^verbatim>\<open>.cpp\<close>): the
    queue of an object's timed events, with callbacks that may use it. Properties: when an
    update returns, what killing all events does.
  \<^item> \<open>Social\<close>, \<open>SocialProps\<close> (\<^verbatim>\<open>game/Entities/Player/SocialMgr.h\<close>, \<^verbatim>\<open>.cpp\<close>,
    \<^verbatim>\<open>game/Handlers/SocialHandler.cpp\<close>): friends and ignores, the manager and the client handlers.
    Properties: refinement to two bounded sets with the table in step, and the lost note.

  \<^item> \<open>Combat\<close>, \<open>CombatProps\<close>, \<open>CombatRuns\<close> (\<^verbatim>\<open>game/Combat/CombatManager.h\<close>, \<^verbatim>\<open>.cpp\<close>): the
    combat references between units, one world of managers and a heap of references. The entry
    points of the AI are hooks that may change that world in the middle of an operation.
    \<open>CombatProps\<close>: the documented invariant, whatever hooks that keep it do. \<open>CombatRuns\<close>:
    with hooks that only watch, operations return, and what they do exactly.
  \<^item> \<open>Motion\<close>, \<open>MotionProps\<close>, \<open>MotionUpdate\<close> (\<^verbatim>\<open>game/Movement/MotionMaster.h\<close>, \<^verbatim>\<open>.cpp\<close>): which
    movement generator of a unit is in charge; the generators are objects with virtual functions
    that may call back. Properties: refinement to a map from priorities to generators, the unit's
    base states, what an update does with the calls it delays, and the defect of \<open>Remove\<close>.
  \<^item> \<open>GroupRolls\<close>, \<open>GroupRollsProps\<close> (\<^verbatim>\<open>game/Groups/Group.h\<close>, the loot rolls of \<^verbatim>\<open>Group.cpp\<close>):
    opening rolls for a loot, votes, the end of a roll, leaving. Properties: who gets the item,
    when a roll ends, what leaving keeps, and the defects of absent needers and repeated votes.
  \<^item> \<open>Group\<close>, \<open>GroupMembers\<close>, \<open>GroupLeave\<close>, \<open>GroupHandler\<close> (\<^verbatim>\<open>game/Groups/Group.h\<close>, \<^verbatim>\<open>.cpp\<close>,
    \<^verbatim>\<open>GroupMgr.cpp\<close>, \<^verbatim>\<open>game/Handlers/GroupHandler.cpp\<close>, the group part of \<^verbatim>\<open>Player.cpp\<close>): parties and
    raids. Groups and players are objects on two heaps with pointers both ways; an access to an
    object that is gone and a failed assertion are \<open>None\<close>. The rolls of a group are those of
    \<open>GroupRolls\<close>. \<open>GroupOk\<close> states the invariant \<open>gw_ok\<close>; \<open>GroupKeeps\<close> to \<open>GroupLogins\<close> prove
    operation by operation that it returns and keeps it (\<open>GroupJoins\<close>, \<open>GroupCreates\<close>,
    \<open>GroupAccepts\<close>: coming in; \<open>GroupDisbands\<close>, \<open>GroupLeaders\<close>, \<open>GroupRemoves\<close>: going out;
    \<open>GroupCalls\<close>, \<open>GroupSubgroups\<close>, \<open>GroupRaids\<close>, \<open>GroupInvites\<close>: the client calls;
    \<open>GroupLogins\<close>: login and logout); \<open>GroupReach\<close> puts all calls into one machine with guards
    and interprets the contract \<open>guarded\<close> of \<open>Guarded\<close> on it. \<open>GroupTrio\<close> holds the examples.
    Properties: \<open>GroupProps\<close> (reachable states, membership, succession, swaps), \<open>GroupRights\<close>
    (ranks, and the defects of kicking by GUID and of a declined invitation), \<open>GroupTurns\<close> (the
    round robin, icons, loading). The guards: a caller has a player; numbers are left when a group
    comes into being; the database row of a player agrees with his group; no invitation to an
    existing group is declined while its leader is online (the defect); a loot vote, which is one of
    the calls, is the first of the player in a roll whose item is still there (a second one is a
    defect, too); the code that starts rolls and ends those that time out leaves exact counters. The
    invariant is for groups without a battleground.
  \<^item> \<open>BigNumber\<close> (\<^verbatim>\<open>common/Cryptography/BigNumber.h\<close>, \<^verbatim>\<open>.cpp\<close>, \<^verbatim>\<open>SHA1.cpp\<close>, \<^verbatim>\<open>HMACSHA1.cpp\<close>), \<open>Socket\<close>
    (\<^verbatim>\<open>shared/Networking/Socket.h\<close>), \<open>RealmList\<close> (\<^verbatim>\<open>shared/Realm\<close>, \<^verbatim>\<open>authserver/Authentication\<close>) and
    \<open>AuthSession\<close> (\<^verbatim>\<open>authserver/Server/AuthSession.h\<close>, \<^verbatim>\<open>.cpp\<close>): the logon server, a session from
    the first byte over the challenge, the SRP6 proof, the token and the reconnection to the realm
    list. The functions of OpenSSL are the record \<open>openssl\<close>, what its manual says of them the
    hypothesis \<open>openssl_doc\<close>; what Boost.Asio says of addresses is the record \<open>asio\<close>. A session
    changes by events: bytes arrive, the network thread updates it (with the answers of the
    database), the socket becomes writable. \<open>AuthPackets\<close> and \<open>AuthNumbers\<close>: the bytes of packets and
    numbers; \<open>AuthKeeps\<close> and \<open>AuthRealms\<close>: each handler and callback returns and keeps the
    invariant; \<open>AuthReach\<close>: the read loop, and the machine as an instance of \<open>guarded\<close> (guards:
    a read that was started finishes with bytes that fit the free space, answers are of the kind
    of the query, the realm list fits a packet). \<open>AuthProved\<close>: which events log a session on.
    \<open>AuthSrp\<close>: the client's side of SRP6, from the protocol, and that both sides agree;
    \<open>AuthArrives\<close>: whole packets and the database's answer. \<open>AuthToy\<close> holds the examples.
    Properties (\<open>AuthProps\<close>): who knows the password gets in, nobody without a proof does, every
    event returns, and the defects of short proofs and of the lock to a country.

  \<^bold>\<open>Conventions.\<close> An operation takes its arguments and then the state, and returns the state after
  the call (with a result where the code returns one). Packets sent, calls of the player and
  database statements are appended to a list in the state (\<open>sent\<close>, \<open>outbox\<close>, effects), in the
  order of the calls. Definitions keep the source's names, with a prefix where a name clashes
  (\<open>ch_\<close>, \<open>rep_\<close>, \<open>rd_\<close>, \<open>em_\<close>, \<open>mb_\<close>, \<open>bb_\<close>, \<open>auth_\<close>, \<open>sk_\<close>, \<open>bn_\<close>).

  \<^bold>\<open>Bounds and termination.\<close> One definition counts its turns: \<open>handle_turns\<close> of \<open>Socket\<close> gets one
  more than there are packets in the queue, and every turn that goes on removes a packet. A loop that callbacks may keep running is a
  partial function into \<open>option\<close> (\<open>ep_loop\<close>, \<open>kill_loop\<close>, \<open>iterate\<close>, \<open>end_all_loop\<close>,
  \<open>pop_all\<close>, \<open>clear_loop\<close>, \<open>resolve_loop\<close>), and when it returns is a property.
  The string, packing, expansion, minimal-delay and end-of-roll loops terminate by a measure (bytes left, the GUID's
  value, known permissions not yet expanded, events below the delay, rolls left), the read loop of
  the logon session by its state (\<open>status_rank\<close>). Integers are words of the source's width; the
  reputation arithmetic is \<open>int\<close> with the range hypothesis stated where a signed overflow would
  be undefined. Statements about packets assume that they stay below the 10 MB at which
  \<open>ByteBuffer::append\<close> stops the process (\<open>room\<close>), and positions below \<open>2^63\<close>.

  \<^bold>\<open>Not modelled.\<close> Logging; the database, the operating system's sockets, OpenSSL and threads; everything whose meaning is floating
  point geometry or data of the world database (maps, movement, spells, scripts, loot tables);
  vendored libraries and tools. Of groups: the
  bindings to instances, the experience of a kill, the statistics of distant members and the rules of
  the battleground queue. Next, in this order: task schedulers, threat lists, guild ranks, the auction
  house, the battleground queue, the grid states.
\<close>

end
